(* ===== verification/KL_Prelude.thy ===== *)
theory KL_Prelude
  imports Main "HOL-Library.Sublist" "HOL-Library.Word"
begin

section \<open>Shared vocabulary of the Keylatch development\<close>

text \<open>
  What the component theories share: the Go string functions the sources call, on byte
  strings (a \<open>char\<close> is one byte, as in Go's \<open>string\<close>); times and durations in
  nanoseconds; files that hold one JSON document, up to the JSON codec; and the lemma
  collections \<open>gostr\<close> (characteristic facts of the string functions) and \<open>fileio\<close>.

  Case conversion and white space follow the ASCII rules; bytes above 127 are left alone.
\<close>

named_theorems gostr \<open>facts about the Go string functions\<close>
named_theorems fileio \<open>facts about reading and writing JSON files\<close>

subsection \<open>Strings\<close>

type_synonym gostring = "string"

definition HasPrefix :: "gostring \<Rightarrow> gostring \<Rightarrow> bool" where
  "HasPrefix s p = (take (length p) s = p)"

definition HasSuffix :: "gostring \<Rightarrow> gostring \<Rightarrow> bool" where
  "HasSuffix s p = (length p \<le> length s \<and> drop (length s - length p) s = p)"

definition TrimSuffix :: "gostring \<Rightarrow> gostring \<Rightarrow> gostring" where
  "TrimSuffix s p = (if HasSuffix s p then take (length s - length p) s else s)"

text \<open>\<open>strings.CutSuffix\<close>: the text before the suffix and whether it was there.\<close>

definition CutSuffix :: "gostring \<Rightarrow> gostring \<Rightarrow> gostring \<times> bool" where
  "CutSuffix s p = (if HasSuffix s p then (take (length s - length p) s, True) else (s, False))"

text \<open>\<open>strings.Index\<close>; \<open>None\<close> stands for \<open>-1\<close>.\<close>

fun Index :: "gostring \<Rightarrow> gostring \<Rightarrow> nat option" where
  "Index [] p = (if p = [] then Some 0 else None)"
| "Index (c # s) p = (if HasPrefix (c # s) p then Some 0 else map_option Suc (Index s p))"

definition Contains :: "gostring \<Rightarrow> gostring \<Rightarrow> bool" where
  "Contains s p = (Index s p \<noteq> None)"

fun LastIndex :: "gostring \<Rightarrow> gostring \<Rightarrow> nat option" where
  "LastIndex [] p = (if p = [] then Some 0 else None)"
| "LastIndex (c # s) p =
     (case LastIndex s p of Some i \<Rightarrow> Some (Suc i)
      | None \<Rightarrow> if HasPrefix (c # s) p then Some 0 else None)"

text \<open>\<open>strings.Cut\<close> and \<open>strings.SplitN\<close> for a one-byte separator.\<close>

definition Cut :: "gostring \<Rightarrow> char \<Rightarrow> (gostring \<times> gostring) option" where
  "Cut s c = (if c \<in> set s
              then Some (takeWhile (\<lambda>d. d \<noteq> c) s, tl (dropWhile (\<lambda>d. d \<noteq> c) s)) else None)"

fun SplitN :: "nat \<Rightarrow> gostring \<Rightarrow> char \<Rightarrow> gostring list" where
  "SplitN 0 s c = []"
| "SplitN (Suc 0) s c = [s]"
| "SplitN (Suc (Suc n)) s c =
     (case Cut s c of None \<Rightarrow> [s] | Some (a, b) \<Rightarrow> a # SplitN (Suc n) b c)"

fun Join :: "gostring list \<Rightarrow> gostring \<Rightarrow> gostring" where
  "Join [] sep = []"
| "Join [x] sep = x"
| "Join (x # y # xs) sep = x @ sep @ Join (y # xs) sep"

definition byte_of :: "char \<Rightarrow> nat" where
  "byte_of c = (of_char c :: nat)"

lemma byte_of_less: "byte_of c < 256"
  using range_nat_of_char by (metis atLeastLessThan_iff byte_of_def rangeI)

definition is_space :: "char \<Rightarrow> bool" where
  "is_space c = (byte_of c = 32 \<or> (9 \<le> byte_of c \<and> byte_of c \<le> 13))"

definition is_upper :: "char \<Rightarrow> bool" where
  "is_upper c = (65 \<le> byte_of c \<and> byte_of c \<le> 90)"

definition is_lower :: "char \<Rightarrow> bool" where
  "is_lower c = (97 \<le> byte_of c \<and> byte_of c \<le> 122)"

definition is_digit :: "char \<Rightarrow> bool" where
  "is_digit c = (48 \<le> byte_of c \<and> byte_of c \<le> 57)"

definition lower_char :: "char \<Rightarrow> char" where
  "lower_char c = (if is_upper c then char_of (byte_of c + 32) else c)"

definition ToLower :: "gostring \<Rightarrow> gostring" where
  "ToLower s = map lower_char s"

definition EqualFold :: "gostring \<Rightarrow> gostring \<Rightarrow> bool" where
  "EqualFold a b = (ToLower a = ToLower b)"

text \<open>\<open>strings.Fields\<close>: the maximal runs of non-space bytes.\<close>

fun Fields_aux :: "gostring \<Rightarrow> gostring \<Rightarrow> gostring list" where
  "Fields_aux acc [] = (if acc = [] then [] else [acc])"
| "Fields_aux acc (c # s) =
     (if is_space c then (if acc = [] then Fields_aux [] s else acc # Fields_aux [] s)
      else Fields_aux (acc @ [c]) s)"

definition Fields :: "gostring \<Rightarrow> gostring list" where
  "Fields s = Fields_aux [] s"

definition TrimSpace :: "gostring \<Rightarrow> gostring" where
  "TrimSpace s = rev (dropWhile is_space (rev (dropWhile is_space s)))"

lemma HasPrefix_prefix [gostr]: "HasPrefix s p \<longleftrightarrow> prefix p s"
  by (metis HasPrefix_def append_eq_conv_conj append_take_drop_id prefix_def)

lemma HasSuffix_suffix [gostr]: "HasSuffix s p \<longleftrightarrow> suffix p s"
  by (metis HasSuffix_def suffix_def suffix_length_le append_take_drop_id append_eq_conv_conj
      diff_diff_cancel length_append add_diff_cancel_right')

lemma HasPrefix_append [simp]: "HasPrefix (p @ s) p"
  by (simp add: HasPrefix_def)

lemma HasSuffix_append [simp]: "HasSuffix (s @ p) p"
  by (simp add: HasSuffix_def)

lemma HasPrefix_Nil [simp]: "HasPrefix s []"
  by (simp add: HasPrefix_def)

lemma Cut_Some_iff:
  "Cut s c = Some (a, b) \<longleftrightarrow> s = a @ c # b \<and> c \<notin> set a"
proof
  assume h: "Cut s c = Some (a, b)"
  then have "c \<in> set s" by (auto simp: Cut_def split: if_splits)
  then obtain u v where s: "s = u @ c # v" and u: "c \<notin> set u"
    by (meson split_list_first)
  then have "\<forall>d \<in> set u. d \<noteq> c" by auto
  with s have "takeWhile (\<lambda>d. d \<noteq> c) s = u" and "dropWhile (\<lambda>d. d \<noteq> c) s = c # v"
    by simp_all
  with h s u show "s = a @ c # b \<and> c \<notin> set a"
    by (auto simp: Cut_def split: if_splits)
next
  assume h: "s = a @ c # b \<and> c \<notin> set a"
  then have "\<forall>d \<in> set a. d \<noteq> c" by auto
  with h show "Cut s c = Some (a, b)" by (simp add: Cut_def)
qed

lemma Cut_None_iff [simp]: "Cut s c = None \<longleftrightarrow> c \<notin> set s"
  by (simp add: Cut_def)

lemma Cut_append [simp]: "c \<notin> set a \<Longrightarrow> Cut (a @ c # b) c = Some (a, b)"
  by (simp add: Cut_Some_iff)

lemma Contains_iff_sublist [gostr]: "Contains s p \<longleftrightarrow> sublist p s"
proof (induction s)
  case Nil
  then show ?case by (simp add: Contains_def)
next
  case (Cons c s)
  then show ?case
    by (auto simp: Contains_def HasPrefix_prefix sublist_Cons_right)
qed

subsection \<open>Machine integers\<close>

text \<open>Go's \<open>int\<close> and \<open>time.Duration\<close> are 64-bit two's complement.\<close>

type_synonym int64 = "64 word"
type_synonym uint64 = "64 word"

definition max_int64 :: int where "max_int64 = 2 ^ 63 - 1"
definition min_int64 :: int where "min_int64 = - (2 ^ 63)"

text \<open>Two's-complement truncation of a mathematical integer.\<close>

definition wrap64 :: "int \<Rightarrow> int" where
  "wrap64 x = (x + 2 ^ 63) mod 2 ^ 64 - 2 ^ 63"

lemma wrap64_bounds: "min_int64 \<le> wrap64 x" "wrap64 x \<le> max_int64"
proof -
  have "0 \<le> (x + 2 ^ 63) mod 2 ^ 64" and "(x + 2 ^ 63) mod 2 ^ 64 < 2 ^ 64"
    by simp_all
  then show "min_int64 \<le> wrap64 x" "wrap64 x \<le> max_int64"
    by (simp_all add: wrap64_def min_int64_def max_int64_def)
qed

lemma wrap64_id: "min_int64 \<le> x \<Longrightarrow> x \<le> max_int64 \<Longrightarrow> wrap64 x = x"
  by (simp add: wrap64_def min_int64_def max_int64_def)

text \<open>\<open>strconv.Itoa\<close>.\<close>

fun decimal :: "nat \<Rightarrow> gostring" where
  "decimal n = (if n < 10 then [char_of (48 + n)] else decimal (n div 10) @ [char_of (48 + n mod 10)])"

declare decimal.simps [simp del]

definition format_int :: "int \<Rightarrow> gostring" where
  "format_int i = (if i < 0 then CHR ''-'' # decimal (nat (- i)) else decimal (nat i))"

definition digits_value :: "gostring \<Rightarrow> nat" where
  "digits_value s = foldl (\<lambda>n c. 10 * n + (byte_of c - 48)) 0 s"

lemma decimal_digits: "list_all is_digit (decimal n) \<and> decimal n \<noteq> []"
proof (induction n rule: decimal.induct)
  case (1 n)
  have d: "is_digit (char_of (48 + k))" if "k < 10" for k :: nat
    using that by (simp add: is_digit_def byte_of_def)
  show ?case using 1 d [of n] d [of "n mod 10"] by (subst (1 2) decimal.simps) auto
qed

lemma digits_value_decimal: "digits_value (decimal n) = n"
proof (induction n rule: decimal.induct)
  case (1 n)
  have b: "byte_of (char_of (48 + k)) = 48 + k" if "k < 10" for k :: nat
    using that by (simp add: byte_of_def)
  show ?case
  proof (cases "n < 10")
    case True
    then show ?thesis by (subst decimal.simps) (simp add: digits_value_def b)
  next
    case False
    then show ?thesis using 1 b [of "n mod 10"] by (subst decimal.simps) (simp add: digits_value_def)
  qed
qed

lemma decimal_inject [simp]: "decimal m = decimal n \<longleftrightarrow> m = n"
  by (metis digits_value_decimal)

lemma format_int_inject [simp]: "format_int i = format_int j \<longleftrightarrow> i = j"
proof -
  have nd: "decimal n \<noteq> CHR ''-'' # s" for n s
    using decimal_digits [of n] by (auto simp: is_digit_def byte_of_def)
  show ?thesis
    using nd nd [symmetric] by (auto simp: format_int_def)
qed

lemma format_int_chars: "c \<in> set (format_int i) \<Longrightarrow> is_digit c \<or> c = CHR ''-''"
  using decimal_digits by (auto simp: format_int_def list_all_iff split: if_splits)

lemma format_int_not_Nil [simp]: "format_int i \<noteq> []"
  using decimal_digits by (simp add: format_int_def)

subsection \<open>Time\<close>

text \<open>
  A \<open>time.Time\<close> is its number of nanoseconds since the Unix epoch; the zero time is
  1 January of year 1. \<open>t.Sub(u)\<close> saturates at the range of \<open>time.Duration\<close>.
\<close>

type_synonym gotime = int
type_synonym duration = int

definition zero_time :: gotime where "zero_time = - 62135596800 * 10 ^ 9"
definition Second :: duration where "Second = 10 ^ 9"
definition Minute :: duration where "Minute = 60 * Second"
definition Hour :: duration where "Hour = 60 * Minute"

definition time_Sub :: "gotime \<Rightarrow> gotime \<Rightarrow> duration" where
  "time_Sub t u = max min_int64 (min max_int64 (t - u))"

text \<open>\<open>time.Duration(n) * time.Second\<close> wraps around.\<close>

definition seconds :: "int \<Rightarrow> duration" where
  "seconds n = wrap64 (n * Second)"

lemma time_Sub_le_iff:
  "min_int64 \<le> d \<Longrightarrow> d < max_int64 \<Longrightarrow> time_Sub t u \<le> d \<longleftrightarrow> t - u \<le> d"
  by (auto simp: time_Sub_def min_int64_def max_int64_def)

subsection \<open>Files that hold one JSON document\<close>

text \<open>
  The sources read a file, decode it, change the value and write it back through a
  temporary file and a rename. The model keeps the decoded value. A write takes the
  outcome the operating system gives it as an argument; every failing outcome leaves the
  destination as it was.
\<close>

datatype 'a jsonfile = Absent | Unreadable | Unparsable | Holds 'a

datatype write_outcome = WriteOk | MkdirFails | TmpFails | RenameFails

definition write_file :: "write_outcome \<Rightarrow> 'a \<Rightarrow> 'a jsonfile \<Rightarrow> write_outcome + 'a jsonfile" where
  "write_file w x f = (if w = WriteOk then Inr (Holds x) else Inl w)"

lemma write_file_Inr [fileio]:
  "write_file w x f = Inr f' \<longleftrightarrow> w = WriteOk \<and> f' = Holds x"
  by (auto simp: write_file_def)

lemma write_file_Inl [fileio]:
  "write_file w x f = Inl e \<longleftrightarrow> w \<noteq> WriteOk \<and> e = w"
  by (auto simp: write_file_def)

end
