(* ===== verification/Path_Match.thy ===== *)
theory Path_Match
  imports KL_Prelude
begin

section \<open>Go's \<open>path.Match\<close>\<close>

text \<open>
  The policy engine, the grant scopes and the org-policy envelope all match through the
  standard library's \<open>path.Match\<close>. This theory holds the library algorithm as the Go
  release the module builds with has it (\<open>scanChunk\<close>, \<open>matchChunk\<close>, \<open>getEsc\<close>, the
  greedy star loop), including UTF-8 decoding in \<open>?\<close> and character classes and the
  \<open>ErrBadPattern\<close> results; a declarative glob semantics; and the proof that the greedy
  loop decides that semantics for patterns made of literal bytes and stars.
\<close>

subsection \<open>UTF-8 decoding (\<open>utf8.DecodeRuneInString\<close>)\<close>

definition cont_byte :: "nat \<Rightarrow> bool" where
  "cont_byte b = (128 \<le> b \<and> b \<le> 191)"

definition rune_error :: nat where "rune_error = 65533"

text \<open>The rune at the head of the string and its width in bytes.\<close>

definition decode_rune :: "gostring \<Rightarrow> nat \<times> nat" where
  "decode_rune s =
    (case map byte_of (take 4 s) of
       [] \<Rightarrow> (rune_error, 0)
     | b0 # bs \<Rightarrow>
         if b0 < 128 then (b0, 1)
         else if 194 \<le> b0 \<and> b0 \<le> 223 then
           (case bs of b1 # _ \<Rightarrow> if cont_byte b1 then ((b0 - 192) * 64 + (b1 - 128), 2)
                                else (rune_error, 1)
            | _ \<Rightarrow> (rune_error, 1))
         else if 224 \<le> b0 \<and> b0 \<le> 239 then
           (case bs of b1 # b2 # _ \<Rightarrow>
              if (if b0 = 224 then 160 else 128) \<le> b1 \<and> b1 \<le> (if b0 = 237 then 159 else 191)
                 \<and> cont_byte b2
              then ((b0 - 224) * 4096 + (b1 - 128) * 64 + (b2 - 128), 3) else (rune_error, 1)
            | _ \<Rightarrow> (rune_error, 1))
         else if 240 \<le> b0 \<and> b0 \<le> 244 then
           (case bs of b1 # b2 # b3 # _ \<Rightarrow>
              if (if b0 = 240 then 144 else 128) \<le> b1 \<and> b1 \<le> (if b0 = 244 then 143 else 191)
                 \<and> cont_byte b2 \<and> cont_byte b3
              then ((b0 - 240) * 262144 + (b1 - 128) * 4096 + (b2 - 128) * 64 + (b3 - 128), 4)
              else (rune_error, 1)
            | _ \<Rightarrow> (rune_error, 1))
         else (rune_error, 1))"

lemma decode_rune_width: "s \<noteq> [] \<Longrightarrow> 0 < snd (decode_rune s)"
  by (auto simp: decode_rune_def split: list.splits)

lemma decode_rune_ascii: "byte_of c < 128 \<Longrightarrow> decode_rune (c # s) = (byte_of c, 1)"
  by (simp add: decode_rune_def)

subsection \<open>The library algorithm\<close>

datatype match_error = ErrBadPattern

text \<open>\<open>scanChunk\<close>: leading stars, the next star-free chunk, the remaining pattern.\<close>

fun scan_body :: "bool \<Rightarrow> gostring \<Rightarrow> gostring \<times> gostring" where
  "scan_body inrange [] = ([], [])"
| "scan_body inrange (c # p) =
    (if c = CHR 0x5C then
       (case p of [] \<Rightarrow> ([c], [])
        | d # p' \<Rightarrow> (let (a, b) = scan_body inrange p' in (c # d # a, b)))
     else if c = CHR ''['' then (let (a, b) = scan_body True p in (c # a, b))
     else if c = CHR '']'' then (let (a, b) = scan_body False p in (c # a, b))
     else if c = CHR ''*'' \<and> \<not> inrange then ([], c # p)
     else (let (a, b) = scan_body inrange p in (c # a, b)))"

definition scanChunk :: "gostring \<Rightarrow> bool \<times> gostring \<times> gostring" where
  "scanChunk p = (p \<noteq> [] \<and> hd p = CHR ''*'', scan_body False (dropWhile (\<lambda>c. c = CHR ''*'') p))"

text \<open>\<open>getEsc\<close>: one possibly escaped rune of a character class.\<close>

definition getEsc :: "gostring \<Rightarrow> match_error + (nat \<times> gostring)" where
  "getEsc chunk =
    (if chunk = [] \<or> hd chunk = CHR ''-'' \<or> hd chunk = CHR '']'' then Inl ErrBadPattern
     else let ch = (if hd chunk = CHR 0x5C then tl chunk else chunk) in
       if ch = [] then Inl ErrBadPattern
       else let (r, n) = decode_rune ch; rest = drop n ch in
         if (r = rune_error \<and> n = 1) \<or> rest = [] then Inl ErrBadPattern else Inr (r, rest))"

lemma getEsc_shorter: "getEsc chunk = Inr (r, rest) \<Longrightarrow> length rest < length chunk"
proof -
  assume h: "getEsc chunk = Inr (r, rest)"
  define ch where "ch = (if hd chunk = CHR 0x5C then tl chunk else chunk)"
  from h have ne: "chunk \<noteq> []" "ch \<noteq> []"
    by (auto simp: getEsc_def ch_def Let_def split: if_splits prod.splits)
  obtain r' n where d: "decode_rune ch = (r', n)" by (cases "decode_rune ch")
  with decode_rune_width [OF ne(2)] have "0 < n" by simp
  from h d ne have "rest = drop n ch"
    by (auto simp: getEsc_def ch_def Let_def split: if_splits)
  with \<open>0 < n\<close> ne(2) have "length rest < length ch" by simp
  also have "length ch \<le> length chunk" by (simp add: ch_def)
  finally show ?thesis .
qed

text \<open>The ranges of a character class, up to its closing bracket.\<close>

function class_ranges :: "gostring \<Rightarrow> nat \<Rightarrow> bool \<Rightarrow> nat \<Rightarrow> match_error + (gostring \<times> bool)" where
  "class_ranges chunk r matched nrange =
    (if chunk \<noteq> [] \<and> hd chunk = CHR '']'' \<and> 0 < nrange then Inr (tl chunk, matched)
     else (case getEsc chunk of Inl e \<Rightarrow> Inl e
       | Inr (lo, chunk1) \<Rightarrow>
          if chunk1 \<noteq> [] \<and> hd chunk1 = CHR ''-'' then
            (case getEsc (tl chunk1) of Inl e \<Rightarrow> Inl e
             | Inr (hi, chunk2) \<Rightarrow>
                 class_ranges chunk2 r (matched \<or> (lo \<le> r \<and> r \<le> hi)) (Suc nrange))
          else class_ranges chunk1 r (matched \<or> lo = r) (Suc nrange)))"
  by pat_completeness auto
termination
  by (relation "measure (\<lambda>(c, r, m, n). length c)") (auto dest!: getEsc_shorter)

declare class_ranges.simps [simp del]

lemma class_ranges_shorter:
  "class_ranges chunk r m n = Inr (rest, m') \<Longrightarrow> length rest \<le> length chunk"
proof (induction chunk r m n rule: class_ranges.induct)
  case (1 chunk r m n)
  show ?case
    using "1.prems" "1.IH"
    by (subst (asm) class_ranges.simps)
       (fastforce split: if_splits sum.splits prod.splits dest: getEsc_shorter)
qed

text \<open>
  \<open>matchChunk\<close>: \<open>failed\<close> records that the text no longer matches while the chunk is
  still checked for syntax. The result is the rest of the text and whether it matched.
\<close>

function match_chunk :: "gostring \<Rightarrow> gostring \<Rightarrow> bool \<Rightarrow> match_error + (gostring \<times> bool)" where
  "match_chunk chunk s failed0 =
    (case chunk of
       [] \<Rightarrow> Inr (if failed0 then ([], False) else (s, True))
     | c # chunk' \<Rightarrow>
        let failed = (failed0 \<or> s = []) in
        if c = CHR ''['' then
          let (r, n) = (if failed then (0, 0) else decode_rune s);
              negated = (chunk' \<noteq> [] \<and> hd chunk' = CHR ''^'');
              body = (if negated then tl chunk' else chunk')
          in (case class_ranges body r False 0 of Inl e \<Rightarrow> Inl e
              | Inr (rest, matched) \<Rightarrow>
                  match_chunk rest (drop n s) (failed \<or> matched = negated))
        else if c = CHR ''?'' then
          (if failed then match_chunk chunk' s True
           else match_chunk chunk' (drop (snd (decode_rune s)) s) (hd s = CHR ''/''))
        else if c = CHR 0x5C then
          (case chunk' of [] \<Rightarrow> Inl ErrBadPattern
           | d # chunk'' \<Rightarrow>
              (if failed then match_chunk chunk'' s True
               else match_chunk chunk'' (tl s) (d \<noteq> hd s)))
        else
          (if failed then match_chunk chunk' s True
           else match_chunk chunk' (tl s) (c \<noteq> hd s)))"
  by pat_completeness auto
termination
proof (relation "measure (\<lambda>(c, s, f). length c)", goal_cases)
  case (2 chunk s failed0 c chunk' failed x r n negated body a rest matched)
  then have "length rest \<le> length body" by (auto dest: class_ranges_shorter)
  moreover have "length body \<le> length chunk'" using 2 by simp
  ultimately show ?case using 2 by simp
qed auto

declare match_chunk.simps [simp del]

definition matchChunk :: "gostring \<Rightarrow> gostring \<Rightarrow> match_error + (gostring \<times> bool)" where
  "matchChunk chunk s = match_chunk chunk s False"

text \<open>The loop that looks for a match skipping bytes; a star does not cross a slash.\<close>

fun star_skip :: "gostring \<Rightarrow> bool \<Rightarrow> gostring \<Rightarrow> match_error + gostring option" where
  "star_skip chunk last_chunk [] = Inr None"
| "star_skip chunk last_chunk (c # s) =
    (if c = CHR ''/'' then Inr None
     else (case matchChunk chunk s of Inl e \<Rightarrow> Inl e
       | Inr (t, ok) \<Rightarrow>
           if ok \<and> \<not> (last_chunk \<and> t \<noteq> []) then Inr (Some t)
           else star_skip chunk last_chunk s))"

lemma scan_body_length: "scan_body b p = (a, r) \<Longrightarrow> length a + length r = length p"
proof (induction b p arbitrary: a r rule: scan_body.induct)
  case (1 b)
  then show ?case by simp
next
  case (2 b c p)
  show ?case
  proof (cases "c = CHR 0x5C")
    case True
    then show ?thesis using 2 by (fastforce split: list.splits prod.splits)
  next
    case False
    then show ?thesis using 2 by (fastforce split: if_splits prod.splits)
  qed
qed

lemma scanChunk_shorter:
  assumes "p \<noteq> []" and sc: "scanChunk p = (star, chunk, rest)"
  shows "length rest < length p"
proof (cases "hd p = CHR ''*''")
  case True
  with \<open>p \<noteq> []\<close> obtain q where p: "p = CHR ''*'' # q" by (cases p) auto
  from sc have "length chunk + length rest = length (dropWhile (\<lambda>c. c = CHR ''*'') p)"
    by (auto simp: scanChunk_def dest: scan_body_length)
  also have "\<dots> \<le> length q" using p by (simp add: length_dropWhile_le)
  finally show ?thesis using p by simp
next
  case False
  with \<open>p \<noteq> []\<close> obtain c q where p: "p = c # q" "c \<noteq> CHR ''*''" by (cases p) auto
  with sc have b: "scan_body False p = (chunk, rest)" by (auto simp: scanChunk_def)
  with p have "chunk \<noteq> []"
    by (auto split: if_splits list.splits prod.splits)
  with scan_body_length [OF b] show ?thesis by (cases chunk) auto
qed

text \<open>The syntax check of the remaining pattern before reporting a mismatch.\<close>

function check_rest :: "gostring \<Rightarrow> match_error + bool" where
  "check_rest pattern =
    (if pattern = [] then Inr False
     else (case scanChunk pattern of (star, chunk, rest) \<Rightarrow>
       (case matchChunk chunk [] of Inl e \<Rightarrow> Inl e | Inr _ \<Rightarrow> check_rest rest)))"
  by pat_completeness auto
termination
  by (relation "measure length") (auto dest: scanChunk_shorter [OF _ sym])

function path_Match :: "gostring \<Rightarrow> gostring \<Rightarrow> match_error + bool" where
  "path_Match pattern name =
    (if pattern = [] then Inr (name = [])
     else (case scanChunk pattern of (star, chunk, rest) \<Rightarrow>
       if star \<and> chunk = [] then Inr (CHR ''/'' \<notin> set name)
       else (case matchChunk chunk name of Inl e \<Rightarrow> Inl e
         | Inr (t, ok) \<Rightarrow>
             if ok \<and> (t = [] \<or> rest \<noteq> []) then path_Match rest t
             else if star then
               (case star_skip chunk (rest = []) name of Inl e \<Rightarrow> Inl e
                | Inr (Some t') \<Rightarrow> path_Match rest t'
                | Inr None \<Rightarrow> check_rest rest)
             else check_rest rest)))"
  by pat_completeness auto
termination
  by (relation "measure (\<lambda>(p, n). length p)") (auto dest: scanChunk_shorter [OF _ sym])

declare check_rest.simps [simp del]
declare path_Match.simps [simp del]

text \<open>The callers treat a malformed pattern as no match.\<close>

definition match_ok :: "gostring \<Rightarrow> gostring \<Rightarrow> bool" where
  "match_ok pattern name = (path_Match pattern name = Inr True)"

subsection \<open>Declarative semantics of star patterns\<close>

text \<open>A star stands for any run of bytes without a slash, any other byte for itself.\<close>

fun glob :: "gostring \<Rightarrow> gostring \<Rightarrow> bool" where
  "glob [] s = (s = [])"
| "glob (c # p) [] = (c = CHR ''*'' \<and> glob p [])"
| "glob (c # p) (d # s) =
    (if c = CHR ''*'' then glob p (d # s) \<or> (d \<noteq> CHR ''/'' \<and> glob (c # p) s)
     else c = d \<and> glob p s)"

text \<open>Patterns without classes, escapes and question marks.\<close>

definition plain_pattern :: "gostring \<Rightarrow> bool" where
  "plain_pattern p = (CHR ''['' \<notin> set p \<and> CHR 0x5C \<notin> set p \<and> CHR ''?'' \<notin> set p)"

abbreviation star :: char where "star \<equiv> CHR ''*''"
abbreviation slash :: char where "slash \<equiv> CHR ''/''"

lemma plain_simps [simp]:
  "plain_pattern []"
  "plain_pattern (c # p) \<longleftrightarrow>
     c \<noteq> CHR ''['' \<and> c \<noteq> CHR 0x5C \<and> c \<noteq> CHR ''?'' \<and> plain_pattern p"
  "plain_pattern (p @ q) \<longleftrightarrow> plain_pattern p \<and> plain_pattern q"
  by (auto simp: plain_pattern_def)

lemma glob_star_iff:
  "glob (star # p) s \<longleftrightarrow> (\<exists>k \<le> length s. slash \<notin> set (take k s) \<and> glob p (drop k s))"
proof (induction s)
  case Nil
  then show ?case by simp
next
  case (Cons d s)
  have "(\<exists>k \<le> length (d # s). slash \<notin> set (take k (d # s)) \<and> glob p (drop k (d # s))) \<longleftrightarrow>
      glob p (d # s) \<or> (\<exists>k \<le> length s. slash \<notin> set (take (Suc k) (d # s)) \<and> glob p (drop k s))"
    (is "?l \<longleftrightarrow> ?r")
  proof
    assume ?l
    then obtain k where k: "k \<le> length (d # s)" "slash \<notin> set (take k (d # s))" "glob p (drop k (d # s))"
      by blast
    then show ?r by (cases k) auto
  next
    assume ?r
    then show ?l by (metis Suc_le_mono drop0 drop_Suc_Cons empty_iff empty_set length_Cons take0 zero_le)
  qed
  with Cons.IH show ?case by auto
qed

lemma glob_star_star: "glob (star # star # p) s \<longleftrightarrow> glob (star # p) s"
proof (induction s)
  case Nil
  then show ?case by simp
next
  case (Cons d s)
  then show ?case by (cases "d = slash") auto
qed

lemma glob_drop_stars: "glob (star # p) s \<longleftrightarrow> glob (star # dropWhile (\<lambda>c. c = star) p) s"
proof (induction p)
  case Nil
  then show ?case by simp
next
  case (Cons c p)
  then show ?case using glob_star_star by (cases "c = star") simp_all
qed

lemma glob_star_only: "glob [star] s \<longleftrightarrow> slash \<notin> set s"
  by (induction s) auto

lemma glob_literal:
  "star \<notin> set chunk \<Longrightarrow>
     glob (chunk @ rest) s \<longleftrightarrow> prefix chunk s \<and> glob rest (drop (length chunk) s)"
proof (induction chunk arbitrary: s)
  case Nil
  then show ?case by simp
next
  case (Cons c chunk)
  then show ?case by (cases s) auto
qed

subsection \<open>The greedy loop decides the semantics\<close>

lemma match_chunk_failed: "plain_pattern chunk \<Longrightarrow> match_chunk chunk s True = Inr ([], False)"
  by (induction chunk) (simp_all add: match_chunk.simps)

lemma match_chunk_plain:
  "plain_pattern chunk \<Longrightarrow> match_chunk chunk s False =
     Inr (if prefix chunk s then (drop (length chunk) s, True) else ([], False))"
proof (induction chunk arbitrary: s)
  case Nil
  then show ?case by (simp add: match_chunk.simps)
next
  case (Cons c chunk)
  note unf = match_chunk.simps [of "c # chunk" s False]
  show ?case
  proof (cases s)
    case Nil
    with Cons.prems unf show ?thesis by (simp add: match_chunk_failed)
  next
    case (Cons d s')
    with Cons.prems Cons.IH [of s'] unf show ?thesis
      by (cases "c = d") (simp_all add: match_chunk_failed)
  qed
qed

lemma matchChunk_plain:
  "plain_pattern chunk \<Longrightarrow> matchChunk chunk s =
     Inr (if prefix chunk s then (drop (length chunk) s, True) else ([], False))"
  by (simp add: matchChunk_def match_chunk_plain)

lemma scan_body_plain:
  "plain_pattern p \<Longrightarrow>
     scan_body False p = (takeWhile (\<lambda>c. c \<noteq> star) p, dropWhile (\<lambda>c. c \<noteq> star) p)"
  by (induction p) auto

lemma plain_takeWhile: "plain_pattern p \<Longrightarrow> plain_pattern (takeWhile P p)"
  and plain_dropWhile: "plain_pattern p \<Longrightarrow> plain_pattern (dropWhile P p)"
  by (auto simp: plain_pattern_def dest: set_takeWhileD set_dropWhileD)

lemma scanChunk_plain:
  assumes "plain_pattern p" and "scanChunk p = (st, chunk, rest)" and "p \<noteq> []"
  shows "plain_pattern chunk" "plain_pattern rest" "star \<notin> set chunk"
    "rest = [] \<or> hd rest = star" "st \<longleftrightarrow> hd p = star"
    "glob p s \<longleftrightarrow> glob (if st then star # chunk @ rest else chunk @ rest) s"
    "chunk = [] \<Longrightarrow> rest = []"
proof -
  define q where "q = dropWhile (\<lambda>c. c = star) p"
  have q: "plain_pattern q" using assms(1) by (simp add: q_def plain_dropWhile)
  from assms(2,3) scan_body_plain [OF q]
  have st: "st \<longleftrightarrow> hd p = star" and ch: "chunk = takeWhile (\<lambda>c. c \<noteq> star) q"
    and re: "rest = dropWhile (\<lambda>c. c \<noteq> star) q"
    by (auto simp: scanChunk_def q_def)
  show "plain_pattern chunk" "plain_pattern rest" "st \<longleftrightarrow> hd p = star"
    using q st by (simp_all add: ch re plain_takeWhile plain_dropWhile)
  show "star \<notin> set chunk" by (auto simp: ch dest: set_takeWhileD)
  show "rest = [] \<or> hd rest = star" using hd_dropWhile re by blast
  have cr: "chunk @ rest = q" by (simp add: ch re)
  show "chunk = [] \<Longrightarrow> rest = []"
    using cr \<open>rest = [] \<or> hd rest = star\<close> hd_dropWhile [of "\<lambda>c. c = star" p]
    by (auto simp: q_def)
  show "glob p s \<longleftrightarrow> glob (if st then star # chunk @ rest else chunk @ rest) s"
  proof (cases "hd p = star")
    case True
    with assms(3) obtain p' where "p = star # p'" by (cases p) auto
    with glob_drop_stars [of p' s] cr st True show ?thesis by (simp add: q_def)
  next
    case False
    with assms(3) have "q = p" by (cases p) (auto simp: q_def)
    with cr st False show ?thesis by simp
  qed
qed

lemma check_rest_plain: "plain_pattern p \<Longrightarrow> check_rest p = Inr False"
proof (induction p rule: check_rest.induct)
  case (1 p)
  show ?case
  proof (cases "p = []")
    case True
    then show ?thesis by (simp add: check_rest.simps)
  next
    case False
    obtain st chunk rest where sc: "scanChunk p = (st, chunk, rest)" by (cases "scanChunk p")
    note pl = scanChunk_plain [OF "1.prems" sc False]
    from pl(1) have m: "matchChunk chunk [] = Inr (if prefix chunk [] then ([], True) else ([], False))"
      by (simp add: matchChunk_plain)
    have "check_rest rest = Inr False"
      using "1.IH" [OF False sc [symmetric] refl m pl(2)] .
    with False sc m show ?thesis by (simp add: check_rest.simps [of p])
  qed
qed

text \<open>
  A later occurrence of a chunk is never needed: the bytes between two overlapping
  occurrences repeat bytes the star has already covered, so they hold no slash.
\<close>

lemma overlap_no_slash:
  assumes "prefix c s" and "prefix c (drop k s)" and "slash \<notin> set (take k s)"
  shows "slash \<notin> set (take k (drop (length c) s))"
proof (cases "c = []")
  case True
  then show ?thesis using assms(3) by simp
next
  case False
  from assms(1) obtain t where t: "s = c @ t" by (auto simp: prefix_def)
  from assms(2) obtain t' where t': "drop k s = c @ t'" by (auto simp: prefix_def)
  with False have k: "k \<le> length s" by (metis append_is_Nil_conv drop_all nat_le_linear)
  define u where "u = take k s"
  have s: "s = u @ c @ t'" by (metis append_take_drop_id t' u_def)
  have "length u = k" using k by (simp add: u_def)
  have "c @ take k t = take (length c + k) s" by (simp add: t)
  also have "\<dots> = u @ c" using \<open>length u = k\<close> by (simp add: s)
  finally have "count_list (c @ take k t) slash = count_list (u @ c) slash" by simp
  then have "count_list (take k t) slash = count_list u slash"
    by (simp add: count_list_append)
  with assms(3) show ?thesis by (simp add: u_def t count_list_0_iff)
qed

lemma glob_star_mono:
  assumes "glob (star # p) (drop k s)" and "slash \<notin> set (take k s)"
  shows "glob (star # p) s"
proof (cases "k \<le> length s")
  case True
  from assms(1) obtain j where j: "j \<le> length (drop k s)" "slash \<notin> set (take j (drop k s))"
      "glob p (drop j (drop k s))"
    by (auto simp: glob_star_iff)
  then have "k + j \<le> length s" "slash \<notin> set (take (k + j) s)" "glob p (drop (k + j) s)"
    using True assms(2) by (auto simp: take_add add.commute [of j k])
  then show ?thesis by (auto simp: glob_star_iff)
next
  case False
  with assms show ?thesis by (auto simp: glob_star_iff)
qed

lemma glob_greedy:
  assumes "star \<notin> set chunk" and "rest = [] \<or> hd rest = star"
    and "prefix chunk s" and acc: "drop (length chunk) s = [] \<or> rest \<noteq> []"
  shows "glob (star # chunk @ rest) s \<longleftrightarrow> glob rest (drop (length chunk) s)" (is "?l \<longleftrightarrow> ?r")
proof
  assume ?r
  then have "glob (chunk @ rest) s" using assms(1,3) by (simp add: glob_literal)
  then show ?l by (fastforce simp: glob_star_iff intro: exI [of _ 0])
next
  assume ?l
  then obtain k where k: "slash \<notin> set (take k s)" "prefix chunk (drop k s)"
      "glob rest (drop (length chunk) (drop k s))"
    using assms(1) by (auto simp: glob_star_iff glob_literal)
  show ?r
  proof (cases rest)
    case Nil
    with acc show ?thesis by simp
  next
    case (Cons c r)
    with assms(2) have rest: "rest = star # r" by simp
    have "drop (length chunk) (drop k s) = drop k (drop (length chunk) s)"
      by (simp add: add.commute)
    with k rest overlap_no_slash [OF assms(3) k(2,1)] show ?thesis
      by (auto intro: glob_star_mono)
  qed
qed

lemma glob_star_skip:
  assumes "plain_pattern chunk" and "star \<notin> set chunk" and "rest = [] \<or> hd rest = star"
    and "\<not> (prefix chunk s \<and> (drop (length chunk) s = [] \<or> rest \<noteq> []))"
  shows "\<exists>r. star_skip chunk (rest = []) s = Inr r \<and>
     (glob (star # chunk @ rest) s \<longleftrightarrow> (case r of None \<Rightarrow> False | Some t \<Rightarrow> glob rest t))"
  using assms(4)
proof (induction s)
  case Nil
  then have "\<not> glob (chunk @ rest) []" using assms(2) by (auto simp: glob_literal)
  then show ?case by simp
next
  case (Cons d s)
  then have no: "\<not> glob (chunk @ rest) (d # s)" using assms(2) by (auto simp: glob_literal)
  then have step: "glob (star # chunk @ rest) (d # s) \<longleftrightarrow> d \<noteq> slash \<and> glob (star # chunk @ rest) s"
    by simp
  show ?case
  proof (cases "prefix chunk s \<and> (drop (length chunk) s = [] \<or> rest \<noteq> [])")
    case True
    then have "star_skip chunk (rest = []) (d # s)
        = (if d = slash then Inr None else Inr (Some (drop (length chunk) s)))"
      using assms(1) by (auto simp: matchChunk_plain)
    with True step glob_greedy [OF assms(2,3)] show ?thesis by auto
  next
    case False
    then have "star_skip chunk (rest = []) (d # s)
        = (if d = slash then Inr None else star_skip chunk (rest = []) s)"
      using assms(1) by (auto simp: matchChunk_plain)
    with Cons.IH [OF False] step show ?thesis by auto
  qed
qed

theorem path_Match_plain:
  "plain_pattern p \<Longrightarrow> path_Match p s = Inr (glob p s)"
proof (induction p arbitrary: s rule: length_induct)
  case (1 p)
  show ?case
  proof (cases "p = []")
    case True
    then show ?thesis by (simp add: path_Match.simps)
  next
    case False
    obtain st chunk rest where sc: "scanChunk p = (st, chunk, rest)" by (cases "scanChunk p")
    note pl = scanChunk_plain [OF "1.prems" sc False]
    note unf = path_Match.simps [of p s] and m = matchChunk_plain [OF pl(1), of s]
    let ?acc = "prefix chunk s \<and> (drop (length chunk) s = [] \<or> rest \<noteq> [])"
    have IH: "path_Match rest t = Inr (glob rest t)" for t
      using "1.IH" scanChunk_shorter [OF False sc] pl(2) by blast
    consider (trail) "st" "chunk = []" | (acc) "\<not> (st \<and> chunk = [])" "?acc"
      | (skip) "st" "chunk \<noteq> []" "\<not> ?acc" | (fail) "\<not> st" "\<not> ?acc"
      by blast
    then show ?thesis
    proof cases
      case trail
      then show ?thesis using False sc unf pl(6) [of s] pl(7) by (simp add: glob_star_only)
    next
      case acc
      then have "path_Match p s = Inr (glob rest (drop (length chunk) s))"
        using False sc unf m IH by auto
      moreover have "glob p s \<longleftrightarrow> glob rest (drop (length chunk) s)"
        using acc(2) pl(6) [of s] glob_greedy [OF pl(3,4)] glob_literal [OF pl(3)] by auto
      ultimately show ?thesis by simp
    next
      case skip
      from glob_star_skip [OF pl(1,3,4) skip(3)] obtain r where
        "star_skip chunk (rest = []) s = Inr r"
        "glob (star # chunk @ rest) s \<longleftrightarrow> (case r of None \<Rightarrow> False | Some t \<Rightarrow> glob rest t)"
        by blast
      then show ?thesis using skip False sc unf m IH pl(6) [of s] check_rest_plain [OF pl(2)]
        by (auto split: option.splits)
    next
      case fail
      then have "\<not> glob p s" using pl(6) [of s] glob_literal [OF pl(3)] by auto
      then show ?thesis using fail False sc unf m check_rest_plain [OF pl(2)] by auto
    qed
  qed
qed

lemma match_ok_plain: "plain_pattern p \<Longrightarrow> match_ok p s \<longleftrightarrow> glob p s"
  by (simp add: match_ok_def path_Match_plain)

end
