(* ===== verification/Policy.thy ===== *)
theory Policy
  imports Path_Match
begin

section \<open>The policy engine (\<open>internal/policy\<close>)\<close>

text \<open>
  The policy document and its evaluation: \<open>match/match.go\<close> (glob matchers),
  \<open>runtime_enum.go\<close> (runtime names), \<open>policy.go\<close> (\<open>Load\<close>, \<open>Save\<close>, \<open>Check\<close> and its
  helpers) and \<open>trust.VerifyPresenceProofAge\<close>. The process-wide \<open>OrgComposeHook\<close>, the
  clock and the random approval token are arguments of \<open>policy_Check\<close>; message texts are
  constructors; the pointer \<open>MatchedRule\<close> is the index of the rule. The panic of step 2 is
  the error value of the result.
\<close>

subsection \<open>Matchers\<close>

definition MatchActor :: "gostring \<Rightarrow> gostring \<Rightarrow> bool" where
  "MatchActor pattern actual = (if pattern = [] then False else match_ok pattern actual)"

definition MatchConnection :: "gostring \<Rightarrow> gostring \<Rightarrow> bool" where
  "MatchConnection pattern conn = (if pattern = [] then False else match_ok pattern conn)"

definition MatchCapability :: "gostring \<Rightarrow> gostring \<Rightarrow> bool" where
  "MatchCapability pattern cap = (if pattern = [] then False else match_ok pattern cap)"

definition MatchCommand :: "gostring \<Rightarrow> gostring list \<Rightarrow> bool" where
  "MatchCommand pattern argv =
    (if pattern = [] then argv = []
     else if argv = [] then match_ok pattern []
     else let joined = Join argv '' '' in
       if match_ok pattern joined then True
       else if \<not> HasSuffix pattern ''*'' then match_ok (pattern @ '' *'') joined
       else False)"

definition MatchCWD :: "gostring \<Rightarrow> gostring \<Rightarrow> bool" where
  "MatchCWD pattern cwd = (if pattern = [] then False else match_ok pattern cwd)"

subsection \<open>Runtime modes\<close>

definition valid_runtimes :: "gostring list" where
  "valid_runtimes =
    [''gateway_typed'', ''gateway_sdk'', ''direct_brokered'', ''direct_classic'', ''gateway_proxy'']"

definition removedRuntimes :: "gostring list" where
  "removedRuntimes = [''direct_run'', ''local_gateway'', ''hosted_gateway'']"

definition plannedRuntimes :: "gostring list" where
  "plannedRuntimes = [''direct_classic_sandboxed'']"

datatype runtime_error =
  RuntimeRemoved gostring | RuntimeNotAvailable gostring | RuntimeUnknown gostring

text \<open>\<open>None\<close> is Go's nil error.\<close>

definition ValidateRuntimeMode :: "gostring \<Rightarrow> runtime_error option" where
  "ValidateRuntimeMode s =
    (if s \<in> set valid_runtimes then None
     else if s \<in> set removedRuntimes then Some (RuntimeRemoved s)
     else if s \<in> set plannedRuntimes then Some (RuntimeNotAvailable s)
     else Some (RuntimeUnknown s))"

subsection \<open>Data\<close>

datatype policy_mode = ModeEnforcing | ModePermissive | ModeDryRun | ModeOther gostring

record presence_proof =
  pp_Method :: gostring
  pp_ConfirmedAt :: gotime
  pp_RootID :: gostring
  pp_BindingHMAC :: gostring

record root_requirement =
  rr_Type :: gostring
  rr_AnyOf :: "gostring list"
  rr_AllOf :: "gostring list"
  rr_MaxAgeSec :: int
  rr_Bind :: gostring
  rr_TwoPerson :: bool

record rate_spec =
  rs_MaxCalls :: int
  rs_Window :: duration

text \<open>
  A rule. \<open>ru_LLMSessions\<close> is \<open>None\<close> for the nil map; the pass-through JSON fields
  (\<open>approval_root\<close>, \<open>budget\<close>) are kept as text.
\<close>

record rule =
  ru_ID :: gostring
  ru_Actor :: gostring
  ru_Connections :: "gostring list"
  ru_Capabilities :: "gostring list"
  ru_Commands :: "gostring list"
  ru_CWDs :: "gostring list"
  ru_MaxTTLSeconds :: int
  ru_Approval :: bool
  ru_RateLimit :: "rate_spec option"
  ru_Note :: gostring
  ru_CreatedAt :: gotime
  ru_CreatedBy :: gostring
  ru_Project :: gostring
  ru_ApprovalRootReq :: "root_requirement option"
  ru_ApprovalRoot :: gostring
  ru_MemberID :: gostring
  ru_Team :: gostring
  ru_Masking :: gostring
  ru_Budget :: gostring
  ru_TokenBroker :: gostring
  ru_Runtime :: gostring
  ru_LLMSessions :: "(gostring \<times> gostring) list option"
  ru_SandboxProfile :: gostring
  ru_ProxyProfile :: gostring
  ru_AllowedRuntimes :: "gostring list"

record policy =
  po_SchemaVersion :: int
  po_Mode :: policy_mode
  po_Rules :: "rule list"
  po_DefaultDeny :: bool
  po_CreatedAt :: gotime
  po_UpdatedAt :: gotime
  po_TeamModeBaseline :: bool

record request =
  rq_Actor :: gostring
  rq_Connection :: gostring
  rq_Capability :: gostring
  rq_Command :: "gostring list"
  rq_CWD :: gostring
  rq_LLMSession :: bool
  rq_Runtime :: gostring
  rq_ApprovalJWT :: gostring
  rq_Namespace :: gostring
  rq_PresenceProof :: "presence_proof option"

datatype proof_error = ErrPresenceProofStale | ErrPresenceProofInvalid

datatype reason =
    NoReason
  | BadRuntime runtime_error
  | ManagementImplicit
  | ReadClassDenied
  | RuntimeDeniedByRule gostring
  | ProofStale proof_error
  | ProofLacksRootID
  | NoRuleMatches
  | NoRuleDefaultAllow
  | OrgReason gostring

datatype safe_fix = NoFix | FixHumanTerminal | FixGatewayTyped | FixReapprove | FixHardwareRoot
  | FixPolicyAllow

record decision =
  de_Allow :: bool
  de_MatchedRule :: "nat option"
  de_MatchedGrantID :: gostring
  de_Reason :: reason
  de_SafeFix :: safe_fix
  de_ApprovalRequired :: bool
  de_ApprovalToken :: gostring
  de_ApprovalRootReq :: "root_requirement option"

text \<open>The zero \<open>Decision\<close>.\<close>

definition zero_decision :: decision where
  "zero_decision = \<lparr>de_Allow = False, de_MatchedRule = None, de_MatchedGrantID = [],
     de_Reason = NoReason, de_SafeFix = NoFix, de_ApprovalRequired = False,
     de_ApprovalToken = [], de_ApprovalRootReq = None\<rparr>"

subsection \<open>Helpers of Check\<close>

definition managementCaps :: "gostring list" where
  "managementCaps = [''status'', ''list'']"

definition readClassCaps :: "gostring list" where
  "readClassCaps = [''read'', ''export'']"

definition isReadClassCap :: "gostring \<Rightarrow> bool" where
  "isReadClassCap cap =
    (if cap \<in> set readClassCaps then True
     else HasSuffix cap ''.reveal'' \<or> HasSuffix cap ''.dump'')"

definition VerifyPresenceProofAge :: "gotime \<Rightarrow> presence_proof \<Rightarrow> int \<Rightarrow> proof_error option" where
  "VerifyPresenceProofAge now p maxAgeSec =
    (if pp_ConfirmedAt p = zero_time then Some ErrPresenceProofInvalid
     else if maxAgeSec \<le> 0 then None
     else let age = time_Sub now (pp_ConfirmedAt p);
              age' = (if age < 0 then wrap64 (- age) else age)
       in if age' > seconds maxAgeSec then Some ErrPresenceProofStale else None)"

fun anyMatch :: "gostring list \<Rightarrow> gostring \<Rightarrow> (gostring \<Rightarrow> gostring \<Rightarrow> bool) \<Rightarrow> bool" where
  "anyMatch [] v fn = False"
| "anyMatch (p # ps) v fn = (if fn p v then True else anyMatch ps v fn)"

definition ruleMatches :: "rule \<Rightarrow> request \<Rightarrow> bool" where
  "ruleMatches r req =
    (if ru_Runtime r \<noteq> [] \<and> ValidateRuntimeMode (ru_Runtime r) \<noteq> None then False
     else if \<not> MatchActor (ru_Actor r) (rq_Actor req) then False
     else if \<not> anyMatch (ru_Connections r) (rq_Connection req) MatchConnection then False
     else if \<not> anyMatch (ru_Capabilities r) (rq_Capability req) MatchCapability then False
     else if ru_Commands r \<noteq> [] \<and> \<not> list_ex (\<lambda>p. MatchCommand p (rq_Command req)) (ru_Commands r)
       then False
     else if ru_CWDs r \<noteq> [] \<and> \<not> list_ex (\<lambda>p. MatchCWD p (rq_CWD req)) (ru_CWDs r) then False
     else if ru_Runtime r \<noteq> [] \<and> ru_Runtime r \<noteq> rq_Runtime req then False
     else True)"

text \<open>
  The two step functions return \<open>Some d\<close> where the source returns \<open>(d, true)\<close>. Reading
  an absent key of a Go map gives the empty string.
\<close>

definition checkLLMSessionRuntime :: "rule \<Rightarrow> request \<Rightarrow> decision option" where
  "checkLLMSessionRuntime r req =
    (let approval = zero_decision\<lparr>de_Allow := True, de_ApprovalRequired := True\<rparr>;
         absent = (if rq_Runtime req = ''direct_classic_sandboxed'' then Some approval else None)
     in case ru_LLMSessions r of
          None \<Rightarrow> absent
        | Some m \<Rightarrow>
           (let v = (case map_of m (rq_Runtime req) of Some v \<Rightarrow> v | None \<Rightarrow> []) in
            if v = ''deny'' then
              Some (zero_decision\<lparr>de_Reason := RuntimeDeniedByRule (rq_Runtime req),
                                  de_SafeFix := FixGatewayTyped\<rparr>)
            else if v = ''approval_required'' then Some approval
            else if v = ''allow'' then None
            else absent))"

definition validatePresenceProof :: "gotime \<Rightarrow> request \<Rightarrow> rule \<Rightarrow> decision option" where
  "validatePresenceProof now req r =
    (case ru_ApprovalRootReq r of None \<Rightarrow> None
     | Some rr \<Rightarrow>
        (case rq_PresenceProof req of None \<Rightarrow> None
         | Some pp \<Rightarrow>
            (let stale = (if rr_MaxAgeSec rr > 0
                          then VerifyPresenceProofAge now pp (rr_MaxAgeSec rr) else None)
             in case stale of
                  Some e \<Rightarrow> Some (zero_decision\<lparr>de_Reason := ProofStale e,
                                                de_SafeFix := FixReapprove\<rparr>)
                | None \<Rightarrow>
                   if rr_TwoPerson rr \<and> pp_RootID pp = [] then
                     Some (zero_decision\<lparr>de_Reason := ProofLacksRootID,
                                         de_SafeFix := FixHardwareRoot\<rparr>)
                   else None)))"

text \<open>Steps 5 to 7 for the rule at index \<open>i\<close>, which matches.\<close>

definition rule_decision :: "gotime \<Rightarrow> gostring \<Rightarrow> nat \<Rightarrow> rule \<Rightarrow> request \<Rightarrow> decision" where
  "rule_decision now token i r req =
    (case (if rq_LLMSession req then checkLLMSessionRuntime r req else None) of
       Some d \<Rightarrow> d
     | None \<Rightarrow>
        if ru_Approval r then
          (case validatePresenceProof now req r of
             Some d \<Rightarrow> d
           | None \<Rightarrow>
              (let d = zero_decision\<lparr>de_Allow := True, de_MatchedRule := Some i,
                         de_ApprovalRequired := True, de_ApprovalToken := token\<rparr>
               in case ru_ApprovalRootReq r of
                    Some rr \<Rightarrow> d\<lparr>de_ApprovalRootReq := Some rr\<rparr>
                  | None \<Rightarrow> d))
        else (case ru_ApprovalRootReq r of
           Some rr \<Rightarrow>
             (case validatePresenceProof now req r of
                Some d \<Rightarrow> d
              | None \<Rightarrow> zero_decision\<lparr>de_Allow := True, de_MatchedRule := Some i,
                          de_ApprovalRequired := True, de_ApprovalToken := token,
                          de_ApprovalRootReq := Some rr\<rparr>)
         | None \<Rightarrow> zero_decision\<lparr>de_Allow := True, de_MatchedRule := Some i\<rparr>))"

text \<open>The loop over the rules from index \<open>i\<close> on, then steps 8 and 9.\<close>

fun check_rules :: "gotime \<Rightarrow> gostring \<Rightarrow> bool \<Rightarrow> request \<Rightarrow> nat \<Rightarrow> rule list \<Rightarrow> decision" where
  "check_rules now token dd req i [] =
    (if dd then zero_decision\<lparr>de_Reason := NoRuleMatches, de_SafeFix := FixPolicyAllow\<rparr>
     else zero_decision\<lparr>de_Allow := True, de_Reason := NoRuleDefaultAllow\<rparr>)"
| "check_rules now token dd req i (r # rs) =
    (if \<not> ruleMatches r req then check_rules now token dd req (Suc i) rs
     else rule_decision now token i r req)"

datatype policy_panic = PermissiveInLLMSession

type_synonym org_hook = "(request \<Rightarrow> decision \<times> bool) option"

definition policy_Check ::
  "org_hook \<Rightarrow> gotime \<Rightarrow> gostring \<Rightarrow> policy \<Rightarrow> request \<Rightarrow> policy_panic + decision" where
  "policy_Check hook now token p req =
    (case (if rq_Runtime req \<noteq> [] then ValidateRuntimeMode (rq_Runtime req) else None) of
       Some e \<Rightarrow> Inr (zero_decision\<lparr>de_Reason := BadRuntime e\<rparr>)
     | None \<Rightarrow>
        (case (case hook of None \<Rightarrow> None
               | Some h \<Rightarrow> (let (d, ok) = h req in if ok \<and> \<not> de_Allow d then Some d else None)) of
           Some d \<Rightarrow> Inr d
         | None \<Rightarrow>
            if rq_LLMSession req \<and> po_Mode p = ModePermissive then Inl PermissiveInLLMSession
            else if rq_Capability req \<in> set managementCaps then
              Inr (zero_decision\<lparr>de_Allow := True, de_Reason := ManagementImplicit\<rparr>)
            else if rq_LLMSession req \<and> isReadClassCap (rq_Capability req) then
              Inr (zero_decision\<lparr>de_Reason := ReadClassDenied, de_SafeFix := FixHumanTerminal\<rparr>)
            else Inr (check_rules now token (po_DefaultDeny p) req 0 (po_Rules p))))"

subsection \<open>Persistence\<close>

datatype load_error = StatFails | UnsafePermissions nat | ReadFails | ParseFails
  | RuleRuntimeInvalid nat runtime_error | RuleRateLimited nat

fun check_loaded_rules :: "nat \<Rightarrow> rule list \<Rightarrow> load_error option" where
  "check_loaded_rules i [] = None"
| "check_loaded_rules i (r # rs) =
    (case (if ru_Runtime r \<noteq> [] then ValidateRuntimeMode (ru_Runtime r) else None) of
       Some e \<Rightarrow> Some (RuleRuntimeInvalid i e)
     | None \<Rightarrow> if ru_RateLimit r \<noteq> None then Some (RuleRateLimited i)
               else check_loaded_rules (Suc i) rs)"

text \<open>The policy file on disk: its content and its permission bits.\<close>

record policy_file =
  pf_Content :: "policy jsonfile"
  pf_Perm :: nat

definition policy_Load :: "bool \<Rightarrow> policy_file \<Rightarrow> load_error + policy" where
  "policy_Load windows f =
    (if pf_Content f = Absent then Inl StatFails
     else if \<not> windows \<and> pf_Perm f \<noteq> 384 then Inl (UnsafePermissions (pf_Perm f))
     else (case pf_Content f of
             Holds p \<Rightarrow> (case check_loaded_rules 0 (po_Rules p) of
                           Some e \<Rightarrow> Inl e | None \<Rightarrow> Inr p)
           | Unparsable \<Rightarrow> Inl ParseFails
           | _ \<Rightarrow> Inl ReadFails))"

text \<open>
  What the operating system does to a save: the write fails (leaving some content), the
  mode change fails after the write, or both succeed.
\<close>

datatype save_outcome = SaveOk | SaveWriteFails "policy jsonfile" | SaveChmodFails

datatype save_error = WriteFailed | ChmodFailed

definition policy_Save ::
  "bool \<Rightarrow> save_outcome \<Rightarrow> gotime \<Rightarrow> policy \<Rightarrow> policy_file \<Rightarrow> save_error option \<times> policy_file" where
  "policy_Save windows out now p f =
    (let p' = p\<lparr>po_UpdatedAt := now\<rparr> in
     case out of
       SaveWriteFails c \<Rightarrow> (Some WriteFailed, f\<lparr>pf_Content := c\<rparr>)
     | SaveChmodFails \<Rightarrow>
         if windows then (None, f\<lparr>pf_Content := Holds p'\<rparr>)
         else (Some ChmodFailed, f\<lparr>pf_Content := Holds p'\<rparr>)
     | SaveOk \<Rightarrow>
         (None, f\<lparr>pf_Content := Holds p', pf_Perm := (if windows then pf_Perm f else 384)\<rparr>))"

subsection \<open>Facts about the evaluation\<close>

lemmas policy_defs = policy_Check_def rule_decision_def zero_decision_def
  checkLLMSessionRuntime_def validatePresenceProof_def

lemma read_class_not_management: "isReadClassCap cap \<Longrightarrow> cap \<notin> set managementCaps"
  by (auto simp: isReadClassCap_def readClassCaps_def managementCaps_def HasSuffix_def)

lemma check_rules_spec:
  "check_rules now token dd req i rs =
    (case filter (\<lambda>j. ruleMatches (rs ! j) req) [0..<length rs] of
       [] \<Rightarrow> check_rules now token dd req 0 []
     | j # _ \<Rightarrow> rule_decision now token (i + j) (rs ! j) req)"
proof (induction rs arbitrary: i)
  case Nil
  then show ?case by simp
next
  case (Cons r rs)
  have idx: "[0..<Suc (length rs)] = 0 # map Suc [0..<length rs]"
    by (simp add: map_Suc_upt upt_conv_Cons del: upt_Suc)
  have flt: "filter (\<lambda>j. ruleMatches ((r # rs) ! j) req) (map Suc [0..<length rs]) =
      map Suc (filter (\<lambda>j. ruleMatches (rs ! j) req) [0..<length rs])"
    by (simp add: filter_map comp_def)
  show ?case
  proof (cases "ruleMatches r req")
    case True
    then show ?thesis by (simp add: idx del: upt_Suc)
  next
    case False
    then show ?thesis using Cons.IH [of "Suc i"]
      by (simp add: idx flt del: upt_Suc split: list.splits)
  qed
qed

lemma check_rules_matched:
  assumes "de_Allow (check_rules now token True req i rs)"
  shows "\<exists>j < length rs. ruleMatches (rs ! j) req \<and>
     check_rules now token True req i rs = rule_decision now token (i + j) (rs ! j) req"
proof (cases "filter (\<lambda>j. ruleMatches (rs ! j) req) [0..<length rs]")
  case Nil
  then have "check_rules now token True req i rs = check_rules now token True req 0 []"
    by (subst check_rules_spec) simp
  with assms show ?thesis by (simp add: zero_decision_def)
next
  case (Cons j js)
  then have "j \<in> set (filter (\<lambda>j. ruleMatches (rs ! j) req) [0..<length rs])" by simp
  moreover have "check_rules now token True req i rs = rule_decision now token (i + j) (rs ! j) req"
    by (subst check_rules_spec) (simp add: Cons)
  ultimately show ?thesis by auto
qed

lemma checkLLMSessionRuntime_approval:
  "checkLLMSessionRuntime r req = Some d \<Longrightarrow> de_Allow d \<Longrightarrow> de_ApprovalRequired d"
  by (auto simp: checkLLMSessionRuntime_def zero_decision_def Let_def split: option.splits if_splits)

lemma validatePresenceProof_denies: "validatePresenceProof now req r = Some d \<Longrightarrow> \<not> de_Allow d"
  by (auto simp: validatePresenceProof_def zero_decision_def Let_def split: option.splits if_splits)

lemma rule_decision_approval:
  assumes root: "ru_Approval r \<or> ru_ApprovalRootReq r \<noteq> None"
    and allow: "de_Allow (rule_decision now token i r req)"
  shows "de_ApprovalRequired (rule_decision now token i r req)"
proof (cases "if rq_LLMSession req then checkLLMSessionRuntime r req else None")
  case (Some d)
  then have "rule_decision now token i r req = d" and "checkLLMSessionRuntime r req = Some d"
    by (simp_all add: rule_decision_def split: if_splits)
  with allow checkLLMSessionRuntime_approval show ?thesis by simp
next
  case None
  have proof_ok: "validatePresenceProof now req r = None"
  proof (rule ccontr)
    assume "validatePresenceProof now req r \<noteq> None"
    then obtain d where "validatePresenceProof now req r = Some d" by blast
    with None allow root validatePresenceProof_denies show False
      by (auto simp: rule_decision_def split: option.splits)
  qed
  show ?thesis
    unfolding rule_decision_def None proof_ok using root
    by (auto simp: Let_def zero_decision_def split: option.splits)
qed

lemma policy_Check_Inr_cases:
  assumes "policy_Check hook now token p req = Inr d" and "de_Allow d"
  obtains (management) "rq_Capability req \<in> set managementCaps" "\<not> de_ApprovalRequired d"
  | (rules) "d = check_rules now token (po_DefaultDeny p) req 0 (po_Rules p)"
      "\<not> (rq_LLMSession req \<and> isReadClassCap (rq_Capability req))"
  using assms
  by (auto simp: policy_Check_def zero_decision_def split: option.splits if_splits prod.splits)

text \<open>Sample values for the concrete instances.\<close>

definition sample_rule :: rule where
  "sample_rule = \<lparr>ru_ID = ''r1'', ru_Actor = ''*'', ru_Connections = [''gh*''],
    ru_Capabilities = [''use''], ru_Commands = [], ru_CWDs = [], ru_MaxTTLSeconds = 0,
    ru_Approval = True, ru_RateLimit = None, ru_Note = [], ru_CreatedAt = 0, ru_CreatedBy = [],
    ru_Project = [], ru_ApprovalRootReq = None, ru_ApprovalRoot = [], ru_MemberID = [],
    ru_Team = [], ru_Masking = [], ru_Budget = [], ru_TokenBroker = [],
    ru_Runtime = ''gateway_typed'', ru_LLMSessions = None, ru_SandboxProfile = [],
    ru_ProxyProfile = [], ru_AllowedRuntimes = []\<rparr>"

definition sample_policy :: policy where
  "sample_policy = \<lparr>po_SchemaVersion = 1, po_Mode = ModeEnforcing, po_Rules = [sample_rule],
    po_DefaultDeny = True, po_CreatedAt = 0, po_UpdatedAt = 0, po_TeamModeBaseline = False\<rparr>"

definition sample_request :: "gostring \<Rightarrow> request" where
  "sample_request cap = \<lparr>rq_Actor = ''bob'', rq_Connection = ''gh-main'', rq_Capability = cap,
    rq_Command = [], rq_CWD = [], rq_LLMSession = True, rq_Runtime = ''gateway_typed'',
    rq_ApprovalJWT = [], rq_Namespace = [], rq_PresenceProof = None\<rparr>"

definition sample_decision :: decision where
  "sample_decision = zero_decision\<lparr>de_Allow := True, de_MatchedRule := Some 0,
     de_ApprovalRequired := True, de_ApprovalToken := ''tok''\<rparr>"

lemma sample_rule_matches: "ruleMatches sample_rule (sample_request ''use'')"
  by code_simp

lemma sample_check: "policy_Check None 0 ''tok'' sample_policy (sample_request ''use'') = Inr sample_decision"
  by code_simp

lemma sample_check_read:
  "policy_Check None 0 ''tok'' sample_policy (sample_request ''db.reveal'') =
    Inr (zero_decision\<lparr>de_Reason := ReadClassDenied, de_SafeFix := FixHumanTerminal\<rparr>)"
  by code_simp

lemma sample_decision_allows: "de_Allow sample_decision"
  by code_simp

lemma sample_not_management: "rq_Capability (sample_request ''use'') \<notin> set managementCaps"
  by code_simp

subsection \<open>Properties\<close>

text \<open>C7: In an LLM session no policy, no rule and no org hook lets a read-class capability
  (\<open>read\<close>, \<open>export\<close>, anything ending in \<open>.reveal\<close> or \<open>.dump\<close>) through.\<close>

theorem policy_llm_read_class_denied:
  assumes "policy_Check hook now token p req = Inr d"
    and "rq_LLMSession req" and "isReadClassCap (rq_Capability req)"
  shows "\<not> de_Allow d"
proof
  assume "de_Allow d"
  with assms(1) show False
    by (rule policy_Check_Inr_cases) (use assms(2,3) read_class_not_management in auto)
qed

theorem policy_llm_read_class_denied_witness:
  "\<not> de_Allow (zero_decision\<lparr>de_Reason := ReadClassDenied, de_SafeFix := FixHumanTerminal\<rparr>)"
  by (rule policy_llm_read_class_denied [OF sample_check_read]; code_simp)

text \<open>Past the preflight checks, \<open>Check\<close> is first-match: the decision is the one of the
  least index whose rule matches, and the default decision when no rule matches.\<close>

theorem policy_first_match:
  assumes "rq_Runtime req = [] \<or> ValidateRuntimeMode (rq_Runtime req) = None"
    and "rq_Capability req \<notin> set managementCaps"
    and "rq_LLMSession req \<Longrightarrow> po_Mode p \<noteq> ModePermissive \<and> \<not> isReadClassCap (rq_Capability req)"
  shows "policy_Check None now token p req = Inr
    (case filter (\<lambda>i. ruleMatches (po_Rules p ! i) req) [0..<length (po_Rules p)] of
       i # _ \<Rightarrow> rule_decision now token i (po_Rules p ! i) req
     | [] \<Rightarrow> if po_DefaultDeny p
             then zero_decision\<lparr>de_Reason := NoRuleMatches, de_SafeFix := FixPolicyAllow\<rparr>
             else zero_decision\<lparr>de_Allow := True, de_Reason := NoRuleDefaultAllow\<rparr>)"
proof -
  have "policy_Check None now token p req =
      Inr (check_rules now token (po_DefaultDeny p) req 0 (po_Rules p))"
    using assms by (auto simp: policy_Check_def)
  then show ?thesis by (subst (asm) check_rules_spec) (simp split: list.splits)
qed

theorem policy_first_match_witness:
  "policy_Check None 0 ''tok'' sample_policy (sample_request ''use'') =
    Inr (rule_decision 0 ''tok'' 0 sample_rule (sample_request ''use''))"
proof -
  have "filter (\<lambda>i. ruleMatches (po_Rules sample_policy ! i) (sample_request ''use''))
      [0..<length (po_Rules sample_policy)] = [0]"
    using sample_rule_matches by (simp add: sample_policy_def)
  moreover have "policy_Check None 0 ''tok'' sample_policy (sample_request ''use'') = Inr
    (case filter (\<lambda>i. ruleMatches (po_Rules sample_policy ! i) (sample_request ''use''))
        [0..<length (po_Rules sample_policy)] of
       i # _ \<Rightarrow> rule_decision 0 ''tok'' i (po_Rules sample_policy ! i) (sample_request ''use'')
     | [] \<Rightarrow> if po_DefaultDeny sample_policy
             then zero_decision\<lparr>de_Reason := NoRuleMatches, de_SafeFix := FixPolicyAllow\<rparr>
             else zero_decision\<lparr>de_Allow := True, de_Reason := NoRuleDefaultAllow\<rparr>)"
    by (rule policy_first_match; code_simp)
  ultimately show ?thesis by (simp add: sample_policy_def)
qed

text \<open>Under \<open>default_deny\<close> an allowed request is a management capability or is matched
  by a rule of the document.\<close>

theorem policy_default_deny_sound:
  assumes "policy_Check hook now token p req = Inr d" and "po_DefaultDeny p" and "de_Allow d"
  shows "rq_Capability req \<in> set managementCaps \<or> (\<exists>r \<in> set (po_Rules p). ruleMatches r req)"
  using assms(1,3)
proof (rule policy_Check_Inr_cases)
  assume "d = check_rules now token (po_DefaultDeny p) req 0 (po_Rules p)"
  with assms(2,3) have "\<exists>j < length (po_Rules p). ruleMatches (po_Rules p ! j) req"
    using check_rules_matched by fastforce
  then show ?thesis using nth_mem by blast
qed simp

theorem policy_default_deny_sound_witness:
  "rq_Capability (sample_request ''use'') \<in> set managementCaps \<or>
    (\<exists>r \<in> set (po_Rules sample_policy). ruleMatches r (sample_request ''use''))"
  by (rule policy_default_deny_sound [OF sample_check _ sample_decision_allows]; code_simp)

text \<open>An approval requirement is never lost: when the first matching rule asks for approval
  (the flag or a root requirement), an allowing decision has \<open>ApprovalRequired\<close> set.\<close>

theorem policy_approval_not_bypassed:
  assumes "policy_Check hook now token p req = Inr d" and "de_Allow d"
    and "rq_Capability req \<notin> set managementCaps"
    and "po_Rules p = us @ r # vs" and "\<forall>u \<in> set us. \<not> ruleMatches u req" and "ruleMatches r req"
    and "ru_Approval r \<or> ru_ApprovalRootReq r \<noteq> None"
  shows "de_ApprovalRequired d"
proof -
  from assms(1,2) have d: "d = check_rules now token (po_DefaultDeny p) req 0 (us @ r # vs)"
    by (rule policy_Check_Inr_cases) (use assms(3,4) in auto)
  have "check_rules now token dd req i (us @ r # vs) =
      rule_decision now token (i + length us) r req" for dd i
    using assms(5,6) by (induction us arbitrary: i) auto
  with d assms(2,7) rule_decision_approval show ?thesis by metis
qed

theorem policy_approval_not_bypassed_witness: "de_ApprovalRequired sample_decision"
  by (rule policy_approval_not_bypassed [OF sample_check sample_decision_allows sample_not_management,
        of "[]" sample_rule "[]"])
    (simp_all add: sample_policy_def sample_rule_matches, simp add: sample_rule_def)

text \<open>The org hook can only narrow: whatever is allowed with a hook installed is decided the
  same way without it.\<close>

theorem policy_org_hook_narrows:
  assumes "policy_Check hook now token p req = Inr d" and "de_Allow d"
  shows "policy_Check None now token p req = Inr d"
  using assms
  by (auto simp: policy_Check_def zero_decision_def split: option.splits if_splits prod.splits)

theorem policy_org_hook_narrows_witness:
  "policy_Check None 0 ''tok'' sample_policy (sample_request ''use'') = Inr sample_decision"
proof -
  have "policy_Check (Some (\<lambda>_. (zero_decision, False))) 0 ''tok'' sample_policy
      (sample_request ''use'') = Inr sample_decision" by code_simp
  from policy_org_hook_narrows [OF this sample_decision_allows] show ?thesis .
qed

text \<open>A request that names the runtime \<open>direct_classic_sandboxed\<close> is denied before any rule
  is read, so the \<open>approval_required\<close> branch \<open>Check\<close> has for it is unreachable.\<close>

theorem policy_sandboxed_runtime_denied:
  assumes "rq_Runtime req = ''direct_classic_sandboxed''"
  shows "policy_Check hook now token p req =
    Inr (zero_decision\<lparr>de_Reason := BadRuntime (RuntimeNotAvailable ''direct_classic_sandboxed'')\<rparr>)"
  using assms
  by (simp add: policy_Check_def ValidateRuntimeMode_def valid_runtimes_def removedRuntimes_def
      plannedRuntimes_def)

theorem policy_sandboxed_runtime_denied_witness:
  "policy_Check None 0 [] sample_policy
      ((sample_request ''use'')\<lparr>rq_Runtime := ''direct_classic_sandboxed''\<rparr>) =
    Inr (zero_decision\<lparr>de_Reason := BadRuntime (RuntimeNotAvailable ''direct_classic_sandboxed'')\<rparr>)"
  by (rule policy_sandboxed_runtime_denied) simp

text \<open>A presence proof passes the age check exactly when it was confirmed at most the
  allowed age before or after now, or so far in the future (at least \<open>2^63\<close> nanoseconds)
  that negating the saturated age overflows.\<close>

theorem presence_proof_age_exact:
  assumes "pp_ConfirmedAt pp \<noteq> zero_time" and "0 < m" and "m \<le> 9223372036"
  shows "VerifyPresenceProofAge now pp m = None \<longleftrightarrow>
    \<bar>now - pp_ConfirmedAt pp\<bar> \<le> m * Second \<or> now - pp_ConfirmedAt pp \<le> min_int64"
proof -
  have sec: "seconds m = m * Second" and top: "m * Second < max_int64" "0 < m * Second"
    using assms(2,3) by (simp_all add: seconds_def wrap64_id Second_def min_int64_def max_int64_def)
  define d where "d = now - pp_ConfirmedAt pp"
  consider "d \<le> min_int64" | "min_int64 < d" "d < 0" | "0 \<le> d" by linarith
  then show ?thesis
  proof cases
    case 1
    then have "time_Sub now (pp_ConfirmedAt pp) = min_int64"
      by (simp add: time_Sub_def d_def [symmetric] min_int64_def max_int64_def)
    moreover have "wrap64 (- min_int64) = min_int64" by (simp add: wrap64_def min_int64_def)
    ultimately show ?thesis using 1 assms sec top
      by (simp add: VerifyPresenceProofAge_def d_def min_int64_def)
  next
    case 2
    then have "time_Sub now (pp_ConfirmedAt pp) = d"
      by (simp add: time_Sub_def d_def [symmetric] min_int64_def max_int64_def)
    moreover have "wrap64 (- d) = - d" using 2 by (simp add: wrap64_id min_int64_def max_int64_def)
    ultimately show ?thesis using 2 assms sec
      by (auto simp: VerifyPresenceProofAge_def d_def)
  next
    case 3
    then have "time_Sub now (pp_ConfirmedAt pp) = min max_int64 d"
      by (simp add: time_Sub_def d_def [symmetric] min_int64_def max_int64_def)
    then show ?thesis using 3 assms sec top
      by (auto simp: VerifyPresenceProofAge_def d_def min_def min_int64_def split: if_splits)
  qed
qed

theorem presence_proof_age_exact_witness:
  "VerifyPresenceProofAge 0 \<lparr>pp_Method = [], pp_ConfirmedAt = 2 ^ 63, pp_RootID = [], pp_BindingHMAC = []\<rparr> 60
    = None"
  by (subst presence_proof_age_exact) (simp_all add: zero_time_def min_int64_def)

text \<open>Connection patterns without classes, escapes and question marks mean what the
  declarative glob says: the greedy matcher neither misses nor invents a match. The empty
  pattern matches nothing.\<close>

theorem match_connection_glob:
  assumes "plain_pattern pattern"
  shows "MatchConnection pattern conn \<longleftrightarrow> pattern \<noteq> [] \<and> glob pattern conn"
  using assms by (simp add: MatchConnection_def match_ok_plain)

theorem match_connection_glob_witness:
  "MatchConnection ''gh*prod'' ''gh-prod'' \<longleftrightarrow> ''gh*prod'' \<noteq> [] \<and> glob ''gh*prod'' ''gh-prod''"
  by (rule match_connection_glob) simp

text \<open>A command pattern without metacharacters matches exactly the command itself and the
  command followed by arguments in which no slash occurs.\<close>

theorem match_command_literal:
  assumes "plain_pattern pattern" and "star \<notin> set pattern" and "pattern \<noteq> []" and "argv \<noteq> []"
  shows "MatchCommand pattern argv \<longleftrightarrow> Join argv '' '' = pattern \<or>
    (\<exists>args. Join argv '' '' = pattern @ CHR '' '' # args \<and> slash \<notin> set args)"
proof -
  have lit: "glob pattern s \<longleftrightarrow> s = pattern" for s
    using glob_literal [OF assms(2), of "[]" s]
    by (auto simp: prefix_def)
  have tail: "glob (pattern @ '' *'') s \<longleftrightarrow> (\<exists>args. s = pattern @ CHR '' '' # args \<and> slash \<notin> set args)" for s
    using glob_literal [of "pattern @ '' ''" "''*''" s] assms(2)
    by (auto simp: glob_star_only prefix_def)
  have "\<not> HasSuffix pattern ''*''"
    using assms(2) by (auto simp: HasSuffix_suffix suffix_def)
  then show ?thesis using assms
    by (simp add: MatchCommand_def match_ok_plain lit tail Let_def)
qed

theorem match_command_literal_witness:
  "MatchCommand ''gh pr'' [''gh'', ''pr'', ''list'']"
  by (subst match_command_literal) simp_all

text \<open>A policy whose rules name usable runtimes and no rate limit survives a save and a
  load unchanged but for the update time, and the file is private to its owner.\<close>

theorem policy_save_load:
  assumes "\<forall>r \<in> set (po_Rules p). ru_RateLimit r = None \<and>
    (ru_Runtime r = [] \<or> ValidateRuntimeMode (ru_Runtime r) = None)"
  shows "\<exists>f'. policy_Save windows SaveOk now p f = (None, f') \<and>
    policy_Load windows f' = Inr (p\<lparr>po_UpdatedAt := now\<rparr>) \<and> (\<not> windows \<longrightarrow> pf_Perm f' = 384)"
proof -
  have "check_loaded_rules i rs = None" if "set rs \<subseteq> set (po_Rules p)" for i rs
    using that assms by (induction rs arbitrary: i) auto
  then show ?thesis by (simp add: policy_Save_def policy_Load_def)
qed

theorem policy_save_load_witness:
  "\<exists>f'. policy_Save False SaveOk 5 sample_policy \<lparr>pf_Content = Absent, pf_Perm = 0\<rparr> = (None, f') \<and>
    policy_Load False f' = Inr (sample_policy\<lparr>po_UpdatedAt := 5\<rparr>) \<and> (\<not> False \<longrightarrow> pf_Perm f' = 384)"
  by (rule policy_save_load) code_simp

end
