(* ===== verification/File_Path.thy ===== *)
theory File_Path
  imports KL_Prelude
begin

section \<open>Lexical path operations (Unix)\<close>

text \<open>
  The part of Go's \<open>path/filepath\<close> the sources use, for Unix separators: \<open>IsAbs\<close>, \<open>Clean\<close>,
  \<open>Join\<close>, \<open>Rel\<close> and \<open>IsLocal\<close>, on the slash-separated elements of a path. The main fact,
  \<open>rel_local_iff\<close>, is that on rooted clean paths \<open>Rel\<close> gives a local path exactly when the
  base's elements are a prefix of the target's.
\<close>

fun split_slash :: "gostring \<Rightarrow> gostring list" where
  "split_slash [] = [[]]"
| "split_slash (c # s) =
    (if c = CHR ''/'' then [] # split_slash s
     else (case split_slash s of [] \<Rightarrow> [[c]] | e # es \<Rightarrow> (c # e) # es))"

definition IsAbs :: "gostring \<Rightarrow> bool" where
  "IsAbs p = HasPrefix p ''/''"

text \<open>One element of \<open>Clean\<close>'s loop: the output so far and the next element.\<close>

definition clean_step :: "bool \<Rightarrow> gostring list \<Rightarrow> gostring \<Rightarrow> gostring list" where
  "clean_step rooted out e =
    (if e = [] \<or> e = ''.'' then out
     else if e = ''..'' then
       (if out \<noteq> [] \<and> last out \<noteq> ''..'' then butlast out
        else if rooted then out else out @ [''..''])
     else out @ [e])"

definition clean_elems :: "bool \<Rightarrow> gostring list \<Rightarrow> gostring list" where
  "clean_elems rooted es = foldl (clean_step rooted) [] es"

definition path_elems :: "gostring \<Rightarrow> gostring list" where
  "path_elems p = clean_elems (IsAbs p) (split_slash p)"

definition render_path :: "bool \<Rightarrow> gostring list \<Rightarrow> gostring" where
  "render_path rooted es =
    (if rooted then CHR ''/'' # Join es ''/'' else if es = [] then ''.'' else Join es ''/'')"

definition Clean :: "gostring \<Rightarrow> gostring" where
  "Clean p = (if p = [] then ''.'' else render_path (IsAbs p) (path_elems p))"

definition filepath_Join :: "gostring \<Rightarrow> gostring \<Rightarrow> gostring" where
  "filepath_Join a b =
    (if a = [] \<and> b = [] then [] else if a = [] then Clean b else if b = [] then Clean a
     else Clean (a @ ''/'' @ b))"

definition filepath_Dir :: "gostring \<Rightarrow> gostring" where
  "filepath_Dir p = (case LastIndex p ''/'' of None \<Rightarrow> Clean [] | Some i \<Rightarrow> Clean (take (Suc i) p))"

fun drop_common :: "gostring list \<Rightarrow> gostring list \<Rightarrow> gostring list \<times> gostring list" where
  "drop_common (a # as) (b # bs) = (if a = b then drop_common as bs else (a # as, b # bs))"
| "drop_common as bs = (as, bs)"

text \<open>\<open>None\<close> is the error that the target cannot be made relative to the base.\<close>

definition Rel :: "gostring \<Rightarrow> gostring \<Rightarrow> gostring option" where
  "Rel basepath targpath =
    (let base = Clean basepath; targ = Clean targpath in
     if targ = base then Some ''.''
     else if IsAbs base \<noteq> IsAbs targ then None
     else let (bs, ts) = drop_common (path_elems base) (path_elems targ) in
       if bs \<noteq> [] \<and> hd bs = ''..'' then None
       else Some (Join (map (\<lambda>_. ''..'') bs @ ts) ''/''))"

definition IsLocal :: "gostring \<Rightarrow> bool" where
  "IsLocal path =
    (if IsAbs path \<or> path = [] then False
     else let p = (if list_ex (\<lambda>e. e = ''.'' \<or> e = ''..'') (split_slash path) then Clean path else path) in
       \<not> (p = ''..'' \<or> HasPrefix p ''../''))"

subsection \<open>Elements of clean paths\<close>

text \<open>A proper element: not empty, no slash, neither dot name.\<close>

definition proper_elem :: "gostring \<Rightarrow> bool" where
  "proper_elem e = (e \<noteq> [] \<and> CHR ''/'' \<notin> set e \<and> e \<noteq> ''.'' \<and> e \<noteq> ''..'')"

lemma proper_elemD:
  "proper_elem e \<Longrightarrow> CHR ''/'' \<notin> set e" "proper_elem e \<Longrightarrow> e \<noteq> []"
  "proper_elem e \<Longrightarrow> e \<noteq> ''.''" "proper_elem e \<Longrightarrow> e \<noteq> ''..''"
  by (simp_all add: proper_elem_def)

lemma split_slash_not_Nil [simp]: "split_slash s \<noteq> []"
  by (induction s) (auto split: list.splits)

lemma split_slash_no_slash: "e \<in> set (split_slash s) \<Longrightarrow> CHR ''/'' \<notin> set e"
proof (induction s arbitrary: e)
  case (Cons c s)
  then show ?case by (cases "split_slash s") (auto split: if_splits)
qed simp

lemma split_slash_simple: "CHR ''/'' \<notin> set e \<Longrightarrow> split_slash e = [e]"
  by (induction e) auto

lemma split_slash_append:
  "CHR ''/'' \<notin> set e \<Longrightarrow> split_slash (e @ CHR ''/'' # s) = e # split_slash s"
  by (induction e) auto

lemma split_slash_Join:
  "es \<noteq> [] \<Longrightarrow> \<forall>e \<in> set es. CHR ''/'' \<notin> set e \<Longrightarrow> split_slash (Join es ''/'') = es"
proof (induction es "''/''" rule: Join.induct)
  case (3 x y xs)
  then show ?case by (simp add: split_slash_append)
qed (simp_all add: split_slash_simple)

lemma Join_Cons_head: "Join ((x # a) # es) sep = x # Join (a # es) sep"
  by (cases es) auto

lemma Join_split_slash: "Join (split_slash s) ''/'' = s"
proof (induction s)
  case (Cons x s)
  then show ?case by (cases "split_slash s") (auto simp: Join_Cons_head)
qed simp

lemma clean_elems_proper:
  "\<forall>e \<in> set es. proper_elem e \<Longrightarrow> clean_elems rooted es = es"
proof -
  have "\<forall>e \<in> set es. proper_elem e \<Longrightarrow> foldl (clean_step rooted) out es = out @ es" for out
    by (induction es arbitrary: out) (auto simp: clean_step_def proper_elem_def)
  then show "\<forall>e \<in> set es. proper_elem e \<Longrightarrow> clean_elems rooted es = es"
    by (simp add: clean_elems_def)
qed

lemma clean_elems_rooted_proper:
  assumes "\<forall>e \<in> set es. CHR ''/'' \<notin> set e"
  shows "\<forall>e \<in> set (clean_elems True es). proper_elem e"
proof -
  have "\<forall>e \<in> set (foldl (clean_step True) out es). proper_elem e"
    if "\<forall>e \<in> set out. proper_elem e" for out
    using that assms
  proof (induction es arbitrary: out)
    case (Cons e es)
    have "\<forall>e' \<in> set (clean_step True out e). proper_elem e'"
      using Cons.prems by (auto simp: clean_step_def proper_elem_def dest: in_set_butlastD)
    with Cons show ?case by simp
  qed simp
  from this [of "[]"] show ?thesis by (simp add: clean_elems_def)
qed

lemma path_elems_rooted_proper: "IsAbs p \<Longrightarrow> e \<in> set (path_elems p) \<Longrightarrow> proper_elem e"
  using clean_elems_rooted_proper split_slash_no_slash by (auto simp: path_elems_def)

lemma clean_elems_not_Nil: "e \<in> set (clean_elems rooted es) \<Longrightarrow> e \<noteq> []"
proof -
  have "\<forall>e \<in> set (foldl (clean_step rooted) out es). e \<noteq> []" if "\<forall>e \<in> set out. e \<noteq> []" for out
    using that
  proof (induction es arbitrary: out)
    case (Cons e es)
    have "\<forall>e' \<in> set (clean_step rooted out e). e' \<noteq> []"
      using Cons.prems by (auto simp: clean_step_def dest: in_set_butlastD)
    with Cons show ?case by simp
  qed simp
  from this [of "[]"] show "e \<in> set (clean_elems rooted es) \<Longrightarrow> e \<noteq> []" by (auto simp: clean_elems_def)
qed

lemma Join_not_Nil: "es \<noteq> [] \<Longrightarrow> \<forall>e \<in> set es. e \<noteq> [] \<Longrightarrow> Join es sep \<noteq> []"
  by (induction es sep rule: Join.induct) auto

lemma Clean_not_Nil: "Clean p \<noteq> []"
  using Join_not_Nil clean_elems_not_Nil by (auto simp: Clean_def render_path_def path_elems_def)

text \<open>A rooted path in the form \<open>Clean\<close> gives it.\<close>

definition rooted_path :: "gostring list \<Rightarrow> gostring" where
  "rooted_path es = CHR ''/'' # Join es ''/''"

lemma path_elems_rooted_path:
  assumes "\<forall>e \<in> set es. proper_elem e"
  shows "path_elems (rooted_path es) = es"
proof -
  have "clean_elems True ([] # es') = clean_elems True es'" for es'
    by (simp add: clean_elems_def clean_step_def)
  moreover have "split_slash (Join es ''/'') = es" if "es \<noteq> []"
    using split_slash_Join [OF that] assms by (auto simp: proper_elem_def)
  ultimately show ?thesis using clean_elems_proper [OF assms, of True]
    by (cases "es = []")
      (simp_all add: path_elems_def rooted_path_def IsAbs_def HasPrefix_def)
qed

lemma Clean_rooted_path:
  "\<forall>e \<in> set es. proper_elem e \<Longrightarrow> Clean (rooted_path es) = rooted_path es"
  using path_elems_rooted_path [of es]
  by (auto simp: Clean_def render_path_def rooted_path_def IsAbs_def HasPrefix_def)

lemma Clean_rooted: "IsAbs p \<Longrightarrow> Clean p = rooted_path (path_elems p)"
  by (auto simp: Clean_def render_path_def rooted_path_def IsAbs_def HasPrefix_def)

text \<open>\<open>Clean\<close> is idempotent on rooted paths.\<close>

lemma Clean_idem: "IsAbs p \<Longrightarrow> Clean (Clean p) = Clean p"
  using Clean_rooted Clean_rooted_path path_elems_rooted_proper by simp

lemma rooted_path_inject:
  "\<forall>e \<in> set as. proper_elem e \<Longrightarrow> \<forall>e \<in> set bs. proper_elem e \<Longrightarrow>
     rooted_path as = rooted_path bs \<longleftrightarrow> as = bs"
  using path_elems_rooted_path by metis

lemma drop_common_prefix: "drop_common as bs = (as', bs') \<Longrightarrow> as' = [] \<longleftrightarrow> prefix as bs"
  by (induction as bs rule: drop_common.induct) (auto split: if_splits)

lemma drop_common_sets:
  "drop_common as bs = (as', bs') \<Longrightarrow> set as' \<subseteq> set as \<and> set bs' \<subseteq> set bs"
  by (induction as bs rule: drop_common.induct) (auto split: if_splits)

lemma drop_common_both_Nil: "drop_common as bs = ([], []) \<longleftrightarrow> as = bs"
  by (induction as bs rule: drop_common.induct) auto

lemma Join_hd: "\<exists>t. Join ((c # e) # es) sep = c # t"
  by (cases es) auto

lemma IsAbs_Join: "c \<noteq> CHR ''/'' \<Longrightarrow> \<not> IsAbs (Join ((c # e) # es) sep) \<and> Join ((c # e) # es) sep \<noteq> []"
  using Join_hd [of c e es sep] by (auto simp: IsAbs_def HasPrefix_def)

lemma IsLocal_proper:
  assumes "\<forall>e \<in> set es. proper_elem e" and "es \<noteq> []"
  shows "IsLocal (Join es ''/'')"
proof -
  have sp: "split_slash (Join es ''/'') = es"
    using split_slash_Join [OF assms(2)] assms(1) by (auto simp: proper_elem_def)
  obtain x es' where "es = x # es'" using assms(2) by (cases es) auto
  moreover then obtain c e' where "x = c # e'" "c \<noteq> CHR ''/''"
    using assms(1) by (cases x) (auto simp: proper_elem_def)
  ultimately have abs: "\<not> IsAbs (Join es ''/'')" "Join es ''/'' \<noteq> []"
    using IsAbs_Join by simp_all
  have "Join es ''/'' \<noteq> ''..''"
  proof
    assume "Join es ''/'' = ''..''"
    with sp have "es = [''..'']" by simp
    with assms(1) show False by (simp add: proper_elem_def)
  qed
  moreover have "\<not> HasPrefix (Join es ''/'') ''../''"
  proof
    assume "HasPrefix (Join es ''/'') ''../''"
    then obtain t where "Join es ''/'' = ''..'' @ CHR ''/'' # t"
      by (auto simp: HasPrefix_prefix prefix_def)
    then have "split_slash (Join es ''/'') = ''..'' # split_slash t"
      using split_slash_append [of "''..''" t] by simp
    with sp have "''..'' \<in> set es" by (metis list.set_intros(1))
    with assms(1) proper_elemD(4) show False by blast
  qed
  moreover have "\<not> list_ex (\<lambda>e. e = ''.'' \<or> e = ''..'') es"
    using assms(1) proper_elemD(3,4) unfolding list_ex_iff by blast
  ultimately show ?thesis using abs sp by (simp add: IsLocal_def)
qed

lemma clean_elems_dotdot:
  assumes "\<forall>e \<in> set ys. proper_elem e"
  shows "clean_elems False (replicate (Suc k) ''..'' @ ys) = replicate (Suc k) ''..'' @ ys"
proof -
  have dd: "foldl (clean_step False) (replicate n ''..'') (replicate k ''..'') = replicate (n + k) ''..''"
    if "0 < n" for n k
    using that
  proof (induction k arbitrary: n)
    case (Suc k)
    have "clean_step False (replicate n ''..'') ''..'' = replicate (Suc n) ''..''"
      using Suc.prems by (simp add: clean_step_def replicate_append_same)
    moreover have "foldl (clean_step False) (replicate n ''..'') (replicate (Suc k) ''..'') =
        foldl (clean_step False) (clean_step False (replicate n ''..'') ''..'') (replicate k ''..'')"
      by simp
    ultimately show ?case using Suc.IH [of "Suc n"] by (simp del: replicate.simps)
  qed simp
  have pr: "foldl (clean_step False) out ys = out @ ys" for out
    using assms by (induction ys arbitrary: out) (auto simp: clean_step_def proper_elem_def)
  have "clean_step False [] ''..'' = replicate 1 ''..''" by (simp add: clean_step_def)
  then show ?thesis using dd [of 1 k] pr by (simp add: clean_elems_def)
qed

lemma IsLocal_dotdot:
  assumes "\<forall>e \<in> set ts. proper_elem e"
  shows "\<not> IsLocal (Join (replicate (Suc k) ''..'' @ ts) ''/'')"
proof -
  let ?es = "replicate (Suc k) ''..'' @ ts"
  have "\<forall>e \<in> set (replicate (Suc k) ''..''). CHR ''/'' \<notin> set e" by (simp add: set_replicate_conv_if)
  then have ns: "\<forall>e \<in> set ?es. CHR ''/'' \<notin> set e"
    using assms proper_elemD(1) by (metis Un_iff set_append)
  have sp: "split_slash (Join ?es ''/'') = ?es" by (rule split_slash_Join [OF _ ns]) simp
  have nabs: "\<not> IsAbs (Join ?es ''/'')" "Join ?es ''/'' \<noteq> []"
    using IsAbs_Join [of "CHR ''.''" "''.''" "replicate k ''..'' @ ts" "''/''"]
    by (simp_all only: replicate.simps append.simps) auto
  have "Clean (Join ?es ''/'') = Join ?es ''/''"
    using nabs sp clean_elems_dotdot [OF assms, of k] by (simp add: Clean_def render_path_def path_elems_def)
  moreover have "list_ex (\<lambda>e. e = ''.'' \<or> e = ''..'') ?es" by simp
  moreover have "Join (''..'' # zs) ''/'' = ''..'' \<or> HasPrefix (Join (''..'' # zs) ''/'') ''../''" for zs
    by (cases zs) (auto simp: HasPrefix_def)
  ultimately show ?thesis using nabs sp by (simp add: IsLocal_def Let_def)
qed

text \<open>On rooted clean paths: a local relative path exists exactly below the base.\<close>

lemma rel_local_iff:
  assumes "\<forall>e \<in> set bs. proper_elem e" and "\<forall>e \<in> set ts. proper_elem e"
  shows "(\<exists>r. Rel (rooted_path bs) (rooted_path ts) = Some r \<and> IsLocal r) \<longleftrightarrow> prefix bs ts"
proof (cases "bs = ts")
  case True
  have "IsLocal ''.''" by code_simp
  with True assms show ?thesis by (simp add: Rel_def)
next
  case False
  obtain bs' ts' where d: "drop_common bs ts = (bs', ts')" by fastforce
  have pe: "\<forall>e \<in> set bs'. proper_elem e" "\<forall>e \<in> set ts'. proper_elem e"
    using drop_common_sets [OF d] assms by auto
  have abs: "IsAbs (rooted_path es)" for es by (simp add: IsAbs_def rooted_path_def HasPrefix_def)
  have nodd: "\<not> (bs' \<noteq> [] \<and> hd bs' = ''..'')" using pe(1) by (cases bs') (auto simp: proper_elem_def)
  have rel: "Rel (rooted_path bs) (rooted_path ts) = Some (Join (map (\<lambda>_. ''..'') bs' @ ts') ''/'')"
    using assms False d nodd abs rooted_path_inject [OF assms(2,1)]
    by (simp add: Rel_def Clean_rooted_path path_elems_rooted_path)
  show ?thesis
  proof (cases bs')
    case Nil
    with d False drop_common_both_Nil [of bs ts] have "ts' \<noteq> []" by auto
    with IsLocal_proper [OF pe(2)] Nil rel drop_common_prefix [OF d] show ?thesis by simp
  next
    case (Cons b bs'')
    then have "map (\<lambda>_. ''..'') bs' = replicate (Suc (length bs'')) ''..''"
      by (simp add: map_replicate_const)
    then have "\<not> IsLocal (Join (map (\<lambda>_. ''..'') bs' @ ts') ''/'')"
      using IsLocal_dotdot [OF pe(2)] by simp
    with rel drop_common_prefix [OF d] Cons show ?thesis by auto
  qed
qed

end
