(* ===== verification/Json_Text.thy ===== *)
theory Json_Text
  imports KL_Prelude
begin

section \<open>JSON text\<close>

text \<open>
  The bytes \<open>encoding/json\<close> writes for strings and for objects with string values, and that they
  determine what they were written from: strings delimit themselves, so no field can run into the next.
\<close>

subsection \<open>Encoding\<close>

abbreviation newline :: char where "newline \<equiv> CHR 0x0A"
abbreviation carriage_return :: char where "carriage_return \<equiv> CHR 0x0D"

definition hex_digit :: "nat \<Rightarrow> char" where
  "hex_digit n = (if n < 10 then char_of (48 + n) else char_of (87 + n))"

text \<open>The bytes \<open>encoding/json\<close> writes for one byte of a string. Valid UTF-8 is kept, apart from the
  separators U+2028 and U+2029, for which it writes an escape this model does not.\<close>

definition json_char :: "char \<Rightarrow> gostring" where
  "json_char c =
    (let n = byte_of c; bs = CHR 0x5C in
     if n = 34 \<or> n = 92 then [bs, c]
     else if n = 10 then [bs, CHR ''n''] else if n = 13 then [bs, CHR ''r'']
     else if n = 9 then [bs, CHR ''t''] else if n = 8 then [bs, CHR ''b'']
     else if n = 12 then [bs, CHR ''f'']
     else if n < 32 \<or> n = 60 \<or> n = 62 \<or> n = 38 then
       [bs, CHR ''u'', CHR ''0'', CHR ''0'', hex_digit (n div 16), hex_digit (n mod 16)]
     else [c])"

definition json_string :: "gostring \<Rightarrow> gostring" where
  "json_string s = [CHR 0x22] @ concat (map json_char s) @ [CHR 0x22]"

text \<open>An object with string values, its fields in the order given.\<close>

definition json_object :: "(gostring \<times> gostring) list \<Rightarrow> gostring" where
  "json_object fs = ''{'' @ Join (map (\<lambda>(k, v). json_string k @ '':'' @ json_string v) fs) '','' @ ''}''"

subsection \<open>Decoding\<close>

lemma hex_digit_not_newline: "n < 16 \<Longrightarrow> newline \<noteq> hex_digit n"
  by (auto simp: hex_digit_def dest!: arg_cong [where f = "of_char :: char \<Rightarrow> nat"])

lemma json_char_no_newline: "newline \<notin> set (json_char c)"
proof -
  have "byte_of c div 16 < 16" using byte_of_less [of c] by simp
  moreover have "byte_of newline = 10" by (simp add: byte_of_def)
  ultimately show ?thesis by (auto simp: json_char_def Let_def hex_digit_not_newline)
qed

text \<open>JSON strings delimit themselves: a decoder for one encoded byte, and cancellation.\<close>

definition hex_value :: "char \<Rightarrow> nat" where
  "hex_value h = (if byte_of h < 58 then byte_of h - 48 else byte_of h - 87)"

definition json_escape_value :: "char \<Rightarrow> char" where
  "json_escape_value x =
    (if x = CHR ''n'' then newline else if x = CHR ''r'' then carriage_return
     else if x = CHR ''t'' then CHR 0x09 else if x = CHR ''b'' then CHR 0x08
     else if x = CHR ''f'' then CHR 0x0C else x)"

fun json_unchar :: "gostring \<Rightarrow> char \<times> gostring" where
  "json_unchar (c # x # r) =
    (if c \<noteq> CHR 0x5C then (c, x # r)
     else if x = CHR ''u'' then
       (char_of (16 * hex_value (r ! 2) + hex_value (r ! 3)), drop 4 r)
     else (json_escape_value x, r))"
| "json_unchar [c] = (c, [])"
| "json_unchar [] = (newline, [])"

lemma char_of_byte: "byte_of c = n \<Longrightarrow> c = char_of n"
  by (auto simp: byte_of_def)

lemma hex_value_digit: "n < 16 \<Longrightarrow> hex_value (hex_digit n) = n"
  by (auto simp: hex_value_def hex_digit_def byte_of_def)

lemma json_unchar_char: "json_unchar (json_char c @ u) = (c, u)"
proof (cases "byte_of c \<in> {34, 92, 10, 13, 9, 8, 12}")
  case True
  have "char_of (34 :: nat) = CHR 0x22" "char_of (92 :: nat) = CHR 0x5C" "char_of (10 :: nat) = newline"
    "char_of (13 :: nat) = carriage_return" "char_of (9 :: nat) = CHR 0x09"
    "char_of (8 :: nat) = CHR 0x08" "char_of (12 :: nat) = CHR 0x0C" by code_simp+
  with True have "c \<in> {CHR 0x22, CHR 0x5C, newline, carriage_return, CHR 0x09, CHR 0x08, CHR 0x0C}"
    by (auto dest!: char_of_byte)
  then show ?thesis
    by (elim insertE emptyE) (simp_all add: json_char_def json_escape_value_def byte_of_def Let_def)
next
  case False
  then have nq: "c \<noteq> CHR 0x5C" by (auto simp: byte_of_def)
  show ?thesis
  proof (cases "byte_of c < 32 \<or> byte_of c = 60 \<or> byte_of c = 62 \<or> byte_of c = 38")
    case True
    have "byte_of c div 16 < 16" using byte_of_less [of c] by simp
    then have "char_of (16 * hex_value (hex_digit (byte_of c div 16)) +
        hex_value (hex_digit (byte_of c mod 16))) = c"
      by (simp add: hex_value_digit byte_of_def)
    with True False show ?thesis by (simp add: json_char_def Let_def numeral_2_eq_2 numeral_3_eq_3)
  next
    case out: False
    with False nq show ?thesis by (cases u) (simp_all add: json_char_def Let_def)
  qed
qed

lemma json_char_cancel: "json_char c @ u = json_char d @ v \<Longrightarrow> c = d \<and> u = v"
  by (metis json_unchar_char prod.inject)

lemma json_char_Cons: "json_char c = x # xs \<Longrightarrow> x \<noteq> CHR 0x22"
  by (auto simp: json_char_def Let_def byte_of_def split: if_splits)

lemma json_char_not_Nil: "json_char c \<noteq> []"
  by (simp add: json_char_def Let_def)

lemma json_chars_cancel:
  "concat (map json_char s) @ CHR 0x22 # u = concat (map json_char t) @ CHR 0x22 # v \<Longrightarrow> s = t \<and> u = v"
proof (induction s arbitrary: t)
  case Nil
  then show ?case
  proof (cases t)
    case (Cons d t')
    then obtain x xs where "json_char d = x # xs" using json_char_not_Nil [of d] by (cases "json_char d") auto
    with Nil Cons json_char_Cons show ?thesis by fastforce
  qed simp
next
  case (Cons c s)
  show ?case
  proof (cases t)
    case Nil
    obtain x xs where "json_char c = x # xs" using json_char_not_Nil [of c] by (cases "json_char c") auto
    with Nil Cons.prems json_char_Cons show ?thesis by fastforce
  next
    case (Cons d t')
    with Cons.prems have "c = d \<and> concat (map json_char s) @ CHR 0x22 # u = concat (map json_char t') @ CHR 0x22 # v"
      by (intro json_char_cancel) simp
    with Cons.IH Cons show ?thesis by auto
  qed
qed

lemma json_string_cancel: "json_string s @ u = json_string t @ v \<longleftrightarrow> s = t \<and> u = v"
  using json_chars_cancel [of s u t v] by (auto simp: json_string_def)

lemma json_string_inject [simp]: "json_string s = json_string t \<longleftrightarrow> s = t"
  using json_string_cancel [of s "[]" t "[]"] by simp

text \<open>Objects with the same keys are the same text only when all their values agree.\<close>

lemma json_fields_cancel:
  "length vs = length ks \<Longrightarrow> length ws = length ks \<Longrightarrow>
   Join (map (\<lambda>(k, v). json_string k @ '':'' @ json_string v) (zip ks vs)) '','' @ u =
   Join (map (\<lambda>(k, v). json_string k @ '':'' @ json_string v) (zip ks ws)) '','' @ u \<Longrightarrow> vs = ws"
proof (induction ks arbitrary: vs ws)
  case Nil
  then show ?case by simp
next
  case (Cons k ks)
  obtain v vs' where v: "vs = v # vs'" "length vs' = length ks" using Cons.prems(1) by (cases vs) auto
  obtain w ws' where w: "ws = w # ws'" "length ws' = length ks" using Cons.prems(2) by (cases ws) auto
  show ?case
  proof (cases ks)
    case Nil
    with Cons.prems v w show ?thesis by (auto simp: json_string_cancel)
  next
    case (Cons k' ks')
    then obtain v' vs'' w' ws'' where "vs' = v' # vs''" "ws' = w' # ws''"
      using v(2) w(2) by (cases vs'; cases ws') auto
    with Cons.prems v w Cons Cons.IH [OF v(2) w(2)] show ?thesis
      by (auto simp: json_string_cancel)
  qed
qed

lemma json_object_inject:
  assumes "length vs = length ks" and "length ws = length ks"
    and "json_object (zip ks vs) = json_object (zip ks ws)"
  shows "vs = ws"
  using json_fields_cancel [OF assms(1,2), of "''}''"] assms(3) by (simp add: json_object_def)

lemma json_string_no_newline: "newline \<notin> set (json_string s)"
  using json_char_no_newline by (auto simp: json_string_def)

lemma Join_no_char:
  "\<forall>x \<in> set xs. c \<notin> set x \<Longrightarrow> c \<notin> set sep \<Longrightarrow> c \<notin> set (Join xs sep)"
  by (induction xs sep rule: Join.induct) auto

end
