(* ===== verification/Consumption_Log.thy ===== *)
theory Consumption_Log
  imports Json_Text
begin

section \<open>Consumption logs\<close>

text \<open>
  Grants and gateway tokens count their uses in an append-only file: under an exclusive
  lock the process counts the non-empty lines, refuses at the limit, and otherwise appends
  one JSON line. This theory has the file at the level of bytes, the line counter
  (\<open>bufio.Scanner\<close> with its 64 KiB limit), the append with the ways it can fail, and the
  locale \<open>use_counter\<close>: the contract both implementations give, with the consequence that
  the successful uses of any sequence of attempts never exceed the limit. It is
  interpreted in the theories of the two components.
\<close>

subsection \<open>Lines\<close>

fun scan_lines :: "gostring \<Rightarrow> gostring \<Rightarrow> gostring list" where
  "scan_lines acc [] = (if acc = [] then [] else [acc])"
| "scan_lines acc (c # s) =
    (if c = newline then acc # scan_lines [] s else scan_lines (acc @ [c]) s)"

definition dropCR :: "gostring \<Rightarrow> gostring" where
  "dropCR l = (if l \<noteq> [] \<and> last l = carriage_return then butlast l else l)"

text \<open>The file: absent, not readable, or its bytes.\<close>

datatype clog = NoLog | LogUnreadable | LogBytes gostring

datatype count_result = CountNotExist | CountFails | Count nat

definition count_lines :: "clog \<Rightarrow> count_result" where
  "count_lines l =
    (case l of NoLog \<Rightarrow> CountNotExist | LogUnreadable \<Rightarrow> CountFails
     | LogBytes s \<Rightarrow>
        (let ls = scan_lines [] s in
         if list_ex (\<lambda>x. 65536 \<le> length x) ls then CountFails
         else Count (length (filter (\<lambda>x. dropCR x \<noteq> []) ls))))"

text \<open>
  How the operating system answers one attempt: everything succeeds; the directory, the
  lock or the opening fails before anything is written; the write stops after some bytes;
  or the final sync fails with the line written.
\<close>

datatype consume_io = ConsumeOk | ConsumeLockFails | ConsumeWriteFails nat | ConsumeSyncFails

definition log_bytes :: "clog \<Rightarrow> gostring" where
  "log_bytes l = (case l of LogBytes s \<Rightarrow> s | _ \<Rightarrow> [])"

definition append_record :: "consume_io \<Rightarrow> gostring \<Rightarrow> clog \<Rightarrow> bool \<times> clog" where
  "append_record io line l =
    (case io of
       ConsumeOk \<Rightarrow> (True, LogBytes (log_bytes l @ line @ [newline]))
     | ConsumeLockFails \<Rightarrow> (False, l)
     | ConsumeWriteFails n \<Rightarrow> (False, LogBytes (log_bytes l @ take n (line @ [newline])))
     | ConsumeSyncFails \<Rightarrow> (False, LogBytes (log_bytes l @ line @ [newline])))"

subsection \<open>Committed uses\<close>

text \<open>The terminated non-empty lines of a log: what a successful attempt adds one to.\<close>

fun complete_lines :: "gostring \<Rightarrow> gostring \<Rightarrow> nat" where
  "complete_lines acc [] = 0"
| "complete_lines acc (c # s) =
    (if c = newline then (if dropCR acc \<noteq> [] then 1 else 0) + complete_lines [] s
     else complete_lines (acc @ [c]) s)"

definition committed :: "clog \<Rightarrow> nat" where
  "committed l = complete_lines [] (log_bytes l)"

fun open_line :: "gostring \<Rightarrow> gostring \<Rightarrow> gostring" where
  "open_line acc [] = acc"
| "open_line acc (c # s) = (if c = newline then open_line [] s else open_line (acc @ [c]) s)"

lemma complete_lines_append:
  "complete_lines acc (s @ t) = complete_lines acc s + complete_lines (open_line acc s) t"
  by (induction acc s rule: complete_lines.induct) auto

lemma complete_lines_record:
  "newline \<notin> set line \<Longrightarrow> complete_lines acc (line @ [newline]) = (if dropCR (acc @ line) \<noteq> [] then 1 else 0)"
  by (induction line arbitrary: acc) auto

lemma complete_lines_le_scan:
  "complete_lines acc s \<le> length (filter (\<lambda>x. dropCR x \<noteq> []) (scan_lines acc s))"
  by (induction acc s rule: complete_lines.induct) auto

lemma committed_le_count: "count_lines l = Count n \<Longrightarrow> committed l \<le> n"
  using complete_lines_le_scan [of "[]" "log_bytes l"]
  by (auto simp: count_lines_def committed_def log_bytes_def Let_def split: clog.splits if_splits)

lemma committed_NoLog [simp]: "committed NoLog = 0"
  by (simp add: committed_def log_bytes_def)

text \<open>A record line: no line feed in it, and it ends in a byte that is not a carriage return.\<close>

definition record_line :: "gostring \<Rightarrow> bool" where
  "record_line line = (newline \<notin> set line \<and> line \<noteq> [] \<and> last line \<noteq> carriage_return)"

lemma complete_lines_record_line:
  "record_line line \<Longrightarrow> complete_lines acc (line @ [newline]) = 1"
  by (subst complete_lines_record) (auto simp: record_line_def dropCR_def)

lemma committed_append_record:
  assumes "record_line line" and "append_record io line l = (ok, l')"
  shows "committed l + (if ok then 1 else 0) \<le> committed l'"
proof -
  have "complete_lines [] (s @ line @ [newline]) = complete_lines [] s + 1" for s
    using complete_lines_record_line [OF assms(1)] complete_lines_append by metis
  moreover have "complete_lines [] s \<le> complete_lines [] (s @ t)" for s t
    by (simp add: complete_lines_append)
  ultimately show ?thesis using assms(2)
    by (auto simp: append_record_def committed_def log_bytes_def split: consume_io.splits)
qed

lemma json_object_record_line: "record_line (json_object fs)"
proof -
  have "newline \<notin> set (Join (map (\<lambda>(k, v). json_string k @ '':'' @ json_string v) fs) '','')"
    by (rule Join_no_char) (auto simp: json_string_no_newline)
  then show ?thesis
    by (simp add: record_line_def json_object_def)
qed

subsection \<open>Counting over many logs\<close>

text \<open>
  \<open>use_step p m hit L L'\<close>: a step from the logs \<open>L\<close> to \<open>L'\<close> that returns an object counted
  in the log \<open>p\<close> with limit \<open>m\<close> when \<open>hit\<close> holds. Committed uses only grow, and a hit needs
  room below the limit.
\<close>

definition use_step ::
  "gostring \<Rightarrow> int \<Rightarrow> bool \<Rightarrow> (gostring \<Rightarrow> clog) \<Rightarrow> (gostring \<Rightarrow> clog) \<Rightarrow> bool" where
  "use_step p m hit L L' = (committed (L p) + (if hit then 1 else 0) \<le> committed (L' p) \<and>
     (hit \<longrightarrow> int (committed (L p)) < m))"

lemma use_step_refl [simp]: "use_step p m False L L"
  by (simp add: use_step_def)

lemma use_step_trans:
  "use_step p m False L L1 \<Longrightarrow> use_step p m hit L1 L' \<Longrightarrow> use_step p m hit L L'"
  by (auto simp: use_step_def split: if_splits)

text \<open>A run: the hits of consecutive steps.\<close>

fun use_run :: "gostring \<Rightarrow> int \<Rightarrow> bool list \<Rightarrow> (gostring \<Rightarrow> clog) list \<Rightarrow> bool" where
  "use_run p m [] [L] = True"
| "use_run p m (h # hs) (L # L' # Ls) = (use_step p m h L L' \<and> use_run p m hs (L' # Ls))"
| "use_run p m _ _ = False"

lemma use_run_room:
  "use_run p m hs (L # Ls) \<Longrightarrow> length (filter id hs) = 0 \<or>
     int (committed (L p)) + int (length (filter id hs)) \<le> m"
proof (induction hs arbitrary: L Ls)
  case Nil
  then show ?case by simp
next
  case (Cons h hs)
  then obtain L' Ls' where Ls: "Ls = L' # Ls'" by (cases Ls) auto
  with Cons.prems have "use_step p m h L L'" and "use_run p m hs (L' # Ls')" by simp_all
  with Cons.IH [of L' Ls'] show ?case by (auto simp: use_step_def split: if_splits)
qed

lemma use_run_bounded:
  "use_run p m hs (L # Ls) \<Longrightarrow> 0 \<le> m \<Longrightarrow> int (length (filter id hs)) \<le> m"
  using use_run_room by fastforce

subsection \<open>The contract\<close>

text \<open>
  \<open>consume io ts x l\<close> is one attempt on the log \<open>l\<close> for the object \<open>x\<close> at the time stamp
  \<open>ts\<close>. A success needs room below the limit and commits a use; nothing takes a committed
  use away.
\<close>

locale use_counter =
  fixes consume :: "consume_io \<Rightarrow> gostring \<Rightarrow> 'a \<Rightarrow> clog \<Rightarrow> bool \<times> clog"
    and max_uses :: "'a \<Rightarrow> int"
    and log_path :: "'a \<Rightarrow> gostring"
  assumes consume_room: "consume io ts x l = (True, l') \<Longrightarrow> int (committed l) < max_uses x"
    and consume_commits: "consume io ts x l = (ok, l') \<Longrightarrow>
      committed l + (if ok then 1 else 0) \<le> committed l'"
begin

text \<open>An attempt on the object's own log, and what it means for the log \<open>p\<close>.\<close>

definition attempt :: "consume_io \<Rightarrow> gostring \<Rightarrow> 'a \<Rightarrow> (gostring \<Rightarrow> clog) \<Rightarrow> bool \<times> (gostring \<Rightarrow> clog)" where
  "attempt io ts x L = (let (ok, l') = consume io ts x (L (log_path x)) in (ok, L(log_path x := l')))"

lemma attempt_use_step:
  assumes "attempt io ts x L = (ok, L')" and "log_path x = p \<Longrightarrow> max_uses x \<le> m"
  shows "use_step p m (ok \<and> log_path x = p) L L'"
proof -
  obtain l' where c: "consume io ts x (L (log_path x)) = (ok, l')" and L': "L' = L(log_path x := l')"
    using assms(1) by (auto simp: attempt_def split: prod.splits)
  show ?thesis
  proof (cases "log_path x = p")
    case True
    with c consume_commits [OF c] consume_room assms(2) L' show ?thesis
      by (fastforce simp: use_step_def)
  next
    case False
    with L' show ?thesis by (simp add: use_step_def)
  qed
qed

end

end
