(* ===== verification/Grant.thy ===== *)
theory Grant
  imports File_Path Consumption_Log
begin

unbundle bit_operations_syntax

section \<open>Capability grants (\<open>internal/grant\<close>)\<close>

text \<open>
  The grants file and its operations (\<open>grant.go\<close>), command and directory scopes
  (\<open>scope.go\<close>) and the consumption log (\<open>flock_unix.go\<close>). The grants file is a
  \<open>jsonfile\<close>; logs are a map from paths to \<open>clog\<close>. The file system answers the questions
  of \<open>scope.go\<close> through the record \<open>fs\<close>; clock, random bytes, the HMAC and the outcome of
  each write are arguments. The model is of the Unix build.
\<close>

subsection \<open>Data\<close>

record grant =
  g_ID :: gostring
  g_Accessor :: gostring
  g_Actor :: gostring
  g_Connection :: gostring
  g_Capability :: gostring
  g_Command :: gostring
  g_CommandArgv :: "gostring list"
  g_CWD :: gostring
  g_IssuedAt :: gotime
  g_ExpiresAt :: gotime
  g_MaxUses :: int
  g_UsesRemaining :: int
  g_ConsumptionLogPath :: gostring
  g_Revoked :: bool
  g_RevokedAt :: "gotime option"
  g_Parent :: gostring
  g_IssuedFromLLMSession :: bool
  g_MemberID :: gostring
  g_Scopes :: "gostring list"

record grant_spec =
  gs_Actor :: gostring
  gs_Connection :: gostring
  gs_Capability :: gostring
  gs_Command :: gostring
  gs_CWD :: gostring
  gs_TTL :: duration
  gs_MaxUses :: int
  gs_MemberID :: gostring

record grant_list_opts =
  lo_IncludeExpired :: bool
  lo_IncludeRevoked :: bool
  lo_ActorFilter :: gostring

record find_request =
  fr_Actor :: gostring
  fr_Connection :: gostring
  fr_Capability :: gostring
  fr_Command :: "gostring list"
  fr_CWD :: gostring

definition MaxTTL :: duration where
  "MaxTTL = 30 * 24 * Hour"

text \<open>What the operating system says about paths.\<close>

record fs =
  fs_GOOS :: gostring
  fs_EvalSymlinks :: "gostring \<Rightarrow> gostring option"
  fs_Stat :: "gostring \<Rightarrow> (bool \<times> nat) option"

datatype grant_error =
    RandFails | AccessorKeyFails | ErrTTLTooLong | EmptyCommand | BadWildcard gostring
  | NotBareName gostring | ProgramNotFound gostring | ProgramLookup gostring
  | NotExecutable gostring | CWDNotAbsolute gostring | GrantsDirFails
  | GrantsRead | GrantsParse | GrantsWrite write_outcome | GrantNotFound gostring

subsection \<open>Identifiers\<close>

type_synonym byte = "8 word"

definition hex_byte :: "byte \<Rightarrow> gostring" where
  "hex_byte b = [hex_digit (unat b div 16), hex_digit (unat b mod 16)]"

definition hex_bytes :: "byte list \<Rightarrow> gostring" where
  "hex_bytes bs = concat (map hex_byte bs)"

text \<open>\<open>rnd\<close> is the result of \<open>rand.Read\<close> on 16 bytes.\<close>

definition newUUID :: "byte list option \<Rightarrow> gostring option" where
  "newUUID rnd =
    (case rnd of None \<Rightarrow> None
     | Some b0 \<Rightarrow>
        (let b1 = b0[6 := (b0 ! 6 AND 0x0f) OR 0x40];
             b = b1[8 := (b1 ! 8 AND 0x3f) OR 0x80]
         in Some (hex_bytes (take 4 b) @ ''-'' @ hex_bytes (take 2 (drop 4 b)) @ ''-'' @
                  hex_bytes (take 2 (drop 6 b)) @ ''-'' @ hex_bytes (take 2 (drop 8 b)) @ ''-'' @
                  hex_bytes (take 6 (drop 10 b)))))"

subsection \<open>Storage\<close>

definition readGrants :: "grant list jsonfile \<Rightarrow> grant_error + grant list" where
  "readGrants f = (case f of Absent \<Rightarrow> Inr [] | Unreadable \<Rightarrow> Inl GrantsRead
     | Unparsable \<Rightarrow> Inl GrantsParse | Holds gs \<Rightarrow> Inr gs)"

definition writeGrants ::
  "write_outcome \<Rightarrow> grant list \<Rightarrow> grant list jsonfile \<Rightarrow> grant_error + grant list jsonfile" where
  "writeGrants w gs f =
    (case write_file w gs f of Inl e \<Rightarrow> Inl (GrantsWrite e) | Inr f' \<Rightarrow> Inr f')"

subsection \<open>Command scopes\<close>

definition commandSearchPath :: "gostring list" where
  "commandSearchPath = [''/usr/local/bin'', ''/usr/bin'', ''/bin'']"

definition realExecutable :: "fs \<Rightarrow> gostring \<Rightarrow> grant_error + gostring" where
  "realExecutable F path =
    (case fs_EvalSymlinks F (Clean path) of
       None \<Rightarrow> Inl (ProgramLookup path)
     | Some real \<Rightarrow>
        (case fs_Stat F real of
           None \<Rightarrow> Inl (ProgramLookup path)
         | Some (regular, perm) \<Rightarrow>
            if \<not> regular \<or> (fs_GOOS F \<noteq> ''windows'' \<and> perm AND 73 = 0)
            then Inl (NotExecutable path) else Inr real))"

fun search_program :: "fs \<Rightarrow> gostring \<Rightarrow> gostring list \<Rightarrow> grant_error + gostring" where
  "search_program F name [] = Inl (ProgramNotFound name)"
| "search_program F name (dir # dirs) =
    (case realExecutable F (filepath_Join dir name) of
       Inr p \<Rightarrow> Inr p | Inl _ \<Rightarrow> search_program F name dirs)"

definition resolveProgram :: "fs \<Rightarrow> gostring \<Rightarrow> grant_error + gostring" where
  "resolveProgram F name =
    (if IsAbs name then realExecutable F name
     else if CHR ''/'' \<in> set name \<or> CHR 0x5C \<in> set name \<or> fs_GOOS F = ''windows''
       then Inl (NotBareName name)
     else search_program F name commandSearchPath)"

text \<open>The loop over the arguments of a pattern of length \<open>n\<close>, from index \<open>i\<close>.\<close>

fun wildcards_ok :: "nat \<Rightarrow> nat \<Rightarrow> gostring list \<Rightarrow> bool" where
  "wildcards_ok n i [] = True"
| "wildcards_ok n i (a # as) =
    (if Contains a ''*'' \<and> (a \<noteq> ''*'' \<or> i \<noteq> n - 1 \<or> i = 0) then False
     else wildcards_ok n (Suc i) as)"

definition parseCommandPattern :: "fs \<Rightarrow> gostring \<Rightarrow> grant_error + gostring list" where
  "parseCommandPattern F pattern =
    (let argv = Fields pattern in
     if argv = [] then Inl EmptyCommand
     else if \<not> wildcards_ok (length argv) 0 argv then Inl (BadWildcard pattern)
     else (case resolveProgram F (argv ! 0) of
             Inl e \<Rightarrow> Inl e
           | Inr prog \<Rightarrow> Inr (argv[0 := prog])))"

definition commandPattern :: "fs \<Rightarrow> grant \<Rightarrow> gostring list" where
  "commandPattern F g =
    (if length (g_CommandArgv g) > 0 then g_CommandArgv g
     else (case parseCommandPattern F (g_Command g) of Inl _ \<Rightarrow> [] | Inr argv \<Rightarrow> argv))"

text \<open>The final loop over the arguments is list equality.\<close>

definition commandMatches :: "fs \<Rightarrow> gostring list \<Rightarrow> gostring list \<Rightarrow> bool" where
  "commandMatches F pattern argv =
    (if pattern = [] \<or> argv = [] then False
     else (case resolveProgram F (argv ! 0) of
             Inl _ \<Rightarrow> False
           | Inr prog \<Rightarrow>
              if prog \<noteq> pattern ! 0 then False
              else let rest = drop 1 pattern; args = drop 1 argv; n = length rest in
                if n > 0 \<and> rest ! (n - 1) = ''*'' then
                  (let rest' = take (n - 1) rest in
                   if length args < length rest' then False
                   else take (length rest') args = rest')
                else args = rest))"

subsection \<open>Directory scopes\<close>

text \<open>On Unix both suffixes the source cuts are \<open>/*\<close>, so the second test never succeeds.\<close>

definition cwdPatternDir :: "gostring \<Rightarrow> gostring \<times> bool" where
  "cwdPatternDir pattern = CutSuffix pattern ''/*''"

definition validateCWDPattern :: "gostring \<Rightarrow> grant_error option" where
  "validateCWDPattern pattern =
    (if pattern = ''*'' then None
     else let (dir, _) = cwdPatternDir pattern in
       if \<not> IsAbs dir then Some (CWDNotAbsolute pattern) else None)"

definition caseInsensitivePaths :: "fs \<Rightarrow> bool" where
  "caseInsensitivePaths F = (fs_GOOS F = ''darwin'' \<or> fs_GOOS F = ''windows'')"

definition cwdMatches :: "fs \<Rightarrow> gostring \<Rightarrow> gostring \<Rightarrow> bool" where
  "cwdMatches F pattern cwd =
    (if cwd = [] \<or> \<not> IsAbs cwd then False
     else if pattern = ''*'' then True
     else let (dir, subtree) = cwdPatternDir pattern in
       case fs_EvalSymlinks F (Clean dir) of None \<Rightarrow> False
       | Some rd \<Rightarrow>
         (case fs_EvalSymlinks F (Clean cwd) of None \<Rightarrow> False
          | Some rc \<Rightarrow>
             (let realDir = (if caseInsensitivePaths F then ToLower rd else rd);
                  realCWD = (if caseInsensitivePaths F then ToLower rc else rc)
              in if realCWD = realDir then True
                 else if \<not> subtree then False
                 else (case Rel realDir realCWD of None \<Rightarrow> False | Some rel \<Rightarrow> IsLocal rel))))"

subsection \<open>Operations\<close>

text \<open>
  The surroundings of one \<open>Create\<close>: random bytes, the accessor key (\<open>None\<close> when it cannot
  be loaded or created), the HMAC as a function of key and text, the clock, whether the
  process is an LLM session, the grants directory (\<open>None\<close> when it cannot be made) and the
  outcome of the write.
\<close>

record create_env =
  ce_Rand :: "byte list option"
  ce_Key :: "gostring option"
  ce_Hmac :: "gostring \<Rightarrow> gostring \<Rightarrow> gostring"
  ce_Now :: gotime
  ce_IsLLMSession :: bool
  ce_GrantsDir :: gostring
  ce_MkdirOk :: bool
  ce_Write :: write_outcome

text \<open>\<open>Create\<close> up to the point where it reads the grants file.\<close>

definition create_grant :: "create_env \<Rightarrow> fs \<Rightarrow> grant_spec \<Rightarrow> grant_error + grant" where
  "create_grant E F spec =
    (case newUUID (ce_Rand E) of None \<Rightarrow> Inl RandFails
     | Some uid \<Rightarrow>
      (case ce_Key E of None \<Rightarrow> Inl AccessorKeyFails
       | Some key \<Rightarrow>
          (let ttl = (if gs_TTL spec \<le> 0 then Hour else gs_TTL spec) in
           if ttl > MaxTTL then Inl ErrTTLTooLong
           else case (if gs_Command spec \<noteq> [] then parseCommandPattern F (gs_Command spec) else Inr []) of
             Inl e \<Rightarrow> Inl e
           | Inr argv \<Rightarrow>
             (case (if gs_CWD spec \<noteq> [] then validateCWDPattern (gs_CWD spec) else None) of
                Some e \<Rightarrow> Inl e
              | None \<Rightarrow>
                 if gs_MaxUses spec > 0 \<and> \<not> ce_MkdirOk E then Inl GrantsDirFails
                 else Inr \<lparr>g_ID = uid, g_Accessor = ce_Hmac E key uid, g_Actor = gs_Actor spec,
                   g_Connection = gs_Connection spec, g_Capability = gs_Capability spec,
                   g_Command = gs_Command spec, g_CommandArgv = argv, g_CWD = gs_CWD spec,
                   g_IssuedAt = ce_Now E, g_ExpiresAt = ce_Now E + ttl,
                   g_MaxUses = gs_MaxUses spec, g_UsesRemaining = gs_MaxUses spec,
                   g_ConsumptionLogPath = (if gs_MaxUses spec > 0
                      then filepath_Join (ce_GrantsDir E) (uid @ ''.consumption.log'') else []),
                   g_Revoked = False, g_RevokedAt = None, g_Parent = [],
                   g_IssuedFromLLMSession = ce_IsLLMSession E, g_MemberID = gs_MemberID spec,
                   g_Scopes = []\<rparr>))))"

text \<open>The write \<open>Create\<close> ends with, given the grants it read before.\<close>

definition create_write ::
  "write_outcome \<Rightarrow> grant list \<Rightarrow> grant \<Rightarrow> grant list jsonfile \<Rightarrow> (grant_error + grant) \<times> grant list jsonfile" where
  "create_write w gs g f =
    (case writeGrants w (gs @ [g]) f of Inl e \<Rightarrow> (Inl e, f) | Inr f' \<Rightarrow> (Inr g, f'))"

definition grant_Create ::
  "create_env \<Rightarrow> fs \<Rightarrow> grant_spec \<Rightarrow> grant list jsonfile \<Rightarrow> (grant_error + grant) \<times> grant list jsonfile" where
  "grant_Create E F spec f =
    (case create_grant E F spec of Inl e \<Rightarrow> (Inl e, f)
     | Inr g \<Rightarrow>
        (case readGrants f of Inl e \<Rightarrow> (Inl e, f)
         | Inr gs \<Rightarrow> create_write (ce_Write E) gs g f))"

fun list_grants :: "grant_list_opts \<Rightarrow> gotime \<Rightarrow> grant list \<Rightarrow> grant list" where
  "list_grants opts now [] = []"
| "list_grants opts now (g # gs) =
    (if \<not> lo_IncludeRevoked opts \<and> g_Revoked g then list_grants opts now gs
     else if \<not> lo_IncludeExpired opts \<and> g_ExpiresAt g < now then list_grants opts now gs
     else if lo_ActorFilter opts \<noteq> [] \<and> g_Actor g \<noteq> lo_ActorFilter opts then list_grants opts now gs
     else g # list_grants opts now gs)"

definition grant_List ::
  "grant_list_opts \<Rightarrow> gotime \<Rightarrow> grant list jsonfile \<Rightarrow> grant_error + grant list" where
  "grant_List opts now f =
    (case readGrants f of Inl e \<Rightarrow> Inl e | Inr gs \<Rightarrow> Inr (list_grants opts now gs))"

definition revoke_at :: "gotime \<Rightarrow> grant \<Rightarrow> grant" where
  "revoke_at now g = g\<lparr>g_Revoked := True, g_RevokedAt := Some now\<rparr>"

definition grant_Revoke ::
  "gotime \<Rightarrow> write_outcome \<Rightarrow> gostring \<Rightarrow> grant list jsonfile \<Rightarrow> grant_error option \<times> grant list jsonfile" where
  "grant_Revoke now w uid f =
    (case readGrants f of Inl e \<Rightarrow> (Some e, f)
     | Inr gs \<Rightarrow>
        (let gs1 = map (\<lambda>g. if g_ID g = uid then revoke_at now g else g) gs;
             found = list_ex (\<lambda>g. g_ID g = uid) gs in
         if \<not> found then (Some (GrantNotFound uid), f)
         else let gs2 = map (\<lambda>g. if g_Parent g = uid \<and> \<not> g_Revoked g then revoke_at now g else g) gs1 in
           case writeGrants w gs2 f of Inl e \<Rightarrow> (Some e, f) | Inr f' \<Rightarrow> (None, f')))"

definition grantFieldsMatch :: "fs \<Rightarrow> grant \<Rightarrow> find_request \<Rightarrow> bool" where
  "grantFieldsMatch F g req =
    (if g_Actor g \<noteq> [] \<and> g_Actor g \<noteq> fr_Actor req then False
     else if g_Connection g \<noteq> [] \<and> g_Connection g \<noteq> fr_Connection req then False
     else if g_Capability g \<noteq> [] \<and> g_Capability g \<noteq> fr_Capability req then False
     else if g_Command g \<noteq> [] \<and> \<not> commandMatches F (commandPattern F g) (fr_Command req) then False
     else if g_CWD g \<noteq> [] \<and> \<not> cwdMatches F (g_CWD g) (fr_CWD req) then False
     else True)"

text \<open>\<open>usedAt\<close> is the formatted time of the attempt.\<close>

definition consumeUseLog :: "consume_io \<Rightarrow> gostring \<Rightarrow> grant \<Rightarrow> clog \<Rightarrow> bool \<times> clog" where
  "consumeUseLog io usedAt g l =
    (case io of ConsumeLockFails \<Rightarrow> (False, l)
     | _ \<Rightarrow>
        (case count_lines l of
           CountFails \<Rightarrow> (False, l)
         | CountNotExist \<Rightarrow>
             if 0 \<ge> g_MaxUses g then (False, l)
             else append_record io (json_object [(''grant_id'', g_ID g), (''used_at'', usedAt)]) l
         | Count n \<Rightarrow>
             if int n \<ge> g_MaxUses g then (False, l)
             else append_record io (json_object [(''grant_id'', g_ID g), (''used_at'', usedAt)]) l))"

text \<open>
  \<open>consumeUse\<close> returns the verdict, the grant with its in-memory counter, and the logs.
\<close>

definition consumeUse ::
  "consume_io \<Rightarrow> gostring \<Rightarrow> grant \<Rightarrow> (gostring \<Rightarrow> clog) \<Rightarrow> bool \<times> grant \<times> (gostring \<Rightarrow> clog)" where
  "consumeUse io usedAt g L =
    (if g_ConsumptionLogPath g = [] then
       (if g_UsesRemaining g \<le> 0 then (False, g, L)
        else (True, g\<lparr>g_UsesRemaining := g_UsesRemaining g - 1\<rparr>, L))
     else let (ok, l') = consumeUseLog io usedAt g (L (g_ConsumptionLogPath g))
          in (ok, g, L(g_ConsumptionLogPath g := l')))"

text \<open>The clock and the file outcomes one call of \<open>Find\<close> meets, the latter per grant index.\<close>

record find_env =
  fe_Now :: gotime
  fe_UsedAt :: gostring
  fe_Io :: "nat \<Rightarrow> consume_io"

fun find_grants ::
  "find_env \<Rightarrow> fs \<Rightarrow> find_request \<Rightarrow> nat \<Rightarrow> grant list \<Rightarrow> (gostring \<Rightarrow> clog) \<Rightarrow>
     grant option \<times> (gostring \<Rightarrow> clog)" where
  "find_grants E F req i [] L = (None, L)"
| "find_grants E F req i (g # gs) L =
    (if g_Revoked g then find_grants E F req (Suc i) gs L
     else if g_ExpiresAt g < fe_Now E then find_grants E F req (Suc i) gs L
     else if g_IssuedFromLLMSession g then find_grants E F req (Suc i) gs L
     else if \<not> grantFieldsMatch F g req then find_grants E F req (Suc i) gs L
     else if g_MaxUses g > 0 then
       (let (ok, g', L') = consumeUse (fe_Io E i) (fe_UsedAt E) g L in
        if \<not> ok then find_grants E F req (Suc i) gs L' else (Some g', L'))
     else (Some g, L))"

definition grant_Find ::
  "find_env \<Rightarrow> fs \<Rightarrow> find_request \<Rightarrow> grant list jsonfile \<Rightarrow> (gostring \<Rightarrow> clog) \<Rightarrow>
     grant option \<times> (gostring \<Rightarrow> clog)" where
  "grant_Find E F req f L =
    (case readGrants f of Inl _ \<Rightarrow> (None, L) | Inr gs \<Rightarrow> find_grants E F req 0 gs L)"

subsection \<open>The consumption contract\<close>

lemma consumeUseLog_True:
  "consumeUseLog io ts g l = (True, l') \<Longrightarrow> int (committed l) < g_MaxUses g"
  by (auto simp: consumeUseLog_def split: consume_io.splits count_result.splits if_splits
      dest!: committed_le_count)
    (auto simp: count_lines_def committed_def log_bytes_def Let_def split: clog.splits if_splits)

lemma consumeUseLog_commits:
  "consumeUseLog io ts g l = (ok, l') \<Longrightarrow> committed l + (if ok then 1 else 0) \<le> committed l'"
  using committed_append_record [OF json_object_record_line, of io _ l ok l']
  by (auto simp: consumeUseLog_def split: consume_io.splits count_result.splits if_splits)

interpretation grant_log: use_counter consumeUseLog g_MaxUses g_ConsumptionLogPath
  by unfold_locales (fact consumeUseLog_True, fact consumeUseLog_commits)

lemma consumeUse_logged:
  "g_ConsumptionLogPath g \<noteq> [] \<Longrightarrow> consumeUse io ts g L =
     (let (ok, L') = grant_log.attempt io ts g L in (ok, g, L'))"
  by (simp add: consumeUse_def grant_log.attempt_def split: prod.splits)

lemma consumeUse_grant:
  "consumeUse io ts g L = (ok, g', L') \<Longrightarrow> \<exists>u. g' = g\<lparr>g_UsesRemaining := u\<rparr>"
  by (auto simp: consumeUse_def split: if_splits prod.splits) (metis grant.surjective grant.update_convs(12))+

subsection \<open>Facts about Find\<close>

text \<open>The conditions under which \<open>Find\<close> may hand out a grant.\<close>

definition usable :: "find_env \<Rightarrow> fs \<Rightarrow> find_request \<Rightarrow> grant \<Rightarrow> bool" where
  "usable E F req g \<longleftrightarrow> \<not> g_Revoked g \<and> fe_Now E \<le> g_ExpiresAt g \<and>
     \<not> g_IssuedFromLLMSession g \<and> grantFieldsMatch F g req"

lemma find_grants_Cons:
  "find_grants E F req i (g # gs) L =
    (if \<not> usable E F req g then find_grants E F req (Suc i) gs L
     else if g_MaxUses g > 0 then
       (let (ok, g', L') = consumeUse (fe_Io E i) (fe_UsedAt E) g L in
        if \<not> ok then find_grants E F req (Suc i) gs L' else (Some g', L'))
     else (Some g, L))"
  by (auto simp: usable_def)

declare find_grants.simps(2) [simp del]

lemma find_grants_usable:
  "find_grants E F req i gs L = (Some g, L') \<Longrightarrow>
     \<exists>g0 \<in> set gs. usable E F req g0 \<and> (\<exists>u. g = g0\<lparr>g_UsesRemaining := u\<rparr>)"
proof (induction gs arbitrary: i L)
  case Nil
  then show ?case by simp
next
  case (Cons h gs)
  have "\<exists>u. h = h\<lparr>g_UsesRemaining := u\<rparr>" by (metis grant.surjective grant.update_convs(12))
  with Cons show ?case
    by (auto simp: find_grants_Cons split: if_splits prod.splits dest: consumeUse_grant)
qed

lemma find_grants_use_step:
  assumes "find_grants E F req i gs L = (r, L')" and "p \<noteq> []"
    and "\<forall>g \<in> set gs. g_ConsumptionLogPath g = p \<longrightarrow> 0 < g_MaxUses g \<and> g_MaxUses g \<le> m"
  shows "use_step p m (\<exists>g. r = Some g \<and> g_ConsumptionLogPath g = p) L L'"
  using assms(1,3)
proof (induction gs arbitrary: i L)
  case Nil
  then show ?case by simp
next
  case (Cons h gs)
  consider "\<not> usable E F req h" | "usable E F req h" "g_MaxUses h \<le> 0" | "usable E F req h" "0 < g_MaxUses h"
    by linarith
  then show ?case
  proof cases
    case 1
    with Cons show ?thesis by (simp add: find_grants_Cons)
  next
    case 2
    with Cons.prems show ?thesis by (auto simp: find_grants_Cons)
  next
    case 3
    obtain ok h' L1 where c: "consumeUse (fe_Io E i) (fe_UsedAt E) h L = (ok, h', L1)"
      by (cases "consumeUse (fe_Io E i) (fe_UsedAt E) h L")
    have hp: "g_ConsumptionLogPath h' = g_ConsumptionLogPath h"
      using consumeUse_grant [OF c] by auto
    have step: "use_step p m (ok \<and> g_ConsumptionLogPath h = p) L L1"
    proof (cases "g_ConsumptionLogPath h = []")
      case True
      then have "L1 = L" using c by (auto simp: consumeUse_def split: if_splits)
      with True assms(2) show ?thesis by simp
    next
      case False
      then have "grant_log.attempt (fe_Io E i) (fe_UsedAt E) h L = (ok, L1)"
        using c by (auto simp: consumeUse_logged split: prod.splits)
      with grant_log.attempt_use_step Cons.prems(2) show ?thesis by simp
    qed
    show ?thesis
    proof (cases ok)
      case True
      with 3 c Cons.prems(1) have "r = Some h'" "L' = L1" by (auto simp: find_grants_Cons)
      with step True hp show ?thesis by simp
    next
      case False
      with 3 c Cons.prems(1) have "find_grants E F req (Suc i) gs L1 = (r, L')"
        by (auto simp: find_grants_Cons)
      with Cons.IH Cons.prems(2) step False show ?thesis by (auto intro: use_step_trans)
    qed
  qed
qed

text \<open>
  Calls of \<open>Find\<close> one after the other; between two calls the grants file may have been
  changed in any way by other operations, so each call has its own.
\<close>

fun find_calls ::
  "(find_env \<times> fs \<times> find_request \<times> grant list jsonfile) list \<Rightarrow> (gostring \<Rightarrow> clog) \<Rightarrow>
     grant option list \<times> (gostring \<Rightarrow> clog) list" where
  "find_calls [] L = ([], [L])"
| "find_calls ((E, F, req, f) # cs) L =
    (let (r, L') = grant_Find E F req f L; (rs, Ls) = find_calls cs L' in (r # rs, L # Ls))"

definition counted_in :: "gostring \<Rightarrow> grant option \<Rightarrow> bool" where
  "counted_in p r = (case r of None \<Rightarrow> False | Some g \<Rightarrow> g_ConsumptionLogPath g = p)"

lemma find_calls_run:
  assumes "p \<noteq> []" and "find_calls cs L = (rs, Ls)"
    and "\<forall>(E, F, req, f) \<in> set cs. \<forall>gs. f = Holds gs \<longrightarrow>
      (\<forall>g \<in> set gs. g_ConsumptionLogPath g = p \<longrightarrow> 0 < g_MaxUses g \<and> g_MaxUses g \<le> m)"
  shows "use_run p m (map (counted_in p) rs) Ls \<and> hd Ls = L \<and> Ls \<noteq> []"
  using assms(2,3)
proof (induction cs arbitrary: L rs Ls)
  case Nil
  then show ?case by auto
next
  case (Cons c cs)
  obtain E F req f where c: "c = (E, F, req, f)" by (cases c)
  obtain r L1 where r: "grant_Find E F req f L = (r, L1)" by fastforce
  obtain rs' Ls' where rest: "find_calls cs L1 = (rs', Ls')" by fastforce
  from Cons.prems(1) c r rest have eq: "rs = r # rs'" "Ls = L # Ls'" by auto
  have "use_step p m (counted_in p r) L L1"
  proof (cases f)
    case (Holds gs)
    then have "find_grants E F req 0 gs L = (r, L1)" using r by (simp add: grant_Find_def readGrants_def)
    from find_grants_use_step [OF this assms(1)] Cons.prems(2) c Holds show ?thesis
      by (auto simp: counted_in_def split: option.splits)
  qed (use r in \<open>auto simp: grant_Find_def readGrants_def counted_in_def\<close>)
  with Cons.IH [OF rest] Cons.prems(2) eq show ?case by (cases Ls') auto
qed

subsection \<open>Properties\<close>

text \<open>Sample values for the concrete instances.\<close>

definition sample_fs :: fs where
  "sample_fs = \<lparr>fs_GOOS = ''linux'', fs_EvalSymlinks = Some, fs_Stat = (\<lambda>_. Some (True, 493))\<rparr>"

definition sample_spec :: grant_spec where
  "sample_spec = \<lparr>gs_Actor = ''bob'', gs_Connection = ''db'', gs_Capability = ''use'',
     gs_Command = ''npm test *'', gs_CWD = ''/w/*'', gs_TTL = Minute, gs_MaxUses = 1, gs_MemberID = []\<rparr>"

definition sample_env :: create_env where
  "sample_env = \<lparr>ce_Rand = Some (replicate 16 0), ce_Key = Some ''k'', ce_Hmac = (\<lambda>k m. m),
     ce_Now = 0, ce_IsLLMSession = False, ce_GrantsDir = ''/h/grants'', ce_MkdirOk = True,
     ce_Write = WriteOk\<rparr>"

definition sample_grant :: grant where
  "sample_grant = (case create_grant sample_env sample_fs sample_spec of Inr g \<Rightarrow> g)"

definition sample_find :: find_request where
  "sample_find = \<lparr>fr_Actor = ''bob'', fr_Connection = ''db'', fr_Capability = ''use'',
     fr_Command = [''npm'', ''test'', ''-v''], fr_CWD = ''/w/a''\<rparr>"

definition sample_find_env :: find_env where
  "sample_find_env = \<lparr>fe_Now = 5, fe_UsedAt = ''t'', fe_Io = (\<lambda>_. ConsumeOk)\<rparr>"

definition sample_logs :: "gostring \<Rightarrow> clog" where
  "sample_logs = (\<lambda>_. NoLog)"

lemma sample_create: "create_grant sample_env sample_fs sample_spec = Inr sample_grant"
  by code_simp

lemma sample_found_fst:
  "fst (grant_Find sample_find_env sample_fs sample_find (Holds [sample_grant]) sample_logs) =
    Some sample_grant"
  by code_simp

lemma sample_found:
  "grant_Find sample_find_env sample_fs sample_find (Holds [sample_grant]) sample_logs =
    (Some sample_grant,
     snd (grant_Find sample_find_env sample_fs sample_find (Holds [sample_grant]) sample_logs))"
  using sample_found_fst by (metis prod.collapse)

text \<open>Whatever \<open>Find\<close> returns is a grant of the file that is not revoked, not past its expiry,
  was not issued from an agent session, and whose every restriction the request meets.\<close>

theorem grant_find_sound:
  assumes "grant_Find E F req f L = (Some g, L')"
  shows "\<exists>gs g0. f = Holds gs \<and> g0 \<in> set gs \<and> \<not> g_Revoked g0 \<and> fe_Now E \<le> g_ExpiresAt g0 \<and>
    \<not> g_IssuedFromLLMSession g0 \<and> grantFieldsMatch F g0 req \<and> (\<exists>u. g = g0\<lparr>g_UsesRemaining := u\<rparr>)"
  using assms find_grants_usable
  by (fastforce simp: grant_Find_def readGrants_def usable_def split: jsonfile.splits)

theorem grant_find_sound_witness:
  "\<exists>gs g0. Holds [sample_grant] = Holds gs \<and> g0 \<in> set gs \<and> \<not> g_Revoked g0 \<and>
    fe_Now sample_find_env \<le> g_ExpiresAt g0 \<and> \<not> g_IssuedFromLLMSession g0 \<and>
    grantFieldsMatch sample_fs g0 sample_find \<and> (\<exists>u. sample_grant = g0\<lparr>g_UsesRemaining := u\<rparr>)"
  by (rule grant_find_sound [OF sample_found])

text \<open>C5: Single use and bounded use hold over any sequence of \<open>Find\<close> calls, however the grants
  file changes between them and whatever fails while a log is written: a grant counted in the
  log \<open>p\<close> is returned at most \<open>m\<close> times when its limit is at most \<open>m\<close>.\<close>

theorem grant_max_uses:
  assumes "p \<noteq> []" and "find_calls cs L = (rs, Ls)"
    and "\<forall>(E, F, req, f) \<in> set cs. \<forall>gs. f = Holds gs \<longrightarrow>
      (\<forall>g \<in> set gs. g_ConsumptionLogPath g = p \<longrightarrow> 0 < g_MaxUses g \<and> g_MaxUses g \<le> m)"
    and "0 \<le> m"
  shows "int (length (filter (counted_in p) rs)) \<le> m"
proof -
  have "use_run p m (map (counted_in p) rs) (L # tl Ls)"
    using find_calls_run [OF assms(1,2,3)] by (metis list.collapse)
  from use_run_bounded [OF this assms(4)] show ?thesis by (simp add: filter_map comp_def)
qed

theorem grant_max_uses_witness:
  "int (length (filter (counted_in (g_ConsumptionLogPath sample_grant))
    (fst (find_calls (replicate 3 (sample_find_env, sample_fs, sample_find, Holds [sample_grant]))
            sample_logs)))) \<le> 1"
proof (rule grant_max_uses)
  show "g_ConsumptionLogPath sample_grant \<noteq> []" by code_simp
  have "0 < g_MaxUses sample_grant" "g_MaxUses sample_grant \<le> 1" by code_simp+
  then show "\<forall>(E, F, req, f) \<in> set (replicate 3 (sample_find_env, sample_fs, sample_find, Holds [sample_grant])).
      \<forall>gs. f = Holds gs \<longrightarrow> (\<forall>g \<in> set gs. g_ConsumptionLogPath g = g_ConsumptionLogPath sample_grant \<longrightarrow>
        0 < g_MaxUses g \<and> g_MaxUses g \<le> 1)"
    by (simp add: set_replicate_conv_if)
qed (auto intro: prod_eqI)

text \<open>After a \<open>Revoke\<close> that reports success, \<open>Find\<close> on the file it left returns neither the
  revoked grant nor a child of it.\<close>

theorem grant_revoke_effective:
  assumes "grant_Revoke now w uid f = (None, f')" and "grant_Find E F req f' L = (Some g, L')"
  shows "g_ID g \<noteq> uid \<and> g_Parent g \<noteq> uid"
proof -
  define mark where "mark = (\<lambda>g. if g_ID g = uid then revoke_at now g else g)"
  define cascade where "cascade = (\<lambda>g. if g_Parent g = uid \<and> \<not> g_Revoked g then revoke_at now g else g)"
  have "g_ID (cascade (mark h)) = uid \<or> g_Parent (cascade (mark h)) = uid \<Longrightarrow> g_Revoked (cascade (mark h))" for h
    by (auto simp: mark_def cascade_def revoke_at_def split: if_splits)
  moreover obtain gs0 where "f' = Holds (map cascade (map mark gs0))"
    using assms(1) unfolding grant_Revoke_def mark_def cascade_def
    by (auto simp: writeGrants_def write_file_def Let_def split: sum.splits if_splits)
  ultimately obtain gs where f': "f' = Holds gs"
    and gs: "\<forall>g \<in> set gs. g_ID g = uid \<or> g_Parent g = uid \<longrightarrow> g_Revoked g" by fastforce
  then have "find_grants E F req 0 gs L = (Some g, L')"
    using assms(2) by (simp add: grant_Find_def readGrants_def)
  from find_grants_usable [OF this] gs show ?thesis by (auto simp: usable_def)
qed

theorem grant_revoke_effective_witness:
  "g_ID sample_grant \<noteq> ''other'' \<and> g_Parent sample_grant \<noteq> ''other''"
proof (rule grant_revoke_effective)
  let ?f' = "Holds [sample_grant, revoke_at 1 (sample_grant\<lparr>g_ID := ''other''\<rparr>)]"
  show "grant_Revoke 1 WriteOk ''other'' (Holds [sample_grant, sample_grant\<lparr>g_ID := ''other''\<rparr>]) =
      (None, ?f')"
    by code_simp
  have "fst (grant_Find sample_find_env sample_fs sample_find ?f' sample_logs) = Some sample_grant"
    by code_simp
  then show "grant_Find sample_find_env sample_fs sample_find ?f' sample_logs =
      (Some sample_grant, snd (grant_Find sample_find_env sample_fs sample_find ?f' sample_logs))"
    by (metis prod.collapse)
qed

text \<open>\<open>Create\<close> issues grants with a lifetime above zero and of at most 30 days, marks them
  with the session they come from, and appends exactly the grant it returns.\<close>

theorem grant_create_spec:
  assumes "grant_Create E F spec f = (Inr g, f')"
  shows "g_IssuedAt g = ce_Now E \<and> g_IssuedAt g < g_ExpiresAt g \<and>
    g_ExpiresAt g \<le> g_IssuedAt g + 30 * 24 * Hour \<and> g_IssuedFromLLMSession g = ce_IsLLMSession E \<and>
    (0 < g_MaxUses g \<longrightarrow> g_ConsumptionLogPath g \<noteq> []) \<and>
    (\<exists>gs. readGrants f = Inr gs \<and> f' = Holds (gs @ [g]))"
proof -
  obtain gs where g: "create_grant E F spec = Inr g" and rd: "readGrants f = Inr gs" "f' = Holds (gs @ [g])"
    using assms
    by (auto simp: grant_Create_def create_write_def writeGrants_def write_file_def split: sum.splits if_splits)
  have pos: "0 < Hour" "Hour \<le> MaxTTL" by (simp_all add: Hour_def Minute_def Second_def MaxTTL_def)
  have nonempty: "filepath_Join d (u @ ''.consumption.log'') \<noteq> []" for d u
    by (simp add: filepath_Join_def Clean_not_Nil)
  show ?thesis
    using g pos rd nonempty
    by (auto simp: create_grant_def Let_def MaxTTL_def split: option.splits sum.splits if_splits)
qed

theorem grant_create_spec_witness:
  "g_IssuedAt sample_grant < g_ExpiresAt sample_grant \<and>
    g_ExpiresAt sample_grant \<le> g_IssuedAt sample_grant + 30 * 24 * Hour \<and>
    g_ConsumptionLogPath sample_grant \<noteq> []"
proof -
  have "grant_Create sample_env sample_fs sample_spec Absent = (Inr sample_grant, Holds [sample_grant])"
    by (simp add: grant_Create_def sample_create readGrants_def create_write_def writeGrants_def
        write_file_def sample_env_def [THEN arg_cong [where f = ce_Write]])
  from grant_create_spec [OF this] have "0 < g_MaxUses sample_grant \<longrightarrow> g_ConsumptionLogPath sample_grant \<noteq> []"
    and "g_IssuedAt sample_grant < g_ExpiresAt sample_grant"
    and "g_ExpiresAt sample_grant \<le> g_IssuedAt sample_grant + 30 * 24 * Hour" by blast+
  moreover have "0 < g_MaxUses sample_grant" by code_simp
  ultimately show ?thesis by blast
qed

text \<open>A stored command pattern \<open>prog args *\<close> accepts exactly the invocations of the same
  resolved program whose arguments start with \<open>args\<close>; without the wildcard the arguments must be
  the same.\<close>

theorem grant_command_scope:
  assumes "resolveProgram F prog' = Inr prog"
  shows "(commandMatches F (prog # args @ [''*'']) (prog' # given) \<longleftrightarrow> prefix args given) \<and>
    (args = [] \<or> last args \<noteq> ''*'' \<longrightarrow>
      (commandMatches F (prog # args) (prog' # given) \<longleftrightarrow> given = args))"
proof (intro conjI impI)
  have "take (length args) given = args \<and> length args \<le> length given \<longleftrightarrow> prefix args given"
    by (metis append_eq_conv_conj append_take_drop_id prefix_def prefix_length_le)
  then show "commandMatches F (prog # args @ [''*'']) (prog' # given) \<longleftrightarrow> prefix args given"
    using assms by (auto simp: commandMatches_def Let_def nth_append)
next
  assume "args = [] \<or> last args \<noteq> ''*''"
  then show "commandMatches F (prog # args) (prog' # given) \<longleftrightarrow> given = args"
    using assms by (auto simp: commandMatches_def Let_def last_conv_nth)
qed

theorem grant_command_scope_witness:
  "commandMatches sample_fs (''/usr/local/bin/npm'' # [''test''] @ [''*'']) (''npm'' # [''test'', ''-v'']) \<longleftrightarrow>
    prefix [''test''] [''test'', ''-v'']"
  by (rule grant_command_scope [THEN conjunct1]) code_simp

text \<open>With a case-sensitive file system and directories that resolve to rooted clean paths, the
  scope \<open>dir/*\<close> admits a working directory exactly when the resolved directory is the resolved
  \<open>dir\<close> or lies below it, element by element: no sibling with a common name prefix and no
  dot-dot path gets in.\<close>

theorem grant_cwd_scope:
  assumes "IsAbs cwd" and "\<not> caseInsensitivePaths F"
    and "fs_EvalSymlinks F (Clean dir) = Some (rooted_path ds)" and "\<forall>e \<in> set ds. proper_elem e"
    and "fs_EvalSymlinks F (Clean cwd) = Some (rooted_path cs)" and "\<forall>e \<in> set cs. proper_elem e"
    and "dir \<noteq> []"
  shows "cwdMatches F (dir @ ''/*'') cwd \<longleftrightarrow> prefix ds cs"
proof -
  have "cwd \<noteq> []" using assms(1) by (auto simp: IsAbs_def HasPrefix_def)
  moreover have "cwdPatternDir (dir @ ''/*'') = (dir, True)"
    by (simp add: cwdPatternDir_def CutSuffix_def)
  moreover have "dir @ ''/*'' \<noteq> ''*''" using assms(7) by (cases dir) auto
  moreover have "rooted_path cs = rooted_path ds \<longleftrightarrow> cs = ds"
    using assms(4,6) rooted_path_inject by blast
  ultimately show ?thesis using assms rel_local_iff [OF assms(4,6)]
    by (auto simp: cwdMatches_def split: option.splits)
qed

theorem grant_cwd_scope_witness:
  "\<not> cwdMatches sample_fs (''/w'' @ ''/*'') ''/work'' \<and> cwdMatches sample_fs (''/w'' @ ''/*'') ''/w/a''"
proof -
  have "cwdMatches sample_fs (''/w'' @ ''/*'') ''/work'' \<longleftrightarrow> prefix [''w''] [''work'']"
    by (rule grant_cwd_scope; code_simp)
  moreover have "cwdMatches sample_fs (''/w'' @ ''/*'') ''/w/a'' \<longleftrightarrow> prefix [''w''] [''w'', ''a'']"
    by (rule grant_cwd_scope; code_simp)
  ultimately show ?thesis by simp
qed

text \<open>The grants file is read and written without a lock: when a \<open>Revoke\<close> runs between the read
  and the write of a \<open>Create\<close>, both report success and the revoked grant is live again.\<close>

theorem grant_create_revoke_race:
  assumes "readGrants f = Inr gs" and "g0 \<in> set gs" and "\<not> g_Revoked g0"
  shows "\<exists>f1 f2. grant_Revoke now WriteOk (g_ID g0) f = (None, f1) \<and>
    create_write WriteOk gs g f1 = (Inr g, f2) \<and> readGrants f2 = Inr (gs @ [g]) \<and> g0 \<in> set (gs @ [g])"
  using assms
  by (auto simp: grant_Revoke_def create_write_def writeGrants_def write_file_def readGrants_def
      Let_def list_ex_iff)

theorem grant_create_revoke_race_witness:
  "\<exists>f1 f2. grant_Revoke 7 WriteOk (g_ID sample_grant) (Holds [sample_grant]) = (None, f1) \<and>
    create_write WriteOk [sample_grant] sample_grant f1 = (Inr sample_grant, f2) \<and>
    readGrants f2 = Inr ([sample_grant] @ [sample_grant]) \<and>
    sample_grant \<in> set ([sample_grant] @ [sample_grant])"
  by (rule grant_create_revoke_race) (simp add: readGrants_def, simp, code_simp)

end
