(* ===== verification/Gateway_Token.thy ===== *)
theory Gateway_Token
  imports Grant Policy
begin

section \<open>Gateway tokens (\<open>internal/gateway/token\<close>)\<close>

text \<open>
  Scoped gateway tokens: \<open>token.go\<close> (\<open>Mint\<close>, \<open>Verify\<close>, \<open>Revoke\<close>, \<open>List\<close>, the store and
  \<open>HasCapability\<close>) and \<open>flock_unix.go\<close> (the consumption log). The JWT library, the HMAC and
  base64 are the functions of the record \<open>token_env\<close>; the store is a \<open>jsonfile\<close>. \<open>withStoreLock\<close>
  runs its argument whether or not the lock could be taken, so under the model's one
  operation at a time it is the identity; the mint and revoke hooks, which only count, are left
  out. \<open>newUUID\<close> has the same text as in \<open>internal/grant\<close> and is shared.
\<close>

subsection \<open>Data\<close>

record token =
  t_ID :: gostring
  t_Accessor :: gostring
  t_Actor :: gostring
  t_Capabilities :: "gostring list"
  t_CommandHash :: gostring
  t_CWDHash :: gostring
  t_IssuedAt :: gotime
  t_ExpiresAt :: gotime
  t_MaxUses :: int
  t_UsesRemaining :: int
  t_ConsumptionLogPath :: gostring
  t_Revoked :: bool
  t_RevokedAt :: "gotime option"
  t_Parent :: gostring
  t_LLMSession :: bool
  t_FDNonceHash :: gostring
  t_ApprovalRootHMAC :: gostring
  t_ApprovalCapability :: gostring
  t_ApprovalMaxAgeSec :: int
  t_ApprovalExpiry :: "gotime option"
  t_ApprovalBinding :: gostring
  t_TwoPerson :: bool
  t_ApprovalRootHMACs :: "gostring list"

record token_spec =
  ts_Actor :: gostring
  ts_Capabilities :: "gostring list"
  ts_Command :: gostring
  ts_CWD :: gostring
  ts_TTL :: duration
  ts_MaxUses :: int
  ts_Parent :: gostring
  ts_LLMSession :: bool
  ts_FDNonce :: gostring
  ts_StorePath :: gostring
  ts_SigningKey :: gostring
  ts_ApprovalRootID :: gostring
  ts_ApprovalCapability :: gostring
  ts_ApprovalMaxAgeSec :: int
  ts_ApprovalExpiry :: "gotime option"
  ts_ApprovalBinding :: gostring
  ts_TwoPerson :: bool
  ts_ApprovalRootIDs :: "gostring list"

record token_list_opts =
  tl_IncludeExpired :: bool
  tl_IncludeRevoked :: bool

record gateway_claims =
  c_ID :: gostring
  c_IssuedAt :: gotime
  c_ExpiresAt :: gotime
  c_Actor :: gostring
  c_Caps :: "gostring list"
  c_CommandHash :: gostring
  c_CWDHash :: gostring
  c_LLMSession :: bool
  c_ApprovalRootHMAC :: gostring
  c_ApprovalCap :: gostring
  c_ApprovalMaxAgeSec :: int
  c_ApprovalExpiry :: gostring
  c_ApprovalBinding :: gostring
  c_TwoPerson :: bool
  c_ApprovalRootHMACs :: "gostring list"

datatype jwt_result = JwtExpired | JwtError | JwtParsed gateway_claims bool

text \<open>
  The packages \<open>Mint\<close> and \<open>Verify\<close> call: signing and parsing of HS256 tokens (parsing at a
  time), the JWT numeric date, HMAC-SHA256 in hex, base64 decoding and RFC 3339 formatting.
\<close>

record token_env =
  te_Sign :: "gostring \<Rightarrow> gateway_claims \<Rightarrow> gostring option"
  te_Parse :: "gostring \<Rightarrow> gotime \<Rightarrow> gostring \<Rightarrow> jwt_result"
  te_NumericDate :: "gotime \<Rightarrow> gotime"
  te_HmacHex :: "gostring \<Rightarrow> gostring \<Rightarrow> gostring"
  te_Base64 :: "gostring \<Rightarrow> gostring option"
  te_FormatTime :: "gotime \<Rightarrow> gostring"

datatype token_error =
    ErrTokenExpired | ErrTokenRevoked | ErrTokenExhausted | ErrFDNonceMismatch | ErrTokenNotFound
  | ErrTokenPersistFailed | ErrHardwareApprovalUnsupported
  | BadSigningKey | MaxUsesNeedsStore | TokenRandFails | SignFails | JwtInvalid | JwtNotValid
  | TokensRead | TokensParse | TokensWrite write_outcome

subsection \<open>The store\<close>

definition readTokens :: "gostring \<Rightarrow> token list jsonfile \<Rightarrow> token_error + token list" where
  "readTokens storePath f =
    (if storePath = [] then Inr []
     else (case f of Absent \<Rightarrow> Inr [] | Unreadable \<Rightarrow> Inl TokensRead
           | Unparsable \<Rightarrow> Inl TokensParse | Holds ts \<Rightarrow> Inr ts))"

definition writeTokens ::
  "write_outcome \<Rightarrow> token list \<Rightarrow> token list jsonfile \<Rightarrow> token_error + token list jsonfile" where
  "writeTokens w ts f =
    (case write_file w ts f of Inl e \<Rightarrow> Inl (TokensWrite e) | Inr f' \<Rightarrow> Inr f')"

definition persistToken ::
  "write_outcome \<Rightarrow> gostring \<Rightarrow> token \<Rightarrow> token list jsonfile \<Rightarrow> token_error + token list jsonfile" where
  "persistToken w storePath t f =
    (case readTokens storePath f of Inl e \<Rightarrow> Inl e | Inr ts \<Rightarrow> writeTokens w (ts @ [t]) f)"

definition loadToken :: "gostring \<Rightarrow> gostring \<Rightarrow> token list jsonfile \<Rightarrow> token_error + token" where
  "loadToken storePath uid f =
    (if storePath = [] then Inl ErrTokenNotFound
     else (case readTokens storePath f of Inl e \<Rightarrow> Inl e
           | Inr ts \<Rightarrow> (case find (\<lambda>t. t_ID t = uid) ts of
                          None \<Rightarrow> Inl ErrTokenNotFound | Some t \<Rightarrow> Inr t)))"

subsection \<open>Use counting\<close>

definition consumeTokenUseLog :: "consume_io \<Rightarrow> gostring \<Rightarrow> token \<Rightarrow> clog \<Rightarrow> bool \<times> clog" where
  "consumeTokenUseLog io usedAt t l =
    (case io of ConsumeLockFails \<Rightarrow> (False, l)
     | _ \<Rightarrow>
        (case count_lines l of
           CountFails \<Rightarrow> (False, l)
         | CountNotExist \<Rightarrow>
             if 0 \<ge> t_MaxUses t then (False, l)
             else append_record io (json_object [(''token_id'', t_ID t), (''used_at'', usedAt)]) l
         | Count n \<Rightarrow>
             if int n \<ge> t_MaxUses t then (False, l)
             else append_record io (json_object [(''token_id'', t_ID t), (''used_at'', usedAt)]) l))"

definition consumeUseForToken ::
  "consume_io \<Rightarrow> gostring \<Rightarrow> token \<Rightarrow> (gostring \<Rightarrow> clog) \<Rightarrow> bool \<times> token \<times> (gostring \<Rightarrow> clog)" where
  "consumeUseForToken io usedAt t L =
    (if t_ConsumptionLogPath t = [] then
       (if t_UsesRemaining t \<le> 0 then (False, t, L)
        else (True, t\<lparr>t_UsesRemaining := t_UsesRemaining t - 1\<rparr>, L))
     else let (ok, l') = consumeTokenUseLog io usedAt t (L (t_ConsumptionLogPath t))
          in (ok, t, L(t_ConsumptionLogPath t := l')))"

subsection \<open>Mint\<close>

text \<open>The condition under which \<open>Mint\<close> refuses a specification with approval fields.\<close>

definition hardware_fields :: "token_spec \<Rightarrow> bool" where
  "hardware_fields spec =
    (ts_ApprovalRootID spec \<noteq> [] \<or> length (ts_ApprovalRootIDs spec) > 0 \<or>
     ts_ApprovalExpiry spec \<noteq> None \<or> ts_ApprovalCapability spec \<noteq> [] \<or>
     ts_ApprovalMaxAgeSec spec \<noteq> 0 \<or> ts_ApprovalBinding spec \<noteq> [] \<or> ts_TwoPerson spec)"

definition mint_hmac :: "token_env \<Rightarrow> token_spec \<Rightarrow> gostring \<Rightarrow> gostring" where
  "mint_hmac E spec s = (if s \<noteq> [] then te_HmacHex E (ts_SigningKey spec) s else [])"

definition mint_ttl :: "token_spec \<Rightarrow> duration" where
  "mint_ttl spec = (if ts_TTL spec \<le> 0 then Hour else ts_TTL spec)"

definition mint_claims :: "token_env \<Rightarrow> token_spec \<Rightarrow> gostring \<Rightarrow> gotime \<Rightarrow> gateway_claims" where
  "mint_claims E spec uid now =
    \<lparr>c_ID = uid, c_IssuedAt = te_NumericDate E now,
     c_ExpiresAt = te_NumericDate E (now + mint_ttl spec),
     c_Actor = ts_Actor spec, c_Caps = ts_Capabilities spec,
     c_CommandHash = mint_hmac E spec (ts_Command spec), c_CWDHash = mint_hmac E spec (ts_CWD spec),
     c_LLMSession = ts_LLMSession spec, c_ApprovalRootHMAC = mint_hmac E spec (ts_ApprovalRootID spec),
     c_ApprovalCap = ts_ApprovalCapability spec, c_ApprovalMaxAgeSec = ts_ApprovalMaxAgeSec spec,
     c_ApprovalExpiry = (case ts_ApprovalExpiry spec of None \<Rightarrow> [] | Some t \<Rightarrow> te_FormatTime E t),
     c_ApprovalBinding = ts_ApprovalBinding spec, c_TwoPerson = ts_TwoPerson spec,
     c_ApprovalRootHMACs = map (te_HmacHex E (ts_SigningKey spec)) (ts_ApprovalRootIDs spec)\<rparr>"

definition mint_token :: "token_env \<Rightarrow> token_spec \<Rightarrow> gostring \<Rightarrow> gotime \<Rightarrow> token" where
  "mint_token E spec uid now =
    \<lparr>t_ID = uid, t_Accessor = te_HmacHex E (ts_SigningKey spec) uid, t_Actor = ts_Actor spec,
     t_Capabilities = ts_Capabilities spec, t_CommandHash = mint_hmac E spec (ts_Command spec),
     t_CWDHash = mint_hmac E spec (ts_CWD spec), t_IssuedAt = now,
     t_ExpiresAt = now + mint_ttl spec, t_MaxUses = ts_MaxUses spec,
     t_UsesRemaining = ts_MaxUses spec,
     t_ConsumptionLogPath = (if ts_MaxUses spec > 0 \<and> ts_StorePath spec \<noteq> []
        then filepath_Join (filepath_Join (filepath_Dir (ts_StorePath spec)) ''gateway-consumption'')
               (uid @ ''.consumption.log'') else []),
     t_Revoked = False, t_RevokedAt = None, t_Parent = ts_Parent spec,
     t_LLMSession = ts_LLMSession spec,
     t_FDNonceHash = mint_hmac E spec (ts_FDNonce spec),
     t_ApprovalRootHMAC = mint_hmac E spec (ts_ApprovalRootID spec),
     t_ApprovalCapability = ts_ApprovalCapability spec,
     t_ApprovalMaxAgeSec = ts_ApprovalMaxAgeSec spec, t_ApprovalExpiry = ts_ApprovalExpiry spec,
     t_ApprovalBinding = ts_ApprovalBinding spec, t_TwoPerson = ts_TwoPerson spec,
     t_ApprovalRootHMACs = map (te_HmacHex E (ts_SigningKey spec)) (ts_ApprovalRootIDs spec)\<rparr>"

definition token_Mint ::
  "token_env \<Rightarrow> byte list option \<Rightarrow> gotime \<Rightarrow> write_outcome \<Rightarrow> token_spec \<Rightarrow> token list jsonfile \<Rightarrow>
     (token_error + gostring \<times> token) \<times> token list jsonfile" where
  "token_Mint E rnd now w spec f =
    (if length (ts_SigningKey spec) \<noteq> 32 then (Inl BadSigningKey, f)
     else if ts_MaxUses spec > 0 \<and> ts_StorePath spec = [] then (Inl MaxUsesNeedsStore, f)
     else if hardware_fields spec then (Inl ErrHardwareApprovalUnsupported, f)
     else (case newUUID rnd of None \<Rightarrow> (Inl TokenRandFails, f)
       | Some uid \<Rightarrow>
          (case te_Sign E (ts_SigningKey spec) (mint_claims E spec uid now) of
             None \<Rightarrow> (Inl SignFails, f)
           | Some jwtStr \<Rightarrow>
              (let t = mint_token E spec uid now in
               if ts_StorePath spec \<noteq> [] then
                 (case persistToken w (ts_StorePath spec) t f of
                    Inl _ \<Rightarrow> (Inl ErrTokenPersistFailed, f)
                  | Inr f' \<Rightarrow> (Inr (jwtStr, t), f'))
               else (Inr (jwtStr, t), f)))))"

subsection \<open>Verify\<close>

text \<open>
  The request is \<open>None\<close> for a nil pointer and otherwise the value of the
  \<open>X-Keylatch-FD-Nonce\<close> header (empty when absent).
\<close>

definition fd_nonce_ok :: "token_env \<Rightarrow> gostring option \<Rightarrow> gostring \<Rightarrow> token \<Rightarrow> bool" where
  "fd_nonce_ok E r signingKey t =
    (case r of
       Some nonceHeader \<Rightarrow>
         if t_FDNonceHash t \<noteq> [] then
           (if nonceHeader = [] then False
            else (case te_Base64 E nonceHeader of
                    None \<Rightarrow> False
                  | Some nonceBytes \<Rightarrow> te_HmacHex E signingKey nonceBytes = t_FDNonceHash t))
         else True
     | None \<Rightarrow> True)"

record verify_call =
  vc_Now :: gotime
  vc_UsedAt :: gostring
  vc_Io :: consume_io
  vc_Jwt :: gostring
  vc_Request :: "gostring option"

definition token_Verify ::
  "token_env \<Rightarrow> verify_call \<Rightarrow> gostring \<Rightarrow> gostring \<Rightarrow> token list jsonfile \<Rightarrow> (gostring \<Rightarrow> clog) \<Rightarrow>
     (token_error + token) \<times> (gostring \<Rightarrow> clog)" where
  "token_Verify E V signingKey storePath f L =
    (if length signingKey \<noteq> 32 then (Inl BadSigningKey, L)
     else (case te_Parse E signingKey (vc_Now V) (vc_Jwt V) of
       JwtExpired \<Rightarrow> (Inl ErrTokenExpired, L)
     | JwtError \<Rightarrow> (Inl JwtInvalid, L)
     | JwtParsed claims valid \<Rightarrow>
        if \<not> valid then (Inl JwtNotValid, L)
        else (case loadToken storePath (c_ID claims) f of
          Inl _ \<Rightarrow> (Inl ErrTokenNotFound, L)
        | Inr t \<Rightarrow>
           if t_Revoked t then (Inl ErrTokenRevoked, L)
           else if vc_Now V > t_ExpiresAt t then (Inl ErrTokenExpired, L)
           else if \<not> fd_nonce_ok E (vc_Request V) signingKey t then (Inl ErrFDNonceMismatch, L)
           else if t_MaxUses t > 0 then
             (let (ok, t', L') = consumeUseForToken (vc_Io V) (vc_UsedAt V) t L in
              if \<not> ok then (Inl ErrTokenExhausted, L') else (Inr t', L'))
           else (Inr t, L))))"

subsection \<open>Revoke, List and capabilities\<close>

definition token_revoke_at :: "gotime \<Rightarrow> token \<Rightarrow> token" where
  "token_revoke_at now t = t\<lparr>t_Revoked := True, t_RevokedAt := Some now\<rparr>"

definition token_Revoke ::
  "gotime \<Rightarrow> write_outcome \<Rightarrow> gostring \<Rightarrow> gostring \<Rightarrow> token list jsonfile \<Rightarrow> token_error option \<times> token list jsonfile" where
  "token_Revoke now w uid storePath f =
    (case readTokens storePath f of Inl e \<Rightarrow> (Some e, f)
     | Inr ts \<Rightarrow>
        (let ts1 = map (\<lambda>t. if t_ID t = uid then token_revoke_at now t else t) ts;
             found = list_ex (\<lambda>t. t_ID t = uid) ts in
         if \<not> found then (Some ErrTokenNotFound, f)
         else let ts2 = map (\<lambda>t. if t_Parent t = uid \<and> \<not> t_Revoked t then token_revoke_at now t else t) ts1 in
           case writeTokens w ts2 f of Inl e \<Rightarrow> (Some e, f) | Inr f' \<Rightarrow> (None, f')))"

definition token_List ::
  "token_list_opts \<Rightarrow> gotime \<Rightarrow> gostring \<Rightarrow> token list jsonfile \<Rightarrow> token_error + token list" where
  "token_List opts now storePath f =
    (case readTokens storePath f of Inl e \<Rightarrow> Inl e
     | Inr ts \<Rightarrow> Inr (filter (\<lambda>t. \<not> (\<not> tl_IncludeRevoked opts \<and> t_Revoked t) \<and>
                                \<not> (\<not> tl_IncludeExpired opts \<and> t_ExpiresAt t < now)) ts))"

definition token_isReadClassCap :: "gostring \<Rightarrow> bool" where
  "token_isReadClassCap cap =
    (if cap = ''read'' \<or> cap = ''export'' then True
     else HasSuffix cap ''.reveal'' \<or> HasSuffix cap ''.dump'')"

fun has_capability_loop :: "gostring list \<Rightarrow> gostring \<Rightarrow> bool" where
  "has_capability_loop [] cap = False"
| "has_capability_loop (c # cs) cap =
    (if c = cap then True
     else if HasSuffix c ''.*'' \<and> HasPrefix cap (TrimSuffix c ''*'') then True
     else has_capability_loop cs cap)"

definition HasCapability :: "token \<Rightarrow> gostring \<Rightarrow> bool" where
  "HasCapability t cap = has_capability_loop (t_Capabilities t) cap"

subsection \<open>The consumption contract\<close>

lemma consumeTokenUseLog_True:
  "consumeTokenUseLog io ts t l = (True, l') \<Longrightarrow> int (committed l) < t_MaxUses t"
  by (auto simp: consumeTokenUseLog_def split: consume_io.splits count_result.splits if_splits
      dest!: committed_le_count)
    (auto simp: count_lines_def committed_def log_bytes_def Let_def split: clog.splits if_splits)

lemma consumeTokenUseLog_commits:
  "consumeTokenUseLog io ts t l = (ok, l') \<Longrightarrow> committed l + (if ok then 1 else 0) \<le> committed l'"
  using committed_append_record [OF json_object_record_line, of io _ l ok l']
  by (auto simp: consumeTokenUseLog_def split: consume_io.splits count_result.splits if_splits)

interpretation token_log: use_counter consumeTokenUseLog t_MaxUses t_ConsumptionLogPath
  by unfold_locales (fact consumeTokenUseLog_True, fact consumeTokenUseLog_commits)

lemma consumeUseForToken_logged:
  "t_ConsumptionLogPath t \<noteq> [] \<Longrightarrow> consumeUseForToken io ts t L =
     (let (ok, L') = token_log.attempt io ts t L in (ok, t, L'))"
  by (simp add: consumeUseForToken_def token_log.attempt_def split: prod.splits)

lemma token_self_uses: "\<exists>u. t = t\<lparr>t_UsesRemaining := u\<rparr>"
  by (metis token.surjective token.update_convs(10))

lemma consumeUseForToken_token:
  "consumeUseForToken io ts t L = (ok, t', L') \<Longrightarrow> \<exists>u. t' = t\<lparr>t_UsesRemaining := u\<rparr>"
  using token_self_uses [of t]
  by (auto simp: consumeUseForToken_def split: if_splits prod.splits)

subsection \<open>Facts about Verify\<close>

lemma loadToken_Inr:
  "loadToken storePath uid f = Inr t \<Longrightarrow> \<exists>ts. f = Holds ts \<and> t \<in> set ts \<and> t_ID t = uid"
  by (auto simp: loadToken_def readTokens_def find_Some_iff split: if_splits jsonfile.splits option.splits)

lemma token_Verify_InrE:
  assumes "token_Verify E V key storePath f L = (Inr t, L')"
  obtains claims t0 where "length key = 32"
    "te_Parse E key (vc_Now V) (vc_Jwt V) = JwtParsed claims True"
    "loadToken storePath (c_ID claims) f = Inr t0" "\<not> t_Revoked t0" "vc_Now V \<le> t_ExpiresAt t0"
    "fd_nonce_ok E (vc_Request V) key t0" "\<exists>u. t = t0\<lparr>t_UsesRemaining := u\<rparr>"
    "0 < t_MaxUses t0 \<and> consumeUseForToken (vc_Io V) (vc_UsedAt V) t0 L = (True, t, L') \<or>
     t_MaxUses t0 \<le> 0 \<and> t = t0 \<and> L' = L"
  using assms
  by (auto simp: token_Verify_def not_less token_self_uses dest: consumeUseForToken_token
      split: if_splits jwt_result.splits sum.splits prod.splits)

lemma token_Verify_Inl_logs:
  assumes "token_Verify E V key storePath f L = (Inl e, L')"
  shows "L' = L \<or> (\<exists>t0 t'. (\<exists>ts. f = Holds ts \<and> t0 \<in> set ts) \<and> t_MaxUses t0 > 0 \<and>
     consumeUseForToken (vc_Io V) (vc_UsedAt V) t0 L = (False, t', L'))"
  using assms
  by (auto simp: token_Verify_def not_less dest!: loadToken_Inr
      split: if_splits jwt_result.splits sum.splits prod.splits)

lemma consumeUseForToken_use_step:
  assumes "consumeUseForToken io ts t L = (ok, t', L')" and "p \<noteq> []"
    and "t_ConsumptionLogPath t = p \<Longrightarrow> t_MaxUses t \<le> m"
  shows "use_step p m (ok \<and> t_ConsumptionLogPath t = p) L L'"
proof (cases "t_ConsumptionLogPath t = []")
  case True
  then have "L' = L" using assms(1) by (auto simp: consumeUseForToken_def split: if_splits)
  with True assms(2) show ?thesis by simp
next
  case False
  then have "token_log.attempt io ts t L = (ok, L')"
    using assms(1) by (auto simp: consumeUseForToken_logged split: prod.splits)
  with token_log.attempt_use_step assms(3) show ?thesis by simp
qed

definition token_counted_in :: "gostring \<Rightarrow> token_error + token \<Rightarrow> bool" where
  "token_counted_in p r = (case r of Inl _ \<Rightarrow> False | Inr t \<Rightarrow> t_ConsumptionLogPath t = p)"

lemma token_Verify_use_step:
  assumes "token_Verify E V key storePath f L = (r, L')" and "p \<noteq> []"
    and "\<forall>ts. f = Holds ts \<longrightarrow>
      (\<forall>t \<in> set ts. t_ConsumptionLogPath t = p \<longrightarrow> 0 < t_MaxUses t \<and> t_MaxUses t \<le> m)"
  shows "use_step p m (token_counted_in p r) L L'"
proof (cases r)
  case (Inl e)
  with token_Verify_Inl_logs [of E V key storePath f L e L'] assms(1)
  consider "L' = L" | t0 t' ts where "f = Holds ts" "t0 \<in> set ts"
    "consumeUseForToken (vc_Io V) (vc_UsedAt V) t0 L = (False, t', L')" by auto
  then show ?thesis
  proof cases
    case 1
    with Inl show ?thesis by (simp add: token_counted_in_def)
  next
    case 2
    with consumeUseForToken_use_step [OF 2(3) assms(2), of m] assms(3) Inl show ?thesis
      by (auto simp: token_counted_in_def)
  qed
next
  case (Inr t)
  then have "token_Verify E V key storePath f L = (Inr t, L')" using assms(1) by simp
  then obtain claims :: gateway_claims and t0 where ld: "loadToken storePath (c_ID claims) f = Inr t0"
    and same: "\<exists>u. t = t0\<lparr>t_UsesRemaining := u\<rparr>"
    and use: "0 < t_MaxUses t0 \<and> consumeUseForToken (vc_Io V) (vc_UsedAt V) t0 L = (True, t, L') \<or>
      t_MaxUses t0 \<le> 0 \<and> t = t0 \<and> L' = L" by (rule token_Verify_InrE) blast
  obtain ts where ts: "f = Holds ts" "t0 \<in> set ts" using loadToken_Inr [OF ld] by blast
  have path: "t_ConsumptionLogPath t = t_ConsumptionLogPath t0" using same by auto
  from use show ?thesis
  proof
    assume c: "0 < t_MaxUses t0 \<and> consumeUseForToken (vc_Io V) (vc_UsedAt V) t0 L = (True, t, L')"
    with consumeUseForToken_use_step [OF c [THEN conjunct2] assms(2), of m] assms(3) ts Inr path
    show ?thesis by (auto simp: token_counted_in_def)
  next
    assume "t_MaxUses t0 \<le> 0 \<and> t = t0 \<and> L' = L"
    with assms(3) ts Inr show ?thesis by (auto simp: token_counted_in_def)
  qed
qed

text \<open>Calls of \<open>Verify\<close> one after the other, each on the store as it then is.\<close>

fun verify_calls ::
  "token_env \<Rightarrow> gostring \<Rightarrow> gostring \<Rightarrow> (verify_call \<times> token list jsonfile) list \<Rightarrow> (gostring \<Rightarrow> clog) \<Rightarrow>
     (token_error + token) list \<times> (gostring \<Rightarrow> clog) list" where
  "verify_calls E key storePath [] L = ([], [L])"
| "verify_calls E key storePath ((V, f) # cs) L =
    (let (r, L') = token_Verify E V key storePath f L;
         (rs, Ls) = verify_calls E key storePath cs L' in (r # rs, L # Ls))"

lemma verify_calls_run:
  assumes "p \<noteq> []" and "verify_calls E key storePath cs L = (rs, Ls)"
    and "\<forall>(V, f) \<in> set cs. \<forall>ts. f = Holds ts \<longrightarrow>
      (\<forall>t \<in> set ts. t_ConsumptionLogPath t = p \<longrightarrow> 0 < t_MaxUses t \<and> t_MaxUses t \<le> m)"
  shows "use_run p m (map (token_counted_in p) rs) Ls \<and> hd Ls = L \<and> Ls \<noteq> []"
  using assms(2,3)
proof (induction cs arbitrary: L rs Ls)
  case Nil
  then show ?case by auto
next
  case (Cons c cs)
  obtain V f where c: "c = (V, f)" by (cases c)
  obtain r L1 where r: "token_Verify E V key storePath f L = (r, L1)" by fastforce
  obtain rs' Ls' where rest: "verify_calls E key storePath cs L1 = (rs', Ls')" by fastforce
  from Cons.prems(1) c r rest have eq: "rs = r # rs'" "Ls = L # Ls'" by auto
  have "use_step p m (token_counted_in p r) L L1"
    using token_Verify_use_step [OF r assms(1)] Cons.prems(2) c by auto
  with Cons.IH [OF rest] Cons.prems(2) eq show ?case by (cases Ls') auto
qed

subsection \<open>Properties\<close>

text \<open>Sample values for the concrete instances.\<close>

definition sample_key :: gostring where
  "sample_key = replicate 32 (CHR ''k'')"

definition sample_token_spec :: token_spec where
  "sample_token_spec = \<lparr>ts_Actor = ''bob'', ts_Capabilities = [''gh.*''], ts_Command = [], ts_CWD = [],
     ts_TTL = Minute, ts_MaxUses = 1, ts_Parent = ''p'', ts_LLMSession = True, ts_FDNonce = ''n'',
     ts_StorePath = ''/h/tokens.json'', ts_SigningKey = sample_key, ts_ApprovalRootID = [],
     ts_ApprovalCapability = [], ts_ApprovalMaxAgeSec = 0, ts_ApprovalExpiry = None,
     ts_ApprovalBinding = [], ts_TwoPerson = False, ts_ApprovalRootIDs = []\<rparr>"

text \<open>A token environment whose only valid token string is the one \<open>sample_claims\<close> signs to.\<close>

definition sample_claims :: gateway_claims where
  "sample_claims = \<lparr>c_ID = ''00000000-0000-4000-8000-000000000000'', c_IssuedAt = 0,
     c_ExpiresAt = Minute, c_Actor = ''bob'', c_Caps = [''gh.*''], c_CommandHash = [], c_CWDHash = [],
     c_LLMSession = True, c_ApprovalRootHMAC = [], c_ApprovalCap = [], c_ApprovalMaxAgeSec = 0,
     c_ApprovalExpiry = [], c_ApprovalBinding = [], c_TwoPerson = False, c_ApprovalRootHMACs = []\<rparr>"

definition sample_token_env :: token_env where
  "sample_token_env = \<lparr>te_Sign = (\<lambda>k c. Some ''jwt''),
     te_Parse = (\<lambda>k now s. if s \<noteq> ''jwt'' then JwtError
                   else if c_ExpiresAt sample_claims \<le> now then JwtExpired
                   else JwtParsed sample_claims True),
     te_NumericDate = (\<lambda>t. t), te_HmacHex = (\<lambda>k m. m), te_Base64 = Some, te_FormatTime = (\<lambda>_. [])\<rparr>"

definition sample_call :: verify_call where
  "sample_call = \<lparr>vc_Now = 5, vc_UsedAt = ''t'', vc_Io = ConsumeOk, vc_Jwt = ''jwt'', vc_Request = Some ''n''\<rparr>"

definition sample_token :: token where
  "sample_token = mint_token sample_token_env sample_token_spec
     ''00000000-0000-4000-8000-000000000000'' 0"

lemma sample_key_length: "length sample_key = 32"
  by (simp add: sample_key_def)

lemma sample_mint:
  "token_Mint sample_token_env (Some (replicate 16 0)) 0 WriteOk sample_token_spec Absent =
     (Inr (''jwt'', sample_token), Holds [sample_token])"
  by code_simp

lemma sample_verified_fst:
  "fst (token_Verify sample_token_env sample_call sample_key ''/h/tokens.json''
     (Holds [sample_token]) sample_logs) = Inr sample_token"
  by code_simp

lemma sample_verified:
  "token_Verify sample_token_env sample_call sample_key ''/h/tokens.json'' (Holds [sample_token]) sample_logs =
    (Inr sample_token, snd (token_Verify sample_token_env sample_call sample_key ''/h/tokens.json''
        (Holds [sample_token]) sample_logs))"
  using sample_verified_fst by (metis prod.collapse)

text \<open>A token passes \<open>Verify\<close> only when its string parses under a 32-byte key, the store holds
  its record, the record is neither revoked nor past its expiry, and the descriptor nonce of the
  request, where the record has one, is the one it was minted with.\<close>

theorem token_verify_sound:
  assumes "token_Verify E V key storePath f L = (Inr t, L')"
  shows "\<exists>claims ts t0. te_Parse E key (vc_Now V) (vc_Jwt V) = JwtParsed claims True \<and>
     length key = 32 \<and> f = Holds ts \<and> t0 \<in> set ts \<and> t_ID t0 = c_ID claims \<and> \<not> t_Revoked t0 \<and>
     vc_Now V \<le> t_ExpiresAt t0 \<and>
     (\<forall>h. vc_Request V = Some h \<and> t_FDNonceHash t0 \<noteq> [] \<longrightarrow>
        (\<exists>n. te_Base64 E h = Some n \<and> te_HmacHex E key n = t_FDNonceHash t0)) \<and>
     (\<exists>u. t = t0\<lparr>t_UsesRemaining := u\<rparr>)"
proof -
  from assms show ?thesis
  proof (rule token_Verify_InrE)
    fix claims t0
    assume h: "length key = 32" "te_Parse E key (vc_Now V) (vc_Jwt V) = JwtParsed claims True"
      "\<not> t_Revoked t0" "vc_Now V \<le> t_ExpiresAt t0" "\<exists>u. t = t0\<lparr>t_UsesRemaining := u\<rparr>"
      and ld: "loadToken storePath (c_ID claims) f = Inr t0"
      and nonce: "fd_nonce_ok E (vc_Request V) key t0"
    have "\<forall>h. vc_Request V = Some h \<and> t_FDNonceHash t0 \<noteq> [] \<longrightarrow>
        (\<exists>n. te_Base64 E h = Some n \<and> te_HmacHex E key n = t_FDNonceHash t0)"
      using nonce by (auto simp: fd_nonce_ok_def split: option.splits if_splits)
    with h loadToken_Inr [OF ld] show ?thesis by blast
  qed
qed

theorem token_verify_sound_witness:
  "\<exists>claims ts t0. te_Parse sample_token_env sample_key (vc_Now sample_call) (vc_Jwt sample_call) =
       JwtParsed claims True \<and>
     length sample_key = 32 \<and> Holds [sample_token] = Holds ts \<and> t0 \<in> set ts \<and>
     t_ID t0 = c_ID claims \<and> \<not> t_Revoked t0 \<and> vc_Now sample_call \<le> t_ExpiresAt t0 \<and>
     (\<forall>h. vc_Request sample_call = Some h \<and> t_FDNonceHash t0 \<noteq> [] \<longrightarrow>
        (\<exists>n. te_Base64 sample_token_env h = Some n \<and>
             te_HmacHex sample_token_env sample_key n = t_FDNonceHash t0)) \<and>
     (\<exists>u. sample_token = t0\<lparr>t_UsesRemaining := u\<rparr>)"
  by (rule token_verify_sound [OF sample_verified])

text \<open>C6: A token counted in the log \<open>p\<close> verifies at most \<open>m\<close> times when its limit is at most \<open>m\<close>,
  over any sequence of \<open>Verify\<close> calls and store contents and whatever fails while a log is
  written.\<close>

theorem token_max_uses:
  assumes "p \<noteq> []" and "verify_calls E key storePath cs L = (rs, Ls)"
    and "\<forall>(V, f) \<in> set cs. \<forall>ts. f = Holds ts \<longrightarrow>
      (\<forall>t \<in> set ts. t_ConsumptionLogPath t = p \<longrightarrow> 0 < t_MaxUses t \<and> t_MaxUses t \<le> m)"
    and "0 \<le> m"
  shows "int (length (filter (token_counted_in p) rs)) \<le> m"
proof -
  have "use_run p m (map (token_counted_in p) rs) (L # tl Ls)"
    using verify_calls_run [OF assms(1,2,3)] by (metis list.collapse)
  from use_run_bounded [OF this assms(4)] show ?thesis by (simp add: filter_map comp_def)
qed

theorem token_max_uses_witness:
  "int (length (filter (token_counted_in (t_ConsumptionLogPath sample_token))
    (fst (verify_calls sample_token_env sample_key ''/h/tokens.json''
       (replicate 3 (sample_call, Holds [sample_token])) sample_logs)))) \<le> 1"
proof (rule token_max_uses)
  show "t_ConsumptionLogPath sample_token \<noteq> []" by code_simp
  have "0 < t_MaxUses sample_token" "t_MaxUses sample_token \<le> 1" by code_simp+
  then show "\<forall>(V, f) \<in> set (replicate 3 (sample_call, Holds [sample_token])). \<forall>ts. f = Holds ts \<longrightarrow>
      (\<forall>t \<in> set ts. t_ConsumptionLogPath t = t_ConsumptionLogPath sample_token \<longrightarrow>
        0 < t_MaxUses t \<and> t_MaxUses t \<le> 1)"
    by (simp add: set_replicate_conv_if)
qed (auto intro: prod_eqI)

text \<open>After a \<open>Revoke\<close> that reports success, no token string makes \<open>Verify\<close> accept the
  revoked token or a child of it.\<close>

theorem token_revoke_effective:
  assumes "token_Revoke now w uid storePath f = (None, f')"
    and "token_Verify E V key storePath f' L = (Inr t, L')"
  shows "t_ID t \<noteq> uid \<and> t_Parent t \<noteq> uid"
proof -
  define mark where "mark = (\<lambda>t. if t_ID t = uid then token_revoke_at now t else t)"
  define cascade where "cascade = (\<lambda>t. if t_Parent t = uid \<and> \<not> t_Revoked t then token_revoke_at now t else t)"
  have rev: "t_ID (cascade (mark h)) = uid \<or> t_Parent (cascade (mark h)) = uid \<Longrightarrow> t_Revoked (cascade (mark h))" for h
    by (auto simp: mark_def cascade_def token_revoke_at_def split: if_splits)
  obtain ts0 where "f' = Holds (map cascade (map mark ts0))"
    using assms(1) unfolding token_Revoke_def mark_def cascade_def
    by (auto simp: writeTokens_def write_file_def Let_def split: sum.splits if_splits)
  moreover obtain claims :: gateway_claims and t0 where "loadToken storePath (c_ID claims) f' = Inr t0" "\<not> t_Revoked t0"
    and same: "\<exists>u. t = t0\<lparr>t_UsesRemaining := u\<rparr>"
    using assms(2) by (rule token_Verify_InrE) blast
  ultimately have "t_ID t0 \<noteq> uid \<and> t_Parent t0 \<noteq> uid"
    using rev loadToken_Inr by fastforce
  with same show ?thesis by auto
qed

theorem token_revoke_effective_witness:
  "t_ID sample_token \<noteq> ''other'' \<and> t_Parent sample_token \<noteq> ''other''"
proof (rule token_revoke_effective)
  let ?f' = "Holds [sample_token, token_revoke_at 1 (sample_token\<lparr>t_ID := ''other''\<rparr>)]"
  show "token_Revoke 1 WriteOk ''other'' ''/h/tokens.json''
      (Holds [sample_token, sample_token\<lparr>t_ID := ''other''\<rparr>]) = (None, ?f')"
    by code_simp
  have "fst (token_Verify sample_token_env sample_call sample_key ''/h/tokens.json'' ?f' sample_logs) =
      Inr sample_token" by code_simp
  then show "token_Verify sample_token_env sample_call sample_key ''/h/tokens.json'' ?f' sample_logs =
      (Inr sample_token, snd (token_Verify sample_token_env sample_call sample_key ''/h/tokens.json''
         ?f' sample_logs))"
    by (metis prod.collapse)
qed

text \<open>A freshly minted, unlimited-use token whose id is new in the store verifies until its
  expiry, for a JWT library that parses what it signed, and \<open>Verify\<close> gives back the minted
  record.\<close>

theorem token_mint_verify:
  assumes "token_Mint E rnd now w spec f = (Inr (s, t), f')"
    and "ts_StorePath spec \<noteq> []" and "ts_MaxUses spec \<le> 0" and "ts_FDNonce spec = []"
    and "\<forall>ts. f = Holds ts \<longrightarrow> t_ID t \<notin> t_ID ` set ts"
    and "te_Parse E (ts_SigningKey spec) (vc_Now V) s =
      JwtParsed (mint_claims E spec (t_ID t) now) True"
    and "vc_Jwt V = s" and "vc_Now V \<le> t_ExpiresAt t"
  shows "token_Verify E V (ts_SigningKey spec) (ts_StorePath spec) f' L = (Inr t, L)"
proof -
  from assms(1) have key: "length (ts_SigningKey spec) = 32" by (auto simp: token_Mint_def split: if_splits)
  from assms(1,2) obtain uid ts where t: "t = mint_token E spec uid now"
    and f': "f' = Holds (ts @ [t])" and rd: "readTokens (ts_StorePath spec) f = Inr ts"
    by (auto simp: token_Mint_def Let_def persistToken_def writeTokens_def write_file_def
        split: if_splits option.splits sum.splits)
  have fresh: "t_ID t \<notin> t_ID ` set ts"
    using rd assms(2,5) by (auto simp: readTokens_def split: jsonfile.splits)
  have "find (\<lambda>x. t_ID x = t_ID t) (ts @ [t]) = Some t"
    using fresh by (induction ts) auto
  then have "loadToken (ts_StorePath spec) (t_ID t) f' = Inr t"
    using assms(2) f' by (simp add: loadToken_def readTokens_def)
  moreover have "c_ID (mint_claims E spec (t_ID t) now) = t_ID t" by (simp add: mint_claims_def)
  moreover have "\<not> t_Revoked t" "t_MaxUses t \<le> 0" "t_FDNonceHash t = []"
    using t assms(3,4) by (simp_all add: mint_token_def mint_hmac_def)
  ultimately show ?thesis using key assms(6,7,8)
    by (simp add: token_Verify_def fd_nonce_ok_def split: option.splits)
qed

theorem token_mint_verify_witness:
  "token_Verify (sample_token_env\<lparr>te_Parse := (\<lambda>k now s. JwtParsed (sample_claims) True)\<rparr>) sample_call
     (ts_SigningKey (sample_token_spec\<lparr>ts_MaxUses := 0, ts_FDNonce := []\<rparr>))
     (ts_StorePath (sample_token_spec\<lparr>ts_MaxUses := 0, ts_FDNonce := []\<rparr>))
     (Holds [mint_token sample_token_env (sample_token_spec\<lparr>ts_MaxUses := 0, ts_FDNonce := []\<rparr>)
        ''00000000-0000-4000-8000-000000000000'' 0]) sample_logs =
   (Inr (mint_token sample_token_env (sample_token_spec\<lparr>ts_MaxUses := 0, ts_FDNonce := []\<rparr>)
        ''00000000-0000-4000-8000-000000000000'' 0), sample_logs)"
proof (rule token_mint_verify)
  let ?E = "sample_token_env\<lparr>te_Parse := (\<lambda>k now s. JwtParsed sample_claims True)\<rparr>"
  let ?spec = "sample_token_spec\<lparr>ts_MaxUses := 0, ts_FDNonce := []\<rparr>"
  let ?t = "mint_token sample_token_env ?spec ''00000000-0000-4000-8000-000000000000'' 0"
  show "token_Mint ?E (Some (replicate 16 0)) 0 WriteOk ?spec Absent = (Inr (''jwt'', ?t), Holds [?t])"
    by code_simp
  show "te_Parse ?E (ts_SigningKey ?spec) (vc_Now sample_call) ''jwt'' =
      JwtParsed (mint_claims ?E ?spec (t_ID ?t) 0) True"
    by code_simp
  show "vc_Now sample_call \<le> t_ExpiresAt ?t" by code_simp
qed (simp_all add: sample_token_spec_def sample_call_def)

text \<open>\<open>HasCapability\<close> is exact: the capability itself, or one below a provider wildcard, dot
  included.\<close>

theorem has_capability_exact:
  "HasCapability t cap \<longleftrightarrow>
    (\<exists>c \<in> set (t_Capabilities t). c = cap \<or> (\<exists>p. c = p @ ''.*'' \<and> prefix (p @ ''.'') cap))"
proof -
  have "HasSuffix c ''.*'' \<and> HasPrefix cap (TrimSuffix c ''*'') \<longleftrightarrow>
      (\<exists>p. c = p @ ''.*'' \<and> prefix (p @ ''.'') cap)" for c
  proof (cases "HasSuffix c ''.*''")
    case True
    then obtain p where c: "c = p @ ''.*''" by (auto simp: HasSuffix_suffix suffix_def)
    then have "TrimSuffix c ''*'' = p @ ''.''"
      by (simp add: TrimSuffix_def HasSuffix_def)
    with True c show ?thesis by (simp add: HasPrefix_prefix)
  next
    case False
    then show ?thesis by (auto simp: HasSuffix_suffix suffix_def)
  qed
  then have "has_capability_loop cs cap \<longleftrightarrow>
      (\<exists>c \<in> set cs. c = cap \<or> (\<exists>p. c = p @ ''.*'' \<and> prefix (p @ ''.'') cap))" for cs
    by (induction cs) auto
  then show ?thesis by (simp add: HasCapability_def)
qed

text \<open>No specification with a hardware-approval field yields a token: \<open>Mint\<close> fails and leaves
  the store alone.\<close>

theorem token_mint_no_hardware:
  assumes "ts_ApprovalRootID spec \<noteq> [] \<or> ts_ApprovalRootIDs spec \<noteq> [] \<or> ts_ApprovalExpiry spec \<noteq> None \<or>
     ts_ApprovalCapability spec \<noteq> [] \<or> ts_ApprovalMaxAgeSec spec \<noteq> 0 \<or> ts_ApprovalBinding spec \<noteq> [] \<or>
     ts_TwoPerson spec"
  shows "\<exists>e. token_Mint E rnd now w spec f = (Inl e, f)"
  using assms by (auto simp: token_Mint_def hardware_fields_def)

theorem token_mint_no_hardware_witness:
  "\<exists>e. token_Mint sample_token_env None 0 WriteOk (sample_token_spec\<lparr>ts_TwoPerson := True\<rparr>) Absent =
     (Inl e, Absent)"
  by (rule token_mint_no_hardware) simp

end
