(* ===== verification/Approval.thy ===== *)
theory Approval
  imports Consumption_Log "HOL-Library.AList" "HOL-Library.Char_ord" "HOL-Library.List_Lexorder"
begin

section \<open>Human approvals (\<open>internal/gateway/approval\<close>)\<close>

text \<open>
  Pending approvals and their signed decisions (\<open>approval.go\<close>), the approval modes
  (\<open>policy.go\<close>) and the approver credential (\<open>approver.go\<close>). The approvals directory is a
  record: whether it can be opened, its \<open>.json\<close> files by token, and the tokens that have a
  \<open>.used\<close> marker. Ed25519, Argon2id, base64, the record digest and time formatting are the
  functions of \<open>approval_crypto\<close>; random bytes, the readings of the clock and the outcome of each
  write are arguments.
\<close>

subsection \<open>Data\<close>

record approval_request =
  ar_Token :: gostring
  ar_Actor :: gostring
  ar_Capability :: gostring
  ar_Connection :: gostring
  ar_RequestHash :: gostring
  ar_Status :: gostring
  ar_ExpiresAt :: gotime
  ar_CreatedAt :: gotime
  ar_Note :: gostring
  ar_DecidedAt :: gotime
  ar_Signature :: gostring

abbreviation StatusPending :: gostring where "StatusPending \<equiv> ''pending''"
abbreviation StatusApproved :: gostring where "StatusApproved \<equiv> ''approved''"
abbreviation StatusDenied :: gostring where "StatusDenied \<equiv> ''denied''"
abbreviation StatusExpired :: gostring where "StatusExpired \<equiv> ''expired''"

definition approval_MaxTTL :: duration where "approval_MaxTTL = Hour"
definition UseWindow :: duration where "UseWindow = 15 * Minute"

datatype approval_error =
    ErrNotFound | ErrExpired | ErrAlreadyActed | ErrUnsigned | ErrHashRequired | ErrChanged
  | ErrApprovalTTLTooLong | ErrUsed | ErrExpiredTTL gotime
  | ApprovalRand | MkdirApprovals | OpenApprovals | ReaddirApprovals | StatApproval
  | NotRegularFile | ReadApproval | ParseApproval | OtherToken | WriteApproval write_outcome
  | NotApproved gostring | HashMismatch | RecordUse

datatype root_state = RootOk | RootMissing | RootFails

datatype approval_entry =
  EntryStatFails | EntryNotRegular | EntryUnreadable | EntryUnparsable | EntryRecord approval_request

record approvals_dir =
  ad_Root :: root_state
  ad_Json :: "(gostring \<times> approval_entry) list"
  ad_ReaddirOk :: bool
  ad_Used :: "gostring list"

record approval_crypto =
  ac_Sign :: "gostring \<Rightarrow> gostring \<Rightarrow> gostring"
  ac_Verify :: "gostring \<Rightarrow> gostring \<Rightarrow> gostring \<Rightarrow> bool"
  ac_Base64 :: "gostring \<Rightarrow> gostring"
  ac_Unbase64 :: "gostring \<Rightarrow> gostring option"
  ac_Digest :: "approval_request \<Rightarrow> gostring"
  ac_FormatTime :: "gotime \<Rightarrow> gostring"
  ac_Argon2 :: "gostring \<Rightarrow> gostring \<Rightarrow> nat \<Rightarrow> nat \<Rightarrow> nat \<Rightarrow> gostring option"
  ac_KeyFromSeed :: "gostring \<Rightarrow> gostring"
  ac_PublicOf :: "gostring \<Rightarrow> gostring"

subsection \<open>Tokens and files\<close>

definition is_lower_hex :: "char \<Rightarrow> bool" where
  "is_lower_hex c = (is_digit c \<or> (97 \<le> byte_of c \<and> byte_of c \<le> 102))"

definition ValidToken :: "gostring \<Rightarrow> bool" where
  "ValidToken t = (HasPrefix t ''apv_'' \<and> length t = 36 \<and> list_all is_lower_hex (drop 4 t))"

definition approval_hex :: "8 word list \<Rightarrow> gostring" where
  "approval_hex bs = concat (map (\<lambda>b. [hex_digit (unat b div 16), hex_digit (unat b mod 16)]) bs)"

definition newApprovalToken :: "8 word list option \<Rightarrow> gostring option" where
  "newApprovalToken rnd = (case rnd of None \<Rightarrow> None | Some b \<Rightarrow> Some (''apv_'' @ approval_hex b))"

definition openRoot :: "approvals_dir \<Rightarrow> approval_error option" where
  "openRoot d = (case ad_Root d of RootOk \<Rightarrow> None | RootMissing \<Rightarrow> Some ErrNotFound
     | RootFails \<Rightarrow> Some OpenApprovals)"

definition listTokens :: "approvals_dir \<Rightarrow> approval_error + gostring list" where
  "listTokens d = (if \<not> ad_ReaddirOk d then Inl ReaddirApprovals
     else Inr (sort (filter ValidToken (map fst (ad_Json d)))))"

definition readApproval :: "approvals_dir \<Rightarrow> gostring \<Rightarrow> approval_error + approval_request" where
  "readApproval d token =
    (case map_of (ad_Json d) token of
       None \<Rightarrow> Inl ErrNotFound
     | Some EntryStatFails \<Rightarrow> Inl StatApproval
     | Some EntryNotRegular \<Rightarrow> Inl NotRegularFile
     | Some EntryUnreadable \<Rightarrow> Inl ReadApproval
     | Some EntryUnparsable \<Rightarrow> Inl ParseApproval
     | Some (EntryRecord ar) \<Rightarrow> if ar_Token ar \<noteq> token then Inl OtherToken else Inr ar)"

definition writeApproval ::
  "write_outcome \<Rightarrow> approval_request \<Rightarrow> approvals_dir \<Rightarrow> approval_error option \<times> approvals_dir" where
  "writeApproval w ar d =
    (if \<not> ValidToken (ar_Token ar) then (Some ErrNotFound, d)
     else if w \<noteq> WriteOk then (Some (WriteApproval w), d)
     else (None, d\<lparr>ad_Json := AList.update (ar_Token ar) (EntryRecord ar) (ad_Json d)\<rparr>))"

fun read_tokens :: "approvals_dir \<Rightarrow> gostring list \<Rightarrow> approval_request list" where
  "read_tokens d [] = []"
| "read_tokens d (tok # toks) =
    (case readApproval d tok of Inr ar \<Rightarrow> ar # read_tokens d toks | Inl _ \<Rightarrow> read_tokens d toks)"

definition readAll :: "approvals_dir \<Rightarrow> approval_error + approval_request list" where
  "readAll d =
    (case openRoot d of
       Some ErrNotFound \<Rightarrow> Inr []
     | Some e \<Rightarrow> Inl e
     | None \<Rightarrow> (case listTokens d of Inl e \<Rightarrow> Inl e | Inr toks \<Rightarrow> Inr (read_tokens d toks)))"

subsection \<open>Requests and listings\<close>

definition RequestNew ::
  "8 word list option \<Rightarrow> gotime \<Rightarrow> bool \<Rightarrow> write_outcome \<Rightarrow> gostring \<Rightarrow> gostring \<Rightarrow> gostring \<Rightarrow> gostring \<Rightarrow>
     duration \<Rightarrow> approvals_dir \<Rightarrow> (approval_error + approval_request) \<times> approvals_dir" where
  "RequestNew rnd now mkdir_ok w actor capability connection reqHash ttl0 d =
    (case newApprovalToken rnd of None \<Rightarrow> (Inl ApprovalRand, d)
     | Some tok \<Rightarrow>
        (let ttl = min (if ttl0 \<le> 0 then 15 * Minute else ttl0) approval_MaxTTL;
             ar = \<lparr>ar_Token = tok, ar_Actor = actor, ar_Capability = capability,
                   ar_Connection = connection, ar_RequestHash = reqHash, ar_Status = StatusPending,
                   ar_ExpiresAt = now + ttl, ar_CreatedAt = now, ar_Note = [],
                   ar_DecidedAt = zero_time, ar_Signature = []\<rparr> in
         if \<not> mkdir_ok then (Inl MkdirApprovals, d)
         else if ad_Root d = RootFails then (Inl OpenApprovals, d)
         else (case writeApproval w ar (d\<lparr>ad_Root := RootOk\<rparr>) of
                 (Some e, d') \<Rightarrow> (Inl e, d') | (None, d') \<Rightarrow> (Inr ar, d'))))"

definition approval_Get :: "gostring \<Rightarrow> approvals_dir \<Rightarrow> approval_error + approval_request" where
  "approval_Get token d =
    (if \<not> ValidToken token then Inl ErrNotFound
     else (case openRoot d of Some e \<Rightarrow> Inl e | None \<Rightarrow> readApproval d token))"

definition pendingWithClock :: "gotime \<Rightarrow> approvals_dir \<Rightarrow> approval_error + approval_request list" where
  "pendingWithClock now d =
    (case readAll d of Inl e \<Rightarrow> Inl e
     | Inr rs \<Rightarrow> Inr (filter (\<lambda>ar. ar_Status ar = StatusPending \<and> \<not> ar_ExpiresAt ar < now) rs))"

text \<open>\<open>sort.Slice\<close> leaves the order of equal creation times open; the model keeps them in order.\<close>

definition listWithClock :: "gotime \<Rightarrow> approvals_dir \<Rightarrow> approval_error + approval_request list" where
  "listWithClock now d =
    (case readAll d of Inl e \<Rightarrow> Inl e
     | Inr rs \<Rightarrow> Inr (map (\<lambda>ar. if ar_ExpiresAt ar < now then ar\<lparr>ar_Status := StatusExpired\<rparr> else ar)
                   (sort_key ar_CreatedAt (filter (\<lambda>ar. ar_Status ar = StatusPending) rs))))"

definition EffectiveStatus :: "approval_request \<Rightarrow> gotime \<Rightarrow> gostring" where
  "EffectiveStatus ar now =
    (if ar_Status ar = StatusPending \<and> ar_ExpiresAt ar < now then StatusExpired else ar_Status ar)"

text \<open>\<open>ws\<close> gives the outcome of the write for each token.\<close>

fun expire_tokens ::
  "gotime \<Rightarrow> (gostring \<Rightarrow> write_outcome) \<Rightarrow> gostring list \<Rightarrow> approvals_dir \<Rightarrow> nat \<times> approvals_dir" where
  "expire_tokens now ws [] d = (0, d)"
| "expire_tokens now ws (tok # toks) d =
    (case readApproval d tok of
       Inl _ \<Rightarrow> expire_tokens now ws toks d
     | Inr ar \<Rightarrow>
        if ar_Status ar \<noteq> StatusPending \<or> \<not> ar_ExpiresAt ar < now then expire_tokens now ws toks d
        else (case writeApproval (ws tok)
                     (ar\<lparr>ar_Status := StatusExpired, ar_Note := ''auto-denied by TTL sweep''\<rparr>) d of
                (Some _, d') \<Rightarrow> expire_tokens now ws toks d'
              | (None, d') \<Rightarrow> (let (n, d'') = expire_tokens now ws toks d' in (Suc n, d''))))"

definition expireOldPendingWithClock ::
  "gotime \<Rightarrow> (gostring \<Rightarrow> write_outcome) \<Rightarrow> approvals_dir \<Rightarrow> (approval_error + nat) \<times> approvals_dir" where
  "expireOldPendingWithClock now ws d =
    (case openRoot d of
       Some ErrNotFound \<Rightarrow> (Inr 0, d)
     | Some e \<Rightarrow> (Inl e, d)
     | None \<Rightarrow>
        (case listTokens d of Inl e \<Rightarrow> (Inl e, d)
         | Inr toks \<Rightarrow> (let (n, d') = expire_tokens now ws toks d in (Inr n, d'))))"

subsection \<open>Decisions\<close>

definition decisionDomain :: gostring where
  "decisionDomain = ''keylatch/approval-decision/v1'' @ [newline]"

definition decisionMessage :: "approval_crypto \<Rightarrow> approval_request \<Rightarrow> gostring" where
  "decisionMessage C ar = decisionDomain @ json_object
    [(''token'', ar_Token ar), (''actor'', ar_Actor ar), (''capability'', ar_Capability ar),
     (''connection'', ar_Connection ar), (''request_hash'', ar_RequestHash ar),
     (''status'', ar_Status ar), (''note'', ar_Note ar),
     (''created_at'', ac_FormatTime C (ar_CreatedAt ar)),
     (''expires_at'', ac_FormatTime C (ar_ExpiresAt ar)),
     (''decided_at'', ac_FormatTime C (ar_DecidedAt ar))]"

definition signatureValid :: "approval_crypto \<Rightarrow> approval_request \<Rightarrow> gostring \<Rightarrow> bool" where
  "signatureValid C ar pub =
    (if length pub \<noteq> 32 \<or> ar_Signature ar = [] then False
     else (case ac_Unbase64 C (ar_Signature ar) of
             None \<Rightarrow> False
           | Some sig \<Rightarrow> if length sig \<noteq> 64 then False
                         else ac_Verify C pub (decisionMessage C ar) sig))"

text \<open>\<open>now\<close> and \<open>now'\<close> are the two readings of the clock.\<close>

definition decide ::
  "approval_crypto \<Rightarrow> gotime \<Rightarrow> gotime \<Rightarrow> write_outcome \<Rightarrow> gostring \<Rightarrow> gostring \<Rightarrow> gostring \<Rightarrow> gostring \<Rightarrow>
     gostring \<Rightarrow> approvals_dir \<Rightarrow> approval_error option \<times> approvals_dir" where
  "decide C now now' w token shown status reason key d =
    (if length key \<noteq> 64 then (Some ErrUnsigned, d)
     else if \<not> ValidToken token then (Some ErrNotFound, d)
     else (case openRoot d of Some e \<Rightarrow> (Some e, d)
       | None \<Rightarrow>
          (case readApproval d token of Inl e \<Rightarrow> (Some e, d)
           | Inr ar \<Rightarrow>
              if ac_Digest C ar \<noteq> shown then (Some ErrChanged, d)
              else if ar_Status ar = StatusApproved \<or> ar_Status ar = StatusDenied
                then (Some ErrAlreadyActed, d)
              else if ar_Status ar = StatusExpired \<or> ar_ExpiresAt ar < now
                then (Some (ErrExpiredTTL (ar_ExpiresAt ar)), d)
              else if time_Sub (ar_ExpiresAt ar) (ar_CreatedAt ar) > approval_MaxTTL
                then (Some ErrApprovalTTLTooLong, d)
              else (let ar1 = ar\<lparr>ar_Status := status,
                               ar_Note := (if reason \<noteq> [] then reason else ar_Note ar),
                               ar_DecidedAt := now'\<rparr>;
                        ar2 = ar1\<lparr>ar_Signature := ac_Base64 C (ac_Sign C key (decisionMessage C ar1))\<rparr>
                    in writeApproval w ar2 d))))"

definition ApproveWithReason ::
  "approval_crypto \<Rightarrow> gotime \<Rightarrow> gotime \<Rightarrow> write_outcome \<Rightarrow> gostring \<Rightarrow> gostring \<Rightarrow> gostring \<Rightarrow>
     gostring \<Rightarrow> approvals_dir \<Rightarrow> approval_error option \<times> approvals_dir" where
  "ApproveWithReason C now now' w token shown reason key d =
     decide C now now' w token shown StatusApproved reason key d"

definition DenyWithReason ::
  "approval_crypto \<Rightarrow> gotime \<Rightarrow> gotime \<Rightarrow> write_outcome \<Rightarrow> gostring \<Rightarrow> gostring \<Rightarrow> gostring \<Rightarrow>
     gostring \<Rightarrow> approvals_dir \<Rightarrow> approval_error option \<times> approvals_dir" where
  "DenyWithReason C now now' w token shown reason key d =
     decide C now now' w token shown StatusDenied reason key d"

text \<open>\<open>create_ok\<close> says whether the exclusive creation of a marker that is not there succeeds.\<close>

definition consume :: "bool \<Rightarrow> gostring \<Rightarrow> approvals_dir \<Rightarrow> approval_error option \<times> approvals_dir" where
  "consume create_ok token d =
    (if token \<in> set (ad_Used d) then (Some ErrUsed, d)
     else if \<not> create_ok then (Some RecordUse, d)
     else (None, d\<lparr>ad_Used := token # ad_Used d\<rparr>))"

definition verifyWithClock ::
  "approval_crypto \<Rightarrow> gotime \<Rightarrow> gotime \<Rightarrow> bool \<Rightarrow> gostring \<Rightarrow> gostring \<Rightarrow> gostring \<Rightarrow> approvals_dir \<Rightarrow>
     approval_error option \<times> approvals_dir" where
  "verifyWithClock C now now' create_ok token reqHash pub d =
    (if reqHash = [] then (Some ErrHashRequired, d)
     else if \<not> ValidToken token then (Some ErrNotFound, d)
     else (case openRoot d of Some e \<Rightarrow> (Some e, d)
       | None \<Rightarrow>
          (case readApproval d token of Inl _ \<Rightarrow> (Some ErrNotFound, d)
           | Inr ar \<Rightarrow>
              if \<not> signatureValid C ar pub then (Some ErrUnsigned, d)
              else if ar_ExpiresAt ar < now then (Some ErrExpired, d)
              else if ar_Status ar \<noteq> StatusApproved then (Some (NotApproved (ar_Status ar)), d)
              else if ar_RequestHash ar \<noteq> reqHash then (Some HashMismatch, d)
              else if ar_DecidedAt ar > now' \<or> time_Sub now' (ar_DecidedAt ar) > UseWindow
                then (Some ErrExpired, d)
              else consume create_ok token d)))"

subsection \<open>Approval modes\<close>

datatype approval_mode = ModeTrust | ModeFirstRun | ModePrompt | ModeUnknown gostring

definition DefaultMode :: "gostring \<Rightarrow> approval_mode" where
  "DefaultMode rt = (if rt = ''gateway'' then ModeTrust else ModeFirstRun)"

text \<open>\<open>None\<close> is the error for an unknown mode.\<close>

definition ParseApprovalMode :: "gostring \<Rightarrow> approval_mode option" where
  "ParseApprovalMode s =
    (if s = ''trust'' then Some ModeTrust else if s = ''first-run'' then Some ModeFirstRun
     else if s = ''prompt'' then Some ModePrompt else if s = [] then Some ModeFirstRun else None)"

type_synonym session_key = "gostring \<times> gostring \<times> gostring"

record policy_checker =
  pc_mode :: approval_mode
  pc_seen :: "session_key list"

definition NewPolicyChecker :: "approval_mode \<Rightarrow> policy_checker" where
  "NewPolicyChecker mode = \<lparr>pc_mode = mode, pc_seen = []\<rparr>"

datatype policy_decision = DecisionApproved | DecisionRequiresApproval

definition checker_Check ::
  "policy_checker \<Rightarrow> gostring \<Rightarrow> gostring \<Rightarrow> gostring \<Rightarrow> policy_decision \<times> policy_checker" where
  "checker_Check p actor capability connection =
    (case pc_mode p of
       ModeTrust \<Rightarrow> (DecisionApproved, p)
     | ModeFirstRun \<Rightarrow>
        (let key = (actor, capability, connection) in
         if key \<in> set (pc_seen p) then (DecisionApproved, p)
         else (DecisionRequiresApproval, p\<lparr>pc_seen := key # pc_seen p\<rparr>))
     | ModePrompt \<Rightarrow> (DecisionRequiresApproval, p)
     | ModeUnknown _ \<Rightarrow> (DecisionRequiresApproval, p))"

subsection \<open>The approver credential\<close>

record approver_key =
  ak_Version :: int
  ak_PublicKey :: gostring
  ak_Salt :: gostring
  ak_Time :: nat
  ak_MemoryKiB :: nat
  ak_Threads :: nat

record argon2_params =
  kp_Time :: nat
  kp_Memory :: nat
  kp_Threads :: nat

datatype approver_error = ErrNoApproverKey | ErrWrongPassphrase | ErrPassphraseTooShort | SaltRand
  | BadPublicKey | BadKeyVersion int | BadKDFParams | BadSalt | DeriveFails | ReadApproverKey
  | ParseApproverKey | WriteApproverKey

definition MinPassphraseLen :: nat where "MinPassphraseLen = 12"
definition maxKDFTime :: nat where "maxKDFTime = 64"
definition maxKDFMemoryKiB :: nat where "maxKDFMemoryKiB = 4 * 2 ^ 20"

definition approver_derive :: "approval_crypto \<Rightarrow> approver_key \<Rightarrow> gostring \<Rightarrow> approver_error + gostring" where
  "approver_derive C k passphrase =
    (if ak_Version k \<noteq> 1 then Inl (BadKeyVersion (ak_Version k))
     else if ak_Time k = 0 \<or> ak_Time k > maxKDFTime \<or> ak_MemoryKiB k = 0 \<or>
             ak_MemoryKiB k > maxKDFMemoryKiB \<or> ak_Threads k = 0 then Inl BadKDFParams
     else (case ac_Unbase64 C (ak_Salt k) of
             None \<Rightarrow> Inl BadSalt
           | Some salt \<Rightarrow> if length salt < 16 then Inl BadSalt
               else (case ac_Argon2 C passphrase salt (ak_Time k) (ak_MemoryKiB k) (ak_Threads k) of
                       None \<Rightarrow> Inl DeriveFails
                     | Some seed \<Rightarrow> Inr (ac_KeyFromSeed C seed))))"

definition approver_Public :: "approval_crypto \<Rightarrow> approver_key \<Rightarrow> approver_error + gostring" where
  "approver_Public C k =
    (case ac_Unbase64 C (ak_PublicKey k) of
       None \<Rightarrow> Inl BadPublicKey
     | Some pub \<Rightarrow> if length pub \<noteq> 32 then Inl BadPublicKey else Inr pub)"

definition NewApproverKey ::
  "approval_crypto \<Rightarrow> gostring option \<Rightarrow> gostring \<Rightarrow> argon2_params \<Rightarrow> approver_error + approver_key \<times> gostring" where
  "NewApproverKey C rnd passphrase params =
    (if length passphrase < MinPassphraseLen then Inl ErrPassphraseTooShort
     else (case rnd of None \<Rightarrow> Inl SaltRand
       | Some salt \<Rightarrow>
          (let k = \<lparr>ak_Version = 1, ak_PublicKey = [], ak_Salt = ac_Base64 C salt,
                    ak_Time = kp_Time params, ak_MemoryKiB = kp_Memory params,
                    ak_Threads = kp_Threads params\<rparr> in
           case approver_derive C k passphrase of
             Inl e \<Rightarrow> Inl e
           | Inr priv \<Rightarrow> Inr (k\<lparr>ak_PublicKey := ac_Base64 C (ac_PublicOf C priv)\<rparr>, priv))))"

definition Unlock :: "approval_crypto \<Rightarrow> approver_key \<Rightarrow> gostring \<Rightarrow> approver_error + gostring" where
  "Unlock C k passphrase =
    (case approver_Public C k of Inl e \<Rightarrow> Inl e
     | Inr want \<Rightarrow>
        (case approver_derive C k passphrase of Inl e \<Rightarrow> Inl e
         | Inr priv \<Rightarrow> if ac_PublicOf C priv \<noteq> want then Inl ErrWrongPassphrase else Inr priv))"

definition LoadApproverKey :: "approval_crypto \<Rightarrow> approver_key jsonfile \<Rightarrow> approver_error + approver_key" where
  "LoadApproverKey C f =
    (case f of Absent \<Rightarrow> Inl ErrNoApproverKey | Unreadable \<Rightarrow> Inl ReadApproverKey
     | Unparsable \<Rightarrow> Inl ParseApproverKey
     | Holds k \<Rightarrow> (case approver_Public C k of Inl e \<Rightarrow> Inl e | Inr _ \<Rightarrow> Inr k))"

definition SaveApproverKey ::
  "write_outcome \<Rightarrow> approver_key \<Rightarrow> approver_key jsonfile \<Rightarrow> approver_error option \<times> approver_key jsonfile" where
  "SaveApproverKey w k f =
    (case write_file w k f of Inl _ \<Rightarrow> (Some WriteApproverKey, f) | Inr f' \<Rightarrow> (None, f'))"

subsection \<open>The approvals directory as a state machine\<close>

text \<open>
  One step is one operation of the package, or a change of the \<open>.json\<close> files behind its back
  (\<open>Tampered\<close>): requests are written by the requester, who can write there.
\<close>

datatype approval_event =
    Requested gostring
  | RequestFailed
  | Decided gostring gostring bool
  | Swept
  | Verified gostring bool
  | Tampered

inductive approval_step ::
  "approval_crypto \<Rightarrow> approvals_dir \<Rightarrow> approval_event \<Rightarrow> approvals_dir \<Rightarrow> bool" for C where
  request: "RequestNew rnd now mk w a c cn h ttl d = (Inr ar, d') \<Longrightarrow>
     approval_step C d (Requested (ar_Token ar)) d'"
| request_failed: "RequestNew rnd now mk w a c cn h ttl d = (Inl e, d') \<Longrightarrow>
     approval_step C d RequestFailed d'"
| approve: "ApproveWithReason C now now' w tok shown reason key d = (e, d') \<Longrightarrow>
     approval_step C d (Decided tok StatusApproved (e = None)) d'"
| deny: "DenyWithReason C now now' w tok shown reason key d = (e, d') \<Longrightarrow>
     approval_step C d (Decided tok StatusDenied (e = None)) d'"
| sweep: "expireOldPendingWithClock now ws d = (r, d') \<Longrightarrow> approval_step C d Swept d'"
| verify: "verifyWithClock C now now' ok tok h pub d = (e, d') \<Longrightarrow>
     approval_step C d (Verified tok (e = None)) d'"
| tamper: "approval_step C d Tampered (d\<lparr>ad_Json := fs\<rparr>)"

inductive_cases approval_stepE: "approval_step C d ev d'"

inductive approval_run ::
  "approval_crypto \<Rightarrow> approvals_dir \<Rightarrow> approval_event list \<Rightarrow> approvals_dir \<Rightarrow> bool" for C where
  run_Nil: "approval_run C d [] d"
| run_Cons: "approval_step C d ev d1 \<Longrightarrow> approval_run C d1 evs d' \<Longrightarrow> approval_run C d (ev # evs) d'"

inductive_simps approval_run_Nil [simp]: "approval_run C d [] d'"
inductive_simps approval_run_Cons: "approval_run C d (ev # evs) d'"

lemma writeApproval_used: "writeApproval w ar d = (e, d') \<Longrightarrow> ad_Used d' = ad_Used d"
  by (auto simp: writeApproval_def split: if_splits)

lemma expire_tokens_used: "expire_tokens now ws toks d = (n, d') \<Longrightarrow> ad_Used d' = ad_Used d"
proof (induction toks arbitrary: d n)
  case (Cons tok toks)
  then show ?case
    by (auto split: sum.splits if_splits prod.splits option.splits dest!: writeApproval_used)
qed simp

lemma decide_used: "decide C now now' w tok shown st reason key d = (e, d') \<Longrightarrow> ad_Used d' = ad_Used d"
  by (auto simp: decide_def Let_def split: if_splits option.splits sum.splits dest!: writeApproval_used)

lemma RequestNew_used: "RequestNew rnd now mk w a c cn h ttl d = (r, d') \<Longrightarrow> ad_Used d' = ad_Used d"
  by (auto simp: RequestNew_def Let_def split: if_splits option.splits prod.splits dest!: writeApproval_used)

lemma sweep_used: "expireOldPendingWithClock now ws d = (r, d') \<Longrightarrow> ad_Used d' = ad_Used d"
  by (auto simp: expireOldPendingWithClock_def split: option.splits approval_error.splits sum.splits
      prod.splits dest!: expire_tokens_used)

lemma verify_None:
  "verifyWithClock C now now' ok tok h pub d = (None, d') \<Longrightarrow>
     tok \<notin> set (ad_Used d) \<and> d' = d\<lparr>ad_Used := tok # ad_Used d\<rparr> \<and> h \<noteq> [] \<and>
     (\<exists>ar. readApproval d tok = Inr ar \<and> signatureValid C ar pub \<and> now \<le> ar_ExpiresAt ar \<and>
        ar_Status ar = StatusApproved \<and> ar_RequestHash ar = h \<and> ar_DecidedAt ar \<le> now' \<and>
        time_Sub now' (ar_DecidedAt ar) \<le> UseWindow)"
  by (auto simp: verifyWithClock_def consume_def split: if_splits sum.splits option.splits)

lemma verify_Some: "verifyWithClock C now now' ok tok h pub d = (Some e, d') \<Longrightarrow> d' = d"
  by (auto simp: verifyWithClock_def consume_def split: if_splits sum.splits option.splits)

lemma verify_used:
  assumes "verifyWithClock C now now' ok tok h pub d = (e, d')"
  shows "if e = None then tok \<notin> set (ad_Used d) \<and> ad_Used d' = tok # ad_Used d else d' = d"
  using assms verify_None verify_Some by (cases e) fastforce+

lemma approval_step_used:
  assumes "approval_step C d ev d'"
  shows "set (ad_Used d) \<subseteq> set (ad_Used d') \<and>
    (ev = Verified tok True \<longrightarrow> tok \<notin> set (ad_Used d) \<and> tok \<in> set (ad_Used d'))"
  using assms
  by (cases rule: approval_step.cases)
    (auto simp: ApproveWithReason_def DenyWithReason_def
      dest!: RequestNew_used decide_used sweep_used verify_used split: if_splits)

lemma approval_run_used:
  "approval_run C d evs d' \<Longrightarrow>
     length (filter (\<lambda>ev. ev = Verified tok True) evs) \<le> (if tok \<in> set (ad_Used d) then 0 else 1)"
proof (induction rule: approval_run.induct)
  case (run_Cons d ev d1 evs d')
  then show ?case using approval_step_used [OF run_Cons.hyps(1), of tok] by (auto split: if_splits)
qed simp

text \<open>Without tampering a decided or expired record is never touched again.\<close>

lemma writeApproval_other:
  "writeApproval w ar d = (e, d') \<Longrightarrow> ar_Token ar \<noteq> tok \<Longrightarrow>
     map_of (ad_Json d') tok = map_of (ad_Json d) tok"
  by (auto simp: writeApproval_def update_conv split: if_splits)

lemma readApproval_token: "readApproval d tok = Inr ar \<Longrightarrow> ar_Token ar = tok"
  by (auto simp: readApproval_def split: option.splits approval_entry.splits if_splits)

lemma readApproval_map_of:
  "readApproval d tok = Inr ar \<longleftrightarrow> map_of (ad_Json d) tok = Some (EntryRecord ar) \<and> ar_Token ar = tok"
  by (auto simp: readApproval_def split: option.splits approval_entry.splits if_splits)

definition settled :: "approvals_dir \<Rightarrow> gostring \<Rightarrow> approval_request \<Rightarrow> bool" where
  "settled d tok ar \<longleftrightarrow> readApproval d tok = Inr ar \<and>
     ar_Status ar \<in> {StatusApproved, StatusDenied, StatusExpired}"

lemma settled_same_entry:
  "settled d tok ar \<Longrightarrow> map_of (ad_Json d') tok = map_of (ad_Json d) tok \<Longrightarrow> settled d' tok ar"
  by (simp add: settled_def readApproval_map_of)

lemma expire_tokens_settled:
  "expire_tokens now ws toks d = (n, d') \<Longrightarrow> settled d tok ar \<Longrightarrow> settled d' tok ar"
proof (induction toks arbitrary: d n)
  case (Cons t toks)
  show ?case
  proof (cases "\<exists>ar'. readApproval d t = Inr ar' \<and> ar_Status ar' = StatusPending \<and> ar_ExpiresAt ar' < now")
    case False
    then have "expire_tokens now ws (t # toks) d = expire_tokens now ws toks d"
      by (auto split: sum.splits)
    with Cons.prems(1) have "expire_tokens now ws toks d = (n, d')" by (simp only:)
    with Cons show ?thesis by blast
  next
    case True
    then obtain ar' where ar': "readApproval d t = Inr ar'" "ar_Status ar' = StatusPending"
      "ar_ExpiresAt ar' < now" by blast
    obtain e d1 where w: "writeApproval (ws t)
        (ar'\<lparr>ar_Status := StatusExpired, ar_Note := ''auto-denied by TTL sweep''\<rparr>) d = (e, d1)" by fastforce
    have "t \<noteq> tok" using Cons.prems(2) ar' by (auto simp: settled_def)
    then have "settled d1 tok ar"
      using settled_same_entry [OF Cons.prems(2)] writeApproval_other [OF w] readApproval_token [OF ar'(1)]
      by simp
    moreover obtain m where "expire_tokens now ws toks d1 = (m, d')"
      using Cons.prems(1) ar' w by (auto split: option.splits prod.splits)
    ultimately show ?thesis using Cons.IH by blast
  qed
qed simp

lemma decide_settled:
  assumes "decide C now now' w t shown st reason key d = (e, d')" and "settled d tok ar"
  shows "settled d' tok ar"
proof (cases "t = tok")
  case True
  then have "d' = d"
    using assms by (auto simp: decide_def settled_def split: if_splits option.splits sum.splits)
  with assms(2) show ?thesis by simp
next
  case False
  have "map_of (ad_Json d') tok = map_of (ad_Json d) tok"
    using assms(1) False
    by (auto simp: decide_def Let_def dest!: readApproval_token
        split: if_splits option.splits sum.splits intro: writeApproval_other)
  with assms(2) show ?thesis by (rule settled_same_entry)
qed

lemma RequestNew_settled:
  assumes "RequestNew rnd now mk w a c cn h ttl d = (r, d')" and "settled d tok ar"
    and "\<And>ar'. r = Inr ar' \<Longrightarrow> ar_Token ar' \<noteq> tok"
  shows "settled d' tok ar"
proof -
  have "map_of (ad_Json d') tok = map_of (ad_Json d) tok"
    using assms(1,3)
    by (auto simp: RequestNew_def Let_def writeApproval_def update_conv
        split: if_splits option.splits prod.splits)
  with assms(2) show ?thesis by (rule settled_same_entry)
qed

lemma verify_settled:
  assumes "verifyWithClock C now now' ok t h pub d = (e, d')" and "settled d tok ar"
  shows "settled d' tok ar"
proof -
  have "ad_Json d' = ad_Json d"
    using assms(1) by (auto simp: verifyWithClock_def consume_def split: if_splits sum.splits option.splits)
  with assms(2) show ?thesis by (simp add: settled_def readApproval_def)
qed

lemma sweep_settled:
  "expireOldPendingWithClock now ws d = (r, d') \<Longrightarrow> settled d tok ar \<Longrightarrow> settled d' tok ar"
  by (auto simp: expireOldPendingWithClock_def split: option.splits approval_error.splits sum.splits
      prod.splits dest: expire_tokens_settled)

lemma approval_step_settled:
  assumes "approval_step C d ev d'" and "settled d tok ar" and "ev \<noteq> Tampered" and "ev \<noteq> Requested tok"
  shows "settled d' tok ar"
  using assms
  by (cases rule: approval_step.cases)
    (auto simp: ApproveWithReason_def DenyWithReason_def
      dest: decide_settled verify_settled sweep_settled intro: RequestNew_settled)

subsection \<open>Properties\<close>

text \<open>Sample values for the concrete instances.\<close>

definition sample_tok :: gostring where
  "sample_tok = ''apv_'' @ replicate 32 (CHR ''a'')"

definition unary_time :: "gotime \<Rightarrow> gostring" where
  "unary_time t = (if 0 \<le> t then replicate (nat t) (CHR ''p'') else replicate (nat (- t)) (CHR ''m''))"

definition sample_crypto :: approval_crypto where
  "sample_crypto = \<lparr>ac_Sign = (\<lambda>k m. replicate 64 (CHR ''s'')), ac_Verify = (\<lambda>p m s. s = replicate 64 (CHR ''s'')),
     ac_Base64 = (\<lambda>s. s), ac_Unbase64 = Some, ac_Digest = (\<lambda>_. ''digest''),
     ac_FormatTime = (\<lambda>_. ''t''), ac_Argon2 = (\<lambda>p s t m n. Some p),
     ac_KeyFromSeed = (\<lambda>s. s), ac_PublicOf = (\<lambda>k. replicate 32 (CHR ''k''))\<rparr>"

definition sample_pub :: gostring where "sample_pub = replicate 32 (CHR ''k'')"
definition sample_priv :: gostring where "sample_priv = replicate 64 (CHR ''k'')"

definition sample_request_record :: approval_request where
  "sample_request_record = \<lparr>ar_Token = sample_tok, ar_Actor = ''bob'', ar_Capability = ''use'',
     ar_Connection = ''db'', ar_RequestHash = ''h'', ar_Status = StatusPending, ar_ExpiresAt = 100,
     ar_CreatedAt = 0, ar_Note = [], ar_DecidedAt = zero_time, ar_Signature = []\<rparr>"

definition sample_dir :: approvals_dir where
  "sample_dir = \<lparr>ad_Root = RootOk, ad_Json = [(sample_tok, EntryRecord sample_request_record)],
     ad_ReaddirOk = True, ad_Used = []\<rparr>"

definition sample_approved :: approval_request where
  "sample_approved = sample_request_record\<lparr>ar_Status := StatusApproved, ar_DecidedAt := 5,
     ar_Signature := replicate 64 (CHR ''s'')\<rparr>"

definition sample_dir_approved :: approvals_dir where
  "sample_dir_approved = sample_dir\<lparr>ad_Json := [(sample_tok, EntryRecord sample_approved)]\<rparr>"

lemma sample_approve:
  "ApproveWithReason sample_crypto 4 5 WriteOk sample_tok ''digest'' [] sample_priv sample_dir =
     (None, sample_dir_approved)"
  by code_simp

lemma sample_verify:
  "verifyWithClock sample_crypto 6 6 True sample_tok ''h'' sample_pub sample_dir_approved =
     (None, sample_dir_approved\<lparr>ad_Used := [sample_tok]\<rparr>)"
  by code_simp

text \<open>C3: An approval is used at most once, in any run of the package's operations and of arbitrary
  changes to the request files.\<close>

theorem approval_single_use:
  assumes "approval_run C d evs d'"
  shows "length (filter (\<lambda>ev. ev = Verified tok True) evs) \<le> 1"
  using approval_run_used [OF assms, of tok] by (simp split: if_splits)

theorem approval_single_use_witness:
  "length (filter (\<lambda>ev. ev = Verified sample_tok True)
     [Decided sample_tok StatusApproved True, Verified sample_tok True, Tampered]) \<le> 1"
proof (rule approval_single_use)
  let ?d = "sample_dir_approved\<lparr>ad_Used := [sample_tok]\<rparr>"
  have "approval_step sample_crypto sample_dir (Decided sample_tok StatusApproved True) sample_dir_approved"
    using approval_step.approve [OF sample_approve] by simp
  moreover have "approval_step sample_crypto sample_dir_approved (Verified sample_tok True) ?d"
    using approval_step.verify [OF sample_verify] by simp
  moreover have "approval_step sample_crypto ?d Tampered (?d\<lparr>ad_Json := []\<rparr>)"
    by (rule approval_step.tamper)
  ultimately show "approval_run sample_crypto sample_dir
      [Decided sample_tok StatusApproved True, Verified sample_tok True, Tampered] (?d\<lparr>ad_Json := []\<rparr>)"
    by (auto intro: approval_run.intros)
qed

text \<open>C4: \<open>Verify\<close> succeeds only for a record that a decision signed under the approver key marks
  approved, bound to the request hash it is asked about, unexpired, decided at most 15 minutes
  ago, and not used before; and it leaves the use marker.\<close>

theorem approval_verify_sound:
  assumes "verifyWithClock C now now' ok tok h pub d = (None, d')"
  shows "\<exists>ar sig. readApproval d tok = Inr ar \<and> ac_Unbase64 C (ar_Signature ar) = Some sig \<and>
    ac_Verify C pub (decisionMessage C ar) sig \<and> ar_Status ar = StatusApproved \<and>
    ar_RequestHash ar = h \<and> h \<noteq> [] \<and> now \<le> ar_ExpiresAt ar \<and> ar_DecidedAt ar \<le> now' \<and>
    now' \<le> ar_DecidedAt ar + 15 * Minute \<and> tok \<notin> set (ad_Used d) \<and> tok \<in> set (ad_Used d')"
proof -
  from verify_None [OF assms] obtain ar where ar: "readApproval d tok = Inr ar" "signatureValid C ar pub"
    "now \<le> ar_ExpiresAt ar" "ar_Status ar = StatusApproved" "ar_RequestHash ar = h" "ar_DecidedAt ar \<le> now'"
    and win: "time_Sub now' (ar_DecidedAt ar) \<le> UseWindow"
    and used: "tok \<notin> set (ad_Used d)" "tok \<in> set (ad_Used d')" "h \<noteq> []" by auto
  have "now' - ar_DecidedAt ar \<le> 15 * Minute"
    using win by (simp add: time_Sub_le_iff UseWindow_def Minute_def Second_def min_int64_def max_int64_def)
  with ar used show ?thesis
    by (auto simp: signatureValid_def split: if_splits option.splits)
qed

theorem approval_verify_sound_witness:
  "\<exists>ar sig. readApproval sample_dir_approved sample_tok = Inr ar \<and>
    ac_Unbase64 sample_crypto (ar_Signature ar) = Some sig \<and>
    ac_Verify sample_crypto sample_pub (decisionMessage sample_crypto ar) sig \<and>
    ar_Status ar = StatusApproved \<and> ar_RequestHash ar = ''h'' \<and> ''h'' \<noteq> [] \<and> 6 \<le> ar_ExpiresAt ar \<and>
    ar_DecidedAt ar \<le> 6 \<and> 6 \<le> ar_DecidedAt ar + 15 * Minute \<and>
    sample_tok \<notin> set (ad_Used sample_dir_approved) \<and>
    sample_tok \<in> set (ad_Used (sample_dir_approved\<lparr>ad_Used := [sample_tok]\<rparr>))"
  by (rule approval_verify_sound [OF sample_verify])

text \<open>The signed text determines the decision: two records with the same decision message agree
  on the token, actor, capability, connection, request hash, status, note and the three times, for
  an injective time format. A signature cannot be moved to another request or status.\<close>

theorem decision_message_binds:
  assumes "decisionMessage C a = decisionMessage C b" and "inj (ac_FormatTime C)"
  shows "ar_Token a = ar_Token b \<and> ar_Actor a = ar_Actor b \<and> ar_Capability a = ar_Capability b \<and>
    ar_Connection a = ar_Connection b \<and> ar_RequestHash a = ar_RequestHash b \<and>
    ar_Status a = ar_Status b \<and> ar_Note a = ar_Note b \<and> ar_CreatedAt a = ar_CreatedAt b \<and>
    ar_ExpiresAt a = ar_ExpiresAt b \<and> ar_DecidedAt a = ar_DecidedAt b"
proof -
  define ks where "ks = [''token'', ''actor'', ''capability'', ''connection'', ''request_hash'', ''status'',
     ''note'', ''created_at'', ''expires_at'', ''decided_at'']"
  define vals where "vals = (\<lambda>r :: approval_request. [ar_Token r, ar_Actor r, ar_Capability r, ar_Connection r,
     ar_RequestHash r, ar_Status r, ar_Note r, ac_FormatTime C (ar_CreatedAt r),
     ac_FormatTime C (ar_ExpiresAt r), ac_FormatTime C (ar_DecidedAt r)])"
  have "decisionMessage C r = decisionDomain @ json_object (zip ks (vals r))" for r
    by (simp add: decisionMessage_def ks_def vals_def)
  with assms(1) have "json_object (zip ks (vals a)) = json_object (zip ks (vals b))" by simp
  then have "vals a = vals b"
    by (rule json_object_inject [rotated 2]) (simp_all add: ks_def vals_def)
  with assms(2) show ?thesis by (simp add: vals_def inj_eq)
qed

lemma unary_time_inj: "inj unary_time"
proof (rule injI)
  fix s t
  assume eq: "unary_time s = unary_time t"
  then have len: "length (unary_time s) = length (unary_time t)" by simp
  have "set (unary_time s) = set (unary_time t)" using eq by simp
  with len show "s = t"
    by (auto simp: unary_time_def set_replicate_conv_if split: if_splits)
qed

theorem decision_message_binds_witness:
  "ar_Token sample_approved = ar_Token (sample_approved\<lparr>ar_Signature := []\<rparr>) \<and>
    ar_Actor sample_approved = ar_Actor (sample_approved\<lparr>ar_Signature := []\<rparr>) \<and>
    ar_Capability sample_approved = ar_Capability (sample_approved\<lparr>ar_Signature := []\<rparr>) \<and>
    ar_Connection sample_approved = ar_Connection (sample_approved\<lparr>ar_Signature := []\<rparr>) \<and>
    ar_RequestHash sample_approved = ar_RequestHash (sample_approved\<lparr>ar_Signature := []\<rparr>) \<and>
    ar_Status sample_approved = ar_Status (sample_approved\<lparr>ar_Signature := []\<rparr>) \<and>
    ar_Note sample_approved = ar_Note (sample_approved\<lparr>ar_Signature := []\<rparr>) \<and>
    ar_CreatedAt sample_approved = ar_CreatedAt (sample_approved\<lparr>ar_Signature := []\<rparr>) \<and>
    ar_ExpiresAt sample_approved = ar_ExpiresAt (sample_approved\<lparr>ar_Signature := []\<rparr>) \<and>
    ar_DecidedAt sample_approved = ar_DecidedAt (sample_approved\<lparr>ar_Signature := []\<rparr>)"
  by (rule decision_message_binds [of "sample_crypto\<lparr>ac_FormatTime := unary_time\<rparr>"])
    (simp_all add: decisionMessage_def unary_time_inj)

text \<open>Without tampering, and as long as no new request draws its token, a record that is
  approved, denied or expired is never changed again: decisions are final.\<close>

theorem approval_decisions_final:
  assumes "approval_run C d evs d'" and "readApproval d tok = Inr ar"
    and "ar_Status ar \<in> {StatusApproved, StatusDenied, StatusExpired}"
    and "Tampered \<notin> set evs" and "Requested tok \<notin> set evs"
  shows "readApproval d' tok = Inr ar"
proof -
  have "settled d tok ar" using assms(2,3) by (simp add: settled_def)
  with assms(1,4,5) have "settled d' tok ar"
    by (induction rule: approval_run.induct) (auto dest: approval_step_settled)
  then show ?thesis by (simp add: settled_def)
qed

theorem approval_decisions_final_witness:
  "readApproval (sample_dir_approved\<lparr>ad_Used := [sample_tok]\<rparr>) sample_tok = Inr sample_approved"
proof (rule approval_decisions_final)
  show "approval_run sample_crypto sample_dir_approved [Verified sample_tok True]
      (sample_dir_approved\<lparr>ad_Used := [sample_tok]\<rparr>)"
    using approval_step.verify [OF sample_verify] by (auto intro: approval_run.intros)
  show "readApproval sample_dir_approved sample_tok = Inr sample_approved" by code_simp
qed (simp_all add: sample_approved_def)

text \<open>What the approver approved can be used: after a successful \<open>Approve\<close> under a key whose
  public half is \<open>pub\<close>, \<open>Verify\<close> accepts the token for the recorded request hash within the
  window, for a signature scheme and encoding that round-trip.\<close>

theorem approval_approve_verify:
  assumes "ApproveWithReason C now now' w tok shown reason key d = (None, d')"
    and "readApproval d tok = Inr ar" and "ar_RequestHash ar = h" and "h \<noteq> []"
    and "\<forall>m. ac_Verify C pub m (ac_Sign C key m) \<and> length (ac_Sign C key m) = 64"
    and "\<forall>s. ac_Unbase64 C (ac_Base64 C s) = Some s \<and> (s \<noteq> [] \<longrightarrow> ac_Base64 C s \<noteq> [])"
    and "length pub = 32" and "tok \<notin> set (ad_Used d)"
    and "t \<le> ar_ExpiresAt ar" and "now' \<le> t'" and "t' \<le> now' + 15 * Minute"
  shows "\<exists>d''. verifyWithClock C t t' True tok h pub d' = (None, d'')"
proof -
  define ar1 where "ar1 = ar\<lparr>ar_Status := StatusApproved,
    ar_Note := (if reason \<noteq> [] then reason else ar_Note ar), ar_DecidedAt := now'\<rparr>"
  define ar2 where "ar2 = ar1\<lparr>ar_Signature := ac_Base64 C (ac_Sign C key (decisionMessage C ar1))\<rparr>"
  have tk: "ar_Token ar = tok" using readApproval_token [OF assms(2)] .
  have valid: "ValidToken tok" and root: "openRoot d = None" and wr: "writeApproval w ar2 d = (None, d')"
    using assms(1,2)
    by (auto simp: ApproveWithReason_def decide_def Let_def ar1_def ar2_def split: if_splits option.splits)
  have d': "d' = d\<lparr>ad_Json := AList.update tok (EntryRecord ar2) (ad_Json d)\<rparr>"
    using wr tk by (auto simp: writeApproval_def ar2_def ar1_def split: if_splits)
  have rd: "readApproval d' tok = Inr ar2"
    using d' tk by (simp add: readApproval_map_of update_conv ar2_def ar1_def)
  have msg: "decisionMessage C ar2 = decisionMessage C ar1" by (simp add: decisionMessage_def ar2_def)
  have "ac_Sign C key (decisionMessage C ar1) \<noteq> []" using assms(5) by (metis list.size(3) zero_neq_numeral)
  then have sig: "signatureValid C ar2 pub"
    unfolding signatureValid_def msg using assms(5,6,7) by (simp add: ar2_def)
  have "time_Sub t' now' \<le> UseWindow"
    using assms(11) by (simp add: time_Sub_le_iff UseWindow_def Minute_def Second_def min_int64_def max_int64_def)
  moreover have "openRoot d' = None" using root d' by (simp add: openRoot_def)
  ultimately show ?thesis
    using valid rd sig assms(3,4,8,9,10) d'
    by (simp add: verifyWithClock_def consume_def ar2_def ar1_def)
qed

theorem approval_approve_verify_witness:
  "\<exists>d''. verifyWithClock sample_crypto 6 6 True sample_tok ''h'' sample_pub sample_dir_approved = (None, d'')"
proof (rule approval_approve_verify [OF sample_approve])
  show "readApproval sample_dir sample_tok = Inr sample_request_record" by code_simp
qed (simp_all add: sample_request_record_def sample_crypto_def sample_pub_def sample_dir_def Minute_def Second_def)

text \<open>The approver credential round-trips: the key a passphrase makes is unlocked by that
  passphrase, and every key \<open>Unlock\<close> returns has the stored public half.\<close>

theorem approver_key_unlock:
  assumes "NewApproverKey C rnd pw params = Inr (k, priv)"
    and "\<forall>s. ac_Unbase64 C (ac_Base64 C s) = Some s" and "length (ac_PublicOf C priv) = 32"
  shows "Unlock C k pw = Inr priv \<and> (\<forall>pw' priv'. Unlock C k pw' = Inr priv' \<longrightarrow> ac_PublicOf C priv' = ac_PublicOf C priv)"
proof -
  obtain k0 where k0: "approver_derive C k0 pw = Inr priv"
    and k: "k = k0\<lparr>ak_PublicKey := ac_Base64 C (ac_PublicOf C priv)\<rparr>"
    using assms(1) by (auto simp: NewApproverKey_def Let_def split: if_splits option.splits sum.splits)
  have "approver_derive C k pw' = approver_derive C k0 pw'" for pw'
    by (simp add: k approver_derive_def split: option.split)
  moreover have "approver_Public C k = Inr (ac_PublicOf C priv)"
    using assms(2,3) by (simp add: k approver_Public_def)
  ultimately show ?thesis using k0 by (auto simp: Unlock_def split: sum.splits if_splits)
qed

theorem approver_key_unlock_witness:
  "\<exists>k priv. NewApproverKey sample_crypto (Some sample_tok) sample_tok \<lparr>kp_Time = 1, kp_Memory = 1, kp_Threads = 1\<rparr> =
      Inr (k, priv) \<and> Unlock sample_crypto k sample_tok = Inr priv"
proof -
  obtain k priv where k: "NewApproverKey sample_crypto (Some sample_tok) sample_tok
      \<lparr>kp_Time = 1, kp_Memory = 1, kp_Threads = 1\<rparr> = Inr (k, priv)"
    by (simp add: NewApproverKey_def approver_derive_def sample_crypto_def sample_tok_def
        MinPassphraseLen_def maxKDFTime_def maxKDFMemoryKiB_def)
  have "Unlock sample_crypto k sample_tok = Inr priv"
    using approver_key_unlock [OF k] by (simp add: sample_crypto_def)
  with k show ?thesis by blast
qed

end
