(* ===== verification/Keyring.thy ===== *)
theory Keyring
  imports KL_Prelude
begin

section \<open>The keyring (\<open>internal/crypto/keyring\<close>)\<close>

text \<open>
  The keyring file with its wrapped data-encryption keys and AES-GCM nonce counters:
  \<open>types.go\<close>, \<open>io.go\<close> (\<open>loadFile\<close>, \<open>saveFile\<close>), \<open>keyring.go\<close> (\<open>Open\<close>, \<open>ActiveDEK\<close>,
  \<open>DEKForTerm\<close>, the nonce encoding), \<open>gcm_nonce.go\<close> (leases and \<open>NextGCMNonce\<close>) and
  \<open>lifecycle.go\<close> (\<open>New\<close>, \<open>RotateTerm\<close>, \<open>RotateKEK\<close>, \<open>DestroyTerm\<close>). An open keyring is a record
  of the in-memory state; an operation takes it and the disk and returns both, also when it
  fails half way, because the source mutates its receiver in place. Key-encryption keys are the
  functions of the record \<open>kek\<close>. Counters are 64-bit words; term numbers start at 1, grow by one
  per rotation and are integers. Every operation runs under the process's mutex and, when it
  touches the disk, under the one lock file, so one operation is one step of the system.
\<close>

subsection \<open>Data\<close>

datatype algorithm = XChaCha20Poly1305 | AES256GCM | OtherAlgorithm gostring

datatype term_status = TermActive | TermRotating | TermRetired | TermDestroyed | TermOther gostring

record term_record =
  tr_Term :: int
  tr_Status :: term_status
  tr_WrappedDEK :: gostring
  tr_CreatedAt :: gostring
  tr_KEKType :: gostring

text \<open>A nil counter map is the empty map.\<close>

record gcm_state =
  gm_PerTerm :: "int \<rightharpoonup> uint64"
  gm_LeaseSize :: uint64

record kdf_params =
  ka_Time :: nat
  ka_Memory :: nat
  ka_Threads :: nat
  ka_Salt :: gostring
  ka_KeyLen :: nat

record root_record =
  ro_Spec :: gostring
  ro_WrappedDEKs :: "(int \<times> gostring) list"

record keyring_file =
  kf_SchemaVersion :: int
  kf_Algorithm :: algorithm
  kf_ActiveTerm :: int
  kf_Roots :: "root_record list"
  kf_ApprovalChain :: "gostring list"
  kf_KEKType :: gostring
  kf_Salt :: gostring
  kf_Argon2 :: "kdf_params option"
  kf_KEKID :: gostring
  kf_Terms :: "term_record list"
  kf_GCMState :: "gcm_state option"
  kf_Extra :: gostring

datatype keyring_error =
    ErrKeyringCorrupt | ErrKeyringNotFound | ErrKeyTermNotFound | ErrKeyTermDestroyed
  | ErrKeyTermExhausted | ErrNonceCounterFlushFailed | ErrKEKMismatch
  | FlockFails | GCMNotInitialized | OnlyGCM | DEKRandFails | WrapFails | DEKNotInMemory int
  | DestroyActive int | AlreadyDestroyed int | SaveFails | EmptySalt

record nonce_lease =
  le_term :: int
  le_current :: uint64
  le_end :: uint64
  le_valid :: bool

record keyring =
  kr_file :: keyring_file
  kr_deks :: "int \<rightharpoonup> gostring"
  kr_lease :: nonce_lease

record kek =
  kk_Wrap :: "gostring \<Rightarrow> gostring option"
  kk_Unwrap :: "gostring \<Rightarrow> gostring option"
  kk_Type :: gostring

record keyring_disk =
  kd_Content :: "keyring_file jsonfile"
  kd_Mode :: nat

subsection \<open>Files\<close>

definition keyring_SchemaVersion :: int where "keyring_SchemaVersion = 2"

definition loadFile :: "keyring_disk \<Rightarrow> keyring_error + keyring_file" where
  "loadFile D =
    (case kd_Content D of
       Absent \<Rightarrow> Inl ErrKeyringNotFound
     | c \<Rightarrow>
        if kd_Mode D \<noteq> 384 then Inl ErrKeyringCorrupt
        else (case c of
                Holds kf \<Rightarrow>
                  if kf_SchemaVersion kf < 1 \<or> kf_SchemaVersion kf > keyring_SchemaVersion
                  then Inl ErrKeyringCorrupt else Inr kf
              | _ \<Rightarrow> Inl ErrKeyringCorrupt))"

text \<open>\<open>atomicWrite\<close> leaves the old file or the new one; \<open>ok\<close> says which.\<close>

definition saveFile :: "bool \<Rightarrow> keyring_file \<Rightarrow> keyring_disk \<Rightarrow> bool \<times> keyring_disk" where
  "saveFile ok kf D = (if ok then (True, D\<lparr>kd_Content := Holds kf, kd_Mode := 384\<rparr>) else (False, D))"

subsection \<open>Opening and reading\<close>

definition no_lease :: nonce_lease where
  "no_lease = \<lparr>le_term = 0, le_current = 0, le_end = 0, le_valid = False\<rparr>"

definition legacy_kek_types :: "gostring list" where
  "legacy_kek_types = [''passphrase'', ''keychain'', ''op'', ''bw'', ''age-env'']"

fun unwrap_terms :: "kek \<Rightarrow> term_record list \<Rightarrow> (int \<rightharpoonup> gostring) \<Rightarrow> (int \<rightharpoonup> gostring) \<times> bool" where
  "unwrap_terms k [] deks = (deks, False)"
| "unwrap_terms k (t # ts) deks =
    (if tr_Status t = TermDestroyed then unwrap_terms k ts deks
     else (case kk_Unwrap k (tr_WrappedDEK t) of
             None \<Rightarrow> unwrap_terms k ts deks
           | Some dek \<Rightarrow> (fst (unwrap_terms k ts (deks(tr_Term t \<mapsto> dek))), True)))"

definition keyring_Open :: "kek \<Rightarrow> keyring_disk \<Rightarrow> keyring_error + keyring" where
  "keyring_Open k D =
    (case loadFile D of Inl e \<Rightarrow> Inl e
     | Inr kf \<Rightarrow>
        if kf_SchemaVersion kf = 1 \<and> kf_KEKType kf \<notin> set legacy_kek_types then Inl ErrKeyringCorrupt
        else (let (deks, anyUnwrapped) = unwrap_terms k (kf_Terms kf) Map.empty in
              if \<not> anyUnwrapped then Inl ErrKEKMismatch
              else Inr \<lparr>kr_file = kf, kr_deks = deks, kr_lease = no_lease\<rparr>))"

definition ActiveDEK :: "keyring \<Rightarrow> keyring_error + gostring \<times> int" where
  "ActiveDEK kr =
    (let t = kf_ActiveTerm (kr_file kr) in
     case kr_deks kr t of None \<Rightarrow> Inl ErrKeyTermNotFound | Some dek \<Rightarrow> Inr (dek, t))"

definition DEKForTerm :: "keyring \<Rightarrow> int \<Rightarrow> keyring_error + gostring" where
  "DEKForTerm kr t =
    (if list_ex (\<lambda>tr. tr_Term tr = t \<and> tr_Status tr = TermDestroyed) (kf_Terms (kr_file kr))
     then Inl ErrKeyTermDestroyed
     else (case kr_deks kr t of None \<Rightarrow> Inl ErrKeyTermNotFound | Some dek \<Rightarrow> Inr dek))"

definition keyring_Zero :: "keyring \<Rightarrow> keyring" where
  "keyring_Zero kr = kr\<lparr>kr_deks := (\<lambda>t. map_option (map (\<lambda>_. char_of (0 :: nat))) (kr_deks kr t))\<rparr>"

subsection \<open>Nonces\<close>

text \<open>The \<open>n\<close> low bytes of a word, most significant first.\<close>

definition big_endian :: "nat \<Rightarrow> 'a::len word \<Rightarrow> 8 word list" where
  "big_endian n w = map (\<lambda>i. ucast (drop_bit (8 * i) w)) (rev [0..<n])"

definition encodeGCMNonce :: "int \<Rightarrow> uint64 \<Rightarrow> 8 word list" where
  "encodeGCMNonce t counter = big_endian 4 (word_of_int t :: 32 word) @ big_endian 8 counter"

definition lease_exhausted :: "nonce_lease \<Rightarrow> int \<Rightarrow> bool" where
  "lease_exhausted l t = (\<not> le_valid l \<or> le_term l \<noteq> t \<or> le_current l \<ge> le_end l)"

definition max_uint64 :: uint64 where "max_uint64 = - 1"

definition merge_counter :: "uint64 option \<Rightarrow> uint64 option \<Rightarrow> uint64 option" where
  "merge_counter prev disk =
    (case prev of None \<Rightarrow> disk
     | Some c \<Rightarrow> if c > (case disk of None \<Rightarrow> 0 | Some d \<Rightarrow> d) then Some c else disk)"

definition mergeGCMCounters :: "gcm_state option \<Rightarrow> gcm_state option \<Rightarrow> gcm_state option" where
  "mergeGCMCounters prev disk =
    (case disk of None \<Rightarrow> prev
     | Some dg \<Rightarrow>
        (case prev of None \<Rightarrow> Some dg
         | Some pg \<Rightarrow> Some \<lparr>gm_PerTerm = (\<lambda>t. merge_counter (gm_PerTerm pg t) (gm_PerTerm dg t)),
                           gm_LeaseSize = gm_LeaseSize dg\<rparr>))"

text \<open>The reload every writer starts with.\<close>

definition reload :: "keyring \<Rightarrow> keyring_file \<Rightarrow> keyring" where
  "reload kr kf = kr\<lparr>kr_file := kf\<lparr>kf_GCMState := mergeGCMCounters (kf_GCMState (kr_file kr)) (kf_GCMState kf)\<rparr>\<rparr>"

definition set_counter :: "keyring \<Rightarrow> gcm_state \<Rightarrow> int \<Rightarrow> uint64 \<Rightarrow> keyring" where
  "set_counter kr g t c =
    kr\<lparr>kr_file := (kr_file kr)\<lparr>kf_GCMState := Some (g\<lparr>gm_PerTerm := (gm_PerTerm g)(t \<mapsto> c)\<rparr>)\<rparr>\<rparr>"

definition lease_end :: "uint64 \<Rightarrow> uint64 \<Rightarrow> uint64" where
  "lease_end leaseSize diskCounter =
    (if leaseSize > 0 then
       (if diskCounter > max_uint64 - leaseSize then max_uint64 else diskCounter + leaseSize)
     else diskCounter + 1)"

text \<open>
  \<open>lock_ok\<close> and \<open>save_ok\<close> are the outcomes of taking the lock and of the flush.
\<close>

definition NextGCMNonce ::
  "bool \<Rightarrow> bool \<Rightarrow> int \<Rightarrow> keyring \<Rightarrow> keyring_disk \<Rightarrow> (keyring_error + 8 word list) \<times> keyring \<times> keyring_disk" where
  "NextGCMNonce lock_ok save_ok t kr D =
    (if \<not> lease_exhausted (kr_lease kr) t then
       (Inr (encodeGCMNonce t (le_current (kr_lease kr))),
        kr\<lparr>kr_lease := (kr_lease kr)\<lparr>le_current := le_current (kr_lease kr) + 1\<rparr>\<rparr>, D)
     else if \<not> lock_ok then (Inl FlockFails, kr, D)
     else (case loadFile D of Inl e \<Rightarrow> (Inl e, kr, D)
       | Inr kf \<Rightarrow>
          (let kr1 = reload kr kf in
           case kf_GCMState (kr_file kr1) of None \<Rightarrow> (Inl GCMNotInitialized, kr1, D)
           | Some g \<Rightarrow>
             (case gm_PerTerm g t of None \<Rightarrow> (Inl ErrKeyTermNotFound, kr1, D)
              | Some diskCounter \<Rightarrow>
                  if diskCounter = max_uint64 then (Inl ErrKeyTermExhausted, kr1, D)
                  else (let leaseEnd = lease_end (gm_LeaseSize g) diskCounter;
                            kr2 = set_counter kr1 g t leaseEnd;
                            (ok, D') = saveFile save_ok (kr_file kr2) D in
                        if \<not> ok then (Inl ErrNonceCounterFlushFailed, set_counter kr2 g t diskCounter, D')
                        else (Inr (encodeGCMNonce t diskCounter),
                              kr2\<lparr>kr_lease := \<lparr>le_term = t, le_current = diskCounter + 1,
                                              le_end = leaseEnd, le_valid = True\<rparr>\<rparr>, D'))))))"

definition keyring_Next ::
  "bool \<Rightarrow> bool \<Rightarrow> algorithm \<Rightarrow> int \<Rightarrow> keyring \<Rightarrow> keyring_disk \<Rightarrow>
     (keyring_error + 8 word list) \<times> keyring \<times> keyring_disk" where
  "keyring_Next lock_ok save_ok alg t kr D =
    (if alg \<noteq> AES256GCM then (Inl OnlyGCM, kr, D) else NextGCMNonce lock_ok save_ok t kr D)"

subsection \<open>Lifecycle\<close>

definition retire :: "term_record \<Rightarrow> term_record" where
  "retire t = (if tr_Status t = TermActive then t\<lparr>tr_Status := TermRetired\<rparr> else t)"

text \<open>\<open>rnd\<close> is the fresh key, \<open>at\<close> the formatted time.\<close>

definition rotated_file :: "kek \<Rightarrow> gostring \<Rightarrow> gostring \<Rightarrow> keyring_file \<Rightarrow> keyring_file" where
  "rotated_file kk wrapped at kf =
    (let newTerm = kf_ActiveTerm kf + 1 in
     kf\<lparr>kf_Terms := map retire (kf_Terms kf) @
          [\<lparr>tr_Term = newTerm, tr_Status = TermActive, tr_WrappedDEK = wrapped, tr_CreatedAt = at,
            tr_KEKType = kk_Type kk\<rparr>],
        kf_ActiveTerm := newTerm,
        kf_GCMState := map_option (\<lambda>g. g\<lparr>gm_PerTerm := (gm_PerTerm g)(newTerm \<mapsto> 0)\<rparr>) (kf_GCMState kf)\<rparr>)"

definition RotateTerm ::
  "bool \<Rightarrow> bool \<Rightarrow> gostring option \<Rightarrow> gostring \<Rightarrow> kek \<Rightarrow> keyring \<Rightarrow> keyring_disk \<Rightarrow>
     (keyring_error + int) \<times> keyring \<times> keyring_disk" where
  "RotateTerm lock_ok save_ok rnd at kk kr D =
    (if \<not> lock_ok then (Inl FlockFails, kr, D)
     else (case loadFile D of Inl e \<Rightarrow> (Inl e, kr, D)
       | Inr kf \<Rightarrow>
          (let kr1 = reload kr kf in
           case rnd of None \<Rightarrow> (Inl DEKRandFails, kr1, D)
           | Some newDEK \<Rightarrow>
             (case kk_Wrap kk newDEK of None \<Rightarrow> (Inl WrapFails, kr1, D)
              | Some wrapped \<Rightarrow>
                 (let newTerm = kf_ActiveTerm (kr_file kr1) + 1;
                      kr2 = kr1\<lparr>kr_file := rotated_file kk wrapped at (kr_file kr1)\<rparr>;
                      (ok, D') = saveFile save_ok (kr_file kr2) D in
                  if \<not> ok then (Inl SaveFails, kr2, D')
                  else (Inr newTerm, kr2\<lparr>kr_deks := (kr_deks kr2)(newTerm \<mapsto> newDEK)\<rparr>, D'))))))"

fun rewrap_terms ::
  "kek \<Rightarrow> (int \<rightharpoonup> gostring) \<Rightarrow> term_record list \<Rightarrow> keyring_error option \<times> term_record list" where
  "rewrap_terms kk deks [] = (None, [])"
| "rewrap_terms kk deks (t # ts) =
    (if tr_Status t = TermDestroyed then
       (let (e, ts') = rewrap_terms kk deks ts in (e, t # ts'))
     else (case deks (tr_Term t) of
             None \<Rightarrow> (Some (DEKNotInMemory (tr_Term t)), t # ts)
           | Some dek \<Rightarrow>
              (case kk_Wrap kk dek of
                 None \<Rightarrow> (Some WrapFails, t # ts)
               | Some newWrapped \<Rightarrow>
                  (let (e, ts') = rewrap_terms kk deks ts in
                   (e, t\<lparr>tr_WrappedDEK := newWrapped, tr_KEKType := kk_Type kk\<rparr> # ts')))))"

definition RotateKEK ::
  "bool \<Rightarrow> bool \<Rightarrow> kek \<Rightarrow> keyring \<Rightarrow> keyring_disk \<Rightarrow> keyring_error option \<times> keyring \<times> keyring_disk" where
  "RotateKEK lock_ok save_ok newKEK kr D =
    (if \<not> lock_ok then (Some FlockFails, kr, D)
     else (case loadFile D of Inl e \<Rightarrow> (Some e, kr, D)
       | Inr kf \<Rightarrow>
          (let kr1 = reload kr kf;
               (e, ts) = rewrap_terms newKEK (kr_deks kr1) (kf_Terms (kr_file kr1));
               kr2 = kr1\<lparr>kr_file := (kr_file kr1)\<lparr>kf_Terms := ts\<rparr>\<rparr> in
           case e of Some err \<Rightarrow> (Some err, kr2, D)
           | None \<Rightarrow>
              (let kr3 = kr2\<lparr>kr_file := (kr_file kr2)\<lparr>kf_KEKType := kk_Type newKEK\<rparr>\<rparr>;
                   (ok, D') = saveFile save_ok (kr_file kr3) D in
               if \<not> ok then (Some SaveFails, kr3, D') else (None, kr3, D')))))"

fun destroy_in :: "int \<Rightarrow> term_record list \<Rightarrow> keyring_error + term_record list" where
  "destroy_in n [] = Inl ErrKeyTermNotFound"
| "destroy_in n (t # ts) =
    (if tr_Term t = n then
       (if tr_Status t = TermDestroyed then Inl (AlreadyDestroyed n)
        else Inr (t\<lparr>tr_Status := TermDestroyed, tr_WrappedDEK := []\<rparr> # ts))
     else (case destroy_in n ts of Inl e \<Rightarrow> Inl e | Inr ts' \<Rightarrow> Inr (t # ts')))"

definition DestroyTerm ::
  "bool \<Rightarrow> bool \<Rightarrow> int \<Rightarrow> keyring \<Rightarrow> keyring_disk \<Rightarrow> keyring_error option \<times> keyring \<times> keyring_disk" where
  "DestroyTerm lock_ok save_ok n kr D =
    (if \<not> lock_ok then (Some FlockFails, kr, D)
     else (case loadFile D of Inl e \<Rightarrow> (Some e, kr, D)
       | Inr kf \<Rightarrow>
          (let kr1 = reload kr kf in
           if kf_ActiveTerm (kr_file kr1) = n then (Some (DestroyActive n), kr1, D)
           else (case destroy_in n (kf_Terms (kr_file kr1)) of
                   Inl e \<Rightarrow> (Some e, kr1, D)
                 | Inr ts \<Rightarrow>
                    (let kr2 = kr1\<lparr>kr_file := (kr_file kr1)\<lparr>kf_Terms := ts\<rparr>,
                                   kr_deks := (kr_deks kr1)(n := None)\<rparr>;
                         (ok, D') = saveFile save_ok (kr_file kr2) D in
                     if \<not> ok then (Some SaveFails, kr2, D') else (None, kr2, D'))))))"

definition new_file :: "kek \<Rightarrow> gostring \<Rightarrow> gostring \<Rightarrow> gostring \<Rightarrow> algorithm \<Rightarrow> uint64 \<Rightarrow> keyring_file" where
  "new_file kk wrapped salt at alg lease =
    \<lparr>kf_SchemaVersion = keyring_SchemaVersion, kf_Algorithm = alg, kf_ActiveTerm = 1, kf_Roots = [],
     kf_ApprovalChain = [], kf_KEKType = kk_Type kk, kf_Salt = salt, kf_Argon2 = None, kf_KEKID = [],
     kf_Terms = [\<lparr>tr_Term = 1, tr_Status = TermActive, tr_WrappedDEK = wrapped, tr_CreatedAt = at,
                  tr_KEKType = kk_Type kk\<rparr>],
     kf_GCMState = (if alg = AES256GCM
        then Some \<lparr>gm_PerTerm = [1 \<mapsto> 0], gm_LeaseSize = lease\<rparr> else None),
     kf_Extra = []\<rparr>"

definition keyring_New ::
  "gostring option \<Rightarrow> gostring option \<Rightarrow> gostring \<Rightarrow> bool \<Rightarrow> kek \<Rightarrow> algorithm \<Rightarrow> uint64 \<Rightarrow> keyring_disk \<Rightarrow>
     keyring_error option \<times> keyring_disk" where
  "keyring_New rnd salt at save_ok kk alg lease D =
    (case rnd of None \<Rightarrow> (Some DEKRandFails, D)
     | Some dek \<Rightarrow>
        (case kk_Wrap kk dek of None \<Rightarrow> (Some WrapFails, D)
         | Some wrapped \<Rightarrow>
            (case salt of None \<Rightarrow> (Some DEKRandFails, D)
             | Some s \<Rightarrow>
                (let (ok, D') = saveFile save_ok (new_file kk wrapped s at alg lease) D in
                 if \<not> ok then (Some SaveFails, D') else (None, D')))))"

definition NewWithSalt ::
  "gostring option \<Rightarrow> gostring \<Rightarrow> gostring \<Rightarrow> bool \<Rightarrow> kek \<Rightarrow> algorithm \<Rightarrow> uint64 \<Rightarrow> keyring_disk \<Rightarrow>
     keyring_error option \<times> keyring_disk" where
  "NewWithSalt rnd salt at save_ok kk alg lease D =
    (if length salt = 0 then (Some EmptySalt, D)
     else (case rnd of None \<Rightarrow> (Some DEKRandFails, D)
       | Some dek \<Rightarrow>
          (case kk_Wrap kk dek of None \<Rightarrow> (Some WrapFails, D)
           | Some wrapped \<Rightarrow>
              (let (ok, D') = saveFile save_ok (new_file kk wrapped salt at alg lease) D in
               if \<not> ok then (Some SaveFails, D') else (None, D')))))"

subsection \<open>Nonce encoding\<close>

lemma big_endian_nth:
  "i < n \<Longrightarrow> big_endian n w ! (n - Suc i) = ucast (drop_bit (8 * i) w)"
  by (simp add: big_endian_def rev_nth)

lemma big_endian_inject:
  fixes v w :: "'a::len word"
  assumes "big_endian n v = big_endian n w" and "LENGTH('a) \<le> 8 * n"
  shows "v = w"
proof (rule bit_word_eqI)
  fix k
  assume k: "k < LENGTH('a)"
  then have i: "k div 8 < n" using assms(2) by (simp add: less_mult_imp_div_less)
  have "(ucast (drop_bit (8 * (k div 8)) v) :: 8 word) = ucast (drop_bit (8 * (k div 8)) w)"
    using big_endian_nth [OF i, of v] big_endian_nth [OF i, of w] assms(1) by simp
  then have "bit (ucast (drop_bit (8 * (k div 8)) v) :: 8 word) (k mod 8) =
      bit (ucast (drop_bit (8 * (k div 8)) w) :: 8 word) (k mod 8)" by simp
  then show "bit v k = bit w k" by (simp add: bit_ucast_iff bit_drop_bit_eq)
qed

lemma encodeGCMNonce_inject: "encodeGCMNonce t c = encodeGCMNonce t d \<longleftrightarrow> c = d"
  by (auto simp: encodeGCMNonce_def intro: big_endian_inject)

lemma encodeGCMNonce_length: "length (encodeGCMNonce t c) = 12"
  by (simp add: encodeGCMNonce_def big_endian_def)

subsection \<open>Counter arithmetic\<close>

lemma uint_bound: "uint (m :: uint64) \<le> 2 ^ 64 - 1"
  using uint_lt2p [of m] by simp

lemma uint_max: "uint max_uint64 = 2 ^ 64 - 1"
  by (simp add: max_uint64_def uint_word_ariths)

lemma below_max: "m \<noteq> max_uint64 \<longleftrightarrow> uint m < 2 ^ 64 - 1"
  using uint_bound [of m] uint_max by (metis order_less_le word_uint_eqI)

lemma uint_succ: "m \<noteq> max_uint64 \<Longrightarrow> uint (m + 1) = uint m + 1"
  using below_max [of m] by (simp add: uint_word_ariths)

lemma below_succ: "m \<noteq> max_uint64 \<Longrightarrow> c < m + 1 \<longleftrightarrow> c < m \<or> c = m"
  using uint_succ [of m] by (auto simp: word_less_def word_uint_eq_iff)

lemma less_not_max: "c < m \<Longrightarrow> c \<noteq> max_uint64"
  using uint_bound [of m] by (auto simp: below_max word_less_def)

lemma succ_le: "c < (m :: uint64) \<Longrightarrow> c + 1 \<le> m"
  using uint_succ [OF less_not_max [of c m]] by (simp add: word_less_def word_le_def)

lemma less_succ: "c < (m :: uint64) \<Longrightarrow> c < c + 1"
  using uint_succ [OF less_not_max [of c m]] by (simp add: word_less_def)

lemma lease_end_greater:
  assumes "m \<noteq> max_uint64"
  shows "m < lease_end ls m"
proof (cases "0 < ls \<and> m \<le> max_uint64 - ls")
  case True
  have "(2 ^ 64 - 1 - uint ls) mod 2 ^ 64 = 2 ^ 64 - 1 - uint ls"
    by (rule mod_pos_pos_trivial) (use uint_bound [of ls] uint_ge_0 [of ls] in linarith)+
  then have "uint (max_uint64 - ls) = 2 ^ 64 - 1 - uint ls"
    using uint_max by (simp add: uint_word_ariths)
  with True have "uint m + uint ls \<le> 2 ^ 64 - 1" by (simp add: word_le_def)
  then have "uint (m + ls) = uint m + uint ls" by (simp add: uint_word_ariths)
  with True show ?thesis by (auto simp: lease_end_def word_less_def word_le_def)
next
  case False
  then show ?thesis using assms below_succ [OF assms, of m] below_max [of m] uint_max
    by (auto simp: lease_end_def word_less_def word_le_def)
qed

subsection \<open>Processes sharing a keyring\<close>

text \<open>
  Any number of processes, each with at most one open keyring, and the file they share. A
  step reports the term and the nonce it hands out, if any.
\<close>

record keyring_system =
  ks_Disk :: keyring_disk
  ks_Procs :: "nat \<rightharpoonup> keyring"

definition put_proc :: "keyring_system \<Rightarrow> nat \<Rightarrow> keyring \<Rightarrow> keyring_disk \<Rightarrow> keyring_system" where
  "put_proc S p kr D = S\<lparr>ks_Disk := D, ks_Procs := (ks_Procs S)(p \<mapsto> kr)\<rparr>"

inductive keyring_step ::
  "keyring_system \<Rightarrow> (int \<times> 8 word list) option \<Rightarrow> keyring_system \<Rightarrow> bool" where
  proc_open: "keyring_Open k (ks_Disk S) = Inr kr \<Longrightarrow> keyring_step S None (put_proc S p kr (ks_Disk S))"
| proc_nonce: "ks_Procs S p = Some kr \<Longrightarrow> NextGCMNonce l s t kr (ks_Disk S) = (Inr n, kr', D') \<Longrightarrow>
     keyring_step S (Some (t, n)) (put_proc S p kr' D')"
| proc_nonce_fails: "ks_Procs S p = Some kr \<Longrightarrow> NextGCMNonce l s t kr (ks_Disk S) = (Inl e, kr', D') \<Longrightarrow>
     keyring_step S None (put_proc S p kr' D')"
| proc_rotate: "ks_Procs S p = Some kr \<Longrightarrow> RotateTerm l s rnd at kk kr (ks_Disk S) = (r, kr', D') \<Longrightarrow>
     keyring_step S None (put_proc S p kr' D')"
| proc_rotate_kek: "ks_Procs S p = Some kr \<Longrightarrow> RotateKEK l s kk kr (ks_Disk S) = (r, kr', D') \<Longrightarrow>
     keyring_step S None (put_proc S p kr' D')"
| proc_destroy: "ks_Procs S p = Some kr \<Longrightarrow> DestroyTerm l s n kr (ks_Disk S) = (r, kr', D') \<Longrightarrow>
     keyring_step S None (put_proc S p kr' D')"
| proc_exit: "keyring_step S None (S\<lparr>ks_Procs := (ks_Procs S)(p := None)\<rparr>)"

inductive keyring_run ::
  "keyring_system \<Rightarrow> (int \<times> 8 word list) list \<Rightarrow> keyring_system \<Rightarrow> bool" where
  krun_refl: "keyring_run S [] S"
| krun_quiet: "keyring_run S ns S1 \<Longrightarrow> keyring_step S1 None S2 \<Longrightarrow> keyring_run S ns S2"
| krun_nonce: "keyring_run S ns S1 \<Longrightarrow> keyring_step S1 (Some n) S2 \<Longrightarrow> keyring_run S (ns @ [n]) S2"

subsection \<open>The counter invariant\<close>

definition gcounter :: "keyring_file \<Rightarrow> int \<Rightarrow> uint64 option" where
  "gcounter kf t = (case kf_GCMState kf of None \<Rightarrow> None | Some g \<Rightarrow> gm_PerTerm g t)"

definition below :: "keyring_file \<Rightarrow> int \<Rightarrow> uint64 \<Rightarrow> bool" where
  "below kf t c \<longleftrightarrow> (\<exists>m. gcounter kf t = Some m \<and> c < m)"

text \<open>What the lease of an open keyring may still hand out.\<close>

definition owns :: "keyring \<Rightarrow> int \<Rightarrow> uint64 \<Rightarrow> bool" where
  "owns kr t c \<longleftrightarrow> le_valid (kr_lease kr) \<and> le_term (kr_lease kr) = t \<and>
     le_current (kr_lease kr) \<le> c \<and> c < le_end (kr_lease kr)"

text \<open>Memory never knows a larger counter than the disk.\<close>

definition proc_ok :: "keyring_file \<Rightarrow> keyring \<Rightarrow> bool" where
  "proc_ok kf kr \<longleftrightarrow> (kf_GCMState (kr_file kr) \<noteq> None \<longrightarrow> kf_GCMState kf \<noteq> None) \<and>
     (\<forall>t c. gcounter (kr_file kr) t = Some c \<longrightarrow> c = 0 \<or> (\<exists>m. gcounter kf t = Some m \<and> c \<le> m))"

definition counters_ok :: "keyring_file \<Rightarrow> bool" where
  "counters_ok kf \<longleftrightarrow> (\<forall>t. gcounter kf t \<noteq> None \<longrightarrow> t \<le> kf_ActiveTerm kf)"

definition nonce_inv :: "keyring_system \<Rightarrow> (int \<times> uint64) list \<Rightarrow> bool" where
  "nonce_inv S H \<longleftrightarrow> distinct H \<and>
    (\<exists>kf. kd_Content (ks_Disk S) = Holds kf \<and> counters_ok kf \<and>
      (\<forall>(t, c) \<in> set H. below kf t c) \<and>
      (\<forall>p kr. ks_Procs S p = Some kr \<longrightarrow>
         proc_ok kf kr \<and> (\<forall>t c. owns kr t c \<longrightarrow> below kf t c \<and> (t, c) \<notin> set H)) \<and>
      (\<forall>p q kr kr' t c. p \<noteq> q \<longrightarrow> ks_Procs S p = Some kr \<longrightarrow> ks_Procs S q = Some kr' \<longrightarrow>
         owns kr t c \<longrightarrow> \<not> owns kr' t c))"

text \<open>The file only moves forward.\<close>

definition file_grows :: "keyring_file \<Rightarrow> keyring_file \<Rightarrow> bool" where
  "file_grows kf kf' \<longleftrightarrow> (kf_GCMState kf \<noteq> None \<longrightarrow> kf_GCMState kf' \<noteq> None) \<and>
     (\<forall>t m. gcounter kf t = Some m \<longrightarrow> (\<exists>m'. gcounter kf' t = Some m' \<and> m \<le> m'))"

lemma file_grows_refl [simp]: "file_grows kf kf"
  by (simp add: file_grows_def)

lemma below_grows: "below kf t c \<Longrightarrow> file_grows kf kf' \<Longrightarrow> below kf' t c"
  unfolding below_def file_grows_def by (meson less_le_trans)

lemma proc_ok_grows: "proc_ok kf kr \<Longrightarrow> file_grows kf kf' \<Longrightarrow> proc_ok kf' kr"
  unfolding proc_ok_def file_grows_def by (meson order_trans)

lemma reload_counter:
  assumes "proc_ok kf kr"
  shows "gcounter (kr_file (reload kr kf)) t = gcounter kf t"
    and "kf_GCMState (kr_file (reload kr kf)) = None \<longleftrightarrow> kf_GCMState kf = None"
proof -
  have c: "c = 0 \<or> (\<exists>m. gcounter kf t = Some m \<and> c \<le> m)" if "gcounter (kr_file kr) t = Some c" for c
    using assms that unfolding proc_ok_def by blast
  show "gcounter (kr_file (reload kr kf)) t = gcounter kf t"
  proof (cases "kf_GCMState kf")
    case None
    with assms show ?thesis by (auto simp: reload_def gcounter_def proc_ok_def mergeGCMCounters_def)
  next
    case (Some dg)
    with c show ?thesis
      by (auto simp: reload_def gcounter_def mergeGCMCounters_def merge_counter_def leD split: option.splits)
  qed
  show "kf_GCMState (kr_file (reload kr kf)) = None \<longleftrightarrow> kf_GCMState kf = None"
    using assms by (auto simp: reload_def proc_ok_def mergeGCMCounters_def split: option.splits)
qed

lemma reload_fields [simp]:
  "kf_Terms (kr_file (reload kr kf)) = kf_Terms kf" "kf_ActiveTerm (kr_file (reload kr kf)) = kf_ActiveTerm kf"
  "kr_lease (reload kr kf) = kr_lease kr" "kr_deks (reload kr kf) = kr_deks kr"
  "kf_SchemaVersion (kr_file (reload kr kf)) = kf_SchemaVersion kf"
  "kf_KEKType (kr_file (reload kr kf)) = kf_KEKType kf"
  by (simp_all add: reload_def)

lemma loadFile_Holds: "loadFile D = Inr kf \<Longrightarrow> kd_Content D = Holds kf"
  by (auto simp: loadFile_def split: jsonfile.splits if_splits)

text \<open>A step of one process that hands out nothing and keeps its lease.\<close>

lemma nonce_inv_quiet:
  assumes inv: "nonce_inv S H" and content: "kd_Content (ks_Disk S) = Holds kf"
    and D': "kd_Content D' = Holds kf'" and grows: "file_grows kf kf'" and ok': "counters_ok kf'"
    and kr': "proc_ok kf' kr'"
    and lease: "(\<exists>kr. ks_Procs S p = Some kr \<and> kr_lease kr' = kr_lease kr) \<or> \<not> le_valid (kr_lease kr')"
  shows "nonce_inv (put_proc S p kr' D') H"
proof -
  have old: "distinct H" "\<forall>(t, c) \<in> set H. below kf t c"
    and procs: "\<And>q kr. ks_Procs S q = Some kr \<Longrightarrow>
       proc_ok kf kr \<and> (\<forall>t c. owns kr t c \<longrightarrow> below kf t c \<and> (t, c) \<notin> set H)"
    and disj: "\<And>q r kr kr' t c. q \<noteq> r \<Longrightarrow> ks_Procs S q = Some kr \<Longrightarrow> ks_Procs S r = Some kr' \<Longrightarrow>
       owns kr t c \<Longrightarrow> \<not> owns kr' t c"
    using inv content unfolding nonce_inv_def by auto
  have mine: "\<exists>kr. ks_Procs S p = Some kr \<and> owns kr t c" if "owns kr' t c" for t c
    using lease that by (auto simp: owns_def)
  have H': "\<forall>(t, c) \<in> set H. below kf' t c" using old(2) below_grows [OF _ grows] by auto
  have procs': "proc_ok kf' kr0 \<and> (\<forall>t c. owns kr0 t c \<longrightarrow> below kf' t c \<and> (t, c) \<notin> set H)"
    if "ks_Procs (put_proc S p kr' D') q = Some kr0" for q kr0
  proof (cases "q = p")
    case True
    with that have "kr0 = kr'" by (simp add: put_proc_def)
    with kr' mine procs below_grows [OF _ grows] show ?thesis by blast
  next
    case False
    with that have "ks_Procs S q = Some kr0" by (simp add: put_proc_def)
    with procs proc_ok_grows [OF _ grows] below_grows [OF _ grows] show ?thesis by blast
  qed
  have disj': "\<not> owns kr2 t c"
    if "q \<noteq> r" "ks_Procs (put_proc S p kr' D') q = Some kr1"
      "ks_Procs (put_proc S p kr' D') r = Some kr2" "owns kr1 t c" for q r kr1 kr2 t c
  proof -
    have own: "\<exists>kr. ks_Procs S q = Some kr \<and> owns kr t c"
      if "ks_Procs (put_proc S p kr' D') q = Some kr0" "owns kr0 t c" for q kr0
      using that mine by (cases "q = p") (auto simp: put_proc_def)
    show ?thesis using own [OF that(2,4)] own [OF that(3)] disj [OF that(1)] by blast
  qed
  show ?thesis unfolding nonce_inv_def
    using old(1) D' ok' H' procs' disj' by (intro conjI exI [of _ kf']) (auto simp: put_proc_def)
qed

text \<open>A process whose memory agrees with the counters of the file is in order.\<close>

lemma proc_ok_same:
  "(\<And>t. gcounter (kr_file kr') t = gcounter kf t) \<Longrightarrow>
   (kf_GCMState (kr_file kr') = None \<longleftrightarrow> kf_GCMState kf = None) \<Longrightarrow> proc_ok kf kr'"
  by (auto simp: proc_ok_def)

lemma proc_ok_reload: "proc_ok kf kr \<Longrightarrow> proc_ok kf (reload kr kf)"
  by (rule proc_ok_same) (simp_all add: reload_counter)

lemma gcounter_cong: "kf_GCMState a = kf_GCMState b \<Longrightarrow> gcounter a t = gcounter b t"
  by (simp add: gcounter_def)

lemma nonce_invD:
  assumes "nonce_inv S H" and "ks_Procs S p = Some kr"
  obtains kf where "kd_Content (ks_Disk S) = Holds kf" "counters_ok kf" "proc_ok kf kr"
  using assms unfolding nonce_inv_def by blast

lemma nonce_inv_open:
  assumes "nonce_inv S H" and "keyring_Open k (ks_Disk S) = Inr kr"
  shows "nonce_inv (put_proc S p kr (ks_Disk S)) H"
proof -
  obtain kf where kf: "kd_Content (ks_Disk S) = Holds kf" "counters_ok kf"
    using assms(1) unfolding nonce_inv_def by blast
  have "loadFile (ks_Disk S) = Inr (kr_file kr)" and l: "\<not> le_valid (kr_lease kr)"
    using assms(2) by (auto simp: keyring_Open_def no_lease_def split: sum.splits if_splits prod.splits)
  with loadFile_Holds kf(1) have "kr_file kr = kf" by force
  then have "proc_ok kf kr" by (intro proc_ok_same) simp_all
  with assms(1) kf l show ?thesis by (intro nonce_inv_quiet [where kf = kf and kf' = kf]) auto
qed

lemma nonce_inv_exit: "nonce_inv S H \<Longrightarrow> nonce_inv (S\<lparr>ks_Procs := (ks_Procs S)(p := None)\<rparr>) H"
  unfolding nonce_inv_def by (auto split: if_splits)

lemma rotated_file_counters:
  "gcounter (rotated_file kk w at kf) t =
     (if t = kf_ActiveTerm kf + 1 \<and> kf_GCMState kf \<noteq> None then Some 0 else gcounter kf t)"
  "kf_GCMState (rotated_file kk w at kf) = None \<longleftrightarrow> kf_GCMState kf = None"
  "kf_ActiveTerm (rotated_file kk w at kf) = kf_ActiveTerm kf + 1"
  by (auto simp: rotated_file_def gcounter_def Let_def split: option.splits)

lemma nonce_inv_rotate:
  assumes inv: "nonce_inv S H" and p: "ks_Procs S p = Some kr"
    and rot: "RotateTerm l s rnd at kk kr (ks_Disk S) = (r, kr', D')"
  shows "nonce_inv (put_proc S p kr' D') H"
proof -
  obtain kf where kf: "kd_Content (ks_Disk S) = Holds kf" "counters_ok kf" "proc_ok kf kr"
    using inv p by (rule nonce_invD)
  note re = reload_counter [OF kf(3)]
  have lease: "kr_lease kr' = kr_lease kr"
    using rot by (auto simp: RotateTerm_def Let_def split: if_splits sum.splits option.splits prod.splits)
  let ?new = "\<lambda>w. rotated_file kk w at (kr_file (reload kr kf))"
  consider (same) "D' = ks_Disk S" "kr' = kr \<or> kr' = reload kr kf"
    | (unsaved) w where "D' = ks_Disk S" "kr_file kr' = ?new w"
    | (saved) w where "kd_Content D' = Holds (?new w)" "kr_file kr' = ?new w"
    using rot kf(1)
    by (auto simp: RotateTerm_def Let_def saveFile_def dest: loadFile_Holds
        split: if_splits sum.splits option.splits prod.splits)
  then show ?thesis
  proof cases
    case same
    with inv kf p lease proc_ok_reload show ?thesis
      by (intro nonce_inv_quiet [where kf = kf and kf' = kf]) auto
  next
    case (unsaved w)
    have "proc_ok kf kr'"
      by (auto simp: proc_ok_def unsaved(2) rotated_file_counters re split: if_splits)
    with inv kf p lease unsaved(1) show ?thesis
      by (intro nonce_inv_quiet [where kf = kf and kf' = kf]) auto
  next
    case (saved w)
    have fresh: "gcounter kf (kf_ActiveTerm kf + 1) = None"
      using kf(2) unfolding counters_ok_def by force
    have "file_grows kf (?new w)"
      using fresh by (auto simp: file_grows_def rotated_file_counters re)
    moreover have "counters_ok (?new w)"
      using kf(2) by (auto simp: counters_ok_def rotated_file_counters re)
    moreover have "proc_ok (?new w) kr'" by (rule proc_ok_same) (simp_all add: saved(2))
    ultimately show ?thesis using inv kf p lease saved(1)
      by (intro nonce_inv_quiet [where kf = kf and kf' = "?new w"]) auto
  qed
qed

text \<open>Re-wrapping and destroying leave counters and the active term alone.\<close>

lemma nonce_inv_same_counters:
  assumes inv: "nonce_inv S H" and p: "ks_Procs S p = Some kr" and lease: "kr_lease kr' = kr_lease kr"
    and kf: "kd_Content (ks_Disk S) = Holds kf"
    and change: "kr' = kr \<and> D' = ks_Disk S \<or>
      kf_GCMState (kr_file kr') = kf_GCMState (kr_file (reload kr kf)) \<and>
      kf_ActiveTerm (kr_file kr') = kf_ActiveTerm kf \<and>
      (D' = ks_Disk S \<or> kd_Content D' = Holds (kr_file kr'))"
  shows "nonce_inv (put_proc S p kr' D') H"
proof -
  have ok: "counters_ok kf" "proc_ok kf kr" using inv p kf by (auto elim: nonce_invD)
  note re = reload_counter [OF ok(2)]
  from change show ?thesis
  proof
    assume "kr' = kr \<and> D' = ks_Disk S"
    with inv kf ok p show ?thesis by (intro nonce_inv_quiet [where kf = kf and kf' = kf]) auto
  next
    assume c: "kf_GCMState (kr_file kr') = kf_GCMState (kr_file (reload kr kf)) \<and>
      kf_ActiveTerm (kr_file kr') = kf_ActiveTerm kf \<and>
      (D' = ks_Disk S \<or> kd_Content D' = Holds (kr_file kr'))"
    have same: "gcounter (kr_file kr') t = gcounter kf t"
      "kf_GCMState (kr_file kr') = None \<longleftrightarrow> kf_GCMState kf = None" for t
      using c re gcounter_cong by metis+
    have "proc_ok kf kr'" "proc_ok (kr_file kr') kr'" using same by (auto intro: proc_ok_same)
    moreover have "file_grows kf (kr_file kr')" "counters_ok (kr_file kr')"
      using ok(1) c same by (auto simp: file_grows_def counters_ok_def)
    ultimately show ?thesis using inv kf ok p lease c
      nonce_inv_quiet [of S H kf D' kf kr' p] nonce_inv_quiet [of S H kf D' "kr_file kr'" kr' p]
      by auto
  qed
qed

lemma nonce_inv_rotate_kek:
  assumes inv: "nonce_inv S H" and p: "ks_Procs S p = Some kr"
    and rot: "RotateKEK l s kk kr (ks_Disk S) = (r, kr', D')"
  shows "nonce_inv (put_proc S p kr' D') H"
proof -
  obtain kf where kf: "kd_Content (ks_Disk S) = Holds kf" using inv p by (rule nonce_invD)
  have "kr_lease kr' = kr_lease kr"
    using rot by (auto simp: RotateKEK_def Let_def split: if_splits sum.splits option.splits prod.splits)
  with inv p show ?thesis
    by (rule nonce_inv_same_counters [OF _ _ _ kf])
      (use rot kf in \<open>auto simp: RotateKEK_def Let_def saveFile_def dest!: loadFile_Holds
        split: if_splits sum.splits option.splits prod.splits\<close>)
qed

lemma nonce_inv_destroy:
  assumes inv: "nonce_inv S H" and p: "ks_Procs S p = Some kr"
    and des: "DestroyTerm l s n kr (ks_Disk S) = (r, kr', D')"
  shows "nonce_inv (put_proc S p kr' D') H"
proof -
  obtain kf where kf: "kd_Content (ks_Disk S) = Holds kf" using inv p by (rule nonce_invD)
  have "kr_lease kr' = kr_lease kr"
    using des by (auto simp: DestroyTerm_def Let_def split: if_splits sum.splits option.splits prod.splits)
  with inv p show ?thesis
    by (rule nonce_inv_same_counters [OF _ _ _ kf])
      (use des kf in \<open>auto simp: DestroyTerm_def Let_def saveFile_def dest!: loadFile_Holds
        split: if_splits sum.splits option.splits prod.splits\<close>)
qed

lemma set_counter_fields [simp]:
  "kr_lease (set_counter kr g t c) = kr_lease kr" "kr_deks (set_counter kr g t c) = kr_deks kr"
  "kf_GCMState (kr_file (set_counter kr g t c)) = Some (g\<lparr>gm_PerTerm := (gm_PerTerm g)(t \<mapsto> c)\<rparr>)"
  "kf_ActiveTerm (kr_file (set_counter kr g t c)) = kf_ActiveTerm (kr_file kr)"
  "kf_Terms (kr_file (set_counter kr g t c)) = kf_Terms (kr_file kr)"
  "kf_SchemaVersion (kr_file (set_counter kr g t c)) = kf_SchemaVersion (kr_file kr)"
  by (simp_all add: set_counter_def)

lemma nonce_inv_nonce_fails:
  assumes inv: "nonce_inv S H" and p: "ks_Procs S p = Some kr"
    and nx: "NextGCMNonce l s t kr (ks_Disk S) = (Inl e, kr', D')"
  shows "nonce_inv (put_proc S p kr' D') H"
proof -
  obtain kf where kf: "kd_Content (ks_Disk S) = Holds kf" "counters_ok kf" "proc_ok kf kr"
    using inv p by (rule nonce_invD)
  note re = reload_counter [OF kf(3)]
  have D': "D' = ks_Disk S" and lease: "kr_lease kr' = kr_lease kr"
    and mem: "kr' = kr \<or> kr' = reload kr kf \<or>
      (\<exists>g c d. kf_GCMState (kr_file (reload kr kf)) = Some g \<and> gm_PerTerm g t = Some c \<and>
         kr' = set_counter (set_counter (reload kr kf) g t d) g t c)"
    using nx kf(1)
    by (auto simp: NextGCMNonce_def Let_def saveFile_def dest!: loadFile_Holds
        split: if_splits sum.splits option.splits prod.splits)
  have "proc_ok kf kr'"
    using mem
  proof (elim disjE exE conjE)
    fix g c d
    assume g: "kf_GCMState (kr_file (reload kr kf)) = Some g" "gm_PerTerm g t = Some c"
      "kr' = set_counter (set_counter (reload kr kf) g t d) g t c"
    then have "(gm_PerTerm g)(t \<mapsto> c) = gm_PerTerm g" by auto
    with g have "gcounter (kr_file kr') u = gcounter (kr_file (reload kr kf)) u" for u
      by (simp add: gcounter_def)
    with re g show "proc_ok kf kr'" by (intro proc_ok_same) auto
  qed (use kf proc_ok_reload in auto)
  with inv kf p lease D' show ?thesis by (intro nonce_inv_quiet [where kf = kf and kf' = kf]) auto
qed

text \<open>
  A step that hands out \<open>(t, c)\<close>: it was in the process's lease or above the counter on disk, and
  so is all the process may hand out next.
\<close>

lemma nonce_inv_take:
  assumes inv: "nonce_inv S H" and p: "ks_Procs S p = Some kr"
    and content: "kd_Content (ks_Disk S) = Holds kf" and D': "kd_Content D' = Holds kf'"
    and grows: "file_grows kf kf'" and ok': "counters_ok kf'" and pok: "proc_ok kf' kr'"
    and take: "owns kr t c \<or> \<not> below kf t c" "below kf' t c" "\<not> owns kr' t c"
    and own: "\<And>u d. owns kr' u d \<Longrightarrow> (owns kr u d \<or> \<not> below kf u d) \<and> below kf' u d"
  shows "nonce_inv (put_proc S p kr' D') (H @ [(t, c)])"
proof -
  have old: "distinct H" "\<And>u d. (u, d) \<in> set H \<Longrightarrow> below kf u d"
    and procs: "\<And>q kq. ks_Procs S q = Some kq \<Longrightarrow>
       proc_ok kf kq \<and> (\<forall>u d. owns kq u d \<longrightarrow> below kf u d \<and> (u, d) \<notin> set H)"
    and disj: "\<And>q r kq kr t c. q \<noteq> r \<Longrightarrow> ks_Procs S q = Some kq \<Longrightarrow> ks_Procs S r = Some kr \<Longrightarrow>
       owns kq t c \<Longrightarrow> \<not> owns kr t c"
    using inv content unfolding nonce_inv_def by auto
  have unused: "(u, d) \<notin> set H" if "owns kr u d \<or> \<not> below kf u d" for u d
    using that old(2) procs p by blast
  have foreign: "\<not> owns kq u d" if "q \<noteq> p" "ks_Procs S q = Some kq" "owns kr u d \<or> \<not> below kf u d" for q kq u d
    using that procs disj p by blast
  have procs': "proc_ok kf' kq \<and> (\<forall>u d. owns kq u d \<longrightarrow> below kf' u d \<and> (u, d) \<notin> set (H @ [(t, c)]))"
    if q: "ks_Procs (put_proc S p kr' D') q = Some kq" for q kq
  proof (cases "q = p")
    case True
    with q have "kq = kr'" by (simp add: put_proc_def)
    with pok own unused take(3) show ?thesis by auto
  next
    case False
    with q have q': "ks_Procs S q = Some kq" by (simp add: put_proc_def)
    with foreign [OF False q' take(1)] procs proc_ok_grows [OF _ grows] below_grows [OF _ grows]
    show ?thesis by auto
  qed
  have disj': "\<not> owns k2 u d"
    if "q \<noteq> r" "ks_Procs (put_proc S p kr' D') q = Some k1"
      "ks_Procs (put_proc S p kr' D') r = Some k2" "owns k1 u d" for q r k1 k2 u d
    using that own foreign disj by (cases "q = p"; cases "r = p") (auto simp: put_proc_def)
  show ?thesis unfolding nonce_inv_def
    using old D' ok' procs' disj' unused [OF take(1)] take(2) below_grows [OF _ grows]
    by (intro conjI exI [of _ kf']) (auto simp: put_proc_def)
qed

lemma nonce_inv_fast:
  assumes inv: "nonce_inv S H" and p: "ks_Procs S p = Some kr" and live: "\<not> lease_exhausted (kr_lease kr) t"
  defines "c \<equiv> le_current (kr_lease kr)"
  shows "nonce_inv (put_proc S p (kr\<lparr>kr_lease := (kr_lease kr)\<lparr>le_current := c + 1\<rparr>\<rparr>) (ks_Disk S)) (H @ [(t, c)])"
proof -
  let ?kr' = "kr\<lparr>kr_lease := (kr_lease kr)\<lparr>le_current := c + 1\<rparr>\<rparr>"
  obtain kf where kf: "kd_Content (ks_Disk S) = Holds kf" "counters_ok kf" "proc_ok kf kr"
    using inv p by (rule nonce_invD)
  have c: "c < le_end (kr_lease kr)" and own: "owns kr t c"
    using live by (auto simp: lease_exhausted_def owns_def c_def)
  have sub: "owns kr u d" if "owns ?kr' u d" for u d
    using that less_succ [OF c] by (auto simp: owns_def c_def [symmetric])
  have owned: "below kf u d" if "owns kr u d" for u d
    using inv p kf(1) that unfolding nonce_inv_def by auto
  have "\<not> owns ?kr' t c" using less_succ [OF c] by (auto simp: owns_def)
  moreover have "proc_ok kf ?kr'" using kf(3) by (simp add: proc_ok_def)
  ultimately show ?thesis using inv p kf own sub owned
    by (intro nonce_inv_take [where kr = kr and kf = kf and kf' = kf]) auto
qed

lemma nonce_inv_slow:
  assumes inv: "nonce_inv S H" and p: "ks_Procs S p = Some kr"
    and kf: "kd_Content (ks_Disk S) = Holds kf"
    and g: "kf_GCMState (kr_file (reload kr kf)) = Some g" "gm_PerTerm g t = Some m" "m \<noteq> max_uint64"
    and e: "m < e"
    and kr': "kr' = (set_counter (reload kr kf) g t e)\<lparr>kr_lease := \<lparr>le_term = t, le_current = m + 1,
        le_end = e, le_valid = True\<rparr>\<rparr>"
    and D': "kd_Content D' = Holds (kr_file kr')"
  shows "nonce_inv (put_proc S p kr' D') (H @ [(t, m)])"
proof -
  have ok: "counters_ok kf" "proc_ok kf kr" using inv p kf by (auto elim: nonce_invD)
  note re = reload_counter [OF ok(2)]
  have m: "gcounter kf t = Some m" using re(1) [of t] g by (simp add: gcounter_def)
  have cnt: "gcounter (kr_file kr') u = (if u = t then Some e else gcounter kf u)" for u
    using re(1) [of u] g(1) by (simp add: kr' gcounter_def)
  have lease: "kr_lease kr' = \<lparr>le_term = t, le_current = m + 1, le_end = e, le_valid = True\<rparr>"
    by (simp add: kr')
  have "kf_GCMState (kr_file kr') \<noteq> None" by (simp add: kr')
  then have "file_grows kf (kr_file kr')"
    using m e by (auto simp: file_grows_def cnt)
  moreover have "counters_ok (kr_file kr')"
    using ok(1) m unfolding counters_ok_def cnt by (auto simp: kr')
  moreover have "proc_ok (kr_file kr') kr'" by (rule proc_ok_same) simp_all
  moreover have "\<not> below kf t m" using m by (auto simp: below_def)
  moreover have "below (kr_file kr') t m" using e by (auto simp: below_def cnt)
  moreover have "\<not> owns kr' t m"
    using below_succ [OF g(3), of m] by (auto simp: owns_def lease not_le)
  moreover have "\<not> below kf u d \<and> below (kr_file kr') u d" if "owns kr' u d" for u d
    using that m below_succ [OF g(3), of d] by (auto simp: owns_def lease below_def cnt not_le)
  ultimately show ?thesis using inv p kf D'
    by (intro nonce_inv_take [where kr = kr and kf = kf and kf' = "kr_file kr'"]) auto
qed

lemma nonce_inv_nonce:
  assumes inv: "nonce_inv S H" and p: "ks_Procs S p = Some kr"
    and nx: "NextGCMNonce l s t kr (ks_Disk S) = (Inr n, kr', D')"
  shows "\<exists>c. n = encodeGCMNonce t c \<and> nonce_inv (put_proc S p kr' D') (H @ [(t, c)])"
proof (cases "lease_exhausted (kr_lease kr) t")
  case False
  with nx nonce_inv_fast [OF inv p False] show ?thesis by (auto simp: NextGCMNonce_def)
next
  case True
  obtain kf where kf: "kd_Content (ks_Disk S) = Holds kf" using inv p by (rule nonce_invD)
  from nx True kf obtain g m where g: "kf_GCMState (kr_file (reload kr kf)) = Some g"
    "gm_PerTerm g t = Some m" "m \<noteq> max_uint64" and n: "n = encodeGCMNonce t m"
    and kr': "kr' = (set_counter (reload kr kf) g t (lease_end (gm_LeaseSize g) m))
      \<lparr>kr_lease := \<lparr>le_term = t, le_current = m + 1, le_end = lease_end (gm_LeaseSize g) m, le_valid = True\<rparr>\<rparr>"
    and D': "kd_Content D' = Holds (kr_file kr')"
    by (auto simp: NextGCMNonce_def Let_def saveFile_def dest!: loadFile_Holds
        split: if_splits sum.splits option.splits prod.splits)
  from nonce_inv_slow [OF inv p kf g lease_end_greater [OF g(3)] kr' D'] n show ?thesis by blast
qed

lemma keyring_run_inv:
  assumes "keyring_run S ns S'" and "nonce_inv S []"
  shows "\<exists>H. ns = map (\<lambda>(t, c). (t, encodeGCMNonce t c)) H \<and> nonce_inv S' H"
  using assms
proof (induction rule: keyring_run.induct)
  case (krun_refl S)
  then show ?case by auto
next
  case (krun_quiet S ns S1 S2)
  then obtain H where H: "ns = map (\<lambda>(t, c). (t, encodeGCMNonce t c)) H" "nonce_inv S1 H" by blast
  from krun_quiet.hyps(2) H(2) have "nonce_inv S2 H"
    by (cases rule: keyring_step.cases)
      (auto intro: nonce_inv_open nonce_inv_nonce_fails nonce_inv_rotate nonce_inv_rotate_kek
        nonce_inv_destroy nonce_inv_exit)
  with H(1) show ?case by blast
next
  case (krun_nonce S ns S1 n S2)
  then obtain H where H: "ns = map (\<lambda>(t, c). (t, encodeGCMNonce t c)) H" "nonce_inv S1 H" by blast
  from krun_nonce.hyps(2) obtain p kr l s t nn kr' D' where n: "n = (t, nn)"
    and p: "ks_Procs S1 p = Some kr" "NextGCMNonce l s t kr (ks_Disk S1) = (Inr nn, kr', D')"
    and S2: "S2 = put_proc S1 p kr' D'"
    by (cases rule: keyring_step.cases) auto
  from nonce_inv_nonce [OF H(2) p] obtain c where "nn = encodeGCMNonce t c"
    "nonce_inv S2 (H @ [(t, c)])" using S2 by blast
  with H(1) n show ?case by (intro exI [of _ "H @ [(t, c)]"]) simp
qed

subsection \<open>Well-formed term lists\<close>

text \<open>
  Ascending term numbers, the last one active and named by the file, no other active, and no
  key material left in a destroyed term.
\<close>

definition terms_wf :: "keyring_file \<Rightarrow> bool" where
  "terms_wf kf \<longleftrightarrow> sorted_wrt (<) (map tr_Term (kf_Terms kf)) \<and>
     (\<exists>ts t. kf_Terms kf = ts @ [t] \<and> tr_Status t = TermActive \<and> tr_Term t = kf_ActiveTerm kf \<and>
        (\<forall>u \<in> set ts. tr_Status u \<noteq> TermActive)) \<and>
     (\<forall>t \<in> set (kf_Terms kf). tr_Status t = TermDestroyed \<longrightarrow> tr_WrappedDEK t = [])"

lemma retire_simps [simp]:
  "tr_Term (retire t) = tr_Term t" "tr_Status (retire t) \<noteq> TermActive"
  "tr_WrappedDEK (retire t) = tr_WrappedDEK t" "tr_Status (retire t) = TermDestroyed \<longleftrightarrow> tr_Status t = TermDestroyed"
  by (simp_all add: retire_def)

lemma terms_wf_less: "terms_wf kf \<Longrightarrow> t \<in> set (kf_Terms kf) \<Longrightarrow> tr_Term t \<le> kf_ActiveTerm kf"
  by (force simp: terms_wf_def sorted_wrt_append)

lemma terms_wf_new: "terms_wf (new_file kk w salt at alg lease)"
  by (simp add: terms_wf_def new_file_def)

lemma terms_wf_rotated: "terms_wf kf \<Longrightarrow> terms_wf (rotated_file kk w at kf)"
  using terms_wf_less [of kf]
  by (auto simp: terms_wf_def rotated_file_def Let_def sorted_wrt_append comp_def less_le_trans)

text \<open>What re-wrapping does to one term.\<close>

definition rewrapped :: "kek \<Rightarrow> (int \<rightharpoonup> gostring) \<Rightarrow> term_record \<Rightarrow> term_record \<Rightarrow> bool" where
  "rewrapped kk deks t t' \<longleftrightarrow> tr_Term t' = tr_Term t \<and> tr_Status t' = tr_Status t \<and>
     (tr_Status t = TermDestroyed \<longrightarrow> t' = t) \<and>
     (tr_Status t \<noteq> TermDestroyed \<longrightarrow>
        (\<exists>dek. deks (tr_Term t) = Some dek \<and> kk_Wrap kk dek = Some (tr_WrappedDEK t')))"

lemma rewrap_terms_None:
  "rewrap_terms kk deks ts = (None, ts') \<Longrightarrow> list_all2 (rewrapped kk deks) ts ts'"
proof (induction ts arbitrary: ts')
  case (Cons t ts)
  then show ?case
    by (auto simp: rewrapped_def split: if_splits option.splits prod.splits)
qed simp

lemma rewrapped_same:
  assumes "list_all2 (rewrapped kk deks) ts ts'"
  shows "map tr_Term ts' = map tr_Term ts" "map tr_Status ts' = map tr_Status ts"
    "t' \<in> set ts' \<Longrightarrow> tr_Status t' = TermDestroyed \<Longrightarrow> t' \<in> set ts"
proof -
  from assms have "map tr_Term ts' = map tr_Term ts \<and> map tr_Status ts' = map tr_Status ts \<and>
     (\<forall>t' \<in> set ts'. tr_Status t' = TermDestroyed \<longrightarrow> t' \<in> set ts)"
    by (induction rule: list_all2_induct) (auto simp: rewrapped_def)
  then show "map tr_Term ts' = map tr_Term ts" "map tr_Status ts' = map tr_Status ts"
    "t' \<in> set ts' \<Longrightarrow> tr_Status t' = TermDestroyed \<Longrightarrow> t' \<in> set ts" by auto
qed

lemma terms_wf_rewrapped:
  assumes "terms_wf kf" and "list_all2 (rewrapped kk deks) (kf_Terms kf) ts'"
    and "kf_Terms kf' = ts'" and "kf_ActiveTerm kf' = kf_ActiveTerm kf"
  shows "terms_wf kf'"
proof -
  note same = rewrapped_same [OF assms(2)]
  obtain ts t where ts: "kf_Terms kf = ts @ [t]" "tr_Status t = TermActive" "tr_Term t = kf_ActiveTerm kf"
    "\<forall>u \<in> set ts. tr_Status u \<noteq> TermActive" using assms(1) unfolding terms_wf_def by blast
  then obtain us u where us: "ts' = us @ [u]" "list_all2 (rewrapped kk deks) ts us" "rewrapped kk deks t u"
    using assms(2) by (auto simp: list_all2_append1 list_all2_Cons1)
  have "\<forall>v \<in> set us. tr_Status v \<noteq> TermActive"
    using ts(4) rewrapped_same(2) [OF us(2)] by (metis imageE imageI set_map)
  moreover have "tr_Status u = TermActive" "tr_Term u = kf_ActiveTerm kf'"
    using us(3) ts(2,3) assms(4) by (auto simp: rewrapped_def)
  moreover have "sorted_wrt (<) (map tr_Term ts')" using assms(1) same(1) unfolding terms_wf_def by simp
  moreover have "\<forall>v \<in> set ts'. tr_Status v = TermDestroyed \<longrightarrow> tr_WrappedDEK v = []"
    using assms(1) same(3) unfolding terms_wf_def by blast
  ultimately show ?thesis unfolding terms_wf_def using assms(3) us(1) by blast
qed

lemma destroy_in_Inr:
  "destroy_in n ts = Inr ts' \<Longrightarrow> \<exists>as t bs. ts = as @ t # bs \<and> tr_Term t = n \<and>
     ts' = as @ t\<lparr>tr_Status := TermDestroyed, tr_WrappedDEK := []\<rparr> # bs"
proof (induction ts arbitrary: ts')
  case (Cons t ts)
  show ?case
  proof (cases "tr_Term t = n")
    case True
    with Cons.prems show ?thesis by (intro exI [of _ "[]"]) (auto split: if_splits)
  next
    case False
    with Cons.prems obtain us where us: "destroy_in n ts = Inr us" "ts' = t # us" by (auto split: sum.splits)
    from Cons.IH [OF us(1)] obtain as u bs where "ts = as @ u # bs" "tr_Term u = n"
      "us = as @ u\<lparr>tr_Status := TermDestroyed, tr_WrappedDEK := []\<rparr> # bs" by blast
    with us(2) show ?thesis by (intro exI [of _ "t # as"] exI [of _ u] exI [of _ bs]) simp
  qed
qed simp

lemma terms_wf_destroyed:
  assumes "terms_wf kf" and "destroy_in n (kf_Terms kf) = Inr ts'" and "kf_ActiveTerm kf \<noteq> n"
    and "kf_Terms kf' = ts'" and "kf_ActiveTerm kf' = kf_ActiveTerm kf"
  shows "terms_wf kf'"
proof -
  obtain as t bs where ts: "kf_Terms kf = as @ t # bs" "tr_Term t = n"
    and ts': "ts' = as @ t\<lparr>tr_Status := TermDestroyed, tr_WrappedDEK := []\<rparr> # bs"
    using destroy_in_Inr [OF assms(2)] by blast
  obtain us u where us: "kf_Terms kf = us @ [u]" "tr_Status u = TermActive" "tr_Term u = kf_ActiveTerm kf"
    "\<forall>v \<in> set us. tr_Status v \<noteq> TermActive" using assms(1) unfolding terms_wf_def by blast
  have "bs \<noteq> []" using ts us assms(3) by auto
  then obtain cs where bs: "bs = cs @ [u]" "us = as @ t # cs"
    using ts(1) us(1) by (metis append_Cons append_assoc append_butlast_last_id last_appendR last_snoc
        butlast_append butlast_snoc list.distinct(1) append_eq_append_conv2 butlast.simps(2))
  show ?thesis unfolding terms_wf_def
  proof (intro conjI exI)
    show "sorted_wrt (<) (map tr_Term (kf_Terms kf'))"
      using assms(1,4) ts ts' by (auto simp: terms_wf_def)
    show "kf_Terms kf' = (as @ t\<lparr>tr_Status := TermDestroyed, tr_WrappedDEK := []\<rparr> # cs) @ [u]"
      using assms(4) ts' bs by simp
    show "\<forall>t \<in> set (kf_Terms kf'). tr_Status t = TermDestroyed \<longrightarrow> tr_WrappedDEK t = []"
      using assms(1,4) ts ts' by (auto simp: terms_wf_def)
  qed (use us bs assms(5) in auto)
qed

text \<open>The file on disk stays well-formed under every operation.\<close>

definition disk_wf :: "keyring_disk \<Rightarrow> bool" where
  "disk_wf D \<longleftrightarrow> (\<exists>kf. kd_Content D = Holds kf \<and> terms_wf kf)"

lemma disk_wf_load: "disk_wf D \<Longrightarrow> loadFile D = Inr kf \<Longrightarrow> terms_wf kf"
  by (auto simp: disk_wf_def dest: loadFile_Holds)

lemma terms_wf_cong:
  "terms_wf a \<Longrightarrow> kf_Terms b = kf_Terms a \<Longrightarrow> kf_ActiveTerm b = kf_ActiveTerm a \<Longrightarrow> terms_wf b"
  by (simp add: terms_wf_def)

lemma terms_wf_reload: "terms_wf kf \<Longrightarrow> terms_wf (kr_file (reload kr kf))"
  by (erule terms_wf_cong) simp_all

lemma disk_wf_nonce:
  assumes "disk_wf D" and "NextGCMNonce l s t kr D = (r, kr', D')"
  shows "disk_wf D'"
proof (cases "D' = D")
  case False
  then obtain kf g c where "loadFile D = Inr kf" "kd_Content D' = Holds (kr_file (set_counter (reload kr kf) g t c))"
    using assms(2)
    by (auto simp: NextGCMNonce_def Let_def saveFile_def split: if_splits sum.splits option.splits prod.splits)
  with assms(1) show ?thesis
    by (auto simp: disk_wf_def dest!: disk_wf_load [OF assms(1)] intro: terms_wf_cong)
qed (use assms in simp)

lemma disk_wf_rotate:
  assumes "disk_wf D" and "RotateTerm l s rnd at kk kr D = (r, kr', D')"
  shows "disk_wf D'"
proof (cases "D' = D")
  case False
  then obtain kf w where "loadFile D = Inr kf" "kd_Content D' = Holds (rotated_file kk w at (kr_file (reload kr kf)))"
    using assms(2)
    by (auto simp: RotateTerm_def Let_def saveFile_def split: if_splits sum.splits option.splits prod.splits)
  with assms(1) show ?thesis
    using disk_wf_load terms_wf_reload terms_wf_rotated unfolding disk_wf_def by metis
qed (use assms in simp)

lemma RotateKEK_saved:
  assumes "RotateKEK l s kk kr D = (r, kr', D')" and "D' \<noteq> D \<or> r = None"
  obtains kf ts where "loadFile D = Inr kf" "kd_Content D' = Holds (kr_file kr')" "kd_Mode D' = 384"
    "kf_Terms (kr_file kr') = ts" "list_all2 (rewrapped kk (kr_deks kr)) (kf_Terms kf) ts"
    "kf_ActiveTerm (kr_file kr') = kf_ActiveTerm kf" "kf_SchemaVersion (kr_file kr') = kf_SchemaVersion kf"
    "kf_KEKType (kr_file kr') = kk_Type kk"
  using assms
  by (auto simp: RotateKEK_def Let_def saveFile_def dest!: rewrap_terms_None
      split: if_splits sum.splits option.splits prod.splits)

lemma disk_wf_rotate_kek:
  assumes "disk_wf D" and "RotateKEK l s kk kr D = (r, kr', D')"
  shows "disk_wf D'"
proof (cases "D' = D")
  case False
  with assms(2) obtain kf ts where "loadFile D = Inr kf" "kd_Content D' = Holds (kr_file kr')"
    "kf_Terms (kr_file kr') = ts" "list_all2 (rewrapped kk (kr_deks kr)) (kf_Terms kf) ts"
    "kf_ActiveTerm (kr_file kr') = kf_ActiveTerm kf" by (metis RotateKEK_saved)
  with assms(1) disk_wf_load terms_wf_rewrapped show ?thesis unfolding disk_wf_def by metis
qed (use assms in simp)

lemma disk_wf_destroy:
  assumes "disk_wf D" and "DestroyTerm l s n kr D = (r, kr', D')"
  shows "disk_wf D'"
proof (cases "D' = D")
  case False
  with assms(2) obtain kf ts where "loadFile D = Inr kf" "kd_Content D' = Holds (kr_file kr')"
    "destroy_in n (kf_Terms kf) = Inr ts" "kf_Terms (kr_file kr') = ts"
    "kf_ActiveTerm (kr_file kr') = kf_ActiveTerm kf" "kf_ActiveTerm kf \<noteq> n"
    by (auto simp: DestroyTerm_def Let_def saveFile_def split: if_splits sum.splits option.splits prod.splits)
  with assms(1) disk_wf_load terms_wf_destroyed show ?thesis unfolding disk_wf_def by metis
qed (use assms in simp)

lemma keyring_step_disk_wf: "keyring_step S ev S' \<Longrightarrow> disk_wf (ks_Disk S) \<Longrightarrow> disk_wf (ks_Disk S')"
  by (induction rule: keyring_step.induct)
    (auto simp: put_proc_def intro: disk_wf_nonce disk_wf_rotate disk_wf_rotate_kek disk_wf_destroy)

lemma keyring_run_disk_wf: "keyring_run S ns S' \<Longrightarrow> disk_wf (ks_Disk S) \<Longrightarrow> disk_wf (ks_Disk S')"
  by (induction rule: keyring_run.induct) (auto intro: keyring_step_disk_wf)

lemma keyring_New_None:
  "keyring_New rnd salt at ok kk alg lease D = (None, D') \<Longrightarrow>
     \<exists>w s. kd_Content D' = Holds (new_file kk w s at alg lease) \<and> kd_Mode D' = 384"
  by (auto simp: keyring_New_def Let_def saveFile_def split: option.splits if_splits prod.splits) blast

lemma RotateTerm_InrE:
  assumes "RotateTerm l s rnd at kk kr D = (Inr n, kr', D')" and "loadFile D = Inr kf"
  obtains dek w where "rnd = Some dek" "kk_Wrap kk dek = Some w"
    "kr_file kr' = rotated_file kk w at (kr_file (reload kr kf))" "kr_deks kr' n = Some dek"
    "kd_Content D' = Holds (kr_file kr')" "kd_Mode D' = 384" "n = kf_ActiveTerm kf + 1"
proof -
  have l: l using assms(1) by (simp add: RotateTerm_def split: if_splits)
  obtain dek where dek: "rnd = Some dek"
    using assms by (cases rnd) (auto simp: RotateTerm_def Let_def split: if_splits)
  obtain w where w: "kk_Wrap kk dek = Some w"
    using assms dek by (cases "kk_Wrap kk dek") (auto simp: RotateTerm_def Let_def split: if_splits)
  have s: s using assms l dek w by (cases s) (simp_all add: RotateTerm_def Let_def saveFile_def)
  let ?kr2 = "(reload kr kf)\<lparr>kr_file := rotated_file kk w at (kr_file (reload kr kf))\<rparr>"
  have "n = kf_ActiveTerm kf + 1" "kr' = ?kr2\<lparr>kr_deks := (kr_deks ?kr2)(kf_ActiveTerm kf + 1 \<mapsto> dek)\<rparr>"
    "D' = D\<lparr>kd_Content := Holds (kr_file ?kr2), kd_Mode := 384\<rparr>"
    using assms l dek w s by (auto simp: RotateTerm_def Let_def saveFile_def)
  with dek w that show thesis by simp
qed

lemma unwrap_terms_frame:
  "n \<notin> tr_Term ` set ts \<Longrightarrow> fst (unwrap_terms k ts deks) n = deks n"
  by (induction ts arbitrary: deks) (auto split: option.splits)

lemma unwrap_terms_spec:
  assumes "distinct (map tr_Term ts)" and "t \<in> set ts" and "tr_Status t \<noteq> TermDestroyed"
    and "kk_Unwrap k (tr_WrappedDEK t) = Some dek"
  shows "fst (unwrap_terms k ts deks) (tr_Term t) = Some dek \<and> snd (unwrap_terms k ts deks)"
  using assms
proof (induction ts arbitrary: deks)
  case (Cons u ts)
  show ?case
  proof (cases "u = t")
    case True
    with Cons.prems show ?thesis by (simp add: unwrap_terms_frame)
  next
    case False
    with Cons show ?thesis by (auto split: option.splits)
  qed
qed simp

lemma terms_wf_distinct: "terms_wf kf \<Longrightarrow> distinct (map tr_Term (kf_Terms kf))"
  unfolding terms_wf_def using strict_sorted_iff by blast

text \<open>A file that opened once opens again under a key that unwraps one of its terms.\<close>

lemma keyring_Open_deks:
  assumes "loadFile D' = Inr kf'" and "terms_wf kf'"
    and "kf_SchemaVersion kf' = 1 \<Longrightarrow> kf_KEKType kf' \<in> set legacy_kek_types"
    and "t \<in> set (kf_Terms kf')" and "tr_Status t \<noteq> TermDestroyed"
    and "kk_Unwrap k (tr_WrappedDEK t) = Some dek"
  shows "\<exists>kr. keyring_Open k D' = Inr kr \<and> kr_file kr = kf' \<and> kr_deks kr (tr_Term t) = Some dek"
  using assms unwrap_terms_spec [OF terms_wf_distinct [OF assms(2)] assms(4,5,6), of Map.empty]
  by (auto simp: keyring_Open_def split: prod.splits)

lemma keyring_Open_load:
  "keyring_Open k D = Inr kr \<Longrightarrow> loadFile D = Inr (kr_file kr) \<and>
     (kf_SchemaVersion (kr_file kr) = 1 \<longrightarrow> kf_KEKType (kr_file kr) \<in> set legacy_kek_types)"
  by (auto simp: keyring_Open_def split: sum.splits if_splits prod.splits)

lemma loadFile_saved:
  "loadFile D = Inr kf \<Longrightarrow> kd_Content D' = Holds kf' \<Longrightarrow> kd_Mode D' = 384 \<Longrightarrow>
     kf_SchemaVersion kf' = kf_SchemaVersion kf \<Longrightarrow> loadFile D' = Inr kf'"
  by (auto simp: loadFile_def split: jsonfile.splits if_splits)

subsection \<open>Lock order\<close>

text \<open>
  The locks an operation takes before it works, in order, and threads of one process that take
  them. \<open>NextGCMNonce\<close> takes the mutex first, the lifecycle operations take the file lock first.
\<close>

datatype keyring_lock = Mu | FileLock

definition NextGCMNonce_locks :: "keyring_lock list" where "NextGCMNonce_locks = [Mu, FileLock]"
definition RotateTerm_locks :: "keyring_lock list" where "RotateTerm_locks = [FileLock, Mu]"

text \<open>Who holds each lock and what each thread still has to take.\<close>

record lock_state =
  ls_Held :: "keyring_lock \<Rightarrow> nat option"
  ls_Todo :: "nat \<Rightarrow> keyring_lock list"

inductive lock_step :: "lock_state \<Rightarrow> lock_state \<Rightarrow> bool" where
  acquire: "ls_Todo s i = l # ls \<Longrightarrow> ls_Held s l = None \<Longrightarrow>
     lock_step s (s\<lparr>ls_Held := (ls_Held s)(l \<mapsto> i), ls_Todo := (ls_Todo s)(i := ls)\<rparr>)"
| release: "ls_Todo s i = [] \<Longrightarrow>
     lock_step s (s\<lparr>ls_Held := (\<lambda>l. if ls_Held s l = Some i then None else ls_Held s l)\<rparr>)"

definition blocked :: "lock_state \<Rightarrow> nat \<Rightarrow> bool" where
  "blocked s i \<longleftrightarrow> (\<exists>l ls j. ls_Todo s i = l # ls \<and> ls_Held s l = Some j \<and> j \<noteq> i)"

inductive_cases lock_stepE: "lock_step s s'"

definition deadlocked :: "lock_state \<Rightarrow> nat \<Rightarrow> nat \<Rightarrow> bool" where
  "deadlocked s i j \<longleftrightarrow> (\<forall>s'. lock_step\<^sup>*\<^sup>* s s' \<longrightarrow> blocked s' i \<and> blocked s' j)"

definition crossed :: "lock_state \<Rightarrow> bool" where
  "crossed s \<longleftrightarrow> ls_Held s Mu = Some 0 \<and> ls_Held s FileLock = Some 1 \<and>
     ls_Todo s 0 = [FileLock] \<and> ls_Todo s 1 = [Mu]"

lemma crossed_step: "lock_step s s' \<Longrightarrow> crossed s \<Longrightarrow> crossed s'"
proof (induction rule: lock_step.induct)
  case (acquire s i l ls)
  then show ?case by (cases l) (auto simp: crossed_def)
next
  case (release s i)
  then have "i \<noteq> 0" "i \<noteq> 1" by (metis crossed_def list.distinct(1))+
  with release show ?case by (simp add: crossed_def)
qed

lemma crossed_deadlocked: "crossed s \<Longrightarrow> deadlocked s 0 1"
proof -
  assume c: "crossed s"
  have "crossed s'" if "lock_step\<^sup>*\<^sup>* s s'" for s'
    using that c by (induction rule: rtranclp_induct) (auto intro: crossed_step)
  then show "deadlocked s 0 1" by (auto simp: deadlocked_def crossed_def blocked_def)
qed

subsection \<open>Properties\<close>

text \<open>Sample values for the concrete instances.\<close>

definition sample_kek :: kek where
  "sample_kek = \<lparr>kk_Wrap = Some, kk_Unwrap = Some, kk_Type = ''keychain''\<rparr>"

definition sample_file :: keyring_file where
  "sample_file = new_file sample_kek ''dek1'' ''salt'' ''now'' AES256GCM 2"

definition sample_disk :: keyring_disk where
  "sample_disk = \<lparr>kd_Content = Holds sample_file, kd_Mode = 384\<rparr>"

definition sample_keyring :: keyring where
  "sample_keyring = \<lparr>kr_file = sample_file, kr_deks = [1 \<mapsto> ''dek1''], kr_lease = no_lease\<rparr>"

lemma sample_new:
  "keyring_New (Some ''dek1'') (Some ''salt'') ''now'' True sample_kek AES256GCM 2
     \<lparr>kd_Content = Absent, kd_Mode = 0\<rparr> = (None, sample_disk)"
  by (simp add: keyring_New_def saveFile_def sample_disk_def sample_file_def sample_kek_def)

lemma sample_load: "loadFile sample_disk = Inr sample_file"
  by (simp add: loadFile_def sample_disk_def sample_file_def new_file_def keyring_SchemaVersion_def)

lemma sample_open: "keyring_Open sample_kek sample_disk = Inr sample_keyring"
  unfolding keyring_Open_def sample_load
  by (simp add: sample_file_def new_file_def keyring_SchemaVersion_def sample_kek_def sample_keyring_def)

text \<open>C1: No AES-GCM nonce is handed out twice under the same term: in every run of any number of
  processes on a new keyring, with leases, rotations, re-wrapping, destruction, failed writes and
  crashes in any order, the pairs of term and nonce are distinct.\<close>

theorem keyring_nonce_unique:
  assumes "keyring_New rnd salt at ok kk alg lease D0 = (None, ks_Disk S)" and "ks_Procs S = Map.empty"
    and "keyring_run S ns S'"
  shows "distinct ns"
proof -
  obtain w s where c: "kd_Content (ks_Disk S) = Holds (new_file kk w s at alg lease)"
    using keyring_New_None [OF assms(1)] by blast
  have "counters_ok (new_file kk w s at alg lease)"
    by (auto simp: counters_ok_def gcounter_def new_file_def split: if_splits)
  with c assms(2) have "nonce_inv S []" by (simp add: nonce_inv_def)
  with assms(3) obtain H where H: "ns = map (\<lambda>(t, c). (t, encodeGCMNonce t c)) H" "nonce_inv S' H"
    using keyring_run_inv by blast
  have "inj (\<lambda>(t, c). (t, encodeGCMNonce t c))"
    by (auto simp: inj_def encodeGCMNonce_inject)
  moreover have "distinct H" using H(2) by (simp add: nonce_inv_def)
  ultimately show ?thesis
    unfolding H(1) distinct_map using inj_on_subset [OF _ subset_UNIV] by blast
qed

theorem keyring_nonce_unique_witness:
  "\<exists>n1 n2 S'. keyring_run \<lparr>ks_Disk = sample_disk, ks_Procs = Map.empty\<rparr> [(1, n1), (1, n2)] S' \<and>
     distinct [(1 :: int, n1), (1, n2)]"
proof -
  let ?S = "\<lparr>ks_Disk = sample_disk, ks_Procs = Map.empty\<rparr>"
  let ?S1 = "put_proc ?S 0 sample_keyring sample_disk"
  have s1: "keyring_step ?S None ?S1" using proc_open [of sample_kek ?S sample_keyring 0] sample_open by simp
  define r where "r = NextGCMNonce True True 1 sample_keyring sample_disk"
  have slow: "r = (Inr (encodeGCMNonce 1 0), fst (snd r), snd (snd r))"
    and live: "\<not> lease_exhausted (kr_lease (fst (snd r))) 1"
    unfolding r_def NextGCMNonce_def sample_load
    by (simp_all add: sample_keyring_def no_lease_def lease_exhausted_def reload_def mergeGCMCounters_def
        merge_counter_def sample_file_def new_file_def saveFile_def lease_end_def max_uint64_def Let_def set_counter_def
        word_le_def)
  let ?S2 = "put_proc ?S1 0 (fst (snd r)) (snd (snd r))"
  have s2: "keyring_step ?S1 (Some (1, encodeGCMNonce 1 0)) ?S2"
    using proc_nonce [of ?S1 0 sample_keyring True True 1] slow by (simp add: put_proc_def r_def)
  obtain n2 kr3 D3 where n2: "NextGCMNonce True True 1 (fst (snd r)) (ks_Disk ?S2) = (Inr n2, kr3, D3)"
    using live by (auto simp: NextGCMNonce_def)
  have s3: "keyring_step ?S2 (Some (1, n2)) (put_proc ?S2 0 kr3 D3)"
    using proc_nonce [of ?S2 0 "fst (snd r)" True True 1] n2 by (simp add: put_proc_def)
  have run: "keyring_run ?S [(1, encodeGCMNonce 1 0), (1, n2)] (put_proc ?S2 0 kr3 D3)"
    using krun_nonce [OF krun_nonce [OF krun_quiet [OF krun_refl s1] s2] s3] by simp
  have "distinct [(1 :: int, encodeGCMNonce 1 0), (1, n2)]"
    using keyring_nonce_unique [OF _ _ run] sample_new by simp
  with run show ?thesis by blast
qed

text \<open>In every run from a new keyring the file on disk has ascending term numbers, exactly one
  active term, which is the last and the one \<open>active_term\<close> names, and no key material in a destroyed
  term.\<close>

theorem keyring_one_active_term:
  assumes "keyring_New rnd salt at ok kk alg lease D0 = (None, ks_Disk S)" and "keyring_run S ns S'"
  shows "\<exists>kf. kd_Content (ks_Disk S') = Holds kf \<and> sorted_wrt (<) (map tr_Term (kf_Terms kf)) \<and>
    map tr_Term (filter (\<lambda>t. tr_Status t = TermActive) (kf_Terms kf)) = [kf_ActiveTerm kf] \<and>
    tr_Term (last (kf_Terms kf)) = kf_ActiveTerm kf \<and>
    (\<forall>t \<in> set (kf_Terms kf). tr_Status t = TermDestroyed \<longrightarrow> tr_WrappedDEK t = [])"
proof -
  obtain w s where "kd_Content (ks_Disk S) = Holds (new_file kk w s at alg lease)"
    using keyring_New_None [OF assms(1)] by blast
  then have "disk_wf (ks_Disk S)" by (auto simp: disk_wf_def terms_wf_new)
  then have "disk_wf (ks_Disk S')" by (rule keyring_run_disk_wf [OF assms(2)])
  then obtain kf where kf: "kd_Content (ks_Disk S') = Holds kf" "terms_wf kf" by (auto simp: disk_wf_def)
  then obtain ts t where "kf_Terms kf = ts @ [t]" "tr_Status t = TermActive" "tr_Term t = kf_ActiveTerm kf"
    "\<forall>u \<in> set ts. tr_Status u \<noteq> TermActive" by (auto simp: terms_wf_def)
  with kf show ?thesis by (intro exI [of _ kf]) (auto simp: terms_wf_def filter_empty_conv)
qed

theorem keyring_one_active_term_witness:
  "\<exists>kf. kd_Content (ks_Disk \<lparr>ks_Disk = sample_disk, ks_Procs = Map.empty\<rparr>) = Holds kf \<and>
    sorted_wrt (<) (map tr_Term (kf_Terms kf)) \<and>
    map tr_Term (filter (\<lambda>t. tr_Status t = TermActive) (kf_Terms kf)) = [kf_ActiveTerm kf] \<and>
    tr_Term (last (kf_Terms kf)) = kf_ActiveTerm kf \<and>
    (\<forall>t \<in> set (kf_Terms kf). tr_Status t = TermDestroyed \<longrightarrow> tr_WrappedDEK t = [])"
proof -
  let ?S = "\<lparr>ks_Disk = sample_disk, ks_Procs = Map.empty\<rparr>"
  have "keyring_New (Some ''dek1'') (Some ''salt'') ''now'' True sample_kek AES256GCM 2
     \<lparr>kd_Content = Absent, kd_Mode = 0\<rparr> = (None, ks_Disk ?S)" using sample_new by simp
  from keyring_one_active_term [OF this krun_refl] show ?thesis .
qed

text \<open>What a rotation writes can be read back: after \<open>RotateTerm\<close> succeeds, the keyring in memory
  and a keyring opened anew under the same key-encryption key both have the new term active with
  the new key.\<close>

theorem keyring_rotate_reopen:
  assumes "RotateTerm l s rnd at kk kr D = (Inr n, kr', D')" and "keyring_Open k0 D = Inr kr0"
    and "terms_wf (kr_file kr0)" and "\<forall>d w. kk_Wrap kk d = Some w \<longrightarrow> kk_Unwrap kk w = Some d"
  shows "\<exists>dek kr2. rnd = Some dek \<and> ActiveDEK kr' = Inr (dek, n) \<and>
    keyring_Open kk D' = Inr kr2 \<and> ActiveDEK kr2 = Inr (dek, n)"
proof -
  let ?kf = "kr_file kr0"
  note op = keyring_Open_load [OF assms(2)]
  from assms(1) op [THEN conjunct1] obtain dek w where dek: "rnd = Some dek" and w: "kk_Wrap kk dek = Some w"
    and kr': "kr_file kr' = rotated_file kk w at (kr_file (reload kr ?kf))" "kr_deks kr' n = Some dek"
    and D': "kd_Content D' = Holds (kr_file kr')" "kd_Mode D' = 384" and n: "n = kf_ActiveTerm ?kf + 1"
    by (rule RotateTerm_InrE)
  have fields: "kf_SchemaVersion (kr_file kr') = kf_SchemaVersion ?kf" "kf_KEKType (kr_file kr') = kf_KEKType ?kf"
    "kf_ActiveTerm (kr_file kr') = n"
    by (simp_all add: kr'(1) rotated_file_def Let_def n)
  have wf: "terms_wf (kr_file kr')"
    unfolding kr'(1) by (rule terms_wf_rotated [OF terms_wf_reload [OF assms(3)]])
  define t where "t = \<lparr>tr_Term = n, tr_Status = TermActive, tr_WrappedDEK = w, tr_CreatedAt = at,
    tr_KEKType = kk_Type kk\<rparr>"
  have "t \<in> set (kf_Terms (kr_file kr'))" by (simp add: kr'(1) rotated_file_def Let_def t_def n)
  moreover have "loadFile D' = Inr (kr_file kr')"
    using loadFile_saved [OF _ D' fields(1)] op by blast
  ultimately have "\<exists>kr2. keyring_Open kk D' = Inr kr2 \<and> kr_file kr2 = kr_file kr' \<and> kr_deks kr2 (tr_Term t) = Some dek"
    using op fields assms(4) w by (intro keyring_Open_deks [OF _ wf]) (auto simp: t_def)
  then show ?thesis using dek kr'(2) fields(3) by (auto simp: ActiveDEK_def t_def)
qed

theorem keyring_rotate_reopen_witness:
  "\<exists>kr' D' dek kr2. Some ''dek2'' = Some dek \<and> ActiveDEK kr' = Inr (dek, 2) \<and>
    keyring_Open sample_kek D' = Inr kr2 \<and> ActiveDEK kr2 = Inr (dek, 2)"
proof -
  obtain kr' D' where r: "RotateTerm True True (Some ''dek2'') ''t'' sample_kek sample_keyring sample_disk = (Inr 2, kr', D')"
    unfolding RotateTerm_def sample_load
    by (simp add: saveFile_def sample_kek_def Let_def) (simp add: sample_file_def new_file_def)
  from keyring_rotate_reopen [OF r sample_open] show ?thesis
    by (auto simp: sample_keyring_def sample_file_def terms_wf_new sample_kek_def)
qed

text \<open>Replacing the key-encryption key keeps every data key: after \<open>RotateKEK\<close> succeeds, a keyring
  opened under the new key-encryption key has, for each term that is not destroyed, the key the
  rotating process had.\<close>

theorem keyring_rotate_kek_preserves:
  assumes "RotateKEK l s kk kr D = (None, kr', D')" and "keyring_Open k0 D = Inr kr0"
    and "terms_wf (kr_file kr0)" and "kk_Type kk \<in> set legacy_kek_types"
    and "\<forall>d w. kk_Wrap kk d = Some w \<longrightarrow> kk_Unwrap kk w = Some d"
  shows "\<exists>kr2. keyring_Open kk D' = Inr kr2 \<and>
    (\<forall>t \<in> set (kf_Terms (kr_file kr0)). tr_Status t \<noteq> TermDestroyed \<longrightarrow>
       kr_deks kr2 (tr_Term t) = kr_deks kr (tr_Term t))"
proof -
  let ?kf = "kr_file kr0"
  note op = keyring_Open_load [OF assms(2)]
  from assms(1) obtain kf ts where kf: "loadFile D = Inr kf"
    and D': "kd_Content D' = Holds (kr_file kr')" "kd_Mode D' = 384"
    and ts: "kf_Terms (kr_file kr') = ts" "list_all2 (rewrapped kk (kr_deks kr)) (kf_Terms kf) ts"
    and f: "kf_ActiveTerm (kr_file kr') = kf_ActiveTerm kf" "kf_SchemaVersion (kr_file kr') = kf_SchemaVersion kf"
      "kf_KEKType (kr_file kr') = kk_Type kk"
    by (rule RotateKEK_saved) auto
  have kf0: "kf = ?kf" using kf op by simp
  have wf: "terms_wf (kr_file kr')" using terms_wf_rewrapped [OF _ ts(2,1) f(1)] assms(3) kf0 by simp
  have ld: "loadFile D' = Inr (kr_file kr')" using loadFile_saved [OF kf D' f(2)] .
  have one: "\<exists>kr2. keyring_Open kk D' = Inr kr2 \<and> kr_deks kr2 (tr_Term t) = kr_deks kr (tr_Term t)"
    if t: "t \<in> set (kf_Terms kf)" "tr_Status t \<noteq> TermDestroyed" for t
  proof -
    obtain t' where t': "t' \<in> set ts" "rewrapped kk (kr_deks kr) t t'"
      using ts(2) t(1) by (metis in_set_conv_nth list_all2_conv_all_nth)
    with t(2) obtain dek where "kr_deks kr (tr_Term t) = Some dek" "kk_Wrap kk dek = Some (tr_WrappedDEK t')"
      "tr_Status t' \<noteq> TermDestroyed" "tr_Term t' = tr_Term t" by (auto simp: rewrapped_def)
    with keyring_Open_deks [OF ld wf, of t' kk dek] assms(4,5) f(3) ts(1) t'(1) show ?thesis by auto
  qed
  obtain as a where "kf_Terms kf = as @ [a]" "tr_Status a = TermActive"
    using assms(3) kf0 unfolding terms_wf_def by blast
  then have a: "a \<in> set (kf_Terms kf)" "tr_Status a = TermActive" by simp_all
  from one [OF a(1)] a(2) obtain kr2 where "keyring_Open kk D' = Inr kr2" by auto
  with one kf0 show ?thesis by (intro exI [of _ kr2]) auto
qed

theorem keyring_rotate_kek_preserves_witness:
  "\<exists>D' kr2. keyring_Open (sample_kek\<lparr>kk_Type := ''op''\<rparr>) D' = Inr kr2 \<and> kr_deks kr2 1 = Some ''dek1''"
proof -
  obtain kr' D' where r: "RotateKEK True True (sample_kek\<lparr>kk_Type := ''op''\<rparr>) sample_keyring sample_disk = (None, kr', D')"
    unfolding RotateKEK_def sample_load
    by (simp add: saveFile_def sample_kek_def Let_def sample_keyring_def sample_file_def new_file_def)
  from keyring_rotate_kek_preserves [OF r sample_open] show ?thesis
    by (auto simp: sample_keyring_def sample_file_def terms_wf_new sample_kek_def legacy_kek_types_def)
      (auto simp: new_file_def)
qed

text \<open>C22: The operations take their two locks in opposite orders, so two threads of one process, one
  in \<open>NextGCMNonce\<close> and one in \<open>RotateTerm\<close>, can reach a state in which both wait for ever.\<close>

theorem keyring_lock_order_deadlock:
  "\<exists>s. lock_step\<^sup>*\<^sup>* \<lparr>ls_Held = (\<lambda>_. None),
      ls_Todo = (\<lambda>_. [])(0 := NextGCMNonce_locks, 1 := RotateTerm_locks)\<rparr> s \<and> deadlocked s 0 1"
proof -
  let ?s0 = "\<lparr>ls_Held = (\<lambda>_. None), ls_Todo = (\<lambda>_. [])(0 := NextGCMNonce_locks, 1 := RotateTerm_locks)\<rparr>"
  let ?s1 = "?s0\<lparr>ls_Held := (ls_Held ?s0)(Mu \<mapsto> 0), ls_Todo := (ls_Todo ?s0)(0 := [FileLock])\<rparr>"
  let ?s2 = "?s1\<lparr>ls_Held := (ls_Held ?s1)(FileLock \<mapsto> 1), ls_Todo := (ls_Todo ?s1)(1 := [Mu])\<rparr>"
  have "lock_step ?s0 ?s1" by (rule acquire) (simp_all add: NextGCMNonce_locks_def)
  moreover have "lock_step ?s1 ?s2" by (rule acquire) (simp_all add: RotateTerm_locks_def)
  moreover have "deadlocked ?s2 0 1" by (rule crossed_deadlocked) (simp add: crossed_def)
  ultimately show ?thesis by (meson converse_rtranclp_into_rtranclp r_into_rtranclp)
qed

end
