(* ===== verification/Sample_Codec.thy ===== *)
theory Sample_Codec
  imports KL_Prelude
begin

section \<open>A concrete byte codec\<close>

text \<open>
  Text encodings such as base64 are parameters of the components that use them. This theory has one
  concrete encoding that meets what they rely on, each byte as two letters, for the examples that
  evaluate the components on concrete inputs.
\<close>

definition letter :: "nat \<Rightarrow> char" where "letter n = char_of (97 + n)"

fun pairs :: "gostring \<Rightarrow> gostring" where
  "pairs [] = []"
| "pairs (c # s) = letter (byte_of c div 16) # letter (byte_of c mod 16) # pairs s"

fun unpairs :: "gostring \<Rightarrow> gostring option" where
  "unpairs [] = Some []"
| "unpairs [_] = None"
| "unpairs (x # y # s) =
    map_option ((#) (char_of (16 * (byte_of x - 97) + (byte_of y - 97)))) (unpairs s)"

lemma byte_of_letter: "n < 16 \<Longrightarrow> byte_of (letter n) = 97 + n"
  by (simp add: letter_def byte_of_def)

lemma nibbles: "byte_of c div 16 < 16" "byte_of c mod 16 < 16"
  using byte_of_less [of c] by auto

lemma unpairs_pairs: "unpairs (pairs s) = Some s"
proof (induction s)
  case (Cons c s)
  have "char_of (16 * (byte_of c div 16) + byte_of c mod 16) = c" by (simp add: byte_of_def)
  with Cons show ?case by (simp add: byte_of_letter nibbles)
qed simp

lemma pairs_letters: "x \<in> set (pairs s) \<Longrightarrow> 97 \<le> byte_of x"
  by (induction s) (auto simp: byte_of_letter nibbles)

lemma pairs_no_space: "x \<in> set (pairs s) \<Longrightarrow> \<not> is_space x"
  using pairs_letters [of x s] by (auto simp: is_space_def)

lemma pairs_Nil_iff [simp]: "pairs s = [] \<longleftrightarrow> s = []"
  by (cases s) auto

end
