(* ===== verification/Audit_Chain.thy ===== *)
theory Audit_Chain
  imports Consumption_Log Sample_Codec
begin

section \<open>The audit log (\<open>internal/audit\<close>)\<close>

text \<open>
  The append-only, HMAC-chained audit log: \<open>audit.go\<close> (\<open>Open\<close>, \<open>Close\<close>, \<open>Ready\<close>, \<open>Log\<close>,
  \<open>Rotate\<close>), \<open>log.go\<close> (writing, seeding the chain state from the last line, rotation of the
  generations) and \<open>chain.go\<close> (\<open>VerifyChain\<close>). The files are byte strings indexed by generation:
  0 is the live log, \<open>g\<close> is \<open>audit.log.g\<close>. Base64, the JSON of headers and events, the AEAD, the
  chain MAC and the field redaction are the functions of \<open>audit_crypto\<close>; how the operating system
  answers is an argument. Sequence numbers are integers: they start at 1 in each file.
\<close>

subsection \<open>Data\<close>

record audit_event =
  ev_Timestamp :: gotime
  ev_Action :: gostring
  ev_Outcome :: gostring
  ev_Path :: gostring
  ev_Accessor :: gostring
  ev_Actor :: gostring
  ev_RuntimeMode :: gostring
  ev_Backend :: gostring
  ev_BackendID :: gostring
  ev_KeyTerm :: int
  ev_ReceiptID :: gostring
  ev_Extra :: "(gostring \<times> gostring) list"
  ev_ServiceName :: gostring

record chain_header =
  ch_Seq :: int
  ch_PrevHMAC :: gostring
  ch_TS :: int

record audit_crypto =
  au_Base64 :: "gostring \<Rightarrow> gostring"
  au_Unbase64 :: "gostring \<Rightarrow> gostring option"
  au_HeaderJSON :: "chain_header \<Rightarrow> gostring"
  au_ParseHeader :: "gostring \<Rightarrow> chain_header option"
  au_EventJSON :: "audit_event \<Rightarrow> gostring option"
  au_Seal :: "gostring \<Rightarrow> gostring \<Rightarrow> gostring \<Rightarrow> gostring \<Rightarrow> gostring"
  au_OpenSealed :: "gostring \<Rightarrow> gostring \<Rightarrow> gostring \<Rightarrow> gostring \<Rightarrow> gostring option"
  au_MAC :: "gostring \<Rightarrow> gostring \<Rightarrow> gostring"
  au_ChainKey :: "gostring \<Rightarrow> gostring"
  au_Redact :: "gostring \<Rightarrow> gostring \<Rightarrow> (gostring \<times> gostring) list \<Rightarrow> (gostring \<times> gostring) list"

datatype audit_error =
    ErrLogCorrupt | ErrAuditFsyncFailed | ErrLogClosed | ErrUnavailable | UnsafeDirError nat
  | MarshalEvent | SealEvent | WriteLine | OpenLog | ShiftFails nat | RotateRename | NoKeyOpens
  | OpenAfterRotate

type_synonym audit_files = "nat \<Rightarrow> gostring option"

record logger =
  lg_path :: gostring
  lg_open :: bool
  lg_salt :: gostring
  lg_auditDEK :: gostring
  lg_readKeys :: "gostring list"
  lg_chainMACKey :: gostring
  lg_seq :: int
  lg_prevHMAC :: gostring
  lg_maxSize :: nat
  lg_retainFiles :: nat
  lg_closed :: bool
  lg_nextRotate :: gotime

definition rotateRetryInterval :: duration where "rotateRetryInterval = Minute"
definition maxLogSize :: nat where "maxLogSize = 5 * 1024 * 1024"
definition DefaultRetainFiles :: nat where "DefaultRetainFiles = 20"

text \<open>The bytes of a generation; a file that is not there reads as empty.\<close>

definition file_bytes :: "audit_files \<Rightarrow> nat \<Rightarrow> gostring" where
  "file_bytes F g = (case F g of None \<Rightarrow> [] | Some s \<Rightarrow> s)"

subsection \<open>The last line\<close>

definition TrimRight_newlines :: "gostring \<Rightarrow> gostring" where
  "TrimRight_newlines s = rev (dropWhile (\<lambda>c. c = newline) (rev s))"

text \<open>\<open>bytes.LastIndexByte\<close> for a line feed.\<close>

fun last_newline :: "gostring \<Rightarrow> nat option" where
  "last_newline [] = None"
| "last_newline (c # s) =
    (case last_newline s of Some i \<Rightarrow> Some (Suc i) | None \<Rightarrow> if c = newline then Some 0 else None)"

text \<open>The backward scan: \<open>pos\<close> bytes are still unread, \<open>buf\<close> holds what follows them.\<close>

function read_last_loop :: "gostring \<Rightarrow> nat \<Rightarrow> gostring \<Rightarrow> gostring" where
  "read_last_loop s pos buf =
    (if pos = 0 then buf
     else let readSize = min 4096 pos; pos' = pos - readSize;
              buf' = take readSize (drop pos' s) @ buf
       in case last_newline (TrimRight_newlines buf') of
            Some idx \<Rightarrow> drop (Suc idx) buf'
          | None \<Rightarrow> if pos' = 0 then buf' else read_last_loop s pos' buf')"
  by pat_completeness auto
termination by (relation "measure (\<lambda>(s, pos, buf). pos)") auto

definition readLastLine :: "gostring \<Rightarrow> gostring" where
  "readLastLine s = (if length s = 0 then [] else read_last_loop s (length s) [])"

subsection \<open>Opening and writing\<close>

definition seedChainState :: "audit_crypto \<Rightarrow> logger \<Rightarrow> audit_files \<Rightarrow> audit_error + logger" where
  "seedChainState A l F =
    (let s = file_bytes F 0 in
     if length s = 0 then Inr (l\<lparr>lg_seq := 0, lg_prevHMAC := []\<rparr>)
     else let lastLine = TrimRight_newlines (readLastLine s) in
       case SplitN 2 lastLine (CHR '' '') of
         [h, b] \<Rightarrow>
           (case au_Unbase64 A h of None \<Rightarrow> Inl ErrLogCorrupt
            | Some hdrBytes \<Rightarrow>
               (case au_ParseHeader A hdrBytes of None \<Rightarrow> Inl ErrLogCorrupt
                | Some hdr \<Rightarrow> Inr (l\<lparr>lg_seq := ch_Seq hdr,
                                   lg_prevHMAC := au_MAC A (lg_chainMACKey l) lastLine\<rparr>)))
       | _ \<Rightarrow> Inl ErrLogCorrupt)"

text \<open>Opening a file for appending creates it when it is absent.\<close>

definition create_file :: "audit_files \<Rightarrow> nat \<Rightarrow> audit_files" where
  "create_file F g = F(g \<mapsto> file_bytes F g)"

text \<open>\<open>dir_mode\<close> is \<open>None\<close> when the parent directory does not exist.\<close>

definition validateParentDir :: "nat option \<Rightarrow> audit_error option" where
  "validateParentDir dir_mode =
    (case dir_mode of None \<Rightarrow> None
     | Some mode \<Rightarrow> if mode mod 64 \<noteq> 0 then Some (UnsafeDirError mode) else None)"

definition audit_Open ::
  "audit_crypto \<Rightarrow> nat option \<Rightarrow> bool \<Rightarrow> gostring \<Rightarrow> gostring \<Rightarrow> gostring \<Rightarrow> audit_files \<Rightarrow>
     (audit_error + logger) \<times> audit_files" where
  "audit_Open A dir_mode open_ok path salt dek F =
    (case validateParentDir dir_mode of Some e \<Rightarrow> (Inl e, F)
     | None \<Rightarrow>
        if \<not> open_ok then (Inl OpenLog, F)
        else (let F' = create_file F 0;
                  l = \<lparr>lg_path = path, lg_open = True, lg_salt = salt, lg_auditDEK = dek, lg_readKeys = [],
                       lg_chainMACKey = au_ChainKey A salt, lg_seq = 0, lg_prevHMAC = [],
                       lg_maxSize = maxLogSize, lg_retainFiles = DefaultRetainFiles, lg_closed = False,
                       lg_nextRotate = zero_time\<rparr>
              in (seedChainState A l F', F')))"

definition AddReadKeys :: "gostring list \<Rightarrow> logger \<Rightarrow> logger" where
  "AddReadKeys keys l = l\<lparr>lg_readKeys := lg_readKeys l @ keys\<rparr>"

definition audit_Close :: "logger \<Rightarrow> logger" where
  "audit_Close l = l\<lparr>lg_closed := True, lg_open := False\<rparr>"

definition ensureFile ::
  "audit_crypto \<Rightarrow> bool \<Rightarrow> logger \<Rightarrow> audit_files \<Rightarrow> audit_error option \<times> logger \<times> audit_files" where
  "ensureFile A open_ok l F =
    (if lg_closed l then (Some ErrLogClosed, l, F)
     else if lg_open l then (None, l, F)
     else if \<not> open_ok then (Some ErrUnavailable, l, F)
     else (let F' = create_file F 0 in
           case seedChainState A l F' of
             Inl _ \<Rightarrow> (Some ErrUnavailable, l, F')
           | Inr l' \<Rightarrow> (None, l'\<lparr>lg_open := True\<rparr>, F')))"

definition audit_Ready ::
  "audit_crypto \<Rightarrow> bool \<Rightarrow> logger \<Rightarrow> audit_files \<Rightarrow> audit_error option \<times> logger \<times> audit_files" where
  "audit_Ready A open_ok l F = ensureFile A open_ok l F"

text \<open>How one write ends: the line is there and synced, the write stops after some bytes, or the
  line is there and the sync fails.\<close>

datatype log_io = LogOk | LogWriteFails nat | LogFsyncFails

text \<open>What one call meets: the clock, the nonce (\<open>None\<close> when sealing fails), whether the file can be
  opened and its size read, the write.\<close>

record write_env =
  we_Now :: gotime
  we_Nonce :: "gostring option"
  we_OpenOk :: bool
  we_StatOk :: bool
  we_Io :: log_io

definition event_line :: "audit_crypto \<Rightarrow> logger \<Rightarrow> chain_header \<Rightarrow> gostring \<Rightarrow> gostring \<Rightarrow> gostring" where
  "event_line A l hdr nonce eventJSON =
    (let hdrBytes = au_HeaderJSON A hdr;
         ct = au_Seal A (lg_auditDEK l) nonce eventJSON hdrBytes
     in au_Base64 A hdrBytes @ '' '' @ au_Base64 A (nonce @ ct))"

definition append_bytes :: "gostring \<Rightarrow> audit_files \<Rightarrow> audit_files" where
  "append_bytes s F = F(0 \<mapsto> file_bytes F 0 @ s)"

definition next_header :: "logger \<Rightarrow> gotime \<Rightarrow> chain_header" where
  "next_header l ts =
    (let seq = lg_seq l + 1 in
     \<lparr>ch_Seq = seq,
      ch_PrevHMAC = (if lg_prevHMAC l = [] \<and> seq = 1 then replicate 32 (CHR ''0'') else lg_prevHMAC l),
      ch_TS = ts\<rparr>)"

definition writeEvent ::
  "audit_crypto \<Rightarrow> write_env \<Rightarrow> audit_event \<Rightarrow> logger \<Rightarrow> audit_files \<Rightarrow> audit_error option \<times> logger \<times> audit_files" where
  "writeEvent A W e l0 F0 =
    (case ensureFile A (we_OpenOk W) l0 F0 of
       (Some err, l, F) \<Rightarrow> (Some err, l, F)
     | (None, l, F) \<Rightarrow>
        (let ts = (if ev_Timestamp e = zero_time then we_Now W else ev_Timestamp e);
             e1 = e\<lparr>ev_Timestamp := ts, ev_Extra := au_Redact A (lg_salt l) (ev_Action e) (ev_Extra e)\<rparr> in
         case au_EventJSON A e1 of None \<Rightarrow> (Some MarshalEvent, l, F)
         | Some eventJSON \<Rightarrow>
            (case we_Nonce W of None \<Rightarrow> (Some SealEvent, l, F)
             | Some nonce \<Rightarrow>
                (let hdr = next_header l ts; line = event_line A l hdr nonce eventJSON in
                 case we_Io W of
                   LogWriteFails n \<Rightarrow> (Some WriteLine, l, append_bytes (take n (line @ [newline])) F)
                 | LogFsyncFails \<Rightarrow> (Some ErrAuditFsyncFailed, l, append_bytes (line @ [newline]) F)
                 | LogOk \<Rightarrow>
                     (None, l\<lparr>lg_seq := ch_Seq hdr, lg_prevHMAC := au_MAC A (lg_chainMACKey l) line\<rparr>,
                      append_bytes (line @ [newline]) F)))))"

subsection \<open>Rotation\<close>

definition rotatedName :: "gostring \<Rightarrow> nat \<Rightarrow> gostring" where
  "rotatedName path g = path @ ''.'' @ decimal g"

definition rename_file :: "nat \<Rightarrow> nat \<Rightarrow> audit_files \<Rightarrow> audit_files" where
  "rename_file a b F = (case F a of None \<Rightarrow> F | Some s \<Rightarrow> F(b \<mapsto> s, a := None))"

text \<open>\<open>fails\<close> says which generation, if any, cannot be moved.\<close>

fun shift_loop :: "(nat \<Rightarrow> bool) \<Rightarrow> nat \<Rightarrow> audit_files \<Rightarrow> audit_error option \<times> audit_files" where
  "shift_loop fails 0 F = (None, F)"
| "shift_loop fails (Suc g) F =
    (if fails (Suc g) then (Some (ShiftFails (Suc g)), F)
     else shift_loop fails g (rename_file (Suc g) (Suc (Suc g)) F))"

definition shiftGenerations :: "(nat \<Rightarrow> bool) \<Rightarrow> nat \<Rightarrow> audit_files \<Rightarrow> audit_error option \<times> audit_files" where
  "shiftGenerations fails retain0 F =
    (let retain = (if retain0 < 1 then 1 else retain0) in
     if fails retain then (Some (ShiftFails retain), F)
     else shift_loop fails (retain - 1) (F(retain := None)))"

definition keepCurrent ::
  "bool \<Rightarrow> audit_error \<Rightarrow> logger \<Rightarrow> audit_files \<Rightarrow> audit_error option \<times> logger \<times> audit_files" where
  "keepCurrent open_ok cause l F =
    (if \<not> open_ok then (Some ErrUnavailable, l, F)
     else (Some cause, l\<lparr>lg_open := True\<rparr>, create_file F 0))"

record rotate_env =
  re_Marker :: write_env
  re_ShiftFails :: "nat \<Rightarrow> bool"
  re_RenameOk :: bool
  re_OpenOk :: bool
  re_RestoreOk :: bool
  re_ReopenOk :: bool
  re_Continued :: write_env

definition rotate_event :: "gotime \<Rightarrow> (gostring \<times> gostring) list \<Rightarrow> audit_event" where
  "rotate_event now extra =
    \<lparr>ev_Timestamp = now, ev_Action = ''audit_rotate'', ev_Outcome = ''ok'', ev_Path = [], ev_Accessor = [],
     ev_Actor = [], ev_RuntimeMode = [], ev_Backend = [], ev_BackendID = [], ev_KeyTerm = 0,
     ev_ReceiptID = [], ev_Extra = extra, ev_ServiceName = []\<rparr>"

definition rotate_log ::
  "audit_crypto \<Rightarrow> rotate_env \<Rightarrow> logger \<Rightarrow> audit_files \<Rightarrow> audit_error option \<times> logger \<times> audit_files" where
  "rotate_log A R l F =
    (if \<not> lg_open l then (Some ErrLogClosed, l, F)
     else let rotated = rotatedName (lg_path l) 1 in
       case writeEvent A (re_Marker R)
              (rotate_event (we_Now (re_Marker R)) [(''rotated_to'', rotated)]) l F of
         (Some e, l1, F1) \<Rightarrow> (Some e, l1, F1)
       | (None, l1, F1) \<Rightarrow>
          (let prevHMACForNewFile = lg_prevHMAC l1; l2 = l1\<lparr>lg_open := False\<rparr> in
           case shiftGenerations (re_ShiftFails R) (lg_retainFiles l2) F1 of
             (Some e, F2) \<Rightarrow> keepCurrent (re_ReopenOk R) e l2 F2
           | (None, F2) \<Rightarrow>
              if \<not> re_RenameOk R then keepCurrent (re_ReopenOk R) RotateRename l2 F2
              else (let F3 = rename_file 0 1 F2 in
                if \<not> re_OpenOk R then
                  (if \<not> re_RestoreOk R then (Some ErrUnavailable, l2, F3)
                   else keepCurrent (re_ReopenOk R) OpenAfterRotate l2 (rename_file 1 0 F3))
                else writeEvent A (re_Continued R)
                       (rotate_event (we_Now (re_Continued R))
                         [(''rotated_from'', rotated), (''prev_file_hmac'', prevHMACForNewFile)])
                       (l2\<lparr>lg_open := True, lg_seq := 0, lg_prevHMAC := []\<rparr>) (create_file F3 0))))"

definition appendEvent ::
  "audit_crypto \<Rightarrow> write_env \<Rightarrow> rotate_env \<Rightarrow> audit_event \<Rightarrow> logger \<Rightarrow> audit_files \<Rightarrow>
     audit_error option \<times> logger \<times> audit_files" where
  "appendEvent A W R e l F =
    (case writeEvent A W e l F of
       (Some err, l1, F1) \<Rightarrow> (Some err, l1, F1)
     | (None, l1, F1) \<Rightarrow>
        if \<not> we_StatOk W \<or> length (file_bytes F1 0) \<le> lg_maxSize l1 \<or> we_Now W < lg_nextRotate l1 then (None, l1, F1)
        else (case rotate_log A R l1 F1 of
                (None, l2, F2) \<Rightarrow> (None, l2, F2)
              | (Some err, l2, F2) \<Rightarrow>
                 (let l3 = l2\<lparr>lg_nextRotate := we_Now W + rotateRetryInterval\<rparr> in
                  if \<not> lg_open l3 then (Some err, l3, F2) else (None, l3, F2))))"

subsection \<open>Verification\<close>

datatype bad_reason = MalformedLine | BadHeaderBase64 | BadHeaderJSON | FirstSeq int | FirstPrev
  | SeqGap int int | ChainMismatch | BadBody | AEADFailed

record chain_report =
  cr_TotalLines :: nat
  cr_Verified :: nat
  cr_FirstBad :: "(nat \<times> bad_reason) option"

text \<open>\<open>envelope.Open\<close> under each key in turn.\<close>

fun openSealed :: "audit_crypto \<Rightarrow> gostring list \<Rightarrow> gostring \<Rightarrow> gostring \<Rightarrow> gostring \<Rightarrow> gostring option" where
  "openSealed A [] ct nonce hdr = None"
| "openSealed A (k # ks) ct nonce hdr =
    (case au_OpenSealed A k nonce ct hdr of Some pt \<Rightarrow> Some pt | None \<Rightarrow> openSealed A ks ct nonce hdr)"

text \<open>The sequence and chain checks of one parsed header, then the body in full mode.\<close>

definition header_check :: "nat \<Rightarrow> int \<Rightarrow> gostring \<Rightarrow> chain_header \<Rightarrow> bad_reason option" where
  "header_check lineNum prevSeq prevHMAC hdr =
    (if lineNum = 1 then
       (if ch_Seq hdr \<noteq> 1 then Some (FirstSeq (ch_Seq hdr))
        else if ch_PrevHMAC hdr \<noteq> replicate 32 (CHR ''0'') then Some FirstPrev else None)
     else if ch_Seq hdr \<noteq> prevSeq + 1 then Some (SeqGap (ch_Seq hdr) (prevSeq + 1))
     else if ch_PrevHMAC hdr \<noteq> prevHMAC then Some ChainMismatch else None)"

definition body_check ::
  "audit_crypto \<Rightarrow> gostring list option \<Rightarrow> gostring \<Rightarrow> gostring \<Rightarrow> bad_reason option" where
  "body_check A deks hdrBytes body =
    (case deks of None \<Rightarrow> None
     | Some keys \<Rightarrow>
        (case au_Unbase64 A body of None \<Rightarrow> Some BadBody
         | Some sealed \<Rightarrow>
            if length sealed < 24 then Some BadBody
            else if openSealed A keys (drop 24 sealed) (take 24 sealed) hdrBytes = None
              then Some AEADFailed else None))"

definition note_bad :: "nat \<Rightarrow> bad_reason option \<Rightarrow> chain_report \<Rightarrow> chain_report" where
  "note_bad n bad r =
    (case bad of None \<Rightarrow> r
     | Some b \<Rightarrow> (case cr_FirstBad r of None \<Rightarrow> r\<lparr>cr_FirstBad := Some (n, b)\<rparr> | Some _ \<Rightarrow> r))"

text \<open>The loop over the lines: line number, previous sequence, previous MAC and report so far.\<close>

fun verify_lines ::
  "audit_crypto \<Rightarrow> gostring \<Rightarrow> gostring list option \<Rightarrow> nat \<Rightarrow> int \<Rightarrow> gostring \<Rightarrow> gostring list \<Rightarrow>
     chain_report \<Rightarrow> chain_report" where
  "verify_lines A key deks n prevSeq prevHMAC [] r = r"
| "verify_lines A key deks n prevSeq prevHMAC (line # lines) r =
    (if line = [] then verify_lines A key deks n prevSeq prevHMAC lines r
     else let lineNum = Suc n; r1 = r\<lparr>cr_TotalLines := Suc (cr_TotalLines r)\<rparr>; mac = au_MAC A key line in
       case SplitN 2 line (CHR '' '') of
         [h, body] \<Rightarrow>
           (case au_Unbase64 A h of
              None \<Rightarrow> verify_lines A key deks lineNum prevSeq mac lines (note_bad lineNum (Some BadHeaderBase64) r1)
            | Some hdrBytes \<Rightarrow>
               (case au_ParseHeader A hdrBytes of
                  None \<Rightarrow> verify_lines A key deks lineNum prevSeq mac lines (note_bad lineNum (Some BadHeaderJSON) r1)
                | Some hdr \<Rightarrow>
                   (let bad = (case header_check lineNum prevSeq prevHMAC hdr of
                                 Some b \<Rightarrow> Some b | None \<Rightarrow> body_check A deks hdrBytes body);
                        r2 = note_bad lineNum bad r1;
                        r3 = (if bad = None then r2\<lparr>cr_Verified := Suc (cr_Verified r2)\<rparr> else r2)
                    in verify_lines A key deks lineNum (ch_Seq hdr) mac lines r3)))
       | _ \<Rightarrow> verify_lines A key deks lineNum prevSeq mac lines (note_bad lineNum (Some MalformedLine) r1))"

text \<open>\<open>deks\<close> is \<open>None\<close> in header-only mode and otherwise the current key and the older ones; the file
  is \<open>None\<close> when it cannot be opened.\<close>

definition VerifyChain ::
  "audit_crypto \<Rightarrow> gostring \<Rightarrow> gostring list option \<Rightarrow> gostring option \<Rightarrow> audit_error + chain_report" where
  "VerifyChain A salt deks file =
    (case file of None \<Rightarrow> Inl OpenLog
     | Some bytes \<Rightarrow> Inr (verify_lines A (au_ChainKey A salt) deks 0 0 [] (scan_lines [] bytes)
         \<lparr>cr_TotalLines = 0, cr_Verified = 0, cr_FirstBad = None\<rparr>))"

subsection \<open>The backward scan\<close>

text \<open>What the scan computes, on the whole file at once.\<close>

definition last_line :: "gostring \<Rightarrow> gostring" where
  "last_line s = (case last_newline (TrimRight_newlines s) of Some i \<Rightarrow> drop (Suc i) s | None \<Rightarrow> s)"

lemma last_newline_None: "last_newline s = None \<longleftrightarrow> newline \<notin> set s"
  by (induction s) (auto split: option.splits)

lemma last_newline_append:
  "last_newline (p @ s) = (case last_newline s of Some i \<Rightarrow> Some (length p + i) | None \<Rightarrow> last_newline p)"
  by (induction p) (auto split: option.splits)

lemma TrimRight_append:
  "TrimRight_newlines s \<noteq> [] \<Longrightarrow> TrimRight_newlines (p @ s) = p @ TrimRight_newlines s"
  by (auto simp: TrimRight_newlines_def dropWhile_append)

lemma last_line_suffix:
  assumes "last_newline (TrimRight_newlines s) = Some i"
  shows "last_line (p @ s) = drop (Suc i) s"
proof -
  have "TrimRight_newlines s \<noteq> []" using assms by auto
  then show ?thesis using assms by (simp add: last_line_def TrimRight_append last_newline_append)
qed

declare read_last_loop.simps [simp del]

lemma read_last_loop_last_line:
  assumes "pos \<le> length s" and "0 < pos \<or> last_newline (TrimRight_newlines s) = None"
  shows "read_last_loop s pos (drop pos s) = last_line s"
  using assms
proof (induction s pos "drop pos s" rule: read_last_loop.induct)
  case (1 s pos)
  show ?case
  proof (cases "pos = 0")
    case True
    with 1 show ?thesis by (subst read_last_loop.simps) (simp add: last_line_def)
  next
    case False
    define k where "k = min 4096 pos"
    define q where "q = pos - k"
    have q: "q < pos" "q + k = pos" using False by (auto simp: q_def k_def)
    then have buf: "take k (drop q s) @ drop pos s = drop q s"
      by (metis append_take_drop_id drop_drop add.commute)
    have unf: "read_last_loop s pos (drop pos s) =
        (case last_newline (TrimRight_newlines (drop q s)) of
           Some idx \<Rightarrow> drop (Suc idx) (drop q s)
         | None \<Rightarrow> if q = 0 then drop q s else read_last_loop s q (drop q s))"
      by (subst read_last_loop.simps)
        (simp only: Let_def k_def [symmetric] q_def [symmetric] buf False if_False)
    show ?thesis
    proof (cases "last_newline (TrimRight_newlines (drop q s))")
      case None
      have "read_last_loop s q (drop q s) = last_line s" if "q \<noteq> 0"
        using 1(1) [OF False k_def q_def _ None] buf that q 1(2) by simp
      with None unf show ?thesis by (cases "q = 0") (simp_all add: last_line_def)
    next
      case (Some i)
      with last_line_suffix [OF Some, of "take q s"] unf show ?thesis by simp
    qed
  qed
qed

lemma readLastLine_last_line: "readLastLine s = last_line s"
  using read_last_loop_last_line [of "length s" s]
  by (cases "s = []") (auto simp: readLastLine_def last_line_def TrimRight_newlines_def)

text \<open>On a file of terminated lines it is the last line.\<close>

definition file_of :: "gostring list \<Rightarrow> gostring" where
  "file_of ls = concat (map (\<lambda>l. l @ [newline]) ls)"

lemma file_of_simps [simp]: "file_of [] = []" "file_of (ls @ [l]) = file_of ls @ l @ [newline]"
  "file_of (l # ls) = l @ [newline] @ file_of ls"
  by (simp_all add: file_of_def)

lemma last_newline_file_of: "ls \<noteq> [] \<Longrightarrow> last_newline (file_of ls) = Some (length (file_of ls) - 1)"
  by (induction ls rule: rev_induct) (simp_all add: last_newline_append)

lemma TrimRight_line: "newline \<notin> set l \<Longrightarrow> l \<noteq> [] \<Longrightarrow> TrimRight_newlines (l @ [newline]) = l"
  by (cases l rule: rev_cases) (auto simp: TrimRight_newlines_def)

lemma last_line_file_of:
  assumes "newline \<notin> set l" and "l \<noteq> []"
  shows "TrimRight_newlines (readLastLine (file_of (ls @ [l]))) = l"
proof (cases "ls = []")
  case True
  have "last_newline l = None" using assms(1) by (simp add: last_newline_None)
  with True assms show ?thesis by (simp add: readLastLine_last_line last_line_def TrimRight_line)
next
  case False
  have "last_newline l = None" using assms(1) by (simp add: last_newline_None)
  moreover have "TrimRight_newlines (file_of ls @ l @ [newline]) = file_of ls @ l"
    using TrimRight_append [of "l @ [newline]" "file_of ls"] TrimRight_line [OF assms] assms(2) by simp
  moreover have "file_of ls \<noteq> []" using False by (cases ls) auto
  ultimately have "last_line (file_of (ls @ [l])) = l @ [newline]"
    using False by (simp add: last_line_def last_newline_append last_newline_file_of)
  then show ?thesis using assms by (simp add: readLastLine_last_line TrimRight_line)
qed

lemma scan_lines_file_of:
  "\<forall>l \<in> set ls. newline \<notin> set l \<Longrightarrow> scan_lines [] (file_of ls) = ls"
proof (induction ls)
  case (Cons l ls)
  have "newline \<notin> set l \<Longrightarrow> scan_lines acc (l @ newline # s) = (acc @ l) # scan_lines [] s" for acc s
    by (induction l arbitrary: acc) auto
  with Cons show ?case by simp
qed simp

subsection \<open>Well-formed files\<close>

text \<open>What the log relies on from base64, \<open>encoding/json\<close> on its header and the AEAD: each decoder
  undoes its encoder and base64 text has neither a space nor a line feed.\<close>

definition codec_ok :: "audit_crypto \<Rightarrow> bool" where
  "codec_ok A \<longleftrightarrow>
    (\<forall>s. au_Unbase64 A (au_Base64 A s) = Some s) \<and>
    (\<forall>s. CHR '' '' \<notin> set (au_Base64 A s) \<and> newline \<notin> set (au_Base64 A s)) \<and>
    (\<forall>h. au_ParseHeader A (au_HeaderJSON A h) = Some h) \<and>
    (\<forall>k n p h. au_OpenSealed A k n (au_Seal A k n p h) h = Some p)"

lemma codec_okD:
  assumes "codec_ok A"
  shows "au_Unbase64 A (au_Base64 A s) = Some s" "CHR '' '' \<notin> set (au_Base64 A s)"
    "newline \<notin> set (au_Base64 A s)" "au_ParseHeader A (au_HeaderJSON A h) = Some h"
    "au_OpenSealed A k n (au_Seal A k n p x) x = Some p"
  using assms by (auto simp: codec_ok_def)

definition zeros32 :: gostring where "zeros32 = replicate 32 (CHR ''0'')"

text \<open>The \<open>n\<close>th line of a chain, sealed under one of the keys \<open>K\<close>.\<close>

definition line_ok :: "audit_crypto \<Rightarrow> gostring set \<Rightarrow> nat \<Rightarrow> gostring \<Rightarrow> gostring \<Rightarrow> bool" where
  "line_ok A K n prev line \<longleftrightarrow>
    (\<exists>l hdr nonce json. line = event_line A l hdr nonce json \<and> lg_auditDEK l \<in> K \<and> length nonce = 24 \<and>
       ch_Seq hdr = int n \<and> ch_PrevHMAC hdr = (if n = 1 then zeros32 else prev))"

lemma line_okI:
  "lg_auditDEK l \<in> K \<Longrightarrow> length nonce = 24 \<Longrightarrow> ch_Seq hdr = int n \<Longrightarrow>
    ch_PrevHMAC hdr = (if n = 1 then zeros32 else prev) \<Longrightarrow> line_ok A K n prev (event_line A l hdr nonce json)"
  unfolding line_ok_def by blast

fun lines_ok :: "audit_crypto \<Rightarrow> gostring \<Rightarrow> gostring set \<Rightarrow> nat \<Rightarrow> gostring \<Rightarrow> gostring list \<Rightarrow> bool" where
  "lines_ok A key K n prev [] = True"
| "lines_ok A key K n prev (line # ls) =
    (line_ok A K (Suc n) prev line \<and> lines_ok A key K (Suc n) (au_MAC A key line) ls)"

text \<open>The MAC the next line has to carry.\<close>

definition head_mac :: "audit_crypto \<Rightarrow> gostring \<Rightarrow> gostring list \<Rightarrow> gostring" where
  "head_mac A key ls = (if ls = [] then [] else au_MAC A key (last ls))"

lemma lines_ok_append:
  "lines_ok A key K n prev (ls @ [line]) \<longleftrightarrow>
     lines_ok A key K n prev ls \<and>
     line_ok A K (Suc (n + length ls)) (if ls = [] then prev else head_mac A key ls) line"
  by (induction A key K n prev ls rule: lines_ok.induct) (auto simp: head_mac_def)

lemma line_ok_mono: "line_ok A K n prev line \<Longrightarrow> K \<subseteq> K' \<Longrightarrow> line_ok A K' n prev line"
  unfolding line_ok_def by blast

lemma lines_ok_mono: "lines_ok A key K n prev ls \<Longrightarrow> K \<subseteq> K' \<Longrightarrow> lines_ok A key K' n prev ls"
  by (induction A key K n prev ls rule: lines_ok.induct) (auto intro: line_ok_mono)

lemma event_line_parts:
  assumes "codec_ok A"
  shows "newline \<notin> set (event_line A l hdr nonce json)" and "event_line A l hdr nonce json \<noteq> []"
    and "SplitN 2 (event_line A l hdr nonce json) (CHR '' '') =
      [au_Base64 A (au_HeaderJSON A hdr),
       au_Base64 A (nonce @ au_Seal A (lg_auditDEK l) nonce json (au_HeaderJSON A hdr))]"
  using codec_okD [OF assms]
  by (auto simp: event_line_def Let_def numeral_2_eq_2 Cut_def takeWhile_tail dropWhile_append)

lemma lines_ok_no_newline:
  "codec_ok A \<Longrightarrow> lines_ok A key K n prev ls \<Longrightarrow> \<forall>l \<in> set ls. newline \<notin> set l \<and> l \<noteq> []"
  by (induction A key K n prev ls rule: lines_ok.induct) (auto simp: line_ok_def event_line_parts)

lemma openSealed_opens:
  "k \<in> set ks \<Longrightarrow> au_OpenSealed A k nonce ct hdr \<noteq> None \<Longrightarrow> openSealed A ks ct nonce hdr \<noteq> None"
  by (induction ks) (auto split: option.splits)

definition deks_cover :: "gostring list option \<Rightarrow> gostring set \<Rightarrow> bool" where
  "deks_cover deks K = (case deks of None \<Rightarrow> True | Some ks \<Rightarrow> K \<subseteq> set ks)"

lemma body_check_sealed:
  assumes "codec_ok A" "deks_cover deks K" "k \<in> K" "length nonce = 24"
  shows "body_check A deks hdr (au_Base64 A (nonce @ au_Seal A k nonce json hdr)) = None"
proof (cases deks)
  case (Some ks)
  with assms(2,3) have "k \<in> set ks" by (auto simp: deks_cover_def)
  then have "openSealed A ks (au_Seal A k nonce json hdr) nonce hdr \<noteq> None"
    by (rule openSealed_opens) (simp add: codec_okD [OF assms(1)])
  with Some assms(4) show ?thesis by (simp add: body_check_def codec_okD [OF assms(1)])
qed (simp add: body_check_def)

lemma verify_line_ok:
  assumes "codec_ok A" "deks_cover deks K" "line_ok A K (Suc n) prev line"
  shows "verify_lines A key deks n (int n) prev (line # ls) r =
    verify_lines A key deks (Suc n) (int (Suc n)) (au_MAC A key line) ls
      (r\<lparr>cr_TotalLines := Suc (cr_TotalLines r), cr_Verified := Suc (cr_Verified r)\<rparr>)"
proof -
  obtain l hdr nonce json where line: "line = event_line A l hdr nonce json"
    and K: "lg_auditDEK l \<in> K" "length nonce = 24" and "ch_Seq hdr = int (Suc n)"
    and "ch_PrevHMAC hdr = (if Suc n = 1 then zeros32 else prev)"
    using assms(3) by (auto simp: line_ok_def)
  then show ?thesis
    using event_line_parts [OF assms(1), of l hdr nonce json] body_check_sealed [OF assms(1,2) K]
    by (simp add: Let_def codec_okD [OF assms(1)] header_check_def zeros32_def note_bad_def)
qed

lemma verify_lines_ok:
  assumes "codec_ok A" "deks_cover deks K" "lines_ok A key K n prev ls"
  shows "verify_lines A key deks n (int n) prev (ls @ rest) r =
    verify_lines A key deks (n + length ls) (int (n + length ls))
      (if ls = [] then prev else au_MAC A key (last ls)) rest
      (r\<lparr>cr_TotalLines := cr_TotalLines r + length ls, cr_Verified := cr_Verified r + length ls\<rparr>)"
  using assms(3)
proof (induction ls arbitrary: n prev r)
  case (Cons line ls)
  then have "line_ok A K (Suc n) prev line" "lines_ok A key K (Suc n) (au_MAC A key line) ls" by simp_all
  then show ?case by (simp only: append_Cons verify_line_ok [OF assms(1,2)] Cons.IH) simp
qed simp

definition file_ok :: "audit_crypto \<Rightarrow> gostring \<Rightarrow> gostring set \<Rightarrow> gostring \<Rightarrow> bool" where
  "file_ok A key K s \<longleftrightarrow> (\<exists>ls. s = file_of ls \<and> lines_ok A key K 0 [] ls)"

lemma VerifyChain_file_ok:
  assumes "codec_ok A" "deks_cover deks K" "lines_ok A (au_ChainKey A salt) K 0 [] ls"
  shows "VerifyChain A salt deks (Some (file_of ls)) =
    Inr \<lparr>cr_TotalLines = length ls, cr_Verified = length ls, cr_FirstBad = None\<rparr>"
  using verify_lines_ok [OF assms, of "[]" "\<lparr>cr_TotalLines = 0, cr_Verified = 0, cr_FirstBad = None\<rparr>"]
    lines_ok_no_newline [OF assms(1,3)]
  by (simp add: VerifyChain_def scan_lines_file_of)

subsection \<open>The invariant of a logger and its files\<close>

definition files_ok :: "audit_crypto \<Rightarrow> gostring \<Rightarrow> gostring set \<Rightarrow> audit_files \<Rightarrow> bool" where
  "files_ok A salt K F \<longleftrightarrow> (\<forall>g s. F g = Some s \<longrightarrow> file_ok A (au_ChainKey A salt) K s)"

text \<open>The chain state a logger keeps is that of the live file.\<close>

definition chain_at :: "audit_crypto \<Rightarrow> gostring \<Rightarrow> gostring set \<Rightarrow> logger \<Rightarrow> audit_files \<Rightarrow> bool" where
  "chain_at A salt K l F \<longleftrightarrow>
    (\<exists>ls. F 0 = Some (file_of ls) \<and> lines_ok A (au_ChainKey A salt) K 0 [] ls \<and>
       lg_seq l = int (length ls) \<and> lg_prevHMAC l = head_mac A (au_ChainKey A salt) ls)"

definition log_inv :: "audit_crypto \<Rightarrow> gostring \<Rightarrow> gostring set \<Rightarrow> logger \<Rightarrow> audit_files \<Rightarrow> bool" where
  "log_inv A salt K l F \<longleftrightarrow>
    files_ok A salt K F \<and> lg_chainMACKey l = au_ChainKey A salt \<and> lg_auditDEK l \<in> K \<and>
    (lg_open l \<longrightarrow> chain_at A salt K l F)"

lemma files_ok_create: "files_ok A salt K F \<Longrightarrow> files_ok A salt K (create_file F 0)"
  by (auto simp: files_ok_def create_file_def file_bytes_def file_ok_def split: option.splits
      intro: exI [of _ "[]"])

lemma files_ok_rename: "files_ok A salt K F \<Longrightarrow> files_ok A salt K (rename_file a b F)"
  by (auto simp: files_ok_def rename_file_def split: option.splits)

lemma files_ok_shift_loop:
  "files_ok A salt K F \<Longrightarrow> shift_loop fails g F = (e, F') \<Longrightarrow> files_ok A salt K F'"
  by (induction fails g F rule: shift_loop.induct) (auto simp: files_ok_rename split: if_splits)

lemma files_ok_shift:
  assumes "files_ok A salt K F" and "shiftGenerations fails n F = (e, F')"
  shows "files_ok A salt K F'"
proof -
  have "files_ok A salt K (F(m := None))" for m using assms(1) by (auto simp: files_ok_def)
  then show ?thesis using assms
    by (auto simp: shiftGenerations_def Let_def split: if_splits elim: files_ok_shift_loop [rotated])
qed

lemma shift_loop_live: "shift_loop fails g F = (e, F') \<Longrightarrow> F' 0 = F 0"
  by (induction fails g F rule: shift_loop.induct)
    (auto simp: rename_file_def split: if_splits option.splits)

lemma shift_live: "shiftGenerations fails n F = (e, F') \<Longrightarrow> F' 0 = F 0"
  by (auto simp: shiftGenerations_def Let_def dest!: shift_loop_live split: if_splits)

lemma seedChainState_ok:
  assumes "codec_ok A" and F: "F 0 = Some (file_of ls)" and ls: "lines_ok A key K 0 [] ls"
    and key: "lg_chainMACKey l = key"
  shows "seedChainState A l F = Inr (l\<lparr>lg_seq := int (length ls), lg_prevHMAC := head_mac A key ls\<rparr>)"
proof (cases ls rule: rev_cases)
  case Nil
  with F show ?thesis by (simp add: seedChainState_def file_bytes_def head_mac_def)
next
  case (snoc ys line)
  obtain m hdr nonce json where line: "line = event_line A m hdr nonce json" and "ch_Seq hdr = int (Suc (length ys))"
    using ls by (auto simp: snoc lines_ok_append line_ok_def)
  then show ?thesis
    using F key snoc event_line_parts [OF assms(1), of m hdr nonce json]
      last_line_file_of [of line ys]
    by (simp add: seedChainState_def file_bytes_def head_mac_def codec_okD [OF assms(1)])
qed

lemma ensureFile_inv:
  assumes "codec_ok A" and inv: "log_inv A salt K l F" and e: "ensureFile A ok l F = (err, l', F')"
  shows "log_inv A salt K l' F' \<and> (err = None \<longrightarrow> lg_open l') \<and> lg_retainFiles l' = lg_retainFiles l
    \<and> (\<forall>g. g \<noteq> 0 \<longrightarrow> F' g = F g)"
proof (cases "lg_closed l \<or> lg_open l \<or> \<not> ok")
  case True
  with inv e show ?thesis by (auto simp: ensureFile_def split: if_splits)
next
  case False
  define F1 where "F1 = create_file F 0"
  have f: "files_ok A salt K F1" using inv by (simp add: F1_def log_inv_def files_ok_create)
  moreover have "F1 0 = Some (file_bytes F 0)" by (simp add: F1_def create_file_def)
  ultimately obtain ls where ls: "F1 0 = Some (file_of ls)" "lines_ok A (au_ChainKey A salt) K 0 [] ls"
    by (auto simp: files_ok_def file_ok_def)
  have "seedChainState A l F1 =
      Inr (l\<lparr>lg_seq := int (length ls), lg_prevHMAC := head_mac A (au_ChainKey A salt) ls\<rparr>)"
    using seedChainState_ok [OF assms(1), where F = F1, OF ls] inv by (simp add: log_inv_def)
  with False e have "F' = F1" and "err = None" and "l' =
      l\<lparr>lg_seq := int (length ls), lg_prevHMAC := head_mac A (au_ChainKey A salt) ls, lg_open := True\<rparr>"
    by (auto simp: ensureFile_def F1_def Let_def)
  moreover have "\<forall>g. g \<noteq> 0 \<longrightarrow> F1 g = F g" by (simp add: F1_def create_file_def)
  ultimately show ?thesis using inv f ls by (auto simp: log_inv_def chain_at_def)
qed

text \<open>The calls whose write either succeeds or leaves no bytes, with a nonce of the AEAD's length.\<close>

definition clean_write :: "write_env \<Rightarrow> bool" where
  "clean_write W \<longleftrightarrow> we_Io W \<in> {LogOk, LogWriteFails 0} \<and> (\<forall>n. we_Nonce W = Some n \<longrightarrow> length n = 24)"

lemma chain_at_append:
  assumes "chain_at A salt K l F" "lg_chainMACKey l = au_ChainKey A salt" "lg_auditDEK l \<in> K"
    "length nonce = 24" and line: "line = event_line A l (next_header l ts) nonce json"
  shows "chain_at A salt K (l\<lparr>lg_seq := lg_seq l + 1, lg_prevHMAC := au_MAC A (lg_chainMACKey l) line\<rparr>)
    (append_bytes (line @ [newline]) F)"
proof -
  obtain ls where ls: "F 0 = Some (file_of ls)" "lines_ok A (au_ChainKey A salt) K 0 [] ls"
    "lg_seq l = int (length ls)" "lg_prevHMAC l = head_mac A (au_ChainKey A salt) ls"
    using assms(1) by (auto simp: chain_at_def)
  have "line_ok A K (Suc (length ls)) (head_mac A (au_ChainKey A salt) ls) line"
    unfolding line
    by (rule line_okI) (use assms(3,4) ls in \<open>simp_all add: next_header_def zeros32_def head_mac_def Let_def\<close>)
  with ls have "lines_ok A (au_ChainKey A salt) K 0 [] (ls @ [line])"
    by (auto simp: lines_ok_append head_mac_def split: if_splits)
  with ls assms(2) show ?thesis
    by (auto simp: chain_at_def append_bytes_def file_bytes_def head_mac_def intro!: exI [of _ "ls @ [line]"])
qed

lemma files_ok_append:
  "files_ok A salt K F \<Longrightarrow> chain_at A salt K l (append_bytes s F) \<Longrightarrow> files_ok A salt K (append_bytes s F)"
  by (auto simp: files_ok_def chain_at_def file_ok_def append_bytes_def split: if_splits)

text \<open>What a successful write leaves besides the invariant: an open logger, the other generations as
  they were, and at least one line in the live file.\<close>

definition wrote :: "logger \<Rightarrow> audit_files \<Rightarrow> logger \<Rightarrow> audit_files \<Rightarrow> bool" where
  "wrote l F l' F' \<longleftrightarrow> lg_open l' \<and> lg_retainFiles l' = lg_retainFiles l \<and> (\<forall>g. g \<noteq> 0 \<longrightarrow> F' g = F g) \<and> F' 0 \<noteq> None"

lemma writeEvent_inv:
  assumes A: "codec_ok A" and W: "clean_write W" and inv: "log_inv A salt K l F"
    and w: "writeEvent A W e l F = (err, l', F')"
  shows "log_inv A salt K l' F' \<and> (err = None \<longrightarrow> wrote l F l' F')"
proof -
  obtain err0 l0 F0 where ef: "ensureFile A (we_OpenOk W) l F = (err0, l0, F0)" by (cases rule: prod_cases3)
  note i0 = ensureFile_inv [OF A inv ef]
  show ?thesis
  proof (cases err0)
    case (Some x)
    with w ef i0 show ?thesis by (auto simp: writeEvent_def)
  next
    case None
    with i0 have o: "lg_open l0" and f0: "files_ok A salt K F0" and c0: "chain_at A salt K l0 F0"
      and k0: "lg_chainMACKey l0 = au_ChainKey A salt" and d0: "lg_auditDEK l0 \<in> K"
      by (auto simp: log_inv_def)
    have unchanged: "append_bytes [] F0 = F0"
      using c0 by (auto simp: append_bytes_def file_bytes_def chain_at_def)
    show ?thesis
    proof (cases "err = None")
      case False
      with w ef None W unchanged have "l' = l0 \<and> F' = F0"
        by (auto simp: writeEvent_def clean_write_def Let_def split: option.splits log_io.splits)
      with i0 False show ?thesis by auto
    next
      case True
      with w ef None obtain nonce json ts line where n: "we_Nonce W = Some nonce"
        and line: "line = event_line A l0 (next_header l0 ts) nonce json"
        and l': "l' = l0\<lparr>lg_seq := ch_Seq (next_header l0 ts), lg_prevHMAC := au_MAC A (lg_chainMACKey l0) line\<rparr>"
        and F': "F' = append_bytes (line @ [newline]) F0"
        by (simp add: writeEvent_def Let_def split: option.splits log_io.splits prod.splits) blast
      have s: "ch_Seq (next_header l0 ts) = lg_seq l0 + 1" by (simp add: next_header_def Let_def)
      have "chain_at A salt K l' F'"
        using chain_at_append [OF c0 k0 d0 _ line] W n by (simp add: l' F' s clean_write_def)
      with files_ok_append [OF f0] k0 d0 have "log_inv A salt K l' F'"
        by (auto simp: log_inv_def F' l')
      with o i0 show ?thesis by (simp add: wrote_def l' F' append_bytes_def)
    qed
  qed
qed

lemma keepCurrent_inv:
  assumes "log_inv A salt K l F" and "chain_at A salt K l F" and "keepCurrent ok c l F = (err, l', F')"
  shows "log_inv A salt K l' F'"
proof -
  have "create_file F 0 = F" using assms(2) by (auto simp: create_file_def file_bytes_def chain_at_def)
  with assms show ?thesis by (auto simp: keepCurrent_def log_inv_def chain_at_def split: if_splits)
qed

definition clean_rotate :: "rotate_env \<Rightarrow> bool" where
  "clean_rotate R \<longleftrightarrow> clean_write (re_Marker R) \<and> clean_write (re_Continued R)"

lemma rotate_inv:
  assumes A: "codec_ok A" and R: "clean_rotate R" and inv: "log_inv A salt K l F"
    and r: "rotate_log A R l F = (err, l', F')"
  shows "log_inv A salt K l' F'"
proof -
  obtain e1 l1 F1 where w: "writeEvent A (re_Marker R) (rotate_event (we_Now (re_Marker R))
      [(''rotated_to'', rotatedName (lg_path l) 1)]) l F = (e1, l1, F1)" by (cases rule: prod_cases3)
  obtain e2 F2 where sh: "shiftGenerations (re_ShiftFails R) (lg_retainFiles l1) F1 = (e2, F2)"
    by (cases rule: prod.exhaust)
  have i1: "log_inv A salt K l1 F1 \<and> (e1 = None \<longrightarrow> wrote l F l1 F1)"
    using writeEvent_inv [OF A _ inv w] R by (simp add: clean_rotate_def)
  consider "\<not> lg_open l" | "lg_open l" "e1 \<noteq> None" | "lg_open l" "e1 = None" by auto
  then show ?thesis
  proof cases
    case 3
    define l2 where "l2 = l1\<lparr>lg_open := False\<rparr>"
    have c1: "chain_at A salt K l1 F1" using i1 3 by (simp add: log_inv_def wrote_def)
    then have c2: "chain_at A salt K l2 F2" by (simp add: chain_at_def shift_live [OF sh] l2_def)
    have f2: "files_ok A salt K F2" using files_ok_shift [OF _ sh] i1 by (simp add: log_inv_def)
    then have i2: "log_inv A salt K l2 F2" using i1 by (simp add: log_inv_def l2_def)
    have f3: "files_ok A salt K (rename_file 0 1 F2)" by (rule files_ok_rename [OF f2])
    have restore: "rename_file 1 0 (rename_file 0 1 F2) 0 = F2 0" using c2
      by (auto simp: chain_at_def rename_file_def)
    have "log_inv A salt K (l2\<lparr>lg_open := True, lg_seq := 0, lg_prevHMAC := []\<rparr>)
        (create_file (rename_file 0 1 F2) 0)"
      using files_ok_create [OF f3] i2 c2
      by (auto simp: log_inv_def chain_at_def create_file_def file_bytes_def rename_file_def head_mac_def
          intro!: exI [of _ "[]"])
    note continued = writeEvent_inv [OF A _ this]
    have restored: "log_inv A salt K l2 (rename_file 1 0 (rename_file 0 1 F2))"
      "chain_at A salt K l2 (rename_file 1 0 (rename_file 0 1 F2))"
      using i2 c2 files_ok_rename [OF f3, of 1 0] by (simp_all add: log_inv_def chain_at_def restore [unfolded One_nat_def] l2_def)
    have "log_inv A salt K l2 (rename_file 0 1 F2)" using i2 f3 by (simp add: log_inv_def l2_def)
    with r 3 w sh show ?thesis
      using keepCurrent_inv [OF i2 c2] keepCurrent_inv [OF restored] continued R
      by (auto simp: rotate_log_def Let_def l2_def clean_rotate_def split: option.splits if_splits)
  qed (use r w i1 inv in \<open>auto simp: rotate_log_def\<close>)
qed

lemma appendEvent_inv:
  assumes A: "codec_ok A" and W: "clean_write W" and R: "clean_rotate R" and inv: "log_inv A salt K l F"
    and a: "appendEvent A W R e l F = (err, l', F')"
  shows "log_inv A salt K l' F'"
proof -
  obtain e1 l1 F1 where w: "writeEvent A W e l F = (e1, l1, F1)" by (cases rule: prod_cases3)
  obtain e2 l2 F2 where r: "rotate_log A R l1 F1 = (e2, l2, F2)" by (cases rule: prod_cases3)
  note i1 = writeEvent_inv [OF A W inv w]
  then have "log_inv A salt K l2 F2" using rotate_inv [OF A R _ r] by simp
  moreover from this have "log_inv A salt K (l2\<lparr>lg_nextRotate := t\<rparr>) F2" for t
    by (simp add: log_inv_def chain_at_def)
  ultimately show ?thesis using a w r i1
    by (auto simp: appendEvent_def Let_def split: option.splits if_splits)
qed

subsection \<open>Runs\<close>

text \<open>A process opens the log (dropping a logger it had) and uses it; \<open>salt\<close> is the installation's
  salt file. The logger is \<open>None\<close> until an \<open>Open\<close> succeeds.\<close>

datatype audit_op =
    OpOpen "nat option" bool gostring gostring
  | OpLog write_env rotate_env audit_event
  | OpRotate rotate_env
  | OpReady bool
  | OpAddReadKeys "gostring list"
  | OpClose

type_synonym audit_state = "logger option \<times> audit_files"

fun audit_do :: "audit_crypto \<Rightarrow> gostring \<Rightarrow> audit_op \<Rightarrow> audit_state \<Rightarrow> audit_state" where
  "audit_do A salt (OpOpen dir_mode ok path dek) (lo, F) =
    (case audit_Open A dir_mode ok path salt dek F of
       (Inl _, F') \<Rightarrow> (None, F') | (Inr l, F') \<Rightarrow> (Some l, F'))"
| "audit_do A salt oper (None, F) = (None, F)"
| "audit_do A salt (OpLog W R e) (Some l, F) = (case appendEvent A W R e l F of (_, l', F') \<Rightarrow> (Some l', F'))"
| "audit_do A salt (OpRotate R) (Some l, F) = (case rotate_log A R l F of (_, l', F') \<Rightarrow> (Some l', F'))"
| "audit_do A salt (OpReady ok) (Some l, F) = (case audit_Ready A ok l F of (_, l', F') \<Rightarrow> (Some l', F'))"
| "audit_do A salt (OpAddReadKeys ks) (Some l, F) = (Some (AddReadKeys ks l), F)"
| "audit_do A salt OpClose (Some l, F) = (Some (audit_Close l), F)"

fun audit_run :: "audit_crypto \<Rightarrow> gostring \<Rightarrow> audit_op list \<Rightarrow> audit_state \<Rightarrow> audit_state" where
  "audit_run A salt [] st = st"
| "audit_run A salt (oper # ops) st = audit_run A salt ops (audit_do A salt oper st)"

text \<open>The runs in which no write is torn and no \<open>fsync\<close> fails, and the keys they seal with.\<close>

fun clean_op :: "audit_op \<Rightarrow> bool" where
  "clean_op (OpLog W R e) = (clean_write W \<and> clean_rotate R)"
| "clean_op (OpRotate R) = clean_rotate R"
| "clean_op _ = True"

fun op_keys :: "audit_op \<Rightarrow> gostring set" where
  "op_keys (OpOpen m ok p dek) = {dek}"
| "op_keys _ = {}"

definition state_ok :: "audit_crypto \<Rightarrow> gostring \<Rightarrow> gostring set \<Rightarrow> audit_state \<Rightarrow> bool" where
  "state_ok A salt K st \<longleftrightarrow> files_ok A salt K (snd st) \<and> (\<forall>l. fst st = Some l \<longrightarrow> log_inv A salt K l (snd st))"

lemma log_inv_files: "log_inv A salt K l F \<Longrightarrow> files_ok A salt K F"
  by (simp add: log_inv_def)

lemma audit_Open_ok:
  assumes "codec_ok A" "files_ok A salt K F" "dek \<in> K" "audit_Open A m ok path salt dek F = (res, F')"
  shows "files_ok A salt K F' \<and> (\<forall>l. res = Inr l \<longrightarrow> log_inv A salt K l F')"
proof (cases "validateParentDir m = None \<and> ok")
  case True
  define F1 where "F1 = create_file F 0"
  have f: "files_ok A salt K F1" using assms(2) by (simp add: F1_def files_ok_create)
  moreover have "F1 0 = Some (file_bytes F 0)" by (simp add: F1_def create_file_def)
  ultimately obtain ls where ls: "F1 0 = Some (file_of ls)" "lines_ok A (au_ChainKey A salt) K 0 [] ls"
    by (auto simp: files_ok_def file_ok_def)
  note sd = seedChainState_ok [OF assms(1), where F = F1, OF ls]
  from True assms(4) have "F' = F1" by (auto simp: audit_Open_def F1_def Let_def)
  with True assms(3,4) f ls sd show ?thesis
    by (auto simp: audit_Open_def F1_def [symmetric] Let_def log_inv_def chain_at_def)
next
  case False
  with assms show ?thesis by (auto simp: audit_Open_def split: option.splits)
qed

lemma log_inv_AddReadKeys: "log_inv A salt K l F \<Longrightarrow> log_inv A salt K (AddReadKeys ks l) F"
  by (simp add: log_inv_def AddReadKeys_def chain_at_def)

lemma log_inv_Close: "log_inv A salt K l F \<Longrightarrow> log_inv A salt K (audit_Close l) F"
  by (simp add: log_inv_def audit_Close_def)

lemma audit_do_ok:
  assumes A: "codec_ok A" and st: "state_ok A salt K st" and "clean_op oper" "op_keys oper \<subseteq> K"
  shows "state_ok A salt K (audit_do A salt oper st)"
proof -
  obtain lo F where st': "st = (lo, F)" by (cases st)
  show ?thesis
  proof (cases "lo = None \<or> (\<exists>m ok p d. oper = OpOpen m ok p d)")
    case True
    then show ?thesis
      using audit_Open_ok [OF A, of salt K F] assms(2-) st'
      by (cases oper) (auto simp: state_ok_def split: prod.splits sum.splits)
  next
    case False
    then obtain l where "lo = Some l" by auto
    with False st st' assms(3) show ?thesis
      by (cases oper) (auto simp: state_ok_def audit_Ready_def log_inv_files log_inv_AddReadKeys log_inv_Close
        split: prod.splits dest: appendEvent_inv [OF A] rotate_inv [OF A] ensureFile_inv [OF A])
  qed
qed

lemma audit_run_ok:
  assumes "codec_ok A" "list_all clean_op ops" "(\<Union>oper \<in> set ops. op_keys oper) \<subseteq> K" "state_ok A salt K st"
  shows "state_ok A salt K (audit_run A salt ops st)"
  using assms(2-)
proof (induction ops arbitrary: st)
  case (Cons oper ops)
  then have "state_ok A salt K (audit_do A salt oper st)" by (intro audit_do_ok [OF assms(1)]) auto
  with Cons show ?case by simp
qed simp

text \<open>C20: Starting without a log, after any sequence of opens, events, rotations and closes, each of which
  may fail in any way except by a torn write or a failed \<open>fsync\<close>, \<open>VerifyChain\<close> accepts every line of
  every generation there is, without the keys and with the keys the events were sealed under.\<close>

theorem audit_run_verifies:
  assumes "codec_ok A" "list_all clean_op ops" "(\<Union>oper \<in> set ops. op_keys oper) \<subseteq> set keys"
    and run: "audit_run A salt ops (None, \<lambda>_. None) = (lo, F)" and "F g = Some s"
  shows "\<exists>n. VerifyChain A salt None (Some s) = Inr \<lparr>cr_TotalLines = n, cr_Verified = n, cr_FirstBad = None\<rparr>
    \<and> VerifyChain A salt (Some keys) (Some s) = Inr \<lparr>cr_TotalLines = n, cr_Verified = n, cr_FirstBad = None\<rparr>"
proof -
  have "state_ok A salt (set keys) (None, \<lambda>_. None)" by (simp add: state_ok_def files_ok_def)
  from audit_run_ok [OF assms(1-3) this] run assms(5)
  obtain ls where "s = file_of ls" "lines_ok A (au_ChainKey A salt) (set keys) 0 [] ls"
    by (auto simp: state_ok_def files_ok_def file_ok_def)
  then show ?thesis
    using VerifyChain_file_ok [OF assms(1), of None "set keys"]
      VerifyChain_file_ok [OF assms(1), of "Some keys" "set keys"] by (auto simp: deks_cover_def)
qed

subsection \<open>Tampering\<close>

text \<open>The header of a line, as the verifier reads it, and what an accepted file says of its headers.\<close>

definition line_header :: "audit_crypto \<Rightarrow> gostring \<Rightarrow> chain_header option" where
  "line_header A line =
    (case SplitN 2 line (CHR '' '') of
       [h, body] \<Rightarrow> (case au_Unbase64 A h of None \<Rightarrow> None | Some b \<Rightarrow> au_ParseHeader A b)
     | _ \<Rightarrow> None)"

definition audit_lines :: "gostring \<Rightarrow> gostring list" where
  "audit_lines s = filter (\<lambda>l. l \<noteq> []) (scan_lines [] s)"

fun headers_ok :: "audit_crypto \<Rightarrow> gostring \<Rightarrow> nat \<Rightarrow> gostring \<Rightarrow> gostring list \<Rightarrow> bool" where
  "headers_ok A key n prev [] = True"
| "headers_ok A key n prev (line # ls) =
    ((\<exists>h. line_header A line = Some h \<and> ch_Seq h = int (Suc n) \<and> ch_PrevHMAC h = (if n = 0 then zeros32 else prev))
     \<and> headers_ok A key (Suc n) (au_MAC A key line) ls)"

lemma note_bad_FirstBad:
  "cr_FirstBad (note_bad n b r) = (if cr_FirstBad r = None then map_option (Pair n) b else cr_FirstBad r)"
  by (auto simp: note_bad_def split: option.splits)

text \<open>One step of the verifier: the reason to reject the line, and the sequence number it leaves.\<close>

definition line_bad ::
  "audit_crypto \<Rightarrow> gostring list option \<Rightarrow> nat \<Rightarrow> int \<Rightarrow> gostring \<Rightarrow> gostring \<Rightarrow> bad_reason option" where
  "line_bad A deks n prevSeq prevHMAC line =
    (case SplitN 2 line (CHR '' '') of
       [h, body] \<Rightarrow>
         (case au_Unbase64 A h of None \<Rightarrow> Some BadHeaderBase64
          | Some b \<Rightarrow>
             (case au_ParseHeader A b of None \<Rightarrow> Some BadHeaderJSON
              | Some hdr \<Rightarrow> (case header_check n prevSeq prevHMAC hdr of
                               Some bad \<Rightarrow> Some bad | None \<Rightarrow> body_check A deks b body)))
     | _ \<Rightarrow> Some MalformedLine)"

definition line_seq :: "audit_crypto \<Rightarrow> int \<Rightarrow> gostring \<Rightarrow> int" where
  "line_seq A prevSeq line = (case line_header A line of None \<Rightarrow> prevSeq | Some h \<Rightarrow> ch_Seq h)"

definition line_report :: "nat \<Rightarrow> bad_reason option \<Rightarrow> chain_report \<Rightarrow> chain_report" where
  "line_report n bad r =
    (let r2 = note_bad n bad (r\<lparr>cr_TotalLines := Suc (cr_TotalLines r)\<rparr>) in
     if bad = None then r2\<lparr>cr_Verified := Suc (cr_Verified r2)\<rparr> else r2)"

lemma verify_lines_step:
  "line \<noteq> [] \<Longrightarrow> verify_lines A key deks n prevSeq prevHMAC (line # ls) r =
    verify_lines A key deks (Suc n) (line_seq A prevSeq line) (au_MAC A key line) ls
      (line_report (Suc n) (line_bad A deks (Suc n) prevSeq prevHMAC line) r)"
  by (auto simp: line_bad_def line_seq_def line_header_def line_report_def Let_def split: list.splits option.splits)

lemma verify_lines_blank: "verify_lines A key deks n q m ([] # ls) r = verify_lines A key deks n q m ls r"
  by simp

declare verify_lines.simps(2) [simp del]

lemma line_report_FirstBad:
  "cr_FirstBad (line_report n bad r) =
    (if cr_FirstBad r = None then map_option (Pair n) bad else cr_FirstBad r)"
  by (simp add: line_report_def Let_def note_bad_FirstBad)

lemma verify_lines_filter:
  "verify_lines A key deks n q m (filter (\<lambda>l. l \<noteq> []) ls) r = verify_lines A key deks n q m ls r"
  by (induction ls arbitrary: n q m r) (auto simp: verify_lines_step verify_lines_blank)

lemma verify_lines_keeps_bad:
  "cr_FirstBad r \<noteq> None \<Longrightarrow> cr_FirstBad (verify_lines A key deks n q m ls r) = cr_FirstBad r"
proof (induction ls arbitrary: n q m r)
  case (Cons line ls)
  have "cr_FirstBad (line_report k bad r) = cr_FirstBad r" for k bad using Cons.prems
    by (auto simp: line_report_FirstBad)
  with Cons show ?case by (cases "line = []") (simp_all add: verify_lines_step verify_lines_blank)
qed simp

lemma line_bad_None:
  "line_bad A deks (Suc n) (int n) prev line = None \<Longrightarrow>
    \<exists>h. line_header A line = Some h \<and> ch_Seq h = int (Suc n) \<and> ch_PrevHMAC h = (if n = 0 then zeros32 else prev)"
  by (auto simp: line_bad_def line_header_def header_check_def zeros32_def
      split: list.splits option.splits if_splits)

lemma verify_lines_headers:
  assumes "[] \<notin> set ls" "cr_FirstBad (verify_lines A key deks n (int n) prev ls r) = None"
  shows "headers_ok A key n prev ls"
  using assms
proof (induction ls arbitrary: n prev r)
  case (Cons line ls)
  define bad where "bad = line_bad A deks (Suc n) (int n) prev line"
  have v: "verify_lines A key deks n (int n) prev (line # ls) r =
      verify_lines A key deks (Suc n) (line_seq A (int n) line) (au_MAC A key line) ls (line_report (Suc n) bad r)"
    using Cons.prems(1) by (auto simp: verify_lines_step bad_def)
  then have "cr_FirstBad (line_report (Suc n) bad r) = None"
    using Cons.prems(2) verify_lines_keeps_bad by metis
  then have "bad = None" by (simp add: line_report_FirstBad split: if_splits)
  then obtain h where h: "line_header A line = Some h" "ch_Seq h = int (Suc n)"
      "ch_PrevHMAC h = (if n = 0 then zeros32 else prev)"
    using line_bad_None by (metis bad_def)
  then have "line_seq A (int n) line = int (Suc n)" by (simp add: line_seq_def)
  with Cons v h show ?case by auto
qed simp

lemma VerifyChain_headers:
  assumes "VerifyChain A salt deks (Some s) = Inr r" "cr_FirstBad r = None"
  shows "headers_ok A (au_ChainKey A salt) 0 [] (audit_lines s)"
proof (rule verify_lines_headers)
  show "cr_FirstBad (verify_lines A (au_ChainKey A salt) deks 0 (int 0) [] (audit_lines s)
      \<lparr>cr_TotalLines = 0, cr_Verified = 0, cr_FirstBad = None\<rparr>) = None"
    using assms by (auto simp: VerifyChain_def audit_lines_def verify_lines_filter)
qed (simp add: audit_lines_def)

lemma headers_ok_append:
  "headers_ok A key n prev (ls @ [line]) \<longleftrightarrow> headers_ok A key n prev ls \<and>
    (\<exists>h. line_header A line = Some h \<and> ch_Seq h = int (Suc (n + length ls)) \<and>
       ch_PrevHMAC h = (if ls \<noteq> [] then au_MAC A key (last ls) else if n = 0 then zeros32 else prev))"
  by (induction A key n prev ls rule: headers_ok.induct) auto

definition mac_collision :: "audit_crypto \<Rightarrow> gostring \<Rightarrow> gostring list \<Rightarrow> gostring list \<Rightarrow> bool" where
  "mac_collision A key ls ls' \<longleftrightarrow>
    list_ex (\<lambda>x. list_ex (\<lambda>y. x \<noteq> y \<and> au_MAC A key x = au_MAC A key y) ls') ls"

lemma mac_collision_append: "mac_collision A key xs ys \<Longrightarrow> mac_collision A key (xs @ us) (ys @ vs)"
  by (auto simp: mac_collision_def list_ex_iff)

lemma headers_ok_last:
  assumes "headers_ok A key 0 [] ls" "headers_ok A key 0 [] ls'" "ls \<noteq> []" "ls' \<noteq> []" "last ls = last ls'"
  shows "ls = ls' \<or> mac_collision A key ls ls'"
  using assms
proof (induction ls arbitrary: ls' rule: rev_induct)
  case (snoc x xs)
  obtain ys where ls': "ls' = ys @ [x]" using snoc.prems(4,5) by (metis append_butlast_last_id last_snoc)
  obtain h where h: "line_header A x = Some h" "ch_Seq h = int (Suc (length xs))"
    "xs \<noteq> [] \<longrightarrow> ch_PrevHMAC h = au_MAC A key (last xs)"
    using snoc.prems(1) unfolding headers_ok_append by auto
  moreover obtain h' where "line_header A x = Some h'" "ch_Seq h' = int (Suc (length ys))"
    "ys \<noteq> [] \<longrightarrow> ch_PrevHMAC h' = au_MAC A key (last ys)"
    using snoc.prems(2) unfolding ls' headers_ok_append by auto
  ultimately have h': "ch_Seq h = int (Suc (length ys))" "ys \<noteq> [] \<longrightarrow> ch_PrevHMAC h = au_MAC A key (last ys)"
    by simp_all
  with h have len: "length xs = length ys" by simp
  show ?case
  proof (cases "xs = []")
    case True
    with len ls' show ?thesis by simp
  next
    case False
    with len have ne: "ys \<noteq> []" by auto
    have mac: "au_MAC A key (last xs) = au_MAC A key (last ys)" using h h' False ne by simp
    have "xs = ys \<or> mac_collision A key xs ys" if "last xs = last ys"
      using snoc.IH [of ys] snoc.prems ls' False ne that by (simp add: headers_ok_append)
    moreover have "mac_collision A key xs ys" if "last xs \<noteq> last ys"
      using mac that last_in_set [OF False] last_in_set [OF ne] unfolding mac_collision_def list_ex_iff by blast
    ultimately show ?thesis unfolding ls' by (metis mac_collision_append)
  qed
qed simp

text \<open>C21: The chain pins the whole file to its last line: if \<open>VerifyChain\<close> accepts two files, with or
  without keys, and they end in the same line, then they have the same lines, or two different lines of
  them have the same chain MAC.\<close>

theorem audit_tamper_evident:
  assumes "VerifyChain A salt deks (Some s) = Inr r" "cr_FirstBad r = None"
    and "VerifyChain A salt deks' (Some s') = Inr r'" "cr_FirstBad r' = None"
    and "audit_lines s \<noteq> []" "audit_lines s' \<noteq> []" "last (audit_lines s) = last (audit_lines s')"
  shows "audit_lines s = audit_lines s' \<or> mac_collision A (au_ChainKey A salt) (audit_lines s) (audit_lines s')"
  by (rule headers_ok_last [OF VerifyChain_headers [OF assms(1,2)] VerifyChain_headers [OF assms(3,4)] assms(5-7)])

subsection \<open>Rotation and failed syncs\<close>

lemma shift_loop_moves:
  assumes "shift_loop fails n F = (None, F')" and "F (Suc n) = None"
  shows "\<forall>g. 1 \<le> g \<and> g \<le> n \<longrightarrow> F' (Suc g) = F g" and "0 < n \<longrightarrow> F' 1 = None"
    and "\<forall>g. Suc n < g \<longrightarrow> F' g = F g"
  using assms
  by (induction fails n F rule: shift_loop.induct)
    (auto simp: rename_file_def le_Suc_eq split: if_splits option.splits)

lemma shiftGenerations_moves:
  assumes "shiftGenerations fails n F = (None, F')"
  shows "\<forall>g. 1 \<le> g \<and> g < max 1 n \<longrightarrow> F' (Suc g) = F g" and "\<forall>g. max 1 n < g \<longrightarrow> F' g = F g"
proof -
  define m where "m = max 1 n - 1"
  have m: "max 1 n = Suc m" by (simp add: m_def)
  have "shift_loop fails m (F(Suc m := None)) = (None, F')"
    using assms by (auto simp: shiftGenerations_def Let_def m_def max_def split: if_splits)
  from shift_loop_moves [OF this] show "\<forall>g. 1 \<le> g \<and> g < max 1 n \<longrightarrow> F' (Suc g) = F g"
    "\<forall>g. max 1 n < g \<longrightarrow> F' g = F g" unfolding m by auto
qed

text \<open>A write through an open file that reports success, or a failed sync.\<close>

lemma writeEvent_written:
  assumes "writeEvent A W e l F = (err, l', F')" and "lg_open l" and "err \<in> {None, Some ErrAuditFsyncFailed}"
  obtains nonce json hdr line where "we_Nonce W = Some nonce"
    and "hdr = next_header l (if ev_Timestamp e = zero_time then we_Now W else ev_Timestamp e)"
    and "au_EventJSON A (e\<lparr>ev_Timestamp := ch_TS hdr, ev_Extra := au_Redact A (lg_salt l) (ev_Action e) (ev_Extra e)\<rparr>)
      = Some json"
    and "line = event_line A l hdr nonce json" and "F' = append_bytes (line @ [newline]) F"
    and "l' = (if err = None then l\<lparr>lg_seq := ch_Seq hdr, lg_prevHMAC := au_MAC A (lg_chainMACKey l) line\<rparr> else l)"
proof -
  have ef: "ensureFile A (we_OpenOk W) l F = (if lg_closed l then (Some ErrLogClosed, l, F) else (None, l, F))"
    using assms(2) by (simp add: ensureFile_def)
  have ts: "ch_TS (next_header l t) = t" for t by (simp add: next_header_def Let_def)
  define t where "t = (if ev_Timestamp e = zero_time then we_Now W else ev_Timestamp e)"
  let ?e = "e\<lparr>ev_Timestamp := t, ev_Extra := au_Redact A (lg_salt l) (ev_Action e) (ev_Extra e)\<rparr>"
  have "au_EventJSON A ?e \<noteq> None \<and> we_Nonce W \<noteq> None \<and> \<not> lg_closed l"
    using assms ef by (auto simp: writeEvent_def t_def [symmetric] Let_def split: if_splits option.splits)
  then obtain json nonce where j: "au_EventJSON A ?e = Some json" "we_Nonce W = Some nonce" "\<not> lg_closed l" by auto
  show thesis
    by (rule that [OF j(2) refl _ refl])
      (use assms ef j in \<open>auto simp: writeEvent_def t_def [symmetric] ts Let_def split: log_io.splits\<close>)
qed

lemma rotate_event_simps: "ev_Timestamp (rotate_event t x) = t" "ev_Action (rotate_event t x) = ''audit_rotate''"
  "ev_Extra (rotate_event t x) = x"
  by (simp_all add: rotate_event_def)

text \<open>The stages of a rotation that reports success.\<close>

lemma rotate_success:
  assumes r: "rotate_log A R l F = (None, l', F')"
  obtains marker F1 F2 l1 where "F1 = append_bytes (marker @ [newline]) F"
    and "l1 = l\<lparr>lg_seq := lg_seq l1, lg_prevHMAC := au_MAC A (lg_chainMACKey l) marker\<rparr>"
    and "shiftGenerations (re_ShiftFails R) (lg_retainFiles l1) F1 = (None, F2)"
    and "writeEvent A (re_Continued R) (rotate_event (we_Now (re_Continued R))
      [(''rotated_from'', rotatedName (lg_path l) 1), (''prev_file_hmac'', lg_prevHMAC l1)])
      (l1\<lparr>lg_open := True, lg_seq := 0, lg_prevHMAC := []\<rparr>) (create_file (rename_file 0 1 F2) 0) = (None, l', F')"
proof -
  have o: "lg_open l" using r by (cases "lg_open l") (simp_all add: rotate_log_def)
  obtain e1 l1 F1 where w: "writeEvent A (re_Marker R) (rotate_event (we_Now (re_Marker R))
      [(''rotated_to'', rotatedName (lg_path l) 1)]) l F = (e1, l1, F1)" by (cases rule: prod_cases3)
  have e1: "e1 = None" using r w o by (cases e1) (simp_all add: rotate_log_def)
  obtain marker where m: "F1 = append_bytes (marker @ [newline]) F"
      "l1 = l\<lparr>lg_seq := lg_seq l1, lg_prevHMAC := au_MAC A (lg_chainMACKey l) marker\<rparr>"
    using e1 by (auto intro: writeEvent_written [OF w o])
  have kc: "fst (keepCurrent ok c x G) \<noteq> None" for ok c x G by (simp add: keepCurrent_def)
  obtain e2 F2 where sh: "shiftGenerations (re_ShiftFails R) (lg_retainFiles l1) F1 = (e2, F2)"
    by (cases rule: prod.exhaust)
  have e2: "e2 = None"
  proof (cases e2)
    case (Some x)
    with r w o e1 sh have "keepCurrent (re_ReopenOk R) x (l1\<lparr>lg_open := False\<rparr>) F2 = (None, l', F')"
      by (simp add: rotate_log_def Let_def)
    then show ?thesis using kc [of "re_ReopenOk R" x "l1\<lparr>lg_open := False\<rparr>" F2] by simp
  qed
  have ok: "re_RenameOk R \<and> re_OpenOk R"
  proof (rule ccontr)
    assume "\<not> (re_RenameOk R \<and> re_OpenOk R)"
    with r w o e1 sh e2 have "\<exists>c G. keepCurrent (re_ReopenOk R) c (l1\<lparr>lg_open := False\<rparr>) G = (None, l', F')"
      by (auto simp: rotate_log_def Let_def split: if_splits)
    then show False using kc by (metis fst_conv)
  qed
  show thesis
    by (rule that [OF m]) (use r w o e1 sh e2 ok in \<open>simp_all add: rotate_log_def Let_def\<close>)
qed

lemma rotate_success_archived:
  assumes "rotate_log A R l F = (None, l', F')"
  shows "F' 1 \<noteq> None"
proof -
  obtain marker F1 F2 l1 extra where F1: "F1 = append_bytes (marker @ [newline]) F"
    and sh: "shiftGenerations (re_ShiftFails R) (lg_retainFiles l1) F1 = (None, F2)"
    and w: "writeEvent A (re_Continued R) (rotate_event (we_Now (re_Continued R)) extra)
      (l1\<lparr>lg_open := True, lg_seq := 0, lg_prevHMAC := []\<rparr>) (create_file (rename_file 0 1 F2) 0) = (None, l', F')"
    by (rule rotate_success [OF assms])
  have "F2 0 \<noteq> None" using shift_live [OF sh] by (simp add: F1 append_bytes_def)
  moreover obtain line where "F' = append_bytes line (create_file (rename_file 0 1 F2) 0)"
    by (rule writeEvent_written [OF w]) auto
  ultimately show ?thesis by (auto simp: append_bytes_def create_file_def rename_file_def)
qed

text \<open>A rotation that reports success keeps every generation but the oldest, each one number higher;
  the old live file becomes generation 1 with one marker line added, and the new live file starts a chain
  with one line, at sequence 1, whose event carries the MAC of that marker.\<close>

theorem rotate_links:
  assumes r: "rotate_log A R l F = (None, l', F')"
  shows "(\<forall>g. 1 \<le> g \<and> g < max 1 (lg_retainFiles l) \<longrightarrow> F' (Suc g) = F g) \<and>
    (\<forall>g. max 1 (lg_retainFiles l) < g \<longrightarrow> F' g = F g) \<and>
    (\<exists>marker first nonce json. F' 1 = Some (file_bytes F 0 @ marker @ [newline]) \<and>
      F' 0 = Some (first @ [newline]) \<and>
      first = event_line A l' \<lparr>ch_Seq = 1, ch_PrevHMAC = zeros32, ch_TS = we_Now (re_Continued R)\<rparr> nonce json \<and>
      au_EventJSON A (rotate_event (we_Now (re_Continued R)) (au_Redact A (lg_salt l) ''audit_rotate''
        [(''rotated_from'', rotatedName (lg_path l) 1),
         (''prev_file_hmac'', au_MAC A (lg_chainMACKey l) marker)])) = Some json \<and>
      lg_seq l' = 1 \<and> lg_prevHMAC l' = au_MAC A (lg_chainMACKey l) first)"
proof -
  let ?C = "re_Continued R"
  obtain marker F1 F2 l1 where F1: "F1 = append_bytes (marker @ [newline]) F"
    and l1: "l1 = l\<lparr>lg_seq := lg_seq l1, lg_prevHMAC := au_MAC A (lg_chainMACKey l) marker\<rparr>"
    and sh: "shiftGenerations (re_ShiftFails R) (lg_retainFiles l1) F1 = (None, F2)"
    and w2: "writeEvent A ?C (rotate_event (we_Now ?C)
      [(''rotated_from'', rotatedName (lg_path l) 1), (''prev_file_hmac'', lg_prevHMAC l1)])
      (l1\<lparr>lg_open := True, lg_seq := 0, lg_prevHMAC := []\<rparr>) (create_file (rename_file 0 1 F2) 0) = (None, l', F')"
    by (rule rotate_success [OF r])
  define l2 where "l2 = l1\<lparr>lg_open := True, lg_seq := 0, lg_prevHMAC := []\<rparr>"
  let ?extra = "[(''rotated_from'', rotatedName (lg_path l) 1), (''prev_file_hmac'', lg_prevHMAC l1)]"
  have "lg_open l2" by (simp add: l2_def)
  then obtain nonce json hdr where
    hdr: "hdr = next_header l2 (we_Now ?C)" and
    json: "au_EventJSON A ((rotate_event (we_Now ?C) ?extra)\<lparr>ev_Timestamp := ch_TS hdr,
      ev_Extra := au_Redact A (lg_salt l2) ''audit_rotate'' ?extra\<rparr>) = Some json"
    and F': "F' = append_bytes (event_line A l2 hdr nonce json @ [newline]) (create_file (rename_file 0 1 F2) 0)"
    and l': "l' = l2\<lparr>lg_seq := ch_Seq hdr, lg_prevHMAC := au_MAC A (lg_chainMACKey l2) (event_line A l2 hdr nonce json)\<rparr>"
    by (rule writeEvent_written [OF w2 [folded l2_def]])
      (simp_all only: rotate_event_simps if_cancel refl if_True insert_iff, blast)
  have F2: "F2 0 = Some (file_bytes F 0 @ marker @ [newline])"
    using shift_live [OF sh] by (simp add: F1 append_bytes_def)
  have h: "hdr = \<lparr>ch_Seq = 1, ch_PrevHMAC = zeros32, ch_TS = we_Now ?C\<rparr>"
    by (simp add: hdr next_header_def l2_def Let_def zeros32_def)
  note upd = F' append_bytes_def create_file_def rename_file_def file_bytes_def
  have moved: "F' (Suc g) = F2 (Suc g)" if "g \<noteq> 0" for g using that F2 by (simp add: upd)
  have F1': "F1 g = F g" if "g \<noteq> 0" for g using that by (simp add: F1 append_bytes_def)
  have keep: "lg_retainFiles l1 = lg_retainFiles l" "lg_salt l1 = lg_salt l" "lg_chainMACKey l1 = lg_chainMACKey l"
    "lg_prevHMAC l1 = au_MAC A (lg_chainMACKey l) marker" by (subst l1, simp)+
  have "\<forall>g. 1 \<le> g \<and> g < max 1 (lg_retainFiles l) \<longrightarrow> F' (Suc g) = F g"
    using shiftGenerations_moves(1) [OF sh] moved F1' keep(1) by auto
  moreover have "F' g = F g" if "max 1 (lg_retainFiles l) < g" for g
    using shiftGenerations_moves(2) [OF sh] moved [of "g - 1"] F1' [of g] keep(1) that by (cases g) auto
  moreover have "F' 1 = Some (file_bytes F 0 @ marker @ [newline])" using F2 by (simp add: upd)
  moreover have "F' 0 = Some (event_line A l2 hdr nonce json @ [newline])" using F2 by (simp add: upd)
  moreover have "event_line A l2 hdr nonce json = event_line A l' hdr nonce json"
    by (simp add: event_line_def l')
  moreover have "lg_seq l' = 1 \<and> lg_prevHMAC l' = au_MAC A (lg_chainMACKey l) (event_line A l2 hdr nonce json)"
    by (simp add: l' h l2_def keep)
  ultimately show ?thesis using json h keep by (auto simp: l2_def rotate_event_def)
qed

text \<open>The backward scan by 4096-byte chunks finds the same last line as a look at the whole file.\<close>

theorem readLastLine_reference: "readLastLine s = last_line s"
  by (rule readLastLine_last_line)

lemma scan_audit_lines: "codec_ok A \<Longrightarrow> lines_ok A key K n prev ls \<Longrightarrow> audit_lines (file_of ls) = ls"
  using lines_ok_no_newline by (simp add: audit_lines_def scan_lines_file_of filter_id_conv)

text \<open>A line with a sequence number that was used already.\<close>

lemma line_bad_repeated:
  assumes "codec_ok A" "ch_Seq hdr \<noteq> q + 1" "n \<noteq> 1"
  shows "line_bad A deks n q m (event_line A l hdr nonce json) = Some (SeqGap (ch_Seq hdr) (q + 1))"
  using assms event_line_parts [OF assms(1), of l hdr nonce json]
  by (simp add: line_bad_def codec_okD [OF assms(1)] header_check_def)

text \<open>When the \<open>fsync\<close> of an event fails, its line stays in the file and the chain state does not
  advance, so the next event that is logged repeats its sequence number, and from then on \<open>VerifyChain\<close>
  reports a gap in a log nobody tampered with.\<close>

theorem fsync_failure_breaks_chain:
  assumes A: "codec_ok A" and clean: "list_all clean_op ops"
    and run: "audit_run A salt ops (None, \<lambda>_. None) = (Some l, F)" and o: "lg_open l"
    and w1: "writeEvent A W1 e1 l F = (Some ErrAuditFsyncFailed, l1, F1)"
    and n1: "\<forall>nonce. we_Nonce W1 = Some nonce \<longrightarrow> length nonce = 24"
    and w2: "writeEvent A W2 e2 l1 F1 = (None, l2, F2)"
  shows "\<exists>r. VerifyChain A salt None (F2 0) = Inr r \<and>
    cr_FirstBad r = Some (length (audit_lines (file_bytes F 0)) + 2,
      SeqGap (int (length (audit_lines (file_bytes F 0))) + 1) (int (length (audit_lines (file_bytes F 0))) + 2))"
proof -
  define K where "K = (\<Union>oper \<in> set ops. op_keys oper)"
  let ?key = "au_ChainKey A salt"
  have "state_ok A salt K (None, \<lambda>_. None)" by (simp add: state_ok_def files_ok_def)
  from audit_run_ok [OF A clean eq_refl this [unfolded K_def]] run o
  have inv: "log_inv A salt K l F" "chain_at A salt K l F"
    by (simp_all add: state_ok_def log_inv_def K_def)
  then obtain ls where F: "F 0 = Some (file_of ls)" and ls: "lines_ok A ?key K 0 [] ls"
    and sq: "lg_seq l = int (length ls)" by (auto simp: chain_at_def)
  obtain nonce1 json1 ts1 where one: "we_Nonce W1 = Some nonce1" "l1 = l"
      "F1 = append_bytes (event_line A l (next_header l ts1) nonce1 json1 @ [newline]) F"
    by (rule writeEvent_written [OF w1 o]) auto
  define x where "x = event_line A l (next_header l ts1) nonce1 json1"
  obtain nonce2 json2 ts2 where
      two: "F2 = append_bytes (event_line A l (next_header l ts2) nonce2 json2 @ [newline]) F1"
    by (rule writeEvent_written [OF w2]) (use o one in auto)
  define y where "y = event_line A l (next_header l ts2) nonce2 json2"
  have "chain_at A salt K (l\<lparr>lg_seq := lg_seq l + 1, lg_prevHMAC := au_MAC A (lg_chainMACKey l) x\<rparr>)
      (append_bytes (x @ [newline]) F)"
    using chain_at_append [OF inv(2) _ _ _ x_def] inv(1) n1 one(1) by (simp add: log_inv_def)
  then obtain ls' where ls': "F1 0 = Some (file_of ls')" "lines_ok A ?key K 0 [] ls'" "int (length ls') = lg_seq l + 1"
    by (auto simp: chain_at_def one(3) x_def)
  have F2: "F2 0 = Some (file_of (ls' @ [y]))" using ls'(1) by (simp add: two y_def append_bytes_def file_bytes_def)
  have yp: "newline \<notin> set y" "y \<noteq> []" using event_line_parts [OF A] by (simp_all add: y_def)
  have len: "length ls' = Suc (length ls)" using ls'(3) sq by simp
  have scan: "scan_lines [] (file_of (ls' @ [y])) = ls' @ [y]"
    using lines_ok_no_newline [OF A ls'(2)] yp by (intro scan_lines_file_of) auto
  have sy: "ch_Seq (next_header l ts2) = int (Suc (length ls))" by (simp add: next_header_def Let_def sq)
  have bad: "line_bad A None (Suc (length ls')) (int (length ls')) m y =
      Some (SeqGap (int (length ls) + 1) (int (length ls) + 2))" for m
    using line_bad_repeated [OF A, of "next_header l ts2" "int (length ls')"] by (simp add: sy len y_def)
  have "cr_FirstBad (verify_lines A ?key None 0 0 [] (ls' @ [y]) \<lparr>cr_TotalLines = 0, cr_Verified = 0,
      cr_FirstBad = None\<rparr>) = Some (Suc (length ls'), SeqGap (int (length ls) + 1) (int (length ls) + 2))"
    using verify_lines_ok [OF A _ ls'(2), of None "[y]"]
    by (simp add: deks_cover_def verify_lines_step [OF yp(2)] bad line_report_FirstBad)
  with scan show ?thesis
    by (simp add: VerifyChain_def F2 file_bytes_def F scan_audit_lines [OF A ls] len del: file_of_simps)
qed

subsection \<open>A concrete codec\<close>

text \<open>Bytes as pairs of letters (\<open>Sample_Codec\<close>), integers in unary, an AEAD that puts the associated data in front, and the
  identity for the MAC: an instance of the functions the log takes.\<close>

definition unary :: "int \<Rightarrow> gostring" where
  "unary i = (if i < 0 then ''-'' else ''+'') @ replicate (nat \<bar>i\<bar>) (CHR ''1'') @ '';''"

fun ununary :: "gostring \<Rightarrow> int \<times> gostring" where
  "ununary [] = (0, [])"
| "ununary (sg # s) =
    (let ones = takeWhile (\<lambda>c. c = CHR ''1'') s; n = int (length ones)
     in (if sg = CHR ''-'' then - n else n, drop (Suc (length ones)) s))"

definition test_header :: "chain_header \<Rightarrow> gostring" where
  "test_header h = unary (ch_Seq h) @ unary (ch_TS h) @ ch_PrevHMAC h"

definition test_parse :: "gostring \<Rightarrow> chain_header option" where
  "test_parse s = (let (q, s1) = ununary s; (t, s2) = ununary s1
                   in Some \<lparr>ch_Seq = q, ch_PrevHMAC = s2, ch_TS = t\<rparr>)"

definition test_crypto :: audit_crypto where
  "test_crypto =
    \<lparr>au_Base64 = pairs, au_Unbase64 = unpairs, au_HeaderJSON = test_header, au_ParseHeader = test_parse,
     au_EventJSON = (\<lambda>e. Some (ev_Action e)), au_Seal = (\<lambda>k n p h. h @ p),
     au_OpenSealed = (\<lambda>k n c h. if take (length h) c = h then Some (drop (length h) c) else None),
     au_MAC = (\<lambda>k s. s), au_ChainKey = (\<lambda>s. s), au_Redact = (\<lambda>salt a x. x)\<rparr>"

lemma ununary_unary: "ununary (unary i @ s) = (i, s)"
proof -
  have tw: "takeWhile (\<lambda>c. c = CHR ''1'') (replicate n (CHR ''1'') @ CHR '';'' # s) = replicate n (CHR ''1'')" for n
    by (induction n) auto
  have "unary i @ s = (if i < 0 then CHR ''-'' else CHR ''+'') # replicate (nat \<bar>i\<bar>) (CHR ''1'') @ CHR '';'' # s"
    by (simp add: unary_def)
  then show ?thesis by (simp add: tw Let_def)
qed

lemma test_codec: "codec_ok test_crypto"
  using unpairs_pairs pairs_letters [of "CHR '' ''"] pairs_letters [of newline]
  by (auto simp: codec_ok_def test_crypto_def test_header_def test_parse_def ununary_unary byte_of_def)

definition test_write :: "log_io \<Rightarrow> write_env" where
  "test_write io = \<lparr>we_Now = 1, we_Nonce = Some (replicate 24 (CHR ''n'')), we_OpenOk = True, we_StatOk = True, we_Io = io\<rparr>"

definition test_rotate :: rotate_env where
  "test_rotate = \<lparr>re_Marker = test_write LogOk, re_ShiftFails = (\<lambda>_. False), re_RenameOk = True, re_OpenOk = True,
     re_RestoreOk = True, re_ReopenOk = True, re_Continued = test_write LogOk\<rparr>"

definition test_ops :: "audit_op list" where
  "test_ops = [OpOpen None True ''a'' ''k'', OpRotate test_rotate]"

definition test_logger :: logger where
  "test_logger = \<lparr>lg_path = ''a'', lg_open = True, lg_salt = ''s'', lg_auditDEK = ''k'', lg_readKeys = [],
     lg_chainMACKey = ''s'', lg_seq = 0, lg_prevHMAC = [], lg_maxSize = maxLogSize, lg_retainFiles = 2,
     lg_closed = False, lg_nextRotate = zero_time\<rparr>"

lemma test_open: "audit_Open test_crypto None True ''a'' ''s'' ''k'' (\<lambda>_. None) =
    (Inr (test_logger\<lparr>lg_retainFiles := DefaultRetainFiles\<rparr>), [0 \<mapsto> []])"
  by (simp add: audit_Open_def validateParentDir_def Let_def seedChainState_def create_file_def file_bytes_def
      test_logger_def test_crypto_def)

lemma test_write_ok:
  "\<exists>line. writeEvent test_crypto (test_write LogOk) e (test_logger\<lparr>lg_retainFiles := n, lg_seq := q, lg_prevHMAC := m\<rparr>) F =
     (None, test_logger\<lparr>lg_retainFiles := n, lg_seq := q + 1, lg_prevHMAC := line\<rparr>, append_bytes (line @ [newline]) F)"
  by (auto simp: writeEvent_def ensureFile_def test_write_def test_logger_def Let_def next_header_def test_crypto_def)

lemma shift_loop_succeeds: "fst (shift_loop (\<lambda>_. False) n F) = None"
  by (induction n arbitrary: F) auto

lemma test_rotates: "fst (rotate_log test_crypto test_rotate (test_logger\<lparr>lg_retainFiles := n\<rparr>) F) = None"
proof -
  let ?e = "rotate_event 1 [(''rotated_to'', rotatedName ''a'' 1)]"
  obtain line where w: "writeEvent test_crypto (test_write LogOk) ?e (test_logger\<lparr>lg_retainFiles := n\<rparr>) F =
     (None, test_logger\<lparr>lg_retainFiles := n, lg_seq := 1, lg_prevHMAC := line\<rparr>, append_bytes (line @ [newline]) F)"
    using test_write_ok [where e = ?e and n = n and q = 0 and m = "[]" and F = "F"] by (auto simp: test_logger_def)
  obtain F2 where sh: "shiftGenerations (\<lambda>_. False) n (append_bytes (line @ [newline]) F) = (None, F2)"
    using shift_loop_succeeds [of "(if n < 1 then 1 else n) - 1"]
    by (auto simp: shiftGenerations_def Let_def prod_eq_iff)
  have "fst (writeEvent test_crypto (test_write LogOk) e (test_logger\<lparr>lg_retainFiles := n, lg_seq := 0, lg_prevHMAC := []\<rparr>) G)
      = None" for e G
    using test_write_ok [where e = e and n = n and q = 0 and m = "[]" and F = G] by auto
  with w sh show ?thesis
    by (simp add: rotate_log_def test_rotate_def test_logger_def test_write_def Let_def)
qed

theorem audit_run_verifies_witness:
  "\<exists>lo F s n. audit_run test_crypto ''s'' test_ops (None, \<lambda>_. None) = (lo, F) \<and> F 1 = Some s \<and>
     VerifyChain test_crypto ''s'' (Some [''k'']) (Some s) = Inr \<lparr>cr_TotalLines = n, cr_Verified = n, cr_FirstBad = None\<rparr>"
proof -
  let ?l = "test_logger\<lparr>lg_retainFiles := DefaultRetainFiles\<rparr>"
  obtain l' F where r: "rotate_log test_crypto test_rotate ?l [0 \<mapsto> []] = (None, l', F)"
    using test_rotates [of DefaultRetainFiles "[0 \<mapsto> []]"] by (cases "rotate_log test_crypto test_rotate ?l [0 \<mapsto> []]") auto
  obtain s where s: "F 1 = Some s" using rotate_success_archived [OF r] by auto
  have run: "audit_run test_crypto ''s'' test_ops (None, \<lambda>_. None) = (Some l', F)"
    using r by (simp add: test_ops_def test_open)
  have "list_all clean_op test_ops"
    by (simp add: test_ops_def test_rotate_def clean_rotate_def clean_write_def test_write_def)
  moreover have "(\<Union>oper \<in> set test_ops. op_keys oper) \<subseteq> set [''k'']" by (simp add: test_ops_def)
  ultimately obtain n where "VerifyChain test_crypto ''s'' (Some [''k'']) (Some s) =
      Inr \<lparr>cr_TotalLines = n, cr_Verified = n, cr_FirstBad = None\<rparr>"
    using audit_run_verifies [OF test_codec _ _ run s, of "[''k'']"] by auto
  with run s show ?thesis by (intro exI conjI)
qed

theorem rotate_links_witness:
  "\<exists>l' F'. rotate_log test_crypto test_rotate test_logger [0 \<mapsto> ''x'', 1 \<mapsto> ''y''] = (None, l', F') \<and>
     lg_seq l' = 1 \<and> F' 2 = Some ''y''"
proof -
  let ?F = "[0 \<mapsto> ''x'', 1 \<mapsto> ''y'']"
  have t: "test_logger\<lparr>lg_retainFiles := 2\<rparr> = test_logger" "lg_retainFiles test_logger = 2"
    by (simp_all add: test_logger_def)
  obtain l' F' where r: "rotate_log test_crypto test_rotate test_logger ?F = (None, l', F')"
    using test_rotates [of 2 ?F] by (cases "rotate_log test_crypto test_rotate test_logger ?F") (auto simp: t)
  have "lg_seq l' = 1" using rotate_links [OF r] by blast
  moreover have "F' (Suc 1) = ?F 1" using rotate_links [OF r] by (simp add: t)
  ultimately show ?thesis using r by (simp add: numeral_2_eq_2)
qed

definition test_line :: gostring where
  "test_line = event_line test_crypto test_logger \<lparr>ch_Seq = 1, ch_PrevHMAC = zeros32, ch_TS = 1\<rparr>
     (replicate 24 (CHR ''n'')) ''init''"

lemma test_line_ok: "lines_ok test_crypto (au_ChainKey test_crypto ''s'') {''k''} 0 [] [test_line]"
  using line_okI [of test_logger "{''k''}" "replicate 24 (CHR ''n'')"]
  by (simp add: test_line_def test_logger_def)

theorem audit_tamper_evident_witness:
  "\<exists>r. VerifyChain test_crypto ''s'' None (Some (file_of [test_line])) = Inr r \<and>
     VerifyChain test_crypto ''s'' None (Some (newline # file_of [test_line])) = Inr r \<and>
     (audit_lines (file_of [test_line]) = audit_lines (newline # file_of [test_line]) \<or>
      mac_collision test_crypto ''s'' (audit_lines (file_of [test_line])) (audit_lines (newline # file_of [test_line])))"
proof -
  let ?r = "\<lparr>cr_TotalLines = 1, cr_Verified = 1, cr_FirstBad = None\<rparr>"
  have v: "VerifyChain test_crypto ''s'' None (Some (file_of [test_line])) = Inr ?r"
    using VerifyChain_file_ok [OF test_codec _ test_line_ok, of None] by (simp add: deks_cover_def)
  then have v': "VerifyChain test_crypto ''s'' None (Some (newline # file_of [test_line])) = Inr ?r"
    by (simp add: VerifyChain_def verify_lines_blank)
  have l: "audit_lines (file_of [test_line]) = [test_line]" by (rule scan_audit_lines [OF test_codec test_line_ok])
  then have l': "audit_lines (newline # file_of [test_line]) = [test_line]" by (simp add: audit_lines_def)
  have "au_ChainKey test_crypto ''s'' = ''s''" by (simp add: test_crypto_def)
  with v v' l l' audit_tamper_evident [OF v _ v'] show ?thesis by auto
qed

theorem fsync_failure_breaks_chain_witness:
  "\<exists>l F l1 F1 l2 F2 r. audit_run test_crypto ''s'' [OpOpen None True ''a'' ''k''] (None, \<lambda>_. None) = (Some l, F) \<and>
     writeEvent test_crypto (test_write LogFsyncFails) (rotate_event 1 []) l F = (Some ErrAuditFsyncFailed, l1, F1) \<and>
     writeEvent test_crypto (test_write LogOk) (rotate_event 1 []) l1 F1 = (None, l2, F2) \<and>
     VerifyChain test_crypto ''s'' None (F2 0) = Inr r \<and> cr_FirstBad r = Some (2, SeqGap 1 2)"
proof -
  let ?l = "test_logger\<lparr>lg_retainFiles := DefaultRetainFiles\<rparr>" and ?F = "[0 \<mapsto> []]" and ?e = "rotate_event 1 []"
  have run: "audit_run test_crypto ''s'' [OpOpen None True ''a'' ''k''] (None, \<lambda>_. None) = (Some ?l, ?F)"
    by (simp add: test_open)
  obtain F1 where w1: "writeEvent test_crypto (test_write LogFsyncFails) ?e ?l ?F = (Some ErrAuditFsyncFailed, ?l, F1)"
    by (simp add: writeEvent_def ensureFile_def test_write_def test_logger_def Let_def test_crypto_def)
  obtain l2 F2 where w2: "writeEvent test_crypto (test_write LogOk) ?e ?l F1 = (None, l2, F2)"
    by (simp add: writeEvent_def ensureFile_def test_write_def test_logger_def Let_def test_crypto_def)
  have "audit_lines (file_bytes ?F 0) = []" by (simp add: file_bytes_def audit_lines_def)
  moreover have "lg_open ?l" by (simp add: test_logger_def)
  ultimately obtain r where "VerifyChain test_crypto ''s'' None (F2 0) = Inr r" "cr_FirstBad r = Some (2, SeqGap 1 2)"
    using fsync_failure_breaks_chain [OF test_codec _ run _ w1 _ w2] by (auto simp: test_write_def)
  with run w1 w2 show ?thesis by (intro exI conjI)
qed

end
