(* ===== verification/Org_Policy.thy ===== *)
theory Org_Policy
  imports Path_Match Sample_Codec
begin

section \<open>Signed bundles and the organisation policy (\<open>internal/team/bundlesig\<close>, \<open>internal/team/orgpolicy\<close>)\<close>

text \<open>
  \<open>bundlesig.go\<close>: the length-prefixed message, signatures and key files. \<open>orgpolicy.go\<close>: the bundle,
  \<open>Verify\<close>, \<open>Install\<close> with the pinned key and the version check, \<open>Active\<close> with its process-wide cache.
  \<open>compose.go\<close>: the envelope applied to a local decision. Ed25519, base64 and the canonical JSON of a
  bundle are the functions of \<open>bundle_crypto\<close>. The state is the key file, the active bundle's file and the
  cache of the running process.
\<close>

subsection \<open>Messages and signatures\<close>

record org_envelope =
  oe_MaxScope :: gostring
  oe_AllowedEnvs :: "gostring list"
  oe_DenyCapabilities :: "gostring list"
  oe_RequireApproval :: "gostring list"

record org_bundle =
  ob_SchemaVersion :: gostring
  ob_BundleID :: gostring
  ob_Version :: int
  ob_TeamID :: gostring
  ob_Issuer :: gostring
  ob_IssuedAt :: gotime
  ob_ExpiresAt :: gotime
  ob_AllowedEnvelope :: org_envelope
  ob_BaselineDeny :: "gostring list"
  ob_Signature :: gostring

record bundle_crypto =
  bc_Sign :: "gostring \<Rightarrow> gostring \<Rightarrow> gostring"
  bc_Verify :: "gostring \<Rightarrow> gostring \<Rightarrow> gostring \<Rightarrow> bool"
  bc_Base64 :: "gostring \<Rightarrow> gostring"
  bc_Unbase64 :: "gostring \<Rightarrow> gostring option"
  bc_KeyFromSeed :: "gostring \<Rightarrow> gostring"
  bc_Canonical :: "org_bundle \<Rightarrow> gostring"

datatype sig_error = ErrUnsigned | ErrLegacySignature | ErrInvalidSignature | ErrNoTrustedKey

datatype key_error = NoTrustedKey | InvalidPublicKey | GenerateFails | CreateFails | WriteKeyFails
  | ReadKeyFails | KeyNotExist | MalformedKey

definition sigPrefix :: gostring where "sigPrefix = ''ed25519:''"

text \<open>\<open>binary.BigEndian.AppendUint32\<close> of a length, which is truncated to 32 bits.\<close>

definition be32 :: "nat \<Rightarrow> gostring" where
  "be32 n = map (\<lambda>k. char_of (n div 256 ^ k mod 256)) [3, 2, 1, 0]"

fun message_parts :: "gostring list \<Rightarrow> gostring" where
  "message_parts [] = []"
| "message_parts (part # ps) = be32 (length part) @ part @ message_parts ps"

definition Message :: "gostring \<Rightarrow> gostring list \<Rightarrow> gostring" where
  "Message domain fs = message_parts (domain # fs)"

definition legacyDigest :: "gostring \<Rightarrow> bool" where
  "legacyDigest s = (length s = 64 \<and>
    list_all (\<lambda>c. is_digit c \<or> (97 \<le> byte_of c \<and> byte_of c \<le> 102)) s)"

definition bundle_Sign :: "bundle_crypto \<Rightarrow> gostring \<Rightarrow> gostring \<Rightarrow> gostring" where
  "bundle_Sign C priv msg = sigPrefix @ bc_Base64 C (bc_Sign C priv msg)"

definition bundle_Verify :: "bundle_crypto \<Rightarrow> gostring \<Rightarrow> gostring \<Rightarrow> gostring \<Rightarrow> sig_error option" where
  "bundle_Verify C pub msg sig =
    (if length pub \<noteq> 32 then Some ErrNoTrustedKey
     else if sig = [] then Some ErrUnsigned
     else if legacyDigest sig then Some ErrLegacySignature
     else if \<not> HasPrefix sig sigPrefix then Some ErrInvalidSignature
     else (case bc_Unbase64 C (drop (length sigPrefix) sig) of
             None \<Rightarrow> Some ErrInvalidSignature
           | Some raw \<Rightarrow> if length raw \<noteq> 64 \<or> \<not> bc_Verify C pub msg raw then Some ErrInvalidSignature else None))"

definition EncodePublicKey :: "bundle_crypto \<Rightarrow> gostring \<Rightarrow> gostring" where
  "EncodePublicKey C pub = bc_Base64 C pub"

definition ParsePublicKey :: "bundle_crypto \<Rightarrow> gostring \<Rightarrow> key_error + gostring" where
  "ParsePublicKey C s0 =
    (let s = TrimSpace s0 in
     if s = [] then Inl NoTrustedKey
     else (case bc_Unbase64 C s of None \<Rightarrow> Inl InvalidPublicKey
           | Some raw \<Rightarrow> if length raw \<noteq> 32 then Inl InvalidPublicKey else Inr raw))"

text \<open>A key file: \<open>O_EXCL\<close> refuses an existing file, and a failed write removes the new one. The seed is
  \<open>None\<close> when the random source fails.\<close>

datatype create_io = CreateOk | CreateOpenFails | CreateWriteFails

definition CreateKeyFile ::
  "bundle_crypto \<Rightarrow> gostring option \<Rightarrow> create_io \<Rightarrow> gostring jsonfile \<Rightarrow> (key_error + gostring) \<times> gostring jsonfile" where
  "CreateKeyFile C seed io f =
    (case seed of None \<Rightarrow> (Inl GenerateFails, f)
     | Some sd \<Rightarrow>
        if f \<noteq> Absent \<or> io = CreateOpenFails then (Inl CreateFails, f)
        else if io = CreateWriteFails then (Inl WriteKeyFails, Absent)
        else (Inr (bc_KeyFromSeed C sd), Holds (bc_Base64 C sd @ [CHR 0x0A])))"

definition LoadKeyFile :: "bundle_crypto \<Rightarrow> gostring jsonfile \<Rightarrow> key_error + gostring" where
  "LoadKeyFile C f =
    (case f of Holds data \<Rightarrow>
       (case bc_Unbase64 C (TrimSpace data) of None \<Rightarrow> Inl MalformedKey
        | Some seed \<Rightarrow> if length seed \<noteq> 32 then Inl MalformedKey else Inr (bc_KeyFromSeed C seed))
     | Absent \<Rightarrow> Inl KeyNotExist | _ \<Rightarrow> Inl ReadKeyFails)"

subsection \<open>The organisation policy\<close>

datatype org_error =
    ErrBundleExpired | ErrBundleVersionLow | ErrSignatureInvalid sig_error | ErrKeyMismatch | ErrActiveUntrusted
  | OrgKeyError key_error | ReadBundle | ParseBundle | OrgMkdir | WriteKey write_outcome | WriteBundle write_outcome

record org_state =
  os_KeyFile :: "gostring jsonfile"
  os_ActiveFile :: "org_bundle jsonfile"
  os_Cache :: "org_bundle option"

definition signingDomain :: gostring where "signingDomain = ''keylatch/org-policy/v2''"

definition signedMessage :: "bundle_crypto \<Rightarrow> org_bundle \<Rightarrow> gostring" where
  "signedMessage C b = Message signingDomain [bc_Canonical C (b\<lparr>ob_Signature := []\<rparr>)]"

definition checkSignature :: "bundle_crypto \<Rightarrow> org_bundle \<Rightarrow> gostring \<Rightarrow> org_error option" where
  "checkSignature C b pub =
    (case bundle_Verify C pub (signedMessage C b) (ob_Signature b) of
       None \<Rightarrow> None | Some e \<Rightarrow> Some (ErrSignatureInvalid e))"

definition SignBundle :: "bundle_crypto \<Rightarrow> gostring \<Rightarrow> org_bundle \<Rightarrow> org_bundle" where
  "SignBundle C priv b = b\<lparr>ob_Signature := bundle_Sign C priv (signedMessage C b)\<rparr>"

definition readBundle :: "org_bundle jsonfile \<Rightarrow> org_error + org_bundle" where
  "readBundle f = (case f of Holds b \<Rightarrow> Inr b | Unparsable \<Rightarrow> Inl ParseBundle | _ \<Rightarrow> Inl ReadBundle)"

definition org_Verify ::
  "bundle_crypto \<Rightarrow> gotime \<Rightarrow> org_bundle jsonfile \<Rightarrow> gostring \<Rightarrow> org_error option" where
  "org_Verify C now file pubKey =
    (case ParsePublicKey C pubKey of Inl e \<Rightarrow> Some (OrgKeyError e)
     | Inr pub \<Rightarrow>
        (case readBundle file of Inl e \<Rightarrow> Some e
         | Inr b \<Rightarrow>
            (case checkSignature C b pub of Some e \<Rightarrow> Some e
             | None \<Rightarrow> if now > ob_ExpiresAt b then Some ErrBundleExpired else None)))"

definition pinnedKey :: "bundle_crypto \<Rightarrow> org_state \<Rightarrow> key_error + gostring" where
  "pinnedKey C st =
    (case os_KeyFile st of Holds data \<Rightarrow> ParsePublicKey C data
     | Absent \<Rightarrow> Inl KeyNotExist | _ \<Rightarrow> Inl ReadKeyFails)"

definition Active :: "bundle_crypto \<Rightarrow> gotime \<Rightarrow> org_state \<Rightarrow> (org_error + org_bundle option) \<times> org_state" where
  "Active C now st =
    (case os_Cache st of
       Some b \<Rightarrow> if now > ob_ExpiresAt b then (Inr None, st\<lparr>os_Cache := None\<rparr>) else (Inr (Some b), st)
     | None \<Rightarrow>
        (case os_ActiveFile st of Absent \<Rightarrow> (Inr None, st)
         | Holds b \<Rightarrow>
            (case pinnedKey C st of Inl _ \<Rightarrow> (Inl ErrActiveUntrusted, st)
             | Inr pub \<Rightarrow>
                (case checkSignature C b pub of Some _ \<Rightarrow> (Inl ErrActiveUntrusted, st)
                 | None \<Rightarrow> if now > ob_ExpiresAt b then (Inr None, st)
                           else (Inr (Some b), st\<lparr>os_Cache := Some b\<rparr>)))
         | _ \<Rightarrow> (Inl ErrActiveUntrusted, st)))"

text \<open>What one call of \<open>Install\<close> meets: the clock at its own check and at that of \<open>Active\<close>, and how the
  directory, the key file and the bundle file can be written.\<close>

record install_env =
  ie_Now :: gotime
  ie_NowActive :: gotime
  ie_MkdirOk :: bool
  ie_KeyIo :: write_outcome
  ie_BundleIo :: write_outcome

definition Install ::
  "bundle_crypto \<Rightarrow> install_env \<Rightarrow> org_bundle jsonfile \<Rightarrow> gostring \<Rightarrow> org_state \<Rightarrow> org_error option \<times> org_state" where
  "Install C E file pubKey st =
    (case ParsePublicKey C pubKey of Inl e \<Rightarrow> (Some (OrgKeyError e), st)
     | Inr pub \<Rightarrow>
        (let pinned = pinnedKey C st in
         case (case pinned of Inl e \<Rightarrow> if e = KeyNotExist then None else Some (OrgKeyError e)
               | Inr p \<Rightarrow> if p \<noteq> pub then Some ErrKeyMismatch else None) of
           Some err \<Rightarrow> (Some err, st)
         | None \<Rightarrow>
           (case readBundle file of Inl e \<Rightarrow> (Some e, st)
            | Inr b \<Rightarrow>
               (case checkSignature C b pub of Some e \<Rightarrow> (Some e, st)
                | None \<Rightarrow>
                   if ie_Now E > ob_ExpiresAt b then (Some ErrBundleExpired, st)
                   else (case Active C (ie_NowActive E) st of
                      (existing, st1) \<Rightarrow>
                        if (case existing of Inr (Some a) \<Rightarrow> ob_Version b \<le> ob_Version a | _ \<Rightarrow> False)
                        then (Some ErrBundleVersionLow, st1)
                        else if \<not> ie_MkdirOk E then (Some OrgMkdir, st1)
                        else (case (case pinned of Inr _ \<Rightarrow> Inr (os_KeyFile st1)
                               | Inl _ \<Rightarrow> write_file (ie_KeyIo E) (EncodePublicKey C pub @ [CHR 0x0A]) (os_KeyFile st1)) of
                            Inl w \<Rightarrow> (Some (WriteKey w), st1)
                          | Inr kf \<Rightarrow>
                             (let st2 = st1\<lparr>os_KeyFile := kf\<rparr> in
                              case write_file (ie_BundleIo E) b (os_ActiveFile st2) of
                                Inl w \<Rightarrow> (Some (WriteBundle w), st2)
                              | Inr af \<Rightarrow> (None, st2\<lparr>os_ActiveFile := af, os_Cache := Some b\<rparr>))))))))"

subsection \<open>Composition\<close>

record org_decision =
  od_Allow :: bool
  od_Reason :: gostring
  od_ApprovalRequired :: bool

definition org_matchGlob :: "gostring \<Rightarrow> gostring \<Rightarrow> bool" where
  "org_matchGlob pattern v =
    (pattern = ''*'' \<or> match_ok pattern v \<or>
     (HasPrefix pattern ''*'' \<and> HasSuffix v (drop 1 pattern)) \<or>
     (HasSuffix pattern ''*'' \<and> HasPrefix v (take (length pattern - 1) pattern)))"

definition Compose :: "org_bundle option \<Rightarrow> org_decision \<Rightarrow> gostring \<Rightarrow> gostring \<Rightarrow> org_decision" where
  "Compose bundle localDecision cap env =
    (case bundle of None \<Rightarrow> localDecision
     | Some b \<Rightarrow>
        let E = ob_AllowedEnvelope b;
            deny = (\<lambda>reason. \<lparr>od_Allow = False, od_Reason = reason, od_ApprovalRequired = False\<rparr>) in
        (case find (\<lambda>p. org_matchGlob p cap) (ob_BaselineDeny b) of
           Some p \<Rightarrow> deny (''denied by org policy baseline: '' @ p)
         | None \<Rightarrow>
            (case find (\<lambda>p. org_matchGlob p cap) (oe_DenyCapabilities E) of
               Some p \<Rightarrow> deny (''denied by org AllowedEnvelope.DenyCapabilities: '' @ p)
             | None \<Rightarrow>
                if oe_AllowedEnvs E \<noteq> [] \<and> env \<noteq> [] \<and> \<not> list_ex (\<lambda>p. org_matchGlob p env) (oe_AllowedEnvs E)
                then deny (''environment '' @ env @ '' not in org AllowedEnvelope.AllowedEnvs'')
                else if list_ex (\<lambda>p. org_matchGlob p cap) (oe_RequireApproval E) \<and> \<not> od_ApprovalRequired localDecision
                then localDecision\<lparr>od_ApprovalRequired := True,
                           od_Reason := ''approval required by org policy for capability: '' @ cap\<rparr>
                else localDecision)))"

subsection \<open>The message determines its parts\<close>

lemma length_be32 [simp]: "length (be32 n) = 4"
  by (simp add: be32_def)

lemma be32_inject:
  assumes "n < 2 ^ 32" "m < 2 ^ 32" "be32 n = be32 m"
  shows "n = m"
proof -
  have digits: "n div 256 ^ k mod 256 = m div 256 ^ k mod 256" if "k \<in> {0, 1, 2, 3}" for k
    using assms(3) that by (auto simp: be32_def char_of_eq_iff take_bit_eq_mod)
  have split: "x = x mod 256 + 256 * (x div 256 mod 256) + 65536 * (x div 65536 mod 256) + 16777216 * (x div 16777216 mod 256)"
    if "x < 2 ^ 32" for x :: nat
  proof -
    have "x div 256 div 256 = x div 65536" "x div 65536 div 256 = x div 16777216" by (simp_all add: div_mult2_eq [symmetric])
    moreover have "x div 16777216 mod 256 = x div 16777216" using that by (simp add: less_mult_imp_div_less)
    ultimately show ?thesis
      using div_mult_mod_eq [of x 256] div_mult_mod_eq [of "x div 256" 256] div_mult_mod_eq [of "x div 65536" 256] by linarith
  qed
  show ?thesis
    using split [OF assms(1)] split [OF assms(2)] digits [of 0] digits [of 1] digits [of 2] digits [of 3] by simp
qed

lemma message_parts_inject:
  assumes "\<forall>p \<in> set ps. length p < 2 ^ 32" "\<forall>q \<in> set qs. length q < 2 ^ 32" "message_parts ps = message_parts qs"
  shows "ps = qs"
  using assms
proof (induction ps arbitrary: qs)
  case Nil
  then show ?case by (cases qs) (auto simp: be32_def)
next
  case (Cons p ps)
  then obtain q qs' where qs: "qs = q # qs'" by (cases qs) (auto simp: be32_def)
  with Cons.prems(3) have "be32 (length p) = be32 (length q)" and rest: "p @ message_parts ps = q @ message_parts qs'"
    by (auto simp: append_eq_append_conv)
  with Cons.prems qs have "length p = length q" by (intro be32_inject) auto
  with rest have "p = q" "message_parts ps = message_parts qs'" by (auto simp: append_eq_append_conv)
  with Cons qs show ?case by auto
qed

text \<open>The signed message fixes its domain and every field, as long as each is shorter than 4 GiB: no
  bytes can move from one field to the next, and a signature for one domain is of no use in another.\<close>

theorem message_binds_fields:
  assumes "\<forall>p \<in> set (d # fs). length p < 2 ^ 32" "\<forall>q \<in> set (d' # fs'). length q < 2 ^ 32"
    and "Message d fs = Message d' fs'"
  shows "d = d' \<and> fs = fs'"
  using message_parts_inject [OF assms(1,2)] assms(3) by (simp add: Message_def)

theorem message_binds_fields_witness:
  "Message ''a'' [''b'', ''c''] \<noteq> Message ''a'' [''bc'', []]"
  using message_binds_fields [of "''a''" "[''b'', ''c'']" "''a''" "[''bc'', []]"] by auto

subsection \<open>The pinned key\<close>

text \<open>What pinning relies on from base64: decoding undoes encoding, and the text of a key has no white
  space and is not empty.\<close>

definition base64_ok :: "bundle_crypto \<Rightarrow> bool" where
  "base64_ok C \<longleftrightarrow> (\<forall>s. bc_Unbase64 C (bc_Base64 C s) = Some s) \<and>
    (\<forall>s. \<forall>c \<in> set (bc_Base64 C s). \<not> is_space c) \<and> (\<forall>s. s \<noteq> [] \<longrightarrow> bc_Base64 C s \<noteq> [])"

lemma TrimSpace_line:
  assumes "\<forall>c \<in> set s. \<not> is_space c"
  shows "TrimSpace (s @ [CHR 0x0A]) = s"
proof -
  have nl: "is_space (CHR 0x0A)" by (simp add: is_space_def byte_of_def)
  have keep: "dropWhile is_space t = t" if "\<forall>c \<in> set t. \<not> is_space c" for t
    using that by (cases t) auto
  show ?thesis
  proof (cases s)
    case Nil
    with nl show ?thesis by (simp add: TrimSpace_def)
  next
    case (Cons c t)
    with assms have "dropWhile is_space (s @ [CHR 0x0A]) = s @ [CHR 0x0A]" by simp
    moreover have "dropWhile is_space (rev s) = rev s" using assms by (intro keep) simp
    ultimately show ?thesis using nl by (simp add: TrimSpace_def)
  qed
qed

lemma ParsePublicKey_length: "ParsePublicKey C s = Inr pub \<Longrightarrow> length pub = 32"
  by (auto simp: ParsePublicKey_def Let_def split: if_splits option.splits)

lemma ParsePublicKey_Encode:
  assumes "base64_ok C" "length pub = 32"
  shows "ParsePublicKey C (EncodePublicKey C pub @ [CHR 0x0A]) = Inr pub"
proof -
  have "bc_Base64 C pub \<noteq> []" using assms by (cases pub) (auto simp: base64_ok_def)
  with assms TrimSpace_line [of "bc_Base64 C pub"] show ?thesis
    by (auto simp: ParsePublicKey_def EncodePublicKey_def base64_ok_def Let_def)
qed

text \<open>A process uses the policy, restarts, and anyone may replace the installed bundle's file.\<close>

datatype org_op =
    OrgInstall install_env "org_bundle jsonfile" gostring
  | OrgActive gotime
  | OrgRestart
  | OrgTamper "org_bundle jsonfile"

fun org_do :: "bundle_crypto \<Rightarrow> org_op \<Rightarrow> org_state \<Rightarrow> org_state" where
  "org_do C (OrgInstall E f k) st = snd (Install C E f k st)"
| "org_do C (OrgActive now) st = snd (Active C now st)"
| "org_do C OrgRestart st = st\<lparr>os_Cache := None\<rparr>"
| "org_do C (OrgTamper f) st = st\<lparr>os_ActiveFile := f\<rparr>"

definition org_run :: "bundle_crypto \<Rightarrow> org_op list \<Rightarrow> org_state \<Rightarrow> org_state" where
  "org_run C ops st = fold (org_do C) ops st"

definition org_init :: org_state where
  "org_init = \<lparr>os_KeyFile = Absent, os_ActiveFile = Absent, os_Cache = None\<rparr>"

text \<open>A cached bundle was signed with the pinned key.\<close>

definition cache_ok :: "bundle_crypto \<Rightarrow> org_state \<Rightarrow> bool" where
  "cache_ok C st \<longleftrightarrow> (\<forall>b. os_Cache st = Some b \<longrightarrow>
    (\<exists>pub. pinnedKey C st = Inr pub \<and> checkSignature C b pub = None))"

lemma Active_cases:
  assumes "Active C now st = (res, st')"
  shows "os_KeyFile st' = os_KeyFile st" "os_ActiveFile st' = os_ActiveFile st"
    and "cache_ok C st \<Longrightarrow> cache_ok C st'"
    and "cache_ok C st \<Longrightarrow> res = Inr (Some b) \<Longrightarrow>
      now \<le> ob_ExpiresAt b \<and> (\<exists>pub. pinnedKey C st = Inr pub \<and> checkSignature C b pub = None)"
  using assms
  by (auto simp: Active_def cache_ok_def pinnedKey_def split: option.splits jsonfile.splits sum.splits if_splits)

text \<open>What a call of \<open>Install\<close> does to the pinned key and the cache.\<close>

lemma Install_effect:
  assumes C: "base64_ok C" and inv: "cache_ok C st" and i: "Install C E f k st = (res, st')"
  shows "cache_ok C st' \<and> (\<forall>pub. pinnedKey C st = Inr pub \<longrightarrow> pinnedKey C st' = Inr pub)"
proof -
  obtain ex st1 where a: "Active C (ie_NowActive E) st = (ex, st1)" by (cases rule: prod.exhaust)
  note A = Active_cases [OF a]
  have c1: "cache_ok C st1" by (rule A(3) [OF inv])
  have p1: "pinnedKey C st1 = pinnedKey C st" using A(1) by (simp add: pinnedKey_def)
  consider "st' = st" | "st' = st1"
    | pub b kf where "ParsePublicKey C k = Inr pub" "checkSignature C b pub = None"
      "(\<exists>p. pinnedKey C st = Inr p \<and> p = pub \<and> kf = os_KeyFile st1) \<or>
       (pinnedKey C st = Inl KeyNotExist \<and> kf = Holds (EncodePublicKey C pub @ [CHR 0x0A]))"
      "st' = st1\<lparr>os_KeyFile := kf\<rparr> \<or> st' = st1\<lparr>os_KeyFile := kf, os_ActiveFile := Holds b, os_Cache := Some b\<rparr>"
    using i a by (auto simp: Install_def Let_def write_file_def split: sum.splits option.splits if_splits)
  then show ?thesis
  proof cases
    case 3
    have new: "pinnedKey C (st1\<lparr>os_KeyFile := kf\<rparr>) = Inr pub"
      using 3(1,3) p1 ParsePublicKey_Encode [OF C ParsePublicKey_length [OF 3(1)]] by (auto simp: pinnedKey_def)
    moreover have "cache_ok C (st1\<lparr>os_KeyFile := kf\<rparr>)"
      using c1 new p1 3(3) by (fastforce simp: cache_ok_def)
    ultimately show ?thesis using 3 by (auto simp: cache_ok_def pinnedKey_def)
  qed (use inv c1 p1 in auto)
qed

lemma org_do_inv:
  assumes "base64_ok C" "cache_ok C st"
  shows "cache_ok C (org_do C oper st) \<and> (\<forall>pub. pinnedKey C st = Inr pub \<longrightarrow> pinnedKey C (org_do C oper st) = Inr pub)"
proof (cases oper)
  case (OrgInstall E f k)
  then show ?thesis using Install_effect [OF assms] by (cases "Install C E f k st") auto
next
  case (OrgActive now)
  then show ?thesis using Active_cases [of C now st] assms(2)
    by (cases "Active C now st") (auto simp: pinnedKey_def)
qed (use assms(2) in \<open>auto simp: cache_ok_def pinnedKey_def\<close>)

lemma org_run_inv:
  assumes "base64_ok C"
  shows "cache_ok C st \<Longrightarrow> cache_ok C (org_run C ops st) \<and>
    (\<forall>pub. pinnedKey C st = Inr pub \<longrightarrow> pinnedKey C (org_run C ops st) = Inr pub)"
proof (induction ops arbitrary: st)
  case (Cons oper ops)
  with org_do_inv [OF assms, of st oper] show ?case by (simp add: org_run_def)
qed (simp add: org_run_def)

text \<open>Once a key is pinned it stays pinned, and whatever happens to the installed file afterwards,
  \<open>Active\<close> only ever returns bundles signed with that key that have not expired.\<close>

theorem org_active_trusted:
  assumes C: "base64_ok C" and run: "org_run C ops org_init = st" and pin: "pinnedKey C st = Inr pub"
    and run': "org_run C ops' st = st'" and act: "Active C now st' = (Inr (Some b), st'')"
  shows "checkSignature C b pub = None \<and> now \<le> ob_ExpiresAt b"
proof -
  have "cache_ok C org_init" by (simp add: cache_ok_def org_init_def)
  with org_run_inv [OF C] run have "cache_ok C st" by blast
  with org_run_inv [OF C, of st ops'] run' pin have "cache_ok C st'" "pinnedKey C st' = Inr pub" by auto
  with Active_cases(4) [OF act] show ?thesis by auto
qed

subsection \<open>Installing and composing\<close>

text \<open>With a pinned key and an installed bundle signed with it, an \<open>Install\<close> that can write succeeds
  exactly when it is given the pinned key, a readable bundle with a valid signature that has not expired,
  and a higher version than the installed bundle or an installed bundle that has expired: versions
  increase while the installed bundle is valid, and an older bundle is accepted again afterwards.\<close>

theorem org_install_exact:
  assumes "pinnedKey C st = Inr pub" "os_ActiveFile st = Holds a" "checkSignature C a pub = None"
    and "os_Cache st \<in> {None, Some a}" "ie_MkdirOk E" "ie_BundleIo E = WriteOk"
  shows "fst (Install C E f k st) = None \<longleftrightarrow>
    ParsePublicKey C k = Inr pub \<and>
    (\<exists>b. f = Holds b \<and> checkSignature C b pub = None \<and> ie_Now E \<le> ob_ExpiresAt b \<and>
       (ob_ExpiresAt a < ie_NowActive E \<or> ob_Version a < ob_Version b))"
proof -
  have act: "\<exists>st1. Active C (ie_NowActive E) st = (Inr (if ob_ExpiresAt a < ie_NowActive E then None else Some a), st1)"
    using assms(1-4) by (auto simp: Active_def)
  then obtain st1 where a1: "Active C (ie_NowActive E) st =
      (Inr (if ob_ExpiresAt a < ie_NowActive E then None else Some a), st1)" by blast
  show ?thesis
    using assms(1,5,6)
    by (auto simp: Install_def Let_def a1 readBundle_def write_file_def
        split: sum.splits option.splits if_splits jsonfile.splits)
qed

lemma find_None: "find P xs = None \<longleftrightarrow> \<not> list_ex P xs"
  by (auto simp: find_None_iff list_ex_iff)

text \<open>The envelope of the organisation only narrows: what \<open>Compose\<close> allows is allowed locally, matches
  no deny pattern and lies in an allowed environment, an approval that was required stays required, and
  a capability under \<open>require_approval\<close> needs one.\<close>

theorem org_compose_narrows:
  assumes "Compose (Some b) d cap env = d'" "od_Allow d'"
  shows "od_Allow d \<and> \<not> list_ex (\<lambda>p. org_matchGlob p cap) (ob_BaselineDeny b @ oe_DenyCapabilities (ob_AllowedEnvelope b)) \<and>
    (oe_AllowedEnvs (ob_AllowedEnvelope b) = [] \<or> env = [] \<or>
      list_ex (\<lambda>p. org_matchGlob p env) (oe_AllowedEnvs (ob_AllowedEnvelope b))) \<and>
    od_ApprovalRequired d' =
      (od_ApprovalRequired d \<or> list_ex (\<lambda>p. org_matchGlob p cap) (oe_RequireApproval (ob_AllowedEnvelope b)))"
  using assms
  by (auto simp: Compose_def Let_def find_None split: option.splits if_splits)

subsection \<open>A concrete organisation\<close>

definition org_test_crypto :: bundle_crypto where
  "org_test_crypto =
    \<lparr>bc_Sign = (\<lambda>k m. replicate 64 (CHR ''s'')), bc_Verify = (\<lambda>k m s. s = replicate 64 (CHR ''s'')),
     bc_Base64 = pairs, bc_Unbase64 = unpairs, bc_KeyFromSeed = (\<lambda>s. s), bc_Canonical = ob_BundleID\<rparr>"

definition org_test_key :: gostring where "org_test_key = replicate 32 (CHR ''k'')"

definition org_test_bundle :: "int \<Rightarrow> gotime \<Rightarrow> org_bundle" where
  "org_test_bundle v expires = SignBundle org_test_crypto org_test_key
    \<lparr>ob_SchemaVersion = ''1'', ob_BundleID = ''b'', ob_Version = v, ob_TeamID = ''t'', ob_Issuer = ''i'',
     ob_IssuedAt = 0, ob_ExpiresAt = expires,
     ob_AllowedEnvelope = \<lparr>oe_MaxScope = [], oe_AllowedEnvs = [''staging''], oe_DenyCapabilities = [''*.reveal''],
       oe_RequireApproval = []\<rparr>,
     ob_BaselineDeny = [], ob_Signature = []\<rparr>"

definition org_test_env :: "gotime \<Rightarrow> install_env" where
  "org_test_env now = \<lparr>ie_Now = now, ie_NowActive = now, ie_MkdirOk = True, ie_KeyIo = WriteOk, ie_BundleIo = WriteOk\<rparr>"

lemma org_test_base64: "base64_ok org_test_crypto"
  by (auto simp: base64_ok_def org_test_crypto_def unpairs_pairs dest: pairs_no_space)

lemma org_test_parse: "ParsePublicKey org_test_crypto (EncodePublicKey org_test_crypto org_test_key @ [CHR 0x0A]) = Inr org_test_key"
  by (rule ParsePublicKey_Encode [OF org_test_base64]) (simp add: org_test_key_def)

lemma org_test_signed: "checkSignature org_test_crypto (org_test_bundle v e) org_test_key = None"
  by (simp add: checkSignature_def bundle_Verify_def org_test_bundle_def SignBundle_def bundle_Sign_def sigPrefix_def
      org_test_key_def org_test_crypto_def unpairs_pairs legacyDigest_def HasPrefix_def is_digit_def byte_of_def)

definition org_test_state :: org_state where
  "org_test_state = \<lparr>os_KeyFile = Holds (EncodePublicKey org_test_crypto org_test_key @ [CHR 0x0A]),
     os_ActiveFile = Holds (org_test_bundle 2 10), os_Cache = Some (org_test_bundle 2 10)\<rparr>"

lemma org_test_install:
  "Install org_test_crypto (org_test_env 5) (Holds (org_test_bundle 2 10))
     (EncodePublicKey org_test_crypto org_test_key @ [CHR 0x0A]) org_init = (None, org_test_state)"
  by (simp add: Install_def org_init_def org_test_parse pinnedKey_def readBundle_def org_test_signed org_test_env_def
      org_test_state_def Active_def write_file_def Let_def) (simp add: org_test_bundle_def SignBundle_def)

lemma org_test_pinned: "pinnedKey org_test_crypto org_test_state = Inr org_test_key"
  by (simp add: pinnedKey_def org_test_state_def org_test_parse)

theorem org_active_trusted_witness:
  "\<exists>ops st. org_run org_test_crypto ops org_init = st \<and> pinnedKey org_test_crypto st = Inr org_test_key \<and>
     checkSignature org_test_crypto (org_test_bundle 2 10) org_test_key = None \<and> 7 \<le> ob_ExpiresAt (org_test_bundle 2 10)"
proof -
  let ?k = "EncodePublicKey org_test_crypto org_test_key @ [CHR 0x0A]"
  let ?ops = "[OrgInstall (org_test_env 5) (Holds (org_test_bundle 2 10)) ?k]"
  have run: "org_run org_test_crypto ?ops org_init = org_test_state" by (simp add: org_run_def org_test_install)
  let ?st = "org_run org_test_crypto [OrgTamper Unparsable] org_test_state"
  have act: "Active org_test_crypto 7 ?st = (Inr (Some (org_test_bundle 2 10)), ?st)"
    by (simp add: org_run_def Active_def org_test_state_def) (simp add: org_test_bundle_def SignBundle_def)
  from org_active_trusted [OF org_test_base64 run org_test_pinned refl act] run org_test_pinned
  show ?thesis by blast
qed

theorem org_install_exact_witness:
  "fst (Install org_test_crypto (org_test_env 7) (Holds (org_test_bundle 1 20)) (EncodePublicKey org_test_crypto org_test_key @ [CHR 0x0A]) org_test_state) \<noteq> None
   \<and> fst (Install org_test_crypto (org_test_env 11) (Holds (org_test_bundle 1 20)) (EncodePublicKey org_test_crypto org_test_key @ [CHR 0x0A]) org_test_state) = None"
proof -
  have b: "ob_ExpiresAt (org_test_bundle v e) = e" "ob_Version (org_test_bundle v e) = v" for v e
    by (simp_all add: org_test_bundle_def SignBundle_def)
  have s: "os_ActiveFile org_test_state = Holds (org_test_bundle 2 10)" "os_Cache org_test_state \<in> {None, Some (org_test_bundle 2 10)}"
    by (simp_all add: org_test_state_def)
  have e: "ie_MkdirOk (org_test_env n)" "ie_BundleIo (org_test_env n) = WriteOk" "ie_Now (org_test_env n) = n"
    "ie_NowActive (org_test_env n) = n" for n by (simp_all add: org_test_env_def)
  show ?thesis
    using org_install_exact [OF org_test_pinned s(1) org_test_signed s(2) e(1,2), of 7]
      org_install_exact [OF org_test_pinned s(1) org_test_signed s(2) e(1,2), of 11]
    by (simp add: org_test_parse org_test_signed b e)
qed

theorem org_compose_narrows_witness:
  "\<exists>d'. Compose (Some (org_test_bundle 1 1)) \<lparr>od_Allow = True, od_Reason = [], od_ApprovalRequired = True\<rparr> ''x'' [] = d' \<and>
     od_Allow d' \<and> od_ApprovalRequired d'"
proof -
  let ?d = "\<lparr>od_Allow = True, od_Reason = [], od_ApprovalRequired = True\<rparr>"
  have c: "Compose (Some (org_test_bundle 1 1)) ?d ''x'' [] = ?d"
    by (simp add: Compose_def Let_def org_test_bundle_def SignBundle_def org_matchGlob_def match_ok_plain
        HasPrefix_def HasSuffix_def)
  from org_compose_narrows [OF c] c show ?thesis by simp
qed

end
