(* ===== verification/Json_Canonical.thy ===== *)
theory Json_Canonical
  imports Json_Text Path_Match "HOL-Library.List_Lexorder" "HOL-Library.Multiset"
begin

section \<open>Canonical JSON and associated data (\<open>internal/crypto/jcs\<close>, \<open>internal/crypto/aad\<close>)\<close>

text \<open>
  \<open>jcs.go\<close>: the canonical text of a JSON value (keys in UTF-16 order, no white space, numbers as 64-bit
  integers where they are that and otherwise in the form \<open>strconv\<close> gives, a parameter). \<open>aad.go\<close>: the
  associated data that binds a sealed value to its place. JSON values are trees with number literals
  kept as text, as the decoder gives them with \<open>UseNumber\<close>; an object is the list of its members.
  \<open>Marshal\<close> first passes the value through \<open>encoding/json\<close>, which replaces bytes that are not UTF-8;
  \<open>writeCanonicalString\<close> replaces them the same way, so both entry points are \<open>canonicalize\<close>.
\<close>

datatype json = JNull | JBool bool | JNum gostring | JStr gostring | JArr "json list" | JObj "(gostring \<times> json) list"

subsection \<open>Strings\<close>

definition utf8_replacement :: gostring where "utf8_replacement = [CHR 0xEF, CHR 0xBF, CHR 0xBD]"

text \<open>What is written for the rune \<open>r\<close> decoded from \<open>bytes\<close>.\<close>

definition write_rune :: "nat \<Rightarrow> gostring \<Rightarrow> gostring" where
  "write_rune r bytes =
    (let bs = CHR 0x5C in
     if r = 34 \<or> r = 92 then [bs, char_of r]
     else if r = 8 then [bs, CHR ''b''] else if r = 12 then [bs, CHR ''f'']
     else if r = 10 then [bs, CHR ''n''] else if r = 13 then [bs, CHR ''r''] else if r = 9 then [bs, CHR ''t'']
     else if r < 32 then [bs, CHR ''u'', CHR ''0'', CHR ''0'', hex_digit (r div 16), hex_digit (r mod 16)]
     else if r = rune_error \<and> length bytes = 1 then utf8_replacement
     else bytes)"

lemma decode_rune_progress: "(r, w) = decode_rune (c # s) \<Longrightarrow> Suc (length s) - w < Suc (length s)"
  using decode_rune_width [of "c # s"] by (cases "decode_rune (c # s)") auto

text \<open>The runes of a string with the bytes they were decoded from.\<close>

function runes :: "gostring \<Rightarrow> (nat \<times> gostring) list" where
  "runes [] = []"
| "runes (c # s) = (case decode_rune (c # s) of (r, w) \<Rightarrow> (r, take w (c # s)) # runes (drop w (c # s)))"
  by pat_completeness auto
termination by (relation "measure length") (auto dest: decode_rune_progress)

definition writeCanonicalString :: "gostring \<Rightarrow> gostring" where
  "writeCanonicalString s = CHR 0x22 # concat (map (\<lambda>(r, b). write_rune r b) (runes s)) @ [CHR 0x22]"

definition utf16_units :: "nat \<Rightarrow> nat list" where
  "utf16_units r = (if r < 65536 then [r] else [55296 + (r - 65536) div 1024, 56320 + (r - 65536) mod 1024])"

definition utf16 :: "gostring \<Rightarrow> nat list" where
  "utf16 s = concat (map (\<lambda>(r, _). utf16_units r) (runes s))"

definition compareUTF16 :: "gostring \<Rightarrow> gostring \<Rightarrow> bool" where
  "compareUTF16 a b = (utf16 a < utf16 b)"

subsection \<open>Numbers\<close>

text \<open>\<open>strconv.ParseInt\<close> in base 10 for 64 bits.\<close>

definition parse_int64 :: "gostring \<Rightarrow> int option" where
  "parse_int64 s =
    (let neg = HasPrefix s ''-''; ds = (if neg \<or> HasPrefix s ''+'' then drop 1 s else s);
         n = (if neg then - int (digits_value ds) else int (digits_value ds)) in
     if ds \<noteq> [] \<and> list_all is_digit ds \<and> min_int64 \<le> n \<and> n \<le> max_int64 then Some n else None)"

text \<open>Go's exponent form to ECMAScript's: no leading zeros in the exponent.\<close>

fun strip_zeros :: "gostring \<Rightarrow> gostring" where
  "strip_zeros (c # d # s) = (if c = CHR ''0'' then strip_zeros (d # s) else c # d # s)"
| "strip_zeros s = s"

definition normalizeExponent :: "gostring \<Rightarrow> gostring" where
  "normalizeExponent s =
    (let p = takeWhile (\<lambda>c. c \<noteq> CHR ''e'' \<and> c \<noteq> CHR ''E'') s; rest = drop (Suc (length p)) s in
     if length p = length s \<or> rest = [] then s
     else let sgn = (if hd rest = CHR ''+'' \<or> hd rest = CHR ''-'' then [hd rest] else []);
              ex = drop (length sgn) rest
          in p @ ''e'' @ sgn @ strip_zeros ex)"

text \<open>\<open>ff\<close> is \<open>strconv\<close>'s text of the double a literal denotes, \<open>None\<close> when it is not a finite one.\<close>

definition canonicalizeNumber :: "(gostring \<Rightarrow> gostring option) \<Rightarrow> gostring \<Rightarrow> gostring option" where
  "canonicalizeNumber ff n =
    (case parse_int64 n of Some i \<Rightarrow> Some (format_int i) | None \<Rightarrow> map_option normalizeExponent (ff n))"

subsection \<open>Values\<close>

definition members_text :: "(gostring \<times> gostring) list \<Rightarrow> gostring" where
  "members_text cs =
    ''{'' @ Join (map (\<lambda>(k, t). writeCanonicalString k @ '':'' @ t) (sort_key (\<lambda>(k, t). utf16 k) cs)) '','' @ ''}''"

fun canonicalize :: "(gostring \<Rightarrow> gostring option) \<Rightarrow> json \<Rightarrow> gostring option" where
  "canonicalize ff JNull = Some ''null''"
| "canonicalize ff (JBool b) = Some (if b then ''true'' else ''false'')"
| "canonicalize ff (JNum n) = canonicalizeNumber ff n"
| "canonicalize ff (JStr s) = Some (writeCanonicalString s)"
| "canonicalize ff (JArr vs) =
    (let ts = map (canonicalize ff) vs in
     if None \<in> set ts then None else Some (''['' @ Join (map the ts) '','' @ '']''))"
| "canonicalize ff (JObj ms) =
    (let ts = map (\<lambda>m. (fst m, canonicalize ff (snd m))) ms in
     if None \<in> snd ` set ts then None else Some (members_text (map (\<lambda>(k, t). (k, the t)) ts)))"

definition jcs_Marshal :: "(gostring \<Rightarrow> gostring option) \<Rightarrow> json \<Rightarrow> gostring option" where
  "jcs_Marshal ff v = canonicalize ff v"

subsection \<open>Associated data\<close>

record aad_binding =
  ab_SchemaVersion :: int
  ab_Namespace :: gostring
  ab_Path :: gostring
  ab_Version :: int
  ab_KeyTerm :: int
  ab_BackendID :: gostring
  ab_CreatedAt :: gotime
  ab_Algorithm :: gostring

text \<open>\<open>ft\<close> formats a time in UTC as RFC 3339 with seconds.\<close>

definition aad_json :: "(gotime \<Rightarrow> gostring) \<Rightarrow> aad_binding \<Rightarrow> json" where
  "aad_json ft b = JObj
    [(''schema_version'', JNum (format_int (ab_SchemaVersion b))), (''namespace'', JStr (ab_Namespace b)),
     (''path'', JStr (ab_Path b)), (''version'', JNum (format_int (ab_Version b))),
     (''key_term'', JNum (format_int (ab_KeyTerm b))), (''backend_id'', JStr (ab_BackendID b)),
     (''created_at'', JStr (ft (ab_CreatedAt b))), (''algorithm'', JStr (ab_Algorithm b))]"

definition aad_Marshal :: "(gostring \<Rightarrow> gostring option) \<Rightarrow> (gotime \<Rightarrow> gostring) \<Rightarrow> aad_binding \<Rightarrow> gostring option" where
  "aad_Marshal ff ft b = jcs_Marshal ff (aad_json ft b)"

subsection \<open>Strings determine their text and delimit themselves\<close>

definition valid_utf8 :: "gostring \<Rightarrow> bool" where
  "valid_utf8 s = list_all (\<lambda>(r, b). \<not> (r = rune_error \<and> length b = 1)) (runes s)"

definition jcs_char :: "char \<Rightarrow> gostring" where
  "jcs_char c = (if byte_of c \<in> {60, 62, 38} then [c] else json_char c)"

lemma decode_rune_cases:
  assumes "decode_rune (c # s) = (r, w)" "\<not> (r = rune_error \<and> w = 1)"
  shows "(w = 1 \<and> r = byte_of c \<and> byte_of c < 128) \<or>
    (1 < w \<and> w \<le> Suc (length s) \<and> 128 \<le> r \<and> (\<forall>d \<in> set (take w (c # s)). 128 \<le> byte_of d))"
proof -
  consider "s = []" | b1 where "s = [b1]" | b1 b2 where "s = [b1, b2]" | b1 b2 b3 t where "s = b1 # b2 # b3 # t"
    by (cases s rule: list.exhaust; metis list.exhaust)
  then show ?thesis
  proof cases
    case 1
    with assms show ?thesis by (simp add: decode_rune_def split: if_splits)
  next
    case 2
    with assms show ?thesis by (auto simp: decode_rune_def cont_byte_def split: if_splits)
  next
    case 3
    with assms show ?thesis by (auto simp: decode_rune_def cont_byte_def split: if_splits)
  next
    case 4
    with assms show ?thesis by (auto simp: decode_rune_def cont_byte_def split: if_splits)
  qed
qed

lemma jcs_char_high: "128 \<le> byte_of c \<Longrightarrow> jcs_char c = [c]"
  by (simp add: jcs_char_def json_char_def Let_def)

lemma concat_jcs_high: "\<forall>d \<in> set b. 128 \<le> byte_of d \<Longrightarrow> concat (map jcs_char b) = b"
  by (induction b) (simp_all add: jcs_char_high)

lemma write_rune_ascii: "byte_of c < 128 \<Longrightarrow> write_rune (byte_of c) [c] = jcs_char c"
  by (auto simp: write_rune_def jcs_char_def json_char_def Let_def rune_error_def byte_of_def)

lemma runes_text:
  "valid_utf8 s \<Longrightarrow> concat (map (\<lambda>(r, b). write_rune r b) (runes s)) = concat (map jcs_char s)"
proof (induction s rule: runes.induct)
  case (2 c s)
  obtain r w where d: "decode_rune (c # s) = (r, w)" by (cases "decode_rune (c # s)")
  have w: "0 < w" using decode_rune_width [of "c # s"] d by simp
  have v: "\<not> (r = rune_error \<and> length (take w (c # s)) = 1)" "valid_utf8 (drop w (c # s))"
    using "2.prems" d by (auto simp: valid_utf8_def)
  then have nr: "\<not> (r = rune_error \<and> w = 1)" by auto
  have "write_rune r (take w (c # s)) = concat (map jcs_char (take w (c # s)))"
    using decode_rune_cases [OF d nr]
  proof
    assume "w = 1 \<and> r = byte_of c \<and> byte_of c < 128"
    then show ?thesis by (simp add: write_rune_ascii)
  next
    assume h: "1 < w \<and> w \<le> Suc (length s) \<and> 128 \<le> r \<and> (\<forall>d \<in> set (take w (c # s)). 128 \<le> byte_of d)"
    then show ?thesis by (simp add: write_rune_def Let_def concat_jcs_high)
  qed
  moreover have "concat (map (\<lambda>(r, b). write_rune r b) (runes (drop w (c # s)))) = concat (map jcs_char (drop w (c # s)))"
    using "2.IH" d v(2) by simp
  moreover have "concat (map jcs_char (c # s)) = concat (map jcs_char (take w (c # s))) @ concat (map jcs_char (drop w (c # s)))"
    by (metis append_take_drop_id concat_append map_append)
  ultimately show ?case unfolding runes.simps d by (simp only: prod.case list.map concat.simps)
qed simp

lemma json_unchar_jcs: "json_unchar (jcs_char c @ u) = (c, u)"
proof (cases "byte_of c \<in> {60, 62, 38}")
  case True
  then have "c \<noteq> CHR 0x5C" by (auto simp: byte_of_def)
  with True show ?thesis by (cases u) (auto simp: jcs_char_def)
qed (simp add: jcs_char_def json_unchar_char)

lemma jcs_char_Cons: "jcs_char c = x # xs \<Longrightarrow> x \<noteq> CHR 0x22"
  using json_char_Cons by (auto simp: jcs_char_def byte_of_def split: if_splits)

lemma jcs_char_not_Nil: "jcs_char c \<noteq> []"
  by (simp add: jcs_char_def json_char_not_Nil)

lemma jcs_quote: "jcs_char d @ u \<noteq> CHR 0x22 # v"
  using jcs_char_not_Nil [of d] jcs_char_Cons [of d] by (cases "jcs_char d") auto

lemma jcs_chars_cancel:
  "concat (map jcs_char s) @ CHR 0x22 # u = concat (map jcs_char t) @ CHR 0x22 # v \<Longrightarrow> s = t \<and> u = v"
proof (induction s arbitrary: t)
  case Nil
  with jcs_quote show ?case by (cases t) (auto, metis)
next
  case (Cons c s)
  show ?case
  proof (cases t)
    case Nil
    with Cons.prems jcs_quote show ?thesis by auto
  next
    case (Cons d t')
    with Cons.prems have "json_unchar (jcs_char c @ concat (map jcs_char s) @ CHR 0x22 # u) =
        json_unchar (jcs_char d @ concat (map jcs_char t') @ CHR 0x22 # v)" by simp
    then have "c = d" "concat (map jcs_char s) @ CHR 0x22 # u = concat (map jcs_char t') @ CHR 0x22 # v"
      by (simp_all add: json_unchar_jcs)
    with Cons.IH Cons show ?thesis by auto
  qed
qed

lemma canonical_string_cancel:
  "valid_utf8 s \<Longrightarrow> valid_utf8 t \<Longrightarrow> writeCanonicalString s @ u = writeCanonicalString t @ v \<Longrightarrow> s = t \<and> u = v"
  using jcs_chars_cancel [of s u t v] by (simp add: writeCanonicalString_def runes_text)

subsection \<open>The text of a binding\<close>

definition ascii :: "gostring \<Rightarrow> bool" where
  "ascii s = list_all (\<lambda>c. byte_of c < 128) s"

lemma runes_ascii: "ascii s \<Longrightarrow> runes s = map (\<lambda>c. (byte_of c, [c])) s"
  by (induction s) (simp_all add: ascii_def decode_rune_ascii)

lemma utf16_ascii: "ascii s \<Longrightarrow> utf16 s = map byte_of s"
  by (simp add: utf16_def runes_ascii utf16_units_def ascii_def list_all_iff o_def) (induction s, auto)

lemma valid_utf8_ascii: "ascii s \<Longrightarrow> valid_utf8 s"
  by (auto simp: valid_utf8_def runes_ascii ascii_def list_all_iff rune_error_def)

lemma canonicalizeNumber_int:
  assumes "min_int64 \<le> i" "i \<le> max_int64"
  shows "canonicalizeNumber ff (format_int i) = Some (format_int i)"
proof -
  have nd: "decimal n \<noteq> CHR ''-'' # t" "decimal n \<noteq> CHR ''+'' # t" for n t
    using decimal_digits [of n] by (auto simp: is_digit_def byte_of_def)
  have p: "\<not> HasPrefix (decimal n) ''-''" "\<not> HasPrefix (decimal n) ''+''" for n
    using nd [of n] by (cases "decimal n"; auto simp: HasPrefix_def)+
  have "parse_int64 (format_int i) = Some i"
    using assms p decimal_digits
    by (auto simp: parse_int64_def format_int_def Let_def digits_value_decimal HasPrefix_def)
  then show ?thesis by (simp add: canonicalizeNumber_def)
qed

definition aad_text :: "(gotime \<Rightarrow> gostring) \<Rightarrow> aad_binding \<Rightarrow> gostring" where
  "aad_text ft b =
    ''{'' @ writeCanonicalString ''algorithm'' @ '':'' @ writeCanonicalString (ab_Algorithm b) @ '','' @
    writeCanonicalString ''backend_id'' @ '':'' @ writeCanonicalString (ab_BackendID b) @ '','' @
    writeCanonicalString ''created_at'' @ '':'' @ writeCanonicalString (ft (ab_CreatedAt b)) @ '','' @
    writeCanonicalString ''key_term'' @ '':'' @ format_int (ab_KeyTerm b) @ '','' @
    writeCanonicalString ''namespace'' @ '':'' @ writeCanonicalString (ab_Namespace b) @ '','' @
    writeCanonicalString ''path'' @ '':'' @ writeCanonicalString (ab_Path b) @ '','' @
    writeCanonicalString ''schema_version'' @ '':'' @ format_int (ab_SchemaVersion b) @ '','' @
    writeCanonicalString ''version'' @ '':'' @ format_int (ab_Version b) @ ''}''"

text \<open>Bindings as the program makes them: 64-bit numbers and UTF-8 strings.\<close>

definition binding_ok :: "aad_binding \<Rightarrow> bool" where
  "binding_ok b \<longleftrightarrow>
    list_all (\<lambda>i. min_int64 \<le> i \<and> i \<le> max_int64) [ab_SchemaVersion b, ab_Version b, ab_KeyTerm b] \<and>
    list_all valid_utf8 [ab_Namespace b, ab_Path b, ab_BackendID b, ab_Algorithm b]"

lemma aad_Marshal_text: "binding_ok b \<Longrightarrow> aad_Marshal ff ft b = Some (aad_text ft b)"
  by (simp add: aad_Marshal_def jcs_Marshal_def aad_json_def binding_ok_def canonicalizeNumber_int members_text_def
      utf16_ascii ascii_def byte_of_def aad_text_def)

lemma token_cancel:
  assumes "\<forall>c \<in> set a. P c" "\<forall>c \<in> set b. P c" "\<not> P x" "\<not> P y" "a @ x # u = b @ y # v"
  shows "a = b \<and> u = v"
  using assms
proof (induction a arbitrary: b)
  case Nil
  then show ?case by (cases b) auto
next
  case (Cons c a)
  then show ?case by (cases b) auto
qed

lemma format_int_cancel:
  assumes "x \<in> {CHR '','', CHR ''}''}" "y \<in> {CHR '','', CHR ''}''}" "format_int i @ x # u = format_int j @ y # v"
  shows "i = j \<and> u = v"
proof -
  have "format_int i = format_int j \<and> u = v"
    by (rule token_cancel [where P = "\<lambda>c. is_digit c \<or> c = CHR ''-''"])
      (use assms format_int_chars in \<open>auto simp: is_digit_def byte_of_def\<close>)
  then show ?thesis by simp
qed

text \<open>What the binding relies on from \<open>time.Format\<close> with RFC 3339: ASCII text that tells the second.\<close>

definition time_format_ok :: "(gotime \<Rightarrow> gostring) \<Rightarrow> bool" where
  "time_format_ok ft \<longleftrightarrow> (\<forall>t. ascii (ft t)) \<and> (\<forall>t u. ft t = ft u \<longleftrightarrow> t div Second = u div Second)"

lemma aad_text_inject:
  assumes "binding_ok b" "binding_ok c" "time_format_ok ft" "aad_text ft b = aad_text ft c"
  shows "b\<lparr>ab_CreatedAt := 0\<rparr> = c\<lparr>ab_CreatedAt := 0\<rparr> \<and> ab_CreatedAt b div Second = ab_CreatedAt c div Second"
proof -
  have v: "valid_utf8 (ft (ab_CreatedAt b))" "valid_utf8 (ft (ab_CreatedAt c))"
    using assms(3) by (simp_all add: time_format_ok_def valid_utf8_ascii)
  have u: "valid_utf8 (f b)" "valid_utf8 (f c)" if "f \<in> {ab_Namespace, ab_Path, ab_BackendID, ab_Algorithm}" for f
    using that assms(1,2) by (auto simp: binding_ok_def)
  have e: "ab_Algorithm b = ab_Algorithm c" "ab_BackendID b = ab_BackendID c" "ft (ab_CreatedAt b) = ft (ab_CreatedAt c)"
    "ab_KeyTerm b = ab_KeyTerm c" "ab_Namespace b = ab_Namespace c" "ab_Path b = ab_Path c"
    "ab_SchemaVersion b = ab_SchemaVersion c" "ab_Version b = ab_Version c"
    using assms(4) u [of ab_Algorithm] u [of ab_BackendID] u [of ab_Namespace] u [of ab_Path] v
    by (auto simp: aad_text_def dest!: canonical_string_cancel [rotated 2] format_int_cancel [rotated 2])
  moreover have "ab_CreatedAt b div Second = ab_CreatedAt c div Second"
    using e(3) assms(3) by (simp add: time_format_ok_def)
  ultimately show ?thesis by (cases b; cases c) simp
qed

text \<open>The associated data pins every field of the binding, with the creation time to the second: two
  bindings with the same canonical bytes have the same schema version, namespace, path, version, key term,
  backend and algorithm.\<close>

theorem aad_binds_context:
  assumes "binding_ok b" "binding_ok c" "time_format_ok ft" "aad_Marshal ff ft b = aad_Marshal ff ft c"
  shows "b\<lparr>ab_CreatedAt := 0\<rparr> = c\<lparr>ab_CreatedAt := 0\<rparr> \<and> ab_CreatedAt b div Second = ab_CreatedAt c div Second"
  using aad_text_inject [OF assms(1-3)] assms(4) by (simp add: aad_Marshal_text assms(1,2))

definition sample_time_format :: "gotime \<Rightarrow> gostring" where
  "sample_time_format t = format_int (t div Second)"

lemma sample_time_format_ok: "time_format_ok sample_time_format"
proof -
  have "byte_of c < 128" if "c \<in> set (format_int i)" for c i
    using format_int_chars [OF that] by (auto simp: is_digit_def byte_of_def)
  then have "ascii (format_int i)" for i by (simp add: ascii_def list_all_iff)
  then show ?thesis by (simp add: time_format_ok_def sample_time_format_def)
qed

definition sample_binding :: "gostring \<Rightarrow> int \<Rightarrow> int \<Rightarrow> gotime \<Rightarrow> aad_binding" where
  "sample_binding path version keyTerm at =
    \<lparr>ab_SchemaVersion = 2, ab_Namespace = ''default'', ab_Path = path, ab_Version = version, ab_KeyTerm = keyTerm,
     ab_BackendID = ''file:/v'', ab_CreatedAt = at, ab_Algorithm = ''xchacha20-poly1305''\<rparr>"

theorem aad_binds_context_witness:
  "aad_Marshal (\<lambda>_. None) sample_time_format (sample_binding ''a/b/c/d'' 1 1 0) \<noteq>
   aad_Marshal (\<lambda>_. None) sample_time_format (sample_binding ''a/b/c/e'' 1 1 0)"
proof
  assume h: "aad_Marshal (\<lambda>_. None) sample_time_format (sample_binding ''a/b/c/d'' 1 1 0) =
    aad_Marshal (\<lambda>_. None) sample_time_format (sample_binding ''a/b/c/e'' 1 1 0)"
  have ok: "binding_ok (sample_binding p 1 1 0)" if "ascii p" for p
    using that by (simp add: binding_ok_def sample_binding_def min_int64_def max_int64_def valid_utf8_ascii ascii_def byte_of_def)
  from aad_binds_context [OF ok ok sample_time_format_ok h] show False
    by (simp add: sample_binding_def ascii_def byte_of_def)
qed

subsection \<open>Member order\<close>

text \<open>The text does not depend on the order in which the members of an object are visited.\<close>

lemma canonicalize_permute:
  assumes "mset ms = mset ms'" "distinct (map (\<lambda>m. utf16 (fst m)) ms)"
  shows "canonicalize ff (JObj ms) = canonicalize ff (JObj ms')"
proof -
  let ?t = "\<lambda>m. (fst m, the (canonicalize ff (snd m)))"
  have "mset (map ?t ms) = mset (map ?t ms')" using assms(1) by (simp only: mset_map)
  moreover have "inj_on (\<lambda>(k, t). utf16 k) (set (map ?t ms))"
    using assms(2) by (auto simp: distinct_map inj_on_def)
  ultimately have "sort_key (\<lambda>(k, t). utf16 k) (map ?t ms) = sort_key (\<lambda>(k, t). utf16 k) (map ?t ms')"
    by (intro sort_key_inj_key_eq) (simp_all only: mset_sort sorted_sort_key)
  moreover have "set ms = set ms'" using assms(1) by (rule mset_eq_setD)
  ultimately show ?thesis by (simp add: Let_def members_text_def o_def image_image case_prod_beta)
qed

end
