(* ===== verification/Vault_Path.thy ===== *)
theory Vault_Path
  imports Json_Canonical File_Path
begin

section \<open>Secret paths (\<open>internal/vault/path\<close>)\<close>

text \<open>
  \<open>canonicalize.go\<close> turns a shorthand into the four-segment path \<open>namespace/category/provider/field\<close>, with
  \<open>provider:account\<close> for a provider with accounts; \<open>parts.go\<close> takes such a path apart. The registry's
  lookup of a provider's category is a parameter.
\<close>

datatype path_error = ErrAmbiguous | ErrInvalidPath | ErrUnknownProvider

record path_parts =
  pp_Namespace :: gostring
  pp_Category :: gostring
  pp_Provider :: gostring
  pp_Account :: gostring
  pp_Field :: gostring

type_synonym category_resolver = "gostring \<Rightarrow> gostring option"

definition assemble :: "gostring \<Rightarrow> gostring \<Rightarrow> gostring \<Rightarrow> gostring \<Rightarrow> path_error + gostring" where
  "assemble ns category providerSegment field =
    (if ns = [] \<or> category = [] \<or> providerSegment = [] \<or> field = [] then Inl ErrInvalidPath
     else Inr (ns @ ''/'' @ category @ ''/'' @ providerSegment @ ''/'' @ field))"

text \<open>The part after the checks on the whole string, for a shorthand without slashes.\<close>

definition canonicalize_shorthand :: "gostring \<Rightarrow> gostring \<Rightarrow> category_resolver \<Rightarrow> path_error + gostring" where
  "canonicalize_shorthand shorthand ns resolve =
    (case Cut shorthand (CHR '':'') of
       Some (left, right) \<Rightarrow>
         (case Cut right (CHR ''.'') of
            None \<Rightarrow> Inl ErrInvalidPath
          | Some (first, field) \<Rightarrow>
              if first = [] \<or> field = [] then Inl ErrInvalidPath
              else (case resolve left of
                      Some category \<Rightarrow>
                        if ns = [] then Inl ErrAmbiguous else assemble ns category (left @ '':'' @ first) field
                    | None \<Rightarrow>
                        (case resolve first of None \<Rightarrow> Inl ErrUnknownProvider
                         | Some category \<Rightarrow> assemble left category first field)))
     | None \<Rightarrow>
         (case Cut shorthand (CHR ''.'') of
            None \<Rightarrow> Inl ErrInvalidPath
          | Some (provider, field) \<Rightarrow>
              if provider = [] \<or> field = [] then Inl ErrInvalidPath
              else (case resolve provider of None \<Rightarrow> Inl ErrUnknownProvider
                    | Some category \<Rightarrow>
                        if ns = [] then Inl ErrAmbiguous else assemble ns category provider field)))"

definition Canonicalize :: "gostring \<Rightarrow> gostring \<Rightarrow> category_resolver \<Rightarrow> path_error + gostring" where
  "Canonicalize shorthand ns resolve =
    (if shorthand = [] \<or> \<not> valid_utf8 shorthand \<or> CHR 0x00 \<in> set shorthand \<or> Contains shorthand ''..''
        \<or> HasPrefix shorthand ''/'' \<or> HasSuffix shorthand ''/'' then Inl ErrInvalidPath
     else let slashCount = count_list shorthand (CHR ''/'') in
       if slashCount = 3 then
         (if [] \<in> set (SplitN 4 shorthand (CHR ''/'')) then Inl ErrInvalidPath else Inr shorthand)
       else if slashCount > 0 then Inl ErrInvalidPath
       else canonicalize_shorthand shorthand ns resolve)"

definition Parts :: "gostring \<Rightarrow> path_error + path_parts" where
  "Parts canonical =
    (if canonical = [] then Inl ErrInvalidPath
     else case SplitN 4 canonical (CHR ''/'') of
       [ns, category, seg, field] \<Rightarrow>
         if ns = [] \<or> category = [] \<or> seg = [] \<or> field = [] then Inl ErrInvalidPath
         else (case LastIndex seg '':'' of
                 None \<Rightarrow> Inr \<lparr>pp_Namespace = ns, pp_Category = category, pp_Provider = seg, pp_Account = [], pp_Field = field\<rparr>
               | Some idx \<Rightarrow>
                   let provider = take idx seg; account = drop (Suc idx) seg in
                   if provider = [] \<or> account = [] then Inl ErrInvalidPath
                   else Inr \<lparr>pp_Namespace = ns, pp_Category = category, pp_Provider = provider, pp_Account = account,
                             pp_Field = field\<rparr>)
     | _ \<Rightarrow> Inl ErrInvalidPath)"

subsection \<open>Four segments\<close>

definition segment :: "gostring \<Rightarrow> bool" where
  "segment s \<longleftrightarrow> s \<noteq> [] \<and> CHR ''/'' \<notin> set s"

definition four_segments :: "gostring \<Rightarrow> bool" where
  "four_segments c \<longleftrightarrow> (case split_slash c of [a, b, d, e] \<Rightarrow> list_all segment [a, b, d, e] | _ \<Rightarrow> False)"

lemma length_split_slash: "length (split_slash s) = Suc (count_list s (CHR ''/''))"
  by (induction s) (auto split: list.splits)

lemma four_segmentsI:
  "segment a \<Longrightarrow> segment b \<Longrightarrow> segment d \<Longrightarrow> segment e \<Longrightarrow>
    four_segments (a @ ''/'' @ b @ ''/'' @ d @ ''/'' @ e)"
  by (simp add: four_segments_def segment_def split_slash_append split_slash_simple)

lemma four_segmentsE:
  assumes "four_segments c"
  obtains a b d e where "c = a @ ''/'' @ b @ ''/'' @ d @ ''/'' @ e" "list_all segment [a, b, d, e]"
proof -
  obtain a b d e where s: "split_slash c = [a, b, d, e]" and g: "list_all segment [a, b, d, e]"
    using assms by (auto simp: four_segments_def split: list.splits)
  with Join_split_slash [of c] that show thesis by fastforce
qed

lemma SplitN_four:
  assumes "\<forall>x \<in> {a, b, d, e}. CHR ''/'' \<notin> set x"
  shows "SplitN 4 (a @ ''/'' @ b @ ''/'' @ d @ ''/'' @ e) (CHR ''/'') = [a, b, d, e]"
  using assms by (simp add: numeral_eq_Suc)

lemma SplitN_slashes:
  assumes "count_list c (CHR ''/'') = 3"
  shows "SplitN 4 c (CHR ''/'') = split_slash c"
proof -
  obtain a b d e where s: "split_slash c = [a, b, d, e]"
    using length_split_slash [of c] assms by (auto simp: numeral_eq_Suc length_Suc_conv)
  have "\<forall>x \<in> {a, b, d, e}. CHR ''/'' \<notin> set x"
    using split_slash_no_slash [of _ c] s by auto
  note SplitN_four [OF this]
  moreover have "c = a @ ''/'' @ b @ ''/'' @ d @ ''/'' @ e" using Join_split_slash [of c] s by simp
  ultimately show ?thesis using s by simp
qed

lemma LastIndex_char:
  "LastIndex s [x] = Some i \<Longrightarrow> s = take i s @ [x] @ drop (Suc i) s \<and> x \<notin> set (drop (Suc i) s)"
proof (induction s arbitrary: i)
  case (Cons c s)
  show ?case
  proof (cases "LastIndex s [x]")
    case None
    have "x \<notin> set s" using None
      by (induction s) (auto simp: HasPrefix_def split: option.splits if_splits)
    with None Cons.prems show ?thesis by (auto simp: HasPrefix_def split: if_splits)
  next
    case (Some j)
    with Cons show ?thesis by auto
  qed
qed simp

lemma LastIndex_None: "LastIndex s [x] = None \<Longrightarrow> x \<notin> set s"
  by (induction s) (auto simp: HasPrefix_def split: option.splits if_splits)

text \<open>The path a parsed record stands for.\<close>

definition parts_path :: "path_parts \<Rightarrow> gostring" where
  "parts_path p = pp_Namespace p @ ''/'' @ pp_Category p @ ''/'' @ pp_Provider p @
     (if pp_Account p = [] then [] else '':'' @ pp_Account p) @ ''/'' @ pp_Field p"

lemma Parts_path:
  assumes "four_segments c" "Parts c = Inr p"
  shows "parts_path p = c \<and> CHR '':'' \<notin> set (pp_Account p)"
proof -
  obtain a b d e where c: "c = a @ ''/'' @ b @ ''/'' @ d @ ''/'' @ e" and g: "list_all segment [a, b, d, e]"
    by (rule four_segmentsE [OF assms(1)])
  then have "SplitN 4 c (CHR ''/'') = [a, b, d, e]" using SplitN_four [of a b d e] by (simp add: segment_def)
  with c g assms(2) show ?thesis
    by (auto simp: Parts_def segment_def parts_path_def Let_def dest!: LastIndex_char LastIndex_None
        split: option.splits if_splits)
qed

lemma segment_colon: "segment (a @ '':'' @ b) \<longleftrightarrow> CHR ''/'' \<notin> set a \<and> CHR ''/'' \<notin> set b"
  by (auto simp: segment_def)

lemma assemble_segments:
  "assemble ns category seg field = Inr c \<Longrightarrow> CHR ''/'' \<notin> set ns \<Longrightarrow> CHR ''/'' \<notin> set category \<Longrightarrow>
    CHR ''/'' \<notin> set seg \<Longrightarrow> CHR ''/'' \<notin> set field \<Longrightarrow> four_segments c"
  by (auto simp: assemble_def segment_def split: if_splits intro!: four_segmentsI [simplified])

text \<open>Names the canonicalizer is configured with have no slash.\<close>

definition resolver_ok :: "category_resolver \<Rightarrow> bool" where
  "resolver_ok resolve \<longleftrightarrow> (\<forall>p category. resolve p = Some category \<longrightarrow> CHR ''/'' \<notin> set category)"

lemma shorthand_segments:
  assumes "canonicalize_shorthand s ns resolve = Inr c" "CHR ''/'' \<notin> set s" "CHR ''/'' \<notin> set ns" "resolver_ok resolve"
  shows "four_segments c"
  using assms
  by (auto simp: canonicalize_shorthand_def resolver_ok_def Cut_Some_iff split: option.splits if_splits
      elim!: assemble_segments)



end
