(* ===== verification/Vault_Meta.thy ===== *)
theory Vault_Meta
  imports Json_Canonical "HOL-Library.AList"
begin

section \<open>Secret metadata (\<open>internal/vault/meta\<close>)\<close>

text \<open>
  The value-free records of a secret path: \<open>meta.go\<close>, \<open>validate.go\<close> and \<open>delivery.go\<close>. The character classes
  of package \<open>unicode\<close> are the functions of \<open>unicode_classes\<close>. A Go map with string keys is an association
  list updated by key.
\<close>

definition CurrentSchemaVersion :: int where "CurrentSchemaVersion = 2"
definition DefaultMaxVersions :: int where "DefaultMaxVersions = 5"
definition MaxDeliveryRecords :: nat where "MaxDeliveryRecords = 16"

record delivery_record =
  dr_DeliveredAt :: gotime
  dr_RuntimeMode :: gostring
  dr_CredentialShape :: gostring
  dr_ReceiptID :: gostring
  dr_TokenAccessor :: gostring
  dr_SandboxProfile :: gostring
  dr_ProxyProfile :: gostring

record version_meta =
  vm_Version :: int
  vm_CreatedAt :: gotime
  vm_CreatedBy :: gostring
  vm_ExpiresAt :: "gotime option"
  vm_DeletedAt :: "gotime option"
  vm_DestroyedAt :: "gotime option"
  vm_AAD :: aad_binding
  vm_LastDeliveries :: "delivery_record list"

record vmeta =
  me_SchemaVersion :: int
  me_Path :: gostring
  me_Accessor :: gostring
  me_Backend :: gostring
  me_CurrentVersion :: int
  me_OldestVersion :: int
  me_MaxVersions :: int
  me_DestroyedVersions :: "int list"
  me_CreatedAt :: gotime
  me_UpdatedAt :: gotime
  me_IssuedAt :: "gotime option"
  me_ExpiresAt :: "gotime option"
  me_RotationHint :: gostring
  me_Owner :: gostring
  me_Scope :: gostring
  me_Purpose :: gostring
  me_SafeFields :: "gostring list"
  me_Custom :: "(gostring \<times> gostring) list"
  me_Versions :: "version_meta list"
  me_TeamID :: gostring
  me_SharedRecipients :: "gostring list"

datatype meta_error =
    ErrMissingPath | ErrMissingAccessor | ErrUnsupportedSchemaVersion | ErrInvalidVersion | ErrInvalidMaxVersions
  | ErrExpiresBeforeIssued | ErrInvalidVersionEntry | ErrCustomContainsSecret

definition AppendDelivery :: "version_meta \<Rightarrow> delivery_record \<Rightarrow> version_meta" where
  "AppendDelivery vm dr =
    (let kept = (if length (vm_LastDeliveries vm) \<ge> MaxDeliveryRecords then tl (vm_LastDeliveries vm)
                 else vm_LastDeliveries vm)
     in vm\<lparr>vm_LastDeliveries := kept @ [dr]\<rparr>)"

record unicode_classes =
  uc_IsSpace :: "nat \<Rightarrow> bool"
  uc_IsUpper :: "nat \<Rightarrow> bool"
  uc_IsDigit :: "nat \<Rightarrow> bool"

definition looksLikeSecret :: "unicode_classes \<Rightarrow> gostring \<Rightarrow> bool" where
  "looksLikeSecret U s =
    (let rs = map fst (runes s) in
     length s > 20 \<and> \<not> list_ex (uc_IsSpace U) rs \<and> list_ex (uc_IsUpper U) rs \<and> list_ex (uc_IsDigit U) rs)"

definition Validate :: "unicode_classes \<Rightarrow> vmeta \<Rightarrow> meta_error option" where
  "Validate U m =
    (if me_Path m = [] then Some ErrMissingPath
     else if me_Accessor m = [] then Some ErrMissingAccessor
     else if me_SchemaVersion m \<noteq> CurrentSchemaVersion then Some ErrUnsupportedSchemaVersion
     else if me_CurrentVersion m < 1 then Some ErrInvalidVersion
     else if me_MaxVersions m < 0 then Some ErrInvalidMaxVersions
     else if (case (me_IssuedAt m, me_ExpiresAt m) of (Some i, Some e) \<Rightarrow> e < i | _ \<Rightarrow> False)
       then Some ErrExpiresBeforeIssued
     else if list_ex (\<lambda>vm. vm_Version vm < 1) (me_Versions m) then Some ErrInvalidVersionEntry
     else if list_ex (\<lambda>(k, v). looksLikeSecret U v) (me_Custom m) then Some ErrCustomContainsSecret
     else None)"

text \<open>The delivery list never grows past its cap and keeps the most recent records.\<close>

lemma AppendDelivery_cap:
  "length (vm_LastDeliveries vm) \<le> MaxDeliveryRecords \<Longrightarrow>
    length (vm_LastDeliveries (AppendDelivery vm dr)) \<le> MaxDeliveryRecords \<and>
    last (vm_LastDeliveries (AppendDelivery vm dr)) = dr"
  by (auto simp: AppendDelivery_def MaxDeliveryRecords_def Let_def)

end
