(* ===== verification/File_Backend.thy ===== *)
theory File_Backend
  imports Vault_Path Vault_Meta Keyring Sample_Codec "HOL-Library.List_Lexorder"
begin

section \<open>The file backend (\<open>internal/backend/file\<close>, \<open>internal/crypto/envelope\<close>)\<close>

text \<open>
  Secrets as sealed files below the vault directory. \<open>envelope\<close>: sealing and opening with either algorithm.
  \<open>layout.go\<close>: file names. \<open>crypto.go\<close>, \<open>versions.go\<close>, \<open>meta.go\<close>: versioned values with their sidecars and the
  metadata files. \<open>file.go\<close>, \<open>manifest.go\<close>: the flat layout with its manifest. The file system is an
  association list from cleaned path names to contents; a content is bytes or one JSON document, up to
  the JSON codec. The AEADs are the functions of \<open>aead\<close>. An environment says what one call meets: the clock at
  its two readings, randomness, and which reads, writes and removals the operating system allows.
\<close>

subsection \<open>Sealing (\<open>internal/crypto/envelope\<close>)\<close>

record aead =
  ae_Seal :: "algorithm \<Rightarrow> gostring \<Rightarrow> gostring \<Rightarrow> gostring \<Rightarrow> gostring \<Rightarrow> gostring"
  ae_Open :: "algorithm \<Rightarrow> gostring \<Rightarrow> gostring \<Rightarrow> gostring \<Rightarrow> gostring \<Rightarrow> gostring option"
  ae_Float :: "gostring \<Rightarrow> gostring option"
  ae_Time :: "gotime \<Rightarrow> gostring"

datatype backend_error =
    NotFound | Locked | BootstrapRequired | PathEscapes | MkdirFailed | KeyringError keyring_error | AADFailed
  | UnsupportedAlgorithm | SealFailed | WriteFailed gostring | ReadFailed gostring | ParseFailed gostring
  | BindingMismatch gostring | AEADAuthFailed | RemoveFailed | NotSupported

definition alg_name :: "algorithm \<Rightarrow> gostring" where
  "alg_name a = (case a of XChaCha20Poly1305 \<Rightarrow> ''xchacha20-poly1305'' | AES256GCM \<Rightarrow> ''aes-256-gcm''
                 | OtherAlgorithm s \<Rightarrow> s)"

definition alg_of_name :: "gostring \<Rightarrow> algorithm" where
  "alg_of_name s = (if s = ''xchacha20-poly1305'' then XChaCha20Poly1305
                    else if s = ''aes-256-gcm'' then AES256GCM else OtherAlgorithm s)"

record file_env =
  fe_Now :: gotime
  fe_Now2 :: gotime
  fe_Nonce :: "gostring option"
  fe_MkdirOk :: bool
  fe_WriteOk :: "gostring \<Rightarrow> bool"
  fe_ReadOk :: "gostring \<Rightarrow> bool"
  fe_RemoveOk :: "gostring \<Rightarrow> bool"
  fe_LockOk :: bool
  fe_SaveOk :: bool

definition SealXChaCha20 ::
  "aead \<Rightarrow> gostring option \<Rightarrow> gostring \<Rightarrow> gostring \<Rightarrow> gostring \<Rightarrow> backend_error + gostring \<times> gostring" where
  "SealXChaCha20 A rnd dek plaintext aadBytes =
    (if length dek \<noteq> 32 then Inl SealFailed
     else case rnd of None \<Rightarrow> Inl SealFailed
       | Some nonce \<Rightarrow> Inr (ae_Seal A XChaCha20Poly1305 dek nonce plaintext aadBytes, nonce))"

definition SealAESGCM ::
  "aead \<Rightarrow> file_env \<Rightarrow> gostring \<Rightarrow> gostring \<Rightarrow> gostring \<Rightarrow> int \<Rightarrow> keyring \<Rightarrow> keyring_disk \<Rightarrow>
     (backend_error + gostring \<times> gostring) \<times> keyring \<times> keyring_disk" where
  "SealAESGCM A E dek plaintext aadBytes t kr D =
    (if length dek \<noteq> 32 then (Inl SealFailed, kr, D)
     else case keyring_Next (fe_LockOk E) (fe_SaveOk E) AES256GCM t kr D of
       (Inl _, kr', D') \<Rightarrow> (Inl SealFailed, kr', D')
     | (Inr ws, kr', D') \<Rightarrow>
         (let nonce = map (\<lambda>w. char_of (unat w)) ws in
          if length nonce \<noteq> 12 then (Inl SealFailed, kr', D')
          else (Inr (ae_Seal A AES256GCM dek nonce plaintext aadBytes, nonce), kr', D')))"

definition envelope_Open ::
  "aead \<Rightarrow> algorithm \<Rightarrow> gostring \<Rightarrow> gostring \<Rightarrow> gostring \<Rightarrow> gostring \<Rightarrow> backend_error + gostring" where
  "envelope_Open A alg dek ciphertext nonce aadBytes =
    (case alg of OtherAlgorithm _ \<Rightarrow> Inl UnsupportedAlgorithm
     | _ \<Rightarrow> if length dek \<noteq> 32 then Inl AEADAuthFailed
            else (case ae_Open A alg dek nonce ciphertext aadBytes of None \<Rightarrow> Inl AEADAuthFailed | Some pt \<Rightarrow> Inr pt))"

subsection \<open>Files\<close>

record bmeta =
  bm_Path :: gostring
  bm_Accessor :: gostring
  bm_CreatedAt :: gotime
  bm_UpdatedAt :: gotime
  bm_Version :: int
  bm_Backend :: gostring
  bm_SafeFields :: "gostring list"

datatype content = Bytes gostring | BindingDoc aad_binding | MetaDoc vmeta | ManifestDoc "(gostring \<times> bmeta) list"

type_synonym file_system = "(gostring \<times> content) list"

record file_state =
  st_fs :: file_system
  st_dir :: gostring
  st_keyring :: "keyring option"
  st_kdisk :: keyring_disk
  st_manifest :: "(gostring \<times> bmeta) list"
  st_loaded :: bool

definition confine :: "gostring \<Rightarrow> gostring \<Rightarrow> backend_error + gostring" where
  "confine base elem =
    (let full = filepath_Join base elem in
     case Rel base full of None \<Rightarrow> Inl PathEscapes
     | Some rel \<Rightarrow> if rel = ''..'' \<or> HasPrefix rel ''../'' then Inl PathEscapes else Inr full)"

definition metadataPath :: "gostring \<Rightarrow> gostring \<Rightarrow> backend_error + gostring" where
  "metadataPath root canonical =
    (case confine (filepath_Join root ''metadata'') canonical of Inl e \<Rightarrow> Inl e | Inr p \<Rightarrow> Inr (p @ ''.json''))"

definition valuePath :: "gostring \<Rightarrow> gostring \<Rightarrow> int \<Rightarrow> backend_error + gostring" where
  "valuePath root canonical version =
    confine (filepath_Join root ''values'') (filepath_Join canonical (format_int version))"

text \<open>\<open>atomicWrite\<close>: the old content or the new one.\<close>

definition atomicWrite :: "file_env \<Rightarrow> gostring \<Rightarrow> content \<Rightarrow> file_system \<Rightarrow> bool \<times> file_system" where
  "atomicWrite E p c F = (if fe_WriteOk E p then (True, AList.update p c F) else (False, F))"

definition remove_file :: "gostring \<Rightarrow> file_system \<Rightarrow> file_system" where
  "remove_file p F = AList.delete p F"

definition read_bytes :: "file_env \<Rightarrow> gostring \<Rightarrow> file_system \<Rightarrow> backend_error + gostring" where
  "read_bytes E p F =
    (case map_of F p of None \<Rightarrow> Inl NotFound
     | Some c \<Rightarrow> if \<not> fe_ReadOk E p then Inl (ReadFailed p)
                 else (case c of Bytes b \<Rightarrow> Inr b | _ \<Rightarrow> Inl (ParseFailed p)))"

definition file_ID :: "file_state \<Rightarrow> gostring" where
  "file_ID st = ''file:'' @ st_dir st"

definition ActiveKeyTerm :: "file_state \<Rightarrow> keyring_error + int" where
  "ActiveKeyTerm st =
    (case st_keyring st of None \<Rightarrow> Inr 0
     | Some kr \<Rightarrow> (case ActiveDEK kr of Inl e \<Rightarrow> Inl e | Inr (_, t) \<Rightarrow> Inr t))"

text \<open>The switch on the algorithm both write paths share.\<close>

definition seal_value ::
  "aead \<Rightarrow> file_env \<Rightarrow> algorithm \<Rightarrow> gostring \<Rightarrow> gostring \<Rightarrow> gostring \<Rightarrow> int \<Rightarrow> keyring \<Rightarrow> keyring_disk \<Rightarrow>
     (backend_error + gostring \<times> gostring) \<times> keyring \<times> keyring_disk" where
  "seal_value A E alg dek value aadBytes t kr D =
    (case alg of
       XChaCha20Poly1305 \<Rightarrow> (SealXChaCha20 A (fe_Nonce E) dek value aadBytes, kr, D)
     | AES256GCM \<Rightarrow> SealAESGCM A E dek value aadBytes t kr D
     | OtherAlgorithm _ \<Rightarrow> (Inl UnsupportedAlgorithm, kr, D))"

subsection \<open>Versioned values (\<open>crypto.go\<close>, \<open>versions.go\<close>)\<close>

text \<open>Ciphertext first, then the nonce; when the nonce cannot be written the ciphertext is removed.\<close>

definition write_sealed ::
  "file_env \<Rightarrow> gostring \<Rightarrow> gostring \<Rightarrow> gostring \<Rightarrow> file_system \<Rightarrow> backend_error option \<times> file_system" where
  "write_sealed E p ct nonce F =
    (case atomicWrite E p (Bytes ct) F of
       (False, F1) \<Rightarrow> (Some (WriteFailed p), F1)
     | (True, F1) \<Rightarrow>
         (case atomicWrite E (p @ ''.nonce'') (Bytes nonce) F1 of
            (False, F2) \<Rightarrow> (Some (WriteFailed (p @ ''.nonce'')), if fe_RemoveOk E p then remove_file p F2 else F2)
          | (True, F2) \<Rightarrow> (None, F2)))"

definition SetVersionedEncrypted ::
  "aead \<Rightarrow> file_env \<Rightarrow> gostring \<Rightarrow> int \<Rightarrow> gotime \<Rightarrow> gostring \<Rightarrow> gostring \<Rightarrow> keyring \<Rightarrow> file_state \<Rightarrow>
     backend_error option \<times> file_state" where
  "SetVersionedEncrypted A E canonical version createdAt namespace value kr st =
    (case ActiveDEK kr of Inl e \<Rightarrow> (Some (KeyringError e), st)
     | Inr (dek, t) \<Rightarrow>
         (let binding = \<lparr>ab_SchemaVersion = CurrentSchemaVersion, ab_Namespace = namespace, ab_Path = canonical,
                         ab_Version = version, ab_KeyTerm = t, ab_BackendID = file_ID st, ab_CreatedAt = createdAt,
                         ab_Algorithm = alg_name (kf_Algorithm (kr_file kr))\<rparr>
          in case aad_Marshal (ae_Float A) (ae_Time A) binding of None \<Rightarrow> (Some AADFailed, st)
             | Some aadBytes \<Rightarrow>
                 (case seal_value A E (kf_Algorithm (kr_file kr)) dek value aadBytes t kr (st_kdisk st) of
                    (Inl e, kr', D') \<Rightarrow> (Some e, st\<lparr>st_keyring := Some kr', st_kdisk := D'\<rparr>)
                  | (Inr (ct, nonce), kr', D') \<Rightarrow>
                      (let st1 = st\<lparr>st_keyring := Some kr', st_kdisk := D'\<rparr> in
                       case valuePath (st_dir st) canonical version of Inl e \<Rightarrow> (Some e, st1)
                       | Inr p \<Rightarrow>
                           if \<not> fe_MkdirOk E then (Some MkdirFailed, st1)
                           else (let (r, F) = write_sealed E p ct nonce (st_fs st1) in (r, st1\<lparr>st_fs := F\<rparr>))))))"

definition GetVersionedEncrypted ::
  "aead \<Rightarrow> file_env \<Rightarrow> gostring \<Rightarrow> int \<Rightarrow> aad_binding \<Rightarrow> keyring \<Rightarrow> file_state \<Rightarrow> backend_error + gostring" where
  "GetVersionedEncrypted A E canonical version binding kr st =
    (case DEKForTerm kr (ab_KeyTerm binding) of Inl e \<Rightarrow> Inl (KeyringError e)
     | Inr dek \<Rightarrow>
         (case valuePath (st_dir st) canonical version of Inl e \<Rightarrow> Inl e
          | Inr p \<Rightarrow>
              (case read_bytes E p (st_fs st) of Inl e \<Rightarrow> Inl e
               | Inr ct \<Rightarrow>
                   (case read_bytes E (p @ ''.nonce'') (st_fs st) of Inl _ \<Rightarrow> Inl (ReadFailed (p @ ''.nonce''))
                    | Inr nonce \<Rightarrow>
                        (case aad_Marshal (ae_Float A) (ae_Time A) binding of None \<Rightarrow> Inl AADFailed
                         | Some aadBytes \<Rightarrow>
                             (case envelope_Open A (alg_of_name (ab_Algorithm binding)) dek ct nonce aadBytes of
                                Inl _ \<Rightarrow> Inl AEADAuthFailed
                              | Inr plaintext \<Rightarrow> Inr plaintext))))))"

definition writeVersionMeta ::
  "file_env \<Rightarrow> gostring \<Rightarrow> int \<Rightarrow> aad_binding \<Rightarrow> file_state \<Rightarrow> backend_error option \<times> file_state" where
  "writeVersionMeta E path version binding st =
    (case valuePath (st_dir st) path version of Inl e \<Rightarrow> (Some e, st)
     | Inr vp \<Rightarrow>
         (let p = vp @ ''.versionmeta''; (ok, F) = atomicWrite E p (BindingDoc binding) (st_fs st) in
          (if ok then None else Some (WriteFailed p), st\<lparr>st_fs := F\<rparr>)))"

definition readVersionMeta :: "file_env \<Rightarrow> gostring \<Rightarrow> int \<Rightarrow> file_state \<Rightarrow> backend_error + aad_binding" where
  "readVersionMeta E path version st =
    (case valuePath (st_dir st) path version of Inl e \<Rightarrow> Inl e
     | Inr vp \<Rightarrow>
         (let p = vp @ ''.versionmeta'' in
          case map_of (st_fs st) p of None \<Rightarrow> Inl NotFound
          | Some c \<Rightarrow> if \<not> fe_ReadOk E p then Inl (ReadFailed p)
                      else (case c of BindingDoc b \<Rightarrow> Inr b | _ \<Rightarrow> Inl (ParseFailed p))))"

text \<open>The namespace of the binding, with the default for a path that has no parts.\<close>

definition path_namespace :: "gostring \<Rightarrow> gostring" where
  "path_namespace path = (case Parts path of Inl _ \<Rightarrow> ''default'' | Inr parts \<Rightarrow> pp_Namespace parts)"

text \<open>The clock is read twice: the first reading is sealed, the second goes to the sidecar.\<close>

definition SetVersioned ::
  "aead \<Rightarrow> file_env \<Rightarrow> gostring \<Rightarrow> int \<Rightarrow> gostring \<Rightarrow> file_state \<Rightarrow> backend_error option \<times> file_state" where
  "SetVersioned A E path version value st =
    (case st_keyring st of None \<Rightarrow> (Some BootstrapRequired, st)
     | Some kr \<Rightarrow>
         (case ActiveDEK kr of Inl e \<Rightarrow> (Some (KeyringError e), st)
          | Inr (_, t) \<Rightarrow>
              (let namespace = path_namespace path;
                   binding = \<lparr>ab_SchemaVersion = CurrentSchemaVersion, ab_Namespace = namespace, ab_Path = path,
                              ab_Version = version, ab_KeyTerm = t, ab_BackendID = file_ID st,
                              ab_CreatedAt = fe_Now2 E, ab_Algorithm = alg_name (kf_Algorithm (kr_file kr))\<rparr>
               in case SetVersionedEncrypted A E path version (fe_Now E) namespace value kr st of
                    (Some e, st') \<Rightarrow> (Some e, st')
                  | (None, st') \<Rightarrow> writeVersionMeta E path version binding st')))"

definition GetVersioned :: "aead \<Rightarrow> file_env \<Rightarrow> gostring \<Rightarrow> int \<Rightarrow> file_state \<Rightarrow> backend_error + gostring" where
  "GetVersioned A E path version st =
    (case st_keyring st of None \<Rightarrow> Inl BootstrapRequired
     | Some kr \<Rightarrow>
         (case readVersionMeta E path version st of Inl e \<Rightarrow> Inl e
          | Inr binding \<Rightarrow>
              if ab_Path binding \<noteq> path then Inl (BindingMismatch (ab_Path binding))
              else GetVersionedEncrypted A E path version binding kr st))"

definition DeleteVersioned :: "file_env \<Rightarrow> gostring \<Rightarrow> int \<Rightarrow> file_state \<Rightarrow> backend_error option \<times> file_state" where
  "DeleteVersioned E path version st =
    (case valuePath (st_dir st) path version of Inl e \<Rightarrow> (Some e, st)
     | Inr p \<Rightarrow>
         (case map_of (st_fs st) p of None \<Rightarrow> (None, st)
          | Some _ \<Rightarrow> if fe_RemoveOk E p then (None, st\<lparr>st_fs := remove_file p (st_fs st)\<rparr>)
                      else (Some RemoveFailed, st)))"

subsection \<open>Metadata (\<open>meta.go\<close>)\<close>

definition getMetaFromDisk :: "file_env \<Rightarrow> gostring \<Rightarrow> gostring \<Rightarrow> file_system \<Rightarrow> backend_error + vmeta" where
  "getMetaFromDisk E root path F =
    (case metadataPath root path of Inl e \<Rightarrow> Inl e
     | Inr p \<Rightarrow>
         (case map_of F p of None \<Rightarrow> Inl NotFound
          | Some c \<Rightarrow> if \<not> fe_ReadOk E p then Inl (ReadFailed p)
                      else (case c of MetaDoc m \<Rightarrow> Inr m | _ \<Rightarrow> Inl (ParseFailed p))))"

definition file_GetMeta :: "file_env \<Rightarrow> gostring \<Rightarrow> file_state \<Rightarrow> backend_error + vmeta" where
  "file_GetMeta E path st = getMetaFromDisk E (st_dir st) path (st_fs st)"

definition file_SetMeta :: "file_env \<Rightarrow> gostring \<Rightarrow> vmeta \<Rightarrow> file_state \<Rightarrow> backend_error option \<times> file_state" where
  "file_SetMeta E path m st =
    (case metadataPath (st_dir st) path of Inl e \<Rightarrow> (Some e, st)
     | Inr p \<Rightarrow>
         if \<not> fe_MkdirOk E then (Some MkdirFailed, st)
         else (let (ok, F) = atomicWrite E p (MetaDoc m) (st_fs st) in
               (if ok then None else Some (WriteFailed p), st\<lparr>st_fs := F\<rparr>)))"

text \<open>The walk visits the files below the directory in the lexical order of their elements; the list is
  sorted by path afterwards.\<close>

definition walk_files :: "gostring \<Rightarrow> file_system \<Rightarrow> gostring list" where
  "walk_files root F =
    sort_key (\<lambda>p. map (map byte_of) (split_slash p))
      (remdups (filter (\<lambda>p. HasPrefix p (root @ ''/'')) (map fst F)))"

fun list_meta :: "file_env \<Rightarrow> gostring \<Rightarrow> file_system \<Rightarrow> gostring list \<Rightarrow> backend_error + vmeta list" where
  "list_meta E prefx F [] = Inr []"
| "list_meta E prefx F (p # ps) =
    (if \<not> HasSuffix p ''.json'' then list_meta E prefx F ps
     else if \<not> fe_ReadOk E p then Inl (ReadFailed p)
     else (case map_of F p of
             Some (MetaDoc m) \<Rightarrow>
               (case list_meta E prefx F ps of Inl e \<Rightarrow> Inl e
                | Inr ms \<Rightarrow> Inr (if prefx = [] \<or> HasPrefix (me_Path m) prefx then m # ms else ms))
           | _ \<Rightarrow> list_meta E prefx F ps))"

definition file_ListMeta :: "file_env \<Rightarrow> gostring \<Rightarrow> file_state \<Rightarrow> backend_error + vmeta list" where
  "file_ListMeta E prefx st =
    (case list_meta E prefx (st_fs st) (walk_files (filepath_Join (st_dir st) ''metadata'') (st_fs st)) of
       Inl e \<Rightarrow> Inl e | Inr ms \<Rightarrow> Inr (sort_key (\<lambda>m. map byte_of (me_Path m)) ms))"

definition ZeroKeyring :: "file_state \<Rightarrow> file_state" where
  "ZeroKeyring st = st\<lparr>st_keyring := map_option keyring_Zero (st_keyring st)\<rparr>"

subsection \<open>Where the files are\<close>

text \<open>A path whose elements are all proper: what the vault layer hands down, unless an element is a dot.\<close>

definition plain_path :: "gostring \<Rightarrow> bool" where
  "plain_path p \<longleftrightarrow> list_all proper_elem (split_slash p)"

lemma split_slash_slash: "split_slash (a @ CHR ''/'' # b) = split_slash a @ split_slash b"
proof (induction a)
  case (Cons x a)
  then show ?case by (cases "split_slash a") auto
qed simp

lemma clean_elems_append_proper:
  assumes "list_all proper_elem ys"
  shows "clean_elems rooted (xs @ ys) = clean_elems rooted xs @ ys"
proof -
  have "foldl (clean_step rooted) out ys = out @ ys" for out
    using assms by (induction ys arbitrary: out) (auto simp: clean_step_def proper_elem_def)
  then show ?thesis by (simp add: clean_elems_def)
qed

lemma IsAbs_append: "IsAbs a \<Longrightarrow> IsAbs (a @ b)"
  by (auto simp: IsAbs_def HasPrefix_prefix intro: prefix_prefix)

lemma IsAbs_not_Nil: "IsAbs a \<Longrightarrow> a \<noteq> []"
  by (auto simp: IsAbs_def HasPrefix_def)

lemma IsAbs_rooted_path [simp]: "IsAbs (rooted_path es)"
  by (simp add: IsAbs_def rooted_path_def HasPrefix_def)

lemma Join_rooted: "IsAbs a \<Longrightarrow> b \<noteq> [] \<Longrightarrow> filepath_Join a b = rooted_path (path_elems (a @ ''/'' @ b))"
  using IsAbs_not_Nil IsAbs_append Clean_rooted by (simp add: filepath_Join_def)

lemma Join_plain:
  assumes "IsAbs a" "plain_path b"
  shows "filepath_Join a b = rooted_path (path_elems a @ split_slash b)"
proof -
  have "b \<noteq> []" using assms(2) by (auto simp: plain_path_def proper_elem_def)
  moreover have "path_elems (a @ ''/'' @ b) = path_elems a @ split_slash b"
    using assms clean_elems_append_proper
    by (simp add: path_elems_def split_slash_slash IsAbs_append plain_path_def)
  ultimately show ?thesis using assms(1) Join_rooted by simp
qed

lemma format_int_proper: "proper_elem (format_int i)"
proof -
  have "c \<noteq> CHR ''/''" "c \<noteq> CHR ''.''" if "c \<in> set (format_int i)" for c
    using format_int_chars [OF that] by (auto simp: is_digit_def byte_of_def)
  then have "CHR ''/'' \<notin> set (format_int i)" "CHR ''.'' \<notin> set (format_int i)" by blast+
  then show ?thesis by (auto simp: proper_elem_def)
qed

text \<open>A confined path lies below its base, whatever the element.\<close>

lemma dotdot_head: "bs \<noteq> [] \<Longrightarrow>
  Join (map (\<lambda>_. ''..'') bs @ ts) ''/'' = ''..'' \<or> HasPrefix (Join (map (\<lambda>_. ''..'') bs @ ts) ''/'') ''../''"
  by (cases bs; cases "map (\<lambda>_. ''..'') (tl bs) @ ts") (auto simp: HasPrefix_def)

lemma path_elems_all_proper: "IsAbs p \<Longrightarrow> \<forall>e \<in> set (path_elems p). proper_elem e"
  using path_elems_rooted_proper by blast

lemma confine_below:
  assumes "confine base el = Inr p" "IsAbs base" "el \<noteq> []"
  shows "\<exists>es. p = rooted_path (path_elems base @ es) \<and> path_elems (base @ ''/'' @ el) = path_elems base @ es"
proof -
  let ?full = "path_elems (base @ ''/'' @ el)"
  have pr: "\<forall>e \<in> set ?full. proper_elem e" using assms(2) path_elems_all_proper IsAbs_append by blast
  have j: "filepath_Join base el = rooted_path ?full" using assms(2,3) by (rule Join_rooted)
  obtain bs ts where d: "drop_common (path_elems base) ?full = (bs, ts)" by fastforce
  have cb: "Clean base = rooted_path (path_elems base)" using Clean_rooted assms(2) by simp
  have rel: "Rel base (rooted_path ?full) = Some r \<Longrightarrow>
      ?full = path_elems base \<or> r = Join (map (\<lambda>_. ''..'') bs @ ts) ''/''" for r
    using pr d path_elems_all_proper [OF assms(2)] rooted_path_inject
    by (auto simp: Rel_def cb Clean_rooted_path path_elems_rooted_path Let_def split: if_splits)
  have "prefix (path_elems base) ?full"
  proof (cases "bs = []")
    case True
    then show ?thesis using drop_common_prefix [OF d] by simp
  next
    case False
    then show ?thesis using assms(1) rel dotdot_head [OF False, of ts]
      by (auto simp: confine_def j Let_def split: option.splits if_splits)
  qed
  then show ?thesis using assms(1) j by (auto simp: confine_def Let_def prefix_def split: option.splits if_splits)
qed

lemma confine_plain:
  assumes "IsAbs base" "plain_path el"
  shows "confine base el = Inr (rooted_path (path_elems base @ split_slash el))"
proof -
  let ?qs = "split_slash el"
  have j: "filepath_Join base el = rooted_path (path_elems base @ ?qs)" using assms by (rule Join_plain)
  have pq: "\<forall>e \<in> set ?qs. proper_elem e" using assms(2) by (simp add: plain_path_def list_all_iff)
  have pr: "\<forall>e \<in> set (path_elems base @ ?qs). proper_elem e" using pq path_elems_all_proper [OF assms(1)] by auto
  have dc: "drop_common bs (bs @ ts) = ([], ts)" for bs ts :: "gostring list" by (induction bs) auto
  have "Rel base (rooted_path (path_elems base @ ?qs)) = Some (Join ?qs ''/'')"
    using assms(1) pr dc rooted_path_inject [OF pr path_elems_all_proper [OF assms(1)]]
    by (simp add: Rel_def Clean_rooted [OF assms(1)] Clean_rooted_path path_elems_rooted_path path_elems_all_proper)
  moreover have "IsLocal el" using IsLocal_proper [OF pq] by (simp add: Join_split_slash)
  then have "el \<noteq> ''..'' \<and> \<not> HasPrefix el ''../''"
    using pq by (auto simp: IsLocal_def Let_def list_ex_iff proper_elem_def split: if_splits)
  ultimately show ?thesis by (simp add: confine_def j Join_split_slash)
qed

definition values_dir :: "gostring \<Rightarrow> gostring" where
  "values_dir dir = rooted_path (path_elems dir @ [''values''])"

definition metadata_dir :: "gostring \<Rightarrow> gostring" where
  "metadata_dir dir = rooted_path (path_elems dir @ [''metadata''])"

lemma plain_name: "proper_elem e \<Longrightarrow> plain_path e"
  by (simp add: plain_path_def split_slash_simple proper_elem_def)

lemma Join_dirs: "IsAbs dir \<Longrightarrow> filepath_Join dir ''values'' = values_dir dir"
  "IsAbs dir \<Longrightarrow> filepath_Join dir ''metadata'' = metadata_dir dir"
  using Join_plain plain_name
  by (simp_all add: values_dir_def metadata_dir_def proper_elem_def plain_path_def)

lemma clean_elems_subset: "e \<in> set (clean_elems rooted es) \<Longrightarrow> e \<in> set es \<or> e = ''..''"
proof -
  have "set (foldl (clean_step rooted) out es) \<subseteq> set out \<union> set es \<union> {''..''}" for out
  proof (induction es arbitrary: out)
    case (Cons e es)
    have "set (clean_step rooted out e) \<subseteq> set out \<union> {e, ''..''}"
      by (auto simp: clean_step_def dest: in_set_butlastD)
    with Cons [of "clean_step rooted out e"] show ?case by auto
  qed auto
  from this [of "[]"] show "e \<in> set (clean_elems rooted es) \<Longrightarrow> e \<in> set es \<or> e = ''..''"
    by (auto simp: clean_elems_def)
qed

lemma clean_elems_no_slash: "e \<in> set (clean_elems rooted (split_slash s)) \<Longrightarrow> CHR ''/'' \<notin> set e"
  using clean_elems_subset split_slash_no_slash by fastforce

lemma Join_last_elem:
  assumes "proper_elem n"
  shows "\<exists>xs. split_slash (filepath_Join c n) = xs @ [n]"
proof -
  have n: "n \<noteq> []" "split_slash n = [n]" using assms by (simp_all add: proper_elem_def split_slash_simple)
  define w where "w = (if c = [] then n else c @ ''/'' @ n)"
  obtain xs where e: "path_elems w = xs @ [n]"
    using clean_elems_append_proper [of "[n]" "IsAbs w"] assms n
    by (cases "c = []") (auto simp: path_elems_def w_def split_slash_slash clean_elems_def clean_step_def proper_elem_def)
  have ns: "\<forall>e \<in> set (xs @ [n]). CHR ''/'' \<notin> set e"
    using clean_elems_no_slash e path_elems_def by metis
  have "filepath_Join c n = render_path (IsAbs w) (xs @ [n])"
    using n(1) e by (cases "c = []") (simp_all add: filepath_Join_def w_def Clean_def)
  moreover have "split_slash (Join (xs @ [n]) ''/'') = xs @ [n]" using ns by (intro split_slash_Join) auto
  ultimately show ?thesis by (cases "IsAbs w") (auto simp: render_path_def intro: exI [of _ "[] # xs"])
qed

lemma rooted_path_append:
  "bs \<noteq> [] \<Longrightarrow> es \<noteq> [] \<Longrightarrow> rooted_path (bs @ es) = rooted_path bs @ ''/'' @ Join es ''/''"
proof -
  have "bs \<noteq> [] \<Longrightarrow> es \<noteq> [] \<Longrightarrow> Join (bs @ es) sep = Join bs sep @ sep @ Join es sep" for sep
    by (induction bs sep rule: Join.induct) (auto simp: neq_Nil_conv)
  then show "bs \<noteq> [] \<Longrightarrow> es \<noteq> [] \<Longrightarrow> ?thesis" by (simp add: rooted_path_def)
qed

lemma dirs_proper:
  "IsAbs dir \<Longrightarrow> \<forall>e \<in> set (path_elems dir @ [''values'']). proper_elem e"
  "IsAbs dir \<Longrightarrow> \<forall>e \<in> set (path_elems dir @ [''metadata'']). proper_elem e"
  using path_elems_all_proper by (auto simp: proper_elem_def)

lemma dirs_elems [simp]:
  "IsAbs dir \<Longrightarrow> path_elems (values_dir dir) = path_elems dir @ [''values'']"
  "IsAbs dir \<Longrightarrow> path_elems (metadata_dir dir) = path_elems dir @ [''metadata'']"
  "IsAbs (values_dir dir)" "IsAbs (metadata_dir dir)"
  using dirs_proper path_elems_rooted_path by (simp_all add: values_dir_def metadata_dir_def)

lemma format_int_not_values: "format_int v \<noteq> ''values''"
proof
  assume "format_int v = ''values''"
  then have "CHR ''v'' \<in> set (format_int v)" by simp
  then show False using format_int_chars by (fastforce simp: is_digit_def byte_of_def)
qed

lemma valuePath_below:
  assumes "valuePath dir c v = Inr p" "IsAbs dir"
  shows "\<exists>es. es \<noteq> [] \<and> p = values_dir dir @ ''/'' @ Join es ''/''"
proof -
  let ?el = "filepath_Join c (format_int v)" and ?b = "path_elems dir @ [''values'']"
  obtain xs where xs: "split_slash ?el = xs @ [format_int v]" using Join_last_elem [OF format_int_proper] by blast
  then have "?el \<noteq> []" by (metis append_is_Nil_conv append_eq_Cons_conv format_int_not_Nil list.distinct(1) list.inject
      split_slash.simps(1) append_Nil list.sel(1))
  from confine_below [OF _ dirs_elems(3) this, of dir p] assms obtain es where
    p: "p = rooted_path (?b @ es)" and e: "path_elems (values_dir dir @ ''/'' @ ?el) = ?b @ es"
    by (auto simp: valuePath_def Join_dirs)
  have "path_elems (values_dir dir @ ''/'' @ ?el) =
      clean_elems True (split_slash (values_dir dir) @ xs) @ [format_int v]"
    using clean_elems_append_proper [of "[format_int v]" True "split_slash (values_dir dir) @ xs"] format_int_proper xs
    by (simp add: path_elems_def IsAbs_append split_slash_slash)
  then have "es \<noteq> []" using e format_int_not_values by (metis append_Nil2 last_snoc)
  then show ?thesis using p rooted_path_append [of ?b es] by (auto simp: values_dir_def)
qed

lemma metadataPath_below:
  assumes "metadataPath dir c = Inr p" "IsAbs dir"
  shows "HasPrefix p (metadata_dir dir)"
proof -
  let ?b = "path_elems dir @ [''metadata'']"
  obtain q where q: "confine (metadata_dir dir) c = Inr q" "p = q @ ''.json''"
    using assms by (auto simp: metadataPath_def Join_dirs split: sum.splits)
  obtain es where "q = rooted_path (?b @ es)"
  proof (cases "c = []")
    case True
    with q(1) have "q = rooted_path (?b @ [])"
      using dirs_elems(4) IsAbs_not_Nil Clean_rooted_path [OF dirs_proper(2) [OF assms(2)]]
      by (auto simp: confine_def filepath_Join_def Let_def metadata_dir_def split: option.splits if_splits)
    then show thesis by (rule that)
  next
    case False
    then show thesis using confine_below [OF q(1) dirs_elems(4)] assms(2) that by auto
  qed
  moreover have "HasPrefix (rooted_path (?b @ es)) (metadata_dir dir)"
    using rooted_path_append [of ?b es] by (cases "es = []") (auto simp: metadata_dir_def HasPrefix_prefix)
  ultimately show ?thesis using q(2) by (auto simp: HasPrefix_prefix intro: prefix_prefix)
qed

subsection \<open>What an operation touches\<close>

lemma atomicWrite_frame: "atomicWrite E p c F = (r, F') \<Longrightarrow> q \<noteq> p \<Longrightarrow> map_of F' q = map_of F q"
  by (auto simp: atomicWrite_def update_conv split: if_splits)

lemma remove_file_frame: "q \<noteq> p \<Longrightarrow> map_of (remove_file p F) q = map_of F q"
  by (simp add: remove_file_def delete_conv)

lemma write_sealed_frame:
  "write_sealed E p ct nonce F = (r, F') \<Longrightarrow> q \<noteq> p \<Longrightarrow> q \<noteq> p @ ''.nonce'' \<Longrightarrow> map_of F' q = map_of F q"
  by (auto simp: write_sealed_def atomicWrite_frame remove_file_frame split: prod.splits bool.splits if_splits)

lemma SetVersionedEncrypted_frame:
  assumes "SetVersionedEncrypted A E c v at ns value kr st = (r, st')"
  shows "st_dir st' = st_dir st \<and> st_manifest st' = st_manifest st \<and> st_loaded st' = st_loaded st \<and>
    (st_keyring st = Some kr \<longrightarrow> st_keyring st' \<noteq> None) \<and>
    ((\<forall>p. valuePath (st_dir st) c v = Inr p \<longrightarrow> q \<noteq> p \<and> q \<noteq> p @ ''.nonce'') \<longrightarrow> map_of (st_fs st') q = map_of (st_fs st) q)"
  using assms
  by (auto simp: SetVersionedEncrypted_def Let_def write_sealed_frame split: sum.splits prod.splits option.splits if_splits)

lemma writeVersionMeta_frame:
  "writeVersionMeta E path v b st = (r, st') \<Longrightarrow>
    st_dir st' = st_dir st \<and> st_keyring st' = st_keyring st \<and> st_manifest st' = st_manifest st \<and>
    ((\<forall>p. valuePath (st_dir st) path v = Inr p \<longrightarrow> q \<noteq> p @ ''.versionmeta'') \<longrightarrow> map_of (st_fs st') q = map_of (st_fs st) q)"
  by (auto simp: writeVersionMeta_def Let_def atomicWrite_frame split: sum.splits prod.splits)

definition version_files :: "gostring \<Rightarrow> gostring list" where
  "version_files p = [p, p @ ''.nonce'', p @ ''.versionmeta'']"

lemma SetVersioned_frame:
  assumes "SetVersioned A E path v value st = (r, st')"
  shows "st_dir st' = st_dir st \<and> st_manifest st' = st_manifest st \<and> (st_keyring st \<noteq> None \<longrightarrow> st_keyring st' \<noteq> None) \<and>
    ((\<forall>p. valuePath (st_dir st) path v = Inr p \<longrightarrow> q \<notin> set (version_files p)) \<longrightarrow> map_of (st_fs st') q = map_of (st_fs st) q)"
proof (cases "\<exists>kr dek t. st_keyring st = Some kr \<and> ActiveDEK kr = Inr (dek, t)")
  case True
  then obtain kr dek t where k: "st_keyring st = Some kr" "ActiveDEK kr = Inr (dek, t)" by blast
  let ?enc = "SetVersionedEncrypted A E path v (fe_Now E) (path_namespace path) value kr st"
  obtain r1 st1 where e: "?enc = (r1, st1)" by fastforce
  show ?thesis using assms k e SetVersionedEncrypted_frame [OF e, of q]
    by (auto simp: SetVersioned_def Let_def version_files_def split: option.splits dest: writeVersionMeta_frame [where q = q])
next
  case False
  then show ?thesis using assms
    by (auto simp: SetVersioned_def split: option.splits sum.splits)
qed

lemma DeleteVersioned_frame:
  assumes "DeleteVersioned E path v st = (r, st')"
  shows "st_dir st' = st_dir st \<and> st_manifest st' = st_manifest st \<and> st_keyring st' = st_keyring st \<and>
    ((\<forall>p. valuePath (st_dir st) path v = Inr p \<longrightarrow> q \<noteq> p) \<longrightarrow> map_of (st_fs st') q = map_of (st_fs st) q)"
  using assms
  by (auto simp: DeleteVersioned_def remove_file_frame split: sum.splits option.splits if_splits)

lemma file_SetMeta_frame:
  assumes "file_SetMeta E path m st = (r, st')"
  shows "st_dir st' = st_dir st \<and> st_manifest st' = st_manifest st \<and> st_keyring st' = st_keyring st \<and>
    ((\<forall>p. metadataPath (st_dir st) path = Inr p \<longrightarrow> q \<noteq> p) \<longrightarrow> map_of (st_fs st') q = map_of (st_fs st) q)"
  using assms
  by (auto simp: file_SetMeta_def Let_def atomicWrite_frame split: sum.splits prod.splits if_splits)

lemma version_files_below:
  "valuePath dir path v = Inr p \<Longrightarrow> IsAbs dir \<Longrightarrow> q \<in> set (version_files p) \<Longrightarrow> HasPrefix q (values_dir dir @ ''/'')"
  using valuePath_below [of dir path v p] by (auto simp: version_files_def HasPrefix_prefix)


subsection \<open>Round trips\<close>

text \<open>What the backend relies on from the AEADs: opening undoes sealing under the same key, nonce and
  associated data, and a change of the associated data is detected.\<close>

definition aead_correct :: "aead \<Rightarrow> bool" where
  "aead_correct A \<longleftrightarrow> (\<forall>alg k n pt aad. ae_Open A alg k n (ae_Seal A alg k n pt aad) aad = Some pt)"

definition aead_binding :: "aead \<Rightarrow> bool" where
  "aead_binding A \<longleftrightarrow> (\<forall>alg k n pt aad aad'. aad' \<noteq> aad \<longrightarrow> ae_Open A alg k n (ae_Seal A alg k n pt aad) aad' = None)"

lemma alg_of_alg_name: "alg \<in> {XChaCha20Poly1305, AES256GCM} \<Longrightarrow> alg_of_name (alg_name alg) = alg"
  by (auto simp: alg_of_name_def alg_name_def)

lemma seal_value_Inr:
  "seal_value A E alg dek value aad t kr D = (Inr (ct, nonce), kr', D') \<Longrightarrow>
    length dek = 32 \<and> ct = ae_Seal A alg dek nonce value aad \<and> alg \<in> {XChaCha20Poly1305, AES256GCM} \<and> kr_deks kr' = kr_deks kr"
  by (auto simp: seal_value_def SealXChaCha20_def SealAESGCM_def Let_def keyring_Next_def NextGCMNonce_def set_counter_def
      reload_def split: algorithm.splits option.splits if_splits sum.splits prod.splits)

text \<open>The binding of a version written at a time under a keyring's active term.\<close>

definition version_binding :: "file_state \<Rightarrow> keyring \<Rightarrow> gostring \<Rightarrow> int \<Rightarrow> gotime \<Rightarrow> aad_binding" where
  "version_binding st kr path v at =
    \<lparr>ab_SchemaVersion = CurrentSchemaVersion, ab_Namespace = path_namespace path, ab_Path = path, ab_Version = v,
     ab_KeyTerm = kf_ActiveTerm (kr_file kr), ab_BackendID = file_ID st, ab_CreatedAt = at,
     ab_Algorithm = alg_name (kf_Algorithm (kr_file kr))\<rparr>"

lemma ActiveDEK_Inr: "ActiveDEK kr = Inr (dek, t) \<longleftrightarrow> t = kf_ActiveTerm (kr_file kr) \<and> kr_deks kr t = Some dek"
  by (auto simp: ActiveDEK_def Let_def split: option.splits)

lemma write_sealed_None:
  "write_sealed E p ct nonce F = (None, F') \<Longrightarrow>
    F' = AList.update (p @ ''.nonce'') (Bytes nonce) (AList.update p (Bytes ct) F)"
  by (auto simp: write_sealed_def atomicWrite_def split: if_splits prod.splits)

text \<open>What a successful write leaves behind.\<close>

lemma SetVersioned_ok:
  assumes "SetVersioned A E path v value st = (None, st')"
  obtains kr kr' dek p aad nonce where
    "st_keyring st = Some kr" "kr_deks kr (kf_ActiveTerm (kr_file kr)) = Some dek" "length dek = 32"
    "kf_Algorithm (kr_file kr) \<in> {XChaCha20Poly1305, AES256GCM}"
    "valuePath (st_dir st) path v = Inr p"
    "aad_Marshal (ae_Float A) (ae_Time A) (version_binding st kr path v (fe_Now E)) = Some aad"
    "st_keyring st' = Some kr'" "kr_deks kr' = kr_deks kr"
    "map_of (st_fs st') p = Some (Bytes (ae_Seal A (kf_Algorithm (kr_file kr)) dek nonce value aad))"
    "map_of (st_fs st') (p @ ''.nonce'') = Some (Bytes nonce)"
    "map_of (st_fs st') (p @ ''.versionmeta'') = Some (BindingDoc (version_binding st kr path v (fe_Now2 E)))"
proof -
  obtain kr dek where k: "st_keyring st = Some kr" "ActiveDEK kr = Inr (dek, kf_ActiveTerm (kr_file kr))"
    using assms by (auto simp: SetVersioned_def ActiveDEK_Inr split: option.splits sum.splits)
  let ?enc = "SetVersionedEncrypted A E path v (fe_Now E) (path_namespace path) value kr st"
  obtain st1 where e: "?enc = (None, st1)"
    and m: "writeVersionMeta E path v (version_binding st kr path v (fe_Now2 E)) st1 = (None, st')"
    using assms k by (auto simp: SetVersioned_def version_binding_def Let_def split: option.splits prod.splits)
  obtain aad ct nonce kr' D' p F where
    a: "aad_Marshal (ae_Float A) (ae_Time A) (version_binding st kr path v (fe_Now E)) = Some aad"
    and s: "seal_value A E (kf_Algorithm (kr_file kr)) dek value aad (kf_ActiveTerm (kr_file kr)) kr (st_kdisk st) =
        (Inr (ct, nonce), kr', D')"
    and p: "valuePath (st_dir st) path v = Inr p" and w: "write_sealed E p ct nonce (st_fs st) = (None, F)"
    and st1: "st1 = st\<lparr>st_keyring := Some kr', st_kdisk := D', st_fs := F\<rparr>"
    using e k by (auto simp: SetVersionedEncrypted_def version_binding_def Let_def split: option.splits sum.splits prod.splits if_splits)
  have st': "st' = st1\<lparr>st_fs := AList.update (p @ ''.versionmeta'') (BindingDoc (version_binding st kr path v (fe_Now2 E))) F\<rparr>"
    using m st1 p by (auto simp: writeVersionMeta_def atomicWrite_def Let_def split: if_splits)
  show thesis using seal_value_Inr [OF s] a p k(1) k(2) st1
    by (intro that [of kr dek p aad kr' nonce]) (auto simp: st' write_sealed_None [OF w] update_conv ActiveDEK_Inr)
qed

text \<open>The term of a version can still be used: no record says it was destroyed.\<close>

definition term_live :: "file_state \<Rightarrow> int \<Rightarrow> bool" where
  "term_live st t = (case st_keyring st of None \<Rightarrow> False
     | Some kr \<Rightarrow> \<not> list_ex (\<lambda>tr. tr_Term tr = t \<and> tr_Status tr = TermDestroyed) (kf_Terms (kr_file kr)))"

definition active_term :: "file_state \<Rightarrow> int" where
  "active_term st = (case st_keyring st of None \<Rightarrow> 0 | Some kr \<Rightarrow> kf_ActiveTerm (kr_file kr))"

text \<open>A read right after a successful write reaches the AEAD with what was sealed and the sidecar's binding.\<close>

lemma GetVersioned_after_set:
  assumes "SetVersioned A E path v value st = (None, st')" "term_live st' (active_term st)" "\<forall>q. fe_ReadOk E' q"
  obtains kr dek nonce aad where
    "st_keyring st = Some kr"
    "aad_Marshal (ae_Float A) (ae_Time A) (version_binding st kr path v (fe_Now E)) = Some aad"
    "GetVersioned A E' path v st' =
      (case aad_Marshal (ae_Float A) (ae_Time A) (version_binding st kr path v (fe_Now2 E)) of None \<Rightarrow> Inl AADFailed
       | Some aad' \<Rightarrow>
           (case ae_Open A (kf_Algorithm (kr_file kr)) dek nonce
                   (ae_Seal A (kf_Algorithm (kr_file kr)) dek nonce value aad) aad' of
              None \<Rightarrow> Inl AEADAuthFailed | Some pt \<Rightarrow> Inr pt))"
proof -
  note frame = SetVersioned_frame [OF assms(1)]
  obtain kr kr' dek p aad nonce where o: "st_keyring st = Some kr" "kr_deks kr (kf_ActiveTerm (kr_file kr)) = Some dek"
    "length dek = 32" "kf_Algorithm (kr_file kr) \<in> {XChaCha20Poly1305, AES256GCM}" "valuePath (st_dir st) path v = Inr p"
    "aad_Marshal (ae_Float A) (ae_Time A) (version_binding st kr path v (fe_Now E)) = Some aad"
    "st_keyring st' = Some kr'" "kr_deks kr' = kr_deks kr"
    "map_of (st_fs st') p = Some (Bytes (ae_Seal A (kf_Algorithm (kr_file kr)) dek nonce value aad))"
    "map_of (st_fs st') (p @ ''.nonce'') = Some (Bytes nonce)"
    "map_of (st_fs st') (p @ ''.versionmeta'') = Some (BindingDoc (version_binding st kr path v (fe_Now2 E)))"
    by (rule SetVersioned_ok [OF assms(1)])
  have dek: "DEKForTerm kr' (kf_ActiveTerm (kr_file kr)) = Inr dek"
    using assms(2) o(1,2,7,8) by (simp add: DEKForTerm_def term_live_def active_term_def)
  have b: "ab_Path (version_binding st kr path v at) = path"
    "ab_KeyTerm (version_binding st kr path v at) = kf_ActiveTerm (kr_file kr)"
    "ab_Algorithm (version_binding st kr path v at) = alg_name (kf_Algorithm (kr_file kr))" for at
    by (simp_all add: version_binding_def)
  have op: "envelope_Open A (alg_of_name (alg_name (kf_Algorithm (kr_file kr)))) dek ct n a =
      (case ae_Open A (kf_Algorithm (kr_file kr)) dek n ct a of None \<Rightarrow> Inl AEADAuthFailed | Some pt \<Rightarrow> Inr pt)" for ct n a
    using o(3,4) alg_of_alg_name [OF o(4)] by (auto simp: envelope_Open_def)
  show thesis using o dek assms(3) frame
    by (intro that [of kr aad dek nonce])
      (auto simp: GetVersioned_def readVersionMeta_def GetVersionedEncrypted_def read_bytes_def Let_def b op
        split: option.splits sum.splits)
qed

lemma version_binding_time:
  "ft s = ft t \<Longrightarrow> aad_Marshal ff ft (version_binding st kr path v s) = aad_Marshal ff ft (version_binding st kr path v t)"
  by (simp add: aad_Marshal_def aad_json_def version_binding_def)

lemma set_get_versioned:
  assumes "SetVersioned A E path v value st = (None, st')" "term_live st' (active_term st)" "\<forall>q. fe_ReadOk E' q"
    "aead_correct A" "time_format_ok (ae_Time A)" "fe_Now E div Second = fe_Now2 E div Second"
  shows "GetVersioned A E' path v st' = Inr value"
proof -
  obtain kr dek nonce aad where g: "aad_Marshal (ae_Float A) (ae_Time A) (version_binding st kr path v (fe_Now E)) = Some aad"
    "GetVersioned A E' path v st' =
      (case aad_Marshal (ae_Float A) (ae_Time A) (version_binding st kr path v (fe_Now2 E)) of None \<Rightarrow> Inl AADFailed
       | Some aad' \<Rightarrow>
           (case ae_Open A (kf_Algorithm (kr_file kr)) dek nonce
                   (ae_Seal A (kf_Algorithm (kr_file kr)) dek nonce value aad) aad' of
              None \<Rightarrow> Inl AEADAuthFailed | Some pt \<Rightarrow> Inr pt))"
    by (rule GetVersioned_after_set [OF assms(1-3)])
  have "ae_Time A (fe_Now E) = ae_Time A (fe_Now2 E)" using assms(5,6) by (simp add: time_format_ok_def)
  then show ?thesis using g assms(4) version_binding_time [of "ae_Time A" "fe_Now E" "fe_Now2 E"]
    by (simp add: aead_correct_def)
qed


text \<open>When the two clock readings of one write fall into different seconds, the write reports success and
  the value can never be opened: the sealed associated data and the sidecar disagree on the creation time.\<close>

theorem split_second_write_lost:
  assumes "SetVersioned A E path v value st = (None, st')" "term_live st' (active_term st)" "\<forall>q. fe_ReadOk E' q"
    "aead_binding A" "time_format_ok (ae_Time A)" "fe_Now E div Second \<noteq> fe_Now2 E div Second"
    "\<forall>kr. st_keyring st = Some kr \<longrightarrow> binding_ok (version_binding st kr path v 0)"
  shows "GetVersioned A E' path v st' = Inl AEADAuthFailed"
proof -
  obtain kr dek nonce aad where g: "st_keyring st = Some kr"
    "aad_Marshal (ae_Float A) (ae_Time A) (version_binding st kr path v (fe_Now E)) = Some aad"
    "GetVersioned A E' path v st' =
      (case aad_Marshal (ae_Float A) (ae_Time A) (version_binding st kr path v (fe_Now2 E)) of None \<Rightarrow> Inl AADFailed
       | Some aad' \<Rightarrow>
           (case ae_Open A (kf_Algorithm (kr_file kr)) dek nonce
                   (ae_Seal A (kf_Algorithm (kr_file kr)) dek nonce value aad) aad' of
              None \<Rightarrow> Inl AEADAuthFailed | Some pt \<Rightarrow> Inr pt))"
    by (rule GetVersioned_after_set [OF assms(1-3)])
  have ok: "binding_ok (version_binding st kr path v t)" for t
    using assms(7) g(1) by (simp add: binding_ok_def version_binding_def)
  obtain aad' where a: "aad_Marshal (ae_Float A) (ae_Time A) (version_binding st kr path v (fe_Now2 E)) = Some aad'"
    using aad_Marshal_text [OF ok] by blast
  have ct: "ab_CreatedAt (version_binding st kr path v t) = t" for t by (simp add: version_binding_def)
  have "aad' \<noteq> aad"
    using aad_text_inject [OF ok ok assms(5), of "fe_Now E" "fe_Now2 E"] g(2) a assms(6)
    by (auto simp: aad_Marshal_text [OF ok] ct)
  then show ?thesis using g(3) a assms(4) by (simp add: aead_binding_def)
qed

subsection \<open>Tampered files\<close>

text \<open>Everything an AEAD opens under the keys of a keyring was sealed before, for a binding in the log.\<close>

definition sealed_log :: "aead \<Rightarrow> keyring \<Rightarrow> (aad_binding \<times> gostring) list \<Rightarrow> bool" where
  "sealed_log A kr L \<longleftrightarrow>
    (\<forall>alg t dek n ct aad pt. kr_deks kr t = Some dek \<longrightarrow> ae_Open A alg dek n ct aad = Some pt \<longrightarrow>
      (\<exists>b. (b, pt) \<in> set L \<and> binding_ok b \<and> aad_Marshal (ae_Float A) (ae_Time A) b = Some aad))"

text \<open>Every sidecar document holds values a Go program can hold.\<close>

definition sidecars_ok :: "file_system \<Rightarrow> bool" where
  "sidecars_ok F \<longleftrightarrow> (\<forall>p b. map_of F p = Some (BindingDoc b) \<longrightarrow> binding_ok b)"

lemma GetVersioned_Inr:
  assumes "GetVersioned A E path v st = Inr pt"
  obtains kr p b ct nonce dek aad where
    "st_keyring st = Some kr" "valuePath (st_dir st) path v = Inr p"
    "map_of (st_fs st) (p @ ''.versionmeta'') = Some (BindingDoc b)" "ab_Path b = path"
    "kr_deks kr (ab_KeyTerm b) = Some dek" "map_of (st_fs st) p = Some (Bytes ct)"
    "map_of (st_fs st) (p @ ''.nonce'') = Some (Bytes nonce)"
    "aad_Marshal (ae_Float A) (ae_Time A) b = Some aad" "length dek = 32"
    "alg_of_name (ab_Algorithm b) \<in> {XChaCha20Poly1305, AES256GCM}"
    "ae_Open A (alg_of_name (ab_Algorithm b)) dek nonce ct aad = Some pt"
proof -
  obtain kr p b where k: "st_keyring st = Some kr" "valuePath (st_dir st) path v = Inr p" "ab_Path b = path"
    "map_of (st_fs st) (p @ ''.versionmeta'') = Some (BindingDoc b)" and g: "GetVersionedEncrypted A E path v b kr st = Inr pt"
    using assms
    by (auto simp: GetVersioned_def readVersionMeta_def Let_def split: option.splits sum.splits if_splits content.splits)
  have rb: "read_bytes E q F = Inr x \<Longrightarrow> map_of F q = Some (Bytes x)" for q F x
    by (auto simp: read_bytes_def split: option.splits if_splits content.splits)
  obtain dek ct nonce aad where e: "DEKForTerm kr (ab_KeyTerm b) = Inr dek" "map_of (st_fs st) p = Some (Bytes ct)"
    "map_of (st_fs st) (p @ ''.nonce'') = Some (Bytes nonce)" "aad_Marshal (ae_Float A) (ae_Time A) b = Some aad"
    and op: "envelope_Open A (alg_of_name (ab_Algorithm b)) dek ct nonce aad = Inr pt"
    using g k(2) by (auto simp: GetVersionedEncrypted_def dest!: rb split: option.splits sum.splits)
  have "length dek = 32 \<and> alg_of_name (ab_Algorithm b) \<in> {XChaCha20Poly1305, AES256GCM} \<and>
      ae_Open A (alg_of_name (ab_Algorithm b)) dek nonce ct aad = Some pt"
    using op by (auto simp: envelope_Open_def split: algorithm.splits option.splits if_splits)
  moreover have "kr_deks kr (ab_KeyTerm b) = Some dek"
    using e(1) by (auto simp: DEKForTerm_def split: if_splits option.splits)
  ultimately show thesis using k e that by blast
qed


text \<open>The version is not part of that check: when the three files of one version are copied over another
  version of the same path, reading the second version serves the value of the first.\<close>

theorem version_not_checked:
  assumes "GetVersioned A E path v st = Inr pt" "valuePath (st_dir st) path v = Inr p" "valuePath (st_dir st) path w = Inr q"
    "\<forall>x \<in> {[], ''.nonce'', ''.versionmeta''}. map_of F (q @ x) = map_of (st_fs st) (p @ x)" "\<forall>q. fe_ReadOk E q"
  shows "GetVersioned A E path w (st\<lparr>st_fs := F\<rparr>) = Inr pt"
  using assms
  by (auto simp: GetVersioned_def readVersionMeta_def GetVersionedEncrypted_def read_bytes_def Let_def
      split: option.splits sum.splits if_splits content.splits)

subsection \<open>Separate paths, separate files\<close>

lemma valuePath_plain:
  assumes "IsAbs dir" "plain_path path"
  shows "valuePath dir path v = Inr (rooted_path (path_elems dir @ ''values'' # split_slash path @ [format_int v]))"
proof -
  have ns: "CHR ''/'' \<notin> set (format_int v)" using format_int_proper by (simp add: proper_elem_def)
  have pe: "\<forall>e \<in> set (split_slash path @ [format_int v]). proper_elem e"
    using assms(2) format_int_proper by (auto simp: plain_path_def list_all_iff)
  have "path \<noteq> []" "\<not> IsAbs path"
    using assms(2) split_slash.simps(2) [of "CHR ''/''"]
    by (auto simp: plain_path_def IsAbs_def HasPrefix_prefix prefix_def proper_elem_def)
  then have na: "\<not> IsAbs (path @ ''/'' @ format_int v)" by (cases path) (auto simp: IsAbs_def HasPrefix_def)
  have sp: "split_slash (path @ ''/'' @ format_int v) = split_slash path @ [format_int v]"
    using ns by (simp add: split_slash_slash split_slash_simple)
  have "filepath_Join path (format_int v) = Join (split_slash path @ [format_int v]) ''/''"
    using \<open>path \<noteq> []\<close> na sp clean_elems_proper [OF pe]
    by (simp add: filepath_Join_def Clean_def render_path_def path_elems_def)
  also have "\<dots> = path @ ''/'' @ format_int v" by (metis sp Join_split_slash)
  finally have j: "filepath_Join path (format_int v) = path @ ''/'' @ format_int v" .
  then have "plain_path (filepath_Join path (format_int v))"
    using pe sp by (simp add: plain_path_def list_all_iff)
  then show ?thesis using confine_plain [OF dirs_elems(3)] assms(1) sp by (simp add: valuePath_def Join_dirs j)
qed

lemma metadataPath_plain:
  "IsAbs dir \<Longrightarrow> plain_path path \<Longrightarrow>
    metadataPath dir path = Inr (rooted_path (path_elems dir @ ''metadata'' # split_slash path) @ ''.json'')"
  using confine_plain [OF dirs_elems(4), of path dir] by (simp add: metadataPath_def Join_dirs)

lemma rooted_path_suffix: "rooted_path (es @ [e]) @ x = rooted_path (es @ [e @ x])"
proof -
  have "Join (es @ [e]) sep @ x = Join (es @ [e @ x]) sep" for sep
    by (induction es sep rule: Join.induct) (auto simp: neq_Nil_conv)
  then show ?thesis by (simp add: rooted_path_def)
qed

lemma proper_elem_suffix: "proper_elem e \<Longrightarrow> e \<noteq> [] \<Longrightarrow> hd e \<noteq> CHR ''.'' \<Longrightarrow> CHR ''/'' \<notin> set x \<Longrightarrow> proper_elem (e @ x)"
  by (cases e) (auto simp: proper_elem_def)

lemma format_int_hd: "hd (format_int v) \<noteq> CHR ''.''" "CHR ''.'' \<notin> set (format_int v)"
proof -
  show "CHR ''.'' \<notin> set (format_int v)" using format_int_chars by (fastforce simp: is_digit_def byte_of_def)
  then show "hd (format_int v) \<noteq> CHR ''.''" by (metis format_int_not_Nil list.set_sel(1))
qed

lemma format_int_suffix:
  assumes "format_int v @ x = format_int w @ y" "x \<in> {[], ''.nonce'', ''.versionmeta''}" "y \<in> {[], ''.nonce'', ''.versionmeta''}"
  shows "v = w \<and> x = y"
proof -
  let ?P = "\<lambda>c. c \<noteq> CHR ''.''"
  have tw: "takeWhile ?P (format_int u @ z) = format_int u" if "z = [] \<or> hd z = CHR ''.''" for u z
  proof -
    have "\<forall>c \<in> set (format_int u). ?P c" using format_int_hd(2) by metis
    moreover have "takeWhile ?P z = []" using that by (cases z) auto
    ultimately show ?thesis by (simp add: takeWhile_append2)
  qed
  have "takeWhile ?P (format_int v @ x) = format_int v" "takeWhile ?P (format_int w @ y) = format_int w"
    using assms(2,3) by (auto intro!: tw simp del: takeWhile_append)
  with assms(1) have "format_int v = format_int w" by simp
  with assms(1) show ?thesis by simp
qed

text \<open>The files of one version are not the files of another version or of another plain path.\<close>

lemma version_files_disjoint:
  assumes "IsAbs dir" "plain_path p" "plain_path q" "valuePath dir p v = Inr a" "valuePath dir q w = Inr b" "(p, v) \<noteq> (q, w)"
  shows "set (version_files a) \<inter> set (version_files b) = {}"
proof -
  define X where "X = {[], ''.nonce'', ''.versionmeta''}"
  have f: "a = rooted_path (path_elems dir @ ''values'' # split_slash p @ [format_int v])"
    "b = rooted_path (path_elems dir @ ''values'' # split_slash q @ [format_int w])"
    using valuePath_plain assms(1-5) by auto
  have name: "rooted_path (path_elems dir @ ''values'' # split_slash r @ [format_int u]) @ x =
      rooted_path (path_elems dir @ ''values'' # split_slash r @ [format_int u @ x])" for r u x
    using rooted_path_suffix [of "path_elems dir @ ''values'' # split_slash r" "format_int u" x] by simp
  have pr: "\<forall>e \<in> set (path_elems dir @ ''values'' # split_slash r @ [format_int u @ x]). proper_elem e"
    if "plain_path r" "x \<in> X" for r u x
    using that dirs_proper(1) [OF assms(1)] proper_elem_suffix [OF format_int_proper _ format_int_hd(1), of u x]
    by (auto simp: plain_path_def list_all_iff X_def)
  have "a @ x \<noteq> b @ y" if "x \<in> X" "y \<in> X" for x y
    using rooted_path_inject [OF pr pr, OF assms(2) that(1) assms(3) that(2)] assms(6) that
      format_int_suffix [of v x w y] Join_split_slash
    by (auto simp: f name X_def) (metis Join_split_slash)+
  then show ?thesis by (auto simp: version_files_def X_def)
qed

lemma meta_not_version_file:
  assumes "IsAbs dir" "metadataPath dir p = Inr m" "valuePath dir q w = Inr b" "f \<in> set (version_files b)"
  shows "f \<noteq> m"
proof
  assume "f = m"
  let ?d = "rooted_path (path_elems dir)"
  have "HasPrefix m (metadata_dir dir)" "HasPrefix m (values_dir dir @ ''/'')"
    using metadataPath_below [OF assms(2,1)] version_files_below [OF assms(3,1,4)] \<open>f = m\<close> by simp_all
  then have "prefix (metadata_dir dir) (values_dir dir @ ''/'') \<or> prefix (values_dir dir @ ''/'') (metadata_dir dir)"
    unfolding HasPrefix_prefix by (rule prefix_same_cases)
  then show False
    by (cases "path_elems dir = []") (auto simp: metadata_dir_def values_dir_def rooted_path_append, auto simp: rooted_path_def)
qed

lemma metadataPath_inject:
  assumes "IsAbs dir" "plain_path p" "plain_path q" "metadataPath dir p = Inr m" "metadataPath dir q = Inr m"
  shows "p = q"
proof -
  have pr: "\<forall>e \<in> set (path_elems dir @ ''metadata'' # split_slash r). proper_elem e" if "plain_path r" for r
    using that dirs_proper(2) [OF assms(1)] by (auto simp: plain_path_def list_all_iff)
  have "split_slash p = split_slash q"
    using assms metadataPath_plain rooted_path_inject [OF pr pr, OF assms(2,3)] by auto
  then show ?thesis by (metis Join_split_slash)
qed

lemma clean_elems_dot: "clean_elems r (xs @ ''.'' # ys) = clean_elems r (xs @ ys)"
  by (simp add: clean_elems_def clean_step_def)

lemma filepath_Join_elems:
  assumes "a \<noteq> []" "b \<noteq> []" "c \<noteq> []" "IsAbs a = IsAbs b"
    "clean_elems (IsAbs a) (split_slash a @ split_slash c) = clean_elems (IsAbs a) (split_slash b @ split_slash c)"
  shows "filepath_Join a c = filepath_Join b c"
proof -
  have "IsAbs (a @ x) = IsAbs a" "IsAbs (b @ x) = IsAbs b" for x
    using assms(1,2) by (cases a; cases b; auto simp: IsAbs_def HasPrefix_def)+
  with assms show ?thesis by (simp add: filepath_Join_def Clean_def path_elems_def split_slash_slash)
qed

text \<open>Two different four-segment paths can share all their files: a dot segment is part of the path the
  vault accepts and is cleaned away in the file names, so a value written under one is overwritten under the
  other.\<close>

theorem dot_segment_aliases:
  assumes "segment a" "segment b" "segment c" "b \<noteq> ''.''" "IsAbs dir"
  shows "let p = a @ ''/./'' @ b @ ''/'' @ c; q = a @ ''/'' @ b @ ''/./'' @ c in
    p \<noteq> q \<and> four_segments p \<and> four_segments q \<and> valuePath dir p v = valuePath dir q v \<and>
    metadataPath dir p = metadataPath dir q"
proof -
  let ?p = "a @ ''/'' @ ''.'' @ ''/'' @ b @ ''/'' @ c" and ?q = "a @ ''/'' @ b @ ''/'' @ ''.'' @ ''/'' @ c"
  have dot: "segment ''.''" by (simp add: segment_def)
  have sp: "split_slash ?p = [a, ''.'', b, c]" "split_slash ?q = [a, b, ''.'', c]"
    using assms(1-3) by (simp_all add: segment_def split_slash_append split_slash_simple)
  have nq: "?p \<noteq> ?q" using sp assms(4) by (metis list.inject)
  have abs: "IsAbs ?p = IsAbs ?q" using assms(1) by (cases a) (auto simp: segment_def IsAbs_def HasPrefix_def)
  have ce: "clean_elems r (xs @ [a, ''.'', b, c] @ ys) = clean_elems r (xs @ [a, b, ''.'', c] @ ys)" for r xs ys
    using clean_elems_dot [of r "xs @ [a]" "[b, c] @ ys"] clean_elems_dot [of r "xs @ [a, b]" "[c] @ ys"] by simp
  have "filepath_Join ?p (format_int v) = filepath_Join ?q (format_int v)"
  proof (rule filepath_Join_elems [OF _ _ _ abs])
    show "clean_elems (IsAbs ?p) (split_slash ?p @ split_slash (format_int v)) =
        clean_elems (IsAbs ?p) (split_slash ?q @ split_slash (format_int v))"
      unfolding sp using ce [of _ "[]"] by simp
  qed simp_all
  moreover have "confine (metadata_dir dir) ?p = confine (metadata_dir dir) ?q"
  proof -
    have pe: "path_elems (metadata_dir dir @ ''/'' @ x) = clean_elems True (split_slash (metadata_dir dir) @ split_slash x)" for x
      by (simp add: path_elems_def split_slash_slash IsAbs_append)
    have "path_elems (metadata_dir dir @ ''/'' @ ?p) = path_elems (metadata_dir dir @ ''/'' @ ?q)"
      using ce [of True "split_slash (metadata_dir dir)" "[]"] unfolding pe sp by simp
    then show ?thesis using Join_rooted [OF dirs_elems(4)] by (simp add: confine_def)
  qed
  ultimately show ?thesis
    using nq four_segmentsI [OF assms(1) dot assms(2,3)] four_segmentsI [OF assms(1,2) dot assms(3)] assms(5)
    by (simp add: Let_def valuePath_def metadataPath_def Join_dirs)
qed

subsection \<open>Writes that succeed\<close>

text \<open>With a usable key and a file system that takes the three files, a write succeeds.\<close>

lemma SetVersioned_succeeds:
  assumes "st_keyring st = Some kr" "kr_deks kr (kf_ActiveTerm (kr_file kr)) = Some dek" "length dek = 32"
    "kf_Algorithm (kr_file kr) = XChaCha20Poly1305" "fe_Nonce E = Some nonce" "fe_MkdirOk E" "\<forall>q \<in> set (version_files p). fe_WriteOk E q"
    "binding_ok (version_binding st kr path v (fe_Now E))" "valuePath (st_dir st) path v = Inr p"
  shows "\<exists>st'. SetVersioned A E path v value st = (None, st') \<and> st_keyring st' = Some kr"
proof -
  have dek: "ActiveDEK kr = Inr (dek, kf_ActiveTerm (kr_file kr))" using assms(2) by (simp add: ActiveDEK_Inr)
  show ?thesis
    using assms aad_Marshal_text [OF assms(8)]
    by (auto simp: SetVersioned_def dek SetVersionedEncrypted_def version_binding_def seal_value_def SealXChaCha20_def
        write_sealed_def atomicWrite_def writeVersionMeta_def Let_def version_files_def)
qed

subsection \<open>A concrete vault\<close>

definition sample_prefix :: "gostring \<Rightarrow> gostring \<Rightarrow> gostring \<Rightarrow> gostring" where
  "sample_prefix k n aad = pairs k @ '' '' @ pairs n @ '' '' @ pairs aad @ '' ''"

definition sample_aead :: aead where
  "sample_aead =
    \<lparr>ae_Seal = (\<lambda>_ k n pt aad. sample_prefix k n aad @ pairs pt),
     ae_Open = (\<lambda>_ k n ct aad. if HasPrefix ct (sample_prefix k n aad) then unpairs (drop (length (sample_prefix k n aad)) ct)
                               else None),
     ae_Float = (\<lambda>_. None), ae_Time = sample_time_format\<rparr>"

lemma sample_aead_correct: "aead_correct sample_aead"
  by (simp add: aead_correct_def sample_aead_def unpairs_pairs)

lemma pairs_inject: "pairs s = pairs t \<longleftrightarrow> s = t"
  by (metis unpairs_pairs option.inject)

lemma sample_aead_binding: "aead_binding sample_aead"
proof -
  have "aad' = aad" if h: "HasPrefix (sample_prefix k n aad @ pairs pt) (sample_prefix k n aad')" for k n aad aad' pt
  proof -
    obtain u where "pairs aad' @ CHR '' '' # u = pairs aad @ CHR '' '' # pairs pt"
      using h by (auto simp: sample_prefix_def HasPrefix_prefix prefix_def)
    then have "pairs aad' = pairs aad"
      using token_cancel [of "pairs aad'" "\<lambda>x. \<not> is_space x" "pairs aad" "CHR '' ''" "CHR '' ''"] pairs_no_space
      by (auto simp: is_space_def byte_of_def)
    then show ?thesis by (simp add: pairs_inject)
  qed
  then show ?thesis by (auto simp: aead_binding_def sample_aead_def)
qed

definition vault_keyring :: keyring where
  "vault_keyring =
    \<lparr>kr_file = new_file \<lparr>kk_Wrap = Some, kk_Unwrap = Some, kk_Type = ''keychain''\<rparr> (replicate 32 CHR ''k'') ''s'' ''t''
       XChaCha20Poly1305 0,
     kr_deks = [1 \<mapsto> replicate 32 CHR ''k''], kr_lease = no_lease\<rparr>"

definition sample_state :: file_state where
  "sample_state =
    \<lparr>st_fs = [], st_dir = ''/v'', st_keyring = Some vault_keyring, st_kdisk = \<lparr>kd_Content = Absent, kd_Mode = 384\<rparr>,
     st_manifest = [], st_loaded = False\<rparr>"

definition sample_env :: "gotime \<Rightarrow> gotime \<Rightarrow> file_env" where
  "sample_env t u =
    \<lparr>fe_Now = t, fe_Now2 = u, fe_Nonce = Some ''nonce'', fe_MkdirOk = True, fe_WriteOk = (\<lambda>_. True), fe_ReadOk = (\<lambda>_. True),
     fe_RemoveOk = (\<lambda>_. True), fe_LockOk = True, fe_SaveOk = True\<rparr>"

lemma sample_path: "plain_path ''default/ai/openai/key''"
  by (simp add: plain_path_def proper_elem_def)

lemma sample_namespace: "path_namespace ''default/ai/openai/key'' = ''default''"
  by code_simp

lemma sample_binding_ok: "binding_ok (version_binding sample_state vault_keyring ''default/ai/openai/key'' 1 t)"
  by (simp add: binding_ok_def version_binding_def min_int64_def max_int64_def valid_utf8_ascii ascii_def byte_of_def
      CurrentSchemaVersion_def vault_keyring_def new_file_def alg_name_def file_ID_def sample_state_def sample_namespace)

lemma sample_write:
  "\<exists>st'. SetVersioned sample_aead (sample_env t u) ''default/ai/openai/key'' 1 ''secret'' sample_state = (None, st') \<and>
     st_keyring st' = Some vault_keyring \<and> term_live st' (active_term sample_state)"
proof -
  have "\<exists>st'. SetVersioned sample_aead (sample_env t u) ''default/ai/openai/key'' 1 ''secret'' sample_state = (None, st') \<and>
      st_keyring st' = Some vault_keyring"
    by (rule SetVersioned_succeeds [where dek = "replicate 32 CHR ''k''", OF _ _ _ _ _ _ _ sample_binding_ok valuePath_plain [OF _ sample_path]])
      (simp_all add: sample_state_def vault_keyring_def new_file_def sample_env_def IsAbs_def HasPrefix_def)
  then show ?thesis by (auto simp: term_live_def active_term_def vault_keyring_def new_file_def sample_state_def)
qed


theorem split_second_write_lost_witness:
  "\<exists>st'. SetVersioned sample_aead (sample_env 0 Second) ''default/ai/openai/key'' 1 ''secret'' sample_state = (None, st') \<and>
     GetVersioned sample_aead (sample_env 0 0) ''default/ai/openai/key'' 1 st' = Inl AEADAuthFailed"
proof -
  obtain st' where w: "SetVersioned sample_aead (sample_env 0 Second) ''default/ai/openai/key'' 1 ''secret'' sample_state =
      (None, st')" "term_live st' (active_term sample_state)" using sample_write by blast
  have "time_format_ok (ae_Time sample_aead)" by (simp add: sample_aead_def sample_time_format_ok)
  from split_second_write_lost [OF w _ sample_aead_binding this, of "sample_env 0 0"] w(1) show ?thesis
    using sample_binding_ok by (auto simp: sample_env_def Second_def sample_state_def)
qed


text \<open>An AEAD that opens nothing but what it sealed for one binding.\<close>

definition sample_log :: "(aad_binding \<times> gostring) list" where
  "sample_log = [(version_binding sample_state vault_keyring ''default/ai/openai/key'' 1 0, ''secret'')]"

definition strict_aead :: aead where
  "strict_aead = sample_aead\<lparr>ae_Open := (\<lambda>alg k n ct aad.
     case ae_Open sample_aead alg k n ct aad of None \<Rightarrow> None
     | Some pt \<Rightarrow> if list_ex (\<lambda>(b, q). q = pt \<and> aad_text sample_time_format b = aad) sample_log then Some pt else None)\<rparr>"

lemma strict_aead_log: "sealed_log strict_aead kr sample_log"
  using sample_binding_ok
  by (auto simp: sealed_log_def strict_aead_def sample_aead_def sample_log_def aad_Marshal_text split: option.splits if_splits)

lemma strict_open:
  "(b, pt) \<in> set sample_log \<Longrightarrow>
    ae_Open strict_aead alg k n (ae_Seal strict_aead alg k n pt (aad_text sample_time_format b)) (aad_text sample_time_format b) =
      Some pt"
  by (auto simp: strict_aead_def sample_aead_def unpairs_pairs list_ex_iff)

lemma strict_read:
  "\<exists>st'. SetVersioned strict_aead (sample_env 0 0) ''default/ai/openai/key'' 1 ''secret'' sample_state = (None, st') \<and>
     st_keyring st' = Some vault_keyring \<and> st_dir st' = ''/v'' \<and> sidecars_ok (st_fs st') \<and>
     GetVersioned strict_aead (sample_env 0 0) ''default/ai/openai/key'' 1 st' = Inr ''secret''"
proof -
  let ?p = "''default/ai/openai/key''" and ?E = "sample_env 0 0"
  obtain st' where w: "SetVersioned strict_aead ?E ?p 1 ''secret'' sample_state = (None, st')"
    "st_keyring st' = Some vault_keyring"
    by (rule exE [OF SetVersioned_succeeds [where dek = "replicate 32 CHR ''k''", OF _ _ _ _ _ _ _ sample_binding_ok
          valuePath_plain [OF _ sample_path]]])
      (auto simp: sample_state_def vault_keyring_def new_file_def sample_env_def IsAbs_def HasPrefix_def)
  have live: "term_live st' (active_term sample_state)"
    using w(2) by (simp add: term_live_def active_term_def vault_keyring_def new_file_def sample_state_def)
  have readable: "\<forall>q. fe_ReadOk ?E q" by (simp add: sample_env_def)
  have kr: "st_keyring sample_state = Some kr \<Longrightarrow> kr = vault_keyring" for kr by (simp add: sample_state_def)
  have now: "fe_Now ?E = 0" "fe_Now2 ?E = 0" by (simp_all add: sample_env_def)
  have m: "aad_Marshal (ae_Float strict_aead) (ae_Time strict_aead) (version_binding sample_state vault_keyring ?p 1 0) =
      Some (aad_text sample_time_format (version_binding sample_state vault_keyring ?p 1 0))"
    using aad_Marshal_text [OF sample_binding_ok] by (simp add: strict_aead_def sample_aead_def)
  have "GetVersioned strict_aead ?E ?p 1 st' = Inr ''secret''"
  proof (rule GetVersioned_after_set [OF w(1) live readable])
    fix kr dek nonce aad
    assume a: "st_keyring sample_state = Some kr"
      "aad_Marshal (ae_Float strict_aead) (ae_Time strict_aead) (version_binding sample_state kr ?p 1 (fe_Now ?E)) = Some aad"
      "GetVersioned strict_aead ?E ?p 1 st' =
        (case aad_Marshal (ae_Float strict_aead) (ae_Time strict_aead) (version_binding sample_state kr ?p 1 (fe_Now2 ?E)) of
           None \<Rightarrow> Inl AADFailed
         | Some aad' \<Rightarrow>
             (case ae_Open strict_aead (kf_Algorithm (kr_file kr)) dek nonce
                     (ae_Seal strict_aead (kf_Algorithm (kr_file kr)) dek nonce ''secret'' aad) aad' of
                None \<Rightarrow> Inl AEADAuthFailed | Some pt \<Rightarrow> Inr pt))"
    have aad: "aad = aad_text sample_time_format (version_binding sample_state vault_keyring ?p 1 0)"
      using a(2) unfolding kr [OF a(1)] now m by simp
    show ?thesis
      unfolding a(3) unfolding kr [OF a(1)] now m aad option.case
      by (subst strict_open) (simp_all add: sample_log_def)
  qed
  moreover have "sidecars_ok (st_fs st')"
  proof -
    have "binding_ok b" if "map_of (st_fs st') q = Some (BindingDoc b)" for q b
    proof (rule SetVersioned_ok [OF w(1)])
      fix kr kr' dek f aad nonce
      assume a: "st_keyring sample_state = Some kr" "valuePath (st_dir sample_state) ?p 1 = Inr f"
        "map_of (st_fs st') f = Some (Bytes (ae_Seal strict_aead (kf_Algorithm (kr_file kr)) dek nonce ''secret'' aad))"
        "map_of (st_fs st') (f @ ''.nonce'') = Some (Bytes nonce)"
        "map_of (st_fs st') (f @ ''.versionmeta'') = Some (BindingDoc (version_binding sample_state kr ?p 1 (fe_Now2 ?E)))"
      have "q \<in> set (version_files f)"
        using SetVersioned_frame [OF w(1), of q] that a(2) by (auto simp: sample_state_def)
      then show ?thesis using a that kr [OF a(1)] sample_binding_ok by (auto simp: version_files_def)
    qed
    then show ?thesis by (simp add: sidecars_ok_def)
  qed
  moreover have "st_dir st' = ''/v''" using SetVersioned_frame [OF w(1)] by (simp add: sample_state_def)
  ultimately show ?thesis using w by blast
qed


theorem version_not_checked_witness:
  "\<exists>st. GetVersioned strict_aead (sample_env 0 0) ''default/ai/openai/key'' 2 st = Inr ''secret''"
proof -
  let ?p = "''default/ai/openai/key''"
  obtain st' where w: "GetVersioned strict_aead (sample_env 0 0) ?p 1 st' = Inr ''secret''" "st_dir st' = ''/v''"
    using strict_read by blast
  obtain f g where v: "valuePath (st_dir st') ?p 1 = Inr f" "valuePath (st_dir st') ?p 2 = Inr g"
    using valuePath_plain [OF _ sample_path, of "''/v''"] w(2) by (simp add: IsAbs_def HasPrefix_def)
  let ?file = "\<lambda>x. (g @ x, the (map_of (st_fs st') (f @ x)))"
  let ?F = "map ?file (filter (\<lambda>x. map_of (st_fs st') (f @ x) \<noteq> None) [[], ''.nonce'', ''.versionmeta''])"
  have "\<forall>x \<in> {[], ''.nonce'', ''.versionmeta''}. map_of ?F (g @ x) = map_of (st_fs st') (f @ x)" by auto
  from version_not_checked [OF w(1) v this] show ?thesis by (auto simp: sample_env_def)
qed

theorem dot_segment_aliases_witness:
  "valuePath ''/v'' ''default/./openai/key'' 1 = valuePath ''/v'' ''default/openai/./key'' 1"
  using dot_segment_aliases [of "''default''" "''openai''" "''key''" "''/v''" 1]
  by (simp add: segment_def IsAbs_def HasPrefix_def Let_def)

end
