(* ===== verification/File_Store.thy ===== *)
theory File_Store
  imports File_Backend
begin

section \<open>The flat layout of the file backend (\<open>internal/backend/file\<close>)\<close>

text \<open>
  \<open>file.go\<close>, \<open>manifest.go\<close> and \<open>init.go\<close>: one value per path below the vault directory, with a nonce, a
  binding sidecar and an entry in the manifest; and the creation of a keyring. \<open>runner.OK\<close> is true in the
  sources, so the lock check of \<open>Get\<close> never fires and is modelled as such. The manifest is an association
  list; \<open>saveManifest\<close> and \<open>loadManifest\<close> go through the document \<open>ManifestDoc\<close>.
\<close>

definition runner_OK :: bool where "runner_OK = True"

definition InitKeyring ::
  "bool \<Rightarrow> gostring option \<Rightarrow> gostring option \<Rightarrow> gostring \<Rightarrow> bool \<Rightarrow> kek \<Rightarrow> algorithm \<Rightarrow> keyring_disk \<Rightarrow>
     backend_error option \<times> keyring_disk" where
  "InitKeyring mkdir_ok salt rnd at save_ok k alg D =
    (if \<not> mkdir_ok then (Some MkdirFailed, D)
     else case kd_Content D of
       Absent \<Rightarrow>
         (case salt of None \<Rightarrow> (Some (KeyringError DEKRandFails), D)
          | Some s \<Rightarrow>
              (case rnd of None \<Rightarrow> (Some (KeyringError DEKRandFails), D)
               | Some dek \<Rightarrow>
                   (case kk_Wrap k dek of None \<Rightarrow> (Some (KeyringError WrapFails), D)
                    | Some wrapped \<Rightarrow>
                        (let (ok, D') = saveFile save_ok (new_file k wrapped s at alg 1024) D in
                         if \<not> ok then (Some (KeyringError SaveFails), D') else (None, D')))))
     | _ \<Rightarrow> (None, D))"

subsection \<open>The manifest\<close>

definition manifestPath :: "file_state \<Rightarrow> gostring" where
  "manifestPath st = filepath_Join (st_dir st) ''manifest.json''"

definition loadManifest :: "file_env \<Rightarrow> file_state \<Rightarrow> backend_error + (gostring \<times> bmeta) list" where
  "loadManifest E st =
    (case map_of (st_fs st) (manifestPath st) of None \<Rightarrow> Inr []
     | Some c \<Rightarrow> if \<not> fe_ReadOk E (manifestPath st) then Inl (ReadFailed (manifestPath st))
                 else (case c of ManifestDoc m \<Rightarrow> Inr m | _ \<Rightarrow> Inl (ParseFailed (manifestPath st))))"

definition saveManifest :: "file_env \<Rightarrow> file_state \<Rightarrow> backend_error option \<times> file_state" where
  "saveManifest E st =
    (let (ok, F) = atomicWrite E (manifestPath st) (ManifestDoc (st_manifest st)) (st_fs st) in
     (if ok then None else Some (WriteFailed (manifestPath st)), st\<lparr>st_fs := F\<rparr>))"

definition ensureManifestLocked :: "file_env \<Rightarrow> file_state \<Rightarrow> backend_error option \<times> file_state" where
  "ensureManifestLocked E st =
    (if st_loaded st then (None, st)
     else case loadManifest E st of Inl e \<Rightarrow> (Some e, st)
       | Inr m \<Rightarrow> (None, st\<lparr>st_manifest := m, st_loaded := True\<rparr>))"

subsection \<open>Operations\<close>

definition flat_binding :: "file_state \<Rightarrow> keyring \<Rightarrow> gostring \<Rightarrow> int \<Rightarrow> int \<Rightarrow> gotime \<Rightarrow> aad_binding" where
  "flat_binding st kr path version t now =
    \<lparr>ab_SchemaVersion = CurrentSchemaVersion, ab_Namespace = path_namespace path, ab_Path = path, ab_Version = version,
     ab_KeyTerm = t, ab_BackendID = file_ID st, ab_CreatedAt = now, ab_Algorithm = alg_name (kf_Algorithm (kr_file kr))\<rparr>"

text \<open>The three files of a value; a failed write removes what was written before it.\<close>

definition write_flat ::
  "file_env \<Rightarrow> gostring \<Rightarrow> gostring \<Rightarrow> gostring \<Rightarrow> aad_binding \<Rightarrow> file_system \<Rightarrow> backend_error option \<times> file_system" where
  "write_flat E encPath ct nonce binding F =
    (let rm = (\<lambda>p G. if fe_RemoveOk E p then remove_file p G else G) in
     case atomicWrite E encPath (Bytes ct) F of
       (False, F1) \<Rightarrow> (Some (WriteFailed encPath), F1)
     | (True, F1) \<Rightarrow>
         (case atomicWrite E (encPath @ ''.nonce'') (Bytes nonce) F1 of
            (False, F2) \<Rightarrow> (Some (WriteFailed (encPath @ ''.nonce'')), rm encPath F2)
          | (True, F2) \<Rightarrow>
              (case atomicWrite E (encPath @ ''.aad'') (BindingDoc binding) F2 of
                 (False, F3) \<Rightarrow> (Some (WriteFailed (encPath @ ''.aad'')), rm (encPath @ ''.nonce'') (rm encPath F3))
               | (True, F3) \<Rightarrow> (None, F3))))"

definition complete_meta :: "gostring \<Rightarrow> bmeta \<Rightarrow> bmeta" where
  "complete_meta path meta =
    meta\<lparr>bm_Path := path, bm_Backend := (if bm_Backend meta = [] then ''file'' else bm_Backend meta),
         bm_Version := (if bm_Version meta = 0 then 1 else bm_Version meta)\<rparr>"

definition file_Set ::
  "aead \<Rightarrow> file_env \<Rightarrow> gostring \<Rightarrow> gostring \<Rightarrow> bmeta \<Rightarrow> file_state \<Rightarrow> backend_error option \<times> file_state" where
  "file_Set A E path value meta st =
    (case st_keyring st of None \<Rightarrow> (Some BootstrapRequired, st)
     | Some kr \<Rightarrow>
         (case ensureManifestLocked E st of (Some e, st0) \<Rightarrow> (Some e, st0)
          | (None, st0) \<Rightarrow>
              (let dir = filepath_Join (st_dir st0) path in
               if \<not> HasPrefix dir (Clean (st_dir st0) @ ''/'') then (Some PathEscapes, st0)
               else if \<not> fe_MkdirOk E then (Some MkdirFailed, st0)
               else case ActiveDEK kr of Inl e \<Rightarrow> (Some (KeyringError e), st0)
                 | Inr (_, t) \<Rightarrow>
                     (case DEKForTerm kr t of Inl e \<Rightarrow> (Some (KeyringError e), st0)
                      | Inr dek \<Rightarrow>
                          (let version = (if bm_Version meta = 0 then 1 else bm_Version meta);
                               binding = flat_binding st0 kr path version t (fe_Now E) in
                           case aad_Marshal (ae_Float A) (ae_Time A) binding of None \<Rightarrow> (Some AADFailed, st0)
                           | Some aadBytes \<Rightarrow>
                               (case seal_value A E (kf_Algorithm (kr_file kr)) dek value aadBytes t kr (st_kdisk st0) of
                                  (Inl e, kr', D') \<Rightarrow> (Some e, st0\<lparr>st_keyring := Some kr', st_kdisk := D'\<rparr>)
                                | (Inr (ct, nonce), kr', D') \<Rightarrow>
                                    (let st1 = st0\<lparr>st_keyring := Some kr', st_kdisk := D'\<rparr>;
                                         encPath = filepath_Join dir ''value.enc''
                                     in case write_flat E encPath ct nonce binding (st_fs st1) of
                                          (Some e, F) \<Rightarrow> (Some e, st1\<lparr>st_fs := F\<rparr>)
                                        | (None, F) \<Rightarrow>
                                            saveManifest E (st1\<lparr>st_fs := F,
                                              st_manifest := AList.update path (complete_meta path meta) (st_manifest st1)\<rparr>))))))))"

definition file_Get ::
  "aead \<Rightarrow> file_env \<Rightarrow> gostring \<Rightarrow> file_state \<Rightarrow> (backend_error + gostring \<times> bmeta) \<times> file_state" where
  "file_Get A E path st =
    (if \<not> runner_OK then (Inl Locked, st)
     else case st_keyring st of None \<Rightarrow> (Inl BootstrapRequired, st)
     | Some kr \<Rightarrow>
         (case ensureManifestLocked E st of (Some e, st0) \<Rightarrow> (Inl e, st0)
          | (None, st0) \<Rightarrow>
              (case map_of (st_manifest st0) path of None \<Rightarrow> (Inl NotFound, st0)
               | Some meta \<Rightarrow>
                   (let encPath = filepath_Join (filepath_Join (st_dir st0) path) ''value.enc''; F = st_fs st0 in
                    (case read_bytes E encPath F of Inl e \<Rightarrow> Inl e
                     | Inr ct \<Rightarrow>
                         (case read_bytes E (encPath @ ''.nonce'') F of Inl _ \<Rightarrow> Inl (ReadFailed (encPath @ ''.nonce''))
                          | Inr nonce \<Rightarrow>
                              (case map_of F (encPath @ ''.aad'') of None \<Rightarrow> Inl (ReadFailed (encPath @ ''.aad''))
                               | Some c \<Rightarrow>
                                   if \<not> fe_ReadOk E (encPath @ ''.aad'') then Inl (ReadFailed (encPath @ ''.aad''))
                                   else (case c of
                                           BindingDoc b \<Rightarrow>
                                             if ab_Path b \<noteq> path then Inl (BindingMismatch (ab_Path b))
                                             else (case aad_Marshal (ae_Float A) (ae_Time A) b of None \<Rightarrow> Inl AADFailed
                                               | Some aadBytes \<Rightarrow>
                                                   (case DEKForTerm kr (ab_KeyTerm b) of Inl e \<Rightarrow> Inl (KeyringError e)
                                                    | Inr dek \<Rightarrow>
                                                        (case envelope_Open A (alg_of_name (ab_Algorithm b)) dek ct nonce aadBytes of
                                                           Inl _ \<Rightarrow> Inl AEADAuthFailed
                                                         | Inr pt \<Rightarrow> Inr (pt, meta))))
                                         | _ \<Rightarrow> Inl (ParseFailed (encPath @ ''.aad'')))))), st0))))"

text \<open>\<open>RemoveAll\<close> of a directory removes what lies below it.\<close>

definition remove_all :: "gostring \<Rightarrow> file_system \<Rightarrow> file_system" where
  "remove_all dir F = filter (\<lambda>(p, _). p \<noteq> dir \<and> \<not> HasPrefix p (dir @ ''/'')) F"

definition file_Delete :: "file_env \<Rightarrow> gostring \<Rightarrow> file_state \<Rightarrow> backend_error option \<times> file_state" where
  "file_Delete E path st =
    (let dir = filepath_Join (st_dir st) path in
     if \<not> HasPrefix (Clean dir) (Clean (st_dir st) @ ''/'') then (Some PathEscapes, st)
     else case ensureManifestLocked E st of (Some e, st0) \<Rightarrow> (Some e, st0)
       | (None, st0) \<Rightarrow>
           if map_of (st_manifest st0) path = None then (Some NotFound, st0)
           else if \<not> fe_RemoveOk E dir then (Some RemoveFailed, st0)
           else saveManifest E (st0\<lparr>st_fs := remove_all dir (st_fs st0), st_manifest := AList.delete path (st_manifest st0)\<rparr>))"

definition file_List :: "file_env \<Rightarrow> gostring \<Rightarrow> file_state \<Rightarrow> (backend_error + bmeta list) \<times> file_state" where
  "file_List E prefx st =
    (case ensureManifestLocked E st of (Some e, st0) \<Rightarrow> (Inl e, st0)
     | (None, st0) \<Rightarrow>
         (Inr (map snd (filter (\<lambda>(p, _). prefx = [] \<or> HasPrefix p prefx) (st_manifest st0))), st0))"

subsection \<open>Set, then get\<close>

lemma last_char_Join:
  assumes "proper_elem n"
  shows "last (filepath_Join c n) = last n"
proof -
  obtain xs where "split_slash (filepath_Join c n) = xs @ [n]" using Join_last_elem [OF assms] by blast
  then have j: "filepath_Join c n = Join (xs @ [n]) ''/''" using Join_split_slash [of "filepath_Join c n"] by simp
  have ne: "Join (xs @ [n]) sep \<noteq> []" for xs sep
    using assms by (induction xs sep rule: Join.induct) (auto simp: proper_elem_def)
  have "last (Join (xs @ [n]) sep) = last n" for sep
  proof (induction xs)
    case (Cons x xs)
    obtain y ys where "xs @ [n] = y # ys" by (cases xs) auto
    with Cons ne [of xs sep] show ?case by simp
  qed simp
  with j show ?thesis by simp
qed

lemma manifest_not_value:
  "x \<in> {[], ''.nonce'', ''.aad''} \<Longrightarrow> manifestPath st \<noteq> filepath_Join dir ''value.enc'' @ x"
proof
  assume x: "x \<in> {[], ''.nonce'', ''.aad''}" and e: "manifestPath st = filepath_Join dir ''value.enc'' @ x"
  have "last (manifestPath st) = CHR ''n''"
    using last_char_Join [of "''manifest.json''" "st_dir st"] by (simp add: manifestPath_def proper_elem_def)
  moreover have "last (filepath_Join dir ''value.enc'') = CHR ''c''"
    using last_char_Join [of "''value.enc''" dir] by (simp add: proper_elem_def)
  ultimately show False using x e by auto
qed

lemma write_flat_None:
  "write_flat E p ct nonce b F = (None, F') \<Longrightarrow>
    F' = AList.update (p @ ''.aad'') (BindingDoc b) (AList.update (p @ ''.nonce'') (Bytes nonce) (AList.update p (Bytes ct) F))"
  by (auto simp: write_flat_def atomicWrite_def Let_def split: if_splits prod.splits)

lemma ensureManifest_None:
  "ensureManifestLocked E st = (None, st0) \<Longrightarrow>
    st_loaded st0 \<and> st_dir st0 = st_dir st \<and> st_keyring st0 = st_keyring st \<and> st_fs st0 = st_fs st"
  by (auto simp: ensureManifestLocked_def split: if_splits sum.splits)

lemma ensureManifest_loaded [simp]: "st_loaded st \<Longrightarrow> ensureManifestLocked E st = (None, st)"
  by (simp add: ensureManifestLocked_def)

text \<open>What a successful \<open>Set\<close> leaves behind.\<close>

lemma file_Set_ok:
  assumes "file_Set A E path pt meta st = (None, st')"
  obtains kr kr' dek t b aad nonce where
    "st_keyring st = Some kr" "ActiveDEK kr = Inr (dek, t)" "length dek = 32"
    "kf_Algorithm (kr_file kr) \<in> {XChaCha20Poly1305, AES256GCM}"
    "ab_Path b = path" "ab_KeyTerm b = t" "ab_Algorithm b = alg_name (kf_Algorithm (kr_file kr))"
    "aad_Marshal (ae_Float A) (ae_Time A) b = Some aad"
    "st_keyring st' = Some kr'" "kr_deks kr' = kr_deks kr" "st_loaded st'" "st_dir st' = st_dir st"
    "map_of (st_manifest st') path = Some (complete_meta path meta)"
    "let p = filepath_Join (filepath_Join (st_dir st) path) ''value.enc'' in
      map_of (st_fs st') p = Some (Bytes (ae_Seal A (kf_Algorithm (kr_file kr)) dek nonce pt aad)) \<and>
      map_of (st_fs st') (p @ ''.nonce'') = Some (Bytes nonce) \<and> map_of (st_fs st') (p @ ''.aad'') = Some (BindingDoc b)"
proof -
  obtain kr st0 where k: "st_keyring st = Some kr" and m: "ensureManifestLocked E st = (None, st0)"
    using assms by (auto simp: file_Set_def split: option.splits prod.splits)
  obtain dek t where d: "ActiveDEK kr = Inr (dek, t)" "DEKForTerm kr t = Inr dek"
    using assms k m by (auto simp: file_Set_def Let_def ActiveDEK_Inr DEKForTerm_def split: sum.splits if_splits option.splits)
  define b where "b = flat_binding st0 kr path (if bm_Version meta = 0 then 1 else bm_Version meta) t (fe_Now E)"
  define p where "p = filepath_Join (filepath_Join (st_dir st) path) ''value.enc''"
  obtain aad ct nonce kr' D' F where a: "aad_Marshal (ae_Float A) (ae_Time A) b = Some aad"
    and s: "seal_value A E (kf_Algorithm (kr_file kr)) dek pt aad t kr (st_kdisk st0) = (Inr (ct, nonce), kr', D')"
    and w: "write_flat E p ct nonce b (st_fs st0) = (None, F)"
    and v: "saveManifest E (st0\<lparr>st_keyring := Some kr', st_kdisk := D', st_fs := F,
        st_manifest := AList.update path (complete_meta path meta) (st_manifest st0)\<rparr>) = (None, st')"
    using assms k m d ensureManifest_None [OF m]
    by (auto simp: file_Set_def Let_def b_def p_def split: option.splits sum.splits prod.splits if_splits)
  note e = ensureManifest_None [OF m]
  let ?st1 = "st0\<lparr>st_keyring := Some kr', st_kdisk := D', st_fs := F,
    st_manifest := AList.update path (complete_meta path meta) (st_manifest st0)\<rparr>"
  have mp: "manifestPath ?st1 \<noteq> p @ x" if "x \<in> {[], ''.nonce'', ''.aad''}" for x
    using manifest_not_value [OF that] by (simp add: p_def)
  have st': "st' = ?st1\<lparr>st_fs := AList.update (manifestPath ?st1) (ManifestDoc (st_manifest ?st1)) F\<rparr>"
    using v by (auto simp: saveManifest_def atomicWrite_def Let_def split: if_splits)
  have fs: "map_of (st_fs st') (p @ x) = map_of F (p @ x)" if "x \<in> {[], ''.nonce'', ''.aad''}" for x
    using mp [OF that] by (simp add: st' update_conv)
  show thesis
  proof (rule that [of kr dek t b aad kr' nonce])
    show "let p = filepath_Join (filepath_Join (st_dir st) path) ''value.enc'' in
        map_of (st_fs st') p = Some (Bytes (ae_Seal A (kf_Algorithm (kr_file kr)) dek nonce pt aad)) \<and>
        map_of (st_fs st') (p @ ''.nonce'') = Some (Bytes nonce) \<and> map_of (st_fs st') (p @ ''.aad'') = Some (BindingDoc b)"
      using fs [of "[]"] fs [of "''.nonce''"] fs [of "''.aad''"] seal_value_Inr [OF s]
      by (auto simp: p_def [symmetric] write_flat_None [OF w] update_conv)
  qed (use k d seal_value_Inr [OF s] a e in \<open>simp_all add: st' b_def flat_binding_def update_conv\<close>)
qed

text \<open>A value written without error reads back as the same bytes with its completed manifest entry, as long as
  its key term is not destroyed and the files can be read.\<close>

theorem flat_round_trip:
  assumes "file_Set A E path pt meta st = (None, st')" "term_live st' (active_term st)" "\<forall>q. fe_ReadOk E' q" "aead_correct A"
  shows "fst (file_Get A E' path st') = Inr (pt, complete_meta path meta)"
proof (rule file_Set_ok [OF assms(1)])
  fix kr kr' dek t b aad nonce
  define p where "p = filepath_Join (filepath_Join (st_dir st) path) ''value.enc''"
  assume a: "st_keyring st = Some kr" "ActiveDEK kr = Inr (dek, t)" "length dek = 32"
    "kf_Algorithm (kr_file kr) \<in> {XChaCha20Poly1305, AES256GCM}"
    "ab_Path b = path" "ab_KeyTerm b = t" "ab_Algorithm b = alg_name (kf_Algorithm (kr_file kr))"
    "aad_Marshal (ae_Float A) (ae_Time A) b = Some aad"
    "st_keyring st' = Some kr'" "kr_deks kr' = kr_deks kr" "st_loaded st'" "st_dir st' = st_dir st"
    "map_of (st_manifest st') path = Some (complete_meta path meta)"
    and "let p = filepath_Join (filepath_Join (st_dir st) path) ''value.enc'' in
      map_of (st_fs st') p = Some (Bytes (ae_Seal A (kf_Algorithm (kr_file kr)) dek nonce pt aad)) \<and>
      map_of (st_fs st') (p @ ''.nonce'') = Some (Bytes nonce) \<and> map_of (st_fs st') (p @ ''.aad'') = Some (BindingDoc b)"
  then have f: "map_of (st_fs st') p = Some (Bytes (ae_Seal A (kf_Algorithm (kr_file kr)) dek nonce pt aad))"
    "map_of (st_fs st') (p @ ''.nonce'') = Some (Bytes nonce)" "map_of (st_fs st') (p @ ''.aad'') = Some (BindingDoc b)"
    by (simp_all add: p_def Let_def)
  have dek: "DEKForTerm kr' t = Inr dek"
    using assms(2) a(1,2,9,10) by (auto simp: DEKForTerm_def term_live_def active_term_def ActiveDEK_Inr)
  have op: "envelope_Open A (alg_of_name (ab_Algorithm b)) dek (ae_Seal A (kf_Algorithm (kr_file kr)) dek nonce pt aad) nonce aad =
      Inr pt"
    using a(3,4,7) alg_of_alg_name [OF a(4)] assms(4) by (auto simp: envelope_Open_def aead_correct_def)
  show ?thesis using a f dek op assms(3)
    by (simp add: file_Get_def runner_OK_def read_bytes_def Let_def p_def [symmetric])
qed

subsection \<open>Delete\<close>

lemma remove_all_below: "HasPrefix q (dir @ ''/'') \<Longrightarrow> map_of (remove_all dir F) q = None"
  by (auto simp: remove_all_def map_of_eq_None_iff)

lemma file_Delete_ok:
  assumes "file_Delete E path st = (None, st')"
  shows "st_loaded st' \<and> st_dir st' = st_dir st \<and> st_keyring st' = st_keyring st \<and> map_of (st_manifest st') path = None \<and>
    (\<forall>q. HasPrefix q (filepath_Join (st_dir st) path @ ''/'') \<longrightarrow> q \<noteq> manifestPath st \<longrightarrow> map_of (st_fs st') q = None)"
proof -
  obtain st0 where m: "ensureManifestLocked E st = (None, st0)"
    and v: "saveManifest E (st0\<lparr>st_fs := remove_all (filepath_Join (st_dir st) path) (st_fs st0),
        st_manifest := AList.delete path (st_manifest st0)\<rparr>) = (None, st')"
    using assms by (auto simp: file_Delete_def Let_def split: if_splits prod.splits option.splits)
  then show ?thesis using ensureManifest_None [OF m]
    by (auto simp: saveManifest_def atomicWrite_def Let_def update_conv delete_conv remove_all_below manifestPath_def
        split: if_splits)
qed

text \<open>A deleted path reads as not found.\<close>

theorem flat_delete_get:
  assumes "file_Delete E path st = (None, st')" "st_keyring st \<noteq> None"
  shows "fst (file_Get A E' path st') = Inl NotFound"
  using file_Delete_ok [OF assms(1)] assms(2) by (auto simp: file_Get_def runner_OK_def)

text \<open>The flat layout shares the directory of the versioned one: deleting a flat entry named \<open>values\<close>
  removes every version of every secret.\<close>

theorem flat_delete_wipes_versions:
  assumes "file_Delete E ''values'' st = (None, st')" "IsAbs (st_dir st)" "valuePath (st_dir st) path v = Inr p"
  shows "\<forall>q \<in> set (version_files p). map_of (st_fs st') q = None"
proof
  fix q assume "q \<in> set (version_files p)"
  then have pre: "HasPrefix q (values_dir (st_dir st) @ ''/'')" using version_files_below assms(2,3) by blast
  have "q \<noteq> manifestPath st"
  proof
    assume q: "q = manifestPath st"
    have "manifestPath st = rooted_path (path_elems (st_dir st) @ [''manifest.json''])"
      using Join_plain [OF assms(2), of "''manifest.json''"] by (simp add: manifestPath_def plain_path_def proper_elem_def)
    with pre q show False
      by (cases "path_elems (st_dir st) = []")
        (auto simp: HasPrefix_prefix values_dir_def rooted_path_append prefix_def, auto simp: rooted_path_def)
  qed
  then show "map_of (st_fs st') q = None" using file_Delete_ok [OF assms(1)] pre by (simp add: Join_dirs [OF assms(2)])
qed

subsection \<open>A concrete flat entry\<close>

definition sample_meta :: bmeta where
  "sample_meta = \<lparr>bm_Path = [], bm_Accessor = ''a'', bm_CreatedAt = 0, bm_UpdatedAt = 0, bm_Version = 0, bm_Backend = [],
     bm_SafeFields = []\<rparr>"

definition loaded_state :: file_state where
  "loaded_state = sample_state\<lparr>st_loaded := True\<rparr>"

lemma sample_dirs: "filepath_Join ''/v'' ''values'' = ''/v/values''" "Clean ''/v'' = ''/v''"
  "Clean ''/v/values'' = ''/v/values''"
  by code_simp+

lemma values_binding_ok: "binding_ok (version_binding loaded_state vault_keyring ''values'' 1 t)"
proof -
  have "path_namespace ''values'' = ''default''" by code_simp
  then show ?thesis
    by (simp add: binding_ok_def version_binding_def min_int64_def max_int64_def valid_utf8_ascii ascii_def byte_of_def
        CurrentSchemaVersion_def vault_keyring_def new_file_def alg_name_def file_ID_def sample_state_def loaded_state_def)
qed

lemma sample_flat_set:
  "\<exists>st'. file_Set sample_aead (sample_env 0 0) ''values'' ''secret'' sample_meta loaded_state = (None, st') \<and>
     st_keyring st' = Some vault_keyring \<and> map_of (st_manifest st') ''values'' \<noteq> None \<and> st_loaded st' \<and> st_dir st' = ''/v''"
proof -
  have k: "st_keyring loaded_state = Some vault_keyring" "st_loaded loaded_state" "st_dir loaded_state = ''/v''"
    by (simp_all add: loaded_state_def sample_state_def)
  have d: "ActiveDEK vault_keyring = Inr (replicate 32 CHR ''k'', 1)" "DEKForTerm vault_keyring 1 = Inr (replicate 32 CHR ''k'')"
    "kf_Algorithm (kr_file vault_keyring) = XChaCha20Poly1305"
    by (simp_all add: ActiveDEK_Inr DEKForTerm_def vault_keyring_def new_file_def)
  have b: "flat_binding loaded_state vault_keyring ''values'' 1 1 0 = version_binding loaded_state vault_keyring ''values'' 1 0"
    by (simp add: flat_binding_def version_binding_def vault_keyring_def new_file_def)
  show ?thesis
    using aad_Marshal_text [OF values_binding_ok]
    by (simp add: file_Set_def k d b sample_dirs HasPrefix_def sample_env_def sample_meta_def seal_value_def SealXChaCha20_def
        write_flat_def atomicWrite_def Let_def saveManifest_def update_conv)
qed

theorem flat_round_trip_witness:
  "\<exists>st' m. file_Set sample_aead (sample_env 0 0) ''values'' ''secret'' sample_meta loaded_state = (None, st') \<and>
     fst (file_Get sample_aead (sample_env 0 0) ''values'' st') = Inr (''secret'', m)"
proof -
  obtain st' where w: "file_Set sample_aead (sample_env 0 0) ''values'' ''secret'' sample_meta loaded_state = (None, st')"
    "st_keyring st' = Some vault_keyring" using sample_flat_set by blast
  then have "term_live st' (active_term loaded_state)"
    by (simp add: term_live_def active_term_def vault_keyring_def new_file_def)
  moreover have "\<forall>q. fe_ReadOk (sample_env 0 0) q" by (simp add: sample_env_def)
  ultimately show ?thesis using flat_round_trip [OF w(1) _ _ sample_aead_correct] w(1) by blast
qed

lemma sample_flat_delete:
  "\<exists>st st'. file_Delete (sample_env 0 0) ''values'' st = (None, st') \<and> st_keyring st \<noteq> None \<and> st_dir st = ''/v''"
proof -
  obtain st :: file_state where "st_keyring st = Some vault_keyring" "map_of (st_manifest st) ''values'' \<noteq> None" "st_loaded st" "st_dir st = ''/v''"
    using sample_flat_set by blast
  then have "\<exists>st'. file_Delete (sample_env 0 0) ''values'' st = (None, st')"
    by (simp add: file_Delete_def sample_dirs HasPrefix_def sample_env_def saveManifest_def atomicWrite_def Let_def)
  with \<open>st_keyring st = Some vault_keyring\<close> \<open>st_dir st = ''/v''\<close> show ?thesis by blast
qed

theorem flat_delete_get_witness:
  "\<exists>st. fst (file_Get sample_aead (sample_env 0 0) ''values'' st) = Inl NotFound"
  using sample_flat_delete flat_delete_get by blast

theorem flat_delete_wipes_versions_witness:
  "\<exists>st st' p. file_Delete (sample_env 0 0) ''values'' st = (None, st') \<and>
     valuePath (st_dir st) ''default/ai/openai/key'' 1 = Inr p \<and> map_of (st_fs st') p = None"
proof -
  obtain st st' where w: "file_Delete (sample_env 0 0) ''values'' st = (None, st')" "st_dir st = ''/v''"
    using sample_flat_delete by blast
  then have a: "IsAbs (st_dir st)" by (simp add: IsAbs_def HasPrefix_def)
  obtain p where "valuePath (st_dir st) ''default/ai/openai/key'' 1 = Inr p" using valuePath_plain [OF a sample_path] by blast
  with flat_delete_wipes_versions [OF w(1) a this] w(1) show ?thesis by (auto simp: version_files_def)
qed

end
