(* ===== verification/Vault_Ops.thy ===== *)
theory Vault_Ops
  imports File_Store Audit_Chain
begin

section \<open>The vault layer (\<open>internal/vault\<close>)\<close>

text \<open>
  \<open>vault.go\<close>: reads and writes through the configured backend with an audit event for each. \<open>versions.go\<close>:
  rotation, reading, destruction and rollback of versions. The Go interface \<open>backend.Backend\<close> is the record
  \<open>backend\<close> of its methods over a state; \<open>file_backend\<close> is the file backend's instance. What \<open>dispatch.Select\<close>
  returns is a parameter, \<open>None\<close> for its error. The emitter of the context says whether it is ready and which
  events it records; recorded events are appended to the state.
\<close>

record 's backend =
  be_Name :: gostring
  be_ID :: "'s \<Rightarrow> gostring"
  be_Get :: "gostring \<Rightarrow> 's \<Rightarrow> (backend_error + gostring \<times> bmeta) \<times> 's"
  be_Set :: "gostring \<Rightarrow> gostring \<Rightarrow> bmeta \<Rightarrow> 's \<Rightarrow> backend_error option \<times> 's"
  be_Delete :: "gostring \<Rightarrow> 's \<Rightarrow> backend_error option \<times> 's"
  be_List :: "gostring \<Rightarrow> 's \<Rightarrow> (backend_error + bmeta list) \<times> 's"
  be_GetMeta :: "gostring \<Rightarrow> 's \<Rightarrow> backend_error + vmeta"
  be_SetMeta :: "gostring \<Rightarrow> vmeta \<Rightarrow> 's \<Rightarrow> backend_error option \<times> 's"
  be_ListMeta :: "gostring \<Rightarrow> 's \<Rightarrow> backend_error + vmeta list"
  be_GetVersioned :: "gostring \<Rightarrow> int \<Rightarrow> 's \<Rightarrow> backend_error + gostring"
  be_SetVersioned :: "gostring \<Rightarrow> int \<Rightarrow> gostring \<Rightarrow> 's \<Rightarrow> backend_error option \<times> 's"
  be_DeleteVersioned :: "gostring \<Rightarrow> int \<Rightarrow> 's \<Rightarrow> backend_error option \<times> 's"
  be_ActiveKeyTerm :: "('s \<Rightarrow> keyring_error + int) option"

definition file_backend :: "aead \<Rightarrow> file_env \<Rightarrow> file_state backend" where
  "file_backend A E =
    \<lparr>be_Name = ''file'', be_ID = file_ID, be_Get = file_Get A E, be_Set = file_Set A E, be_Delete = file_Delete E,
     be_List = file_List E, be_GetMeta = file_GetMeta E, be_SetMeta = file_SetMeta E, be_ListMeta = file_ListMeta E,
     be_GetVersioned = GetVersioned A E, be_SetVersioned = SetVersioned A E, be_DeleteVersioned = DeleteVersioned E,
     be_ActiveKeyTerm = Some ActiveKeyTerm\<rparr>"

datatype vault_error =
    PathError path_error | SelectFailed | BackendError backend_error | ErrAuditFailed | MetaInvalid meta_error
  | ErrVersionNotFound | ErrVersionDestroyed | ErrVersionDeleted | ErrDestroyCurrentVersion

text \<open>An emitter: whether it reports ready, and which events it manages to record.\<close>

record emitter =
  em_Ready :: bool
  em_Records :: "audit_event \<Rightarrow> bool"

record vault_ctx =
  vc_Emitter :: "emitter option"
  vc_Now :: gotime
  vc_Accessor :: gostring

record 's vault_state =
  vs_Store :: 's
  vs_Events :: "audit_event list"

subsection \<open>Audited access (\<open>vault.go\<close>)\<close>

definition auditReady :: "vault_ctx \<Rightarrow> bool" where
  "auditReady c = (case vc_Emitter c of None \<Rightarrow> False | Some em \<Rightarrow> em_Ready em)"

definition vault_event :: "gotime \<Rightarrow> gostring \<Rightarrow> gostring \<Rightarrow> gostring \<Rightarrow> (gostring \<times> gostring) list \<Rightarrow> audit_event" where
  "vault_event now action outcome path extra =
    \<lparr>ev_Timestamp = now, ev_Action = action, ev_Outcome = outcome, ev_Path = path, ev_Accessor = [], ev_Actor = [],
     ev_RuntimeMode = [], ev_Backend = [], ev_BackendID = [], ev_KeyTerm = 0, ev_ReceiptID = [], ev_Extra = extra,
     ev_ServiceName = []\<rparr>"

definition emitVaultEvent :: "vault_ctx \<Rightarrow> audit_event \<Rightarrow> 's vault_state \<Rightarrow> vault_error option \<times> 's vault_state" where
  "emitVaultEvent c e V =
    (case vc_Emitter c of None \<Rightarrow> (Some ErrAuditFailed, V)
     | Some em \<Rightarrow> if em_Records em e then (None, V\<lparr>vs_Events := vs_Events V @ [e]\<rparr>) else (Some ErrAuditFailed, V))"

definition errorClass :: "backend_error \<Rightarrow> gostring" where
  "errorClass e = (if e = NotFound then ''not_found'' else ''error'')"

definition errorClassExtra :: "backend_error option \<Rightarrow> (gostring \<times> gostring) list" where
  "errorClassExtra err = (case err of None \<Rightarrow> [] | Some e \<Rightarrow> [(''error_class'', errorClass e)])"

definition outcome_of :: "backend_error option \<Rightarrow> gostring" where
  "outcome_of err = (if err = None then ''ok'' else ''error'')"

definition error_of :: "'e + 'a \<Rightarrow> 'e option" where
  "error_of r = (case r of Inl e \<Rightarrow> Some e | Inr _ \<Rightarrow> None)"

definition vault_Get ::
  "vault_ctx \<Rightarrow> 's backend option \<Rightarrow> gostring \<Rightarrow> 's vault_state \<Rightarrow> (vault_error + gostring) \<times> 's vault_state" where
  "vault_Get c sel path V =
    (case sel of None \<Rightarrow> (Inl SelectFailed, V)
     | Some b \<Rightarrow>
         if \<not> auditReady c then (Inl ErrAuditFailed, V)
         else (let (r, s') = be_Get b path (vs_Store V); V1 = V\<lparr>vs_Store := s'\<rparr>;
                   e = vault_event (vc_Now c) ''read'' (outcome_of (error_of r)) path (errorClassExtra (error_of r))
               in case emitVaultEvent c e V1 of
                    (Some err, V2) \<Rightarrow> (Inl err, V2)
                  | (None, V2) \<Rightarrow> (case r of Inl err \<Rightarrow> Inl (BackendError err) | Inr (v, _) \<Rightarrow> Inr v, V2)))"

text \<open>The error a write or a deletion returns: the backend's, else the emitter's.\<close>

definition write_result :: "backend_error option \<Rightarrow> vault_error option \<Rightarrow> vault_error option" where
  "write_result vaultErr auditErr = (case vaultErr of Some e \<Rightarrow> Some (BackendError e) | None \<Rightarrow> auditErr)"

definition vault_Set ::
  "vault_ctx \<Rightarrow> 's backend option \<Rightarrow> gostring \<Rightarrow> gostring \<Rightarrow> bmeta \<Rightarrow> 's vault_state \<Rightarrow> vault_error option \<times> 's vault_state" where
  "vault_Set c sel path val meta V =
    (case sel of None \<Rightarrow> (Some SelectFailed, V)
     | Some b \<Rightarrow>
         if \<not> auditReady c then (Some ErrAuditFailed, V)
         else (let (r, s') = be_Set b path val meta (vs_Store V); V1 = V\<lparr>vs_Store := s'\<rparr>;
                   (err, V2) = emitVaultEvent c (vault_event (vc_Now c) ''write'' (outcome_of r) path (errorClassExtra r)) V1
               in (write_result r err, V2)))"

definition vault_Delete ::
  "vault_ctx \<Rightarrow> 's backend option \<Rightarrow> gostring \<Rightarrow> 's vault_state \<Rightarrow> vault_error option \<times> 's vault_state" where
  "vault_Delete c sel path V =
    (case sel of None \<Rightarrow> (Some SelectFailed, V)
     | Some b \<Rightarrow>
         if \<not> auditReady c then (Some ErrAuditFailed, V)
         else (let (r, s') = be_Delete b path (vs_Store V); V1 = V\<lparr>vs_Store := s'\<rparr>;
                   (err, V2) = emitVaultEvent c (vault_event (vc_Now c) ''delete'' (outcome_of r) path (errorClassExtra r)) V1
               in (write_result r err, V2)))"

definition vault_List ::
  "vault_ctx \<Rightarrow> 's backend option \<Rightarrow> gostring \<Rightarrow> 's vault_state \<Rightarrow> (vault_error + bmeta list) \<times> 's vault_state" where
  "vault_List c sel prefx V =
    (case sel of None \<Rightarrow> (Inl SelectFailed, V)
     | Some b \<Rightarrow>
         if \<not> auditReady c then (Inl ErrAuditFailed, V)
         else (let (r, s') = be_List b prefx (vs_Store V); V1 = V\<lparr>vs_Store := s'\<rparr>;
                   n = (case r of Inl _ \<Rightarrow> 0 | Inr entries \<Rightarrow> int (length entries));
                   extra = errorClassExtra (error_of r) @ [(''count'', format_int n)]
               in case emitVaultEvent c (vault_event (vc_Now c) ''list'' (outcome_of (error_of r)) prefx extra) V1 of
                    (Some err, V2) \<Rightarrow> (Inl err, V2)
                  | (None, V2) \<Rightarrow> (case r of Inl err \<Rightarrow> Inl (BackendError err) | Inr entries \<Rightarrow> Inr entries, V2)))"

subsection \<open>Versions (\<open>versions.go\<close>)\<close>

definition canonicalizePath :: "category_resolver \<Rightarrow> gostring \<Rightarrow> vault_error + gostring" where
  "canonicalizePath resolve path =
    (case Canonicalize path ''default'' resolve of Inl e \<Rightarrow> Inl (PathError e) | Inr canonical \<Rightarrow> Inr canonical)"

definition vault_GetMeta ::
  "category_resolver \<Rightarrow> 's backend option \<Rightarrow> gostring \<Rightarrow> 's vault_state \<Rightarrow> vault_error + vmeta" where
  "vault_GetMeta resolve sel path V =
    (case canonicalizePath resolve path of Inl e \<Rightarrow> Inl e
     | Inr canonical \<Rightarrow>
         (case sel of None \<Rightarrow> Inl SelectFailed
          | Some b \<Rightarrow> (case be_GetMeta b canonical (vs_Store V) of Inl e \<Rightarrow> Inl (BackendError e) | Inr m \<Rightarrow> Inr m)))"

definition vault_SetMeta ::
  "category_resolver \<Rightarrow> unicode_classes \<Rightarrow> vault_ctx \<Rightarrow> 's backend option \<Rightarrow> gostring \<Rightarrow> vmeta \<Rightarrow> 's vault_state \<Rightarrow>
     vault_error option \<times> 's vault_state" where
  "vault_SetMeta resolve U c sel path m V =
    (case canonicalizePath resolve path of Inl e \<Rightarrow> (Some e, V)
     | Inr canonical \<Rightarrow>
         (let m' = m\<lparr>me_Path := canonical, me_UpdatedAt := vc_Now c\<rparr> in
          case Validate U m' of Some e \<Rightarrow> (Some (MetaInvalid e), V)
          | None \<Rightarrow>
              (case sel of None \<Rightarrow> (Some SelectFailed, V)
               | Some b \<Rightarrow> (let (r, s') = be_SetMeta b canonical m' (vs_Store V) in
                            (map_option BackendError r, V\<lparr>vs_Store := s'\<rparr>)))))"

definition vault_ListMeta :: "'s backend option \<Rightarrow> gostring \<Rightarrow> 's vault_state \<Rightarrow> vault_error + vmeta list" where
  "vault_ListMeta sel prefx V =
    (case sel of None \<Rightarrow> Inl SelectFailed
     | Some b \<Rightarrow> (case be_ListMeta b prefx (vs_Store V) of Inl e \<Rightarrow> Inl (BackendError e)
                  | Inr ms \<Rightarrow> Inr (sort_key (\<lambda>m. map byte_of (me_Path m)) ms)))"

definition findVersion :: "vmeta \<Rightarrow> int \<Rightarrow> version_meta option" where
  "findVersion m version = find (\<lambda>vm. vm_Version vm = version) (me_Versions m)"

fun findVersionIdx_from :: "nat \<Rightarrow> version_meta list \<Rightarrow> int \<Rightarrow> nat option" where
  "findVersionIdx_from i [] version = None"
| "findVersionIdx_from i (vm # vms) version =
    (if vm_Version vm = version then Some i else findVersionIdx_from (Suc i) vms version)"

definition findVersionIdx :: "vmeta \<Rightarrow> int \<Rightarrow> nat option" where
  "findVersionIdx m version = findVersionIdx_from 0 (me_Versions m) version"

text \<open>The record of a path that has no metadata yet.\<close>

definition new_meta :: "vault_ctx \<Rightarrow> gostring \<Rightarrow> gostring \<Rightarrow> vmeta" where
  "new_meta c name canonical =
    \<lparr>me_SchemaVersion = CurrentSchemaVersion, me_Path = canonical, me_Accessor = vc_Accessor c, me_Backend = name,
     me_CurrentVersion = 0, me_OldestVersion = 1, me_MaxVersions = DefaultMaxVersions, me_DestroyedVersions = [],
     me_CreatedAt = vc_Now c, me_UpdatedAt = zero_time, me_IssuedAt = None, me_ExpiresAt = None, me_RotationHint = [],
     me_Owner = [], me_Scope = [], me_Purpose = [], me_SafeFields = [], me_Custom = [], me_Versions = [], me_TeamID = [],
     me_SharedRecipients = []\<rparr>"

definition keep_if :: "bool \<Rightarrow> 'a \<Rightarrow> 'a \<Rightarrow> 'a" where
  "keep_if given new old = (if given then new else old)"

text \<open>The caller's fields, where given.\<close>

definition merge_meta :: "vmeta \<Rightarrow> vmeta \<Rightarrow> vmeta" where
  "merge_meta existing m =
    existing\<lparr>me_Owner := keep_if (me_Owner m \<noteq> []) (me_Owner m) (me_Owner existing),
             me_Scope := keep_if (me_Scope m \<noteq> []) (me_Scope m) (me_Scope existing),
             me_Purpose := keep_if (me_Purpose m \<noteq> []) (me_Purpose m) (me_Purpose existing),
             me_RotationHint := keep_if (me_RotationHint m \<noteq> []) (me_RotationHint m) (me_RotationHint existing),
             me_IssuedAt := keep_if (me_IssuedAt m \<noteq> None) (me_IssuedAt m) (me_IssuedAt existing),
             me_ExpiresAt := keep_if (me_ExpiresAt m \<noteq> None) (me_ExpiresAt m) (me_ExpiresAt existing),
             me_SafeFields := keep_if (me_SafeFields m \<noteq> []) (me_SafeFields m) (me_SafeFields existing),
             me_Custom := fold (\<lambda>(k, v). AList.update k v) (me_Custom m) (me_Custom existing),
             me_TeamID := keep_if (me_TeamID m \<noteq> []) (me_TeamID m) (me_TeamID existing),
             me_SharedRecipients := keep_if (me_SharedRecipients m \<noteq> []) (me_SharedRecipients m) (me_SharedRecipients existing),
             me_MaxVersions := keep_if (me_MaxVersions m > 0) (me_MaxVersions m) (me_MaxVersions existing)\<rparr>"

definition new_version :: "vault_ctx \<Rightarrow> vmeta \<Rightarrow> int \<Rightarrow> aad_binding \<Rightarrow> version_meta" where
  "new_version c m version aad =
    \<lparr>vm_Version = version, vm_CreatedAt = vc_Now c, vm_CreatedBy = me_Owner m, vm_ExpiresAt = me_ExpiresAt m,
     vm_DeletedAt = None, vm_DestroyedAt = None, vm_AAD = aad, vm_LastDeliveries = []\<rparr>"

text \<open>Step 11: at most one version is evicted, the oldest listed one.\<close>

definition evicts :: "vmeta \<Rightarrow> bool" where
  "evicts m \<longleftrightarrow> me_MaxVersions m > 0 \<and> int (length (me_Versions m)) > me_MaxVersions m"

definition evict :: "vmeta \<Rightarrow> vmeta" where
  "evict m = m\<lparr>me_OldestVersion := vm_Version (me_Versions m ! 1), me_Versions := tl (me_Versions m)\<rparr>"

definition rotated_meta :: "vault_ctx \<Rightarrow> vmeta \<Rightarrow> vmeta \<Rightarrow> int \<Rightarrow> aad_binding \<Rightarrow> vmeta" where
  "rotated_meta c existing m version aad =
    (let x = merge_meta existing m in
     x\<lparr>me_CurrentVersion := version, me_UpdatedAt := vc_Now c, me_Versions := me_Versions x @ [new_version c m version aad]\<rparr>)"

definition active_key_term :: "'s backend \<Rightarrow> 's \<Rightarrow> int" where
  "active_key_term b s =
    (case be_ActiveKeyTerm b of None \<Rightarrow> 0 | Some f \<Rightarrow> (case f s of Inl _ \<Rightarrow> 0 | Inr t \<Rightarrow> t))"

text \<open>Step 1, and step 4 to the end; the result is Go's pair of the version number and the error.\<close>

definition load_or_init :: "vault_ctx \<Rightarrow> 's backend \<Rightarrow> gostring \<Rightarrow> 's \<Rightarrow> backend_error + vmeta" where
  "load_or_init c b canonical s =
    (case be_GetMeta b canonical s of
       Inr m \<Rightarrow> Inr m
     | Inl e \<Rightarrow> if e = NotFound then Inr (new_meta c (be_Name b) canonical) else Inl e)"

definition commit_rotation ::
  "vault_ctx \<Rightarrow> 's backend \<Rightarrow> gostring \<Rightarrow> vmeta \<Rightarrow> vmeta \<Rightarrow> int \<Rightarrow> aad_binding \<Rightarrow> gostring \<Rightarrow> 's vault_state \<Rightarrow>
     (int \<times> vault_error option) \<times> 's vault_state" where
  "commit_rotation c b canonical existing m newVersion aad val V =
    (case be_SetVersioned b canonical newVersion val (vs_Store V) of
       (Some e, s1) \<Rightarrow> ((0, Some (BackendError e)), V\<lparr>vs_Store := s1\<rparr>)
     | (None, s1) \<Rightarrow>
         (let x = rotated_meta c existing m newVersion aad;
              s2 = (if evicts x then snd (be_DeleteVersioned b canonical (vm_Version (hd (me_Versions x))) s1) else s1)
          in case be_SetMeta b canonical (if evicts x then evict x else x) s2 of
               (Some e, s3) \<Rightarrow>
                 ((0, Some (BackendError e)), V\<lparr>vs_Store := snd (be_DeleteVersioned b canonical newVersion s3)\<rparr>)
             | (None, s3) \<Rightarrow>
                 (let (err, V') = emitVaultEvent c (vault_event (vc_Now c) ''write'' ''ok'' canonical []) (V\<lparr>vs_Store := s3\<rparr>)
                  in ((newVersion, err), V'))))"

definition rotation_aad :: "vault_ctx \<Rightarrow> 's backend \<Rightarrow> gostring \<Rightarrow> path_parts \<Rightarrow> int \<Rightarrow> 's \<Rightarrow> aad_binding" where
  "rotation_aad c b canonical parts newVersion s =
    \<lparr>ab_SchemaVersion = CurrentSchemaVersion, ab_Namespace = pp_Namespace parts, ab_Path = canonical, ab_Version = newVersion,
     ab_KeyTerm = active_key_term b s, ab_BackendID = be_ID b s, ab_CreatedAt = vc_Now c, ab_Algorithm = ''xchacha20-poly1305''\<rparr>"

definition RotateValue ::
  "category_resolver \<Rightarrow> vault_ctx \<Rightarrow> 's backend option \<Rightarrow> gostring \<Rightarrow> gostring \<Rightarrow> vmeta \<Rightarrow> 's vault_state \<Rightarrow>
     (int \<times> vault_error option) \<times> 's vault_state" where
  "RotateValue resolve c sel path val m V =
    (case canonicalizePath resolve path of Inl e \<Rightarrow> ((0, Some e), V)
     | Inr canonical \<Rightarrow>
         if \<not> auditReady c then ((0, Some ErrAuditFailed), V)
         else (case sel of None \<Rightarrow> ((0, Some SelectFailed), V)
           | Some b \<Rightarrow>
               (case load_or_init c b canonical (vs_Store V) of Inl e \<Rightarrow> ((0, Some (BackendError e)), V)
                | Inr existing \<Rightarrow>
                    (let newVersion = wrap64 (me_CurrentVersion existing + 1) in
                     case Parts canonical of Inl e \<Rightarrow> ((0, Some (PathError e)), V)
                     | Inr parts \<Rightarrow>
                         commit_rotation c b canonical existing m newVersion
                           (rotation_aad c b canonical parts newVersion (vs_Store V)) val V))))"

text \<open>The checks \<open>GetVersion\<close> and \<open>Rollback\<close> share.\<close>

definition usable_version :: "vmeta \<Rightarrow> int \<Rightarrow> vault_error + version_meta" where
  "usable_version m version =
    (case findVersion m version of None \<Rightarrow> Inl ErrVersionNotFound
     | Some vm \<Rightarrow> if vm_DestroyedAt vm \<noteq> None then Inl ErrVersionDestroyed
                  else if vm_DeletedAt vm \<noteq> None then Inl ErrVersionDeleted else Inr vm)"

definition GetVersion ::
  "category_resolver \<Rightarrow> 's backend option \<Rightarrow> gostring \<Rightarrow> int \<Rightarrow> 's vault_state \<Rightarrow> vault_error + gostring \<times> version_meta" where
  "GetVersion resolve sel path version V =
    (case canonicalizePath resolve path of Inl e \<Rightarrow> Inl e
     | Inr canonical \<Rightarrow>
         (case sel of None \<Rightarrow> Inl SelectFailed
          | Some b \<Rightarrow>
              (case be_GetMeta b canonical (vs_Store V) of Inl e \<Rightarrow> Inl (BackendError e)
               | Inr m \<Rightarrow>
                   (case usable_version m version of Inl e \<Rightarrow> Inl e
                    | Inr vm \<Rightarrow>
                        (case be_GetVersioned b canonical version (vs_Store V) of Inl e \<Rightarrow> Inl (BackendError e)
                         | Inr val \<Rightarrow> Inr (val, vm))))))"

definition destroyed_meta :: "vault_ctx \<Rightarrow> vmeta \<Rightarrow> nat \<Rightarrow> int \<Rightarrow> vmeta" where
  "destroyed_meta c m idx version =
    m\<lparr>me_Versions := (me_Versions m)[idx := (me_Versions m ! idx)\<lparr>vm_DestroyedAt := Some (vc_Now c)\<rparr>],
      me_DestroyedVersions := me_DestroyedVersions m @ [version], me_UpdatedAt := vc_Now c\<rparr>"

definition DestroyVersion ::
  "category_resolver \<Rightarrow> vault_ctx \<Rightarrow> 's backend option \<Rightarrow> gostring \<Rightarrow> int \<Rightarrow> 's vault_state \<Rightarrow>
     vault_error option \<times> 's vault_state" where
  "DestroyVersion resolve c sel path version V =
    (case canonicalizePath resolve path of Inl e \<Rightarrow> (Some e, V)
     | Inr canonical \<Rightarrow>
         (case sel of None \<Rightarrow> (Some SelectFailed, V)
          | Some b \<Rightarrow>
              (case be_GetMeta b canonical (vs_Store V) of Inl e \<Rightarrow> (Some (BackendError e), V)
               | Inr m \<Rightarrow>
                   (case findVersionIdx m version of None \<Rightarrow> (Some ErrVersionNotFound, V)
                    | Some idx \<Rightarrow>
                        if vm_DestroyedAt (me_Versions m ! idx) \<noteq> None then (Some ErrVersionDestroyed, V)
                        else if version = me_CurrentVersion m then (Some ErrDestroyCurrentVersion, V)
                        else (let s1 = snd (be_DeleteVersioned b canonical version (vs_Store V));
                                  (r, s2) = be_SetMeta b canonical (destroyed_meta c m idx version) s1
                              in (map_option BackendError r, V\<lparr>vs_Store := s2\<rparr>))))))"

definition rollback_meta :: "int \<Rightarrow> vmeta" where
  "rollback_meta version =
    \<lparr>me_SchemaVersion = 0, me_Path = [], me_Accessor = [], me_Backend = [], me_CurrentVersion = 0, me_OldestVersion = 0,
     me_MaxVersions = 0, me_DestroyedVersions = [], me_CreatedAt = zero_time, me_UpdatedAt = zero_time, me_IssuedAt = None,
     me_ExpiresAt = None, me_RotationHint = [], me_Owner = [], me_Scope = [], me_Purpose = [], me_SafeFields = [],
     me_Custom = [(''rolled_back_from'', format_int version)], me_Versions = [], me_TeamID = [], me_SharedRecipients = []\<rparr>"

definition Rollback ::
  "category_resolver \<Rightarrow> vault_ctx \<Rightarrow> 's backend option \<Rightarrow> gostring \<Rightarrow> int \<Rightarrow> 's vault_state \<Rightarrow>
     vault_error option \<times> 's vault_state" where
  "Rollback resolve c sel path version V =
    (case canonicalizePath resolve path of Inl e \<Rightarrow> (Some e, V)
     | Inr canonical \<Rightarrow>
         (case sel of None \<Rightarrow> (Some SelectFailed, V)
          | Some b \<Rightarrow>
              (case be_GetMeta b canonical (vs_Store V) of Inl e \<Rightarrow> (Some (BackendError e), V)
               | Inr m \<Rightarrow>
                   (case usable_version m version of Inl e \<Rightarrow> (Some e, V)
                    | Inr _ \<Rightarrow>
                        (case be_GetVersioned b canonical version (vs_Store V) of Inl e \<Rightarrow> (Some (BackendError e), V)
                         | Inr plaintext \<Rightarrow>
                             (let ((_, err), V') = RotateValue resolve c sel canonical plaintext (rollback_meta version) V
                              in (err, V')))))))"

subsection \<open>No value without a record\<close>

lemma emitVaultEvent_None:
  "emitVaultEvent c e V = (None, V') \<Longrightarrow> V' = V\<lparr>vs_Events := vs_Events V @ [e]\<rparr>"
  by (auto simp: emitVaultEvent_def split: option.splits if_splits)

lemma emitVaultEvent_store: "emitVaultEvent c e V = (r, V') \<Longrightarrow> vs_Store V' = vs_Store V"
  by (auto simp: emitVaultEvent_def split: option.splits if_splits)



subsection \<open>What the vault needs of a backend's metadata\<close>

text \<open>
  \<open>meta\<close> is the metadata the store holds for a path, seen past failing reads. \<open>ok\<close> is an invariant of the
  store, \<open>good\<close> the paths the contract is about.
\<close>

locale metadata_backend =
  fixes b :: "'s backend" and ok :: "'s \<Rightarrow> bool" and good :: "gostring \<Rightarrow> bool" and meta :: "'s \<Rightarrow> gostring \<Rightarrow> vmeta option"
  assumes get_found: "be_GetMeta b p s = Inr m \<Longrightarrow> meta s p = Some m"
    and get_missing: "be_GetMeta b p s = Inl NotFound \<Longrightarrow> meta s p = None"
    and put_meta: "ok s \<Longrightarrow> good p \<Longrightarrow> be_SetMeta b p m s = (r, s') \<Longrightarrow>
      ok s' \<and> (\<forall>q. good q \<longrightarrow> meta s' q = (if r = None \<and> q = p then Some m else meta s q))"
    and set_meta: "ok s \<Longrightarrow> good p \<Longrightarrow> be_SetVersioned b p v x s = (r, s') \<Longrightarrow> ok s' \<and> (\<forall>q. good q \<longrightarrow> meta s' q = meta s q)"
    and del_meta: "ok s \<Longrightarrow> good p \<Longrightarrow> be_DeleteVersioned b p v s = (r, s') \<Longrightarrow> ok s' \<and> (\<forall>q. good q \<longrightarrow> meta s' q = meta s q)"
begin

lemma del_meta_snd: "ok s \<Longrightarrow> good p \<Longrightarrow> ok (snd (be_DeleteVersioned b p v s)) \<and>
    (\<forall>q. good q \<longrightarrow> meta (snd (be_DeleteVersioned b p v s)) q = meta s q)"
  using del_meta prod.collapse by metis

text \<open>A rotation leaves the metadata as it was or lists one more version.\<close>

lemma rotate_meta:
  assumes "RotateValue resolve c (Some b) path x m V = (r, V')" "canonicalizePath resolve path = Inr p"
    "ok (vs_Store V)" "good p"
  shows "ok (vs_Store V') \<and> (\<forall>q. good q \<longrightarrow> q \<noteq> p \<longrightarrow> meta (vs_Store V') q = meta (vs_Store V) q) \<and>
    (meta (vs_Store V') p = meta (vs_Store V) p \<or>
     (\<exists>e aad. (meta (vs_Store V) p = Some e \<or> meta (vs_Store V) p = None \<and> e = new_meta c (be_Name b) p) \<and>
        (let y = rotated_meta c e m (wrap64 (me_CurrentVersion e + 1)) aad in
         meta (vs_Store V') p = Some (if evicts y then evict y else y))))"
proof (cases "V' = V")
  case False
  obtain e parts where e: "load_or_init c b p (vs_Store V) = Inr e"
    and cr: "commit_rotation c b p e m (wrap64 (me_CurrentVersion e + 1))
      (rotation_aad c b p parts (wrap64 (me_CurrentVersion e + 1)) (vs_Store V)) x V = (r, V')"
    using assms(1,2) False by (auto simp: RotateValue_def Let_def split: if_splits sum.splits)
  define n aad where "n = wrap64 (me_CurrentVersion e + 1)" and "aad = rotation_aad c b p parts n (vs_Store V)"
  define y where "y = rotated_meta c e m n aad"
  obtain r1 s1 where s1: "be_SetVersioned b p n x (vs_Store V) = (r1, s1)" by fastforce
  define s2 where "s2 = (if evicts y then snd (be_DeleteVersioned b p (vm_Version (hd (me_Versions y))) s1) else s1)"
  obtain r3 s3 where s3: "be_SetMeta b p (if evicts y then evict y else y) s2 = (r3, s3)" by fastforce
  have m1: "ok s1 \<and> (\<forall>q. good q \<longrightarrow> meta s1 q = meta (vs_Store V) q)" using set_meta [OF assms(3,4) s1] .
  then have m2: "ok s2 \<and> (\<forall>q. good q \<longrightarrow> meta s2 q = meta (vs_Store V) q)"
    using del_meta_snd [OF _ assms(4)] by (simp add: s2_def)
  then have m3: "ok s3 \<and> (\<forall>q. good q \<longrightarrow> meta s3 q = (if r3 = None \<and> q = p then Some (if evicts y then evict y else y) else meta (vs_Store V) q))"
    using put_meta [OF _ assms(4) s3] by auto
  have st: "vs_Store V' = (if r1 \<noteq> None then s1 else if r3 \<noteq> None then snd (be_DeleteVersioned b p n s3) else s3)"
    using cr s1 s3 unfolding n_def [symmetric] aad_def [symmetric]
    by (auto simp: commit_rotation_def Let_def y_def [symmetric] s2_def [symmetric]
        dest: emitVaultEvent_store split: option.splits prod.splits)
  have e': "meta (vs_Store V) p = Some e \<or> meta (vs_Store V) p = None \<and> e = new_meta c (be_Name b) p"
    using e get_found get_missing by (auto simp: load_or_init_def split: sum.splits if_splits)
  have "ok (vs_Store V')" "\<forall>q. good q \<longrightarrow> q \<noteq> p \<longrightarrow> meta (vs_Store V') q = meta (vs_Store V) q"
    "meta (vs_Store V') p = meta (vs_Store V) p \<or> meta (vs_Store V') p = Some (if evicts y then evict y else y)"
    using st m1 m3 del_meta_snd [of s3 p n] assms(4) by (auto split: if_splits)
  then show ?thesis using e' unfolding Let_def y_def n_def by blast
qed (use assms(3) in simp)

lemma destroy_meta:
  assumes "DestroyVersion resolve c (Some b) path v V = (r, V')" "canonicalizePath resolve path = Inr p"
    "ok (vs_Store V)" "good p"
  shows "ok (vs_Store V') \<and> (\<forall>q. good q \<longrightarrow> q \<noteq> p \<longrightarrow> meta (vs_Store V') q = meta (vs_Store V) q) \<and>
    (if r = None then
       (\<exists>m i. meta (vs_Store V) p = Some m \<and> findVersionIdx m v = Some i \<and> v \<noteq> me_CurrentVersion m \<and>
          meta (vs_Store V') p = Some (destroyed_meta c m i v))
     else meta (vs_Store V') p = meta (vs_Store V) p)"
proof (cases "V' = V \<and> r \<noteq> None")
  case False
  then obtain m i where m: "be_GetMeta b p (vs_Store V) = Inr m" "findVersionIdx m v = Some i" "v \<noteq> me_CurrentVersion m"
    "vm_DestroyedAt (me_Versions m ! i) = None"
    using assms(1,2) by (auto simp: DestroyVersion_def split: sum.splits option.splits if_splits)
  define s1 where "s1 = snd (be_DeleteVersioned b p v (vs_Store V))"
  obtain r2 s2 where s2: "be_SetMeta b p (destroyed_meta c m i v) s1 = (r2, s2)" by fastforce
  have "r = map_option BackendError r2" "vs_Store V' = s2"
    using assms(1,2) m s2 by (auto simp: DestroyVersion_def s1_def [symmetric])
  moreover have "ok s1 \<and> (\<forall>q. good q \<longrightarrow> meta s1 q = meta (vs_Store V) q)"
    using del_meta_snd [OF assms(3,4)] by (simp add: s1_def)
  ultimately show ?thesis using put_meta [OF _ assms(4) s2] get_found [OF m(1)] m assms(4) by auto
qed (use assms(3) in auto)

lemma rollback_meta_effect:
  assumes "Rollback resolve c (Some b) path v V = (r, V')" "canonicalizePath resolve path = Inr p"
  shows "V' = V \<or> (\<exists>x r'. RotateValue resolve c (Some b) p x (rollback_meta v) V = (r', V'))"
  using assms by (auto simp: Rollback_def split: sum.splits prod.splits)

end

subsection \<open>Well-formed metadata\<close>

text \<open>
  Versions are listed in strictly ascending order up to the current one, which is listed last and not destroyed; the
  oldest version is the first listed; a listed version is marked destroyed exactly when its number is recorded as
  destroyed, and recorded numbers lie below the current one.
\<close>

definition meta_wf :: "vmeta \<Rightarrow> bool" where
  "meta_wf m \<longleftrightarrow>
    sorted_wrt (<) (map vm_Version (me_Versions m)) \<and> (\<forall>vm \<in> set (me_Versions m). 1 \<le> vm_Version vm) \<and>
    me_Versions m \<noteq> [] \<and> vm_Version (last (me_Versions m)) = me_CurrentVersion m \<and>
    vm_Version (hd (me_Versions m)) = me_OldestVersion m \<and>
    (\<forall>vm \<in> set (me_Versions m). vm_DestroyedAt vm \<noteq> None \<longleftrightarrow> vm_Version vm \<in> set (me_DestroyedVersions m)) \<and>
    (\<forall>d \<in> set (me_DestroyedVersions m). d < me_CurrentVersion m)"

lemma meta_wf_bound:
  assumes "meta_wf m" "vm \<in> set (me_Versions m)"
  shows "vm_Version vm \<le> me_CurrentVersion m" "1 \<le> me_CurrentVersion m"
proof -
  obtain vms x where v: "me_Versions m = vms @ [x]" using assms(1) by (metis meta_wf_def rev_exhaust)
  then show "vm_Version vm \<le> me_CurrentVersion m" using assms by (auto simp: meta_wf_def sorted_wrt_append)
  show "1 \<le> me_CurrentVersion m" using assms(1) v by (auto simp: meta_wf_def)
qed

lemma merge_meta_simps [simp]:
  "me_Versions (merge_meta e m) = me_Versions e" "me_CurrentVersion (merge_meta e m) = me_CurrentVersion e"
  "me_OldestVersion (merge_meta e m) = me_OldestVersion e" "me_DestroyedVersions (merge_meta e m) = me_DestroyedVersions e"
  by (simp_all add: merge_meta_def)

lemma rotated_meta_simps [simp]:
  "me_Versions (rotated_meta c e m n aad) = me_Versions e @ [new_version c m n aad]"
  "me_CurrentVersion (rotated_meta c e m n aad) = n" "me_OldestVersion (rotated_meta c e m n aad) = me_OldestVersion e"
  "me_DestroyedVersions (rotated_meta c e m n aad) = me_DestroyedVersions e"
  "me_MaxVersions (rotated_meta c e m n aad) = (if me_MaxVersions m > 0 then me_MaxVersions m else me_MaxVersions e)"
  by (simp_all add: rotated_meta_def Let_def merge_meta_def keep_if_def)

lemma new_version_simps [simp]:
  "vm_Version (new_version c m n aad) = n" "vm_DestroyedAt (new_version c m n aad) = None"
  "vm_DeletedAt (new_version c m n aad) = None"
  by (simp_all add: new_version_def)

lemma evict_simps [simp]:
  "me_Versions (evict m) = tl (me_Versions m)" "me_CurrentVersion (evict m) = me_CurrentVersion m"
  "me_OldestVersion (evict m) = vm_Version (me_Versions m ! 1)" "me_DestroyedVersions (evict m) = me_DestroyedVersions m"
  by (simp_all add: evict_def)

lemma rotated_meta_wf:
  assumes "meta_wf e" "me_CurrentVersion e < n"
  shows "meta_wf (rotated_meta c e m n aad)"
proof -
  have "\<forall>vm \<in> set (me_Versions e). vm_Version vm < n" using meta_wf_bound(1) [OF assms(1)] assms(2) by fastforce
  moreover have "1 \<le> n"
  proof -
    obtain vm where "vm \<in> set (me_Versions e)" using assms(1) by (metis meta_wf_def last_in_set)
    then show ?thesis using meta_wf_bound(2) [OF assms(1)] assms(2) by fastforce
  qed
  ultimately show ?thesis using assms
    by (fastforce simp: meta_wf_def sorted_wrt_append hd_append)
qed

lemma new_rotated_meta_wf: "meta_wf (rotated_meta c (new_meta c name p) m 1 aad)"
  by (simp add: meta_wf_def new_meta_def)

lemma evict_wf:
  assumes "meta_wf m" "evicts m"
  shows "meta_wf (evict m)"
proof -
  obtain x y vms where v: "me_Versions m = x # y # vms"
    using assms by (cases "me_Versions m" rule: list.exhaust; cases "tl (me_Versions m)") (auto simp: evicts_def meta_wf_def)
  then show ?thesis using assms(1) by (auto simp: meta_wf_def)
qed

lemma findVersionIdx_from_Some:
  "findVersionIdx_from k vms v = Some i \<Longrightarrow> k \<le> i \<and> i - k < length vms \<and> vm_Version (vms ! (i - k)) = v"
proof (induction vms arbitrary: k)
  case (Cons vm vms)
  show ?case
  proof (cases "vm_Version vm = v")
    case False
    with Cons have "Suc k \<le> i \<and> i - Suc k < length vms \<and> vm_Version (vms ! (i - Suc k)) = v" by simp
    then show ?thesis by (auto simp: nth_Cons')
  qed (use Cons.prems in auto)
qed simp

lemma findVersionIdx_Some:
  "findVersionIdx m v = Some i \<Longrightarrow> i < length (me_Versions m) \<and> vm_Version (me_Versions m ! i) = v"
  using findVersionIdx_from_Some by (fastforce simp: findVersionIdx_def)

lemma destroyed_meta_simps [simp]:
  "map vm_Version (me_Versions (destroyed_meta c m i v)) = map vm_Version (me_Versions m)"
  "me_CurrentVersion (destroyed_meta c m i v) = me_CurrentVersion m"
  "me_OldestVersion (destroyed_meta c m i v) = me_OldestVersion m"
  "me_DestroyedVersions (destroyed_meta c m i v) = me_DestroyedVersions m @ [v]"
  by (simp_all add: destroyed_meta_def map_update) (metis list_update_id map_update nth_map nth_list_update_eq list_update_beyond
      linorder_not_less list_update_same_conv length_map)

lemma destroyed_meta_wf:
  assumes "meta_wf m" "findVersionIdx m v = Some i" "v \<noteq> me_CurrentVersion m"
  shows "meta_wf (destroyed_meta c m i v)"
proof -
  let ?vs = "me_Versions m" and ?vs' = "me_Versions (destroyed_meta c m i v)"
  note i = findVersionIdx_Some [OF assms(2)]
  have vs': "?vs' = ?vs[i := (?vs ! i)\<lparr>vm_DestroyedAt := Some (vc_Now c)\<rparr>]" by (simp add: destroyed_meta_def)
  have ver: "map vm_Version ?vs' = map vm_Version ?vs" by simp
  have ne: "?vs \<noteq> []" "?vs' \<noteq> []" using i by (auto simp: vs')
  have hl: "vm_Version (hd ?vs') = vm_Version (hd ?vs)" "vm_Version (last ?vs') = vm_Version (last ?vs)"
    using ver ne by (metis hd_map, metis last_map)
  have dist: "distinct (map vm_Version ?vs)" using assms(1) by (simp add: meta_wf_def strict_sorted_iff)
  have marks: "\<forall>vm \<in> set ?vs'. vm_DestroyedAt vm \<noteq> None \<longleftrightarrow> vm_Version vm \<in> set (me_DestroyedVersions m @ [v])"
  proof
    fix vm assume "vm \<in> set ?vs'"
    then obtain j where j: "j < length ?vs" "vm = ?vs' ! j" by (metis in_set_conv_nth length_list_update vs')
    have old: "vm_DestroyedAt (?vs ! j) \<noteq> None \<longleftrightarrow> vm_Version (?vs ! j) \<in> set (me_DestroyedVersions m)"
      using assms(1) nth_mem [OF j(1)] unfolding meta_wf_def by blast
    have "vm_Version (?vs ! j) = v \<longleftrightarrow> j = i"
      using nth_eq_iff_index_eq [OF dist, of j i] i j(1) by simp
    then show "vm_DestroyedAt vm \<noteq> None \<longleftrightarrow> vm_Version vm \<in> set (me_DestroyedVersions m @ [v])"
      using old i j by (cases "j = i") (simp_all add: vs')
  qed
  have bound: "v < me_CurrentVersion m"
    using meta_wf_bound(1) [OF assms(1), of "?vs ! i"] i assms(3) by (simp add: order_less_le)
  have "vm_Version vm \<in> set (map vm_Version ?vs)" if "vm \<in> set ?vs'" for vm
    using that by (metis ver image_eqI list.set_map)
  then have pos: "\<forall>vm \<in> set ?vs'. 1 \<le> vm_Version vm" using assms(1) by (fastforce simp: meta_wf_def)
  show ?thesis unfolding meta_wf_def
  proof (intro conjI)
    show "\<forall>d \<in> set (me_DestroyedVersions (destroyed_meta c m i v)). d < me_CurrentVersion (destroyed_meta c m i v)"
      using assms(1) bound by (simp add: meta_wf_def)
  qed (use assms(1) hl ne marks pos in \<open>simp_all add: meta_wf_def\<close>)
qed

lemma destroyed_not_usable:
  "meta_wf m \<Longrightarrow> v \<in> set (me_DestroyedVersions m) \<Longrightarrow> usable_version m v \<noteq> Inr vm"
  by (auto simp: usable_version_def findVersion_def find_Some_iff meta_wf_def split: option.splits if_splits dest!: nth_mem)

lemma max_version_wrap: "me_CurrentVersion e < max_int64 \<Longrightarrow> 0 \<le> me_CurrentVersion e \<Longrightarrow>
    wrap64 (me_CurrentVersion e + 1) = me_CurrentVersion e + 1"
  by (rule wrap64_id) (simp_all add: min_int64_def)

lemma commit_rotation_ok: "commit_rotation c b p e m k aad x V = ((n, None), V') \<Longrightarrow> n = k"
  by (auto simp: commit_rotation_def Let_def split: option.splits prod.splits)

text \<open>The metadata a rotation writes, from the metadata it found.\<close>

definition rotation_result :: "vault_ctx \<Rightarrow> vmeta \<Rightarrow> vmeta \<Rightarrow> aad_binding \<Rightarrow> vmeta" where
  "rotation_result c e m aad =
    (let y = rotated_meta c e m (wrap64 (me_CurrentVersion e + 1)) aad in if evicts y then evict y else y)"

lemma rotation_result_wf:
  assumes "meta_wf e" "me_CurrentVersion e < max_int64"
  shows "meta_wf (rotation_result c e m aad) \<and> me_CurrentVersion (rotation_result c e m aad) = me_CurrentVersion e + 1 \<and>
    me_DestroyedVersions (rotation_result c e m aad) = me_DestroyedVersions e"
proof -
  have "0 \<le> me_CurrentVersion e"
    using meta_wf_bound(2) [OF assms(1), of "last (me_Versions e)"] assms(1) by (auto simp: meta_wf_def)
  then show ?thesis using rotated_meta_wf [OF assms(1), of "me_CurrentVersion e + 1"] evict_wf max_version_wrap [OF assms(2)]
    by (simp add: rotation_result_def Let_def)
qed

lemma new_rotation_result:
  "meta_wf (rotation_result c (new_meta c name p) m aad) \<and> me_CurrentVersion (rotation_result c (new_meta c name p) m aad) = 1"
proof -
  have "wrap64 1 = 1" by (simp add: wrap64_id min_int64_def max_int64_def)
  moreover have "me_CurrentVersion (new_meta c name p) = 0" by (simp add: new_meta_def)
  ultimately show ?thesis using new_rotated_meta_wf evict_wf by (simp add: rotation_result_def Let_def)
qed

context metadata_backend begin

text \<open>All good paths have well-formed metadata with version numbers up to a bound; destroyed versions stay recorded.\<close>

definition metas :: "int \<Rightarrow> 's \<Rightarrow> bool" where
  "metas k s \<longleftrightarrow> (\<forall>q m. good q \<longrightarrow> meta s q = Some m \<longrightarrow> meta_wf m \<and> me_CurrentVersion m \<le> k)"

definition keeps :: "'s \<Rightarrow> 's \<Rightarrow> bool" where
  "keeps s s' \<longleftrightarrow> (\<forall>q m. good q \<longrightarrow> meta s q = Some m \<longrightarrow>
     (\<exists>m'. meta s' q = Some m' \<and> set (me_DestroyedVersions m) \<subseteq> set (me_DestroyedVersions m')))"

lemma keeps_refl [simp]: "keeps s s"
  by (auto simp: keeps_def)

lemma keeps_trans: "keeps s t \<Longrightarrow> keeps t u \<Longrightarrow> keeps s u"
  unfolding keeps_def by (meson order_trans)

lemma metas_mono: "metas k s \<Longrightarrow> metas (k + 1) s"
  by (fastforce simp: metas_def)

text \<open>One path changed to metadata that is in order.\<close>

lemma metas_update:
  assumes "metas k s" "\<forall>q. good q \<longrightarrow> q \<noteq> p \<longrightarrow> meta s' q = meta s q" "meta s' p = Some m'" "meta_wf m'"
    "me_CurrentVersion m' \<le> k + 1" "\<And>m. meta s p = Some m \<Longrightarrow> set (me_DestroyedVersions m) \<subseteq> set (me_DestroyedVersions m')"
  shows "metas (k + 1) s' \<and> keeps s s'"
proof -
  have "meta_wf m \<and> me_CurrentVersion m \<le> k + 1" if "good q" "meta s' q = Some m" for q m
    using that assms metas_mono [OF assms(1)] by (cases "q = p") (auto simp: metas_def)
  moreover have "\<exists>m'. meta s' q = Some m' \<and> set (me_DestroyedVersions m) \<subseteq> set (me_DestroyedVersions m')"
    if "good q" "meta s q = Some m" for q m
    using that assms by (cases "q = p") auto
  ultimately show ?thesis unfolding metas_def keeps_def by blast
qed

lemma metas_same:
  assumes "metas k s" "\<forall>q. good q \<longrightarrow> meta s' q = meta s q"
  shows "metas (k + 1) s' \<and> keeps s s'"
  using assms metas_mono [OF assms(1)] by (auto simp: metas_def keeps_def)

lemma rotate_metas:
  assumes "RotateValue resolve c (Some b) path x m V = (r, V')" "canonicalizePath resolve path = Inr p"
    "ok (vs_Store V)" "good p" "metas k (vs_Store V)" "0 \<le> k" "k < max_int64"
  shows "ok (vs_Store V') \<and> metas (k + 1) (vs_Store V') \<and> keeps (vs_Store V) (vs_Store V')"
proof -
  note eff = rotate_meta [OF assms(1-4)]
  consider "meta (vs_Store V') p = meta (vs_Store V) p"
    | e aad where "meta (vs_Store V) p = Some e" "meta (vs_Store V') p = Some (rotation_result c e m aad)"
    | aad where "meta (vs_Store V) p = None" "meta (vs_Store V') p = Some (rotation_result c (new_meta c (be_Name b) p) m aad)"
    using eff unfolding rotation_result_def Let_def by metis
  moreover have o: "ok (vs_Store V')" and f: "\<forall>q. good q \<longrightarrow> q \<noteq> p \<longrightarrow> meta (vs_Store V') q = meta (vs_Store V) q"
    using eff by simp_all
  ultimately show ?thesis
  proof cases
    case 1
    then show ?thesis using o f metas_same [OF assms(5)] by metis
  next
    case 2
    then have "meta_wf e" "me_CurrentVersion e \<le> k" using assms(4,5) by (auto simp: metas_def)
    with rotation_result_wf [of e c m aad] assms(7) 2(1) show ?thesis
      by (intro conjI [OF o metas_update [OF assms(5) f 2(2)]]) auto
  next
    case 3
    then show ?thesis using assms(6) new_rotation_result [of c "be_Name b" p m aad]
      by (intro conjI [OF o metas_update [OF assms(5) f 3(2)]]) auto
  qed
qed

lemma destroy_metas:
  assumes "DestroyVersion resolve c (Some b) path v V = (r, V')" "canonicalizePath resolve path = Inr p"
    "ok (vs_Store V)" "good p" "metas k (vs_Store V)"
  shows "ok (vs_Store V') \<and> metas (k + 1) (vs_Store V') \<and> keeps (vs_Store V) (vs_Store V')"
proof (cases "r = None")
  case True
  with destroy_meta [OF assms(1-4)] obtain m i where m: "ok (vs_Store V')" "meta (vs_Store V) p = Some m"
    "\<forall>q. good q \<longrightarrow> q \<noteq> p \<longrightarrow> meta (vs_Store V') q = meta (vs_Store V) q"
    "findVersionIdx m v = Some i" "v \<noteq> me_CurrentVersion m" "meta (vs_Store V') p = Some (destroyed_meta c m i v)" by auto
  then have "meta_wf m" "me_CurrentVersion m \<le> k" using assms(4,5) by (auto simp: metas_def)
  then show ?thesis using m destroyed_meta_wf [OF _ m(4,5)]
    by (intro conjI [OF m(1) metas_update [OF assms(5) m(3,6)]]) auto
next
  case False
  then show ?thesis using destroy_meta [OF assms(1-4)] metas_same [OF assms(5)] by (metis (full_types))
qed

lemma rollback_metas:
  assumes "Rollback resolve c (Some b) path v V = (r, V')" "canonicalizePath resolve path = Inr p"
    "canonicalizePath resolve p = Inr p" "ok (vs_Store V)" "good p" "metas k (vs_Store V)" "0 \<le> k" "k < max_int64"
  shows "ok (vs_Store V') \<and> metas (k + 1) (vs_Store V') \<and> keeps (vs_Store V) (vs_Store V')"
  using rollback_meta_effect [OF assms(1,2)] rotate_metas [OF _ assms(3-8)] assms(4,6) metas_mono
  by fastforce

lemma destroyed_unreadable:
  assumes "metas k (vs_Store V)" "good p" "meta (vs_Store V) p = Some m" "v \<in> set (me_DestroyedVersions m)"
    "canonicalizePath resolve path = Inr p"
  shows "\<exists>e. GetVersion resolve (Some b) path v V = Inl e"
proof -
  have "usable_version m v \<noteq> Inr vm" for vm using assms(1-4) destroyed_not_usable by (auto simp: metas_def)
  moreover have "be_GetMeta b p (vs_Store V) = Inr m' \<Longrightarrow> m' = m" for m' using get_found assms(3) by fastforce
  ultimately show ?thesis using assms(5) by (auto simp: GetVersion_def split: sum.splits)
qed

end

subsection \<open>The file backend keeps the contract\<close>

definition stored_meta :: "file_state \<Rightarrow> gostring \<Rightarrow> vmeta option" where
  "stored_meta st q =
    (case metadataPath (st_dir st) q of Inl _ \<Rightarrow> None
     | Inr p \<Rightarrow> (case map_of (st_fs st) p of Some (MetaDoc m) \<Rightarrow> Some m | _ \<Rightarrow> None))"

lemma stored_meta_cong:
  "st_dir st' = st_dir st \<Longrightarrow> (\<And>p. metadataPath (st_dir st) q = Inr p \<Longrightarrow> map_of (st_fs st') p = map_of (st_fs st) p) \<Longrightarrow>
    stored_meta st' q = stored_meta st q"
  by (auto simp: stored_meta_def split: sum.splits)

lemma file_put_meta:
  assumes "IsAbs (st_dir st)" "plain_path p" "file_SetMeta E p m st = (r, st')" "plain_path q"
  shows "stored_meta st' q = (if r = None \<and> q = p then Some m else stored_meta st q)"
proof (cases "r = None \<and> q = p")
  case True
  then show ?thesis using assms(3)
    by (auto simp: file_SetMeta_def stored_meta_def atomicWrite_def Let_def update_conv split: sum.splits if_splits)
next
  case False
  have "map_of (st_fs st') f = map_of (st_fs st) f" if "metadataPath (st_dir st) q = Inr f" for f
  proof (cases "q = p")
    case True
    with False assms(3) show ?thesis
      by (auto simp: file_SetMeta_def atomicWrite_def Let_def split: sum.splits if_splits)
  next
    case False
    then show ?thesis using file_SetMeta_frame [OF assms(3)] metadataPath_inject [OF assms(1,4,2) that] by blast
  qed
  then have "stored_meta st' q = stored_meta st q" using file_SetMeta_frame [OF assms(3)] by (intro stored_meta_cong) auto
  with False show ?thesis by auto
qed

lemma file_version_meta:
  assumes "IsAbs (st_dir st)" "st_dir st' = st_dir st"
    "\<And>f. (\<forall>p. valuePath (st_dir st) path v = Inr p \<longrightarrow> f \<notin> set (version_files p)) \<Longrightarrow> map_of (st_fs st') f = map_of (st_fs st) f"
  shows "stored_meta st' q = stored_meta st q"
  using assms(2,3) meta_not_version_file [OF assms(1)] by (intro stored_meta_cong) blast+

interpretation file_meta: metadata_backend "file_backend A E" "\<lambda>st. IsAbs (st_dir st)" plain_path stored_meta for A E
proof unfold_locales
  fix p s m r s' v x
  show "be_GetMeta (file_backend A E) p s = Inr m \<Longrightarrow> stored_meta s p = Some m"
    "be_GetMeta (file_backend A E) p s = Inl NotFound \<Longrightarrow> stored_meta s p = None"
    by (auto simp: file_backend_def file_GetMeta_def getMetaFromDisk_def stored_meta_def
        split: sum.splits option.splits if_splits content.splits)
  assume i: "IsAbs (st_dir s)" and p: "plain_path p"
  show "IsAbs (st_dir s') \<and> (\<forall>q. plain_path q \<longrightarrow> stored_meta s' q = (if r = None \<and> q = p then Some m else stored_meta s q))"
    if "be_SetMeta (file_backend A E) p m s = (r, s')"
    using that file_put_meta [OF i p] file_SetMeta_frame i by (simp add: file_backend_def)
  show "IsAbs (st_dir s') \<and> (\<forall>q. plain_path q \<longrightarrow> stored_meta s' q = stored_meta s q)"
    if "be_SetVersioned (file_backend A E) p v x s = (r, s')"
    using that SetVersioned_frame [of A E p v x s r s'] i file_version_meta [OF i, of s' p v] by (simp add: file_backend_def)
  show "IsAbs (st_dir s') \<and> (\<forall>q. plain_path q \<longrightarrow> stored_meta s' q = stored_meta s q)"
    if "be_DeleteVersioned (file_backend A E) p v s = (r, s')"
    using that DeleteVersioned_frame [of E p v s r s'] i file_version_meta [OF i, of s' p v]
    by (auto simp: file_backend_def version_files_def)
qed

subsection \<open>Runs of vault operations on the file backend\<close>

datatype vault_op = RotateOp gostring gostring vmeta | DestroyOp gostring int | RollbackOp gostring int

fun op_path :: "vault_op \<Rightarrow> gostring" where
  "op_path (RotateOp path _ _) = path"
| "op_path (DestroyOp path _) = path"
| "op_path (RollbackOp path _) = path"

text \<open>One operation in its own context and environment.\<close>

fun vault_do ::
  "category_resolver \<Rightarrow> aead \<Rightarrow> vault_ctx \<times> file_env \<times> vault_op \<Rightarrow> file_state vault_state \<Rightarrow> file_state vault_state" where
  "vault_do resolve A (c, E, RotateOp path x m) V = snd (RotateValue resolve c (Some (file_backend A E)) path x m V)"
| "vault_do resolve A (c, E, DestroyOp path v) V = snd (DestroyVersion resolve c (Some (file_backend A E)) path v V)"
| "vault_do resolve A (c, E, RollbackOp path v) V = snd (Rollback resolve c (Some (file_backend A E)) path v V)"

definition vault_exec ::
  "category_resolver \<Rightarrow> aead \<Rightarrow> (vault_ctx \<times> file_env \<times> vault_op) list \<Rightarrow> file_state vault_state \<Rightarrow> file_state vault_state" where
  "vault_exec resolve A ops V = fold (vault_do resolve A) ops V"

text \<open>The path of an operation is refused, or has a canonical form with no dot segment.\<close>

definition op_ok :: "category_resolver \<Rightarrow> gostring \<Rightarrow> bool" where
  "op_ok resolve path = (case canonicalizePath resolve path of Inl _ \<Rightarrow> True
     | Inr p \<Rightarrow> plain_path p \<and> canonicalizePath resolve p = Inr p)"

definition stored_wf :: "int \<Rightarrow> file_state \<Rightarrow> bool" where
  "stored_wf k st \<longleftrightarrow> (\<forall>q m. plain_path q \<longrightarrow> stored_meta st q = Some m \<longrightarrow> meta_wf m \<and> me_CurrentVersion m \<le> k)"

definition destroyed_kept :: "file_state \<Rightarrow> file_state \<Rightarrow> bool" where
  "destroyed_kept st st' \<longleftrightarrow> (\<forall>q m. plain_path q \<longrightarrow> stored_meta st q = Some m \<longrightarrow>
     (\<exists>m'. stored_meta st' q = Some m' \<and> set (me_DestroyedVersions m) \<subseteq> set (me_DestroyedVersions m')))"

lemma file_metas: "file_meta.metas = stored_wf" "file_meta.keeps = destroyed_kept"
  by (simp_all add: fun_eq_iff file_meta.metas_def stored_wf_def file_meta.keeps_def destroyed_kept_def)

lemma vault_do_wf:
  assumes "op_ok resolve (op_path opn)" "IsAbs (st_dir (vs_Store V))" "stored_wf k (vs_Store V)" "0 \<le> k" "k < max_int64"
  shows "let V' = vault_do resolve A (c, E, opn) V in
    IsAbs (st_dir (vs_Store V')) \<and> stored_wf (k + 1) (vs_Store V') \<and> destroyed_kept (vs_Store V) (vs_Store V')"
proof (cases "canonicalizePath resolve (op_path opn)")
  case (Inl e)
  then show ?thesis
    using assms(2,3) file_meta.metas_mono file_meta.keeps_refl
    by (cases opn) (auto simp: RotateValue_def DestroyVersion_def Rollback_def file_metas)
next
  case (Inr p)
  then have p: "plain_path p" "canonicalizePath resolve p = Inr p" using assms(1) by (simp_all add: op_ok_def)
  note metas = assms(3) [folded file_metas]
  show ?thesis
  proof (cases opn)
    case (RotateOp path x m)
    then show ?thesis
      using file_meta.rotate_metas [OF prod.collapse [symmetric] Inr [unfolded RotateOp op_path.simps] assms(2) p(1) metas assms(4,5)]
      by (simp add: Let_def file_metas)
  next
    case (DestroyOp path v)
    then show ?thesis
      using file_meta.destroy_metas [OF prod.collapse [symmetric] Inr [unfolded DestroyOp op_path.simps] assms(2) p(1) metas]
      by (simp add: Let_def file_metas)
  next
    case (RollbackOp path v)
    then show ?thesis
      using file_meta.rollback_metas [OF prod.collapse [symmetric] Inr [unfolded RollbackOp op_path.simps] p(2) assms(2) p(1) metas assms(4,5)]
      by (simp add: Let_def file_metas)
  qed
qed

lemma vault_exec_wf:
  assumes "\<forall>(c, E, opn) \<in> set ops. op_ok resolve (op_path opn)" "IsAbs (st_dir (vs_Store V))" "stored_wf k (vs_Store V)"
    "0 \<le> k" "k + int (length ops) \<le> max_int64"
  shows "stored_wf (k + int (length ops)) (vs_Store (vault_exec resolve A ops V)) \<and>
    destroyed_kept (vs_Store V) (vs_Store (vault_exec resolve A ops V))"
  using assms
proof (induction ops arbitrary: V k)
  case Nil
  then show ?case using file_meta.keeps_refl by (simp add: vault_exec_def file_metas)
next
  case (Cons x ops)
  obtain c E opn where x: "x = (c, E, opn)" by (cases x) auto
  have s: "let V' = vault_do resolve A (c, E, opn) V in
      IsAbs (st_dir (vs_Store V')) \<and> stored_wf (k + 1) (vs_Store V') \<and> destroyed_kept (vs_Store V) (vs_Store V')"
    using Cons.prems x by (intro vault_do_wf) auto
  then have "stored_wf (k + 1 + int (length ops)) (vs_Store (vault_exec resolve A ops (vault_do resolve A x V))) \<and>
      destroyed_kept (vs_Store (vault_do resolve A x V)) (vs_Store (vault_exec resolve A ops (vault_do resolve A x V)))"
    using Cons.prems x by (intro Cons.IH) (auto simp: Let_def)
  moreover have "k + 1 + int (length ops) = k + int (length (x # ops))" by simp
  ultimately show ?case using s x file_meta.keeps_trans [unfolded file_metas]
    by (metis comp_apply fold_Cons vault_exec_def)
qed

end
