(* ===== verification/Vault_History.thy ===== *)
theory Vault_History
  imports Vault_Ops
begin

section \<open>Version histories of secrets\<close>

text \<open>
  The abstract view of the vault's versions and the proof that the vault operations implement it. The locale
  \<open>versioned_backend\<close> adds to the metadata contract what a backend promises about values; rotation, destruction,
  rollback and reading are shown to refine their abstract counterparts inside it, and the file backend is an instance.
\<close>

subsection \<open>Version histories\<close>

text \<open>
  The abstract view of a secret: the current version number and, per listed version, what reading it gives. The
  operations of the specification work on such histories alone.
\<close>

datatype slot = Readable "backend_error + gostring" | SlotDeleted | SlotDestroyed

type_synonym history = "int \<times> (int \<times> slot) list"

definition slot_of :: "(int \<Rightarrow> backend_error + gostring) \<Rightarrow> version_meta \<Rightarrow> int \<times> slot" where
  "slot_of rd vm = (vm_Version vm, if vm_DestroyedAt vm \<noteq> None then SlotDestroyed
     else if vm_DeletedAt vm \<noteq> None then SlotDeleted else Readable (rd (vm_Version vm)))"

definition history_of :: "(int \<Rightarrow> backend_error + gostring) \<Rightarrow> vmeta option \<Rightarrow> history" where
  "history_of rd om = (case om of None \<Rightarrow> (0, []) | Some m \<Rightarrow> (me_CurrentVersion m, map (slot_of rd) (me_Versions m)))"

definition spec_rotate :: "int \<Rightarrow> gostring \<Rightarrow> history \<Rightarrow> history" where
  "spec_rotate limit x h =
    (let n = fst h + 1; es = snd h @ [(n, Readable (Inr x))] in
     (n, if 0 < limit \<and> int (length es) > limit then tl es else es))"

definition spec_destroy :: "int \<Rightarrow> history \<Rightarrow> history" where
  "spec_destroy v h = (fst h, map (\<lambda>(w, x). (w, if w = v then SlotDestroyed else x)) (snd h))"

definition spec_read :: "int \<Rightarrow> history \<Rightarrow> vault_error + gostring" where
  "spec_read v h =
    (case map_of (snd h) v of None \<Rightarrow> Inl ErrVersionNotFound
     | Some SlotDestroyed \<Rightarrow> Inl ErrVersionDestroyed
     | Some SlotDeleted \<Rightarrow> Inl ErrVersionDeleted
     | Some (Readable (Inl e)) \<Rightarrow> Inl (BackendError e)
     | Some (Readable (Inr x)) \<Rightarrow> Inr x)"

text \<open>The cap in force after the caller's metadata was merged in.\<close>

definition version_limit :: "vmeta option \<Rightarrow> vmeta \<Rightarrow> int" where
  "version_limit old m =
    (if me_MaxVersions m > 0 then me_MaxVersions m else (case old of None \<Rightarrow> DefaultMaxVersions | Some e \<Rightarrow> me_MaxVersions e))"

lemma map_of_slots: "map_of (map (slot_of rd) vms) v = map_option (snd \<circ> slot_of rd) (find (\<lambda>vm. vm_Version vm = v) vms)"
  by (induction vms) (auto simp: slot_of_def)

lemma find_version: "find (\<lambda>vm. vm_Version vm = v) vms = Some vm \<Longrightarrow> vm_Version vm = v"
  by (auto simp: find_Some_iff)

lemma slots_cong: "(\<And>vm. vm \<in> set vms \<Longrightarrow> rd (vm_Version vm) = rd' (vm_Version vm)) \<Longrightarrow> map (slot_of rd) vms = map (slot_of rd') vms"
  by (auto simp: slot_of_def)

locale versioned_backend = metadata_backend b ok good meta
  for b :: "'s backend" and ok :: "'s \<Rightarrow> bool" and good :: "gostring \<Rightarrow> bool" and meta :: "'s \<Rightarrow> gostring \<Rightarrow> vmeta option" +
  assumes set_value: "ok s \<Longrightarrow> good p \<Longrightarrow> be_SetVersioned b p v x s = (None, s') \<Longrightarrow> be_GetVersioned b p v s' = Inr x"
    and set_values: "ok s \<Longrightarrow> good p \<Longrightarrow> good q \<Longrightarrow> (q, w) \<noteq> (p, v) \<Longrightarrow> be_SetVersioned b p v x s = (r, s') \<Longrightarrow>
      be_GetVersioned b q w s' = be_GetVersioned b q w s"
    and del_values: "ok s \<Longrightarrow> good p \<Longrightarrow> good q \<Longrightarrow> (q, w) \<noteq> (p, v) \<Longrightarrow> be_DeleteVersioned b p v s = (r, s') \<Longrightarrow>
      be_GetVersioned b q w s' = be_GetVersioned b q w s"
    and put_values: "ok s \<Longrightarrow> good p \<Longrightarrow> good q \<Longrightarrow> be_SetMeta b p m s = (r, s') \<Longrightarrow>
      be_GetVersioned b q w s' = be_GetVersioned b q w s"
begin

definition history :: "'s \<Rightarrow> gostring \<Rightarrow> history" where
  "history s p = history_of (\<lambda>v. be_GetVersioned b p v s) (meta s p)"

lemma del_values_snd: "ok s \<Longrightarrow> good p \<Longrightarrow> good q \<Longrightarrow> (q, w) \<noteq> (p, v) \<Longrightarrow>
    be_GetVersioned b q w (snd (be_DeleteVersioned b p v s)) = be_GetVersioned b q w s"
  using del_values prod.collapse by metis

text \<open>A rotation that reports a version number implements the specification's.\<close>

lemma rotate_refines:
  assumes "RotateValue resolve c (Some b) path x m V = ((n, err), V')" "n \<noteq> 0" "canonicalizePath resolve path = Inr p"
    "ok (vs_Store V)" "good p"
    and wf: "\<And>e. meta (vs_Store V) p = Some e \<Longrightarrow> meta_wf e \<and> me_CurrentVersion e < max_int64"
  shows "history (vs_Store V') p = spec_rotate (version_limit (meta (vs_Store V) p) m) x (history (vs_Store V) p) \<and>
    n = fst (history (vs_Store V) p) + 1 \<and> (\<forall>q. good q \<longrightarrow> q \<noteq> p \<longrightarrow> history (vs_Store V') q = history (vs_Store V) q)"
proof -
  obtain e parts where e: "load_or_init c b p (vs_Store V) = Inr e"
    and cr: "commit_rotation c b p e m (wrap64 (me_CurrentVersion e + 1))
      (rotation_aad c b p parts (wrap64 (me_CurrentVersion e + 1)) (vs_Store V)) x V = ((n, err), V')"
    using assms(1-3) by (auto simp: RotateValue_def Let_def split: if_splits sum.splits)
  have e': "meta (vs_Store V) p = Some e \<or> meta (vs_Store V) p = None \<and> e = new_meta c (be_Name b) p"
    using e get_found get_missing by (auto simp: load_or_init_def split: sum.splits if_splits)
  have cur: "0 \<le> me_CurrentVersion e" "me_CurrentVersion e < max_int64"
    using e' wf [of e] meta_wf_bound(2) [of e "last (me_Versions e)"]
    by (auto simp: meta_wf_def new_meta_def max_int64_def)
  have old: "\<forall>vm \<in> set (me_Versions e). vm_Version vm \<le> me_CurrentVersion e"
    using e' wf [of e] meta_wf_bound(1) [of e] by (auto simp: new_meta_def)
  define k aad where "k = me_CurrentVersion e + 1" and "aad = rotation_aad c b p parts k (vs_Store V)"
  have k: "wrap64 (me_CurrentVersion e + 1) = k" using max_version_wrap [OF cur(2,1)] by (simp add: k_def)
  define y where "y = rotated_meta c e m k aad"
  obtain s1 where s1: "be_SetVersioned b p k x (vs_Store V) = (None, s1)"
    using cr assms(2) unfolding k commit_rotation_def by (auto split: option.splits prod.splits)
  define s2 where "s2 = (if evicts y then snd (be_DeleteVersioned b p (vm_Version (hd (me_Versions y))) s1) else s1)"
  obtain s3 where s3: "be_SetMeta b p (if evicts y then evict y else y) s2 = (None, s3)" "vs_Store V' = s3" "n = k"
    using cr assms(2) s1 unfolding k aad_def [symmetric] commit_rotation_def
    by (auto simp: Let_def y_def [symmetric] s2_def [symmetric] dest: emitVaultEvent_store split: option.splits prod.splits)
  have o1: "ok s1" using set_meta [OF assms(4,5) s1] by simp
  have o2: "ok s2" using o1 del_meta_snd [OF o1 assms(5)] by (simp add: s2_def)
  let ?evicted = "vm_Version (hd (me_Versions y))"
  have rd: "be_GetVersioned b q w s3 = be_GetVersioned b q w s1" if "good q" "q = p \<Longrightarrow> evicts y \<Longrightarrow> w \<noteq> ?evicted" for q w
    using put_values [OF o2 assms(5) that(1) s3(1)] del_values_snd [OF o1 assms(5) that(1), of w ?evicted] that(2)
    by (auto simp: s2_def)
  have m3: "meta s3 p = Some (if evicts y then evict y else y)" "\<forall>q. good q \<longrightarrow> q \<noteq> p \<longrightarrow> meta s3 q = meta (vs_Store V) q"
    using put_meta [OF o2 assms(5) s3(1)] del_meta_snd [OF o1 assms(5)] set_meta [OF assms(4,5) s1] assms(5)
    by (auto simp: s2_def)
  have ev: "evicts y \<longleftrightarrow> 0 < version_limit (meta (vs_Store V) p) m \<and>
      int (length (me_Versions e)) + 1 > version_limit (meta (vs_Store V) p) m"
    using e' by (auto simp: evicts_def y_def version_limit_def new_meta_def)
  have h0: "history (vs_Store V) p = (me_CurrentVersion e, map (slot_of (\<lambda>v. be_GetVersioned b p v (vs_Store V))) (me_Versions e))"
    using e' by (auto simp: history_def history_of_def new_meta_def)
  have keep: "be_GetVersioned b p (vm_Version vm) s3 = be_GetVersioned b p (vm_Version vm) (vs_Store V)"
    if "vm \<in> set (me_Versions e)" "evicts y \<Longrightarrow> vm_Version vm \<noteq> ?evicted" for vm
    using rd [OF assms(5), of "vm_Version vm"] that old set_values [OF assms(4,5,5) _ s1, of "vm_Version vm"]
    by (fastforce simp: k_def)
  have newest: "slot_of (\<lambda>v. be_GetVersioned b p v s3) (new_version c m k aad) = (k, Readable (Inr x))"
  proof -
    have "k \<noteq> ?evicted" if "evicts y"
      using that old e' by (cases "me_Versions e") (auto simp: y_def k_def evicts_def split: if_splits)
    then show ?thesis using rd [OF assms(5), of k] set_value [OF assms(4,5) s1] by (simp add: slot_of_def)
  qed
  have "history s3 p = spec_rotate (version_limit (meta (vs_Store V) p) m) x (history (vs_Store V) p)"
  proof (cases "evicts y")
    case True
    then obtain f vms where vs: "me_Versions e = f # vms" by (cases "me_Versions e") (auto simp: evicts_def y_def split: if_splits)
    have "sorted_wrt (<) (map vm_Version (me_Versions e))" using e' wf [of e] by (auto simp: meta_wf_def new_meta_def)
    then have "\<forall>vm \<in> set vms. vm_Version vm \<noteq> vm_Version f" using vs by auto
    then have "map (slot_of (\<lambda>v. be_GetVersioned b p v s3)) vms = map (slot_of (\<lambda>v. be_GetVersioned b p v (vs_Store V))) vms"
      using keep vs by (intro slots_cong) (auto simp: y_def)
    then show ?thesis using True vs newest m3(1) ev h0
      by (simp add: history_def history_of_def spec_rotate_def Let_def y_def k_def)
  next
    case False
    then have "map (slot_of (\<lambda>v. be_GetVersioned b p v s3)) (me_Versions e) =
        map (slot_of (\<lambda>v. be_GetVersioned b p v (vs_Store V))) (me_Versions e)"
      using keep by (intro slots_cong) auto
    then show ?thesis using False newest m3(1) ev h0
      by (auto simp: history_def history_of_def spec_rotate_def Let_def y_def k_def)
  qed
  moreover have "history s3 q = history (vs_Store V) q" if "good q" "q \<noteq> p" for q
    using that m3(2) rd [OF that(1)] set_values [OF assms(4,5) that(1) _ s1] by (auto simp: history_def)
  ultimately show ?thesis using s3(2,3) h0 by (auto simp: k_def)
qed

lemma get_refines:
  assumes "canonicalizePath resolve path = Inr p" "be_GetMeta b p (vs_Store V) = Inr m"
  shows "(case GetVersion resolve (Some b) path v V of Inl e \<Rightarrow> Inl e | Inr (x, _) \<Rightarrow> Inr x) = spec_read v (history (vs_Store V) p)"
  using assms get_found [OF assms(2)]
  by (auto simp: GetVersion_def history_def history_of_def spec_read_def usable_version_def findVersion_def map_of_slots
      slot_of_def dest!: find_version split: option.splits sum.splits)

lemma destroy_refines:
  assumes "DestroyVersion resolve c (Some b) path v V = (None, V')" "canonicalizePath resolve path = Inr p"
    "ok (vs_Store V)" "good p" "\<And>e. meta (vs_Store V) p = Some e \<Longrightarrow> meta_wf e"
  shows "history (vs_Store V') p = spec_destroy v (history (vs_Store V) p)"
proof -
  obtain m i where m: "be_GetMeta b p (vs_Store V) = Inr m" "findVersionIdx m v = Some i" "v \<noteq> me_CurrentVersion m"
    "vm_DestroyedAt (me_Versions m ! i) = None"
    using assms(1,2) by (auto simp: DestroyVersion_def split: sum.splits option.splits if_splits)
  define s1 where "s1 = snd (be_DeleteVersioned b p v (vs_Store V))"
  have s2: "be_SetMeta b p (destroyed_meta c m i v) s1 = (None, vs_Store V')"
    using assms(1,2) m by (auto simp: DestroyVersion_def s1_def [symmetric] split: prod.splits)
  have o1: "ok s1" using del_meta_snd [OF assms(3,4)] by (simp add: s1_def)
  have m0: "meta (vs_Store V) p = Some m" using get_found m(1) by blast
  have m': "meta (vs_Store V') p = Some (destroyed_meta c m i v)" using put_meta [OF o1 assms(4) s2] assms(4) by simp
  have rd: "be_GetVersioned b p w (vs_Store V') = be_GetVersioned b p w (vs_Store V)" if "w \<noteq> v" for w
    using put_values [OF o1 assms(4,4) s2] del_values_snd [OF assms(3,4,4), of w v] that by (simp add: s1_def)
  let ?vs = "me_Versions m" and ?g = "\<lambda>s w. be_GetVersioned b p w s"
  note i = findVersionIdx_Some [OF m(2)]
  have dist: "distinct (map vm_Version ?vs)" using assms(5) [OF m0] by (simp add: meta_wf_def strict_sorted_iff)
  have "map (slot_of (?g (vs_Store V'))) (me_Versions (destroyed_meta c m i v)) =
      map (\<lambda>(w, x). (w, if w = v then SlotDestroyed else x)) (map (slot_of (?g (vs_Store V))) ?vs)"
  proof (rule nth_equalityI)
    fix j assume "j < length (map (slot_of (?g (vs_Store V'))) (me_Versions (destroyed_meta c m i v)))"
    then have j: "j < length ?vs" by (simp add: destroyed_meta_def)
    have "vm_Version (?vs ! j) = v \<longleftrightarrow> j = i" using nth_eq_iff_index_eq [OF dist, of j i] i j by simp
    then show "map (slot_of (?g (vs_Store V'))) (me_Versions (destroyed_meta c m i v)) ! j =
        map (\<lambda>(w, x). (w, if w = v then SlotDestroyed else x)) (map (slot_of (?g (vs_Store V))) ?vs) ! j"
      using i j rd by (cases "j = i") (simp_all add: destroyed_meta_def slot_of_def)
  qed (simp add: destroyed_meta_def)
  then show ?thesis using m0 m' by (simp add: history_def history_of_def spec_destroy_def)
qed

lemma rollback_refines:
  assumes "Rollback resolve c (Some b) path v V = (None, V')" "canonicalizePath resolve path = Inr p"
    "canonicalizePath resolve p = Inr p" "ok (vs_Store V)" "good p"
    and wf: "\<And>e. meta (vs_Store V) p = Some e \<Longrightarrow> meta_wf e \<and> me_CurrentVersion e < max_int64"
  shows "\<exists>x limit. spec_read v (history (vs_Store V) p) = Inr x \<and>
    history (vs_Store V') p = spec_rotate limit x (history (vs_Store V) p)"
proof -
  obtain m vm x n where m: "be_GetMeta b p (vs_Store V) = Inr m" "usable_version m v = Inr vm"
    "be_GetVersioned b p v (vs_Store V) = Inr x"
    and r: "RotateValue resolve c (Some b) p x (rollback_meta v) V = ((n, None), V')"
    using assms(1,2) by (auto simp: Rollback_def split: sum.splits prod.splits)
  have w: "meta_wf m" "me_CurrentVersion m < max_int64" using wf get_found [OF m(1)] by auto
  then have "1 \<le> me_CurrentVersion m" using meta_wf_bound(2) by (metis meta_wf_def last_in_set)
  then have "wrap64 (me_CurrentVersion m + 1) = me_CurrentVersion m + 1" using max_version_wrap [OF w(2)] by simp
  then have "n = me_CurrentVersion m + 1"
    using r assms(3) m(1) by (auto simp: RotateValue_def Let_def load_or_init_def dest: commit_rotation_ok split: if_splits sum.splits)
  then have "n \<noteq> 0" using \<open>1 \<le> me_CurrentVersion m\<close> by simp
  have "spec_read v (history (vs_Store V) p) = Inr x"
    using get_refines [OF assms(2) m(1), of v] m assms(2) by (simp add: GetVersion_def)
  then show ?thesis using rotate_refines [OF r \<open>n \<noteq> 0\<close> assms(3-5)] wf by blast
qed

end

subsection \<open>The file backend keeps values\<close>

text \<open>
  The environment of the call reads all files and stays within one second; the AEAD opens what it sealed; the active
  term is not destroyed, and for AES-GCM the keyring file agrees with the keyring in memory except for its counters.
\<close>

definition same_file :: "keyring_file \<Rightarrow> keyring_file \<Rightarrow> bool" where
  "same_file a b \<longleftrightarrow> a\<lparr>kf_GCMState := None\<rparr> = b\<lparr>kf_GCMState := None\<rparr>"

definition keyring_settled :: "keyring \<Rightarrow> keyring_disk \<Rightarrow> bool" where
  "keyring_settled kr D \<longleftrightarrow>
    (kf_Algorithm (kr_file kr) = AES256GCM \<longrightarrow> (\<forall>kf. loadFile D = Inr kf \<longrightarrow> same_file kf (kr_file kr))) \<and>
    \<not> list_ex (\<lambda>tr. tr_Term tr = kf_ActiveTerm (kr_file kr) \<and> tr_Status tr = TermDestroyed) (kf_Terms (kr_file kr))"

definition file_ok :: "aead \<Rightarrow> file_env \<Rightarrow> file_state \<Rightarrow> bool" where
  "file_ok A E st \<longleftrightarrow>
    aead_correct A \<and> time_format_ok (ae_Time A) \<and> fe_Now E div Second = fe_Now2 E div Second \<and> (\<forall>q. fe_ReadOk E q) \<and>
    IsAbs (st_dir st) \<and> (\<forall>kr. st_keyring st = Some kr \<longrightarrow> keyring_settled kr (st_kdisk st))"

lemma same_fileD: "same_file a b \<Longrightarrow> kf_Terms a = kf_Terms b \<and> kf_Algorithm a = kf_Algorithm b \<and> kf_ActiveTerm a = kf_ActiveTerm b"
  by (cases a; cases b) (simp add: same_file_def)

lemma same_file_GCM [simp]: "same_file (a\<lparr>kf_GCMState := x\<rparr>) b = same_file a b" "same_file a (b\<lparr>kf_GCMState := x\<rparr>) = same_file a b"
  "same_file a a"
  by (simp_all add: same_file_def)

lemma same_file_trans: "same_file a b \<Longrightarrow> same_file b c \<Longrightarrow> same_file a c"
  by (simp add: same_file_def)

lemma loadFile_saveFile: "saveFile okay kf D = (True, D') \<Longrightarrow> loadFile D' = Inr kf' \<Longrightarrow> kf' = kf"
  by (auto simp: saveFile_def loadFile_def split: if_splits)

lemma saveFile_False: "saveFile okay kf D = (False, D') \<Longrightarrow> D' = D"
  by (simp add: saveFile_def split: if_splits)

lemma NextGCMNonce_same:
  assumes "NextGCMNonce l w t kr D = (r, kr', D')" "\<forall>kf. loadFile D = Inr kf \<longrightarrow> same_file kf (kr_file kr)"
  shows "same_file (kr_file kr') (kr_file kr) \<and> kr_deks kr' = kr_deks kr \<and> (\<forall>kf. loadFile D' = Inr kf \<longrightarrow> same_file kf (kr_file kr'))"
  using assms
  by (auto simp: NextGCMNonce_def Let_def reload_def set_counter_def same_file_trans dest: loadFile_saveFile dest!: saveFile_False
      split: if_splits sum.splits option.splits prod.splits)

lemma seal_value_settled:
  assumes "seal_value A E (kf_Algorithm (kr_file kr)) dek x aad t kr D = (r, kr', D')" "keyring_settled kr D"
  shows "same_file (kr_file kr') (kr_file kr) \<and> kr_deks kr' = kr_deks kr \<and> keyring_settled kr' D'"
proof (cases "kf_Algorithm (kr_file kr)")
  case AES256GCM
  then consider "kr' = kr" "D' = D" | q where "NextGCMNonce (fe_LockOk E) (fe_SaveOk E) t kr D = (q, kr', D')"
    using assms(1) by (auto simp: seal_value_def SealAESGCM_def keyring_Next_def Let_def split: if_splits sum.splits prod.splits)
  then show ?thesis
  proof cases
    case 2
    have "same_file (kr_file kr') (kr_file kr) \<and> kr_deks kr' = kr_deks kr \<and> (\<forall>kf. loadFile D' = Inr kf \<longrightarrow> same_file kf (kr_file kr'))"
      using NextGCMNonce_same [OF 2] assms(2) AES256GCM by (simp add: keyring_settled_def)
    then show ?thesis using assms(2) same_fileD [of "kr_file kr'" "kr_file kr"] by (simp add: keyring_settled_def)
  qed (use assms(2) in simp)
qed (use assms in \<open>auto simp: seal_value_def SealXChaCha20_def split: if_splits option.splits\<close>)

lemma SetVersioned_settled:
  assumes "SetVersioned A E path v x st = (r, st')" "st_keyring st = Some kr" "keyring_settled kr (st_kdisk st)"
  shows "\<exists>kr'. st_keyring st' = Some kr' \<and> same_file (kr_file kr') (kr_file kr) \<and> kr_deks kr' = kr_deks kr \<and>
    keyring_settled kr' (st_kdisk st')"
proof -
  have enc: "\<exists>kr'. st_keyring st1 = Some kr' \<and> same_file (kr_file kr') (kr_file kr) \<and> kr_deks kr' = kr_deks kr \<and>
      keyring_settled kr' (st_kdisk st1)" if "SetVersionedEncrypted A E path v t ns x kr st = (r1, st1)" for r1 st1 t ns
    using that assms(2,3) seal_value_settled [OF _ assms(3)]
    by (fastforce simp: SetVersionedEncrypted_def Let_def split: sum.splits option.splits prod.splits if_splits)
  have meta: "st_kdisk st' = st_kdisk st1 \<and> st_keyring st' = st_keyring st1" if "writeVersionMeta E path v bd st1 = (r, st')" for st1 bd
    using that by (auto simp: writeVersionMeta_def Let_def split: sum.splits prod.splits)
  show ?thesis using assms enc meta
    by (fastforce simp: SetVersioned_def Let_def split: sum.splits option.splits prod.splits)
qed

lemma GetVersioned_cong:
  assumes "st_dir st' = st_dir st" "st_keyring st = Some kr" "st_keyring st' = Some kr'" "same_file (kr_file kr') (kr_file kr)"
    "kr_deks kr' = kr_deks kr" "\<And>p f. valuePath (st_dir st) q w = Inr p \<Longrightarrow> f \<in> set (version_files p) \<Longrightarrow>
      map_of (st_fs st') f = map_of (st_fs st) f"
  shows "GetVersioned A E q w st' = GetVersioned A E q w st"
proof -
  have "DEKForTerm kr' = DEKForTerm kr" using assms(4,5) same_fileD by (auto simp: DEKForTerm_def fun_eq_iff)
  then show ?thesis using assms(1-3,6)
    by (auto simp: GetVersioned_def readVersionMeta_def GetVersionedEncrypted_def read_bytes_def Let_def version_files_def
        split: sum.splits)
qed

lemma SetVersioned_file_ok:
  assumes "SetVersioned A E p v x st = (r, st')" "file_ok A E st"
  shows "file_ok A E st'"
proof (cases "st_keyring st")
  case None
  then show ?thesis using assms by (simp add: SetVersioned_def)
next
  case (Some kr)
  then show ?thesis using assms SetVersioned_frame [OF assms(1)] SetVersioned_settled [OF assms(1) Some]
    by (auto simp: file_ok_def)
qed

lemma file_set_values:
  assumes "file_ok A E st" "plain_path p" "plain_path q" "(q, w) \<noteq> (p, v)" "SetVersioned A E p v x st = (r, st')"
  shows "GetVersioned A E q w st' = GetVersioned A E q w st"
proof (cases "st_keyring st")
  case None
  then show ?thesis using assms(5) by (simp add: SetVersioned_def)
next
  case (Some kr)
  then obtain kr' where kr': "st_keyring st' = Some kr'" "same_file (kr_file kr') (kr_file kr)" "kr_deks kr' = kr_deks kr"
    using SetVersioned_settled [OF assms(5) Some] assms(1) by (auto simp: file_ok_def)
  have abs: "IsAbs (st_dir st)" using assms(1) by (simp add: file_ok_def)
  show ?thesis
  proof (rule GetVersioned_cong [OF _ Some kr'])
    fix a f assume a: "valuePath (st_dir st) q w = Inr a" "f \<in> set (version_files a)"
    have "f \<notin> set (version_files a')" if "valuePath (st_dir st) p v = Inr a'" for a'
      using version_files_disjoint [OF abs assms(3,2) a(1) that assms(4)] a(2) by blast
    then show "map_of (st_fs st') f = map_of (st_fs st) f" using SetVersioned_frame [OF assms(5)] by blast
  qed (use SetVersioned_frame [OF assms(5)] in simp)
qed

lemma file_set_value:
  assumes "file_ok A E st" "SetVersioned A E p v x st = (None, st')"
  shows "GetVersioned A E p v st' = Inr x"
proof -
  obtain kr where kr: "st_keyring st = Some kr" using assms(2) by (auto simp: SetVersioned_def split: option.splits)
  then obtain kr' where "st_keyring st' = Some kr'" "same_file (kr_file kr') (kr_file kr)" "keyring_settled kr' (st_kdisk st')"
    using SetVersioned_settled [OF assms(2) kr] assms(1) by (auto simp: file_ok_def)
  then have "term_live st' (active_term st)"
    using kr same_fileD by (auto simp: term_live_def active_term_def keyring_settled_def)
  then show ?thesis using set_get_versioned [OF assms(2)] assms(1) by (auto simp: file_ok_def)
qed

lemma file_same_values:
  assumes "st_dir st' = st_dir st" "st_keyring st' = st_keyring st"
    "\<And>a f. valuePath (st_dir st) q w = Inr a \<Longrightarrow> f \<in> set (version_files a) \<Longrightarrow> map_of (st_fs st') f = map_of (st_fs st) f"
  shows "GetVersioned A E q w st' = GetVersioned A E q w st"
proof (cases "st_keyring st")
  case None
  then show ?thesis using assms(2) by (simp add: GetVersioned_def)
next
  case (Some kr)
  then show ?thesis using assms by (intro GetVersioned_cong [of st' st kr kr]) auto
qed

interpretation file_versions: versioned_backend "file_backend A E" "file_ok A E" plain_path stored_meta for A E
proof unfold_locales
  fix p s m r s' v x q w
  show "be_GetMeta (file_backend A E) p s = Inr m \<Longrightarrow> stored_meta s p = Some m"
    "be_GetMeta (file_backend A E) p s = Inl NotFound \<Longrightarrow> stored_meta s p = None"
    by (rule file_meta.get_found, assumption) (rule file_meta.get_missing)
  assume o: "file_ok A E s" and p: "plain_path p"
  then have i: "IsAbs (st_dir s)" by (simp add: file_ok_def)
  show "file_ok A E s' \<and> (\<forall>q. plain_path q \<longrightarrow> stored_meta s' q = (if r = None \<and> q = p then Some m else stored_meta s q))"
    if "be_SetMeta (file_backend A E) p m s = (r, s')"
  proof -
    have "st_kdisk s' = st_kdisk s" using that
      by (auto simp: file_backend_def file_SetMeta_def Let_def split: sum.splits prod.splits if_splits)
    then show ?thesis using that file_meta.put_meta [OF i p that] file_SetMeta_frame [of E p m s r s'] o
      by (simp add: file_backend_def file_ok_def)
  qed
  show "file_ok A E s' \<and> (\<forall>q. plain_path q \<longrightarrow> stored_meta s' q = stored_meta s q)"
    if "be_SetVersioned (file_backend A E) p v x s = (r, s')"
    using that file_meta.set_meta [OF i p that] SetVersioned_file_ok [of A E p v x s r s'] o by (simp add: file_backend_def)
  show "file_ok A E s' \<and> (\<forall>q. plain_path q \<longrightarrow> stored_meta s' q = stored_meta s q)"
    if "be_DeleteVersioned (file_backend A E) p v s = (r, s')"
  proof -
    have "st_kdisk s' = st_kdisk s" using that
      by (auto simp: file_backend_def DeleteVersioned_def split: sum.splits option.splits if_splits)
    then show ?thesis using that file_meta.del_meta [OF i p that] DeleteVersioned_frame [of E p v s r s'] o
      by (simp add: file_backend_def file_ok_def)
  qed
  show "be_GetVersioned (file_backend A E) p v s' = Inr x" if "be_SetVersioned (file_backend A E) p v x s = (None, s')"
  proof -
    have "SetVersioned A E p v x s = (None, s')" using that by (simp add: file_backend_def)
    moreover from this have "GetVersioned A E p v s' = Inr x" using file_set_value [OF o] by blast
    ultimately show ?thesis by (simp add: file_backend_def)
  qed
  assume q: "plain_path q"
  show "be_GetVersioned (file_backend A E) q w s' = be_GetVersioned (file_backend A E) q w s"
    if "(q, w) \<noteq> (p, v)" "be_SetVersioned (file_backend A E) p v x s = (r, s')"
    using file_set_values [OF o p q that(1)] that(2) by (simp add: file_backend_def)
  show "be_GetVersioned (file_backend A E) q w s' = be_GetVersioned (file_backend A E) q w s"
    if "(q, w) \<noteq> (p, v)" "be_DeleteVersioned (file_backend A E) p v s = (r, s')"
  proof -
    have d: "DeleteVersioned E p v s = (r, s')" using that(2) by (simp add: file_backend_def)
    have "map_of (st_fs s') f = map_of (st_fs s) f" if "valuePath (st_dir s) q w = Inr a" "f \<in> set (version_files a)" for a f
      using DeleteVersioned_frame [OF d, of f] version_files_disjoint [OF i q p that(1) _ \<open>(q, w) \<noteq> (p, v)\<close>] that(2)
      by (fastforce simp: version_files_def)
    then show ?thesis using file_same_values [of s' s q w] DeleteVersioned_frame [OF d] by (simp add: file_backend_def)
  qed
  show "be_GetVersioned (file_backend A E) q w s' = be_GetVersioned (file_backend A E) q w s"
    if "be_SetMeta (file_backend A E) p m s = (r, s')"
  proof -
    have d: "file_SetMeta E p m s = (r, s')" using that by (simp add: file_backend_def)
    have "map_of (st_fs s') f = map_of (st_fs s) f" if "valuePath (st_dir s) q w = Inr a" "f \<in> set (version_files a)" for a f
      using file_SetMeta_frame [OF d, of f] meta_not_version_file [OF i _ that] by blast
    then show ?thesis using file_same_values [of s' s q w] file_SetMeta_frame [OF d] by (simp add: file_backend_def)
  qed
qed

definition file_history :: "aead \<Rightarrow> file_env \<Rightarrow> file_state \<Rightarrow> gostring \<Rightarrow> history" where
  "file_history A E st p = history_of (\<lambda>v. GetVersioned A E p v st) (stored_meta st p)"

lemma file_history: "file_versions.history A E = file_history A E"
  by (intro ext) (simp only: file_versions.history_def file_history_def, simp add: file_backend_def)


text \<open>Rolling back to a version adds a new current version that reads as the old one, and leaves the numbers of
  the others alone; only readable versions can be rolled back to.\<close>

theorem rollback_restores:
  assumes "Rollback resolve c (Some (file_backend A E)) path v V = (None, V')" "canonicalizePath resolve path = Inr p"
    "canonicalizePath resolve p = Inr p" "plain_path p" "file_ok A E (vs_Store V)" "stored_wf k (vs_Store V)" "k < max_int64"
  shows "\<exists>x limit. spec_read v (file_history A E (vs_Store V) p) = Inr x \<and>
    file_history A E (vs_Store V') p = spec_rotate limit x (file_history A E (vs_Store V) p) \<and>
    last (snd (file_history A E (vs_Store V') p)) = (fst (file_history A E (vs_Store V) p) + 1, Readable (Inr x))"
proof -
  have wf: "meta_wf e \<and> me_CurrentVersion e < max_int64" if "stored_meta (vs_Store V) p = Some e" for e
    using assms(4,6,7) that by (fastforce simp: stored_wf_def)
  obtain x limit where r: "spec_read v (file_history A E (vs_Store V) p) = Inr x"
    "file_history A E (vs_Store V') p = spec_rotate limit x (file_history A E (vs_Store V) p)"
    using file_versions.rollback_refines [OF assms(1-3,5,4) wf] by (auto simp: file_history)
  have "snd (file_history A E (vs_Store V) p) \<noteq> []" using r(1) by (auto simp: spec_read_def)
  then have "last (snd (spec_rotate limit x (file_history A E (vs_Store V) p))) =
      (fst (file_history A E (vs_Store V) p) + 1, Readable (Inr x))"
    by (auto simp: spec_rotate_def Let_def last_tl)
  with r show ?thesis by auto
qed

subsection \<open>Rotations that succeed\<close>

text \<open>An environment that grants every file operation and a nonce.\<close>

definition permissive :: "file_env \<Rightarrow> bool" where
  "permissive E \<longleftrightarrow> fe_MkdirOk E \<and> (\<forall>q. fe_WriteOk E q) \<and> (\<forall>q. fe_ReadOk E q) \<and> fe_Nonce E \<noteq> None"

definition recording :: "vault_ctx \<Rightarrow> bool" where
  "recording c \<longleftrightarrow> (case vc_Emitter c of None \<Rightarrow> False | Some em \<Rightarrow> em_Ready em \<and> (\<forall>e. em_Records em e))"

definition xchacha_key :: "keyring \<Rightarrow> gostring \<Rightarrow> bool" where
  "xchacha_key kr dek \<longleftrightarrow> kr_deks kr (kf_ActiveTerm (kr_file kr)) = Some dek \<and> length dek = 32 \<and>
     kf_Algorithm (kr_file kr) = XChaCha20Poly1305"

lemma file_SetMeta_succeeds:
  "permissive E \<Longrightarrow> IsAbs (st_dir st) \<Longrightarrow> plain_path p \<Longrightarrow> fst (file_SetMeta E p m st) = None"
  by (simp add: permissive_def file_SetMeta_def metadataPath_plain atomicWrite_def)

lemma file_SetMeta_keyring: "st_keyring (snd (file_SetMeta E p m st)) = st_keyring st \<and> st_dir (snd (file_SetMeta E p m st)) = st_dir st"
  using file_SetMeta_frame prod.collapse by metis

lemma DeleteVersioned_keyring: "st_keyring (snd (DeleteVersioned E p v st)) = st_keyring st \<and> st_dir (snd (DeleteVersioned E p v st)) = st_dir st"
  using DeleteVersioned_frame prod.collapse by metis

text \<open>With a usable key, a permissive environment and a recording emitter a rotation returns the next number.\<close>

lemma rotation_succeeds:
  assumes "canonicalizePath resolve path = Inr p" "plain_path p" "Parts p = Inr parts" "recording c" "permissive E"
    "IsAbs (st_dir (vs_Store V))" "st_keyring (vs_Store V) = Some kr" "xchacha_key kr dek"
    "load_or_init c (file_backend A E) p (vs_Store V) = Inr e" "n = wrap64 (me_CurrentVersion e + 1)"
    "binding_ok (version_binding (vs_Store V) kr p n (fe_Now E))"
  shows "\<exists>V'. RotateValue resolve c (Some (file_backend A E)) path x m V = ((n, None), V') \<and>
    st_keyring (vs_Store V') = Some kr \<and> st_dir (vs_Store V') = st_dir (vs_Store V)"
proof -
  obtain nonce where "fe_Nonce E = Some nonce" using assms(5) by (auto simp: permissive_def)
  then obtain s1 where s1: "SetVersioned A E p n x (vs_Store V) = (None, s1)" "st_keyring s1 = Some kr"
    using SetVersioned_succeeds [OF assms(7) _ _ _ _ _ _ assms(11) valuePath_plain [OF assms(6,2)], of dek nonce A x] assms(5,8)
    by (auto simp: permissive_def xchacha_key_def)
  have d1: "st_dir s1 = st_dir (vs_Store V)" using SetVersioned_frame [OF s1(1)] by simp
  define y where "y = rotated_meta c e m n (rotation_aad c (file_backend A E) p parts n (vs_Store V))"
  define s2 where "s2 = (if evicts y then snd (DeleteVersioned E p (vm_Version (hd (me_Versions y))) s1) else s1)"
  have s2: "st_keyring s2 = Some kr" "st_dir s2 = st_dir (vs_Store V)"
    using s1(2) d1 DeleteVersioned_keyring by (simp_all add: s2_def)
  let ?put = "file_SetMeta E p (if evicts y then evict y else y) s2"
  obtain s3 where s3: "?put = (None, s3)" "st_keyring s3 = Some kr" "st_dir s3 = st_dir (vs_Store V)"
    using file_SetMeta_succeeds [OF assms(5) _ assms(2), of s2] file_SetMeta_keyring [of E p _ s2] s2 assms(6)
    by (metis prod.collapse)
  have emit: "emitVaultEvent c ev W = (None, W\<lparr>vs_Events := vs_Events W @ [ev]\<rparr>)" for ev and W :: "file_state vault_state"
    using assms(4) by (auto simp: recording_def emitVaultEvent_def split: option.splits)
  have ready: "auditReady c" using assms(4) by (auto simp: recording_def auditReady_def split: option.splits)
  have be: "be_SetVersioned (file_backend A E) = SetVersioned A E" "be_SetMeta (file_backend A E) = file_SetMeta E"
    "be_DeleteVersioned (file_backend A E) = DeleteVersioned E" by (simp_all add: file_backend_def)
  have "commit_rotation c (file_backend A E) p e m n (rotation_aad c (file_backend A E) p parts n (vs_Store V)) x V =
      ((n, None), V\<lparr>vs_Store := s3, vs_Events := vs_Events V @ [vault_event (vc_Now c) ''write'' ''ok'' p []]\<rparr>)"
    using s1 s3 by (cases "evicts y") (simp_all add: commit_rotation_def be Let_def y_def [symmetric] s2_def emit)
  then show ?thesis using assms(1,3,9,10) ready s3
    by (auto simp: RotateValue_def Let_def)
qed

subsection \<open>A rotation that loses a version\<close>

text \<open>When the cap is reached and the metadata cannot be written, the rotation reports the failure and leaves the
  metadata as it was, but the ciphertext of the oldest version is gone: a listed, live version can no longer be
  read.\<close>

theorem failed_rotation_loses_oldest:
  assumes "canonicalizePath resolve path = Inr p" "plain_path p" "Parts p = Inr parts" "auditReady c"
    "IsAbs (st_dir (vs_Store V))" "file_GetMeta E p (vs_Store V) = Inr e" "meta_wf e" "me_CurrentVersion e < max_int64"
    "0 < version_limit (Some e) m" "version_limit (Some e) m \<le> int (length (me_Versions e))"
    "SetVersioned A E p (me_CurrentVersion e + 1) x (vs_Store V) = (None, s1)"
    "metadataPath (st_dir (vs_Store V)) p = Inr f" "\<not> fe_WriteOk E f" "\<forall>q. fe_RemoveOk E q"
  shows "\<exists>V' err. RotateValue resolve c (Some (file_backend A E)) path x m V = ((0, Some err), V') \<and>
    stored_meta (vs_Store V') p = Some e \<and>
    (\<exists>err. GetVersioned A E' p (vm_Version (hd (me_Versions e))) (vs_Store V') = Inl err)"
proof -
  let ?old = "vm_Version (hd (me_Versions e))" and ?n = "me_CurrentVersion e + 1"
  have ne: "me_Versions e \<noteq> []" using assms(7) by (simp add: meta_wf_def)
  then have bound: "?old \<le> me_CurrentVersion e" "1 \<le> me_CurrentVersion e"
    using meta_wf_bound [OF assms(7)] hd_in_set by blast+
  have n: "wrap64 ?n = ?n" using max_version_wrap [OF assms(8)] bound(2) by simp
  define y where "y = rotated_meta c e m ?n (rotation_aad c (file_backend A E) p parts ?n (vs_Store V))"
  have ev: "evicts y" using assms(9,10) by (auto simp: evicts_def y_def version_limit_def split: if_splits)
  have hd: "vm_Version (hd (me_Versions y)) = ?old" using ne by (simp add: y_def)
  define s2 where "s2 = snd (DeleteVersioned E p ?old s1)"
  have d: "st_dir s1 = st_dir (vs_Store V)" "st_dir s2 = st_dir (vs_Store V)"
    using SetVersioned_frame [OF assms(11)] DeleteVersioned_keyring by (simp_all add: s2_def)
  define err where "err = (if fe_MkdirOk E then WriteFailed f else MkdirFailed)"
  have g: "file_SetMeta E p g' s2 = (Some err, s2)" for g'
    using assms(12,13) d by (simp add: file_SetMeta_def atomicWrite_def err_def)
  define s3 where "s3 = snd (DeleteVersioned E p ?n s2)"
  have be: "be_SetVersioned (file_backend A E) = SetVersioned A E" "be_SetMeta (file_backend A E) = file_SetMeta E"
    "be_DeleteVersioned (file_backend A E) = DeleteVersioned E" "be_GetMeta (file_backend A E) = file_GetMeta E"
    by (simp_all add: file_backend_def)
  have r: "RotateValue resolve c (Some (file_backend A E)) path x m V = ((0, Some (BackendError err)), V\<lparr>vs_Store := s3\<rparr>)"
    using assms(1,3,4,6,11) n ev hd g
    by (simp add: RotateValue_def load_or_init_def be commit_rotation_def Let_def y_def [symmetric] s2_def [symmetric] s3_def)
  obtain a where a: "valuePath (st_dir (vs_Store V)) p ?old = Inr a" using valuePath_plain [OF assms(5,2)] by blast
  obtain b where b: "valuePath (st_dir (vs_Store V)) p ?n = Inr b" using valuePath_plain [OF assms(5,2)] by blast
  have "map_of (st_fs s2) a = None" using a d assms(14)
    by (auto simp: s2_def DeleteVersioned_def remove_file_def delete_conv split: option.splits)
  moreover have "a \<noteq> b" using version_files_disjoint [OF assms(5,2,2) a b] bound(1) by (auto simp: version_files_def)
  ultimately have "map_of (st_fs s3) a = None"
    using DeleteVersioned_frame [OF prod.collapse [symmetric], of E p ?n s2 a] b d by (auto simp: s3_def)
  moreover have "st_dir s3 = st_dir (vs_Store V)" using DeleteVersioned_keyring d by (simp add: s3_def)
  ultimately have "GetVersioned A E' p ?old s3 \<noteq> Inr z" for z using a by (auto elim!: GetVersioned_Inr)
  then have "\<exists>err. GetVersioned A E' p ?old s3 = Inl err" by (metis sum.exhaust)
  moreover have "stored_meta s3 p = Some e"
  proof -
    have "stored_meta s1 p = stored_meta (vs_Store V) p" "stored_meta s2 p = stored_meta s1 p" "stored_meta s3 p = stored_meta s2 p"
      using file_meta.set_meta [OF assms(5,2), of A E ?n x None s1] file_meta.del_meta_snd [of s1 p A E ?old]
        file_meta.del_meta_snd [of s2 p A E ?n] assms(2,5,11) d by (simp_all add: be s2_def s3_def)
    then show ?thesis using file_meta.get_found [of A E p "vs_Store V" e] assms(6) by (simp add: be)
  qed
  ultimately show ?thesis using r by auto
qed

subsection \<open>Runs\<close>

text \<open>Every sequence of rotations, destructions and rollbacks, in whatever environments, keeps the metadata
  of all secrets in order: versions listed in ascending order, the current one last and never destroyed, and
  destroyed exactly the versions recorded as such.\<close>

theorem vault_metadata_invariant:
  assumes "\<forall>(c, E, opn) \<in> set ops. op_ok resolve (op_path opn)" "IsAbs (st_dir (vs_Store V))" "stored_wf k (vs_Store V)"
    "0 \<le> k" "k + int (length ops) \<le> max_int64"
  shows "stored_wf (k + int (length ops)) (vs_Store (vault_exec resolve A ops V))"
  using vault_exec_wf [OF assms] by simp

text \<open>C9: A destroyed version is never read again: after \<open>DestroyVersion\<close> succeeded, whatever rotations,
  destructions and rollbacks follow and whatever files are left behind, \<open>GetVersion\<close> fails for it.\<close>

theorem destroyed_version_gone:
  assumes "DestroyVersion resolve c (Some (file_backend A E)) path v V = (None, V1)" "canonicalizePath resolve path = Inr p"
    "plain_path p" "IsAbs (st_dir (vs_Store V))" "stored_wf k (vs_Store V)" "0 \<le> k"
    "\<forall>(c, E, opn) \<in> set ops. op_ok resolve (op_path opn)" "k + 1 + int (length ops) \<le> max_int64"
  shows "\<exists>e. GetVersion resolve (Some (file_backend A E')) path v (vault_exec resolve A ops V1) = Inl e"
proof -
  let ?V2 = "vault_exec resolve A ops V1"
  have d: "IsAbs (st_dir (vs_Store V1)) \<and> stored_wf (k + 1) (vs_Store V1)"
    using file_meta.destroy_metas [OF assms(1,2,4,3) assms(5) [folded file_metas]] by (simp add: file_metas)
  obtain m i where "stored_meta (vs_Store V1) p = Some (destroyed_meta c m i v)"
    using file_meta.destroy_meta [OF assms(1,2,4,3)] by auto
  moreover have r: "stored_wf (k + 1 + int (length ops)) (vs_Store ?V2) \<and> destroyed_kept (vs_Store V1) (vs_Store ?V2)"
    using vault_exec_wf [OF assms(7), of V1 "k + 1"] d assms(6,8) by simp
  ultimately obtain m' where m': "stored_meta (vs_Store ?V2) p = Some m'" "v \<in> set (me_DestroyedVersions m')"
    using assms(3) by (fastforce simp: destroyed_kept_def)
  show ?thesis
    using file_meta.destroyed_unreadable [OF _ assms(3) m'(1,2) assms(2)] r by (auto simp: file_metas)
qed

subsection \<open>A concrete vault\<close>

definition openai_path :: gostring where "openai_path = ''default/ai/openai/key''"

definition sample_ctx :: vault_ctx where
  "sample_ctx = \<lparr>vc_Emitter = Some \<lparr>em_Ready = True, em_Records = (\<lambda>_. True)\<rparr>, vc_Now = 0, vc_Accessor = ''acc''\<rparr>"

definition empty_vault :: "file_state vault_state" where
  "empty_vault = \<lparr>vs_Store = sample_state, vs_Events = []\<rparr>"

abbreviation no_provider :: category_resolver where "no_provider \<equiv> (\<lambda>_. None)"

abbreviation sample_backend :: "file_state backend" where
  "sample_backend \<equiv> file_backend sample_aead (sample_env 0 0)"

lemma openai_canonical: "canonicalizePath no_provider openai_path = Inr openai_path"
proof -
  have "valid_utf8 openai_path" by (rule valid_utf8_ascii) (simp add: openai_path_def ascii_def byte_of_def)
  moreover have "\<not> Contains openai_path ''..''" "\<not> HasPrefix openai_path ''/''" "\<not> HasSuffix openai_path ''/''"
    "count_list openai_path (CHR ''/'') = 3" "[] \<notin> set (SplitN 4 openai_path (CHR ''/''))" "CHR 0x00 \<notin> set openai_path"
    "openai_path \<noteq> []" by code_simp+
  ultimately show ?thesis by (simp add: canonicalizePath_def Canonicalize_def)
qed

lemma openai_parts: "\<exists>parts. Parts openai_path = Inr parts"
proof -
  have "(case Parts openai_path of Inl _ \<Rightarrow> False | Inr _ \<Rightarrow> True)" by code_simp
  then show ?thesis by (cases "Parts openai_path") auto
qed

lemma openai_plain: "plain_path openai_path"
  using sample_path by (simp add: openai_path_def)

lemma sample_binding_version:
  assumes "st_dir st = ''/v''" "1 \<le> n" "n \<le> max_int64"
  shows "binding_ok (version_binding st vault_keyring openai_path n t)"
  using assms sample_binding_ok [of t] by (auto simp: binding_ok_def version_binding_def openai_path_def file_ID_def sample_state_def min_int64_def)

lemma sample_key: "xchacha_key vault_keyring (replicate 32 CHR ''k'')"
  by (simp add: xchacha_key_def vault_keyring_def new_file_def)

lemma sample_permissive: "permissive (sample_env 0 0)" "recording sample_ctx"
  by (simp_all add: permissive_def sample_env_def recording_def sample_ctx_def)

lemma sample_file_ok:
  "IsAbs (st_dir st) \<Longrightarrow> st_keyring st = Some vault_keyring \<Longrightarrow> file_ok sample_aead (sample_env 0 0) st"
  using sample_aead_correct sample_time_format_ok
  by (simp add: file_ok_def sample_env_def keyring_settled_def vault_keyring_def new_file_def sample_aead_def)

lemma empty_vault_wf: "stored_wf k (vs_Store empty_vault)"
  by (auto simp: stored_wf_def stored_meta_def empty_vault_def sample_state_def split: sum.splits)

lemma empty_vault_simps: "st_dir (vs_Store empty_vault) = ''/v''" "IsAbs (st_dir (vs_Store empty_vault))"
  "st_keyring (vs_Store empty_vault) = Some vault_keyring"
  by (simp_all add: empty_vault_def sample_state_def IsAbs_def HasPrefix_def)

text \<open>Rotation in a vault of which only the key, the directory and the current version are known.\<close>

lemma sample_rotate:
  assumes "st_dir (vs_Store V) = ''/v''" "st_keyring (vs_Store V) = Some vault_keyring"
    "load_or_init sample_ctx sample_backend openai_path (vs_Store V) = Inr e" "0 \<le> me_CurrentVersion e" "me_CurrentVersion e < max_int64"
  shows "\<exists>V'. RotateValue no_provider sample_ctx (Some sample_backend) openai_path x m V = ((me_CurrentVersion e + 1, None), V') \<and>
    st_keyring (vs_Store V') = Some vault_keyring \<and> st_dir (vs_Store V') = ''/v''"
proof -
  obtain parts where parts: "Parts openai_path = Inr parts" using openai_parts by blast
  have w: "me_CurrentVersion e + 1 = wrap64 (me_CurrentVersion e + 1)" using max_version_wrap [OF assms(5,4)] by simp
  have abs: "IsAbs (st_dir (vs_Store V))" using assms(1) by (simp add: IsAbs_def HasPrefix_def)
  show ?thesis
    using rotation_succeeds [OF openai_canonical openai_plain parts sample_permissive(2,1) abs assms(2) sample_key assms(3) w
        sample_binding_version [OF assms(1)], of x m] assms by auto
qed

lemma empty_load: "load_or_init sample_ctx sample_backend openai_path (vs_Store empty_vault) = Inr (new_meta sample_ctx ''file'' openai_path)"
proof -
  have "metadataPath ''/v'' openai_path \<noteq> Inl e" for e
    using metadataPath_plain [OF _ openai_plain, of "''/v''"] by (simp add: IsAbs_def HasPrefix_def)
  then show ?thesis
    by (auto simp: load_or_init_def file_backend_def file_GetMeta_def getMetaFromDisk_def empty_vault_def sample_state_def
        split: sum.splits)
qed

lemma first_rotation:
  "\<exists>V'. RotateValue no_provider sample_ctx (Some sample_backend) openai_path ''one'' (rollback_meta 0) empty_vault = ((1, None), V') \<and>
     st_keyring (vs_Store V') = Some vault_keyring \<and> st_dir (vs_Store V') = ''/v''"
  using sample_rotate [OF empty_vault_simps(1,3) empty_load] by (simp add: new_meta_def max_int64_def)


lemma stored_GetMeta: "fe_ReadOk E f \<Longrightarrow> metadataPath (st_dir st) p = Inr f \<Longrightarrow> stored_meta st p = Some m \<Longrightarrow> file_GetMeta E p st = Inr m"
  by (auto simp: file_GetMeta_def getMetaFromDisk_def stored_meta_def split: option.splits content.splits)

text \<open>What is known of the vault after a rotation: its key and directory, well-formed metadata and the history.\<close>

definition sample_vault :: "int \<Rightarrow> file_state vault_state \<Rightarrow> history \<Rightarrow> bool" where
  "sample_vault k V h \<longleftrightarrow> st_keyring (vs_Store V) = Some vault_keyring \<and> st_dir (vs_Store V) = ''/v'' \<and> stored_wf k (vs_Store V) \<and>
     (\<forall>m. stored_meta (vs_Store V) openai_path = Some m \<longrightarrow> me_MaxVersions m = 5) \<and>
     file_history sample_aead (sample_env 0 0) (vs_Store V) openai_path = h"

lemma limit_kept:
  assumes "RotateValue no_provider sample_ctx (Some sample_backend) openai_path x (rollback_meta v) V = (r, V')"
    "IsAbs (st_dir (vs_Store V))" "\<forall>m. stored_meta (vs_Store V) openai_path = Some m \<longrightarrow> me_MaxVersions m = 5"
    "stored_meta (vs_Store V') openai_path = Some m"
  shows "me_MaxVersions m = 5"
proof -
  have mx: "me_MaxVersions (evict y) = me_MaxVersions y" for y by (simp add: evict_def)
  have new: "me_MaxVersions (new_meta sample_ctx (be_Name sample_backend) openai_path) = 5"
    by (simp add: new_meta_def DefaultMaxVersions_def)
  have rb: "me_MaxVersions (rollback_meta v) = 0" by (simp add: rollback_meta_def)
  show ?thesis
    using file_meta.rotate_meta [OF assms(1) openai_canonical assms(2) openai_plain] assms(3,4)
    by (auto simp: Let_def mx rb new split: if_splits)
qed

lemma sample_vault_meta:
  assumes "sample_vault k V (n, es)" "es \<noteq> []"
  shows "\<exists>m. stored_meta (vs_Store V) openai_path = Some m \<and> be_GetMeta sample_backend openai_path (vs_Store V) = Inr m \<and>
    me_CurrentVersion m = n \<and> meta_wf m \<and> map (slot_of (\<lambda>v. GetVersioned sample_aead (sample_env 0 0) openai_path v (vs_Store V))) (me_Versions m) = es"
proof -
  have abs: "IsAbs (st_dir (vs_Store V))" using assms(1) by (simp add: sample_vault_def IsAbs_def HasPrefix_def)
  obtain m where m: "stored_meta (vs_Store V) openai_path = Some m"
    using assms by (cases "stored_meta (vs_Store V) openai_path") (auto simp: sample_vault_def file_history_def history_of_def)
  moreover have "be_GetMeta sample_backend openai_path (vs_Store V) = Inr m"
    using stored_GetMeta [OF _ metadataPath_plain [OF abs openai_plain] m] by (simp add: file_backend_def sample_env_def)
  moreover have "meta_wf m" using assms(1) m openai_plain by (auto simp: sample_vault_def stored_wf_def)
  ultimately show ?thesis using assms(1) by (auto simp: sample_vault_def file_history_def history_of_def)
qed

lemma sample_vault_rotate:
  assumes "sample_vault k V (n, es)" "es \<noteq> []" "n < 99" "length es < 5" "0 \<le> k" "k < max_int64"
  shows "\<exists>V'. RotateValue no_provider sample_ctx (Some sample_backend) openai_path x (rollback_meta 0) V = ((n + 1, None), V') \<and>
    sample_vault (k + 1) V' (n + 1, es @ [(n + 1, Readable (Inr x))])"
proof -
  obtain m where m: "stored_meta (vs_Store V) openai_path = Some m" "be_GetMeta sample_backend openai_path (vs_Store V) = Inr m"
    "me_CurrentVersion m = n" "meta_wf m" using sample_vault_meta [OF assms(1,2)] by blast
  have abs: "IsAbs (st_dir (vs_Store V))" using assms(1) by (simp add: sample_vault_def IsAbs_def HasPrefix_def)
  have n: "1 \<le> n" using m(3,4) meta_wf_bound(2) [OF m(4), of "last (me_Versions m)"] by (auto simp: meta_wf_def)
  obtain V' where r: "RotateValue no_provider sample_ctx (Some sample_backend) openai_path x (rollback_meta 0) V = ((n + 1, None), V')"
    "st_keyring (vs_Store V') = Some vault_keyring" "st_dir (vs_Store V') = ''/v''"
    using sample_rotate [of V m x "rollback_meta 0"] assms(1,3) m(2,3) n
    by (auto simp: sample_vault_def load_or_init_def max_int64_def)
  have f: "file_ok sample_aead (sample_env 0 0) (vs_Store V)" using sample_file_ok abs assms(1) by (simp add: sample_vault_def)
  have wf: "meta_wf e \<and> me_CurrentVersion e < max_int64" if "stored_meta (vs_Store V) openai_path = Some e" for e
    using that m assms(3) by (simp add: max_int64_def)
  have "file_history sample_aead (sample_env 0 0) (vs_Store V') openai_path = spec_rotate 5 x (n, es)"
    using file_versions.rotate_refines [OF r(1) _ openai_canonical f openai_plain wf] m(1) n assms(1)
    by (auto simp: file_history version_limit_def rollback_meta_def sample_vault_def)
  moreover have "stored_wf (k + 1) (vs_Store V')"
    using file_meta.rotate_metas [OF r(1) openai_canonical abs openai_plain, of k] assms(1,5,6)
    by (simp add: file_metas sample_vault_def)
  moreover have "\<forall>m. stored_meta (vs_Store V') openai_path = Some m \<longrightarrow> me_MaxVersions m = 5"
    using limit_kept [OF r(1) abs] assms(1) unfolding sample_vault_def by blast
  ultimately show ?thesis using r assms(4) by (auto simp: sample_vault_def spec_rotate_def Let_def)
qed

lemma one_version: "\<exists>V. sample_vault 1 V (1, [(1, Readable (Inr ''one''))])"
proof -
  obtain V' where r: "RotateValue no_provider sample_ctx (Some sample_backend) openai_path ''one'' (rollback_meta 0) empty_vault = ((1, None), V')"
    "st_keyring (vs_Store V') = Some vault_keyring" "st_dir (vs_Store V') = ''/v''" using first_rotation by blast
  have none: "stored_meta (vs_Store empty_vault) openai_path = None"
    using metadataPath_plain [OF empty_vault_simps(2) openai_plain] by (simp add: stored_meta_def) (simp add: empty_vault_def sample_state_def)
  have f: "file_ok sample_aead (sample_env 0 0) (vs_Store empty_vault)" using sample_file_ok empty_vault_simps by blast
  have "file_history sample_aead (sample_env 0 0) (vs_Store V') openai_path = (1, [(1, Readable (Inr ''one''))])"
    using file_versions.rotate_refines [OF r(1) _ openai_canonical f openai_plain] none
    by (simp add: file_history version_limit_def rollback_meta_def file_history_def history_of_def spec_rotate_def Let_def DefaultMaxVersions_def)
  moreover have "stored_wf 1 (vs_Store V')"
    using file_meta.rotate_metas [OF r(1) openai_canonical empty_vault_simps(2) openai_plain, of 0] empty_vault_wf
    by (simp add: file_metas max_int64_def)
  ultimately show ?thesis using r limit_kept [OF r(1) empty_vault_simps(2)] none by (auto simp: sample_vault_def)
qed

lemma two_versions: "\<exists>V. sample_vault 2 V (2, [(1, Readable (Inr ''one'')), (2, Readable (Inr ''two''))])"
  using one_version sample_vault_rotate [of 1 _ 1 "[(1, Readable (Inr ''one''))]" "''two''"] by (auto simp: max_int64_def)

lemma sample_destroy:
  assumes "sample_vault k V (2, [(1, Readable (Inr ''one'')), (2, Readable (Inr ''two''))])"
  shows "\<exists>V'. DestroyVersion no_provider sample_ctx (Some sample_backend) openai_path 1 V = (None, V')"
proof -
  obtain m where m: "be_GetMeta sample_backend openai_path (vs_Store V) = Inr m" "me_CurrentVersion m = 2"
    "map (slot_of (\<lambda>v. GetVersioned sample_aead (sample_env 0 0) openai_path v (vs_Store V))) (me_Versions m) =
      [(1, Readable (Inr ''one'')), (2, Readable (Inr ''two''))]"
    using sample_vault_meta [OF assms] by auto
  obtain a b where v: "me_Versions m = [a, b]" "vm_Version a = 1" "vm_DestroyedAt a = None"
    using m(3) by (auto simp: slot_of_def map_eq_Cons_conv split: if_splits)
  have abs: "IsAbs (st_dir (vs_Store V))" using assms by (simp add: sample_vault_def IsAbs_def HasPrefix_def)
  have "fst (file_SetMeta (sample_env 0 0) openai_path x (snd (DeleteVersioned (sample_env 0 0) openai_path 1 (vs_Store V)))) = None" for x
    using file_SetMeta_succeeds [OF sample_permissive(1) _ openai_plain] DeleteVersioned_keyring abs by metis
  then obtain s2 where "file_SetMeta (sample_env 0 0) openai_path (destroyed_meta sample_ctx m 0 1)
      (snd (DeleteVersioned (sample_env 0 0) openai_path 1 (vs_Store V))) = (None, s2)" by (metis prod.collapse)
  then have "fst (DestroyVersion no_provider sample_ctx (Some sample_backend) openai_path 1 V) = None"
    using openai_canonical m(1,2) v
    by (simp add: DestroyVersion_def findVersionIdx_def Let_def file_backend_def)
  then show ?thesis by (metis prod.collapse)
qed

theorem destroyed_version_gone_witness:
  "\<exists>V V1 e. DestroyVersion no_provider sample_ctx (Some sample_backend) openai_path 1 V = (None, V1) \<and>
     GetVersion no_provider (Some sample_backend) openai_path 1
       (vault_exec no_provider sample_aead [(sample_ctx, sample_env 0 0, RotateOp openai_path ''three'' (rollback_meta 0))] V1) = Inl e"
proof -
  obtain V V1 where v: "sample_vault 2 V (2, [(1, Readable (Inr ''one'')), (2, Readable (Inr ''two''))])"
    "DestroyVersion no_provider sample_ctx (Some sample_backend) openai_path 1 V = (None, V1)"
    using two_versions sample_destroy by blast
  have abs: "IsAbs (st_dir (vs_Store V))" "stored_wf 2 (vs_Store V)" using v(1) by (simp_all add: sample_vault_def IsAbs_def HasPrefix_def)
  show ?thesis
    using destroyed_version_gone [OF v(2) openai_canonical openai_plain abs] v(2) openai_canonical openai_plain
    by (fastforce simp: op_ok_def max_int64_def)
qed

theorem vault_metadata_invariant_witness:
  "stored_wf 1 (vs_Store (vault_exec no_provider sample_aead
     [(sample_ctx, sample_env 0 0, RotateOp openai_path ''one'' (rollback_meta 0))] empty_vault))"
  using vault_metadata_invariant [OF _ empty_vault_simps(2) empty_vault_wf, of
      "[(sample_ctx, sample_env 0 0, RotateOp openai_path ''one'' (rollback_meta 0))]" no_provider 0] openai_canonical openai_plain
  by (simp add: op_ok_def max_int64_def)

theorem rollback_restores_witness:
  "\<exists>V V'. Rollback no_provider sample_ctx (Some sample_backend) openai_path 1 V = (None, V') \<and>
     last (snd (file_history sample_aead (sample_env 0 0) (vs_Store V') openai_path)) = (3, Readable (Inr ''one''))"
proof -
  let ?h = "(2, [(1, Readable (Inr ''one'')), (2, Readable (Inr ''two''))])"
  obtain V where v: "sample_vault 2 V ?h" using two_versions by blast
  have abs: "IsAbs (st_dir (vs_Store V))" using v by (simp add: sample_vault_def IsAbs_def HasPrefix_def)
  obtain m where m: "be_GetMeta sample_backend openai_path (vs_Store V) = Inr m" "me_CurrentVersion m = 2"
    "map (slot_of (\<lambda>v. GetVersioned sample_aead (sample_env 0 0) openai_path v (vs_Store V))) (me_Versions m) = snd ?h"
    using sample_vault_meta [OF v] by auto
  obtain a where a: "usable_version m 1 = Inr a" "be_GetVersioned sample_backend openai_path 1 (vs_Store V) = Inr ''one''"
    using m(3) by (auto simp: slot_of_def map_eq_Cons_conv usable_version_def findVersion_def file_backend_def split: if_splits)
  obtain V' where "RotateValue no_provider sample_ctx (Some sample_backend) openai_path ''one'' (rollback_meta 1) V = ((3, None), V')"
    using sample_rotate [of V m "''one''" "rollback_meta 1"] v m(1,2) by (auto simp: sample_vault_def load_or_init_def max_int64_def)
  then have r: "Rollback no_provider sample_ctx (Some sample_backend) openai_path 1 V = (None, V')"
    using openai_canonical m(1) a by (simp add: Rollback_def)
  have f: "file_ok sample_aead (sample_env 0 0) (vs_Store V)" "stored_wf 2 (vs_Store V)"
    using sample_file_ok abs v by (simp_all add: sample_vault_def)
  have "file_history sample_aead (sample_env 0 0) (vs_Store V) openai_path = ?h" using v by (simp add: sample_vault_def)
  then show ?thesis
    using rollback_restores [OF r openai_canonical openai_canonical openai_plain f] r by (auto simp: max_int64_def spec_read_def)
qed

text \<open>The same vault with room for two versions only, and no write to the metadata file.\<close>

theorem failed_rotation_loses_oldest_witness:
  "\<exists>E V V' err err'. RotateValue no_provider sample_ctx (Some (file_backend sample_aead E)) openai_path ''three''
       ((rollback_meta 0)\<lparr>me_MaxVersions := 2\<rparr>) V = ((0, Some err), V') \<and>
     GetVersioned sample_aead (sample_env 0 0) openai_path 1 (vs_Store V') = Inl err'"
proof -
  let ?m = "(rollback_meta 0)\<lparr>me_MaxVersions := 2\<rparr>"
  obtain V where v: "sample_vault 2 V (2, [(1, Readable (Inr ''one'')), (2, Readable (Inr ''two''))])" using two_versions by blast
  have abs: "IsAbs (st_dir (vs_Store V))" using v by (simp add: sample_vault_def IsAbs_def HasPrefix_def)
  obtain m where m: "be_GetMeta sample_backend openai_path (vs_Store V) = Inr m" "me_CurrentVersion m = 2" "meta_wf m"
    "map (slot_of (\<lambda>v. GetVersioned sample_aead (sample_env 0 0) openai_path v (vs_Store V))) (me_Versions m) =
      [(1, Readable (Inr ''one'')), (2, Readable (Inr ''two''))]"
    using sample_vault_meta [OF v] by auto
  obtain a b where ab: "me_Versions m = [a, b]" "vm_Version a = 1"
    using m(4) by (auto simp: slot_of_def map_eq_Cons_conv split: if_splits)
  obtain f where f: "metadataPath (st_dir (vs_Store V)) openai_path = Inr f" using metadataPath_plain [OF abs openai_plain] by blast
  define E where "E = (sample_env 0 0)\<lparr>fe_WriteOk := (\<lambda>q. q \<noteq> f)\<rparr>"
  have g: "file_GetMeta E openai_path (vs_Store V) = Inr m"
  proof -
    have "fe_ReadOk E = fe_ReadOk (sample_env 0 0)" by (simp add: E_def)
    then have "file_GetMeta E = file_GetMeta (sample_env 0 0)"
      by (intro ext) (simp only: file_GetMeta_def getMetaFromDisk_def)
    then show ?thesis using m(1) by (simp add: file_backend_def)
  qed
  obtain s1 where s1: "SetVersioned sample_aead E openai_path (me_CurrentVersion m + 1) ''three'' (vs_Store V) = (None, s1)"
  proof -
    obtain p where p: "valuePath (st_dir (vs_Store V)) openai_path 3 = Inr p" using valuePath_plain [OF abs openai_plain] by blast
    have "\<forall>q \<in> set (version_files p). fe_WriteOk E q" using meta_not_version_file [OF abs f p] by (auto simp: E_def)
    then show thesis
      using SetVersioned_succeeds [OF _ _ _ _ _ _ _ sample_binding_version p, of "replicate 32 CHR ''k''" E "''nonce''"]
        that v m(2) sample_key
      by (auto simp: sample_vault_def E_def sample_env_def xchacha_key_def max_int64_def)
  qed
  obtain parts where parts: "Parts openai_path = Inr parts" using openai_parts by blast
  have "auditReady sample_ctx" by (simp add: auditReady_def sample_ctx_def)
  from failed_rotation_loses_oldest [OF openai_canonical openai_plain parts this abs g m(3) _ _ _ s1 f, of ?m "sample_env 0 0"]
  show ?thesis using m(2) ab by (auto simp: E_def sample_env_def max_int64_def version_limit_def)
qed

end
