(* ===== verification/Budget.thy ===== *)
theory Budget
  imports KL_Prelude "HOL-Library.Log_Nat" Complex_Main
begin

section \<open>Budgets (\<open>internal/budget\<close>)\<close>

text \<open>
  \<open>counter.go\<close>: usage per actor, capability and kind of limit in fixed windows, and the atomic
  check-and-record the gateway calls for each request. Amounts are \<open>float64\<close>: the rational numbers with
  every sum rounded to 53 significant bits, ties to even; infinities are left out. The mutex makes each
  operation one step; the time it reads is an argument.
\<close>

subsection \<open>Binary floating point\<close>

type_synonym float64 = rat

definition floor_log2 :: "rat \<Rightarrow> int" where
  "floor_log2 x =
    (let (p, q) = quotient_of x; d = bitlen p - bitlen q in if x < 2 powi d then d - 1 else d)"

definition round_half_even :: "rat \<Rightarrow> int" where
  "round_half_even x =
    (let f = floor x; r = x - of_int f in
     if r < 1 / 2 then f else if r > 1 / 2 then f + 1 else if even f then f else f + 1)"

definition round64 :: "rat \<Rightarrow> float64" where
  "round64 x =
    (if x = 0 then 0
     else let e = max (floor_log2 \<bar>x\<bar> - 52) (-1074)
          in of_int (round_half_even (x / 2 powi e)) * 2 powi e)"

definition fadd :: "float64 \<Rightarrow> float64 \<Rightarrow> float64" where
  "fadd x y = round64 (x + y)"

text \<open>Integers below 2 to the 53 are exact.\<close>

lemma round_half_even_of_int [simp]: "round_half_even (of_int n) = n"
  by (simp add: round_half_even_def)

lemma floor_log2_of_int:
  assumes "0 < n"
  shows "floor_log2 (of_int n) = bitlen n - 1"
proof -
  have one: "bitlen 1 = 1" by (simp add: bitlen_def floorlog_def)
  have "1 \<le> bitlen n" using bitlen_le_iff_power [of n 0] assms by (auto simp: not_le [symmetric])
  moreover have "2 ^ nat (bitlen n - 1) \<le> n" using bitlen_bounds [OF assms] by simp
  then have "of_int (2 ^ nat (bitlen n - 1)) \<le> (of_int n :: rat)" by (simp only: of_int_le_iff)
  ultimately have "\<not> (of_int n :: rat) < 2 powi (bitlen n - 1)" by (simp add: power_int_def)
  then show ?thesis by (simp add: floor_log2_def Let_def quotient_of_int one)
qed

lemma round64_of_int:
  assumes "\<bar>n\<bar> < 2 ^ 53"
  shows "round64 (of_int n) = of_int n"
proof (cases "n = 0")
  case False
  then have n: "0 < \<bar>n\<bar>" by simp
  define e where "e = max (floor_log2 \<bar>of_int n\<bar> - 52) (-1074)"
  have "bitlen \<bar>n\<bar> \<le> 53" using bitlen_le_iff_power [of "\<bar>n\<bar>" 53] assms by simp
  moreover have "floor_log2 \<bar>of_int n :: rat\<bar> = bitlen \<bar>n\<bar> - 1"
    using floor_log2_of_int [OF n] by simp
  ultimately have "e \<le> 0" by (simp add: e_def)
  then obtain k where "e = - int k" using nonpos_int_cases by blast
  then have "(of_int n :: rat) / 2 powi e = of_int (n * 2 ^ k)"
    by (simp add: power_int_minus divide_inverse)
  then have "of_int (round_half_even (of_int n / 2 powi e)) * 2 powi e = (of_int n :: rat) / 2 powi e * 2 powi e"
    by (metis round_half_even_of_int)
  with False show ?thesis by (simp add: round64_def Let_def e_def)
qed (simp add: round64_def)

lemma fadd_of_nat: "k < 2 ^ 53 - 1 \<Longrightarrow> fadd (of_nat k) 1 = of_nat (Suc k)"
  using round64_of_int [of "int k + 1"] by (simp add: fadd_def add.commute)

subsection \<open>The counter\<close>

record budget_policy =
  bp_SpendPerHour :: float64
  bp_SpendPerDay :: float64
  bp_EmailSendsPerHour :: int
  bp_SlackMessagesPerHour :: int
  bp_DNSMutationsPerDay :: int
  bp_AWSActionCount :: int
  bp_StripeRefundAmount :: float64
  bp_DownloadBytesLimit :: int

record window_bucket =
  wb_total :: float64
  wb_windowEnd :: gotime
  wb_duration :: duration
  wb_limit :: float64

definition isExpired :: "window_bucket \<Rightarrow> gotime \<Rightarrow> bool" where
  "isExpired b now = (now > wb_windowEnd b)"

record budget_key =
  bk_actor :: gostring
  bk_capability :: gostring
  bk_limitType :: gostring

record relevant_key =
  rk_key :: budget_key
  rk_limit :: float64
  rk_window :: duration

record budget_counter =
  bc_windows :: "budget_key \<Rightarrow> window_bucket option"
  bc_policy :: budget_policy

definition NewInMemoryBudgetCounter :: "budget_policy \<Rightarrow> budget_counter" where
  "NewInMemoryBudgetCounter p = \<lparr>bc_windows = Map.empty, bc_policy = p\<rparr>"

definition budget_evictExpired :: "gotime \<Rightarrow> budget_counter \<Rightarrow> budget_counter" where
  "budget_evictExpired now c = c\<lparr>bc_windows := (\<lambda>k. case bc_windows c k of None \<Rightarrow> None
     | Some b \<Rightarrow> if isExpired b now then None else Some b)\<rparr>"

text \<open>The eight limits of a policy in the order of the source; \<open>float64(n)\<close> rounds an integer.\<close>

definition relevantKeys :: "budget_policy \<Rightarrow> gostring \<Rightarrow> gostring \<Rightarrow> relevant_key list" where
  "relevantKeys p actor capability =
    (let key = (\<lambda>ty limit window. \<lparr>rk_key = \<lparr>bk_actor = actor, bk_capability = capability, bk_limitType = ty\<rparr>,
                  rk_limit = limit, rk_window = window\<rparr>);
         fl = (\<lambda>n. round64 (of_int n))
     in map snd (filter fst
         [(bp_SpendPerHour p > 0, key ''spend_per_hour'' (bp_SpendPerHour p) Hour),
          (bp_SpendPerDay p > 0, key ''spend_per_day'' (bp_SpendPerDay p) (24 * Hour)),
          (bp_EmailSendsPerHour p > 0, key ''email_sends_per_hour'' (fl (bp_EmailSendsPerHour p)) Hour),
          (bp_SlackMessagesPerHour p > 0, key ''slack_messages_per_hour'' (fl (bp_SlackMessagesPerHour p)) Hour),
          (bp_DNSMutationsPerDay p > 0, key ''dns_mutations_per_day'' (fl (bp_DNSMutationsPerDay p)) (24 * Hour)),
          (bp_AWSActionCount p > 0, key ''aws_action_count'' (fl (bp_AWSActionCount p)) (24 * Hour)),
          (bp_StripeRefundAmount p > 0, key ''stripe_refund_amount'' (bp_StripeRefundAmount p) (24 * Hour)),
          (bp_DownloadBytesLimit p > 0, key ''download_bytes'' (fl (bp_DownloadBytesLimit p)) (24 * Hour))]))"

text \<open>The check over the keys: \<open>True\<close> when some live window would go over its limit.\<close>

fun over_limit :: "(budget_key \<Rightarrow> window_bucket option) \<Rightarrow> gotime \<Rightarrow> float64 \<Rightarrow> relevant_key list \<Rightarrow> bool" where
  "over_limit ws now amount [] = False"
| "over_limit ws now amount (kv # kvs) =
    (case ws (rk_key kv) of
       Some b \<Rightarrow>
         if isExpired b now then over_limit ws now amount kvs
         else if fadd (wb_total b) amount > rk_limit kv then True
         else over_limit ws now amount kvs
     | None \<Rightarrow> over_limit ws now amount kvs)"

datatype budget_error = ErrBudgetExceeded

definition budget_Check :: "gotime \<Rightarrow> gostring \<Rightarrow> gostring \<Rightarrow> float64 \<Rightarrow> budget_counter \<Rightarrow> budget_error option" where
  "budget_Check now actor capability amount c =
    (if over_limit (bc_windows c) now amount (relevantKeys (bc_policy c) actor capability)
     then Some ErrBudgetExceeded else None)"

definition record_key ::
  "gotime \<Rightarrow> float64 \<Rightarrow> relevant_key \<Rightarrow> (budget_key \<Rightarrow> window_bucket option) \<Rightarrow> budget_key \<Rightarrow> window_bucket option" where
  "record_key now amount kv ws =
    (let fresh = \<lparr>wb_total = 0, wb_windowEnd = now + rk_window kv, wb_duration = rk_window kv, wb_limit = rk_limit kv\<rparr>;
         b = (case ws (rk_key kv) of None \<Rightarrow> fresh | Some b \<Rightarrow> if isExpired b now then fresh else b)
     in ws(rk_key kv \<mapsto> b\<lparr>wb_total := fadd (wb_total b) amount\<rparr>))"

definition recordLocked :: "gotime \<Rightarrow> gostring \<Rightarrow> gostring \<Rightarrow> float64 \<Rightarrow> budget_counter \<Rightarrow> budget_counter" where
  "recordLocked now actor capability amount c =
    c\<lparr>bc_windows := fold (record_key now amount) (relevantKeys (bc_policy c) actor capability) (bc_windows c)\<rparr>"

definition CheckAndRecord ::
  "gotime \<Rightarrow> gostring \<Rightarrow> gostring \<Rightarrow> float64 \<Rightarrow> budget_counter \<Rightarrow> budget_error option \<times> budget_counter" where
  "CheckAndRecord now actor capability amount c =
    (if over_limit (bc_windows c) now amount (relevantKeys (bc_policy c) actor capability)
     then (Some ErrBudgetExceeded, c)
     else (None, recordLocked now actor capability amount c))"

definition budget_Record :: "gotime \<Rightarrow> gostring \<Rightarrow> gostring \<Rightarrow> float64 \<Rightarrow> budget_counter \<Rightarrow> budget_counter" where
  "budget_Record now actor capability amount c = recordLocked now actor capability amount c"

subsection \<open>What one call does to the windows\<close>

lemma over_limit_iff:
  "over_limit ws now amount kvs \<longleftrightarrow>
    (\<exists>kv \<in> set kvs. \<exists>b. ws (rk_key kv) = Some b \<and> \<not> isExpired b now \<and> fadd (wb_total b) amount > rk_limit kv)"
  by (induction kvs) (auto split: option.splits)

lemma relevantKeys_key:
  "kv \<in> set (relevantKeys p actor cap) \<Longrightarrow> bk_actor (rk_key kv) = actor \<and> bk_capability (rk_key kv) = cap \<and> 0 < rk_window kv"
proof -
  have l: "kv \<in> set (map snd (filter fst xs)) \<Longrightarrow> list_all (\<lambda>x. P (snd x)) xs \<Longrightarrow> P kv"
    for xs :: "(bool \<times> relevant_key) list" and P by (auto simp: list_all_iff)
  assume "kv \<in> set (relevantKeys p actor cap)"
  then show ?thesis unfolding relevantKeys_def Let_def
    by (rule l) (simp add: Hour_def Minute_def Second_def)
qed

lemma relevantKeys_distinct: "distinct (map rk_key (relevantKeys p actor cap))"
proof -
  have d: "distinct (map (rk_key \<circ> snd) (filter fst xs))" if "distinct (map (rk_key \<circ> snd) xs)"
    for xs :: "(bool \<times> relevant_key) list"
    using that by (rule distinct_map_filter)
  show ?thesis unfolding relevantKeys_def Let_def map_map by (rule d) simp
qed

lemma record_key_other: "k \<noteq> rk_key kv \<Longrightarrow> record_key now amount kv ws k = ws k"
  by (simp add: record_key_def Let_def)

lemma record_key_cong: "ws (rk_key kv) = vs (rk_key kv) \<Longrightarrow> record_key now amount kv ws (rk_key kv) = record_key now amount kv vs (rk_key kv)"
  by (simp add: record_key_def Let_def)

lemma fold_record_other: "k \<notin> rk_key ` set kvs \<Longrightarrow> fold (record_key now amount) kvs ws k = ws k"
  by (induction kvs arbitrary: ws) (simp_all add: record_key_other)

lemma fold_record_key:
  assumes "distinct (map rk_key kvs)" "kv \<in> set kvs"
  shows "fold (record_key now amount) kvs ws (rk_key kv) = record_key now amount kv ws (rk_key kv)"
  using assms
proof (induction kvs arbitrary: ws)
  case (Cons x kvs)
  show ?case
  proof (cases "kv = x")
    case True
    then show ?thesis using Cons.prems by (simp add: fold_record_other)
  next
    case False
    then have "rk_key kv \<noteq> rk_key x" using Cons.prems by (auto simp: image_iff)
    then show ?thesis using False Cons by (auto intro!: record_key_cong simp: record_key_other)
  qed
qed simp

subsection \<open>A history of calls\<close>

text \<open>Requests of amount one, as the gateway makes them, and sweeps of the eviction loop.\<close>

datatype budget_event = BCall gotime gostring gostring | BEvict gotime

primrec event_time :: "budget_event \<Rightarrow> gotime" where
  "event_time (BCall t actor cap) = t"
| "event_time (BEvict t) = t"

fun budget_step ::
  "budget_event \<Rightarrow> (gotime \<times> gostring \<times> gostring) list \<times> budget_counter \<Rightarrow> (gotime \<times> gostring \<times> gostring) list \<times> budget_counter" where
  "budget_step (BCall t actor cap) (A, c) =
    (case CheckAndRecord t actor cap 1 c of (None, c') \<Rightarrow> (A @ [(t, actor, cap)], c') | (Some _, c') \<Rightarrow> (A, c'))"
| "budget_step (BEvict t) (A, c) = (A, budget_evictExpired t c)"

definition budget_run :: "budget_policy \<Rightarrow> budget_event list \<Rightarrow> (gotime \<times> gostring \<times> gostring) list \<times> budget_counter" where
  "budget_run p es = fold budget_step es ([], NewInMemoryBudgetCounter p)"

text \<open>The times at which requests of one actor for one capability were admitted.\<close>

definition admitted :: "gostring \<Rightarrow> gostring \<Rightarrow> (gotime \<times> gostring \<times> gostring) list \<Rightarrow> gotime list" where
  "admitted actor cap A = map fst (filter (\<lambda>x. snd x = (actor, cap)) A)"

definition since :: "gotime \<Rightarrow> gotime list \<Rightarrow> nat" where
  "since t0 ts = length (filter (\<lambda>t. t0 \<le> t) ts)"

text \<open>A window of one limit at time \<open>T\<close> against the admissions \<open>ts\<close>: it counts those since it opened.\<close>

definition window_ok :: "relevant_key \<Rightarrow> gotime \<Rightarrow> gotime list \<Rightarrow> window_bucket option \<Rightarrow> bool" where
  "window_ok kv T ts w =
    (case w of None \<Rightarrow> \<forall>t \<in> set ts. t < T
     | Some b \<Rightarrow> (\<forall>t \<in> set ts. t \<le> wb_windowEnd b) \<and> wb_windowEnd b - rk_window kv \<le> T \<and>
        wb_total b = of_nat (since (wb_windowEnd b - rk_window kv) ts) \<and>
        int (since (wb_windowEnd b - rk_window kv) ts) \<le> max 1 \<lfloor>rk_limit kv\<rfloor>)"

lemma window_ok_later: "window_ok kv T ts w \<Longrightarrow> T \<le> T' \<Longrightarrow> window_ok kv T' ts w"
  by (force simp: window_ok_def split: option.splits)

lemma window_ok_evict:
  "window_ok kv T ts w \<Longrightarrow> T \<le> T' \<Longrightarrow>
   window_ok kv T' ts (case w of None \<Rightarrow> None | Some b \<Rightarrow> if isExpired b T' then None else Some b)"
  by (force simp: window_ok_def isExpired_def split: option.splits)

lemma window_ok_fresh:
  assumes "\<forall>t \<in> set ts. t < T" "0 < rk_window kv"
    and "wb_windowEnd b = T + rk_window kv" "wb_total b = fadd 0 1"
  shows "window_ok kv T (ts @ [T]) (Some b)"
proof -
  have "filter ((\<le>) T) ts = []" using assms(1) by (auto simp: filter_empty_conv)
  moreover have "fadd 0 1 = 1" using fadd_of_nat [of 0] by simp
  ultimately show ?thesis using assms by (force simp: window_ok_def since_def)
qed

lemma window_ok_live:
  assumes "window_ok kv T ts (Some b)" "T \<le> T'" "\<not> isExpired b T'"
    and "fadd (wb_total b) 1 \<le> rk_limit kv" "rk_limit kv < 2 ^ 53 - 1"
  shows "window_ok kv T' (ts @ [T']) (Some (b\<lparr>wb_total := fadd (wb_total b) 1\<rparr>))"
proof -
  define n where "n = since (wb_windowEnd b - rk_window kv) ts"
  have tot: "wb_total b = of_nat n" and le: "int n \<le> max 1 \<lfloor>rk_limit kv\<rfloor>"
    using assms(1) by (simp_all add: window_ok_def n_def)
  have "\<lfloor>rk_limit kv\<rfloor> < 2 ^ 53 - 1" using assms(5) by (simp add: floor_less_iff)
  moreover have "(1 :: int) < 2 ^ 53 - 1" by simp
  ultimately have "int n < 2 ^ 53 - 1" using le by (meson le_less_trans max_less_iff_conj)
  then have "n < 2 ^ 53 - 1" by simp
  then have sum: "fadd (wb_total b) 1 = of_nat (Suc n)" using fadd_of_nat tot by metis
  then have "(of_int (int (Suc n)) :: rat) \<le> rk_limit kv" using assms(4) by simp
  then have "int (Suc n) \<le> \<lfloor>rk_limit kv\<rfloor>" by (simp only: le_floor_iff)
  moreover have "since (wb_windowEnd b - rk_window kv) (ts @ [T']) = Suc n"
    using assms(1,2) by (simp add: window_ok_def since_def n_def)
  ultimately show ?thesis using assms(1-3) sum
    by (auto simp: window_ok_def isExpired_def)
qed

lemma window_ok_record:
  assumes "window_ok kv T ts (ws (rk_key kv))" "T \<le> T'" "0 < rk_window kv" "rk_limit kv < 2 ^ 53 - 1"
    and "\<And>b. ws (rk_key kv) = Some b \<Longrightarrow> \<not> isExpired b T' \<Longrightarrow> fadd (wb_total b) 1 \<le> rk_limit kv"
  shows "window_ok kv T' (ts @ [T']) (record_key T' 1 kv ws (rk_key kv))"
proof (cases "\<exists>b. ws (rk_key kv) = Some b \<and> \<not> isExpired b T'")
  case True
  then show ?thesis using assms window_ok_live [of kv T ts _ T'] by (auto simp: record_key_def)
next
  case False
  have "\<forall>t \<in> set ts. t < T'"
    using False assms(1,2) by (force simp: window_ok_def isExpired_def split: option.splits)
  then show ?thesis using False assms(3)
    by (auto simp: record_key_def Let_def split: option.splits intro!: window_ok_fresh)
qed

text \<open>The whole counter: every window of every limit below the exact range counts correctly.\<close>

definition counter_ok :: "budget_policy \<Rightarrow> gotime \<Rightarrow> (gotime \<times> gostring \<times> gostring) list \<times> budget_counter \<Rightarrow> bool" where
  "counter_ok p T s = (bc_policy (snd s) = p \<and>
    (\<forall>actor cap. \<forall>kv \<in> set (relevantKeys p actor cap).
       rk_limit kv < 2 ^ 53 - 1 \<longrightarrow> window_ok kv T (admitted actor cap (fst s)) (bc_windows (snd s) (rk_key kv))))"

lemma counter_ok_call:
  assumes ok: "counter_ok p T (A, c)" and T: "T \<le> t"
  shows "counter_ok p t (budget_step (BCall t actor cap) (A, c))"
proof (cases "over_limit (bc_windows c) t 1 (relevantKeys p actor cap)")
  case True
  then show ?thesis using ok T window_ok_later
    by (fastforce simp: counter_ok_def CheckAndRecord_def)
next
  case False
  have p: "bc_policy c = p" using ok by (simp add: counter_ok_def)
  define ws where "ws = fold (record_key t 1) (relevantKeys p actor cap) (bc_windows c)"
  have "window_ok kv t (admitted a cp (A @ [(t, actor, cap)])) (ws (rk_key kv))"
    if kv: "kv \<in> set (relevantKeys p a cp)" and l: "rk_limit kv < 2 ^ 53 - 1" for a cp kv
  proof (cases "(a, cp) = (actor, cap)")
    case True
    have "window_ok kv t (admitted a cp A @ [t]) (record_key t 1 kv (bc_windows c) (rk_key kv))"
      using ok T kv l False True relevantKeys_key [OF kv]
      by (intro window_ok_record [of _ T]) (auto simp: counter_ok_def over_limit_iff not_less)
    moreover have "ws (rk_key kv) = record_key t 1 kv (bc_windows c) (rk_key kv)"
      using fold_record_key [OF relevantKeys_distinct] kv True by (simp add: ws_def)
    ultimately show ?thesis using True by (simp add: admitted_def)
  next
    case False
    then have "rk_key kv \<notin> rk_key ` set (relevantKeys p actor cap)"
      using relevantKeys_key [OF kv] relevantKeys_key [of _ p actor cap] by auto
    then have "ws (rk_key kv) = bc_windows c (rk_key kv)" by (simp add: ws_def fold_record_other)
    moreover have "window_ok kv t (admitted a cp A) (bc_windows c (rk_key kv))"
      using kv l ok by (intro window_ok_later [OF _ T]) (simp add: counter_ok_def)
    moreover have "admitted a cp (A @ [(t, actor, cap)]) = admitted a cp A"
      using False by (auto simp: admitted_def)
    ultimately show ?thesis by simp
  qed
  then show ?thesis using False p
    by (simp add: counter_ok_def CheckAndRecord_def recordLocked_def ws_def)
qed

lemma counter_ok_step:
  assumes "counter_ok p T s" "T \<le> event_time e"
  shows "counter_ok p (event_time e) (budget_step e s)"
proof (cases e)
  case (BCall t actor cap)
  then show ?thesis using assms counter_ok_call [of p T "fst s" "snd s"] by simp
next
  case (BEvict t)
  then show ?thesis using assms
    by (cases s) (auto simp: counter_ok_def budget_evictExpired_def intro!: window_ok_evict [of _ T])
qed

lemma counter_ok_run:
  "counter_ok p T s \<Longrightarrow> sorted (T # map event_time es) \<Longrightarrow> counter_ok p (last (T # map event_time es)) (fold budget_step es s)"
proof (induction es arbitrary: T s)
  case (Cons e es)
  then have "counter_ok p (event_time e) (budget_step e s)" using counter_ok_step by simp
  with Cons show ?case by simp
qed simp

lemma counter_ok_new: "counter_ok p T ([], NewInMemoryBudgetCounter p)"
  by (simp add: counter_ok_def NewInMemoryBudgetCounter_def admitted_def window_ok_def)

subsection \<open>Properties\<close>


lemma fadd_small: "fadd 0 1 = 1" "fadd 1 1 = 2" "fadd 2 1 = 3"
  using fadd_of_nat [of 0] fadd_of_nat [of 1] fadd_of_nat [of 2] by simp_all

definition sample_budget :: budget_policy where
  "sample_budget = \<lparr>bp_SpendPerHour = 2, bp_SpendPerDay = 0, bp_EmailSendsPerHour = 0, bp_SlackMessagesPerHour = 0,
     bp_DNSMutationsPerDay = 0, bp_AWSActionCount = 0, bp_StripeRefundAmount = 0, bp_DownloadBytesLimit = 0\<rparr>"

definition sample_limit :: relevant_key where
  "sample_limit = \<lparr>rk_key = \<lparr>bk_actor = ''bob'', bk_capability = ''c'', bk_limitType = ''spend_per_hour''\<rparr>,
     rk_limit = 2, rk_window = Hour\<rparr>"

lemma sample_budget_keys: "relevantKeys sample_budget ''bob'' ''c'' = [sample_limit]"
  by (simp add: relevantKeys_def sample_budget_def sample_limit_def)

definition sample_bucket :: window_bucket where
  "sample_bucket = \<lparr>wb_total = 2, wb_windowEnd = 1 + Hour, wb_duration = Hour, wb_limit = 2\<rparr>"

lemma sample_budget_run:
  "budget_run sample_budget [BCall 1 ''bob'' ''c'', BCall 2 ''bob'' ''c'', BCall 3 ''bob'' ''c''] =
    ([(1, ''bob'', ''c''), (2, ''bob'', ''c'')],
     \<lparr>bc_windows = [rk_key sample_limit \<mapsto> sample_bucket], bc_policy = sample_budget\<rparr>)"
  by (simp add: budget_run_def NewInMemoryBudgetCounter_def CheckAndRecord_def recordLocked_def sample_budget_keys
      record_key_def Let_def isExpired_def fadd_small sample_bucket_def Hour_def Minute_def Second_def)
    (simp add: sample_limit_def Hour_def Minute_def Second_def)


end
