(* ===== verification/Gateway_Http.thy ===== *)
theory Gateway_Http
  imports Json_Text "HOL-Library.Word"
begin

section \<open>Requests, headers and middleware of the gateway (\<open>internal/gateway\<close>)\<close>

text \<open>
  What the gateway uses of \<open>net/http\<close> and the checks it wraps around its handler: \<open>auth_blocker.go\<close>,
  \<open>host_override_blocker.go\<close>, \<open>untrusted_write_gate.go\<close>, \<open>reserveApprovalPaths\<close> of \<open>server.go\<close>,
  \<open>upstream_headers.go\<close>, \<open>ssrf_gate.go\<close> with the tables of \<open>registry/provider_baseurls.go\<close>, and
  \<open>substitution/substitution.go\<close>. A handler takes a request and a world and gives the response and the
  world after it. A query is the list of its decoded parameters; a body is its bytes and whether reading it
  ends in an error.
\<close>

subsection \<open>Headers\<close>

type_synonym http_header = "(gostring \<times> gostring list) list"

definition header_byte :: "char \<Rightarrow> bool" where
  "header_byte c = (is_lower c \<or> is_upper c \<or> is_digit c \<or> c \<in> set ''!#$%&*+-.^_|~'' \<or> byte_of c \<in> {39, 96})"

definition upper_char :: "char \<Rightarrow> char" where
  "upper_char c = (if is_lower c then char_of (byte_of c - 32) else c)"

fun canonical_loop :: "bool \<Rightarrow> gostring \<Rightarrow> gostring" where
  "canonical_loop up [] = []"
| "canonical_loop up (c # s) = (if up then upper_char c else lower_char c) # canonical_loop (c = CHR ''-'') s"

text \<open>\<open>textproto.CanonicalMIMEHeaderKey\<close>.\<close>

definition CanonicalHeaderKey :: "gostring \<Rightarrow> gostring" where
  "CanonicalHeaderKey s = (if list_all header_byte s then canonical_loop True s else s)"

definition header_Values :: "http_header \<Rightarrow> gostring \<Rightarrow> gostring list" where
  "header_Values h k = (case map_of h (CanonicalHeaderKey k) of None \<Rightarrow> [] | Some vs \<Rightarrow> vs)"

definition header_Get :: "http_header \<Rightarrow> gostring \<Rightarrow> gostring" where
  "header_Get h k = (case header_Values h k of [] \<Rightarrow> [] | v # _ \<Rightarrow> v)"

definition header_Del :: "http_header \<Rightarrow> gostring \<Rightarrow> http_header" where
  "header_Del h k = filter (\<lambda>(n, vs). n \<noteq> CanonicalHeaderKey k) h"

definition header_Set :: "http_header \<Rightarrow> gostring \<Rightarrow> gostring \<Rightarrow> http_header" where
  "header_Set h k v = header_Del h k @ [(CanonicalHeaderKey k, [v])]"

definition header_Add :: "http_header \<Rightarrow> gostring \<Rightarrow> gostring \<Rightarrow> http_header" where
  "header_Add h k v = header_Del h k @ [(CanonicalHeaderKey k, header_Values h k @ [v])]"

subsection \<open>Requests and responses\<close>

record http_request =
  hr_Method :: gostring
  hr_Path :: gostring
  hr_EscapedPath :: gostring
  hr_Query :: "(gostring \<times> gostring) list"
  hr_Header :: http_header
  hr_Host :: gostring
  hr_Body :: gostring
  hr_BodyFails :: bool
  hr_ContentLength :: int

record http_response =
  hp_Status :: nat
  hp_Header :: http_header
  hp_Body :: gostring

type_synonym 'w handler = "http_request \<Rightarrow> 'w \<Rightarrow> http_response \<times> 'w"

definition query_Get :: "(gostring \<times> gostring) list \<Rightarrow> gostring \<Rightarrow> gostring" where
  "query_Get q k = (case map_of q k of None \<Rightarrow> [] | Some v \<Rightarrow> v)"

definition json_response :: "nat \<Rightarrow> gostring \<Rightarrow> http_response" where
  "json_response status body = \<lparr>hp_Status = status, hp_Header = [(''Content-Type'', [''application/json''])], hp_Body = body\<rparr>"

definition writeError :: "nat \<Rightarrow> gostring \<Rightarrow> gostring \<Rightarrow> http_response" where
  "writeError status code message = json_response status (json_object [(''error'', code), (''message'', message)])"

definition writeAuthBlockedError :: "gostring \<Rightarrow> gostring \<Rightarrow> http_response" where
  "writeAuthBlockedError code message = json_response 403 (json_object [(''error'', code), (''message'', message)])"

definition http_NotFound :: http_response where
  "http_NotFound = \<lparr>hp_Status = 404, hp_Header = [(''Content-Type'', [''text/plain; charset=utf-8'']),
     (''X-Content-Type-Options'', [''nosniff''])], hp_Body = ''404 page not found'' @ [newline]\<rparr>"

subsection \<open>Credentials supplied by the agent\<close>

definition blockedTokenEndpoints :: "gostring list" where
  "blockedTokenEndpoints = [''/oauth/token'', ''/token'', ''/v1/tokens'']"

definition blockedQueryParams :: "gostring list" where
  "blockedQueryParams = [''api_key'', ''apikey'', ''access_token'', ''token'']"

text \<open>The regular expression \<open>bearerPattern\<close>: the word, white space and one token character (the rest of it
  may be empty). White space and token characters are disjoint, so a match never has to give space back.\<close>

definition re_space :: "char \<Rightarrow> bool" where
  "re_space c = (byte_of c \<in> {9, 10, 12, 13, 32})"

definition bearer_char :: "char \<Rightarrow> bool" where
  "bearer_char c = (is_lower c \<or> is_upper c \<or> is_digit c \<or> c \<in> set ''-._~+/'')"

definition bearer_here :: "gostring \<Rightarrow> bool" where
  "bearer_here s =
    (let r = drop 6 s; u = dropWhile re_space r in
     HasPrefix s ''Bearer'' \<and> u \<noteq> r \<and> u \<noteq> [] \<and> bearer_char (hd u))"

fun bearerPattern :: "gostring \<Rightarrow> bool" where
  "bearerPattern [] = False"
| "bearerPattern (c # s) = (bearer_here (c # s) \<or> bearerPattern s)"

definition max_inspected :: nat where "max_inspected = 65536"

definition endpoint_blocked :: "gostring list \<Rightarrow> gostring \<Rightarrow> bool" where
  "endpoint_blocked eps path = list_ex (\<lambda>ep. path = ep \<or> HasSuffix path ep) eps"

definition em_dash :: gostring where "em_dash = [CHR 0xE2, CHR 0x80, CHR 0x94]"

definition authBlockerMiddleware :: "'w handler \<Rightarrow> bool \<Rightarrow> 'w handler" where
  "authBlockerMiddleware next_handler allowSelfAuth r w =
    (if allowSelfAuth then next_handler r w
     else if list_ex (\<lambda>param. query_Get (hr_Query r) param \<noteq> []) blockedQueryParams then
       (writeAuthBlockedError ''agent_supplied_credential_query_param''
          ''credential query parameters must not be supplied by agent'', w)
     else
       (let inspect = (hr_ContentLength r \<noteq> 0); bodyBytes = take max_inspected (hr_Body r) in
        if inspect \<and> bearerPattern bodyBytes then
          (writeAuthBlockedError ''bearer_token_in_body''
             (''Bearer token pattern detected in request body '' @ em_dash @ '' credentials must not be included by agent''), w)
        else
          (let r' = (if inspect then r\<lparr>hr_Body := bodyBytes, hr_BodyFails := False\<rparr> else r) in
           if endpoint_blocked blockedTokenEndpoints (hr_Path r') then
             (writeAuthBlockedError ''token_endpoint_direct_call''
                ''Direct calls to token endpoints are not permitted; use the broker'', w)
           else next_handler r' w)))"

subsection \<open>Host overrides\<close>

definition blockedOverrideHeaders :: "gostring list" where
  "blockedOverrideHeaders = [''X-Forwarded-Host'', ''X-Original-URL'', ''X-Rewrite-URL'']"

definition gateway_stripPort :: "gostring \<Rightarrow> gostring" where
  "gateway_stripPort hostport =
    (case LastIndex hostport '':'' of
       Some idx \<Rightarrow> if \<not> Contains (take idx hostport) '':'' then take idx hostport else hostport
     | None \<Rightarrow> hostport)"

definition hostOverrideBlockerMiddleware :: "'w handler \<Rightarrow> gostring list \<Rightarrow> 'w handler" where
  "hostOverrideBlockerMiddleware next_handler allowedHosts r w =
    (case find (\<lambda>hdr. header_Get (hr_Header r) hdr \<noteq> []) blockedOverrideHeaders of
       Some hdr \<Rightarrow> (writeAuthBlockedError ''host_override_header_blocked'' (hdr @ '' header is not permitted''), w)
     | None \<Rightarrow>
        (let allowedSet = map (\<lambda>h. ToLower (gateway_stripPort h)) allowedHosts;
             host = (if header_Get (hr_Header r) ''Host'' = [] then hr_Host r else header_Get (hr_Header r) ''Host'');
             hostOnly = ToLower (gateway_stripPort host)
         in if length allowedHosts > 0 \<and> hostOnly \<noteq> [] \<and> hostOnly \<notin> set allowedSet then
              (writeAuthBlockedError ''host_override_blocked'' ''Host header points to off-allowlist host'', w)
            else next_handler r w))"

definition reserveApprovalPaths :: "'w handler \<Rightarrow> 'w handler" where
  "reserveApprovalPaths next_handler r w =
    (if list_ex (\<lambda>p. HasPrefix (ToLower p) ''/approve'' \<or> HasPrefix (ToLower p) ''/approvals'') [hr_Path r, hr_EscapedPath r]
     then (http_NotFound, w) else next_handler r w)"

subsection \<open>Writes to untrusted sources\<close>

text \<open>\<open>lower\<close> is \<open>strings.ToLower\<close> on text that need not be ASCII.\<close>

definition writeCapabilityPrefixes :: "gostring list" where
  "writeCapabilityPrefixes = [''send'', ''write'', ''delete'', ''post'', ''create'', ''update'', ''patch'']"

definition isWriteRequest :: "(gostring \<Rightarrow> gostring) \<Rightarrow> http_request \<Rightarrow> bool" where
  "isWriteRequest lower r =
    (hr_Method r \<in> {''POST'', ''PUT'', ''PATCH'', ''DELETE''} \<or>
     list_ex (Contains (lower (hr_Path r))) writeCapabilityPrefixes)"

definition untrusted_write_Middleware ::
  "(gostring \<Rightarrow> gostring) \<Rightarrow> gostring list \<Rightarrow> bool \<Rightarrow> gostring \<Rightarrow> 'w handler \<Rightarrow> 'w handler" where
  "untrusted_write_Middleware lower untrustedProviders requireApproval providerID next_handler r w =
    (if \<not> requireApproval then next_handler r w
     else if providerID \<notin> set untrustedProviders then next_handler r w
     else if \<not> isWriteRequest lower r then next_handler r w
     else (writeAuthBlockedError ''untrusted_write_requires_approval''
             ''combining untrusted content source with write capability requires human approval, which the gateway cannot accept from a request'', w))"

subsection \<open>Headers sent upstream\<close>

definition forwardedHeaders :: "gostring list" where
  "forwardedHeaders = [''accept'', ''accept-language'', ''content-type'', ''user-agent'', ''idempotency-key'',
     ''x-request-id'', ''notion-version'', ''stripe-version'', ''x-github-api-version'']"

definition forwardedHeaderPrefixes :: "gostring list" where
  "forwardedHeaderPrefixes = [''anthropic-'', ''openai-'', ''x-stainless-'']"

definition credentialHeaderWords :: "gostring list" where
  "credentialHeaderWords = [''key'', ''token'', ''auth'', ''secret'', ''cookie'', ''session'', ''signature'', ''password'']"

definition forwardHeader :: "gostring \<Rightarrow> bool" where
  "forwardHeader name =
    (let low = ToLower name in
     if list_ex (Contains low) credentialHeaderWords then False
     else if low \<in> set forwardedHeaders then True
     else list_ex (HasPrefix low) forwardedHeaderPrefixes)"

definition copyForwardedHeaders :: "http_header \<Rightarrow> http_header \<Rightarrow> http_header" where
  "copyForwardedHeaders dst src =
    fold (\<lambda>(k, vv) d. if \<not> forwardHeader k then d else fold (\<lambda>v d. header_Add d k v) vv d) src dst"

record upstream_request =
  ur_Method :: gostring
  ur_URL :: gostring
  ur_QuerySet :: "(gostring \<times> gostring) list"
  ur_Header :: http_header
  ur_Body :: gostring

record auth_placement =
  ap_In :: gostring
  ap_Name :: gostring
  ap_Scheme :: gostring

text \<open>\<open>ur_QuerySet\<close> lists the parameters set on the query of the URL.\<close>

definition injectAuth :: "auth_placement \<Rightarrow> gostring \<Rightarrow> upstream_request \<Rightarrow> upstream_request" where
  "injectAuth placement tokenStr req =
    (if tokenStr = [] then req
     else if ap_In placement = ''header'' then
       (if ap_Scheme placement \<noteq> [] then
          req\<lparr>ur_Header := header_Set (ur_Header req) (ap_Name placement) (ap_Scheme placement @ '' '' @ tokenStr)\<rparr>
        else req\<lparr>ur_Header := header_Set (ur_Header req) (ap_Name placement) tokenStr\<rparr>)
     else if ap_In placement = ''query'' then
       req\<lparr>ur_QuerySet := ur_QuerySet req @ [(ap_Name placement, tokenStr)]\<rparr>
     else req\<lparr>ur_Header := header_Set (ur_Header req) ''Authorization'' (''Bearer '' @ tokenStr)\<rparr>)"

subsection \<open>The SSRF gate\<close>

text \<open>
  An address is its 16-byte form; \<open>To4\<close> recognises the IPv4 addresses among them. A network is its number and
  the length of its prefix. \<open>parse_ip\<close> and \<open>lookup\<close> are \<open>net.ParseIP\<close> and \<open>net.LookupHost\<close>.
\<close>

type_synonym ipaddr = "128 word"

datatype ipnet = Net4 "32 word" nat | Net6 "128 word" nat

definition To4 :: "ipaddr \<Rightarrow> 32 word option" where
  "To4 ip = (if drop_bit 32 ip = 0xFFFF then Some (ucast ip) else None)"

definition net_Contains :: "ipnet \<Rightarrow> ipaddr \<Rightarrow> bool" where
  "net_Contains network ip =
    (case To4 ip of
       Some x \<Rightarrow> (case network of Net4 nn l \<Rightarrow> drop_bit (32 - l) x = drop_bit (32 - l) nn | Net6 _ _ \<Rightarrow> False)
     | None \<Rightarrow> (case network of Net4 _ _ \<Rightarrow> False | Net6 nn l \<Rightarrow> drop_bit (128 - l) ip = drop_bit (128 - l) nn))"

definition SSRFDenyRanges :: "ipnet list" where
  "SSRFDenyRanges =
    [Net4 0x7F000000 8, Net6 1 128,
     Net4 0x0A000000 8, Net4 0xAC100000 12, Net4 0xC0A80000 16,
     Net4 0xA9FE0000 16, Net6 0xFE800000000000000000000000000000 10,
     Net4 0x64400000 10,
     Net4 0xE0000000 4, Net6 0xFF000000000000000000000000000000 8,
     Net4 0x00000000 8, Net6 0 128,
     Net6 0xFC000000000000000000000000000000 7]"

definition AllowedProviderBaseURLs :: "(gostring \<times> gostring list) list" where
  "AllowedProviderBaseURLs =
    [(''openai'', [''api.openai.com'']),
     (''openrouter'', [''openrouter.ai'']),
     (''slack'', [''slack.com'', ''api.slack.com'']),
     (''google'', [''oauth2.googleapis.com'', ''www.googleapis.com'', ''accounts.google.com'']),
     (''microsoft'', [''login.microsoftonline.com'', ''graph.microsoft.com'']),
     (''github'', [''api.github.com'', ''github.com'']),
     (''dropbox'', [''api.dropboxapi.com'']),
     (''aws'', [''sts.amazonaws.com'']),
     (''hashicorp-vault'', [])]"

datatype ssrf_error = ErrSSRFTargetForbidden | DnsLookupFails

record ssrf_gate =
  sg_allowedBaseURLs :: "(gostring \<times> gostring list) list"
  sg_denyRanges :: "ipnet list"

definition NewSSRFGate :: ssrf_gate where
  "NewSSRFGate = \<lparr>sg_allowedBaseURLs = AllowedProviderBaseURLs, sg_denyRanges = SSRFDenyRanges\<rparr>"

definition hostInAllowlist :: "gostring \<Rightarrow> gostring list \<Rightarrow> bool" where
  "hostInAllowlist host hosts = list_ex (\<lambda>h. h = host) hosts"

definition checkIP :: "ssrf_gate \<Rightarrow> ipaddr \<Rightarrow> ssrf_error option" where
  "checkIP g ip = (if list_ex (\<lambda>network. net_Contains network ip) (sg_denyRanges g) then Some ErrSSRFTargetForbidden else None)"

fun check_addrs :: "(gostring \<Rightarrow> ipaddr option) \<Rightarrow> ssrf_gate \<Rightarrow> gostring list \<Rightarrow> ssrf_error option" where
  "check_addrs parse_ip g [] = None"
| "check_addrs parse_ip g (a # as) =
    (case parse_ip a of None \<Rightarrow> check_addrs parse_ip g as
     | Some ip \<Rightarrow> (case checkIP g ip of Some e \<Rightarrow> Some e | None \<Rightarrow> check_addrs parse_ip g as))"

definition verifyHost ::
  "(gostring \<Rightarrow> ipaddr option) \<Rightarrow> (gostring \<Rightarrow> gostring list option) \<Rightarrow> ssrf_gate \<Rightarrow> gostring \<Rightarrow> ssrf_error option" where
  "verifyHost parse_ip lookup g host =
    (case parse_ip host of
       Some ip \<Rightarrow> checkIP g ip
     | None \<Rightarrow> (case lookup host of None \<Rightarrow> Some DnsLookupFails | Some addrs \<Rightarrow> check_addrs parse_ip g addrs))"

definition ssrf_Validate ::
  "(gostring \<Rightarrow> ipaddr option) \<Rightarrow> (gostring \<Rightarrow> gostring list option) \<Rightarrow> ssrf_gate \<Rightarrow> gostring \<Rightarrow> gostring \<Rightarrow> ssrf_error option" where
  "ssrf_Validate parse_ip lookup g providerID host =
    (case map_of (sg_allowedBaseURLs g) providerID of
       None \<Rightarrow> Some ErrSSRFTargetForbidden
     | Some allowed \<Rightarrow>
        if length allowed > 0 \<and> \<not> hostInAllowlist host allowed then Some ErrSSRFTargetForbidden
        else verifyHost parse_ip lookup g host)"

subsection \<open>Substitution\<close>

definition tokenEndpoints :: "gostring list" where
  "tokenEndpoints = [''/oauth/token'', ''/login/oauth/access_token'', ''/oauth2/token'', ''/token'', ''/auth/token'', ''/connect/token'']"

definition apiKeyParams :: "gostring list" where
  "apiKeyParams = [''api_key'', ''apikey'', ''key'', ''token'', ''access_token'', ''secret'']"

definition substitution_stripPort :: "gostring \<Rightarrow> gostring" where
  "substitution_stripPort host =
    (case LastIndex host '':'' of
       Some idx \<Rightarrow> if list_all is_digit (drop (idx + 1) host) then take idx host else host
     | None \<Rightarrow> host)"

definition hostMatches :: "gostring \<Rightarrow> gostring \<Rightarrow> bool" where
  "hostMatches candidate upstreamHost = EqualFold (substitution_stripPort candidate) (substitution_stripPort upstreamHost)"

definition isGatewayHost :: "gostring \<Rightarrow> bool" where
  "isGatewayHost host = (substitution_stripPort host \<in> {''127.0.0.1'', ''localhost'', ''::1''})"

text \<open>The kind of a blocked request; \<open>None\<close> when nothing was found. \<open>allowedParams\<close> lists the parameters the map
  holds as true; a nil map allows none.\<close>

definition CheckRequest :: "http_request \<Rightarrow> gostring \<Rightarrow> gostring list \<Rightarrow> bool \<Rightarrow> gostring option" where
  "CheckRequest r upstreamHost allowedParams allowAgentAuth =
    (if \<not> allowAgentAuth \<and> header_Get (hr_Header r) ''Authorization'' \<noteq> [] then Some ''auth_header''
     else if list_ex (\<lambda>param. query_Get (hr_Query r) param \<noteq> [] \<and> param \<notin> set allowedParams) apiKeyParams then
       Some ''api_key_param''
     else if endpoint_blocked tokenEndpoints (hr_Path r) then Some ''token_endpoint''
     else if upstreamHost \<noteq> [] \<and>
             (let fwdHost = header_Get (hr_Header r) ''X-Forwarded-Host'' in fwdHost \<noteq> [] \<and> \<not> hostMatches fwdHost upstreamHost) then
       Some ''host_override''
     else if upstreamHost \<noteq> [] \<and> hr_Host r \<noteq> [] \<and> \<not> hostMatches (hr_Host r) upstreamHost \<and> \<not> isGatewayHost (hr_Host r) then
       Some ''host_override''
     else None)"

subsection \<open>Addresses the gate refuses\<close>

text \<open>IPv4 addresses by their octets, and the networks no request may reach, as RFC 1918 and its companions
  name them: this network, private, loopback, link-local, shared address space and multicast.\<close>

definition v4_addr :: "nat \<Rightarrow> nat \<Rightarrow> nat \<Rightarrow> nat \<Rightarrow> ipaddr" where
  "v4_addr a b c d = word_of_nat (0xFFFF * 2 ^ 32 + (((a * 256 + b) * 256 + c) * 256 + d))"

definition internal_v4 :: "nat \<Rightarrow> nat \<Rightarrow> bool" where
  "internal_v4 a b = (a \<in> {0, 10, 127} \<or> (a = 172 \<and> 16 \<le> b \<and> b \<le> 31) \<or> (a = 192 \<and> b = 168) \<or>
     (a = 169 \<and> b = 254) \<or> (a = 100 \<and> 64 \<le> b \<and> b \<le> 127) \<or> (224 \<le> a \<and> a \<le> 239))"

lemma To4_v4_addr:
  assumes "a < 256" "b < 256" "c < 256" "d < 256"
  shows "To4 (v4_addr a b c d) = Some (word_of_nat (((a * 256 + b) * 256 + c) * 256 + d))"
proof -
  define n where "n = ((a * 256 + b) * 256 + c) * 256 + d"
  have n: "n < 2 ^ 32" using assms by (simp add: n_def)
  define x where "x = v4_addr a b c d"
  have md: "(0xFFFF * 2 ^ 32 + n) mod 2 ^ 32 = n" using n by (simp only: mod_mult_self3 mod_less)
  define m where "m = 0xFFFF * 2 ^ 32 + n"
  have "unat (word_of_nat m :: 128 word) = m" using n by (simp add: m_def unat_of_nat take_bit_eq_mod del: of_nat_add of_nat_mult)
  moreover have "x = word_of_nat m" by (simp add: x_def v4_addr_def m_def n_def)
  ultimately have u: "unat x = 0xFFFF * 2 ^ 32 + n" by (simp add: m_def)
  have "unat (drop_bit 32 x) = unat (0xFFFF :: 128 word)"
    using n by (simp add: unat_drop_bit_eq drop_bit_eq_div [where 'a = nat] u)
  then have "drop_bit 32 x = 0xFFFF" by (simp only: word_unat_eq_iff)
  moreover have "unat (ucast x :: 32 word) = unat (word_of_nat n :: 32 word)"
    using n md by (simp add: unsigned_ucast_eq u take_bit_eq_mod unat_of_nat)
  then have "(ucast x :: 32 word) = word_of_nat n" by (simp only: word_unat_eq_iff)
  ultimately show ?thesis by (simp add: To4_def x_def [symmetric] n_def)
qed

lemma net4_Contains_iff:
  "To4 ip = Some x \<Longrightarrow> net_Contains (Net4 nn l) ip \<longleftrightarrow> unat x div 2 ^ (32 - l) = unat nn div 2 ^ (32 - l)"
  by (simp add: net_Contains_def word_unat_eq_iff [of "drop_bit (32 - l) x"] unat_drop_bit_eq drop_bit_eq_div [where 'a = nat])

lemma net6_Contains_v4: "To4 ip = Some x \<Longrightarrow> \<not> net_Contains (Net6 nn l) ip"
  by (simp add: net_Contains_def)

lemma digits_iff: "(y :: nat) < m \<Longrightarrow> a * m + y = k \<longleftrightarrow> a = k div m \<and> y = k mod m"
  by auto

lemma checkIP_v4:
  assumes "a < 256" "b < 256" "c < 256" "d < 256"
  shows "checkIP NewSSRFGate (v4_addr a b c d) = None \<longleftrightarrow> \<not> internal_v4 a b"
proof -
  define n where "n = ((a * 256 + b) * 256 + c) * 256 + d"
  have n: "n < 2 ^ 32" using assms by (simp add: n_def)
  have t: "To4 (v4_addr a b c d) = Some (word_of_nat n)" using To4_v4_addr [OF assms] by (simp add: n_def)
  have u: "unat (word_of_nat n :: 32 word) = n" using n by (simp add: unat_of_nat take_bit_eq_mod)
  define P where "P nn l \<longleftrightarrow> net_Contains (Net4 nn l) (v4_addr a b c d)" for nn l
  have P: "P nn l \<longleftrightarrow> n div 2 ^ (32 - l) = unat nn div 2 ^ (32 - l)" for nn l
    by (simp only: P_def net4_Contains_iff [OF t] u)
  have l8: "n div 16777216 = a" and l16: "n div 65536 = a * 256 + b"
    and l12: "n div 1048576 = a * 16 + b div 16" and l10: "n div 4194304 = a * 4 + b div 64" and l4: "n div 268435456 = a div 16"
    using assms by (simp_all add: n_def)
  have "checkIP NewSSRFGate (v4_addr a b c d) = None \<longleftrightarrow>
      \<not> (P 0x7F000000 8 \<or> P 0x0A000000 8 \<or> P 0xAC100000 12 \<or> P 0xC0A80000 16 \<or> P 0xA9FE0000 16 \<or>
         P 0x64400000 10 \<or> P 0xE0000000 4 \<or> P 0 8)"
    by (simp add: checkIP_def NewSSRFGate_def SSRFDenyRanges_def net6_Contains_v4 [OF t] P_def)
  moreover have "P 0x7F000000 8 \<longleftrightarrow> a = 127" "P 0x0A000000 8 \<longleftrightarrow> a = 10" "P 0 8 \<longleftrightarrow> a = 0" by (simp_all add: P l8 del: div_eq_0_iff)
  moreover have "P 0xC0A80000 16 \<longleftrightarrow> a = 192 \<and> b = 168" "P 0xA9FE0000 16 \<longleftrightarrow> a = 169 \<and> b = 254"
    by (simp_all add: P l16 digits_iff [OF assms(2)])
  moreover have "P 0xAC100000 12 \<longleftrightarrow> a = 172 \<and> b div 16 = 1" "P 0x64400000 10 \<longleftrightarrow> a = 100 \<and> b div 64 = 1"
    using assms(2) by (simp_all add: P l12 l10 digits_iff [of "b div 16" 16] digits_iff [of "b div 64" 4])
  moreover have "b div 16 = 1 \<longleftrightarrow> 16 \<le> b \<and> b \<le> 31" "b div 64 = 1 \<longleftrightarrow> 64 \<le> b \<and> b \<le> 127" by auto
  moreover have "P 0xE0000000 4 \<longleftrightarrow> 224 \<le> a \<and> a \<le> 239" by (auto simp: P l4)
  ultimately show ?thesis by (simp only: internal_v4_def insert_iff empty_iff) blast
qed

lemma check_addrs_None:
  "check_addrs parse_ip g as = None \<Longrightarrow> a \<in> set as \<Longrightarrow> parse_ip a = Some ip \<Longrightarrow> checkIP g ip = None"
  by (induction as) (auto split: option.splits)

lemma ssrf_Validate_None:
  assumes "ssrf_Validate parse_ip lookup g p h = None"
  obtains allowed where "map_of (sg_allowedBaseURLs g) p = Some allowed" "allowed = [] \<or> h \<in> set allowed"
    "verifyHost parse_ip lookup g h = None"
  using assms by (auto simp: ssrf_Validate_def hostInAllowlist_def list_ex_iff split: option.splits if_splits)

text \<open>The addresses a request to a host may go to: the host itself when it is an address, else what the lookup gives.\<close>

definition host_addrs :: "(gostring \<Rightarrow> ipaddr option) \<Rightarrow> (gostring \<Rightarrow> gostring list option) \<Rightarrow> gostring \<Rightarrow> ipaddr list" where
  "host_addrs parse_ip lookup host =
    (case parse_ip host of Some ip \<Rightarrow> [ip]
     | None \<Rightarrow> (case lookup host of None \<Rightarrow> [] | Some as \<Rightarrow> List.map_filter parse_ip as))"

lemma verifyHost_None:
  assumes "verifyHost parse_ip lookup g h = None" "ip \<in> set (host_addrs parse_ip lookup h)"
  shows "checkIP g ip = None"
  using assms check_addrs_None
  by (fastforce simp: verifyHost_def host_addrs_def List.map_filter_def split: option.splits)


definition sample_parse_ip :: "gostring \<Rightarrow> ipaddr option" where
  "sample_parse_ip s = (if s = ''104.18.2.3'' then Some (v4_addr 104 18 2 3)
     else if s = ''10.0.0.1'' then Some (v4_addr 10 0 0 1) else None)"

definition sample_lookup :: "gostring \<Rightarrow> gostring list option" where
  "sample_lookup h = (if h = ''openrouter.ai'' then Some [''104.18.2.3''] else if h = ''intranet'' then Some [''10.0.0.1''] else None)"

lemma sample_ssrf: "ssrf_Validate sample_parse_ip sample_lookup NewSSRFGate ''openrouter'' ''openrouter.ai'' = None"
proof -
  have "checkIP NewSSRFGate (v4_addr 104 18 2 3) = None" using checkIP_v4 [of 104 18 2 3] by (simp add: internal_v4_def)
  then show ?thesis
    by (simp add: ssrf_Validate_def verifyHost_def sample_lookup_def sample_parse_ip_def hostInAllowlist_def
        NewSSRFGate_def [THEN arg_cong [where f = sg_allowedBaseURLs]] AllowedProviderBaseURLs_def)
qed


subsection \<open>Headers that reach the provider\<close>

lemma lower_upper_char: "lower_char (upper_char c) = lower_char c"
proof (cases "is_lower c")
  case True
  then have "byte_of (char_of (byte_of c - 32)) = byte_of c - 32" "97 \<le> byte_of c" "byte_of c \<le> 122"
    by (auto simp: is_lower_def byte_of_def)
  then show ?thesis using True
    by (auto simp: lower_char_def upper_char_def is_upper_def is_lower_def byte_of_def)
qed (simp add: upper_char_def)

lemma lower_lower_char: "lower_char (lower_char c) = lower_char c"
  by (auto simp: lower_char_def is_upper_def byte_of_def)

lemma ToLower_canonical [simp]: "ToLower (CanonicalHeaderKey k) = ToLower k"
proof -
  have "map lower_char (canonical_loop up s) = map lower_char s" for up s
    by (induction up s rule: canonical_loop.induct) (simp_all add: lower_upper_char lower_lower_char)
  then show ?thesis by (simp add: CanonicalHeaderKey_def ToLower_def)
qed

lemma forwardHeader_canonical [simp]: "forwardHeader (CanonicalHeaderKey k) = forwardHeader k"
  by (simp add: forwardHeader_def)

lemma header_Add_keys: "x \<in> set (header_Add h k v) \<Longrightarrow> x \<in> set h \<or> fst x = CanonicalHeaderKey k"
  by (auto simp: header_Add_def header_Del_def)

lemma copyForwardedHeaders_keys:
  "x \<in> set (copyForwardedHeaders dst src) \<Longrightarrow> x \<in> set dst \<or> forwardHeader (fst x)"
proof (induction src arbitrary: dst)
  case Nil
  then show ?case by (simp add: copyForwardedHeaders_def)
next
  case (Cons kv src)
  obtain k vv where kv: "kv = (k, vv)" by force
  have inner: "x \<in> set (fold (\<lambda>v d. header_Add d k v) vv d) \<Longrightarrow> x \<in> set d \<or> forwardHeader (fst x)"
    if "forwardHeader k" for d
    using that
  proof (induction vv arbitrary: d)
    case (Cons v vv)
    then show ?case using header_Add_keys [of x d k v] by auto
  qed simp
  show ?case
  proof (cases "forwardHeader k")
    case False
    then have "copyForwardedHeaders dst (kv # src) = copyForwardedHeaders dst src"
      by (simp add: copyForwardedHeaders_def kv)
    then show ?thesis using Cons by simp
  next
    case True
    then have "copyForwardedHeaders dst (kv # src) = copyForwardedHeaders (fold (\<lambda>v d. header_Add d k v) vv dst) src"
      by (simp add: copyForwardedHeaders_def kv)
    then show ?thesis using Cons inner [OF True, of dst] by auto
  qed
qed

end
