(* ===== verification/Gateway_Route.thy ===== *)
theory Gateway_Route
  imports Gateway_Http
begin

section \<open>Gateway routes (\<open>internal/gateway/route\<close>)\<close>

text \<open>
  \<open>route.go\<close>: the route table the gateway compiles from the provider templates, and the lookup of a request.
  A template is a record of the fields \<open>Compile\<close> reads (\<open>registry/template.go\<close>); \<open>parse_url\<close> is what \<open>url.Parse\<close>
  makes of an endpoint, its host and path. The two maps of the router are maps from keys to routes.
\<close>

subsection \<open>Templates\<close>

record gateway_action =
  ga_Name :: gostring
  ga_SDKPath :: gostring
  ga_Method :: gostring
  ga_UpstreamPath :: gostring
  ga_ExchangeStrategy :: gostring
  ga_MaskingProfile :: gostring
  ga_AllowedFields :: "gostring list"
  ga_RiskLabel :: gostring
  ga_UntrustedContentSource :: bool
  ga_LLMSessionDeny :: bool

record connection_template =
  tm_Provider :: gostring
  tm_Category :: gostring
  tm_Preferred :: gostring
  tm_Supported :: "gostring list"
  tm_TestEndpoint :: gostring
  tm_AuthPlacement :: auth_placement
  tm_Redaction :: "gostring list"
  tm_InjectionSources :: "gostring list"
  tm_Capabilities :: "gostring list"
  tm_GatewayActions :: "gateway_action list"

record route =
  rt_Capability :: gostring
  rt_Provider :: gostring
  rt_Method :: gostring
  rt_PathTemplate :: gostring
  rt_SDKPath :: gostring
  rt_UpstreamHost :: gostring
  rt_UpstreamPath :: gostring
  rt_AuthPlacement :: auth_placement
  rt_AllowedParams :: "gostring list"
  rt_RiskLabel :: gostring
  rt_ApprovalReqd :: bool
  rt_Redaction :: "gostring list"
  rt_ExchangeStrategy :: gostring
  rt_MaskingProfile :: gostring
  rt_AllowedFields :: "gostring list"
  rt_MaxBodyBytes :: nat
  rt_LLMSessionDeny :: bool
  rt_UntrustedContentSource :: gostring
  rt_SecretRef :: gostring

record router =
  ro_routes :: "gostring \<Rightarrow> route option"
  ro_sdkRoutes :: "gostring \<Rightarrow> route option"

subsection \<open>Compilation\<close>

definition highRiskLabels :: "gostring list" where
  "highRiskLabels = [''destructive'', ''financial'', ''communication'', ''admin'']"

definition defaultMaxBodyBytes :: nat where "defaultMaxBodyBytes = 10 * 1024 * 1024"

definition parseEndpoint :: "(gostring \<Rightarrow> (gostring \<times> gostring) option) \<Rightarrow> gostring \<Rightarrow> gostring \<times> gostring" where
  "parseEndpoint parse_url endpoint =
    (if endpoint = [] then ([], []) else (case parse_url endpoint of None \<Rightarrow> ([], []) | Some hp \<Rightarrow> hp))"

definition isSDKSupported :: "connection_template \<Rightarrow> bool" where
  "isSDKSupported tmpl = list_ex (\<lambda>m. m = ''gateway_sdk'') (tm_Supported tmpl)"

definition vaultSecretRef :: "connection_template \<Rightarrow> gostring" where
  "vaultSecretRef tmpl =
    (case tm_InjectionSources tmpl of [] \<Rightarrow> []
     | source # _ \<Rightarrow>
        (let category = (if tm_Category tmpl = [] then ''ai'' else tm_Category tmpl)
         in ''default/'' @ category @ ''/'' @ tm_Provider tmpl @ ''/'' @ source))"

definition gateway_template :: "connection_template \<Rightarrow> bool" where
  "gateway_template tmpl =
    (tm_Preferred tmpl \<in> {''gateway_typed'', ''gateway_sdk'', ''gateway_proxy''} \<or>
     list_ex (\<lambda>m. m = ''gateway_typed'' \<or> m = ''gateway_sdk'') (tm_Supported tmpl))"

definition or_default :: "gostring \<Rightarrow> gostring \<Rightarrow> gostring" where
  "or_default s d = (if s = [] then d else s)"

definition action_route :: "connection_template \<Rightarrow> gostring \<times> gostring \<Rightarrow> gateway_action \<Rightarrow> route" where
  "action_route tmpl up action =
    \<lparr>rt_Capability = tm_Provider tmpl @ ''.'' @ ga_Name action, rt_Provider = tm_Provider tmpl,
     rt_Method = or_default (ga_Method action) ''POST'',
     rt_PathTemplate = ''/api/'' @ tm_Provider tmpl @ ''/'' @ ga_Name action, rt_SDKPath = [],
     rt_UpstreamHost = fst up, rt_UpstreamPath = or_default (ga_UpstreamPath action) (snd up),
     rt_AuthPlacement = tm_AuthPlacement tmpl, rt_AllowedParams = [], rt_RiskLabel = ga_RiskLabel action,
     rt_ApprovalReqd = False, rt_Redaction = tm_Redaction tmpl,
     rt_ExchangeStrategy = or_default (ga_ExchangeStrategy action) ''static_gateway_only'',
     rt_MaskingProfile = or_default (ga_MaskingProfile action) ''basic'',
     rt_AllowedFields = ga_AllowedFields action, rt_MaxBodyBytes = defaultMaxBodyBytes,
     rt_LLMSessionDeny = (ga_LLMSessionDeny action \<or> ga_RiskLabel action \<in> set highRiskLabels),
     rt_UntrustedContentSource = (if ga_UntrustedContentSource action then tm_Provider tmpl else []),
     rt_SecretRef = vaultSecretRef tmpl\<rparr>"

definition route_key :: "gostring \<Rightarrow> gostring \<Rightarrow> gostring" where
  "route_key method path = method @ '' '' @ path"

definition add_sdk_route :: "gostring \<Rightarrow> route \<Rightarrow> router \<Rightarrow> router" where
  "add_sdk_route sdkPath rt r =
    r\<lparr>ro_sdkRoutes := (ro_sdkRoutes r)(route_key (rt_Method rt) sdkPath \<mapsto> rt\<lparr>rt_SDKPath := sdkPath, rt_PathTemplate := sdkPath\<rparr>)\<rparr>"

definition add_route :: "route \<Rightarrow> router \<Rightarrow> router" where
  "add_route rt r = r\<lparr>ro_routes := (ro_routes r)(route_key (rt_Method rt) (rt_PathTemplate rt) \<mapsto> rt)\<rparr>"

definition compile_action :: "connection_template \<Rightarrow> gostring \<times> gostring \<Rightarrow> gateway_action \<Rightarrow> router \<Rightarrow> router" where
  "compile_action tmpl up action r =
    (let rt = action_route tmpl up action; r1 = add_route rt r in
     if tm_Preferred tmpl = ''gateway_sdk'' \<or> isSDKSupported tmpl then
       add_sdk_route (or_default (ga_SDKPath action) (''/sdk/'' @ tm_Provider tmpl @ ''/v1/'' @ ga_Name action)) rt r1
     else r1)"

definition underscore_name :: "gostring \<Rightarrow> gostring" where
  "underscore_name s = map (\<lambda>c. if c = CHR '' '' then CHR ''_'' else c) s"

definition capability_route :: "connection_template \<Rightarrow> gostring \<times> gostring \<Rightarrow> gostring \<Rightarrow> route" where
  "capability_route tmpl up cap =
    \<lparr>rt_Capability = tm_Provider tmpl @ ''.'' @ cap, rt_Provider = tm_Provider tmpl, rt_Method = ''POST'',
     rt_PathTemplate = ''/api/'' @ tm_Provider tmpl @ ''/'' @ underscore_name cap, rt_SDKPath = [],
     rt_UpstreamHost = fst up, rt_UpstreamPath = snd up, rt_AuthPlacement = tm_AuthPlacement tmpl,
     rt_AllowedParams = [], rt_RiskLabel = [], rt_ApprovalReqd = False, rt_Redaction = tm_Redaction tmpl,
     rt_ExchangeStrategy = ''static_gateway_only'', rt_MaskingProfile = ''basic'', rt_AllowedFields = [],
     rt_MaxBodyBytes = defaultMaxBodyBytes, rt_LLMSessionDeny = False, rt_UntrustedContentSource = [],
     rt_SecretRef = vaultSecretRef tmpl\<rparr>"

definition compile_capability :: "connection_template \<Rightarrow> gostring \<times> gostring \<Rightarrow> gostring \<Rightarrow> router \<Rightarrow> router" where
  "compile_capability tmpl up cap r =
    (let rt = capability_route tmpl up cap; r1 = add_route rt r in
     if tm_Preferred tmpl = ''gateway_sdk'' \<or> isSDKSupported tmpl then
       add_sdk_route (''/sdk/'' @ tm_Provider tmpl @ ''/v1/'' @ underscore_name cap) rt r1
     else r1)"

definition compile_template :: "(gostring \<Rightarrow> (gostring \<times> gostring) option) \<Rightarrow> connection_template \<Rightarrow> router \<Rightarrow> router" where
  "compile_template parse_url tmpl r =
    (if \<not> gateway_template tmpl then r
     else
       (let up = parseEndpoint parse_url (tm_TestEndpoint tmpl);
            r1 = fold (compile_action tmpl up) (tm_GatewayActions tmpl) r
        in if length (tm_GatewayActions tmpl) = 0 then fold (compile_capability tmpl up) (tm_Capabilities tmpl) r1
           else r1))"

definition route_Compile :: "(gostring \<Rightarrow> (gostring \<times> gostring) option) \<Rightarrow> connection_template list \<Rightarrow> router" where
  "route_Compile parse_url templates =
    fold (compile_template parse_url) templates \<lparr>ro_routes = Map.empty, ro_sdkRoutes = Map.empty\<rparr>"

definition route_Match :: "router \<Rightarrow> gostring \<Rightarrow> gostring \<Rightarrow> route option" where
  "route_Match r method path =
    (let key = route_key method path in
     case ro_routes r key of Some rt \<Rightarrow> Some rt | None \<Rightarrow> ro_sdkRoutes r key)"

subsection \<open>What the table holds\<close>

text \<open>A route as some gateway template asks for it: of an action, or of a capability when the template lists no
  actions.\<close>

definition route_of_template :: "(gostring \<Rightarrow> (gostring \<times> gostring) option) \<Rightarrow> connection_template \<Rightarrow> route \<Rightarrow> bool" where
  "route_of_template parse_url tmpl rt =
    (let up = parseEndpoint parse_url (tm_TestEndpoint tmpl) in
     gateway_template tmpl \<and>
     ((\<exists>action \<in> set (tm_GatewayActions tmpl). rt = action_route tmpl up action) \<or>
      (tm_GatewayActions tmpl = [] \<and> (\<exists>cap \<in> set (tm_Capabilities tmpl). rt = capability_route tmpl up cap))))"

definition table_ok :: "(gostring \<Rightarrow> (gostring \<times> gostring) option) \<Rightarrow> connection_template set \<Rightarrow> router \<Rightarrow> bool" where
  "table_ok parse_url T r =
    ((\<forall>key rt. ro_routes r key = Some rt \<longrightarrow>
       (\<exists>tmpl \<in> T. route_of_template parse_url tmpl rt) \<and> key = route_key (rt_Method rt) (rt_PathTemplate rt)) \<and>
     (\<forall>key rt. ro_sdkRoutes r key = Some rt \<longrightarrow>
       (\<exists>tmpl \<in> T. \<exists>rt0. route_of_template parse_url tmpl rt0 \<and> (tm_Preferred tmpl = ''gateway_sdk'' \<or> isSDKSupported tmpl) \<and>
          rt = rt0\<lparr>rt_SDKPath := rt_SDKPath rt, rt_PathTemplate := rt_SDKPath rt\<rparr>) \<and>
       key = route_key (rt_Method rt) (rt_SDKPath rt)))"

lemma table_ok_mono: "table_ok pu T r \<Longrightarrow> T \<subseteq> T' \<Longrightarrow> table_ok pu T' r"
  unfolding table_ok_def by blast

lemma table_ok_add:
  assumes "table_ok pu T r" "tmpl \<in> T" "route_of_template pu tmpl rt"
  shows "table_ok pu T (add_route rt r)"
  using assms by (auto simp: table_ok_def add_route_def)

lemma table_ok_add_sdk:
  assumes "table_ok pu T r" "tmpl \<in> T" "route_of_template pu tmpl rt" "tm_Preferred tmpl = ''gateway_sdk'' \<or> isSDKSupported tmpl"
  shows "table_ok pu T (add_sdk_route p rt r)"
  using assms by (auto simp: table_ok_def add_sdk_route_def)

lemma table_ok_template:
  assumes "table_ok pu T r" "tmpl \<in> T"
  shows "table_ok pu T (compile_template pu tmpl r)"
proof -
  define up where "up = parseEndpoint pu (tm_TestEndpoint tmpl)"
  have acts: "table_ok pu T (fold (compile_action tmpl up) as r)"
    if "gateway_template tmpl" "set as \<subseteq> set (tm_GatewayActions tmpl)" "table_ok pu T r" for as r
    using that(2,3)
  proof (induction as arbitrary: r)
    case (Cons a as)
    then have "route_of_template pu tmpl (action_route tmpl up a)"
      using that(1) by (auto simp: route_of_template_def up_def Let_def)
    with Cons.prems assms(2) have "table_ok pu T (compile_action tmpl up a r)"
      by (simp add: compile_action_def Let_def table_ok_add table_ok_add_sdk)
    with Cons show ?case by simp
  qed simp
  have caps: "table_ok pu T (fold (compile_capability tmpl up) cs r)"
    if "gateway_template tmpl" "tm_GatewayActions tmpl = []" "set cs \<subseteq> set (tm_Capabilities tmpl)" "table_ok pu T r" for cs r
    using that(3,4)
  proof (induction cs arbitrary: r)
    case (Cons a as)
    then have "route_of_template pu tmpl (capability_route tmpl up a)"
      using that(1,2) by (auto simp: route_of_template_def up_def Let_def)
    with Cons.prems assms(2) have "table_ok pu T (compile_capability tmpl up a r)"
      by (simp add: compile_capability_def Let_def table_ok_add table_ok_add_sdk)
    with Cons show ?case by simp
  qed simp
  define r1 where "r1 = fold (compile_action tmpl up) (tm_GatewayActions tmpl) r"
  have "table_ok pu T r1" if "gateway_template tmpl"
    unfolding r1_def by (rule acts [OF that order_refl assms(1)])
  moreover have "compile_template pu tmpl r = (if gateway_template tmpl then
      if tm_GatewayActions tmpl = [] then fold (compile_capability tmpl up) (tm_Capabilities tmpl) r1 else r1 else r)"
    by (simp add: compile_template_def Let_def up_def r1_def)
  ultimately show ?thesis using assms(1) caps [OF _ _ order_refl, of r1] by simp
qed

lemma table_ok_Compile: "table_ok pu (set templates) (route_Compile pu templates)"
proof -
  have "table_ok pu T (fold (compile_template pu) ts r)" if "set ts \<subseteq> T" "table_ok pu T r" for ts T r
    using that by (induction ts arbitrary: r) (simp_all add: table_ok_template)
  moreover have "table_ok pu T \<lparr>ro_routes = Map.empty, ro_sdkRoutes = Map.empty\<rparr>" for T
    by (simp add: table_ok_def)
  ultimately show ?thesis by (simp add: route_Compile_def)
qed

text \<open>A route the compiled table matches comes from a template with gateway support: its provider, capability,
  upstream host and vault path are that template's, its body limit is 10 MiB, its exchange strategy is never
  empty, and a destructive, financial, communication or admin action is closed to LLM sessions. The lookup
  key of the request is the route's own method and path.\<close>

theorem matched_route_from_template:
  assumes "route_Match (route_Compile pu templates) method path = Some rt"
  shows "\<exists>tmpl \<in> set templates. gateway_template tmpl \<and> rt_Provider rt = tm_Provider tmpl \<and>
    (\<exists>name. rt_Capability rt = tm_Provider tmpl @ ''.'' @ name) \<and>
    rt_UpstreamHost rt = fst (parseEndpoint pu (tm_TestEndpoint tmpl)) \<and> rt_SecretRef rt = vaultSecretRef tmpl \<and>
    rt_MaxBodyBytes rt = 10485760 \<and> rt_ExchangeStrategy rt \<noteq> [] \<and>
    (rt_RiskLabel rt \<in> set highRiskLabels \<longrightarrow> rt_LLMSessionDeny rt) \<and>
    route_key method path = route_key (rt_Method rt) (rt_PathTemplate rt)"
proof -
  have wf: "gateway_template tmpl \<and> rt_Provider r = tm_Provider tmpl \<and>
      (\<exists>name. rt_Capability r = tm_Provider tmpl @ ''.'' @ name) \<and>
      rt_UpstreamHost r = fst (parseEndpoint pu (tm_TestEndpoint tmpl)) \<and> rt_SecretRef r = vaultSecretRef tmpl \<and>
      rt_MaxBodyBytes r = 10485760 \<and> rt_ExchangeStrategy r \<noteq> [] \<and>
      (rt_RiskLabel r \<in> set highRiskLabels \<longrightarrow> rt_LLMSessionDeny r)"
    if "route_of_template pu tmpl r" for tmpl r
  proof -
    from that have g: "gateway_template tmpl" by (simp add: route_of_template_def Let_def)
    from that consider action where "r = action_route tmpl (parseEndpoint pu (tm_TestEndpoint tmpl)) action"
      | cap where "r = capability_route tmpl (parseEndpoint pu (tm_TestEndpoint tmpl)) cap"
      by (auto simp: route_of_template_def Let_def)
    then show ?thesis
      by cases (simp_all add: g action_route_def capability_route_def or_default_def defaultMaxBodyBytes_def highRiskLabels_def)
  qed
  define r where "r = route_Compile pu templates"
  have t: "table_ok pu (set templates) r" using table_ok_Compile by (simp add: r_def)
  show ?thesis
  proof (cases "ro_routes r (route_key method path)")
    case (Some rt')
    with assms have "rt' = rt" by (simp add: route_Match_def r_def)
    with Some t show ?thesis using wf unfolding table_ok_def by blast
  next
    case None
    with assms have "ro_sdkRoutes r (route_key method path) = Some rt" by (simp add: route_Match_def r_def)
    with t obtain tmpl rt0 where "tmpl \<in> set templates" "route_of_template pu tmpl rt0"
        and e: "rt = rt0\<lparr>rt_SDKPath := rt_SDKPath rt, rt_PathTemplate := rt_SDKPath rt\<rparr>"
        and k: "route_key method path = route_key (rt_Method rt) (rt_SDKPath rt)"
      unfolding table_ok_def by blast
    moreover have "rt_PathTemplate rt = rt_SDKPath rt" by (subst e) simp
    moreover have "rt_Provider rt = rt_Provider rt0" "rt_Capability rt = rt_Capability rt0"
      "rt_UpstreamHost rt = rt_UpstreamHost rt0" "rt_SecretRef rt = rt_SecretRef rt0" "rt_MaxBodyBytes rt = rt_MaxBodyBytes rt0"
      "rt_ExchangeStrategy rt = rt_ExchangeStrategy rt0" "rt_RiskLabel rt = rt_RiskLabel rt0"
      "rt_LLMSessionDeny rt = rt_LLMSessionDeny rt0" by (subst e, simp)+
    ultimately show ?thesis using wf [of tmpl rt0] by (intro bexI [of _ tmpl]) auto
  qed
qed

definition sample_action :: gateway_action where
  "sample_action = \<lparr>ga_Name = ''refund'', ga_SDKPath = ''/v1/refunds'', ga_Method = [], ga_UpstreamPath = ''/api/v1/refunds'',
     ga_ExchangeStrategy = [], ga_MaskingProfile = [], ga_AllowedFields = [], ga_RiskLabel = ''financial'',
     ga_UntrustedContentSource = False, ga_LLMSessionDeny = False\<rparr>"

definition sample_template :: connection_template where
  "sample_template = \<lparr>tm_Provider = ''openrouter'', tm_Category = [], tm_Preferred = ''gateway_sdk'', tm_Supported = [],
     tm_TestEndpoint = ''https://openrouter.ai/api/v1/models'',
     tm_AuthPlacement = \<lparr>ap_In = ''header'', ap_Name = ''Authorization'', ap_Scheme = ''Bearer''\<rparr>,
     tm_Redaction = [], tm_InjectionSources = [''api_key''], tm_Capabilities = [], tm_GatewayActions = [sample_action]\<rparr>"

definition sample_parse_url :: "gostring \<Rightarrow> (gostring \<times> gostring) option" where
  "sample_parse_url s = (if s = ''https://openrouter.ai/api/v1/models'' then Some (''openrouter.ai'', ''/api/v1/models'') else None)"

definition sample_route :: route where
  "sample_route = action_route sample_template (''openrouter.ai'', ''/api/v1/models'') sample_action"

lemma sample_match:
  "route_Match (route_Compile sample_parse_url [sample_template]) ''POST'' ''/api/openrouter/refund'' = Some sample_route"
  by (simp add: route_Match_def route_Compile_def compile_template_def compile_action_def gateway_template_def add_route_def
      add_sdk_route_def sample_template_def sample_action_def parseEndpoint_def sample_parse_url_def action_route_def
      route_key_def or_default_def sample_route_def)

theorem matched_route_from_template_witness:
  "rt_SecretRef sample_route = vaultSecretRef sample_template \<and> rt_LLMSessionDeny sample_route"
  using matched_route_from_template [OF sample_match]
  by (auto simp: sample_route_def action_route_def sample_action_def highRiskLabels_def)

end
