(* ===== verification/Static_Broker.thy ===== *)
theory Static_Broker
  imports KL_Prelude
begin

section \<open>The static token broker (\<open>internal/gateway/staticbroker\<close>)\<close>

text \<open>
  \<open>broker.go\<close>: the exchange of a root credential for the token the gateway injects, the in-process cache and
  the lock the vault sets. Each operation holds the mutex, so it is one step. Go does not fix the order in
  which \<open>set\<close> looks at the cache; the order is an argument. Bytes that are zeroed are the same bytes elsewhere
  only if the value is shared, which no operation of the package does.
\<close>

record exchange_spec =
  es_Strategy :: gostring
  es_RootCredential :: gostring
  es_Actor :: gostring
  es_Capability :: gostring
  es_Namespace :: gostring
  es_TTL :: duration

record access_token =
  at_Value :: gostring
  at_ExpiresAt :: gotime
  at_Metadata :: "(gostring \<times> gostring) list"

definition token_Zero :: "access_token \<Rightarrow> access_token" where
  "token_Zero a = a\<lparr>at_Value := map (\<lambda>_. CHR 0x00) (at_Value a)\<rparr>"

record broker_cache_key =
  ck_Provider :: gostring
  ck_Actor :: gostring
  ck_Namespace :: gostring
  ck_Capability :: gostring

record cached_token =
  ct_token :: access_token
  ct_expiresAt :: gotime

record broker =
  br_cache :: "broker_cache_key \<Rightarrow> cached_token option"
  br_maxEntries :: nat
  br_locked :: bool

datatype broker_error = ErrExchangeUnsupported | ErrVaultLocked

definition defaultMaxEntries :: nat where "defaultMaxEntries = 500"

definition NewWithOptions :: "int \<Rightarrow> broker" where
  "NewWithOptions maxEntries =
    \<lparr>br_cache = Map.empty, br_maxEntries = (if maxEntries \<le> 0 then defaultMaxEntries else nat maxEntries), br_locked = False\<rparr>"

definition broker_New :: broker where "broker_New = NewWithOptions (int defaultMaxEntries)"

definition broker_evictExpired :: "gotime \<Rightarrow> broker \<Rightarrow> broker" where
  "broker_evictExpired now b = b\<lparr>br_cache := (\<lambda>k. case br_cache b k of None \<Rightarrow> None
     | Some ct \<Rightarrow> if ct_expiresAt ct < now then None else Some ct)\<rparr>"

text \<open>The first entry in the order with the least expiry.\<close>

fun evict_candidate :: "(broker_cache_key \<Rightarrow> cached_token option) \<Rightarrow> (broker_cache_key \<times> gotime) option \<Rightarrow> broker_cache_key list \<Rightarrow> broker_cache_key option" where
  "evict_candidate m best [] = map_option fst best"
| "evict_candidate m best (k # ks) =
    (case m k of None \<Rightarrow> evict_candidate m best ks
     | Some v \<Rightarrow>
        (case best of None \<Rightarrow> evict_candidate m (Some (k, ct_expiresAt v)) ks
         | Some (ek, e) \<Rightarrow> if ct_expiresAt v < e then evict_candidate m (Some (k, ct_expiresAt v)) ks
                        else evict_candidate m best ks))"

definition broker_set :: "broker_cache_key list \<Rightarrow> broker_cache_key \<Rightarrow> cached_token \<Rightarrow> broker \<Rightarrow> broker" where
  "broker_set order key ct b =
    (let full = (length order \<ge> br_maxEntries b);
         m = (if full then (case evict_candidate (br_cache b) None order of None \<Rightarrow> br_cache b
                            | Some k \<Rightarrow> (br_cache b)(k := None))
              else br_cache b)
     in b\<lparr>br_cache := m(key \<mapsto> ct)\<rparr>)"

definition broker_Exchange :: "gotime \<Rightarrow> exchange_spec \<Rightarrow> broker \<Rightarrow> broker_error + access_token" where
  "broker_Exchange now spec b =
    (if br_locked b then Inl ErrVaultLocked
     else if es_Strategy spec \<in> {''static_gateway_only'', []} then
       (let ttl = (if es_TTL spec \<le> 0 then Hour else es_TTL spec) in
        Inr \<lparr>at_Value = es_RootCredential spec, at_ExpiresAt = now + ttl,
             at_Metadata = [(''strategy'', ''static_gateway_only'')]\<rparr>)
     else if es_Strategy spec = ''none'' then
       Inr \<lparr>at_Value = [], at_ExpiresAt = now + Hour, at_Metadata = [(''strategy'', ''none'')]\<rparr>
     else Inl ErrExchangeUnsupported)"

definition broker_Revoke :: "broker_cache_key \<Rightarrow> broker \<Rightarrow> broker" where
  "broker_Revoke key b = b\<lparr>br_cache := (br_cache b)(key := None)\<rparr>"

text \<open>The metadata comes with the error for an unsupported strategy, and without it otherwise.\<close>

definition broker_DryRun :: "exchange_spec \<Rightarrow> broker \<Rightarrow> (gostring \<times> gostring) list option \<times> broker_error option" where
  "broker_DryRun spec b =
    (if br_locked b then (None, Some ErrVaultLocked)
     else if es_Strategy spec \<in> {''static_gateway_only'', []} then
       (Some [(''strategy'', ''static_gateway_only''), (''would_exchange'', ''false''), (''credential_shape'', ''root_as_is'')], None)
     else if es_Strategy spec = ''none'' then
       (Some [(''strategy'', ''none''), (''would_exchange'', ''false''), (''credential_shape'', ''empty'')], None)
     else
       (Some [(''strategy'', es_Strategy spec), (''supported'', ''false''), (''phase'', ''13''),
         (''remediation'', ''Dynamic exchange strategies are not yet available. Static gateway mode is available now.'')],
        Some ErrExchangeUnsupported))"

definition broker_OnVaultLock :: "broker \<Rightarrow> broker" where
  "broker_OnVaultLock b = b\<lparr>br_cache := Map.empty, br_locked := True\<rparr>"

definition broker_OnVaultUnlock :: "broker \<Rightarrow> broker" where
  "broker_OnVaultUnlock b = b\<lparr>br_locked := False\<rparr>"

subsection \<open>The broker as a state machine\<close>

inductive broker_step :: "broker \<Rightarrow> broker \<Rightarrow> bool" where
  bs_evict: "broker_step b (broker_evictExpired now b)"
| bs_set: "distinct order \<Longrightarrow> set order = dom (br_cache b) \<Longrightarrow> broker_step b (broker_set order key ct b)"
| bs_revoke: "broker_step b (broker_Revoke key b)"
| bs_lock: "broker_step b (broker_OnVaultLock b)"
| bs_unlock: "broker_step b (broker_OnVaultUnlock b)"

inductive broker_reach :: "broker \<Rightarrow> bool" where
  br_new: "broker_reach (NewWithOptions n)"
| br_step: "broker_reach b \<Longrightarrow> broker_step b b' \<Longrightarrow> broker_reach b'"

text \<open>The cache never holds more than its bound.\<close>

definition broker_ok :: "broker \<Rightarrow> bool" where
  "broker_ok b = (finite (dom (br_cache b)) \<and> card (dom (br_cache b)) \<le> br_maxEntries b \<and> 0 < br_maxEntries b)"

lemma evict_candidate_in:
  "evict_candidate m best ks = Some k \<Longrightarrow> pred_option (\<lambda>x. fst x \<in> dom m) best \<Longrightarrow> k \<in> dom m"
proof (induction ks arbitrary: best)
  case (Cons a ks)
  show ?case
  proof (cases "m a = None \<or> (\<exists>ek e. best = Some (ek, e) \<and> \<not> ct_expiresAt (the (m a)) < e)")
    case True
    then show ?thesis using Cons.prems by (intro Cons.IH [of best]) (auto split: option.splits)
  next
    case False
    then show ?thesis using Cons.prems
      by (intro Cons.IH [of "Some (a, ct_expiresAt (the (m a)))"]) (auto split: option.splits)
  qed
qed auto

lemma evict_candidate_best: "best \<noteq> None \<Longrightarrow> \<exists>k. evict_candidate m best ks = Some k"
  by (induction ks arbitrary: best) (auto split: option.splits)

lemma evict_candidate_Some: "k \<in> set ks \<Longrightarrow> k \<in> dom m \<Longrightarrow> \<exists>k. evict_candidate m None ks = Some k"
  by (induction ks) (auto split: option.splits intro: evict_candidate_best)

lemma broker_ok_shrink:
  assumes "broker_ok b" "dom (br_cache b') \<subseteq> dom (br_cache b)" "br_maxEntries b' = br_maxEntries b"
  shows "broker_ok b'"
proof -
  have fin: "finite (dom (br_cache b))" using assms(1) by (simp add: broker_ok_def)
  from card_mono [OF fin assms(2)] finite_subset [OF assms(2) fin] show ?thesis
    using assms by (simp add: broker_ok_def)
qed

lemma broker_ok_set:
  assumes ok: "broker_ok b" and o: "distinct order" "set order = dom (br_cache b)"
  shows "broker_ok (broker_set order key ct b)"
proof (cases "length order \<ge> br_maxEntries b")
  case True
  have len: "length order = card (dom (br_cache b))" using distinct_card [OF o(1)] o(2) by simp
  with True ok have "order \<noteq> []" by (auto simp: broker_ok_def)
  then have "hd order \<in> set order" "hd order \<in> dom (br_cache b)" using o(2) hd_in_set by blast+
  then obtain k where k: "evict_candidate (br_cache b) None order = Some k" using evict_candidate_Some by blast
  from evict_candidate_in [OF k] have d: "k \<in> dom (br_cache b)" by simp
  have fin: "finite (dom (br_cache b))" using ok by (simp add: broker_ok_def)
  have "card (insert key (dom (br_cache b) - {k})) \<le> Suc (card (dom (br_cache b) - {k}))"
    by (simp add: card_insert_le_m1 card_insert_if fin)
  also have "\<dots> = card (dom (br_cache b))" using card_Suc_Diff1 [OF fin d] .
  finally show ?thesis using True k ok by (simp add: broker_set_def broker_ok_def)
next
  case False
  have "length order = card (dom (br_cache b))" using distinct_card [OF o(1)] o(2) by simp
  then have "card (insert key (dom (br_cache b))) \<le> br_maxEntries b"
    using False ok by (simp add: card_insert_if broker_ok_def)
  then show ?thesis using False ok by (simp add: broker_set_def broker_ok_def)
qed

lemma broker_ok_step: "broker_step b b' \<Longrightarrow> broker_ok b \<Longrightarrow> broker_ok b'"
proof (induction rule: broker_step.induct)
  case (bs_evict b now)
  show ?case by (rule broker_ok_shrink [OF bs_evict])
      (auto simp: broker_evictExpired_def split: option.splits if_splits)
next
  case (bs_revoke b key)
  show ?case by (rule broker_ok_shrink [OF bs_revoke]) (auto simp: broker_Revoke_def)
next
  case (bs_lock b)
  show ?case by (rule broker_ok_shrink [OF bs_lock]) (auto simp: broker_OnVaultLock_def)
next
  case (bs_unlock b)
  show ?case by (rule broker_ok_shrink [OF bs_unlock]) (auto simp: broker_OnVaultUnlock_def)
qed (auto intro: broker_ok_set)

lemma broker_reach_ok: "broker_reach b \<Longrightarrow> broker_ok b"
proof (induction rule: broker_reach.induct)
  case (br_new n)
  show ?case by (simp add: broker_ok_def NewWithOptions_def defaultMaxEntries_def)
qed (auto intro: broker_ok_step)

text \<open>In every state the broker can reach, its cache holds at most its maximum of entries; and once the
  vault locks, the cache is empty and every exchange fails until the unlock.\<close>

theorem broker_cache_bounded:
  assumes "broker_reach b"
  shows "card (dom (br_cache b)) \<le> br_maxEntries b \<and>
    dom (br_cache (broker_OnVaultLock b)) = {} \<and> broker_Exchange now spec (broker_OnVaultLock b) = Inl ErrVaultLocked"
  using broker_reach_ok [OF assms] by (simp add: broker_ok_def broker_OnVaultLock_def broker_Exchange_def)

theorem broker_cache_bounded_witness:
  "card (dom (br_cache (NewWithOptions 1))) \<le> br_maxEntries (NewWithOptions 1)"
  using broker_cache_bounded [OF br_new] by blast

end
