(* ===== verification/Masking.thy ===== *)
theory Masking
  imports Json_Canonical
begin

section \<open>Masking of response bodies (\<open>internal/masking\<close>)\<close>

text \<open>
  \<open>secret_fields.go\<close>: which field names carry a credential, and the redaction of the values of such fields in
  JSON and in text. \<open>content_labeler.go\<close>, \<open>redactor.go\<close>: the treatment of content of untrusted providers and
  the masking levels. The members of an object are listed in the order in which the code ranges over the map,
  which Go leaves open. Case conversion of text that need not be ASCII (\<open>lower\<close>), the regular
  expressions (by the names the source gives them) and the JSON decoder and encoder are parameters.
\<close>

subsection \<open>Field names\<close>

definition sensitiveKeySuffixes :: "gostring list" where
  "sensitiveKeySuffixes = [''password'', ''passwd'', ''pwd'', ''passphrase'', ''secret'', ''token'', ''apikey'', ''privatekey'',
     ''secretkey'', ''accesskey'', ''jwt'', ''signature'', ''authorization'', ''cookie'', ''credential'', ''credentials'']"

definition sensitiveKeyWords :: "gostring list" where
  "sensitiveKeyWords = [''password'', ''passwd'', ''passphrase'', ''secret'']"

definition identifierKeySuffixes :: "gostring list" where
  "identifierKeySuffixes = [''id'', ''ids'', ''name'', ''names'', ''arn'', ''ref'', ''version'', ''type'', ''count'',
     ''length'', ''enabled'', ''required'', ''policy'', ''at'', ''date'', ''expiry'', ''expires'']"

definition paginationKeySuffixes :: "gostring list" where
  "paginationKeySuffixes = [''pagetoken'', ''nexttoken'', ''continuationtoken'', ''cursortoken'', ''synctoken'']"

definition normaliseKey :: "(gostring \<Rightarrow> gostring) \<Rightarrow> gostring \<Rightarrow> gostring" where
  "normaliseKey lower name = filter (\<lambda>r. r \<notin> set ''_-. '') (lower name)"

text \<open>Called with a word that occurs in \<open>n\<close>.\<close>

definition hasIdentifierSuffix :: "gostring \<Rightarrow> gostring \<Rightarrow> bool" where
  "hasIdentifierSuffix n word =
    (let rest = drop (the (LastIndex n word) + length word) n in list_ex (HasSuffix rest) identifierKeySuffixes)"

definition IsSensitiveKey :: "(gostring \<Rightarrow> gostring) \<Rightarrow> gostring \<Rightarrow> bool" where
  "IsSensitiveKey lower name =
    (let n = normaliseKey lower name in
     if list_ex (HasSuffix n) paginationKeySuffixes then False
     else if list_ex (HasSuffix n) sensitiveKeySuffixes then True
     else list_ex (\<lambda>w. Contains n w \<and> \<not> hasIdentifierSuffix n w) sensitiveKeyWords)"

subsection \<open>Redaction of JSON values\<close>

definition redactableValue :: "json \<Rightarrow> bool" where
  "redactableValue v = (case v of JBool _ \<Rightarrow> False | JNull \<Rightarrow> False | _ \<Rightarrow> True)"

text \<open>The credential name of an entry: the last member called name or key, in any case, that is a string.\<close>

fun pair_name :: "(gostring \<Rightarrow> gostring) \<Rightarrow> (gostring \<times> json) list \<Rightarrow> gostring \<Rightarrow> gostring" where
  "pair_name lower [] name = name"
| "pair_name lower ((k, v) # ms) name =
    pair_name lower ms (if lower k \<in> {''name'', ''key''} then (case v of JStr s \<Rightarrow> s | _ \<Rightarrow> name) else name)"

definition pair_sensitive :: "(gostring \<Rightarrow> gostring) \<Rightarrow> (gostring \<times> json) list \<Rightarrow> bool" where
  "pair_sensitive lower ms = (let name = pair_name lower ms [] in name \<noteq> [] \<and> IsSensitiveKey lower name)"

definition pair_hit :: "(gostring \<Rightarrow> gostring) \<Rightarrow> gostring \<Rightarrow> bool \<Rightarrow> gostring \<Rightarrow> json \<Rightarrow> bool" where
  "pair_hit lower placeholder sens k v =
    (sens \<and> lower k = ''value'' \<and> redactableValue v \<and> v \<noteq> JStr placeholder)"

definition redactNameValuePair ::
  "(gostring \<Rightarrow> gostring) \<Rightarrow> gostring \<Rightarrow> (gostring \<times> json) list \<Rightarrow> (gostring \<times> json) list \<times> bool" where
  "redactNameValuePair lower placeholder ms =
    (let hit = pair_hit lower placeholder (pair_sensitive lower ms) in
     (map (\<lambda>(k, v). if hit k v then (k, JStr placeholder) else (k, v)) ms, list_ex (\<lambda>(k, v). hit k v) ms))"

text \<open>An object goes through \<open>redactNameValuePair\<close> and then member by member; a member the first has replaced is
  the placeholder in the second, which leaves it.\<close>

fun redactValue :: "(gostring \<Rightarrow> gostring) \<Rightarrow> gostring \<Rightarrow> json \<Rightarrow> json \<times> bool" where
  "redactValue lower placeholder (JObj ms) =
    (let hit = pair_hit lower placeholder (pair_sensitive lower ms);
         rs = map (\<lambda>(k, child).
                if hit k child then (k, JStr placeholder, True)
                else if IsSensitiveKey lower k \<and> redactableValue child then (k, JStr placeholder, True)
                else (let (nv, c) = redactValue lower placeholder child in (k, if c then nv else child, c))) ms
     in (JObj (map (\<lambda>(k, v, c). (k, v)) rs), list_ex (\<lambda>(k, v, c). c) rs))"
| "redactValue lower placeholder (JArr vs) =
    (let rs = map (\<lambda>child. let (nv, c) = redactValue lower placeholder child in (if c then nv else child, c)) vs
     in (JArr (map fst rs), list_ex snd rs))"
| "redactValue lower placeholder v = (v, False)"

subsection \<open>Redaction of text\<close>

text \<open>\<open>ReplaceAllFunc\<close> of a named expression: the function gets the submatches, the match first. Patterns of
  routes are compiled at run time and may not be valid.\<close>

datatype re_name =
    PrivateKeyBlockRe | UrlUserinfoRe | HeaderLineRe | EnvLineRe | XmlElementRe | NameValueRe | PairRe | StrictTokenRe
  | CommonPattern nat | ProviderPattern gostring nat | DataClass gostring | TokenPattern nat | RoutePattern gostring

record text_env =
  tx_lower :: "gostring \<Rightarrow> gostring"
  tx_Replace :: "re_name \<Rightarrow> (gostring list \<Rightarrow> gostring) \<Rightarrow> gostring \<Rightarrow> gostring"
  tx_Match :: "re_name \<Rightarrow> gostring \<Rightarrow> bool"
  tx_Compiles :: "gostring \<Rightarrow> bool"
  tx_Decode :: "gostring \<Rightarrow> json option"
  tx_Encode :: "json \<Rightarrow> gostring option"

definition xmlLocalName :: "gostring \<Rightarrow> gostring" where
  "xmlLocalName name = (case LastIndex name '':'' of Some i \<Rightarrow> drop (i + 1) name | None \<Rightarrow> name)"

definition redactInlineSecrets :: "text_env \<Rightarrow> gostring \<Rightarrow> gostring \<Rightarrow> gostring" where
  "redactInlineSecrets E placeholder body =
    (let out = tx_Replace E PrivateKeyBlockRe (\<lambda>_. placeholder) body
     in tx_Replace E UrlUserinfoRe (\<lambda>sub. sub ! 1 @ placeholder @ sub ! 3) out)"

definition redactTextSecretFields :: "text_env \<Rightarrow> gostring \<Rightarrow> gostring \<Rightarrow> gostring" where
  "redactTextSecretFields E placeholder body =
    (let sens = IsSensitiveKey (tx_lower E);
         out1 = tx_Replace E HeaderLineRe
           (\<lambda>sub. if \<not> sens (sub ! 2) then sub ! 0 else sub ! 1 @ sub ! 2 @ sub ! 3 @ placeholder) body;
         out2 = tx_Replace E EnvLineRe
           (\<lambda>sub. if \<not> sens (sub ! 2) \<or> TrimSpace (sub ! 4) = [] then sub ! 0
                  else sub ! 1 @ sub ! 2 @ sub ! 3 @ placeholder) out1;
         out3 = tx_Replace E XmlElementRe
           (\<lambda>sub. if sub ! 1 \<noteq> sub ! 4 \<or> \<not> sens (xmlLocalName (sub ! 1)) \<or> TrimSpace (sub ! 3) = [] then sub ! 0
                  else ''<'' @ sub ! 1 @ sub ! 2 @ ''>'' @ placeholder @ ''</'' @ sub ! 4 @ ''>'') out2;
         out4 = tx_Replace E NameValueRe
           (\<lambda>sub. if \<not> sens (sub ! 2) then sub ! 0
                  else sub ! 1 @ sub ! 2 @ sub ! 3 @ [CHR 0x22] @ placeholder @ [CHR 0x22]) out3
     in tx_Replace E PairRe
          (\<lambda>sub. if \<not> sens (sub ! 2) \<or> HasPrefix placeholder (sub ! 5) then sub ! 0
                 else (let q = sub ! 5;
                           val = (if q \<noteq> [] \<and> hd q \<in> {CHR 0x22, CHR 0x27} then [hd q] @ placeholder @ [hd q] else placeholder)
                       in sub ! 1 @ sub ! 2 @ sub ! 3 @ sub ! 4 @ val)) out4)"

text \<open>\<open>None\<close> when the body is not a JSON object or array, or cannot be written back.\<close>

definition redactJSONSecretFields :: "text_env \<Rightarrow> gostring \<Rightarrow> gostring \<Rightarrow> gostring option" where
  "redactJSONSecretFields E placeholder body =
    (let trimmed = TrimSpace body in
     if trimmed = [] \<or> hd trimmed \<notin> set ''{['' then None
     else (case tx_Decode E trimmed of None \<Rightarrow> None
       | Some v \<Rightarrow>
          (let (v', changed) = redactValue (tx_lower E) placeholder v in
           if \<not> changed then Some body else tx_Encode E v')))"

definition RedactSecretFields :: "text_env \<Rightarrow> gostring \<Rightarrow> gostring \<Rightarrow> gostring" where
  "RedactSecretFields E body placeholder =
    (if body = [] then body
     else redactInlineSecrets E placeholder
            (case redactJSONSecretFields E placeholder body of Some out \<Rightarrow> out
             | None \<Rightarrow> redactTextSecretFields E placeholder body))"

subsection \<open>Masking levels\<close>

datatype masking_level = MaskingBasic | MaskingStrict | MaskingMetadataOnly | MaskingBlockBody | MaskingUnset | MaskingOther gostring

record masking_policy =
  mp_Level :: masking_level
  mp_AllowFields :: "gostring list"
  mp_MaxBodyChars :: int
  mp_BlockAttachments :: bool

definition redactedPlaceholder :: gostring where "redactedPlaceholder = ''[REDACTED]''"

definition basicClasses :: "gostring list" where
  "basicClasses = [''api_key'', ''auth_header'', ''oauth_code'', ''access_token'', ''refresh_token'', ''private_key'']"

definition strictClasses :: "gostring list" where
  "strictClasses = [''email'', ''phone'', ''customer_id'', ''payment_id'', ''presigned_url'']"

definition applyClass :: "text_env \<Rightarrow> gostring \<Rightarrow> gostring \<Rightarrow> gostring" where
  "applyClass E class body = tx_Replace E (DataClass class) (\<lambda>_. redactedPlaceholder) body"

definition applyClasses :: "text_env \<Rightarrow> gostring list \<Rightarrow> gostring \<Rightarrow> gostring" where
  "applyClasses E classes body = fold (applyClass E) classes body"

definition redactToAllowFields :: "text_env \<Rightarrow> gostring \<Rightarrow> gostring list \<Rightarrow> gostring" where
  "redactToAllowFields E body allowFields =
    (if length allowFields = 0 then ''{}''
     else (case tx_Decode E body of
       Some (JObj m) \<Rightarrow>
         (case tx_Encode E (JObj (filter (\<lambda>(k, v). k \<in> set allowFields) m)) of None \<Rightarrow> ''{}'' | Some out \<Rightarrow> out)
     | Some JNull \<Rightarrow> (case tx_Encode E (JObj []) of None \<Rightarrow> ''{}'' | Some out \<Rightarrow> out)
     | _ \<Rightarrow> ''{}''))"

definition truncate_to :: "int \<Rightarrow> gostring \<Rightarrow> gostring" where
  "truncate_to n body = (if n > 0 \<and> int (length body) > n then take (nat n) body else body)"

text \<open>\<open>None\<close> for an unknown level.\<close>

definition masking_Redact :: "text_env \<Rightarrow> gostring \<Rightarrow> masking_policy \<Rightarrow> gostring option" where
  "masking_Redact E body0 p =
    (let body = truncate_to (mp_MaxBodyChars p) body0;
         attach = (\<lambda>out. if mp_BlockAttachments p then applyClass E ''attachment_url'' out else out);
         basic = applyClasses E basicClasses (RedactSecretFields E body redactedPlaceholder)
     in case mp_Level p of
          MaskingBlockBody \<Rightarrow> Some ''{}''
        | MaskingMetadataOnly \<Rightarrow> Some (redactToAllowFields E body (mp_AllowFields p))
        | MaskingStrict \<Rightarrow>
            Some (attach (tx_Replace E StrictTokenRe (\<lambda>_. redactedPlaceholder) (applyClasses E strictClasses basic)))
        | MaskingBasic \<Rightarrow> Some (attach basic)
        | MaskingUnset \<Rightarrow> Some (attach basic)
        | MaskingOther _ \<Rightarrow> None)"

subsection \<open>Content of untrusted providers\<close>

definition UntrustedContentLabel :: gostring where "UntrustedContentLabel = ''__keylatch_untrusted_tool_data__''"

definition UntrustedContentProviders :: "gostring list" where
  "UntrustedContentProviders = [''gmail'', ''slack'', ''notion'', ''dropbox'', ''google-docs'', ''github-issues'', ''zendesk'',
     ''intercom'', ''hubspot'', ''salesforce'']"

definition contentFieldNames :: "gostring list" where
  "contentFieldNames = [''body'', ''content'', ''text'', ''message'', ''snippet'', ''description'', ''html'', ''plain'', ''payload'', ''data'']"

definition isContentField :: "gostring \<Rightarrow> bool" where
  "isContentField name = (name \<in> set contentFieldNames)"

fun labelFields :: "json \<Rightarrow> json" where
  "labelFields (JObj ms) =
    JObj (map (\<lambda>(k, child). if isContentField k then (UntrustedContentLabel @ '':'' @ k, child) else (k, labelFields child)) ms)"
| "labelFields (JArr vs) = JArr (map labelFields vs)"
| "labelFields v = v"

fun stripFields :: "json \<Rightarrow> json" where
  "stripFields (JObj ms) = JObj (map (\<lambda>(k, child). (k, stripFields child)) (filter (\<lambda>(k, _). \<not> isContentField k) ms))"
| "stripFields (JArr vs) = JArr (map stripFields vs)"
| "stripFields v = v"

text \<open>Decoding into a map: an object, or null, which gives the nil map.\<close>

definition decode_map :: "text_env \<Rightarrow> gostring \<Rightarrow> json option" where
  "decode_map E body = (case tx_Decode E body of Some (JObj m) \<Rightarrow> Some (JObj m) | Some JNull \<Rightarrow> Some (JObj []) | _ \<Rightarrow> None)"

definition encode_or_empty :: "text_env \<Rightarrow> json \<Rightarrow> gostring" where
  "encode_or_empty E v = (case tx_Encode E v of Some out \<Rightarrow> out | None \<Rightarrow> [])"

definition labelContentFields :: "text_env \<Rightarrow> gostring \<Rightarrow> gostring" where
  "labelContentFields E body =
    (let wrapped = encode_or_empty E (JObj [(UntrustedContentLabel, JStr body)]) in
     case decode_map E body of None \<Rightarrow> wrapped
     | Some m \<Rightarrow> (case tx_Encode E (labelFields m) of None \<Rightarrow> wrapped | Some out \<Rightarrow> out))"

definition stripContentFields :: "text_env \<Rightarrow> gostring \<Rightarrow> gostring" where
  "stripContentFields E body =
    (case decode_map E body of None \<Rightarrow> ''{}''
     | Some m \<Rightarrow> (case tx_Encode E (stripFields m) of None \<Rightarrow> ''{}'' | Some out \<Rightarrow> out))"

definition LabelResponse :: "text_env \<Rightarrow> gostring \<Rightarrow> gostring \<Rightarrow> gostring \<Rightarrow> int \<Rightarrow> gostring" where
  "LabelResponse E providerID body0 handling maxContentChars =
    (if providerID \<notin> set UntrustedContentProviders then body0
     else (let body = truncate_to maxContentChars body0 in
           if handling = ''strip'' then stripContentFields E body
           else if handling = ''label'' \<or> handling = [] then labelContentFields E body
           else encode_or_empty E (JObj [(''content'', JStr ''__keylatch_content_stripped_pending_summarization__'')])))"

subsection \<open>What redaction guarantees\<close>

text \<open>No value under a credential name is left, at any depth, other than the placeholder; nor the value of an
  entry whose name is a credential name.\<close>

fun masked :: "(gostring \<Rightarrow> gostring) \<Rightarrow> gostring \<Rightarrow> json \<Rightarrow> bool" where
  "masked lower placeholder (JObj ms) =
    (\<forall>m \<in> set ms. let k = fst m; v = snd m in
       (redactableValue v \<and> (IsSensitiveKey lower k \<or> (lower k = ''value'' \<and> pair_sensitive lower ms)) \<longrightarrow> v = JStr placeholder) \<and>
       masked lower placeholder v)"
| "masked lower placeholder (JArr vs) = (\<forall>v \<in> set vs. masked lower placeholder v)"
| "masked lower placeholder v = True"

lemma redactValue_unchanged:
  assumes "\<not> snd (redactValue lower ph v)"
  shows "fst (redactValue lower ph v) = v"
proof (cases v)
  case (JObj ms)
  define g where "g = (\<lambda>(k, child).
                if pair_hit lower ph (pair_sensitive lower ms) k child then (k, JStr ph, True)
                else if IsSensitiveKey lower k \<and> redactableValue child then (k, JStr ph, True)
                else (let (nv, c) = redactValue lower ph child in (k, if c then nv else child, c)))"
  have r: "redactValue lower ph v = (JObj (map (\<lambda>(k, v, c). (k, v)) (map g ms)), list_ex (\<lambda>(k, v, c). c) (map g ms))"
    by (simp add: JObj g_def Let_def)
  have "(case g m of (k, v, c) \<Rightarrow> (k, v)) = m" if m: "m \<in> set ms" for m
  proof -
    have "\<not> (case g m of (k, v, c) \<Rightarrow> c)" using assms m by (auto simp: r list_ex_iff)
    then show ?thesis by (cases m) (auto simp: g_def Let_def split: prod.splits if_splits)
  qed
  then have "map (\<lambda>(k, v, c). (k, v)) (map g ms) = ms" by (simp add: map_idI)
  with r have "fst (redactValue lower ph v) = JObj ms" by (simp only: fst_conv)
  then show ?thesis by (simp only: JObj)
next
  case (JArr vs)
  have "(let (nv, c) = redactValue lower ph x in (if c then nv else x, c)) = (x, False)" if "x \<in> set vs" for x
    using assms that by (auto simp: JArr Let_def list_ex_iff case_prod_beta)
  then show ?thesis by (auto simp: JArr Let_def case_prod_beta intro!: map_idI)
qed simp_all

text \<open>So the new value may always be taken from the recursive call.\<close>

lemma redactValue_obj:
  "fst (redactValue lower ph (JObj ms)) =
    JObj (map (\<lambda>(k, v). (k, if pair_hit lower ph (pair_sensitive lower ms) k v \<or> (IsSensitiveKey lower k \<and> redactableValue v)
                            then JStr ph else fst (redactValue lower ph v))) ms)"
  using redactValue_unchanged by (auto simp: Let_def case_prod_beta)

lemma redactValue_arr: "fst (redactValue lower ph (JArr vs)) = JArr (map (\<lambda>v. fst (redactValue lower ph v)) vs)"
  using redactValue_unchanged by (auto simp: Let_def case_prod_beta)

lemma redactable_redactValue: "redactableValue (fst (redactValue lower ph v)) = redactableValue v"
  by (cases v) (simp_all add: redactableValue_def Let_def case_prod_beta)

lemma name_key_not_sensitive:
  assumes "lower k \<in> {''name'', ''key''}"
  shows "\<not> IsSensitiveKey lower k"
proof -
  have e: "\<not> list_ex (HasSuffix n) sensitiveKeySuffixes" "\<not> list_ex (\<lambda>w. Contains n w) sensitiveKeyWords"
    if "n \<in> {''name'', ''key''}" for n
    using that by (elim insertE emptyE; hypsubst; code_simp)+
  have "normaliseKey lower k \<in> {''name'', ''key''}" using assms by (auto simp: normaliseKey_def)
  from e [OF this] show ?thesis by (auto simp: IsSensitiveKey_def Let_def list_ex_iff)
qed

lemma pair_name_redact:
  assumes "\<And>k v. (k, v) \<in> set ms \<Longrightarrow> lower k \<in> {''name'', ''key''} \<Longrightarrow> f k v = fst (redactValue lower ph v)"
  shows "pair_name lower (map (\<lambda>(k, v). (k, f k v)) ms) n = pair_name lower ms n"
  using assms
proof (induction lower ms n rule: pair_name.induct)
  case (2 lower k v ms name)
  have "(case f k v of JStr s \<Rightarrow> s | _ \<Rightarrow> name) = (case v of JStr s \<Rightarrow> s | _ \<Rightarrow> name)" if "lower k \<in> {''name'', ''key''}"
    using 2(2) [of k v] that by (cases v) (auto simp: Let_def)
  with 2 show ?case by auto
qed simp

lemma masked_redactValue: "masked lower ph (fst (redactValue lower ph v))"
proof (induction lower ph v rule: redactValue.induct)
  case (1 lower ph ms)
  define f where "f k v = (if pair_hit lower ph (pair_sensitive lower ms) k v \<or> (IsSensitiveKey lower k \<and> redactableValue v)
    then JStr ph else fst (redactValue lower ph v))" for k v
  have "f k v = fst (redactValue lower ph v)" if "lower k \<in> {''name'', ''key''}" for k v
    using name_key_not_sensitive [of lower k] that by (auto simp: f_def pair_hit_def)
  then have sens: "pair_sensitive lower (map (\<lambda>(k, v). (k, f k v)) ms) = pair_sensitive lower ms"
    using pair_name_redact [of ms lower f ph "[]"] by (simp add: pair_sensitive_def)
  have "(redactableValue (f k v) \<and> (IsSensitiveKey lower k \<or> (lower k = ''value'' \<and> pair_sensitive lower ms)) \<longrightarrow>
      f k v = JStr ph) \<and> masked lower ph (f k v)" if m: "(k, v) \<in> set ms" for k v
  proof (cases "pair_hit lower ph (pair_sensitive lower ms) k v \<or> (IsSensitiveKey lower k \<and> redactableValue v)")
    case False
    then have "masked lower ph (fst (redactValue lower ph v))" using 1 m by auto
    then show ?thesis using False by (auto simp: f_def pair_hit_def redactable_redactValue)
  qed (simp add: f_def)
  then have "masked lower ph (JObj (map (\<lambda>(k, v). (k, f k v)) ms))" by (auto simp: sens Let_def)
  then show ?case by (simp only: redactValue_obj f_def)
next
  case (2 lower ph vs)
  then show ?case by (simp only: redactValue_arr) auto
qed simp_all

lemma masked_fixpoint: "masked lower ph v \<Longrightarrow> fst (redactValue lower ph v) = v"
proof (induction lower ph v rule: redactValue.induct)
  case (1 lower ph ms)
  have "(k, if pair_hit lower ph (pair_sensitive lower ms) k v \<or> (IsSensitiveKey lower k \<and> redactableValue v)
           then JStr ph else fst (redactValue lower ph v)) = (k, v)" if m: "(k, v) \<in> set ms" for k v
  proof (cases "pair_hit lower ph (pair_sensitive lower ms) k v \<or> (IsSensitiveKey lower k \<and> redactableValue v)")
    case True
    then show ?thesis using 1(2) m by (fastforce simp: pair_hit_def Let_def)
  next
    case False
    have "masked lower ph v" using 1(2) m by (auto simp: Let_def)
    then have "fst (redactValue lower ph v) = v" using 1(1) m False by auto
    then show ?thesis using False by auto
  qed
  then show ?case by (simp only: redactValue_obj) (auto intro!: map_idI)
next
  case (2 lower ph vs)
  then show ?case by (simp only: redactValue_arr) (auto intro!: map_idI)
qed simp_all

text \<open>C16: Redaction of a JSON value leaves no credential at any depth: every string, number, object or array under a
  credential name, and the value of every entry named after one, becomes the placeholder. A value with
  nothing to hide is returned as it was, so redacting again changes nothing.\<close>

theorem redaction_complete:
  "masked lower ph (fst (redactValue lower ph v)) \<and>
   (masked lower ph v \<longrightarrow> fst (redactValue lower ph v) = v) \<and>
   (\<not> snd (redactValue lower ph v) \<longrightarrow> fst (redactValue lower ph v) = v) \<and>
   fst (redactValue lower ph (fst (redactValue lower ph v))) = fst (redactValue lower ph v)"
  using masked_redactValue masked_fixpoint redactValue_unchanged by blast

definition sample_body :: json where
  "sample_body = JObj [(''db.password'', JStr ''hunter2''), (''max_tokens'', JNum ''7''),
     (''env'', JArr [JObj [(''name'', JStr ''API_TOKEN''), (''value'', JStr ''s3cret'')]]), (''has_secret'', JBool True)]"

theorem redaction_complete_witness:
  "masked ToLower ''****'' (fst (redactValue ToLower ''****'' sample_body)) \<and>
   \<not> masked ToLower ''****'' sample_body"
proof -
  have "\<not> masked ToLower ''****'' sample_body" by code_simp
  then show ?thesis using redaction_complete by blast
qed

subsection \<open>What stripping removes\<close>

text \<open>The scalars of a value with the member names on the way to them.\<close>

fun leaves :: "json \<Rightarrow> (gostring list \<times> json) list" where
  "leaves (JObj ms) = concat (map (\<lambda>(k, v). map (\<lambda>(p, l). (k # p, l)) (leaves v)) ms)"
| "leaves (JArr vs) = concat (map leaves vs)"
| "leaves v = [([], v)]"

text \<open>Stripping the content of an untrusted provider removes exactly the scalars that lie under a content field at
  some depth and keeps every other one, in order.\<close>

theorem strip_removes_content:
  "leaves (stripFields v) = filter (\<lambda>(p, l). \<not> list_ex isContentField p) (leaves v)"
proof (induction v rule: stripFields.induct)
  case (1 ms)
  define sel :: "gostring list \<times> json \<Rightarrow> bool" where "sel = (\<lambda>(p, l). \<not> list_ex isContentField p)"
  have under: "filter sel (map (\<lambda>(p, l). (k # p, l)) xs) =
      (if isContentField k then [] else map (\<lambda>(p, l). (k # p, l)) (filter sel xs))" for k xs
    by (induction xs) (auto simp: sel_def)
  have "\<forall>m \<in> set ms. \<not> isContentField (fst m) \<longrightarrow> leaves (stripFields (snd m)) = filter sel (leaves (snd m))"
    unfolding sel_def using 1 by auto
  then have "leaves (stripFields (JObj ms)) = filter sel (leaves (JObj ms))"
    by (induction ms) (auto simp: under)
  then show ?case by (simp only: sel_def)
next
  case (2 vs)
  then show ?case by (induction vs) auto
qed simp_all

end
