(* ===== verification/Gateway_Handler.thy ===== *)
theory Gateway_Handler
  imports Policy Gateway_Token Budget Gateway_Route Static_Broker Masking
begin

section \<open>The gateway request handler (\<open>internal/gateway\<close>)\<close>

text \<open>
  \<open>handler.go\<close>: what one request to the gateway goes through, from the token to the provider and back, with the
  audit events, counters and upstream calls it leaves behind; \<open>redact/redact.go\<close> and \<open>readUpstreamBody\<close>: what
  happens to the provider's answer; \<open>server.go\<close>: the construction of a server and its chain of handlers.
  Each step of the handler is a definition that either stops with a response and an outcome or goes on with
  what the later steps use. Clocks, the network, the vault and the token file are read through an
  environment. Telemetry, the duration fields and the timestamps of events are left out.
\<close>

subsection \<open>The answer of the provider\<close>

record upstream_response =
  us_Status :: nat
  us_Header :: http_header
  us_Body :: gostring
  us_BodyFails :: bool

text \<open>A decompressor gives the bytes it can decode and whether it then fails; \<open>None\<close> when the header is bad.\<close>

record codecs =
  cd_Gzip :: "gostring \<Rightarrow> (gostring \<times> bool) option"
  cd_Zlib :: "gostring \<Rightarrow> (gostring \<times> bool) option"
  cd_Flate :: "gostring \<Rightarrow> gostring \<times> bool"

datatype read_error = UnsupportedEncoding | BodyTooLarge | ReadError

text \<open>\<open>io.ReadAll\<close> of \<open>io.LimitReader\<close>: the error is met only when the limit is not.\<close>

definition read_limited :: "nat \<Rightarrow> gostring \<Rightarrow> bool \<Rightarrow> gostring option" where
  "read_limited limit body fails = (if fails \<and> length body < limit then None else Some (take limit body))"

definition decode_upstream :: "codecs \<Rightarrow> gostring \<Rightarrow> gostring \<Rightarrow> read_error + (gostring \<times> bool)" where
  "decode_upstream C enc raw =
    (if enc \<in> {''gzip'', ''x-gzip''} then (case cd_Gzip C raw of None \<Rightarrow> Inl ReadError | Some r \<Rightarrow> Inr r)
     else if enc = ''deflate'' then (case cd_Zlib C raw of None \<Rightarrow> Inr (cd_Flate C raw) | Some r \<Rightarrow> Inr r)
     else Inl UnsupportedEncoding)"

definition readUpstreamBody :: "codecs \<Rightarrow> upstream_response \<Rightarrow> nat \<Rightarrow> read_error + gostring" where
  "readUpstreamBody C resp limit =
    (let enc = ToLower (TrimSpace (header_Get (us_Header resp) ''Content-Encoding'')) in
     case read_limited limit (us_Body resp) (us_BodyFails resp) of None \<Rightarrow> Inl ReadError
     | Some raw \<Rightarrow>
        if enc \<in> {[], ''identity''} then Inr raw
        else (case decode_upstream C enc raw of Inl e \<Rightarrow> Inl e
          | Inr (dec, fails) \<Rightarrow>
             (case read_limited (limit + 1) dec fails of None \<Rightarrow> Inl ReadError
              | Some plain \<Rightarrow> if length plain > limit then Inl BodyTooLarge else Inr plain)))"

definition responseHeadersDroppedAfterDecode :: "gostring list" where
  "responseHeadersDroppedAfterDecode = [''Content-Encoding'', ''Content-Length'', ''Content-Range'', ''Accept-Ranges'']"

definition sensitiveHeaderNames :: "gostring list" where
  "sensitiveHeaderNames = [''authorization'', ''set-cookie'', ''x-auth-token'', ''x-api-key'', ''cookie'', ''x-api-secret'',
     ''x-secret-key'', ''proxy-authorization'']"

definition redact_Headers :: "text_env \<Rightarrow> http_header \<Rightarrow> http_header" where
  "redact_Headers E h =
    filter (\<lambda>(name, vs). ToLower name \<notin> set sensitiveHeaderNames \<and>
      \<not> list_ex (\<lambda>v. list_ex (\<lambda>i. tx_Match E (TokenPattern i) v) [0..<7]) vs) h"

definition common_replacement :: "gostring list \<Rightarrow> gostring" where
  "common_replacement sub =
    (case Index (sub ! 0) '':'' of None \<Rightarrow> ''****''
     | Some colonIdx \<Rightarrow> take colonIdx (sub ! 0) @ '': '' @ [CHR 0x22] @ ''****'' @ [CHR 0x22])"

definition providerPatterns :: "(gostring \<times> nat) list" where
  "providerPatterns = [(''openrouter'', 2), (''sentry'', 1), (''cloudflare'', 1), (''github'', 2)]"

definition redact_Body :: "text_env \<Rightarrow> gostring \<Rightarrow> gostring \<Rightarrow> gostring \<Rightarrow> gostring list \<Rightarrow> gostring" where
  "redact_Body E provider body profile0 patterns =
    (if body = [] then body
     else if profile0 = ''metadata_only'' then ''{}''
     else
       (let profile = (if profile0 \<in> {[], ''basic'', ''strict''} then profile0 else ''strict'');
            stars = (\<lambda>_. ''****'');
            r0 = RedactSecretFields E body ''****'';
            r1 = fold (\<lambda>i. tx_Replace E (CommonPattern i) common_replacement) [0..<6] r0;
            r2 = (case map_of providerPatterns provider of None \<Rightarrow> r1
                  | Some n \<Rightarrow> fold (\<lambda>i. tx_Replace E (ProviderPattern provider i) stars) [0..<n] r1);
            r3 = fold (\<lambda>pat r. if tx_Compiles E pat then tx_Replace E (RoutePattern pat) stars r else r) patterns r2
        in if profile = ''strict'' then tx_Replace E StrictTokenRe stars r3 else r3))"

definition sanitiseSource :: "gostring \<Rightarrow> gostring" where
  "sanitiseSource source = filter (\<lambda>r. is_lower r \<or> is_upper r \<or> is_digit r \<or> r = CHR ''-'' \<or> r = CHR ''_'') source"

definition LabelUntrustedContent :: "gostring \<Rightarrow> gostring \<Rightarrow> gostring" where
  "LabelUntrustedContent body source =
    (if body = [] then body
     else ''/* keylatch:untrusted-source:'' @ sanitiseSource source @ '' */'' @ [newline] @ body)"

subsection \<open>Environment, server and world\<close>

datatype vault_read = VaultValue gostring | VaultNotFound | VaultFails

record gateway_env =
  ge_Token :: token_env
  ge_UsedAt :: gostring
  ge_Io :: consume_io
  ge_VerifyNow :: gotime
  ge_PolicyNow :: gotime
  ge_BudgetNow :: gotime
  ge_BrokerNow :: gotime
  ge_TokenFile :: "token list jsonfile"
  ge_OrgHook :: org_hook
  ge_ApprovalToken :: gostring
  ge_HashActor :: "gostring \<Rightarrow> gostring \<Rightarrow> gostring"
  ge_ParseIP :: "gostring \<Rightarrow> ipaddr option"
  ge_Lookup :: "gostring \<Rightarrow> gostring list option"
  ge_VaultGet :: "gostring \<Rightarrow> vault_read"
  ge_BuildOk :: "gostring \<Rightarrow> gostring \<Rightarrow> bool"
  ge_Upstream :: "gostring \<Rightarrow> upstream_request \<Rightarrow> upstream_response option"
  ge_Text :: text_env
  ge_Codecs :: codecs
  ge_CleanPath :: "gostring \<Rightarrow> gostring"
  ge_Redirect :: "http_request \<Rightarrow> http_response"
  ge_Health :: gostring

record gateway_server =
  gs_SigningKey :: gostring
  gs_TokenStorePath :: gostring
  gs_Router :: router
  gs_Broker :: broker
  gs_SsrfGate :: "ssrf_gate option"
  gs_HasVault :: bool
  gs_Policy :: "policy option"
  gs_ActorHashKey :: gostring
  gs_HasAudit :: bool
  gs_HasMetrics :: bool

datatype outcome = OutcomeOK | OutcomeDenied | OutcomeError

record gateway_event =
  gv_Action :: gostring
  gv_Outcome :: outcome
  gv_Extra :: "(gostring \<times> gostring) list"

record gateway_metrics =
  gm_RequestsOK :: nat
  gm_RequestsDenied :: nat
  gm_RequestsError :: nat
  gm_VaultErrors :: nat

record gateway_world =
  gw_Logs :: "gostring \<Rightarrow> clog"
  gw_Budget :: "budget_counter option"
  gw_Audit :: "gateway_event list"
  gw_Metrics :: gateway_metrics
  gw_VaultReads :: "gostring list"
  gw_Calls :: "upstream_request list"

type_synonym 'a gw = "gateway_world \<Rightarrow> (http_response \<times> outcome + 'a) \<times> gateway_world"

definition gw_bind :: "'a gw \<Rightarrow> ('a \<Rightarrow> 'b gw) \<Rightarrow> 'b gw" where
  "gw_bind m f w = (case m w of (Inl r, w') \<Rightarrow> (Inl r, w') | (Inr a, w') \<Rightarrow> f a w')"

definition gw_return :: "'a \<Rightarrow> 'a gw" where "gw_return a w = (Inr a, w)"

definition gw_stop :: "http_response \<Rightarrow> outcome \<Rightarrow> 'a gw" where "gw_stop r out w = (Inl (r, out), w)"

definition logAudit :: "gateway_server \<Rightarrow> gostring \<Rightarrow> outcome \<Rightarrow> (gostring \<times> gostring) list \<Rightarrow> gateway_world \<Rightarrow> gateway_world" where
  "logAudit S action out extra w =
    (if \<not> gs_HasAudit S then w
     else w\<lparr>gw_Audit := gw_Audit w @ [\<lparr>gv_Action = action, gv_Outcome = out, gv_Extra = extra\<rparr>]\<rparr>)"

text \<open>Stop with an error response and a denied outcome, after an audit event.\<close>

definition gw_deny :: "gateway_server \<Rightarrow> nat \<Rightarrow> gostring \<Rightarrow> gostring \<Rightarrow> gostring \<Rightarrow> (gostring \<times> gostring) list \<Rightarrow> 'a gw" where
  "gw_deny S status code message action extra w =
    (Inl (writeError status code message, OutcomeDenied), logAudit S action OutcomeDenied extra w)"

subsection \<open>The steps of the handler\<close>

definition step_path :: "http_request \<Rightarrow> unit gw" where
  "step_path r =
    (if \<not> HasPrefix (hr_Path r) ''/api/'' \<and> \<not> HasPrefix (hr_Path r) ''/sdk/'' then
       gw_stop (writeError 404 ''unsupported_by_keylatch_gateway'' ''path not found'') OutcomeDenied
     else gw_return ())"

definition bearer_token :: "http_request \<Rightarrow> gostring" where
  "bearer_token r =
    (let authHeader = header_Get (hr_Header r) ''Authorization'' in
     if HasPrefix authHeader ''Bearer '' then drop 7 authHeader else [])"

definition verify_code :: "token_error \<Rightarrow> gostring" where
  "verify_code e =
    (case e of ErrTokenExpired \<Rightarrow> ''token_expired'' | ErrTokenRevoked \<Rightarrow> ''token_revoked''
     | ErrTokenExhausted \<Rightarrow> ''token_exhausted'' | ErrFDNonceMismatch \<Rightarrow> ''fd_nonce_mismatch'' | _ \<Rightarrow> ''token_invalid'')"

definition verify_call_of :: "gateway_env \<Rightarrow> http_request \<Rightarrow> gostring \<Rightarrow> verify_call" where
  "verify_call_of E r jwtStr =
    \<lparr>vc_Now = ge_VerifyNow E, vc_UsedAt = ge_UsedAt E, vc_Io = ge_Io E, vc_Jwt = jwtStr,
     vc_Request = Some (header_Get (hr_Header r) ''X-Keylatch-FD-Nonce'')\<rparr>"

definition step_verify :: "gateway_server \<Rightarrow> gateway_env \<Rightarrow> http_request \<Rightarrow> token gw" where
  "step_verify S E r w =
    (let jwtStr = bearer_token r in
     if jwtStr = [] then gw_stop (writeError 401 ''missing_token'' ''authorization token required'') OutcomeDenied w
     else
       (case token_Verify (ge_Token E) (verify_call_of E r jwtStr) (gs_SigningKey S) (gs_TokenStorePath S)
               (ge_TokenFile E) (gw_Logs w) of
          (Inl e, L) \<Rightarrow>
            gw_deny S 401 (verify_code e) ''token verification failed'' ''gateway_call'' [(''error'', verify_code e)] (w\<lparr>gw_Logs := L\<rparr>)
        | (Inr t, L) \<Rightarrow> gw_return t (w\<lparr>gw_Logs := L\<rparr>)))"

definition step_route :: "gateway_server \<Rightarrow> http_request \<Rightarrow> route gw" where
  "step_route S r =
    (case route_Match (gs_Router S) (hr_Method r) (hr_Path r) of
       None \<Rightarrow> gw_stop (writeError 404 ''unsupported_by_keylatch_gateway'' ''no gateway route for this provider/action'') OutcomeDenied
     | Some rt \<Rightarrow> gw_return rt)"

definition step_capability :: "gateway_server \<Rightarrow> token \<Rightarrow> route \<Rightarrow> unit gw" where
  "step_capability S t rt =
    (if \<not> HasCapability t (rt_Capability rt) then
       gw_deny S 403 ''capability_mismatch'' ''token does not have required capability'' ''gateway_call''
         [(''error'', ''capability_mismatch''), (''capability'', rt_Capability rt)]
     else gw_return ())"

definition step_llm :: "gateway_server \<Rightarrow> token \<Rightarrow> route \<Rightarrow> unit gw" where
  "step_llm S t rt =
    (if t_LLMSession t then
       (if token_isReadClassCap (rt_Capability rt) then
          gw_deny S 403 ''llm_session_read_blocked'' ''read-class capabilities blocked in LLM session'' ''gateway_call''
            [(''error'', ''llm_session_read_blocked'')]
        else if rt_LLMSessionDeny rt then
          gw_deny S 403 ''llm_session_deny'' ''this action is denied in LLM sessions'' ''gateway_call''
            [(''error'', ''llm_session_deny'')]
        else if t_ApprovalRootHMAC t \<noteq> [] \<and> \<not> t_TwoPerson t then
          gw_deny S 403 ''llm_session_requires_two_person_approval''
            ''direct_classic_sandboxed in an LLM session requires two-person approval'' ''gateway_call''
            [(''error'', ''llm_session_requires_two_person_approval'')]
        else gw_return ())
     else gw_return ())"

definition checkPolicySafe :: "org_hook \<Rightarrow> gotime \<Rightarrow> gostring \<Rightarrow> policy \<Rightarrow> request \<Rightarrow> decision" where
  "checkPolicySafe hook now approval p req =
    (case policy_Check hook now approval p req of Inl _ \<Rightarrow> zero_decision | Inr d \<Rightarrow> d)"

definition gateway_policy_request :: "token \<Rightarrow> route \<Rightarrow> http_request \<Rightarrow> request" where
  "gateway_policy_request t rt r =
    \<lparr>rq_Actor = t_Actor t, rq_Connection = rt_Provider rt, rq_Capability = rt_Capability rt, rq_Command = [],
     rq_CWD = [], rq_LLMSession = t_LLMSession t,
     rq_Runtime = (if HasPrefix (hr_Path r) ''/sdk/'' then ''gateway_sdk'' else ''gateway_typed''),
     rq_ApprovalJWT = [], rq_Namespace = [], rq_PresenceProof = None\<rparr>"

definition matched_rule_id :: "policy \<Rightarrow> decision \<Rightarrow> gostring" where
  "matched_rule_id p d =
    (case de_MatchedRule d of None \<Rightarrow> [] | Some i \<Rightarrow> if i < length (po_Rules p) then ru_ID (po_Rules p ! i) else [])"

definition policy_result :: "policy \<Rightarrow> decision \<Rightarrow> gostring" where
  "policy_result p d =
    ((if \<not> de_Allow d then ''deny'' else if de_ApprovalRequired d then ''approval_required'' else ''allow'') @
     (if de_MatchedRule d \<noteq> None then '':rule:'' @ matched_rule_id p d else []))"

definition step_policy :: "gateway_server \<Rightarrow> gateway_env \<Rightarrow> http_request \<Rightarrow> token \<Rightarrow> route \<Rightarrow> unit gw" where
  "step_policy S E r t rt w =
    (case gs_Policy S of None \<Rightarrow> gw_return () w
     | Some p \<Rightarrow>
        (let d = checkPolicySafe (ge_OrgHook E) (ge_PolicyNow E) (ge_ApprovalToken E) p (gateway_policy_request t rt r);
             extra = [(''policy_id'', matched_rule_id p d), (''result'', policy_result p d)]
         in if \<not> de_Allow d \<or> de_ApprovalRequired d then
              (if de_ApprovalRequired d then
                 gw_deny S 403 ''policy_approval_required'' ''policy requires approval that cannot be satisfied at the gateway''
                   ''policy_check'' extra w
               else gw_deny S 403 ''policy_denied'' ''request denied by policy'' ''policy_check'' extra w)
            else gw_return () (logAudit S ''policy_check'' OutcomeOK extra w)))"

definition step_budget :: "gateway_server \<Rightarrow> gateway_env \<Rightarrow> token \<Rightarrow> route \<Rightarrow> unit gw" where
  "step_budget S E t rt w =
    (case gw_Budget w of None \<Rightarrow> gw_return () w
     | Some c \<Rightarrow>
        (case CheckAndRecord (ge_BudgetNow E) (t_Actor t) (rt_Capability rt) 1 c of
           (Some _, c') \<Rightarrow>
             (Inl (json_response 429 (json_object [(''actor_hmac'', ge_HashActor E (gs_ActorHashKey S) (t_Actor t)),
                     (''capability'', rt_Capability rt), (''limit_type'', ''request_budget'')]), OutcomeDenied),
              logAudit S ''gateway_call'' OutcomeDenied [(''error'', ''budget_exceeded''), (''capability'', rt_Capability rt)]
                (w\<lparr>gw_Budget := Some c'\<rparr>))
         | (None, c') \<Rightarrow> gw_return () (w\<lparr>gw_Budget := Some c'\<rparr>)))"

definition step_ssrf :: "gateway_server \<Rightarrow> gateway_env \<Rightarrow> route \<Rightarrow> unit gw" where
  "step_ssrf S E rt =
    (case gs_SsrfGate S of None \<Rightarrow> gw_return ()
     | Some g \<Rightarrow>
        (case ssrf_Validate (ge_ParseIP E) (ge_Lookup E) g (rt_Provider rt) (rt_UpstreamHost rt) of
           Some _ \<Rightarrow>
             gw_deny S 403 ''ssrf_blocked'' ''upstream host rejected by SSRF gate'' ''gateway_call''
               [(''error'', ''ssrf_blocked''), (''provider'', rt_Provider rt)]
         | None \<Rightarrow> gw_return ()))"

definition without_authorization :: "http_request \<Rightarrow> http_request" where
  "without_authorization r = r\<lparr>hr_Header := header_Del (hr_Header r) ''Authorization''\<rparr>"

definition step_substitution :: "gateway_server \<Rightarrow> http_request \<Rightarrow> route \<Rightarrow> unit gw" where
  "step_substitution S r rt =
    (case CheckRequest r (rt_UpstreamHost rt) (rt_AllowedParams rt) False of
       Some kind \<Rightarrow>
         gw_deny S 400 ''substitution_blocked'' ''substitution attempt detected'' ''substitution_blocked'' [(''kind'', kind)]
     | None \<Rightarrow> gw_return ())"

definition step_body :: "http_request \<Rightarrow> route \<Rightarrow> gostring gw" where
  "step_body r rt =
    (case read_limited (rt_MaxBodyBytes rt + 1) (hr_Body r) (hr_BodyFails r) of
       None \<Rightarrow> gw_stop (writeError 400 ''body_read_error'' ''failed to read request body'') OutcomeError
     | Some body \<Rightarrow>
         if length body > rt_MaxBodyBytes rt then
           gw_stop (writeError 413 ''body_too_large'' ''request body exceeds maximum size'') OutcomeError
         else gw_return body)"

definition count_vault_error :: "gateway_server \<Rightarrow> gateway_world \<Rightarrow> gateway_world" where
  "count_vault_error S w =
    (if gs_HasMetrics S then w\<lparr>gw_Metrics := (gw_Metrics w)\<lparr>gm_VaultErrors := gm_VaultErrors (gw_Metrics w) + 1\<rparr>\<rparr> else w)"

definition step_vault :: "gateway_server \<Rightarrow> gateway_env \<Rightarrow> route \<Rightarrow> gostring gw" where
  "step_vault S E rt w =
    (if rt_SecretRef rt \<noteq> [] \<and> \<not> gs_HasVault S then
       gw_stop (writeError 503 ''vault_not_configured'' ''gateway has no vault configured'') OutcomeError w
     else if gs_HasVault S \<and> rt_SecretRef rt \<noteq> [] then
       (let w1 = w\<lparr>gw_VaultReads := gw_VaultReads w @ [rt_SecretRef rt]\<rparr> in
        case ge_VaultGet E (rt_SecretRef rt) of
          VaultNotFound \<Rightarrow> gw_stop (writeError 401 ''credential_not_found'' ''no credential for route'') OutcomeDenied w1
        | VaultFails \<Rightarrow> gw_stop (writeError 503 ''vault_error'' ''vault unavailable'') OutcomeError (count_vault_error S w1)
        | VaultValue v \<Rightarrow> gw_return v w1)
     else gw_return [] w)"

definition exchange_spec_of :: "token \<Rightarrow> route \<Rightarrow> gostring \<Rightarrow> exchange_spec" where
  "exchange_spec_of t rt rootCredential =
    \<lparr>es_Strategy = rt_ExchangeStrategy rt, es_RootCredential = rootCredential, es_Actor = t_Actor t,
     es_Capability = rt_Capability rt, es_Namespace = [], es_TTL = Hour\<rparr>"

definition step_exchange :: "gateway_server \<Rightarrow> gateway_env \<Rightarrow> token \<Rightarrow> route \<Rightarrow> gostring \<Rightarrow> access_token gw" where
  "step_exchange S E t rt rootCredential =
    (case broker_Exchange (ge_BrokerNow E) (exchange_spec_of t rt rootCredential) (gs_Broker S) of
       Inl ErrVaultLocked \<Rightarrow> gw_stop (writeError 503 ''vault_locked'' ''vault is locked'') OutcomeError
     | Inl ErrExchangeUnsupported \<Rightarrow>
         gw_stop (writeError 503 ''exchange_unsupported''
           ''exchange strategy not supported. Remediation: use static_gateway_only.'') OutcomeError
     | Inr a \<Rightarrow> gw_return a)"

definition upstream_of :: "route \<Rightarrow> http_request \<Rightarrow> gostring \<Rightarrow> access_token \<Rightarrow> upstream_request" where
  "upstream_of rt r body a =
    injectAuth (rt_AuthPlacement rt) (at_Value a)
      \<lparr>ur_Method = or_default (rt_Method rt) ''POST'', ur_URL = ''https://'' @ rt_UpstreamHost rt @ rt_UpstreamPath rt,
       ur_QuerySet = [], ur_Header = copyForwardedHeaders [] (hr_Header r), ur_Body = body\<rparr>"

definition step_build :: "gateway_env \<Rightarrow> route \<Rightarrow> http_request \<Rightarrow> gostring \<Rightarrow> access_token \<Rightarrow> upstream_request gw" where
  "step_build E rt r body a =
    (if \<not> ge_BuildOk E (or_default (rt_Method rt) ''POST'') (''https://'' @ rt_UpstreamHost rt @ rt_UpstreamPath rt) then
       gw_stop (writeError 500 ''upstream_build_error'' ''failed to build upstream request'') OutcomeError
     else gw_return (upstream_of rt r body a))"

definition step_send :: "gateway_server \<Rightarrow> gateway_env \<Rightarrow> route \<Rightarrow> upstream_request \<Rightarrow> upstream_response gw" where
  "step_send S E rt u w =
    (let w1 = w\<lparr>gw_Calls := gw_Calls w @ [u]\<rparr> in
     case ge_Upstream E (rt_Provider rt) u of
       None \<Rightarrow> (Inl (writeError 503 ''upstream_error'' ''upstream request failed'', OutcomeError),
                 logAudit S ''gateway_call'' OutcomeError [(''provider'', rt_Provider rt)] w1)
     | Some resp \<Rightarrow> gw_return resp w1)"

definition redacted_response :: "gateway_env \<Rightarrow> route \<Rightarrow> upstream_response \<Rightarrow> gostring \<Rightarrow> http_response" where
  "redacted_response E rt resp respBody =
    (let hs = fold (\<lambda>h hs. header_Del hs h) responseHeadersDroppedAfterDecode (redact_Headers (ge_Text E) (us_Header resp));
         b = redact_Body (ge_Text E) (rt_Provider rt) respBody (rt_MaskingProfile rt) (rt_Redaction rt)
     in \<lparr>hp_Status = us_Status resp, hp_Header = hs,
         hp_Body = (if rt_UntrustedContentSource rt \<noteq> [] then LabelUntrustedContent b (rt_UntrustedContentSource rt) else b)\<rparr>)"

definition step_respond :: "gateway_server \<Rightarrow> gateway_env \<Rightarrow> route \<Rightarrow> upstream_response \<Rightarrow> (http_response \<times> outcome) gw" where
  "step_respond S E rt resp w =
    (case readUpstreamBody (ge_Codecs E) resp (rt_MaxBodyBytes rt) of
       Inl UnsupportedEncoding \<Rightarrow>
         gw_stop (writeError 502 ''upstream_encoding_unsupported''
           ''upstream response uses a content encoding the gateway cannot redact'') OutcomeError w
     | Inl _ \<Rightarrow> gw_stop (writeError 502 ''upstream_read_error'' ''failed to read upstream response'') OutcomeError w
     | Inr respBody \<Rightarrow>
         gw_return (redacted_response E rt resp respBody, OutcomeOK)
           (logAudit S ''gateway_call'' OutcomeOK
              [(''provider'', rt_Provider rt), (''capability'', rt_Capability rt), (''status_code'', decimal (us_Status resp))] w))"

subsection \<open>The handler\<close>

text \<open>What is decided before the body is touched.\<close>

definition gateway_authorise :: "gateway_server \<Rightarrow> gateway_env \<Rightarrow> http_request \<Rightarrow> (token \<times> route) gw" where
  "gateway_authorise S E r =
    gw_bind (step_path r) (\<lambda>_.
    gw_bind (step_verify S E r) (\<lambda>t.
    gw_bind (step_route S r) (\<lambda>rt.
    gw_bind (step_capability S t rt) (\<lambda>_.
    gw_bind (step_llm S t rt) (\<lambda>_.
    gw_bind (step_policy S E r t rt) (\<lambda>_.
    gw_bind (step_budget S E t rt) (\<lambda>_.
    gw_bind (step_ssrf S E rt) (\<lambda>_.
    gw_bind (step_substitution S (without_authorization r) rt) (\<lambda>_.
    gw_return (t, rt))))))))))"

text \<open>From the credential to the request for the provider.\<close>

definition gateway_prepare :: "gateway_server \<Rightarrow> gateway_env \<Rightarrow> http_request \<Rightarrow> token \<times> route \<Rightarrow> (route \<times> upstream_request) gw" where
  "gateway_prepare S E r tr = (case tr of (t, rt) \<Rightarrow>
    gw_bind (step_body r rt) (\<lambda>body.
    gw_bind (step_vault S E rt) (\<lambda>cred.
    gw_bind (step_exchange S E t rt cred) (\<lambda>a.
    gw_bind (step_build E rt r body a) (\<lambda>u.
    gw_return (rt, u))))))"

definition gateway_pipeline :: "gateway_server \<Rightarrow> gateway_env \<Rightarrow> http_request \<Rightarrow> (http_response \<times> outcome) gw" where
  "gateway_pipeline S E r =
    gw_bind (gateway_authorise S E r) (\<lambda>tr.
    gw_bind (gateway_prepare S E (without_authorization r) tr) (\<lambda>ru.
    gw_bind (step_send S E (fst ru) (snd ru)) (\<lambda>resp.
    step_respond S E (fst ru) resp)))"

definition count_outcome :: "gateway_server \<Rightarrow> outcome \<Rightarrow> gateway_world \<Rightarrow> gateway_world" where
  "count_outcome S out w =
    (if \<not> gs_HasMetrics S then w
     else (let m = gw_Metrics w in
       w\<lparr>gw_Metrics := (case out of OutcomeOK \<Rightarrow> m\<lparr>gm_RequestsOK := gm_RequestsOK m + 1\<rparr>
          | OutcomeDenied \<Rightarrow> m\<lparr>gm_RequestsDenied := gm_RequestsDenied m + 1\<rparr>
          | OutcomeError \<Rightarrow> m\<lparr>gm_RequestsError := gm_RequestsError m + 1\<rparr>)\<rparr>))"

definition gatewayHandler :: "gateway_server \<Rightarrow> gateway_env \<Rightarrow> gateway_world handler" where
  "gatewayHandler S E r w =
    (case gateway_pipeline S E r w of
       (Inl (resp, out), w') \<Rightarrow> (resp, count_outcome S out w')
     | (Inr (resp, out), w') \<Rightarrow> (resp, count_outcome S out w'))"

subsection \<open>The server\<close>

definition healthHandler :: "gateway_env \<Rightarrow> gateway_world handler" where
  "healthHandler E r w =
    (json_response 200 (''{'' @ json_string ''status'' @ '':'' @ json_string ''ok'' @ '','' @ json_string ''version'' @ '':'' @ ge_Health E @ ''}''), w)"

text \<open>The proxy behind its middleware, and the mux: the health route, the redirect of paths that are not clean, and
  the proxy for everything else.\<close>

definition gateway_proxy :: "gateway_server \<Rightarrow> gateway_env \<Rightarrow> gateway_world handler" where
  "gateway_proxy S E = authBlockerMiddleware (hostOverrideBlockerMiddleware (gatewayHandler S E) []) False"

definition gateway_mux :: "gateway_server \<Rightarrow> gateway_env \<Rightarrow> gateway_world handler" where
  "gateway_mux S E r w =
    (if hr_Method r \<noteq> ''CONNECT'' \<and> ge_CleanPath E (hr_Path r) \<noteq> hr_Path r then (ge_Redirect E r, w)
     else if hr_Method r \<in> {''GET'', ''HEAD''} \<and> hr_Path r = ''/health'' then healthHandler E r w
     else gateway_proxy S E r w)"

definition gateway_serve :: "gateway_server \<Rightarrow> gateway_env \<Rightarrow> gateway_world handler" where
  "gateway_serve S E = reserveApprovalPaths (gateway_mux S E)"

text \<open>\<open>split\<close> is the host \<open>net.SplitHostPort\<close> gives.\<close>

definition ip_IsLoopback :: "ipaddr \<Rightarrow> bool" where
  "ip_IsLoopback ip = (case To4 ip of Some x \<Rightarrow> drop_bit 24 x = 127 | None \<Rightarrow> ip = 1)"

definition isLoopbackBind :: "(gostring \<Rightarrow> gostring option) \<Rightarrow> (gostring \<Rightarrow> ipaddr option) \<Rightarrow> gostring \<Rightarrow> bool" where
  "isLoopbackBind split parse_ip addr =
    (let host = (case split addr of Some h \<Rightarrow> h
                 | None \<Rightarrow>
                    (let h0 = TrimSuffix addr '']''; h = (if HasPrefix h0 ''['' then drop 1 h0 else h0)
                     in if h = [] then addr else h))
     in if host = ''localhost'' then True
        else (case parse_ip host of None \<Rightarrow> False | Some ip \<Rightarrow> ip_IsLoopback ip))"

definition rulesWithGatewayUnsupportedFields :: "rule list \<Rightarrow> gostring list" where
  "rulesWithGatewayUnsupportedFields rules =
    map (\<lambda>(i, r). if ru_ID r = [] then ''rules['' @ decimal i @ '']'' else ru_ID r)
      (filter (\<lambda>(i, r). \<not> (length (ru_Commands r) = 0 \<and> length (ru_CWDs r) = 0)) (enumerate 0 rules))"

record server_options =
  so_Bind :: gostring
  so_PolicyPath :: gostring
  so_SigningKey :: gostring
  so_HasAudit :: bool
  so_TokenStorePath :: gostring
  so_AllowExternalBind :: bool
  so_HasVault :: bool
  so_HasMetrics :: bool

datatype new_error = BadGatewayKey | NonLoopbackBind | NonLoopbackInLLM | PolicyPermissive | PolicyUnsupportedRules "gostring list"
  | PolicyLoadFails load_error

definition load_gateway_policy :: "bool \<Rightarrow> gostring \<Rightarrow> policy_file \<Rightarrow> new_error + policy option" where
  "load_gateway_policy windows path f =
    (if path = [] then Inr None
     else (case policy_Load windows f of
       Inr p \<Rightarrow>
         if po_Mode p = ModePermissive then Inl PolicyPermissive
         else (let bad = rulesWithGatewayUnsupportedFields (po_Rules p) in
               if length bad > 0 then Inl (PolicyUnsupportedRules bad) else Inr (Some p))
     | Inl e \<Rightarrow> if pf_Content f = Absent then Inr None else Inl (PolicyLoadFails e)))"

definition gateway_New ::
  "bool \<Rightarrow> bool \<Rightarrow> (gostring \<Rightarrow> gostring option) \<Rightarrow> (gostring \<Rightarrow> ipaddr option) \<Rightarrow> (gostring \<Rightarrow> (gostring \<times> gostring) option) \<Rightarrow>
   (gostring \<Rightarrow> gostring) \<Rightarrow> connection_template list \<Rightarrow> policy_file \<Rightarrow> server_options \<Rightarrow> new_error + gateway_server" where
  "gateway_New windows isLLMSession split parse_ip parse_url deriveActorKey templates f opts =
    (let bind = or_default (so_Bind opts) ''127.0.0.1:7878'' in
     if length (so_SigningKey opts) \<noteq> 32 then Inl BadGatewayKey
     else if \<not> isLoopbackBind split parse_ip bind \<and> \<not> so_AllowExternalBind opts then Inl NonLoopbackBind
     else if \<not> isLoopbackBind split parse_ip bind \<and> isLLMSession then Inl NonLoopbackInLLM
     else (case load_gateway_policy windows (so_PolicyPath opts) f of
       Inl e \<Rightarrow> Inl e
     | Inr p \<Rightarrow>
         Inr \<lparr>gs_SigningKey = so_SigningKey opts, gs_TokenStorePath = so_TokenStorePath opts,
              gs_Router = route_Compile parse_url templates, gs_Broker = broker_New, gs_SsrfGate = Some NewSSRFGate,
              gs_HasVault = so_HasVault opts, gs_Policy = p, gs_ActorHashKey = deriveActorKey (so_SigningKey opts),
              gs_HasAudit = so_HasAudit opts, gs_HasMetrics = so_HasMetrics opts\<rparr>))"

definition gateway_OnVaultLock :: "gateway_server \<Rightarrow> gateway_server" where
  "gateway_OnVaultLock S = S\<lparr>gs_Broker := broker_OnVaultLock (gs_Broker S)\<rparr>"

definition gateway_OnVaultUnlock :: "gateway_server \<Rightarrow> gateway_server" where
  "gateway_OnVaultUnlock S = S\<lparr>gs_Broker := broker_OnVaultUnlock (gs_Broker S)\<rparr>"

subsection \<open>Reading the pipeline\<close>

named_theorems gwsteps \<open>the steps of the handler\<close>

lemma gw_bind_Inr: "gw_bind m f w = (Inr b, w') \<longleftrightarrow> (\<exists>a w1. m w = (Inr a, w1) \<and> f a w1 = (Inr b, w'))"
  by (auto simp: gw_bind_def split: prod.splits sum.splits)

lemma gw_return_Inr: "gw_return a w = (Inr b, w') \<longleftrightarrow> b = a \<and> w' = w"
  by (auto simp: gw_return_def)

lemma gw_stop_Inr [simp]: "gw_stop r out w \<noteq> (Inr b, w')" by (simp add: gw_stop_def)
lemma gw_deny_Inr [simp]: "gw_deny S st c m a x w \<noteq> (Inr b, w')" by (simp add: gw_deny_def)

lemma logAudit_world [simp]:
  "gw_Calls (logAudit S a out x w) = gw_Calls w" "gw_Budget (logAudit S a out x w) = gw_Budget w"
  "gw_Logs (logAudit S a out x w) = gw_Logs w" "gw_VaultReads (logAudit S a out x w) = gw_VaultReads w"
  by (simp_all add: logAudit_def)

text \<open>A step that never calls the provider and one that never reads the vault.\<close>

definition quiet :: "'a gw \<Rightarrow> bool" where
  "quiet m = (\<forall>w. gw_Calls (snd (m w)) = gw_Calls w)"

definition blind :: "'a gw \<Rightarrow> bool" where
  "blind m = (\<forall>w. gw_VaultReads (snd (m w)) = gw_VaultReads w)"

lemma quiet_bind: "quiet m \<Longrightarrow> (\<And>a. quiet (f a)) \<Longrightarrow> quiet (gw_bind m f)"
  unfolding quiet_def gw_bind_def by (auto split: prod.splits sum.splits) (metis snd_conv)+

lemma blind_bind: "blind m \<Longrightarrow> (\<And>a. blind (f a)) \<Longrightarrow> blind (gw_bind m f)"
  unfolding blind_def gw_bind_def by (auto split: prod.splits sum.splits) (metis snd_conv)+

lemma quiet_basic [simp]: "quiet (gw_return a)" "quiet (gw_stop r out)" "quiet (gw_deny S st c m a' x)"
  by (simp_all add: quiet_def gw_return_def gw_stop_def gw_deny_def)

lemma blind_basic [simp]: "blind (gw_return a)" "blind (gw_stop r out)" "blind (gw_deny S st c m a' x)"
  by (simp_all add: blind_def gw_return_def gw_stop_def gw_deny_def)

lemmas gw_basic = gw_return_def gw_stop_def gw_deny_def

lemma quiet_steps [simp]:
  "quiet (step_path r)" "quiet (step_verify S E r)" "quiet (step_route S r)" "quiet (step_capability S t rt)"
  "quiet (step_llm S t rt)" "quiet (step_policy S E r t rt)" "quiet (step_budget S E t rt)" "quiet (step_ssrf S E rt)"
  "quiet (step_substitution S r rt)" "quiet (step_body r rt)" "quiet (step_vault S E rt)"
  "quiet (step_exchange S E t rt cred)" "quiet (step_build E rt r body a)"
  by (auto simp: quiet_def gw_basic step_path_def step_verify_def step_route_def step_capability_def step_llm_def
      step_policy_def step_budget_def step_ssrf_def step_substitution_def step_body_def step_vault_def count_vault_error_def
      step_exchange_def step_build_def Let_def split: option.splits sum.splits prod.splits vault_read.splits broker_error.splits)

lemma blind_steps [simp]:
  "blind (step_path r)" "blind (step_verify S E r)" "blind (step_route S r)" "blind (step_capability S t rt)"
  "blind (step_llm S t rt)" "blind (step_policy S E r t rt)" "blind (step_budget S E t rt)" "blind (step_ssrf S E rt)"
  "blind (step_substitution S r rt)" "blind (step_body r rt)"
  by (auto simp: blind_def gw_basic step_path_def step_verify_def step_route_def step_capability_def step_llm_def
      step_policy_def step_budget_def step_ssrf_def step_substitution_def step_body_def
      Let_def split: option.splits sum.splits prod.splits)

lemma quiet_authorise: "quiet (gateway_authorise S E r)"
  by (simp add: gateway_authorise_def quiet_bind)

lemma blind_authorise: "blind (gateway_authorise S E r)"
  by (simp add: gateway_authorise_def blind_bind)

lemma quiet_prepare: "quiet (gateway_prepare S E r tr)"
  by (cases tr) (simp add: gateway_prepare_def quiet_bind)

end
