(* ===== verification/Gateway_Safety.thy ===== *)
theory Gateway_Safety
  imports Gateway_Handler
begin

section \<open>What the gateway lets through\<close>

text \<open>
  The guarantees of \<open>handler.go\<close> over the whole chain of handlers: which checks every upstream call and every
  vault read has passed, what the request to the provider carries, what the agent gets back, and the limits
  of the chain.
\<close>

subsection \<open>The successful steps\<close>

named_theorems gwstep \<open>when a step of the handler goes on\<close>

lemma step_path_Inr [gwstep]:
  "step_path r w = (Inr a, w') \<longleftrightarrow> (HasPrefix (hr_Path r) ''/api/'' \<or> HasPrefix (hr_Path r) ''/sdk/'') \<and> w' = w"
  by (auto simp: step_path_def gw_return_def gw_stop_def)

lemma step_verify_Inr [gwstep]:
  "step_verify S E r w = (Inr t, w') \<longleftrightarrow>
    bearer_token r \<noteq> [] \<and>
    (\<exists>L. token_Verify (ge_Token E) (verify_call_of E r (bearer_token r)) (gs_SigningKey S) (gs_TokenStorePath S)
           (ge_TokenFile E) (gw_Logs w) = (Inr t, L) \<and> w' = w\<lparr>gw_Logs := L\<rparr>)"
  by (auto simp: step_verify_def gw_return_def gw_stop_def gw_deny_def Let_def split: prod.splits sum.splits)

lemma step_route_Inr [gwstep]:
  "step_route S r w = (Inr rt, w') \<longleftrightarrow> route_Match (gs_Router S) (hr_Method r) (hr_Path r) = Some rt \<and> w' = w"
  by (auto simp: step_route_def gw_return_def gw_stop_def split: option.splits)

lemma step_capability_Inr [gwstep]:
  "step_capability S t rt w = (Inr a, w') \<longleftrightarrow> HasCapability t (rt_Capability rt) \<and> w' = w"
  by (auto simp: step_capability_def gw_return_def gw_deny_def)

lemma step_llm_Inr [gwstep]:
  "step_llm S t rt w = (Inr a, w') \<longleftrightarrow>
    (t_LLMSession t \<longrightarrow> \<not> token_isReadClassCap (rt_Capability rt) \<and> \<not> rt_LLMSessionDeny rt \<and>
       (t_ApprovalRootHMAC t \<noteq> [] \<longrightarrow> t_TwoPerson t)) \<and> w' = w"
  by (auto simp: step_llm_def gw_return_def gw_deny_def)

lemma checkPolicySafe_allow:
  "de_Allow (checkPolicySafe hook now ap p req) \<longleftrightarrow> (\<exists>d. policy_Check hook now ap p req = Inr d \<and> de_Allow d)"
  by (auto simp: checkPolicySafe_def zero_decision_def split: sum.splits)

definition policy_lets :: "gateway_server \<Rightarrow> gateway_env \<Rightarrow> http_request \<Rightarrow> token \<Rightarrow> route \<Rightarrow> bool" where
  "policy_lets S E r t rt =
    (case gs_Policy S of None \<Rightarrow> True
     | Some p \<Rightarrow>
        (case policy_Check (ge_OrgHook E) (ge_PolicyNow E) (ge_ApprovalToken E) p (gateway_policy_request t rt r) of
           Inl _ \<Rightarrow> False | Inr d \<Rightarrow> de_Allow d \<and> \<not> de_ApprovalRequired d))"

text \<open>The world after the policy step lets a request pass: one more audit event, when there is a policy.\<close>

definition policy_world :: "gateway_server \<Rightarrow> gateway_env \<Rightarrow> http_request \<Rightarrow> token \<Rightarrow> route \<Rightarrow> gateway_world \<Rightarrow> gateway_world" where
  "policy_world S E r t rt w = snd (step_policy S E r t rt w)"

lemma policy_world_simps [simp]:
  "gw_Budget (policy_world S E r t rt w) = gw_Budget w" "gw_Logs (policy_world S E r t rt w) = gw_Logs w"
  "gw_Calls (policy_world S E r t rt w) = gw_Calls w" "gw_VaultReads (policy_world S E r t rt w) = gw_VaultReads w"
  by (auto simp: policy_world_def step_policy_def gw_return_def gw_deny_def Let_def split: option.splits)

lemma step_policy_Inr [gwstep]:
  "step_policy S E r t rt w = (Inr a, w') \<longleftrightarrow> policy_lets S E r t rt \<and> w' = policy_world S E r t rt w"
  by (auto simp: step_policy_def policy_lets_def policy_world_def checkPolicySafe_def gw_return_def gw_deny_def Let_def
      zero_decision_def split: option.splits sum.splits if_splits)

lemma step_budget_Inr [gwstep]:
  "step_budget S E t rt w = (Inr a, w') \<longleftrightarrow>
    (case gw_Budget w of None \<Rightarrow> w' = w
     | Some c \<Rightarrow> fst (CheckAndRecord (ge_BudgetNow E) (t_Actor t) (rt_Capability rt) 1 c) = None \<and>
         w' = w\<lparr>gw_Budget := Some (snd (CheckAndRecord (ge_BudgetNow E) (t_Actor t) (rt_Capability rt) 1 c))\<rparr>)"
  by (auto simp: step_budget_def gw_return_def split: option.splits prod.splits)

lemma step_ssrf_Inr [gwstep]:
  "step_ssrf S E rt w = (Inr a, w') \<longleftrightarrow>
    (case gs_SsrfGate S of None \<Rightarrow> True
     | Some g \<Rightarrow> ssrf_Validate (ge_ParseIP E) (ge_Lookup E) g (rt_Provider rt) (rt_UpstreamHost rt) = None) \<and> w' = w"
  by (auto simp: step_ssrf_def gw_return_def gw_deny_def split: option.splits)

lemma step_substitution_Inr [gwstep]:
  "step_substitution S r rt w = (Inr a, w') \<longleftrightarrow> CheckRequest r (rt_UpstreamHost rt) (rt_AllowedParams rt) False = None \<and> w' = w"
  by (auto simp: step_substitution_def gw_return_def gw_deny_def split: option.splits)

lemma step_body_Inr [gwstep]:
  "step_body r rt w = (Inr b, w') \<longleftrightarrow> b = hr_Body r \<and> length b \<le> rt_MaxBodyBytes rt \<and> \<not> hr_BodyFails r \<and> w' = w"
  by (auto simp: step_body_def read_limited_def gw_return_def gw_stop_def split: if_splits)

lemma step_vault_Inr [gwstep]:
  "step_vault S E rt w = (Inr v, w') \<longleftrightarrow>
    (if rt_SecretRef rt = [] then v = [] \<and> w' = w
     else gs_HasVault S \<and> ge_VaultGet E (rt_SecretRef rt) = VaultValue v \<and>
          w' = w\<lparr>gw_VaultReads := gw_VaultReads w @ [rt_SecretRef rt]\<rparr>)"
  by (auto simp: step_vault_def gw_return_def gw_stop_def Let_def split: vault_read.splits)

lemma step_exchange_Inr [gwstep]:
  "step_exchange S E t rt cred w = (Inr a, w') \<longleftrightarrow>
    broker_Exchange (ge_BrokerNow E) (exchange_spec_of t rt cred) (gs_Broker S) = Inr a \<and> w' = w"
  by (auto simp: step_exchange_def gw_return_def gw_stop_def split: sum.splits broker_error.splits)

lemma step_build_Inr [gwstep]:
  "step_build E rt r body a w = (Inr u, w') \<Longrightarrow> u = upstream_of rt r body a \<and> w' = w"
  by (auto simp: step_build_def gw_return_def gw_stop_def split: if_splits)

subsection \<open>Authorisation\<close>

text \<open>What a request has passed when the handler starts to act on it, in the order of the checks.\<close>

definition authorised ::
  "gateway_server \<Rightarrow> gateway_env \<Rightarrow> http_request \<Rightarrow> gateway_world \<Rightarrow> token \<Rightarrow> route \<Rightarrow> bool" where
  "authorised S E r w t rt =
    ((HasPrefix (hr_Path r) ''/api/'' \<or> HasPrefix (hr_Path r) ''/sdk/'') \<and>
     bearer_token r \<noteq> [] \<and>
     fst (token_Verify (ge_Token E) (verify_call_of E r (bearer_token r)) (gs_SigningKey S) (gs_TokenStorePath S)
       (ge_TokenFile E) (gw_Logs w)) = Inr t \<and>
     route_Match (gs_Router S) (hr_Method r) (hr_Path r) = Some rt \<and>
     HasCapability t (rt_Capability rt) \<and>
     (t_LLMSession t \<longrightarrow> \<not> token_isReadClassCap (rt_Capability rt) \<and> \<not> rt_LLMSessionDeny rt \<and>
        (t_ApprovalRootHMAC t \<noteq> [] \<longrightarrow> t_TwoPerson t)) \<and>
     policy_lets S E r t rt \<and>
     (\<forall>c. gw_Budget w = Some c \<longrightarrow>
        fst (CheckAndRecord (ge_BudgetNow E) (t_Actor t) (rt_Capability rt) 1 c) = None) \<and>
     (\<forall>g. gs_SsrfGate S = Some g \<longrightarrow>
        ssrf_Validate (ge_ParseIP E) (ge_Lookup E) g (rt_Provider rt) (rt_UpstreamHost rt) = None) \<and>
     CheckRequest (without_authorization r) (rt_UpstreamHost rt) (rt_AllowedParams rt) False = None)"

lemma gateway_authorise_iff: "(\<exists>w'. gateway_authorise S E r w = (Inr (t, rt), w')) \<longleftrightarrow> authorised S E r w t rt"
proof -
  obtain x L where v: "token_Verify (ge_Token E) (verify_call_of E r (bearer_token r)) (gs_SigningKey S) (gs_TokenStorePath S)
       (ge_TokenFile E) (gw_Logs w) = (x, L)" by force
  show ?thesis
    unfolding gateway_authorise_def gw_bind_Inr gwstep gw_return_Inr authorised_def
    by (cases "gw_Budget w"; cases "gs_SsrfGate S") (auto simp: v)
qed

lemma gateway_authorise_Inr: "gateway_authorise S E r w = (Inr (t, rt), w') \<Longrightarrow> authorised S E r w t rt"
  using gateway_authorise_iff by blast

subsection \<open>From the pipeline to the handler\<close>

lemma quietD: "quiet m \<Longrightarrow> m w = (x, w') \<Longrightarrow> gw_Calls w' = gw_Calls w"
  unfolding quiet_def by (metis snd_conv)

lemma blindD: "blind m \<Longrightarrow> m w = (x, w') \<Longrightarrow> gw_VaultReads w' = gw_VaultReads w"
  unfolding blind_def by (metis snd_conv)

lemma quiet_respond: "quiet (step_respond S E rt resp)"
  by (auto simp: quiet_def step_respond_def gw_return_def gw_stop_def split: sum.splits read_error.splits)

lemma count_outcome_world [simp]:
  "gw_Calls (count_outcome S out w) = gw_Calls w" "gw_VaultReads (count_outcome S out w) = gw_VaultReads w"
  by (simp_all add: count_outcome_def Let_def)

lemma gatewayHandler_world:
  assumes "gatewayHandler S E r w = (resp, w')"
  obtains res w1 where "gateway_pipeline S E r w = (res, w1)" "gw_Calls w' = gw_Calls w1" "gw_VaultReads w' = gw_VaultReads w1"
  using assms by (cases "gateway_pipeline S E r w") (auto simp: gatewayHandler_def split: sum.splits prod.splits)

lemma gateway_pipeline_acts:
  assumes p: "gateway_pipeline S E r w = (res, w')"
    and "gw_Calls w' \<noteq> gw_Calls w \<or> gw_VaultReads w' \<noteq> gw_VaultReads w"
  obtains t rt w1 where "gateway_authorise S E r w = (Inr (t, rt), w1)"
proof (cases "gateway_authorise S E r w")
  case (Pair x w1)
  show ?thesis
  proof (cases x)
    case (Inl e)
    then have "w' = w1" using p Pair by (simp add: gateway_pipeline_def gw_bind_def)
    then show ?thesis using assms(2) Pair quietD [OF quiet_authorise] blindD [OF blind_authorise] by blast
  next
    case (Inr tr)
    then show ?thesis using that Pair by (cases tr) simp
  qed
qed

text \<open>A request that reached the provider: exactly one call was made, with this content.\<close>

lemma gateway_pipeline_call:
  assumes p: "gateway_pipeline S E r w = (res, w')" and c: "gw_Calls w' \<noteq> gw_Calls w"
  obtains t rt cred a where "authorised S E r w t rt"
    "gw_Calls w' = gw_Calls w @ [upstream_of rt (without_authorization r) (hr_Body r) a]"
    "length (hr_Body r) \<le> rt_MaxBodyBytes rt"
    "rt_SecretRef rt \<noteq> [] \<longrightarrow> gs_HasVault S \<and> ge_VaultGet E (rt_SecretRef rt) = VaultValue cred"
    "rt_SecretRef rt = [] \<longrightarrow> cred = []"
    "broker_Exchange (ge_BrokerNow E) (exchange_spec_of t rt cred) (gs_Broker S) = Inr a"
proof -
  obtain t rt w1 where au: "gateway_authorise S E r w = (Inr (t, rt), w1)"
    using gateway_pipeline_acts p c by blast
  have c1: "gw_Calls w1 = gw_Calls w" using quietD [OF quiet_authorise au] .
  show ?thesis
  proof (cases "gateway_prepare S E (without_authorization r) (t, rt) w1")
    case (Pair x w2)
    then have c2: "gw_Calls w2 = gw_Calls w" using quietD [OF quiet_prepare] c1 by metis
    show ?thesis
    proof (cases x)
      case (Inl e)
      then have "w' = w2" using p Pair au by (simp add: gateway_pipeline_def gw_bind_def)
      then show ?thesis using c c2 by simp
    next
      case (Inr ru)
      then obtain rt' u where ru: "ru = (rt', u)" by force
      from Pair Inr ru obtain cred a where
        "rt' = rt" "u = upstream_of rt (without_authorization r) (hr_Body (without_authorization r)) a"
        "length (hr_Body (without_authorization r)) \<le> rt_MaxBodyBytes rt"
        "rt_SecretRef rt \<noteq> [] \<longrightarrow> gs_HasVault S \<and> ge_VaultGet E (rt_SecretRef rt) = VaultValue cred"
        "rt_SecretRef rt = [] \<longrightarrow> cred = []"
        "broker_Exchange (ge_BrokerNow E) (exchange_spec_of t rt cred) (gs_Broker S) = Inr a"
        by (auto simp: gateway_prepare_def gw_bind_Inr gwstep gw_return_Inr dest!: step_build_Inr split: if_splits)
      moreover have "gw_Calls w' = gw_Calls w2 @ [u]"
      proof -
        obtain y w3 where sd: "step_send S E rt' u w2 = (y, w3)" by force
        then have c3: "gw_Calls w3 = gw_Calls w2 @ [u]"
          by (auto simp: step_send_def gw_return_def Let_def split: option.splits)
        have "gateway_pipeline S E r w = gw_bind (step_send S E rt' u) (step_respond S E rt') w2"
          using au Pair Inr ru by (simp add: gateway_pipeline_def gw_bind_def)
        with p sd have "(case y of Inl e \<Rightarrow> w' = w3 | Inr b \<Rightarrow> step_respond S E rt' b w3 = (res, w'))"
          by (cases y) (simp_all add: gw_bind_def)
        then have "gw_Calls w' = gw_Calls w3" using quietD [OF quiet_respond] by (cases y) auto
        then show ?thesis using c3 by simp
      qed
      ultimately show ?thesis using that [of t rt a cred] gateway_authorise_Inr [OF au] c2
        by (simp add: without_authorization_def)
    qed
  qed
qed

subsection \<open>Through the middleware\<close>

text \<open>What the middleware hands on differs from the request only in a body cut at 64 KiB.\<close>

definition inspected :: "http_request \<Rightarrow> http_request" where
  "inspected r = (if hr_ContentLength r \<noteq> 0 then r\<lparr>hr_Body := take max_inspected (hr_Body r), hr_BodyFails := False\<rparr> else r)"

lemma authBlocker_cases:
  "authBlockerMiddleware next_h False r w = (resp, w') \<Longrightarrow> w' = w \<or> next_h (inspected r) w = (resp, w')"
  by (auto simp: authBlockerMiddleware_def inspected_def Let_def split: if_splits)

lemma hostOverride_cases:
  "hostOverrideBlockerMiddleware next_h hosts r w = (resp, w') \<Longrightarrow> w' = w \<or> next_h r w = (resp, w')"
  by (auto simp: hostOverrideBlockerMiddleware_def Let_def split: option.splits if_splits)

lemma gateway_serve_handler:
  assumes "gateway_serve S E r w = (resp, w')" "w' \<noteq> w"
  shows "gatewayHandler S E (inspected r) w = (resp, w')"
proof -
  have "gateway_proxy S E r w = (resp, w')"
    using assms by (auto simp: gateway_serve_def reserveApprovalPaths_def gateway_mux_def healthHandler_def split: if_splits)
  then show ?thesis using assms(2)
    unfolding gateway_proxy_def by (metis authBlocker_cases hostOverride_cases)
qed

lemma inspected_same:
  "hr_Path (inspected r) = hr_Path r" "hr_Method (inspected r) = hr_Method r" "hr_Header (inspected r) = hr_Header r"
  "hr_Query (inspected r) = hr_Query r" "hr_Host (inspected r) = hr_Host r"
  by (simp_all add: inspected_def)

lemma authorised_inspected: "authorised S E (inspected r) w t rt = authorised S E r w t rt"
proof -
  have "bearer_token (inspected r) = bearer_token r" by (simp add: bearer_token_def inspected_same)
  moreover from this have "verify_call_of E (inspected r) (bearer_token r) = verify_call_of E r (bearer_token r)"
    by (simp add: verify_call_of_def inspected_same)
  moreover have "gateway_policy_request t rt (inspected r) = gateway_policy_request t rt r"
    by (simp add: gateway_policy_request_def inspected_same)
  then have "policy_lets S E (inspected r) t rt = policy_lets S E r t rt" by (simp only: policy_lets_def)
  moreover have "CheckRequest (without_authorization (inspected r)) h ps False = CheckRequest (without_authorization r) h ps False" for h ps
    by (simp add: CheckRequest_def without_authorization_def inspected_same)
  ultimately show ?thesis by (simp only: authorised_def inspected_same)
qed

text \<open>A request nothing in the middleware objects to.\<close>

definition unobjectionable :: "gateway_env \<Rightarrow> http_request \<Rightarrow> bool" where
  "unobjectionable E r =
    (\<not> HasPrefix (ToLower (hr_Path r)) ''/approv'' \<and> \<not> HasPrefix (ToLower (hr_EscapedPath r)) ''/approv'' \<and>
     ge_CleanPath E (hr_Path r) = hr_Path r \<and> hr_Path r \<noteq> ''/health'' \<and>
     list_all (\<lambda>p. query_Get (hr_Query r) p = []) blockedQueryParams \<and>
     \<not> bearerPattern (take max_inspected (hr_Body r)) \<and> \<not> endpoint_blocked blockedTokenEndpoints (hr_Path r) \<and>
     list_all (\<lambda>h. header_Get (hr_Header r) h = []) blockedOverrideHeaders)"

lemma gateway_serve_passes:
  assumes "unobjectionable E r"
  shows "gateway_serve S E r w = gatewayHandler S E (inspected r) w"
proof -
  have "\<not> HasPrefix p ''/approve''" "\<not> HasPrefix p ''/approvals''" if "\<not> HasPrefix p ''/approv''" for p
    using that by (auto simp: HasPrefix_prefix prefix_def)
  then have "gateway_serve S E r w = gateway_proxy S E r w"
    using assms by (simp add: gateway_serve_def reserveApprovalPaths_def gateway_mux_def unobjectionable_def)
  moreover have "find (\<lambda>hdr. header_Get (hr_Header (inspected r)) hdr \<noteq> []) blockedOverrideHeaders = None"
    using assms by (auto simp: unobjectionable_def find_None_iff list_all_iff inspected_same)
  then have "hostOverrideBlockerMiddleware (gatewayHandler S E) [] (inspected r) w = gatewayHandler S E (inspected r) w"
    by (simp add: hostOverrideBlockerMiddleware_def)
  moreover have "gateway_proxy S E r w = hostOverrideBlockerMiddleware (gatewayHandler S E) [] (inspected r) w"
    using assms by (auto simp: gateway_proxy_def authBlockerMiddleware_def unobjectionable_def inspected_def Let_def
        list_ex_iff list_all_iff)
  ultimately show ?thesis by simp
qed

text \<open>The request an authorised one makes to the provider, when its body fits, its credential is there and can be used.\<close>

lemma gatewayHandler_calls:
  assumes "authorised S E r w t rt" "length (hr_Body r) \<le> rt_MaxBodyBytes rt" "\<not> hr_BodyFails r"
    and "rt_SecretRef rt \<noteq> []" "gs_HasVault S" "ge_VaultGet E (rt_SecretRef rt) = VaultValue cred"
    and "broker_Exchange (ge_BrokerNow E) (exchange_spec_of t rt cred) (gs_Broker S) = Inr a"
    and "ge_BuildOk E (or_default (rt_Method rt) ''POST'') (''https://'' @ rt_UpstreamHost rt @ rt_UpstreamPath rt)"
  shows "gw_Calls (snd (gatewayHandler S E r w)) = gw_Calls w @ [upstream_of rt (without_authorization r) (hr_Body r) a]"
proof -
  obtain w1 where au: "gateway_authorise S E r w = (Inr (t, rt), w1)" using assms(1) gateway_authorise_iff by blast
  define u where "u = upstream_of rt (without_authorization r) (hr_Body r) a"
  have b: "hr_Body (without_authorization r) = hr_Body r" "hr_BodyFails (without_authorization r) = hr_BodyFails r"
    by (simp_all add: without_authorization_def)
  have "\<exists>w2. gateway_prepare S E (without_authorization r) (t, rt) w1 = (Inr (rt, u), w2)"
    unfolding gateway_prepare_def prod.case gw_bind_Inr gw_return_Inr gwstep b
    using assms by (auto simp: step_build_def gw_return_def u_def b)
  then obtain w2 where pr: "gateway_prepare S E (without_authorization r) (t, rt) w1 = (Inr (rt, u), w2)" by blast
  have c: "gw_Calls w2 = gw_Calls w" using quietD [OF quiet_prepare pr] quietD [OF quiet_authorise au] by simp
  obtain x w3 where sd: "gw_bind (step_send S E rt u) (step_respond S E rt) w2 = (x, w3)" by force
  then have "gw_Calls w3 = gw_Calls w2 @ [u]"
    using quietD [OF quiet_respond] unfolding gw_bind_def step_send_def
    by (fastforce simp: gw_return_def Let_def split: option.splits)
  moreover have "gateway_pipeline S E r w = (x, w3)"
    using au pr sd by (simp add: gateway_pipeline_def gw_bind_def)
  ultimately show ?thesis using c by (auto simp: gatewayHandler_def u_def split: sum.splits prod.splits)
qed

subsection \<open>A sample gateway\<close>

definition gateway_token :: token where
  "gateway_token = sample_token\<lparr>t_Capabilities := [''openrouter.*''], t_LLMSession := False, t_FDNonceHash := [], t_MaxUses := 0\<rparr>"

definition sample_server :: gateway_server where
  "sample_server = \<lparr>gs_SigningKey = sample_key, gs_TokenStorePath = ''/h/tokens.json'',
     gs_Router = route_Compile sample_parse_url [sample_template], gs_Broker = broker_New,
     gs_SsrfGate = Some NewSSRFGate, gs_HasVault = True, gs_Policy = None, gs_ActorHashKey = [], gs_HasAudit = True,
     gs_HasMetrics = False\<rparr>"

definition sample_text :: text_env where
  "sample_text = \<lparr>tx_lower = ToLower, tx_Replace = (\<lambda>_ _ s. s), tx_Match = (\<lambda>_ _. False), tx_Compiles = (\<lambda>_. True),
     tx_Decode = (\<lambda>_. None), tx_Encode = (\<lambda>_. None)\<rparr>"

definition sample_gateway_env :: gateway_env where
  "sample_gateway_env = \<lparr>ge_Token = sample_token_env, ge_UsedAt = [], ge_Io = ConsumeOk, ge_VerifyNow = 5, ge_PolicyNow = 5,
     ge_BudgetNow = 5, ge_BrokerNow = 5, ge_TokenFile = Holds [gateway_token], ge_OrgHook = None, ge_ApprovalToken = [],
     ge_HashActor = (\<lambda>_ _. []), ge_ParseIP = sample_parse_ip, ge_Lookup = sample_lookup,
     ge_VaultGet = (\<lambda>p. if p = ''default/ai/openrouter/api_key'' then VaultValue ''sk-1'' else VaultNotFound),
     ge_BuildOk = (\<lambda>_ _. True),
     ge_Upstream = (\<lambda>_ _. Some \<lparr>us_Status = 200, us_Header = [(''Set-Cookie'', [''s'']), (''Date'', [''d''])], us_Body = ''ok'', us_BodyFails = False\<rparr>),
     ge_Text = sample_text, ge_Codecs = \<lparr>cd_Gzip = (\<lambda>_. None), cd_Zlib = (\<lambda>_. None), cd_Flate = (\<lambda>s. (s, False))\<rparr>,
     ge_CleanPath = (\<lambda>p. p), ge_Redirect = (\<lambda>_. http_NotFound), ge_Health = []\<rparr>"

definition sample_http :: http_request where
  "sample_http = \<lparr>hr_Method = ''POST'', hr_Path = ''/api/openrouter/refund'', hr_EscapedPath = ''/api/openrouter/refund'',
     hr_Query = [], hr_Header = [(''Authorization'', [''Bearer jwt'']), (''Accept'', [''*''])], hr_Host = ''127.0.0.1:7878'',
     hr_Body = ''{}'', hr_BodyFails = False, hr_ContentLength = 2\<rparr>"

definition sample_world :: gateway_world where
  "sample_world = \<lparr>gw_Logs = sample_logs, gw_Budget = None, gw_Audit = [],
     gw_Metrics = \<lparr>gm_RequestsOK = 0, gm_RequestsDenied = 0, gm_RequestsError = 0, gm_VaultErrors = 0\<rparr>,
     gw_VaultReads = [], gw_Calls = []\<rparr>"

lemmas eval_header = CanonicalHeaderKey_def header_byte_def upper_char_def lower_char_def is_lower_def is_upper_def
  is_digit_def byte_of_def

lemma canonical_names [simp]:
  "CanonicalHeaderKey ''X-Keylatch-FD-Nonce'' = ''X-Keylatch-Fd-Nonce''"
  "CanonicalHeaderKey ''Authorization'' = ''Authorization''"
  "CanonicalHeaderKey ''X-Forwarded-Host'' = ''X-Forwarded-Host''"
  by (simp_all add: eval_header) (simp add: char_of_def bit_0)

lemma sample_gateway_verified:
  "token_Verify sample_token_env (verify_call_of sample_gateway_env sample_http ''jwt'') sample_key ''/h/tokens.json''
     (Holds [gateway_token]) L = (Inr gateway_token, L)"
proof -
  have "verify_call_of sample_gateway_env sample_http ''jwt'' =
      \<lparr>vc_Now = 5, vc_UsedAt = [], vc_Io = ConsumeOk, vc_Jwt = ''jwt'', vc_Request = Some []\<rparr>"
  proof -
    have "header_Get (hr_Header sample_http) ''X-Keylatch-FD-Nonce'' = []"
      by (simp add: header_Get_def header_Values_def sample_http_def)
    then show ?thesis by (simp add: verify_call_of_def sample_gateway_env_def)
  qed
  moreover have "loadToken ''/h/tokens.json'' (c_ID sample_claims) (Holds [gateway_token]) = Inr gateway_token" by code_simp
  moreover have "te_Parse sample_token_env sample_key 5 ''jwt'' = JwtParsed sample_claims True" by code_simp
  moreover have "t_Revoked gateway_token = False" "t_ExpiresAt gateway_token = Minute" "t_FDNonceHash gateway_token = []" "t_MaxUses gateway_token = 0"
    by code_simp+
  ultimately show ?thesis
    by (simp add: token_Verify_def sample_key_length fd_nonce_ok_def Minute_def Second_def)
qed

lemma sample_fields:
  "gs_SigningKey sample_server = sample_key" "gs_TokenStorePath sample_server = ''/h/tokens.json''"
  "gs_Router sample_server = route_Compile sample_parse_url [sample_template]" "gs_SsrfGate sample_server = Some NewSSRFGate"
  "gs_Policy sample_server = None" "gs_HasVault sample_server" "gs_Broker sample_server = broker_New"
  "ge_Token sample_gateway_env = sample_token_env" "ge_TokenFile sample_gateway_env = Holds [gateway_token]"
  "ge_ParseIP sample_gateway_env = sample_parse_ip" "ge_Lookup sample_gateway_env = sample_lookup"
  "hr_Method sample_http = ''POST''" "hr_Path sample_http = ''/api/openrouter/refund''"
  "gw_Logs sample_world = sample_logs" "gw_Budget sample_world = None"
  by (simp_all add: sample_server_def sample_gateway_env_def sample_http_def sample_world_def)

lemma sample_authorised: "authorised sample_server sample_gateway_env sample_http sample_world gateway_token sample_route"
proof -
  have "bearer_token sample_http = ''jwt''"
    by (simp add: bearer_token_def header_Get_def header_Values_def sample_http_def HasPrefix_def)
  moreover have rt: "rt_Capability sample_route = ''openrouter.refund''" "rt_Provider sample_route = ''openrouter''"
      "rt_UpstreamHost sample_route = ''openrouter.ai''" "rt_AllowedParams sample_route = []"
    by (simp_all add: sample_route_def action_route_def sample_action_def sample_template_def)
  then have "HasCapability gateway_token (rt_Capability sample_route)"
    by (simp add: HasCapability_def gateway_token_def HasSuffix_def HasPrefix_def TrimSuffix_def)
  moreover have "\<not> t_LLMSession gateway_token" by (simp add: gateway_token_def)
  moreover have "CheckRequest (without_authorization sample_http) ''openrouter.ai'' (rt_AllowedParams sample_route) False = None"
    by (simp add: CheckRequest_def without_authorization_def sample_http_def header_Get_def header_Values_def header_Del_def
        apiKeyParams_def query_Get_def endpoint_blocked_def tokenEndpoints_def HasSuffix_def hostMatches_def
        substitution_stripPort_def isGatewayHost_def HasPrefix_def is_digit_def byte_of_def)
  moreover have "HasPrefix (hr_Path sample_http) ''/api/''" by code_simp
  ultimately show ?thesis
    using sample_ssrf sample_match sample_gateway_verified [of sample_logs]
    by (simp add: authorised_def policy_lets_def sample_fields rt)
qed

lemma sample_unobjectionable: "unobjectionable sample_gateway_env sample_http"
  by (simp add: unobjectionable_def sample_http_def sample_gateway_env_def HasPrefix_def ToLower_def lower_char_def is_upper_def
      byte_of_def blockedQueryParams_def query_Get_def max_inspected_def bearer_here_def endpoint_blocked_def
      blockedTokenEndpoints_def HasSuffix_def blockedOverrideHeaders_def header_Get_def header_Values_def eval_header Let_def)

lemma sample_inspected: "inspected sample_http = sample_http"
  by (simp add: inspected_def sample_http_def max_inspected_def)

definition sample_access :: access_token where
  "sample_access = \<lparr>at_Value = ''sk-1'', at_ExpiresAt = 5 + Hour, at_Metadata = [(''strategy'', ''static_gateway_only'')]\<rparr>"

lemma sample_calls_before: "gw_Calls sample_world = []"
  by (simp add: sample_world_def)

lemma sample_calls:
  "gw_Calls (snd (gateway_serve sample_server sample_gateway_env sample_http sample_world)) =
    [upstream_of sample_route (without_authorization sample_http) ''{}'' sample_access]"
proof -
  have sr: "rt_SecretRef sample_route = ''default/ai/openrouter/api_key''" "rt_MaxBodyBytes sample_route = 10485760"
      "rt_ExchangeStrategy sample_route = ''static_gateway_only''"
    by (simp_all add: sample_route_def action_route_def sample_template_def vaultSecretRef_def or_default_def
        sample_action_def defaultMaxBodyBytes_def)
  have ex: "broker_Exchange (ge_BrokerNow sample_gateway_env) (exchange_spec_of gateway_token sample_route ''sk-1'')
      (gs_Broker sample_server) = Inr sample_access"
    by (simp add: broker_Exchange_def exchange_spec_of_def sr sample_fields broker_New_def NewWithOptions_def
        sample_access_def Hour_def Minute_def Second_def sample_gateway_env_def)
  have b: "hr_Body sample_http = ''{}''" "\<not> hr_BodyFails sample_http" "gw_Calls sample_world = []"
    "ge_VaultGet sample_gateway_env (rt_SecretRef sample_route) = VaultValue ''sk-1''" "\<And>m u. ge_BuildOk sample_gateway_env m u"
    by (simp_all add: sample_http_def sample_world_def sample_gateway_env_def sr)
  show ?thesis
    unfolding gateway_serve_passes [OF sample_unobjectionable] sample_inspected
    using gatewayHandler_calls [OF sample_authorised _ b(2) _ _ b(4) ex] by (simp add: b sr sample_fields)
qed

subsection \<open>Properties\<close>

text \<open>Headers that carry no credential and do not describe a body that was changed.\<close>

definition presentable :: "http_header \<Rightarrow> bool" where
  "presentable h = (\<forall>x \<in> set h. ToLower (fst x) \<notin> set sensitiveHeaderNames \<and> fst x \<notin> set responseHeadersDroppedAfterDecode)"

definition presents :: "'a gw \<Rightarrow> bool" where
  "presents m = (\<forall>w resp out w'. m w = (Inl (resp, out), w') \<longrightarrow> presentable (hp_Header resp))"

lemma presents_bind: "presents m \<Longrightarrow> (\<And>a. presents (f a)) \<Longrightarrow> presents (gw_bind m f)"
  unfolding presents_def gw_bind_def by (auto split: prod.splits sum.splits)

lemma json_headers: "presentable (hp_Header (json_response st b))"
  by (simp add: presentable_def json_response_def sensitiveHeaderNames_def responseHeadersDroppedAfterDecode_def ToLower_def
      lower_char_def is_upper_def byte_of_def)

lemma presents_basic [simp]: "presents (gw_return a)" "presents (gw_stop (writeError st c m) out)" "presents (gw_deny S st c m a' x)"
  by (simp_all add: presents_def gw_return_def gw_stop_def gw_deny_def writeError_def json_headers)

lemma presents_steps [simp]:
  "presents (step_path r)" "presents (step_verify S E r)" "presents (step_route S r)" "presents (step_capability S t rt)"
  "presents (step_llm S t rt)" "presents (step_policy S E r t rt)" "presents (step_budget S E t rt)" "presents (step_ssrf S E rt)"
  "presents (step_substitution S r rt)" "presents (step_body r rt)" "presents (step_vault S E rt)"
  "presents (step_exchange S E t rt cred)" "presents (step_build E rt r body a)" "presents (step_send S E rt u)"
  "presents (step_respond S E rt resp)"
  by (auto simp: presents_def gw_basic step_path_def step_verify_def step_route_def step_capability_def step_llm_def
      step_policy_def step_budget_def step_ssrf_def step_substitution_def step_body_def step_vault_def step_exchange_def
      step_build_def step_send_def step_respond_def Let_def writeError_def json_headers
      split: option.splits sum.splits prod.splits vault_read.splits broker_error.splits read_error.splits if_splits)

lemma presents_pipeline: "presents (gateway_pipeline S E r)"
proof -
  have "presents (gateway_prepare S E r' tr)" for r' tr by (cases tr) (simp add: gateway_prepare_def presents_bind)
  moreover have "presents (gateway_authorise S E r)" by (simp add: gateway_authorise_def presents_bind)
  ultimately show ?thesis by (simp add: gateway_pipeline_def presents_bind)
qed

lemma header_Del_all:
  "x \<in> set (fold (\<lambda>n hs. header_Del hs n) ns h) \<Longrightarrow> x \<in> set h \<and> fst x \<notin> CanonicalHeaderKey ` set ns"
  by (induction ns arbitrary: h) (fastforce simp: header_Del_def)+

lemma redacted_presentable: "presentable (hp_Header (redacted_response E rt resp b))"
proof -
  define h where "h = redact_Headers (ge_Text E) (us_Header resp)"
  have "ToLower (fst x) \<notin> set sensitiveHeaderNames" if "x \<in> set h" for x
    using that by (auto simp: h_def redact_Headers_def)
  moreover have "CanonicalHeaderKey ` set responseHeadersDroppedAfterDecode = set responseHeadersDroppedAfterDecode"
    by (simp add: responseHeadersDroppedAfterDecode_def eval_header)
  ultimately have "presentable (fold (\<lambda>n hs. header_Del hs n) responseHeadersDroppedAfterDecode h)"
    unfolding presentable_def using header_Del_all by metis
  then show ?thesis by (simp add: redacted_response_def Let_def h_def)
qed

lemma gatewayHandler_presentable: "presentable (hp_Header (fst (gatewayHandler S E r w)))"
proof -
  obtain res w1 where p: "gateway_pipeline S E r w = (res, w1)" by force
  show ?thesis
  proof (cases res)
    case (Inl x)
    then obtain resp out where x: "res = Inl (resp, out)" by (cases x) auto
    then have "presentable (hp_Header resp)" using p presents_pipeline [of S E r] unfolding presents_def by blast
    then show ?thesis using p x by (simp add: gatewayHandler_def)
  next
    case (Inr x)
    then obtain resp out where x: "x = (resp, out)" by force
    from p Inr x obtain ru resp0 w2 where "step_respond S E (fst ru) resp0 w2 = (Inr (resp, out), w1)"
      unfolding gateway_pipeline_def gw_bind_Inr by (auto simp: gw_bind_Inr)
    then have "\<exists>b. resp = redacted_response E (fst ru) resp0 b"
      by (auto simp: step_respond_def gw_basic split: sum.splits read_error.splits)
    then show ?thesis using p Inr x redacted_presentable by (auto simp: gatewayHandler_def)
  qed
qed



text \<open>The header credential injection writes, for a placement and a token.\<close>

definition injected_header :: "auth_placement \<Rightarrow> gostring \<Rightarrow> gostring \<times> gostring list" where
  "injected_header p tok =
    (if ap_In p = ''header'' then
       (CanonicalHeaderKey (ap_Name p), [if ap_Scheme p \<noteq> [] then ap_Scheme p @ '' '' @ tok else tok])
     else (CanonicalHeaderKey ''Authorization'', [''Bearer '' @ tok]))"

lemma injectAuth_fields [simp]:
  "ur_URL (injectAuth p tok u) = ur_URL u" "ur_Body (injectAuth p tok u) = ur_Body u" "ur_Method (injectAuth p tok u) = ur_Method u"
  by (simp_all add: injectAuth_def)

lemma injectAuth_headers:
  "x \<in> set (ur_Header (injectAuth p tok u)) \<Longrightarrow> x \<in> set (ur_Header u) \<or> (tok \<noteq> [] \<and> x = injected_header p tok)"
  by (auto simp: injectAuth_def injected_header_def header_Set_def header_Del_def split: if_splits)

lemma Exchange_value:
  "broker_Exchange now spec b = Inr a \<Longrightarrow> \<not> br_locked b \<and> at_Value a \<in> {es_RootCredential spec, []}"
  by (auto simp: broker_Exchange_def Let_def split: if_splits)




lemma sample_route_fields:
  "rt_SecretRef sample_route = ''default/ai/openrouter/api_key''" "rt_MaxBodyBytes sample_route = 10485760"
  by (simp_all add: sample_route_def action_route_def sample_template_def vaultSecretRef_def sample_action_def defaultMaxBodyBytes_def)


text \<open>No response of the gateway, whatever the provider answered, has a header that names a credential (such as
  Set-Cookie or Authorization) or one that describes the body before it was decoded and redacted. The redirect
  the mux makes of unclean paths is the only response this leaves out.\<close>

theorem gateway_response_presentable:
  assumes "ge_CleanPath E (hr_Path r) = hr_Path r"
  shows "presentable (hp_Header (fst (gateway_serve S E r w)))"
proof -
  have b: "presentable (hp_Header (writeAuthBlockedError c m))" for c m
    by (simp add: writeAuthBlockedError_def json_headers)
  have n: "presentable (hp_Header http_NotFound)"
    by (simp add: http_NotFound_def presentable_def sensitiveHeaderNames_def responseHeadersDroppedAfterDecode_def ToLower_def
        lower_char_def is_upper_def byte_of_def)
  have h: "presentable (hp_Header (fst (hostOverrideBlockerMiddleware (gatewayHandler S E) [] r' w)))" for r'
    using b gatewayHandler_presentable by (auto simp: hostOverrideBlockerMiddleware_def split: option.splits)
  have "presentable (hp_Header (fst (gateway_proxy S E r w)))"
    using b h by (auto simp: gateway_proxy_def authBlockerMiddleware_def Let_def)
  then show ?thesis using assms n json_headers
    by (auto simp: gateway_serve_def reserveApprovalPaths_def gateway_mux_def healthHandler_def)
qed

theorem gateway_response_presentable_witness:
  "presentable (hp_Header (fst (gateway_serve sample_server sample_gateway_env sample_http sample_world)))"
  by (rule gateway_response_presentable) (simp add: sample_gateway_env_def)

lemma unsupported_rules_none:
  "rulesWithGatewayUnsupportedFields rules = [] \<Longrightarrow> r \<in> set rules \<Longrightarrow> ru_Commands r = [] \<and> ru_CWDs r = []"
proof -
  assume "rulesWithGatewayUnsupportedFields rules = []" "r \<in> set rules"
  moreover from this(2) obtain i where "i < length rules" "rules ! i = r" by (auto simp: in_set_conv_nth)
  then have "(i, r) \<in> set (enumerate 0 rules)" by (simp add: in_set_enumerate_eq)
  ultimately show ?thesis by (auto simp: rulesWithGatewayUnsupportedFields_def filter_empty_conv)
qed

lemma policy_Check_no_panic: "po_Mode p \<noteq> ModePermissive \<Longrightarrow> policy_Check hook now tok p req \<noteq> Inl e"
  by (auto simp: policy_Check_def Let_def split: option.splits)

text \<open>A server that starts listens on the loopback interface, unless the operator allowed otherwise outside an LLM
  session; it has a 32-byte key and the SSRF gate; and a policy it enforces is not permissive, so evaluating
  it never panics, and has no rule the gateway could never match.\<close>

theorem gateway_new_safe:
  assumes "gateway_New windows llm split parse_ip parse_url dk templates f opts = Inr S"
  shows "(isLoopbackBind split parse_ip (or_default (so_Bind opts) ''127.0.0.1:7878'') \<or> (so_AllowExternalBind opts \<and> \<not> llm)) \<and>
    length (gs_SigningKey S) = 32 \<and> gs_SsrfGate S = Some NewSSRFGate \<and> \<not> br_locked (gs_Broker S) \<and>
    (\<forall>p. gs_Policy S = Some p \<longrightarrow>
       (\<forall>hook now tok req. \<exists>d. policy_Check hook now tok p req = Inr d) \<and>
       (\<forall>r \<in> set (po_Rules p). ru_Commands r = [] \<and> ru_CWDs r = []))"
proof -
  have pol: "(\<forall>hook now tok req. \<exists>d. policy_Check hook now tok p req = Inr d) \<and>
      (\<forall>r \<in> set (po_Rules p). ru_Commands r = [] \<and> ru_CWDs r = [])"
    if "load_gateway_policy windows path f = Inr (Some p)" for path p
  proof -
    have m: "po_Mode p \<noteq> ModePermissive" and u: "rulesWithGatewayUnsupportedFields (po_Rules p) = []"
      using that by (auto simp: load_gateway_policy_def Let_def split: if_splits sum.splits)
    have "\<exists>d. policy_Check hook now tok p req = Inr d" for hook now tok req
      using policy_Check_no_panic [OF m] by (cases "policy_Check hook now tok p req") auto
    then show ?thesis using unsupported_rules_none [OF u] by blast
  qed
  show ?thesis using assms pol
    by (auto simp: gateway_New_def Let_def broker_New_def NewWithOptions_def split: if_splits sum.splits)
qed

definition sample_options :: server_options where
  "sample_options = \<lparr>so_Bind = [], so_PolicyPath = ''/p'', so_SigningKey = sample_key, so_HasAudit = True,
     so_TokenStorePath = [], so_AllowExternalBind = True, so_HasVault = True, so_HasMetrics = False\<rparr>"

theorem gateway_new_safe_witness:
  "\<exists>S. gateway_New False False (\<lambda>_. None) (\<lambda>_. None) sample_parse_url id [sample_template]
      \<lparr>pf_Content = Holds sample_policy, pf_Perm = 384\<rparr> sample_options = Inr S \<and> gs_SsrfGate S = Some NewSSRFGate"
proof -
  have "load_gateway_policy False ''/p'' \<lparr>pf_Content = Holds sample_policy, pf_Perm = 384\<rparr> = Inr (Some sample_policy)"
    by (simp add: load_gateway_policy_def policy_Load_def sample_policy_def sample_rule_def ValidateRuntimeMode_def
        valid_runtimes_def rulesWithGatewayUnsupportedFields_def Let_def)
  then obtain S where "gateway_New False False (\<lambda>_. None) (\<lambda>_. None) sample_parse_url id [sample_template]
      \<lparr>pf_Content = Holds sample_policy, pf_Perm = 384\<rparr> sample_options = Inr S"
    by (simp add: gateway_New_def sample_options_def sample_key_length Let_def)
  then show ?thesis using gateway_new_safe by blast
qed

text \<open>A body longer than 64 KiB does not reach the handler as it was sent, although routes allow ten mebibytes: the
  inspection of the credential blocker hands on its first 65536 bytes as if they were all.\<close>

theorem long_body_truncated:
  assumes "unobjectionable E r" "hr_ContentLength r \<noteq> 0" "65536 < length (hr_Body r)"
  shows "\<exists>r'. gateway_serve S E r w = gatewayHandler S E r' w \<and> length (hr_Body r') = 65536 \<and> hr_Body r' \<noteq> hr_Body r \<and>
    \<not> hr_BodyFails r'"
  using assms gateway_serve_passes [OF assms(1)]
  by (intro exI [of _ "inspected r"]) (auto simp: inspected_def max_inspected_def dest: arg_cong [where f = length])

definition long_request :: http_request where
  "long_request = sample_http\<lparr>hr_Body := replicate 70000 (CHR ''x''), hr_ContentLength := 70000\<rparr>"

lemma no_bearer: "CHR ''B'' \<notin> set s \<Longrightarrow> \<not> bearerPattern s"
proof (induction s)
  case (Cons c s)
  then show ?case by (auto simp: bearer_here_def HasPrefix_def Let_def)
qed simp

lemma long_request_fields:
  "unobjectionable sample_gateway_env (sample_http\<lparr>hr_Body := replicate n (CHR ''x''), hr_ContentLength := 70000\<rparr>)"
proof -
  have "\<not> bearerPattern (take max_inspected (replicate n (CHR ''x'')))"
    by (intro no_bearer) (auto dest: in_set_takeD)
  then show ?thesis using sample_unobjectionable by (simp add: unobjectionable_def)
qed

theorem long_body_truncated_witness:
  "\<exists>r'. gateway_serve sample_server sample_gateway_env long_request sample_world = gatewayHandler sample_server sample_gateway_env r' sample_world \<and>
     length (hr_Body r') = 65536"
proof -
  define n where "n = (70000 :: nat)"
  have l: "long_request = sample_http\<lparr>hr_Body := replicate n (CHR ''x''), hr_ContentLength := 70000\<rparr>"
    by (simp only: long_request_def n_def)
  have "65536 < length (hr_Body long_request)" unfolding l by (simp, simp add: n_def)
  moreover have "unobjectionable sample_gateway_env long_request" unfolding l by (rule long_request_fields)
  moreover have "hr_ContentLength long_request \<noteq> 0" unfolding l by simp
  ultimately show ?thesis
    using long_body_truncated [of sample_gateway_env long_request sample_server sample_world] by blast
qed

text \<open>The SDK path an action declares is entered in the route table, but unless it lies under the two prefixes of
  the gateway no request for it is ever served: the handler answers 404 and changes nothing but its counters.\<close>

theorem declared_sdk_path_unreachable:
  assumes "tm_Preferred tmpl = ''gateway_sdk''" "ga_SDKPath action = p" "p \<noteq> []"
    and "\<not> HasPrefix p ''/api/''" "\<not> HasPrefix p ''/sdk/''" "hr_Path r = p"
  shows "ro_sdkRoutes (compile_action tmpl up action ro) (route_key (or_default (ga_Method action) ''POST'') p) \<noteq> None \<and>
    hp_Status (fst (gatewayHandler S E r w)) = 404 \<and> gw_Calls (snd (gatewayHandler S E r w)) = gw_Calls w"
proof -
  have "gateway_pipeline S E r w = (Inl (writeError 404 ''unsupported_by_keylatch_gateway'' ''path not found'', OutcomeDenied), w)"
    using assms(4-6) by (simp add: gateway_pipeline_def gateway_authorise_def gw_bind_def step_path_def gw_stop_def)
  then show ?thesis using assms(1-3)
    by (simp add: gatewayHandler_def writeError_def json_response_def compile_action_def Let_def add_sdk_route_def or_default_def
        action_route_def)
qed

theorem declared_sdk_path_unreachable_witness:
  "hp_Status (fst (gatewayHandler sample_server sample_gateway_env (sample_http\<lparr>hr_Path := ''/v1/refunds''\<rparr>) sample_world)) = 404"
  using declared_sdk_path_unreachable [of sample_template sample_action "''/v1/refunds''"
      "sample_http\<lparr>hr_Path := ''/v1/refunds''\<rparr>" undefined undefined sample_server sample_gateway_env sample_world]
  by (simp add: sample_template_def sample_action_def HasPrefix_def)

end
