(* ===== verification/Session_Paths.thy ===== *)
theory Session_Paths
  imports File_Path
begin

section \<open>Where the files are (\<open>internal/paths\<close>)\<close>

text \<open>
  \<open>paths.go\<close>: the path of every file of the program as a function of the environment, and the check of modes and
  ownership. A lookup gives the value of an environment variable, empty when it is unset. The operating system,
  the home directory and the files that exist come in a record.
\<close>

type_synonym lookup = "gostring \<Rightarrow> gostring"

record path_env =
  pe_Linux :: bool
  pe_Home :: "gostring option"
  pe_Regular :: "gostring \<Rightarrow> bool"

definition path_ConfigDir :: "path_env \<Rightarrow> lookup \<Rightarrow> gostring" where
  "path_ConfigDir P env =
    (if env ''KEYLATCH_CONFIG_DIR'' \<noteq> [] then env ''KEYLATCH_CONFIG_DIR''
     else if pe_Linux P \<and> env ''XDG_CONFIG_HOME'' \<noteq> [] then filepath_Join (env ''XDG_CONFIG_HOME'') ''keylatch''
     else (case pe_Home P of
             None \<Rightarrow> ''.keylatch''
           | Some home \<Rightarrow>
               if pe_Linux P then filepath_Join (filepath_Join home ''.config'') ''keylatch''
               else filepath_Join home ''.keylatch''))"

definition path_DefaultConfig :: "path_env \<Rightarrow> gostring \<Rightarrow> gostring" where
  "path_DefaultConfig P home =
    (if pe_Linux P then filepath_Join (filepath_Join (filepath_Join home ''.config'') ''keylatch'') ''config.json''
     else filepath_Join (filepath_Join home ''.keylatch'') ''config.json'')"

text \<open>A variable that names the file, else the file under a directory.\<close>

definition overridden :: "lookup \<Rightarrow> gostring \<Rightarrow> gostring \<Rightarrow> gostring \<Rightarrow> gostring" where
  "overridden env var dir file = (if env var \<noteq> [] then env var else filepath_Join dir file)"

definition path_Config :: "path_env \<Rightarrow> lookup \<Rightarrow> gostring" where
  "path_Config P env = overridden env ''KEYLATCH_CONFIG'' (path_ConfigDir P env) ''config.json''"

definition path_Vault :: "path_env \<Rightarrow> lookup \<Rightarrow> gostring" where
  "path_Vault P env = overridden env ''KEYLATCH_VAULT_PATH'' (path_ConfigDir P env) ''vault''"

definition path_Audit :: "path_env \<Rightarrow> lookup \<Rightarrow> gostring" where
  "path_Audit P env = overridden env ''KEYLATCH_AUDIT_PATH'' (path_ConfigDir P env) ''audit.log''"

definition path_AuditSalt :: "path_env \<Rightarrow> lookup \<Rightarrow> gostring" where
  "path_AuditSalt P env = overridden env ''KEYLATCH_AUDIT_SALT_PATH'' (path_ConfigDir P env) ''audit-salt''"

definition path_Policy :: "path_env \<Rightarrow> lookup \<Rightarrow> gostring" where
  "path_Policy P env = overridden env ''KEYLATCH_POLICY_PATH'' (path_ConfigDir P env) ''policy.json''"

definition path_Grants :: "path_env \<Rightarrow> lookup \<Rightarrow> gostring" where
  "path_Grants P env = overridden env ''KEYLATCH_GRANTS_PATH'' (path_ConfigDir P env) ''grants.json''"

definition path_GrantsDir :: "path_env \<Rightarrow> lookup \<Rightarrow> gostring" where
  "path_GrantsDir P env = overridden env ''KEYLATCH_GRANTS_DIR'' (path_ConfigDir P env) ''grants''"

definition path_GrantAccessorKey :: "path_env \<Rightarrow> lookup \<Rightarrow> gostring" where
  "path_GrantAccessorKey P env = overridden env ''KEYLATCH_GRANT_ACCESSOR_KEY_PATH'' (path_ConfigDir P env) ''grant-accessor.key''"

definition path_Actors :: "path_env \<Rightarrow> lookup \<Rightarrow> gostring" where
  "path_Actors P env = overridden env ''KEYLATCH_ACTORS_PATH'' (path_ConfigDir P env) ''actors.json''"

definition path_Projects :: "path_env \<Rightarrow> lookup \<Rightarrow> gostring" where
  "path_Projects P env = overridden env ''KEYLATCH_PROJECTS_PATH'' (path_ConfigDir P env) ''projects.json''"

definition path_KeyringDir :: "path_env \<Rightarrow> lookup \<Rightarrow> gostring" where
  "path_KeyringDir P env = overridden env ''KEYLATCH_KEYRING_DIR'' (path_ConfigDir P env) ''keyring''"

definition path_SessionTicketKey :: "path_env \<Rightarrow> lookup \<Rightarrow> gostring" where
  "path_SessionTicketKey P env = filepath_Join (path_KeyringDir P env) ''session-ticket.key''"

definition path_KeyringPath :: "path_env \<Rightarrow> lookup \<Rightarrow> gostring" where
  "path_KeyringPath P env = overridden env ''KEYLATCH_KEYRING_PATH'' (path_KeyringDir P env) ''keyring.json''"

definition path_LegacyKeyringPath :: "path_env \<Rightarrow> lookup \<Rightarrow> gostring" where
  "path_LegacyKeyringPath P env = filepath_Join (filepath_Join (path_Vault P env) ''keyring'') ''keyring.json''"

definition ResolveKeyringPath :: "path_env \<Rightarrow> lookup \<Rightarrow> gostring" where
  "ResolveKeyringPath P env =
    (let canonical = path_KeyringPath P env in
     if env ''KEYLATCH_KEYRING_PATH'' \<noteq> [] \<or> env ''KEYLATCH_KEYRING_DIR'' \<noteq> [] then canonical
     else if pe_Regular P canonical then canonical
     else if pe_Regular P (path_LegacyKeyringPath P env) then path_LegacyKeyringPath P env
     else canonical)"

definition path_KeyringIdentityPath :: "path_env \<Rightarrow> lookup \<Rightarrow> gostring" where
  "path_KeyringIdentityPath P env = overridden env ''KEYLATCH_KEYRING_IDENTITY_PATH'' (path_KeyringDir P env) ''identity''"

definition path_GatewayDir :: "path_env \<Rightarrow> lookup \<Rightarrow> gostring" where
  "path_GatewayDir P env = overridden env ''KEYLATCH_GATEWAY_DIR'' (path_ConfigDir P env) ''gateway''"

definition path_GatewayConfig :: "path_env \<Rightarrow> lookup \<Rightarrow> gostring" where
  "path_GatewayConfig P env = overridden env ''KEYLATCH_GATEWAY_CONFIG'' (path_GatewayDir P env) ''config.json''"

definition path_GatewaySigningKey :: "path_env \<Rightarrow> lookup \<Rightarrow> gostring" where
  "path_GatewaySigningKey P env = overridden env ''KEYLATCH_GATEWAY_SIGNING_KEY'' (path_GatewayDir P env) ''signing.key''"

definition path_GatewayPID :: "path_env \<Rightarrow> lookup \<Rightarrow> gostring" where
  "path_GatewayPID P env = overridden env ''KEYLATCH_GATEWAY_PID'' (path_GatewayDir P env) ''gateway.pid''"

definition path_GatewayLog :: "path_env \<Rightarrow> lookup \<Rightarrow> gostring" where
  "path_GatewayLog P env = overridden env ''KEYLATCH_GATEWAY_LOG'' (path_GatewayDir P env) ''gateway.log''"

definition path_GatewayTokens :: "path_env \<Rightarrow> lookup \<Rightarrow> gostring" where
  "path_GatewayTokens P env = overridden env ''KEYLATCH_GATEWAY_TOKENS'' (path_ConfigDir P env) ''gateway-tokens.json''"

definition path_GatewayRules :: "path_env \<Rightarrow> lookup \<Rightarrow> gostring" where
  "path_GatewayRules P env = overridden env ''KEYLATCH_GATEWAY_RULES'' (path_ConfigDir P env) ''gateway-rules.json''"

definition path_ApprovalsDir :: "path_env \<Rightarrow> lookup \<Rightarrow> gostring" where
  "path_ApprovalsDir P env = overridden env ''KEYLATCH_APPROVALS_DIR'' (path_ConfigDir P env) ''approvals''"

definition path_Sessions :: "path_env \<Rightarrow> lookup \<Rightarrow> gostring" where
  "path_Sessions P env = overridden env ''KEYLATCH_SESSIONS_PATH'' (path_ConfigDir P env) ''sessions.json''"

definition path_Receipts :: "path_env \<Rightarrow> lookup \<Rightarrow> gostring" where
  "path_Receipts P env = overridden env ''KEYLATCH_RECEIPTS_PATH'' (path_ConfigDir P env) ''receipts.json''"

definition path_DaemonState :: "path_env \<Rightarrow> lookup \<Rightarrow> gostring" where
  "path_DaemonState P env = overridden env ''KEYLATCH_DAEMON_STATE_PATH'' (path_ConfigDir P env) ''daemon-state.json''"

subsection \<open>Modes and ownership\<close>

text \<open>What \<open>os.Stat\<close> gives; the owner is \<open>None\<close> where the platform does not say.\<close>

record file_info =
  fi_IsDir :: bool
  fi_Perm :: nat
  fi_Uid :: "nat option"

datatype stat_result = StatNotExist | StatError | StatOk file_info

datatype safe_error = PathNotFound gostring | UnsafeMode gostring nat gostring | StatErr gostring

definition assertOwner :: "nat \<Rightarrow> gostring \<Rightarrow> file_info \<Rightarrow> safe_error option" where
  "assertOwner uid p info =
    (case fi_Uid info of None \<Rightarrow> None
     | Some u \<Rightarrow> if u \<noteq> uid then Some (UnsafeMode p (fi_Perm info) ''owned by uid'') else None)"

definition AssertSafeModes :: "bool \<Rightarrow> nat \<Rightarrow> (gostring \<Rightarrow> stat_result) \<Rightarrow> gostring \<Rightarrow> safe_error option" where
  "AssertSafeModes windows uid stat p =
    (case stat p of
       StatNotExist \<Rightarrow> Some (PathNotFound p)
     | StatError \<Rightarrow> Some (StatErr p)
     | StatOk info \<Rightarrow>
         if \<not> windows \<and> fi_IsDir info \<and> fi_Perm info \<noteq> 448 then Some (UnsafeMode p (fi_Perm info) ''0700 (directory)'')
         else if \<not> windows \<and> \<not> fi_IsDir info \<and> fi_Perm info \<noteq> 384 then Some (UnsafeMode p (fi_Perm info) ''0600 (file)'')
         else assertOwner uid p info)"

end
