(* ===== verification/Agent_Session.thy ===== *)
theory Agent_Session
  imports Session_Paths Json_Canonical
begin

section \<open>Agent sessions (\<open>internal/harness\<close>, \<open>internal/llmcontext\<close>, \<open>internal/policy/actor\<close>)\<close>

text \<open>
  The table of agent harnesses (\<open>registry.go\<close>), the walk over the ancestors of the process
  (\<open>ancestry*.go\<close>), the session ticket (\<open>ticket.go\<close>), the classification of the session
  (\<open>llmcontext.go\<close>, \<open>signals.go\<close>) and the actor it suggests (\<open>actor.go\<close>); and what \<open>keylatch launch\<close>
  does with a ticket (\<open>cli/launch_cmd.go\<close>).

  The process table is a record of what \<open>/proc\<close> shows; it may change between readings, so every reading
  has an index. The JWT library is a parameter.
\<close>

subsection \<open>The harness table\<close>

datatype signal_match = NonEmpty | NotZero

definition Fires :: "signal_match \<Rightarrow> gostring \<Rightarrow> bool" where
  "Fires m value =
    (case m of NonEmpty \<Rightarrow> value \<noteq> [] | NotZero \<Rightarrow> value \<noteq> [] \<and> value \<noteq> ''0'')"

record env_signal =
  es_Name :: gostring
  es_Match :: signal_match

record descriptor =
  hd_ID :: gostring
  hd_Name :: gostring
  hd_Env :: "env_signal list"
  hd_LegacyEnv :: "env_signal list"
  hd_Executables :: "gostring list"

definition nonempty_signal :: "gostring \<Rightarrow> env_signal" where
  "nonempty_signal n = \<lparr>es_Name = n, es_Match = NonEmpty\<rparr>"

definition descriptors :: "descriptor list" where
  "descriptors =
    [\<lparr>hd_ID = ''claude-code'', hd_Name = ''Claude Code'',
      hd_Env = [nonempty_signal ''CLAUDECODE'', nonempty_signal ''CLAUDE_CODE_ENTRYPOINT''],
      hd_LegacyEnv = [nonempty_signal ''CLAUDE_CODE''], hd_Executables = [''claude'']\<rparr>,
     \<lparr>hd_ID = ''codex'', hd_Name = ''Codex CLI'',
      hd_Env = [nonempty_signal ''CODEX_SANDBOX'', nonempty_signal ''CODEX_SANDBOX_NETWORK_DISABLED''],
      hd_LegacyEnv = [nonempty_signal ''CODEX_ENV''], hd_Executables = [''codex'']\<rparr>,
     \<lparr>hd_ID = ''cursor'', hd_Name = ''Cursor'',
      hd_Env = [nonempty_signal ''CURSOR_AGENT'', nonempty_signal ''CURSOR_TRACE_ID''],
      hd_LegacyEnv = [nonempty_signal ''CURSOR_SESSION''], hd_Executables = [''cursor-agent'']\<rparr>,
     \<lparr>hd_ID = ''gemini-cli'', hd_Name = ''Gemini CLI'', hd_Env = [nonempty_signal ''GEMINI_CLI''],
      hd_LegacyEnv = [nonempty_signal ''GEMINI_SESSION''], hd_Executables = [''gemini'']\<rparr>,
     \<lparr>hd_ID = ''opencode'', hd_Name = ''OpenCode'', hd_Env = [nonempty_signal ''OPENCODE''],
      hd_LegacyEnv = [nonempty_signal ''OPENCODE_SESSION''], hd_Executables = [''opencode'']\<rparr>,
     \<lparr>hd_ID = ''aider'', hd_Name = ''Aider'', hd_Env = [],
      hd_LegacyEnv = [nonempty_signal ''AIDER_SESSION''], hd_Executables = [''aider'']\<rparr>,
     \<lparr>hd_ID = ''copilot-cli'', hd_Name = ''GitHub Copilot CLI'', hd_Env = [],
      hd_LegacyEnv = [], hd_Executables = [''copilot'']\<rparr>]"

definition ManualLabel :: gostring where "ManualLabel = ''KEYLATCH_AGENT_SESSION''"
definition LegacyManualLabel :: gostring where "LegacyManualLabel = ''CREDENTIALS_LLM_SESSION''"

definition ManualSignals :: "env_signal list" where
  "ManualSignals =
    [\<lparr>es_Name = ManualLabel, es_Match = NotZero\<rparr>, \<lparr>es_Name = LegacyManualLabel, es_Match = NotZero\<rparr>]"

definition harness_Lookup :: "gostring \<Rightarrow> descriptor option" where
  "harness_Lookup i = List.find (\<lambda>d. hd_ID d = i) descriptors"

text \<open>What follows the last slash or backslash, in lower case and without \<open>.exe\<close>.\<close>

definition NormalizeExecutable :: "gostring \<Rightarrow> gostring" where
  "NormalizeExecutable name =
    (let base = rev (takeWhile (\<lambda>c. c \<noteq> CHR ''/'' \<and> c \<noteq> CHR 0x5C) (rev name))
     in TrimSuffix (ToLower (TrimSpace base)) ''.exe'')"

definition ByExecutable :: "gostring \<Rightarrow> descriptor option" where
  "ByExecutable name =
    (let base = NormalizeExecutable name in
     if base = [] then None else List.find (\<lambda>d. base \<in> set (hd_Executables d)) descriptors)"

record owned_signal = env_signal +
  os_Harness :: gostring
  os_Legacy :: bool

definition owned :: "gostring \<Rightarrow> bool \<Rightarrow> env_signal \<Rightarrow> owned_signal" where
  "owned i legacy s = \<lparr>es_Name = es_Name s, es_Match = es_Match s, os_Harness = i, os_Legacy = legacy\<rparr>"

definition harness_Signals :: "owned_signal list" where
  "harness_Signals =
    concat (map (\<lambda>d. map (owned (hd_ID d) False) (hd_Env d)) descriptors) @
    concat (map (\<lambda>d. map (owned (hd_ID d) True) (hd_LegacyEnv d)) descriptors) @
    map (\<lambda>s. owned [] (es_Name s \<noteq> ManualLabel) s) ManualSignals"

subsection \<open>Ancestors\<close>

record go_process =
  pr_PID :: int
  pr_Start :: uint64
  pr_Names :: "gostring list"

text \<open>The readings of \<open>/proc/<pid>\<close>: the stat line, the target of the link to the executable (empty when it cannot be
  read) and the command line; the first argument is the index of the reading.\<close>

record process_table =
  pt_Self :: int
  pt_Stat :: "nat \<Rightarrow> int \<Rightarrow> gostring option"
  pt_Exe :: "nat \<Rightarrow> int \<Rightarrow> gostring"
  pt_Cmdline :: "nat \<Rightarrow> int \<Rightarrow> gostring option"

definition maxAncestry :: nat where "maxAncestry = 64"

fun unique_from :: "gostring list \<Rightarrow> gostring list \<Rightarrow> gostring list" where
  "unique_from out [] = out"
| "unique_from out (n # ns) =
    (let m = NormalizeExecutable n in
     if m = [] \<or> m \<in> set out then unique_from out ns else unique_from (out @ [m]) ns)"

definition uniqueNames :: "gostring list \<Rightarrow> gostring list" where
  "uniqueNames names = unique_from [] names"

text \<open>\<open>None\<close> is a malformed or a short line.\<close>

definition statFields :: "gostring \<Rightarrow> (gostring \<times> gostring list) option" where
  "statFields data =
    (case (Index data ''('', LastIndex data '')'') of
       (Some opn, Some cls) \<Rightarrow>
         if cls < opn then None
         else (let fds = Fields (drop (Suc cls) data) in
               if length fds < 20 then None
               else Some (take (cls - Suc opn) (drop (Suc opn) data), fds))
     | _ \<Rightarrow> None)"

text \<open>\<open>strconv.ParseUint\<close> in base 10 for 64 bits.\<close>

definition parse_uint64 :: "gostring \<Rightarrow> uint64 option" where
  "parse_uint64 s =
    (if s \<noteq> [] \<and> list_all is_digit s \<and> digits_value s < 2 ^ 64 then Some (word_of_nat (digits_value s)) else None)"

definition readProcessInfo :: "process_table \<Rightarrow> nat \<Rightarrow> int \<Rightarrow> go_process option" where
  "readProcessInfo T k pid =
    (case Option.bind (pt_Stat T k pid) statFields of
       None \<Rightarrow> None
     | Some (comm, fds) \<Rightarrow>
         (case parse_uint64 (fds ! 19) of
            None \<Rightarrow> None
          | Some start \<Rightarrow>
              let argv0 = (case pt_Cmdline T k pid of None \<Rightarrow> []
                           | Some l \<Rightarrow> takeWhile (\<lambda>c. c \<noteq> CHR 0x00) l)
              in Some \<lparr>pr_PID = pid, pr_Start = start, pr_Names = uniqueNames [comm, pt_Exe T k pid, argv0]\<rparr>))"

definition parentPID :: "process_table \<Rightarrow> nat \<Rightarrow> int \<Rightarrow> int option" where
  "parentPID T k pid =
    (case Option.bind (pt_Stat T k pid) statFields of
       None \<Rightarrow> None
     | Some (comm, fds) \<Rightarrow> parse_int64 (fds ! 1))"

text \<open>The walk: reading \<open>2 i\<close> is for the process, reading \<open>2 i + 1\<close> for its parent.\<close>

function chain_from :: "process_table \<Rightarrow> nat \<Rightarrow> int \<Rightarrow> go_process list" where
  "chain_from T i pid =
    (if i < maxAncestry \<and> pid > 0 then
       (case readProcessInfo T (2 * i) pid of
          None \<Rightarrow> []
        | Some p \<Rightarrow>
            p # (case parentPID T (2 * i + 1) pid of
                   None \<Rightarrow> []
                 | Some ppid \<Rightarrow> if ppid = pid \<or> ppid \<le> 0 then [] else chain_from T (Suc i) ppid))
     else [])"
  by pat_completeness auto

termination by (relation "measure (\<lambda>(T, i, pid). maxAncestry - i)") auto

declare chain_from.simps [simp del]

definition processChain :: "process_table \<Rightarrow> go_process list" where
  "processChain T = chain_from T 0 (pt_Self T)"

definition CurrentProcess :: "process_table \<Rightarrow> go_process option" where
  "CurrentProcess T = readProcessInfo T 0 (pt_Self T)"

text \<open>On Windows the walk goes over one snapshot of parents and images, and ends at a parent that is younger than
  its child.\<close>

record snapshot_entry =
  se_parent :: int
  se_exe :: gostring

function windows_chain_from ::
  "(int \<Rightarrow> snapshot_entry option) \<Rightarrow> (int \<Rightarrow> uint64 option) \<Rightarrow> nat \<Rightarrow> int \<Rightarrow> uint64 \<Rightarrow> go_process list" where
  "windows_chain_from entries creationTime i pid childStart =
    (if i < maxAncestry \<and> pid > 0 then
       (case entries pid of None \<Rightarrow> []
        | Some e \<Rightarrow>
           (case creationTime pid of None \<Rightarrow> []
            | Some start \<Rightarrow>
                if i > 0 \<and> start > childStart then []
                else \<lparr>pr_PID = pid, pr_Start = start, pr_Names = uniqueNames [se_exe e]\<rparr> #
                  (if se_parent e = pid then []
                   else windows_chain_from entries creationTime (Suc i) (se_parent e) start)))
     else [])"
  by pat_completeness auto

termination by (relation "measure (\<lambda>(e, c, i, pid, s). maxAncestry - i)") auto

declare windows_chain_from.simps [simp del]

definition windows_processChain ::
  "(int \<Rightarrow> snapshot_entry option) option \<Rightarrow> (int \<Rightarrow> uint64 option) \<Rightarrow> int \<Rightarrow> go_process list" where
  "windows_processChain snapshot creationTime self =
    (case snapshot of None \<Rightarrow> [] | Some entries \<Rightarrow> windows_chain_from entries creationTime 0 self 0)"

subsection \<open>Session tickets\<close>

text \<open>The library signs claims and parses a ticket under a key: the signature by HS256, the issuer and the subject, an
  expiry that must be there. The flag of a parsed ticket is \<open>tok.Valid\<close>. An issue time may be missing.\<close>

record ticket =
  tk_SessionID :: gostring
  tk_Harness :: gostring
  tk_PID :: int
  tk_ProcessStart :: uint64
  tk_IssuedAt :: gotime
  tk_ExpiresAt :: gotime

record ticket_claims =
  tc_Issuer :: gostring
  tc_Subject :: gostring
  tc_IssuedAt :: "gotime option"
  tc_ExpiresAt :: "gotime option"
  tc_SessionID :: gostring
  tc_Harness :: gostring
  tc_PID :: int
  tc_ProcessStart :: uint64

datatype ticket_parse = TkExpired | TkBad | TkParsed ticket_claims bool

record ticket_jwt =
  tj_Sign :: "gostring \<Rightarrow> ticket_claims \<Rightarrow> gostring option"
  tj_Parse :: "gostring \<Rightarrow> gostring \<Rightarrow> gotime \<Rightarrow> gostring \<Rightarrow> gostring \<Rightarrow> ticket_parse"

datatype ticket_error = ErrTicketInvalid | ErrTicketExpired | TicketNilTime

definition TicketTTL :: duration where "TicketTTL = 12 * Hour"
definition ticketIssuer :: gostring where "ticketIssuer = ''keylatch-launch''"
definition ticketSubject :: gostring where "ticketSubject = ''agent-session''"

text \<open>\<open>jwt.NewNumericDate\<close> keeps whole seconds.\<close>

definition NewNumericDate :: "gotime \<Rightarrow> gotime" where
  "NewNumericDate t = t div Second * Second"

definition ticket_claims_of :: "gotime \<Rightarrow> ticket \<Rightarrow> ticket_claims" where
  "ticket_claims_of now t =
    \<lparr>tc_Issuer = ticketIssuer, tc_Subject = ticketSubject, tc_IssuedAt = Some (NewNumericDate now),
     tc_ExpiresAt = Some (NewNumericDate (now + TicketTTL)), tc_SessionID = tk_SessionID t,
     tc_Harness = tk_Harness t, tc_PID = tk_PID t, tc_ProcessStart = tk_ProcessStart t\<rparr>"

definition IssueTicket :: "ticket_jwt \<Rightarrow> gotime \<Rightarrow> ticket \<Rightarrow> gostring \<Rightarrow> gostring option" where
  "IssueTicket J now t signingKey =
    (if length signingKey < 32 then None
     else if tk_SessionID t = [] \<or> tk_PID t \<le> 0 \<or> tk_ProcessStart t = 0 then None
     else tj_Sign J signingKey (ticket_claims_of now t))"

definition VerifyTicket :: "ticket_jwt \<Rightarrow> gotime \<Rightarrow> gostring \<Rightarrow> gostring \<Rightarrow> ticket_error + ticket" where
  "VerifyTicket J now raw signingKey =
    (if length signingKey < 32 then Inl ErrTicketInvalid
     else (case tj_Parse J ticketIssuer ticketSubject now signingKey raw of
       TkExpired \<Rightarrow> Inl ErrTicketExpired
     | TkBad \<Rightarrow> Inl ErrTicketInvalid
     | TkParsed c valid \<Rightarrow>
         if \<not> valid \<or> tc_SessionID c = [] \<or> tc_PID c \<le> 0 \<or> tc_ProcessStart c = 0 then Inl ErrTicketInvalid
         else (case (tc_IssuedAt c, tc_ExpiresAt c) of
           (Some i, Some e) \<Rightarrow>
             Inr \<lparr>tk_SessionID = tc_SessionID c, tk_Harness = tc_Harness c, tk_PID = tc_PID c,
                  tk_ProcessStart = tc_ProcessStart c, tk_IssuedAt = i, tk_ExpiresAt = e\<rparr>
         | _ \<Rightarrow> Inl TicketNilTime)))"

subsection \<open>Classification\<close>

definition TicketEnv :: gostring where "TicketEnv = ''KEYLATCH_SESSION_TICKET''"
definition SignalTicket :: gostring where "SignalTicket = ''ticket''"
definition signalAncestryPrefix :: gostring where "signalAncestryPrefix = ''ancestry:''"

record classification =
  cl_Signals :: "gostring list"
  cl_Harness :: gostring

definition Detected :: "classification \<Rightarrow> bool" where
  "Detected c = (length (cl_Signals c) > 0)"

definition cl_add :: "gostring \<Rightarrow> gostring \<Rightarrow> classification \<Rightarrow> classification" where
  "cl_add label harnessID c =
    \<lparr>cl_Signals = cl_Signals c @ [label], cl_Harness = (if cl_Harness c = [] then harnessID else cl_Harness c)\<rparr>"

text \<open>The variables of the package: whether ancestry counts, the process chain and the verifier of tickets.\<close>

record session_env =
  sn_Ancestry :: bool
  sn_Chain :: "go_process list"
  sn_Verifier :: "(lookup \<Rightarrow> gostring \<Rightarrow> ticket_error + ticket) option"

datatype bind_error = NoVerifier | VerifierError ticket_error | ErrTicketUnbound

definition verifyBoundTicket :: "session_env \<Rightarrow> lookup \<Rightarrow> gostring \<Rightarrow> bind_error + ticket" where
  "verifyBoundTicket S env raw =
    (case sn_Verifier S of None \<Rightarrow> Inl NoVerifier
     | Some v \<Rightarrow>
        (case v env raw of Inl e \<Rightarrow> Inl (VerifierError e)
         | Inr t \<Rightarrow>
             if list_ex (\<lambda>p. pr_PID p = tk_PID t \<and> pr_Start p = tk_ProcessStart t) (sn_Chain S) then Inr t
             else Inl ErrTicketUnbound))"

definition classify_env :: "lookup \<Rightarrow> classification" where
  "classify_env env =
    fold (\<lambda>sig c. if Fires (es_Match sig) (env (es_Name sig)) then cl_add (es_Name sig) (os_Harness sig) c else c)
      harness_Signals \<lparr>cl_Signals = [], cl_Harness = []\<rparr>"

definition classify_name :: "gostring \<Rightarrow> gostring list \<times> classification \<Rightarrow> gostring list \<times> classification" where
  "classify_name name sc =
    (case ByExecutable name of
       None \<Rightarrow> sc
     | Some d \<Rightarrow>
         if hd_ID d \<in> set (fst sc) then sc
         else (hd_ID d # fst sc, cl_add (signalAncestryPrefix @ hd_ID d) (hd_ID d) (snd sc)))"

definition classify_ancestry :: "go_process list \<Rightarrow> classification \<Rightarrow> classification" where
  "classify_ancestry chain c = snd (fold (\<lambda>p. fold classify_name (pr_Names p)) chain ([], c))"

definition Classify :: "session_env \<Rightarrow> lookup \<Rightarrow> classification" where
  "Classify S env =
    (let c0 = classify_env env; raw = env TicketEnv in
     if \<not> sn_Ancestry S \<and> raw = [] then c0
     else (let c1 = (if sn_Ancestry S then classify_ancestry (sn_Chain S) c0 else c0) in
           if raw = [] then c1
           else (case verifyBoundTicket S env raw of Inl _ \<Rightarrow> c1 | Inr t \<Rightarrow> cl_add SignalTicket (tk_Harness t) c1)))"

definition IsLLMSession :: "session_env \<Rightarrow> lookup \<Rightarrow> bool" where
  "IsLLMSession S env = Detected (Classify S env)"

definition session_Reasons :: "session_env \<Rightarrow> lookup \<Rightarrow> gostring list" where
  "session_Reasons S env = cl_Signals (Classify S env)"

subsection \<open>The actor\<close>

record actor =
  ac_Name :: gostring
  ac_Source :: gostring

text \<open>\<open>^[a-z0-9][a-z0-9-]{0,62}$\<close>\<close>

definition actor_Validate :: "gostring \<Rightarrow> bool" where
  "actor_Validate name =
    (case name of [] \<Rightarrow> False
     | c # s \<Rightarrow> (is_lower c \<or> is_digit c) \<and> length s \<le> 62 \<and>
         list_all (\<lambda>d. is_lower d \<or> is_digit d \<or> d = CHR ''-'') s)"

definition anyFires :: "lookup \<Rightarrow> env_signal list \<Rightarrow> bool" where
  "anyFires env signals = list_ex (\<lambda>s. Fires (es_Match s) (env (es_Name s))) signals"

definition actor_Infer :: "bool \<Rightarrow> lookup \<Rightarrow> actor" where
  "actor_Infer isTerminal env =
    (if env ''KEYLATCH_ACTOR'' \<noteq> [] then \<lparr>ac_Name = env ''KEYLATCH_ACTOR'', ac_Source = ''env''\<rparr>
     else (case List.find (\<lambda>d. anyFires env (hd_Env d) \<or> anyFires env (hd_LegacyEnv d)) descriptors of
       Some d \<Rightarrow> \<lparr>ac_Name = hd_ID d, ac_Source = ''infer''\<rparr>
     | None \<Rightarrow>
         if anyFires env ManualSignals then \<lparr>ac_Name = ''llm-session'', ac_Source = ''infer''\<rparr>
         else if isTerminal then \<lparr>ac_Name = ''human-shell'', ac_Source = ''infer''\<rparr>
         else \<lparr>ac_Name = ''unknown-non-tty'', ac_Source = ''infer''\<rparr>))"

subsection \<open>Launching a harness\<close>

text \<open>The file with the signing key.\<close>

datatype key_file = KeyAbsent | KeyUnreadable | KeyBytes gostring

datatype key_error = KeyNotExist | KeyReadFails | KeyCorrupt | KeyCreateFails

definition readTicketKey :: "key_file \<Rightarrow> key_error + gostring" where
  "readTicketKey f =
    (case f of KeyAbsent \<Rightarrow> Inl KeyNotExist | KeyUnreadable \<Rightarrow> Inl KeyReadFails
     | KeyBytes key \<Rightarrow> if length key \<noteq> 32 then Inl KeyCorrupt else Inr key)"

text \<open>How the creation goes: another process may have been faster, with a key of its own.\<close>

datatype key_creation = CreateOk | CreateRaced key_file | CreateFailsBefore | CreateWriteFails

definition loadOrCreateTicketKey :: "gostring option \<Rightarrow> key_creation \<Rightarrow> key_file \<Rightarrow> (key_error + gostring) \<times> key_file" where
  "loadOrCreateTicketKey rnd how f =
    (case readTicketKey f of
       Inr key \<Rightarrow> (Inr key, f)
     | Inl e \<Rightarrow>
         if e \<noteq> KeyNotExist then (Inl e, f)
         else (case rnd of None \<Rightarrow> (Inl KeyCreateFails, f)
           | Some key \<Rightarrow>
              (case how of
                 CreateOk \<Rightarrow> (Inr key, KeyBytes key)
               | CreateRaced f' \<Rightarrow> (readTicketKey f', f')
               | CreateFailsBefore \<Rightarrow> (Inl KeyCreateFails, f)
               | CreateWriteFails \<Rightarrow> (Inl KeyCreateFails, KeyAbsent))))"

definition verifySessionTicket ::
  "path_env \<Rightarrow> ticket_jwt \<Rightarrow> (gostring \<Rightarrow> key_file) \<Rightarrow> gotime \<Rightarrow> lookup \<Rightarrow> gostring \<Rightarrow> ticket_error + ticket" where
  "verifySessionTicket P J files now env raw =
    (case readTicketKey (files (path_SessionTicketKey P env)) of
       Inl _ \<Rightarrow> Inl ErrTicketInvalid
     | Inr key \<Rightarrow> VerifyTicket J now raw key)"

definition resolveLaunchHarness :: "gostring \<Rightarrow> gostring \<Rightarrow> gostring option" where
  "resolveLaunchHarness flag command =
    (if flag \<noteq> [] then map_option hd_ID (harness_Lookup flag) else map_option hd_ID (ByExecutable command))"

record launch_env =
  le_Path :: path_env
  le_Jwt :: ticket_jwt
  le_Session :: session_env
  le_Table :: process_table
  le_Terminal :: bool
  le_Now :: gotime
  le_KeyRandom :: "gostring option"
  le_KeyCreation :: key_creation
  le_SidHex :: "gostring option"

definition issueLaunchTicket :: "launch_env \<Rightarrow> lookup \<Rightarrow> gostring \<Rightarrow> (gostring \<Rightarrow> key_file) \<Rightarrow> gostring option \<times> (gostring \<Rightarrow> key_file)" where
  "issueLaunchTicket E env harnessID files =
    (let path = path_SessionTicketKey (le_Path E) env;
         (r, f') = loadOrCreateTicketKey (le_KeyRandom E) (le_KeyCreation E) (files path);
         files' = files(path := f') in
     case r of Inl _ \<Rightarrow> (None, files')
     | Inr key \<Rightarrow>
        (case CurrentProcess (le_Table E) of None \<Rightarrow> (None, files')
         | Some self \<Rightarrow>
            (case le_SidHex E of None \<Rightarrow> (None, files')
             | Some sid \<Rightarrow>
                 (IssueTicket (le_Jwt E) (le_Now E)
                    \<lparr>tk_SessionID = sid, tk_Harness = harnessID, tk_PID = pr_PID self, tk_ProcessStart = pr_Start self,
                     tk_IssuedAt = 0, tk_ExpiresAt = 0\<rparr> key, files'))))"

definition entry_name :: "gostring \<Rightarrow> gostring" where
  "entry_name e = takeWhile (\<lambda>c. c \<noteq> CHR ''='') e"

definition launchEnvironment :: "gostring list \<Rightarrow> gostring \<Rightarrow> gostring list" where
  "launchEnvironment base ticket = filter (\<lambda>e. entry_name e \<noteq> TicketEnv) base @ [TicketEnv @ ''='' @ ticket]"

datatype launch_error = InsideSession "gostring list" | NotATerminal | UnknownHarness | TicketFails

text \<open>Up to the start of the child: its environment.\<close>

definition launch ::
  "launch_env \<Rightarrow> lookup \<Rightarrow> gostring list \<Rightarrow> gostring \<Rightarrow> gostring \<Rightarrow> (gostring \<Rightarrow> key_file) \<Rightarrow>
   (launch_error + gostring list) \<times> (gostring \<Rightarrow> key_file)" where
  "launch E env environ flag command files =
    (let cl = Classify (le_Session E) env in
     if Detected cl then (Inl (InsideSession (cl_Signals cl)), files)
     else if \<not> le_Terminal E then (Inl NotATerminal, files)
     else (case resolveLaunchHarness flag command of
       None \<Rightarrow> (Inl UnknownHarness, files)
     | Some i \<Rightarrow>
        (case issueLaunchTicket E env i files of
           (None, files') \<Rightarrow> (Inl TicketFails, files')
         | (Some raw, files') \<Rightarrow> (Inr (launchEnvironment environ raw), files'))))"

text \<open>\<open>os.Getenv\<close> over a list of entries: the first entry of that name.\<close>

definition getenv :: "gostring list \<Rightarrow> lookup" where
  "getenv entries k =
    (case List.find (\<lambda>e. CHR ''='' \<in> set e \<and> entry_name e = k) entries of
       None \<Rightarrow> [] | Some e \<Rightarrow> drop (Suc (length k)) e)"

end
