(* ===== verification/Session_Detection.thy ===== *)
theory Session_Detection
  imports Agent_Session
begin

section \<open>What the classification of a session guarantees\<close>

text \<open>
  The signals that fire, characterised; the walk over the ancestors stops whatever the process table says; a
  launched harness is recognised by its ticket; how a ticket loses its effect; and the inferred actor agrees with
  the environment signals.
\<close>

subsection \<open>Signals\<close>

definition fires_in :: "lookup \<Rightarrow> env_signal \<Rightarrow> bool" where
  "fires_in env s = Fires (es_Match s) (env (es_Name s))"

definition env_signals :: "env_signal list" where
  "env_signals = concat (map (\<lambda>d. hd_Env d) descriptors) @ concat (map hd_LegacyEnv descriptors) @ ManualSignals"

definition known_executable :: "go_process list \<Rightarrow> bool" where
  "known_executable chain = (\<exists>p \<in> set chain. \<exists>n \<in> set (pr_Names p). ByExecutable n \<noteq> None)"

lemma cl_Signals_add [simp]: "cl_Signals (cl_add l h c) = cl_Signals c @ [l]"
  by (simp add: cl_add_def)

lemma classify_env_fold:
  "cl_Signals (fold (\<lambda>sig c. if Fires (es_Match sig) (env (es_Name sig)) then cl_add (es_Name sig) (os_Harness sig) c else c) sigs c) =
    cl_Signals c @ map es_Name (filter (\<lambda>s. Fires (es_Match s) (env (es_Name s))) sigs)"
  by (induction sigs arbitrary: c) auto

lemma classify_env_signals:
  "cl_Signals (classify_env env) = map es_Name (filter (\<lambda>s. Fires (es_Match s) (env (es_Name s))) harness_Signals)"
  by (simp add: classify_env_def classify_env_fold)

lemma harness_Signals_env: "map (\<lambda>s. (es_Name s, es_Match s)) harness_Signals = map (\<lambda>s. (es_Name s, es_Match s)) env_signals"
  by (simp add: harness_Signals_def env_signals_def descriptors_def ManualSignals_def owned_def nonempty_signal_def)

lemma harness_Signals_fire:
  "(\<exists>s \<in> set harness_Signals. Fires (es_Match s) (env (es_Name s))) \<longleftrightarrow> (\<exists>s \<in> set env_signals. fires_in env s)"
proof -
  have "(\<lambda>s. (es_Name s, es_Match s)) ` set harness_Signals = (\<lambda>s. (es_Name s, es_Match s)) ` set env_signals"
    using harness_Signals_env by (metis set_map)
  then have "(\<exists>x \<in> (\<lambda>s. (es_Name s, es_Match s)) ` set harness_Signals. Fires (snd x) (env (fst x))) \<longleftrightarrow>
      (\<exists>x \<in> (\<lambda>s. (es_Name s, es_Match s)) ` set env_signals. Fires (snd x) (env (fst x)))"
    by simp
  then show ?thesis by (simp add: fires_in_def)
qed

lemma classify_env_detected: "Detected (classify_env env) \<longleftrightarrow> (\<exists>s \<in> set env_signals. fires_in env s)"
  unfolding harness_Signals_fire [symmetric] by (auto simp: Detected_def classify_env_signals filter_empty_conv)

lemma classify_names:
  "set (cl_Signals (snd (fold classify_name ns sc))) = set (cl_Signals (snd sc)) \<union>
    {signalAncestryPrefix @ hd_ID d | n d. n \<in> set ns \<and> ByExecutable n = Some d \<and> hd_ID d \<notin> set (fst sc)}"
proof (induction ns arbitrary: sc)
  case (Cons n ns)
  have "fold classify_name (n # ns) sc = fold classify_name ns (classify_name n sc)" by simp
  moreover consider "ByExecutable n = None" | d where "ByExecutable n = Some d" "hd_ID d \<in> set (fst sc)"
    | d where "ByExecutable n = Some d" "hd_ID d \<notin> set (fst sc)" by blast
  then have "set (cl_Signals (snd (fold classify_name ns (classify_name n sc)))) = set (cl_Signals (snd sc)) \<union>
    {signalAncestryPrefix @ hd_ID d | m d. m \<in> set (n # ns) \<and> ByExecutable m = Some d \<and> hd_ID d \<notin> set (fst sc)}"
    unfolding Cons.IH by cases (auto simp: classify_name_def)
  ultimately show ?case by simp
qed simp

lemma fold_classify_chain: "fold (\<lambda>p. fold classify_name (pr_Names p)) chain sc = fold classify_name (concat (map pr_Names chain)) sc"
  by (induction chain arbitrary: sc) auto

lemma classify_ancestry_signals:
  "set (cl_Signals (classify_ancestry chain c)) = set (cl_Signals c) \<union>
    {signalAncestryPrefix @ hd_ID d | p n d. p \<in> set chain \<and> n \<in> set (pr_Names p) \<and> ByExecutable n = Some d}"
  unfolding classify_ancestry_def fold_classify_chain classify_names by auto

lemma classify_ancestry_detected: "Detected (classify_ancestry chain c) \<longleftrightarrow> Detected c \<or> known_executable chain"
proof -
  have d: "Detected x \<longleftrightarrow> set (cl_Signals x) \<noteq> {}" for x by (simp add: Detected_def)
  have "(\<exists>e. e \<in> {signalAncestryPrefix @ hd_ID d | p n d. p \<in> set chain \<and> n \<in> set (pr_Names p) \<and> ByExecutable n = Some d}) \<longleftrightarrow>
      known_executable chain"
    unfolding known_executable_def by blast
  then show ?thesis unfolding d classify_ancestry_signals by blast
qed

lemma cl_add_detected [simp]: "Detected (cl_add l h c)"
  by (simp add: Detected_def)

lemma IsLLMSession_iff:
  "IsLLMSession S env \<longleftrightarrow>
    (\<exists>s \<in> set env_signals. fires_in env s) \<or> (sn_Ancestry S \<and> known_executable (sn_Chain S)) \<or>
    (env TicketEnv \<noteq> [] \<and> (\<exists>t. verifyBoundTicket S env (env TicketEnv) = Inr t))"
  by (auto simp: IsLLMSession_def Classify_def Let_def classify_env_detected classify_ancestry_detected split: sum.splits)

lemma classify_env_set: "set (cl_Signals (classify_env env)) = {es_Name s | s. s \<in> set env_signals \<and> fires_in env s}"
proof -
  have "(\<lambda>s. (es_Name s, es_Match s)) ` set harness_Signals = (\<lambda>s. (es_Name s, es_Match s)) ` set env_signals"
    using harness_Signals_env by (metis set_map)
  then have "\<And>n. (\<exists>m. (n, m) \<in> (\<lambda>s. (es_Name s, es_Match s)) ` set harness_Signals \<and> Fires m (env n)) \<longleftrightarrow>
      (\<exists>m. (n, m) \<in> (\<lambda>s. (es_Name s, es_Match s)) ` set env_signals \<and> Fires m (env n))"
    by simp
  then have "\<And>n. (\<exists>s \<in> set harness_Signals. n = es_Name s \<and> Fires (es_Match s) (env n)) \<longleftrightarrow>
      (\<exists>s \<in> set env_signals. n = es_Name s \<and> Fires (es_Match s) (env n))"
    by (simp add: image_iff) blast
  note n = this
  show ?thesis
  proof (rule set_eqI)
    fix x
    have "x \<in> set (cl_Signals (classify_env env)) \<longleftrightarrow> (\<exists>s \<in> set harness_Signals. x = es_Name s \<and> Fires (es_Match s) (env x))"
      unfolding classify_env_signals by auto
    also have "\<dots> \<longleftrightarrow> (\<exists>s \<in> set env_signals. x = es_Name s \<and> Fires (es_Match s) (env x))" by (rule n)
    also have "\<dots> \<longleftrightarrow> x \<in> {es_Name s | s. s \<in> set env_signals \<and> fires_in env s}" unfolding fires_in_def by auto
    finally show "x \<in> set (cl_Signals (classify_env env)) \<longleftrightarrow> x \<in> {es_Name s | s. s \<in> set env_signals \<and> fires_in env s}" .
  qed
qed

text \<open>A process counts as an agent session exactly when some signal fires, and the reasons reported are exactly
  the signals that do: the variables of the harness table that are set, the harnesses an ancestor's name stands
  for when ancestry counts, and the ticket when it verifies and is bound to a process of this tree. So a
  ticket that is forged, stale or of another tree changes nothing.\<close>

theorem session_reasons_exact:
  "set (session_Reasons S env) =
     {es_Name s | s. s \<in> set env_signals \<and> fires_in env s} \<union>
     (if sn_Ancestry S then
        {signalAncestryPrefix @ hd_ID d | p n d. p \<in> set (sn_Chain S) \<and> n \<in> set (pr_Names p) \<and> ByExecutable n = Some d}
      else {}) \<union>
     (if env TicketEnv \<noteq> [] \<and> (\<exists>t. verifyBoundTicket S env (env TicketEnv) = Inr t) then {SignalTicket} else {}) \<and>
   (IsLLMSession S env \<longleftrightarrow> session_Reasons S env \<noteq> [])"
proof -
  have "IsLLMSession S env \<longleftrightarrow> session_Reasons S env \<noteq> []"
    by (simp add: IsLLMSession_def session_Reasons_def Detected_def)
  then show ?thesis
    by (auto simp: session_Reasons_def Classify_def Let_def classify_env_set classify_ancestry_signals split: sum.splits)
qed

subsection \<open>The walk\<close>

lemma readProcessInfo_PID: "readProcessInfo T k pid = Some p \<Longrightarrow> pr_PID p = pid"
  by (auto simp: readProcessInfo_def Let_def split: option.splits prod.splits)

lemma chain_from_length: "length (chain_from T i pid) \<le> maxAncestry - i"
proof (induction T i pid rule: chain_from.induct)
  case (1 T i pid)
  show ?case
  proof (cases "i < maxAncestry \<and> pid > 0")
    case True
    then show ?thesis using 1
      by (subst chain_from.simps) (fastforce split: option.splits)
  qed (subst chain_from.simps, auto)
qed

lemma chain_from_hd: "chain_from T i pid = p # ps \<Longrightarrow> readProcessInfo T (2 * i) pid = Some p \<and> 0 < pid"
  by (subst (asm) chain_from.simps) (auto split: if_splits option.splits)

lemma chain_from_tl:
  "chain_from T i pid = p # ps \<Longrightarrow>
    (case parentPID T (2 * i + 1) pid of
       None \<Rightarrow> ps = [] | Some ppid \<Rightarrow> if ppid = pid \<or> ppid \<le> 0 then ps = [] else ps = chain_from T (Suc i) ppid)"
  by (subst (asm) chain_from.simps) (auto split: if_splits option.splits)

lemma chain_from_linked:
  "chain_from T i pid = ps \<Longrightarrow> Suc k < length ps \<Longrightarrow>
    parentPID T (2 * (i + k) + 1) (pr_PID (ps ! k)) = Some (pr_PID (ps ! Suc k)) \<and> pr_PID (ps ! k) \<noteq> pr_PID (ps ! Suc k)"
proof (induction k arbitrary: i pid ps)
  case 0
  then obtain p q qs where ps: "ps = p # q # qs" by (cases ps; cases "tl ps") auto
  have c: "chain_from T i pid = p # q # qs" using 0(1) ps by simp
  then show ?case
    using chain_from_tl [OF c] chain_from_hd [OF c] ps
    by (auto split: option.splits if_splits dest!: readProcessInfo_PID chain_from_hd [OF sym])
next
  case (Suc k)
  then obtain p qs where ps: "ps = p # qs" by (cases ps) auto
  with Suc(3) have l: "Suc k < length qs" by simp
  have c: "chain_from T i pid = p # qs" using Suc(2) ps by simp
  obtain ppid where "qs = chain_from T (Suc i) ppid"
    using chain_from_tl [OF c] l by (auto split: option.splits if_splits)
  from Suc.IH [OF this [symmetric] l] show ?case by (simp add: ps)
qed

lemma chain_from_complete:
  "chain_from T i pid = ps \<Longrightarrow> ps \<noteq> [] \<Longrightarrow> i + length ps < maxAncestry \<Longrightarrow>
    (let k = length ps - 1; q = parentPID T (2 * (i + k) + 1) (pr_PID (last ps)) in
     q = None \<or> (\<exists>ppid. q = Some ppid \<and> (ppid = pr_PID (last ps) \<or> ppid \<le> 0 \<or>
        readProcessInfo T (2 * (i + length ps)) ppid = None)))"
proof (induction ps arbitrary: i pid)
  case (Cons p qs)
  note t = chain_from_tl [OF Cons(2)] and h = chain_from_hd [OF Cons(2)]
  show ?case
  proof (cases qs)
    case Nil
    have "chain_from T (Suc i) ppid = [] \<Longrightarrow> 0 < ppid \<Longrightarrow> readProcessInfo T (2 * Suc i) ppid = None" for ppid
      using Cons(4) Nil by (subst (asm) chain_from.simps) (auto split: if_splits option.splits)
    then show ?thesis using t h Nil readProcessInfo_PID by (fastforce split: option.splits if_splits)
  next
    case (Cons q rs)
    then have "\<exists>ppid. qs = chain_from T (Suc i) ppid"
      using t by (auto split: option.splits if_splits intro: sym)
    then obtain ppid where "qs = chain_from T (Suc i) ppid" ..
    with Cons.IH [of "Suc i" ppid] Cons Cons.prems(3) show ?thesis by simp
  qed
qed simp

text \<open>C40: The walk over the ancestors always stops, also when the process table changes under it or has a cycle of
  parents: it lists at most 64 processes, starting with the caller, each the parent the reading of the one
  before gave; and it ends before the limit only where no other parent can be read.\<close>

theorem process_walk_stops:
  "length (processChain T) \<le> 64 \<and>
   (processChain T \<noteq> [] \<longrightarrow> pr_PID (hd (processChain T)) = pt_Self T) \<and>
   (\<forall>k. Suc k < length (processChain T) \<longrightarrow>
      parentPID T (2 * k + 1) (pr_PID (processChain T ! k)) = Some (pr_PID (processChain T ! Suc k))) \<and>
   (processChain T \<noteq> [] \<and> length (processChain T) < 64 \<longrightarrow>
      (case parentPID T (2 * (length (processChain T) - 1) + 1) (pr_PID (last (processChain T))) of
         None \<Rightarrow> True
       | Some ppid \<Rightarrow> ppid = pr_PID (last (processChain T)) \<or> ppid \<le> 0 \<or>
           readProcessInfo T (2 * length (processChain T)) ppid = None))"
proof -
  note c = processChain_def [of T, symmetric]
  have "length (processChain T) \<le> 64"
    using chain_from_length [of T 0 "pt_Self T"] by (simp add: processChain_def maxAncestry_def)
  moreover have "pr_PID (hd (processChain T)) = pt_Self T" if "processChain T \<noteq> []"
  proof -
    have "chain_from T 0 (pt_Self T) = hd (processChain T) # tl (processChain T)" using that by (simp add: c)
    then show ?thesis using chain_from_hd readProcessInfo_PID by blast
  qed
  moreover have "\<forall>k. Suc k < length (processChain T) \<longrightarrow>
      parentPID T (2 * k + 1) (pr_PID (processChain T ! k)) = Some (pr_PID (processChain T ! Suc k))"
    using chain_from_linked [OF c] by simp
  moreover have "case parentPID T (2 * (length (processChain T) - 1) + 1) (pr_PID (last (processChain T))) of
         None \<Rightarrow> True
       | Some ppid \<Rightarrow> ppid = pr_PID (last (processChain T)) \<or> ppid \<le> 0 \<or>
           readProcessInfo T (2 * length (processChain T)) ppid = None"
    if "processChain T \<noteq> []" "length (processChain T) < 64"
    using chain_from_complete [OF c that(1)] that(2) by (auto simp: maxAncestry_def Let_def split: option.splits)
  ultimately show ?thesis by blast
qed

definition stat_line :: "gostring \<Rightarrow> gostring \<Rightarrow> gostring" where
  "stat_line name ppid = ''7 ('' @ name @ '') S '' @ ppid @ '' 1 1 1 1 1 1 1 1 1 1 1 1 1 1 1 1 1 77 5''"

text \<open>Two processes that are each other's parent.\<close>

definition cyclic_table :: process_table where
  "cyclic_table = \<lparr>pt_Self = 7, pt_Stat = (\<lambda>k pid. Some (if pid = 7 then stat_line ''a b)'' ''8'' else stat_line ''sh'' ''7'')),
     pt_Exe = (\<lambda>k pid. ''/usr/bin/Claude.exe''), pt_Cmdline = (\<lambda>k pid. None)\<rparr>"

lemma cyclic_first: "readProcessInfo cyclic_table 0 7 = Some \<lparr>pr_PID = 7, pr_Start = 77, pr_Names = [''a b)'', ''claude'']\<rparr>"
proof -
  have f: "statFields (stat_line ''a b)'' ''8'') = Some (''a b)'', ''S'' # ''8'' # replicate 17 ''1'' @ [''77'', ''5''])" by code_simp
  have u: "parse_uint64 ''77'' = Some 77" by (simp add: parse_uint64_def digits_value_def is_digit_def byte_of_def)
  have n: "uniqueNames [''a b)'', ''/usr/bin/Claude.exe'', []] = [''a b)'', ''claude'']" by code_simp
  show ?thesis using f u n by (simp add: readProcessInfo_def cyclic_table_def nth_append)
qed

lemma cyclic_chain: "processChain cyclic_table \<noteq> []"
  unfolding processChain_def by (subst chain_from.simps) (simp add: cyclic_table_def [THEN arg_cong [where f = pt_Self]] cyclic_first maxAncestry_def)

theorem process_walk_stops_witness:
  "length (processChain cyclic_table) \<le> 64 \<and> pr_PID (hd (processChain cyclic_table)) = 7"
  using process_walk_stops [of cyclic_table] cyclic_chain
  by (simp add: cyclic_table_def [THEN arg_cong [where f = pt_Self]])

text \<open>On Windows every listed ancestor is at least as old as its child, so a reused process id is never taken for a
  parent.\<close>

lemma windows_chain_ages:
  "sorted_wrt (\<lambda>p q. pr_Start q \<le> pr_Start p) (windows_chain_from es ct i pid cs) \<and>
   length (windows_chain_from es ct i pid cs) \<le> maxAncestry - i \<and>
   (i > 0 \<longrightarrow> (\<forall>p \<in> set (windows_chain_from es ct i pid cs). pr_Start p \<le> cs))"
proof (induction es ct i pid cs rule: windows_chain_from.induct)
  case (1 es ct i pid cs)
  show ?case
  proof (cases "i < maxAncestry \<and> pid > 0 \<and> (\<exists>e s. es pid = Some e \<and> ct pid = Some s \<and> \<not> (i > 0 \<and> s > cs))")
    case False
    then have "windows_chain_from es ct i pid cs = []"
      by (subst windows_chain_from.simps) (auto split: option.splits)
    then show ?thesis by simp
  next
    case True
    then obtain e s where h: "i < maxAncestry" "pid > 0" "es pid = Some e" "ct pid = Some s" "\<not> (i > 0 \<and> s > cs)" by blast
    have u: "windows_chain_from es ct i pid cs = \<lparr>pr_PID = pid, pr_Start = s, pr_Names = uniqueNames [se_exe e]\<rparr> #
        (if se_parent e = pid then [] else windows_chain_from es ct (Suc i) (se_parent e) s)"
      using h by (subst windows_chain_from.simps) auto
    show ?thesis unfolding u using 1 [of e s] h
      by (auto simp: not_less intro: order_trans)
  qed
qed

subsection \<open>Launched harnesses\<close>

text \<open>What the JWT library promises: a ticket it signed parses under the same key, issuer and subject while it is
  valid, and is not the empty string.\<close>

definition jwt_round_trip :: "ticket_jwt \<Rightarrow> bool" where
  "jwt_round_trip J \<longleftrightarrow>
    (\<forall>key c raw now i e. tj_Sign J key c = Some raw \<longrightarrow> tc_IssuedAt c = Some i \<longrightarrow> tc_ExpiresAt c = Some e \<longrightarrow>
       raw \<noteq> [] \<and> (i \<le> now \<and> now < e \<longrightarrow> tj_Parse J (tc_Issuer c) (tc_Subject c) now key raw = TkParsed c True))"

lemma NewNumericDate_le: "NewNumericDate t \<le> t"
  by (simp add: NewNumericDate_def Second_def minus_mod_eq_div_mult [symmetric])

lemma Issue_Verify:
  assumes "jwt_round_trip J" "IssueTicket J now t key = Some raw" "now \<le> now'" "now' < NewNumericDate (now + TicketTTL)"
  shows "raw \<noteq> [] \<and> (\<exists>t'. VerifyTicket J now' raw key = Inr t' \<and> tk_PID t' = tk_PID t \<and> tk_ProcessStart t' = tk_ProcessStart t \<and>
    tk_Harness t' = tk_Harness t \<and> tk_SessionID t' = tk_SessionID t)"
proof -
  have s: "tj_Sign J key (ticket_claims_of now t) = Some raw" and k: "\<not> length key < 32"
    and f: "tk_SessionID t \<noteq> []" "0 < tk_PID t" "tk_ProcessStart t \<noteq> 0"
    using assms(2) by (auto simp: IssueTicket_def split: if_splits)
  have "NewNumericDate now \<le> now'" using NewNumericDate_le [of now] assms(3) by simp
  then have "raw \<noteq> [] \<and> tj_Parse J ticketIssuer ticketSubject now' key raw = TkParsed (ticket_claims_of now t) True"
    using assms(1) [unfolded jwt_round_trip_def, rule_format, OF s, of "NewNumericDate now" "NewNumericDate (now + TicketTTL)" now']
      assms(4) by (simp add: ticket_claims_of_def)
  then show ?thesis using k f by (simp add: VerifyTicket_def ticket_claims_of_def)
qed

lemma loadOrCreate_reads:
  "loadOrCreateTicketKey rnd how f = (Inr key, f') \<Longrightarrow> (\<And>k. rnd = Some k \<Longrightarrow> length k = 32) \<Longrightarrow> readTicketKey f' = Inr key"
  by (auto simp: loadOrCreateTicketKey_def readTicketKey_def split: sum.splits if_splits option.splits key_creation.splits key_file.splits)

lemma entry_name_append: "CHR ''='' \<notin> set k \<Longrightarrow> entry_name (k @ CHR ''='' # v) = k"
  unfolding entry_name_def by (subst takeWhile_append2) auto

lemma getenv_launchEnvironment: "getenv (launchEnvironment base raw) TicketEnv = raw"
proof -
  have n: "entry_name (TicketEnv @ ''='' @ raw) = TicketEnv"
    using entry_name_append [of TicketEnv raw] by (simp add: TicketEnv_def)
  have "List.find (\<lambda>e. CHR ''='' \<in> set e \<and> entry_name e = TicketEnv) (filter (\<lambda>e. entry_name e \<noteq> TicketEnv) base @ [TicketEnv @ ''='' @ raw]) =
      Some (TicketEnv @ ''='' @ raw)"
    using n by (induction base) auto
  then show ?thesis by (simp add: getenv_def launchEnvironment_def)
qed


lemma Fires_Nil [simp]: "\<not> Fires m []"
  by (simp add: Fires_def split: signal_match.splits)

definition sample_ticket_key :: gostring where "sample_ticket_key = replicate 32 (CHR ''k'')"

definition sample_ticket :: ticket where
  "sample_ticket = \<lparr>tk_SessionID = ''5e'', tk_Harness = ''claude-code'', tk_PID = 7, tk_ProcessStart = 77, tk_IssuedAt = 0, tk_ExpiresAt = 0\<rparr>"

text \<open>A library that knows one ticket.\<close>

definition sample_jwt :: ticket_jwt where
  "sample_jwt =
    \<lparr>tj_Sign = (\<lambda>key c. if key = sample_ticket_key \<and> c = ticket_claims_of 0 sample_ticket then Some ''eyJ'' else None),
     tj_Parse = (\<lambda>iss sub now key raw.
       if raw = ''eyJ'' \<and> key = sample_ticket_key \<and> iss = ticketIssuer \<and> sub = ticketSubject \<and> now < NewNumericDate TicketTTL
       then TkParsed (ticket_claims_of 0 sample_ticket) True else TkBad)\<rparr>"

definition sample_paths :: path_env where
  "sample_paths = \<lparr>pe_Linux = True, pe_Home = Some ''/home/u'', pe_Regular = (\<lambda>_. False)\<rparr>"

definition sample_launch :: launch_env where
  "sample_launch = \<lparr>le_Path = sample_paths, le_Jwt = sample_jwt, le_Session = \<lparr>sn_Ancestry = False, sn_Chain = [], sn_Verifier = None\<rparr>,
     le_Table = cyclic_table, le_Terminal = True, le_Now = 0, le_KeyRandom = Some sample_ticket_key,
     le_KeyCreation = CreateOk, le_SidHex = Some ''5e''\<rparr>"

definition sample_key_files :: "gostring \<Rightarrow> key_file" where
  "sample_key_files = (\<lambda>_. KeyAbsent)(path_SessionTicketKey sample_paths (\<lambda>_. []) := KeyBytes sample_ticket_key)"

definition child_session :: session_env where
  "child_session = \<lparr>sn_Ancestry = True, sn_Chain = [\<lparr>pr_PID = 9, pr_Start = 90, pr_Names = [''sh'']\<rparr>, \<lparr>pr_PID = 7, pr_Start = 77, pr_Names = [''node'']\<rparr>],
     sn_Verifier = Some (verifySessionTicket sample_paths sample_jwt sample_key_files 5)\<rparr>"

definition child_lookup :: lookup where "child_lookup = (\<lambda>_. [])(TicketEnv := ''eyJ'')"

lemma sample_jwt_round_trip: "jwt_round_trip sample_jwt"
  by (auto simp: jwt_round_trip_def sample_jwt_def ticket_claims_of_def NewNumericDate_def)

lemma sample_launched:
  "launch sample_launch (\<lambda>_. []) [''A=1''] ''claude-code'' ''node'' (\<lambda>_. KeyAbsent) =
    (Inr [''A=1'', TicketEnv @ ''=eyJ''], sample_key_files)"
proof -
  have d: "\<not> Detected (Classify (le_Session sample_launch) (\<lambda>_. []))"
    using IsLLMSession_iff [of "le_Session sample_launch" "\<lambda>_. []"]
    by (simp add: IsLLMSession_def fires_in_def sample_launch_def)
  have h: "resolveLaunchHarness ''claude-code'' ''node'' = Some ''claude-code''" by code_simp
  have k: "loadOrCreateTicketKey (Some sample_ticket_key) CreateOk KeyAbsent = (Inr sample_ticket_key, KeyBytes sample_ticket_key)"
    by (simp add: loadOrCreateTicketKey_def readTicketKey_def)
  have c: "CurrentProcess cyclic_table = Some \<lparr>pr_PID = 7, pr_Start = 77, pr_Names = [''a b)'', ''claude'']\<rparr>"
    unfolding CurrentProcess_def using cyclic_first by (simp add: cyclic_table_def)
  have i: "IssueTicket sample_jwt 0 sample_ticket sample_ticket_key = Some ''eyJ''"
    by (simp add: IssueTicket_def sample_jwt_def sample_ticket_key_def sample_ticket_def)
  have l: "launchEnvironment [''A=1''] ''eyJ'' = [''A=1'', TicketEnv @ ''=eyJ'']"
    by (simp add: launchEnvironment_def entry_name_def TicketEnv_def)
  show ?thesis using d h k c i l
    by (simp add: launch_def sample_launch_def issueLaunchTicket_def Let_def sample_key_files_def sample_ticket_def)
qed


text \<open>The ticket's key is looked up under the keyring directory, which the environment names, although the source
  says the caller's environment may not choose its place: with that variable pointed at a directory without a
  key, a process is classified as if it had no ticket at all.\<close>

theorem ticket_key_place_chosen:
  assumes "sn_Verifier S = Some (verifySessionTicket P J files now)"
    and "dir \<noteq> []" "files (filepath_Join dir ''session-ticket.key'') = KeyAbsent"
  shows "IsLLMSession S (env(''KEYLATCH_KEYRING_DIR'' := dir)) = IsLLMSession S (env(TicketEnv := []))"
proof -
  have n: "es_Name s \<noteq> ''KEYLATCH_KEYRING_DIR'' \<and> es_Name s \<noteq> TicketEnv" if "s \<in> set env_signals" for s
    using that by (auto simp: env_signals_def descriptors_def ManualSignals_def nonempty_signal_def TicketEnv_def
        ManualLabel_def LegacyManualLabel_def)
  have "fires_in (env(''KEYLATCH_KEYRING_DIR'' := dir)) s = fires_in (env(TicketEnv := [])) s" if "s \<in> set env_signals" for s
    using n [OF that] by (simp add: fires_in_def)
  moreover have "verifyBoundTicket S (env(''KEYLATCH_KEYRING_DIR'' := dir)) raw \<noteq> Inr t" for raw t
    using assms by (simp add: verifyBoundTicket_def verifySessionTicket_def path_SessionTicketKey_def path_KeyringDir_def
        overridden_def readTicketKey_def)
  ultimately show ?thesis by (simp add: IsLLMSession_iff)
qed

theorem ticket_key_place_chosen_witness:
  "IsLLMSession child_session child_lookup \<and> \<not> IsLLMSession child_session (child_lookup(''KEYLATCH_KEYRING_DIR'' := ''/tmp''))"
proof
  have p: "path_SessionTicketKey sample_paths child_lookup = path_SessionTicketKey sample_paths (\<lambda>_. [])"
    by (simp add: path_SessionTicketKey_def path_KeyringDir_def path_ConfigDir_def overridden_def child_lookup_def TicketEnv_def)
  have "verifySessionTicket sample_paths sample_jwt sample_key_files 5 child_lookup ''eyJ'' \<noteq> Inl e" for e
    unfolding verifySessionTicket_def p
    by (simp add: sample_key_files_def readTicketKey_def VerifyTicket_def sample_jwt_def sample_ticket_key_def
        ticket_claims_of_def sample_ticket_def NewNumericDate_def TicketTTL_def Hour_def Minute_def Second_def)
  then obtain t where "verifySessionTicket sample_paths sample_jwt sample_key_files 5 child_lookup ''eyJ'' = Inr t"
    by (metis sum.exhaust)
  moreover from this have "tk_PID t = 7 \<and> tk_ProcessStart t = 77"
    unfolding verifySessionTicket_def p
    by (auto simp: sample_key_files_def readTicketKey_def VerifyTicket_def sample_jwt_def sample_ticket_key_def
        ticket_claims_of_def sample_ticket_def NewNumericDate_def TicketTTL_def Hour_def Minute_def Second_def)
  ultimately show "IsLLMSession child_session child_lookup"
    by (simp add: IsLLMSession_iff verifyBoundTicket_def child_session_def child_lookup_def)
  have k: "path_SessionTicketKey sample_paths (\<lambda>_. []) = ''/home/u/.config/keylatch/keyring/session-ticket.key''"
    "filepath_Join ''/tmp'' ''session-ticket.key'' = ''/tmp/session-ticket.key''" by code_simp+
  have u: "\<not> known_executable (sn_Chain child_session)"
  proof -
    have "ByExecutable ''sh'' = None" "ByExecutable ''node'' = None" by code_simp+
    then show ?thesis by (simp add: known_executable_def child_session_def)
  qed
  have "IsLLMSession child_session (child_lookup(''KEYLATCH_KEYRING_DIR'' := ''/tmp'')) = IsLLMSession child_session (child_lookup(TicketEnv := []))"
    by (rule ticket_key_place_chosen [where P = sample_paths and J = sample_jwt and files = sample_key_files and now = 5])
      (simp_all add: child_session_def sample_key_files_def k)
  then show "\<not> IsLLMSession child_session (child_lookup(''KEYLATCH_KEYRING_DIR'' := ''/tmp''))"
    using u by (simp add: IsLLMSession_iff child_lookup_def fires_in_def)
qed

subsection \<open>The actor\<close>

lemma find_descriptor:
  "List.find (\<lambda>d. anyFires env (hd_Env d) \<or> anyFires env (hd_LegacyEnv d)) descriptors = None \<longleftrightarrow>
    \<not> (\<exists>d \<in> set descriptors. \<exists>s \<in> set (hd_Env d) \<union> set (hd_LegacyEnv d). fires_in env s)"
  by (auto simp: find_None_iff anyFires_def list_ex_iff fires_in_def)

text \<open>Without an explicit override the inferred actor is one of the fixed, valid names, and it is a human's or an
  unknown one exactly when no environment signal fires.\<close>

theorem actor_agrees_with_signals:
  assumes "env ''KEYLATCH_ACTOR'' = []"
  shows "actor_Validate (ac_Name (actor_Infer tty env)) \<and> ac_Source (actor_Infer tty env) = ''infer'' \<and>
    (ac_Name (actor_Infer tty env) \<in> {''human-shell'', ''unknown-non-tty''} \<longleftrightarrow> \<not> (\<exists>s \<in> set env_signals. fires_in env s))"
proof -
  let ?F = "List.find (\<lambda>d. anyFires env (hd_Env d) \<or> anyFires env (hd_LegacyEnv d)) descriptors"
  have e: "(\<exists>s \<in> set env_signals. fires_in env s) \<longleftrightarrow> ?F \<noteq> None \<or> anyFires env ManualSignals"
    unfolding find_descriptor
    by (auto simp: env_signals_def anyFires_def list_ex_iff fires_in_def)
  have v: "list_all (\<lambda>d. actor_Validate (hd_ID d) \<and> hd_ID d \<noteq> ''human-shell'' \<and> hd_ID d \<noteq> ''unknown-non-tty'') descriptors"
    "actor_Validate ''llm-session''" "actor_Validate ''human-shell''" "actor_Validate ''unknown-non-tty''"
    by code_simp+
  show ?thesis
  proof (cases ?F)
    case (Some d)
    then have "d \<in> set descriptors" by (auto simp: find_Some_iff)
    then show ?thesis using v Some e assms by (auto simp: actor_Infer_def list_all_iff)
  next
    case None
    then show ?thesis using v e assms by (auto simp: actor_Infer_def)
  qed
qed

theorem actor_agrees_with_signals_witness:
  "ac_Name (actor_Infer True ((\<lambda>_. [])(''CLAUDECODE'' := ''1''))) \<notin> {''human-shell'', ''unknown-non-tty''}"
proof -
  have "nonempty_signal ''CLAUDECODE'' \<in> set env_signals"
    by (simp add: env_signals_def descriptors_def)
  moreover have "fires_in ((\<lambda>_. [])(''CLAUDECODE'' := ''1'')) (nonempty_signal ''CLAUDECODE'')"
    by (simp add: fires_in_def nonempty_signal_def Fires_def)
  ultimately show ?thesis
    using actor_agrees_with_signals [of "(\<lambda>_. [])(''CLAUDECODE'' := ''1'')" True] by auto
qed

end
