(* ===== verification/Child_Env.thy ===== *)
theory Child_Env
  imports Session_Detection
begin

section \<open>Runtime modes and child environments (\<open>internal/runtime\<close>, \<open>internal/runner\<close>)\<close>

text \<open>
  The runtime modes and their resolution (\<open>runtime.go\<close>, \<open>resolve.go\<close>), the operating mode (\<open>mode.go\<close>), the
  filters of a child's environment (\<open>env_filter.go\<close>), the canary variable (\<open>canary/inject.go\<close>), the variables of the
  proxy (\<open>proxy/env_proxy.go\<close>, \<open>env_inject.go\<close>) and the environments the drivers of \<open>internal/runner\<close> build from
  them. An environment is a list of entries, as \<open>os.Environ\<close> gives it.
\<close>

subsection \<open>Templates\<close>

text \<open>The fields of a provider template the runner reads; an injection rule is a source and a variable.\<close>

record run_template =
  rm_Provider :: gostring
  rm_Category :: gostring
  rm_Preferred :: gostring
  rm_Supported :: "gostring list"
  rm_InjectionRules :: "(gostring \<times> gostring) list"
  rm_AllowedCommandPrefixes :: "gostring list"

subsection \<open>Runtime modes\<close>

definition RuntimeGatewayTyped :: gostring where "RuntimeGatewayTyped = ''gateway_typed''"
definition RuntimeGatewaySDK :: gostring where "RuntimeGatewaySDK = ''gateway_sdk''"
definition RuntimeDirectBrokered :: gostring where "RuntimeDirectBrokered = ''direct_brokered''"
definition RuntimeGatewayProxy :: gostring where "RuntimeGatewayProxy = ''gateway_proxy''"
definition RuntimeDirectClassicSandboxed :: gostring where "RuntimeDirectClassicSandboxed = ''direct_classic_sandboxed''"

lemmas runtime_names = RuntimeGatewayTyped_def RuntimeGatewaySDK_def RuntimeDirectBrokered_def RuntimeGatewayProxy_def
  RuntimeDirectClassicSandboxed_def

definition AllModes :: "gostring list" where
  "AllModes = [RuntimeGatewayTyped, RuntimeGatewaySDK, RuntimeDirectBrokered, RuntimeGatewayProxy, RuntimeDirectClassicSandboxed]"

definition removedModes :: "gostring \<Rightarrow> gostring option" where
  "removedModes = [''direct_classic'' \<mapsto> ''mode removed in v1.0.0. Use: --runtime gateway_typed'']"

definition IsRemovedMode :: "gostring \<Rightarrow> gostring option" where
  "IsRemovedMode mode = removedModes mode"

definition IsRawCredentialMode :: "gostring \<Rightarrow> bool" where
  "IsRawCredentialMode m = (m = RuntimeDirectBrokered \<or> m = RuntimeDirectClassicSandboxed)"

datatype credential_delivery = DeliveryKeylatchSessionToken | DeliveryProviderEphemeral | DeliveryProviderRoot

text \<open>\<open>None\<close> is the panic on a mode the switch does not know.\<close>

definition shapeFor :: "gostring \<Rightarrow> credential_delivery option" where
  "shapeFor m =
    (if m \<in> {RuntimeGatewayTyped, RuntimeGatewaySDK, RuntimeGatewayProxy} then Some DeliveryKeylatchSessionToken
     else if m = RuntimeDirectBrokered then Some DeliveryProviderEphemeral
     else if m = RuntimeDirectClassicSandboxed then Some DeliveryProviderRoot
     else None)"

definition supportedSet :: "run_template \<Rightarrow> gostring \<Rightarrow> bool" where
  "supportedSet tmpl m = (m \<in> set (rm_Supported tmpl))"

datatype resolve_error = ErrModeRemoved gostring | ErrModeNotSupported | ShapePanic gostring

datatype resolve_reason = ExplicitRequest | ProviderPreferred | FallbackHierarchy

record runtime_decision =
  rd_Mode :: gostring
  rd_Reason :: resolve_reason
  rd_CredentialShape :: credential_delivery

definition decide_mode :: "gostring \<Rightarrow> resolve_reason \<Rightarrow> resolve_error + runtime_decision" where
  "decide_mode m why =
    (case shapeFor m of None \<Rightarrow> Inl (ShapePanic m)
     | Some shape \<Rightarrow> Inr \<lparr>rd_Mode = m, rd_Reason = why, rd_CredentialShape = shape\<rparr>)"

definition fallbackModes :: "gostring list" where
  "fallbackModes = [RuntimeGatewayTyped, RuntimeGatewaySDK, RuntimeDirectBrokered, RuntimeGatewayProxy]"

definition runtime_Resolve :: "gostring \<Rightarrow> run_template \<Rightarrow> resolve_error + runtime_decision" where
  "runtime_Resolve requested tmpl =
    (case (if requested \<noteq> [] then removedModes requested else None) of
       Some hint \<Rightarrow> Inl (ErrModeRemoved hint)
     | None \<Rightarrow>
         if requested \<noteq> [] then
           (if \<not> supportedSet tmpl requested then Inl ErrModeNotSupported else decide_mode requested ExplicitRequest)
         else if rm_Preferred tmpl \<noteq> [] \<and> supportedSet tmpl (rm_Preferred tmpl) then
           decide_mode (rm_Preferred tmpl) ProviderPreferred
         else (case List.find (supportedSet tmpl) fallbackModes of
                 Some m \<Rightarrow> decide_mode m FallbackHierarchy
               | None \<Rightarrow> Inl ErrModeNotSupported))"

subsection \<open>The operating mode\<close>

datatype operating_mode = ModeStandard | ModeTelemetry | ModeCanary | ModeCustom

definition ParseMode :: "gostring \<Rightarrow> operating_mode option" where
  "ParseMode s =
    (let m = ToLower s in
     if m = ''standard'' then Some ModeStandard else if m = ''telemetry'' then Some ModeTelemetry
     else if m = ''canary'' then Some ModeCanary else if m = ''custom'' then Some ModeCustom else None)"

definition ResolveMode :: "lookup \<Rightarrow> gostring \<Rightarrow> gostring \<Rightarrow> operating_mode option" where
  "ResolveMode env flagVal cfg =
    (if flagVal \<noteq> [] then ParseMode flagVal
     else if env ''KEYLATCH_MODE'' \<noteq> [] then ParseMode (env ''KEYLATCH_MODE'')
     else if cfg \<noteq> [] then ParseMode cfg
     else Some ModeStandard)"

record effective_settings =
  ef_TelemetryEnabled :: bool
  ef_CanaryInjectionEnabled :: bool
  ef_ExperimentalGated :: bool

definition no_settings :: effective_settings where
  "no_settings = \<lparr>ef_TelemetryEnabled = False, ef_CanaryInjectionEnabled = False, ef_ExperimentalGated = False\<rparr>"

text \<open>\<open>None\<close> is the empty mode an error leaves; the configuration of the custom mode is already a set of flags.\<close>

definition EffectiveSettingsForMode :: "operating_mode option \<Rightarrow> effective_settings option \<Rightarrow> effective_settings" where
  "EffectiveSettingsForMode m customCfg =
    (case m of
       Some ModeTelemetry \<Rightarrow> no_settings\<lparr>ef_TelemetryEnabled := True\<rparr>
     | Some ModeCanary \<Rightarrow> no_settings\<lparr>ef_CanaryInjectionEnabled := True\<rparr>
     | Some ModeCustom \<Rightarrow> (case customCfg of Some c \<Rightarrow> c | None \<Rightarrow> no_settings)
     | _ \<Rightarrow> no_settings)"

subsection \<open>Filters\<close>

definition envKey :: "gostring \<Rightarrow> gostring" where
  "envKey e = takeWhile (\<lambda>c. c \<noteq> CHR ''='') e"

definition FilterChildEnv :: "gostring list \<Rightarrow> gostring list \<Rightarrow> gostring list" where
  "FilterChildEnv env keep = filter (\<lambda>e. \<not> (HasPrefix (envKey e) ''KEYLATCH_'' \<and> envKey e \<notin> set keep)) env"

definition cleanBaseVars :: "gostring list" where
  "cleanBaseVars = [''PATH'', ''HOME'', ''USER'', ''LOGNAME'', ''SHELL'', ''TERM'', ''TERM_PROGRAM'', ''COLORTERM'', ''LANG'',
     ''TMPDIR'', ''TMP'', ''TEMP'', ''XDG_RUNTIME_DIR'']"

definition CleanBaseEnv :: "gostring list \<Rightarrow> gostring list \<Rightarrow> gostring list" where
  "CleanBaseEnv env extra =
    filter (\<lambda>e. envKey e \<in> set cleanBaseVars \<or> HasPrefix (envKey e) ''LC_'' \<or> envKey e \<in> set extra) env"

definition env_entry :: "gostring \<Rightarrow> gostring \<Rightarrow> gostring" where
  "env_entry key value = key @ ''='' @ value"

text \<open>\<open>appendOrReplaceKV\<close> and \<open>appendOrReplace\<close> are the same function.\<close>

fun appendOrReplace :: "gostring list \<Rightarrow> gostring \<Rightarrow> gostring \<Rightarrow> gostring list" where
  "appendOrReplace [] key value = [env_entry key value]"
| "appendOrReplace (e # env) key value =
    (if HasPrefix e (key @ ''='') then env_entry key value # env else e # appendOrReplace env key value)"

record filter_opts =
  fo_Mode :: gostring
  fo_GatewayToken :: gostring
  fo_GatewayURL :: gostring
  fo_CleanEnv :: bool
  fo_Extras :: "gostring list"

datatype env_event =
    CleanEnvEvent gostring "gostring list" nat
  | ChildEnvFilterEvent gostring "gostring list" bool

definition inject_gateway :: "filter_opts \<Rightarrow> gostring list \<Rightarrow> gostring list" where
  "inject_gateway opts out =
    (let out1 = (if fo_GatewayToken opts \<noteq> [] then appendOrReplace out ''KEYLATCH_GATEWAY_TOKEN'' (fo_GatewayToken opts) else out)
     in if fo_GatewayURL opts \<noteq> [] then appendOrReplace out1 ''KEYLATCH_GATEWAY_URL'' (fo_GatewayURL opts) else out1)"

definition gateway_keep :: "filter_opts \<Rightarrow> gostring list" where
  "gateway_keep opts =
    (if fo_GatewayToken opts \<noteq> [] then [''KEYLATCH_GATEWAY_TOKEN''] else []) @
    (if fo_GatewayURL opts \<noteq> [] then [''KEYLATCH_GATEWAY_URL''] else [])"

text \<open>The events are those emitted when the context has an emitter.\<close>

definition env_Filter :: "bool \<Rightarrow> gostring list \<Rightarrow> filter_opts \<Rightarrow> gostring list \<times> env_event list" where
  "env_Filter emitter parent opts =
    (if fo_CleanEnv opts then
       (let base = CleanBaseEnv parent (fo_Extras opts);
            stripped = filter (\<lambda>k. k \<notin> set (map envKey base)) (map envKey parent);
            out = inject_gateway opts base
        in (out, if emitter then [CleanEnvEvent (fo_Mode opts) (map envKey out) (length stripped),
                                  ChildEnvFilterEvent (fo_Mode opts) stripped True] else []))
     else
       (let keep = gateway_keep opts;
            stripped = filter (\<lambda>k. HasPrefix k ''KEYLATCH_'' \<and> k \<notin> set keep) (map envKey parent);
            out = inject_gateway opts (FilterChildEnv parent keep)
        in (out, if emitter then [ChildEnvFilterEvent (fo_Mode opts) stripped False] else [])))"

subsection \<open>The canary\<close>

definition upper_byte :: "char \<Rightarrow> char" where
  "upper_byte c = (if is_lower c then char_of (byte_of c - 32) else c)"

definition ToUpper :: "gostring \<Rightarrow> gostring" where
  "ToUpper s = map upper_byte s"

definition dash_to_underscore :: "gostring \<Rightarrow> gostring" where
  "dash_to_underscore s = map (\<lambda>c. if c = CHR ''-'' then CHR ''_'' else c) s"

text \<open>\<open>rnd\<close> is the hex text of the eight random bytes.\<close>

definition BuildCanary :: "gostring option \<Rightarrow> gostring \<Rightarrow> gostring option" where
  "BuildCanary rnd provider = map_option (\<lambda>h. ''klc-canary-'' @ ToLower provider @ ''-'' @ h) rnd"

definition canary_EnvVarName :: "gostring \<Rightarrow> gostring" where
  "canary_EnvVarName provider = ''KEYLATCH_CANARY_'' @ ToUpper (dash_to_underscore provider)"

subsection \<open>The environments of the drivers\<close>

text \<open>Entries without an equals sign stay.\<close>

definition strip_denied :: "gostring list \<Rightarrow> gostring list \<Rightarrow> gostring list" where
  "strip_denied denyVars raw = filter (\<lambda>e. CHR ''='' \<notin> set e \<or> takeWhile (\<lambda>c. c \<noteq> CHR ''='') e \<notin> set denyVars) raw"

definition gatewayTypedChildEnv ::
  "gostring list \<Rightarrow> run_template \<Rightarrow> gostring \<Rightarrow> gostring \<Rightarrow> bool \<Rightarrow> gostring list \<Rightarrow> gostring list" where
  "gatewayTypedChildEnv environ tmpl gatewayURL jwtStr cleanEnv extra =
    (let stripped = strip_denied (map snd (rm_InjectionRules tmpl)) environ;
         childEnv = (if cleanEnv then CleanBaseEnv stripped extra
                     else FilterChildEnv stripped [''KEYLATCH_GATEWAY_URL'', ''KEYLATCH_GATEWAY_TOKEN'', ''KEYLATCH_RUNTIME''])
     in appendOrReplace (appendOrReplace (appendOrReplace childEnv ''KEYLATCH_GATEWAY_URL'' gatewayURL)
          ''KEYLATCH_GATEWAY_TOKEN'' jwtStr) ''KEYLATCH_RUNTIME'' RuntimeGatewayTyped)"

definition sdkBaseURLVar :: "run_template \<Rightarrow> gostring" where
  "sdkBaseURLVar tmpl =
    (if rm_Provider tmpl = ''openai'' then ''OPENAI_BASE_URL''
     else if rm_Provider tmpl = ''anthropic'' then ''ANTHROPIC_BASE_URL''
     else if rm_Provider tmpl = ''openrouter'' then ''OPENROUTER_BASE_URL''
     else ToUpper (dash_to_underscore (rm_Provider tmpl)) @ ''_BASE_URL'')"

definition gatewaySdkChildEnv ::
  "gostring list \<Rightarrow> run_template \<Rightarrow> gostring \<Rightarrow> gostring \<Rightarrow> bool \<Rightarrow> gostring list \<Rightarrow> gostring list" where
  "gatewaySdkChildEnv environ tmpl baseURL jwtStr cleanEnv extra =
    (let stripped = strip_denied (map snd (rm_InjectionRules tmpl)) environ;
         childEnv = (if cleanEnv then CleanBaseEnv stripped extra
                     else FilterChildEnv stripped [''KEYLATCH_GATEWAY_TOKEN'', ''KEYLATCH_RUNTIME''])
     in appendOrReplace (appendOrReplace (appendOrReplace childEnv (sdkBaseURLVar tmpl) baseURL)
          ''KEYLATCH_GATEWAY_TOKEN'' jwtStr) ''KEYLATCH_RUNTIME'' RuntimeGatewaySDK)"

definition with_canary :: "bool \<Rightarrow> gostring option \<Rightarrow> run_template \<Rightarrow> gostring list \<Rightarrow> gostring list" where
  "with_canary enabled rnd tmpl childEnv =
    (if \<not> enabled then childEnv
     else (case BuildCanary rnd (rm_Provider tmpl) of None \<Rightarrow> childEnv
           | Some canaryToken \<Rightarrow> appendOrReplace childEnv (canary_EnvVarName (rm_Provider tmpl)) canaryToken))"

text \<open>Rules after the first get an empty value; the first rule exists.\<close>

definition brokeredChildEnv :: "gostring list \<Rightarrow> run_template \<Rightarrow> gostring \<Rightarrow> bool \<Rightarrow> gostring list \<Rightarrow> gostring list" where
  "brokeredChildEnv environ tmpl tokenStr cleanEnv extra =
    (let rules = rm_InjectionRules tmpl;
         parentEnv = environ @ [env_entry (snd (hd rules)) tokenStr] @ map (\<lambda>r. snd r @ ''='') (tl rules);
         env = (if cleanEnv then CleanBaseEnv parentEnv extra else FilterChildEnv parentEnv [])
     in env @ [env_entry ''KEYLATCH_RUNTIME'' RuntimeDirectBrokered])"

definition providerKeyDenylist :: "gostring list" where
  "providerKeyDenylist = [''OPENAI_API_KEY'', ''ANTHROPIC_API_KEY'', ''GITHUB_TOKEN'', ''STRIPE_SECRET_KEY'', ''SLACK_BOT_TOKEN'',
     ''OPENROUTER_API_KEY'', ''GOOGLE_API_KEY'', ''AZURE_OPENAI_API_KEY'', ''COHERE_API_KEY'', ''MISTRAL_API_KEY'', ''GEMINI_API_KEY'',
     ''HUGGINGFACE_TOKEN'', ''REPLICATE_API_TOKEN'', ''ELEVENLABS_API_KEY'', ''CLOUDFLARE_API_TOKEN'', ''SUPABASE_SERVICE_ROLE_KEY'',
     ''TURSO_AUTH_TOKEN'', ''PINECONE_API_KEY'', ''WEAVIATE_API_KEY'', ''RESEND_API_KEY'', ''SENDGRID_API_KEY'']"

definition credentialWords :: "gostring list" where
  "credentialWords = [''KEY'', ''TOKEN'', ''SECRET'', ''PASSWORD'', ''PASSWD'', ''CREDENTIAL'', ''CREDENTIALS'', ''PIN'']"

definition isCredentialShapedName :: "gostring \<Rightarrow> bool" where
  "isCredentialShapedName name =
    (name \<in> set providerKeyDenylist \<or> list_ex (\<lambda>w. HasSuffix (ToUpper name) w) credentialWords)"

definition proxyBaseEnv :: "lookup \<Rightarrow> gostring list" where
  "proxyBaseEnv env =
    map (\<lambda>k. env_entry k (env k)) (filter (\<lambda>k. env k \<noteq> [])
      [''PATH'', ''HOME'', ''USER'', ''TERM'', ''LANG'', ''LC_ALL'', ''TMPDIR'', ''TMP'', ''TEMP''])"

definition caEnvVars :: "gostring list" where
  "caEnvVars = [''SSL_CERT_FILE'', ''REQUESTS_CA_BUNDLE'', ''NODE_EXTRA_CA_CERTS'', ''GIT_SSL_CAINFO'']"

definition isCAEnvEntry :: "gostring \<Rightarrow> bool" where
  "isCAEnvEntry entry = list_ex (\<lambda>name. HasPrefix entry (name @ ''='')) caEnvVars"

definition InjectCAEnv :: "gostring list \<Rightarrow> gostring \<Rightarrow> bool \<Rightarrow> gostring list" where
  "InjectCAEnv env caCertPath inject =
    (if \<not> inject then env
     else filter (\<lambda>e. \<not> isCAEnvEntry e) env @ map (\<lambda>name. env_entry name caCertPath) caEnvVars)"

definition keylatchProxyEnvVars :: "gostring list" where
  "keylatchProxyEnvVars = [''KEYLATCH_GATEWAY_URL'', ''KEYLATCH_SESSION_TOKEN'', ''KEYLATCH_CA_CERT'']"

definition isKeylatchProxyEntry :: "gostring \<Rightarrow> bool" where
  "isKeylatchProxyEntry entry =
    (list_ex (\<lambda>name. HasPrefix entry (name @ ''='')) keylatchProxyEnvVars \<or> HasPrefix entry ''KEYLATCH_RUNTIME='')"

definition EnvInject :: "gostring list \<Rightarrow> gostring \<Rightarrow> gostring \<Rightarrow> gostring \<Rightarrow> gostring list" where
  "EnvInject baseEnv proxyAddr sessionToken caPath =
    (let r0 = filter (\<lambda>e. \<not> (isKeylatchProxyEntry e \<or> (caPath \<noteq> [] \<and> isCAEnvEntry e))) baseEnv;
         r1 = r0 @ [env_entry ''KEYLATCH_GATEWAY_URL'' (''http://'' @ proxyAddr), env_entry ''KEYLATCH_SESSION_TOKEN'' sessionToken];
         r2 = (if caPath \<noteq> [] then InjectCAEnv (r1 @ [env_entry ''KEYLATCH_CA_CERT'' caPath]) caPath True else r1)
     in r2 @ [''KEYLATCH_RUNTIME=gateway_proxy''])"

definition proxyChildEnv :: "lookup \<Rightarrow> gostring list \<Rightarrow> gostring \<Rightarrow> gostring \<Rightarrow> gostring \<Rightarrow> gostring list" where
  "proxyChildEnv env extra addr authToken caPath =
    EnvInject (proxyBaseEnv env @ map (\<lambda>k. env_entry k (env k)) (filter (\<lambda>k. \<not> isCredentialShapedName k \<and> env k \<noteq> []) extra))
      addr authToken caPath"

end
