(* ===== verification/Child_Env_Facts.thy ===== *)
theory Child_Env_Facts
  imports Child_Env
begin

section \<open>What a child's environment holds\<close>

text \<open>
  How each filter changes what \<open>os.Getenv\<close> sees and which entries it leaves; that the gateway drivers keep every
  provider key and every setting of Keylatch from the child; that they also take away the marks of an agent session;
  and which modes a request can resolve to.
\<close>

named_theorems envs \<open>what the filters do to a lookup\<close>

subsection \<open>Lookups\<close>

lemma entry_name_envKey: "entry_name = envKey"
  by (simp add: fun_eq_iff entry_name_def envKey_def)

lemma envKey_entry [simp]: "CHR ''='' \<notin> set k \<Longrightarrow> envKey (env_entry k v) = k"
  unfolding envKey_def env_entry_def by (subst takeWhile_append2) auto

lemma eq_in_entry [simp]: "CHR ''='' \<in> set (env_entry k v)"
  by (simp add: env_entry_def)

lemma HasPrefix_entry: "CHR ''='' \<notin> set k \<Longrightarrow> HasPrefix e (k @ ''='') \<longleftrightarrow> CHR ''='' \<in> set e \<and> envKey e = k"
proof
  assume k: "CHR ''='' \<notin> set k" and "HasPrefix e (k @ ''='')"
  then obtain r where "e = k @ CHR ''='' # r" by (auto simp: HasPrefix_prefix prefix_def)
  then show "CHR ''='' \<in> set e \<and> envKey e = k" using k
    unfolding envKey_def by (simp, subst takeWhile_append2) auto
next
  assume k: "CHR ''='' \<notin> set k" and h: "CHR ''='' \<in> set e \<and> envKey e = k"
  then obtain p r where e: "e = p @ CHR ''='' # r" "CHR ''='' \<notin> set p" by (meson split_list_first)
  then have "envKey e = p" unfolding envKey_def by (simp, subst takeWhile_append2) auto
  then show "HasPrefix e (k @ ''='')" using e h by (simp add: HasPrefix_prefix)
qed

lemma getenv_Nil [simp]: "getenv [] k = []"
  by (simp add: getenv_def)

lemma getenv_Cons: "getenv (e # env) k = (if CHR ''='' \<in> set e \<and> envKey e = k then drop (Suc (length k)) e else getenv env k)"
  by (simp add: getenv_def entry_name_envKey)

lemma getenv_filter: "(\<And>e. CHR ''='' \<in> set e \<Longrightarrow> P e \<longleftrightarrow> Q (envKey e)) \<Longrightarrow> getenv (filter P env) k = (if Q k then getenv env k else [])"
  by (induction env) (auto simp: getenv_Cons)

lemma getenv_FilterChildEnv [envs]:
  "getenv (FilterChildEnv env keep) k = (if HasPrefix k ''KEYLATCH_'' \<and> k \<notin> set keep then [] else getenv env k)"
  unfolding FilterChildEnv_def by (subst getenv_filter [where Q = "\<lambda>k. \<not> (HasPrefix k ''KEYLATCH_'' \<and> k \<notin> set keep)"]) auto

lemma getenv_CleanBaseEnv [envs]:
  "getenv (CleanBaseEnv env extra) k =
    (if k \<in> set cleanBaseVars \<or> HasPrefix k ''LC_'' \<or> k \<in> set extra then getenv env k else [])"
  unfolding CleanBaseEnv_def
  by (subst getenv_filter [where Q = "\<lambda>k. k \<in> set cleanBaseVars \<or> HasPrefix k ''LC_'' \<or> k \<in> set extra"]) auto

lemma getenv_strip_denied [envs]: "getenv (strip_denied deny env) k = (if k \<in> set deny then [] else getenv env k)"
  unfolding strip_denied_def by (subst getenv_filter [where Q = "\<lambda>k. k \<notin> set deny"]) (auto simp: envKey_def)

lemma drop_entry [simp]: "drop (Suc (length k)) (env_entry k v) = v"
  by (simp add: env_entry_def)

lemma getenv_appendOrReplace [envs]:
  "CHR ''='' \<notin> set k \<Longrightarrow> getenv (appendOrReplace env k v) j = (if j = k then v else getenv env j)"
  by (induction env) (auto simp: getenv_Cons HasPrefix_entry)

subsection \<open>Entries\<close>

text \<open>What \<open>os.Environ\<close> gives: every entry an assignment, no name twice.\<close>

definition wf_environ :: "gostring list \<Rightarrow> bool" where
  "wf_environ env \<longleftrightarrow> (\<forall>e \<in> set env. CHR ''='' \<in> set e) \<and> distinct (map envKey env)"

lemma wf_filter: "wf_environ env \<Longrightarrow> wf_environ (filter P env)"
  by (auto simp: wf_environ_def distinct_map_filter)

lemma appendOrReplace_entries:
  assumes "CHR ''='' \<notin> set k" "wf_environ env"
  shows "wf_environ (appendOrReplace env k v) \<and> set (map envKey (appendOrReplace env k v)) = insert k (set (map envKey env)) \<and>
    set (appendOrReplace env k v) = insert (env_entry k v) {e \<in> set env. envKey e \<noteq> k}"
  using assms(2)
proof (induction env)
  case (Cons e env)
  then have "CHR ''='' \<in> set e" "wf_environ env" "envKey e \<notin> envKey ` set env" by (auto simp: wf_environ_def)
  then show ?case using Cons assms(1)
    by (cases "envKey e = k") (auto simp: HasPrefix_entry wf_environ_def image_iff)
qed (use assms(1) in \<open>auto simp: wf_environ_def\<close>)

lemma wf_children: "wf_environ env \<Longrightarrow> wf_environ (FilterChildEnv env keep) \<and> wf_environ (CleanBaseEnv env extra) \<and> wf_environ (strip_denied deny env)"
  by (simp add: FilterChildEnv_def CleanBaseEnv_def strip_denied_def wf_filter)

definition gateway_entries :: "gostring \<Rightarrow> gostring \<Rightarrow> gostring \<Rightarrow> gostring set" where
  "gateway_entries url tok mode =
    {env_entry ''KEYLATCH_GATEWAY_URL'' url, env_entry ''KEYLATCH_GATEWAY_TOKEN'' tok, env_entry ''KEYLATCH_RUNTIME'' mode}"

lemma set_filters:
  "e \<in> set (FilterChildEnv env keep) \<longleftrightarrow> e \<in> set env \<and> \<not> (HasPrefix (envKey e) ''KEYLATCH_'' \<and> envKey e \<notin> set keep)"
  "e \<in> set (CleanBaseEnv env extra) \<longleftrightarrow>
    e \<in> set env \<and> (envKey e \<in> set cleanBaseVars \<or> HasPrefix (envKey e) ''LC_'' \<or> envKey e \<in> set extra)"
  "CHR ''='' \<in> set e \<Longrightarrow> e \<in> set (strip_denied deny env) \<longleftrightarrow> e \<in> set env \<and> envKey e \<notin> set deny"
  by (auto simp: FilterChildEnv_def CleanBaseEnv_def strip_denied_def envKey_def)

lemma base_names_no_setting: "k \<in> set cleanBaseVars \<or> HasPrefix k ''LC_'' \<Longrightarrow> \<not> HasPrefix k ''KEYLATCH_''"
  by (cases k) (auto simp: HasPrefix_def cleanBaseVars_def)

lemma typed_base:
  fixes clean :: bool and deny extra keep :: "gostring list"
  assumes "wf_environ environ"
  defines "base \<equiv> (if clean then CleanBaseEnv (strip_denied deny environ) extra else FilterChildEnv (strip_denied deny environ) keep)"
  shows "wf_environ base"
    and "e \<in> set base \<Longrightarrow> e \<in> set environ \<and> envKey e \<notin> set deny \<and>
    (HasPrefix (envKey e) ''KEYLATCH_'' \<longrightarrow> (if clean then envKey e \<in> set extra else envKey e \<in> set keep))"
proof -
  have w: "wf_environ (strip_denied deny environ)" using wf_children [OF assms(1)] by blast
  then show "wf_environ base" using wf_children unfolding base_def by (auto split: if_splits)
  assume e: "e \<in> set base"
  then have s: "e \<in> set (strip_denied deny environ)" unfolding base_def by (auto simp: set_filters split: if_splits)
  then have "CHR ''='' \<in> set e" using w by (simp add: wf_environ_def)
  with s have "e \<in> set environ \<and> envKey e \<notin> set deny" by (simp add: set_filters)
  with e show "e \<in> set environ \<and> envKey e \<notin> set deny \<and>
    (HasPrefix (envKey e) ''KEYLATCH_'' \<longrightarrow> (if clean then envKey e \<in> set extra else envKey e \<in> set keep))"
    unfolding base_def using base_names_no_setting by (auto simp: set_filters split: if_splits)
qed

text \<open>The child of the typed gateway gets no variable a provider's key is injected under and no setting of
  Keylatch except the three of the gateway, with the values this run gives them; everything else comes from the
  parent unchanged. (With a clean environment an operator can ask for a setting by name.)\<close>

theorem typed_child_env_clean:
  assumes "wf_environ environ"
    and "child = gatewayTypedChildEnv environ tmpl url tok clean extra"
  shows "wf_environ child \<and>
    (\<forall>e \<in> set child. e \<in> gateway_entries url tok RuntimeGatewayTyped \<or>
       (e \<in> set environ \<and> envKey e \<notin> snd ` set (rm_InjectionRules tmpl) \<and>
        (HasPrefix (envKey e) ''KEYLATCH_'' \<longrightarrow> clean \<and> envKey e \<in> set extra)))"
proof -
  define base where "base = (if clean then CleanBaseEnv (strip_denied (map snd (rm_InjectionRules tmpl)) environ) extra
    else FilterChildEnv (strip_denied (map snd (rm_InjectionRules tmpl)) environ) [''KEYLATCH_GATEWAY_URL'', ''KEYLATCH_GATEWAY_TOKEN'', ''KEYLATCH_RUNTIME''])"
  note b = typed_base [OF assms(1), where clean = clean and deny = "map snd (rm_InjectionRules tmpl)" and extra = extra and keep =
      "[''KEYLATCH_GATEWAY_URL'', ''KEYLATCH_GATEWAY_TOKEN'', ''KEYLATCH_RUNTIME'']", folded base_def]
  note e1 = appendOrReplace_entries [of "''KEYLATCH_GATEWAY_URL''" base url]
  note e2 = appendOrReplace_entries [of "''KEYLATCH_GATEWAY_TOKEN''" "appendOrReplace base ''KEYLATCH_GATEWAY_URL'' url" tok]
  note e3 = appendOrReplace_entries [of "''KEYLATCH_RUNTIME''"
      "appendOrReplace (appendOrReplace base ''KEYLATCH_GATEWAY_URL'' url) ''KEYLATCH_GATEWAY_TOKEN'' tok" RuntimeGatewayTyped]
  have c: "child = appendOrReplace (appendOrReplace (appendOrReplace base ''KEYLATCH_GATEWAY_URL'' url)
          ''KEYLATCH_GATEWAY_TOKEN'' tok) ''KEYLATCH_RUNTIME'' RuntimeGatewayTyped"
    by (simp add: assms(2) gatewayTypedChildEnv_def base_def)
  have w: "wf_environ child" unfolding c using b e1 e2 e3 by simp
  have s: "set child = gateway_entries url tok RuntimeGatewayTyped \<union>
      {e \<in> set base. envKey e \<notin> {''KEYLATCH_GATEWAY_URL'', ''KEYLATCH_GATEWAY_TOKEN'', ''KEYLATCH_RUNTIME''}}"
    unfolding c using b e1 e2 e3 by (auto simp: gateway_entries_def)
  have "e \<in> set environ \<and> envKey e \<notin> snd ` set (rm_InjectionRules tmpl) \<and>
      (HasPrefix (envKey e) ''KEYLATCH_'' \<longrightarrow> clean \<and> envKey e \<in> set extra)"
    if "e \<in> set base" "envKey e \<notin> {''KEYLATCH_GATEWAY_URL'', ''KEYLATCH_GATEWAY_TOKEN'', ''KEYLATCH_RUNTIME''}" for e
    using b(2) [OF that(1)] that(2) by (cases clean) auto
  then show ?thesis using w unfolding s by blast
qed

definition sample_run_template :: run_template where
  "sample_run_template = \<lparr>rm_Provider = ''openai'', rm_Category = ''llm'', rm_Preferred = RuntimeGatewayTyped,
     rm_Supported = [RuntimeGatewayTyped, RuntimeDirectBrokered], rm_InjectionRules = [(''token'', ''OPENAI_API_KEY'')],
     rm_AllowedCommandPrefixes = []\<rparr>"

definition sample_environ :: "gostring list" where
  "sample_environ = [''PATH=/bin'', ''OPENAI_API_KEY=k'', ''KEYLATCH_GATEWAY_URL=old'', ''KEYLATCH_MODE=canary'']"

theorem typed_child_env_clean_witness:
  "wf_environ (gatewayTypedChildEnv sample_environ sample_run_template ''u'' ''t'' False []) \<and>
   {''OPENAI_API_KEY=k'', ''KEYLATCH_GATEWAY_URL=old'', ''KEYLATCH_MODE=canary''} \<inter>
     set (gatewayTypedChildEnv sample_environ sample_run_template ''u'' ''t'' False []) = {}"
proof -
  have w: "wf_environ sample_environ" by (simp add: wf_environ_def sample_environ_def envKey_def)
  define child where "child = gatewayTypedChildEnv sample_environ sample_run_template ''u'' ''t'' False []"
  note clean = typed_child_env_clean [OF w child_def]
  have e: "envKey ''OPENAI_API_KEY=k'' = ''OPENAI_API_KEY''" "envKey ''KEYLATCH_GATEWAY_URL=old'' = ''KEYLATCH_GATEWAY_URL''"
    "envKey ''KEYLATCH_MODE=canary'' = ''KEYLATCH_MODE''" by (simp_all add: envKey_def)
  have p: "HasPrefix ''KEYLATCH_GATEWAY_URL'' ''KEYLATCH_''" "HasPrefix ''KEYLATCH_MODE'' ''KEYLATCH_''"
    by (simp_all add: HasPrefix_def)
  have g: "''OPENAI_API_KEY=k'' \<notin> gateway_entries ''u'' ''t'' RuntimeGatewayTyped"
      "''KEYLATCH_GATEWAY_URL=old'' \<notin> gateway_entries ''u'' ''t'' RuntimeGatewayTyped"
      "''KEYLATCH_MODE=canary'' \<notin> gateway_entries ''u'' ''t'' RuntimeGatewayTyped"
    by (simp_all add: gateway_entries_def env_entry_def RuntimeGatewayTyped_def)
  have r: "snd ` set (rm_InjectionRules sample_run_template) = {''OPENAI_API_KEY''}" by (simp add: sample_run_template_def)
  have kept_out: "x \<notin> set child" if "x \<notin> gateway_entries ''u'' ''t'' RuntimeGatewayTyped"
      "envKey x \<in> snd ` set (rm_InjectionRules sample_run_template) \<or> HasPrefix (envKey x) ''KEYLATCH_''" for x
    using conjunct2 [OF clean] that by blast
  have "''OPENAI_API_KEY=k'' \<notin> set child" by (rule kept_out [OF g(1)]) (simp only: e r, simp)
  moreover have "''KEYLATCH_GATEWAY_URL=old'' \<notin> set child" by (rule kept_out [OF g(2)]) (simp only: e p simp_thms)
  moreover have "''KEYLATCH_MODE=canary'' \<notin> set child" by (rule kept_out [OF g(3)]) (simp only: e p simp_thms)
  ultimately show ?thesis unfolding child_def [symmetric] using conjunct1 [OF clean] by blast
qed

subsection \<open>The marks of a session\<close>

lemma wf_no_repeat: "CHR ''='' \<notin> set k \<Longrightarrow> getenv (env_entry k v # env) k = v"
  by (simp add: getenv_Cons)

lemma gateway_names_no_eq [simp]: "CHR ''='' \<notin> set ''KEYLATCH_GATEWAY_URL''" "CHR ''='' \<notin> set ''KEYLATCH_GATEWAY_TOKEN''"
    "CHR ''='' \<notin> set ''KEYLATCH_RUNTIME''"
  by simp_all

lemma signal_names:
  assumes "s \<in> set env_signals"
  shows "HasPrefix (es_Name s) ''KEYLATCH_'' \<longleftrightarrow> es_Name s = ManualLabel"
    and "es_Name s \<notin> {''KEYLATCH_GATEWAY_URL'', ''KEYLATCH_GATEWAY_TOKEN'', ''KEYLATCH_RUNTIME''}"
proof -
  have "\<forall>s \<in> set env_signals. (HasPrefix (es_Name s) ''KEYLATCH_'' \<longleftrightarrow> es_Name s = ManualLabel) \<and>
      es_Name s \<notin> {''KEYLATCH_GATEWAY_URL'', ''KEYLATCH_GATEWAY_TOKEN'', ''KEYLATCH_RUNTIME''}"
    by code_simp
  then show "HasPrefix (es_Name s) ''KEYLATCH_'' \<longleftrightarrow> es_Name s = ManualLabel"
    and "es_Name s \<notin> {''KEYLATCH_GATEWAY_URL'', ''KEYLATCH_GATEWAY_TOKEN'', ''KEYLATCH_RUNTIME''}"
    using assms by blast+
qed

lemma getenv_typed_child:
  "getenv (gatewayTypedChildEnv environ tmpl url tok False extra) k =
    (if k = ''KEYLATCH_RUNTIME'' then RuntimeGatewayTyped else if k = ''KEYLATCH_GATEWAY_TOKEN'' then tok
     else if k = ''KEYLATCH_GATEWAY_URL'' then url
     else if HasPrefix k ''KEYLATCH_'' \<or> k \<in> set (map snd (rm_InjectionRules tmpl)) then [] else getenv environ k)"
  unfolding gatewayTypedChildEnv_def Let_def
  by (simp only: getenv_appendOrReplace gateway_names_no_eq not_False_eq_True if_False getenv_FilterChildEnv getenv_strip_denied)
    auto

text \<open>A command run through the typed gateway cannot learn from its environment that it is part of an agent session:
  the ticket that \<open>launch\<close> signed and the manual label are both settings of Keylatch, so the filter takes them from the
  child. In the child a session is what the signals of the other tools and the ancestors say, and nothing else; a session
  that only the ticket or the label mark is found in the parent and not in the child.\<close>

theorem run_drops_session_marks:
  "IsLLMSession S (getenv (gatewayTypedChildEnv environ tmpl url tok False extra)) \<longleftrightarrow>
    (\<exists>s \<in> set env_signals. es_Name s \<noteq> ManualLabel \<and> es_Name s \<notin> snd ` set (rm_InjectionRules tmpl) \<and>
       fires_in (getenv environ) s) \<or>
    (sn_Ancestry S \<and> known_executable (sn_Chain S))"
proof -
  let ?c = "gatewayTypedChildEnv environ tmpl url tok False extra"
  have "getenv ?c TicketEnv = []" unfolding getenv_typed_child by (simp add: TicketEnv_def HasPrefix_def)
  moreover have "fires_in (getenv ?c) s \<longleftrightarrow> es_Name s \<noteq> ManualLabel \<and> es_Name s \<notin> snd ` set (rm_InjectionRules tmpl) \<and>
      fires_in (getenv environ) s" if "s \<in> set env_signals" for s
    using signal_names [OF that] unfolding fires_in_def getenv_typed_child by simp
  ultimately show ?thesis unfolding IsLLMSession_iff by blast
qed

subsection \<open>A clean environment and a brokered token\<close>

text \<open>What a process sees of a list with repetitions: \<open>os/exec\<close> keeps the last entry of a name.\<close>

lemma getenv_append: "getenv (xs @ ys) k = (if k \<in> set (map envKey (filter (\<lambda>e. CHR ''='' \<in> set e) xs)) then getenv xs k else getenv ys k)"
  by (induction xs) (auto simp: getenv_Cons)

lemma getenv_absent: "k \<notin> set (map envKey env) \<Longrightarrow> getenv env k = []"
  by (induction env) (auto simp: getenv_Cons)

lemma rev_filters:
  "rev (FilterChildEnv env keep) = FilterChildEnv (rev env) keep"
  "rev (CleanBaseEnv env extra) = CleanBaseEnv (rev env) extra"
  by (simp_all add: FilterChildEnv_def CleanBaseEnv_def rev_filter)

text \<open>The brokered driver adds the token to the parent's environment before it filters. Without a clean environment
  the child sees the token under the variable of the first rule. With one, the variable is not of the base set, so
  unless the operator names it among the extras the child runs with no token at all.\<close>

theorem brokered_clean_env_drops_token:
  assumes rules: "rm_InjectionRules tmpl = (src, var) # rest" and "CHR ''='' \<notin> set var"
    and "var \<notin> set cleanBaseVars" "\<not> HasPrefix var ''LC_''" "\<not> HasPrefix var ''KEYLATCH_''"
    and "\<forall>r \<in> set rest. envKey (snd r @ ''='') \<noteq> var"
  shows "getenv (rev (brokeredChildEnv environ tmpl tok False extra)) var = tok \<and>
    getenv (rev (brokeredChildEnv environ tmpl tok True extra)) var = (if var \<in> set extra then tok else [])"
proof -
  define par where "par = environ @ [env_entry var tok] @ map (\<lambda>r. snd r @ ''='') rest"
  have r: "rev par = map (\<lambda>r. snd r @ ''='') (rev rest) @ env_entry var tok # rev environ" by (simp add: par_def rev_map)
  have "var \<notin> set (map envKey (map (\<lambda>r. snd r @ ''='') (rev rest)))" using assms(6) by auto
  then have p: "getenv (rev par) var = tok" unfolding r getenv_append using assms(2) by (auto simp: wf_no_repeat)
  have n: "var \<noteq> ''KEYLATCH_RUNTIME''" using assms(5) by (auto simp: HasPrefix_def)
  have c: "brokeredChildEnv environ tmpl tok clean extra =
      (if clean then CleanBaseEnv par extra else FilterChildEnv par []) @ [env_entry ''KEYLATCH_RUNTIME'' RuntimeDirectBrokered]" for clean
    by (simp add: brokeredChildEnv_def par_def rules)
  show ?thesis
    unfolding c rev_append rev.simps append_Nil using n assms p
    by (simp add: getenv_Cons rev_filters getenv_FilterChildEnv getenv_CleanBaseEnv)
qed

theorem brokered_clean_env_drops_token_witness:
  "getenv (rev (brokeredChildEnv sample_environ sample_run_template ''t'' False [])) ''OPENAI_API_KEY'' = ''t'' \<and>
   getenv (rev (brokeredChildEnv sample_environ sample_run_template ''t'' True [])) ''OPENAI_API_KEY'' = []"
  using brokered_clean_env_drops_token [of sample_run_template "''token''" "''OPENAI_API_KEY''" "[]" sample_environ "''t''" "[]"]
  by (simp add: sample_run_template_def cleanBaseVars_def HasPrefix_def)

subsection \<open>Which mode a request gets\<close>

lemma shapeFor_raw: "shapeFor m = Some shape \<Longrightarrow> m \<in> set AllModes \<and> removedModes m = None \<and> (IsRawCredentialMode m \<longleftrightarrow> shape \<noteq> DeliveryKeylatchSessionToken)"
  by (auto simp: shapeFor_def AllModes_def removedModes_def IsRawCredentialMode_def runtime_names split: if_splits)

lemma decide_mode_Inr: "decide_mode m why = Inr d \<longleftrightarrow> (\<exists>shape. shapeFor m = Some shape \<and> d = \<lparr>rd_Mode = m, rd_Reason = why, rd_CredentialShape = shape\<rparr>)"
  by (auto simp: decide_mode_def split: option.splits)

text \<open>Resolving a mode gives one the provider supports, that exists and that was not removed; the one requested when
  one was. A mode that hands the child a provider's own credential is labelled as such, and the one that hands it
  the root credential is never chosen unless the request or the template names it.\<close>

theorem resolve_mode_exact:
  assumes "runtime_Resolve requested tmpl = Inr d"
  shows "rd_Mode d \<in> set AllModes \<and> supportedSet tmpl (rd_Mode d) \<and> IsRemovedMode (rd_Mode d) = None \<and>
    (requested \<noteq> [] \<longrightarrow> rd_Mode d = requested) \<and>
    (IsRawCredentialMode (rd_Mode d) \<longleftrightarrow> rd_CredentialShape d \<noteq> DeliveryKeylatchSessionToken) \<and>
    (rd_Mode d = RuntimeDirectClassicSandboxed \<longrightarrow> requested = rd_Mode d \<or> rm_Preferred tmpl = rd_Mode d)"
proof -
  obtain m why shape where d: "d = \<lparr>rd_Mode = m, rd_Reason = why, rd_CredentialShape = shape\<rparr>" and s: "shapeFor m = Some shape"
    and m: "supportedSet tmpl m" "requested \<noteq> [] \<longrightarrow> m = requested" "requested = m \<or> rm_Preferred tmpl = m \<or> m \<in> set fallbackModes"
    using assms unfolding runtime_Resolve_def
    by (auto simp: decide_mode_Inr find_Some_iff split: option.splits if_splits)
  have "RuntimeDirectClassicSandboxed \<notin> set fallbackModes" by (simp add: fallbackModes_def runtime_names)
  with shapeFor_raw [OF s] m show ?thesis by (auto simp: d IsRemovedMode_def)
qed

theorem resolve_mode_exact_witness:
  "rd_Mode \<lparr>rd_Mode = RuntimeGatewayTyped, rd_Reason = ProviderPreferred, rd_CredentialShape = DeliveryKeylatchSessionToken\<rparr> \<in> set AllModes"
proof -
  have "runtime_Resolve [] sample_run_template =
      Inr \<lparr>rd_Mode = RuntimeGatewayTyped, rd_Reason = ProviderPreferred, rd_CredentialShape = DeliveryKeylatchSessionToken\<rparr>"
    by (simp add: runtime_Resolve_def sample_run_template_def supportedSet_def decide_mode_def shapeFor_def runtime_names)
  from resolve_mode_exact [OF this] show ?thesis by simp
qed

end
