(* ===== verification/Edit_Distance.thy ===== *)
theory Edit_Distance
  imports Json_Canonical
begin

section \<open>Spelling suggestions (\<open>internal/cmderr\<close>, \<open>internal/cli/guard_runtime.go\<close>)\<close>

text \<open>
  Two implementations of the edit distance: \<open>levenshtein\<close> of \<open>guard_runtime.go\<close> keeps one row that it updates in
  place, \<open>Distance\<close> of \<open>cmderr/levenshtein.go\<close> two rows that change places. Both are specified by alignments: a way
  of turning one string into the other by keeping, replacing, deleting and inserting characters, whose cost
  is the number of the last three.
\<close>

subsection \<open>One row in place\<close>

text \<open>The inner loop at \<open>j\<close>: the row and \<open>prev\<close>.\<close>

definition row_step :: "'a \<Rightarrow> 'a list \<Rightarrow> nat \<Rightarrow> nat list \<times> nat \<Rightarrow> nat list \<times> nat" where
  "row_step c b j rp =
    (case rp of (row, prev) \<Rightarrow>
      (row[j := (if c = b ! (j - 1) then prev else 1 + min prev (min (row ! j) (row ! (j - 1))))], row ! j))"

definition next_row :: "'a list \<Rightarrow> 'a list \<Rightarrow> nat \<Rightarrow> nat list \<Rightarrow> nat list" where
  "next_row a b i row = fst (fold (row_step (a ! (i - 1)) b) [1..<Suc (length b)] (row[0 := i], row ! 0))"

definition levenshtein :: "'a list \<Rightarrow> 'a list \<Rightarrow> nat" where
  "levenshtein a b =
    (if length a = 0 then length b
     else if length b = 0 then length a
     else fold (next_row a b) [1..<Suc (length a)] [0..<Suc (length b)] ! length b)"

subsection \<open>Two rows\<close>

definition min3 :: "nat \<Rightarrow> nat \<Rightarrow> nat \<Rightarrow> nat" where
  "min3 a b c = (if a < b then (if a < c then a else c) else if b < c then b else c)"

definition curr_step :: "'a list \<Rightarrow> 'a \<Rightarrow> nat list \<Rightarrow> nat \<Rightarrow> nat list \<Rightarrow> nat list" where
  "curr_step ra c prev i cur =
    cur[i := min3 (prev ! i + 1) (cur ! (i - 1) + 1) (prev ! (i - 1) + (if ra ! (i - 1) = c then 0 else 1))]"

definition swap_step :: "'a list \<Rightarrow> 'a list \<Rightarrow> nat \<Rightarrow> nat list \<times> nat list \<Rightarrow> nat list \<times> nat list" where
  "swap_step ra rb j pc =
    (case pc of (prev, cur) \<Rightarrow>
      (fold (curr_step ra (rb ! (j - 1)) prev) [1..<Suc (length ra)] (cur[0 := j]), prev))"

definition distance_rows :: "'a list \<Rightarrow> 'a list \<Rightarrow> nat" where
  "distance_rows ra rb =
    fst (fold (swap_step ra rb) [1..<Suc (length rb)] ([0..<Suc (length ra)], replicate (Suc (length ra)) 0)) ! length ra"

definition Distance :: "gostring \<Rightarrow> gostring \<Rightarrow> nat" where
  "Distance a b =
    (let ra = map fst (runes a); rb = map fst (runes b) in
     if length ra = 0 then length rb
     else if length rb = 0 then length ra
     else if length ra > length rb then distance_rows rb ra
     else distance_rows ra rb)"

fun suggest_from :: "gostring \<Rightarrow> nat \<Rightarrow> gostring \<Rightarrow> nat \<Rightarrow> gostring list \<Rightarrow> gostring" where
  "suggest_from input threshold best bestDist [] = best"
| "suggest_from input threshold best bestDist (slug # slugs) =
    (if slug = input then []
     else (let d = Distance input slug in
           if d \<le> threshold \<and> d < bestDist then suggest_from input threshold slug d slugs
           else suggest_from input threshold best bestDist slugs))"

definition SuggestProvider :: "gostring \<Rightarrow> gostring list \<Rightarrow> nat \<Rightarrow> gostring" where
  "SuggestProvider input knownSlugs threshold = suggest_from input threshold [] (threshold + 1) knownSlugs"

subsection \<open>Alignments\<close>

inductive aligned :: "nat \<Rightarrow> 'a list \<Rightarrow> 'a list \<Rightarrow> bool" where
  al_nil: "aligned 0 [] []"
| al_keep: "aligned n xs ys \<Longrightarrow> aligned n (xs @ [x]) (ys @ [x])"
| al_replace: "aligned n xs ys \<Longrightarrow> aligned (Suc n) (xs @ [x]) (ys @ [y])"
| al_delete: "aligned n xs ys \<Longrightarrow> aligned (Suc n) (xs @ [x]) ys"
| al_insert: "aligned n xs ys \<Longrightarrow> aligned (Suc n) xs (ys @ [y])"

definition best_alignment :: "'a list \<Rightarrow> 'a list \<Rightarrow> nat \<Rightarrow> bool" where
  "best_alignment xs ys n \<longleftrightarrow> aligned n xs ys \<and> (\<forall>m. aligned m xs ys \<longrightarrow> n \<le> m)"

lemma aligned_sym: "aligned n xs ys \<Longrightarrow> aligned n ys xs"
  by (induction rule: aligned.induct) (auto intro: aligned.intros)

lemma best_alignment_sym: "best_alignment xs ys n \<Longrightarrow> best_alignment ys xs n"
  unfolding best_alignment_def using aligned_sym by blast

lemma best_alignment_unique: "best_alignment xs ys n \<Longrightarrow> best_alignment xs ys m \<Longrightarrow> n = m"
  unfolding best_alignment_def by (meson le_antisym)

lemma aligned_delete_all: "aligned (length xs) xs []"
  by (induction xs rule: rev_induct) (auto intro: aligned.intros)

lemma aligned_length: "aligned n xs ys \<Longrightarrow> length xs \<le> length ys + n \<and> length ys \<le> length xs + n"
  by (induction rule: aligned.induct) auto

lemma best_Nil_right: "best_alignment xs [] (length xs)"
  using aligned_delete_all aligned_length by (fastforce simp: best_alignment_def)

lemma best_Nil_left: "best_alignment [] ys (length ys)"
  using best_Nil_right best_alignment_sym by blast

lemma aligned_drop_left: "aligned n zs ys \<Longrightarrow> zs = xs @ [x] \<Longrightarrow> \<exists>m \<le> Suc n. aligned m xs ys"
proof (induction arbitrary: xs x rule: aligned.induct)
  case (al_keep n us vs u)
  then have "aligned (Suc n) xs (vs @ [u])" by (auto intro: aligned.al_insert)
  then show ?case by blast
next
  case (al_replace n us vs u v)
  then have "aligned (Suc n) xs (vs @ [v])" by (auto intro: aligned.al_insert)
  then show ?case by (meson le_SucI order_refl)
next
  case (al_delete n us vs u)
  then show ?case by (auto intro: exI [of _ n])
next
  case (al_insert n us vs v)
  then obtain m where "m \<le> Suc n" "aligned m xs vs" by blast
  then have "aligned (Suc m) xs (vs @ [v])" by (blast intro: aligned.al_insert)
  then show ?case using \<open>m \<le> Suc n\<close> by (meson Suc_le_mono)
qed simp

lemma aligned_drop_right: "aligned n xs (ys @ [y]) \<Longrightarrow> \<exists>m \<le> Suc n. aligned m xs ys"
proof -
  assume "aligned n xs (ys @ [y])"
  from aligned_drop_left [OF aligned_sym [OF this] refl] obtain m where "m \<le> Suc n" "aligned m ys xs" by blast
  then show ?thesis using aligned_sym by (intro exI [of _ m]) simp
qed

lemma aligned_snoc_cases:
  assumes "aligned n (xs @ [x]) (ys @ [y])"
  shows "(x = y \<and> aligned n xs ys) \<or> (\<exists>m. n = Suc m \<and> (aligned m xs ys \<or> aligned m xs (ys @ [y]) \<or> aligned m (xs @ [x]) ys))"
  using assms by (cases rule: aligned.cases) auto

lemma best_same:
  assumes "best_alignment xs ys n"
  shows "best_alignment (xs @ [x]) (ys @ [x]) n"
proof -
  have "n \<le> k" if a: "aligned k (xs @ [x]) (ys @ [x])" for k
  proof -
    have "\<exists>m \<le> k. aligned m xs ys"
      using aligned_snoc_cases [OF a] aligned_drop_left [OF _ refl, of _ xs x ys] aligned_drop_right [of _ xs ys x]
      by (auto intro: le_SucI)
    then show ?thesis using assms by (auto simp: best_alignment_def intro: order_trans)
  qed
  then show ?thesis using assms by (auto simp: best_alignment_def intro: aligned.al_keep)
qed

lemma best_snoc:
  assumes "best_alignment xs ys d" "best_alignment (xs @ [x]) ys u" "best_alignment xs (ys @ [y]) v"
  shows "best_alignment (xs @ [x]) (ys @ [y]) (min (min (Suc u) (Suc v)) (d + (if x = y then 0 else 1)))"
proof -
  let ?m = "min (min (Suc u) (Suc v)) (d + (if x = y then 0 else 1))"
  have "aligned ?m (xs @ [x]) (ys @ [y])"
  proof -
    have "aligned (Suc u) (xs @ [x]) (ys @ [y])" "aligned (Suc v) (xs @ [x]) (ys @ [y])"
      "aligned (d + (if x = y then 0 else 1)) (xs @ [x]) (ys @ [y])"
      using assms by (auto simp: best_alignment_def intro: aligned.intros)
    then show ?thesis by (auto simp: min_def)
  qed
  moreover have "?m \<le> k" if "aligned k (xs @ [x]) (ys @ [y])" for k
    using aligned_snoc_cases [OF that] assms by (fastforce simp: best_alignment_def)
  ultimately show ?thesis by (auto simp: best_alignment_def)
qed

subsection \<open>The rows hold the cells\<close>

fun cell :: "'a list \<Rightarrow> 'a list \<Rightarrow> nat \<Rightarrow> nat \<Rightarrow> nat" where
  "cell a b 0 j = j"
| "cell a b (Suc i) 0 = Suc i"
| "cell a b (Suc i) (Suc j) =
    min (min (Suc (cell a b (Suc i) j)) (Suc (cell a b i (Suc j)))) (cell a b i j + (if a ! i = b ! j then 0 else 1))"

lemma best_cell: "i \<le> length a \<Longrightarrow> j \<le> length b \<Longrightarrow> best_alignment (take i a) (take j b) (cell a b i j)"
proof (induction a b i j rule: cell.induct)
  case (1 a b j)
  then show ?case using best_Nil_left [of "take j b"] by (simp add: min_absorb2)
next
  case (2 a b i)
  then show ?case using best_Nil_right [of "take (Suc i) a"] by (simp add: min_absorb2)
next
  case (3 a b i j)
  have e: "take (Suc i) a = take i a @ [a ! i]" "take (Suc j) b = take j b @ [b ! j]"
    using 3(4,5) by (simp_all add: take_Suc_conv_app_nth)
  have "best_alignment (take i a) (take j b) (cell a b i j)" "best_alignment (take i a @ [a ! i]) (take j b) (cell a b (Suc i) j)"
    "best_alignment (take i a) (take j b @ [b ! j]) (cell a b i (Suc j))"
    using 3 by (simp_all add: e [symmetric])
  from best_snoc [OF this] show ?case by (simp add: e)
qed

lemma cell_same: "i < length a \<Longrightarrow> j < length b \<Longrightarrow> a ! i = b ! j \<Longrightarrow> cell a b (Suc i) (Suc j) = cell a b i j"
  using best_same [OF best_cell [of i a j b], of "a ! i"] best_cell [of "Suc i" a "Suc j" b]
  by (auto simp: take_Suc_conv_app_nth intro: best_alignment_unique)

lemma cell_full: "best_alignment a b (cell a b (length a) (length b))"
  using best_cell [of "length a" a "length b" b] by simp

lemma next_row_inner:
  assumes "i < length a" "k \<le> length b" "row = map (cell a b i) [0..<Suc (length b)]"
  shows "fold (row_step (a ! i) b) [1..<Suc k] (row[0 := Suc i], row ! 0) =
    (map (\<lambda>j. if j \<le> k then cell a b (Suc i) j else cell a b i j) [0..<Suc (length b)], cell a b i k)"
  using assms(2)
proof (induction k)
  case 0
  show ?case unfolding assms(3)
    by (auto intro!: nth_equalityI simp: nth_list_update nth_append simp del: upt_Suc)
next
  case (Suc k)
  let ?r = "map (\<lambda>j. if j \<le> k then cell a b (Suc i) j else cell a b i j) [0..<Suc (length b)]"
  have u: "[1..<Suc (Suc k)] = [1..<Suc k] @ [Suc k]" by simp
  have n: "?r ! Suc k = cell a b i (Suc k)" "?r ! k = cell a b (Suc i) k"
    using Suc.prems by (simp_all del: upt_Suc)
  have c: "(if a ! i = b ! k then cell a b i k else 1 + min (cell a b i k) (min (cell a b i (Suc k)) (cell a b (Suc i) k))) =
      cell a b (Suc i) (Suc k)"
    using cell_same [of i a k b] assms(1) Suc.prems by auto
  have "row_step (a ! i) b (Suc k) (?r, cell a b i k) = (?r[Suc k := cell a b (Suc i) (Suc k)], cell a b i (Suc k))"
    unfolding row_step_def prod.case n c [symmetric] by (simp only: n diff_Suc_1)
  moreover have "?r[Suc k := cell a b (Suc i) (Suc k)] =
      map (\<lambda>j. if j \<le> Suc k then cell a b (Suc i) j else cell a b i j) [0..<Suc (length b)]"
    by (rule nth_equalityI) (auto simp: nth_list_update le_Suc_eq simp del: upt_Suc cell.simps)
  ultimately show ?case
    unfolding u fold_append comp_def using Suc by simp
qed

lemma next_row_cells:
  "i < length a \<Longrightarrow> next_row a b (Suc i) (map (cell a b i) [0..<Suc (length b)]) = map (cell a b (Suc i)) [0..<Suc (length b)]"
  unfolding next_row_def diff_Suc_1
  by (subst next_row_inner [OF _ order_refl refl]) (auto simp del: upt_Suc cell.simps)

lemma rows_cells: "k \<le> length a \<Longrightarrow> fold (next_row a b) [1..<Suc k] [0..<Suc (length b)] = map (cell a b k) [0..<Suc (length b)]"
proof (induction k)
  case 0
  then show ?case by (auto intro!: nth_equalityI simp del: upt_Suc)
next
  case (Suc k)
  have "[1..<Suc (Suc k)] = [1..<Suc k] @ [Suc k]" by simp
  then show ?case using Suc next_row_cells [of k a b] by (simp del: upt_Suc cell.simps)
qed

lemma levenshtein_best: "best_alignment a b (levenshtein a b)"
proof (cases "a = [] \<or> b = []")
  case True
  then show ?thesis using best_Nil_left [of b] best_Nil_right [of a] by (auto simp: levenshtein_def)
next
  case False
  then have "levenshtein a b = cell a b (length a) (length b)"
    unfolding levenshtein_def rows_cells [OF order_refl] by (simp del: upt_Suc)
  then show ?thesis using cell_full by simp
qed

lemma min3_min: "min3 a b c = min (min a b) c"
  by (simp add: min3_def)

lemma curr_cells:
  assumes "k \<le> length ra" "prev = map (\<lambda>i. cell ra rb i j) [0..<Suc (length ra)]" "length cur = Suc (length ra)"
  shows "length (fold (curr_step ra (rb ! j) prev) [1..<Suc k] (cur[0 := Suc j])) = Suc (length ra) \<and>
    (\<forall>i \<le> k. fold (curr_step ra (rb ! j) prev) [1..<Suc k] (cur[0 := Suc j]) ! i = cell ra rb i (Suc j))"
  using assms(1)
proof (induction k)
  case 0
  then show ?case using assms(3) by simp
next
  case (Suc k)
  let ?c = "fold (curr_step ra (rb ! j) prev) [1..<Suc k] (cur[0 := Suc j])"
  have u: "[1..<Suc (Suc k)] = [1..<Suc k] @ [Suc k]" by simp
  have l: "length ?c = Suc (length ra)" and v: "\<And>i. i \<le> k \<Longrightarrow> ?c ! i = cell ra rb i (Suc j)"
    using Suc by auto
  have p: "prev ! Suc k = cell ra rb (Suc k) j" "prev ! k = cell ra rb k j"
    using assms(2) Suc.prems by (simp_all del: upt_Suc cell.simps)
  have "curr_step ra (rb ! j) prev (Suc k) ?c = ?c[Suc k := cell ra rb (Suc k) (Suc j)]"
    unfolding curr_step_def diff_Suc_1 min3_min p v [OF order_refl] by simp
  then show ?case unfolding u fold_append comp_def
    using l v Suc.prems by (auto simp: nth_list_update le_Suc_eq simp del: cell.simps)
qed

lemma swap_cells:
  assumes "length cur = Suc (length ra)"
  shows "\<exists>cur'. swap_step ra rb (Suc j) (map (\<lambda>i. cell ra rb i j) [0..<Suc (length ra)], cur) =
    (map (\<lambda>i. cell ra rb i (Suc j)) [0..<Suc (length ra)], cur') \<and> length cur' = Suc (length ra)"
proof -
  note c = curr_cells [OF order_refl refl assms, of rb j]
  have "fold (curr_step ra (rb ! j) (map (\<lambda>i. cell ra rb i j) [0..<Suc (length ra)])) [1..<Suc (length ra)] (cur[0 := Suc j]) =
      map (\<lambda>i. cell ra rb i (Suc j)) [0..<Suc (length ra)]"
    using c by (intro nth_equalityI) (auto simp del: upt_Suc cell.simps)
  then show ?thesis by (simp add: swap_step_def del: upt_Suc cell.simps)
qed

lemma swaps_cells:
  "\<exists>cur'. fold (swap_step ra rb) [1..<Suc k] ([0..<Suc (length ra)], replicate (Suc (length ra)) 0) =
    (map (\<lambda>i. cell ra rb i k) [0..<Suc (length ra)], cur') \<and> length cur' = Suc (length ra)"
proof (induction k)
  case 0
  have "cell ra rb i 0 = i" for i by (cases i) auto
  then show ?case by (auto intro!: nth_equalityI simp del: upt_Suc)
next
  case (Suc k)
  have u: "[1..<Suc (Suc k)] = [1..<Suc k] @ [Suc k]" by simp
  show ?case using Suc swap_cells unfolding u fold_append comp_def by (fastforce simp del: upt_Suc)
qed

lemma distance_rows_best: "best_alignment ra rb (distance_rows ra rb)"
proof -
  have "distance_rows ra rb = cell ra rb (length ra) (length rb)"
    using swaps_cells [of ra rb "length rb"] by (auto simp: distance_rows_def simp del: upt_Suc cell.simps)
  then show ?thesis using cell_full by simp
qed


lemma suggest_from_sound:
  "suggest_from i th best bd slugs = r \<Longrightarrow> r \<noteq> [] \<Longrightarrow>
    r = best \<or> (r \<in> set slugs \<and> Distance i r \<le> th \<and> Distance i r < bd)"
  by (induction slugs arbitrary: best bd) (auto simp: Let_def split: if_splits, fastforce+)

text \<open>A suggestion is a known slug within the threshold, and never the input.\<close>

lemma SuggestProvider_sound:
  "SuggestProvider i slugs th = r \<Longrightarrow> r \<noteq> [] \<Longrightarrow> r \<in> set slugs \<and> Distance i r \<le> th"
  using suggest_from_sound [of i th "[]" "th + 1" slugs] by (auto simp: SuggestProvider_def)

end
