(* ===== verification/Runner.thy ===== *)
theory Runner
  imports Child_Env_Facts Edit_Distance Gateway_Handler
begin

section \<open>Running a command (\<open>internal/runner\<close>, \<open>internal/manifest\<close>)\<close>

text \<open>
  The support manifest (\<open>manifest.go\<close>), the guard of agent sessions (\<open>cli/guard_runtime.go\<close>), the structured errors
  (\<open>errors.go\<close>), the drivers of the runtime modes (\<open>driver_*.go\<close>) and the dispatcher that chooses one (\<open>driver.go\<close>).
  A driver gives a receipt and an error, the token file it leaves, and the effects it has on the outside: what it
  reads from the vault and what it starts, with which environment. The streams, the working directory, audit events
  and the wiping of buffers are left out.
\<close>

subsection \<open>The manifest\<close>

datatype support_status = Supported | Unavailable | Experimental

datatype support_category = CategoryManager | CategoryRuntime | CategoryFeature | CategoryPlatform

record manifest_entry =
  me_ID :: gostring
  me_Category :: support_category
  me_Status :: support_status

definition entry_of :: "support_category \<Rightarrow> support_status \<Rightarrow> gostring \<Rightarrow> manifest_entry" where
  "entry_of cat s i = \<lparr>me_ID = i, me_Category = cat, me_Status = s\<rparr>"

definition manifest_Current :: "manifest_entry list" where
  "manifest_Current =
    map (entry_of CategoryManager Supported) [''op'', ''bw''] @
    map (entry_of CategoryManager Unavailable) [''vaultwarden'', ''opconnect'', ''keeper'', ''proton-pass'', ''lastpass'', ''keychain'', ''file''] @
    map (entry_of CategoryRuntime Supported) [''gateway_typed'', ''gateway_sdk''] @
    map (entry_of CategoryRuntime Unavailable) [''gateway_proxy'', ''direct_brokered'', ''direct_classic_sandboxed''] @
    map (entry_of CategoryPlatform Supported) [''linux''] @
    map (entry_of CategoryPlatform Unavailable) [''macos'', ''windows'', ''tauri_desktop''] @
    map (entry_of CategoryFeature Unavailable) [''admin'', ''team'', ''sso'', ''hardware_attestation'', ''approval_inbox'', ''hosted_telemetry'',
      ''receipt_sharing'', ''community_loading'', ''manager_mutation'']"

definition manifest_Lookup :: "manifest_entry list \<Rightarrow> gostring \<Rightarrow> manifest_entry option" where
  "manifest_Lookup m i = List.find (\<lambda>e. me_ID e = i) m"

definition manifest_Status :: "manifest_entry list \<Rightarrow> gostring \<Rightarrow> support_status" where
  "manifest_Status m i = (case manifest_Lookup m i of Some e \<Rightarrow> me_Status e | None \<Rightarrow> Unavailable)"

definition manifest_Enabled :: "manifest_entry list \<Rightarrow> gostring \<Rightarrow> bool" where
  "manifest_Enabled m i = (manifest_Status m i = Supported)"

subsection \<open>Requests, receipts, errors\<close>

record exec_request =
  xr_ConnectionSlug :: gostring
  xr_Command :: "gostring list"
  xr_Actor :: gostring
  xr_Capability :: gostring
  xr_TTL :: duration
  xr_Runtime :: gostring
  xr_ApprovalJWT :: gostring
  xr_ExtraAllowedPrefixes :: "gostring list"
  xr_FeatureFlags :: "gostring list"
  xr_CleanEnv :: bool
  xr_ExtraEnvVars :: "gostring list"

record runtime_receipt =
  rc_Runtime :: gostring
  rc_Provider :: gostring
  rc_Capability :: gostring
  rc_PolicyDecision :: gostring
  rc_CredentialShape :: gostring
  rc_ExitCode :: int
  rc_TTL :: duration

definition no_receipt :: runtime_receipt where
  "no_receipt = \<lparr>rc_Runtime = [], rc_Provider = [], rc_Capability = [], rc_PolicyDecision = [], rc_CredentialShape = [], rc_ExitCode = 0, rc_TTL = 0\<rparr>"

definition delivery_name :: "credential_delivery \<Rightarrow> gostring" where
  "delivery_name d =
    (case d of DeliveryKeylatchSessionToken \<Rightarrow> ''keylatch_session_token''
     | DeliveryProviderEphemeral \<Rightarrow> ''provider_ephemeral'' | DeliveryProviderRoot \<Rightarrow> ''provider_root'')"

text \<open>A structured error carries its class, provider, mode, reason, fix, exit code and what it wraps.\<close>

datatype run_error =
    ErrGuardDenied | ErrProviderNotFound | ErrCommandNotAllowed | ErrUnknownRuntime | ErrModeUnavailable gostring
  | ErrProxyNotRunning | ErrGatewayNotRunning | ErrUnsupportedRuntime | ErrFeatureFlagRequired | BackendErrNotFound
  | ResolveFails resolve_error | DriverEmptyCommand | DriverMintFails token_error | SubprocessFails | NoInjectionRules
  | CredentialReadFails | BrokerExchangeFails | CallerTokenFails | HashExecutableFails | SandboxFails
  | RuntimeError gostring gostring gostring gostring gostring int "run_error option"

definition classToExitCode :: "gostring \<Rightarrow> int" where
  "classToExitCode class =
    (if class = ''UsageError'' then 1 else if class = ''SecurityBlock'' then 2 else if class = ''PolicyDeny'' then 3
     else if class \<in> {''ApprovalRequired'', ''BackendUnavailable''} then 4
     else if class \<in> {''RuntimeNotAvailable'', ''GatewayNotRunning''} then 5
     else if class = ''SecretNotFound'' then 6 else if class = ''BootstrapMissing'' then 7
     else if class = ''InsecureArgv'' then 8 else if class = ''InternalError'' then 9 else 5)"

definition NewRuntimeError :: "gostring \<Rightarrow> gostring \<Rightarrow> gostring \<Rightarrow> gostring \<Rightarrow> gostring \<Rightarrow> run_error option \<Rightarrow> run_error" where
  "NewRuntimeError class provider mode why fix_hint wrapped = RuntimeError class provider mode why fix_hint (classToExitCode class) wrapped"

definition ErrGatewayNotRunningStructured :: "gostring \<Rightarrow> gostring \<Rightarrow> run_error" where
  "ErrGatewayNotRunningStructured provider mode =
    NewRuntimeError ''RuntimeNotAvailable'' provider mode ''gateway is not running'' ''Try: keylatch gateway up'' (Some ErrGatewayNotRunning)"

text \<open>\<open>errors.Is\<close> follows what a structured error wraps; \<open>errors.As\<close> finds the structured error itself.\<close>

fun errors_Is :: "run_error \<Rightarrow> run_error \<Rightarrow> bool" where
  "errors_Is (RuntimeError c p m r f x w) target = (RuntimeError c p m r f x w = target \<or> (case w of None \<Rightarrow> False | Some e \<Rightarrow> errors_Is e target))"
| "errors_Is e target = (e = target)"

definition errors_As :: "run_error \<Rightarrow> int option" where
  "errors_As e = (case e of RuntimeError c p m r f x w \<Rightarrow> Some x | _ \<Rightarrow> None)"

subsection \<open>The guard of agent sessions\<close>

definition allowedInLLMSession :: "gostring list" where
  "allowedInLLMSession = [RuntimeGatewayTyped, RuntimeGatewaySDK, RuntimeDirectBrokered, RuntimeGatewayProxy, RuntimeDirectClassicSandboxed]"

text \<open>Neither the approval nor the signing key is looked at.\<close>

definition GuardRuntime :: "session_env \<Rightarrow> gostring \<Rightarrow> gostring \<Rightarrow> lookup \<Rightarrow> gostring \<Rightarrow> bool \<times> int" where
  "GuardRuntime S mode approvalJWT env signingKey =
    (if \<not> IsLLMSession S env then (False, 0)
     else if mode \<in> set allowedInLLMSession then (False, 0)
     else (True, 2))"

definition isKnownMode :: "gostring \<Rightarrow> bool" where
  "isKnownMode mode = list_ex (\<lambda>m. m = mode) AllModes"

definition suggestMode :: "gostring \<Rightarrow> gostring" where
  "suggestMode input =
    fst (fold (\<lambda>m (best, bestDist). let d = levenshtein input m in if d < bestDist then (m, d) else (best, bestDist)) AllModes ([], 4))"

definition RequireRawCredentialOptIn :: "bool \<Rightarrow> bool \<Rightarrow> bool" where
  "RequireRawCredentialOptIn rawCredentialExposure configAllows = (\<not> rawCredentialExposure \<or> configAllows)"

subsection \<open>The allowlist\<close>

definition TrimRight_space :: "gostring \<Rightarrow> gostring" where
  "TrimRight_space s = rev (dropWhile (\<lambda>c. c = CHR '' '') (rev s))"

definition prefix_allows :: "gostring \<Rightarrow> gostring \<Rightarrow> bool" where
  "prefix_allows prefx exe =
    (let trimmed = TrimRight_space prefx in
     exe = trimmed \<or>
     (HasPrefix exe trimmed \<and> length exe > length trimmed \<and> exe ! length trimmed \<in> {CHR ''.'', CHR ''/''}))"

definition command_allowed :: "gostring list \<Rightarrow> gostring list \<Rightarrow> bool" where
  "command_allowed ps command = (command \<noteq> [] \<and> ps \<noteq> [] \<and> list_ex (\<lambda>p. prefix_allows p (hd command)) ps)"

subsection \<open>The world of a run\<close>

datatype process_result = ProcOk | ProcExit int | ProcFails

datatype run_effect =
    ReadsVault gostring
  | Launches gostring "gostring list" "gostring list"
  | LaunchesSandboxed gostring "gostring list"
  | StartsDaemon
  | SpawnsGateway

record run_world =
  rw_Environ :: "gostring list"
  rw_Session :: session_env
  rw_Running :: bool
  rw_Addr :: gostring
  rw_Token :: token_env
  rw_Random :: "byte list option"
  rw_Now :: gotime
  rw_Write :: write_outcome
  rw_SigningKey :: gostring
  rw_StorePath :: gostring
  rw_Settings :: effective_settings
  rw_CanaryRandom :: "gostring option"
  rw_Exec :: "gostring list \<Rightarrow> gostring list \<Rightarrow> process_result"
  rw_Elapsed :: duration
  rw_Vault :: "gostring \<Rightarrow> vault_read"
  rw_Exchange :: "gostring \<Rightarrow> gostring \<Rightarrow> gostring \<Rightarrow> gostring \<Rightarrow> gostring \<Rightarrow> gostring option"
  rw_ProxyLive :: bool
  rw_ProxyAddr :: gostring
  rw_ProxyToken :: "gostring option"
  rw_HashExecutable :: "gostring \<Rightarrow> gostring option"
  rw_Sandbox :: "gostring \<Rightarrow> gostring list \<Rightarrow> bool"
  rw_Catalog :: "gostring \<Rightarrow> run_template option"

record run_state =
  rs_Tokens :: "token list jsonfile"
  rs_Effects :: "run_effect list"

type_synonym run_result = "(runtime_receipt \<times> run_error option) \<times> run_state"

type_synonym driver = "run_world \<Rightarrow> exec_request \<Rightarrow> run_template \<Rightarrow> run_state \<Rightarrow> run_result"

definition effect :: "run_effect \<Rightarrow> run_state \<Rightarrow> run_state" where
  "effect e st = st\<lparr>rs_Effects := rs_Effects st @ [e]\<rparr>"

subsection \<open>The gateway drivers\<close>

definition gateway_spec :: "run_world \<Rightarrow> gostring \<Rightarrow> exec_request \<Rightarrow> run_template \<Rightarrow> token_spec" where
  "gateway_spec W actor0 req tmpl =
    \<lparr>ts_Actor = (if xr_Actor req = [] then actor0 else xr_Actor req),
     ts_Capabilities = [if xr_Capability req = [] \<or> xr_Capability req = ''inject'' then rm_Provider tmpl @ ''.*''
                        else rm_Provider tmpl @ ''.'' @ xr_Capability req],
     ts_Command = [], ts_CWD = [], ts_TTL = (if xr_TTL req \<le> 0 then Hour else xr_TTL req), ts_MaxUses = 0, ts_Parent = [],
     ts_LLMSession = False, ts_FDNonce = [], ts_StorePath = rw_StorePath W, ts_SigningKey = rw_SigningKey W,
     ts_ApprovalRootID = [], ts_ApprovalCapability = [], ts_ApprovalMaxAgeSec = 0, ts_ApprovalExpiry = None,
     ts_ApprovalBinding = [], ts_TwoPerson = False, ts_ApprovalRootIDs = []\<rparr>"

text \<open>The two drivers differ in the mode, the name that stands for an absent actor, the receipt they start from and the
  environment of the child.\<close>

definition gateway_run ::
  "gostring \<Rightarrow> gostring \<Rightarrow> runtime_receipt \<Rightarrow> (gostring \<Rightarrow> gostring list) \<Rightarrow> driver" where
  "gateway_run mode actor0 receipt childEnv W req tmpl st =
    (if xr_Command req = [] then ((receipt\<lparr>rc_PolicyDecision := ''empty_command''\<rparr>, Some DriverEmptyCommand), st)
     else if \<not> rw_Running W then
       ((receipt\<lparr>rc_PolicyDecision := ''gateway_not_running''\<rparr>, Some (ErrGatewayNotRunningStructured (rm_Provider tmpl) mode)), st)
     else
       (case token_Mint (rw_Token W) (rw_Random W) (rw_Now W) (rw_Write W) (gateway_spec W actor0 req tmpl) (rs_Tokens st) of
          (Inl e, f) \<Rightarrow> ((receipt\<lparr>rc_PolicyDecision := ''token_mint_failed''\<rparr>, Some (DriverMintFails e)), st\<lparr>rs_Tokens := f\<rparr>)
        | (Inr (jwtStr, t), f) \<Rightarrow>
            (let env = with_canary (ef_CanaryInjectionEnabled (rw_Settings W)) (rw_CanaryRandom W) tmpl (childEnv jwtStr);
                 st' = effect (Launches mode (xr_Command req) env) (st\<lparr>rs_Tokens := f\<rparr>);
                 done = receipt\<lparr>rc_TTL := rw_Elapsed W\<rparr>
             in case rw_Exec W (xr_Command req) env of
                  ProcOk \<Rightarrow> ((done\<lparr>rc_PolicyDecision := ''allowed''\<rparr>, None), st')
                | ProcExit n \<Rightarrow> ((done\<lparr>rc_ExitCode := n\<rparr>, None), st')
                | ProcFails \<Rightarrow> ((done\<lparr>rc_PolicyDecision := ''process_error''\<rparr>, Some SubprocessFails), st'))))"

definition gatewayTyped_Run :: driver where
  "gatewayTyped_Run W req tmpl =
    gateway_run RuntimeGatewayTyped ''typed_driver''
      (no_receipt\<lparr>rc_Runtime := RuntimeGatewayTyped, rc_CredentialShape := delivery_name DeliveryKeylatchSessionToken\<rparr>)
      (\<lambda>jwtStr. gatewayTypedChildEnv (rw_Environ W) tmpl (''http://'' @ rw_Addr W) jwtStr (xr_CleanEnv req) (xr_ExtraEnvVars req))
      W req tmpl"

text \<open>The SDK driver writes the name of its mode where the receipt names the shape of the credential.\<close>

definition gatewaySdk_Run :: driver where
  "gatewaySdk_Run W req tmpl =
    gateway_run RuntimeGatewaySDK ''sdk_driver''
      (no_receipt\<lparr>rc_Provider := xr_ConnectionSlug req, rc_Capability := xr_Capability req, rc_Runtime := RuntimeGatewaySDK,
         rc_CredentialShape := RuntimeGatewaySDK\<rparr>)
      (\<lambda>jwtStr. gatewaySdkChildEnv (rw_Environ W) tmpl (''http://'' @ rw_Addr W) jwtStr (xr_CleanEnv req) (xr_ExtraEnvVars req))
      W req tmpl"

subsection \<open>The other drivers\<close>

definition canonicalSecretPath :: "gostring \<Rightarrow> gostring \<Rightarrow> gostring \<Rightarrow> gostring \<Rightarrow> gostring" where
  "canonicalSecretPath namespace category provider field =
    namespace @ ''/'' @ (if category = [] then ''ai'' else category) @ ''/'' @ provider @ ''/'' @ field"

definition child_result :: "runtime_receipt \<Rightarrow> process_result \<Rightarrow> runtime_receipt \<times> run_error option" where
  "child_result receipt r =
    (case r of ProcOk \<Rightarrow> (receipt, None) | ProcExit n \<Rightarrow> (receipt\<lparr>rc_ExitCode := n\<rparr>, None) | ProcFails \<Rightarrow> (receipt, Some SubprocessFails))"

definition brokered_Run :: driver where
  "brokered_Run W req tmpl st =
    (let receipt = no_receipt\<lparr>rc_Runtime := RuntimeDirectBrokered, rc_CredentialShape := delivery_name DeliveryProviderEphemeral\<rparr> in
     if xr_Command req = [] then ((receipt, Some DriverEmptyCommand), st)
     else if rm_Preferred tmpl \<noteq> RuntimeDirectBrokered \<and> RuntimeDirectBrokered \<notin> set (rm_Supported tmpl) then
       ((receipt, Some ErrUnsupportedRuntime), st)
     else (case rm_InjectionRules tmpl of
       [] \<Rightarrow> ((receipt, Some NoInjectionRules), st)
     | (source, envVar) # rest \<Rightarrow>
        (let vaultPath = canonicalSecretPath ''default'' (rm_Category tmpl) (xr_ConnectionSlug req) source;
             st1 = effect (ReadsVault vaultPath) st;
             actor = (if xr_Actor req = [] then ''direct_brokered'' else xr_Actor req)
         in case rw_Vault W vaultPath of
              VaultNotFound \<Rightarrow> ((receipt, Some BackendErrNotFound), st1)
            | VaultFails \<Rightarrow> ((receipt, Some CredentialReadFails), st1)
            | VaultValue rootCredential \<Rightarrow>
               (case rw_Exchange W actor (xr_ConnectionSlug req @ ''/'' @ actor) (xr_ConnectionSlug req) (xr_Capability req) ''default'' of
                  None \<Rightarrow> ((receipt, Some BrokerExchangeFails), st1)
                | Some tok \<Rightarrow>
                   (let env = brokeredChildEnv (rw_Environ W) tmpl tok (xr_CleanEnv req) (xr_ExtraEnvVars req)
                    in (child_result receipt (rw_Exec W (xr_Command req) env),
                        effect (Launches RuntimeDirectBrokered (xr_Command req) env) st1))))))"

definition proxy_spec :: "run_world \<Rightarrow> exec_request \<Rightarrow> token_spec" where
  "proxy_spec W req =
    \<lparr>ts_Actor = (if xr_Actor req = [] then ''proxy_driver'' else xr_Actor req),
     ts_Capabilities = [if xr_Capability req = [] then xr_ConnectionSlug req @ ''.inject'' else xr_Capability req],
     ts_Command = [], ts_CWD = [], ts_TTL = (if xr_TTL req \<le> 0 then Hour else xr_TTL req), ts_MaxUses = 0, ts_Parent = [],
     ts_LLMSession = False, ts_FDNonce = [], ts_StorePath = rw_StorePath W, ts_SigningKey = rw_SigningKey W,
     ts_ApprovalRootID = [], ts_ApprovalCapability = [], ts_ApprovalMaxAgeSec = 0, ts_ApprovalExpiry = None,
     ts_ApprovalBinding = [], ts_TwoPerson = False, ts_ApprovalRootIDs = []\<rparr>"

definition proxy_Run :: driver where
  "proxy_Run W req tmpl st =
    (let receipt = no_receipt\<lparr>rc_Runtime := RuntimeGatewayProxy, rc_CredentialShape := delivery_name DeliveryKeylatchSessionToken\<rparr> in
     if xr_Command req = [] then ((receipt, Some DriverEmptyCommand), st)
     else (case token_Mint (rw_Token W) (rw_Random W) (rw_Now W) (rw_Write W) (proxy_spec W req) (rs_Tokens st) of
       (Inl e, f) \<Rightarrow> ((receipt, Some (DriverMintFails e)), st\<lparr>rs_Tokens := f\<rparr>)
     | (Inr (jwtStr, t), f) \<Rightarrow>
        (let st1 = st\<lparr>rs_Tokens := f\<rparr> in
         case rw_ProxyToken W of None \<Rightarrow> ((receipt, Some CallerTokenFails), st1)
         | Some authToken \<Rightarrow>
            (let addr = (if rw_ProxyAddr W \<noteq> [] then rw_ProxyAddr W else ''127.0.0.1:7879'');
                 env = proxyChildEnv (getenv (rw_Environ W)) (xr_ExtraEnvVars req) addr authToken []
             in (child_result receipt (rw_Exec W (xr_Command req) env),
                 effect (Launches RuntimeGatewayProxy (xr_Command req) env) st1)))))"

definition classicSandboxed_Run :: driver where
  "classicSandboxed_Run W req tmpl st =
    (let receipt = no_receipt\<lparr>rc_Runtime := RuntimeDirectClassicSandboxed, rc_CredentialShape := delivery_name DeliveryProviderRoot\<rparr> in
     if ''direct_classic_sandboxed'' \<notin> set (xr_FeatureFlags req) then ((receipt, Some ErrFeatureFlagRequired), st)
     else if xr_Command req = [] then ((receipt, Some DriverEmptyCommand), st)
     else (case rw_HashExecutable W (hd (xr_Command req)) of
       None \<Rightarrow> ((receipt, Some HashExecutableFails), st)
     | Some execHash \<Rightarrow>
        ((receipt, if rw_Sandbox W (hd (xr_Command req)) (xr_ExtraEnvVars req) then None else Some SandboxFails),
         effect (LaunchesSandboxed (hd (xr_Command req)) (xr_ExtraEnvVars req)) st)))"

subsection \<open>Guards around a driver\<close>

definition WithManifestGuard :: "driver \<Rightarrow> manifest_entry list \<Rightarrow> gostring \<Rightarrow> driver" where
  "WithManifestGuard inner m i W req tmpl st =
    (if \<not> manifest_Enabled m i then
       ((no_receipt\<lparr>rc_Runtime := xr_Runtime req, rc_PolicyDecision := ''manifest_unavailable''\<rparr>, Some (ErrModeUnavailable i)), st)
     else inner W req tmpl st)"

definition WithLivenessGuard :: "driver \<Rightarrow> (run_world \<Rightarrow> bool) \<Rightarrow> run_error \<Rightarrow> driver" where
  "WithLivenessGuard inner check errNotRunning W req tmpl st =
    (if \<not> check W then
       ((no_receipt\<lparr>rc_Runtime := xr_Runtime req, rc_PolicyDecision := ''not_running''\<rparr>, Some errNotRunning), st)
     else inner W req tmpl st)"

subsection \<open>The dispatcher\<close>

definition complete_receipt :: "exec_request \<Rightarrow> gostring \<Rightarrow> runtime_decision \<Rightarrow> runtime_receipt \<Rightarrow> runtime_receipt" where
  "complete_receipt req cap d receipt =
    receipt\<lparr>rc_Provider := xr_ConnectionSlug req, rc_Runtime := rd_Mode d,
      rc_Capability := (if rc_Capability receipt = [] then cap else rc_Capability receipt),
      rc_CredentialShape := (if rc_CredentialShape receipt = [] then delivery_name (rd_CredentialShape d) else rc_CredentialShape receipt)\<rparr>"

definition Dispatch_Run ::
  "(gostring \<Rightarrow> driver option) \<Rightarrow> (gostring \<Rightarrow> gostring \<Rightarrow> bool) option \<Rightarrow> run_world \<Rightarrow> exec_request \<Rightarrow> run_state \<Rightarrow> run_result" where
  "Dispatch_Run drivers guard W req st =
    (let cap = (if xr_Capability req = [] then ''inject'' else xr_Capability req);
         none = no_receipt\<lparr>rc_Provider := xr_ConnectionSlug req, rc_Capability := cap\<rparr>
     in if (case guard of None \<Rightarrow> False | Some g \<Rightarrow> g (xr_Runtime req) (xr_ApprovalJWT req)) then
          ((none\<lparr>rc_PolicyDecision := ''guard_denied''\<rparr>, Some ErrGuardDenied), st)
        else (case rw_Catalog W (xr_ConnectionSlug req) of
          None \<Rightarrow> ((none\<lparr>rc_PolicyDecision := ''provider_not_found''\<rparr>, Some ErrProviderNotFound), st)
        | Some tmpl \<Rightarrow>
           if \<not> command_allowed (xr_ExtraAllowedPrefixes req @ rm_AllowedCommandPrefixes tmpl) (xr_Command req) then
             ((none\<lparr>rc_PolicyDecision := ''command_not_allowed''\<rparr>, Some ErrCommandNotAllowed), st)
           else (case runtime_Resolve (xr_Runtime req) tmpl of
             Inl e \<Rightarrow> ((none\<lparr>rc_PolicyDecision := ''mode_not_supported''\<rparr>, Some (ResolveFails e)), st)
           | Inr d \<Rightarrow>
              (case drivers (rd_Mode d) of
                 None \<Rightarrow> ((none\<lparr>rc_Runtime := rd_Mode d, rc_PolicyDecision := ''unknown_runtime''\<rparr>, Some ErrUnknownRuntime), st)
               | Some driver \<Rightarrow>
                  (case driver W req tmpl st of ((receipt, runErr), st') \<Rightarrow>
                     ((complete_receipt req cap d receipt, runErr), st'))))))"

end
