(* ===== verification/Run_Command.thy ===== *)
theory Run_Command
  imports Runner
begin

section \<open>The command \<open>keylatch run\<close> (\<open>internal/cli/root.go\<close>)\<close>

text \<open>
  \<open>newRunCmd\<close> with its helpers: the checks in their order, the table of drivers it builds, the request and the exit
  code, \<open>runDryRun\<close>, and the report of \<open>runtime doctor\<close>. The texts written to the terminal and the receipt pushed to the
  dashboard are left out.
\<close>

subsection \<open>Arguments\<close>

text \<open>The connection and the command; \<open>None\<close> when words precede the separator.\<close>

definition parseRunArgs :: "gostring list \<Rightarrow> (gostring \<times> gostring list) option" where
  "parseRunArgs args =
    (let before = takeWhile (\<lambda>a. a \<noteq> ''--'') args; after = drop (Suc (length before)) args in
     if length before < length args then
       (if before = [] then Some ([], after) else if length before > 1 then None else Some (args ! 0, after))
     else (case args of [] \<Rightarrow> Some ([], []) | a # rest \<Rightarrow> Some (a, rest)))"

text \<open>Repeated flags whose values may hold several words, separated by commas.\<close>

definition flag_words :: "gostring list \<Rightarrow> gostring list" where
  "flag_words raw = filter (\<lambda>p. p \<noteq> []) (map TrimSpace (concat (map (\<lambda>r. SplitN (Suc (length r)) r (CHR '','')) raw)))"

record run_call =
  ca_Args :: "gostring list"
  ca_Runtime :: gostring
  ca_Mode :: gostring
  ca_ApprovalJWT :: gostring
  ca_Allow :: "gostring list"
  ca_NoDaemonStart :: bool
  ca_DryRun :: bool
  ca_CleanEnv :: bool
  ca_Extra :: "gostring list"

datatype stat_outcome = StatOk | StatNotExist | StatOther

text \<open>What the command finds: the world of the drivers, the keyring file, whether a backend can be had, the opt-in of the
  operator, the daemon, the configuration and what starting a gateway does.\<close>

record run_host =
  rh_World :: run_world
  rh_KeyringStat :: stat_outcome
  rh_BackendOk :: bool
  rh_OptIn :: bool
  rh_DaemonRunning :: bool
  rh_DaemonSpawns :: bool
  rh_HostPortOk :: "gostring \<Rightarrow> bool"
  rh_ConfigMode :: gostring
  rh_Custom :: "effective_settings option"
  rh_SelfPath :: bool
  rh_GatewaySpawns :: bool
  rh_GatewayUp :: bool

definition run_env :: "run_host \<Rightarrow> lookup" where
  "run_env H = getenv (rw_Environ (rh_World H))"

definition run_session :: "run_host \<Rightarrow> bool" where
  "run_session H = IsLLMSession (rw_Session (rh_World H)) (run_env H)"

definition connection_meta_path :: "run_template \<Rightarrow> gostring \<Rightarrow> gostring" where
  "connection_meta_path tmpl conn = ''default/'' @ (if rm_Category tmpl = [] then ''ai'' else rm_Category tmpl) @ ''/'' @ conn @ ''/meta''"

datatype load_connection = ConnLoaded run_template gostring | ConnProviderNotFound | ConnBackendFails

definition loadConnectionBackend :: "run_host \<Rightarrow> gostring \<Rightarrow> load_connection" where
  "loadConnectionBackend H conn =
    (case rw_Catalog (rh_World H) conn of None \<Rightarrow> ConnProviderNotFound
     | Some tmpl \<Rightarrow> if rh_BackendOk H then ConnLoaded tmpl (connection_meta_path tmpl conn) else ConnBackendFails)"

definition gatewayRunAddr :: "run_host \<Rightarrow> gostring option" where
  "gatewayRunAddr H =
    (let v = run_env H ''KEYLATCH_GATEWAY_ADDR'' in
     if v \<noteq> [] then (if rh_HostPortOk H v then Some v else None) else Some ''127.0.0.1:7878'')"

definition proxyRunAddr :: "run_host \<Rightarrow> gostring option" where
  "proxyRunAddr H =
    (let v = run_env H ''KEYLATCH_PROXY_ADDR'' in
     if v \<noteq> [] then (if rh_HostPortOk H v then Some v else None) else Some ''127.0.0.1:7879'')"

subsection \<open>The dry run\<close>

record dry_run_plan =
  dp_Runtime :: gostring
  dp_Provider :: gostring
  dp_EnvAdded :: "(gostring \<times> gostring) list"
  dp_EnvStripped :: "gostring list"
  dp_Argv :: "gostring list"
  dp_LLMSession :: bool
  dp_ApprovalRequired :: bool

definition run_settings :: "run_host \<Rightarrow> gostring \<Rightarrow> effective_settings" where
  "run_settings H modeFlag = EffectiveSettingsForMode (ResolveMode (run_env H) modeFlag (rh_ConfigMode H)) (rh_Custom H)"

text \<open>The variables a mode adds, as name and shown value.\<close>

definition planned_env :: "run_template \<Rightarrow> gostring \<Rightarrow> gostring \<Rightarrow> (gostring \<times> gostring) list" where
  "planned_env tmpl mode gatewayAddr =
    (let issued = ''<would-be-issued scope:'' @ rm_Provider tmpl @ ''.*, ttl:1h>'' in
     if mode \<in> {RuntimeGatewayTyped, RuntimeGatewaySDK} then
       [(''KEYLATCH_GATEWAY_URL'', ''<resolved: http://'' @ gatewayAddr @ ''>''), (''KEYLATCH_GATEWAY_TOKEN'', issued), (''KEYLATCH_RUNTIME'', mode)]
     else if mode = RuntimeDirectBrokered then
       map (\<lambda>r. (snd r, ''<would-be-brokered ephemeral token>'')) (rm_InjectionRules tmpl) @ [(''KEYLATCH_RUNTIME'', mode)]
     else if mode = RuntimeGatewayProxy then [(''KEYLATCH_GATEWAY_TOKEN'', issued), (''KEYLATCH_RUNTIME'', mode)]
     else [])"

definition runDryRun :: "run_host \<Rightarrow> run_call \<Rightarrow> gostring \<Rightarrow> gostring list \<Rightarrow> int \<times> dry_run_plan" where
  "runDryRun H C conn command =
    (let mode = ca_Runtime C;
         plan = \<lparr>dp_Runtime = mode, dp_Provider = conn, dp_EnvAdded = [],
                 dp_EnvStripped = map envKey (filter (\<lambda>kv. HasPrefix kv ''KEYLATCH_'') (rw_Environ (rh_World H))),
                 dp_Argv = command, dp_LLMSession = run_session H, dp_ApprovalRequired = (ca_ApprovalJWT C \<noteq> [])\<rparr>
     in case rw_Catalog (rh_World H) conn of
          None \<Rightarrow> (6, plan)
        | Some tmpl \<Rightarrow>
           if mode \<in> {RuntimeGatewayTyped, RuntimeGatewaySDK} \<and> gatewayRunAddr H = None then (1, plan)
           else (0, plan\<lparr>dp_EnvAdded :=
                  planned_env tmpl mode (case gatewayRunAddr H of None \<Rightarrow> [] | Some a \<Rightarrow> a) @
                  (if ef_CanaryInjectionEnabled (run_settings H (ca_Mode C))
                   then [(canary_EnvVarName (rm_Provider tmpl), ''<would-be-canary-token>'')] else [])\<rparr>))"

subsection \<open>The run\<close>

definition run_drivers :: "gostring \<Rightarrow> driver option" where
  "run_drivers =
    [RuntimeGatewayTyped \<mapsto> gatewayTyped_Run,
     RuntimeGatewaySDK \<mapsto> gatewaySdk_Run,
     RuntimeDirectBrokered \<mapsto> WithManifestGuard brokered_Run manifest_Current ''direct_brokered'',
     RuntimeGatewayProxy \<mapsto> WithManifestGuard (WithLivenessGuard proxy_Run rw_ProxyLive ErrProxyNotRunning) manifest_Current ''gateway_proxy'',
     RuntimeDirectClassicSandboxed \<mapsto> WithManifestGuard classicSandboxed_Run manifest_Current ''direct_classic_sandboxed'']"

text \<open>The checks before the arguments are used; \<open>Some\<close> is an exit code.\<close>

definition connection_check :: "run_host \<Rightarrow> gostring list \<Rightarrow> run_state \<Rightarrow> bool \<times> run_state" where
  "connection_check H args st =
    (case parseRunArgs args of None \<Rightarrow> (True, st)
     | Some (conn, command) \<Rightarrow>
        if args = [] \<or> conn = [] then (True, st)
        else (case loadConnectionBackend H conn of
                ConnLoaded tmpl path \<Rightarrow> (rw_Vault (rh_World H) path \<noteq> VaultNotFound, effect (ReadsVault path) st)
              | _ \<Rightarrow> (True, st)))"

definition run_checks :: "run_host \<Rightarrow> run_call \<Rightarrow> run_state \<Rightarrow> int option \<times> run_state" where
  "run_checks H C st =
    (if rh_KeyringStat H = StatNotExist then (Some 7, st)
     else (case connection_check H (ca_Args C) st of (ok, st1) \<Rightarrow>
       if \<not> ok then (Some 6, st1)
       else if \<not> RequireRawCredentialOptIn (IsRawCredentialMode (ca_Runtime C)) (rh_OptIn H) then (Some 2, st1)
       else if \<not> isKnownMode (ca_Runtime C) then (Some 1, st1)
       else (case GuardRuntime (rw_Session (rh_World H)) (ca_Runtime C) (ca_ApprovalJWT C) (run_env H) [] of (block, code) \<Rightarrow>
         if block then (Some code, st1)
         else if ca_Allow C \<noteq> [] \<and> run_session H then (Some 2, st1)
         else if \<not> ca_NoDaemonStart C \<and> \<not> rh_DaemonRunning H then
           (if rh_DaemonSpawns H then (None, effect StartsDaemon st1) else (Some 5, effect StartsDaemon st1))
         else (None, st1))))"

definition run_request :: "run_call \<Rightarrow> gostring \<Rightarrow> gostring list \<Rightarrow> exec_request" where
  "run_request C conn command =
    \<lparr>xr_ConnectionSlug = conn, xr_Command = command, xr_Actor = [], xr_Capability = ''inject'', xr_TTL = 0,
     xr_Runtime = ca_Runtime C, xr_ApprovalJWT = ca_ApprovalJWT C, xr_ExtraAllowedPrefixes = flag_words (ca_Allow C),
     xr_FeatureFlags = [], xr_CleanEnv = ca_CleanEnv C, xr_ExtraEnvVars = flag_words (ca_Extra C)\<rparr>"

definition run_guard :: "run_host \<Rightarrow> gostring \<Rightarrow> gostring \<Rightarrow> bool" where
  "run_guard H mode jwt = fst (GuardRuntime (rw_Session (rh_World H)) mode jwt (run_env H) [])"

definition run_world_for :: "run_host \<Rightarrow> run_call \<Rightarrow> gostring \<Rightarrow> gostring \<Rightarrow> run_world" where
  "run_world_for H C gatewayAddr proxyAddr =
    (rh_World H)\<lparr>rw_Addr := gatewayAddr, rw_ProxyAddr := proxyAddr, rw_Settings := run_settings H (ca_Mode C)\<rparr>"

text \<open>A gateway that is not running is started and the run tried once more.\<close>

definition run_autostart :: "run_host \<Rightarrow> run_world \<Rightarrow> exec_request \<Rightarrow> run_state \<Rightarrow> int \<times> run_state" where
  "run_autostart H W req st =
    (if \<not> rh_SelfPath H then (5, st)
     else if \<not> rh_GatewaySpawns H \<or> \<not> rh_GatewayUp H then (5, effect SpawnsGateway st)
     else (case Dispatch_Run run_drivers (Some (run_guard H)) (W\<lparr>rw_Running := True\<rparr>) req (effect SpawnsGateway st) of
             ((receipt, None), st2) \<Rightarrow> (rc_ExitCode receipt, st2)
           | ((receipt, Some e), st2) \<Rightarrow> (5, st2)))"

definition mode_removed :: "run_error \<Rightarrow> bool" where
  "mode_removed e = (case e of ResolveFails (ErrModeRemoved hint) \<Rightarrow> True | _ \<Rightarrow> False)"

definition run_exit :: "run_host \<Rightarrow> run_world \<Rightarrow> exec_request \<Rightarrow> run_result \<Rightarrow> int \<times> run_state" where
  "run_exit H W req r =
    (case r of ((receipt, None), st) \<Rightarrow> (rc_ExitCode receipt, st)
     | ((receipt, Some e), st) \<Rightarrow>
        (case errors_As e of
           Some code \<Rightarrow> (if code = 0 then 5 else code, st)
         | None \<Rightarrow>
            if errors_Is e ErrCommandNotAllowed \<or> errors_Is e ErrGuardDenied then (2, st)
            else if mode_removed e then (5, st)
            else if errors_Is e BackendErrNotFound then (3, st)
            else if errors_Is e ErrGatewayNotRunning then run_autostart H W req st
            else (5, st)))"

definition run_dispatch :: "run_host \<Rightarrow> run_call \<Rightarrow> run_state \<Rightarrow> int \<times> run_state" where
  "run_dispatch H C st =
    (case parseRunArgs (ca_Args C) of None \<Rightarrow> (1, st)
     | Some (conn, command) \<Rightarrow>
        if conn = [] \<or> command = [] then (1, st)
        else (case loadConnectionBackend H conn of
          ConnProviderNotFound \<Rightarrow> (1, st)
        | ConnBackendFails \<Rightarrow> (5, st)
        | ConnLoaded tmpl path \<Rightarrow>
           (case (gatewayRunAddr H, proxyRunAddr H) of
              (Some gatewayAddr, Some proxyAddr) \<Rightarrow>
                (let W = run_world_for H C gatewayAddr proxyAddr; req = run_request C conn command
                 in run_exit H W req (Dispatch_Run run_drivers (Some (run_guard H)) W req st))
            | _ \<Rightarrow> (1, st))))"

definition run_command :: "run_host \<Rightarrow> run_call \<Rightarrow> run_state \<Rightarrow> int \<times> run_state" where
  "run_command H C st =
    (if IsRemovedMode (ca_Runtime C) \<noteq> None then (5, st)
     else if ca_DryRun C then
       (case parseRunArgs (ca_Args C) of None \<Rightarrow> (1, st)
        | Some (conn, command) \<Rightarrow>
           if conn = [] \<or> command = [] then (1, st) else (fst (runDryRun H C conn command), st))
     else (case run_checks H C st of
             (Some code, st1) \<Rightarrow> (code, st1)
           | (None, st1) \<Rightarrow> run_dispatch H C st1))"

subsection \<open>\<open>runtime doctor\<close>\<close>

text \<open>For each mode whether it is reported available; \<open>sandboxOk\<close> is what the sandbox of the platform says.\<close>

definition runtime_doctor :: "bool \<Rightarrow> bool \<Rightarrow> run_template \<Rightarrow> (gostring \<times> bool) list" where
  "runtime_doctor gatewayRunning sandboxOk tmpl =
    map (\<lambda>m. (m,
      if m \<notin> set (rm_Supported tmpl) then False
      else if m \<in> {''gateway_typed'', ''gateway_sdk'', ''gateway_proxy''} then gatewayRunning
      else if m = ''direct_brokered'' then True
      else if m = ''direct_classic_sandboxed'' then sandboxOk
      else False))
    [''gateway_typed'', ''gateway_sdk'', ''direct_brokered'', ''gateway_proxy'', ''direct_classic_sandboxed'']"

end
