(* ===== verification/Run_Facts.thy ===== *)
theory Run_Facts
  imports Run_Command
begin

section \<open>What a run does\<close>

text \<open>
  The effects of a driver and of the dispatcher, and with them: what a run reads and starts, and under which
  conditions; what the token it mints lets the gateway check; which branches of the exit cannot be taken; and how far
  the dry run, the doctor and the argument parser agree with the run.
\<close>

named_theorems runs \<open>what the drivers do\<close>

subsection \<open>Drivers\<close>

text \<open>A driver that stops: an error, nothing done outside, and a gateway found down only inside a structured error.\<close>

definition stopped :: "run_error option \<Rightarrow> run_state \<Rightarrow> run_state \<Rightarrow> bool" where
  "stopped e st st' \<longleftrightarrow> st' = st \<and> (\<exists>err. e = Some err \<and> (errors_As err = None \<longrightarrow> \<not> errors_Is err ErrGatewayNotRunning))"

lemma Mint_error_keeps: "token_Mint E rnd now w spec f = (Inl x, f') \<Longrightarrow> f' = f"
  by (auto simp: token_Mint_def Let_def split: if_splits option.splits sum.splits)

lemma gateway_run_cases:
  assumes "gateway_run mode actor0 rc0 childEnv W req tmpl st = ((receipt, e), st')"
  shows "stopped e st st' \<or> (rw_Running W \<and> e \<in> {None, Some SubprocessFails} \<and>
    (\<exists>jwt t f. token_Mint (rw_Token W) (rw_Random W) (rw_Now W) (rw_Write W) (gateway_spec W actor0 req tmpl) (rs_Tokens st) =
        (Inr (jwt, t), f) \<and>
      st' = effect (Launches mode (xr_Command req)
        (with_canary (ef_CanaryInjectionEnabled (rw_Settings W)) (rw_CanaryRandom W) tmpl (childEnv jwt))) (st\<lparr>rs_Tokens := f\<rparr>)))"
proof -
  obtain m f where m: "token_Mint (rw_Token W) (rw_Random W) (rw_Now W) (rw_Write W) (gateway_spec W actor0 req tmpl) (rs_Tokens st) = (m, f)"
    by fastforce
  consider (early) "xr_Command req = [] \<or> \<not> rw_Running W" | (mint) x where "xr_Command req \<noteq> []" "rw_Running W" "m = Inl x"
    | (go) jwt t where "xr_Command req \<noteq> []" "rw_Running W" "m = Inr (jwt, t)"
    by (metis old.sum.exhaust surj_pair)
  then show ?thesis
  proof cases
    case early
    with assms show ?thesis
      by (auto simp: gateway_run_def stopped_def errors_As_def ErrGatewayNotRunningStructured_def NewRuntimeError_def split: if_splits)
  next
    case (mint x)
    with m Mint_error_keeps have "f = rs_Tokens st" by blast
    with mint m assms show ?thesis by (auto simp: gateway_run_def stopped_def errors_As_def)
  next
    case (go jwt t)
    with m assms show ?thesis by (auto simp: gateway_run_def Let_def split: process_result.splits)
  qed
qed

lemma manifest_excludes [runs]:
  "\<not> manifest_Enabled manifest_Current ''direct_brokered''"
  "\<not> manifest_Enabled manifest_Current ''gateway_proxy''"
  "\<not> manifest_Enabled manifest_Current ''direct_classic_sandboxed''"
  by code_simp+

definition gateway_mode :: "gostring \<Rightarrow> bool" where
  "gateway_mode m \<longleftrightarrow> m = RuntimeGatewayTyped \<or> m = RuntimeGatewaySDK"

text \<open>The environment a gateway driver gives its child for the token.\<close>

definition gateway_child_env :: "gostring \<Rightarrow> run_world \<Rightarrow> exec_request \<Rightarrow> run_template \<Rightarrow> gostring \<Rightarrow> gostring list" where
  "gateway_child_env mode W req tmpl jwt =
    with_canary (ef_CanaryInjectionEnabled (rw_Settings W)) (rw_CanaryRandom W) tmpl
     ((if mode = RuntimeGatewayTyped then gatewayTypedChildEnv else gatewaySdkChildEnv)
        (rw_Environ W) tmpl (''http://'' @ rw_Addr W) jwt (xr_CleanEnv req) (xr_ExtraEnvVars req))"

definition gateway_actor :: "gostring \<Rightarrow> gostring" where
  "gateway_actor mode = (if mode = RuntimeGatewayTyped then ''typed_driver'' else ''sdk_driver'')"

text \<open>A launch as the drivers in the table can make it.\<close>

definition launched :: "run_world \<Rightarrow> exec_request \<Rightarrow> run_template \<Rightarrow> gostring \<Rightarrow> run_state \<Rightarrow> run_state \<Rightarrow> bool" where
  "launched W req tmpl mode st st' \<longleftrightarrow>
    (\<exists>jwt t f. token_Mint (rw_Token W) (rw_Random W) (rw_Now W) (rw_Write W) (gateway_spec W (gateway_actor mode) req tmpl) (rs_Tokens st) =
        (Inr (jwt, t), f) \<and>
      st' = effect (Launches mode (xr_Command req) (gateway_child_env mode W req tmpl jwt)) (st\<lparr>rs_Tokens := f\<rparr>))"

lemma run_drivers_cases:
  assumes d: "run_drivers mode = Some driver" and r: "driver W req tmpl st = ((receipt, e), st')"
  shows "stopped e st st' \<or> (gateway_mode mode \<and> rw_Running W \<and> launched W req tmpl mode st st' \<and> e \<in> {None, Some SubprocessFails})"
proof -
  have typed_sdk: "RuntimeGatewayTyped \<noteq> RuntimeGatewaySDK" by (simp add: runtime_names)
  consider (t) "mode = RuntimeGatewayTyped" "driver = gatewayTyped_Run" | (s) "mode = RuntimeGatewaySDK" "driver = gatewaySdk_Run"
    | (g) inner i where "driver = WithManifestGuard inner manifest_Current i" "\<not> manifest_Enabled manifest_Current i"
    using d manifest_excludes by (auto simp: run_drivers_def split: if_splits)
  then show ?thesis
  proof cases
    case t
    from gateway_run_cases [OF r [unfolded t(2) gatewayTyped_Run_def]] show ?thesis
      using t(1) typed_sdk unfolding gateway_mode_def launched_def gateway_child_env_def gateway_actor_def by auto
  next
    case s
    from gateway_run_cases [OF r [unfolded s(2) gatewaySdk_Run_def]] show ?thesis
      using s(1) typed_sdk unfolding gateway_mode_def launched_def gateway_child_env_def gateway_actor_def by auto
  next
    case g
    with r show ?thesis by (auto simp: WithManifestGuard_def stopped_def errors_As_def)
  qed
qed

text \<open>What the dispatcher has checked when a driver of the table launches.\<close>

definition dispatched :: "run_world \<Rightarrow> exec_request \<Rightarrow> run_error option \<Rightarrow> run_state \<Rightarrow> run_state \<Rightarrow> bool" where
  "dispatched W req e st st' \<longleftrightarrow>
    (\<exists>tmpl d. rw_Catalog W (xr_ConnectionSlug req) = Some tmpl \<and>
      command_allowed (xr_ExtraAllowedPrefixes req @ rm_AllowedCommandPrefixes tmpl) (xr_Command req) \<and>
      runtime_Resolve (xr_Runtime req) tmpl = Inr d \<and> gateway_mode (rd_Mode d) \<and> rw_Running W \<and>
      launched W req tmpl (rd_Mode d) st st' \<and> e \<in> {None, Some SubprocessFails})"

lemma stopped_refl: "errors_As err = None \<Longrightarrow> \<not> errors_Is err ErrGatewayNotRunning \<Longrightarrow> stopped (Some err) st st"
  by (simp add: stopped_def)

lemma Dispatch_cases:
  assumes D: "Dispatch_Run run_drivers g W req st = ((receipt, e), st')"
  shows "stopped e st st' \<or> dispatched W req e st st'"
proof (cases "case g of None \<Rightarrow> False | Some h \<Rightarrow> h (xr_Runtime req) (xr_ApprovalJWT req)")
  case True
  with D show ?thesis by (auto simp: Dispatch_Run_def Let_def errors_As_def intro!: stopped_refl)
next
  case g: False
  show ?thesis
  proof (cases "rw_Catalog W (xr_ConnectionSlug req)")
    case None
    with D g show ?thesis by (auto simp: Dispatch_Run_def Let_def errors_As_def intro!: stopped_refl)
  next
    case (Some tmpl)
    let ?ok = "command_allowed (xr_ExtraAllowedPrefixes req @ rm_AllowedCommandPrefixes tmpl) (xr_Command req)"
    show ?thesis
    proof (cases "?ok \<and> (\<exists>d driver. runtime_Resolve (xr_Runtime req) tmpl = Inr d \<and> run_drivers (rd_Mode d) = Some driver)")
      case False
      with D g Some show ?thesis
        by (auto simp: Dispatch_Run_def Let_def errors_As_def split: if_splits sum.splits option.splits intro!: stopped_refl)
    next
      case True
      then obtain d driver where ok: ?ok and d: "runtime_Resolve (xr_Runtime req) tmpl = Inr d" "run_drivers (rd_Mode d) = Some driver"
        by blast
      obtain r0 where "driver W req tmpl st = ((r0, e), st')"
        using D g Some ok d by (auto simp: Dispatch_Run_def Let_def split: prod.splits)
      from run_drivers_cases [OF d(2) this] Some ok d(1) show ?thesis unfolding dispatched_def by blast
    qed
  qed
qed

subsection \<open>The effects of a run\<close>

text \<open>What a run may do outside.\<close>

fun run_effect_ok :: "run_host \<Rightarrow> run_call \<Rightarrow> run_effect \<Rightarrow> bool" where
  "run_effect_ok H C (ReadsVault p) \<longleftrightarrow> (\<exists>conn tmpl. rw_Catalog (rh_World H) conn = Some tmpl \<and> p = connection_meta_path tmpl conn)"
| "run_effect_ok H C (Launches mode argv env) \<longleftrightarrow>
    gateway_mode mode \<and> mode = ca_Runtime C \<and> rw_Running (rh_World H) \<and> (run_session H \<longrightarrow> ca_Allow C = []) \<and>
    (\<exists>conn tmpl jwt gatewayAddr proxyAddr. parseRunArgs (ca_Args C) = Some (conn, argv) \<and>
       rw_Catalog (rh_World H) conn = Some tmpl \<and> supportedSet tmpl mode \<and>
       command_allowed (flag_words (ca_Allow C) @ rm_AllowedCommandPrefixes tmpl) argv \<and>
       env = gateway_child_env mode (run_world_for H C gatewayAddr proxyAddr) (run_request C conn argv) tmpl jwt)"
| "run_effect_ok H C StartsDaemon \<longleftrightarrow> \<not> ca_NoDaemonStart C"
| "run_effect_ok H C (LaunchesSandboxed exe extra) \<longleftrightarrow> False"
| "run_effect_ok H C SpawnsGateway \<longleftrightarrow> False"

definition effects_ok :: "run_host \<Rightarrow> run_call \<Rightarrow> run_state \<Rightarrow> run_state \<Rightarrow> bool" where
  "effects_ok H C st st' \<longleftrightarrow> (\<exists>new. rs_Effects st' = rs_Effects st @ new \<and> (\<forall>e \<in> set new. run_effect_ok H C e))"

lemma effects_ok_refl [runs]: "effects_ok H C st st"
  by (simp add: effects_ok_def)

lemma effects_ok_trans: "effects_ok H C st st' \<Longrightarrow> effects_ok H C st' st'' \<Longrightarrow> effects_ok H C st st''"
  by (fastforce simp: effects_ok_def)

lemma effects_ok_effect [runs]: "run_effect_ok H C e \<Longrightarrow> effects_ok H C st (effect e st)"
  by (simp add: effects_ok_def effect_def)

lemma effects_ok_tokens [runs]: "effects_ok H C (st\<lparr>rs_Tokens := f\<rparr>) st' = effects_ok H C st st'"
  by (simp add: effects_ok_def)

lemma reads_meta_ok:
  "rw_Catalog (rh_World H) conn = Some tmpl \<Longrightarrow> effects_ok H C st (effect (ReadsVault (connection_meta_path tmpl conn)) st)"
  by (rule effects_ok_effect) (unfold run_effect_ok.simps, blast)

lemma connection_check_ok: "connection_check H args st = (ok, st') \<Longrightarrow> effects_ok H C st st'"
  by (auto simp: connection_check_def loadConnectionBackend_def effects_ok_refl split: option.splits prod.splits if_splits
      intro!: reads_meta_ok)

lemma run_checks_ok:
  assumes "run_checks H C st = (r, st')"
  shows "effects_ok H C st st' \<and> (r = None \<longrightarrow> isKnownMode (ca_Runtime C) \<and> (run_session H \<longrightarrow> ca_Allow C = []))"
proof -
  obtain ok st1 where c: "connection_check H (ca_Args C) st = (ok, st1)" by fastforce
  have "effects_ok H C st1 st' \<or> st' = st"
    using assms c by (auto simp: run_checks_def runs split: if_splits prod.splits)
  then have "effects_ok H C st st'" using effects_ok_trans [OF connection_check_ok [OF c]] effects_ok_refl by blast
  then show ?thesis using assms c by (auto simp: run_checks_def split: if_splits prod.splits)
qed

lemma Resolve_explicit:
  "requested \<noteq> [] \<Longrightarrow> runtime_Resolve requested tmpl = Inr d \<Longrightarrow> rd_Mode d = requested \<and> supportedSet tmpl requested"
  by (auto simp: runtime_Resolve_def decide_mode_Inr split: option.splits if_splits)

lemma known_mode_nonempty: "isKnownMode m \<Longrightarrow> m \<noteq> []"
  by (auto simp: isKnownMode_def AllModes_def runtime_names)

lemma run_exit_stopped: "stopped e st st' \<Longrightarrow> run_exit H W req ((receipt, e), st') = (code, st'') \<Longrightarrow> st'' = st"
  by (auto simp: stopped_def run_exit_def split: if_splits option.splits)

lemma run_exit_dispatched: "dispatched W req e st st' \<Longrightarrow> run_exit H W req ((receipt, e), st') = (code, st'') \<Longrightarrow> st'' = st'"
  by (auto simp: dispatched_def run_exit_def errors_As_def mode_removed_def split: if_splits option.splits)

lemma run_dispatch_ok:
  assumes r: "run_dispatch H C st = (code, st')" and known: "isKnownMode (ca_Runtime C)" and allow: "run_session H \<longrightarrow> ca_Allow C = []"
  shows "effects_ok H C st st'"
proof (cases "st' = st")
  case False
  then obtain conn command tmpl path ga pa where a: "parseRunArgs (ca_Args C) = Some (conn, command)"
      "loadConnectionBackend H conn = ConnLoaded tmpl path" "gatewayRunAddr H = Some ga" "proxyRunAddr H = Some pa"
    using r by (auto simp: run_dispatch_def split: option.splits prod.splits load_connection.splits if_splits)
  define W where "W = run_world_for H C ga pa"
  define req where "req = run_request C conn command"
  obtain receipt e st1 where d: "Dispatch_Run run_drivers (Some (run_guard H)) W req st = ((receipt, e), st1)" by (metis prod.collapse)
  have x: "run_exit H W req ((receipt, e), st1) = (code, st')"
    using r a d False unfolding run_dispatch_def by (auto simp: W_def req_def Let_def split: if_splits)
  with Dispatch_cases [OF d] run_exit_stopped False have g: "dispatched W req e st st1" by metis
  with x run_exit_dispatched have st': "st' = st1" by metis
  have W: "rw_Catalog W = rw_Catalog (rh_World H)" "rw_Running W = rw_Running (rh_World H)"
    and q: "xr_ConnectionSlug req = conn" "xr_Command req = command" "xr_Runtime req = ca_Runtime C"
      "xr_ExtraAllowedPrefixes req = flag_words (ca_Allow C)"
    by (simp_all add: W_def req_def run_world_for_def run_request_def)
  from g obtain tm dd jwt t f where l: "rw_Catalog (rh_World H) conn = Some tm"
      "command_allowed (flag_words (ca_Allow C) @ rm_AllowedCommandPrefixes tm) command"
      "runtime_Resolve (ca_Runtime C) tm = Inr dd" "gateway_mode (rd_Mode dd)" "rw_Running (rh_World H)"
      "st1 = effect (Launches (rd_Mode dd) command (gateway_child_env (rd_Mode dd) W req tm jwt)) (st\<lparr>rs_Tokens := f\<rparr>)"
    unfolding dispatched_def launched_def W q by blast
  have m: "rd_Mode dd = ca_Runtime C" "supportedSet tm (ca_Runtime C)"
    using Resolve_explicit [OF known_mode_nonempty [OF known] l(3)] by auto
  have "run_effect_ok H C (Launches (rd_Mode dd) command (gateway_child_env (rd_Mode dd) W req tm jwt))"
    using l(1,2,4,5) m a(1) allow unfolding run_effect_ok.simps W_def req_def by metis
  then show ?thesis unfolding st' l(6) by (metis effects_ok_effect effects_ok_tokens)
qed (simp add: effects_ok_refl)


definition sample_run_world :: run_world where
  "sample_run_world = \<lparr>rw_Environ = [''PATH=/bin'', ''OPENAI_API_KEY=k''],
     rw_Session = \<lparr>sn_Ancestry = False, sn_Chain = [], sn_Verifier = None\<rparr>, rw_Running = True, rw_Addr = [],
     rw_Token = sample_token_env, rw_Random = Some (replicate 16 0), rw_Now = 0, rw_Write = WriteOk, rw_SigningKey = sample_key,
     rw_StorePath = ''/h/tokens.json'', rw_Settings = no_settings, rw_CanaryRandom = None, rw_Exec = (\<lambda>argv env. ProcExit 3),
     rw_Elapsed = 1, rw_Vault = (\<lambda>p. VaultValue ''m''), rw_Exchange = (\<lambda>a s p c n. None), rw_ProxyLive = False, rw_ProxyAddr = [],
     rw_ProxyToken = None, rw_HashExecutable = (\<lambda>p. None), rw_Sandbox = (\<lambda>p e. False),
     rw_Catalog = (\<lambda>p. if p = ''openai'' then Some (sample_run_template\<lparr>rm_AllowedCommandPrefixes := [''python3 '']\<rparr>) else None)\<rparr>"

definition sample_host :: run_host where
  "sample_host = \<lparr>rh_World = sample_run_world, rh_KeyringStat = StatOk, rh_BackendOk = True, rh_OptIn = False, rh_DaemonRunning = True,
     rh_DaemonSpawns = False, rh_HostPortOk = (\<lambda>a. True), rh_ConfigMode = [], rh_Custom = None, rh_SelfPath = True,
     rh_GatewaySpawns = True, rh_GatewayUp = True\<rparr>"

definition sample_run :: run_call where
  "sample_run = \<lparr>ca_Args = [''openai'', ''python3.12'', ''x.py''], ca_Runtime = RuntimeGatewayTyped, ca_Mode = [], ca_ApprovalJWT = [],
     ca_Allow = [], ca_NoDaemonStart = False, ca_DryRun = False, ca_CleanEnv = False, ca_Extra = []\<rparr>"

definition sample_start :: run_state where
  "sample_start = \<lparr>rs_Tokens = Absent, rs_Effects = []\<rparr>"

lemma sample_run_effects:
  "fst (run_command sample_host sample_run sample_start) = 3 \<and>
   rs_Effects (snd (run_command sample_host sample_run sample_start)) =
    [ReadsVault ''default/llm/openai/meta'',
     Launches RuntimeGatewayTyped [''python3.12'', ''x.py''] [''PATH=/bin'', ''KEYLATCH_GATEWAY_URL=http://127.0.0.1:7878'',
       ''KEYLATCH_GATEWAY_TOKEN=jwt'', ''KEYLATCH_RUNTIME=gateway_typed'']]"
  by code_simp


subsection \<open>A gateway that is down\<close>

text \<open>\<open>run\<close> has code that starts a gateway that is not running and tries again, but it is behind the test for structured
  errors, and the drivers report a gateway that is down only inside one. So the gateway is never started and the command
  never runs: a run that reaches the driver of a gateway mode exits with 5.\<close>

theorem gateway_autostart_unreachable:
  assumes down: "\<not> rw_Running (rh_World H)" and r: "run_command H C st = (code, st')"
  shows "(\<forall>e \<in> set (rs_Effects st') - set (rs_Effects st). e \<noteq> SpawnsGateway \<and> (\<forall>mode argv env. e \<noteq> Launches mode argv env)) \<and>
    (\<forall>W req tmpl. \<not> rw_Running W \<and> xr_Command req \<noteq> [] \<longrightarrow>
      run_exit H W req (gatewayTyped_Run W req tmpl st) = (5, st) \<and> run_exit H W req (gatewaySdk_Run W req tmpl st) = (5, st))"
proof
  obtain r1 st1 where c: "run_checks H C st = (r1, st1)" by fastforce
  note k = run_checks_ok [OF c]
  have "st' = st \<or> st' = st1 \<or> (r1 = None \<and> run_dispatch H C st1 = (code, st'))"
    using r c by (auto simp: run_command_def split: if_splits option.splits prod.splits)
  then have "effects_ok H C st st'"
    using k effects_ok_refl effects_ok_trans run_dispatch_ok by metis
  then obtain new where n: "rs_Effects st' = rs_Effects st @ new" "\<forall>e \<in> set new. run_effect_ok H C e" by (auto simp: effects_ok_def)
  have "e \<noteq> SpawnsGateway \<and> (\<forall>mode argv env. e \<noteq> Launches mode argv env)" if "run_effect_ok H C e" for e
    using that down by (cases e) auto
  with n show "\<forall>e \<in> set (rs_Effects st') - set (rs_Effects st). e \<noteq> SpawnsGateway \<and> (\<forall>mode argv env. e \<noteq> Launches mode argv env)"
    by (metis Diff_iff Un_iff set_append)
  show "\<forall>W req tmpl. \<not> rw_Running W \<and> xr_Command req \<noteq> [] \<longrightarrow>
      run_exit H W req (gatewayTyped_Run W req tmpl st) = (5, st) \<and> run_exit H W req (gatewaySdk_Run W req tmpl st) = (5, st)"
    by (simp add: gatewayTyped_Run_def gatewaySdk_Run_def gateway_run_def run_exit_def errors_As_def
        ErrGatewayNotRunningStructured_def NewRuntimeError_def classToExitCode_def)
qed

theorem gateway_autostart_unreachable_witness:
  "fst (run_command (sample_host\<lparr>rh_World := sample_run_world\<lparr>rw_Running := False\<rparr>\<rparr>) sample_run sample_start) = 5 \<and>
   SpawnsGateway \<notin> set (rs_Effects (snd (run_command (sample_host\<lparr>rh_World := sample_run_world\<lparr>rw_Running := False\<rparr>\<rparr>) sample_run sample_start)))"
proof -
  let ?H = "sample_host\<lparr>rh_World := sample_run_world\<lparr>rw_Running := False\<rparr>\<rparr>"
  have "fst (run_command ?H sample_run sample_start) = 5" by code_simp
  moreover have "\<not> rw_Running (rh_World ?H)" by simp
  from gateway_autostart_unreachable [OF this prod.collapse [symmetric], of sample_run sample_start]
  have "SpawnsGateway \<notin> set (rs_Effects (snd (run_command ?H sample_run sample_start)))" by (auto simp: sample_start_def)
  ultimately show ?thesis by blast
qed

subsection \<open>The token of a run\<close>

lemma Mint_gateway_spec:
  "token_Mint E rnd now w (gateway_spec W actor0 req tmpl) f = (Inr (jwt, t), f') \<Longrightarrow>
    \<not> t_LLMSession t \<and> t_Capabilities t = ts_Capabilities (gateway_spec W actor0 req tmpl) \<and> t_MaxUses t = 0"
  by (auto simp: token_Mint_def Let_def mint_token_def gateway_spec_def split: if_splits option.splits sum.splits)

text \<open>The token a run mints is never marked as an agent session's, whatever session the run belongs to; so the step of the
  gateway that keeps agent sessions from reading and from the routes that refuse them lets every request with this
  token pass, on every route.\<close>

theorem run_token_escapes_session_gate:
  assumes "IsLLMSession (rw_Session W) (getenv (rw_Environ W))"
    and "launched W req tmpl mode st st'"
  shows "\<exists>jwt t f. st' = effect (Launches mode (xr_Command req) (gateway_child_env mode W req tmpl jwt)) (st\<lparr>rs_Tokens := f\<rparr>) \<and>
    token_Mint (rw_Token W) (rw_Random W) (rw_Now W) (rw_Write W) (gateway_spec W (gateway_actor mode) req tmpl) (rs_Tokens st) =
      (Inr (jwt, t), f) \<and> (\<forall>S rt. step_llm S t rt = gw_return ())"
  using assms(2) Mint_gateway_spec unfolding launched_def step_llm_def by fastforce

theorem run_token_escapes_session_gate_witness:
  "\<exists>jwt t f. token_Mint sample_token_env (Some (replicate 16 0)) 0 WriteOk
      (gateway_spec sample_run_world ''typed_driver'' (run_request sample_run ''openai'' [''python3'']) sample_run_template) Absent = (Inr (jwt, t), f) \<and>
    (\<forall>S rt. step_llm S t rt = gw_return ())"
proof -
  let ?W = "sample_run_world\<lparr>rw_Environ := [''KEYLATCH_AGENT_SESSION=1'']\<rparr>"
  let ?req = "run_request sample_run ''openai'' [''python3'']"
  have s: "IsLLMSession (rw_Session ?W) (getenv (rw_Environ ?W))" by code_simp
  let ?spec = "gateway_spec ?W ''typed_driver'' ?req sample_run_template"
  have "fst (token_Mint sample_token_env (Some (replicate 16 0)) 0 WriteOk ?spec Absent) =
      Inr (''jwt'', mint_token sample_token_env ?spec ''00000000-0000-4000-8000-000000000000'' 0)"
    by code_simp
  then obtain t f where m: "token_Mint sample_token_env (Some (replicate 16 0)) 0 WriteOk ?spec Absent = (Inr (''jwt'', t), f)"
    by (metis prod.collapse)
  have "launched ?W ?req sample_run_template RuntimeGatewayTyped sample_start
      (effect (Launches RuntimeGatewayTyped (xr_Command ?req) (gateway_child_env RuntimeGatewayTyped ?W ?req sample_run_template ''jwt''))
        (sample_start\<lparr>rs_Tokens := f\<rparr>))"
    unfolding launched_def gateway_actor_def using m by (auto simp: sample_run_world_def sample_start_def)
  from run_token_escapes_session_gate [OF s this] obtain jwt t f where
      "token_Mint (rw_Token ?W) (rw_Random ?W) (rw_Now ?W) (rw_Write ?W) (gateway_spec ?W (gateway_actor RuntimeGatewayTyped) ?req sample_run_template)
        (rs_Tokens sample_start) = (Inr (jwt, t), f)" "\<forall>S rt. step_llm S t rt = gw_return ()" by blast
  moreover have "gateway_spec ?W a r u = gateway_spec sample_run_world a r u" for a r u by (simp add: gateway_spec_def)
  ultimately show ?thesis by (auto simp: gateway_actor_def sample_run_world_def sample_start_def)
qed

end
