(* ===== verification/Run_Limits.thy ===== *)
theory Run_Limits
  imports Run_Facts
begin

section \<open>Where the run and its reports differ\<close>

text \<open>
  The allowlist spelled out; what the dry run announces against what the drivers of the gateway modes set; the modes the
  doctor reports available; and the arguments the parser refuses.
\<close>

subsection \<open>The allowlist\<close>

lemma prefix_allows_iff:
  "prefix_allows p exe \<longleftrightarrow> exe = TrimRight_space p \<or> (\<exists>c r. c \<in> {CHR ''.'', CHR ''/''} \<and> exe = TrimRight_space p @ c # r)"
proof -
  have x: "HasPrefix exe t \<and> length exe > length t \<and> exe ! length t \<in> X \<longleftrightarrow> (\<exists>c r. c \<in> X \<and> exe = t @ c # r)" for t X
  proof
    assume h: "HasPrefix exe t \<and> length exe > length t \<and> exe ! length t \<in> X"
    then obtain u where e: "exe = t @ u" by (auto simp: HasPrefix_prefix prefix_def)
    with h obtain c r where "u = c # r" by (cases u) auto
    with h e show "\<exists>c r. c \<in> X \<and> exe = t @ c # r" by auto
  qed (auto simp: HasPrefix_prefix)
  show ?thesis unfolding prefix_allows_def Let_def x by (rule refl)
qed

text \<open>A command is on the allowlist exactly when its first word is an entry, without the blanks at its end, or continues
  an entry with a dot or a slash. So an entry admits every path below a directory of its name, whatever it leads to,
  and a blank entry admits every absolute path.\<close>

theorem allowlist_exact:
  "(command_allowed ps command \<longleftrightarrow>
     (\<exists>exe args p. command = exe # args \<and> p \<in> set ps \<and>
        (exe = TrimRight_space p \<or> (\<exists>c r. c \<in> {CHR ''.'', CHR ''/''} \<and> exe = TrimRight_space p @ c # r)))) \<and>
   command_allowed [''node ''] [''node/../../tmp/x''] \<and> command_allowed ['' ''] ((CHR ''/'' # r) # args)"
proof -
  have "command_allowed ps command \<longleftrightarrow> (\<exists>exe args p. command = exe # args \<and> p \<in> set ps \<and> prefix_allows p exe)"
    by (cases command) (auto simp: command_allowed_def list_ex_iff)
  moreover have "TrimRight_space ''node '' = ''node''" "TrimRight_space '' '' = []" by (simp_all add: TrimRight_space_def)
  then have "command_allowed [''node ''] [''node/../../tmp/x'']" "command_allowed ['' ''] ((CHR ''/'' # r) # args)"
    by (auto simp: command_allowed_def prefix_allows_iff)
  ultimately show ?thesis unfolding prefix_allows_iff by blast
qed

subsection \<open>The dry run\<close>

lemma sdkBaseURLVar_suffix: "\<exists>x. sdkBaseURLVar tmpl = x @ ''_BASE_URL''"
  by (auto simp: sdkBaseURLVar_def intro: exI [of _ "''OPENAI''"] exI [of _ "''ANTHROPIC''"] exI [of _ "''OPENROUTER''"])

lemma sdkBaseURLVar_no_setting:
  "sdkBaseURLVar tmpl \<notin> {''KEYLATCH_GATEWAY_URL'', ''KEYLATCH_GATEWAY_TOKEN'', ''KEYLATCH_RUNTIME''}"
proof -
  obtain x where x: "sdkBaseURLVar tmpl = x @ ''_BASE_URL''" using sdkBaseURLVar_suffix by blast
  have "x @ ''_BASE_URL'' = y \<Longrightarrow> HasSuffix y ''_BASE_URL''" for y by (auto simp: HasSuffix_append)
  moreover have "\<not> HasSuffix y ''_BASE_URL''" if "y \<in> {''KEYLATCH_GATEWAY_URL'', ''KEYLATCH_GATEWAY_TOKEN'', ''KEYLATCH_RUNTIME''}" for y
    using that by (auto simp: HasSuffix_def)
  ultimately show ?thesis unfolding x by blast
qed

lemma upper_byte_eq: "c \<noteq> CHR ''='' \<Longrightarrow> upper_byte c \<noteq> CHR ''=''"
proof -
  have "upper_byte d = CHR ''='' \<Longrightarrow> d = CHR ''=''" for d
  proof (cases "is_lower d")
    case True
    then have "byte_of d - 32 < 256" "65 \<le> byte_of d - 32" using byte_of_less [of d] by (auto simp: is_lower_def)
    moreover assume "upper_byte d = CHR ''=''"
    then have "of_char (char_of (byte_of d - 32)) = (of_char (CHR ''='') :: nat)" using True by (simp add: upper_byte_def)
    ultimately show ?thesis by (simp add: of_char_of)
  qed (simp add: upper_byte_def)
  then show "c \<noteq> CHR ''='' \<Longrightarrow> upper_byte c \<noteq> CHR ''=''" by blast
qed

lemma sdkBaseURLVar_no_eq: "CHR ''='' \<notin> set (rm_Provider tmpl) \<Longrightarrow> CHR ''='' \<notin> set (sdkBaseURLVar tmpl)"
proof -
  assume p: "CHR ''='' \<notin> set (rm_Provider tmpl)"
  have "c \<noteq> CHR ''=''" if "c \<in> set (ToUpper (dash_to_underscore (rm_Provider tmpl)))" for c
  proof -
    from that obtain d where d: "d \<in> set (rm_Provider tmpl)" "c = upper_byte (if d = CHR ''-'' then CHR ''_'' else d)"
      by (auto simp: ToUpper_def dash_to_underscore_def)
    then have "(if d = CHR ''-'' then CHR ''_'' else d) \<noteq> CHR ''=''" using p by auto
    then show ?thesis unfolding d(2) by (rule upper_byte_eq)
  qed
  then show ?thesis by (auto simp: sdkBaseURLVar_def)
qed

lemma runDryRun_env:
  assumes "rw_Catalog (rh_World H) conn = Some tmpl" "gateway_mode (ca_Runtime C)" "gatewayRunAddr H = Some addr"
  shows "fst (runDryRun H C conn command) = 0 \<and>
    set (planned_env tmpl (ca_Runtime C) addr) \<subseteq> set (dp_EnvAdded (snd (runDryRun H C conn command)))"
  using assms by (auto simp: runDryRun_def Let_def gateway_mode_def)

text \<open>For the typed gateway the three variables the dry run announces are those the child then has. For the SDK gateway it
  announces the same three, but the driver takes the gateway's address away and sets the base address of the provider's
  SDK instead, which the dry run does not announce.\<close>

theorem dry_run_announces_typed_only:
  assumes "rw_Catalog (rh_World H) conn = Some tmpl" and "gatewayRunAddr H = Some addr" and "CHR ''='' \<notin> set (rm_Provider tmpl)"
    and "ca_Runtime C = mode" and "gateway_mode mode"
  shows "(\<exists>shown. (''KEYLATCH_GATEWAY_URL'', shown) \<in> set (dp_EnvAdded (snd (runDryRun H C conn command)))) \<and>
    getenv (gatewayTypedChildEnv env tmpl url tok False extra) ''KEYLATCH_GATEWAY_URL'' = url \<and>
    getenv (gatewayTypedChildEnv env tmpl url tok False extra) ''KEYLATCH_GATEWAY_TOKEN'' = tok \<and>
    getenv (gatewaySdkChildEnv env tmpl url tok False extra) ''KEYLATCH_GATEWAY_URL'' = [] \<and>
    getenv (gatewaySdkChildEnv env tmpl url tok False extra) (sdkBaseURLVar tmpl) = url \<and>
    (mode = RuntimeGatewaySDK \<longrightarrow> (\<forall>shown. (sdkBaseURLVar tmpl, shown) \<notin> set (planned_env tmpl mode addr)))"
proof -
  have g: "ca_Runtime C = RuntimeGatewayTyped \<or> ca_Runtime C = RuntimeGatewaySDK" using assms(4,5) by (simp add: gateway_mode_def)
  then have "(''KEYLATCH_GATEWAY_URL'', ''<resolved: http://'' @ addr @ ''>'') \<in> set (planned_env tmpl (ca_Runtime C) addr)"
    by (auto simp: planned_env_def Let_def)
  with runDryRun_env [OF assms(1) _ assms(2), of C command] assms(4,5)
  have 1: "\<exists>shown. (''KEYLATCH_GATEWAY_URL'', shown) \<in> set (dp_EnvAdded (snd (runDryRun H C conn command)))" by blast
  note n = sdkBaseURLVar_no_setting [of tmpl] and q = sdkBaseURLVar_no_eq [OF assms(3)]
  have 2: "getenv (gatewaySdkChildEnv env tmpl url tok False extra) k =
      (if k = ''KEYLATCH_RUNTIME'' then RuntimeGatewaySDK else if k = ''KEYLATCH_GATEWAY_TOKEN'' then tok
       else if k = sdkBaseURLVar tmpl then url
       else getenv (FilterChildEnv (strip_denied (map snd (rm_InjectionRules tmpl)) env) [''KEYLATCH_GATEWAY_TOKEN'', ''KEYLATCH_RUNTIME'']) k)" for k
    unfolding gatewaySdkChildEnv_def Let_def
    by (simp only: getenv_appendOrReplace gateway_names_no_eq q not_False_eq_True if_False)
  have 3: "getenv (gatewaySdkChildEnv env tmpl url tok False extra) ''KEYLATCH_GATEWAY_URL'' = []"
    unfolding 2 getenv_FilterChildEnv using n by (auto simp: HasPrefix_def)
  have 4: "getenv (gatewaySdkChildEnv env tmpl url tok False extra) (sdkBaseURLVar tmpl) = url"
    unfolding 2 using n by simp
  have 5: "mode = RuntimeGatewaySDK \<longrightarrow> (\<forall>shown. (sdkBaseURLVar tmpl, shown) \<notin> set (planned_env tmpl mode addr))"
    using n by (auto simp: planned_env_def Let_def)
  from 1 3 4 5 show ?thesis by (simp add: getenv_typed_child)
qed

theorem dry_run_announces_typed_only_witness:
  "(\<exists>shown. (''KEYLATCH_GATEWAY_URL'', shown) \<in>
     set (dp_EnvAdded (snd (runDryRun sample_host (sample_run\<lparr>ca_Runtime := RuntimeGatewaySDK\<rparr>) ''openai'' [''x'']))))"
proof -
  have "rw_Catalog (rh_World sample_host) ''openai'' = Some (sample_run_template\<lparr>rm_AllowedCommandPrefixes := [''python3 '']\<rparr>)"
    by (simp add: sample_host_def sample_run_world_def)
  moreover have "gatewayRunAddr sample_host = Some ''127.0.0.1:7878''" by code_simp
  moreover have "CHR ''='' \<notin> set (rm_Provider (sample_run_template\<lparr>rm_AllowedCommandPrefixes := [''python3 '']\<rparr>))"
    by (simp add: sample_run_template_def)
  ultimately show ?thesis
    using dry_run_announces_typed_only [of sample_host "''openai''" _ "''127.0.0.1:7878''" "sample_run\<lparr>ca_Runtime := RuntimeGatewaySDK\<rparr>"
        RuntimeGatewaySDK] by (simp add: gateway_mode_def)
qed

subsection \<open>The doctor\<close>

text \<open>\<open>runtime doctor\<close> reports the brokered mode of every provider that supports it as available, and the proxy whenever the
  gateway is up; but the manifest of this build excludes both, and the driver the run would use refuses.\<close>

theorem doctor_reports_excluded_modes:
  assumes "set [RuntimeDirectBrokered, RuntimeGatewayProxy] \<subseteq> set (rm_Supported tmpl)"
  shows "(RuntimeDirectBrokered, True) \<in> set (runtime_doctor up sb tmpl) \<and> (RuntimeGatewayProxy, up) \<in> set (runtime_doctor up sb tmpl) \<and>
    (\<forall>mode \<in> {RuntimeDirectBrokered, RuntimeGatewayProxy}. \<exists>driver. run_drivers mode = Some driver \<and>
      (\<forall>W req st. snd (fst (driver W req tmpl st)) = Some (ErrModeUnavailable mode) \<and> snd (driver W req tmpl st) = st))"
proof -
  have "run_drivers RuntimeDirectBrokered = Some (WithManifestGuard brokered_Run manifest_Current ''direct_brokered'')"
    "run_drivers RuntimeGatewayProxy =
      Some (WithManifestGuard (WithLivenessGuard proxy_Run rw_ProxyLive ErrProxyNotRunning) manifest_Current ''gateway_proxy'')"
    by (simp_all add: run_drivers_def runtime_names)
  moreover have "(RuntimeDirectBrokered, True) \<in> set (runtime_doctor up sb tmpl) \<and> (RuntimeGatewayProxy, up) \<in> set (runtime_doctor up sb tmpl)"
    using assms by (simp add: runtime_doctor_def runtime_names)
  ultimately show ?thesis using manifest_excludes by (simp add: WithManifestGuard_def runtime_names)
qed

theorem doctor_reports_excluded_modes_witness:
  "(RuntimeDirectBrokered, True) \<in> set (runtime_doctor True False (sample_run_template\<lparr>rm_Supported := AllModes\<rparr>))"
  using doctor_reports_excluded_modes [of "sample_run_template\<lparr>rm_Supported := AllModes\<rparr>" True False] by (simp add: AllModes_def)

subsection \<open>Arguments\<close>

text \<open>The command line library removes the separator before the command, so what the parser sees is the connection
  followed by the command. A command with no separator of its own is taken as it is, and so are words that were
  written before the separator, which the parser means to refuse; a command that has one after its first word is refused.\<close>

theorem run_args_after_separator:
  assumes "conn \<noteq> ''--''" and "w \<noteq> ''--''"
  shows "parseRunArgs (conn # w # rest) = (if ''--'' \<in> set rest then None else Some (conn, w # rest))"
proof (cases "''--'' \<in> set rest")
  case True
  then obtain u v where "rest = u @ ''--'' # v" "''--'' \<notin> set u" by (meson split_list_first)
  then have l: "length (takeWhile (\<lambda>a. a \<noteq> ''--'') rest) < length rest" by (simp, subst takeWhile_append2) auto
  have t: "takeWhile (\<lambda>a. a \<noteq> ''--'') (conn # w # rest) = conn # w # takeWhile (\<lambda>a. a \<noteq> ''--'') rest" using assms by simp
  show ?thesis unfolding parseRunArgs_def Let_def t using l True by simp
next
  case False
  then have "takeWhile (\<lambda>a. a \<noteq> ''--'') (conn # w # rest) = conn # w # rest" using assms by (auto simp: takeWhile_eq_all_conv)
  then show ?thesis unfolding parseRunArgs_def Let_def using False by simp
qed

theorem run_args_after_separator_witness:
  "parseRunArgs [''github'', ''npm'', ''test'', ''--'', ''-v''] = None"
  using run_args_after_separator [of "''github''" "''npm''" "[''test'', ''--'', ''-v'']"] by simp

end
