(* ===== verification/Runner_Policy.thy ===== *)
theory Runner_Policy
  imports Child_Env_Facts Policy Grant
begin

section \<open>The policy check of the runner (\<open>internal/runner/policy.go\<close>)\<close>

text \<open>
  \<open>CheckPolicy\<close> composes the policy engine, the grants, the inferred actor and the classification of the session;
  \<open>CheckPolicyWithAudit\<close> turns the answer into an audit event. The policy and the grants are files by path; the working
  directory is empty when the system does not give it.
\<close>

record policy_options =
  pt_Actor :: gostring
  pt_Capability :: gostring
  pt_ApprovalJWT :: gostring
  pt_Namespace :: gostring
  pt_Runtime :: gostring
  pt_PolicyPath :: gostring
  pt_GrantPath :: gostring

record policy_host =
  ph_Path :: path_env
  ph_Env :: lookup
  ph_Session :: session_env
  ph_Windows :: bool
  ph_Terminal :: bool
  ph_PolicyFile :: "gostring \<Rightarrow> policy_file"
  ph_GrantFile :: "gostring \<Rightarrow> grant list jsonfile"
  ph_WorkingDir :: gostring
  ph_OrgHook :: org_hook
  ph_Now :: gotime
  ph_ApprovalToken :: gostring
  ph_Find :: find_env
  ph_FS :: fs

datatype policy_check_error = LoadPolicyFails load_error | ErrPolicyDeny | ErrApprovalRequired

definition absent_policy :: policy where
  "absent_policy = \<lparr>po_SchemaVersion = 1, po_Mode = ModeEnforcing, po_Rules = [], po_DefaultDeny = True, po_CreatedAt = 0,
     po_UpdatedAt = 0, po_TeamModeBaseline = False\<rparr>"

definition runner_policy :: "policy_host \<Rightarrow> policy_options \<Rightarrow> load_error + policy" where
  "runner_policy K opts =
    (let f = ph_PolicyFile K (if pt_PolicyPath opts = [] then path_Policy (ph_Path K) (ph_Env K) else pt_PolicyPath opts) in
     case policy_Load (ph_Windows K) f of
       Inl e \<Rightarrow> if pf_Content f = Absent then Inr absent_policy else Inl e
     | Inr p \<Rightarrow> Inr p)"

definition runner_actor :: "policy_host \<Rightarrow> policy_options \<Rightarrow> gostring" where
  "runner_actor K opts = (if pt_Actor opts = [] then ac_Name (actor_Infer (ph_Terminal K) (ph_Env K)) else pt_Actor opts)"

definition runner_capability :: "policy_options \<Rightarrow> gostring" where
  "runner_capability opts = (if pt_Capability opts = [] then ''inject'' else pt_Capability opts)"

definition runner_request :: "policy_host \<Rightarrow> gostring \<Rightarrow> gostring list \<Rightarrow> policy_options \<Rightarrow> request" where
  "runner_request K conn command opts =
    \<lparr>rq_Actor = runner_actor K opts, rq_Connection = conn, rq_Capability = runner_capability opts, rq_Command = command,
     rq_CWD = ph_WorkingDir K, rq_LLMSession = IsLLMSession (ph_Session K) (ph_Env K), rq_Runtime = pt_Runtime opts,
     rq_ApprovalJWT = pt_ApprovalJWT opts, rq_Namespace = pt_Namespace opts, rq_PresenceProof = None\<rparr>"

definition runner_grant_request :: "policy_host \<Rightarrow> gostring \<Rightarrow> gostring list \<Rightarrow> policy_options \<Rightarrow> find_request" where
  "runner_grant_request K conn command opts =
    \<lparr>fr_Actor = runner_actor K opts, fr_Connection = conn, fr_Capability = runner_capability opts, fr_Command = command,
     fr_CWD = ph_WorkingDir K\<rparr>"

definition runner_grants :: "policy_host \<Rightarrow> policy_options \<Rightarrow> grant list jsonfile" where
  "runner_grants K opts =
    ph_GrantFile K (if pt_GrantPath opts = [] then path_Grants (ph_Path K) (ph_Env K) else pt_GrantPath opts)"

definition policy_outcome :: "decision \<Rightarrow> decision \<times> policy_check_error option" where
  "policy_outcome d =
    (if \<not> de_Allow d then (d, Some ErrPolicyDeny)
     else if de_ApprovalRequired d then (d, Some ErrApprovalRequired) else (d, None))"

text \<open>The outer sum is the panic of the policy engine; the reason of a grant is free text.\<close>

definition CheckPolicy ::
  "policy_host \<Rightarrow> gostring \<Rightarrow> gostring list \<Rightarrow> policy_options \<Rightarrow> (gostring \<Rightarrow> clog) \<Rightarrow>
     (policy_panic + decision \<times> policy_check_error option) \<times> (gostring \<Rightarrow> clog)" where
  "CheckPolicy K conn command opts L =
    (case runner_policy K opts of Inl e \<Rightarrow> (Inr (zero_decision, Some (LoadPolicyFails e)), L)
     | Inr p \<Rightarrow>
        (case policy_Check (ph_OrgHook K) (ph_Now K) (ph_ApprovalToken K) p (runner_request K conn command opts) of
           Inl panic \<Rightarrow> (Inl panic, L)
         | Inr d \<Rightarrow>
            if de_Allow d then (Inr (policy_outcome d), L)
            else (case grant_Find (ph_Find K) (ph_FS K) (runner_grant_request K conn command opts) (runner_grants K opts) L of
              (Some g, L') \<Rightarrow>
                (Inr (policy_outcome (zero_decision\<lparr>de_Allow := True, de_MatchedGrantID := g_ID g, de_Reason := OrgReason (''grant:'' @ g_ID g)\<rparr>)), L')
            | (None, L') \<Rightarrow> (Inr (policy_outcome d), L'))))"

text \<open>The outcome and the result field of the one event; a matched rule is named by its index in the policy.\<close>

definition policy_event_outcome :: "policy_check_error option \<Rightarrow> gostring" where
  "policy_event_outcome e = (case e of None \<Rightarrow> ''ok'' | Some ErrPolicyDeny \<Rightarrow> ''denied'' | Some _ \<Rightarrow> ''error'')"

definition policy_event_result :: "policy \<Rightarrow> decision \<Rightarrow> gostring" where
  "policy_event_result p d =
    (case de_Reason d of
       OrgReason s \<Rightarrow>
         if HasPrefix s ''grant:'' then s
         else (if de_Allow d then ''allow'' else ''deny'') @
           (case de_MatchedRule d of None \<Rightarrow> [] | Some i \<Rightarrow> '':rule:'' @ ru_ID (po_Rules p ! i))
     | _ \<Rightarrow> (if de_Allow d then ''allow'' else ''deny'') @
           (case de_MatchedRule d of None \<Rightarrow> [] | Some i \<Rightarrow> '':rule:'' @ ru_ID (po_Rules p ! i)))"

subsection \<open>Properties\<close>

text \<open>What stands behind an answer: the decision of the engine, or a usable grant after it said no.\<close>

definition granted_by :: "policy_host \<Rightarrow> gostring \<Rightarrow> gostring list \<Rightarrow> policy_options \<Rightarrow> grant \<Rightarrow> bool" where
  "granted_by K conn command opts g \<longleftrightarrow>
    (\<exists>gs. runner_grants K opts = Holds gs \<and> g \<in> set gs) \<and> \<not> g_Revoked g \<and> fe_Now (ph_Find K) \<le> g_ExpiresAt g \<and>
    \<not> g_IssuedFromLLMSession g \<and> grantFieldsMatch (ph_FS K) g (runner_grant_request K conn command opts)"

lemma grant_Find_granted:
  assumes "grant_Find (ph_Find K) (ph_FS K) (runner_grant_request K conn command opts) (runner_grants K opts) L = (Some g, L')"
  shows "\<exists>g0. granted_by K conn command opts g0 \<and> g_ID g = g_ID g0"
  using assms find_grants_usable
  by (fastforce simp: grant_Find_def readGrants_def usable_def granted_by_def split: jsonfile.splits)

lemma absent_policy_denies:
  assumes "policy_Check None now tok absent_policy req = Inr d" "rq_Capability req \<notin> set managementCaps"
  shows "\<not> de_Allow d"
  using assms by (auto simp: policy_Check_def absent_policy_def zero_decision_def split: option.splits if_splits)

text \<open>The check lets a command through only when the engine allows it and asks for no approval, or when the engine refuses
  it and a grant of the file, issued outside agent sessions, not revoked and not expired, covers actor, connection,
  capability, command and directory. A grant so overrides every refusal of the engine, that of reading in an agent session
  too, but not an approval the engine asks for. Without a policy file and without an organisation's hook only a
  grant or a management capability gets through.\<close>

theorem check_policy_allows_exactly:
  assumes "CheckPolicy K conn command opts L = (Inr (d, None), L')" and "runner_policy K opts = Inr p"
  shows "de_Allow d \<and> \<not> de_ApprovalRequired d \<and>
    ((policy_Check (ph_OrgHook K) (ph_Now K) (ph_ApprovalToken K) p (runner_request K conn command opts) = Inr d \<and> L' = L) \<or>
     (\<exists>d0 g. policy_Check (ph_OrgHook K) (ph_Now K) (ph_ApprovalToken K) p (runner_request K conn command opts) = Inr d0 \<and>
        \<not> de_Allow d0 \<and> granted_by K conn command opts g \<and> de_MatchedGrantID d = g_ID g)) \<and>
    (ph_OrgHook K = None \<and> p = absent_policy \<and> runner_capability opts \<notin> set managementCaps \<longrightarrow>
       (\<exists>g. granted_by K conn command opts g \<and> de_MatchedGrantID d = g_ID g))"
proof -
  obtain d0 where d0: "policy_Check (ph_OrgHook K) (ph_Now K) (ph_ApprovalToken K) p (runner_request K conn command opts) = Inr d0"
    using assms by (auto simp: CheckPolicy_def split: sum.splits)
  have a: "(ph_OrgHook K = None \<and> p = absent_policy \<and> runner_capability opts \<notin> set managementCaps) \<Longrightarrow> \<not> de_Allow d0"
    using d0 absent_policy_denies by (metis (no_types, lifting) runner_request_def request.select_convs(3))
  show ?thesis
  proof (cases "de_Allow d0")
    case True
    with assms d0 a show ?thesis by (auto simp: CheckPolicy_def policy_outcome_def split: if_splits)
  next
    case False
    then obtain g where g: "grant_Find (ph_Find K) (ph_FS K) (runner_grant_request K conn command opts) (runner_grants K opts) L = (Some g, L')"
      and d: "d = zero_decision\<lparr>de_Allow := True, de_MatchedGrantID := g_ID g, de_Reason := OrgReason (''grant:'' @ g_ID g)\<rparr>"
      using assms d0 by (auto simp: CheckPolicy_def policy_outcome_def zero_decision_def split: if_splits option.splits prod.splits)
    from grant_Find_granted [OF g] obtain g0 where g0: "granted_by K conn command opts g0" "g_ID g = g_ID g0" by blast
    have "de_Allow d" "\<not> de_ApprovalRequired d" "de_MatchedGrantID d = g_ID g0" by (simp_all add: d g0 zero_decision_def)
    with d0 False g0(1) show ?thesis by blast
  qed
qed

text \<open>An agent session that reads with a grant a human issued.\<close>

definition sample_policy_host :: policy_host where
  "sample_policy_host = \<lparr>ph_Path = sample_paths, ph_Env = (\<lambda>_. [])(''KEYLATCH_AGENT_SESSION'' := ''1''),
     ph_Session = \<lparr>sn_Ancestry = False, sn_Chain = [], sn_Verifier = None\<rparr>, ph_Windows = False, ph_Terminal = False,
     ph_PolicyFile = (\<lambda>_. \<lparr>pf_Content = Absent, pf_Perm = 0\<rparr>),
     ph_GrantFile = (\<lambda>_. Holds [sample_grant\<lparr>g_Capability := ''read''\<rparr>]), ph_WorkingDir = ''/w/a'', ph_OrgHook = None, ph_Now = 5,
     ph_ApprovalToken = [], ph_Find = sample_find_env, ph_FS = sample_fs\<rparr>"

definition sample_policy_options :: policy_options where
  "sample_policy_options = \<lparr>pt_Actor = ''bob'', pt_Capability = ''read'', pt_ApprovalJWT = [], pt_Namespace = [], pt_Runtime = [],
     pt_PolicyPath = ''p'', pt_GrantPath = ''g''\<rparr>"

lemma sample_check_granted:
  "(case fst (CheckPolicy sample_policy_host ''db'' [''npm'', ''test'', ''-v''] sample_policy_options sample_logs) of
      Inr (d, e) \<Rightarrow> e = None | _ \<Rightarrow> False) \<and>
   rq_LLMSession (runner_request sample_policy_host ''db'' [''npm'', ''test'', ''-v''] sample_policy_options)"
  by code_simp

theorem check_policy_allows_exactly_witness:
  "\<exists>g. granted_by sample_policy_host ''db'' [''npm'', ''test'', ''-v''] sample_policy_options g \<and>
     rq_LLMSession (runner_request sample_policy_host ''db'' [''npm'', ''test'', ''-v''] sample_policy_options) \<and> isReadClassCap ''read''"
proof -
  obtain d L' where c: "CheckPolicy sample_policy_host ''db'' [''npm'', ''test'', ''-v''] sample_policy_options sample_logs = (Inr (d, None), L')"
    using sample_check_granted
    by (cases "CheckPolicy sample_policy_host ''db'' [''npm'', ''test'', ''-v''] sample_policy_options sample_logs")
      (auto split: sum.splits prod.splits)
  have p: "runner_policy sample_policy_host sample_policy_options = Inr absent_policy"
    by (simp add: runner_policy_def sample_policy_host_def policy_Load_def)
  have "ph_OrgHook sample_policy_host = None" "runner_capability sample_policy_options \<notin> set managementCaps"
    by (simp_all add: sample_policy_host_def runner_capability_def sample_policy_options_def managementCaps_def)
  moreover have "isReadClassCap ''read''" by code_simp
  ultimately show ?thesis using check_policy_allows_exactly [OF c p] sample_check_granted by blast
qed

end
