(* ===== verification/Sandbox.thy ===== *)
theory Sandbox
  imports Session_Paths
begin

section \<open>The sandbox of a command (\<open>internal/sandbox\<close>)\<close>

text \<open>
  \<open>manifest.go\<close>: the profile, the check that no mount exposes the files of Keylatch, and the resolution of links;
  \<open>driver_linux.go\<close>: the arguments of \<open>bwrap\<close> with the masks of the denied paths; \<open>driver_darwin.go\<close>: the rules of the
  \<open>sandbox-exec\<close> profile. The file system is read through \<open>EvalSymlinks\<close>, \<open>Lstat\<close>, \<open>Stat\<close> and the hash of a file. The
  injected variables of a profile are a list in the order the map is walked.
\<close>

subsection \<open>Profiles\<close>

record bind_mount =
  bm_Src :: gostring
  bm_Dest :: gostring
  bm_RO :: bool

record sandbox_manifest =
  sm_ProfileID :: gostring
  sm_Executable :: gostring
  sm_ExecHash :: gostring
  sm_BindMounts :: "bind_mount list"
  sm_Deny :: "gostring list"
  sm_EnvAllowlist :: "gostring list"
  sm_EnvInject :: "(gostring \<times> gostring) list"

datatype lstat = LstatNotExist | LstatFails | LstatSymlink | LstatDir | LstatOther

record sandbox_fs =
  sf_EvalSymlinks :: "gostring \<Rightarrow> gostring option"
  sf_Lstat :: "gostring \<Rightarrow> lstat"
  sf_Exists :: "gostring \<Rightarrow> bool"
  sf_Hash :: "gostring \<Rightarrow> gostring option"
  sf_Read :: "gostring \<Rightarrow> sandbox_manifest option option"

datatype sandbox_error =
    ErrForbiddenMount gostring | ErrDenyUnenforceable gostring | ErrHashMismatch | ErrSandboxFlagRequired
  | InvalidProfileID | NoHomeDir | ReadManifestFails | ParseManifestFails | HashFails

text \<open>The file of a profile is absent, does not parse, or holds a profile.\<close>

definition LoadManifestFromPath :: "sandbox_fs \<Rightarrow> gostring \<Rightarrow> sandbox_error + sandbox_manifest" where
  "LoadManifestFromPath F path =
    (case sf_Read F path of None \<Rightarrow> Inl ReadManifestFails | Some None \<Rightarrow> Inl ParseManifestFails | Some (Some m) \<Rightarrow> Inr m)"

definition LoadManifest :: "sandbox_fs \<Rightarrow> gostring option \<Rightarrow> gostring \<Rightarrow> sandbox_error + sandbox_manifest" where
  "LoadManifest F home profileID =
    (if profileID \<in> {[], ''..'', ''.''} \<or> CHR ''/'' \<in> set profileID \<or> CHR 0x5C \<in> set profileID then Inl InvalidProfileID
     else (case home of None \<Rightarrow> Inl NoHomeDir
       | Some h \<Rightarrow> LoadManifestFromPath F
           (filepath_Join (filepath_Join (filepath_Join h ''.keylatch'') ''sandbox-profiles'') (profileID @ ''.yaml''))))"

definition VerifyExecHash :: "sandbox_fs \<Rightarrow> sandbox_manifest \<Rightarrow> sandbox_error option" where
  "VerifyExecHash F m =
    (case sf_Hash F (sm_Executable m) of None \<Rightarrow> Some HashFails
     | Some got \<Rightarrow> if got \<noteq> sm_ExecHash m then Some ErrHashMismatch else None)"

subsection \<open>Paths\<close>

definition filepath_Base :: "gostring \<Rightarrow> gostring" where
  "filepath_Base p =
    (if p = [] then ''.''
     else (let q = rev (dropWhile (\<lambda>c. c = CHR ''/'') (rev p));
               b = rev (takeWhile (\<lambda>c. c \<noteq> CHR ''/'') (rev q))
           in if b = [] then ''/'' else b))"

definition isUnder :: "gostring \<Rightarrow> gostring \<Rightarrow> bool" where
  "isUnder path dir =
    (case Rel dir path of None \<Rightarrow> False
     | Some rel \<Rightarrow> \<not> IsAbs rel \<and> (rel = ''.'' \<or> (rel \<noteq> ''..'' \<and> \<not> HasPrefix rel ''../'')))"

text \<open>The loop up the parents; it has at most one turn for each element of the path and one for the root, so the length of
  the path bounds it.\<close>

fun resolve_from :: "sandbox_fs \<Rightarrow> gostring \<Rightarrow> nat \<Rightarrow> gostring \<Rightarrow> gostring \<Rightarrow> gostring option" where
  "resolve_from F p 0 cur rest = None"
| "resolve_from F p (Suc n) cur rest =
    (case sf_EvalSymlinks F cur of
       Some resolved \<Rightarrow> Some (filepath_Join resolved rest)
     | None \<Rightarrow>
         if filepath_Dir cur = cur then Some p
         else resolve_from F p n (filepath_Dir cur) (filepath_Join (filepath_Base cur) rest))"

definition resolveExisting :: "sandbox_fs \<Rightarrow> gostring \<Rightarrow> gostring option" where
  "resolveExisting F p = resolve_from F p (Suc (length p)) p []"

definition pathForms :: "sandbox_fs \<Rightarrow> gostring \<Rightarrow> gostring list" where
  "pathForms F p =
    (let clean = Clean p in
     case resolveExisting F clean of
       Some resolved \<Rightarrow> if resolved \<noteq> clean then [clean, resolved] else [clean]
     | None \<Rightarrow> [clean])"

definition protectedPaths :: "path_env \<Rightarrow> gostring \<Rightarrow> lookup \<Rightarrow> gostring list" where
  "protectedPaths P homeDir env =
    [filepath_Join homeDir ''.keylatch'', filepath_Join (filepath_Join homeDir ''.config'') ''keylatch'',
     filepath_Join (filepath_Join (filepath_Join homeDir ''Library'') ''Application Support'') ''keylatch''] @
    (if env ''XDG_CONFIG_HOME'' \<noteq> [] then [filepath_Join (env ''XDG_CONFIG_HOME'') ''keylatch''] else []) @
    filter IsAbs
      [path_ConfigDir P env, path_Config P env, path_Vault P env, path_Audit P env, path_AuditSalt P env, path_Policy P env,
       path_Grants P env, path_GrantsDir P env, path_GrantAccessorKey P env, path_KeyringDir P env, path_KeyringPath P env,
       path_KeyringIdentityPath P env, path_GatewayDir P env, path_GatewaySigningKey P env, path_GatewayTokens P env,
       path_ApprovalsDir P env, path_DaemonState P env]"

subsection \<open>Mounts\<close>

definition forbidden_path :: "sandbox_fs \<Rightarrow> gostring list \<Rightarrow> gostring \<Rightarrow> bool" where
  "forbidden_path F guarded raw =
    (\<not> IsAbs raw \<or> list_ex (\<lambda>form. list_ex (\<lambda>g. isUnder form g \<or> isUnder g form) guarded) (pathForms F raw))"

definition validateBindMounts :: "sandbox_fs \<Rightarrow> sandbox_manifest \<Rightarrow> gostring list \<Rightarrow> sandbox_error option" where
  "validateBindMounts F m protected =
    (let guarded = concat (map (pathForms F) protected) in
     map_option ErrForbiddenMount
       (List.find (forbidden_path F guarded) (concat (map (\<lambda>bm. [bm_Src bm, bm_Dest bm]) (sm_BindMounts m)))))"

definition validateBindMountsWithHome ::
  "sandbox_fs \<Rightarrow> path_env \<Rightarrow> lookup \<Rightarrow> sandbox_manifest \<Rightarrow> gostring \<Rightarrow> sandbox_error option" where
  "validateBindMountsWithHome F P env m homeDir =
    (case (if homeDir = [] then pe_Home P else Some homeDir) of
       None \<Rightarrow> Some NoHomeDir
     | Some h \<Rightarrow> validateBindMounts F m (protectedPaths P h env))"

subsection \<open>Linux\<close>

text \<open>A mount inside the sandbox: where it is, and the directory of the host behind it, empty when there is none.\<close>

type_synonym sandbox_mount = "gostring \<times> gostring"

fun hostPath_last :: "gostring \<Rightarrow> sandbox_mount list \<Rightarrow> gostring option" where
  "hostPath_last p [] = None"
| "hostPath_last p ((dest, src) # earlier) =
    (if \<not> isUnder p dest then hostPath_last p earlier
     else if src = [] then None
     else (case Rel dest p of None \<Rightarrow> None | Some rel \<Rightarrow> Some (filepath_Join src rel)))"

definition hostPathFor :: "gostring \<Rightarrow> sandbox_mount list \<Rightarrow> gostring option" where
  "hostPathFor p mounts = hostPath_last p (rev mounts)"

text \<open>The mask of one denied path; no arguments when there is nothing to mask.\<close>

definition deny_mask :: "sandbox_fs \<Rightarrow> sandbox_mount list \<Rightarrow> gostring \<Rightarrow> sandbox_error + gostring list" where
  "deny_mask F mounts raw =
    (if \<not> IsAbs raw then Inl (ErrDenyUnenforceable raw)
     else (case hostPathFor (Clean raw) mounts of None \<Rightarrow> Inr []
       | Some host \<Rightarrow>
          (case sf_Lstat F host of
             LstatNotExist \<Rightarrow> Inr []
           | LstatFails \<Rightarrow> Inl (ErrDenyUnenforceable raw)
           | LstatSymlink \<Rightarrow> Inl (ErrDenyUnenforceable raw)
           | LstatDir \<Rightarrow> Inr [''--tmpfs'', Clean raw]
           | LstatOther \<Rightarrow> Inr [''--ro-bind'', ''/dev/null'', Clean raw])))"

fun bwrapDenyArgs :: "sandbox_fs \<Rightarrow> gostring list \<Rightarrow> sandbox_mount list \<Rightarrow> sandbox_error + gostring list" where
  "bwrapDenyArgs F [] mounts = Inr []"
| "bwrapDenyArgs F (raw # deny) mounts =
    (case deny_mask F mounts raw of Inl e \<Rightarrow> Inl e
     | Inr covering \<Rightarrow> (case bwrapDenyArgs F deny mounts of Inl e \<Rightarrow> Inl e | Inr args \<Rightarrow> Inr (covering @ args)))"

definition systemDirs :: "sandbox_fs \<Rightarrow> gostring list" where
  "systemDirs F = [''/usr'', ''/lib'', ''/bin'', ''/etc''] @ (if sf_Exists F ''/lib64'' then [''/lib64''] else [])"

definition sandbox_mounts :: "sandbox_fs \<Rightarrow> sandbox_manifest \<Rightarrow> sandbox_mount list" where
  "sandbox_mounts F m =
    map (\<lambda>d. (d, d)) (systemDirs F) @ [(''/dev'', []), (''/proc'', []), (''/tmp'', [])] @
    map (\<lambda>bm. (Clean (bm_Dest bm), Clean (bm_Src bm))) (sm_BindMounts m)"

definition mount_args :: "sandbox_fs \<Rightarrow> sandbox_manifest \<Rightarrow> gostring list" where
  "mount_args F m =
    concat (map (\<lambda>d. [''--ro-bind'', d, d]) (systemDirs F)) @ [''--dev'', ''/dev'', ''--proc'', ''/proc'', ''--tmpfs'', ''/tmp''] @
    concat (map (\<lambda>bm. [if bm_RO bm then ''--ro-bind'' else ''--bind'', bm_Src bm, bm_Dest bm]) (sm_BindMounts m))"

definition indexOf :: "gostring \<Rightarrow> char \<Rightarrow> nat option" where
  "indexOf s c = (if c \<in> set s then Some (length (takeWhile (\<lambda>d. d \<noteq> c) s)) else None)"

definition setenv_args :: "gostring list \<Rightarrow> gostring list" where
  "setenv_args extraEnv =
    concat (map (\<lambda>entry. case indexOf entry (CHR ''='') of None \<Rightarrow> []
      | Some idx \<Rightarrow> [''--setenv'', take idx entry, drop (Suc idx) entry]) extraEnv)"

definition buildBwrapArgs :: "sandbox_fs \<Rightarrow> sandbox_manifest \<Rightarrow> gostring list \<Rightarrow> sandbox_error + gostring list" where
  "buildBwrapArgs F m extraEnv =
    (case bwrapDenyArgs F (sm_Deny m) (sandbox_mounts F m) of Inl e \<Rightarrow> Inl e
     | Inr masks \<Rightarrow>
        Inr (mount_args F m @ masks @ [''--unsetenv'', ''HOME'', ''--unsetenv'', ''USER'', ''--unsetenv'', ''XDG_RUNTIME_DIR''] @
          concat (map (\<lambda>(k, v). [''--setenv'', k, v]) (sm_EnvInject m)) @ setenv_args extraEnv @ [''--'', sm_Executable m]))"

text \<open>Up to the start of \<open>bwrap\<close>: its arguments.\<close>

definition RunSandboxed_linux ::
  "sandbox_fs \<Rightarrow> path_env \<Rightarrow> lookup \<Rightarrow> sandbox_manifest \<Rightarrow> bool \<Rightarrow> gostring list \<Rightarrow> sandbox_error + gostring list" where
  "RunSandboxed_linux F P env m featureEnabled extraEnv =
    (if \<not> featureEnabled then Inl ErrSandboxFlagRequired
     else (case VerifyExecHash F m of Some e \<Rightarrow> Inl e
       | None \<Rightarrow>
          (case pe_Home P of None \<Rightarrow> Inl NoHomeDir
           | Some home \<Rightarrow>
              (case validateBindMountsWithHome F P env m home of Some e \<Rightarrow> Inl e
               | None \<Rightarrow> buildBwrapArgs F m extraEnv))))"

subsection \<open>macOS\<close>

text \<open>A rule of the profile: whether it allows or denies, whether writing too, and the path it covers.\<close>

datatype sb_rule = AllowRead gostring | AllowReadWrite gostring | AllowExec gostring | DenyAll gostring

definition generateSbProfile :: "sandbox_fs \<Rightarrow> path_env \<Rightarrow> lookup \<Rightarrow> sandbox_manifest \<Rightarrow> sandbox_error + sb_rule list" where
  "generateSbProfile F P env m =
    (case pe_Home P of None \<Rightarrow> Inl NoHomeDir
     | Some home \<Rightarrow>
        (case List.find (\<lambda>d. \<not> IsAbs d) (sm_Deny m) of Some d \<Rightarrow> Inl (ErrDenyUnenforceable d)
         | None \<Rightarrow>
            Inr (map AllowRead [''/usr'', ''/bin'', ''/lib'', ''/etc'', ''/System'', ''/Library''] @ [AllowReadWrite ''/dev'', AllowReadWrite ''/tmp''] @
              map (\<lambda>bm. if bm_RO bm then AllowRead (Clean (bm_Src bm)) else AllowReadWrite (Clean (bm_Src bm))) (sm_BindMounts m) @
              [AllowExec (Clean (sm_Executable m))] @
              map DenyAll (rev (remdups (rev (concat (map (pathForms F) (protectedPaths P home env @ sm_Deny m)))))))))"

definition buildSandboxExecArgs :: "gostring \<Rightarrow> sandbox_manifest \<Rightarrow> gostring list \<Rightarrow> gostring list" where
  "buildSandboxExecArgs sbPath m extraEnv =
    [''-f'', sbPath, ''env'', ''-i''] @ map (\<lambda>(k, v). k @ ''='' @ v) (sm_EnvInject m) @
    filter (\<lambda>entry. indexOf entry (CHR ''='') \<noteq> None) extraEnv @ [sm_Executable m]"

subsection \<open>Below a directory\<close>

lemma isUnder_iff:
  assumes "IsAbs path" "IsAbs dir"
  shows "isUnder path dir \<longleftrightarrow> prefix (path_elems dir) (path_elems path)"
proof -
  define bs ts where "bs = path_elems dir" and "ts = path_elems path"
  have pb: "\<forall>e \<in> set bs. proper_elem e" and pt: "\<forall>e \<in> set ts. proper_elem e"
    using path_elems_rooted_proper assms by (auto simp: bs_def ts_def)
  have clean: "Clean dir = rooted_path bs" "Clean path = rooted_path ts" using Clean_rooted assms by (simp_all add: bs_def ts_def)
  have abs: "IsAbs (rooted_path es)" for es by (simp add: IsAbs_def rooted_path_def HasPrefix_def)
  show ?thesis
  proof (cases "bs = ts")
    case True
    then show ?thesis by (simp add: isUnder_def Rel_def clean IsAbs_def HasPrefix_def flip: bs_def ts_def)
  next
    case False
    obtain bs' ts' where d: "drop_common bs ts = (bs', ts')" by fastforce
    have pe: "\<forall>e \<in> set bs'. proper_elem e" "\<forall>e \<in> set ts'. proper_elem e" using drop_common_sets [OF d] pb pt by auto
    have nodd: "\<not> (bs' \<noteq> [] \<and> hd bs' = ''..'')" using pe(1) by (cases bs') (auto simp: proper_elem_def)
    have rel: "Rel dir path = Some (Join (map (\<lambda>_. ''..'') bs' @ ts') ''/'')"
    proof -
      have "rooted_path ts \<noteq> rooted_path bs" using False rooted_path_inject [OF pt pb] by auto
      then show ?thesis unfolding Rel_def clean Let_def path_elems_rooted_path [OF pb] path_elems_rooted_path [OF pt] d
        by (simp only: abs nodd if_False prod.case simp_thms)
    qed
    have slash: "\<forall>e \<in> set (map (\<lambda>_. ''..'') bs' @ ts'). CHR ''/'' \<notin> set e"
    proof
      fix e assume "e \<in> set (map (\<lambda>_. ''..'') bs' @ ts')"
      then have "e = ''..'' \<or> e \<in> set ts'" by auto
      then show "CHR ''/'' \<notin> set e"
      proof
        assume "e \<in> set ts'"
        with pe(2) have "proper_elem e" by blast
        then show ?thesis by (rule proper_elemD(1))
      qed simp
    qed
    let ?r = "Join (map (\<lambda>_. ''..'') bs' @ ts') ''/''"
    have ne: "map (\<lambda>_. ''..'') bs' @ ts' \<noteq> []" using d False drop_common_both_Nil [of bs ts] by auto
    have sp: "split_slash ?r = map (\<lambda>_. ''..'') bs' @ ts'" using split_slash_Join [OF ne slash] .
    have up: "?r = ''..'' \<or> HasPrefix ?r ''../'' \<longleftrightarrow> hd (split_slash ?r) = ''..''"
    proof
      assume "?r = ''..'' \<or> HasPrefix ?r ''../''"
      then consider "?r = ''..''" | u where "?r = ''..'' @ CHR ''/'' # u" by (auto simp: HasPrefix_prefix prefix_def)
      then show "hd (split_slash ?r) = ''..''" by cases (simp_all only:, simp_all)
    next
      assume "hd (split_slash ?r) = ''..''"
      then obtain es where es: "map (\<lambda>_. ''..'') bs' @ ts' = ''..'' # es" using sp ne by (cases "map (\<lambda>_. ''..'') bs' @ ts'") auto
      then show "?r = ''..'' \<or> HasPrefix ?r ''../''" by (cases es) (auto simp: HasPrefix_def)
    qed
    have hd_sp: "hd (split_slash ?r) = ''..'' \<longleftrightarrow> bs' \<noteq> []"
      unfolding sp using ne pe(2) by (cases bs'; cases ts') (auto simp: proper_elem_def)
    have abs_dot: "\<not> IsAbs ?r \<and> ?r \<noteq> ''.'' \<or> bs' \<noteq> []" if "bs' = []"
    proof -
      from that ne obtain x xs where ts': "ts' = x # xs" by (cases ts') auto
      with pe(2) have x: "x \<noteq> []" "CHR ''/'' \<notin> set x" "x \<noteq> ''.''" by (auto simp: proper_elem_def)
      then obtain c e where c: "x = c # e" "c \<noteq> CHR ''/''" by (cases x) auto
      have "\<not> IsAbs ?r" using IsAbs_Join [OF c(2)] that ts' c by simp
      moreover have "?r \<noteq> ''.''"
      proof
        assume "?r = ''.''"
        then have "split_slash ?r = [''.'']" by simp
        with sp that ts' x show False by simp
      qed
      ultimately show ?thesis by blast
    qed
    have "isUnder path dir \<longleftrightarrow> bs' = []"
    proof
      assume u: "isUnder path dir"
      then have "?r = ''.'' \<or> \<not> (?r = ''..'' \<or> HasPrefix ?r ''../'')" by (auto simp: isUnder_def rel)
      then show "bs' = []"
      proof
        assume "?r = ''.''"
        then have "split_slash ?r = [''.'']" by simp
        with hd_sp show ?thesis by auto
      qed (use up hd_sp in blast)
    next
      assume b: "bs' = []"
      with abs_dot up hd_sp show "isUnder path dir" by (simp add: isUnder_def rel)
    qed
    then show ?thesis using drop_common_prefix [OF d] by (simp add: bs_def ts_def)
  qed
qed

end
