(* ===== verification/Sandbox_Safety.thy ===== *)
theory Sandbox_Safety
  imports Sandbox
begin

section \<open>What the sandbox keeps out\<close>

text \<open>
  The walk to an existing parent ends; the mounts a run accepts do not touch the files of Keylatch; the denied paths
  are masked after every mount; and what the Linux sandbox leaves visible that the macOS profile denies.
\<close>

subsection \<open>The walk up the parents\<close>

lemma LastIndex_no_slash: "CHR ''/'' \<notin> set e \<Longrightarrow> LastIndex e ''/'' = None"
  by (induction e) (auto simp: HasPrefix_def)

lemma LastIndex_slash: "CHR ''/'' \<notin> set e \<Longrightarrow> LastIndex (x @ CHR ''/'' # e) ''/'' = Some (length x)"
  by (induction x) (auto simp: LastIndex_no_slash HasPrefix_def)

lemma Join_snoc: "es \<noteq> [] \<Longrightarrow> Join (es @ [e]) sep = Join es sep @ sep @ e"
  by (induction es sep rule: Join.induct) auto

lemma rooted_path_snoc: "rooted_path (es @ [e]) = (if es = [] then [] else rooted_path es) @ CHR ''/'' # e"
  by (simp add: rooted_path_def Join_snoc)

lemma path_elems_slash: "\<forall>e \<in> set es. proper_elem e \<Longrightarrow> Clean (rooted_path es @ ''/'') = rooted_path es"
proof -
  assume p: "\<forall>e \<in> set es. proper_elem e"
  have "split_slash (Join es ''/'' @ ''/'') = (if es = [] then [[]] else es) @ [[]]"
  proof (cases "es = []")
    case False
    have "Join (es @ [[]]) ''/'' = Join es ''/'' @ ''/''" using Join_snoc [OF False] by simp
    moreover have "split_slash (Join (es @ [[]]) ''/'') = es @ [[]]"
      using p by (intro split_slash_Join) (auto dest: proper_elemD(1))
    ultimately show ?thesis using False by simp
  qed simp
  moreover have "clean_elems True ([] # xs) = clean_elems True xs" for xs by (simp add: clean_elems_def clean_step_def)
  moreover have "clean_elems True (xs @ [[]]) = clean_elems True xs" for xs by (simp add: clean_elems_def clean_step_def)
  ultimately have "path_elems (rooted_path es @ ''/'') = es"
    using clean_elems_proper [OF p, of True]
    by (cases "es = []") (simp_all add: path_elems_def rooted_path_def IsAbs_def HasPrefix_def)
  moreover have "IsAbs (rooted_path es @ ''/'')" by (simp add: IsAbs_def rooted_path_def HasPrefix_def)
  ultimately show ?thesis using Clean_rooted by simp
qed

lemma filepath_Dir_rooted:
  assumes "\<forall>e \<in> set es. proper_elem e"
  shows "filepath_Dir (rooted_path es) = rooted_path (butlast es)"
proof (cases es rule: rev_cases)
  case Nil
  have "filepath_Dir (rooted_path []) = rooted_path []" by code_simp
  with Nil show ?thesis by simp
next
  case (snoc xs e)
  with assms have e: "CHR ''/'' \<notin> set e" and xs: "\<forall>e \<in> set xs. proper_elem e" by (auto dest: proper_elemD(1))
  let ?x = "if xs = [] then [] else rooted_path xs"
  have "filepath_Dir (rooted_path es) = Clean (?x @ ''/'')"
    unfolding snoc rooted_path_snoc filepath_Dir_def LastIndex_slash [OF e] by simp
  moreover have "Clean (?x @ ''/'') = rooted_path xs"
    using path_elems_slash [OF xs] by (cases "xs = []") (auto simp: rooted_path_def Clean_def render_path_def path_elems_def IsAbs_def HasPrefix_def clean_elems_def clean_step_def)
  ultimately show ?thesis by (simp add: snoc)
qed

lemma length_Join: "\<forall>e \<in> set es. e \<noteq> [] \<Longrightarrow> length es \<le> length (Join es ''/'')"
proof (induction es "''/''" rule: Join.induct)
  case (2 x)
  then show ?case by (cases x) auto
qed auto

lemma resolve_from_stops:
  "\<forall>e \<in> set es. proper_elem e \<Longrightarrow> length es < n \<Longrightarrow> resolve_from F p n (rooted_path es) rest \<noteq> None"
proof (induction n arbitrary: es rest)
  case (Suc n)
  show ?case
  proof (cases "es = []")
    case True
    then show ?thesis using filepath_Dir_rooted [of "[]"] by (auto split: option.splits)
  next
    case False
    then have "0 < length es" by simp
    then have "length (butlast es) < n" "\<forall>e \<in> set (butlast es). proper_elem e"
      using Suc.prems by (simp, linarith) (use Suc.prems in \<open>auto dest: in_set_butlastD\<close>)
    from Suc.IH [OF this(2,1)] show ?thesis using filepath_Dir_rooted [OF Suc.prems(1)] by (auto split: option.splits)
  qed
qed simp

text \<open>The walk from a path to its longest existing parent ends whatever links the file system has: the bound on its turns is
  never what stops it, so every absolute path has its resolved form compared with the protected paths.\<close>

theorem symlink_walk_stops:
  assumes "IsAbs p"
  shows "\<exists>resolved. resolveExisting F (Clean p) = Some resolved \<and> set (pathForms F p) = {Clean p, resolved}"
proof -
  let ?es = "path_elems p"
  have pe: "\<forall>e \<in> set ?es. proper_elem e" using path_elems_rooted_proper [OF assms] by blast
  have c: "Clean p = rooted_path ?es" using Clean_rooted [OF assms] .
  have "length ?es < Suc (length (Clean p))"
  proof -
    have "length ?es \<le> length (Join ?es ''/'')" by (rule length_Join) (use pe proper_elemD(2) in blast)
    then show ?thesis by (simp add: c rooted_path_def)
  qed
  then obtain r where r: "resolveExisting F (Clean p) = Some r"
    using resolve_from_stops [OF pe] c by (metis resolveExisting_def not_None_eq)
  then show ?thesis by (auto simp: pathForms_def Let_def)
qed

theorem symlink_walk_stops_witness:
  "\<exists>resolved. resolveExisting \<lparr>sf_EvalSymlinks = (\<lambda>p. if p = ''/a'' then Some ''/r'' else None), sf_Lstat = (\<lambda>_. LstatNotExist),
      sf_Exists = (\<lambda>_. False), sf_Hash = (\<lambda>_. None), sf_Read = (\<lambda>_. None)\<rparr> (Clean ''/a/b/c'') = Some resolved"
proof -
  have "IsAbs ''/a/b/c''" by (simp add: IsAbs_def HasPrefix_def)
  from symlink_walk_stops [OF this] show ?thesis by blast
qed

subsection \<open>Mounts\<close>

lemma IsAbs_Clean: "IsAbs p \<Longrightarrow> IsAbs (Clean p)"
  by (simp add: Clean_rooted rooted_path_def IsAbs_def HasPrefix_def)

lemma IsAbs_Join_path: "IsAbs a \<Longrightarrow> IsAbs (filepath_Join a b)"
proof -
  assume a: "IsAbs a"
  then have "IsAbs (a @ ''/'' @ b)" "a \<noteq> []" by (auto simp: IsAbs_def HasPrefix_def split: if_splits) (cases a; simp)+
  then show ?thesis using a IsAbs_Clean by (auto simp: filepath_Join_def)
qed

lemma resolve_from_abs:
  assumes "\<And>a r. IsAbs a \<Longrightarrow> sf_EvalSymlinks F a = Some r \<Longrightarrow> IsAbs r" "IsAbs p"
  shows "\<forall>e \<in> set es. proper_elem e \<Longrightarrow> resolve_from F p n (rooted_path es) rest = Some r \<Longrightarrow> IsAbs r"
proof (induction n arbitrary: es rest)
  case (Suc n)
  have "IsAbs (rooted_path es)" by (simp add: rooted_path_def IsAbs_def HasPrefix_def)
  moreover have b: "\<forall>e \<in> set (butlast es). proper_elem e" using Suc.prems(1) by (auto dest: in_set_butlastD)
  ultimately show ?case
    using Suc.prems(2) assms IsAbs_Join_path Suc.IH [OF b] unfolding resolve_from.simps filepath_Dir_rooted [OF Suc.prems(1)]
    by (auto split: option.splits if_splits)
qed simp

text \<open>The links of an absolute path resolve to an absolute path.\<close>

definition links_absolute :: "sandbox_fs \<Rightarrow> bool" where
  "links_absolute F \<longleftrightarrow> (\<forall>a r. IsAbs a \<longrightarrow> sf_EvalSymlinks F a = Some r \<longrightarrow> IsAbs r)"

lemma pathForms_abs:
  assumes "links_absolute F" "IsAbs p" "form \<in> set (pathForms F p)"
  shows "IsAbs form"
proof -
  have pe: "\<forall>e \<in> set (path_elems p). proper_elem e" using path_elems_rooted_proper [OF assms(2)] by blast
  have "resolveExisting F (Clean p) = Some r \<Longrightarrow> IsAbs r" for r
    unfolding resolveExisting_def using resolve_from_abs [OF _ IsAbs_Clean [OF assms(2)] pe] assms(1) Clean_rooted [OF assms(2)]
    by (metis links_absolute_def)
  then show ?thesis using assms(3) IsAbs_Clean [OF assms(2)] by (auto simp: pathForms_def Let_def split: option.splits if_splits)
qed

lemma find_None_not: "List.find P xs = None \<Longrightarrow> x \<in> set xs \<Longrightarrow> \<not> P x"
  by (auto simp: find_None_iff)

lemma validateBindMounts_separates:
  assumes "validateBindMounts F m protected = None" "links_absolute F"
    and "bm \<in> set (sm_BindMounts m)" "raw = bm_Src bm \<or> raw = bm_Dest bm" "p \<in> set protected" "IsAbs p"
    and "form \<in> set (pathForms F raw)" "g \<in> set (pathForms F p)"
  shows "IsAbs raw \<and> \<not> prefix (path_elems g) (path_elems form) \<and> \<not> prefix (path_elems form) (path_elems g)"
proof -
  let ?guarded = "concat (map (pathForms F) protected)"
  have "raw \<in> set (concat (map (\<lambda>bm. [bm_Src bm, bm_Dest bm]) (sm_BindMounts m)))" using assms(3,4) by fastforce
  moreover have "List.find (forbidden_path F ?guarded) (concat (map (\<lambda>bm. [bm_Src bm, bm_Dest bm]) (sm_BindMounts m))) = None"
    using assms(1) unfolding validateBindMounts_def Let_def by simp
  ultimately have "\<not> forbidden_path F ?guarded raw" by (metis find_None_not)
  moreover have "g \<in> set ?guarded" using assms(5,8) by auto
  ultimately have n: "IsAbs raw" "\<not> isUnder form g" "\<not> isUnder g form"
    using assms(7) unfolding forbidden_path_def list_ex_iff by blast+
  have "IsAbs form" using pathForms_abs [OF assms(2) n(1) assms(7)] .
  moreover have "IsAbs g" using pathForms_abs [OF assms(2,6,8)] .
  ultimately show ?thesis using n isUnder_iff by blast
qed

lemma RunSandboxed_linuxE:
  assumes "RunSandboxed_linux F P env m True extra = Inr args" "pe_Home P = Some home"
  shows "validateBindMounts F m (protectedPaths P home env) = None \<and> buildBwrapArgs F m extra = Inr args \<and>
    sf_Hash F (sm_Executable m) = Some (sm_ExecHash m)"
  using assms by (auto simp: RunSandboxed_linux_def VerifyExecHash_def validateBindMountsWithHome_def split: option.splits if_splits)

text \<open>C25: \<open>bwrap\<close> is only started when the executable has the hash of the profile and no mount of the profile touches the files
  of Keylatch: neither its source nor its destination, as written or with the links resolved, is one of the protected
  paths, lies below one or above one.\<close>

theorem sandbox_keeps_state_out:
  assumes "RunSandboxed_linux F P env m True extra = Inr args" and "pe_Home P = Some home" and "links_absolute F"
    and "bm \<in> set (sm_BindMounts m)" and "raw = bm_Src bm \<or> raw = bm_Dest bm"
    and "p \<in> set (protectedPaths P home env)" and "IsAbs p"
  shows "sf_Hash F (sm_Executable m) = Some (sm_ExecHash m) \<and> IsAbs raw \<and>
    (\<forall>form \<in> set (pathForms F raw). \<forall>g \<in> set (pathForms F p).
      \<not> prefix (path_elems g) (path_elems form) \<and> \<not> prefix (path_elems form) (path_elems g))"
proof -
  note r = RunSandboxed_linuxE [OF assms(1,2)]
  have "Clean raw \<in> set (pathForms F raw)" "Clean p \<in> set (pathForms F p)" by (auto simp: pathForms_def Let_def split: option.splits)
  with r validateBindMounts_separates [OF _ assms(3-7)] show ?thesis by blast
qed

definition sample_sandbox_fs :: sandbox_fs where
  "sample_sandbox_fs = \<lparr>sf_EvalSymlinks = Some, sf_Lstat = (\<lambda>p. LstatDir), sf_Exists = (\<lambda>_. False), sf_Hash = (\<lambda>_. Some ''h''),
     sf_Read = (\<lambda>_. None)\<rparr>"

definition sample_manifest :: sandbox_manifest where
  "sample_manifest = \<lparr>sm_ProfileID = ''p'', sm_Executable = ''/bin/x'', sm_ExecHash = ''h'',
     sm_BindMounts = [\<lparr>bm_Src = ''/home/u/src'', bm_Dest = ''/work'', bm_RO = False\<rparr>], sm_Deny = [''/work/secrets''],
     sm_EnvAllowlist = [], sm_EnvInject = []\<rparr>"

definition sample_path_env :: path_env where
  "sample_path_env = \<lparr>pe_Linux = True, pe_Home = Some ''/home/u'', pe_Regular = (\<lambda>_. False)\<rparr>"

lemma sample_sandboxed:
  "RunSandboxed_linux sample_sandbox_fs sample_path_env (\<lambda>_. []) sample_manifest True [] =
    Inr [''--ro-bind'', ''/usr'', ''/usr'', ''--ro-bind'', ''/lib'', ''/lib'', ''--ro-bind'', ''/bin'', ''/bin'', ''--ro-bind'', ''/etc'', ''/etc'',
      ''--dev'', ''/dev'', ''--proc'', ''/proc'', ''--tmpfs'', ''/tmp'', ''--bind'', ''/home/u/src'', ''/work'', ''--tmpfs'', ''/work/secrets'',
      ''--unsetenv'', ''HOME'', ''--unsetenv'', ''USER'', ''--unsetenv'', ''XDG_RUNTIME_DIR'', ''--'', ''/bin/x'']"
  by code_simp

theorem sandbox_keeps_state_out_witness:
  "\<not> prefix (path_elems ''/home/u/.config/keylatch'') (path_elems ''/home/u/src'')"
proof -
  have "\<lparr>bm_Src = ''/home/u/src'', bm_Dest = ''/work'', bm_RO = False\<rparr> \<in> set (sm_BindMounts sample_manifest)" by (simp add: sample_manifest_def)
  moreover have "''/home/u/.config/keylatch'' \<in> set (protectedPaths sample_path_env ''/home/u'' (\<lambda>_. []))" by code_simp
  moreover have "IsAbs ''/home/u/.config/keylatch''" by (simp add: IsAbs_def HasPrefix_def)
  moreover have "links_absolute sample_sandbox_fs" by (simp add: links_absolute_def sample_sandbox_fs_def)
  moreover have "pe_Home sample_path_env = Some ''/home/u''" by (simp add: sample_path_env_def)
  moreover have "''/home/u/src'' \<in> set (pathForms sample_sandbox_fs ''/home/u/src'')"
    "''/home/u/.config/keylatch'' \<in> set (pathForms sample_sandbox_fs ''/home/u/.config/keylatch'')" by code_simp+
  ultimately show ?thesis
    using sandbox_keeps_state_out [OF sample_sandboxed] by (metis bind_mount.select_convs(1))
qed

subsection \<open>Denied paths\<close>

lemma bwrapDenyArgs_mask:
  "bwrapDenyArgs F deny mounts = Inr masks \<Longrightarrow> d \<in> set deny \<Longrightarrow> \<exists>us c vs. masks = us @ c @ vs \<and> deny_mask F mounts d = Inr c"
proof (induction deny arbitrary: masks)
  case (Cons e deny)
  then obtain c args where c: "deny_mask F mounts e = Inr c" "bwrapDenyArgs F deny mounts = Inr args" "masks = c @ args"
    by (auto split: sum.splits)
  show ?case
  proof (cases "d = e")
    case True
    then have "masks = [] @ c @ args" "deny_mask F mounts d = Inr c" using c by auto
    then show ?thesis by blast
  next
    case False
    with Cons.IH [OF c(2)] Cons.prems(2) obtain us c' vs where "args = us @ c' @ vs" "deny_mask F mounts d = Inr c'" by auto
    then have "masks = (c @ us) @ c' @ vs" "deny_mask F mounts d = Inr c'" using c by auto
    then show ?thesis by blast
  qed
qed simp

text \<open>When the arguments of \<open>bwrap\<close> are made, every denied path that a mount backed by the host exposes and that exists
  there is covered, a directory with an empty file system and a file with the null device, and the cover comes after all
  mounts. A path that is not absolute, is a link or cannot be examined makes the sandbox refuse to start.\<close>

theorem deny_paths_masked:
  assumes "buildBwrapArgs F m extra = Inr args" and "d \<in> set (sm_Deny m)"
  shows "IsAbs d \<and>
    (\<forall>host. hostPathFor (Clean d) (sandbox_mounts F m) = Some host \<and> sf_Lstat F host \<noteq> LstatNotExist \<longrightarrow>
      (\<exists>us covering vs. args = mount_args F m @ us @ covering @ vs \<and>
        ((sf_Lstat F host = LstatDir \<and> covering = [''--tmpfs'', Clean d]) \<or>
         (sf_Lstat F host = LstatOther \<and> covering = [''--ro-bind'', ''/dev/null'', Clean d]))))"
proof -
  obtain masks rest where m: "bwrapDenyArgs F (sm_Deny m) (sandbox_mounts F m) = Inr masks" "args = mount_args F m @ masks @ rest"
    using assms(1) by (auto simp: buildBwrapArgs_def split: sum.splits)
  from bwrapDenyArgs_mask [OF m(1) assms(2)] obtain us c vs where c: "masks = us @ c @ vs" "deny_mask F (sandbox_mounts F m) d = Inr c"
    by blast
  have "args = mount_args F m @ us @ c @ (vs @ rest)" using m c by simp
  moreover have "IsAbs d" using c(2) by (auto simp: deny_mask_def split: if_splits)
  moreover have "sf_Lstat F host \<noteq> LstatNotExist \<Longrightarrow> (sf_Lstat F host = LstatDir \<and> c = [''--tmpfs'', Clean d]) \<or>
         (sf_Lstat F host = LstatOther \<and> c = [''--ro-bind'', ''/dev/null'', Clean d])"
    if "hostPathFor (Clean d) (sandbox_mounts F m) = Some host" for host
    using c(2) that by (auto simp: deny_mask_def split: if_splits lstat.splits)
  ultimately show ?thesis by blast
qed

theorem deny_paths_masked_witness:
  "\<exists>us vs args. args = mount_args sample_sandbox_fs sample_manifest @ us @ [''--tmpfs'', ''/work/secrets''] @ vs \<and>
    buildBwrapArgs sample_sandbox_fs sample_manifest [] = Inr args"
proof -
  have "pe_Home sample_path_env = Some ''/home/u''" by (simp add: sample_path_env_def)
  with RunSandboxed_linuxE [OF sample_sandboxed] obtain args where b: "buildBwrapArgs sample_sandbox_fs sample_manifest [] = Inr args"
    by blast
  have d: "''/work/secrets'' \<in> set (sm_Deny sample_manifest)" by (simp add: sample_manifest_def)
  have "hostPathFor (Clean ''/work/secrets'') (sandbox_mounts sample_sandbox_fs sample_manifest) = Some ''/home/u/src/secrets''" by code_simp
  moreover have "Clean ''/work/secrets'' = ''/work/secrets''" by code_simp
  ultimately show ?thesis using deny_paths_masked [OF b d] b by (fastforce simp: sample_sandbox_fs_def)
qed

subsection \<open>What stays visible\<close>

lemma hostPath_last_skip: "\<forall>mt \<in> set xs. \<not> isUnder p (fst mt) \<Longrightarrow> hostPath_last p (xs @ ys) = hostPath_last p ys"
  by (induction xs) auto

text \<open>A denied path above the place of a mount is not under any mount, so nothing is masked: the mount below it stays visible
  although the profile says the path must never be accessible.\<close>

theorem deny_above_mount_not_masked:
  assumes "sm_Deny m = [d]" and "IsAbs d" and "\<forall>mt \<in> set (sandbox_mounts F m). \<not> isUnder (Clean d) (fst mt)"
    and "bm \<in> set (sm_BindMounts m)" and "strict_prefix (path_elems d) (path_elems (bm_Dest bm))"
  shows "bwrapDenyArgs F (sm_Deny m) (sandbox_mounts F m) = Inr [] \<and>
    (\<exists>us vs flag. mount_args F m = us @ [flag, bm_Src bm, bm_Dest bm] @ vs)"
proof
  have "hostPathFor (Clean d) (sandbox_mounts F m) = None"
    using hostPath_last_skip [of "rev (sandbox_mounts F m)" "Clean d" "[]"] assms(3) by (simp add: hostPathFor_def)
  then show "bwrapDenyArgs F (sm_Deny m) (sandbox_mounts F m) = Inr []" using assms(1,2) by (simp add: deny_mask_def)
  obtain us vs where "sm_BindMounts m = us @ bm # vs" using assms(4) split_list by metis
  then have "mount_args F m =
      (concat (map (\<lambda>d. [''--ro-bind'', d, d]) (systemDirs F)) @ [''--dev'', ''/dev'', ''--proc'', ''/proc'', ''--tmpfs'', ''/tmp''] @
       concat (map (\<lambda>bm. [if bm_RO bm then ''--ro-bind'' else ''--bind'', bm_Src bm, bm_Dest bm]) us)) @
      [if bm_RO bm then ''--ro-bind'' else ''--bind'', bm_Src bm, bm_Dest bm] @
      concat (map (\<lambda>bm. [if bm_RO bm then ''--ro-bind'' else ''--bind'', bm_Src bm, bm_Dest bm]) vs)"
    by (simp add: mount_args_def)
  then show "\<exists>us vs flag. mount_args F m = us @ [flag, bm_Src bm, bm_Dest bm] @ vs" by blast
qed

theorem deny_above_mount_not_masked_witness:
  "bwrapDenyArgs sample_sandbox_fs [''/srv''] (sandbox_mounts sample_sandbox_fs
     (sample_manifest\<lparr>sm_Deny := [''/srv''], sm_BindMounts := [\<lparr>bm_Src = ''/x'', bm_Dest = ''/srv/keys'', bm_RO = False\<rparr>]\<rparr>)) = Inr []"
proof -
  let ?m = "sample_manifest\<lparr>sm_Deny := [''/srv''], sm_BindMounts := [\<lparr>bm_Src = ''/x'', bm_Dest = ''/srv/keys'', bm_RO = False\<rparr>]\<rparr>"
  have "list_all (\<lambda>mt. \<not> isUnder (Clean ''/srv'') (fst mt)) (sandbox_mounts sample_sandbox_fs ?m)" by code_simp
  then have "\<forall>mt \<in> set (sandbox_mounts sample_sandbox_fs ?m). \<not> isUnder (Clean ''/srv'') (fst mt)" by (simp add: list_all_iff)
  moreover have "path_elems ''/srv'' = [''srv'']" "path_elems ''/srv/keys'' = [''srv'', ''keys'']" by code_simp+
  ultimately show ?thesis
    using deny_above_mount_not_masked [of ?m "''/srv''" sample_sandbox_fs "\<lparr>bm_Src = ''/x'', bm_Dest = ''/srv/keys'', bm_RO = False\<rparr>"]
    by (simp add: IsAbs_def HasPrefix_def strict_prefix_def)
qed

lemma path_elems_Clean: "IsAbs p \<Longrightarrow> path_elems (Clean p) = path_elems p"
  using Clean_rooted path_elems_rooted_path path_elems_rooted_proper by simp

lemma system_elems:
  "path_elems ''/usr'' = [''usr'']" "path_elems ''/lib'' = [''lib'']" "path_elems ''/bin'' = [''bin'']" "path_elems ''/etc'' = [''etc'']"
  "path_elems ''/lib64'' = [''lib64'']" "path_elems ''/dev'' = [''dev'']" "path_elems ''/proc'' = [''proc'']" "path_elems ''/tmp'' = [''tmp'']"
  by code_simp+

lemma under_system: "IsAbs p \<Longrightarrow> path_elems p = ''etc'' # es \<Longrightarrow>
  isUnder p ''/etc'' \<and> \<not> isUnder p ''/lib64'' \<and> \<not> isUnder p ''/dev'' \<and> \<not> isUnder p ''/proc'' \<and> \<not> isUnder p ''/tmp''"
  by (simp add: isUnder_iff system_elems IsAbs_def HasPrefix_def)

text \<open>The check of the mounts looks at those of the profile only. When the configuration of Keylatch lies under a system
  directory, Linux binds that directory and masks nothing, so the files of Keylatch are readable inside; for the same
  profile the rules of macOS deny them.\<close>

theorem sandbox_exposes_system_state:
  assumes "RunSandboxed_linux F P env m True extra = Inr args" and "pe_Home P = Some home" and "links_absolute F"
    and "p \<in> set (protectedPaths P home env)" and "IsAbs p" and "path_elems p = ''etc'' # es" and "sm_Deny m = []"
  shows "(\<exists>rel. hostPathFor p (sandbox_mounts F m) = Some (filepath_Join ''/etc'' rel) \<and> Rel ''/etc'' p = Some rel) \<and>
    (\<exists>rest. args = mount_args F m @ [''--unsetenv'', ''HOME'', ''--unsetenv'', ''USER'', ''--unsetenv'', ''XDG_RUNTIME_DIR''] @ rest) \<and>
    (\<exists>rules. generateSbProfile F P env m = Inr rules \<and> DenyAll (Clean p) \<in> set rules)"
proof -
  note r = RunSandboxed_linuxE [OF assms(1,2)]
  have self: "Clean q \<in> set (pathForms F q)" for q by (auto simp: pathForms_def Let_def split: option.splits)
  have no: "\<not> isUnder p (Clean (bm_Dest bm))" if "bm \<in> set (sm_BindMounts m)" for bm
  proof -
    from validateBindMounts_separates [OF _ assms(3) that _ assms(4,5) self self] r
    have "IsAbs (bm_Dest bm)" "\<not> prefix (path_elems (Clean (bm_Dest bm))) (path_elems (Clean p))" by blast+
    then show ?thesis using isUnder_iff [OF assms(5) IsAbs_Clean] by (simp add: path_elems_Clean assms(5))
  qed
  note u = under_system [OF assms(5,6)]
  then obtain rel where rel: "Rel ''/etc'' p = Some rel" by (auto simp: isUnder_def split: option.splits)
  let ?late = "[(''/dev'', []), (''/proc'', []), (''/tmp'', [])] @ map (\<lambda>bm. (Clean (bm_Dest bm), Clean (bm_Src bm))) (sm_BindMounts m)"
  have l: "sandbox_mounts F m = [(''/usr'', ''/usr''), (''/lib'', ''/lib''), (''/bin'', ''/bin''), (''/etc'', ''/etc'')] @
      (if sf_Exists F ''/lib64'' then [(''/lib64'', ''/lib64'')] else []) @ ?late"
    by (simp add: sandbox_mounts_def systemDirs_def)
  have "\<forall>mt \<in> set (rev ((if sf_Exists F ''/lib64'' then [(''/lib64'', ''/lib64'')] else []) @ ?late)). \<not> isUnder p (fst mt)"
    using u no by (auto split: if_splits)
  from hostPath_last_skip [OF this, of "rev [(''/usr'', ''/usr''), (''/lib'', ''/lib''), (''/bin'', ''/bin''), (''/etc'', ''/etc'')]"] u rel
  have h: "hostPathFor p (sandbox_mounts F m) = Some (filepath_Join ''/etc'' rel)"
    unfolding hostPathFor_def l rev_append [of "[(''/usr'', ''/usr''), (''/lib'', ''/lib''), (''/bin'', ''/bin''), (''/etc'', ''/etc'')]"] by simp
  have "\<exists>rest. args = mount_args F m @ [''--unsetenv'', ''HOME'', ''--unsetenv'', ''USER'', ''--unsetenv'', ''XDG_RUNTIME_DIR''] @ rest"
    using r assms(7) by (auto simp: buildBwrapArgs_def)
  moreover have "Clean p \<in> set (concat (map (pathForms F) (protectedPaths P home env)))" using assms(4) self by auto
  then have "\<exists>rules. generateSbProfile F P env m = Inr rules \<and> DenyAll (Clean p) \<in> set rules"
    using assms(2,7) by (auto simp: generateSbProfile_def)
  ultimately show ?thesis using h rel by blast
qed

theorem sandbox_exposes_system_state_witness:
  "\<exists>rel. hostPathFor ''/etc/kl'' (sandbox_mounts sample_sandbox_fs (sample_manifest\<lparr>sm_Deny := []\<rparr>)) = Some (filepath_Join ''/etc'' rel)"
proof -
  let ?env = "(\<lambda>_. [])(''KEYLATCH_CONFIG_DIR'' := ''/etc/kl'')"
  let ?m = "sample_manifest\<lparr>sm_Deny := []\<rparr>"
  have "case RunSandboxed_linux sample_sandbox_fs sample_path_env ?env ?m True [] of Inr a \<Rightarrow> True | Inl e \<Rightarrow> False" by code_simp
  then obtain args where a: "RunSandboxed_linux sample_sandbox_fs sample_path_env ?env ?m True [] = Inr args"
    by (auto split: sum.splits)
  have "pe_Home sample_path_env = Some ''/home/u''" "links_absolute sample_sandbox_fs"
    by (simp_all add: sample_path_env_def links_absolute_def sample_sandbox_fs_def)
  moreover have "''/etc/kl'' \<in> set (protectedPaths sample_path_env ''/home/u'' ?env)" by code_simp
  moreover have "IsAbs ''/etc/kl''" "sm_Deny ?m = []" by (simp_all add: IsAbs_def HasPrefix_def)
  moreover have "path_elems ''/etc/kl'' = [''etc'', ''kl'']" by code_simp
  ultimately have "(\<exists>rel. hostPathFor ''/etc/kl'' (sandbox_mounts sample_sandbox_fs ?m) = Some (filepath_Join ''/etc'' rel) \<and>
      Rel ''/etc'' ''/etc/kl'' = Some rel)"
    using sandbox_exposes_system_state [OF a, of "''/home/u''" "''/etc/kl''" "[''kl'']"] by (simp only: simp_thms)
  then show ?thesis by blast
qed

end
