(* ===== verification/Team_Members.thy ===== *)
theory Team_Members
  imports Org_Policy File_Path
begin

section \<open>The members of a team (\<open>internal/team\<close>, \<open>internal/cli/team_cmd.go\<close>)\<close>

text \<open>
  \<open>team.go\<close>: members and teams. \<open>rbac.go\<close>: the ranks of roles and who may change what. \<open>membership.go\<close>: the changes
  themselves. \<open>ops.go\<close>: the team's file, signed invites and joining. \<open>team_cmd.go\<close>: the commands, each of which loads
  the team, resolves the acting member and changes the file. \<open>scim.go\<close>: the provisioning server's changes of the
  roster. The file holds one document; an invite is a signed bundle over the crypto functions of \<open>Org_Policy\<close>.
\<close>

text \<open>A fact about sorted lists that several theories of the team use.\<close>

lemma le_last_sorted: "sorted (xs :: 'a :: linorder list) \<Longrightarrow> x \<in> set xs \<Longrightarrow> x \<le> last xs"
  by (induction xs rule: rev_induct) (auto simp: sorted_append)

subsection \<open>Roles\<close>

type_synonym role = gostring

definition RoleOwner :: role where "RoleOwner = ''owner''"
definition RoleAdmin :: role where "RoleAdmin = ''admin''"
definition RoleDeveloper :: role where "RoleDeveloper = ''developer''"
definition RoleViewer :: role where "RoleViewer = ''viewer''"

lemmas role_defs = RoleOwner_def RoleAdmin_def RoleDeveloper_def RoleViewer_def

lemma roles_distinct [simp]:
  "RoleOwner \<noteq> RoleAdmin" "RoleAdmin \<noteq> RoleOwner" "RoleOwner \<noteq> RoleDeveloper" "RoleDeveloper \<noteq> RoleOwner"
  "RoleOwner \<noteq> RoleViewer" "RoleViewer \<noteq> RoleOwner" "RoleAdmin \<noteq> RoleDeveloper" "RoleDeveloper \<noteq> RoleAdmin"
  "RoleAdmin \<noteq> RoleViewer" "RoleViewer \<noteq> RoleAdmin" "RoleDeveloper \<noteq> RoleViewer" "RoleViewer \<noteq> RoleDeveloper"
  by (simp_all add: role_defs)

type_synonym member_status = gostring

definition MemberActive :: member_status where "MemberActive = ''active''"
definition MemberSuspended :: member_status where "MemberSuspended = ''suspended''"
definition MemberRemoved :: member_status where "MemberRemoved = ''removed''"

lemma statuses_distinct [simp]: "MemberActive \<noteq> MemberSuspended" "MemberActive \<noteq> MemberRemoved" "MemberRemoved \<noteq> MemberActive"
    "MemberSuspended \<noteq> MemberActive"
  by (simp_all add: MemberActive_def MemberSuspended_def MemberRemoved_def)

record member =
  mb_ID :: gostring
  mb_HMAC :: gostring
  mb_Role :: role
  mb_AgePublicKey :: gostring
  mb_TrustRoots :: "gostring list"
  mb_JoinedAt :: gotime
  mb_Status :: member_status

record team =
  tm_ID :: gostring
  tm_Name :: gostring
  tm_Members :: "member list"
  tm_CosignPubKey :: gostring
  tm_InvitePubKey :: gostring
  tm_SyncRepoURL :: gostring
  tm_CreatedAt :: gotime

datatype team_error =
    ErrTeamNotConfigured | ErrMemberNotFound | ErrRoleInsufficient
  | ErrInvalidRole | ErrOwnerViaTransfer | ErrOwnerOnly | ErrOwnerProtected | ErrActorInactive | ErrRoleAboveActor
  | ErrTargetAtOrAboveYou | AlreadyOwner | NewOwnerInactive
  | ErrDuplicateMember gostring | AlreadyExists gostring | HomeDirFails | TeamWriteFails write_outcome | TeamReadFails
  | TeamParseFails | GenerateIDFails | RotationFails
  | InviteKeyMismatch | InviteKeyUnreadable key_error | InviteKeyElsewhere | InviteMkdir | InviteKeyFails key_error
  | InviteNeedsKey key_error | InviteSignature sig_error | InviteExpired | InviteDecode | InviteParse
  | JoinedDifferentTeam | JoinKeyDiffers | ErrAlreadyJoined
  | TeamUnavailable | ErrNoTeamIdentity | MissingFlag | AgentSessionBlocked | NotInteractive

definition RoleLevel :: "role \<Rightarrow> nat" where
  "RoleLevel r =
    (if r = RoleOwner then 4 else if r = RoleAdmin then 3 else if r = RoleDeveloper then 2
     else if r = RoleViewer then 1 else 0)"

definition ValidRole :: "role \<Rightarrow> bool" where "ValidRole r = (RoleLevel r > 0)"

definition RequireRole :: "member \<Rightarrow> role \<Rightarrow> team_error option" where
  "RequireRole m minRole = (if RoleLevel (mb_Role m) < RoleLevel minRole then Some ErrRoleInsufficient else None)"

definition requireActiveAdmin :: "member \<Rightarrow> team_error option" where
  "requireActiveAdmin actor = (if mb_Status actor \<noteq> MemberActive then Some ErrActorInactive else RequireRole actor RoleAdmin)"

definition AuthorizeRoleChange :: "member \<Rightarrow> member \<Rightarrow> role \<Rightarrow> team_error option" where
  "AuthorizeRoleChange actor target newRole =
    (if \<not> ValidRole newRole then Some ErrInvalidRole
     else if newRole = RoleOwner then Some ErrOwnerViaTransfer
     else (case requireActiveAdmin actor of Some e \<Rightarrow> Some e
     | None \<Rightarrow>
         if mb_Role target = RoleOwner then Some ErrOwnerProtected
         else if RoleLevel newRole \<ge> RoleLevel (mb_Role actor) then Some ErrRoleAboveActor
         else if RoleLevel (mb_Role target) \<ge> RoleLevel (mb_Role actor) then Some ErrTargetAtOrAboveYou
         else None))"

definition AuthorizeRemoval :: "member \<Rightarrow> member \<Rightarrow> team_error option" where
  "AuthorizeRemoval actor target =
    (case requireActiveAdmin actor of Some e \<Rightarrow> Some e
     | None \<Rightarrow>
         if mb_Role target = RoleOwner then Some ErrOwnerProtected
         else if RoleLevel (mb_Role target) \<ge> RoleLevel (mb_Role actor) then Some ErrTargetAtOrAboveYou
         else None)"

definition AuthorizeInvite :: "member \<Rightarrow> role \<Rightarrow> team_error option" where
  "AuthorizeInvite actor r =
    (if \<not> ValidRole r then Some ErrInvalidRole
     else if r = RoleOwner then Some ErrOwnerViaTransfer
     else (case requireActiveAdmin actor of Some e \<Rightarrow> Some e
     | None \<Rightarrow> if RoleLevel r \<ge> RoleLevel (mb_Role actor) then Some ErrRoleAboveActor else None))"

definition AuthorizeTransfer :: "member \<Rightarrow> member \<Rightarrow> team_error option" where
  "AuthorizeTransfer actor newOwner =
    (if mb_Status actor \<noteq> MemberActive then Some ErrActorInactive
     else if mb_Role actor \<noteq> RoleOwner then Some ErrOwnerOnly
     else if mb_ID newOwner = mb_ID actor then Some AlreadyOwner
     else if mb_Status newOwner \<noteq> MemberActive then Some NewOwnerInactive
     else None)"

subsection \<open>The team's file\<close>

text \<open>What the environment does to one call: the home directory, \<open>KEYLATCH_TEAM_DIR\<close>, the outcome of a write and of the
  rotation callback (\<open>None\<close> when it is unset, as it is everywhere outside tests).\<close>

record team_io =
  ti_Home :: "gostring option"
  ti_Dir :: gostring
  ti_Write :: write_outcome
  ti_OnRotate :: "(team \<Rightarrow> gostring \<Rightarrow> bool) option"

definition teamFilePath :: "team_io \<Rightarrow> team_error + gostring" where
  "teamFilePath io =
    (case ti_Home io of None \<Rightarrow> Inl HomeDirFails
     | Some home \<Rightarrow>
         if ti_Dir io \<noteq> [] then Inr (filepath_Join (ti_Dir io) ''team.json'')
         else Inr (filepath_Join (filepath_Join (filepath_Join home ''.keylatch'') ''team'') ''team.json''))"

fun duplicate_from :: "gostring set \<Rightarrow> member list \<Rightarrow> gostring option" where
  "duplicate_from seen [] = None"
| "duplicate_from seen (m # ms) = (if mb_ID m \<in> seen then Some (mb_ID m) else duplicate_from (insert (mb_ID m) seen) ms)"

definition checkUniqueMembers :: "team \<Rightarrow> team_error option" where
  "checkUniqueMembers t = map_option ErrDuplicateMember (duplicate_from {} (tm_Members t))"

definition writeTeam :: "team_io \<Rightarrow> team \<Rightarrow> team jsonfile \<Rightarrow> team_error option \<times> team jsonfile" where
  "writeTeam io t f =
    (case checkUniqueMembers t of Some e \<Rightarrow> (Some e, f)
     | None \<Rightarrow>
        (case teamFilePath io of Inl e \<Rightarrow> (Some e, f)
         | Inr _ \<Rightarrow>
            (case write_file (ti_Write io) t f of Inl w \<Rightarrow> (Some (TeamWriteFails w), f) | Inr f' \<Rightarrow> (None, f'))))"

definition team_Load :: "team_io \<Rightarrow> team jsonfile \<Rightarrow> team_error + team" where
  "team_Load io f =
    (case teamFilePath io of Inl e \<Rightarrow> Inl e
     | Inr _ \<Rightarrow>
        (case f of Absent \<Rightarrow> Inl ErrTeamNotConfigured
         | Unreadable \<Rightarrow> Inl TeamReadFails
         | Unparsable \<Rightarrow> Inl TeamParseFails
         | Holds t \<Rightarrow> (case checkUniqueMembers t of Some e \<Rightarrow> Inl e | None \<Rightarrow> Inr t)))"

text \<open>\<open>Init\<close>; the identifier is \<open>None\<close> when the random source fails. An existing file is replaced.\<close>

definition team_Init ::
  "team_io \<Rightarrow> gostring option \<Rightarrow> gotime \<Rightarrow> gostring \<Rightarrow> gostring \<Rightarrow> gostring \<Rightarrow> team jsonfile \<Rightarrow> (team_error + team) \<times> team jsonfile" where
  "team_Init io newID now name syncRepoURL cosignPubKey f =
    (case newID of None \<Rightarrow> (Inl GenerateIDFails, f)
     | Some i \<Rightarrow>
        (let t = \<lparr>tm_ID = i, tm_Name = name, tm_Members = [], tm_CosignPubKey = cosignPubKey, tm_InvitePubKey = [],
               tm_SyncRepoURL = syncRepoURL, tm_CreatedAt = now\<rparr> in
         case writeTeam io t f of (Some e, f') \<Rightarrow> (Inl e, f') | (None, f') \<Rightarrow> (Inr t, f')))"

subsection \<open>Changes of the roster\<close>

definition AddMember :: "team_io \<Rightarrow> member \<Rightarrow> team \<Rightarrow> team jsonfile \<Rightarrow> team_error option \<times> team \<times> team jsonfile" where
  "AddMember io m t f =
    (if \<exists>x \<in> set (tm_Members t). mb_ID x = mb_ID m then (Some (AlreadyExists (mb_ID m)), t, f)
     else (let t' = t\<lparr>tm_Members := tm_Members t @ [m]\<rparr>; (e, f') = writeTeam io t' f in (e, t', f')))"

definition FindMember :: "team \<Rightarrow> gostring \<Rightarrow> team_error + member" where
  "FindMember t i = (case find (\<lambda>m. mb_ID m = i) (tm_Members t) of Some m \<Rightarrow> Inr m | None \<Rightarrow> Inl ErrMemberNotFound)"

text \<open>An assignment to the entry that \<open>memberIndex\<close> finds, which is the first with the identifier.\<close>

fun update_member :: "gostring \<Rightarrow> (member \<Rightarrow> member) \<Rightarrow> member list \<Rightarrow> member list" where
  "update_member i g [] = []"
| "update_member i g (m # ms) = (if mb_ID m = i then g m # ms else m # update_member i g ms)"

definition RemoveMember :: "team_io \<Rightarrow> gostring \<Rightarrow> team \<Rightarrow> team jsonfile \<Rightarrow> team_error option \<times> team \<times> team jsonfile" where
  "RemoveMember io i t f =
    (case FindMember t i of Inl e \<Rightarrow> (Some e, t, f)
     | Inr _ \<Rightarrow>
        (let t' = t\<lparr>tm_Members := update_member i (\<lambda>m. m\<lparr>mb_Status := MemberRemoved\<rparr>) (tm_Members t)\<rparr> in
         case writeTeam io t' f of (Some e, f') \<Rightarrow> (Some e, t', f')
         | (None, f') \<Rightarrow>
             (case ti_OnRotate io of None \<Rightarrow> (None, t', f')
              | Some cb \<Rightarrow> (if cb t' i then None else Some RotationFails, t', f'))))"

definition Transfer :: "team_io \<Rightarrow> gostring \<Rightarrow> gostring \<Rightarrow> team \<Rightarrow> team jsonfile \<Rightarrow> team_error option \<times> team \<times> team jsonfile" where
  "Transfer io actorID newOwnerID t f =
    (case checkUniqueMembers t of Some e \<Rightarrow> (Some e, t, f)
     | None \<Rightarrow>
        (case FindMember t actorID of Inl e \<Rightarrow> (Some e, t, f)
         | Inr actor \<Rightarrow>
            (case FindMember t newOwnerID of Inl e \<Rightarrow> (Some e, t, f)
             | Inr newOwner \<Rightarrow>
                (case AuthorizeTransfer actor newOwner of Some e \<Rightarrow> (Some e, t, f)
                 | None \<Rightarrow>
                    (let t' = t\<lparr>tm_Members := update_member newOwnerID (\<lambda>m. m\<lparr>mb_Role := RoleOwner\<rparr>)
                                (update_member actorID (\<lambda>m. m\<lparr>mb_Role := RoleAdmin\<rparr>) (tm_Members t))\<rparr>;
                         (e, f') = writeTeam io t' f in (e, t', f'))))))"

definition ChangeRole ::
  "team_io \<Rightarrow> gostring \<Rightarrow> gostring \<Rightarrow> role \<Rightarrow> team \<Rightarrow> team jsonfile \<Rightarrow> team_error option \<times> team \<times> team jsonfile" where
  "ChangeRole io actorID targetID newRole t f =
    (case checkUniqueMembers t of Some e \<Rightarrow> (Some e, t, f)
     | None \<Rightarrow>
        (case FindMember t actorID of Inl e \<Rightarrow> (Some e, t, f)
         | Inr actor \<Rightarrow>
            (case FindMember t targetID of Inl e \<Rightarrow> (Some e, t, f)
             | Inr target \<Rightarrow>
                (case AuthorizeRoleChange actor target newRole of Some e \<Rightarrow> (Some e, t, f)
                 | None \<Rightarrow>
                    (let t' = t\<lparr>tm_Members := update_member targetID (\<lambda>m. m\<lparr>mb_Role := newRole\<rparr>) (tm_Members t)\<rparr>;
                         (e, f') = writeTeam io t' f in (e, t', f'))))))"

definition ActiveMembers :: "team \<Rightarrow> member list" where
  "ActiveMembers t = filter (\<lambda>m. mb_Status m = MemberActive) (tm_Members t)"

subsection \<open>Invites\<close>

record invite_bundle =
  ib_TeamID :: gostring
  ib_TeamName :: gostring
  ib_SyncRepoURL :: gostring
  ib_MemberHMAC :: gostring
  ib_Role :: role
  ib_IssuedAt :: gotime
  ib_ExpiresAt :: gotime
  ib_Signature :: gostring

text \<open>\<open>RFC3339Nano\<close> of a time, and the base64 of a bundle's JSON with its inverse.\<close>

record invite_codec =
  ic_Time :: "gotime \<Rightarrow> gostring"
  ic_Encode :: "invite_bundle \<Rightarrow> gostring"
  ic_Decode :: "gostring \<Rightarrow> team_error + invite_bundle"

definition inviteDomain :: gostring where "inviteDomain = ''keylatch/team/invite/v2''"

definition inviteMessage :: "invite_codec \<Rightarrow> invite_bundle \<Rightarrow> gostring" where
  "inviteMessage F b = Message inviteDomain
     [ib_TeamID b, ib_TeamName b, ib_SyncRepoURL b, ib_MemberHMAC b, ib_Role b, ic_Time F (ib_IssuedAt b), ic_Time F (ib_ExpiresAt b)]"

definition verifyBundle :: "bundle_crypto \<Rightarrow> invite_codec \<Rightarrow> gotime \<Rightarrow> invite_bundle \<Rightarrow> gostring \<Rightarrow> team_error option" where
  "verifyBundle C F now b teamKey =
    (case ParsePublicKey C teamKey of Inl e \<Rightarrow> Some (InviteNeedsKey e)
     | Inr pub \<Rightarrow>
        (case bundle_Verify C pub (inviteMessage F b) (ib_Signature b) of Some e \<Rightarrow> Some (InviteSignature e)
         | None \<Rightarrow> if now > ib_ExpiresAt b then Some InviteExpired else None))"

text \<open>The signing key next to the team's file: its file, the new seed, and how the directory and the key can be
  written. \<open>pub\<close> gives the public half of a private key.\<close>

record invite_key_io =
  ik_Seed :: "gostring option"
  ik_MkdirOk :: bool
  ik_Create :: create_io
  ik_Public :: "gostring \<Rightarrow> gostring"

definition inviteSigningKey ::
  "bundle_crypto \<Rightarrow> team_io \<Rightarrow> invite_key_io \<Rightarrow> team \<Rightarrow> gostring jsonfile \<Rightarrow> (team_error + gostring) \<times> team \<times> gostring jsonfile" where
  "inviteSigningKey C io K t kf =
    (case teamFilePath io of Inl e \<Rightarrow> (Inl e, t, kf)
     | Inr _ \<Rightarrow>
        (case LoadKeyFile C kf of
           Inr priv \<Rightarrow>
             (let pub = EncodePublicKey C (ik_Public K priv) in
              if tm_InvitePubKey t \<noteq> [] \<and> tm_InvitePubKey t \<noteq> pub then (Inl InviteKeyMismatch, t, kf)
              else (Inr priv, t\<lparr>tm_InvitePubKey := pub\<rparr>, kf))
         | Inl e \<Rightarrow>
             if e \<noteq> KeyNotExist then (Inl (InviteKeyUnreadable e), t, kf)
             else if tm_InvitePubKey t \<noteq> [] then (Inl InviteKeyElsewhere, t, kf)
             else if \<not> ik_MkdirOk K then (Inl InviteMkdir, t, kf)
             else (case CreateKeyFile C (ik_Seed K) (ik_Create K) kf of
                     (Inl e, kf') \<Rightarrow> (Inl (InviteKeyFails e), t, kf')
                   | (Inr priv, kf') \<Rightarrow> (Inr priv, t\<lparr>tm_InvitePubKey := EncodePublicKey C (ik_Public K priv)\<rparr>, kf'))))"

definition invite_for :: "bundle_crypto \<Rightarrow> invite_codec \<Rightarrow> gostring \<Rightarrow> gotime \<Rightarrow> team \<Rightarrow> gostring \<Rightarrow> role \<Rightarrow> invite_bundle" where
  "invite_for C F priv now t emailHMAC r =
    (let b = \<lparr>ib_TeamID = tm_ID t, ib_TeamName = tm_Name t, ib_SyncRepoURL = tm_SyncRepoURL t, ib_MemberHMAC = emailHMAC,
           ib_Role = r, ib_IssuedAt = now, ib_ExpiresAt = now + 72 * 3600 * Second, ib_Signature = []\<rparr> in
     b\<lparr>ib_Signature := bundle_Sign C priv (inviteMessage F b)\<rparr>)"

definition CreateInvite ::
  "bundle_crypto \<Rightarrow> invite_codec \<Rightarrow> team_io \<Rightarrow> invite_key_io \<Rightarrow> gotime \<Rightarrow> gostring \<Rightarrow> role \<Rightarrow> team \<Rightarrow> gostring jsonfile \<Rightarrow> team jsonfile \<Rightarrow>
     (team_error + gostring) \<times> team \<times> gostring jsonfile \<times> team jsonfile" where
  "CreateInvite C F io K now emailHMAC r t kf f =
    (case inviteSigningKey C io K t kf of
       (Inl e, t', kf') \<Rightarrow> (Inl e, t', kf', f)
     | (Inr priv, t', kf') \<Rightarrow>
         (case (if tm_InvitePubKey t \<noteq> [] then (None, f) else writeTeam io t' f) of
            (Some e, f') \<Rightarrow> (Inl e, t', kf', f')
          | (None, f') \<Rightarrow> (Inr (ic_Encode F (invite_for C F priv now t' emailHMAC r)), t', kf', f')))"

definition team_Join ::
  "bundle_crypto \<Rightarrow> invite_codec \<Rightarrow> team_io \<Rightarrow> gotime \<Rightarrow> gostring \<Rightarrow> gostring \<Rightarrow> team jsonfile \<Rightarrow> (team_error + team) \<times> team jsonfile" where
  "team_Join C F io now rawBundle teamKey f =
    (case ic_Decode F rawBundle of Inl e \<Rightarrow> (Inl e, f)
     | Inr b \<Rightarrow>
        (case verifyBundle C F now b teamKey of Some e \<Rightarrow> (Inl e, f)
         | None \<Rightarrow>
            (let key = (case ParsePublicKey C teamKey of Inr pub \<Rightarrow> EncodePublicKey C pub | Inl _ \<Rightarrow> EncodePublicKey C []) in
             case team_Load io f of
               Inr existing \<Rightarrow>
                 (if tm_ID existing \<noteq> ib_TeamID b then Inl JoinedDifferentTeam
                  else if tm_InvitePubKey existing \<noteq> [] \<and> tm_InvitePubKey existing \<noteq> key then Inl JoinKeyDiffers
                  else Inl ErrAlreadyJoined, f)
             | Inl e \<Rightarrow>
                 if e \<noteq> ErrTeamNotConfigured then (Inl e, f)
                 else (let t = \<lparr>tm_ID = ib_TeamID b, tm_Name = ib_TeamName b, tm_Members = [], tm_CosignPubKey = [],
                           tm_InvitePubKey = key, tm_SyncRepoURL = ib_SyncRepoURL b, tm_CreatedAt = now\<rparr> in
                       case writeTeam io t f of (Some e, f') \<Rightarrow> (Inl e, f') | (None, f') \<Rightarrow> (Inr t, f')))))"

subsection \<open>The commands\<close>

text \<open>\<open>teamActor\<close>: with a manifest that excludes the feature, and in every build so far, no member is authenticated. The
  commands take the resolution of the actor as an argument, as the code does through a variable.\<close>

definition teamActor :: "bool \<Rightarrow> team \<Rightarrow> team_error + member" where
  "teamActor enabled t = (if \<not> enabled then Inl TeamUnavailable else Inl ErrNoTeamIdentity)"

datatype team_cmd =
    CmdRemove gostring
  | CmdTransfer gostring bool bool
  | CmdRole gostring role

definition newTeamRemoveCmd :: "team_io \<Rightarrow> (team \<Rightarrow> team_error + member) \<Rightarrow> gostring \<Rightarrow> team jsonfile \<Rightarrow> team_error option \<times> team jsonfile" where
  "newTeamRemoveCmd io actor memberID f =
    (if memberID = [] then (Some MissingFlag, f)
     else (case team_Load io f of Inl e \<Rightarrow> (Some e, f)
     | Inr t \<Rightarrow>
        (case actor t of Inl e \<Rightarrow> (Some e, f)
         | Inr a \<Rightarrow>
            (case FindMember t memberID of Inl e \<Rightarrow> (Some e, f)
             | Inr target \<Rightarrow>
                (case AuthorizeRemoval a target of Some e \<Rightarrow> (Some e, f)
                 | None \<Rightarrow> (case RemoveMember io memberID t f of (e, _, f') \<Rightarrow> (e, f')))))))"

definition newTeamTransferCmd ::
  "team_io \<Rightarrow> (team \<Rightarrow> team_error + member) \<Rightarrow> bool \<Rightarrow> bool \<Rightarrow> gostring \<Rightarrow> team jsonfile \<Rightarrow> team_error option \<times> team jsonfile" where
  "newTeamTransferCmd io actor llm interactive toID f =
    (if toID = [] then (Some MissingFlag, f)
     else if llm then (Some AgentSessionBlocked, f)
     else if \<not> interactive then (Some NotInteractive, f)
     else (case team_Load io f of Inl e \<Rightarrow> (Some e, f)
     | Inr t \<Rightarrow>
        (case actor t of Inl e \<Rightarrow> (Some e, f)
         | Inr a \<Rightarrow> (case Transfer io (mb_ID a) toID t f of (e, _, f') \<Rightarrow> (e, f')))))"

definition newTeamRoleCmd :: "team_io \<Rightarrow> (team \<Rightarrow> team_error + member) \<Rightarrow> gostring \<Rightarrow> role \<Rightarrow> team jsonfile \<Rightarrow> team_error option \<times> team jsonfile" where
  "newTeamRoleCmd io actor memberID newRole f =
    (if memberID = [] \<or> newRole = [] then (Some MissingFlag, f)
     else (case team_Load io f of Inl e \<Rightarrow> (Some e, f)
     | Inr t \<Rightarrow>
        (case actor t of Inl e \<Rightarrow> (Some e, f)
         | Inr a \<Rightarrow> (case ChangeRole io (mb_ID a) memberID newRole t f of (e, _, f') \<Rightarrow> (e, f')))))"

fun team_command :: "team_io \<Rightarrow> (team \<Rightarrow> team_error + member) \<Rightarrow> team_cmd \<Rightarrow> team jsonfile \<Rightarrow> team_error option \<times> team jsonfile" where
  "team_command io actor (CmdRemove i) f = newTeamRemoveCmd io actor i f"
| "team_command io actor (CmdTransfer i llm interactive) f = newTeamTransferCmd io actor llm interactive i f"
| "team_command io actor (CmdRole i r) f = newTeamRoleCmd io actor i r f"

text \<open>\<open>newTeamInviteCmd\<close> up to what it prints.\<close>

definition newTeamInviteCmd ::
  "bundle_crypto \<Rightarrow> invite_codec \<Rightarrow> team_io \<Rightarrow> invite_key_io \<Rightarrow> (team \<Rightarrow> team_error + member) \<Rightarrow> gotime \<Rightarrow> gostring \<Rightarrow> role \<Rightarrow> gostring jsonfile \<Rightarrow>
     team jsonfile \<Rightarrow> (team_error + gostring) \<times> gostring jsonfile \<times> team jsonfile" where
  "newTeamInviteCmd C F io K actor now emailHMAC r0 kf f =
    (if emailHMAC = [] then (Inl MissingFlag, kf, f)
     else let r = (if r0 = [] then RoleDeveloper else r0) in
       case team_Load io f of Inl e \<Rightarrow> (Inl e, kf, f)
       | Inr t \<Rightarrow>
          (case actor t of Inl e \<Rightarrow> (Inl e, kf, f)
           | Inr a \<Rightarrow>
              (case AuthorizeInvite a r of Some e \<Rightarrow> (Inl e, kf, f)
               | None \<Rightarrow> (case CreateInvite C F io K now emailHMAC r t kf f of (res, _, kf', f') \<Rightarrow> (res, kf', f')))))"

subsection \<open>Provisioning\<close>

text \<open>The SCIM handlers that change the roster the server holds: a created user is only appended in memory, an update
  changes nothing, a deletion goes through \<open>RemoveMember\<close>. The results are the HTTP status codes.\<close>

datatype scim_request = ScimCreate gostring bool | ScimUpdate gostring | ScimDelete gostring

definition scim_authFn :: "gostring \<Rightarrow> gostring \<Rightarrow> bool" where
  "scim_authFn bearer auth = (bearer \<noteq> [] \<and> auth = ''Bearer '' @ bearer)"

definition scim_new_member :: "gostring \<Rightarrow> gotime \<Rightarrow> gostring \<Rightarrow> bool \<Rightarrow> member" where
  "scim_new_member i now userName active =
    \<lparr>mb_ID = i, mb_HMAC = userName, mb_Role = RoleDeveloper, mb_AgePublicKey = [], mb_TrustRoots = [], mb_JoinedAt = now,
     mb_Status = (if active then MemberActive else MemberSuspended)\<rparr>"

fun scim_handle :: "team_io \<Rightarrow> gotime \<Rightarrow> scim_request \<Rightarrow> team \<Rightarrow> team jsonfile \<Rightarrow> nat \<times> team \<times> team jsonfile" where
  "scim_handle io now (ScimCreate userName active) t f =
    (201, t\<lparr>tm_Members := tm_Members t @ [scim_new_member (''scim-'' @ format_int now) now userName active]\<rparr>, f)"
| "scim_handle io now (ScimUpdate i) t f = (if (\<exists>m \<in> set (tm_Members t). mb_ID m = i) then 200 else 404, t, f)"
| "scim_handle io now (ScimDelete i) t f =
    (case RemoveMember io i t f of
       (None, t', f') \<Rightarrow> (204, t', f')
     | (Some e, t', f') \<Rightarrow> (if e = ErrMemberNotFound then 404 else 500, t', f'))"

definition scim_serve :: "gostring \<Rightarrow> team_io \<Rightarrow> gotime \<Rightarrow> gostring \<Rightarrow> scim_request \<Rightarrow> team \<Rightarrow> team jsonfile \<Rightarrow> nat \<times> team \<times> team jsonfile" where
  "scim_serve bearer io now auth rq t f = (if \<not> scim_authFn bearer auth then (401, t, f) else scim_handle io now rq t f)"

end
