(* ===== verification/Team_Facts.thy ===== *)
theory Team_Facts
  imports Team_Members
begin

section \<open>What the commands can do to a team\<close>

text \<open>
  The roster under any sequence of team commands: its identifiers, its one active owner and the members of at least
  admin rank; what provisioning can do to the owner; when an invite makes a machine join. The lemmas reduce a command
  to an assignment to one entry of a roster without duplicates.
\<close>

subsection \<open>Rosters without duplicates\<close>

lemma duplicate_from_None:
  "duplicate_from seen ms = None \<longleftrightarrow> distinct (map mb_ID ms) \<and> mb_ID ` set ms \<inter> seen = {}"
  by (induction seen ms rule: duplicate_from.induct) auto

lemma checkUnique_None [simp]: "checkUniqueMembers t = None \<longleftrightarrow> distinct (map mb_ID (tm_Members t))"
  by (simp add: checkUniqueMembers_def duplicate_from_None)

lemma checkUnique_Some: "checkUniqueMembers t = Some e \<Longrightarrow> \<not> distinct (map mb_ID (tm_Members t))"
  by (metis checkUnique_None option.distinct(1))

lemma update_member_map:
  "distinct (map mb_ID ms) \<Longrightarrow> update_member i g ms = map (\<lambda>m. if mb_ID m = i then g m else m) ms"
proof (induction ms)
  case (Cons m ms)
  have "mb_ID m = i \<Longrightarrow> map (\<lambda>m. if mb_ID m = i then g m else m) ms = ms"
    using Cons.prems by (intro map_idI) (force simp: image_iff)
  then show ?case using Cons by auto
qed simp

lemma update_member_IDs:
  "(\<And>m. mb_ID (g m) = mb_ID m) \<Longrightarrow> map mb_ID (update_member i g ms) = map mb_ID ms"
  by (induction ms) auto

lemma FindMember_in: "FindMember t i = Inr m \<Longrightarrow> m \<in> set (tm_Members t) \<and> mb_ID m = i"
  by (auto simp: FindMember_def find_Some_iff split: option.splits)

lemma filter_map_untouched:
  assumes "\<And>m. m \<in> set ms \<Longrightarrow> P (f m) = P m" "\<And>m. m \<in> set ms \<Longrightarrow> P m \<Longrightarrow> f m = m"
  shows "filter P (map f ms) = filter P ms"
  using assms by (induction ms) auto

lemma filter_one: "distinct (map g ms) \<Longrightarrow> x \<in> set ms \<Longrightarrow> filter (\<lambda>m. g m = g x) ms = [x]"
  by (induction ms) (force simp: filter_empty_conv image_iff)+

lemma writeTeam_cases:
  "writeTeam io t f = (e, f') \<Longrightarrow> (e \<noteq> None \<and> f' = f) \<or> (e = None \<and> f' = Holds t)"
  by (cases "checkUniqueMembers t") (auto simp: writeTeam_def write_file_def simp del: checkUnique_None split: sum.splits if_splits)

subsection \<open>One command\<close>

text \<open>What a command that changed the file did, for the acting member \<open>a\<close>.\<close>

definition assigned :: "team \<Rightarrow> gostring \<Rightarrow> (member \<Rightarrow> member) \<Rightarrow> team" where
  "assigned t i g = t\<lparr>tm_Members := map (\<lambda>m. if mb_ID m = i then g m else m) (tm_Members t)\<rparr>"

definition removed_by :: "member \<Rightarrow> team \<Rightarrow> team \<Rightarrow> bool" where
  "removed_by a t t' = (\<exists>m \<in> set (tm_Members t). AuthorizeRemoval a m = None \<and>
     t' = assigned t (mb_ID m) (\<lambda>m. m\<lparr>mb_Status := MemberRemoved\<rparr>))"

definition role_changed_by :: "member \<Rightarrow> team \<Rightarrow> team \<Rightarrow> bool" where
  "role_changed_by a t t' = (\<exists>m \<in> set (tm_Members t). \<exists>r. AuthorizeRoleChange a m r = None \<and>
     t' = assigned t (mb_ID m) (\<lambda>m. m\<lparr>mb_Role := r\<rparr>))"

definition transferred_by :: "member \<Rightarrow> team \<Rightarrow> team \<Rightarrow> bool" where
  "transferred_by a t t' = (\<exists>m \<in> set (tm_Members t). AuthorizeTransfer a m = None \<and>
     t' = assigned (assigned t (mb_ID a) (\<lambda>m. m\<lparr>mb_Role := RoleAdmin\<rparr>)) (mb_ID m) (\<lambda>m. m\<lparr>mb_Role := RoleOwner\<rparr>))"

definition resolves :: "(team \<Rightarrow> team_error + member) \<Rightarrow> bool" where
  "resolves actor = (\<forall>t a. actor t = Inr a \<longrightarrow> FindMember t (mb_ID a) = Inr a)"

lemma team_Load_Holds:
  "team_Load io (Holds t) = Inr u \<longleftrightarrow> u = t \<and> distinct (map mb_ID (tm_Members t)) \<and> (\<exists>p. teamFilePath io = Inr p)"
  by (auto simp: team_Load_def dest: checkUnique_Some split: sum.splits option.splits)

lemma remove_step:
  assumes "newTeamRemoveCmd io actor i (Holds t) = (e, f)" "resolves actor"
  shows "f = Holds t \<or> (\<exists>a t'. actor t = Inr a \<and> f = Holds t' \<and> removed_by a t t')"
proof (cases "f = Holds t")
  case False
  with assms obtain a m where a: "actor t = Inr a" "FindMember t i = Inr m" "AuthorizeRemoval a m = None"
      "distinct (map mb_ID (tm_Members t))" and r: "fst (RemoveMember io i t (Holds t)) = e" "snd (snd (RemoveMember io i t (Holds t))) = f"
    by (auto simp: newTeamRemoveCmd_def team_Load_Holds split: if_splits sum.splits option.splits prod.splits)
  from r(2) a(2) False have "f = Holds (t\<lparr>tm_Members := update_member i (\<lambda>m. m\<lparr>mb_Status := MemberRemoved\<rparr>) (tm_Members t)\<rparr>)"
    by (auto simp: RemoveMember_def Let_def dest!: writeTeam_cases split: prod.splits option.splits)
  moreover have "m \<in> set (tm_Members t)" "mb_ID m = i" using FindMember_in [OF a(2)] by auto
  ultimately show ?thesis using a unfolding removed_by_def assigned_def update_member_map [OF a(4)] by blast
qed simp

lemma role_step:
  assumes "newTeamRoleCmd io actor i r (Holds t) = (e, f)" "resolves actor"
  shows "f = Holds t \<or> (\<exists>a t'. actor t = Inr a \<and> f = Holds t' \<and> role_changed_by a t t')"
proof (cases "f = Holds t")
  case False
  with assms obtain a where a: "actor t = Inr a" "FindMember t (mb_ID a) = Inr a"
      "distinct (map mb_ID (tm_Members t))" and r: "snd (snd (ChangeRole io (mb_ID a) i r t (Holds t))) = f"
    by (auto simp: newTeamRoleCmd_def team_Load_Holds resolves_def split: if_splits sum.splits option.splits prod.splits)
  from r a False obtain m where m: "FindMember t i = Inr m" "AuthorizeRoleChange a m r = None"
      "f = Holds (t\<lparr>tm_Members := update_member i (\<lambda>m. m\<lparr>mb_Role := r\<rparr>) (tm_Members t)\<rparr>)"
    by (auto simp: ChangeRole_def Let_def dest!: writeTeam_cases split: prod.splits option.splits sum.splits)
  moreover have "m \<in> set (tm_Members t)" "mb_ID m = i" using FindMember_in [OF m(1)] by auto
  ultimately show ?thesis using a unfolding role_changed_by_def assigned_def update_member_map [OF a(3)] by blast
qed simp

lemma transfer_step:
  assumes "newTeamTransferCmd io actor llm tty i (Holds t) = (e, f)" "resolves actor"
  shows "f = Holds t \<or> (\<exists>a t'. actor t = Inr a \<and> f = Holds t' \<and> transferred_by a t t')"
proof (cases "f = Holds t")
  case False
  with assms obtain a where a: "actor t = Inr a" "FindMember t (mb_ID a) = Inr a"
      "distinct (map mb_ID (tm_Members t))" and r: "snd (snd (Transfer io (mb_ID a) i t (Holds t))) = f"
    by (auto simp: newTeamTransferCmd_def team_Load_Holds resolves_def split: if_splits sum.splits option.splits prod.splits)
  from r a False obtain m where m: "FindMember t i = Inr m" "AuthorizeTransfer a m = None"
      "f = Holds (t\<lparr>tm_Members := update_member i (\<lambda>m. m\<lparr>mb_Role := RoleOwner\<rparr>)
         (update_member (mb_ID a) (\<lambda>m. m\<lparr>mb_Role := RoleAdmin\<rparr>) (tm_Members t))\<rparr>)"
    by (auto simp: Transfer_def Let_def dest!: writeTeam_cases split: prod.splits option.splits sum.splits)
  have d: "distinct (map mb_ID (map (\<lambda>m. if mb_ID m = mb_ID a then m\<lparr>mb_Role := RoleAdmin\<rparr> else m) (tm_Members t)))"
    using a(3) unfolding update_member_map [OF a(3), symmetric] by (simp add: update_member_IDs)
  have "m \<in> set (tm_Members t)" "mb_ID m = i" using FindMember_in [OF m(1)] by auto
  then show ?thesis using a m d
    by (auto simp: transferred_by_def assigned_def update_member_map [OF a(3)] update_member_map [OF d] simp del: map_map)
qed simp

lemma team_command_step:
  assumes "resolves actor"
  shows "snd (team_command io actor c (Holds t)) = Holds t \<or>
    (\<exists>a t'. actor t = Inr a \<and> FindMember t (mb_ID a) = Inr a \<and> snd (team_command io actor c (Holds t)) = Holds t' \<and>
       distinct (map mb_ID (tm_Members t)) \<and> (removed_by a t t' \<or> role_changed_by a t t' \<or> transferred_by a t t'))"
    (is "?same \<or> ?done")
proof (rule disjCI)
  assume n: "\<not> ?done"
  have d: "distinct (map mb_ID (tm_Members t))" if "snd (team_command io actor c (Holds t)) \<noteq> Holds t"
    using that by (cases c) (auto simp: newTeamRemoveCmd_def newTeamRoleCmd_def newTeamTransferCmd_def team_Load_Holds
        split: if_splits sum.splits)
  have r: "FindMember t (mb_ID a) = Inr a" if "actor t = Inr a" for a using assms that by (auto simp: resolves_def)
  show ?same
  proof (cases c)
    case (CmdRemove i)
    then show ?thesis using n d r remove_step [OF _ assms, of io i t] by (cases "newTeamRemoveCmd io actor i (Holds t)") fastforce
  next
    case (CmdTransfer i llm tty)
    then show ?thesis using n d r transfer_step [OF _ assms, of io llm tty i t]
      by (cases "newTeamTransferCmd io actor llm tty i (Holds t)") fastforce
  next
    case (CmdRole i x)
    then show ?thesis using n d r role_step [OF _ assms, of io i x t] by (cases "newTeamRoleCmd io actor i x (Holds t)") fastforce
  qed
qed

subsection \<open>Owners and admins\<close>

definition owners :: "team \<Rightarrow> member list" where
  "owners t = filter (\<lambda>m. mb_Role m = RoleOwner) (tm_Members t)"

definition high_ranks :: "team \<Rightarrow> member list" where
  "high_ranks t = filter (\<lambda>m. RoleLevel (mb_Role m) \<ge> RoleLevel RoleAdmin) (tm_Members t)"

definition one_active_owner :: "team \<Rightarrow> bool" where
  "one_active_owner t = (\<exists>m. owners t = [m] \<and> mb_Status m = MemberActive)"

lemma RoleLevel_simps [simp]:
  "RoleLevel RoleOwner = 4" "RoleLevel RoleAdmin = 3" "RoleLevel RoleDeveloper = 2" "RoleLevel RoleViewer = 1"
  by (simp_all add: RoleLevel_def)

lemma RoleLevel_owner: "RoleLevel r \<le> 4" "3 < RoleLevel r \<longleftrightarrow> r = RoleOwner"
  by (simp_all add: RoleLevel_def)

lemma same_entry:
  "distinct (map mb_ID ms) \<Longrightarrow> m \<in> set ms \<Longrightarrow> x \<in> set ms \<Longrightarrow> mb_ID x = mb_ID m \<longleftrightarrow> x = m"
  by (auto simp: distinct_map inj_on_def)

lemma assigned_members: "tm_Members (assigned t i g) = map (\<lambda>m. if mb_ID m = i then g m else m) (tm_Members t)"
  by (simp add: assigned_def)

text \<open>An assignment to an entry outside a rank that stays outside keeps the members of the rank as they are.\<close>

lemma filter_assigned:
  assumes "distinct (map mb_ID (tm_Members t))" "m \<in> set (tm_Members t)" "\<not> P m" "\<not> P (g m)"
  shows "filter P (tm_Members (assigned t (mb_ID m) g)) = filter P (tm_Members t)"
  unfolding assigned_members by (rule filter_map_untouched) (use assms in \<open>auto simp: same_entry\<close>)

lemma AuthorizeRemoval_None:
  "AuthorizeRemoval a m = None \<Longrightarrow> mb_Status a = MemberActive \<and> mb_Role m \<noteq> RoleOwner \<and> RoleLevel (mb_Role m) < RoleLevel (mb_Role a)"
  by (auto simp: AuthorizeRemoval_def requireActiveAdmin_def RequireRole_def split: option.splits if_splits)

lemma AuthorizeRoleChange_None:
  "AuthorizeRoleChange a m r = None \<Longrightarrow> mb_Status a = MemberActive \<and> mb_Role m \<noteq> RoleOwner \<and> r \<noteq> RoleOwner \<and>
     RoleLevel (mb_Role m) < RoleLevel (mb_Role a) \<and> RoleLevel r < RoleLevel (mb_Role a)"
  by (auto simp: AuthorizeRoleChange_def requireActiveAdmin_def RequireRole_def split: option.splits if_splits)

lemma AuthorizeTransfer_None:
  "AuthorizeTransfer a m = None \<longleftrightarrow> mb_Status a = MemberActive \<and> mb_Role a = RoleOwner \<and> mb_ID m \<noteq> mb_ID a \<and> mb_Status m = MemberActive"
  by (auto simp: AuthorizeTransfer_def)

text \<open>Removals and changes of roles leave the owners as they are, and unless the owner acts also the admins.\<close>

lemma kept_by_change:
  assumes "distinct (map mb_ID (tm_Members t))" "removed_by a t t' \<or> role_changed_by a t t'"
  shows "owners t' = owners t" "mb_Role a \<noteq> RoleOwner \<Longrightarrow> high_ranks t' = high_ranks t"
proof -
  obtain m g where m: "m \<in> set (tm_Members t)" "t' = assigned t (mb_ID m) g" "mb_Role m \<noteq> RoleOwner" "mb_Role (g m) \<noteq> RoleOwner"
      "RoleLevel (mb_Role m) < RoleLevel (mb_Role a)" "RoleLevel (mb_Role (g m)) < RoleLevel (mb_Role a)"
    using assms(2)
  proof
    assume "removed_by a t t'"
    then obtain m where m: "m \<in> set (tm_Members t)" "AuthorizeRemoval a m = None"
        "t' = assigned t (mb_ID m) (\<lambda>m. m\<lparr>mb_Status := MemberRemoved\<rparr>)" by (auto simp: removed_by_def)
    note n = AuthorizeRemoval_None [OF m(2)]
    show thesis by (rule that [OF m(1,3)]) (simp_all add: n)
  next
    assume "role_changed_by a t t'"
    then obtain m r where m: "m \<in> set (tm_Members t)" "AuthorizeRoleChange a m r = None"
        "t' = assigned t (mb_ID m) (\<lambda>m. m\<lparr>mb_Role := r\<rparr>)" by (auto simp: role_changed_by_def)
    note n = AuthorizeRoleChange_None [OF m(2)]
    show thesis by (rule that [OF m(1,3)]) (simp_all add: n)
  qed
  show "owners t' = owners t" unfolding owners_def m(2) by (rule filter_assigned [OF assms(1) m(1)]) (use m(3,4) in simp_all)
  assume "mb_Role a \<noteq> RoleOwner"
  then have "RoleLevel (mb_Role a) \<le> 3" using RoleLevel_owner(2) [of "mb_Role a"] by simp
  then show "high_ranks t' = high_ranks t" unfolding high_ranks_def m(2)
    by (intro filter_assigned [OF assms(1) m(1)]) (use m(5,6) in auto)
qed

lemma assigned_IDs: "(\<And>m. mb_ID (g m) = mb_ID m) \<Longrightarrow> map mb_ID (tm_Members (assigned t i g)) = map mb_ID (tm_Members t)"
  by (simp add: assigned_members)

lemma changed_IDs:
  "removed_by a t t' \<or> role_changed_by a t t' \<or> transferred_by a t t' \<Longrightarrow> map mb_ID (tm_Members t') = map mb_ID (tm_Members t)"
  by (auto simp: removed_by_def role_changed_by_def transferred_by_def assigned_IDs)

text \<open>A transfer moves the one ownership to another active member.\<close>

lemma owner_moves:
  assumes d: "distinct (map mb_ID (tm_Members t))" and o: "owners t = [x]" and t: "transferred_by a t t'"
      and a: "FindMember t (mb_ID a) = Inr a"
  shows "one_active_owner t'"
proof -
  from t obtain m where m: "m \<in> set (tm_Members t)" "AuthorizeTransfer a m = None"
    "t' = assigned (assigned t (mb_ID a) (\<lambda>m. m\<lparr>mb_Role := RoleAdmin\<rparr>)) (mb_ID m) (\<lambda>m. m\<lparr>mb_Role := RoleOwner\<rparr>)"
    by (auto simp: transferred_by_def)
  note p = m(2) [unfolded AuthorizeTransfer_None]
  have a_in: "a \<in> set (tm_Members t)" using FindMember_in [OF a] by simp
  have "a \<in> set (owners t)" using a_in p by (simp add: owners_def)
  then have only: "y \<in> set (tm_Members t) \<Longrightarrow> mb_Role y = RoleOwner \<Longrightarrow> y = a" for y
  proof -
    assume "y \<in> set (tm_Members t)" "mb_Role y = RoleOwner"
    then have "y \<in> set (owners t)" by (simp add: owners_def)
    then show "y = a" using \<open>a \<in> set (owners t)\<close> o by simp
  qed
  let ?f = "\<lambda>y. if mb_ID y = mb_ID m then y\<lparr>mb_Role := RoleOwner\<rparr> else if mb_ID y = mb_ID a then y\<lparr>mb_Role := RoleAdmin\<rparr> else y"
  have "tm_Members t' = map ?f (tm_Members t)" using p by (auto simp: m(3) assigned_members)
  then have "owners t' = map ?f (filter (\<lambda>y. mb_ID y = mb_ID m) (tm_Members t))"
    using only by (auto simp: owners_def filter_map o_def intro!: arg_cong [of _ _ "map ?f"] filter_cong)
  also have "\<dots> = [m\<lparr>mb_Role := RoleOwner\<rparr>]" using filter_one [OF d m(1)] by simp
  finally show ?thesis using p by (simp add: one_active_owner_def)
qed

text \<open>A run of commands, each in its own environment and with its own resolution of the acting member.\<close>

type_synonym team_call = "team_io \<times> (team \<Rightarrow> team_error + member) \<times> team_cmd"

fun team_run :: "team_call list \<Rightarrow> team jsonfile \<Rightarrow> team jsonfile" where
  "team_run [] f = f"
| "team_run ((io, actor, c) # cs) f = team_run cs (snd (team_command io actor c f))"

lemma team_run_invariant:
  assumes step: "\<And>io actor c t a t'. (io, actor, c) \<in> set cs \<Longrightarrow> I t \<Longrightarrow> actor t = Inr a \<Longrightarrow> FindMember t (mb_ID a) = Inr a \<Longrightarrow>
      distinct (map mb_ID (tm_Members t)) \<Longrightarrow> removed_by a t t' \<or> role_changed_by a t t' \<or> transferred_by a t t' \<Longrightarrow> I t'"
    and "\<forall>(io, actor, c) \<in> set cs. resolves actor" "I t"
  shows "\<exists>t'. team_run cs (Holds t) = Holds t' \<and> I t'"
  using assms
proof (induction cs arbitrary: t)
  case (Cons call cs)
  obtain io actor c where call: "call = (io, actor, c)" by (cases call)
  have "\<exists>u. snd (team_command io actor c (Holds t)) = Holds u \<and> I u"
    using team_command_step [of actor io c t] Cons.prems(1) [of io actor c t] Cons.prems(2,3) call by auto
  then show ?case using Cons call by (metis (no_types, lifting) list.set_intros(2) team_run.simps(2))
qed simp

subsection \<open>The theorems\<close>

text \<open>C28: Starting from a team with one active owner, whatever commands are run by whatever members of the roster, and
  however writes fail, the file holds a team with the same identifiers and exactly one owner, who is active. If no
  command is run by an owner, the entries of rank admin and above are unchanged: admins can neither create, remove nor
  demote an admin, and nobody else can change anything.\<close>

theorem team_one_owner:
  assumes "one_active_owner t" and "\<forall>(io, actor, c) \<in> set cs. resolves actor"
  shows "\<exists>t'. team_run cs (Holds t) = Holds t' \<and> one_active_owner t' \<and>
    map mb_ID (tm_Members t') = map mb_ID (tm_Members t) \<and>
    ((\<forall>(io, actor, c) \<in> set cs. \<forall>u a. actor u = Inr a \<longrightarrow> mb_Role a \<noteq> RoleOwner) \<longrightarrow> high_ranks t' = high_ranks t)"
proof -
  have "\<exists>t'. team_run cs (Holds t) = Holds t' \<and> one_active_owner t' \<and> map mb_ID (tm_Members t') = map mb_ID (tm_Members t)"
  proof (rule team_run_invariant [OF _ assms(2)], goal_cases)
    case (1 io actor c u a u')
    then obtain x where x: "owners u = [x]" "mb_Status x = MemberActive" by (auto simp: one_active_owner_def)
    have "one_active_owner u'"
    proof (cases "transferred_by a u u'")
      case True
      then show ?thesis using owner_moves [OF 1(5) x(1) _ 1(4)] by blast
    next
      case False
      then have "owners u' = [x]" using kept_by_change(1) [OF 1(5), of a u'] 1(6) x(1) by auto
      then show ?thesis using x(2) by (simp add: one_active_owner_def)
    qed
    then show ?case using 1(2) changed_IDs [OF 1(6)] by simp
  qed (use assms(1) in simp)
  moreover have "\<exists>t'. team_run cs (Holds t) = Holds t' \<and> high_ranks t' = high_ranks t"
    if others: "\<forall>(io, actor, c) \<in> set cs. \<forall>u a. actor u = Inr a \<longrightarrow> mb_Role a \<noteq> RoleOwner"
  proof (rule team_run_invariant [OF _ assms(2)], goal_cases)
    case (1 io actor c u a u')
    then have "mb_Role a \<noteq> RoleOwner" using others by blast
    moreover from this have "\<not> transferred_by a u u'" by (auto simp: transferred_by_def AuthorizeTransfer_None)
    ultimately show ?case using 1(2,6) kept_by_change(2) [OF 1(5), of a u'] by auto
  qed simp
  ultimately show ?thesis by (metis (no_types, lifting) jsonfile.inject)
qed

text \<open>The holder of the provisioning token can remove the owner, which no command can. The file then holds a team
  without an active owner, and no sequence of commands by members of the roster gives it one again.\<close>

theorem scim_owner_lockout:
  assumes "owners t = [m]" and "distinct (map mb_ID (tm_Members t))" and "bearer \<noteq> []"
    and "ti_Write io = WriteOk" and "ti_Home io = Some home" and "\<forall>(io, actor, c) \<in> set cs. resolves actor"
    and "scim_serve bearer io now (''Bearer '' @ bearer) (ScimDelete (mb_ID m)) t f = (code, u, f')"
  shows "\<exists>t'. team_run cs f' = Holds t' \<and> mb_ID ` set (owners t') = {mb_ID m} \<and>
    (\<forall>x \<in> set (owners t'). mb_Status x = MemberRemoved)"
proof -
  have m: "m \<in> set (tm_Members t)" "mb_Role m = RoleOwner" using assms(1) by (auto simp: owners_def filter_eq_Cons_iff)
  define r where "r = assigned t (mb_ID m) (\<lambda>m. m\<lparr>mb_Status := MemberRemoved\<rparr>)"
  have r: "r = t\<lparr>tm_Members := update_member (mb_ID m) (\<lambda>m. m\<lparr>mb_Status := MemberRemoved\<rparr>) (tm_Members t)\<rparr>"
    by (simp add: r_def assigned_def update_member_map [OF assms(2)])
  have rd: "distinct (map mb_ID (tm_Members r))" using assms(2) by (simp add: r_def assigned_IDs)
  have w: "writeTeam io r f = (None, Holds r)"
    using checkUnique_None [of r, THEN iffD2, OF rd] assms(4,5)
    by (simp add: writeTeam_def teamFilePath_def write_file_def del: checkUnique_None)
  obtain x where "FindMember t (mb_ID m) = Inr x"
    using m(1) by (cases "find (\<lambda>y. mb_ID y = mb_ID m) (tm_Members t)") (auto simp: FindMember_def find_None_iff)
  then have f': "f' = Holds r" using assms(3,7) w
    by (auto simp: scim_serve_def scim_authFn_def RemoveMember_def Let_def r [symmetric] split: option.splits if_splits)
  have or: "owners r = [m\<lparr>mb_Status := MemberRemoved\<rparr>]"
  proof -
    let ?f = "\<lambda>x. if mb_ID x = mb_ID m then x\<lparr>mb_Status := MemberRemoved\<rparr> else x"
    have "owners r = map ?f (filter (\<lambda>x. mb_Role (?f x) = RoleOwner) (tm_Members t))"
      by (simp add: owners_def r_def assigned_members filter_map o_def)
    also have "(\<lambda>x. mb_Role (?f x) = RoleOwner) = (\<lambda>x. mb_Role x = RoleOwner)" by auto
    finally show ?thesis using assms(1) by (simp add: owners_def)
  qed
  have "\<exists>t'. team_run cs (Holds r) = Holds t' \<and> owners t' = owners r"
  proof (rule team_run_invariant [OF _ assms(6)], goal_cases)
    case (1 io actor c v a v')
    have "\<not> transferred_by a v v'"
    proof
      assume "transferred_by a v v'"
      then have "mb_Role a = RoleOwner \<and> mb_Status a = MemberActive" by (auto simp: transferred_by_def AuthorizeTransfer_None)
      then have "a \<in> set (owners v)" using FindMember_in [OF 1(4)] by (simp add: owners_def)
      then show False using 1(2) or \<open>mb_Role a = RoleOwner \<and> mb_Status a = MemberActive\<close> by auto
    qed
    then show ?case using 1(2,6) kept_by_change(1) [OF 1(5), of a v'] by auto
  qed simp
  then show ?thesis using or f' by auto
qed

text \<open>\<open>Join\<close> writes the team's file only where there was none, and only for a bundle that is signed under the given key
  and has not expired; the new file holds the bundle's team, no member, and that key.\<close>

theorem team_join_guarded:
  assumes "team_Join C F io now raw key f = (r, f')" and "f' \<noteq> f"
  shows "f = Absent \<and> (\<exists>b pub t. ic_Decode F raw = Inr b \<and> ParsePublicKey C key = Inr pub \<and>
    bundle_Verify C pub (inviteMessage F b) (ib_Signature b) = None \<and> now \<le> ib_ExpiresAt b \<and>
    f' = Holds t \<and> r = Inr t \<and> tm_ID t = ib_TeamID b \<and> tm_Members t = [] \<and> tm_InvitePubKey t = EncodePublicKey C pub)"
proof -
  from assms obtain b pub where b: "ic_Decode F raw = Inr b" "verifyBundle C F now b key = None" "ParsePublicKey C key = Inr pub"
    by (auto simp: team_Join_def verifyBundle_def split: sum.splits option.splits)
  define t where "t = \<lparr>tm_ID = ib_TeamID b, tm_Name = ib_TeamName b, tm_Members = [], tm_CosignPubKey = [],
     tm_InvitePubKey = EncodePublicKey C pub, tm_SyncRepoURL = ib_SyncRepoURL b, tm_CreatedAt = now\<rparr>"
  have l: "team_Load io f = Inl ErrTeamNotConfigured"
    using assms b by (auto simp: team_Join_def Let_def split: sum.splits if_splits)
  have "team_Join C F io now raw key f = (case writeTeam io t f of (Some e, g) \<Rightarrow> (Inl e, g) | (None, g) \<Rightarrow> (Inr t, g))"
    unfolding t_def using b l by (simp add: team_Join_def Let_def)
  with assms(1) have w: "(case writeTeam io t f of (Some e, g) \<Rightarrow> (Inl e, g) | (None, g) \<Rightarrow> (Inr t, g)) = (r, f')" by simp
  then have "f' = Holds t" "r = Inr t" using assms(2)
    by (cases "writeTeam io t f"; auto dest: writeTeam_cases split: option.splits)+
  moreover have "f = Absent" using l
    by (cases f) (auto simp: team_Load_def teamFilePath_def checkUniqueMembers_def simp del: checkUnique_None split: option.splits if_splits)
  ultimately show ?thesis using b by (auto simp: verifyBundle_def t_def split: option.splits if_splits)
qed

subsection \<open>Witnesses\<close>

definition sample_member :: "gostring \<Rightarrow> role \<Rightarrow> member" where
  "sample_member i r = \<lparr>mb_ID = i, mb_HMAC = i, mb_Role = r, mb_AgePublicKey = [], mb_TrustRoots = [], mb_JoinedAt = 0,
     mb_Status = MemberActive\<rparr>"

definition sample_team :: team where
  "sample_team = \<lparr>tm_ID = ''t'', tm_Name = ''team'', tm_Members = [sample_member ''o'' RoleOwner, sample_member ''a'' RoleAdmin,
     sample_member ''d'' RoleDeveloper], tm_CosignPubKey = [], tm_InvitePubKey = [], tm_SyncRepoURL = [], tm_CreatedAt = 0\<rparr>"

definition sample_team_io :: team_io where
  "sample_team_io = \<lparr>ti_Home = Some ''/h'', ti_Dir = [], ti_Write = WriteOk, ti_OnRotate = None\<rparr>"

lemma resolves_FindMember: "resolves (\<lambda>t. FindMember t i)"
  by (auto simp: resolves_def dest: FindMember_in)

lemma sample_team_fields:
  "distinct (map mb_ID (tm_Members sample_team))" "owners sample_team = [sample_member ''o'' RoleOwner]"
  "one_active_owner sample_team"
  by (simp_all add: sample_team_def sample_member_def owners_def one_active_owner_def)

text \<open>The admin makes the developer a viewer and tries to make itself owner.\<close>

definition sample_team_calls :: "team_call list" where
  "sample_team_calls = [(sample_team_io, \<lambda>t. FindMember t ''a'', CmdRole ''d'' RoleViewer),
     (sample_team_io, \<lambda>t. FindMember t ''a'', CmdRole ''a'' RoleOwner)]"

theorem team_one_owner_witness:
  "\<exists>t'. team_run sample_team_calls (Holds sample_team) = Holds t' \<and> one_active_owner t' \<and>
     map mb_ID (tm_Members t') = [''o'', ''a'', ''d'']"
proof -
  have "\<forall>(io, actor, c) \<in> set sample_team_calls. resolves actor"
    by (simp add: sample_team_calls_def resolves_FindMember)
  from team_one_owner [OF sample_team_fields(3) this]
  show ?thesis by (auto simp: sample_team_def sample_member_def)
qed

theorem scim_owner_lockout_witness:
  "\<exists>t'. team_run sample_team_calls (snd (snd (scim_serve ''s'' sample_team_io 0 ''Bearer s'' (ScimDelete ''o'') sample_team (Holds sample_team)))) =
     Holds t' \<and> mb_ID ` set (owners t') = {''o''} \<and> list_all (\<lambda>x. mb_Status x = MemberRemoved) (owners t')"
proof -
  have r: "\<forall>(io, actor, c) \<in> set sample_team_calls. resolves actor"
    by (simp add: sample_team_calls_def resolves_FindMember)
  obtain code u g where s: "scim_serve ''s'' sample_team_io 0 (''Bearer '' @ ''s'') (ScimDelete (mb_ID (sample_member ''o'' RoleOwner)))
      sample_team (Holds sample_team) = (code, u, g)" by (metis prod_cases3)
  have io: "ti_Write sample_team_io = WriteOk" "ti_Home sample_team_io = Some ''/h''" by (simp_all add: sample_team_io_def)
  from scim_owner_lockout [OF sample_team_fields(2,1) _ io r s] s
  show ?thesis by (auto simp: sample_member_def list_all_iff)
qed

definition sample_invite_codec :: "invite_bundle \<Rightarrow> invite_codec" where
  "sample_invite_codec b = \<lparr>ic_Time = (\<lambda>_. ''t''), ic_Encode = (\<lambda>_. ''x''), ic_Decode = (\<lambda>s. if s = ''x'' then Inr b else Inl InviteDecode)\<rparr>"

definition sample_invite :: invite_bundle where
  "sample_invite = invite_for org_test_crypto (sample_invite_codec undefined) org_test_key 0 sample_team ''h'' RoleDeveloper"

theorem team_join_guarded_witness:
  "\<exists>t. snd (team_Join org_test_crypto (sample_invite_codec sample_invite) sample_team_io 5 ''x''
      (EncodePublicKey org_test_crypto org_test_key @ [CHR 0x0A]) Absent) = Holds t \<and> tm_ID t = ''t'' \<and> tm_Members t = []"
proof -
  let ?key = "EncodePublicKey org_test_crypto org_test_key @ [CHR 0x0A]"
  let ?F = "sample_invite_codec sample_invite"
  have sig: "ib_Signature sample_invite = sigPrefix @ pairs (replicate 64 (CHR ''s''))"
    by (simp add: sample_invite_def invite_for_def Let_def bundle_Sign_def org_test_crypto_def)
  have f: "ib_TeamID sample_invite = ''t''" "ib_ExpiresAt sample_invite = 72 * 3600 * Second"
    by (simp_all add: sample_invite_def invite_for_def Let_def sample_team_def)
  have "bundle_Verify org_test_crypto org_test_key msg (ib_Signature sample_invite) = None" for msg
    by (simp add: sig bundle_Verify_def sigPrefix_def org_test_key_def org_test_crypto_def unpairs_pairs legacyDigest_def
        HasPrefix_def is_digit_def byte_of_def)
  then have v: "verifyBundle org_test_crypto ?F 5 sample_invite ?key = None"
    by (simp add: verifyBundle_def org_test_parse f Second_def)
  obtain r g where j: "team_Join org_test_crypto ?F sample_team_io 5 ''x'' ?key Absent = (r, g)" by (metis surj_pair)
  have "g \<noteq> Absent" using j v org_test_parse
    by (auto simp: team_Join_def sample_invite_codec_def team_Load_def teamFilePath_def sample_team_io_def writeTeam_def
        checkUniqueMembers_def write_file_def Let_def simp del: checkUnique_None)
  from team_join_guarded [OF j this] j f show ?thesis by (auto simp: sample_invite_codec_def)
qed

end
