(* ===== verification/Team_Quorum.thy ===== *)
theory Team_Quorum
  imports Team_Members Policy
begin

section \<open>Approvals by several members (\<open>internal/team/approval\<close>)\<close>

text \<open>
  A request collects approvals until its quorum is reached. Time is read where the code reads it: once for the expiry
  check and once for the entry. A request lives in memory; nothing in the package writes it.
\<close>

type_synonym approval_mode = gostring

definition ModeTwoPerson :: approval_mode where "ModeTwoPerson = ''two_person''"
definition ModeNofM :: approval_mode where "ModeNofM = ''n_of_m''"

lemma quorum_modes [simp]: "ModeTwoPerson \<noteq> ModeNofM" "ModeNofM \<noteq> ModeTwoPerson"
  by (simp_all add: ModeTwoPerson_def ModeNofM_def)

datatype quorum_status = QuorumPending | QuorumApproved | QuorumDenied | QuorumExpired

record quorum_entry =
  qe_ApproverHMAC :: gostring
  qe_ApprovedAt :: gotime
  qe_RootHMAC :: gostring

record quorum_request =
  qr_ID :: gostring
  qr_Capability :: gostring
  qr_Connection :: gostring
  qr_RequesterHMAC :: gostring
  qr_Mode :: approval_mode
  qr_N :: int
  qr_M :: int
  qr_Approvals :: "quorum_entry list"
  qr_Status :: quorum_status
  qr_CreatedAt :: gotime
  qr_ExpiresAt :: gotime

datatype quorum_error =
    ErrSelfApproval | ErrAlreadyApproved | ErrApprovalRequired | ErrApprovalExpired | ErrHardwarePresenceRequired
  | QuorumIDFails | InvalidQuorum int int

definition quorum_Create ::
  "gostring option \<Rightarrow> gotime \<Rightarrow> gotime \<Rightarrow> gostring \<Rightarrow> gostring \<Rightarrow> member \<Rightarrow> approval_mode \<Rightarrow> int \<Rightarrow> int \<Rightarrow> quorum_error + quorum_request" where
  "quorum_Create newID created now capability connection requester mode n m =
    (case newID of None \<Rightarrow> Inl QuorumIDFails
     | Some i \<Rightarrow>
         if mode = ModeNofM \<and> (n \<le> 0 \<or> m \<le> 0 \<or> n > m) then Inl (InvalidQuorum n m)
         else Inr \<lparr>qr_ID = i, qr_Capability = capability, qr_Connection = connection, qr_RequesterHMAC = mb_HMAC requester,
                qr_Mode = mode, qr_N = (if mode = ModeTwoPerson then 2 else n), qr_M = (if mode = ModeTwoPerson then 2 else m),
                qr_Approvals = [], qr_Status = QuorumPending, qr_CreatedAt = created, qr_ExpiresAt = now + Hour\<rparr>)"

definition quorum_Approve ::
  "gotime \<Rightarrow> gotime \<Rightarrow> member \<Rightarrow> presence_proof \<Rightarrow> quorum_request \<Rightarrow> quorum_error option \<times> quorum_request" where
  "quorum_Approve now at approver proof req =
    (if now > qr_ExpiresAt req then (Some ErrApprovalExpired, req\<lparr>qr_Status := QuorumExpired\<rparr>)
     else if mb_HMAC approver = qr_RequesterHMAC req then (Some ErrSelfApproval, req)
     else if pp_ConfirmedAt proof = zero_time then (Some ErrHardwarePresenceRequired, req)
     else if mb_HMAC approver \<in> qe_ApproverHMAC ` set (qr_Approvals req) then (Some ErrAlreadyApproved, req)
     else let as = qr_Approvals req @ [\<lparr>qe_ApproverHMAC = mb_HMAC approver, qe_ApprovedAt = at, qe_RootHMAC = pp_RootID proof\<rparr>]
          in (None, req\<lparr>qr_Approvals := as, qr_Status := (if int (length as) \<ge> qr_N req then QuorumApproved else qr_Status req)\<rparr>))"

definition quorum_Check :: "gotime \<Rightarrow> quorum_request \<Rightarrow> quorum_error option" where
  "quorum_Check now req =
    (if qr_Status req = QuorumApproved then None
     else if qr_Status req = QuorumExpired \<or> now > qr_ExpiresAt req then Some ErrApprovalExpired
     else Some ErrApprovalRequired)"

record approval_claim =
  ac_ApprovalID :: gostring
  ac_Capability :: gostring
  ac_Connection :: gostring
  ac_RequesterHMAC :: gostring
  ac_Mode :: gostring
  ac_ApproversHMAC :: "gostring list"
  ac_TwoPersonApproved :: bool
  ac_ApprovedAt :: gotime

definition MintJWTClaim :: "gotime \<Rightarrow> quorum_request \<Rightarrow> approval_claim" where
  "MintJWTClaim now req =
    \<lparr>ac_ApprovalID = qr_ID req, ac_Capability = qr_Capability req, ac_Connection = qr_Connection req,
     ac_RequesterHMAC = qr_RequesterHMAC req, ac_Mode = qr_Mode req,
     ac_ApproversHMAC = map qe_ApproverHMAC (qr_Approvals req),
     ac_TwoPersonApproved = (qr_Status req = QuorumApproved \<and> qr_Mode req = ModeTwoPerson), ac_ApprovedAt = now\<rparr>"

subsection \<open>What a run of approvals reaches\<close>

type_synonym approve_call = "gotime \<times> gotime \<times> member \<times> presence_proof"

fun approve_all :: "approve_call list \<Rightarrow> quorum_request \<Rightarrow> quorum_request" where
  "approve_all [] req = req"
| "approve_all ((now, at, m, p) # cs) req = approve_all cs (snd (quorum_Approve now at m p req))"

definition quorum_ok :: "quorum_request \<Rightarrow> bool" where
  "quorum_ok req = (distinct (map qe_ApproverHMAC (qr_Approvals req)) \<and>
     qr_RequesterHMAC req \<notin> qe_ApproverHMAC ` set (qr_Approvals req) \<and>
     (qr_Status req = QuorumApproved \<longrightarrow> qr_N req \<le> int (length (qr_Approvals req))) \<and>
     qr_Status req \<noteq> QuorumDenied \<and>
     (qr_Status req = QuorumPending \<longrightarrow> int (length (qr_Approvals req)) < max 1 (qr_N req)))"

lemma quorum_ok_Approve: "quorum_ok req \<Longrightarrow> quorum_ok (snd (quorum_Approve now at m p req))"
  by (auto simp: quorum_ok_def quorum_Approve_def Let_def)

lemma quorum_Approve_frame:
  "qr_N (snd (quorum_Approve now at m p req)) = qr_N req" "qr_Mode (snd (quorum_Approve now at m p req)) = qr_Mode req"
  "qr_RequesterHMAC (snd (quorum_Approve now at m p req)) = qr_RequesterHMAC req"
  by (simp_all add: quorum_Approve_def Let_def)

lemma approve_all_ok:
  "quorum_ok req \<Longrightarrow> quorum_ok (approve_all cs req) \<and> qr_N (approve_all cs req) = qr_N req \<and>
     qr_Mode (approve_all cs req) = qr_Mode req \<and> qr_RequesterHMAC (approve_all cs req) = qr_RequesterHMAC req"
  by (induction cs req rule: approve_all.induct) (simp_all add: quorum_ok_Approve quorum_Approve_frame)

text \<open>C29: However members approve a request, and whatever clocks they use, the check passes only when at least the required
  number of different members other than the requester approved it, and a claim of two-person approval means that
  three people were involved: the requester and two approvers. Conversely a request that is neither approved nor
  expired still lacks approvals.\<close>

theorem team_quorum_sound:
  assumes "quorum_Create newID created now0 cap conn requester mode n m = Inr req0" and "mode \<in> {ModeTwoPerson, ModeNofM}"
    and "req = approve_all cs req0" and "approvers = set (ac_ApproversHMAC (MintJWTClaim now req))"
  shows "mb_HMAC requester \<notin> approvers \<and> 1 \<le> qr_N req \<and>
    (quorum_Check now req = None \<longrightarrow> qr_N req \<le> int (card approvers)) \<and>
    (quorum_Check now req = Some ErrApprovalRequired \<longrightarrow> int (card approvers) < qr_N req) \<and>
    (ac_TwoPersonApproved (MintJWTClaim now req) \<longrightarrow> 3 \<le> card (insert (mb_HMAC requester) approvers))"
proof -
  have c: "quorum_ok req0" "qr_RequesterHMAC req0 = mb_HMAC requester" "1 \<le> qr_N req0" "qr_Mode req0 = ModeTwoPerson \<longrightarrow> qr_N req0 = 2"
    using assms(1,2) by (auto simp: quorum_Create_def quorum_ok_def split: option.splits if_splits)
  note r = approve_all_ok [OF c(1), of cs, folded assms(3)]
  have a: "approvers = qe_ApproverHMAC ` set (qr_Approvals req)" "finite approvers"
    by (simp_all add: assms(4) MintJWTClaim_def)
  have n: "card approvers = length (qr_Approvals req)"
    using r distinct_card [of "map qe_ApproverHMAC (qr_Approvals req)"] by (simp add: a quorum_ok_def)
  have q: "mb_HMAC requester \<notin> approvers" using r c(2) by (auto simp: a quorum_ok_def)
  show ?thesis
  proof (intro conjI impI)
    show "3 \<le> card (insert (mb_HMAC requester) approvers)" if "ac_TwoPersonApproved (MintJWTClaim now req)"
      using that r c(4) q n a(2) by (auto simp: MintJWTClaim_def quorum_ok_def)
  qed (use r c(3) q n in \<open>auto simp: quorum_Check_def quorum_ok_def split: if_splits\<close>, metis quorum_status.exhaust)
qed

definition sample_proof :: presence_proof where
  "sample_proof = \<lparr>pp_Method = ''touch'', pp_ConfirmedAt = 1, pp_RootID = ''r'', pp_BindingHMAC = []\<rparr>"

definition sample_person :: "gostring \<Rightarrow> member" where
  "sample_person h = \<lparr>mb_ID = h, mb_HMAC = h, mb_Role = RoleDeveloper, mb_AgePublicKey = [], mb_TrustRoots = [], mb_JoinedAt = 0,
     mb_Status = MemberActive\<rparr>"

text \<open>The requester's own approval and a repeated one do not count.\<close>

theorem team_quorum_sound_witness:
  "\<exists>req0 req. quorum_Create (Some ''i'') 0 0 ''c'' ''x'' (sample_person ''r'') ModeTwoPerson 5 1 = Inr req0 \<and>
     req = approve_all [(1, 1, sample_person ''r'', sample_proof), (2, 2, sample_person ''a'', sample_proof),
       (3, 3, sample_person ''a'', sample_proof), (4, 4, sample_person ''b'', sample_proof)] req0 \<and>
     quorum_Check 9 req = None \<and> 3 \<le> card (insert ''r'' (set (ac_ApproversHMAC (MintJWTClaim 9 req))))"
proof -
  obtain req0 where q: "quorum_Create (Some ''i'') 0 0 ''c'' ''x'' (sample_person ''r'') ModeTwoPerson 5 1 = Inr req0"
    by (simp add: quorum_Create_def)
  have f: "qr_N req0 = 2" "qr_Approvals req0 = []" "qr_RequesterHMAC req0 = ''r''" "qr_ExpiresAt req0 = Hour" "qr_Status req0 = QuorumPending"
      "qr_Mode req0 = ModeTwoPerson"
    using q by (auto simp: quorum_Create_def sample_person_def)
  have h: "mb_HMAC (sample_person x) = x" "pp_ConfirmedAt sample_proof \<noteq> zero_time" "4 < Hour" for x
    by (simp_all add: sample_person_def sample_proof_def zero_time_def Hour_def Minute_def Second_def)
  define req where "req = approve_all [(1, 1, sample_person ''r'', sample_proof), (2, 2, sample_person ''a'', sample_proof),
       (3, 3, sample_person ''a'', sample_proof), (4, 4, sample_person ''b'', sample_proof)] req0"
  have s: "qr_Status req = QuorumApproved" "qr_Mode req = ModeTwoPerson"
    using f h by (simp_all add: req_def quorum_Approve_def Let_def)
  have "ac_TwoPersonApproved (MintJWTClaim 9 req)" using s by (simp add: MintJWTClaim_def)
  then have "3 \<le> card (insert ''r'' (set (ac_ApproversHMAC (MintJWTClaim 9 req))))"
    using team_quorum_sound [OF q insertI1 req_def refl, of 9] unfolding h(1) by blast
  moreover have "quorum_Check 9 req = None" by (simp add: quorum_Check_def s)
  ultimately show ?thesis using q req_def by blast
qed

end
