(* ===== verification/Break_Glass.thy ===== *)
theory Break_Glass
  imports Team_Members
begin

section \<open>Break-glass access (\<open>internal/team/breakglass\<close>)\<close>

text \<open>
  The counter of one member is a file that every operation reads and writes under a lock, so operations of any number
  of processes are atomic steps on it. The clock, however, is read before the lock is taken (\<open>Open\<close> and \<open>Close\<close>), so the
  times of consecutive steps need not be in order.
\<close>

record breakglass_request =
  bg_ID :: gostring
  bg_MemberHMAC :: gostring
  bg_Reason :: gostring
  bg_Open :: bool
  bg_OpenedAt :: gotime
  bg_ClosedAt :: "gotime option"
  bg_AuditRef :: gostring

record member_counter =
  mc_Opens :: "gotime list"
  mc_LastClose :: "gotime option"

datatype breakglass_error =
    ErrRateLimitExceeded | ErrCoolingPeriod | BreakGlassLLM | BreakGlassID | NotOpen
  | CounterMkdir | CounterLock | CounterRead | CounterCorrupt | CounterWrite

definition breakglassDir :: "gostring option \<Rightarrow> gostring \<Rightarrow> gostring" where
  "breakglassDir home dir =
    (if dir \<noteq> [] then filepath_Join dir ''breakglass''
     else (case home of None \<Rightarrow> ''.keylatch/team/breakglass''
           | Some h \<Rightarrow> filepath_Join (filepath_Join (filepath_Join h ''.keylatch'') ''team'') ''breakglass''))"

definition memberCounterPath :: "gostring option \<Rightarrow> gostring \<Rightarrow> member \<Rightarrow> gostring" where
  "memberCounterPath home dir m = filepath_Join (breakglassDir home dir) (''counter-'' @ mb_HMAC m @ ''.json'')"

datatype counter_io = CounterIoOk | CounterMkdirFails | CounterLockFails | CounterWriteFails

definition loadCounterLocked :: "member_counter jsonfile \<Rightarrow> breakglass_error + member_counter" where
  "loadCounterLocked f =
    (case f of Absent \<Rightarrow> Inr \<lparr>mc_Opens = [], mc_LastClose = None\<rparr>
     | Unreadable \<Rightarrow> Inl CounterRead | Unparsable \<Rightarrow> Inl CounterCorrupt | Holds c \<Rightarrow> Inr c)"

text \<open>The operation gives an error, which leaves the file alone, or a result and the counter to write.\<close>

definition withCounterLock ::
  "counter_io \<Rightarrow> (member_counter \<Rightarrow> breakglass_error + ('r \<times> member_counter)) \<Rightarrow> member_counter jsonfile \<Rightarrow>
     (breakglass_error + 'r) \<times> member_counter jsonfile" where
  "withCounterLock io fn f =
    (if io = CounterMkdirFails then (Inl CounterMkdir, f)
     else if io = CounterLockFails then (Inl CounterLock, f)
     else (case loadCounterLocked f of Inl e \<Rightarrow> (Inl e, f)
     | Inr c \<Rightarrow>
        (case fn c of Inl e \<Rightarrow> (Inl e, f)
         | Inr (r, c') \<Rightarrow> if io = CounterWriteFails then (Inl CounterWrite, f) else (Inr r, Holds c'))))"

definition day :: duration where "day = 24 * Hour"

definition CheckRateLimit :: "counter_io \<Rightarrow> gotime \<Rightarrow> member_counter jsonfile \<Rightarrow> breakglass_error option \<times> member_counter jsonfile" where
  "CheckRateLimit io now f =
    (case withCounterLock io (\<lambda>c. Inr (3 \<le> length (filter (\<lambda>t. t > now - day) (mc_Opens c)), c)) f of
       (Inl e, f') \<Rightarrow> (Some e, f')
     | (Inr limited, f') \<Rightarrow> (if limited then Some ErrRateLimitExceeded else None, f'))"

definition CheckCoolingPeriod :: "counter_io \<Rightarrow> gotime \<Rightarrow> member_counter jsonfile \<Rightarrow> breakglass_error option \<times> member_counter jsonfile" where
  "CheckCoolingPeriod io now f =
    (case withCounterLock io (\<lambda>c. Inr (case mc_LastClose c of None \<Rightarrow> False | Some t \<Rightarrow> time_Sub now t < Hour, c)) f of
       (Inl e, f') \<Rightarrow> (Some e, f')
     | (Inr cooling, f') \<Rightarrow> (if cooling then Some ErrCoolingPeriod else None, f'))"

definition breakglass_request_at :: "gostring \<Rightarrow> gotime \<Rightarrow> member \<Rightarrow> gostring \<Rightarrow> breakglass_request" where
  "breakglass_request_at i now m reason =
    \<lparr>bg_ID = i, bg_MemberHMAC = mb_HMAC m, bg_Reason = reason, bg_Open = True, bg_OpenedAt = now, bg_ClosedAt = None,
     bg_AuditRef = ''breakglass/'' @ i\<rparr>"

definition open_counter :: "gotime \<Rightarrow> member_counter \<Rightarrow> breakglass_error + (unit \<times> member_counter)" where
  "open_counter now c =
    (let pruned = filter (\<lambda>t. t > now - day) (mc_Opens c) in
     if 3 \<le> length pruned then Inl ErrRateLimitExceeded
     else if (case mc_LastClose c of None \<Rightarrow> False | Some t \<Rightarrow> time_Sub now t < Hour) then Inl ErrCoolingPeriod
     else Inr ((), c\<lparr>mc_Opens := pruned @ [now]\<rparr>))"

definition breakglass_Open ::
  "bool \<Rightarrow> gostring option \<Rightarrow> gotime \<Rightarrow> counter_io \<Rightarrow> member \<Rightarrow> gostring \<Rightarrow> member_counter jsonfile \<Rightarrow>
     (breakglass_error + breakglass_request) \<times> member_counter jsonfile" where
  "breakglass_Open llm newID now io m reason f =
    (if llm then (Inl BreakGlassLLM, f)
     else (case newID of None \<Rightarrow> (Inl BreakGlassID, f)
     | Some i \<Rightarrow>
        (case withCounterLock io (open_counter now) f of
           (Inl e, f') \<Rightarrow> (Inl e, f') | (Inr _, f') \<Rightarrow> (Inr (breakglass_request_at i now m reason), f'))))"

text \<open>\<open>Close\<close> marks the request before it takes the lock, so a request whose close failed stays closed.\<close>

definition breakglass_Close ::
  "gotime \<Rightarrow> counter_io \<Rightarrow> breakglass_request \<Rightarrow> member_counter jsonfile \<Rightarrow>
     breakglass_error option \<times> breakglass_request \<times> member_counter jsonfile" where
  "breakglass_Close now io req f =
    (if \<not> bg_Open req then (Some NotOpen, req, f)
     else (case withCounterLock io (\<lambda>c. Inr ((), c\<lparr>mc_LastClose := Some now\<rparr>)) f of
             (Inl e, f') \<Rightarrow> (Some e, req\<lparr>bg_Open := False, bg_ClosedAt := Some now\<rparr>, f')
           | (Inr _, f') \<Rightarrow> (None, req\<lparr>bg_Open := False, bg_ClosedAt := Some now\<rparr>, f')))"

subsection \<open>Runs over one member's counter\<close>

datatype breakglass_event =
    EvOpen bool "gostring option" gotime counter_io member gostring
  | EvClose gotime counter_io breakglass_request
  | EvRate gotime counter_io
  | EvCooling gotime counter_io

datatype breakglass_mark = Opened gotime | Closed gotime

fun event_time :: "breakglass_event \<Rightarrow> gotime" where
  "event_time (EvOpen llm i now io m reason) = now"
| "event_time (EvClose now io req) = now"
| "event_time (EvRate now io) = now"
| "event_time (EvCooling now io) = now"

fun breakglass_do :: "breakglass_event \<Rightarrow> member_counter jsonfile \<Rightarrow> breakglass_mark list \<times> member_counter jsonfile" where
  "breakglass_do (EvOpen llm i now io m reason) f =
    (case breakglass_Open llm i now io m reason f of (Inl e, f') \<Rightarrow> ([], f') | (Inr req, f') \<Rightarrow> ([Opened (bg_OpenedAt req)], f'))"
| "breakglass_do (EvClose now io req) f =
    (case breakglass_Close now io req f of (Some e, _, f') \<Rightarrow> ([], f') | (None, _, f') \<Rightarrow> ([Closed now], f'))"
| "breakglass_do (EvRate now io) f = ([], snd (CheckRateLimit io now f))"
| "breakglass_do (EvCooling now io) f = ([], snd (CheckCoolingPeriod io now f))"

fun breakglass_run :: "breakglass_event list \<Rightarrow> breakglass_mark list \<Rightarrow> member_counter jsonfile \<Rightarrow> breakglass_mark list \<times> member_counter jsonfile" where
  "breakglass_run [] tr f = (tr, f)"
| "breakglass_run (ev # evs) tr f = (case breakglass_do ev f of (ms, f') \<Rightarrow> breakglass_run evs (tr @ ms) f')"

fun opens_of :: "breakglass_mark list \<Rightarrow> gotime list" where
  "opens_of [] = []"
| "opens_of (Opened t # ms) = t # opens_of ms"
| "opens_of (Closed t # ms) = opens_of ms"

fun mark_time :: "breakglass_mark \<Rightarrow> gotime" where
  "mark_time (Opened t) = t" | "mark_time (Closed t) = t"

text \<open>How often the member opened within the day that ends at \<open>T\<close>.\<close>

definition opened_within :: "gotime \<Rightarrow> breakglass_mark list \<Rightarrow> nat" where
  "opened_within T tr = length (filter (\<lambda>t. T - day < t \<and> t \<le> T) (opens_of tr))"

definition cooled :: "breakglass_mark list \<Rightarrow> bool" where
  "cooled tr = sorted_wrt (\<lambda>a b. case (a, b) of (Closed c, Opened t) \<Rightarrow> Hour \<le> time_Sub t c | _ \<Rightarrow> True) tr"

lemma opens_of_append [simp]: "opens_of (a @ b) = opens_of a @ opens_of b"
  by (induction a rule: opens_of.induct) simp_all

text \<open>What the file and the trace have to do with each other up to the time \<open>c\<close>: the counter holds the opens since a
  day before the last one, and the last close.\<close>

definition last_close :: "breakglass_mark list \<Rightarrow> gotime option" where
  "last_close tr = (case filter (\<lambda>m. \<exists>t. m = Closed t) tr of [] \<Rightarrow> None | ms \<Rightarrow> Some (mark_time (last ms)))"

definition counter_tracks :: "breakglass_mark list \<Rightarrow> member_counter \<Rightarrow> bool" where
  "counter_tracks tr c = (mc_LastClose c = last_close tr \<and>
     (if opens_of tr = [] then mc_Opens c = []
      else mc_Opens c = filter (\<lambda>t. t > last (opens_of tr) - day) (opens_of tr)))"

definition breakglass_inv :: "gotime \<Rightarrow> breakglass_mark list \<Rightarrow> member_counter jsonfile \<Rightarrow> bool" where
  "breakglass_inv now tr f = ((\<forall>m \<in> set tr. mark_time m \<le> now) \<and> sorted (map mark_time tr) \<and>
     (\<forall>T. opened_within T tr \<le> 3) \<and> cooled tr \<and>
     (\<exists>c. loadCounterLocked f = Inr c \<and> counter_tracks tr c))"

lemma withCounterLock_cases:
  assumes "withCounterLock io fn f = (r, f')" "loadCounterLocked f = Inr c"
  shows "(\<exists>e. r = Inl e \<and> f' = f) \<or> (\<exists>x c'. fn c = Inr (x, c') \<and> r = Inr x \<and> f' = Holds c')"
  using assms by (auto simp: withCounterLock_def split: if_splits sum.splits)

lemma loadCounterLocked_Holds [simp]: "loadCounterLocked (Holds c) = Inr c"
  by (simp add: loadCounterLocked_def)

lemma length_filter_le_filter: "(\<And>x. P x \<Longrightarrow> Q x) \<Longrightarrow> length (filter P xs) \<le> length (filter Q xs)"
  by (induction xs) (auto simp: le_SucI)

lemma opens_of_times: "t \<in> set (opens_of tr) \<Longrightarrow> Opened t \<in> set tr"
  by (induction tr rule: opens_of.induct) auto

lemma time_Sub_antimono: "s \<le> t \<Longrightarrow> time_Sub u t \<le> time_Sub u s"
  by (auto simp: time_Sub_def)

lemma day_positive: "0 < day"
  by (simp add: day_def Hour_def Minute_def Second_def)

lemma last_close_Closed:
  assumes "sorted (map mark_time tr)" "Closed s \<in> set tr"
  shows "\<exists>t. last_close tr = Some t \<and> s \<le> t"
proof -
  let ?ms = "filter (\<lambda>m. \<exists>t. m = Closed t) tr"
  have "?ms \<noteq> []" using assms(2) by (auto simp: filter_empty_conv)
  moreover have "sorted (map mark_time ?ms)" using assms(1) sorted_filter by blast
  then have "mark_time (Closed s) \<le> last (map mark_time ?ms)" using assms(2) by (intro le_last_sorted) force+
  ultimately show ?thesis by (auto simp: last_close_def last_map split: list.splits)
qed

lemma last_close_if: "last_close tr = (let ms = filter (\<lambda>m. \<exists>t. m = Closed t) tr in if ms = [] then None else Some (mark_time (last ms)))"
  by (simp add: last_close_def Let_def split: list.splits)

lemma last_close_snoc [simp]: "last_close (tr @ [Closed t]) = Some t" "last_close (tr @ [Opened t]) = last_close tr"
  by (simp_all add: last_close_if)

lemma breakglass_inv_later: "breakglass_inv n tr f \<Longrightarrow> n \<le> now \<Longrightarrow> breakglass_inv now tr f"
  unfolding breakglass_inv_def by (meson order_trans)

lemma breakglass_inv_close:
  assumes "breakglass_inv n tr f" "n \<le> now" "loadCounterLocked f = Inr c"
  shows "breakglass_inv now (tr @ [Closed now]) (Holds (c\<lparr>mc_LastClose := Some now\<rparr>))"
  using assms by (auto simp: breakglass_inv_def counter_tracks_def opened_within_def cooled_def sorted_append sorted_wrt_append
      dest: order_trans split: breakglass_mark.splits)

text \<open>An open prunes to the opens of the last day, whatever was pruned before.\<close>

lemma pruned_opens:
  assumes "breakglass_inv n tr f" "n \<le> now" "loadCounterLocked f = Inr c"
  shows "filter (\<lambda>t. t > now - day) (mc_Opens c) = filter (\<lambda>t. t > now - day) (opens_of tr)"
proof (cases "opens_of tr = []")
  case False
  then have "Opened (last (opens_of tr)) \<in> set tr" by (simp add: opens_of_times)
  then have "last (opens_of tr) \<le> now" using assms(1,2) by (fastforce simp: breakglass_inv_def)
  then show ?thesis using assms False by (auto simp: breakglass_inv_def counter_tracks_def intro!: filter_cong)
qed (use assms in \<open>auto simp: breakglass_inv_def counter_tracks_def\<close>)

lemma breakglass_inv_open:
  assumes inv: "breakglass_inv n tr f" and now: "n \<le> now" and c: "loadCounterLocked f = Inr c"
      and ok: "open_counter now c = Inr (u, c')"
  shows "breakglass_inv now (tr @ [Opened now]) (Holds c')"
proof -
  let ?os = "filter (\<lambda>t. t > now - day) (opens_of tr)"
  note p = pruned_opens [OF inv now c]
  have few: "length ?os < 3" and c': "c' = c\<lparr>mc_Opens := ?os @ [now]\<rparr>"
      and cool: "mc_LastClose c = Some t \<Longrightarrow> Hour \<le> time_Sub now t" for t
    using ok unfolding open_counter_def p Let_def by (auto split: if_splits option.splits)
  have i: "\<forall>m \<in> set tr. mark_time m \<le> now" "sorted (map mark_time tr)" "cooled tr" "counter_tracks tr c"
    using breakglass_inv_later [OF inv now] c by (auto simp: breakglass_inv_def)
  have "opened_within T (tr @ [Opened now]) \<le> 3" for T
  proof (cases "now \<le> T")
    case True
    then have "length (filter (\<lambda>t. T - day < t \<and> t \<le> T) (opens_of tr)) \<le> length ?os"
      by (intro length_filter_le_filter) auto
    then show ?thesis using few by (auto simp: opened_within_def)
  next
    case False
    then show ?thesis using inv by (simp add: opened_within_def breakglass_inv_def)
  qed
  moreover have "cooled (tr @ [Opened now])"
  proof -
    have "Hour \<le> time_Sub now s" if "Closed s \<in> set tr" for s
    proof -
      obtain t where "last_close tr = Some t" "s \<le> t" using last_close_Closed [OF i(2) \<open>Closed s \<in> set tr\<close>] by auto
      then show ?thesis using cool i(4) time_Sub_antimono [of s t now] by (auto simp: counter_tracks_def intro: order_trans)
    qed
    then show ?thesis using i(3) by (auto simp: cooled_def sorted_wrt_append split: breakglass_mark.splits)
  qed
  moreover have "counter_tracks (tr @ [Opened now]) c'"
    using i(4) day_positive by (auto simp: counter_tracks_def c' split: if_splits)
  ultimately show ?thesis using i(1,2) by (auto simp: breakglass_inv_def sorted_append)
qed

lemma breakglass_inv_do:
  assumes "breakglass_inv n tr f" "n \<le> event_time ev" "breakglass_do ev f = (ms, f')"
  shows "breakglass_inv (event_time ev) (tr @ ms) f'"
proof -
  obtain c where c: "loadCounterLocked f = Inr c" "counter_tracks tr c" using assms(1) by (auto simp: breakglass_inv_def)
  note later = breakglass_inv_later [OF assms(1,2)]
  have same: "breakglass_inv (event_time ev) tr (Holds c)" using later c by (auto simp: breakglass_inv_def)
  show ?thesis
  proof (cases ev)
    case (EvOpen llm i now io m reason)
    obtain r g where l: "withCounterLock io (open_counter now) f = (r, g)" by (metis surj_pair)
    show ?thesis using assms(3) l withCounterLock_cases [OF l c(1)] later breakglass_inv_open [OF assms(1) _ c(1)] assms(2)
      by (auto simp: EvOpen breakglass_Open_def breakglass_request_at_def split: if_splits option.splits)
  next
    case (EvClose now io req)
    obtain r g where l: "withCounterLock io (\<lambda>c. Inr ((), c\<lparr>mc_LastClose := Some now\<rparr>)) f = (r, g)" by (metis surj_pair)
    show ?thesis using assms(3) l withCounterLock_cases [OF l c(1)] later breakglass_inv_close [OF assms(1) _ c(1)] assms(2)
      by (auto simp: EvClose breakglass_Close_def split: if_splits)
  next
    case (EvRate now io)
    show ?thesis using assms(3) later same c
      by (auto simp: EvRate CheckRateLimit_def withCounterLock_def split: if_splits)
  next
    case (EvCooling now io)
    show ?thesis using assms(3) later same c
      by (auto simp: EvCooling CheckCoolingPeriod_def withCounterLock_def split: if_splits)
  qed
qed

lemma breakglass_inv_run:
  assumes "breakglass_inv n tr f" "sorted (n # map event_time evs)" "breakglass_run evs tr f = (tr', f')"
  shows "\<exists>n'. breakglass_inv n' tr' f'"
  using assms
proof (induction evs arbitrary: n tr f)
  case (Cons ev evs)
  obtain ms g where d: "breakglass_do ev f = (ms, g)" by (metis surj_pair)
  then show ?case using Cons.IH [OF breakglass_inv_do [OF Cons.prems(1) _ d]] Cons.prems by auto
qed auto

text \<open>C30: When the operations on a member's counter reach it in the order of their clock readings, then whatever they are and
  whatever fails, the member opens at most three times in any period of 24 hours, and every opening comes at least an
  hour after every earlier close.\<close>

theorem breakglass_limits:
  assumes "sorted (map event_time evs)" and "breakglass_run evs [] Absent = (tr, f)"
  shows "(\<forall>T. opened_within T tr \<le> 3) \<and> cooled tr"
proof -
  have "breakglass_inv n [] Absent" for n
    by (auto simp: breakglass_inv_def loadCounterLocked_def counter_tracks_def last_close_def opened_within_def cooled_def)
  moreover have "\<exists>n. sorted (n # map event_time evs)"
    using assms(1) by (cases evs) (auto intro: exI [of _ "event_time (hd evs)"])
  ultimately show ?thesis using breakglass_inv_run assms(2) by (metis breakglass_inv_def)
qed

definition sample_open :: "gotime \<Rightarrow> breakglass_event" where
  "sample_open t = EvOpen False (Some ''i'') t CounterIoOk \<lparr>mb_ID = ''m'', mb_HMAC = ''h'', mb_Role = RoleAdmin, mb_AgePublicKey = [],
     mb_TrustRoots = [], mb_JoinedAt = 0, mb_Status = MemberActive\<rparr> ''why''"

lemma sample_open_do:
  "breakglass_do (sample_open t) f = (case withCounterLock CounterIoOk (open_counter t) f of (Inl e, g) \<Rightarrow> ([], g) | (Inr _, g) \<Rightarrow> ([Opened t], g))"
  by (simp add: sample_open_def breakglass_Open_def breakglass_request_at_def split: prod.splits sum.splits)

lemmas eval_breakglass = sample_open_do withCounterLock_def loadCounterLocked_def open_counter_def day_def Hour_def Minute_def Second_def

theorem breakglass_limits_witness:
  "\<exists>tr f. breakglass_run (map sample_open [1, 2, 3, 4]) [] Absent = (tr, f) \<and> tr = [Opened 1, Opened 2, Opened 3] \<and>
     opened_within 4 tr \<le> 3"
proof -
  obtain f where r: "breakglass_run (map sample_open [1, 2, 3, 4]) [] Absent = ([Opened 1, Opened 2, Opened 3], f)"
    by (simp add: eval_breakglass)
  have "sorted (map event_time (map sample_open [1, 2, 3, 4]))" by (simp add: sample_open_def)
  from breakglass_limits [OF this r] r show ?thesis by blast
qed

text \<open>The clock is read before the lock. An opening that waits for the lock while another process opens a day after the
  first ones is checked against a counter from which those were dropped, and is the fourth within 24 hours.\<close>

theorem breakglass_race_fourth:
  "\<exists>tr f. breakglass_run (map sample_open [1, 2, 3, day + 3, day]) [] Absent = (tr, f) \<and> opened_within day tr = 4"
proof -
  have "fst (breakglass_run (map sample_open [1, 2, 3, day + 3, day]) [] Absent) = map Opened [1, 2, 3, day + 3, day]"
    by (simp add: eval_breakglass)
  then show ?thesis by (cases "breakglass_run (map sample_open [1, 2, 3, day + 3, day]) [] Absent")
      (auto simp: opened_within_def day_def Hour_def Minute_def Second_def)
qed

end
