(* ===== verification/Team_Registry.thy ===== *)
theory Team_Registry
  imports Team_Members "HOL-Library.AList"
begin

section \<open>The internal registry of a team (\<open>internal/team/registry\<close>)\<close>

text \<open>
  Signed bundles of provider templates, one file per version in a directory, and the key that the first installation
  pins. The directory is an association list from names to entries, \<open>None\<close> before it exists; an entry without a file is
  a directory. The JSON that is signed is a parameter, the providers are those of the external registry.
\<close>

record 'p internal_bundle =
  nb_SchemaVersion :: gostring
  nb_BundleID :: gostring
  nb_Version :: int
  nb_TeamID :: gostring
  nb_Issuer :: gostring
  nb_IssuedAt :: gotime
  nb_Providers :: "'p list"
  nb_Signature :: gostring

datatype registry_error =
    BundleSignatureInvalid sig_error | NoPinnedKey key_error | BundleVersionLow | BundleNotFound | BundleVersionMismatch
  | RegistryKeyMismatch | RegistryKey key_error | RegistryReadBundle | RegistryParse | RegistryReadDir | RegistryMkdir
  | RegistryWrite write_outcome

type_synonym 'p registry_dir = "(gostring \<times> 'p internal_bundle jsonfile option) list"

record 'p registry_state =
  rg_KeyFile :: "gostring jsonfile"
  rg_Dir :: "'p registry_dir option"
  rg_Readable :: bool

definition registry_domain :: gostring where "registry_domain = ''keylatch/internal-registry/v2''"

definition registry_signedMessage :: "('p internal_bundle \<Rightarrow> gostring) \<Rightarrow> 'p internal_bundle \<Rightarrow> gostring" where
  "registry_signedMessage canon b = Message registry_domain [canon (b\<lparr>nb_Signature := []\<rparr>)]"

definition registry_checkSignature ::
  "bundle_crypto \<Rightarrow> ('p internal_bundle \<Rightarrow> gostring) \<Rightarrow> 'p internal_bundle \<Rightarrow> gostring \<Rightarrow> registry_error option" where
  "registry_checkSignature C canon b pub =
    map_option BundleSignatureInvalid (bundle_Verify C pub (registry_signedMessage canon b) (nb_Signature b))"

definition registry_SignBundle :: "bundle_crypto \<Rightarrow> ('p internal_bundle \<Rightarrow> gostring) \<Rightarrow> gostring \<Rightarrow> 'p internal_bundle \<Rightarrow> 'p internal_bundle" where
  "registry_SignBundle C canon priv b = b\<lparr>nb_Signature := bundle_Sign C priv (registry_signedMessage canon b)\<rparr>"

definition registry_readBundle :: "'p internal_bundle jsonfile \<Rightarrow> registry_error + 'p internal_bundle" where
  "registry_readBundle f = (case f of Holds b \<Rightarrow> Inr b | Unparsable \<Rightarrow> Inl RegistryParse | _ \<Rightarrow> Inl RegistryReadBundle)"

definition registry_Verify ::
  "bundle_crypto \<Rightarrow> ('p internal_bundle \<Rightarrow> gostring) \<Rightarrow> 'p internal_bundle jsonfile \<Rightarrow> gostring \<Rightarrow> registry_error option" where
  "registry_Verify C canon file pubKey =
    (case ParsePublicKey C pubKey of Inl e \<Rightarrow> Some (RegistryKey e)
     | Inr pub \<Rightarrow> (case registry_readBundle file of Inl e \<Rightarrow> Some e | Inr b \<Rightarrow> registry_checkSignature C canon b pub))"

definition registry_pinnedKey :: "bundle_crypto \<Rightarrow> 'p registry_state \<Rightarrow> key_error + gostring" where
  "registry_pinnedKey C st =
    (case rg_KeyFile st of Holds data \<Rightarrow> ParsePublicKey C data | Absent \<Rightarrow> Inl KeyNotExist | _ \<Rightarrow> Inl ReadKeyFails)"

text \<open>File names of one to eighteen digits; the value then fits in 63 bits.\<close>

definition bundleFileVersion :: "gostring \<Rightarrow> int option" where
  "bundleFileVersion name =
    (case CutSuffix name ''.json'' of (digits, ok) \<Rightarrow>
       if ok \<and> 1 \<le> length digits \<and> length digits \<le> 18 \<and> list_all is_digit digits then Some (int (digits_value digits)) else None)"

definition bundle_file :: "int \<Rightarrow> gostring" where
  "bundle_file v = format_int v @ ''.json''"

definition registry_versions :: "'p registry_dir \<Rightarrow> int list" where
  "registry_versions d = List.map_filter (\<lambda>(name, e). if e = None then None else bundleFileVersion name) d"

definition latestVersion :: "'p registry_state \<Rightarrow> registry_error + int" where
  "latestVersion st =
    (case rg_Dir st of None \<Rightarrow> Inl BundleNotFound
     | Some d \<Rightarrow>
         if \<not> rg_Readable st then Inl RegistryReadDir
         else if registry_versions d = [] then Inl BundleNotFound
         else Inr (last (sort (registry_versions d))))"

definition registry_file :: "'p registry_dir \<Rightarrow> gostring \<Rightarrow> 'p internal_bundle jsonfile" where
  "registry_file d name = (case map_of d name of Some (Some f) \<Rightarrow> f | Some None \<Rightarrow> Unreadable | None \<Rightarrow> Absent)"

definition latestBundle ::
  "bundle_crypto \<Rightarrow> ('p internal_bundle \<Rightarrow> gostring) \<Rightarrow> 'p registry_state \<Rightarrow> registry_error + 'p internal_bundle" where
  "latestBundle C canon st =
    (case latestVersion st of Inl e \<Rightarrow> Inl e
     | Inr latest \<Rightarrow>
        (case registry_pinnedKey C st of Inl e \<Rightarrow> Inl (NoPinnedKey e)
         | Inr pub \<Rightarrow>
            (case registry_readBundle (registry_file (the (rg_Dir st)) (bundle_file latest)) of Inl e \<Rightarrow> Inl e
             | Inr b \<Rightarrow>
                (case registry_checkSignature C canon b pub of Some e \<Rightarrow> Inl e
                 | None \<Rightarrow> if nb_Version b \<noteq> latest then Inl BundleVersionMismatch else Inr b))))"

definition registry_List :: "bundle_crypto \<Rightarrow> ('p internal_bundle \<Rightarrow> gostring) \<Rightarrow> 'p registry_state \<Rightarrow> registry_error + 'p list" where
  "registry_List C canon st =
    (case latestBundle C canon st of
       Inl e \<Rightarrow> if e = BundleNotFound then Inr [] else Inl e
     | Inr b \<Rightarrow> Inr (nb_Providers b))"

record registry_io =
  ri_MkdirOk :: bool
  ri_KeyIo :: write_outcome
  ri_BundleIo :: write_outcome

definition registry_Install ::
  "bundle_crypto \<Rightarrow> ('p internal_bundle \<Rightarrow> gostring) \<Rightarrow> registry_io \<Rightarrow> 'p internal_bundle jsonfile \<Rightarrow> gostring \<Rightarrow>
     'p registry_state \<Rightarrow> registry_error option \<times> 'p registry_state" where
  "registry_Install C canon io file pubKey st =
    (case ParsePublicKey C pubKey of Inl e \<Rightarrow> (Some (RegistryKey e), st)
     | Inr pub \<Rightarrow>
        (let pinned = registry_pinnedKey C st in
         case (case pinned of Inl e \<Rightarrow> if e = KeyNotExist then None else Some (RegistryKey e)
               | Inr p \<Rightarrow> if p \<noteq> pub then Some RegistryKeyMismatch else None) of
           Some err \<Rightarrow> (Some err, st)
         | None \<Rightarrow>
           (case registry_readBundle file of Inl e \<Rightarrow> (Some e, st)
            | Inr b \<Rightarrow>
               (case registry_checkSignature C canon b pub of Some e \<Rightarrow> (Some e, st)
                | None \<Rightarrow>
                   (case (case latestVersion st of Inl e \<Rightarrow> if e = BundleNotFound then None else Some e
                          | Inr latest \<Rightarrow> if nb_Version b \<le> latest then Some BundleVersionLow else None) of
                      Some e \<Rightarrow> (Some e, st)
                    | None \<Rightarrow>
                       if \<not> ri_MkdirOk io then (Some RegistryMkdir, st)
                       else let d = (case rg_Dir st of None \<Rightarrow> [] | Some d \<Rightarrow> d) in
                         (case (case pinned of Inr _ \<Rightarrow> Inr (rg_KeyFile st)
                                | Inl _ \<Rightarrow> write_file (ri_KeyIo io) (EncodePublicKey C pub @ [CHR 0x0A]) (rg_KeyFile st)) of
                            Inl w \<Rightarrow> (Some (RegistryWrite w), st\<lparr>rg_Dir := Some d\<rparr>)
                          | Inr kf \<Rightarrow>
                             (case write_file (ri_BundleIo io) b (registry_file d (bundle_file (nb_Version b))) of
                                Inl w \<Rightarrow> (Some (RegistryWrite w), st\<lparr>rg_KeyFile := kf, rg_Dir := Some d\<rparr>)
                              | Inr f \<Rightarrow> (None, st\<lparr>rg_KeyFile := kf, rg_Dir := Some (AList.update (bundle_file (nb_Version b)) (Some f) d)\<rparr>))))))))"

subsection \<open>Versions and file names\<close>

lemma decimal_length: "length (decimal n) \<le> Suc k \<longleftrightarrow> n < 10 ^ Suc k"
proof (induction n arbitrary: k rule: decimal.induct)
  case (1 n)
  show ?case
  proof (cases "n < 10")
    case True
    then have "n < 10 ^ Suc k" using one_le_power [of "10::nat" k] by (simp add: order.strict_trans2)
    with True show ?thesis by (subst decimal.simps) simp
  next
    case False
    have ne: "length (decimal m) \<noteq> 0" for m using decimal_digits [of m] by simp
    show ?thesis
    proof (cases k)
      case 0
      then show ?thesis using False ne [of "n div 10"] by (subst decimal.simps) simp
    next
      case (Suc j)
      have "length (decimal n) = Suc (length (decimal (n div 10)))" using False by (subst decimal.simps) simp
      moreover have "n div 10 < 10 ^ Suc j \<longleftrightarrow> n < 10 ^ Suc k" by (simp add: Suc div_less_iff_less_mult mult.commute)
      ultimately show ?thesis using 1 [OF False, of j] Suc by simp
    qed
  qed
qed

definition visible_version :: "int \<Rightarrow> bool" where
  "visible_version v = (0 \<le> v \<and> v < 10 ^ 18)"

lemma bundleFileVersion_bundle_file:
  "bundleFileVersion (bundle_file v) = (if visible_version v then Some v else None)"
proof (cases "v < 0")
  case True
  then show ?thesis
    by (auto simp: bundleFileVersion_def bundle_file_def CutSuffix_def format_int_def visible_version_def is_digit_def byte_of_def)
next
  case False
  have l: "length (decimal (nat v)) \<le> 18 \<longleftrightarrow> v < 10 ^ 18"
    using decimal_length [of "nat v" 17] False by (simp add: nat_less_iff)
  have d: "Suc 0 \<le> length (decimal (nat v))" "list_all is_digit (decimal (nat v))"
    using decimal_digits [of "nat v"] by (auto simp: Suc_le_eq)
  show ?thesis using False l d
    by (simp add: bundleFileVersion_def bundle_file_def CutSuffix_def format_int_def visible_version_def digits_value_decimal)
qed

lemma registry_versions_simps [simp]:
  "registry_versions [] = []"
  "registry_versions ((n, e) # d) =
     (case (e, bundleFileVersion n) of (Some f, Some v) \<Rightarrow> v # registry_versions d | _ \<Rightarrow> registry_versions d)"
  by (auto simp: registry_versions_def List.map_filter_def split: option.splits)

lemma registry_versions_update_set:
  "set (registry_versions (AList.update n (Some f) d)) =
     (case bundleFileVersion n of None \<Rightarrow> set (registry_versions d) | Some v \<Rightarrow> insert v (set (registry_versions d)))"
proof (induction d)
  case (Cons x d)
  obtain m e where x: "x = (m, e)" by (cases x)
  show ?case
  proof (cases "m = n")
    case True
    then show ?thesis by (cases e; cases "bundleFileVersion n") (auto simp: x)
  next
    case False
    then show ?thesis using Cons by (cases e; cases "bundleFileVersion m"; cases "bundleFileVersion n") (auto simp: x)
  qed
qed (simp split: option.splits)

lemma registry_versions_update_hidden:
  "bundleFileVersion n = None \<Longrightarrow> registry_versions (AList.update n (Some f) d) = registry_versions d"
  by (induction d) (auto split: option.splits)

lemma last_sort:
  fixes xs :: "int list"
  assumes "xs \<noteq> []"
  shows "last (sort xs) = Max (set xs)"
proof -
  have "sort xs \<noteq> []" using assms by (metis set_empty set_sort)
  then have "last (sort xs) \<in> set xs" using last_in_set [of "sort xs"] by simp
  then show ?thesis using le_last_sorted [of "sort xs"] by (intro Max_eqI [symmetric]) auto
qed

lemma latestVersion_Inr:
  "latestVersion st = Inr v \<longleftrightarrow>
     (\<exists>d. rg_Dir st = Some d \<and> rg_Readable st \<and> registry_versions d \<noteq> [] \<and> v = Max (set (registry_versions d)))"
  by (auto simp: latestVersion_def last_sort split: option.splits)

lemma version_visible: "v \<in> set (registry_versions d) \<Longrightarrow> \<exists>n f. bundleFileVersion n = Some v"
  by (induction d) (auto split: option.splits)

lemma registry_readBundle_Inr: "registry_readBundle f = Inr b \<longleftrightarrow> f = Holds b"
  by (cases f) (auto simp: registry_readBundle_def)

text \<open>What a successful installation found and left.\<close>

lemma registry_Install_None:
  assumes "registry_Install C canon io file key st = (None, st')" "base64_ok C"
  obtains b pub d where "file = Holds b" "registry_checkSignature C canon b pub = None" "registry_pinnedKey C st' = Inr pub"
    "\<forall>p. registry_pinnedKey C st = Inr p \<longrightarrow> p = pub" "d = (case rg_Dir st of None \<Rightarrow> [] | Some d \<Rightarrow> d)"
    "rg_Dir st' = Some (AList.update (bundle_file (nb_Version b)) (Some (Holds b)) d)" "rg_Readable st' = rg_Readable st"
    "\<forall>l. latestVersion st = Inr l \<longrightarrow> l < nb_Version b"
proof -
  note rb = registry_readBundle_Inr
  from assms(1) obtain pub b where a: "ParsePublicKey C key = Inr pub" "file = Holds b" "registry_checkSignature C canon b pub = None"
      "\<forall>p. registry_pinnedKey C st = Inr p \<longrightarrow> p = pub" "\<forall>l. latestVersion st = Inr l \<longrightarrow> l < nb_Version b"
    by (auto simp: registry_Install_def Let_def rb split: sum.splits option.splits if_splits)
  have k: "rg_KeyFile st' = (case registry_pinnedKey C st of Inr _ \<Rightarrow> rg_KeyFile st | Inl _ \<Rightarrow> Holds (EncodePublicKey C pub @ [CHR 0x0A]))"
      "rg_Dir st' = Some (AList.update (bundle_file (nb_Version b)) (Some (Holds b)) (case rg_Dir st of None \<Rightarrow> [] | Some d \<Rightarrow> d))"
      "rg_Readable st' = rg_Readable st"
    using assms(1) a by (auto simp: registry_Install_def Let_def rb write_file_def registry_readBundle_def split: sum.splits option.splits if_splits)
  have "registry_pinnedKey C st' = Inr pub"
    using k(1) a(4) ParsePublicKey_Encode [OF assms(2) ParsePublicKey_length [OF a(1)]]
    by (cases "registry_pinnedKey C st") (auto simp: registry_pinnedKey_def)
  then show thesis using that a k by blast
qed

lemma registry_file_update [simp]:
  "registry_file (AList.update n (Some f) d) m = (if m = n then f else registry_file d m)"
  by (simp add: registry_file_def update_conv)


text \<open>Two signed bundles, the newer with a version of nineteen digits.\<close>

definition sample_registry_bundle :: "int \<Rightarrow> gostring list \<Rightarrow> gostring internal_bundle" where
  "sample_registry_bundle v ps = registry_SignBundle org_test_crypto nb_BundleID org_test_key
    \<lparr>nb_SchemaVersion = ''1'', nb_BundleID = ''b'', nb_Version = v, nb_TeamID = ''t'', nb_Issuer = ''i'', nb_IssuedAt = 0,
     nb_Providers = ps, nb_Signature = []\<rparr>"

definition sample_registry :: "gostring registry_state" where
  "sample_registry = \<lparr>rg_KeyFile = Absent, rg_Dir = None, rg_Readable = True\<rparr>"

definition sample_registry_io :: registry_io where
  "sample_registry_io = \<lparr>ri_MkdirOk = True, ri_KeyIo = WriteOk, ri_BundleIo = WriteOk\<rparr>"

lemma sample_registry_signed: "registry_checkSignature org_test_crypto nb_BundleID (sample_registry_bundle v ps) org_test_key = None"
  by (simp add: registry_checkSignature_def bundle_Verify_def sample_registry_bundle_def registry_SignBundle_def bundle_Sign_def
      sigPrefix_def org_test_key_def org_test_crypto_def unpairs_pairs legacyDigest_def HasPrefix_def is_digit_def byte_of_def)


end
