(* ===== verification/Mint.thy ===== *)
theory Mint
  imports Agent_Session Json_Canonical
begin

section \<open>Minting repository tokens (\<open>internal/policy/mint\<close>, \<open>internal/cli/mint_cmd.go\<close>, \<open>internal/broker/strategies/github_app.go\<close>)\<close>

text \<open>
  \<open>github.go\<close>: requests, the operator's mint policy and its check. \<open>github_app.go\<close>: the exchange of the App's signed JWT
  for an installation token and the verification of the reply. \<open>mint_cmd.go\<close>: the command from its flags to its output.
  The command gives an exit and the list of what it did outside: fields read, requests sent, tokens revoked, audit lines
  and the output. JWT signing, the HTTP client, JSON and RFC 3339 parsing, the store and the registry are parameters.
  A permission map is a list of pairs without repeated keys, in the order the map is walked.
\<close>

subsection \<open>Requests\<close>

datatype caller_kind = CallerAgent | CallerHuman | CallerHost | CallerService | CallerOther gostring

definition caller_kind_of :: "gostring \<Rightarrow> caller_kind" where
  "caller_kind_of s =
    (if s = ''agent'' then CallerAgent else if s = ''human'' then CallerHuman else if s = ''host'' then CallerHost
     else if s = ''service'' then CallerService else CallerOther s)"

definition mint_MaxTTL :: duration where "mint_MaxTTL = Hour"

datatype mint_error =
    MintAgent | MintNoPolicy | MintCaller caller_kind | MintBadRepository | MintOwnerDenied | MintNotAllowed
  | MintNoPermission | MintAboveCeiling gostring
  | InvalidTTL | InvalidAgentCaller | InvalidCaller gostring | InvalidCeiling gostring | InvalidRepo gostring

definition is_alnum :: "char \<Rightarrow> bool" where
  "is_alnum c = (is_digit c \<or> is_upper c \<or> is_lower c)"

text \<open>\<open>[A-Za-z0-9](?:[A-Za-z0-9-]{0,38})\<close>, \<open>[A-Za-z0-9._-]{1,100}\<close> and \<open>[a-z][a-z_]{0,63}\<close>, anchored at both ends.\<close>

definition ownerRe :: "gostring \<Rightarrow> bool" where
  "ownerRe s = (s \<noteq> [] \<and> is_alnum (hd s) \<and> length s \<le> 39 \<and> list_all (\<lambda>c. is_alnum c \<or> c = CHR ''-'') (tl s))"

definition repoNameRe :: "gostring \<Rightarrow> bool" where
  "repoNameRe s = (1 \<le> length s \<and> length s \<le> 100 \<and>
     list_all (\<lambda>c. is_alnum c \<or> c = CHR ''.'' \<or> c = CHR ''_'' \<or> c = CHR ''-'') s)"

definition permissionRe :: "gostring \<Rightarrow> bool" where
  "permissionRe s = (s \<noteq> [] \<and> is_lower (hd s) \<and> length s \<le> 64 \<and> list_all (\<lambda>c. is_lower c \<or> c = CHR ''_'') (tl s))"

text \<open>The rank of a level, zero for what the map does not hold.\<close>

definition levelRank :: "gostring \<Rightarrow> nat" where
  "levelRank s = (if s = ''read'' then 1 else if s = ''write'' then 2 else if s = ''admin'' then 3 else 0)"

definition ParseRepository :: "gostring \<Rightarrow> (gostring \<times> gostring) option" where
  "ParseRepository s =
    (case Cut s (CHR ''/'') of None \<Rightarrow> None
     | Some (owner, name) \<Rightarrow>
         if \<not> ownerRe owner \<or> \<not> repoNameRe name \<or> name = ''.'' \<or> name = ''..'' then None else Some (owner, name))"

definition ParsePermission :: "gostring \<Rightarrow> (gostring \<times> gostring) option" where
  "ParsePermission s =
    (case Cut s (CHR ''='') of None \<Rightarrow> None
     | Some (key, level) \<Rightarrow> if \<not> permissionRe key then None else if levelRank level = 0 then None else Some (key, level))"

record mint_request =
  mq_Repository :: gostring
  mq_Permissions :: "(gostring \<times> gostring) list"

record mint_policy =
  mp_Callers :: "gostring list"
  mp_DenyOwners :: "gostring list"
  mp_AllowOwners :: "gostring list"
  mp_AllowRepos :: "gostring list"
  mp_PermissionCeiling :: "(gostring \<times> gostring) list"
  mp_MaxTTL :: int

text \<open>\<open>strings.EqualFold\<close> where one side is ASCII, as it always is here: a letter also folds with the two non-ASCII runes
  of its orbit, the Kelvin sign and the long s.\<close>

definition fold_rune :: "nat \<Rightarrow> nat" where
  "fold_rune r = (if 65 \<le> r \<and> r \<le> 90 then r + 32 else if r = 0x212A then 107 else if r = 0x17F then 115 else r)"

definition fold_equal :: "gostring \<Rightarrow> gostring \<Rightarrow> bool" where
  "fold_equal s t = (map (fold_rune \<circ> fst) (runes s) = map (fold_rune \<circ> fst) (runes t))"

definition containsFold :: "gostring list \<Rightarrow> gostring \<Rightarrow> bool" where
  "containsFold xs s = list_ex (\<lambda>v. fold_equal v s) xs"

subsection \<open>The mint policy\<close>

fun validate_callers :: "gostring list \<Rightarrow> mint_error option" where
  "validate_callers [] = None"
| "validate_callers (c # cs) =
    (case caller_kind_of c of CallerAgent \<Rightarrow> Some InvalidAgentCaller | CallerOther s \<Rightarrow> Some (InvalidCaller s) | _ \<Rightarrow> validate_callers cs)"

definition mint_Validate :: "mint_policy \<Rightarrow> mint_error option" where
  "mint_Validate p =
    (if mp_MaxTTL p < 0 \<or> seconds (mp_MaxTTL p) > mint_MaxTTL then Some InvalidTTL
     else (case validate_callers (mp_Callers p) of Some e \<Rightarrow> Some e
     | None \<Rightarrow>
        (case find (\<lambda>(k, v). ParsePermission (k @ ''='' @ v) = None) (mp_PermissionCeiling p) of
           Some (k, _) \<Rightarrow> Some (InvalidCeiling k)
         | None \<Rightarrow>
            (case find (\<lambda>r. ParseRepository r = None) (mp_AllowRepos p) of Some r \<Rightarrow> Some (InvalidRepo r) | None \<Rightarrow> None))))"

definition MaxLifetime :: "mint_policy \<Rightarrow> duration" where
  "MaxLifetime p = (if mp_MaxTTL p = 0 then mint_MaxTTL else seconds (mp_MaxTTL p))"

definition allowed_callers :: "mint_policy \<Rightarrow> caller_kind list" where
  "allowed_callers p = (if mp_Callers p \<noteq> [] then map caller_kind_of (mp_Callers p) else [CallerService, CallerHost])"

definition permission_excess :: "mint_policy \<Rightarrow> gostring \<times> gostring \<Rightarrow> bool" where
  "permission_excess p kv =
    (case map_of (mp_PermissionCeiling p) (fst kv) of None \<Rightarrow> True
     | Some ceiling \<Rightarrow> levelRank (snd kv) = 0 \<or> levelRank (snd kv) > levelRank ceiling)"

definition CheckGitHubApp :: "mint_policy option \<Rightarrow> caller_kind \<Rightarrow> mint_request \<Rightarrow> mint_error option" where
  "CheckGitHubApp po caller req =
    (if caller = CallerAgent then Some MintAgent
     else (case po of None \<Rightarrow> Some MintNoPolicy
     | Some p \<Rightarrow>
        (case mint_Validate p of Some e \<Rightarrow> Some e
         | None \<Rightarrow>
            if caller \<notin> set (allowed_callers p) then Some (MintCaller caller)
            else (case ParseRepository (mq_Repository req) of None \<Rightarrow> Some MintBadRepository
            | Some (owner, _) \<Rightarrow>
                if containsFold (mp_DenyOwners p) owner then Some MintOwnerDenied
                else if \<not> containsFold (mp_AllowOwners p) owner \<and> \<not> containsFold (mp_AllowRepos p) (mq_Repository req) then Some MintNotAllowed
                else if mq_Permissions req = [] then Some MintNoPermission
                else (case find (permission_excess p) (mq_Permissions req) of
                        Some (k, _) \<Rightarrow> Some (MintAboveCeiling k) | None \<Rightarrow> None)))))"

subsection \<open>The exchange with GitHub\<close>

record token_reply =
  tr_Token :: gostring
  tr_ExpiresAt :: gostring
  tr_Permissions :: "(gostring \<times> gostring) list"
  tr_Repositories :: "gostring list"

text \<open>What the transport gives: an error, or a status with the parsed body (\<open>None\<close> when it is not JSON).\<close>

datatype post_result = PostFails | Posted int "token_reply option"

record mint_token =
  mt_Token :: gostring
  mt_ExpiresAt :: gotime
  mt_Repository :: gostring
  mt_Permissions :: "(gostring \<times> gostring) list"

datatype scoped_error =
    NotOwnerName | NoScopePermission | SignFails | HttpFails | Refused int | NotJSON | NoToken | ScopeMismatch bool

record token_post =
  tp_Installation :: gostring
  tp_JWT :: gostring
  tp_Repository :: gostring
  tp_Permissions :: "(gostring \<times> gostring) list"

datatype mint_effect =
    ReadField gostring
  | PostToken token_post
  | RevokeToken gostring
  | MintEvent bool "(gostring \<times> gostring) list" gostring "gotime option"
  | PrintToken mint_token gostring

record 'k github_world =
  gw_Sign :: "gostring \<Rightarrow> 'k \<Rightarrow> gostring option"
  gw_Post :: "token_post \<Rightarrow> post_result"
  gw_Revoke :: "gostring \<Rightarrow> bool"
  gw_ParseTime :: "gostring \<Rightarrow> gotime option"
  gw_Now :: gotime

definition expirySkew :: duration where "expirySkew = 2 * Minute"
definition MaxGitHubAppTokenLifetime :: duration where "MaxGitHubAppTokenLifetime = Hour"

definition maps_Equal :: "(gostring \<times> gostring) list \<Rightarrow> (gostring \<times> gostring) list \<Rightarrow> bool" where
  "maps_Equal a b = (length a = length b \<and> list_all (\<lambda>(k, v). map_of b k = Some v) a)"

definition verifyReply :: "'k github_world \<Rightarrow> mint_request \<Rightarrow> token_reply \<Rightarrow> duration \<Rightarrow> gotime option" where
  "verifyReply G scope reply maxLifetime =
    (case tr_Repositories reply of
       [full] \<Rightarrow>
         if \<not> fold_equal full (mq_Repository scope) then None
         else if \<not> maps_Equal (tr_Permissions reply) (mq_Permissions scope) then None
         else (case gw_ParseTime G (tr_ExpiresAt reply) of None \<Rightarrow> None
         | Some t \<Rightarrow>
             if \<not> t > gw_Now G then None
             else if time_Sub t (gw_Now G) > maxLifetime + expirySkew then None else Some t)
     | _ \<Rightarrow> None)"

definition cap_lifetime :: "duration \<Rightarrow> duration" where
  "cap_lifetime d = (if d \<le> 0 \<or> d > MaxGitHubAppTokenLifetime then MaxGitHubAppTokenLifetime else d)"

definition MintScoped ::
  "'k github_world \<Rightarrow> gostring \<Rightarrow> gostring \<Rightarrow> 'k \<Rightarrow> mint_request \<Rightarrow> duration \<Rightarrow> (scoped_error + mint_token) \<times> mint_effect list" where
  "MintScoped G appID installation key scope maxLifetime0 =
    (case Cut (mq_Repository scope) (CHR ''/'') of None \<Rightarrow> (Inl NotOwnerName, [])
     | Some (owner, name) \<Rightarrow>
         if owner = [] \<or> name = [] \<or> CHR ''/'' \<in> set name then (Inl NotOwnerName, [])
         else if mq_Permissions scope = [] then (Inl NoScopePermission, [])
         else (case gw_Sign G appID key of None \<Rightarrow> (Inl SignFails, [])
         | Some jwt \<Rightarrow>
             let post = \<lparr>tp_Installation = installation, tp_JWT = jwt, tp_Repository = name, tp_Permissions = mq_Permissions scope\<rparr> in
             (case gw_Post G post of
                PostFails \<Rightarrow> (Inl HttpFails, [PostToken post])
              | Posted status body \<Rightarrow>
                  if status \<noteq> 201 \<and> status \<noteq> 200 then (Inl (Refused status), [PostToken post])
                  else (case body of None \<Rightarrow> (Inl NotJSON, [PostToken post])
                  | Some reply \<Rightarrow>
                      if tr_Token reply = [] then (Inl NoToken, [PostToken post])
                      else (case verifyReply G scope reply (cap_lifetime maxLifetime0) of
                          None \<Rightarrow> (Inl (ScopeMismatch (gw_Revoke G (tr_Token reply))), [PostToken post, RevokeToken (tr_Token reply)])
                        | Some t \<Rightarrow>
                            (Inr \<lparr>mt_Token = tr_Token reply, mt_ExpiresAt = t, mt_Repository = hd (tr_Repositories reply),
                               mt_Permissions = tr_Permissions reply\<rparr>, [PostToken post]))))))"

subsection \<open>The command\<close>

record mint_options =
  mo_Connection :: gostring
  mo_Namespace :: gostring
  mo_Repo :: gostring
  mo_Permissions :: "gostring list"
  mo_Format :: gostring

datatype mint_exit = MintOk | UsageExit | SecurityExit | PolicyExit | BackendExit | MissingExit | FailedExit

fun mint_exit_code :: "mint_exit \<Rightarrow> nat" where
  "mint_exit_code MintOk = 0" | "mint_exit_code UsageExit = 1" | "mint_exit_code SecurityExit = 2" | "mint_exit_code PolicyExit = 3"
| "mint_exit_code BackendExit = 4" | "mint_exit_code FailedExit = 5" | "mint_exit_code MissingExit = 6"

fun parse_permissions :: "(gostring \<times> gostring) list \<Rightarrow> gostring list \<Rightarrow> (gostring \<times> gostring) list option" where
  "parse_permissions acc [] = Some acc"
| "parse_permissions acc (p # ps) =
    (case ParsePermission p of None \<Rightarrow> None
     | Some (k, v) \<Rightarrow> if k \<in> fst ` set acc then None else parse_permissions (acc @ [(k, v)]) ps)"

definition parseMintRequest :: "mint_options \<Rightarrow> mint_request option" where
  "parseMintRequest opts =
    (if mo_Format opts \<noteq> ''json'' then None
     else if ParseRepository (mo_Repo opts) = None then None
     else if mo_Permissions opts = [] then None
     else (case parse_permissions [] (mo_Permissions opts) of None \<Rightarrow> None
           | Some perms \<Rightarrow> Some \<lparr>mq_Repository = mo_Repo opts, mq_Permissions = perms\<rparr>))"

definition mintCallerKind :: "session_env \<Rightarrow> bool \<Rightarrow> lookup \<Rightarrow> caller_kind" where
  "mintCallerKind S interactive env =
    (if IsLLMSession S env then CallerAgent
     else if env ''INVOCATION_ID'' \<noteq> [] then CallerService
     else if interactive then CallerHuman else CallerHost)"

text \<open>\<open>readOperatorFile\<close> on Unix: the file as opened without following a link, its attributes and its contents. The
  configuration maps connections to mint policies; decoding is a parameter.\<close>

record operator_file =
  of_Regular :: bool
  of_Perm :: nat
  of_OwnedByUser :: bool
  of_Data :: "gostring option"

datatype open_result = OpenNotExist | OpenFails | OpenedFile operator_file

definition writable_by_others :: "nat \<Rightarrow> bool" where
  "writable_by_others m = (m div 16 mod 2 = 1 \<or> m div 2 mod 2 = 1)"

definition readOperatorFile :: "open_result \<Rightarrow> bool \<times> gostring option" where
  "readOperatorFile r =
    (case r of OpenNotExist \<Rightarrow> (False, None) | OpenFails \<Rightarrow> (True, None)
     | OpenedFile f \<Rightarrow>
         if \<not> of_Regular f \<or> writable_by_others (of_Perm f) \<or> \<not> of_OwnedByUser f then (True, None)
         else (of_Data f = None, of_Data f))"

type_synonym mint_config = "gostring \<Rightarrow> mint_policy option"

text \<open>\<open>None\<close> for an error; a missing file gives the empty configuration.\<close>

definition operatorConfig :: "gostring option \<Rightarrow> open_result \<Rightarrow> (gostring \<Rightarrow> mint_config option) \<Rightarrow> mint_config option" where
  "operatorConfig home file LoadBytes =
    (case home of None \<Rightarrow> None
     | Some _ \<Rightarrow>
        (case readOperatorFile file of
           (True, _) \<Rightarrow> None
         | (False, None) \<Rightarrow> Some (\<lambda>_. None)
         | (False, Some data) \<Rightarrow> LoadBytes data))"

datatype store_read = StoreNotFound | StoreFails | StoreValue gostring

record 'k mint_world =
  mw_Session :: session_env
  mw_Env :: lookup
  mw_Interactive :: bool
  mw_Template :: "gostring \<Rightarrow> (gostring \<times> gostring list) option"
  mw_Home :: "gostring option"
  mw_ConfigFile :: open_result
  mw_LoadBytes :: "gostring \<Rightarrow> mint_config option"
  mw_AuditOpens :: bool
  mw_AuditReady :: bool
  mw_EmitOk :: bool
  mw_Store :: "gostring \<Rightarrow> store_read"
  mw_ParseKey :: "gostring \<Rightarrow> 'k option"
  mw_GitHub :: "'k github_world"
  mw_WriteOk :: bool

definition mintCapability :: gostring where "mintCapability = ''tokens.mint''"

definition connection_path :: "gostring \<Rightarrow> gostring \<Rightarrow> gostring \<Rightarrow> gostring" where
  "connection_path namespace category provider =
    namespace @ ''/'' @ (if category = [] then ''ai'' else category) @ ''/'' @ provider"

definition SecretFieldPath :: "gostring \<Rightarrow> gostring \<Rightarrow> gostring \<Rightarrow> gostring \<Rightarrow> gostring" where
  "SecretFieldPath namespace category provider field = connection_path namespace category provider @ ''/'' @ field"

definition ConfigFieldPath :: "gostring \<Rightarrow> gostring \<Rightarrow> gostring \<Rightarrow> gostring \<Rightarrow> gostring" where
  "ConfigFieldPath namespace category provider field = connection_path namespace category provider @ ''/config/'' @ field"

definition read_field :: "'k mint_world \<Rightarrow> gostring \<Rightarrow> mint_exit + gostring" where
  "read_field W path =
    (case mw_Store W path of StoreNotFound \<Rightarrow> Inl MissingExit | StoreFails \<Rightarrow> Inl BackendExit
     | StoreValue v \<Rightarrow> if v = [] then Inl MissingExit else Inr v)"

definition loadGitHubAppStrategy ::
  "'k mint_world \<Rightarrow> mint_options \<Rightarrow> gostring \<Rightarrow> gostring \<Rightarrow> (mint_exit + (gostring \<times> gostring \<times> 'k)) \<times> mint_effect list" where
  "loadGitHubAppStrategy W opts category repo =
    (let owner = (case Cut repo (CHR ''/'') of Some (a, _) \<Rightarrow> a | None \<Rightarrow> repo);
         instPath = ConfigFieldPath (mo_Namespace opts) category (mo_Connection opts) (''installation_'' @ ToLower owner);
         appPath = ConfigFieldPath (mo_Namespace opts) category (mo_Connection opts) ''app_id'';
         keyPath = SecretFieldPath (mo_Namespace opts) category (mo_Connection opts) ''private_key'' in
     case read_field W instPath of Inl e \<Rightarrow> (Inl e, [ReadField instPath])
     | Inr inst \<Rightarrow>
        (case read_field W appPath of Inl e \<Rightarrow> (Inl e, [ReadField instPath, ReadField appPath])
         | Inr app \<Rightarrow>
            (case read_field W keyPath of Inl e \<Rightarrow> (Inl e, map ReadField [instPath, appPath, keyPath])
             | Inr pem \<Rightarrow>
                (case mw_ParseKey W pem of None \<Rightarrow> (Inl FailedExit, map ReadField [instPath, appPath, keyPath])
                 | Some key \<Rightarrow> (Inr (TrimSpace app, TrimSpace inst, key), map ReadField [instPath, appPath, keyPath])))))"

definition runMint :: "'k mint_world \<Rightarrow> mint_options \<Rightarrow> mint_exit \<times> mint_effect list" where
  "runMint W opts =
    (case parseMintRequest opts of None \<Rightarrow> (UsageExit, [])
     | Some req \<Rightarrow>
    (case mw_Template W (mo_Connection opts) of None \<Rightarrow> (UsageExit, [])
     | Some (category, caps) \<Rightarrow>
    if mintCapability \<notin> set caps then (UsageExit, [])
    else let caller = mintCallerKind (mw_Session W) (mw_Interactive W) (mw_Env W) in
    if caller = CallerAgent then (SecurityExit, [])
    else (case operatorConfig (mw_Home W) (mw_ConfigFile W) (mw_LoadBytes W) of None \<Rightarrow> (PolicyExit, [])
    | Some cfg \<Rightarrow>
       let po = cfg (mo_Connection opts) in
       if CheckGitHubApp po caller req \<noteq> None then (PolicyExit, [])
       else if \<not> mw_AuditOpens W \<or> \<not> mw_AuditReady W then (SecurityExit, [])
       else (case loadGitHubAppStrategy W opts category (mq_Repository req) of
         (Inl e, effs) \<Rightarrow> (e, effs)
       | (Inr (app, inst, key), effs) \<Rightarrow>
          (case MintScoped (mw_GitHub W) app inst key req (case po of Some p \<Rightarrow> MaxLifetime p | None \<Rightarrow> 0) of
             (Inl e, effs') \<Rightarrow> (FailedExit, effs @ effs' @ [MintEvent False (mq_Permissions req) (mq_Repository req) None])
           | (Inr tok, effs') \<Rightarrow>
               let ok = effs @ effs' @ [MintEvent True (mq_Permissions req) (mq_Repository req) (Some (mt_ExpiresAt tok))] in
               if \<not> mw_EmitOk W then (FailedExit, ok @ [RevokeToken (mt_Token tok)])
               else (if mw_WriteOk W then MintOk else FailedExit, ok @ [PrintToken tok (mq_Repository req)]))))))"

end
