(* ===== verification/Mint_Facts.thy ===== *)
theory Mint_Facts
  imports Mint
begin

section \<open>What minting guarantees\<close>

text \<open>
  The three stages of a mint: the checks before anything is read, the exchange with GitHub, and the audit line and output.
  Each stage has one lemma on when it goes on and with which effects; the theorems put them together.
\<close>

subsection \<open>The policy check\<close>

lemma CheckGitHubApp_None:
  assumes "CheckGitHubApp po caller req = None"
  obtains p owner name where "po = Some p" "caller \<noteq> CallerAgent" "mint_Validate p = None" "caller \<in> set (allowed_callers p)"
    "ParseRepository (mq_Repository req) = Some (owner, name)" "\<not> containsFold (mp_DenyOwners p) owner"
    "containsFold (mp_AllowOwners p) owner \<or> containsFold (mp_AllowRepos p) (mq_Repository req)"
    "mq_Permissions req \<noteq> []" "\<forall>k v. (k, v) \<in> set (mq_Permissions req) \<longrightarrow> \<not> permission_excess p (k, v)"
  using assms by (auto simp: CheckGitHubApp_def find_None_iff split: if_splits option.splits prod.splits)

lemma ParseRepository_Some:
  "ParseRepository s = Some (owner, name) \<Longrightarrow> s = owner @ ''/'' @ name \<and> ownerRe owner \<and> repoNameRe name"
  by (auto simp: ParseRepository_def Cut_Some_iff split: option.splits if_splits)

lemma not_excess:
  "\<not> permission_excess p (k, v) \<longleftrightarrow>
     (\<exists>c. map_of (mp_PermissionCeiling p) k = Some c \<and> 1 \<le> levelRank v \<and> levelRank v \<le> levelRank c)"
  by (auto simp: permission_excess_def split: option.splits)

lemma maps_Equal_subset: "maps_Equal a b \<Longrightarrow> set a \<subseteq> set b"
  by (auto simp: maps_Equal_def list_all_iff dest!: bspec dest: map_of_SomeD)

lemma cap_lifetime_bounds: "0 < cap_lifetime d" "cap_lifetime d \<le> Hour"
  by (auto simp: cap_lifetime_def MaxGitHubAppTokenLifetime_def Hour_def Minute_def Second_def)

subsection \<open>The exchange\<close>

lemma verifyReply_Some:
  assumes "verifyReply G scope reply d = Some t" "d \<le> Hour"
  shows "\<exists>full. tr_Repositories reply = [full] \<and> fold_equal full (mq_Repository scope)"
    "set (tr_Permissions reply) \<subseteq> set (mq_Permissions scope)" "length (tr_Permissions reply) = length (mq_Permissions scope)"
    "gw_Now G < t" "t \<le> gw_Now G + d + expirySkew"
proof -
  have u: "gw_Now G < t \<and> time_Sub t (gw_Now G) \<le> d + expirySkew" "maps_Equal (tr_Permissions reply) (mq_Permissions scope)"
      "\<exists>full. tr_Repositories reply = [full] \<and> fold_equal full (mq_Repository scope)"
    using assms by (auto simp: verifyReply_def split: list.splits if_splits option.splits)
  have "min_int64 \<le> d + expirySkew \<or> d + expirySkew < min_int64" by auto
  then show "t \<le> gw_Now G + d + expirySkew"
  proof
    assume "min_int64 \<le> d + expirySkew"
    moreover have "d + expirySkew < max_int64"
      using assms(2) by (simp add: expirySkew_def Hour_def Minute_def Second_def max_int64_def)
    ultimately show ?thesis using u(1) time_Sub_le_iff [of "d + expirySkew" t "gw_Now G"] by simp
  next
    assume "d + expirySkew < min_int64"
    then show ?thesis using u(1) by (auto simp: time_Sub_def)
  qed
  show "\<exists>full. tr_Repositories reply = [full] \<and> fold_equal full (mq_Repository scope)"
    "set (tr_Permissions reply) \<subseteq> set (mq_Permissions scope)" "gw_Now G < t"
    "length (tr_Permissions reply) = length (mq_Permissions scope)"
    using u maps_Equal_subset by (auto simp: maps_Equal_def)
qed

text \<open>An exchange that yields a token sent one request, for the named repository, and got the token in a verified reply.\<close>

lemma MintScoped_Inr:
  assumes "MintScoped G app inst key scope d = (Inr tok, effs)"
  obtains post status reply where "effs = [PostToken post]" "gw_Post G post = Posted status (Some reply)"
    "mt_Token tok = tr_Token reply" "fold_equal (mt_Repository tok) (mq_Repository scope)"
    "set (mt_Permissions tok) \<subseteq> set (mq_Permissions scope)" "length (mt_Permissions tok) = length (mq_Permissions scope)"
    "gw_Now G < mt_ExpiresAt tok" "mt_ExpiresAt tok \<le> gw_Now G + cap_lifetime d + expirySkew"
proof -
  from assms obtain post status reply t where a: "effs = [PostToken post]" "gw_Post G post = Posted status (Some reply)"
      "verifyReply G scope reply (cap_lifetime d) = Some t"
      "tok = \<lparr>mt_Token = tr_Token reply, mt_ExpiresAt = t, mt_Repository = hd (tr_Repositories reply), mt_Permissions = tr_Permissions reply\<rparr>"
    by (auto simp: MintScoped_def Let_def split: option.splits prod.splits if_splits post_result.splits)
  note v = verifyReply_Some [OF a(3) cap_lifetime_bounds(2)]
  show thesis using v by (intro that [OF a(1,2)]) (auto simp: a(4))
qed

lemma MintScoped_effects:
  assumes "MintScoped G app inst key scope d = (r, effs)" "PostToken post \<in> set effs"
    "gw_Post G post = Posted status (Some reply)" "status = 200 \<or> status = 201" "tr_Token reply \<noteq> []"
  shows "RevokeToken (tr_Token reply) \<in> set effs \<or> (\<exists>tok. r = Inr tok \<and> mt_Token tok = tr_Token reply)"
  using assms by (auto simp: MintScoped_def Let_def split: option.splits prod.splits if_splits post_result.splits)

lemma MintScoped_no_print: "MintScoped G app inst key scope d = (r, effs) \<Longrightarrow> PrintToken tok repo \<notin> set effs \<and> ReadField f \<notin> set effs"
  by (auto simp: MintScoped_def Let_def split: option.splits prod.splits if_splits post_result.splits)

lemma loadStrategy_reads:
  "loadGitHubAppStrategy W opts category repo = (r, effs) \<Longrightarrow> \<exists>fs. effs = map ReadField fs"
  by (auto simp: loadGitHubAppStrategy_def Let_def split: sum.splits option.splits intro: exI [of _ "[_]"] exI [of _ "[_, _]"]
      exI [of _ "[_, _, _]"])

subsection \<open>The command\<close>

text \<open>Before its first effect the command has passed all its checks.\<close>

definition mint_cleared :: "'k mint_world \<Rightarrow> mint_options \<Rightarrow> mint_request \<Rightarrow> mint_policy \<Rightarrow> bool" where
  "mint_cleared W opts req p = (parseMintRequest opts = Some req \<and>
     mintCallerKind (mw_Session W) (mw_Interactive W) (mw_Env W) \<noteq> CallerAgent \<and>
     (\<exists>cfg. operatorConfig (mw_Home W) (mw_ConfigFile W) (mw_LoadBytes W) = Some cfg \<and> cfg (mo_Connection opts) = Some p) \<and>
     CheckGitHubApp (Some p) (mintCallerKind (mw_Session W) (mw_Interactive W) (mw_Env W)) req = None \<and>
     mw_AuditOpens W \<and> mw_AuditReady W)"

lemma runMint_cases:
  assumes "runMint W opts = (x, effs)"
  obtains "effs = []"
  | req p fs where "mint_cleared W opts req p" "effs = map ReadField fs"
  | req p fs app inst key e effs' where "mint_cleared W opts req p"
      "MintScoped (mw_GitHub W) app inst key req (MaxLifetime p) = (Inl e, effs')" "x = FailedExit"
      "effs = map ReadField fs @ effs' @ [MintEvent False (mq_Permissions req) (mq_Repository req) None]"
  | req p fs app inst key tok effs' where "mint_cleared W opts req p"
      "MintScoped (mw_GitHub W) app inst key req (MaxLifetime p) = (Inr tok, effs')"
      "effs = map ReadField fs @ effs' @ [MintEvent True (mq_Permissions req) (mq_Repository req) (Some (mt_ExpiresAt tok)),
         if mw_EmitOk W then PrintToken tok (mq_Repository req) else RevokeToken (mt_Token tok)]"
proof (cases "effs = []")
  case False
  from assms False obtain req cat caps cfg where r: "parseMintRequest opts = Some req" "mw_Template W (mo_Connection opts) = Some (cat, caps)"
      "mintCapability \<in> set caps" "mintCallerKind (mw_Session W) (mw_Interactive W) (mw_Env W) \<noteq> CallerAgent"
      "operatorConfig (mw_Home W) (mw_ConfigFile W) (mw_LoadBytes W) = Some cfg"
      "CheckGitHubApp (cfg (mo_Connection opts)) (mintCallerKind (mw_Session W) (mw_Interactive W) (mw_Env W)) req = None"
      "mw_AuditOpens W" "mw_AuditReady W"
    by (auto simp: runMint_def Let_def split: option.splits prod.splits if_splits)
  obtain p where p: "cfg (mo_Connection opts) = Some p" by (rule CheckGitHubApp_None [OF r(6)])
  have c: "mint_cleared W opts req p" using r p by (simp add: mint_cleared_def)
  obtain l g where l: "loadGitHubAppStrategy W opts cat (mq_Repository req) = (l, g)" by (metis surj_pair)
  obtain fs where fs: "g = map ReadField fs" using loadStrategy_reads [OF l] by blast
  show thesis
  proof (cases l)
    case (Inl e)
    then have "effs = g" using assms r l p by (simp add: runMint_def Let_def)
    then show thesis using that(2) [OF c] fs by blast
  next
    case (Inr k)
    then obtain app inst key where k: "l = Inr (app, inst, key)" by (cases k) auto
    obtain m h where m: "MintScoped (mw_GitHub W) app inst key req (MaxLifetime p) = (m, h)" by (metis surj_pair)
    show thesis
    proof (cases m)
      case (Inl e)
      have "x = FailedExit" "effs = map ReadField fs @ h @ [MintEvent False (mq_Permissions req) (mq_Repository req) None]"
        using assms r l p k m fs Inl by (simp_all add: runMint_def Let_def)
      then show thesis by (rule that(3) [OF c m [unfolded Inl]])
    next
      case (Inr tok)
      have "effs = map ReadField fs @ h @ [MintEvent True (mq_Permissions req) (mq_Repository req) (Some (mt_ExpiresAt tok)),
         if mw_EmitOk W then PrintToken tok (mq_Repository req) else RevokeToken (mt_Token tok)]"
        using assms r l p k m fs Inr by (auto simp: runMint_def Let_def split: if_splits)
      then show thesis by (rule that(4) [OF c m [unfolded Inr]])
    qed
  qed
qed (use that(1) in blast)



text \<open>The product of the policy's seconds wraps, so the check of the longest lifetime accepts values far above an hour;
  the lifetime that results is then shorter than the operator wrote, or the default.\<close>

lemma mint_max_ttl_wraps:
  "mint_Validate \<lparr>mp_Callers = [], mp_DenyOwners = [], mp_AllowOwners = [], mp_AllowRepos = [], mp_PermissionCeiling = [],
      mp_MaxTTL = 18446744074\<rparr> = None"
  "seconds 18446744074 < Second" "mint_Validate \<lparr>mp_Callers = [], mp_DenyOwners = [], mp_AllowOwners = [], mp_AllowRepos = [],
      mp_PermissionCeiling = [], mp_MaxTTL = 3601\<rparr> = Some InvalidTTL"
  by (simp_all add: mint_Validate_def seconds_def wrap64_def Second_def Minute_def Hour_def mint_MaxTTL_def)

subsection \<open>Witnesses\<close>

definition sample_mint_policy :: mint_policy where
  "sample_mint_policy = \<lparr>mp_Callers = [], mp_DenyOwners = [''evil''], mp_AllowOwners = [''o''], mp_AllowRepos = [],
     mp_PermissionCeiling = [(''contents'', ''write'')], mp_MaxTTL = 0\<rparr>"

definition sample_reply :: "gostring \<Rightarrow> token_reply" where
  "sample_reply level = \<lparr>tr_Token = ''tok'', tr_ExpiresAt = ''soon'', tr_Permissions = [(''contents'', level)], tr_Repositories = [''o/r'']\<rparr>"

definition sample_mint :: "gostring \<Rightarrow> unit mint_world" where
  "sample_mint level = \<lparr>mw_Session = \<lparr>sn_Ancestry = False, sn_Chain = [], sn_Verifier = None\<rparr>, mw_Env = (\<lambda>_. []), mw_Interactive = False,
     mw_Template = (\<lambda>_. Some (''scm'', [mintCapability])), mw_Home = Some ''/h'',
     mw_ConfigFile = OpenedFile \<lparr>of_Regular = True, of_Perm = 384, of_OwnedByUser = True, of_Data = Some ''cfg''\<rparr>,
     mw_LoadBytes = (\<lambda>_. Some (\<lambda>_. Some sample_mint_policy)), mw_AuditOpens = True, mw_AuditReady = True, mw_EmitOk = True,
     mw_Store = (\<lambda>_. StoreValue ''v''), mw_ParseKey = (\<lambda>_. Some ()),
     mw_GitHub = \<lparr>gw_Sign = (\<lambda>_ _. Some ''jwt''), gw_Post = (\<lambda>_. Posted 201 (Some (sample_reply level))), gw_Revoke = (\<lambda>_. True),
        gw_ParseTime = (\<lambda>_. Some 5), gw_Now = 1\<rparr>, mw_WriteOk = True\<rparr>"

definition sample_mint_options :: mint_options where
  "sample_mint_options = \<lparr>mo_Connection = ''github-app'', mo_Namespace = ''default'', mo_Repo = ''o/r'',
     mo_Permissions = [''contents=write''], mo_Format = ''json''\<rparr>"

lemma sample_parse: "ParseRepository ''o/r'' = Some (''o'', ''r'')" "ParsePermission ''contents=write'' = Some (''contents'', ''write'')"
  by (simp_all add: ParseRepository_def ParsePermission_def Cut_def ownerRe_def repoNameRe_def permissionRe_def levelRank_def is_alnum_def
      is_lower_def is_upper_def is_digit_def byte_of_def)

lemma sample_fold: "fold_equal ''o'' ''o''" "\<not> fold_equal ''evil'' ''o''" "fold_equal ''o/r'' ''o/r''"
  by (simp_all add: fold_equal_def runes_ascii ascii_def fold_rune_def byte_of_def del: runes.simps)

lemma sample_mint_not_agent: "mintCallerKind (mw_Session (sample_mint level)) False (\<lambda>_. []) = CallerHost"
proof -
  have "\<not> Fires m []" for m by (cases m) (simp_all add: Fires_def)
  then have "classify_env (\<lambda>_. []) = \<lparr>cl_Signals = [], cl_Harness = []\<rparr>"
  proof -
    have k: "fold (\<lambda>_ c. c) xs c = c" for xs :: "owned_signal list" and c :: classification by (induction xs) simp_all
    show ?thesis unfolding classify_env_def by (simp add: \<open>\<And>m. \<not> Fires m []\<close> k)
  qed
  then show ?thesis
    by (simp add: mintCallerKind_def IsLLMSession_def Classify_def sample_mint_def Let_def Detected_def)
qed

lemma sample_mint_check: "CheckGitHubApp (Some sample_mint_policy) CallerHost
    \<lparr>mq_Repository = ''o/r'', mq_Permissions = [(''contents'', ''write'')]\<rparr> = None"
  by (simp add: CheckGitHubApp_def mint_Validate_def sample_mint_policy_def sample_parse sample_fold containsFold_def allowed_callers_def
      permission_excess_def levelRank_def seconds_def wrap64_def mint_MaxTTL_def Hour_def Minute_def Second_def)

lemma sample_mint_request: "parseMintRequest sample_mint_options = Some \<lparr>mq_Repository = ''o/r'', mq_Permissions = [(''contents'', ''write'')]\<rparr>"
  by (simp add: parseMintRequest_def sample_mint_options_def sample_parse)

lemma sample_mint_config: "operatorConfig (mw_Home (sample_mint level)) (mw_ConfigFile (sample_mint level)) (mw_LoadBytes (sample_mint level)) =
    Some (\<lambda>_. Some sample_mint_policy)"
  by (simp add: sample_mint_def operatorConfig_def readOperatorFile_def writable_by_others_def)

definition sample_post :: token_post where
  "sample_post = \<lparr>tp_Installation = ''v'', tp_JWT = ''jwt'', tp_Repository = ''r'', tp_Permissions = [(''contents'', ''write'')]\<rparr>"

lemma sample_scoped:
  "MintScoped (mw_GitHub (sample_mint level)) ''v'' ''v'' () \<lparr>mq_Repository = ''o/r'', mq_Permissions = [(''contents'', ''write'')]\<rparr> d =
    (if level = ''write'' then (Inr \<lparr>mt_Token = ''tok'', mt_ExpiresAt = 5, mt_Repository = ''o/r'', mt_Permissions = [(''contents'', ''write'')]\<rparr>,
        [PostToken sample_post])
     else (Inl (ScopeMismatch True), [PostToken sample_post, RevokeToken ''tok'']))"
proof -
  have t: "\<not> cap_lifetime d + expirySkew < time_Sub 5 1"
    using cap_lifetime_bounds(1) [of d] by (simp add: time_Sub_def expirySkew_def Minute_def Second_def min_int64_def max_int64_def)
  show ?thesis
    by (simp add: MintScoped_def Cut_def sample_mint_def sample_post_def sample_reply_def verifyReply_def sample_fold maps_Equal_def t Let_def)
qed

lemma sample_strategy: "fst (loadGitHubAppStrategy (sample_mint level) sample_mint_options ''scm'' ''o/r'') = Inr (''v'', ''v'', ())"
  by (simp add: loadGitHubAppStrategy_def Let_def read_field_def sample_mint_def TrimSpace_def is_space_def byte_of_def)

text \<open>GitHub's answer with the permission that was asked for, and with another.\<close>

lemma sample_mint_run:
  "\<exists>fs. runMint (sample_mint level) sample_mint_options =
     (if level = ''write''
      then (MintOk, map ReadField fs @ [PostToken sample_post, MintEvent True [(''contents'', ''write'')] ''o/r'' (Some 5),
        PrintToken \<lparr>mt_Token = ''tok'', mt_ExpiresAt = 5, mt_Repository = ''o/r'', mt_Permissions = [(''contents'', ''write'')]\<rparr> ''o/r''])
      else (FailedExit, map ReadField fs @ [PostToken sample_post, RevokeToken ''tok'', MintEvent False [(''contents'', ''write'')] ''o/r'' None]))"
proof -
  let ?W = "sample_mint level"
  obtain g where l: "loadGitHubAppStrategy ?W sample_mint_options ''scm'' ''o/r'' = (Inr (''v'', ''v'', ()), g)"
    using sample_strategy [of level] by (metis fst_conv surj_pair)
  obtain fs where fs: "g = map ReadField fs" using loadStrategy_reads [OF l] by blast
  have w: "mw_Template ?W = (\<lambda>_. Some (''scm'', [mintCapability]))" "mw_Env ?W = (\<lambda>_. [])" "\<not> mw_Interactive ?W"
    "mw_AuditOpens ?W" "mw_AuditReady ?W" "mw_EmitOk ?W" "mw_WriteOk ?W" by (simp_all add: sample_mint_def)
  have "runMint ?W sample_mint_options =
     (case MintScoped (mw_GitHub ?W) ''v'' ''v'' () \<lparr>mq_Repository = ''o/r'', mq_Permissions = [(''contents'', ''write'')]\<rparr>
             (MaxLifetime sample_mint_policy) of
        (Inl e, effs') \<Rightarrow> (FailedExit, g @ effs' @ [MintEvent False [(''contents'', ''write'')] ''o/r'' None])
      | (Inr tok, effs') \<Rightarrow> (MintOk, (g @ effs' @ [MintEvent True [(''contents'', ''write'')] ''o/r'' (Some (mt_ExpiresAt tok))]) @ [PrintToken tok ''o/r'']))"
    by (simp add: runMint_def sample_mint_request w sample_mint_not_agent sample_mint_config sample_mint_check l Let_def split: prod.split sum.split)
  then show ?thesis by (intro exI [of _ fs]) (simp add: sample_scoped fs)
qed



end
