(* ===== verification/Token_Broker.thy ===== *)
theory Token_Broker
  imports KL_Prelude
begin

section \<open>The token broker (\<open>internal/broker\<close>)\<close>

text \<open>
  \<open>broker.go\<close>, \<open>cache.go\<close>, \<open>revoke.go\<close>, \<open>client.go\<close>, \<open>dryrun.go\<close>, \<open>vault_lock.go\<close>: the exchange of a session for a
  short-lived token of a provider, with a bounded cache, revocation and the vault lock. Every cache method holds the
  cache's mutex and is atomic; an exchange is a sequence of such steps with a call of the provider between them, and
  exchanges, locks and revocations interleave. The order in which Go walks the cache's map is an argument. Cached and
  returned tokens are separate copies (\<open>bytes.Clone\<close>), so zeroing one leaves the other alone. No code sets an eviction
  callback. Strategies and the HMAC are parameters.
\<close>

subsection \<open>The cache\<close>

datatype exchange_type = FreshExchange | CacheHit

record cache_entry =
  ce_token :: gostring
  ce_deadline :: gotime
  ce_type :: exchange_type
  ce_age :: duration
  ce_insertedAt :: gotime

record token_cache =
  tc_entries :: "gostring \<Rightarrow> cache_entry option"
  tc_max :: int

definition DefaultMaxCacheEntries :: int where "DefaultMaxCacheEntries = 1000"

definition NewTokenCacheWithLimit :: "int \<Rightarrow> token_cache" where
  "NewTokenCacheWithLimit n = \<lparr>tc_entries = Map.empty, tc_max = (if n \<le> 0 then DefaultMaxCacheEntries else n)\<rparr>"

definition cache_evictExpired :: "gotime \<Rightarrow> token_cache \<Rightarrow> token_cache" where
  "cache_evictExpired now c = c\<lparr>tc_entries := (\<lambda>k. case tc_entries c k of None \<Rightarrow> None
     | Some e \<Rightarrow> if now > ce_deadline e then None else Some e)\<rparr>"

text \<open>The walk over the map that remembers the first entry with the least insertion time.\<close>

fun oldest_key :: "(gostring \<Rightarrow> cache_entry option) \<Rightarrow> (gostring \<times> gotime) option \<Rightarrow> gostring list \<Rightarrow> gostring option" where
  "oldest_key m best [] = map_option fst best"
| "oldest_key m best (k # ks) =
    (case m k of None \<Rightarrow> oldest_key m best ks
     | Some e \<Rightarrow>
        (case best of
           Some (_, t) \<Rightarrow> oldest_key m (if ce_insertedAt e < t then Some (k, ce_insertedAt e) else best) ks
         | None \<Rightarrow> oldest_key m (Some (k, ce_insertedAt e)) ks))"

definition evictOldestLocked :: "gostring list \<Rightarrow> token_cache \<Rightarrow> token_cache" where
  "evictOldestLocked order c =
    (case oldest_key (tc_entries c) None order of None \<Rightarrow> c
     | Some k \<Rightarrow> c\<lparr>tc_entries := (tc_entries c)(k := None)\<rparr>)"

definition cache_set :: "gotime \<Rightarrow> gostring list \<Rightarrow> gostring \<Rightarrow> cache_entry \<Rightarrow> token_cache \<Rightarrow> token_cache" where
  "cache_set now order key e0 c =
    (let e = (if ce_insertedAt e0 = zero_time then e0\<lparr>ce_insertedAt := now\<rparr> else e0) in
     if tc_entries c key \<noteq> None then c\<lparr>tc_entries := (tc_entries c)(key \<mapsto> e)\<rparr>
     else let c' = (if tc_max c > 0 \<and> int (length order) \<ge> tc_max c then evictOldestLocked order c else c)
       in c'\<lparr>tc_entries := (tc_entries c')(key \<mapsto> e)\<rparr>)"

datatype cache_read = CacheMiss | CacheExpired | CacheFound cache_entry

text \<open>\<open>get\<close> drops the read lock before it deletes an expired entry, so that deletion is a step of its own.\<close>

definition cache_get :: "gotime \<Rightarrow> gostring \<Rightarrow> token_cache \<Rightarrow> cache_read" where
  "cache_get now key c =
    (case tc_entries c key of None \<Rightarrow> CacheMiss
     | Some e \<Rightarrow> if now > ce_deadline e then CacheExpired
              else CacheFound (e\<lparr>ce_age := time_Sub now (ce_insertedAt e)\<rparr>))"

definition cache_delete :: "gostring \<Rightarrow> token_cache \<Rightarrow> token_cache" where
  "cache_delete key c = c\<lparr>tc_entries := (tc_entries c)(key := None)\<rparr>"

definition cache_flush :: "token_cache \<Rightarrow> token_cache" where
  "cache_flush c = c\<lparr>tc_entries := Map.empty\<rparr>"

definition NUL :: char where "NUL = CHR 0x00"

definition cache_deleteBySession :: "gostring \<Rightarrow> token_cache \<Rightarrow> token_cache" where
  "cache_deleteBySession s c = c\<lparr>tc_entries := (\<lambda>k. if Contains k (NUL # s @ [NUL]) then None else tc_entries c k)\<rparr>"

definition cache_size :: "gotime \<Rightarrow> gostring list \<Rightarrow> token_cache \<Rightarrow> nat" where
  "cache_size now order c =
    length (filter (\<lambda>k. case tc_entries c k of None \<Rightarrow> False | Some e \<Rightarrow> \<not> now > ce_deadline e) order)"

subsection \<open>Keys and identifiers\<close>

record exchange_call =
  xc_actor :: gostring
  xc_session :: gostring
  xc_provider :: gostring
  xc_capability :: gostring
  xc_namespace :: gostring

definition cacheKey :: "exchange_call \<Rightarrow> gostring" where
  "cacheKey c = Join [xc_provider c, xc_capability c, xc_actor c, xc_session c, xc_namespace c] [NUL]"

definition extractProviderFromKey :: "gostring \<Rightarrow> gostring" where
  "extractProviderFromKey key = takeWhile (\<lambda>b. b \<noteq> NUL) key"

fun splitKey_aux :: "gostring \<Rightarrow> gostring \<Rightarrow> gostring list" where
  "splitKey_aux acc [] = [acc]"
| "splitKey_aux acc (b # s) = (if b = NUL then acc # splitKey_aux [] s else splitKey_aux (acc @ [b]) s)"

definition splitKey :: "gostring \<Rightarrow> gostring list" where "splitKey key = splitKey_aux [] key"

definition extractActorFromKey :: "gostring \<Rightarrow> gostring" where
  "extractActorFromKey key = (let parts = splitKey key in if length parts \<ge> 3 then parts ! 2 else [])"

text \<open>The fixed part of a broker: the HMAC (64 hexadecimal digits) with its key, and the strategies by provider with the
  name each gives itself.\<close>

record broker_config =
  bk_hex :: "gostring \<Rightarrow> gostring \<Rightarrow> gostring"
  bk_hmacKey :: gostring
  bk_strategies :: "gostring \<Rightarrow> gostring option"

definition hashID :: "broker_config \<Rightarrow> gostring \<Rightarrow> gostring" where
  "hashID B i = (if bk_hmacKey B = [] then ''no-hmac-key'' else take 32 (bk_hex B (bk_hmacKey B) i))"

text \<open>The slice expression \<open>[:12]\<close> panics on a shorter string; \<open>None\<close> is the panic.\<close>

definition deriveScopedTokenID :: "broker_config \<Rightarrow> gostring \<Rightarrow> gostring option" where
  "deriveScopedTokenID B key = (let h = hashID B key in if length h < 12 then None else Some (take 12 h))"

subsection \<open>Exchanges\<close>

record exchange_result =
  er_Provider :: gostring
  er_Capability :: gostring
  er_CacheAge :: duration
  er_TTLRemaining :: duration
  er_Type :: exchange_type
  er_token :: gostring

datatype exchange_error =
    ErrVaultLocked | ErrUnsupportedExchange | ErrAuditFailed | StrategyFails gostring | ErrTokenNotFound
  | ErrProviderNoBrokerConfig | ErrBrokerOutOfProcess

datatype broker_event =
    ExchangeEvent gostring gostring gostring gostring gostring gostring int
  | CacheHitEvent gostring gostring gostring gostring int int
  | RevokedEvent gostring gostring gostring
  | DryRunEvent gostring gostring nat

record token_broker =
  tb_cache :: token_cache
  tb_locked :: bool
  tb_audited :: bool
  tb_events :: "broker_event list"

text \<open>\<open>NewBroker\<close>; \<open>audited\<close> says whether there is an emitter.\<close>

definition NewBroker :: "bool \<Rightarrow> token_broker" where
  "NewBroker audited = \<lparr>tb_cache = NewTokenCacheWithLimit DefaultMaxCacheEntries, tb_locked = False,
     tb_audited = audited, tb_events = []\<rparr>"

text \<open>What one step of an exchange meets: the clock (twice, when it is read twice), the readiness of the audit log, the
  result of the strategy, the order of the map and whether the event is written.\<close>

record exchange_env =
  xe_now :: gotime
  xe_later :: gotime
  xe_ready :: bool
  xe_strategy :: "gostring + exchange_result"
  xe_order :: "gostring list"
  xe_emit :: bool

definition duration_seconds :: "duration \<Rightarrow> int" where
  "duration_seconds d = (if d < 0 then - (- d div Second) else d div Second)"

definition exchange_event :: "broker_config \<Rightarrow> exchange_call \<Rightarrow> gostring \<Rightarrow> exchange_result \<Rightarrow> broker_event" where
  "exchange_event B c strategy r =
    ExchangeEvent (xc_provider c) strategy (hashID B (xc_actor c)) (hashID B (xc_session c)) (xc_namespace c)
      (xc_capability c) (duration_seconds (er_TTLRemaining r))"

definition emit :: "bool \<Rightarrow> broker_event \<Rightarrow> token_broker \<Rightarrow> bool \<times> token_broker" where
  "emit ok ev b = (if tb_audited b \<and> ok then (True, b\<lparr>tb_events := tb_events b @ [ev]\<rparr>) else (False, b))"

datatype exchange_pc =
    XLock | XReady | XCache | XDelete | XStrategy | XSet exchange_result | XEmit exchange_result
  | XHit cache_entry | XDone "exchange_error + exchange_result"

fun exchange_step ::
  "broker_config \<Rightarrow> exchange_env \<Rightarrow> exchange_call \<Rightarrow> exchange_pc \<Rightarrow> token_broker \<Rightarrow> exchange_pc \<times> token_broker" where
  "exchange_step B E c XLock b = (if tb_locked b then XDone (Inl ErrVaultLocked) else XReady, b)"
| "exchange_step B E c XReady b = (if \<not> (tb_audited b \<and> xe_ready E) then XDone (Inl ErrAuditFailed) else XCache, b)"
| "exchange_step B E c XCache b =
    (case cache_get (xe_now E) (cacheKey c) (tb_cache b) of CacheFound e \<Rightarrow> XHit e | CacheExpired \<Rightarrow> XDelete | CacheMiss \<Rightarrow> XStrategy, b)"
| "exchange_step B E c XDelete b = (XStrategy, b\<lparr>tb_cache := cache_delete (cacheKey c) (tb_cache b)\<rparr>)"
| "exchange_step B E c XStrategy b =
    (case bk_strategies B (xc_provider c) of None \<Rightarrow> XDone (Inl ErrUnsupportedExchange)
     | Some _ \<Rightarrow>
        (case xe_strategy E of Inl e \<Rightarrow> XDone (Inl (StrategyFails e))
         | Inr r \<Rightarrow> XSet (r\<lparr>er_Provider := xc_provider c, er_Capability := xc_capability c, er_Type := FreshExchange\<rparr>)), b)"
| "exchange_step B E c (XSet r) b =
    (XEmit r, b\<lparr>tb_cache := cache_set (xe_later E) (xe_order E) (cacheKey c)
       \<lparr>ce_token = er_token r, ce_deadline = xe_now E + er_TTLRemaining r, ce_type = FreshExchange, ce_age = 0,
        ce_insertedAt = zero_time\<rparr> (tb_cache b)\<rparr>)"
| "exchange_step B E c (XEmit r) b =
    (case emit (xe_emit E) (exchange_event B c (the (bk_strategies B (xc_provider c))) r) b of
       (True, b') \<Rightarrow> (XDone (Inr r), b') | (False, b') \<Rightarrow> (XDone (Inl ErrAuditFailed), b'))"
| "exchange_step B E c (XHit e) b =
    (case emit (xe_emit E) (CacheHitEvent (xc_provider c) (hashID B (xc_actor c)) (hashID B (xc_session c)) (xc_capability c)
         (duration_seconds (ce_age e)) (duration_seconds (time_Sub (ce_deadline e) (xe_later E)))) b of
       (True, b') \<Rightarrow>
         (XDone (Inr \<lparr>er_Provider = xc_provider c, er_Capability = xc_capability c, er_CacheAge = ce_age e,
            er_TTLRemaining = time_Sub (ce_deadline e) (xe_now E), er_Type = CacheHit, er_token = ce_token e\<rparr>), b')
     | (False, b') \<Rightarrow> (XDone (Inl ErrAuditFailed), b'))"
| "exchange_step B E c (XDone r) b = (XDone r, b)"

text \<open>An exchange that nothing interrupts: seven steps are enough, since each step moves on.\<close>

definition broker_Exchange_alone ::
  "broker_config \<Rightarrow> exchange_env \<Rightarrow> exchange_call \<Rightarrow> token_broker \<Rightarrow> exchange_pc \<times> token_broker" where
  "broker_Exchange_alone B E c b = ((\<lambda>(pc, b). exchange_step B E c pc b) ^^ 7) (XLock, b)"

definition broker_Revoke_session :: "gostring \<Rightarrow> token_broker \<Rightarrow> token_broker" where
  "broker_Revoke_session s b = b\<lparr>tb_cache := cache_deleteBySession s (tb_cache b)\<rparr>"

text \<open>\<open>OnVaultLock\<close> in its two steps, and the unlock.\<close>

definition broker_lock_flag :: "token_broker \<Rightarrow> token_broker" where "broker_lock_flag b = b\<lparr>tb_locked := True\<rparr>"
definition broker_lock_flush :: "token_broker \<Rightarrow> token_broker" where "broker_lock_flush b = b\<lparr>tb_cache := cache_flush (tb_cache b)\<rparr>"
definition broker_unlock :: "token_broker \<Rightarrow> token_broker" where "broker_unlock b = b\<lparr>tb_locked := False\<rparr>"

subsection \<open>The handle of the command line\<close>

record token_grant =
  tg_Provider :: gostring
  tg_ActorHMAC :: gostring
  tg_ScopedTokenID :: gostring
  tg_ExpiresAt :: gotime
  tg_InsertedAt :: gotime

definition live_entry :: "gotime \<Rightarrow> token_cache \<Rightarrow> gostring \<Rightarrow> cache_entry option" where
  "live_entry now c k = (case tc_entries c k of None \<Rightarrow> None | Some e \<Rightarrow> if now > ce_deadline e then None else Some e)"

text \<open>\<open>ListGrants\<close>; \<open>None\<close> when an identifier panics.\<close>

fun ListGrants :: "broker_config \<Rightarrow> gotime \<Rightarrow> token_cache \<Rightarrow> gostring list \<Rightarrow> token_grant list option" where
  "ListGrants B now c [] = Some []"
| "ListGrants B now c (k # ks) =
    (case live_entry now c k of None \<Rightarrow> ListGrants B now c ks
     | Some e \<Rightarrow>
        (case deriveScopedTokenID B k of None \<Rightarrow> None
         | Some i \<Rightarrow>
             map_option ((#) \<lparr>tg_Provider = extractProviderFromKey k, tg_ActorHMAC = hashID B (extractActorFromKey k),
                 tg_ScopedTokenID = i, tg_ExpiresAt = ce_deadline e, tg_InsertedAt = ce_insertedAt e\<rparr>)
               (ListGrants B now c ks)))"

text \<open>The search of \<open>revokeByTokenID\<close>: a panic, no match or the key.\<close>

fun find_token :: "broker_config \<Rightarrow> gotime \<Rightarrow> token_cache \<Rightarrow> gostring \<Rightarrow> gostring list \<Rightarrow> gostring option option" where
  "find_token B now c tid [] = Some None"
| "find_token B now c tid (k # ks) =
    (if live_entry now c k = None then find_token B now c tid ks
     else (case deriveScopedTokenID B k of None \<Rightarrow> None
           | Some i \<Rightarrow> if i = tid then Some (Some k) else find_token B now c tid ks))"

text \<open>An empty key is treated as no match. The event is best effort.\<close>

definition revokeByTokenID ::
  "broker_config \<Rightarrow> gotime \<Rightarrow> gostring list \<Rightarrow> bool \<Rightarrow> gostring \<Rightarrow> token_broker \<Rightarrow> (exchange_error option \<times> token_broker) option" where
  "revokeByTokenID B now order ok tid b =
    (case find_token B now (tb_cache b) tid order of None \<Rightarrow> None
     | Some None \<Rightarrow> Some (Some ErrTokenNotFound, b)
     | Some (Some k) \<Rightarrow>
         if k = [] then Some (Some ErrTokenNotFound, b)
         else
           (let parts = splitKey k;
                provider = (if length parts \<ge> 1 then parts ! 0 else []);
                actor = (if length parts \<ge> 3 then parts ! 2 else []);
                b' = b\<lparr>tb_cache := cache_delete k (tb_cache b)\<rparr> in
            Some (None, snd (emit ok (RevokedEvent tid provider (hashID B actor)) b'))))"

text \<open>\<open>revokeAllForActor\<close>: a listing, then one revocation after another; the map may be walked in another order, at
  another time and with another state each time. Here nothing else runs in between.\<close>

fun revoke_each ::
  "broker_config \<Rightarrow> (token_broker \<Rightarrow> gotime \<times> gostring list \<times> bool) \<Rightarrow> gostring list \<Rightarrow> token_broker \<Rightarrow> (nat \<times> token_broker) option" where
  "revoke_each B E [] b = Some (0, b)"
| "revoke_each B E (t # ts) b =
    (case E b of (now, order, ok) \<Rightarrow>
       (case revokeByTokenID B now order ok t b of None \<Rightarrow> None
        | Some (None, b') \<Rightarrow> map_option (\<lambda>(n, b''). (Suc n, b'')) (revoke_each B E ts b')
        | Some (Some _, b') \<Rightarrow> revoke_each B E ts b'))"

definition revokeAllForActor ::
  "broker_config \<Rightarrow> (token_broker \<Rightarrow> gotime \<times> gostring list \<times> bool) \<Rightarrow> gostring \<Rightarrow> token_broker \<Rightarrow> (nat \<times> token_broker) option" where
  "revokeAllForActor B E actor b =
    (case E b of (now, order, _) \<Rightarrow>
       (case ListGrants B now (tb_cache b) order of None \<Rightarrow> None
        | Some gs \<Rightarrow>
            revoke_each B E (map tg_ScopedTokenID
              (if actor = [] then gs else filter (\<lambda>g. tg_ActorHMAC g = hashID B actor) gs)) b))"

text \<open>\<open>strings.LastIndexAny(action, "/\\")\<close> and the cut behind it.\<close>

definition strip_path :: "gostring \<Rightarrow> gostring" where
  "strip_path s = rev (takeWhile (\<lambda>b. b \<noteq> CHR ''/'' \<and> b \<noteq> CHR 0x5C) (rev s))"

definition deriveScopesFromCommand :: "gostring \<Rightarrow> gostring \<Rightarrow> gostring list" where
  "deriveScopesFromCommand provider command =
    (case Fields command of [] \<Rightarrow> [provider @ ''.*'']
     | a # _ \<Rightarrow> [provider @ ''.'' @ TrimSuffix (TrimSuffix (ToLower (strip_path a)) ''.exe'') ''.sh''])"

record dry_run_result =
  dr_Provider :: gostring
  dr_Scopes :: "gostring list"
  dr_TTL :: duration
  dr_Decision :: gostring
  dr_Reason :: gostring

definition dryRunExchange ::
  "broker_config \<Rightarrow> bool \<Rightarrow> gostring \<Rightarrow> gostring \<Rightarrow> token_broker \<Rightarrow> (exchange_error + dry_run_result) \<times> token_broker" where
  "dryRunExchange B ok provider command b =
    (if bk_strategies B provider = None then (Inl ErrProviderNoBrokerConfig, b)
     else
       (let scopes = deriveScopesFromCommand provider command in
        (Inr \<lparr>dr_Provider = provider, dr_Scopes = scopes, dr_TTL = Hour, dr_Decision = ''allow'',
           dr_Reason = ''no policy restrictions configured''\<rparr>,
         snd (emit ok (DryRunEvent provider command (length scopes)) b))))"

text \<open>\<open>NewBrokerHandle\<close>: the handle's own broker, else the last one constructed in the process, else none. Every method of
  a handle without a broker fails.\<close>

definition NewBrokerHandle :: "'b option \<Rightarrow> 'b option \<Rightarrow> exchange_error + 'b" where
  "NewBrokerHandle own current =
    (case own of Some b \<Rightarrow> Inr b | None \<Rightarrow> (case current of Some b \<Rightarrow> Inr b | None \<Rightarrow> Inl ErrBrokerOutOfProcess))"

end
