(* ===== verification/Token_Broker_Facts.thy ===== *)
theory Token_Broker_Facts
  imports Token_Broker
begin

section \<open>Exchanges, locks and revocations interleaved\<close>

text \<open>
  Goroutines that exchange are kept with the step each has reached. The set of issued tokens is a ghost: it records for
  which call a strategy gave which token. Callers whose fields hold no NUL byte are assumed, as the code does.
\<close>

subsection \<open>Keys\<close>

definition plain_call :: "exchange_call \<Rightarrow> bool" where
  "plain_call c = (NUL \<notin> set (xc_provider c) \<and> NUL \<notin> set (xc_capability c) \<and> NUL \<notin> set (xc_actor c) \<and>
     NUL \<notin> set (xc_session c) \<and> NUL \<notin> set (xc_namespace c))"

lemma splitKey_aux_plain: "NUL \<notin> set x \<Longrightarrow> splitKey_aux acc x = [acc @ x]"
  by (induction x arbitrary: acc) auto

lemma splitKey_aux_NUL: "NUL \<notin> set x \<Longrightarrow> splitKey_aux acc (x @ NUL # r) = (acc @ x) # splitKey_aux [] r"
  by (induction x arbitrary: acc) auto

lemma splitKey_cacheKey:
  "plain_call c \<Longrightarrow> splitKey (cacheKey c) = [xc_provider c, xc_capability c, xc_actor c, xc_session c, xc_namespace c]"
  by (simp add: plain_call_def splitKey_def cacheKey_def splitKey_aux_plain splitKey_aux_NUL)

lemma cacheKey_inject: "plain_call c \<Longrightarrow> plain_call d \<Longrightarrow> cacheKey c = cacheKey d \<longleftrightarrow> c = d"
  by (auto dest: arg_cong [of _ _ splitKey] simp: splitKey_cacheKey)

lemma extract_cacheKey:
  assumes "plain_call c"
  shows "extractProviderFromKey (cacheKey c) = xc_provider c" "extractActorFromKey (cacheKey c) = xc_actor c"
proof -
  have "\<forall>b \<in> set (xc_provider c). b \<noteq> NUL" using assms by (auto simp: plain_call_def)
  then show "extractProviderFromKey (cacheKey c) = xc_provider c" by (simp add: extractProviderFromKey_def cacheKey_def)
  show "extractActorFromKey (cacheKey c) = xc_actor c"
    by (simp add: extractActorFromKey_def splitKey_cacheKey [OF assms])
qed

lemma cacheKey_not_Nil [simp]: "cacheKey c \<noteq> []"
  by (simp add: cacheKey_def)

text \<open>A marked identifier in a sequence of fields.\<close>

lemma marker_head:
  assumes "NUL \<notin> set p"
  shows "sublist (NUL # x @ [NUL]) (p @ NUL # r) \<longleftrightarrow> prefix (x @ [NUL]) r \<or> sublist (NUL # x @ [NUL]) r"
  using assms by (induction p) (auto simp: sublist_Cons_right)

lemma marker_none: "NUL \<notin> set p \<Longrightarrow> \<not> sublist (NUL # x @ [NUL]) p"
  by (metis in_set_conv_decomp list.set_intros(1) set_mono_sublist subset_iff)

lemma marked_field: "NUL \<notin> set p \<Longrightarrow> NUL \<notin> set x \<Longrightarrow> prefix (x @ [NUL]) (p @ NUL # r) \<longleftrightarrow> x = p"
proof (induction x arbitrary: p)
  case Nil
  then show ?case by (cases p) auto
next
  case (Cons a x)
  then show ?case by (cases p) auto
qed

lemma marked_last: "NUL \<notin> set p \<Longrightarrow> \<not> prefix (x @ [NUL]) p"
  by (auto simp: prefix_def)

text \<open>Revoking a session removes the tokens of its calls, and those whose actor or capability has the same name.\<close>

theorem revoke_session_exact:
  assumes "plain_call c" and "NUL \<notin> set s"
  shows "tc_entries (cache_deleteBySession s m) (cacheKey c) =
    (if s \<in> {xc_session c, xc_actor c, xc_capability c} then None else tc_entries m (cacheKey c))"
proof -
  have "Contains (cacheKey c) (NUL # s @ [NUL]) \<longleftrightarrow> s \<in> {xc_capability c, xc_actor c, xc_session c}"
    using assms by (auto simp: cacheKey_def plain_call_def Contains_iff_sublist marker_head marker_none marked_field marked_last)
  then show ?thesis by (auto simp: cache_deleteBySession_def)
qed

subsection \<open>The interleaving\<close>

record broker_system =
  bs_broker :: token_broker
  bs_pool :: "nat \<Rightarrow> (exchange_call \<times> exchange_pc) option"
  bs_pending :: bool
  bs_issued :: "(exchange_call \<times> gostring) set"

datatype broker_label =
    LCall nat exchange_call | LRun nat | LLockFlag | LLockFlush | LUnlock | LRevoke gostring | LRevokeToken gostring | LEvict gotime

abbreviation bs_entries :: "broker_system \<Rightarrow> gostring \<Rightarrow> cache_entry option" where
  "bs_entries s \<equiv> tc_entries (tb_cache (bs_broker s))"

definition order_ok :: "gostring list \<Rightarrow> token_cache \<Rightarrow> bool" where
  "order_ok order c = (distinct order \<and> set order = dom (tc_entries c))"

definition newly_issued :: "broker_config \<Rightarrow> exchange_env \<Rightarrow> exchange_call \<Rightarrow> exchange_pc \<Rightarrow> (exchange_call \<times> gostring) set" where
  "newly_issued B E c pc =
    (if pc = XStrategy \<and> bk_strategies B (xc_provider c) \<noteq> None
     then (case xe_strategy E of Inr r \<Rightarrow> {(c, er_token r)} | Inl _ \<Rightarrow> {}) else {})"

inductive tb_step :: "broker_config \<Rightarrow> broker_label \<Rightarrow> broker_system \<Rightarrow> broker_system \<Rightarrow> bool" for B where
  tb_call: "bs_pool s i = None \<Longrightarrow> plain_call c \<Longrightarrow> tb_step B (LCall i c) s (s\<lparr>bs_pool := (bs_pool s)(i \<mapsto> (c, XLock))\<rparr>)"
| tb_exchange: "bs_pool s i = Some (c, pc) \<Longrightarrow> order_ok (xe_order E) (tb_cache (bs_broker s)) \<Longrightarrow>
    exchange_step B E c pc (bs_broker s) = (pc', b') \<Longrightarrow>
    tb_step B (LRun i) s (s\<lparr>bs_broker := b', bs_pool := (bs_pool s)(i \<mapsto> (c, pc')), bs_issued := bs_issued s \<union> newly_issued B E c pc\<rparr>)"
| tb_flag: "tb_step B LLockFlag s (s\<lparr>bs_broker := broker_lock_flag (bs_broker s), bs_pending := True\<rparr>)"
| tb_flush: "bs_pending s \<Longrightarrow> tb_step B LLockFlush s (s\<lparr>bs_broker := broker_lock_flush (bs_broker s), bs_pending := False\<rparr>)"
| tb_unlock: "tb_step B LUnlock s (s\<lparr>bs_broker := broker_unlock (bs_broker s)\<rparr>)"
| tb_revoke: "tb_step B (LRevoke x) s (s\<lparr>bs_broker := broker_Revoke_session x (bs_broker s)\<rparr>)"
| tb_revoke_token: "order_ok order (tb_cache (bs_broker s)) \<Longrightarrow>
    revokeByTokenID B now order ok tid (bs_broker s) = Some (e, b') \<Longrightarrow> tb_step B (LRevokeToken tid) s (s\<lparr>bs_broker := b'\<rparr>)"
| tb_evict: "tb_step B (LEvict now) s
    (s\<lparr>bs_broker := (bs_broker s)\<lparr>tb_cache := cache_evictExpired now (tb_cache (bs_broker s))\<rparr>\<rparr>)"

inductive tb_run :: "broker_config \<Rightarrow> broker_system \<Rightarrow> broker_label list \<Rightarrow> broker_system \<Rightarrow> bool" for B where
  tb_start: "tb_run B s [] s"
| tb_next: "tb_run B s ls s' \<Longrightarrow> tb_step B l s' s'' \<Longrightarrow> tb_run B s (ls @ [l]) s''"

definition fresh_system :: "bool \<Rightarrow> broker_system" where
  "fresh_system audited = \<lparr>bs_broker = NewBroker audited, bs_pool = Map.empty, bs_pending = False, bs_issued = {}\<rparr>"

subsection \<open>What the cache can hold\<close>

lemma oldest_key_in: "oldest_key m best ks = Some k \<Longrightarrow> pred_option (\<lambda>x. fst x \<in> dom m) best \<Longrightarrow> k \<in> dom m"
proof (induction ks arbitrary: best)
  case (Cons a ks)
  show ?case
  proof (cases "m a")
    case None
    then show ?thesis using Cons.prems by (intro Cons.IH [of best]) simp_all
  next
    case (Some e)
    then show ?thesis using Cons.prems
      by (cases best) (auto dest!: Cons.IH split: if_splits)
  qed
qed auto

lemma oldest_key_best: "best \<noteq> None \<Longrightarrow> oldest_key m best ks \<noteq> None"
  by (induction ks arbitrary: best) (auto split: option.splits)

lemma oldest_key_exists: "k \<in> set ks \<Longrightarrow> k \<in> dom m \<Longrightarrow> oldest_key m None ks \<noteq> None"
proof (induction ks)
  case (Cons a ks)
  then show ?case by (cases "m a") (auto intro: oldest_key_best [unfolded not_None_eq] split: option.split)
qed simp

definition cache_bounded :: "token_cache \<Rightarrow> bool" where
  "cache_bounded c = (finite (dom (tc_entries c)) \<and> int (card (dom (tc_entries c))) \<le> tc_max c \<and> tc_max c = DefaultMaxCacheEntries)"

lemma cache_bounded_shrinks:
  assumes "cache_bounded c" "dom (tc_entries c') \<subseteq> dom (tc_entries c)" "tc_max c' = tc_max c"
  shows "cache_bounded c'"
  using assms card_mono [OF _ assms(2)] finite_subset [OF assms(2)] by (auto simp: cache_bounded_def)

lemma cache_set_entries:
  "tc_entries (cache_set now order key e c) k = Some e' \<Longrightarrow> (k = key \<and> ce_token e' = ce_token e) \<or> tc_entries c k = Some e'"
  by (auto simp: cache_set_def evictOldestLocked_def Let_def split: if_splits option.splits)

lemma cache_set_max [simp]: "tc_max (cache_set now order key e c) = tc_max c"
  by (auto simp: cache_set_def evictOldestLocked_def Let_def split: option.splits)

lemma cache_bounded_set:
  assumes b: "cache_bounded c" and o: "order_ok order c"
  shows "cache_bounded (cache_set now order key e c)"
proof -
  let ?D = "dom (tc_entries c)"
  have len: "length order = card ?D" using o distinct_card [of order] by (auto simp: order_ok_def)
  have fin: "finite ?D" using b by (simp add: cache_bounded_def)
  consider (old) "key \<in> ?D" | (room) "key \<notin> ?D" "int (card ?D) < tc_max c" | (full) "key \<notin> ?D" "int (card ?D) = tc_max c"
    using b by (fastforce simp: cache_bounded_def)
  then show ?thesis
  proof cases
    case old
    then have "dom (tc_entries (cache_set now order key e c)) = ?D" by (auto simp: cache_set_def Let_def domD)
    then show ?thesis using b by (simp add: cache_bounded_def)
  next
    case room
    then have "dom (tc_entries (cache_set now order key e c)) = insert key ?D"
      using len by (auto simp: cache_set_def Let_def domIff)
    then show ?thesis using b room fin by (simp add: cache_bounded_def)
  next
    case full
    then have pos: "0 < card ?D" using b by (simp add: cache_bounded_def DefaultMaxCacheEntries_def)
    then obtain a where "a \<in> ?D" using card_gt_0_iff by fastforce
    then obtain k where k: "oldest_key (tc_entries c) None order = Some k"
      using oldest_key_exists [of a order "tc_entries c"] o by (auto simp: order_ok_def)
    then have kd: "k \<in> ?D" using oldest_key_in by fastforce
    have "dom (tc_entries (cache_set now order key e c)) = insert key (?D - {k})"
      using full len k pos by (auto simp: cache_set_def evictOldestLocked_def Let_def domIff)
    moreover have "card (insert key (?D - {k})) = card ?D" using full kd fin pos by (simp add: card_Suc_Diff1)
    ultimately show ?thesis using b fin by (simp add: cache_bounded_def)
  qed
qed

subsection \<open>Tokens stay with the call they were issued for\<close>

fun held_token :: "exchange_pc \<Rightarrow> gostring option" where
  "held_token (XSet r) = Some (er_token r)"
| "held_token (XEmit r) = Some (er_token r)"
| "held_token (XHit e) = Some (ce_token e)"
| "held_token (XDone (Inr r)) = Some (er_token r)"
| "held_token pc = None"

fun labelled_for :: "exchange_call \<Rightarrow> exchange_pc \<Rightarrow> bool" where
  "labelled_for c (XSet r) = (er_Provider r = xc_provider c \<and> er_Capability r = xc_capability c)"
| "labelled_for c (XEmit r) = (er_Provider r = xc_provider c \<and> er_Capability r = xc_capability c)"
| "labelled_for c (XDone (Inr r)) = (er_Provider r = xc_provider c \<and> er_Capability r = xc_capability c)"
| "labelled_for c pc = True"

fun event_for :: "broker_config \<Rightarrow> exchange_call \<Rightarrow> broker_event \<Rightarrow> bool" where
  "event_for B c (ExchangeEvent p _ a s n cap _) = (p = xc_provider c \<and> a = hashID B (xc_actor c) \<and> s = hashID B (xc_session c) \<and>
     n = xc_namespace c \<and> cap = xc_capability c)"
| "event_for B c (CacheHitEvent p a s cap _ _) = (p = xc_provider c \<and> a = hashID B (xc_actor c) \<and> s = hashID B (xc_session c) \<and>
     cap = xc_capability c)"
| "event_for B c _ = False"

definition entries_issued :: "broker_system \<Rightarrow> bool" where
  "entries_issued s = (\<forall>k e. bs_entries s k = Some e \<longrightarrow> (\<exists>c. plain_call c \<and> k = cacheKey c \<and> (c, ce_token e) \<in> bs_issued s))"

definition call_sound :: "broker_config \<Rightarrow> broker_system \<Rightarrow> exchange_call \<Rightarrow> exchange_pc \<Rightarrow> bool" where
  "call_sound B s c pc = (plain_call c \<and> labelled_for c pc \<and> (\<forall>t. held_token pc = Some t \<longrightarrow> (c, t) \<in> bs_issued s) \<and>
     (\<forall>r. pc = XDone (Inr r) \<longrightarrow> (\<exists>ev \<in> set (tb_events (bs_broker s)). event_for B c ev)))"

definition isolated :: "broker_config \<Rightarrow> broker_system \<Rightarrow> bool" where
  "isolated B s = (entries_issued s \<and> (\<forall>i c pc. bs_pool s i = Some (c, pc) \<longrightarrow> call_sound B s c pc) \<and>
     cache_bounded (tb_cache (bs_broker s)))"

text \<open>A step that only removes entries, and keeps the pool and the events.\<close>

lemma isolated_shrinks:
  assumes "isolated B s" "\<And>k e. tc_entries (tb_cache b) k = Some e \<Longrightarrow> bs_entries s k = Some e"
    "tc_max (tb_cache b) = tc_max (tb_cache (bs_broker s))" "set (tb_events (bs_broker s)) \<subseteq> set (tb_events b)"
  shows "isolated B (s\<lparr>bs_broker := b, bs_pending := p\<rparr>)" "isolated B (s\<lparr>bs_broker := b\<rparr>)"
proof -
  have "dom (tc_entries (tb_cache b)) \<subseteq> dom (bs_entries s)" using assms(2) by auto
  with assms(1,3) have "cache_bounded (tb_cache b)" by (auto intro: cache_bounded_shrinks simp: isolated_def)
  moreover have "entries_issued (s\<lparr>bs_broker := b, bs_pending := p\<rparr>)" "entries_issued (s\<lparr>bs_broker := b\<rparr>)"
    using assms(1) by (auto simp: isolated_def entries_issued_def dest!: assms(2))
  moreover have "call_sound B s c pc \<Longrightarrow> call_sound B (s\<lparr>bs_broker := b, bs_pending := p\<rparr>) c pc"
    "call_sound B s c pc \<Longrightarrow> call_sound B (s\<lparr>bs_broker := b\<rparr>) c pc" for c pc
    using assms(4) by (auto simp: call_sound_def)
  ultimately show "isolated B (s\<lparr>bs_broker := b, bs_pending := p\<rparr>)" "isolated B (s\<lparr>bs_broker := b\<rparr>)"
    using assms(1) by (simp_all add: isolated_def)
qed

lemma deleted_entries [simp]:
  "tc_entries (cache_delete k c) k' = Some e \<longleftrightarrow> k' \<noteq> k \<and> tc_entries c k' = Some e"
  "tc_entries (cache_flush c) k' = None" "tc_max (cache_delete k c) = tc_max c" "tc_max (cache_flush c) = tc_max c"
  by (auto simp: cache_delete_def cache_flush_def)

lemma emit_cases: "emit ok ev b = (r, b') \<Longrightarrow> (r = True \<and> b' = b\<lparr>tb_events := tb_events b @ [ev]\<rparr>) \<or> (r = False \<and> b' = b)"
  by (auto simp: emit_def split: if_splits)

text \<open>What a step of an exchange does to the cache, the events and the call itself.\<close>

lemma exchange_step_entries:
  assumes "exchange_step B E c pc b = (pc', b')" "tc_entries (tb_cache b') k = Some e"
  shows "tc_entries (tb_cache b) k = Some e \<or> (k = cacheKey c \<and> held_token pc = Some (ce_token e))"
  using assms
  by (cases pc) (auto split: if_splits option.splits sum.splits prod.splits bool.splits dest!: emit_cases cache_set_entries)

lemma exchange_step_events:
  "exchange_step B E c pc b = (pc', b') \<Longrightarrow> set (tb_events b) \<subseteq> set (tb_events b')"
  by (cases pc) (auto split: if_splits option.splits sum.splits prod.splits bool.splits dest!: emit_cases)

lemma exchange_step_bounded:
  assumes "exchange_step B E c pc b = (pc', b')" "cache_bounded (tb_cache b)" "order_ok (xe_order E) (tb_cache b)"
  shows "cache_bounded (tb_cache b')"
proof (cases "\<exists>r. pc = XSet r")
  case True
  then show ?thesis using assms cache_bounded_set [OF assms(2,3)] by auto
next
  case False
  have "dom (tc_entries (tb_cache b')) \<subseteq> dom (tc_entries (tb_cache b)) \<and> tc_max (tb_cache b') = tc_max (tb_cache b)"
    using assms(1) False
    by (cases pc) (auto split: if_splits option.splits sum.splits prod.splits bool.splits dest!: emit_cases)
  then show ?thesis using cache_bounded_shrinks assms(2) by blast
qed

lemma exchange_step_call:
  assumes "exchange_step B E c pc b = (pc', b')" "bs_broker s = b" "entries_issued s" "call_sound B s c pc"
  shows "call_sound B (s\<lparr>bs_broker := b', bs_pool := P, bs_issued := bs_issued s \<union> newly_issued B E c pc\<rparr>) c pc'"
proof -
  have hit: "(c, ce_token e) \<in> bs_issued s" if h: "cache_get now (cacheKey c) (tb_cache (bs_broker s)) = CacheFound e" for now e
  proof -
    obtain e' where "bs_entries s (cacheKey c) = Some e'" "ce_token e = ce_token e'"
      using h assms(2) by (auto simp: cache_get_def split: option.splits if_splits)
    moreover then obtain c' where "plain_call c'" "cacheKey c = cacheKey c'" "(c', ce_token e') \<in> bs_issued s"
      using assms(3) by (auto simp: entries_issued_def)
    ultimately show ?thesis using assms(4) by (simp add: call_sound_def cacheKey_inject)
  qed
  show ?thesis using assms
    by (cases pc)
      (auto simp: call_sound_def newly_issued_def exchange_event_def split: if_splits option.splits sum.splits prod.splits bool.splits
        cache_read.splits dest!: emit_cases dest: hit)
qed

lemma call_sound_mono:
  assumes "call_sound B s c pc" "bs_issued s \<subseteq> bs_issued s'" "set (tb_events (bs_broker s)) \<subseteq> set (tb_events (bs_broker s'))"
  shows "call_sound B s' c pc"
  using assms by (auto simp: call_sound_def)

lemma find_token_in: "find_token B now c tid ks = Some (Some k) \<Longrightarrow> k \<in> set ks \<and> live_entry now c k \<noteq> None"
  by (induction ks) (auto split: if_splits option.splits)

lemma revokeByTokenID_frame:
  assumes "revokeByTokenID B now order ok tid b = Some (e, b')"
  shows "tc_entries (tb_cache b') k = Some x \<Longrightarrow> tc_entries (tb_cache b) k = Some x" "tc_max (tb_cache b') = tc_max (tb_cache b)"
    "set (tb_events b) \<subseteq> set (tb_events b')" "tb_locked b' = tb_locked b"
  using assms by (auto simp: revokeByTokenID_def emit_def Let_def split: option.splits if_splits)

lemma isolated_step: "tb_step B l s s' \<Longrightarrow> isolated B s \<Longrightarrow> isolated B s'"
proof (induction rule: tb_step.induct)
  case (tb_call s i c)
  then show ?case by (auto simp: isolated_def entries_issued_def call_sound_def)
next
  case (tb_exchange s i c pc E pc' b')
  let ?s = "s\<lparr>bs_broker := b', bs_pool := (bs_pool s)(i \<mapsto> (c, pc')), bs_issued := bs_issued s \<union> newly_issued B E c pc\<rparr>"
  from tb_exchange.prems have e: "entries_issued s" and b: "cache_bounded (tb_cache (bs_broker s))"
    and c: "\<And>i c pc. bs_pool s i = Some (c, pc) \<Longrightarrow> call_sound B s c pc" by (auto simp: isolated_def)
  note this = c [OF tb_exchange.hyps(1)]
  have "entries_issued ?s"
    unfolding entries_issued_def
  proof (intro allI impI)
    fix k x assume "bs_entries ?s k = Some x"
    then have "tc_entries (tb_cache b') k = Some x" by simp
    from exchange_step_entries [OF tb_exchange.hyps(3) this] show "\<exists>c. plain_call c \<and> k = cacheKey c \<and> (c, ce_token x) \<in> bs_issued ?s"
      using e c [OF tb_exchange.hyps(1)] by (fastforce simp: entries_issued_def call_sound_def)
  qed
  moreover have "call_sound B ?s d p" if h: "bs_pool ?s j = Some (d, p)" for j d p
  proof (cases "j = i")
    case True
    then show ?thesis using h exchange_step_call [OF tb_exchange.hyps(3) refl e c [OF tb_exchange.hyps(1)]] by simp
  next
    case False
    then have "call_sound B s d p" using h c by simp
    then show ?thesis by (rule call_sound_mono) (use exchange_step_events [OF tb_exchange.hyps(3)] in auto)
  qed
  ultimately show ?case using exchange_step_bounded [OF tb_exchange.hyps(3) b tb_exchange.hyps(2)] by (simp add: isolated_def)
next
  case (tb_flag s)
  show ?case by (rule isolated_shrinks(1) [OF tb_flag]) (auto simp: broker_lock_flag_def)
next
  case (tb_flush s)
  show ?case by (rule isolated_shrinks(1) [OF tb_flush(2)]) (auto simp: broker_lock_flush_def)
next
  case (tb_unlock s)
  show ?case by (rule isolated_shrinks(2) [OF tb_unlock]) (auto simp: broker_unlock_def)
next
  case (tb_revoke x s)
  show ?case by (rule isolated_shrinks(2) [OF tb_revoke]) (auto simp: broker_Revoke_session_def cache_deleteBySession_def split: if_splits)
next
  case (tb_revoke_token order s now ok tid e b')
  show ?case by (rule isolated_shrinks(2) [OF tb_revoke_token(3)]) (use revokeByTokenID_frame [OF tb_revoke_token(2)] in auto)
next
  case (tb_evict now s)
  show ?case by (rule isolated_shrinks(2) [OF tb_evict]) (auto simp: cache_evictExpired_def split: option.splits if_splits)
qed

lemma isolated_run: "tb_run B s ls s' \<Longrightarrow> isolated B s \<Longrightarrow> isolated B s'"
  by (induction rule: tb_run.induct) (auto intro: isolated_step)

lemma fresh_isolated: "isolated B (fresh_system a)"
  by (simp add: isolated_def entries_issued_def cache_bounded_def fresh_system_def NewBroker_def NewTokenCacheWithLimit_def DefaultMaxCacheEntries_def)

text \<open>C32: However exchanges, revocations, evictions and vault locks interleave, a token that an exchange returns was issued by
  the strategy for the same provider, capability, actor, session and namespace, its hand-out is in the audit log, and
  the cache never holds more than a thousand entries.\<close>

theorem broker_token_isolated:
  assumes "tb_run B (fresh_system a) ls s" and "bs_pool s i = Some (c, XDone (Inr r))"
  shows "(c, er_token r) \<in> bs_issued s \<and> er_Provider r = xc_provider c \<and> er_Capability r = xc_capability c \<and>
    (\<exists>ev \<in> set (tb_events (bs_broker s)). event_for B c ev) \<and> card (dom (bs_entries s)) \<le> 1000"
proof -
  have i: "isolated B s" using isolated_run [OF assms(1) fresh_isolated] .
  then have "call_sound B s c (XDone (Inr r))" using assms(2) by (auto simp: isolated_def)
  with i show ?thesis by (auto simp: call_sound_def isolated_def cache_bounded_def DefaultMaxCacheEntries_def)
qed

subsection \<open>The vault lock\<close>

definition quiet_pool :: "broker_system \<Rightarrow> bool" where
  "quiet_pool s = (\<forall>i c pc. bs_pool s i = Some (c, pc) \<longrightarrow> pc = XLock \<or> (\<exists>r. pc = XDone r))"

lemma locked_step:
  assumes "tb_step B l s s'" "l \<noteq> LUnlock" "tb_locked (bs_broker s)" "bs_entries s = Map.empty" "quiet_pool s"
  shows "tb_locked (bs_broker s') \<and> bs_entries s' = Map.empty \<and> quiet_pool s' \<and>
    (\<forall>i c r. bs_pool s' i = Some (c, XDone (Inr r)) \<longrightarrow> bs_pool s i = Some (c, XDone (Inr r)))"
  using assms
proof (induction rule: tb_step.induct)
  case (tb_exchange s i c pc E pc' b')
  then have "pc = XLock \<or> (\<exists>r. pc = XDone r)" by (auto simp: quiet_pool_def)
  with tb_exchange have "b' = bs_broker s \<and> (pc' = XDone (Inl ErrVaultLocked) \<or> (pc' = pc \<and> (\<exists>r. pc = XDone r)))" by auto
  with tb_exchange show ?case by (auto simp: quiet_pool_def)
next
  case (tb_revoke_token order s now ok tid e b')
  have "tc_entries (tb_cache b') k = None" for k
    using revokeByTokenID_frame(1) [OF tb_revoke_token(2), of k] tb_revoke_token.prems by (cases "tc_entries (tb_cache b') k") auto
  with revokeByTokenID_frame(4) [OF tb_revoke_token(2)] tb_revoke_token.prems show ?case by (auto simp: quiet_pool_def)
qed (auto simp: quiet_pool_def broker_lock_flag_def broker_lock_flush_def cache_flush_def broker_Revoke_session_def
  cache_deleteBySession_def cache_evictExpired_def)

text \<open>Once the vault's lock has flushed the cache while no exchange is under way, nothing is cached and no exchange
  succeeds before the unlock, whatever else is called.\<close>

theorem broker_lock_effective:
  assumes "tb_run B s ls s'" and "LUnlock \<notin> set ls"
    and "tb_locked (bs_broker s)" and "bs_entries s = Map.empty" and "quiet_pool s"
  shows "bs_entries s' = Map.empty \<and>
    (\<forall>i c r. bs_pool s' i = Some (c, XDone (Inr r)) \<longrightarrow> bs_pool s i = Some (c, XDone (Inr r)))"
proof -
  have "LUnlock \<notin> set ls \<longrightarrow> tb_locked (bs_broker s) \<longrightarrow> bs_entries s = Map.empty \<longrightarrow> quiet_pool s \<longrightarrow>
    tb_locked (bs_broker s') \<and> bs_entries s' = Map.empty \<and> quiet_pool s' \<and>
    (\<forall>i c r. bs_pool s' i = Some (c, XDone (Inr r)) \<longrightarrow> bs_pool s i = Some (c, XDone (Inr r)))"
    using assms(1)
  proof (induction rule: tb_run.induct)
    case (tb_next s ls s' l s'')
    then show ?case using locked_step [OF tb_next.hyps(2)] by auto
  qed simp
  with assms show ?thesis by blast
qed

text \<open>States reached with a given pool, broker and outstanding flush.\<close>

definition reached ::
  "broker_config \<Rightarrow> broker_label list \<Rightarrow> (nat \<Rightarrow> (exchange_call \<times> exchange_pc) option) \<Rightarrow> token_broker \<Rightarrow> bool \<Rightarrow> bool" where
  "reached B ls P b pending = (\<exists>s. tb_run B (fresh_system True) ls s \<and> bs_pool s = P \<and> bs_broker s = b \<and> bs_pending s = pending)"

lemma reached_call: "reached B ls P b p \<Longrightarrow> P i = None \<Longrightarrow> plain_call c \<Longrightarrow> reached B (ls @ [LCall i c]) (P(i \<mapsto> (c, XLock))) b p"
  by (force simp: reached_def intro: tb_next tb_call)

lemma reached_exchange:
  assumes "reached B ls P b p" "P i = Some (c, pc)" "order_ok (xe_order E) (tb_cache b)" "exchange_step B E c pc b = (pc', b')"
  shows "reached B (ls @ [LRun i]) (P(i \<mapsto> (c, pc'))) b' p"
proof -
  from assms(1) obtain s where s: "tb_run B (fresh_system True) ls s" "bs_pool s = P" "bs_broker s = b" "bs_pending s = p"
    by (auto simp: reached_def)
  from tb_next [OF s(1) tb_exchange [of s i c pc E B pc' b']] assms(2-4) s(2-4) show ?thesis by (force simp: reached_def)
qed

lemma reached_lock: "reached B ls P b p \<Longrightarrow> reached B (ls @ [LLockFlag, LLockFlush]) P (broker_lock_flush (broker_lock_flag b)) False"
proof -
  assume "reached B ls P b p"
  then obtain s where s: "tb_run B (fresh_system True) ls s" "bs_pool s = P" "bs_broker s = b" by (auto simp: reached_def)
  from tb_next [OF tb_next [OF s(1) tb_flag] tb_flush] s(2,3) show ?thesis by (force simp: reached_def)
qed

definition sample_broker :: broker_config where
  "sample_broker = \<lparr>bk_hex = (\<lambda>k i. replicate 64 CHR ''0''), bk_hmacKey = ''k'', bk_strategies = (\<lambda>p. if p = ''github'' then Some ''github'' else None)\<rparr>"

definition sample_exchange :: exchange_call where
  "sample_exchange = \<lparr>xc_actor = ''a'', xc_session = ''s'', xc_provider = ''github'', xc_capability = ''repo'', xc_namespace = ''n''\<rparr>"

definition sample_exchange_env :: exchange_env where
  "sample_exchange_env = \<lparr>xe_now = 1, xe_later = 1, xe_ready = True,
     xe_strategy = Inr \<lparr>er_Provider = [], er_Capability = [], er_CacheAge = 0, er_TTLRemaining = Hour, er_Type = FreshExchange, er_token = ''t''\<rparr>,
     xe_order = [], xe_emit = True\<rparr>"

lemma sample_plain: "plain_call sample_exchange"
  by (simp add: plain_call_def sample_exchange_def NUL_def)

lemmas sample_broker_simps = sample_broker_def sample_exchange_env_def sample_exchange_def fresh_system_def NewBroker_def
  NewTokenCacheWithLimit_def DefaultMaxCacheEntries_def

text \<open>An exchange that passed the check before the vault locks goes on: after the lock has returned it puts its token into
  the flushed cache and returns it, while the vault is still locked.\<close>

theorem broker_lock_race:
  "\<exists>ls s c r. tb_run sample_broker (fresh_system True) ls s \<and> LLockFlush \<in> set ls \<and> LUnlock \<notin> set ls \<and>
     \<not> bs_pending s \<and> tb_locked (bs_broker s) \<and> bs_pool s 0 = Some (c, XDone (Inr r)) \<and> bs_entries s (cacheKey c) \<noteq> None"
proof -
  let ?B = sample_broker let ?c = sample_exchange let ?E = sample_exchange_env
  let ?P = "\<lambda>pc. [0 \<mapsto> (?c, pc)]" let ?b = "NewBroker True"
  define r where "r = \<lparr>er_Provider = ''github'', er_Capability = ''repo'', er_CacheAge = 0, er_TTLRemaining = Hour,
    er_Type = FreshExchange, er_token = ''t''\<rparr>"
  have o: "order_ok (xe_order ?E) (tb_cache b)" if "tc_entries (tb_cache b) = Map.empty" for b :: token_broker
    using that by (simp add: order_ok_def sample_exchange_env_def)
  have step: "reached ?B (ls @ [LRun 0]) (?P pc') b' p"
    if "reached ?B ls (?P pc) b p" "order_ok (xe_order E) (tb_cache b)" "exchange_step ?B E ?c pc b = (pc', b')" for E ls pc b p pc' b'
    using reached_exchange [OF that(1) _ that(2,3), of 0] by simp
  have "reached ?B [] Map.empty ?b False" by (force simp: reached_def fresh_system_def intro: tb_start)
  from reached_call [OF this _ sample_plain, of 0] have "reached ?B [LCall 0 ?c] (?P XLock) ?b False" by simp
  from step [OF this o, of XReady ?b] have "reached ?B ([LCall 0 ?c] @ [LRun 0]) (?P XReady) ?b False" by (simp add: sample_broker_simps)
  from step [OF this o, of XCache ?b] have "reached ?B (([LCall 0 ?c] @ [LRun 0]) @ [LRun 0]) (?P XCache) ?b False"
    by (simp add: sample_broker_simps)
  from step [OF this o, of XStrategy ?b]
  have "reached ?B ((([LCall 0 ?c] @ [LRun 0]) @ [LRun 0]) @ [LRun 0]) (?P XStrategy) ?b False"
    by (simp add: sample_broker_simps cache_get_def)
  from reached_lock [OF this] obtain ls b where l: "reached ?B ls (?P XStrategy) b False" "LLockFlush \<in> set ls" "LUnlock \<notin> set ls"
    "tb_locked b" "tc_entries (tb_cache b) = Map.empty" "tb_audited b"
    by (auto simp: broker_lock_flush_def broker_lock_flag_def cache_flush_def NewBroker_def)
  from step [OF l(1) o [OF l(5)], of "XSet r" b] have x: "reached ?B (ls @ [LRun 0]) (?P (XSet r)) b False"
    by (simp add: sample_broker_simps r_def)
  from step [OF x o [OF l(5)]] obtain b1 where b1: "reached ?B ((ls @ [LRun 0]) @ [LRun 0]) (?P (XEmit r)) b1 False" "tb_locked b1" "tb_audited b1"
    "dom (tc_entries (tb_cache b1)) = {cacheKey ?c}"
    using l by (auto simp: sample_exchange_env_def cache_set_def Let_def evictOldestLocked_def)
  let ?F = "?E\<lparr>xe_order := [cacheKey ?c]\<rparr>"
  from step [OF b1(1), of ?F] b1 obtain b2 where b2: "reached ?B (((ls @ [LRun 0]) @ [LRun 0]) @ [LRun 0]) (?P (XDone (Inr r))) b2 False"
    "tb_locked b2" "dom (tc_entries (tb_cache b2)) = {cacheKey ?c}"
    by (auto simp: order_ok_def emit_def sample_exchange_env_def)
  then have "tc_entries (tb_cache b2) (cacheKey ?c) \<noteq> None" by auto
  with b2 l(2,3) show ?thesis unfolding reached_def by fastforce
qed

subsection \<open>Listing\<close>

definition grant_of :: "broker_config \<Rightarrow> exchange_call \<Rightarrow> cache_entry \<Rightarrow> token_grant" where
  "grant_of B c e = \<lparr>tg_Provider = xc_provider c, tg_ActorHMAC = hashID B (xc_actor c),
     tg_ScopedTokenID = take 12 (hashID B (cacheKey c)), tg_ExpiresAt = ce_deadline e, tg_InsertedAt = ce_insertedAt e\<rparr>"

lemma ListGrants_None:
  "ListGrants B now m ks = None \<longleftrightarrow> (\<exists>k \<in> set ks. live_entry now m k \<noteq> None \<and> deriveScopedTokenID B k = None)"
  by (induction ks) (auto split: option.splits)

lemma ListGrants_Some:
  assumes "ListGrants B now m ks = Some gs" "\<And>k. k \<in> set ks \<Longrightarrow> \<exists>c. plain_call c \<and> k = cacheKey c"
  shows "set gs = {grant_of B c e | c e. plain_call c \<and> cacheKey c \<in> set ks \<and> live_entry now m (cacheKey c) = Some e}"
  using assms
proof (induction ks arbitrary: gs)
  case (Cons k ks)
  obtain d where d: "plain_call d" "k = cacheKey d" using Cons.prems(2) [of k] by auto
  have IH: "set gs' = {grant_of B c e | c e. plain_call c \<and> cacheKey c \<in> set ks \<and> live_entry now m (cacheKey c) = Some e}"
    if "ListGrants B now m ks = Some gs'" for gs' using Cons.IH [OF that] Cons.prems(2) by auto
  show ?case
  proof (cases "live_entry now m k")
    case None
    then show ?thesis using IH [of gs] Cons.prems(1) d by auto
  next
    case (Some e)
    then obtain gs' i where g: "ListGrants B now m ks = Some gs'" "deriveScopedTokenID B k = Some i"
      using Cons.prems(1) by (auto split: option.splits)
    then have "gs = grant_of B d e # gs'"
      using Cons.prems(1) Some d by (auto simp: grant_of_def extract_cacheKey deriveScopedTokenID_def Let_def split: if_splits)
    then show ?thesis using IH [OF g(1)] Some d by (auto simp: cacheKey_inject)
  qed
qed auto

text \<open>Whatever has happened, listing the grants shows exactly the live entries of the cache, each with the provider and the
  hashed actor of the exchange it belongs to; without an HMAC key, which is how the command line constructs its
  broker, it panics as soon as there is a live entry.\<close>

theorem list_grants_exact:
  assumes "tb_run B (fresh_system a) ls s" and "order_ok order (tb_cache (bs_broker s))" and "\<And>k x. length (bk_hex B k x) = 64"
  shows "(ListGrants B now (tb_cache (bs_broker s)) order = None \<longleftrightarrow>
      bk_hmacKey B = [] \<and> (\<exists>k. live_entry now (tb_cache (bs_broker s)) k \<noteq> None)) \<and>
    (\<forall>gs. ListGrants B now (tb_cache (bs_broker s)) order = Some gs \<longrightarrow>
      set gs = {grant_of B c e | c e. plain_call c \<and> live_entry now (tb_cache (bs_broker s)) (cacheKey c) = Some e})"
proof -
  let ?m = "tb_cache (bs_broker s)"
  have live: "live_entry now ?m k \<noteq> None \<Longrightarrow> k \<in> set order" for k
    using assms(2) by (auto simp: live_entry_def order_ok_def split: option.splits)
  have keys: "k \<in> set order \<Longrightarrow> \<exists>c. plain_call c \<and> k = cacheKey c" for k
    using isolated_run [OF assms(1) fresh_isolated] assms(2) by (fastforce simp: isolated_def entries_issued_def order_ok_def)
  have "deriveScopedTokenID B k = None \<longleftrightarrow> bk_hmacKey B = []" for k
    by (simp add: deriveScopedTokenID_def hashID_def assms(3) Let_def)
  then have "ListGrants B now ?m order = None \<longleftrightarrow> bk_hmacKey B = [] \<and> (\<exists>k. live_entry now ?m k \<noteq> None)"
    using live by (auto simp: ListGrants_None)
  moreover have "set gs = {grant_of B c e | c e. plain_call c \<and> live_entry now ?m (cacheKey c) = Some e}"
    if "ListGrants B now ?m order = Some gs" for gs
  proof -
    have "cacheKey c \<in> set order \<and> live_entry now ?m (cacheKey c) = Some e \<longleftrightarrow> live_entry now ?m (cacheKey c) = Some e" for c e
      using live [of "cacheKey c"] by auto
    with ListGrants_Some [OF that keys] show ?thesis by simp
  qed
  ultimately show ?thesis by blast
qed

subsection \<open>Exchanges end\<close>

fun steps_left :: "exchange_pc \<Rightarrow> nat" where
  "steps_left XLock = 7" | "steps_left XReady = 6" | "steps_left XCache = 5" | "steps_left XDelete = 4" | "steps_left XStrategy = 3"
| "steps_left (XSet r) = 2" | "steps_left (XEmit r) = 1" | "steps_left (XHit e) = 1" | "steps_left (XDone r) = 0"

lemma steps_left_0: "steps_left pc = 0 \<longleftrightarrow> (\<exists>r. pc = XDone r)"
  by (cases pc) auto

lemma exchange_step_moves: "exchange_step B E c pc b = (pc', b') \<Longrightarrow> steps_left pc' \<le> steps_left pc - 1"
  by (cases pc) (auto split: if_splits option.splits sum.splits prod.splits bool.splits cache_read.splits)

text \<open>Whatever else happens in between, an exchange has ended after seven of its own steps: it never waits for another
  exchange, a revocation or the vault lock.\<close>

theorem exchange_ends:
  assumes "tb_run B s ls s'" and "bs_pool s i = Some (c, pc)" and "7 \<le> count_list ls (LRun i)"
  shows "\<exists>r. bs_pool s' i = Some (c, XDone r)"
proof -
  have "bs_pool s i = Some (c, pc) \<longrightarrow> (\<exists>pc'. bs_pool s' i = Some (c, pc') \<and> steps_left pc' \<le> steps_left pc - count_list ls (LRun i))"
    using assms(1)
  proof (induction rule: tb_run.induct)
    case (tb_next s ls s' l s'')
    show ?case
    proof
      assume "bs_pool s i = Some (c, pc)"
      then obtain p where p: "bs_pool s' i = Some (c, p)" "steps_left p \<le> steps_left pc - count_list ls (LRun i)"
        using tb_next.IH by blast
      from tb_next.hyps(2) p show "\<exists>pc'. bs_pool s'' i = Some (c, pc') \<and> steps_left pc' \<le> steps_left pc - count_list (ls @ [l]) (LRun i)"
        by (cases rule: tb_step.cases) (auto dest!: exchange_step_moves)
    qed
  qed simp
  then obtain pc' where "bs_pool s' i = Some (c, pc')" "steps_left pc' \<le> steps_left pc - count_list ls (LRun i)" using assms(2) by blast
  moreover have "steps_left pc \<le> 7" by (cases pc) auto
  ultimately show ?thesis using assms(3) steps_left_0 [of pc'] by auto
qed

theorem revoke_session_exact_witness:
  "tc_entries (cache_deleteBySession ''s'' m) (cacheKey sample_exchange) = None"
  using revoke_session_exact [OF sample_plain, of "''s''" m] by (simp add: sample_exchange_def NUL_def)

theorem broker_token_isolated_witness:
  "\<exists>s c r. bs_pool s 0 = Some (c, XDone (Inr r)) \<and> (c, er_token r) \<in> bs_issued s \<and> card (dom (bs_entries s)) \<le> 1000"
proof -
  from broker_lock_race obtain ls s c r where "tb_run sample_broker (fresh_system True) ls s" "bs_pool s 0 = Some (c, XDone (Inr r))"
    by blast
  from broker_token_isolated [OF this] this(2) show ?thesis by blast
qed

theorem broker_lock_effective_witness:
  "\<exists>ls s. tb_run sample_broker (fresh_system True\<lparr>bs_broker := broker_lock_flag (NewBroker True)\<rparr>) ls s \<and> ls = [LCall 0 sample_exchange] \<and>
     bs_entries s = Map.empty"
proof -
  let ?s = "fresh_system True\<lparr>bs_broker := broker_lock_flag (NewBroker True)\<rparr>"
  have "tb_run sample_broker ?s ([] @ [LCall 0 sample_exchange]) (?s\<lparr>bs_pool := (bs_pool ?s)(0 \<mapsto> (sample_exchange, XLock))\<rparr>)"
    by (rule tb_next [OF tb_start tb_call]) (simp_all add: fresh_system_def sample_plain)
  then obtain s where s: "tb_run sample_broker ?s [LCall 0 sample_exchange] s" by auto
  have "bs_entries s = Map.empty"
    using broker_lock_effective [OF s] by (simp add: fresh_system_def NewBroker_def NewTokenCacheWithLimit_def broker_lock_flag_def quiet_pool_def)
  with s show ?thesis by blast
qed

theorem list_grants_exact_witness:
  "\<exists>ls s now order gs. tb_run sample_broker (fresh_system True) ls s \<and>
     ListGrants sample_broker now (tb_cache (bs_broker s)) order = Some gs \<and> gs \<noteq> []"
proof -
  from broker_lock_race obtain ls s c r where s: "tb_run sample_broker (fresh_system True) ls s"
    and e: "bs_entries s (cacheKey c) \<noteq> None" by blast
  have i: "isolated sample_broker s" using isolated_run [OF s fresh_isolated] .
  then have "finite (dom (bs_entries s))" by (simp add: isolated_def cache_bounded_def)
  then obtain order where o: "order_ok order (tb_cache (bs_broker s))" using finite_distinct_list by (metis order_ok_def)
  from e obtain x where x: "bs_entries s (cacheKey c) = Some x" by blast
  with i have "\<exists>d. plain_call d \<and> cacheKey c = cacheKey d" unfolding isolated_def entries_issued_def by blast
  then obtain d where d: "plain_call d" "cacheKey c = cacheKey d" by blast
  let ?now = "ce_deadline x" let ?L = "ListGrants sample_broker ?now (tb_cache (bs_broker s)) order"
  have l: "live_entry ?now (tb_cache (bs_broker s)) (cacheKey d) = Some x" using x d by (simp add: live_entry_def)
  have "length (bk_hex sample_broker k y) = 64" for k y by (simp add: sample_broker_def)
  from list_grants_exact [OF s o this, of ?now] have g: "?L \<noteq> None"
    "\<And>gs. ?L = Some gs \<Longrightarrow> grant_of sample_broker d x \<in> set gs"
    using l d by (auto simp: sample_broker_def)
  then obtain gs where "?L = Some gs" by blast
  with g(2) [OF this] s show ?thesis by fastforce
qed

lemma exchange_can_run:
  assumes "isolated B s" "bs_pool s i \<noteq> None"
  shows "\<exists>s'. tb_run B s (replicate n (LRun i)) s' \<and> isolated B s' \<and> bs_pool s' i \<noteq> None"
proof (induction n)
  case 0
  then show ?case using assms tb_start by force
next
  case (Suc n)
  then obtain s' where s: "tb_run B s (replicate n (LRun i)) s'" "isolated B s'" "bs_pool s' i \<noteq> None" by blast
  then obtain c pc where p: "bs_pool s' i = Some (c, pc)" by auto
  have "finite (dom (bs_entries s'))" using s(2) by (simp add: isolated_def cache_bounded_def)
  then obtain order where "order_ok order (tb_cache (bs_broker s'))" using finite_distinct_list by (metis order_ok_def)
  then have "order_ok (xe_order (sample_exchange_env\<lparr>xe_order := order\<rparr>)) (tb_cache (bs_broker s'))" by simp
  from tb_exchange [OF p this] obtain s'' where t: "tb_step B (LRun i) s' s''" "bs_pool s'' i \<noteq> None"
    by (cases "exchange_step B (sample_exchange_env\<lparr>xe_order := order\<rparr>) c pc (bs_broker s')") fastforce
  from tb_next [OF s(1) t(1)] have "tb_run B s (replicate (Suc n) (LRun i)) s''" by (simp add: replicate_append_same)
  with t isolated_step [OF t(1) s(2)] show ?case by blast
qed

theorem exchange_ends_witness:
  "\<exists>ls s' r. tb_run sample_broker (fresh_system True\<lparr>bs_pool := [0 \<mapsto> (sample_exchange, XLock)]\<rparr>) ls s' \<and>
     bs_pool s' 0 = Some (sample_exchange, XDone r)"
proof -
  let ?s = "fresh_system True\<lparr>bs_pool := [0 \<mapsto> (sample_exchange, XLock)]\<rparr>"
  have "isolated sample_broker (fresh_system True)" by (rule fresh_isolated)
  from isolated_step [OF tb_call this, of 0] have "isolated sample_broker ?s" by (simp add: sample_plain fresh_system_def)
  then obtain s' where s: "tb_run sample_broker ?s (replicate 7 (LRun 0)) s'" using exchange_can_run [of sample_broker ?s 0 7] by auto
  have "7 \<le> count_list (replicate 7 (LRun 0)) (LRun 0)" by (simp add: eval_nat_numeral)
  from exchange_ends [OF s _ this, of sample_exchange XLock] s show ?thesis by auto
qed

end
