(* ===== verification/Audit_Readers.thy ===== *)
theory Audit_Readers
  imports Audit_Chain
begin

section \<open>Reading, pruning and redaction of the audit log (\<open>internal/audit\<close>)\<close>

text \<open>
  \<open>tail.go\<close> (\<open>Tail\<close>, \<open>Scan\<close>, \<open>Prune\<close>), the summary and the line scanner of \<open>log.go\<close>, \<open>retention.go\<close> and the
  allowlist of \<open>fields/fields.go\<close>. The files, the logger and the cryptography are those of \<open>Audit_Chain\<close>; the decoder of
  an event's JSON is a further parameter. Each operation holds the logger's mutex. Cutoffs are arguments: the code
  computes them from the clock and the calendar.
\<close>

subsection \<open>The line scanner\<close>

text \<open>\<open>lineScanner\<close>: the buffer is searched for a line feed before another chunk is read; the reader gives the chunks and
  then an end of file.\<close>

fun take_lines :: "gostring \<Rightarrow> gostring \<Rightarrow> gostring list \<times> gostring" where
  "take_lines acc [] = ([], acc)"
| "take_lines acc (c # s) =
    (if c = newline then (case take_lines [] s of (ls, rest) \<Rightarrow> (acc # ls, rest)) else take_lines (acc @ [c]) s)"

fun scanner_lines :: "gostring \<Rightarrow> gostring list \<Rightarrow> gostring list" where
  "scanner_lines buf [] = (case take_lines [] buf of (ls, rest) \<Rightarrow> ls @ (if rest = [] then [] else [rest]))"
| "scanner_lines buf (chunk # chunks) = (case take_lines [] buf of (ls, rest) \<Rightarrow> ls @ scanner_lines (rest @ chunk) chunks)"

subsection \<open>Events\<close>

type_synonym event_parser = "gostring \<Rightarrow> audit_event option"

definition logger_keys :: "logger \<Rightarrow> gostring list" where
  "logger_keys l = lg_auditDEK l # lg_readKeys l"

definition decodeAuditLine :: "audit_crypto \<Rightarrow> event_parser \<Rightarrow> gostring list \<Rightarrow> gostring \<Rightarrow> audit_event option" where
  "decodeAuditLine A parse keys line =
    (case SplitN 2 line (CHR '' '') of
       [h, b] \<Rightarrow>
         (case au_Unbase64 A h of None \<Rightarrow> None
          | Some hdrBytes \<Rightarrow>
             (case au_Unbase64 A b of None \<Rightarrow> None
              | Some sealed \<Rightarrow>
                  if length sealed < 24 then None
                  else (case openSealed A keys (drop 24 sealed) (take 24 sealed) hdrBytes of None \<Rightarrow> None
                        | Some plaintext \<Rightarrow> parse plaintext)))
     | _ \<Rightarrow> None)"

text \<open>The events of a file, in order; lines that do not decode are skipped.\<close>

definition events_of :: "audit_crypto \<Rightarrow> event_parser \<Rightarrow> gostring list \<Rightarrow> gostring list \<Rightarrow> audit_event list" where
  "events_of A parse keys ls = List.map_filter (decodeAuditLine A parse keys) (filter (\<lambda>l. l \<noteq> []) ls)"

record since_opts =
  so_Since :: gotime
  so_Agent :: gostring
  so_Provider :: gostring
  so_Outcome :: gostring

definition scan_matches :: "since_opts \<Rightarrow> audit_event \<Rightarrow> bool" where
  "scan_matches opts e =
    (if so_Since opts \<noteq> zero_time \<and> ev_Timestamp e < so_Since opts then False
     else if so_Agent opts \<noteq> [] \<and> \<not> Contains (ev_Actor e) (so_Agent opts) \<and> \<not> Contains (ev_RuntimeMode e) (so_Agent opts) then False
     else if so_Provider opts \<noteq> [] \<and> \<not> EqualFold (ev_Backend e) (so_Provider opts) then False
     else so_Outcome opts = [] \<or> ev_Outcome e = so_Outcome opts)"

text \<open>\<open>None\<close> when the file cannot be read from its start.\<close>

definition audit_Scan :: "audit_crypto \<Rightarrow> event_parser \<Rightarrow> bool \<Rightarrow> since_opts \<Rightarrow> logger \<Rightarrow> audit_files \<Rightarrow> audit_event list option" where
  "audit_Scan A parse seek_ok opts l F =
    (if \<not> (lg_open l \<and> seek_ok) then None
     else Some (filter (scan_matches opts) (events_of A parse (logger_keys l) (scan_lines [] (file_bytes F 0)))))"

record summary_opts =
  su_Since :: gotime
  su_Service :: gostring
  su_Path :: gostring
  su_Action :: gostring
  su_Namespace :: gostring

record audit_summary =
  sm_Total :: nat
  sm_ByAction :: "gostring \<Rightarrow> nat"
  sm_ByOutcome :: "gostring \<Rightarrow> nat"
  sm_Oldest :: gotime
  sm_Newest :: gotime
  sm_Accessors :: "gostring list"

definition summary_matches :: "summary_opts \<Rightarrow> audit_event \<Rightarrow> bool" where
  "summary_matches opts e =
    (\<not> (su_Since opts \<noteq> zero_time \<and> ev_Timestamp e < su_Since opts) \<and> (su_Path opts = [] \<or> ev_Path e = su_Path opts) \<and>
     (su_Action opts = [] \<or> ev_Action e = su_Action opts) \<and> (su_Service opts = [] \<or> ev_ServiceName e = su_Service opts))"

definition summary_add :: "audit_event \<Rightarrow> audit_summary \<Rightarrow> audit_summary" where
  "summary_add e s =
    s\<lparr>sm_Total := Suc (sm_Total s),
      sm_ByAction := (sm_ByAction s)(ev_Action e := Suc (sm_ByAction s (ev_Action e))),
      sm_ByOutcome := (sm_ByOutcome s)(ev_Outcome e := Suc (sm_ByOutcome s (ev_Outcome e))),
      sm_Oldest := (if sm_Oldest s = zero_time \<or> ev_Timestamp e < sm_Oldest s then ev_Timestamp e else sm_Oldest s),
      sm_Newest := (if ev_Timestamp e > sm_Newest s then ev_Timestamp e else sm_Newest s),
      sm_Accessors := (if ev_Accessor e \<noteq> [] \<and> ev_Accessor e \<notin> set (sm_Accessors s) then sm_Accessors s @ [ev_Accessor e]
                       else sm_Accessors s)\<rparr>"

definition empty_summary :: audit_summary where
  "empty_summary = \<lparr>sm_Total = 0, sm_ByAction = (\<lambda>_. 0), sm_ByOutcome = (\<lambda>_. 0), sm_Oldest = zero_time,
     sm_Newest = zero_time, sm_Accessors = []\<rparr>"

definition audit_Summarize ::
  "audit_crypto \<Rightarrow> event_parser \<Rightarrow> bool \<Rightarrow> summary_opts \<Rightarrow> logger \<Rightarrow> audit_files \<Rightarrow> audit_summary option" where
  "audit_Summarize A parse seek_ok opts l F =
    (if \<not> (lg_open l \<and> seek_ok) then None
     else Some (fold summary_add
       (filter (summary_matches opts) (events_of A parse (logger_keys l) (scan_lines [] (file_bytes F 0)))) empty_summary))"

subsection \<open>Following\<close>

text \<open>\<open>readNewLines\<close>: what is sent and the new offset. Each line counts one byte for its line feed, the last one too when it
  has none.\<close>

definition line_sizes :: "gostring list \<Rightarrow> nat" where
  "line_sizes ls = sum_list (map (\<lambda>l. Suc (length l)) ls)"

definition readNewLines :: "audit_crypto \<Rightarrow> event_parser \<Rightarrow> gostring list \<Rightarrow> nat \<Rightarrow> gostring \<Rightarrow> audit_event list \<times> nat" where
  "readNewLines A parse keys pos0 s =
    (let pos = (if length s < pos0 then 0 else pos0) in
     if length s = pos then ([], pos)
     else let ls = scan_lines [] (drop pos s) in (events_of A parse keys ls, pos + line_sizes ls))"

text \<open>\<open>Tail\<close> over the contents of the live file at the successive polls.\<close>

fun tail_polls :: "audit_crypto \<Rightarrow> event_parser \<Rightarrow> gostring list \<Rightarrow> nat \<Rightarrow> gostring list \<Rightarrow> audit_event list" where
  "tail_polls A parse keys pos [] = []"
| "tail_polls A parse keys pos (s # ss) =
    (case readNewLines A parse keys pos s of (es, pos') \<Rightarrow> es @ tail_polls A parse keys pos' ss)"

definition audit_Tail :: "audit_crypto \<Rightarrow> event_parser \<Rightarrow> logger \<Rightarrow> gostring \<Rightarrow> gostring list \<Rightarrow> audit_event list" where
  "audit_Tail A parse l start ss = tail_polls A parse (logger_keys l) (length start) ss"

subsection \<open>Pruning\<close>

definition prune_keeps :: "audit_crypto \<Rightarrow> event_parser \<Rightarrow> gostring list \<Rightarrow> gotime \<Rightarrow> gostring \<Rightarrow> bool" where
  "prune_keeps A parse keys cutoff line =
    (case decodeAuditLine A parse keys line of None \<Rightarrow> True | Some e \<Rightarrow> \<not> ev_Timestamp e < cutoff)"

datatype prune_io = PruneOk | PruneSeekFails | PruneTmpFails | PruneCloseFails | PruneRenameFails bool | PruneReopenFails

datatype prune_error = PruneSeek | PruneTmp | PruneCloseLog | PruneRename | PruneReopen | PruneSeed audit_error

record prune_result =
  pr_count :: nat
  pr_error :: "prune_error option"
  pr_logger :: logger
  pr_files :: audit_files
  pr_handle_open :: bool

text \<open>The count, the error, the state, and whether the handle the logger is left with is open. The chain state is cleared
  before it is read from the new file.\<close>

definition audit_Prune :: "audit_crypto \<Rightarrow> event_parser \<Rightarrow> prune_io \<Rightarrow> gotime \<Rightarrow> logger \<Rightarrow> audit_files \<Rightarrow> prune_result" where
  "audit_Prune A parse io cutoff l F =
    (let res = (\<lambda>n e l' F' h. \<lparr>pr_count = n, pr_error = e, pr_logger = l', pr_files = F', pr_handle_open = h\<rparr>);
         ls = filter (\<lambda>x. x \<noteq> []) (scan_lines [] (file_bytes F 0));
         kept = filter (prune_keeps A parse (logger_keys l) cutoff) ls;
         pruned = length ls - length kept in
     if io = PruneSeekFails \<or> \<not> lg_open l then res 0 (Some PruneSeek) l F (lg_open l)
     else if pruned = 0 then res 0 None l F True
     else if io = PruneTmpFails then res 0 (Some PruneTmp) l F True
     else if io = PruneCloseFails then res 0 (Some PruneCloseLog) l F False
     else (case io of PruneRenameFails reopened \<Rightarrow> res 0 (Some PruneRename) l F reopened
     | _ \<Rightarrow>
        (let F' = F(0 \<mapsto> file_of kept) in
         if io = PruneReopenFails then res 0 (Some PruneReopen) l F' False
         else (let l0 = l\<lparr>lg_seq := 0, lg_prevHMAC := []\<rparr> in
               case seedChainState A l0 F' of
                 Inl e \<Rightarrow> res pruned (Some (PruneSeed e)) l0 F' True
               | Inr l' \<Rightarrow> res pruned None l' F' True))))"

subsection \<open>Retention\<close>

definition DefaultRetentionDays :: int where "DefaultRetentionDays = 30"
definition DefaultSweepIntervalHours :: int where "DefaultSweepIntervalHours = 24"

definition LoadRetentionDays :: "int \<Rightarrow> int" where
  "LoadRetentionDays d = (if d < 1 \<or> d > 3650 then DefaultRetentionDays else d)"

definition LoadSweepIntervalHours :: "int \<Rightarrow> int" where
  "LoadSweepIntervalHours h = (if h < 1 then DefaultSweepIntervalHours else h)"

definition isGeneration :: "gostring \<Rightarrow> gostring \<Rightarrow> bool" where
  "isGeneration name pre =
    (HasPrefix name pre \<and> drop (length pre) name \<noteq> [] \<and> list_all is_digit (drop (length pre) name))"

record log_dir_entry =
  le_Name :: gostring
  le_IsDir :: bool
  le_ModTime :: "gotime option"
  le_Removable :: bool

definition sweep_selects :: "gostring \<Rightarrow> gotime \<Rightarrow> log_dir_entry \<Rightarrow> bool" where
  "sweep_selects base cutoff d =
    (\<not> le_IsDir d \<and> isGeneration (le_Name d) (base @ ''.'') \<and>
     (case le_ModTime d of None \<Rightarrow> False | Some t \<Rightarrow> t < cutoff))"

text \<open>Whether a removal failed, and the entries that are left; the directory is \<open>None\<close> when it cannot be read.\<close>

definition RunAuditRetentionSweep :: "gostring \<Rightarrow> gotime \<Rightarrow> log_dir_entry list option \<Rightarrow> bool \<times> log_dir_entry list option" where
  "RunAuditRetentionSweep base cutoff dir =
    (case dir of None \<Rightarrow> (True, None)
     | Some ds \<Rightarrow>
        (\<exists>d \<in> set ds. sweep_selects base cutoff d \<and> \<not> le_Removable d,
         Some (filter (\<lambda>d. \<not> (sweep_selects base cutoff d \<and> le_Removable d)) ds)))"

subsection \<open>The fields an event may carry in clear\<close>

definition safeLogFields :: "(gostring \<times> gostring list) list" where
  "safeLogFields =
    [(''write'', [''version'', ''backend'', ''key_term'']), (''read'', [''version'', ''backend'', ''key_term'']),
     (''delete'', [''version'', ''backend'']), (''list'', [''prefix'', ''count'']),
     (''decrypt'', [''version'', ''backend'', ''key_term'']), (''encrypt'', [''version'', ''backend'', ''key_term'']),
     (''revoke'', [''version'']), (''rotate'', [''new_term'', ''old_term'']),
     (''keyring_init'', [''algorithm'', ''kek_type'']), (''kek_rotate'', [''old_kek_type'', ''new_kek_type'']),
     (''term_destroy'', [''term'']), (''audit_rotate'', [''rotated_to'', ''rotated_from'', ''prev_file_hmac'']),
     (''audit_verify'', [''result'']), (''audit_read'', []), (''policy_check'', [''policy_id'', ''result'']),
     (''token_issue'', [''token_type'', ''ttl'']), (''token_revoke'', [''token_type'']),
     (''share'', [''recipient_hmac'']), (''unshare'', [''recipient_hmac'']), (''delegate'', [''delegate_type'']),
     (''gateway_call'', [''reason'', ''host'', ''error'', ''capability'']), (''proxy.started'', [''port'', ''pid'']),
     (''proxy.stopped'', [''pid'', ''reason'']),
     (''broker.exchange'', [''provider'', ''exchange_strategy'', ''actor_hmac'', ''session_id_hmac'', ''namespace'', ''capability'', ''ttl_seconds'', ''scopes_count'']),
     (''broker.cache_hit'', [''provider'', ''actor_hmac'', ''session_id_hmac'', ''capability'', ''cache_age_seconds'', ''ttl_remaining_seconds'']),
     (''broker.direct_run_credential_access'', [''provider'', ''actor_hmac'', ''capability'', ''sandbox_profile'', ''masking_profile_applied'', ''budget_remaining'', ''ttl_seconds_used'', ''allowed_hosts_count'']),
     (''broker.direct_run_blocked'', [''actor_hmac'', ''connection'', ''capability'', ''runtime_requested'', ''llm_session_signal'', ''blocked_by'']),
     (''child_env.filter'', [''runtime'', ''stripped_vars'', ''clean_env'']),
     (''child_env.clean'', [''runtime'', ''preserved_vars'', ''stripped_count'']),
     (''sandbox.launched'', [''provider'', ''runtime'', ''executable'', ''executable_sha256'']),
     (''sandbox.launch_refused'', [''provider'', ''runtime'', ''expected'', ''actual'', ''reason'']),
     (''sandbox.deny_applied'', [''provider'', ''runtime'', ''denied_paths'']),
     (''canary.injected'', [''provider'', ''session_id_hmac'']),
     (''broker.dry_run_requested'', [''provider'', ''command'', ''scopes_count'', ''policy_decision'']),
     (''broker.token_revoked'', [''provider'', ''actor_hmac'', ''token_id'', ''timestamp'', ''provider_revocation_attempted'', ''provider_revocation_succeeded'']),
     (''mint'', [''connection'', ''namespace'', ''repository'', ''permissions'', ''expires_at'', ''caller_kind'', ''reason''])]"

definition AllActions :: "gostring list" where
  "AllActions =
    [''write'', ''read'', ''delete'', ''list'', ''decrypt'', ''encrypt'', ''revoke'', ''rotate'', ''keyring_init'',
     ''kek_rotate'', ''term_destroy'', ''audit_rotate'', ''audit_verify'', ''audit_read'', ''policy_check'',
     ''token_issue'', ''token_revoke'', ''share'', ''unshare'', ''delegate'', ''gateway_call'', ''proxy.started'',
     ''proxy.stopped'', ''broker.exchange'', ''broker.cache_hit'', ''broker.direct_run_credential_access'',
     ''broker.direct_run_blocked'', ''child_env.filter'', ''child_env.clean'', ''sandbox.launched'',
     ''sandbox.launch_refused'', ''sandbox.deny_applied'', ''canary.injected'', ''broker.dry_run_requested'',
     ''broker.token_revoked'', ''mint'']"

text \<open>The actions that \<open>audit.go\<close> declares.\<close>

definition declared_actions :: "gostring list" where
  "declared_actions =
    [''write'', ''read'', ''delete'', ''list'', ''decrypt'', ''encrypt'', ''revoke'', ''rotate'', ''keyring_init'',
     ''kek_rotate'', ''term_destroy'', ''audit_rotate'', ''audit_verify'', ''audit_read'', ''policy_check'',
     ''token_issue'', ''token_revoke'', ''trust_unwrap'', ''trust_enroll'', ''trust_revoke'', ''trust_challenge'',
     ''trust_approve'', ''share'', ''unshare'', ''delegate'', ''gateway_call'', ''gateway_token_mint'',
     ''gateway_token_revoke'', ''substitution_blocked'', ''broker.exchange'', ''broker.cache_hit'',
     ''broker.direct_run_credential_access'', ''broker.direct_run_blocked'', ''child_env.filter'', ''child_env.clean'',
     ''canary.injected'', ''sandbox.launched'', ''sandbox.launch_refused'', ''sandbox.deny_applied'', ''mint'']"

datatype 'v field_value = InClear 'v | Hashed gostring

text \<open>\<open>Redact\<close>: \<open>mac\<close> is the truncated HMAC under the salt, \<open>sprint\<close> is \<open>fmt.Sprint\<close>.\<close>

definition redact_fields ::
  "(gostring \<Rightarrow> gostring \<Rightarrow> gostring) \<Rightarrow> ('v \<Rightarrow> gostring) \<Rightarrow> gostring \<Rightarrow> gostring \<Rightarrow> (gostring \<times> 'v) list option \<Rightarrow>
     (gostring \<times> 'v field_value) list option" where
  "redact_fields mac sprint salt action extra =
    (case extra of None \<Rightarrow> None
     | Some kvs \<Rightarrow>
        (let allowed = (case map_of safeLogFields action of None \<Rightarrow> [] | Some ks \<Rightarrow> ks) in
         Some (map (\<lambda>(k, v). (k, if k \<in> set allowed then InClear v else Hashed (mac salt (sprint v)))) kvs)))"

end
