(* ===== verification/Audit_Reader_Facts.thy ===== *)
theory Audit_Reader_Facts
  imports Audit_Readers
begin

section \<open>What readers of the audit log see\<close>

subsection \<open>The scanner\<close>

lemma take_lines_append:
  "take_lines acc (s @ t) =
    (case take_lines acc s of (ls, rest) \<Rightarrow> case take_lines rest t of (ls', rest') \<Rightarrow> (ls @ ls', rest'))"
  by (induction acc s rule: take_lines.induct) (auto split: prod.splits)

lemma take_lines_no_newline: "newline \<notin> set s \<Longrightarrow> take_lines acc s = ([], acc @ s)"
  by (induction acc s rule: take_lines.induct) auto

lemma take_lines_rest: "newline \<notin> set acc \<Longrightarrow> newline \<notin> set (snd (take_lines acc s))"
  by (induction acc s rule: take_lines.induct) (auto split: prod.splits)

lemma scan_lines_take: "scan_lines acc s = (case take_lines acc s of (ls, rest) \<Rightarrow> ls @ (if rest = [] then [] else [rest]))"
  by (induction acc s rule: take_lines.induct) (auto split: prod.splits)

lemma scan_lines_rest:
  assumes "take_lines [] buf = (ls, rest)"
  shows "scan_lines [] (buf @ x) = ls @ scan_lines [] (rest @ x)"
proof -
  have "newline \<notin> set rest" using take_lines_rest [of "[]" buf] assms by simp
  then have "take_lines [] (rest @ x) = take_lines rest x" by (simp add: take_lines_append take_lines_no_newline)
  then show ?thesis using assms by (simp add: scan_lines_take take_lines_append split: prod.split)
qed

text \<open>However the reads cut the file into pieces, the line scanner yields the lines of the whole file.\<close>

theorem scanner_reference: "scanner_lines buf chunks = scan_lines [] (buf @ concat chunks)"
proof (induction buf chunks rule: scanner_lines.induct)
  case (1 buf)
  then show ?case by (simp add: scan_lines_take)
next
  case (2 buf chunk chunks)
  obtain ls rest where t: "take_lines [] buf = (ls, rest)" by fastforce
  show ?case using 2 [OF t [symmetric]] t scan_lines_rest [OF t, of "chunk @ concat chunks"] by simp
qed

subsection \<open>Decoding\<close>

lemma decode_event_line:
  assumes "codec_ok A" "length nonce = 24" "keys = lg_auditDEK l # ks"
  shows "decodeAuditLine A parse keys (event_line A l hdr nonce json) = parse json"
  using event_line_parts [OF assms(1), of l hdr nonce json] assms by (simp add: decodeAuditLine_def codec_okD)

subsection \<open>Following the log\<close>

lemma scan_lines_append_file:
  "\<forall>l \<in> set ls. newline \<notin> set l \<Longrightarrow> scan_lines [] (file_of ls @ t) = ls @ scan_lines [] t"
proof (induction ls)
  case (Cons l ls)
  have "newline \<notin> set l \<Longrightarrow> scan_lines acc (l @ newline # s) = (acc @ l) # scan_lines [] s" for acc s
    by (induction l arbitrary: acc) auto
  with Cons show ?case by simp
qed simp

lemma file_of_append [simp]: "file_of (a @ b) = file_of a @ file_of b"
  by (simp add: file_of_def)

lemma line_sizes_file_of: "line_sizes ls = length (file_of ls)"
  by (induction ls) (simp_all add: line_sizes_def)

lemma events_of_simps [simp]:
  "events_of A p ks [] = []" "events_of A p ks (a @ b) = events_of A p ks a @ events_of A p ks b"
  by (simp_all add: events_of_def map_filter_simps List.map_filter_def)

text \<open>The contents at successive polls when lines are appended in batches.\<close>

fun grown :: "gostring list \<Rightarrow> gostring list list \<Rightarrow> gostring list" where
  "grown ls [] = []"
| "grown ls (b # bs) = file_of (ls @ b) # grown (ls @ b) bs"

lemma readNewLines_batch:
  assumes "\<forall>l \<in> set b. newline \<notin> set l"
  shows "readNewLines A p ks (length (file_of ls)) (file_of (ls @ b)) = (events_of A p ks b, length (file_of (ls @ b)))"
  using scan_lines_file_of [OF assms] by (cases b) (auto simp: readNewLines_def Let_def line_sizes_file_of)

text \<open>While writers append whole lines between the polls, a follower receives every event that is appended exactly once
  and in order, however the lines are spread over the polls.\<close>

theorem tail_exactly_once:
  assumes "\<forall>b \<in> set bs. \<forall>l \<in> set b. newline \<notin> set l"
  shows "audit_Tail A parse l (file_of ls) (grown ls bs) = events_of A parse (logger_keys l) (concat bs)"
  unfolding audit_Tail_def using assms
proof (induction bs arbitrary: ls)
  case (Cons b bs)
  from readNewLines_batch [of b A parse "logger_keys l" ls] Cons.prems
  have "readNewLines A parse (logger_keys l) (length (file_of ls)) (file_of (ls @ b)) =
    (events_of A parse (logger_keys l) b, length (file_of (ls @ b)))" by simp
  with Cons.IH [of "ls @ b"] Cons.prems show ?case by simp
qed simp

text \<open>When a write was torn, so that the file ends within a line, the offset the follower computes lies beyond the end,
  the next poll takes the file for a rotated one and sends the whole log again; and so does every poll after it.\<close>

theorem tail_replays_torn_log:
  assumes "\<forall>l \<in> set ls. newline \<notin> set l" and "newline \<notin> set t" and "t \<noteq> []"
    and "decodeAuditLine A parse (logger_keys l) t = None"
  shows "audit_Tail A parse l (file_of ls) (replicate (Suc n) (file_of ls @ t)) =
    concat (replicate n (events_of A parse (logger_keys l) ls))"
proof -
  let ?s = "file_of ls @ t" let ?k = "logger_keys l"
  have last: "scan_lines [] t = [t]" using assms(2,3) by (simp add: scan_lines_take take_lines_no_newline)
  have none: "events_of A parse ?k [t] = []" using assms(4) by (simp add: events_of_def List.map_filter_def)
  have one: "readNewLines A parse ?k (length (file_of ls)) ?s = ([], Suc (length ?s))"
    using assms(3) last none by (simp add: readNewLines_def Let_def line_sizes_def)
  have two: "readNewLines A parse ?k (Suc (length ?s)) ?s = (events_of A parse ?k ls, Suc (length ?s))"
    using assms(3) last none scan_lines_append_file [OF assms(1), of t]
    by (simp add: readNewLines_def Let_def line_sizes_file_of)
  have again: "tail_polls A parse ?k (Suc (length ?s)) (replicate n ?s) = concat (replicate n (events_of A parse ?k ls))" for n
    by (induction n) (simp_all add: two [simplified])
  show ?thesis by (simp add: audit_Tail_def one again [simplified])
qed

subsection \<open>Pruning\<close>

lemma line_header_event_line: "codec_ok A \<Longrightarrow> line_header A (event_line A l hdr nonce json) = Some hdr"
  using event_line_parts [of A l hdr nonce json] by (simp add: line_header_def codec_okD)

definition line_number :: "audit_crypto \<Rightarrow> gostring \<Rightarrow> int option" where
  "line_number A line = map_option ch_Seq (line_header A line)"

fun numbered :: "audit_crypto \<Rightarrow> nat \<Rightarrow> gostring list \<Rightarrow> bool" where
  "numbered A n [] = True"
| "numbered A n (x # xs) = (line_number A x = Some (int (Suc n)) \<and> numbered A (Suc n) xs)"

lemma lines_ok_numbered: "codec_ok A \<Longrightarrow> lines_ok A key K n prev ls \<Longrightarrow> numbered A n ls"
proof (induction A key K n prev ls rule: lines_ok.induct)
  case (2 A key K n prev line ls)
  then obtain l hdr nonce json where "line = event_line A l hdr nonce json" "ch_Seq hdr = int (Suc n)" by (auto simp: line_ok_def)
  then have "line_number A line = Some (int (Suc n))" using 2(2) by (simp add: line_number_def line_header_event_line)
  with 2 show ?case by simp
qed simp

lemma headers_ok_numbered: "headers_ok A key n prev ls \<Longrightarrow> numbered A n ls"
  by (induction A key n prev ls rule: headers_ok.induct) (auto simp: line_number_def)

lemma numbered_above: "numbered A n ls \<Longrightarrow> x \<in> set ls \<Longrightarrow> \<exists>i > n. line_number A x = Some (int i)"
  by (induction ls arbitrary: n) (auto dest: Suc_lessD)

lemma numbered_filter_prefix: "numbered A n ls \<Longrightarrow> numbered A n (filter P ls) \<Longrightarrow> prefix (filter P ls) ls"
proof (induction ls arbitrary: n)
  case (Cons x xs)
  show ?case
  proof (cases "P x")
    case True
    then show ?thesis using Cons.IH [of "Suc n"] Cons.prems by simp
  next
    case False
    have "filter P xs = []"
    proof (rule ccontr)
      assume ne: "filter P xs \<noteq> []"
      then have "line_number A (hd (filter P xs)) = Some (int (Suc n))"
        using Cons.prems(2) False by (cases "filter P xs") auto
      moreover have "hd (filter P xs) \<in> set xs" using hd_in_set [OF ne] by auto
      ultimately show False using numbered_above [of A "Suc n" xs] Cons.prems(1) by fastforce
    qed
    then show ?thesis using False by simp
  qed
qed simp

lemma lines_ok_prefix: "prefix ls' ls \<Longrightarrow> lines_ok A key K n prev ls \<Longrightarrow> lines_ok A key K n prev ls'"
proof (induction ls' arbitrary: n prev ls)
  case (Cons x ls')
  then show ?case by (cases ls) auto
qed simp

lemma audit_Prune_removed:
  fixes F :: audit_files
  assumes "pr_error (audit_Prune A parse io cutoff l F) = None" and "0 < pr_count (audit_Prune A parse io cutoff l F)"
    and "ls = filter (\<lambda>x. x \<noteq> []) (scan_lines [] (file_bytes F 0))"
  shows "pr_files (audit_Prune A parse io cutoff l F) = F(0 \<mapsto> file_of (filter (prune_keeps A parse (logger_keys l) cutoff) ls))"
    "pr_count (audit_Prune A parse io cutoff l F) = length ls - length (filter (prune_keeps A parse (logger_keys l) cutoff) ls)"
  using assms(1,2) unfolding audit_Prune_def Let_def assms(3) [symmetric]
  by (cases io; simp split: if_splits sum.splits)+

text \<open>C36: Pruning a log that verifies rewrites it to the lines that do not decode or are not older than the cutoff, in order;
  the result verifies exactly when only lines at the end were removed. So removing the oldest entries and keeping any
  makes the verification of an untampered log fail.\<close>

theorem prune_verifies_iff:
  assumes "codec_ok A" and "lines_ok A (au_ChainKey A salt) K 0 [] ls" and "deks_cover deks K" and "F 0 = Some (file_of ls)"
    and "res = audit_Prune A parse io cutoff l F" and "pr_error res = None" and "0 < pr_count res"
    and "kept = filter (prune_keeps A parse (logger_keys l) cutoff) ls"
  shows "pr_files res = F(0 \<mapsto> file_of kept) \<and> length kept + pr_count res = length ls \<and>
    (\<exists>r. VerifyChain A salt deks (Some (file_of kept)) = Inr r \<and> (cr_FirstBad r = None \<longleftrightarrow> prefix kept ls)) \<and>
    (kept \<noteq> [] \<longrightarrow> hd kept \<noteq> hd ls \<longrightarrow> \<not> prefix kept ls)"
proof -
  have "ls = filter (\<lambda>x. x \<noteq> []) (scan_lines [] (file_bytes F 0))"
    using scan_audit_lines [OF assms(1,2)] assms(4) by (simp add: audit_lines_def file_bytes_def)
  from audit_Prune_removed [OF assms(6,7) [unfolded assms(5)] this]
  have p: "pr_files res = F(0 \<mapsto> file_of kept)" "pr_count res = length ls - length kept"
    unfolding assms(5,8) by blast+
  have len: "length kept \<le> length ls" by (simp add: assms(8))
  obtain r where r: "VerifyChain A salt deks (Some (file_of kept)) = Inr r" by (auto simp: VerifyChain_def)
  have al: "audit_lines (file_of kept) = kept"
  proof -
    have "\<forall>x \<in> set kept. newline \<notin> set x \<and> x \<noteq> []" using lines_ok_no_newline [OF assms(1,2)] by (auto simp: assms(8))
    then show ?thesis by (simp add: audit_lines_def scan_lines_file_of filter_id_conv)
  qed
  have "prefix kept ls" if "cr_FirstBad r = None"
  proof -
    have "numbered A 0 kept" using headers_ok_numbered VerifyChain_headers [OF r that] unfolding al by blast
    then show ?thesis using numbered_filter_prefix lines_ok_numbered [OF assms(1,2)] unfolding assms(8) by blast
  qed
  moreover have "cr_FirstBad r = None" if "prefix kept ls"
    using VerifyChain_file_ok [OF assms(1,3) lines_ok_prefix [OF that assms(2)]] r by simp
  moreover have "\<not> prefix kept ls" if "kept \<noteq> []" "hd kept \<noteq> hd ls"
    using that by (cases kept; cases ls) auto
  ultimately show ?thesis using p len r by auto
qed

subsection \<open>Retention and redaction\<close>

text \<open>A sweep removes only regular files that are numbered generations of the log and older than the cutoff, all of them
  that can be removed, and never the live log.\<close>

theorem sweep_exact:
  assumes "RunAuditRetentionSweep base cutoff (Some ds) = (failed, Some rest)"
  shows "rest = filter (\<lambda>d. \<not> (sweep_selects base cutoff d \<and> le_Removable d)) ds \<and>
    (\<forall>d \<in> set ds. d \<notin> set rest \<longrightarrow> (\<exists>n t. le_Name d = base @ ''.'' @ n \<and> n \<noteq> [] \<and> list_all is_digit n \<and> \<not> le_IsDir d \<and>
       le_ModTime d = Some t \<and> t < cutoff)) \<and>
    (\<forall>d \<in> set ds. le_Name d = base \<longrightarrow> d \<in> set rest) \<and> (failed \<longleftrightarrow> (\<exists>d \<in> set rest. sweep_selects base cutoff d))"
proof -
  have sel: "\<exists>n t. le_Name d = base @ ''.'' @ n \<and> n \<noteq> [] \<and> list_all is_digit n \<and> \<not> le_IsDir d \<and> le_ModTime d = Some t \<and> t < cutoff"
    if s: "sweep_selects base cutoff d" for d
  proof -
    from s obtain t where t: "\<not> le_IsDir d" "isGeneration (le_Name d) (base @ ''.'')" "le_ModTime d = Some t" "t < cutoff"
      by (auto simp: sweep_selects_def split: option.splits)
    then obtain n where "le_Name d = (base @ ''.'') @ n" by (auto simp: isGeneration_def HasPrefix_prefix prefix_def)
    with t show ?thesis by (auto simp: isGeneration_def)
  qed
  have "\<not> sweep_selects base cutoff d" if "le_Name d = base" for d
    using that sel [of d] by (metis append_self_conv append_is_Nil_conv not_Cons_self2)
  with sel assms show ?thesis by (fastforce simp: RunAuditRetentionSweep_def)
qed

text \<open>Every action of the completeness check has an entry, so the check never panics; eight actions the package declares
  are not in its list, have no entry, and log every field only as a hash.\<close>

theorem allowlist_covers_checked_actions:
  "(\<forall>a \<in> set AllActions. map_of safeLogFields a \<noteq> None) \<and>
   filter (\<lambda>a. map_of safeLogFields a = None) declared_actions =
     [''trust_unwrap'', ''trust_enroll'', ''trust_revoke'', ''trust_challenge'', ''trust_approve'', ''gateway_token_mint'',
      ''gateway_token_revoke'', ''substitution_blocked''] \<and>
   (\<forall>a mac sprint salt kvs. map_of safeLogFields a = None \<longrightarrow>
      redact_fields mac sprint salt a (Some kvs) = Some (map (\<lambda>(k, v). (k, Hashed (mac salt (sprint v)))) kvs))"
proof -
  have "\<forall>a \<in> set AllActions. map_of safeLogFields a \<noteq> None" by code_simp
  moreover have "filter (\<lambda>a. map_of safeLogFields a = None) declared_actions =
     [''trust_unwrap'', ''trust_enroll'', ''trust_revoke'', ''trust_challenge'', ''trust_approve'', ''gateway_token_mint'',
      ''gateway_token_revoke'', ''substitution_blocked'']" by code_simp
  ultimately show ?thesis by (simp add: redact_fields_def Let_def)
qed

subsection \<open>Instances\<close>

definition test_event :: "gotime \<Rightarrow> audit_event" where
  "test_event t = (rotate_event t [])"

definition test_parser :: event_parser where
  "test_parser p = (if p = ''init'' then Some (test_event 1) else Some (test_event 9))"

definition test_second :: gostring where
  "test_second = event_line test_crypto test_logger \<lparr>ch_Seq = 2, ch_PrevHMAC = test_line, ch_TS = 9\<rparr> (replicate 24 (CHR ''n'')) ''more''"

lemma test_lines_ok: "lines_ok test_crypto (au_ChainKey test_crypto ''s'') {''k''} 0 [] [test_line, test_second]"
proof -
  have "line_ok test_crypto {''k''} 2 test_line test_second"
    unfolding test_second_def by (rule line_okI) (simp_all add: test_logger_def)
  then show ?thesis using test_line_ok by (simp add: test_crypto_def numeral_2_eq_2)
qed

lemma test_keys: "logger_keys test_logger = [''k'']" by (simp add: logger_keys_def test_logger_def)

lemma test_decodes:
  "decodeAuditLine test_crypto test_parser (logger_keys test_logger) test_line = Some (test_event 1)"
  "decodeAuditLine test_crypto test_parser (logger_keys test_logger) test_second = Some (test_event 9)"
  unfolding test_line_def test_second_def
  by (subst decode_event_line [OF test_codec]; simp add: logger_keys_def test_parser_def)+

lemma test_lines_plain: "newline \<notin> set test_line" "test_line \<noteq> []" "newline \<notin> set test_second" "test_second \<noteq> []"
  using lines_ok_no_newline [OF test_codec test_lines_ok] by auto

theorem tail_exactly_once_witness:
  "audit_Tail test_crypto test_parser test_logger [] [file_of [test_line], file_of [test_line, test_second]] =
    [test_event 1, test_event 9]"
  using tail_exactly_once [of "[[test_line], [test_second]]" test_crypto test_parser test_logger "[]"] test_lines_plain test_decodes
  by (simp add: events_of_def List.map_filter_def)

theorem tail_replays_torn_log_witness:
  "audit_Tail test_crypto test_parser test_logger (file_of [test_line]) (replicate 3 (file_of [test_line] @ ''x'')) =
    [test_event 1, test_event 1]"
proof -
  have "newline \<notin> set ''x''" by simp
  moreover have "decodeAuditLine test_crypto test_parser (logger_keys test_logger) ''x'' = None"
    by (simp add: decodeAuditLine_def numeral_2_eq_2 Cut_def)
  ultimately show ?thesis
    using tail_replays_torn_log [of "[test_line]" "''x''" test_crypto test_parser test_logger 2] test_lines_plain test_decodes
    by (simp add: events_of_def List.map_filter_def eval_nat_numeral)
qed

theorem prune_verifies_iff_witness:
  "\<exists>res r. audit_Prune test_crypto test_parser PruneOk 5 test_logger [0 \<mapsto> file_of [test_line, test_second]] = res \<and>
     pr_count res = 1 \<and> pr_error res = None \<and>
     VerifyChain test_crypto ''s'' None (pr_files res 0) = Inr r \<and> cr_FirstBad r \<noteq> None"
proof -
  let ?ls = "[test_line, test_second]" let ?F = "[0 \<mapsto> file_of ?ls]"
  let ?res = "audit_Prune test_crypto test_parser PruneOk 5 test_logger ?F"
  let ?kept = "filter (prune_keeps test_crypto test_parser (logger_keys test_logger) 5) ?ls"
  have kept: "?kept = [test_second]" using test_decodes by (simp add: prune_keeps_def test_event_def rotate_event_def)
  have scan: "filter (\<lambda>x. x \<noteq> []) (scan_lines [] (file_bytes ?F 0)) = ?ls"
    using test_lines_plain scan_lines_file_of [of ?ls] by (simp add: file_bytes_def)
  have "TrimRight_newlines (readLastLine (file_of ([] @ [test_second]))) = test_second"
    using test_lines_plain by (intro last_line_file_of)
  then have "\<exists>l'. seedChainState test_crypto l (?F(0 \<mapsto> file_of [test_second])) = Inr l'" for l
    using event_line_parts(3) [OF test_codec, of test_logger] test_lines_plain
    by (auto simp: seedChainState_def file_bytes_def test_second_def codec_okD [OF test_codec] Let_def)
  then obtain l' where "seedChainState test_crypto (test_logger\<lparr>lg_seq := 0, lg_prevHMAC := []\<rparr>) (?F(0 \<mapsto> file_of [test_second])) = Inr l'"
    by blast
  then have res: "pr_count ?res = 1" "pr_error ?res = None"
    unfolding audit_Prune_def Let_def scan kept by (simp_all add: test_logger_def)
  have ne: "test_second \<noteq> test_line"
  proof
    assume "test_second = test_line"
    then have "Some (test_event 9) = Some (test_event 1)" using test_decodes by metis
    then show False by (simp add: test_event_def rotate_event_def)
  qed
  have "deks_cover None {''k''}" by (simp add: deks_cover_def)
  from prune_verifies_iff [OF test_codec test_lines_ok this _ refl res(2) _ refl] res(1)
  obtain r where r: "pr_files ?res = ?F(0 \<mapsto> file_of ?kept)" "VerifyChain test_crypto ''s'' None (Some (file_of ?kept)) = Inr r"
    "cr_FirstBad r = None \<longleftrightarrow> prefix ?kept ?ls" by auto
  then have "cr_FirstBad r \<noteq> None" using ne unfolding kept by simp
  with r res show ?thesis by auto
qed

definition sample_log_dir :: "log_dir_entry list" where
  "sample_log_dir =
    [\<lparr>le_Name = ''a.log'', le_IsDir = False, le_ModTime = Some 1, le_Removable = True\<rparr>,
     \<lparr>le_Name = ''a.log.1'', le_IsDir = False, le_ModTime = Some 1, le_Removable = True\<rparr>]"

theorem sweep_exact_witness:
  "\<exists>rest. RunAuditRetentionSweep ''a.log'' 5 (Some sample_log_dir) = (False, Some rest) \<and> hd sample_log_dir \<in> set rest \<and> length rest = 1"
proof -
  have r: "RunAuditRetentionSweep ''a.log'' 5 (Some sample_log_dir) = (False, Some [hd sample_log_dir])" by code_simp
  from sweep_exact [OF r] have "hd sample_log_dir \<in> set [hd sample_log_dir]" by (simp add: sample_log_dir_def)
  with r show ?thesis by simp
qed

end
