(* ===== verification/UI_Server.thy ===== *)
theory UI_Server
  imports Gateway_Handler Agent_Session
begin

section \<open>The user interface server (\<open>internal/ui\<close>)\<close>

text \<open>
  \<open>server.go\<close>, \<open>scope.go\<close>, \<open>ratelimit.go\<close>, \<open>middleware.go\<close>, \<open>bind_resolve.go\<close>, \<open>session/session.go\<close>, \<open>csrf/csrf.go\<close>,
  and of \<open>api\<close> the settings, the receipts and the gateway's stub: what a request has to pass before a handler runs. The
  handlers that only render or forward to packages modelled elsewhere are parameters, as are cookie parsing, the HMAC,
  JSON and random numbers. The mux routes by the segments of the path, each unescaped; a trailing slash is a last
  segment \<open>/\<close>, as in \<open>net/http\<close>.
\<close>

subsection \<open>Scopes\<close>

datatype ui_scope = ScopeStatusOnly | ScopeSetup | ScopeAdmin | ScopeTokenMinting

fun scope_level :: "ui_scope \<Rightarrow> nat" where
  "scope_level ScopeStatusOnly = 0" | "scope_level ScopeSetup = 1" | "scope_level ScopeAdmin = 2" | "scope_level ScopeTokenMinting = 3"

lemma scope_level_inject [simp]: "scope_level a = scope_level b \<longleftrightarrow> a = b"
  by (cases a; cases b) auto

instantiation ui_scope :: linorder
begin

definition less_eq_ui_scope :: "ui_scope \<Rightarrow> ui_scope \<Rightarrow> bool" where "less_eq_ui_scope a b = (scope_level a \<le> scope_level b)"
definition less_ui_scope :: "ui_scope \<Rightarrow> ui_scope \<Rightarrow> bool" where "less_ui_scope a b = (scope_level a < scope_level b)"

instance
  by intro_classes (auto simp: less_eq_ui_scope_def less_ui_scope_def)

end

lemma above_status_only [simp]: "ScopeStatusOnly < s \<longleftrightarrow> s \<noteq> ScopeStatusOnly"
  by (cases s) (auto simp: less_ui_scope_def)

definition DefaultScope :: "bool \<Rightarrow> ui_scope" where "DefaultScope isLLM = (if isLLM then ScopeStatusOnly else ScopeAdmin)"

definition ScopeFilter :: "ui_scope \<Rightarrow> ui_scope \<Rightarrow> bool" where "ScopeFilter have need = (need \<le> have)"

fun scope_String :: "ui_scope \<Rightarrow> gostring" where
  "scope_String ScopeStatusOnly = ''status-only''" | "scope_String ScopeSetup = ''setup''"
| "scope_String ScopeAdmin = ''admin''" | "scope_String ScopeTokenMinting = ''token-minting''"

definition ParseScope :: "gostring \<Rightarrow> ui_scope option" where
  "ParseScope s =
    (if s = ''status-only'' then Some ScopeStatusOnly else if s = ''setup'' then Some ScopeSetup
     else if s = ''admin'' then Some ScopeAdmin else if s = ''token-minting'' then Some ScopeTokenMinting else None)"

text \<open>\<open>ResolveBindAddr\<close>: the address and whether an external one was asked for.\<close>

definition ResolveBindAddr :: "nat \<Rightarrow> gostring \<Rightarrow> bool \<Rightarrow> lookup option \<Rightarrow> gostring \<times> bool" where
  "ResolveBindAddr port listenFlag unsafeBindAll env =
    (if listenFlag \<noteq> [] then (listenFlag, True)
     else (let v = (case env of None \<Rightarrow> [] | Some f \<Rightarrow> f ''KEYLATCH_UI_LISTEN'') in
       if v \<noteq> [] then (v, True)
       else if unsafeBindAll then (''0.0.0.0:'' @ decimal port, True) else (''127.0.0.1:'' @ decimal port, False)))"

subsection \<open>Sessions\<close>

record ui_session =
  se_id :: gostring
  se_key :: gostring
  se_token :: gostring
  se_consumed :: bool
  se_expiresAt :: gotime

datatype session_error = ErrTokenConsumed | ErrTokenExpired | ErrInvalidHMAC | ErrUnknownSession | SigningKeyLength | SessionRandom

definition sessionTTL :: duration where "sessionTTL = 8 * Hour"

text \<open>The token and the identifier are hexadecimal random bytes, \<open>None\<close> when the source fails.\<close>

definition session_New :: "gostring \<Rightarrow> gostring option \<Rightarrow> gostring option \<Rightarrow> gotime \<Rightarrow> session_error + ui_session" where
  "session_New signingKey rawToken rawID now =
    (if length signingKey \<noteq> 32 then Inl SigningKeyLength
     else (case rawToken of None \<Rightarrow> Inl SessionRandom
     | Some t \<Rightarrow>
        (case rawID of None \<Rightarrow> Inl SessionRandom
         | Some i \<Rightarrow> Inr \<lparr>se_id = i, se_key = signingKey, se_token = t, se_consumed = False, se_expiresAt = now + sessionTTL\<rparr>)))"

type_synonym mac_fun = "gostring \<Rightarrow> gostring \<Rightarrow> gostring"

definition session_URL :: "mac_fun \<Rightarrow> gostring \<Rightarrow> ui_session \<Rightarrow> gostring" where
  "session_URL mac base s = base @ ''/__bootstrap?b='' @ se_token s @ ''&mac='' @ mac (se_key s) (se_token s)"

definition ConsumeBootstrap :: "mac_fun \<Rightarrow> gotime \<Rightarrow> gostring \<Rightarrow> gostring \<Rightarrow> ui_session \<Rightarrow> (session_error + gostring) \<times> ui_session" where
  "ConsumeBootstrap mac now tok m s =
    (if se_consumed s then (Inl ErrTokenConsumed, s)
     else if now > se_expiresAt s then (Inl ErrTokenExpired, s)
     else if m \<noteq> mac (se_key s) tok then (Inl ErrInvalidHMAC, s)
     else if tok \<noteq> se_token s then (Inl ErrInvalidHMAC, s)
     else (Inr (se_id s), s\<lparr>se_consumed := True\<rparr>))"

type_synonym cookies = "gostring \<Rightarrow> gostring option"

definition ValidateRequest :: "gotime \<Rightarrow> cookies \<Rightarrow> ui_session \<Rightarrow> session_error option" where
  "ValidateRequest now cookie s =
    (if now > se_expiresAt s then Some ErrTokenExpired
     else (case cookie ''kl_session'' of None \<Rightarrow> Some ErrUnknownSession
           | Some v \<Rightarrow> if v \<noteq> se_id s then Some ErrUnknownSession else None))"

subsection \<open>The double-submitted token\<close>

datatype csrf_error = CSRFMissing | CSRFMismatch

definition csrf_Validate :: "cookies \<Rightarrow> http_request \<Rightarrow> csrf_error option" where
  "csrf_Validate cookie r =
    (case cookie ''kl_csrf'' of None \<Rightarrow> Some CSRFMissing
     | Some v \<Rightarrow>
         if v = [] then Some CSRFMissing
         else let h = header_Get (hr_Header r) ''X-CSRF-Token'' in
           if h = [] then Some CSRFMissing else if v \<noteq> h then Some CSRFMismatch else None)"

definition safe_method :: "gostring \<Rightarrow> bool" where
  "safe_method m = (m \<in> {''GET'', ''HEAD'', ''OPTIONS''})"

subsection \<open>The rate limiter\<close>

record limit_entry =
  li_failures :: nat
  li_resetAt :: gotime

type_synonym rate_limiter = "gostring \<Rightarrow> limit_entry option"

definition maxFailures :: nat where "maxFailures = 5"
definition limit_window :: duration where "limit_window = 15 * Minute"

definition extractIP :: "(gostring \<Rightarrow> gostring option) \<Rightarrow> gostring \<Rightarrow> gostring" where
  "extractIP split remote = (case split remote of None \<Rightarrow> remote | Some host \<Rightarrow> host)"

definition checkAndRecord :: "gotime \<Rightarrow> gostring \<Rightarrow> rate_limiter \<Rightarrow> bool \<times> rate_limiter" where
  "checkAndRecord now ip l =
    (let fresh = l(ip \<mapsto> \<lparr>li_failures = 1, li_resetAt = now + limit_window\<rparr>) in
     case l ip of None \<Rightarrow> (False, fresh)
     | Some e \<Rightarrow>
         if now > li_resetAt e then (False, fresh)
         else if li_failures e \<ge> maxFailures then (True, l)
         else (False, l(ip \<mapsto> e\<lparr>li_failures := Suc (li_failures e)\<rparr>)))"

definition isBlocked :: "gotime \<Rightarrow> gostring \<Rightarrow> rate_limiter \<Rightarrow> bool \<times> rate_limiter" where
  "isBlocked now ip l =
    (case l ip of None \<Rightarrow> (False, l)
     | Some e \<Rightarrow> if now > li_resetAt e then (False, l(ip := None)) else (li_failures e \<ge> maxFailures, l))"

definition recordSuccess :: "gostring \<Rightarrow> rate_limiter \<Rightarrow> rate_limiter" where
  "recordSuccess ip l = l(ip := None)"

text \<open>What the limiter does after its handler; a handler that set no status counts as success. The result of
  \<open>checkAndRecord\<close> is not used.\<close>

definition limiter_after :: "gotime \<Rightarrow> gostring \<Rightarrow> nat option \<Rightarrow> rate_limiter \<Rightarrow> rate_limiter" where
  "limiter_after now ip status l =
    (if status = Some 401 then snd (checkAndRecord now ip l)
     else if status \<in> {None, Some 200, Some 303} then recordSuccess ip l else l)"

subsection \<open>Settings\<close>

record settings =
  st_ttl :: int
  st_maxTTL :: int
  st_advanced :: bool
  st_mode :: gostring
  st_telemetryDisable :: bool
  st_experimental :: bool
  st_policy :: gostring

definition NewSettingsStore :: settings where
  "NewSettingsStore = \<lparr>st_ttl = 60, st_maxTTL = 3600, st_advanced = False, st_mode = ''standard'', st_telemetryDisable = False,
     st_experimental = False, st_policy = ''prompt''\<rparr>"

definition validOperatingModes :: "gostring list" where "validOperatingModes = [''standard'', ''telemetry'', ''canary'', ''custom'']"
definition validApprovalPolicies :: "gostring list" where "validApprovalPolicies = [''trust'', ''first-run'', ''prompt'']"

definition SetTTL :: "int \<Rightarrow> settings \<Rightarrow> settings" where
  "SetTTL requested s =
    (let r = (if requested < 1 then 1 else requested) in s\<lparr>st_ttl := (if r > st_maxTTL s then st_maxTTL s else r)\<rparr>)"

definition SetOperatingMode :: "gostring \<Rightarrow> settings \<Rightarrow> settings option" where
  "SetOperatingMode m s = (if m \<notin> set validOperatingModes then None else Some (s\<lparr>st_mode := m\<rparr>))"

definition SetApprovalPolicy :: "gostring \<Rightarrow> settings \<Rightarrow> settings option" where
  "SetApprovalPolicy p s = (if p \<notin> set validApprovalPolicies then None else Some (s\<lparr>st_policy := p\<rparr>))"

record settings_put =
  pu_ttl :: "int option"
  pu_advanced :: "bool option"
  pu_mode :: "gostring option"
  pu_telemetryDisable :: "bool option"
  pu_experimental :: "bool option"
  pu_policy :: "gostring option"

definition put_empty :: "settings_put \<Rightarrow> bool" where
  "put_empty p = (pu_ttl p = None \<and> pu_advanced p = None \<and> pu_mode p = None \<and> pu_telemetryDisable p = None \<and>
     pu_experimental p = None \<and> pu_policy p = None)"

text \<open>The fields one after another; an invalid value stops with what was stored before it.\<close>

definition apply_settings :: "settings_put \<Rightarrow> settings \<Rightarrow> gostring option \<times> settings" where
  "apply_settings p s0 =
    (let s1 = (case pu_ttl p of None \<Rightarrow> s0 | Some v \<Rightarrow> SetTTL v s0);
         s2 = (case pu_advanced p of None \<Rightarrow> s1 | Some v \<Rightarrow> s1\<lparr>st_advanced := v\<rparr>) in
     case (case pu_mode p of None \<Rightarrow> Some s2 | Some m \<Rightarrow> SetOperatingMode m s2) of None \<Rightarrow> (Some ''bad request: invalid operating_mode value'', s2)
     | Some s3 \<Rightarrow>
        (let s4 = (case pu_telemetryDisable p of None \<Rightarrow> s3 | Some v \<Rightarrow> s3\<lparr>st_telemetryDisable := v\<rparr>);
             s5 = (case pu_experimental p of None \<Rightarrow> s4 | Some v \<Rightarrow> s4\<lparr>st_experimental := v\<rparr>) in
         case (case pu_policy p of None \<Rightarrow> Some s5 | Some v \<Rightarrow> SetApprovalPolicy v s5) of None \<Rightarrow> (Some ''bad request: invalid approval_policy value'', s5)
         | Some s6 \<Rightarrow> (None, s6)))"

text \<open>The status and the message of an error, and the settings after the request; the body is \<open>None\<close> when it is not JSON.\<close>

definition settings_handler :: "settings_put option \<Rightarrow> gostring \<Rightarrow> settings \<Rightarrow> (nat \<times> gostring) option \<times> settings" where
  "settings_handler body m s =
    (if m = ''GET'' then (None, s)
     else if m = ''PUT'' then
       (case body of None \<Rightarrow> (Some (400, ''bad request: invalid JSON''), s)
        | Some p \<Rightarrow>
            if put_empty p then (Some (400, ''bad request: at least one settings field is required''), s)
            else (case apply_settings p s of (e, s') \<Rightarrow> (map_option (Pair 400) e, s')))
     else (Some (405, ''method not allowed''), s))"

subsection \<open>Receipts\<close>

record 'r receipt_store =
  rs_entries :: "'r list"
  rs_cap :: int
  rs_subs :: "(nat \<times> 'r list) list"

definition NewReceiptStore :: "int \<Rightarrow> 'r receipt_store" where
  "NewReceiptStore c = \<lparr>rs_entries = [], rs_cap = (if c \<le> 0 then 100 else c), rs_subs = []\<rparr>"

text \<open>Subscribers have a buffer of eight; a full one misses the receipt.\<close>

definition receipt_Push :: "'r \<Rightarrow> 'r receipt_store \<Rightarrow> 'r receipt_store" where
  "receipt_Push r s =
    (let es = (if int (length (rs_entries s)) \<ge> rs_cap s then tl (rs_entries s) else rs_entries s) in
     s\<lparr>rs_entries := es @ [r], rs_subs := map (\<lambda>(i, q). (i, if length q < 8 then q @ [r] else q)) (rs_subs s)\<rparr>)"

definition receipt_Last :: "int \<Rightarrow> 'r receipt_store \<Rightarrow> 'r list" where
  "receipt_Last n s =
    (if n \<le> 0 \<or> n \<ge> int (length (rs_entries s)) then rs_entries s
     else drop (length (rs_entries s) - nat n) (rs_entries s))"

definition receipt_subscribe :: "nat \<Rightarrow> 'r receipt_store \<Rightarrow> 'r receipt_store" where
  "receipt_subscribe i s = s\<lparr>rs_subs := rs_subs s @ [(i, [])]\<rparr>"

fun remove_sub :: "nat \<Rightarrow> (nat \<times> 'r list) list \<Rightarrow> (nat \<times> 'r list) list" where
  "remove_sub i [] = []"
| "remove_sub i ((j, q) # ss) = (if j = i then ss else (j, q) # remove_sub i ss)"

definition receipt_unsubscribe :: "nat \<Rightarrow> 'r receipt_store \<Rightarrow> 'r receipt_store" where
  "receipt_unsubscribe i s = s\<lparr>rs_subs := remove_sub i (rs_subs s)\<rparr>"

text \<open>The limit of a listing; \<open>None\<close> is a bad request.\<close>

definition receipts_limit :: "(gostring \<Rightarrow> int option) \<Rightarrow> gostring \<Rightarrow> int option" where
  "receipts_limit atoi raw =
    (if raw = [] then Some 20 else (case atoi raw of None \<Rightarrow> None | Some n \<Rightarrow> if n < 1 then None else Some (if n > 100 then 100 else n)))"

definition push_receipt :: "gostring \<Rightarrow> 'r option \<Rightarrow> http_request \<Rightarrow> 'r receipt_store \<Rightarrow> nat \<times> 'r receipt_store" where
  "push_receipt ipcSecret body r s =
    (if hr_Method r \<noteq> ''POST'' then (405, s)
     else if ipcSecret \<noteq> [] \<and> header_Get (hr_Header r) ''X-Keylatch-IPC-Secret'' \<noteq> ipcSecret then (401, s)
     else (case body of None \<Rightarrow> (400, s) | Some x \<Rightarrow> (204, receipt_Push x s)))"

subsection \<open>Making a server\<close>

record ui_options =
  uo_Bind :: gostring
  uo_SigningKey :: gostring
  uo_Scope :: ui_scope
  uo_Demo :: bool
  uo_AllowExternalBind :: bool
  uo_IPCSecret :: gostring

datatype ui_new_error = UIExternalInLLM | UIExternalNeedsFlag | UIKeyLength | UISession session_error

text \<open>\<open>split\<close> and \<open>parse_ip\<close> are \<open>net.SplitHostPort\<close> and \<open>net.ParseIP\<close>; the options after the ceiling are the server's.\<close>

definition ui_New :: "(gostring \<Rightarrow> gostring option) \<Rightarrow> (gostring \<Rightarrow> ipaddr option) \<Rightarrow> session_env \<Rightarrow> lookup \<Rightarrow> gostring option \<Rightarrow>
    gostring option \<Rightarrow> gotime \<Rightarrow> ui_options \<Rightarrow> ui_new_error + ui_options \<times> ui_session" where
  "ui_New split parse_ip SE env rawToken rawID now opts0 =
    (let opts1 = (if uo_Bind opts0 = [] then opts0\<lparr>uo_Bind := ''127.0.0.1:7890''\<rparr> else opts0);
         isLLM = IsLLMSession SE env in
     if \<not> isLoopbackBind split parse_ip (uo_Bind opts1) \<and> isLLM then Inl UIExternalInLLM
     else if \<not> isLoopbackBind split parse_ip (uo_Bind opts1) \<and> \<not> uo_AllowExternalBind opts1 then Inl UIExternalNeedsFlag
     else
       (let opts = (if isLLM \<and> uo_Scope opts1 > ScopeStatusOnly then opts1\<lparr>uo_Scope := ScopeStatusOnly\<rparr> else opts1) in
        if length (uo_SigningKey opts) \<noteq> 32 then Inl UIKeyLength
        else (case session_New (uo_SigningKey opts) rawToken rawID now of Inl e \<Rightarrow> Inl (UISession e)
              | Inr s \<Rightarrow> Inr (opts, s))))"

definition BootstrapURL :: "mac_fun \<Rightarrow> ui_options \<Rightarrow> ui_session \<Rightarrow> gostring" where
  "BootstrapURL mac opts s = session_URL mac (''http://'' @ uo_Bind opts) s"

subsection \<open>Routes\<close>

datatype ui_endpoint =
  EHealth | EMetrics | EBootstrap | ECSRF | EStatus | ESettings | ENotFound | ESPA
| EConnections | EClear | EConnectionDetail | EPasswordManagers | EPMBrowse | EDoctor | EApprovals | EGateway | EBroker
| EAudit | EAgent | EExperimental | EWizardBootstrap | EBackends | EProviders | EProviderDetail | EConnect | EAgentSetup
| EReadiness | EReceipts | EReceiptStream | EApprovalsV1

datatype ui_guard = Open | Limited | WithSession | WithSessionCSRF

text \<open>A pattern is its segments, whether it ends in a slash, the middleware and the handler.\<close>

type_synonym ui_pattern = "gostring list \<times> bool \<times> ui_guard \<times> ui_endpoint"

definition base_routes :: "ui_pattern list" where
  "base_routes =
    [([''health''], False, Open, EHealth), ([''metrics''], False, Open, EMetrics),
     ([''__bootstrap''], False, Limited, EBootstrap), ([''api'', ''csrf''], False, Limited, ECSRF),
     ([''api'', ''status''], False, WithSession, EStatus), ([''api'', ''settings''], False, WithSessionCSRF, ESettings)]"

definition setup_routes :: "ui_pattern list" where
  "setup_routes =
    [([''api'', ''connections''], False, WithSessionCSRF, EConnections),
     ([''api'', ''connections'', ''clear''], False, WithSessionCSRF, EClear),
     ([''api'', ''connections''], True, WithSessionCSRF, EConnectionDetail),
     ([''api'', ''password-managers''], False, WithSession, EPasswordManagers),
     ([''api'', ''pm-browse''], False, WithSession, EPMBrowse),
     ([''api'', ''doctor''], False, WithSession, EDoctor),
     ([''api'', ''runtime'', ''doctor''], True, WithSession, EDoctor),
     ([''api'', ''approvals''], False, WithSession, EApprovals),
     ([''api'', ''approvals''], True, WithSessionCSRF, EApprovals),
     ([''api'', ''gateway''], True, WithSessionCSRF, EGateway),
     ([''api'', ''broker''], True, WithSessionCSRF, EBroker),
     ([''api'', ''audit''], True, WithSession, EAudit),
     ([''api'', ''agent''], True, WithSessionCSRF, EAgent)]"

definition v1_routes :: "ui_pattern list" where
  "v1_routes =
    [([''v1'', ''health''], False, Open, EHealth), ([''v1'', ''status''], False, WithSession, EStatus),
     ([''v1'', ''connections''], False, WithSessionCSRF, EConnections),
     ([''v1'', ''config'', ''experimental''], False, Open, EExperimental),
     ([''v1'', ''bootstrap''], False, WithSessionCSRF, EWizardBootstrap),
     ([''v1'', ''backends''], False, WithSession, EBackends), ([''v1'', ''providers''], False, WithSession, EProviders),
     ([''v1'', ''providers''], True, WithSession, EProviderDetail),
     ([''v1'', ''connect''], False, WithSessionCSRF, EConnect),
     ([''v1'', ''agent'', ''setup''], False, WithSessionCSRF, EAgentSetup),
     ([''v1'', ''health'', ''readiness''], False, WithSession, EReadiness),
     ([''v1'', ''receipts''], False, Open, EReceipts),
     ([''v1'', ''receipts'', ''stream''], False, WithSession, EReceiptStream),
     ([''v1'', ''approvals''], False, WithSession, EApprovalsV1),
     ([''v1'', ''approvals''], True, WithSessionCSRF, EApprovalsV1)]"

definition registerRoutes :: "ui_scope \<Rightarrow> ui_pattern list" where
  "registerRoutes scope = base_routes @
    (if scope > ScopeStatusOnly then setup_routes @ v1_routes @ [([], True, Open, ESPA)]
     else [([''api''], True, Open, ENotFound), ([], True, Open, ESPA)])"

text \<open>The segments of an escaped path, and the tree walk: the literal segments first, then the longest prefix with a
  pattern that ends in a slash, which needs something after it.\<close>

definition path_segments :: "(gostring \<Rightarrow> gostring) \<Rightarrow> gostring \<Rightarrow> gostring list" where
  "path_segments unescape p =
    (if p = [] then []
     else (let xs = split_slash (drop 1 p) in
           map unescape (butlast xs) @ [if last xs = [] then ''/'' else unescape (last xs)]))"

definition find_pattern :: "ui_pattern list \<Rightarrow> bool \<Rightarrow> gostring list \<Rightarrow> (ui_guard \<times> ui_endpoint) option" where
  "find_pattern rs sub p = map_option (\<lambda>(_, _, g, e). (g, e)) (find (\<lambda>(q, t, _). q = p \<and> t = sub) rs)"

fun find_subtree :: "ui_pattern list \<Rightarrow> gostring list \<Rightarrow> nat \<Rightarrow> (ui_guard \<times> ui_endpoint) option" where
  "find_subtree rs segs 0 = None"
| "find_subtree rs segs (Suc k) =
    (case find_pattern rs True (take k segs) of Some x \<Rightarrow> Some x | None \<Rightarrow> find_subtree rs segs k)"

datatype ui_target = ToRedirect | ToNothing | ToEndpoint ui_guard ui_endpoint

definition mux_find :: "ui_pattern list \<Rightarrow> gostring list \<Rightarrow> ui_target" where
  "mux_find rs segs =
    (case find_pattern rs False segs of Some (g, e) \<Rightarrow> ToEndpoint g e
     | None \<Rightarrow>
         if find_pattern rs True segs \<noteq> None then ToRedirect
         else (case find_subtree rs segs (length segs) of Some (g, e) \<Rightarrow> ToEndpoint g e | None \<Rightarrow> ToNothing))"

subsection \<open>Handlers\<close>

text \<open>
  \<open>uw_Settings\<close> is \<open>None\<close> when the server has no settings store: each request then has one of its own. The state of the
  handlers that are parameters is \<open>uw_App\<close>.
\<close>

record ('a, 'r) ui_world =
  uw_Session :: ui_session
  uw_Limiter :: rate_limiter
  uw_Settings :: "settings option"
  uw_Receipts :: "'r receipt_store"
  uw_App :: 'a

text \<open>
  What a request finds: the clock readings of the session, of the limiter before and after the handler; the remote
  address; cookies; the HMAC; a fresh token; path cleaning, unescaping and redirects of \<open>net/http\<close>; the JSON codecs; the
  experimental flag; the version; the single page application; the handlers that are not modelled here.
\<close>

record ('a, 'r) ui_env =
  ue_SessionNow :: gotime
  ue_LimitNow :: gotime
  ue_RecordNow :: gotime
  ue_Remote :: gostring
  ue_Split :: "gostring \<Rightarrow> gostring option"
  ue_Cookies :: "http_header \<Rightarrow> cookies"
  ue_MAC :: mac_fun
  ue_CSRFToken :: "gostring option"
  ue_CleanPath :: "gostring \<Rightarrow> gostring"
  ue_Unescape :: "gostring \<Rightarrow> gostring"
  ue_Redirect :: "http_request \<Rightarrow> http_response"
  ue_Settings :: "gostring \<Rightarrow> settings_put option"
  ue_Receipt :: "gostring \<Rightarrow> 'r option"
  ue_Receipts :: "'r list \<Rightarrow> gostring"
  ue_Atoi :: "gostring \<Rightarrow> int option"
  ue_Experimental :: bool
  ue_Version :: gostring
  ue_SPA :: "http_request \<Rightarrow> http_response"
  ue_App :: "ui_endpoint \<Rightarrow> http_request \<Rightarrow> 'a \<Rightarrow> http_response \<times> 'a"

definition http_Error :: "nat \<Rightarrow> gostring \<Rightarrow> http_response" where
  "http_Error status msg = \<lparr>hp_Status = status, hp_Header = [(''Content-Type'', [''text/plain; charset=utf-8'']),
     (''X-Content-Type-Options'', [''nosniff''])], hp_Body = msg @ [newline]\<rparr>"

definition method_not_allowed :: http_response where "method_not_allowed = http_Error 405 ''method not allowed''"

definition json_bool :: "bool \<Rightarrow> gostring" where "json_bool b = (if b then ''true'' else ''false'')"

definition json_int :: "int \<Rightarrow> gostring" where "json_int i = (if i < 0 then ''-'' else []) @ decimal (nat \<bar>i\<bar>)"

definition json_fields :: "(gostring \<times> gostring) list \<Rightarrow> gostring" where
  "json_fields fs = ''{'' @ Join (map (\<lambda>(k, v). json_string k @ '':'' @ v) fs) '','' @ ''}'' @ [newline]"

definition ui_handleHealth :: "gostring \<Rightarrow> http_request \<Rightarrow> http_response" where
  "ui_handleHealth version r =
    (if hr_Method r \<noteq> ''GET'' then method_not_allowed
     else json_response 200 (json_fields [(''status'', json_string ''ok''), (''version'', json_string version)]))"

definition handleExperimental :: "bool \<Rightarrow> http_request \<Rightarrow> http_response" where
  "handleExperimental flag r =
    (if hr_Method r \<noteq> ''GET'' then method_not_allowed else json_response 200 (json_fields [(''experimental'', json_bool flag)]))"

definition status_handler :: "ui_options \<Rightarrow> http_request \<Rightarrow> http_response" where
  "status_handler S r =
    (if hr_Method r \<noteq> ''GET'' then method_not_allowed
     else json_response 200 (json_fields ([(''demo'', json_bool (uo_Demo S))] @
       (if uo_Demo S then [(''demo_banner'', json_string (''Demo mode '' @ em_dash @ '' no real credentials are stored''))] else []) @
       [(''ok'', json_bool True), (''scope'', json_string (scope_String (uo_Scope S)))])))"

definition settings_body :: "settings \<Rightarrow> gostring" where
  "settings_body s = json_fields [(''approval_ttl_seconds'', json_int (st_ttl s)),
     (''approval_ttl_max_seconds'', json_int (st_maxTTL s)), (''advanced_mode'', json_bool (st_advanced s)),
     (''operating_mode'', json_string (st_mode s)), (''telemetry_disable'', json_bool (st_telemetryDisable s)),
     (''experimental'', json_bool (st_experimental s)), (''approval_policy'', json_string (st_policy s))]"

definition settings_serve :: "('a, 'r) ui_env \<Rightarrow> http_request \<Rightarrow> settings option \<Rightarrow> http_response \<times> settings option" where
  "settings_serve E r store =
    (case settings_handler (ue_Settings E (hr_Body r)) (hr_Method r) (case store of None \<Rightarrow> NewSettingsStore | Some s \<Rightarrow> s) of
       (e, s') \<Rightarrow>
         (case e of None \<Rightarrow> json_response 200 (settings_body s') | Some (status, msg) \<Rightarrow> http_Error status msg,
          map_option (\<lambda>_. s') store))"

definition TrimPrefix :: "gostring \<Rightarrow> gostring \<Rightarrow> gostring" where
  "TrimPrefix s p = (if HasPrefix s p then drop (length p) s else s)"

text \<open>The gateway's stub writes its status before the content type, which is then sniffed.\<close>

definition not_implemented :: "gostring \<Rightarrow> gostring \<Rightarrow> http_response" where
  "not_implemented ctype msg =
    \<lparr>hp_Status = 501, hp_Header = [(''Content-Type'', [ctype])],
     hp_Body = json_fields [(''error'', json_string ''not_implemented''), (''message'', json_string msg)]\<rparr>"

definition approvals_unavailable :: http_response where
  "approvals_unavailable = not_implemented ''application/json'' ''the approval workflow is not available in this build''"

definition gateway_unavailable :: http_response where
  "gateway_unavailable = not_implemented ''text/plain; charset=utf-8'' ''this feature is not yet available''"

definition ui_approvals :: "gostring \<Rightarrow> gostring \<Rightarrow> http_response" where
  "ui_approvals method full =
    (let path = TrimPrefix full ''/api/approvals'' in
     if path \<in> {[], ''/'', ''/stream''} then (if method = ''GET'' then approvals_unavailable else method_not_allowed)
     else (case split_slash (TrimPrefix path ''/'') of
       (_ # p # ps) \<Rightarrow> if method = ''POST'' \<and> ps = [] \<and> p \<in> {''approve'', ''deny''} then approvals_unavailable else http_NotFound
     | _ \<Rightarrow> http_NotFound))"

definition ui_gateway :: "bool \<Rightarrow> gostring \<Rightarrow> gostring \<Rightarrow> http_response" where
  "ui_gateway allowMint method full =
    (let path = TrimPrefix full ''/api/gateway'' in
     if path = ''/up'' \<and> method = ''POST'' then gateway_unavailable
     else if path = ''/down'' \<and> method = ''POST'' then gateway_unavailable
     else if path = ''/status'' \<and> method = ''GET'' then gateway_unavailable
     else if path = ''/tokens'' \<and> method = ''POST'' then
       (if \<not> allowMint then http_Error 403 ''forbidden: insufficient scope for token minting'' else gateway_unavailable)
     else http_NotFound)"

definition ui_broker :: "http_request \<Rightarrow> http_response" where
  "ui_broker r = (if hr_Path r = ''/api/broker/dry-run'' \<and> hr_Method r = ''POST'' then
       json_response 501 (''{'' @ json_string ''error'' @ '':'' @ json_string ''broker dry-run not yet available'' @ '','' @
         json_string ''code'' @ '':'' @ json_string ''not_implemented'' @ ''}'')
     else http_NotFound)"

text \<open>\<open>GET\<close> needs the session and \<open>POST\<close> only the secret of the process; see \<open>receipts_handler\<close> below.\<close>

definition list_receipts :: "('a, 'r) ui_env \<Rightarrow> http_request \<Rightarrow> 'r receipt_store \<Rightarrow> http_response" where
  "list_receipts E r rs =
    (if hr_Method r \<noteq> ''GET'' then method_not_allowed
     else (case receipts_limit (ue_Atoi E) (query_Get (hr_Query r) ''limit'') of
       None \<Rightarrow> http_Error 400 ''limit must be a positive integer''
     | Some n \<Rightarrow> json_response 200 (ue_Receipts E (receipt_Last n rs))))"

definition session_cookie :: "gostring \<Rightarrow> gostring" where
  "session_cookie v = ''kl_session='' @ v @ ''; Path=/; HttpOnly; SameSite=Strict''"

definition csrf_cookie :: "gostring \<Rightarrow> gostring" where
  "csrf_cookie v = ''kl_csrf='' @ v @ ''; Path=/; SameSite=Strict''"

definition session_error_text :: "session_error \<Rightarrow> gostring" where
  "session_error_text e = (case e of ErrTokenConsumed \<Rightarrow> ''session: bootstrap token already consumed''
     | ErrTokenExpired \<Rightarrow> ''session: session expired'' | ErrInvalidHMAC \<Rightarrow> ''session: invalid HMAC on bootstrap token''
     | ErrUnknownSession \<Rightarrow> ''session: unknown or expired session cookie''
     | SigningKeyLength \<Rightarrow> ''session: signing key'' | SessionRandom \<Rightarrow> ''session: random'')"

definition handleBootstrap :: "('a, 'r) ui_env \<Rightarrow> http_request \<Rightarrow> ui_session \<Rightarrow> http_response \<times> ui_session" where
  "handleBootstrap E r s =
    (if hr_Method r \<noteq> ''GET'' then (method_not_allowed, s)
     else (case ConsumeBootstrap (ue_MAC E) (ue_SessionNow E) (query_Get (hr_Query r) ''b'') (query_Get (hr_Query r) ''mac'') s of
       (Inl e, s') \<Rightarrow> (http_Error 401 (''unauthorized: '' @ session_error_text e), s')
     | (Inr v, s') \<Rightarrow>
         (case ue_CSRFToken E of
            None \<Rightarrow> ((http_Error 500 ''internal error'')\<lparr>hp_Header := (''Set-Cookie'', [session_cookie v]) #
                        hp_Header (http_Error 500 ''internal error'')\<rparr>, s')
          | Some t \<Rightarrow>
              (\<lparr>hp_Status = 303, hp_Header = [(''Set-Cookie'', [session_cookie v, csrf_cookie t]), (''Location'', [''/'']),
                  (''Content-Type'', [''text/html; charset=utf-8''])],
                hp_Body = ''<a href=\"/\">See Other</a>.'' @ [newline, newline]\<rparr>, s'))))"

definition handleCSRF :: "('a, 'r) ui_env \<Rightarrow> http_request \<Rightarrow> http_response" where
  "handleCSRF E r =
    (if hr_Method r \<noteq> ''GET'' then method_not_allowed
     else (case ue_CSRFToken E of
       None \<Rightarrow> http_Error 500 ''internal error''
     | Some t \<Rightarrow>
         \<lparr>hp_Status = 200, hp_Header = [(''Set-Cookie'', [csrf_cookie t]), (''Content-Type'', [''application/json''])],
          hp_Body = json_fields [(''csrf'', json_string t)]\<rparr>))"

subsection \<open>Middleware and the mux\<close>

type_synonym ('a, 'r) ui_hfun = "http_request \<Rightarrow> ('a, 'r) ui_world \<Rightarrow> http_response \<times> ('a, 'r) ui_world"

definition requireSession :: "('a, 'r) ui_env \<Rightarrow> ('a, 'r) ui_hfun \<Rightarrow> ('a, 'r) ui_hfun" where
  "requireSession E h r w =
    (case ValidateRequest (ue_SessionNow E) (ue_Cookies E (hr_Header r)) (uw_Session w) of
       Some _ \<Rightarrow> (http_Error 401 ''unauthorized'', w) | None \<Rightarrow> h r w)"

definition csrf_error_text :: "csrf_error \<Rightarrow> gostring" where
  "csrf_error_text e = (case e of CSRFMissing \<Rightarrow> ''csrf: token missing'' | CSRFMismatch \<Rightarrow> ''csrf: token mismatch'')"

definition csrf_Middleware :: "('a, 'r) ui_env \<Rightarrow> ('a, 'r) ui_hfun \<Rightarrow> ('a, 'r) ui_hfun" where
  "csrf_Middleware E h r w =
    (if safe_method (hr_Method r) then h r w
     else (case csrf_Validate (ue_Cookies E (hr_Header r)) r of
       Some e \<Rightarrow> (http_Error 403 (''forbidden: '' @ csrf_error_text e), w) | None \<Rightarrow> h r w))"

text \<open>A handler that set no status answers 200, which counts as success in the same way.\<close>

definition withBootstrapRateLimit :: "('a, 'r) ui_env \<Rightarrow> ('a, 'r) ui_hfun \<Rightarrow> ('a, 'r) ui_hfun" where
  "withBootstrapRateLimit E h r w =
    (let ip = extractIP (ue_Split E) (ue_Remote E) in
     case isBlocked (ue_LimitNow E) ip (uw_Limiter w) of
       (True, l) \<Rightarrow> (http_Error 429 (''too many failed attempts '' @ em_dash @ '' try again later''), w\<lparr>uw_Limiter := l\<rparr>)
     | (False, l) \<Rightarrow>
         (case h r (w\<lparr>uw_Limiter := l\<rparr>) of (resp, w') \<Rightarrow>
           (resp, w'\<lparr>uw_Limiter := limiter_after (ue_RecordNow E) ip (Some (hp_Status resp)) (uw_Limiter w')\<rparr>)))"

definition ui_guarded :: "ui_guard \<Rightarrow> ('a, 'r) ui_env \<Rightarrow> ('a, 'r) ui_hfun \<Rightarrow> ('a, 'r) ui_hfun" where
  "ui_guarded g E h =
    (case g of Open \<Rightarrow> h | Limited \<Rightarrow> withBootstrapRateLimit E h | WithSession \<Rightarrow> requireSession E h
     | WithSessionCSRF \<Rightarrow> requireSession E (csrf_Middleware E h))"

definition receipts_handler :: "ui_options \<Rightarrow> ('a, 'r) ui_env \<Rightarrow> ('a, 'r) ui_hfun" where
  "receipts_handler S E r w =
    (if hr_Method r = ''GET'' then requireSession E (\<lambda>r w. (list_receipts E r (uw_Receipts w), w)) r w
     else if hr_Method r = ''POST'' then
       (case push_receipt (uo_IPCSecret S) (ue_Receipt E (hr_Body r)) r (uw_Receipts w) of (status, rs) \<Rightarrow>
         (if status = 204 then \<lparr>hp_Status = 204, hp_Header = [], hp_Body = []\<rparr>
          else http_Error status (if status = 401 then ''unauthorized'' else ''bad request''), w\<lparr>uw_Receipts := rs\<rparr>))
     else (method_not_allowed, w))"

text \<open>The handlers; those not listed are the parameter.\<close>

definition ui_handler :: "ui_options \<Rightarrow> ('a, 'r) ui_env \<Rightarrow> ui_endpoint \<Rightarrow> ('a, 'r) ui_hfun" where
  "ui_handler S E e r w =
    (case e of
       EHealth \<Rightarrow> (ui_handleHealth (ue_Version E) r, w)
     | EBootstrap \<Rightarrow> (case handleBootstrap E r (uw_Session w) of (resp, s) \<Rightarrow> (resp, w\<lparr>uw_Session := s\<rparr>))
     | ECSRF \<Rightarrow> (handleCSRF E r, w)
     | EStatus \<Rightarrow> (status_handler S r, w)
     | ESettings \<Rightarrow> (case settings_serve E r (uw_Settings w) of (resp, st) \<Rightarrow> (resp, w\<lparr>uw_Settings := st\<rparr>))
     | ENotFound \<Rightarrow> (http_NotFound, w)
     | ESPA \<Rightarrow> (ue_SPA E r, w)
     | EApprovals \<Rightarrow> (ui_approvals (hr_Method r) (hr_Path r), w)
     | EApprovalsV1 \<Rightarrow> (ui_approvals (hr_Method r) (''/api'' @ drop 3 (hr_Path r)), w)
     | EGateway \<Rightarrow> (ui_gateway (uo_Scope S \<ge> ScopeTokenMinting) (hr_Method r) (hr_Path r), w)
     | EBroker \<Rightarrow> (ui_broker r, w)
     | EExperimental \<Rightarrow> (handleExperimental (ue_Experimental E) r, w)
     | EReceipts \<Rightarrow> receipts_handler S E r w
     | _ \<Rightarrow> (case ue_App E e r (uw_App w) of (resp, a) \<Rightarrow> (resp, w\<lparr>uw_App := a\<rparr>)))"

definition ui_route :: "ui_options \<Rightarrow> ('a, 'r) ui_env \<Rightarrow> http_request \<Rightarrow> ui_target" where
  "ui_route S E r =
    (case mux_find (registerRoutes (uo_Scope S)) (path_segments (ue_Unescape E) (hr_EscapedPath r)) of
       ToRedirect \<Rightarrow> ToRedirect
     | t \<Rightarrow> if hr_Method r \<noteq> ''CONNECT'' \<and> ue_CleanPath E (hr_EscapedPath r) \<noteq> hr_EscapedPath r then ToRedirect else t)"

definition ui_mux :: "ui_options \<Rightarrow> ('a, 'r) ui_env \<Rightarrow> ('a, 'r) ui_hfun" where
  "ui_mux S E r w =
    (case ui_route S E r of
       ToRedirect \<Rightarrow> (ue_Redirect E r, w)
     | ToNothing \<Rightarrow> (http_NotFound, w)
     | ToEndpoint g e \<Rightarrow> ui_guarded g E (ui_handler S E e) r w)"

text \<open>\<open>SecurityHeaders\<close> and \<open>StrictCSP\<close> set theirs first; a handler may set them again.\<close>

definition cspValue :: gostring where
  "cspValue = ''default-src 'self'; '' @ ''script-src 'self'; '' @ ''style-src 'self'; '' @ ''img-src 'self' data:; '' @
     ''font-src 'self'; '' @ ''connect-src 'self'; '' @ ''frame-ancestors 'none'; '' @ ''object-src 'none'; '' @
     ''base-uri 'self'; '' @ ''form-action 'self'' @ [CHR 0x27]"

definition ui_headers :: http_header where
  "ui_headers =
    header_Set (header_Set (header_Set (header_Set (header_Set [] ''Cache-Control'' ''no-store'') ''X-Frame-Options'' ''DENY'')
      ''X-Content-Type-Options'' ''nosniff'') ''Referrer-Policy'' ''no-referrer'') ''Content-Security-Policy'' cspValue"

definition over_headers :: "http_header \<Rightarrow> http_header \<Rightarrow> http_header" where
  "over_headers base hs = fold (\<lambda>(k, vs) h. header_Del h k @ [(CanonicalHeaderKey k, vs)]) hs base"

definition ui_serve :: "ui_options \<Rightarrow> ('a, 'r) ui_env \<Rightarrow> ('a, 'r) ui_hfun" where
  "ui_serve S E r w =
    (case ui_mux S E r w of (resp, w') \<Rightarrow> (resp\<lparr>hp_Header := over_headers ui_headers (hp_Header resp)\<rparr>, w'))"

text \<open>Requests one after another.\<close>

fun ui_run :: "ui_options \<Rightarrow> (('a, 'r) ui_env \<times> http_request) list \<Rightarrow> ('a, 'r) ui_world \<Rightarrow>
    http_response list \<times> ('a, 'r) ui_world" where
  "ui_run S [] w = ([], w)"
| "ui_run S ((E, r) # rs) w = (case ui_serve S E r w of (resp, w1) \<Rightarrow> (case ui_run S rs w1 of (resps, w2) \<Rightarrow> (resp # resps, w2)))"

end
