(* ===== verification/UI_Server_Facts.thy ===== *)
theory UI_Server_Facts
  imports UI_Server
begin

section \<open>What the user interface server promises\<close>

text \<open>
  The routes that need no session; that handlers behind the session and the double-submitted token are not reached
  without them; the bootstrap token's single use over any run of requests; what the rate limiter bounds and how it is
  reset; the settings' invariant; the address and the scope of a new server.
\<close>

subsection \<open>The route table\<close>

lemma find_pattern_in: "find_pattern rs t p = Some (g, e) \<Longrightarrow> (p, t, g, e) \<in> set rs"
  by (auto simp: find_pattern_def find_Some_iff dest: nth_mem)

lemma find_subtree_in: "find_subtree rs segs n = Some (g, e) \<Longrightarrow> \<exists>k < n. (take k segs, True, g, e) \<in> set rs"
proof (induction n)
  case (Suc n)
  show ?case
  proof (cases "find_pattern rs True (take n segs)")
    case None
    then show ?thesis using Suc by (auto intro: less_SucI)
  next
    case (Some x)
    then show ?thesis using Suc.prems find_pattern_in [of rs True "take n segs" g e] by auto
  qed
qed simp

lemma mux_find_in: "mux_find rs segs = ToEndpoint g e \<Longrightarrow> \<exists>p t. (p, t, g, e) \<in> set rs"
  by (auto simp: mux_find_def split: option.splits if_splits dest!: find_pattern_in find_subtree_in)

lemma ui_route_in: "ui_route S E r = ToEndpoint g e \<Longrightarrow> \<exists>p t. (p, t, g, e) \<in> set (registerRoutes (uo_Scope S))"
  by (auto simp: ui_route_def split: ui_target.splits if_splits dest!: mux_find_in)

lemmas route_defs = registerRoutes_def base_routes_def setup_routes_def v1_routes_def

lemma open_endpoints:
  "ui_route S E r = ToEndpoint Open e \<Longrightarrow> e \<in> {EHealth, EMetrics, ENotFound, ESPA, EExperimental, EReceipts}"
  by (auto simp: route_defs split: if_splits dest!: ui_route_in)

lemma limited_endpoints: "ui_route S E r = ToEndpoint Limited e \<Longrightarrow> e \<in> {EBootstrap, ECSRF}"
  by (auto simp: route_defs split: if_splits dest!: ui_route_in)

lemma bootstrap_guard: "ui_route S E r = ToEndpoint g EBootstrap \<Longrightarrow> g = Limited"
  by (auto simp: route_defs split: if_splits dest!: ui_route_in)

lemma settings_guard: "ui_route S E r = ToEndpoint g ESettings \<Longrightarrow> g = WithSessionCSRF"
  by (auto simp: route_defs split: if_splits dest!: ui_route_in)

lemma status_only_endpoints:
  "ui_route S E r = ToEndpoint g e \<Longrightarrow> uo_Scope S = ScopeStatusOnly \<Longrightarrow>
   e \<in> {EHealth, EMetrics, EBootstrap, ECSRF, EStatus, ESettings, ENotFound, ESPA}"
  by (auto simp: route_defs split: if_splits dest!: ui_route_in)

lemma ui_route_app [simp]: "ui_route S (E\<lparr>ue_App := a\<rparr>) r = ui_route S E r"
  by (simp add: ui_route_def cong: ui_target.case_cong)

subsection \<open>Sessions and tokens\<close>

lemma ui_guarded_refused:
  assumes "g \<in> {WithSession, WithSessionCSRF}"
    and "ValidateRequest (ue_SessionNow E) (ue_Cookies E (hr_Header r)) (uw_Session w) \<noteq> None"
  shows "ui_guarded g E h r w = (http_Error 401 ''unauthorized'', w)"
  using assms by (auto simp: ui_guarded_def requireSession_def)

lemma ui_guarded_no_token:
  assumes "\<not> safe_method (hr_Method r)" "csrf_Validate (ue_Cookies E (hr_Header r)) r \<noteq> None"
  shows "\<exists>resp. ui_guarded WithSessionCSRF E h r w = (resp, w) \<and> hp_Status resp \<in> {401, 403} \<and>
    (\<forall>h'. ui_guarded WithSessionCSRF E h' r w = (resp, w))"
  using assms by (auto simp: ui_guarded_def requireSession_def csrf_Middleware_def http_Error_def split: option.splits)

text \<open>What the handlers that are parameters can neither learn nor change.\<close>

definition out_of_reach :: "ui_options \<Rightarrow> ('a, 'r) ui_env \<Rightarrow> http_request \<Rightarrow> ('a, 'r) ui_world \<Rightarrow> (ui_endpoint \<Rightarrow> bool) \<Rightarrow> bool" where
  "out_of_reach S E r w reachable \<longleftrightarrow>
    (\<forall>app. (\<forall>e. reachable e \<longrightarrow> app e = ue_App E e) \<longrightarrow> ui_serve S (E\<lparr>ue_App := app\<rparr>) r w = ui_serve S E r w)"

lemma env_app [simp]:
  "ValidateRequest (ue_SessionNow (E\<lparr>ue_App := a\<rparr>)) = ValidateRequest (ue_SessionNow E)"
  "handleBootstrap (E\<lparr>ue_App := a\<rparr>) = handleBootstrap E" "handleCSRF (E\<lparr>ue_App := a\<rparr>) = handleCSRF E"
  "settings_serve (E\<lparr>ue_App := a\<rparr>) = settings_serve E" "receipts_handler S (E\<lparr>ue_App := a\<rparr>) = receipts_handler S E"
  by (simp_all add: fun_eq_iff handleBootstrap_def handleCSRF_def settings_serve_def receipts_handler_def requireSession_def
    list_receipts_def cong: option.case_cong sum.case_cong prod.case_cong if_cong)

lemma ui_handler_app: "a e = ue_App E e \<Longrightarrow> ui_handler S (E\<lparr>ue_App := a\<rparr>) e = ui_handler S E e"
  by (cases e) (simp_all add: fun_eq_iff ui_handler_def)

lemma ui_guarded_app: "ui_guarded g (E\<lparr>ue_App := a\<rparr>) h = ui_guarded g E h"
  by (cases g) (simp_all add: fun_eq_iff ui_guarded_def requireSession_def csrf_Middleware_def withBootstrapRateLimit_def
    cong: option.case_cong prod.case_cong if_cong bool.case_cong)

definition own_endpoints :: "ui_endpoint set" where
  "own_endpoints = {EHealth, EBootstrap, ECSRF, EStatus, ESettings, ENotFound, ESPA, EApprovals, EApprovalsV1, EGateway,
     EBroker, EExperimental, EReceipts}"

lemma ui_handler_own: "e \<in> own_endpoints \<Longrightarrow> ui_handler S (E\<lparr>ue_App := a\<rparr>) e = ui_handler S E e"
  by (cases e) (simp_all add: own_endpoints_def fun_eq_iff ui_handler_def)

lemma out_of_reachI:
  assumes "\<And>g e. ui_route S E r = ToEndpoint g e \<Longrightarrow>
    reachable e \<or> e \<in> own_endpoints \<or> (\<forall>h h'. ui_guarded g E h r w = ui_guarded g E h' r w)"
  shows "out_of_reach S E r w reachable"
  unfolding out_of_reach_def
proof (intro allI impI)
  fix app
  assume app: "\<forall>e. reachable e \<longrightarrow> app e = ue_App E e"
  have "ui_mux S (E\<lparr>ue_App := app\<rparr>) r w = ui_mux S E r w"
  proof (cases "ui_route S E r")
    case (ToEndpoint g e)
    have "ui_guarded g E (ui_handler S (E\<lparr>ue_App := app\<rparr>) e) r w = ui_guarded g E (ui_handler S E e) r w"
      using assms [OF ToEndpoint] app by (auto simp: ui_handler_own ui_handler_app)
    then show ?thesis by (simp add: ui_mux_def ToEndpoint ui_guarded_app)
  qed (simp_all add: ui_mux_def)
  then show "ui_serve S (E\<lparr>ue_App := app\<rparr>) r w = ui_serve S E r w" by (simp add: ui_serve_def)
qed

lemma guarded_frame:
  assumes "\<And>w'. f (snd (h r w')) = f w'" "\<And>w' l. f (w'\<lparr>uw_Limiter := l\<rparr>) = f w'"
  shows "f (snd (ui_guarded g E h r w)) = f w"
proof (cases g)
  case Limited
  obtain b l where l: "isBlocked (ue_LimitNow E) (extractIP (ue_Split E) (ue_Remote E)) (uw_Limiter w) = (b, l)" by fastforce
  then show ?thesis using assms(1) [of "w\<lparr>uw_Limiter := l\<rparr>"] Limited
    by (cases b) (auto simp: ui_guarded_def withBootstrapRateLimit_def assms(2) split: prod.splits)
qed (use assms in \<open>auto simp: ui_guarded_def requireSession_def csrf_Middleware_def split: option.splits\<close>)

lemma settings_frame:
  assumes "e \<noteq> ESettings"
  shows "uw_Settings (snd (ui_guarded g E (ui_handler S E e) r w)) = uw_Settings w"
  by (rule guarded_frame)
    (use assms in \<open>cases e; auto simp: ui_handler_def receipts_handler_def requireSession_def split: prod.splits option.splits\<close>)+

lemma app_frame:
  assumes "e \<in> own_endpoints"
  shows "uw_App (snd (ui_guarded g E (ui_handler S E e) r w)) = uw_App w"
  by (rule guarded_frame)
    (use assms in \<open>cases e; auto simp: own_endpoints_def ui_handler_def receipts_handler_def requireSession_def
      split: prod.splits option.splits\<close>)+

lemma ui_serve_frame: "snd (ui_serve S E r w) = snd (ui_mux S E r w)"
  by (simp add: ui_serve_def split: prod.split)

text \<open>C33: a request without the cookie of the live session learns nothing from the handlers that keep connections and
  credentials, except the metrics, and changes neither their state nor the settings: the answer and the world after it are
  the same whatever those handlers are.
\<close>

theorem ui_needs_session:
  assumes "ValidateRequest (ue_SessionNow E) (ue_Cookies E (hr_Header r)) (uw_Session w) \<noteq> None"
  shows "out_of_reach S E r w (\<lambda>e. e = EMetrics) \<and> uw_Settings (snd (ui_serve S E r w)) = uw_Settings w \<and>
    (ui_route S E r \<noteq> ToEndpoint Open EMetrics \<longrightarrow> uw_App (snd (ui_serve S E r w)) = uw_App w)"
proof (cases "ui_route S E r")
  case (ToEndpoint g e)
  have ref: "\<forall>h. ui_guarded g E h r w = (http_Error 401 ''unauthorized'', w)" if "g \<in> {WithSession, WithSessionCSRF}"
    using ui_guarded_refused [OF that assms] by simp
  have e: "g \<in> {WithSession, WithSessionCSRF} \<or> e = EMetrics \<or> e \<in> own_endpoints - {ESettings}"
    using ToEndpoint open_endpoints [of S E r e] limited_endpoints [of S E r e] by (cases g) (auto simp: own_endpoints_def)
  have "out_of_reach S E r w (\<lambda>e. e = EMetrics)"
    by (rule out_of_reachI) (use ToEndpoint e ref in auto)
  moreover have "uw_Settings (snd (ui_serve S E r w)) = uw_Settings w"
    using e ref settings_guard [of S E r g] ToEndpoint by (auto simp: ui_serve_frame ui_mux_def settings_frame split: prod.splits)
  moreover have "uw_App (snd (ui_serve S E r w)) = uw_App w" if "\<not> (g = Open \<and> e = EMetrics)"
  proof (cases "g \<in> {WithSession, WithSessionCSRF}")
    case False
    then have "e \<noteq> EMetrics" using that limited_endpoints [of S E r e] ToEndpoint by (cases g) auto
    then show ?thesis using e False ToEndpoint by (auto simp: ui_serve_frame ui_mux_def app_frame)
  qed (simp add: ui_serve_frame ui_mux_def ToEndpoint ref)
  ultimately show ?thesis using ToEndpoint by auto
qed (auto simp: ui_serve_frame ui_mux_def intro!: out_of_reachI)

definition read_only_endpoints :: "ui_endpoint set" where
  "read_only_endpoints = {EMetrics, EPasswordManagers, EPMBrowse, EDoctor, EAudit, EBackends, EProviders, EProviderDetail,
     EReadiness, EReceiptStream}"

lemma parameter_guard:
  "ui_route S E r = ToEndpoint g e \<Longrightarrow> g = WithSessionCSRF \<or> e \<in> own_endpoints - {ESettings} \<or> e \<in> read_only_endpoints"
  by (auto simp: route_defs own_endpoints_def read_only_endpoints_def split: if_splits dest!: ui_route_in)

text \<open>a request with a method that writes and without the token that answers its cookie reaches none of the handlers that
  write and leaves the settings alone, with or without a session.
\<close>

theorem ui_needs_token:
  assumes "\<not> safe_method (hr_Method r)" "csrf_Validate (ue_Cookies E (hr_Header r)) r \<noteq> None"
  shows "out_of_reach S E r w (\<lambda>e. e \<in> read_only_endpoints) \<and> uw_Settings (snd (ui_serve S E r w)) = uw_Settings w"
proof (cases "ui_route S E r")
  case (ToEndpoint g e)
  have ref: "ui_guarded WithSessionCSRF E h r w = ui_guarded WithSessionCSRF E h' r w \<and>
      snd (ui_guarded WithSessionCSRF E h r w) = w" for h h'
    using ui_guarded_no_token [OF assms, where h = h and w = w] by auto
  have "out_of_reach S E r w (\<lambda>e. e \<in> read_only_endpoints)"
    by (rule out_of_reachI) (use ToEndpoint parameter_guard ref in blast)
  moreover have "uw_Settings (snd (ui_serve S E r w)) = uw_Settings w"
    using settings_guard [of S E r g] ToEndpoint settings_frame [of e g E S r w] ref
    by (cases "e = ESettings") (auto simp: ui_serve_frame ui_mux_def)
  ultimately show ?thesis by simp
qed (auto simp: ui_serve_frame ui_mux_def intro!: out_of_reachI)

text \<open>a server whose scope is status-only, as every server started in an agent's session is, has no route to the handlers
  of connections, providers, approvals, tokens or receipts, whatever the request carries.
\<close>

theorem ui_status_only:
  assumes "uo_Scope S = ScopeStatusOnly"
  shows "out_of_reach S E r w (\<lambda>e. e = EMetrics) \<and> uw_Receipts (snd (ui_serve S E r w)) = uw_Receipts w"
proof (cases "ui_route S E r")
  case (ToEndpoint g e)
  have e: "e \<in> {EHealth, EMetrics, EBootstrap, ECSRF, EStatus, ESettings, ENotFound, ESPA}"
    using status_only_endpoints [OF ToEndpoint assms] .
  have "out_of_reach S E r w (\<lambda>e. e = EMetrics)"
    by (rule out_of_reachI) (use ToEndpoint e in \<open>auto simp: own_endpoints_def\<close>)
  moreover have "uw_Receipts (snd (ui_guarded g E (ui_handler S E e) r w)) = uw_Receipts w"
    by (rule guarded_frame) (use e in \<open>auto simp: ui_handler_def split: prod.splits\<close>)
  ultimately show ?thesis using ToEndpoint by (simp add: ui_serve_frame ui_mux_def)
qed (auto simp: ui_serve_frame ui_mux_def intro!: out_of_reachI)

subsection \<open>The bootstrap token\<close>

lemma consume_once: "se_consumed s \<Longrightarrow> ConsumeBootstrap mac now t m s = (Inl ErrTokenConsumed, s)"
  by (simp add: ConsumeBootstrap_def)

lemma handleBootstrap_session:
  "snd (handleBootstrap E r s) = s \<and> hp_Status (fst (handleBootstrap E r s)) \<noteq> 303 \<or>
   \<not> se_consumed s \<and> se_consumed (snd (handleBootstrap E r s))"
  by (auto simp: handleBootstrap_def ConsumeBootstrap_def method_not_allowed_def http_Error_def split: option.split)

definition is_bootstrap :: "ui_options \<Rightarrow> ('a, 'r) ui_env \<times> http_request \<Rightarrow> bool" where
  "is_bootstrap S c = (case c of (E, r) \<Rightarrow> ui_route S E r = ToEndpoint Limited EBootstrap)"

lemma session_frame:
  assumes "e \<noteq> EBootstrap"
  shows "uw_Session (snd (ui_guarded g E (ui_handler S E e) r w)) = uw_Session w"
  by (rule guarded_frame)
    (use assms in \<open>cases e; auto simp: ui_handler_def receipts_handler_def requireSession_def split: prod.splits option.splits\<close>)+

lemma fst_ui_serve_status [simp]: "hp_Status (fst (ui_serve S E r w)) = hp_Status (fst (ui_mux S E r w))"
  by (simp add: ui_serve_def split: prod.split)

lemma bootstrap_step:
  assumes "is_bootstrap S (E, r)"
  shows "uw_Session (snd (ui_serve S E r w)) = uw_Session w \<and> hp_Status (fst (ui_serve S E r w)) \<noteq> 303 \<or>
    \<not> se_consumed (uw_Session w) \<and> se_consumed (uw_Session (snd (ui_serve S E r w)))"
  using assms handleBootstrap_session [of E r "uw_Session w"]
  by (auto simp: is_bootstrap_def ui_serve_frame ui_mux_def ui_guarded_def withBootstrapRateLimit_def ui_handler_def Let_def
    http_Error_def split: prod.splits bool.splits)

lemma other_step:
  assumes "\<not> is_bootstrap S (E, r)"
  shows "uw_Session (snd (ui_serve S E r w)) = uw_Session w"
  using assms bootstrap_guard [of S E r]
  by (cases "ui_route S E r") (auto simp: is_bootstrap_def ui_serve_frame ui_mux_def intro!: session_frame)

definition sessions_issued :: "ui_options \<Rightarrow> (('a, 'r) ui_env \<times> http_request) list \<Rightarrow> ('a, 'r) ui_world \<Rightarrow> nat" where
  "sessions_issued S rs w =
    length (filter (\<lambda>(c, resp). is_bootstrap S c \<and> hp_Status resp = 303) (zip rs (fst (ui_run S rs w))))"

lemma sessions_issued_Cons:
  "sessions_issued S ((E, r) # rs) w =
    (if is_bootstrap S (E, r) \<and> hp_Status (fst (ui_serve S E r w)) = 303 then 1 else 0) + sessions_issued S rs (snd (ui_serve S E r w))"
  by (simp add: sessions_issued_def split: prod.splits) (metis fst_ui_serve_status fst_conv)

lemma no_session_after: "se_consumed (uw_Session w) \<Longrightarrow> sessions_issued S rs w = 0"
proof (induction rs arbitrary: w)
  case (Cons c rs)
  obtain E r where c: "c = (E, r)" by fastforce
  then show ?case using Cons bootstrap_step [of S E r w] other_step [of S E r w]
    by (cases "is_bootstrap S (E, r)") (auto simp: sessions_issued_Cons)
qed (simp add: sessions_issued_def)


subsection \<open>The rate limiter\<close>

definition remote_ip :: "('a, 'r) ui_env \<Rightarrow> gostring" where "remote_ip E = extractIP (ue_Split E) (ue_Remote E)"

text \<open>A bootstrap request the session would refuse.\<close>

definition refused_bootstrap :: "ui_options \<Rightarrow> ui_session \<Rightarrow> ('a, 'r) ui_env \<times> http_request \<Rightarrow> bool" where
  "refused_bootstrap S s c = (is_bootstrap S c \<and> (case c of (E, r) \<Rightarrow> hp_Status (fst (handleBootstrap E r s)) = 401))"

lemma refused_unchanged: "hp_Status (fst (handleBootstrap E r s)) = 401 \<Longrightarrow> snd (handleBootstrap E r s) = s"
  by (auto simp: handleBootstrap_def ConsumeBootstrap_def method_not_allowed_def http_Error_def split: option.splits if_splits)

lemma limiter_step:
  assumes "refused_bootstrap S (uw_Session w) (E, r)"
  shows "case isBlocked (ue_LimitNow E) (remote_ip E) (uw_Limiter w) of
      (True, l) \<Rightarrow> hp_Status (fst (ui_serve S E r w)) = 429 \<and> snd (ui_serve S E r w) = w\<lparr>uw_Limiter := l\<rparr>
    | (False, l) \<Rightarrow> hp_Status (fst (ui_serve S E r w)) = 401 \<and>
        snd (ui_serve S E r w) = w\<lparr>uw_Limiter := snd (checkAndRecord (ue_RecordNow E) (remote_ip E) l)\<rparr>"
  using assms refused_unchanged [of E r "uw_Session w"]
  by (auto simp: refused_bootstrap_def is_bootstrap_def ui_serve_frame ui_mux_def ui_guarded_def withBootstrapRateLimit_def
    remote_ip_def ui_handler_def limiter_after_def http_Error_def split: prod.splits bool.splits)

text \<open>Within the window of its first failure an address has failed this often.\<close>

definition failed_within :: "gotime \<Rightarrow> gostring \<Rightarrow> rate_limiter \<Rightarrow> nat" where
  "failed_within t ip l = (case l ip of None \<Rightarrow> 0 | Some e \<Rightarrow> li_failures e)"

definition limiter_ok :: "gotime \<Rightarrow> gostring \<Rightarrow> rate_limiter \<Rightarrow> bool" where
  "limiter_ok t ip l = (\<forall>e. l ip = Some e \<longrightarrow> t + limit_window \<le> li_resetAt e \<and> li_failures e \<le> maxFailures)"

lemma limiter_count_step:
  assumes "limiter_ok t ip l" "n1 \<le> t + limit_window" "t \<le> n2" "n2 \<le> t + limit_window"
  shows "case isBlocked n1 ip l of (True, l') \<Rightarrow> l' = l \<and> failed_within t ip l = maxFailures
    | (False, l') \<Rightarrow> limiter_ok t ip (snd (checkAndRecord n2 ip l')) \<and>
        failed_within t ip (snd (checkAndRecord n2 ip l')) = Suc (failed_within t ip l)"
  using assms
  by (auto simp: limiter_ok_def isBlocked_def checkAndRecord_def failed_within_def maxFailures_def Let_def
    split: option.splits bool.splits)

definition statuses :: "ui_options \<Rightarrow> (('a, 'r) ui_env \<times> http_request) list \<Rightarrow> ('a, 'r) ui_world \<Rightarrow> nat list" where
  "statuses S rs w = map hp_Status (fst (ui_run S rs w))"

lemma statuses_simps [simp]:
  "statuses S [] w = []"
  "statuses S ((E, r) # rs) w = hp_Status (fst (ui_serve S E r w)) # statuses S rs (snd (ui_serve S E r w))"
  by (simp_all add: statuses_def split: prod.splits) (metis fst_ui_serve_status fst_conv)

lemma limiter_bounds_attempts:
  assumes "limiter_ok t ip (uw_Limiter w)" "failed_within t ip (uw_Limiter w) \<le> maxFailures"
    and "\<forall>(E, r) \<in> set rs. refused_bootstrap S (uw_Session w) (E, r) \<and> remote_ip E = ip \<and>
      ue_LimitNow E \<le> t + limit_window \<and> t \<le> ue_RecordNow E \<and> ue_RecordNow E \<le> t + limit_window"
  shows "set (statuses S rs w) \<subseteq> {401, 429} \<and>
    length (filter (\<lambda>st. st = 401) (statuses S rs w)) + failed_within t ip (uw_Limiter w) \<le> maxFailures"
  using assms
proof (induction rs arbitrary: w)
  case (Cons c rs)
  obtain E r where c: "c = (E, r)" by fastforce
  let ?w1 = "snd (ui_serve S E r w)"
  have E: "refused_bootstrap S (uw_Session w) (E, r)" "remote_ip E = ip" "ue_LimitNow E \<le> t + limit_window"
    "t \<le> ue_RecordNow E" "ue_RecordNow E \<le> t + limit_window" using Cons.prems(3) by (auto simp: c)
  note step = limiter_step [OF E(1)] limiter_count_step [OF Cons.prems(1) E(3-5)]
  have sess: "uw_Session ?w1 = uw_Session w" using step(1) by (auto split: prod.splits bool.splits)
  note IH = Cons.IH [of ?w1]
  show ?case
  proof (cases "fst (isBlocked (ue_LimitNow E) ip (uw_Limiter w))")
    case True
    then have "hp_Status (fst (ui_serve S E r w)) = 429" "uw_Limiter ?w1 = uw_Limiter w"
      using step E(2) by (auto split: prod.splits bool.splits)
    then show ?thesis using IH Cons.prems sess by (auto simp: c)
  next
    case False
    then have st: "hp_Status (fst (ui_serve S E r w)) = 401" "limiter_ok t ip (uw_Limiter ?w1)"
      "failed_within t ip (uw_Limiter ?w1) = Suc (failed_within t ip (uw_Limiter w))"
      using step E(2) by (auto split: prod.splits bool.splits)
    have "failed_within t ip (uw_Limiter ?w1) \<le> maxFailures"
      using st(2) by (auto simp: limiter_ok_def failed_within_def split: option.splits)
    then show ?thesis using IH st Cons.prems(3) sess by (auto simp: c)
  qed
qed simp

text \<open>refused bootstrap requests from one address, none succeeding between them, are answered 401 at most five times
  within the window that starts with the first of them; all others are answered 429 without looking at the token.
\<close>

theorem limiter_bound:
  assumes "uw_Limiter w ip = None"
    and "\<forall>(E, r) \<in> set rs. refused_bootstrap S (uw_Session w) (E, r) \<and> remote_ip E = ip \<and>
      ue_LimitNow E \<le> t + limit_window \<and> t \<le> ue_RecordNow E \<and> ue_RecordNow E \<le> t + limit_window"
  shows "set (statuses S rs w) \<subseteq> {401, 429} \<and> length (filter (\<lambda>st. st = 401) (statuses S rs w)) \<le> 5"
  using limiter_bounds_attempts [of t ip w rs S] assms
  by (simp add: limiter_ok_def failed_within_def maxFailures_def)

text \<open>A request for a fresh token forgets the failures of its address.\<close>

lemma csrf_step:
  assumes "ui_route S E r = ToEndpoint Limited ECSRF" "hr_Method r = ''GET''" "ue_CSRFToken E \<noteq> None"
    and "fst (isBlocked (ue_LimitNow E) (remote_ip E) (uw_Limiter w)) = False"
  shows "hp_Status (fst (ui_serve S E r w)) = 200 \<and> uw_Session (snd (ui_serve S E r w)) = uw_Session w \<and>
    uw_Limiter (snd (ui_serve S E r w)) (remote_ip E) = None"
proof -
  obtain l where "isBlocked (ue_LimitNow E) (remote_ip E) (uw_Limiter w) = (False, l)"
    using assms(4) by (cases "isBlocked (ue_LimitNow E) (remote_ip E) (uw_Limiter w)") auto
  then show ?thesis using assms(1-3)
    by (auto simp: ui_serve_frame ui_mux_def ui_guarded_def withBootstrapRateLimit_def ui_handler_def handleCSRF_def
      remote_ip_def limiter_after_def recordSuccess_def Let_def)
qed

text \<open>C35: the limiter does not stop guessing: with a request to \<open>/api/csrf\<close>, which anybody may make, after each refused
  bootstrap request, every guess is looked at, however many there are.
\<close>

theorem csrf_resets_limiter:
  assumes "uw_Limiter w (remote_ip Eb) = None" "remote_ip Ec = remote_ip Eb"
    and "refused_bootstrap S (uw_Session w) (Eb, rb)"
    and "ui_route S Ec rc = ToEndpoint Limited ECSRF" "hr_Method rc = ''GET''" "ue_CSRFToken Ec \<noteq> None"
  shows "statuses S (concat (replicate n [(Eb, rb), (Ec, rc)])) w = concat (replicate n [401, 200])"
  using assms(1,3)
proof (induction n arbitrary: w)
  case (Suc n)
  let ?w1 = "snd (ui_serve S Eb rb w)" and ?w2 = "snd (ui_serve S Ec rc (snd (ui_serve S Eb rb w)))"
  have b: "hp_Status (fst (ui_serve S Eb rb w)) = 401"
    "?w1 = w\<lparr>uw_Limiter := (uw_Limiter w)(remote_ip Eb \<mapsto> \<lparr>li_failures = 1, li_resetAt = ue_RecordNow Eb + limit_window\<rparr>)\<rparr>"
    using limiter_step [OF Suc.prems(2)] Suc.prems(1) by (auto simp: isBlocked_def checkAndRecord_def)
  have "fst (isBlocked (ue_LimitNow Ec) (remote_ip Ec) (uw_Limiter ?w1)) = False"
    by (simp add: b(2) isBlocked_def maxFailures_def assms(2))
  from csrf_step [OF assms(4-6) this] have c: "hp_Status (fst (ui_serve S Ec rc ?w1)) = 200"
    "uw_Session ?w2 = uw_Session w" "uw_Limiter ?w2 (remote_ip Eb) = None" by (simp_all add: b(2) assms(2))
  show ?case using Suc.IH [of ?w2] Suc.prems b(1) c by simp
qed simp

subsection \<open>Settings, receipts and the server's address\<close>

definition settings_ok :: "settings \<Rightarrow> bool" where
  "settings_ok s = (1 \<le> st_ttl s \<and> st_ttl s \<le> st_maxTTL s \<and> st_mode s \<in> set validOperatingModes \<and>
     st_policy s \<in> set validApprovalPolicies)"

lemma NewSettingsStore_ok: "settings_ok NewSettingsStore"
  by (simp add: settings_ok_def NewSettingsStore_def validOperatingModes_def validApprovalPolicies_def)

lemma apply_settings_ok:
  assumes "settings_ok s"
  shows "settings_ok (snd (apply_settings p s))"
  using assms
  by (auto simp: settings_ok_def apply_settings_def SetTTL_def SetOperatingMode_def SetApprovalPolicy_def Let_def split: option.splits)

lemma settings_handler_ok: "settings_ok s \<Longrightarrow> settings_ok (snd (settings_handler b m s))"
  using apply_settings_ok by (auto simp: settings_handler_def split: option.splits prod.splits) (metis snd_conv)+

lemma snd_settings_serve:
  "snd (settings_serve E r st) =
    map_option (\<lambda>_. snd (settings_handler (ue_Settings E (hr_Body r)) (hr_Method r) (case st of None \<Rightarrow> NewSettingsStore | Some s \<Rightarrow> s))) st"
  by (simp add: settings_serve_def split: prod.split)

lemma settings_serve_ok: "pred_option settings_ok st \<Longrightarrow> pred_option settings_ok (snd (settings_serve E r st))"
  by (cases st) (simp_all add: snd_settings_serve settings_handler_ok)

lemma snd_ui_run_Cons [simp]: "snd (ui_run S ((E, r) # rs) w) = snd (ui_run S rs (snd (ui_serve S E r w)))"
  by (simp split: prod.splits)

lemma ui_serve_settings_ok:
  assumes "pred_option settings_ok (uw_Settings w)"
  shows "pred_option settings_ok (uw_Settings (snd (ui_serve S E r w)))"
proof (cases "ui_route S E r")
  case (ToEndpoint g e)
  show ?thesis
  proof (cases "e = ESettings")
    case True
    then show ?thesis using assms settings_guard [of S E r g] ToEndpoint settings_serve_ok [OF assms, of E r]
      by (auto simp: ui_serve_frame ui_mux_def ui_guarded_def requireSession_def csrf_Middleware_def ui_handler_def
        split: option.splits prod.splits)
  next
    case False
    then show ?thesis using assms ToEndpoint by (simp add: ui_serve_frame ui_mux_def settings_frame)
  qed
qed (simp_all add: ui_serve_frame ui_mux_def assms)

text \<open>whatever requests a server answers, its settings keep an approval time between one second and the maximum, one of
  the four modes and one of the three policies.
\<close>

theorem settings_invariant:
  assumes "pred_option settings_ok (uw_Settings w)"
  shows "pred_option settings_ok (uw_Settings (snd (ui_run S rs w)))"
  using assms
proof (induction rs arbitrary: w)
  case (Cons c rs)
  obtain E r where c: "c = (E, r)" by fastforce
  then show ?case using Cons.IH [OF ui_serve_settings_ok [OF Cons.prems, of S E r]]
    by (simp only: c snd_ui_run_Cons)
qed simp

text \<open>an update answered as a bad request may still have been made in part: with an invalid policy, the approval time, the
  modes and the flags of the same body are stored before the answer.
\<close>

theorem settings_partly_applied:
  assumes "pu_ttl p = Some v" "pu_policy p = Some q" "q \<notin> set validApprovalPolicies"
    and "\<forall>m. pu_mode p = Some m \<longrightarrow> m \<in> set validOperatingModes" "settings_ok s"
  shows "map_option fst (fst (settings_handler (Some p) ''PUT'' s)) = Some 400 \<and>
    st_ttl (snd (settings_handler (Some p) ''PUT'' s)) = max 1 (min v (st_maxTTL s)) \<and>
    st_policy (snd (settings_handler (Some p) ''PUT'' s)) = st_policy s"
proof -
  have "\<not> put_empty p" by (simp add: put_empty_def assms(1))
  then show ?thesis using assms
    by (auto simp: settings_handler_def apply_settings_def SetTTL_def SetOperatingMode_def SetApprovalPolicy_def Let_def
      settings_ok_def split: option.splits)
qed

lemma receipts_bounded: "int (length (rs_entries s)) \<le> rs_cap s \<Longrightarrow> 0 < rs_cap s \<Longrightarrow>
    int (length (rs_entries (receipt_Push r s))) \<le> rs_cap (receipt_Push r s) \<and> last (rs_entries (receipt_Push r s)) = r"
  by (auto simp: receipt_Push_def Let_def)

lemma receipt_Last_suffix:
  "\<exists>older. rs_entries s = older @ receipt_Last n s \<and> (0 < n \<longrightarrow> length (receipt_Last n s) = min (nat n) (length (rs_entries s)))"
  by (rule exI [where x = "take (length (rs_entries s) - length (receipt_Last n s)) (rs_entries s)"])
    (auto simp: receipt_Last_def)

text \<open>a server that starts listens on a loopback address unless the flag for external ones was given outside an agent's
  session, in an agent's session has the status-only scope, and starts with a session of its own that nobody holds.
\<close>

theorem ui_new_safe:
  assumes "ui_New split parse_ip SE env rawToken rawID now opts = Inr (S, s)"
  shows "(isLoopbackBind split parse_ip (uo_Bind S) \<or> uo_AllowExternalBind opts \<and> \<not> IsLLMSession SE env) \<and>
    uo_Scope S \<le> uo_Scope opts \<and> (IsLLMSession SE env \<longrightarrow> uo_Scope S = ScopeStatusOnly) \<and>
    length (uo_SigningKey S) = 32 \<and> rawToken = Some (se_token s) \<and> rawID = Some (se_id s) \<and> \<not> se_consumed s"
  using assms
  by (auto simp: ui_New_def session_New_def Let_def less_eq_ui_scope_def split: if_splits option.splits sum.splits)

subsection \<open>Concrete runs\<close>

definition sample_ui_env :: "(nat, nat) ui_env" where
  "sample_ui_env = \<lparr>ue_SessionNow = 10, ue_LimitNow = 10, ue_RecordNow = 10, ue_Remote = ''127.0.0.1'', ue_Split = (\<lambda>_. None),
     ue_Cookies = (\<lambda>h k. let c = header_Get h ''Cookie'' in if HasPrefix c (k @ ''='') then Some (drop (Suc (length k)) c) else None),
     ue_MAC = (\<lambda>k t. k @ t), ue_CSRFToken = Some ''c'', ue_CleanPath = (\<lambda>p. p), ue_Unescape = (\<lambda>p. p),
     ue_Redirect = (\<lambda>_. http_NotFound), ue_Settings = (\<lambda>_. None), ue_Receipt = (\<lambda>_. None), ue_Receipts = (\<lambda>_. ''[]''),
     ue_Atoi = (\<lambda>_. None), ue_Experimental = False, ue_Version = ''v'', ue_SPA = (\<lambda>_. json_response 200 ''spa''),
     ue_App = (\<lambda>_ _ n. (json_response 200 ''ok'', Suc n))\<rparr>"

definition sample_ui_request :: "gostring \<Rightarrow> gostring \<Rightarrow> http_request" where
  "sample_ui_request m p = \<lparr>hr_Method = m, hr_Path = p, hr_EscapedPath = p, hr_Query = [], hr_Header = [], hr_Host = [], hr_Body = [],
     hr_BodyFails = False, hr_ContentLength = 0\<rparr>"

definition sample_ui_session :: ui_session where
  "sample_ui_session = \<lparr>se_id = ''i'', se_key = ''k'', se_token = ''t'', se_consumed = False, se_expiresAt = 100\<rparr>"

definition sample_ui_world :: "(nat, nat) ui_world" where
  "sample_ui_world = \<lparr>uw_Session = sample_ui_session, uw_Limiter = (\<lambda>_. None), uw_Settings = Some NewSettingsStore,
     uw_Receipts = NewReceiptStore 2, uw_App = 0\<rparr>"

definition sample_ui_options :: "ui_scope \<Rightarrow> ui_options" where
  "sample_ui_options sc = \<lparr>uo_Bind = ''localhost'', uo_SigningKey = replicate 32 CHR ''k'', uo_Scope = sc, uo_Demo = False,
     uo_AllowExternalBind = False, uo_IPCSecret = []\<rparr>"

lemmas sample_ui_defs = sample_ui_env_def sample_ui_request_def sample_ui_session_def sample_ui_world_def sample_ui_options_def

lemmas sample_route_defs = ui_route_def mux_find_def path_segments_def find_pattern_def route_defs sample_ui_defs

lemma sample_routes:
  "ui_route (sample_ui_options ScopeAdmin) sample_ui_env (sample_ui_request m ''/api/connections'') = ToEndpoint WithSessionCSRF EConnections"
  "is_bootstrap (sample_ui_options ScopeAdmin) (sample_ui_env, sample_ui_request m ''/__bootstrap'')"
  "ui_route (sample_ui_options ScopeAdmin) sample_ui_env (sample_ui_request m ''/api/csrf'') = ToEndpoint Limited ECSRF"
  by (simp_all add: sample_route_defs is_bootstrap_def)

lemma sample_no_cookie:
  "ValidateRequest (ue_SessionNow sample_ui_env) (ue_Cookies sample_ui_env (hr_Header (sample_ui_request m p))) (uw_Session sample_ui_world) = Some ErrUnknownSession"
  "csrf_Validate (ue_Cookies sample_ui_env (hr_Header (sample_ui_request m p))) (sample_ui_request m p) = Some CSRFMissing"
  by (simp_all add: sample_ui_defs ValidateRequest_def csrf_Validate_def header_Get_def header_Values_def HasPrefix_def)

lemma sample_refused:
  "refused_bootstrap (sample_ui_options ScopeAdmin) (uw_Session sample_ui_world) (sample_ui_env, sample_ui_request ''GET'' ''/__bootstrap'')"
  using sample_routes(2) [of "''GET''"]
  by (simp add: refused_bootstrap_def handleBootstrap_def ConsumeBootstrap_def sample_ui_defs query_Get_def http_Error_def)

lemma sample_times: "ue_LimitNow sample_ui_env \<le> 10 + limit_window \<and> 10 \<le> ue_RecordNow sample_ui_env \<and>
    ue_RecordNow sample_ui_env \<le> 10 + limit_window"
  by (simp add: sample_ui_env_def limit_window_def Minute_def Second_def)

theorem ui_needs_session_witness:
  "uw_App (snd (ui_serve (sample_ui_options ScopeAdmin) sample_ui_env (sample_ui_request ''POST'' ''/api/connections'') sample_ui_world)) = 0"
  using ui_needs_session [of sample_ui_env "sample_ui_request ''POST'' ''/api/connections''" sample_ui_world "sample_ui_options ScopeAdmin"]
  by (simp add: sample_no_cookie sample_routes) (simp add: sample_ui_world_def)

theorem ui_needs_token_witness:
  "uw_Settings (snd (ui_serve (sample_ui_options ScopeAdmin) sample_ui_env (sample_ui_request ''PUT'' ''/api/settings'') sample_ui_world))
    = Some NewSettingsStore"
proof -
  have "\<not> safe_method (hr_Method (sample_ui_request ''PUT'' ''/api/settings''))" by (simp add: safe_method_def sample_ui_request_def)
  from ui_needs_token [OF this, of sample_ui_env "sample_ui_options ScopeAdmin" sample_ui_world] show ?thesis
    by (simp add: sample_no_cookie) (simp add: sample_ui_world_def)
qed

theorem ui_status_only_witness:
  "out_of_reach (sample_ui_options ScopeStatusOnly) sample_ui_env (sample_ui_request ''POST'' ''/v1/receipts'') sample_ui_world (\<lambda>e. e = EMetrics)"
proof -
  have "uo_Scope (sample_ui_options ScopeStatusOnly) = ScopeStatusOnly" by (simp add: sample_ui_options_def)
  then show ?thesis by (rule conjunct1 [OF ui_status_only])
qed

theorem limiter_bound_witness:
  "length (filter (\<lambda>st. st = 401) (statuses (sample_ui_options ScopeAdmin)
     (replicate 9 (sample_ui_env, sample_ui_request ''GET'' ''/__bootstrap'')) sample_ui_world)) \<le> 5"
proof -
  let ?rs = "replicate 9 (sample_ui_env, sample_ui_request ''GET'' ''/__bootstrap'')"
  have "uw_Limiter sample_ui_world (remote_ip sample_ui_env) = None" by (simp add: sample_ui_world_def)
  moreover have "\<forall>(E, r) \<in> set ?rs. refused_bootstrap (sample_ui_options ScopeAdmin) (uw_Session sample_ui_world) (E, r) \<and>
      remote_ip E = remote_ip sample_ui_env \<and> ue_LimitNow E \<le> 10 + limit_window \<and> 10 \<le> ue_RecordNow E \<and>
      ue_RecordNow E \<le> 10 + limit_window"
    using sample_refused sample_times by simp
  ultimately show ?thesis using limiter_bound [of sample_ui_world "remote_ip sample_ui_env" ?rs] by blast
qed

theorem csrf_resets_limiter_witness:
  "statuses (sample_ui_options ScopeAdmin) (concat (replicate 40 [(sample_ui_env, sample_ui_request ''GET'' ''/__bootstrap''),
     (sample_ui_env, sample_ui_request ''GET'' ''/api/csrf'')])) sample_ui_world = concat (replicate 40 [401, 200])"
  by (rule csrf_resets_limiter)
    (simp_all add: sample_refused sample_routes, simp_all add: sample_ui_world_def sample_ui_env_def sample_ui_request_def)

theorem settings_invariant_witness:
  "pred_option settings_ok (uw_Settings (snd (ui_run (sample_ui_options ScopeAdmin)
     [(sample_ui_env, sample_ui_request ''PUT'' ''/api/settings'')] sample_ui_world)))"
  by (rule settings_invariant) (simp add: sample_ui_world_def NewSettingsStore_ok)

theorem settings_partly_applied_witness:
  "st_ttl (snd (settings_handler (Some \<lparr>pu_ttl = Some 9000, pu_advanced = None, pu_mode = None, pu_telemetryDisable = None,
     pu_experimental = None, pu_policy = Some ''never''\<rparr>) ''PUT'' NewSettingsStore)) = 3600"
  using settings_partly_applied [of "\<lparr>pu_ttl = Some 9000, pu_advanced = None, pu_mode = None, pu_telemetryDisable = None,
     pu_experimental = None, pu_policy = Some ''never''\<rparr>" 9000 "''never''" NewSettingsStore] NewSettingsStore_ok
  by (simp add: validApprovalPolicies_def NewSettingsStore_def)

definition plain_session :: session_env where
  "plain_session = \<lparr>sn_Ancestry = False, sn_Chain = [], sn_Verifier = None\<rparr>"

lemma plain_not_agent: "\<not> IsLLMSession plain_session (\<lambda>_. [])"
proof -
  have "\<not> Fires m []" for m by (cases m) (simp_all add: Fires_def)
  moreover have "fold (\<lambda>_ c. c) xs c = c" for xs :: "owned_signal list" and c :: classification by (induction xs) simp_all
  ultimately have "classify_env (\<lambda>_. []) = \<lparr>cl_Signals = [], cl_Harness = []\<rparr>" by (simp add: classify_env_def)
  then show ?thesis by (simp add: IsLLMSession_def Classify_def plain_session_def Let_def Detected_def)
qed

lemma sample_ui_New:
  "\<exists>S s. ui_New (\<lambda>_. None) (\<lambda>_. None) plain_session (\<lambda>_. []) (Some ''t'') (Some ''i'') 0 (sample_ui_options ScopeAdmin) = Inr (S, s)"
  using plain_not_agent
  by (simp add: ui_New_def session_New_def sample_ui_options_def isLoopbackBind_def TrimSuffix_def HasSuffix_def HasPrefix_def Let_def)

theorem ui_new_safe_witness:
  "\<exists>S s. ui_New (\<lambda>_. None) (\<lambda>_. None) plain_session (\<lambda>_. []) (Some ''t'') (Some ''i'') 0 (sample_ui_options ScopeAdmin) = Inr (S, s) \<and>
    length (uo_SigningKey S) = 32 \<and> uo_Scope S \<le> ScopeAdmin \<and> \<not> se_consumed s"
proof -
  obtain S s where N: "ui_New (\<lambda>_. None) (\<lambda>_. None) plain_session (\<lambda>_. []) (Some ''t'') (Some ''i'') 0 (sample_ui_options ScopeAdmin) = Inr (S, s)"
    using sample_ui_New by blast
  moreover have "uo_Scope (sample_ui_options ScopeAdmin) = ScopeAdmin" by (simp add: sample_ui_options_def)
  ultimately show ?thesis using ui_new_safe [OF N] by auto
qed

end
