(* ===== verification/Proxy_Server.thy ===== *)
theory Proxy_Server
  imports Gateway_Handler
begin

section \<open>The intercepting proxy (\<open>internal/proxy\<close>)\<close>

text \<open>
  \<open>server.go\<close>, \<open>profile.go\<close>, \<open>validation.go\<close>, \<open>ca.go\<close>: the profile and its validation, the check of the caller, the handler
  of plain requests, the \<open>CONNECT\<close> handler with its decrypted request, and the cache of leaf certificates. DNS, the vault,
  the provider, base64 and TLS are parameters; certificates are reduced to their expiry.
\<close>

subsection \<open>The profile\<close>

record proxy_route =
  xr_Method :: gostring
  xr_Path :: gostring
  xr_Capability :: gostring
  xr_Placement :: gostring
  xr_Name :: gostring
  xr_Value :: gostring
  xr_Masking :: gostring

record proxy_profile =
  xp_Mode :: gostring
  xp_Hosts :: "gostring list"
  xp_Routes :: "proxy_route list"
  xp_TLSMode :: gostring
  xp_CAKeyStorage :: gostring
  xp_DenyPrivateRanges :: bool
  xp_ResolveAndVerify :: bool

datatype profile_error =
    ProfileParse | ProfileMode runtime_error | ProfileTLSMode | ProfileCAKeyStorage
  | ProfileNoHosts | ProfileHost gostring | ProfileDenyPrivate | ProfileResolve | ProfileTemplate nat | ProfileMasking nat

definition validateTLSMode :: "proxy_profile \<Rightarrow> profile_error option" where
  "validateTLSMode p =
    (if xp_TLSMode p \<notin> {''local_ca'', ''trust_store_install'', []} then Some ProfileTLSMode
     else if xp_TLSMode p \<noteq> [] \<and> xp_CAKeyStorage p \<noteq> ''keyring'' then Some ProfileCAKeyStorage
     else None)"

text \<open>The decoded profile is \<open>None\<close> when the data is not JSON of that shape.\<close>

definition ParseProxyProfile :: "proxy_profile option \<Rightarrow> profile_error + proxy_profile" where
  "ParseProxyProfile data =
    (case data of None \<Rightarrow> Inl ProfileParse
     | Some p \<Rightarrow>
        (case (if xp_Mode p \<noteq> [] then ValidateRuntimeMode (xp_Mode p) else None) of
           Some e \<Rightarrow> Inl (ProfileMode e)
         | None \<Rightarrow> (case validateTLSMode p of Some e \<Rightarrow> Inl e | None \<Rightarrow> Inr p)))"

definition validateSSRFSafeHost :: "(gostring \<Rightarrow> ipaddr option) \<Rightarrow> gostring \<Rightarrow> bool" where
  "validateSSRFSafeHost parse_ip host =
    (case parse_ip host of None \<Rightarrow> True | Some ip \<Rightarrow> \<not> list_ex (\<lambda>network. net_Contains network ip) SSRFDenyRanges)"

text \<open>The regular expression \<open>secretTemplateRe\<close>: its character class contains neither white space nor braces, so a match
  never has to give a character back.\<close>

definition template_char :: "char \<Rightarrow> bool" where
  "template_char c = (is_lower c \<or> is_upper c \<or> is_digit c \<or> c \<in> set ''_/.-'')"

definition secretTemplate :: "gostring \<Rightarrow> bool" where
  "secretTemplate s =
    (let a = dropWhile re_space (drop 2 s); b = drop 7 a in
     HasPrefix s ''{{'' \<and> HasPrefix a ''secret.'' \<and> takeWhile template_char b \<noteq> [] \<and>
     dropWhile re_space (dropWhile template_char b) = ''}}'')"

definition validMaskingLevels :: "gostring list" where
  "validMaskingLevels = [''basic'', ''strict'', ''metadata_only'', ''block_body'', []]"

fun first_bad :: "('a \<Rightarrow> bool) \<Rightarrow> nat \<Rightarrow> 'a list \<Rightarrow> nat option" where
  "first_bad P i [] = None"
| "first_bad P i (x # xs) = (if P x then Some i else first_bad P (Suc i) xs)"

definition bad_template :: "proxy_route \<Rightarrow> bool" where
  "bad_template rt = (HasPrefix (xr_Value rt) ''{{'' \<and> \<not> secretTemplate (xr_Value rt))"

definition ValidateProxyProfile :: "(gostring \<Rightarrow> ipaddr option) \<Rightarrow> proxy_profile \<Rightarrow> profile_error option" where
  "ValidateProxyProfile parse_ip p =
    (if xp_Hosts p = [] then Some ProfileNoHosts
     else (case find (\<lambda>h. \<not> validateSSRFSafeHost parse_ip h) (xp_Hosts p) of Some h \<Rightarrow> Some (ProfileHost h)
     | None \<Rightarrow>
        if \<not> xp_DenyPrivateRanges p then Some ProfileDenyPrivate
        else if \<not> xp_ResolveAndVerify p then Some ProfileResolve
        else (case first_bad bad_template 0 (xp_Routes p) of Some i \<Rightarrow> Some (ProfileTemplate i)
        | None \<Rightarrow> map_option ProfileMasking (first_bad (\<lambda>rt. xr_Masking rt \<notin> set validMaskingLevels) 0 (xp_Routes p)))))"

subsection \<open>Requests\<close>

record proxy_request =
  pq_Request :: http_request
  pq_Scheme :: gostring
  pq_URLHost :: gostring

text \<open>What is sent: the query as its decoded parameters.\<close>

record proxy_upstream =
  px_Method :: gostring
  px_Scheme :: gostring
  px_Host :: gostring
  px_Path :: gostring
  px_Query :: "(gostring \<times> gostring) list"
  px_Header :: http_header
  px_Body :: gostring

record proxy_env =
  xv_Split :: "gostring \<Rightarrow> gostring option"
  xv_ParseIP :: "gostring \<Rightarrow> ipaddr option"
  xv_Lookup :: "gostring \<Rightarrow> gostring list option"
  xv_Vault :: "gostring \<Rightarrow> gostring option"
  xv_BuildOk :: "proxy_upstream \<Rightarrow> bool"
  xv_Upstream :: "proxy_upstream \<Rightarrow> http_response option"
  xv_Base64 :: "gostring \<Rightarrow> gostring"
  xv_Hijack :: bool
  xv_Ack :: bool
  xv_CertOk :: "gostring \<Rightarrow> bool"
  xv_Inner :: "gostring \<Rightarrow> proxy_request option"

record proxy_server =
  xs_Addr :: gostring
  xs_Profile :: proxy_profile
  xs_HasVault :: bool
  xs_HasCA :: bool
  xs_HasAudit :: bool
  xs_Token :: gostring

text \<open>The world keeps what went out: denials, vault paths read, requests sent and raw connections opened.\<close>

record proxy_world =
  xw_Denials :: "(gostring \<times> gostring) list"
  xw_Reads :: "gostring list"
  xw_Sent :: "proxy_upstream list"
  xw_Dialled :: "gostring list"

definition proxy_error :: "nat \<Rightarrow> gostring \<Rightarrow> http_response" where
  "proxy_error status code = \<lparr>hp_Status = status, hp_Header = [(''Content-Type'', [''text/plain; charset=utf-8'']),
     (''X-Content-Type-Options'', [''nosniff''])], hp_Body = json_object [(''error'', code)] @ [newline]\<rparr>"

definition auditDeny :: "proxy_server \<Rightarrow> gostring \<Rightarrow> gostring \<Rightarrow> proxy_world \<Rightarrow> proxy_world" where
  "auditDeny S reason host w = (if \<not> xs_HasAudit S then w else w\<lparr>xw_Denials := xw_Denials w @ [(reason, host)]\<rparr>)"

definition checkCallerAuth :: "proxy_server \<Rightarrow> http_request \<Rightarrow> bool" where
  "checkCallerAuth S r =
    (if xs_Token S = [] then True
     else (let got = header_Get (hr_Header r) ''Proxy-Authorization'' in HasPrefix got ''Bearer '' \<and> drop 7 got = xs_Token S))"

definition bare_host :: "proxy_env \<Rightarrow> gostring \<Rightarrow> gostring" where
  "bare_host E hostport = (case xv_Split E hostport of None \<Rightarrow> hostport | Some h \<Rightarrow> h)"

definition hostAllowed :: "proxy_env \<Rightarrow> proxy_server \<Rightarrow> gostring \<Rightarrow> bool" where
  "hostAllowed E S host = list_ex (\<lambda>allowed. bare_host E allowed = host \<or> allowed = host) (xp_Hosts (xs_Profile S))"

text \<open>\<open>ssrfCheck\<close>; true when the host may be used.\<close>

definition ssrfCheck :: "proxy_env \<Rightarrow> proxy_server \<Rightarrow> gostring \<Rightarrow> bool" where
  "ssrfCheck E S host =
    (case xv_Lookup E host of None \<Rightarrow> False
     | Some addrs \<Rightarrow>
        \<not> xp_DenyPrivateRanges (xs_Profile S) \<or>
        list_all (\<lambda>a. case xv_ParseIP E a of None \<Rightarrow> True
                      | Some ip \<Rightarrow> \<not> list_ex (\<lambda>network. net_Contains network ip) SSRFDenyRanges) addrs)"

definition matchRoute :: "proxy_server \<Rightarrow> http_request \<Rightarrow> proxy_route option" where
  "matchRoute S r = find (\<lambda>rt. (xr_Method rt = [] \<or> xr_Method rt = hr_Method r) \<and> HasPrefix (hr_Path r) (xr_Path rt)) (xp_Routes (xs_Profile S))"

definition parseSecretRef :: "gostring \<Rightarrow> gostring" where
  "parseSecretRef value =
    (let v = TrimSpace value in
     if \<not> HasPrefix v ''{{'' \<or> \<not> HasSuffix v ''}}'' then []
     else (let inner = TrimSpace (take (length v - 4) (drop 2 v)) in
           if \<not> HasPrefix inner ''secret.'' then [] else drop 7 inner))"

definition query_Set :: "(gostring \<times> gostring) list \<Rightarrow> gostring \<Rightarrow> gostring \<Rightarrow> (gostring \<times> gostring) list" where
  "query_Set q k v = filter (\<lambda>(n, _). n \<noteq> k) q @ [(k, v)]"

definition injectProxyCred :: "proxy_env \<Rightarrow> proxy_route \<Rightarrow> gostring \<Rightarrow> proxy_upstream \<Rightarrow> proxy_upstream" where
  "injectProxyCred E rt cred u =
    (if xr_Placement rt = ''header'' then u\<lparr>px_Header := header_Set (px_Header u) (xr_Name rt) cred\<rparr>
     else if xr_Placement rt = ''query'' then u\<lparr>px_Query := query_Set (px_Query u) (xr_Name rt) cred\<rparr>
     else if xr_Placement rt = ''basic'' then
       u\<lparr>px_Header := header_Set (px_Header u) ''Authorization'' (''Basic '' @ xv_Base64 E (xr_Name rt @ '':'' @ cred))\<rparr>
     else u\<lparr>px_Header := header_Set (px_Header u) ''Authorization'' (''Bearer '' @ cred)\<rparr>)"

definition withheld_header :: "gostring \<Rightarrow> bool" where
  "withheld_header k = (let l = ToLower k in l = ''authorization'' \<or> l = ''proxy-authorization'' \<or> HasPrefix l ''x-keylatch-'')"

definition copy_headers :: "http_header \<Rightarrow> http_header" where
  "copy_headers h = fold (\<lambda>(k, vv) d. if withheld_header k then d else fold (\<lambda>v d. header_Add d k v) vv d) h []"

definition proxy_upstream_of :: "proxy_env \<Rightarrow> proxy_route \<Rightarrow> gostring \<Rightarrow> proxy_request \<Rightarrow> proxy_upstream" where
  "proxy_upstream_of E rt cred q =
    (let r = pq_Request q;
         u = \<lparr>px_Method = hr_Method r, px_Scheme = (if pq_Scheme q = [] then ''http'' else pq_Scheme q),
              px_Host = (if pq_URLHost q = [] then hr_Host r else pq_URLHost q), px_Path = hr_EscapedPath r,
              px_Query = hr_Query r, px_Header = copy_headers (header_Del (hr_Header r) ''Authorization''), px_Body = hr_Body r\<rparr>
     in if cred \<noteq> [] then injectProxyCred E rt cred u else u)"

text \<open>The status, the headers and the body of the answer are the provider's.\<close>

definition proxy_forward :: "proxy_env \<Rightarrow> proxy_route \<Rightarrow> gostring \<Rightarrow> proxy_request \<Rightarrow> proxy_world \<Rightarrow> http_response \<times> proxy_world" where
  "proxy_forward E rt cred q w =
    (let u = proxy_upstream_of E rt cred q in
     if \<not> xv_BuildOk E u then (proxy_error 500 ''upstream_build_error'', w)
     else (case xv_Upstream E u of
       None \<Rightarrow> (proxy_error 503 ''upstream_error'', w\<lparr>xw_Sent := xw_Sent w @ [u]\<rparr>)
     | Some resp \<Rightarrow> (resp, w\<lparr>xw_Sent := xw_Sent w @ [u]\<rparr>)))"

definition routeHandler :: "proxy_server \<Rightarrow> proxy_env \<Rightarrow> proxy_request \<Rightarrow> proxy_world \<Rightarrow> http_response \<times> proxy_world" where
  "routeHandler S E q w =
    (let r = pq_Request q; host = bare_host E (hr_Host r) in
     if \<not> hostAllowed E S host then (proxy_error 403 ''host_not_allowed'', auditDeny S ''host_not_allowed'' host w)
     else if xp_ResolveAndVerify (xs_Profile S) \<and> \<not> ssrfCheck E S host then
       (proxy_error 403 ''ssrf_denied'', auditDeny S ''ssrf_denied'' host w)
     else (case matchRoute S r of
       None \<Rightarrow> (proxy_error 403 ''route_not_allowed'', auditDeny S ''route_not_allowed'' (hr_Path r) w)
     | Some rt \<Rightarrow>
         (let path = parseSecretRef (xr_Value rt) in
          if \<not> xs_HasVault S \<or> path = [] then proxy_forward E rt [] q w
          else (let w1 = w\<lparr>xw_Reads := xw_Reads w @ [path]\<rparr> in
                case xv_Vault E path of
                  None \<Rightarrow> (proxy_error 503 ''credential_unavailable'', w1)
                | Some cred \<Rightarrow> proxy_forward E rt cred q w1))))"

text \<open>
  \<open>handleCONNECT\<close>. Once the connection is taken over, nothing is written through the response: the answer is \<open>None\<close> when the
  connection is bridged or fails, else that of the decrypted request, which is sent to the host of the \<open>CONNECT\<close>.
\<close>

definition handleCONNECT :: "proxy_server \<Rightarrow> proxy_env \<Rightarrow> proxy_request \<Rightarrow> proxy_world \<Rightarrow> http_response option \<times> proxy_world" where
  "handleCONNECT S E q w =
    (let r = pq_Request q; host = bare_host E (hr_Host r) in
     if \<not> hostAllowed E S host then (Some (proxy_error 403 ''host_not_allowed''), auditDeny S ''host_not_allowed_connect'' host w)
     else if xp_ResolveAndVerify (xs_Profile S) \<and> \<not> ssrfCheck E S host then
       (Some (proxy_error 403 ''ssrf_denied''), auditDeny S ''ssrf_denied'' host w)
     else if \<not> xv_Hijack E then (Some (proxy_error 500 ''hijack_not_supported''), w)
     else if \<not> xv_Ack E then (None, w)
     else if \<not> xs_HasCA S \<or> \<not> xv_CertOk E host then (None, w\<lparr>xw_Dialled := xw_Dialled w @ [hr_Host r]\<rparr>)
     else (case xv_Inner E (hr_Host r) of None \<Rightarrow> (None, w)
           | Some inner \<Rightarrow> map_prod Some id (routeHandler S E (inner\<lparr>pq_Scheme := ''https'', pq_URLHost := hr_Host r\<rparr>) w)))"

definition proxy_ServeHTTP :: "proxy_server \<Rightarrow> proxy_env \<Rightarrow> proxy_request \<Rightarrow> proxy_world \<Rightarrow> http_response option \<times> proxy_world" where
  "proxy_ServeHTTP S E q w =
    (let r = pq_Request q in
     if \<not> checkCallerAuth S r then
       (Some (proxy_error 401 ''unauthorized''), auditDeny S ''proxy_caller_unauthenticated'' (hr_Host r) w)
     else if hr_Method r = ''CONNECT'' then handleCONNECT S E q w
     else map_prod Some id (routeHandler S E q w))"

text \<open>\<open>EnsureToken\<close> and the checks of \<open>Serve\<close> before it listens; the random token is \<open>None\<close> when the source fails.\<close>

definition EnsureToken :: "gostring option \<Rightarrow> proxy_server \<Rightarrow> proxy_server option" where
  "EnsureToken fresh S = (if xs_Token S \<noteq> [] then Some S else map_option (\<lambda>t. S\<lparr>xs_Token := t\<rparr>) fresh)"

datatype proxy_start_error = ProxyNotLoopback | ProxyToken

definition proxy_Serve :: "(gostring \<Rightarrow> gostring option) \<Rightarrow> (gostring \<Rightarrow> ipaddr option) \<Rightarrow> gostring option \<Rightarrow> proxy_server \<Rightarrow>
    proxy_start_error + gostring \<times> proxy_server" where
  "proxy_Serve split parse_ip fresh S =
    (let addr = or_default (xs_Addr S) ''127.0.0.1:7879'' in
     if \<not> isLoopbackBind split parse_ip addr then Inl ProxyNotLoopback
     else (case EnsureToken fresh S of None \<Rightarrow> Inl ProxyToken | Some S' \<Rightarrow> Inr (addr, S')))"

subsection \<open>Leaf certificates\<close>

type_synonym cert_cache = "(gostring \<times> gotime) list"

definition cert_put :: "gotime \<Rightarrow> gostring \<Rightarrow> cert_cache \<Rightarrow> cert_cache" where
  "cert_put now host c = (host, now + 24 * Hour) # filter (\<lambda>(h, _). h \<noteq> host) (if length c > 1000 then [] else c)"

text \<open>\<open>CertForHost\<close>: the expiry of the certificate that is served, \<open>None\<close> when minting fails.\<close>

definition CertForHost :: "gotime \<Rightarrow> bool \<Rightarrow> gostring \<Rightarrow> cert_cache \<Rightarrow> gotime option \<times> cert_cache" where
  "CertForHost now mint_ok host c =
    (case (case map_of c host of None \<Rightarrow> None | Some notAfter \<Rightarrow> if now < notAfter then Some notAfter else None) of
       Some notAfter \<Rightarrow> (Some notAfter, c)
     | None \<Rightarrow>
        (let c1 = filter (\<lambda>(h, _). h \<noteq> host) c in
         if \<not> mint_ok then (None, c1) else (Some (now + 24 * Hour), cert_put now host c1)))"

end
