(* ===== verification/Proxy_Facts.thy ===== *)
theory Proxy_Facts
  imports Proxy_Server
begin

section \<open>What the proxy promises\<close>

text \<open>
  When a credential is read and where it goes, what of the caller's request reaches the provider, what a tunnel without
  a certificate authority lets through, the validation of secret references, and the bound of the certificate cache.
\<close>

subsection \<open>What is sent\<close>

lemma copy_headers_fold:
  assumes "x \<in> set (fold (\<lambda>(k, vv) d. if withheld_header k then d else fold (\<lambda>v d. header_Add d k v) vv d) h d0)"
  shows "x \<in> set d0 \<or> \<not> withheld_header (fst x)"
  using assms
proof (induction h arbitrary: d0)
  case (Cons kv h)
  obtain k vv where kv: "kv = (k, vv)" by force
  have inner: "x \<in> set (fold (\<lambda>v d. header_Add d k v) vv d) \<Longrightarrow> x \<in> set d \<or> \<not> withheld_header (fst x)"
    if "\<not> withheld_header k" for d
  proof (induction vv arbitrary: d)
    case (Cons v vv)
    then show ?case using header_Add_keys [of x d k v] that by (auto simp: withheld_header_def)
  qed simp
  show ?case using Cons.IH Cons.prems inner by (cases "withheld_header k") (auto simp: kv)
qed simp

lemma copy_headers_withheld: "x \<in> set (copy_headers h) \<Longrightarrow> \<not> withheld_header (fst x)"
  using copy_headers_fold [of x h "[]"] by (simp add: copy_headers_def)

lemma header_Set_in: "x \<in> set (header_Set h k v) \<Longrightarrow> x \<in> set h \<or> x = (CanonicalHeaderKey k, [v])"
  by (auto simp: header_Set_def header_Del_def)

definition injected_values :: "proxy_env \<Rightarrow> proxy_route \<Rightarrow> gostring \<Rightarrow> gostring list" where
  "injected_values E rt cred = [cred, ''Bearer '' @ cred, ''Basic '' @ xv_Base64 E (xr_Name rt @ '':'' @ cred)]"

text \<open>No \<open>Authorization\<close>, \<open>Proxy-Authorization\<close> or \<open>X-Keylatch-\<close> header of the caller reaches the provider: a header of
  such a name in what is sent carries the credential the proxy injected, and there is none without one.\<close>

theorem proxy_headers_clean:
  assumes "(k, vs) \<in> set (px_Header (proxy_upstream_of E rt cred q))" and "withheld_header k"
  shows "cred \<noteq> [] \<and> (\<exists>v \<in> set (injected_values E rt cred). vs = [v])"
proof -
  have "cred \<noteq> [] \<and> (\<exists>v. (v = cred \<or> v = ''Bearer '' @ cred \<or> v = ''Basic '' @ xv_Base64 E (xr_Name rt @ '':'' @ cred)) \<and> vs = [v])"
    using assms copy_headers_withheld [of "(k, vs)" "header_Del (hr_Header (pq_Request q)) ''Authorization''"]
    by (auto simp: proxy_upstream_of_def injectProxyCred_def Let_def dest!: header_Set_in split: if_splits)
  then show ?thesis by (auto simp: injected_values_def)
qed

text \<open>The parts of the request that reach the provider as they are.\<close>

lemma proxy_upstream_simps [simp]:
  "px_Method (proxy_upstream_of E rt cred q) = hr_Method (pq_Request q)"
  "px_Host (proxy_upstream_of E rt cred q) = (if pq_URLHost q = [] then hr_Host (pq_Request q) else pq_URLHost q)"
  "px_Path (proxy_upstream_of E rt cred q) = hr_EscapedPath (pq_Request q)"
  by (simp_all add: proxy_upstream_of_def injectProxyCred_def Let_def)

subsection \<open>When something is sent\<close>

definition host_ok :: "proxy_env \<Rightarrow> proxy_server \<Rightarrow> gostring \<Rightarrow> bool" where
  "host_ok E S host = (hostAllowed E S host \<and> (xp_ResolveAndVerify (xs_Profile S) \<longrightarrow> ssrfCheck E S host))"

definition route_for :: "proxy_server \<Rightarrow> proxy_request \<Rightarrow> proxy_route \<Rightarrow> bool" where
  "route_for S q rt = (rt \<in> set (xp_Routes (xs_Profile S)) \<and> (xr_Method rt = [] \<or> xr_Method rt = hr_Method (pq_Request q)) \<and>
     HasPrefix (hr_Path (pq_Request q)) (xr_Path rt))"

definition credential_for :: "proxy_env \<Rightarrow> proxy_server \<Rightarrow> proxy_route \<Rightarrow> gostring \<Rightarrow> bool" where
  "credential_for E S rt cred = (cred = [] \<or> xs_HasVault S \<and> xv_Vault E (parseSecretRef (xr_Value rt)) = Some cred)"

lemma auditDeny_frame [simp]:
  "xw_Sent (auditDeny S a b w) = xw_Sent w" "xw_Reads (auditDeny S a b w) = xw_Reads w" "xw_Dialled (auditDeny S a b w) = xw_Dialled w"
  by (simp_all add: auditDeny_def)

lemma matchRoute_for: "matchRoute S (pq_Request q) = Some rt \<Longrightarrow> route_for S q rt"
  by (auto simp: matchRoute_def route_for_def find_Some_iff)

lemma proxy_forward_sent: "xw_Sent (snd (proxy_forward E rt cred q w)) \<in> {xw_Sent w, xw_Sent w @ [proxy_upstream_of E rt cred q]} \<and>
    xw_Reads (snd (proxy_forward E rt cred q w)) = xw_Reads w \<and> xw_Dialled (snd (proxy_forward E rt cred q w)) = xw_Dialled w"
  by (auto simp: proxy_forward_def Let_def split: option.split)

lemma routeHandler_effects:
  "xw_Dialled (snd (routeHandler S E q w)) = xw_Dialled w \<and>
   (xw_Sent (snd (routeHandler S E q w)) = xw_Sent w \<and> xw_Reads (snd (routeHandler S E q w)) = xw_Reads w \<or>
    host_ok E S (bare_host E (hr_Host (pq_Request q))) \<and>
    (\<exists>rt cred. route_for S q rt \<and> credential_for E S rt cred \<and>
       xw_Reads (snd (routeHandler S E q w)) \<in> {xw_Reads w, xw_Reads w @ [parseSecretRef (xr_Value rt)]} \<and>
       xw_Sent (snd (routeHandler S E q w)) \<in> {xw_Sent w, xw_Sent w @ [proxy_upstream_of E rt cred q]}))"
proof -
  let ?host = "bare_host E (hr_Host (pq_Request q))"
  show ?thesis
  proof (cases "host_ok E S ?host \<and> matchRoute S (pq_Request q) \<noteq> None")
    case False
    then show ?thesis by (auto simp: routeHandler_def host_ok_def Let_def)
  next
    case True
    then obtain rt where m: "matchRoute S (pq_Request q) = Some rt" and h: "host_ok E S ?host" by blast
    let ?path = "parseSecretRef (xr_Value rt)" and ?w1 = "w\<lparr>xw_Reads := xw_Reads w @ [parseSecretRef (xr_Value rt)]\<rparr>"
    have R: "routeHandler S E q w = (if \<not> xs_HasVault S \<or> ?path = [] then proxy_forward E rt [] q w
        else (case xv_Vault E ?path of None \<Rightarrow> (proxy_error 503 ''credential_unavailable'', ?w1)
              | Some cred \<Rightarrow> proxy_forward E rt cred q ?w1))"
      using h m by (auto simp: routeHandler_def host_ok_def Let_def)
    show ?thesis
    proof (cases "\<not> xs_HasVault S \<or> ?path = []")
      case True
      then show ?thesis using R h matchRoute_for [OF m] proxy_forward_sent [of E rt "[]" q w]
        by (auto simp: credential_for_def)
    next
      case False
      show ?thesis
      proof (cases "xv_Vault E ?path")
        case None
        then show ?thesis using R False h matchRoute_for [OF m] by (auto simp: credential_for_def)
      next
        case (Some cred)
        have "credential_for E S rt cred" using Some False by (simp add: credential_for_def)
        then show ?thesis using R False Some h matchRoute_for [OF m] proxy_forward_sent [of E rt cred q ?w1] by auto
      qed
    qed
  qed
qed

text \<open>A request as \<open>net/http\<close> hands it over: an absolute URL names the same host as \<open>Host\<close>.\<close>

definition read_request :: "proxy_request \<Rightarrow> bool" where
  "read_request q = (pq_URLHost q = [] \<or> pq_URLHost q = hr_Host (pq_Request q))"

lemma handleCONNECT_effects:
  assumes "xw_Sent (snd (handleCONNECT S E q w)) \<noteq> xw_Sent w \<or> xw_Reads (snd (handleCONNECT S E q w)) \<noteq> xw_Reads w"
  obtains inner where "xv_Inner E (hr_Host (pq_Request q)) = Some inner" "xs_HasCA S" "host_ok E S (bare_host E (hr_Host (pq_Request q)))"
    "snd (handleCONNECT S E q w) = snd (routeHandler S E (inner\<lparr>pq_Scheme := ''https'', pq_URLHost := hr_Host (pq_Request q)\<rparr>) w)"
  using assms by (auto simp: handleCONNECT_def host_ok_def Let_def split: if_splits option.splits)


text \<open>Without a certificate authority, or when no certificate can be made for the host, the routes of the profile have no
  say: the tunnel is connected to the host of the \<open>CONNECT\<close> on any port, whatever routes there are.
\<close>

theorem proxy_tunnel_ignores_routes:
  assumes "checkCallerAuth S (pq_Request q)" "hr_Method (pq_Request q) = ''CONNECT''"
    and "host_ok E S (bare_host E (hr_Host (pq_Request q)))" "xv_Hijack E" "xv_Ack E" "\<not> xs_HasCA S"
  shows "proxy_ServeHTTP (S\<lparr>xs_Profile := (xs_Profile S)\<lparr>xp_Routes := routes\<rparr>\<rparr>) E q w =
    (None, w\<lparr>xw_Dialled := xw_Dialled w @ [hr_Host (pq_Request q)]\<rparr>)"
  using assms
  by (auto simp: proxy_ServeHTTP_def handleCONNECT_def host_ok_def checkCallerAuth_def hostAllowed_def ssrfCheck_def Let_def split: option.splits)

text \<open>The proxy listens on loopback addresses only, and always with a token.\<close>

theorem proxy_serve_safe:
  assumes "proxy_Serve split parse_ip fresh S = Inr (addr, S')" "fresh \<noteq> Some []"
  shows "isLoopbackBind split parse_ip addr \<and> xs_Token S' \<noteq> [] \<and> (xs_Token S \<noteq> [] \<longrightarrow> S' = S)"
  using assms by (auto simp: proxy_Serve_def EnsureToken_def Let_def split: if_splits option.splits)

subsection \<open>Secret references\<close>

lemma dropWhile_all: "list_all P xs \<Longrightarrow> dropWhile P (xs @ ys) = dropWhile P ys"
  by (induction xs) auto

lemma TrimSpace_spaces:
  assumes "list_all is_space a" "list_all is_space b" "s \<noteq> []" "\<not> is_space (hd s)" "\<not> is_space (last s)"
  shows "TrimSpace (a @ s @ b) = s"
proof -
  have "dropWhile is_space (a @ s @ b) = s @ b" using assms by (cases s) (auto simp: dropWhile_all)
  moreover have "dropWhile is_space (rev b @ rev s) = rev s"
    using assms by (cases "rev s") (auto simp: dropWhile_all list_all_rev hd_rev [symmetric])
  ultimately show ?thesis by (simp add: TrimSpace_def)
qed

lemma re_space_is_space: "re_space c \<Longrightarrow> is_space c"
  by (auto simp: re_space_def is_space_def)

lemma template_char_not_space: "template_char c \<Longrightarrow> \<not> is_space c"
  by (auto simp: template_char_def is_space_def is_lower_def is_upper_def is_digit_def byte_of_def)

text \<open>A value that starts with the opening braces and passes the validation names a path of at least one of the
  allowed characters, which is the path that is read.\<close>

theorem template_path:
  assumes "secretTemplate s"
  shows "parseSecretRef s \<noteq> [] \<and> list_all template_char (parseSecretRef s)"
proof -
  define a b c where abc: "a = dropWhile re_space (drop 2 s)" "b = drop 7 a" "c = dropWhile template_char b"
  define w1 p w2 where w: "w1 = takeWhile re_space (drop 2 s)" "p = takeWhile template_char b" "w2 = takeWhile re_space c"
  have t: "HasPrefix s ''{{''" "HasPrefix a ''secret.''" "p \<noteq> []" "dropWhile re_space c = ''}}''"
    using assms by (simp_all add: secretTemplate_def Let_def abc w)
  have "take 2 s = ''{{''" "take 7 a = ''secret.''" using t(1,2) by (simp_all add: HasPrefix_def eval_nat_numeral)
  note parts = append_take_drop_id [of 2 s, unfolded this(1), symmetric] append_take_drop_id [of 7 a, unfolded this(2), symmetric]
  have "s = ''{{'' @ drop 2 s" by (rule parts(1))
  moreover have "drop 2 s = w1 @ a" by (simp add: abc w)
  moreover have "a = ''secret.'' @ b" using parts(2) by (simp only: abc)
  moreover have "b = p @ c" by (simp add: abc w)
  moreover have "c = w2 @ ''}}''" using t(4) by (metis takeWhile_dropWhile_id w(3))
  ultimately have s: "s = ''{{'' @ w1 @ ''secret.'' @ p @ w2 @ ''}}''" by simp
  have sp: "list_all is_space w1" "list_all is_space w2" "list_all template_char p"
    by (auto simp: w list_all_iff dest!: set_takeWhileD intro: re_space_is_space)
  have "TrimSpace s = s" using TrimSpace_spaces [of "[]" "[]" s] by (simp add: s is_space_def byte_of_def)
  moreover have "\<not> is_space (last p)" using sp(3) t(3) template_char_not_space [of "last p"] by (auto simp: list_all_iff)
  then have "TrimSpace (w1 @ (''secret.'' @ p) @ w2) = ''secret.'' @ p"
    using sp t(3) by (intro TrimSpace_spaces) (auto simp: is_space_def byte_of_def)
  moreover have "take (length s - 4) (drop 2 s) = w1 @ (''secret.'' @ p) @ w2"
  proof -
    have "drop 2 s = (w1 @ (''secret.'' @ p) @ w2) @ ''}}''" "length s - 4 = length (w1 @ (''secret.'' @ p) @ w2)" by (simp_all add: s)
    moreover have "take (length x) (x @ y) = x" for x y :: gostring by simp
    ultimately show ?thesis by metis
  qed
  moreover have "HasPrefix s ''{{''" "HasSuffix s ''}}''"
    using suffixI [of s "''{{'' @ w1 @ ''secret.'' @ p @ w2" "''}}''"] by (simp_all add: s HasPrefix_def HasSuffix_suffix)
  ultimately have "parseSecretRef s = p" by (simp add: parseSecretRef_def Let_def HasPrefix_def)
  then show ?thesis using t(3) sp(3) by simp
qed

text \<open>A value that starts with a space is not looked at by the validation, but is read.\<close>

lemma template_unvalidated:
  "\<not> bad_template (rt\<lparr>xr_Value := '' {{ secret.a b/../c }}''\<rparr>) \<and> parseSecretRef '' {{ secret.a b/../c }}'' = ''a b/../c''"
  by (simp add: bad_template_def HasPrefix_def parseSecretRef_def TrimSpace_def is_space_def byte_of_def HasSuffix_def Let_def)

subsection \<open>Certificates\<close>

definition certs_ok :: "cert_cache \<Rightarrow> bool" where
  "certs_ok c = (distinct (map fst c) \<and> length c \<le> 1001)"

text \<open>A certificate that is served has not expired, and the cache never holds more than 1001 of them, one for each host.\<close>

theorem cert_cache_bounded:
  assumes "certs_ok c"
  shows "certs_ok (snd (CertForHost now ok host c)) \<and> (\<forall>t. fst (CertForHost now ok host c) = Some t \<longrightarrow> now < t)"
proof -
  have d: "distinct (map fst (filter P c))" for P using assms by (simp add: certs_ok_def distinct_map_filter)
  have l: "length (filter P c) \<le> 1001" for P using assms length_filter_le [of P c] unfolding certs_ok_def by linarith
  have "distinct (map fst (cert_put now host (filter (\<lambda>(h, _). h \<noteq> host) c)))" using d by (auto simp: cert_put_def)
  moreover have "length (cert_put now host (filter (\<lambda>(h, _). h \<noteq> host) c)) \<le> 1001"
    using length_filter_le [of "\<lambda>(h, _). h \<noteq> host" "filter (\<lambda>(h, _). h \<noteq> host) c"] by (auto simp: cert_put_def)
  ultimately show ?thesis using assms d l
    by (auto simp: CertForHost_def certs_ok_def Let_def Hour_def Minute_def Second_def split: option.splits if_splits)
qed

subsection \<open>Concrete requests\<close>

definition sample_proxy_env :: proxy_env where
  "sample_proxy_env = \<lparr>xv_Split = (\<lambda>_. None), xv_ParseIP = (\<lambda>_. None), xv_Lookup = (\<lambda>_. Some []), xv_Vault = (\<lambda>_. Some ''k''),
     xv_BuildOk = (\<lambda>_. True), xv_Upstream = (\<lambda>_. Some (proxy_error 200 ''ok'')), xv_Base64 = (\<lambda>s. s), xv_Hijack = True, xv_Ack = True,
     xv_CertOk = (\<lambda>_. True), xv_Inner = (\<lambda>_. None)\<rparr>"

definition sample_proxy_route :: proxy_route where
  "sample_proxy_route = \<lparr>xr_Method = [], xr_Path = ''/v1'', xr_Capability = ''c'', xr_Placement = ''bearer'', xr_Name = [],
     xr_Value = ''{{ secret.p }}'', xr_Masking = []\<rparr>"

definition sample_proxy :: proxy_server where
  "sample_proxy = \<lparr>xs_Addr = ''localhost'', xs_Profile = \<lparr>xp_Mode = [], xp_Hosts = [''h''], xp_Routes = [sample_proxy_route], xp_TLSMode = [],
     xp_CAKeyStorage = [], xp_DenyPrivateRanges = True, xp_ResolveAndVerify = True\<rparr>, xs_HasVault = True, xs_HasCA = False,
     xs_HasAudit = True, xs_Token = ''t''\<rparr>"

definition sample_proxy_request :: "gostring \<Rightarrow> proxy_request" where
  "sample_proxy_request m = \<lparr>pq_Request = \<lparr>hr_Method = m, hr_Path = ''/v1/x'', hr_EscapedPath = ''/v1/x'', hr_Query = [],
     hr_Header = [(''Authorization'', [''mine'']), (''Proxy-Authorization'', [''Bearer t''])], hr_Host = ''h'', hr_Body = [],
     hr_BodyFails = False, hr_ContentLength = 0\<rparr>, pq_Scheme = [], pq_URLHost = []\<rparr>"

definition empty_proxy_world :: proxy_world where
  "empty_proxy_world = \<lparr>xw_Denials = [], xw_Reads = [], xw_Sent = [], xw_Dialled = []\<rparr>"

lemmas sample_proxy_defs = sample_proxy_env_def sample_proxy_route_def sample_proxy_def sample_proxy_request_def empty_proxy_world_def

lemma sample_secret: "parseSecretRef ''{{ secret.p }}'' = ''p''"
  by (simp add: parseSecretRef_def TrimSpace_def is_space_def byte_of_def HasPrefix_def HasSuffix_def Let_def)

lemma sample_auth: "checkCallerAuth sample_proxy (pq_Request (sample_proxy_request m))"
proof -
  have "CanonicalHeaderKey ''Proxy-Authorization'' = ''Proxy-Authorization''" by code_simp
  then show ?thesis by (simp add: checkCallerAuth_def sample_proxy_defs header_Get_def header_Values_def HasPrefix_def)
qed

lemma sample_host: "host_ok sample_proxy_env sample_proxy (bare_host sample_proxy_env (hr_Host (pq_Request (sample_proxy_request m))))"
  by (simp add: host_ok_def hostAllowed_def ssrfCheck_def bare_host_def sample_proxy_defs)

lemma sample_sent: "\<exists>u. xw_Sent (snd (proxy_ServeHTTP sample_proxy sample_proxy_env (sample_proxy_request ''GET'') empty_proxy_world)) =
    xw_Sent empty_proxy_world @ [u]"
proof -
  let ?q = "sample_proxy_request ''GET''"
  have "matchRoute sample_proxy (pq_Request ?q) = Some sample_proxy_route"
    by (simp add: matchRoute_def sample_proxy_defs HasPrefix_def)
  then show ?thesis using sample_auth [of "''GET''"] sample_host [of "''GET''"]
    by (auto simp: proxy_ServeHTTP_def routeHandler_def host_ok_def Let_def proxy_forward_def sample_secret sample_proxy_request_def
      sample_proxy_route_def sample_proxy_env_def empty_proxy_world_def split: option.splits)
qed


theorem proxy_headers_clean_witness:
  "\<exists>vs. (''Authorization'', vs) \<in> set (px_Header (proxy_upstream_of sample_proxy_env sample_proxy_route ''k'' (sample_proxy_request ''GET''))) \<and>
     (\<exists>v \<in> set (injected_values sample_proxy_env sample_proxy_route ''k''). vs = [v])"
proof -
  have "(''Authorization'', [''Bearer k'']) \<in> set (px_Header (proxy_upstream_of sample_proxy_env sample_proxy_route ''k'' (sample_proxy_request ''GET'')))"
    by (simp add: proxy_upstream_of_def injectProxyCred_def sample_proxy_route_def header_Set_def Let_def CanonicalHeaderKey_def
      header_byte_def upper_char_def lower_char_def is_lower_def is_upper_def byte_of_def)
  moreover have "withheld_header ''Authorization''"
by code_simp
  ultimately show ?thesis using proxy_headers_clean [of "''Authorization''" "[''Bearer k'']"] by blast
qed

theorem proxy_tunnel_ignores_routes_witness:
  "xw_Dialled (snd (proxy_ServeHTTP (sample_proxy\<lparr>xs_Profile := (xs_Profile sample_proxy)\<lparr>xp_Routes := []\<rparr>\<rparr>) sample_proxy_env
     (sample_proxy_request ''CONNECT'') empty_proxy_world)) = [''h'']"
proof -
  have "hr_Method (pq_Request (sample_proxy_request ''CONNECT'')) = ''CONNECT''" "xv_Hijack sample_proxy_env" "xv_Ack sample_proxy_env" "\<not> xs_HasCA sample_proxy"
    by (simp_all add: sample_proxy_defs)
  from proxy_tunnel_ignores_routes [OF sample_auth this(1) sample_host this(2,3,4), of "[]" empty_proxy_world] show ?thesis
    by (simp only: snd_conv) (simp add: sample_proxy_request_def empty_proxy_world_def)
qed

theorem proxy_serve_safe_witness:
  "\<exists>addr S'. proxy_Serve (\<lambda>_. None) (\<lambda>_. None) (Some ''r'') sample_proxy = Inr (addr, S') \<and> xs_Token S' \<noteq> []"
proof -
  have "proxy_Serve (\<lambda>_. None) (\<lambda>_. None) (Some ''r'') sample_proxy = Inr (''localhost'', sample_proxy)"
    by (simp add: proxy_Serve_def EnsureToken_def sample_proxy_def or_default_def isLoopbackBind_def TrimSuffix_def HasSuffix_def HasPrefix_def Let_def)
  from this proxy_serve_safe [OF this] show ?thesis by auto
qed

theorem template_path_witness: "parseSecretRef ''{{secret.a}}'' \<noteq> []"
  using template_path [of "''{{secret.a}}''"]
  by (simp add: secretTemplate_def HasPrefix_def re_space_def template_char_def is_lower_def is_upper_def is_digit_def byte_of_def Let_def)

theorem cert_cache_bounded_witness: "length (snd (CertForHost 0 True ''h'' [])) \<le> 1001"
  using cert_cache_bounded [of "[]" 0 True "''h''"] by (simp add: certs_ok_def)

end
