(* ===== verification/Connections.thy ===== *)
theory Connections
  imports Mint "HOL-Library.AList"
begin

section \<open>Connections (\<open>internal/connections\<close>)\<close>

text \<open>
  \<open>connect.go\<close>, \<open>status.go\<close>, \<open>test_strategy.go\<close>: creating, testing, listing, describing and deleting the connection of a
  provider over a store of paths and values. The registry, JSON, the HTTP client, the keys of GitHub Apps and the
  failures of store operations are parameters; supplied fields come in the order in which the map is walked, and are
  part of the state, since the code overwrites the values it has stored.
\<close>

subsection \<open>Templates and the store\<close>

record secret_field =
  sd_Name :: gostring
  sd_Required :: bool

record config_field =
  cd_Name :: gostring
  cd_Default :: gostring
  cd_Prefix :: bool

record provider_template =
  pt_Category :: gostring
  pt_MultiAccount :: bool
  pt_Preferred :: gostring
  pt_SecretFields :: "secret_field list"
  pt_ConfigFields :: "config_field list"
  pt_AuthIn :: gostring
  pt_AuthName :: gostring
  pt_AuthScheme :: gostring
  pt_TestKind :: gostring
  pt_Endpoint :: gostring
  pt_Markers :: "gostring list"
  pt_GatewaySupported :: bool
  pt_Capabilities :: "gostring list"
  pt_AllowedCommandPrefixes :: "gostring list"

record connection =
  cn_Provider :: gostring
  cn_Account :: gostring
  cn_Namespace :: gostring
  cn_Runtime :: gostring
  cn_CreatedAt :: gotime
  cn_UpdatedAt :: gotime
  cn_Fields :: "gostring list"
  cn_Status :: gostring
  cn_LastTested :: "gotime option"

type_synonym conn_store = "(gostring \<times> gostring) list"
type_synonym conn_fields = "(gostring \<times> gostring) list"

text \<open>A request of a health test, and what the environment answers; \<open>None\<close> is a transport error.\<close>

record test_request =
  tq_Method :: gostring
  tq_URL :: gostring
  tq_Header :: "(gostring \<times> gostring) list"
  tq_Query :: "(gostring \<times> gostring) list"

record conn_env =
  nv_Registry :: "gostring \<Rightarrow> provider_template option"
  nv_Providers :: "gostring list"
  nv_GetFails :: "gostring \<Rightarrow> bool"
  nv_SetOk :: "gostring \<Rightarrow> bool"
  nv_DeleteOk :: "gostring \<Rightarrow> bool"
  nv_ListOk :: bool
  nv_Marshal :: "connection \<Rightarrow> gostring"
  nv_Unmarshal :: "gostring \<Rightarrow> connection option"
  nv_Now :: gotime
  nv_BuildOk :: "gostring \<Rightarrow> bool"
  nv_Http :: "test_request \<Rightarrow> (nat \<times> gostring) option"
  nv_ParseKey :: "gostring \<Rightarrow> bool"
  nv_SignJWT :: "gostring \<Rightarrow> gostring \<Rightarrow> gostring option"

definition store_Get :: "conn_env \<Rightarrow> conn_store \<Rightarrow> gostring \<Rightarrow> store_read" where
  "store_Get E d p = (if nv_GetFails E p then StoreFails else (case map_of d p of None \<Rightarrow> StoreNotFound | Some v \<Rightarrow> StoreValue v))"

definition or_ai :: "gostring \<Rightarrow> gostring" where "or_ai c = (if c = [] then ''ai'' else c)"

definition connectionMetaPath :: "gostring \<Rightarrow> gostring \<Rightarrow> gostring \<Rightarrow> gostring" where
  "connectionMetaPath namespace category provider = connection_path namespace category provider @ ''/meta''"

definition validRuntimeModes :: "gostring list" where
  "validRuntimeModes = [''gateway_typed'', ''gateway_sdk'', ''gateway_proxy'', ''direct_brokered'']"

subsection \<open>Connecting\<close>

record connect_options =
  co_Namespace :: gostring
  co_Account :: gostring
  co_Mode :: gostring

datatype connect_error = ConnProviderNotFound | ErrAmbiguous | ErrConnectionExists | MissingField gostring | WriteField gostring
  | BadSuffix gostring | WriteConfig gostring | WriteConnection

definition zero_field :: "gostring \<Rightarrow> conn_fields \<Rightarrow> conn_fields" where
  "zero_field n fs = map (\<lambda>(k, v). (k, if k = n then replicate (length v) (CHR 0x00) else v)) fs"

text \<open>The secrets one after another; \<open>path\<close> gives the place of a field.\<close>

fun put_secrets :: "conn_env \<Rightarrow> (gostring \<Rightarrow> gostring) \<Rightarrow> secret_field list \<Rightarrow> conn_store \<times> conn_fields \<Rightarrow>
    connect_error option \<times> conn_store \<times> conn_fields" where
  "put_secrets E path [] s = (None, s)"
| "put_secrets E path (sf # sfs) (d, fs) =
    (case map_of fs (sd_Name sf) of
       None \<Rightarrow> if sd_Required sf then (Some (MissingField (sd_Name sf)), d, fs) else put_secrets E path sfs (d, fs)
     | Some v \<Rightarrow>
         if v = [] then put_secrets E path sfs (d, fs)
         else if \<not> nv_SetOk E (path (sd_Name sf)) then (Some (WriteField (sd_Name sf)), d, zero_field (sd_Name sf) fs)
         else put_secrets E path sfs (AList.update (path (sd_Name sf)) v d, zero_field (sd_Name sf) fs))"

text \<open>The regular expression \<open>prefixSuffixRe\<close>.\<close>

definition prefixSuffix :: "gostring \<Rightarrow> bool" where
  "prefixSuffix s =
    (s \<noteq> [] \<and> length s \<le> 39 \<and> (is_lower (hd s) \<or> is_digit (hd s)) \<and>
     list_all (\<lambda>c. is_lower c \<or> is_digit c \<or> c = CHR ''-'') (tl s))"

fun storePrefixedConfig :: "conn_env \<Rightarrow> (gostring \<Rightarrow> gostring) \<Rightarrow> gostring \<Rightarrow> conn_fields \<Rightarrow> conn_store \<Rightarrow>
    connect_error option \<times> conn_store" where
  "storePrefixedConfig E path pre [] d = (None, d)"
| "storePrefixedConfig E path pre ((name, v) # fs) d =
    (let suffix = ToLower (drop (length pre) name); p = path (pre @ suffix) in
     if \<not> HasPrefix name pre \<or> drop (length pre) name = [] then storePrefixedConfig E path pre fs d
     else if \<not> prefixSuffix suffix then (Some (BadSuffix name), d)
     else if v = [] then storePrefixedConfig E path pre fs d
     else if \<not> nv_SetOk E p then (Some (WriteConfig name), d)
     else storePrefixedConfig E path pre fs (AList.update p v d))"

fun put_configs :: "conn_env \<Rightarrow> (gostring \<Rightarrow> gostring) \<Rightarrow> config_field list \<Rightarrow> conn_fields \<Rightarrow> conn_store \<Rightarrow>
    connect_error option \<times> conn_store" where
  "put_configs E path [] fs d = (None, d)"
| "put_configs E path (cf # cfs) fs d =
    (if cd_Prefix cf then
       (case storePrefixedConfig E path (cd_Name cf) fs d of
          (Some e, d') \<Rightarrow> (Some e, d') | (None, d') \<Rightarrow> put_configs E path cfs fs d')
     else
       (let val0 = (case map_of fs (cd_Name cf) of None \<Rightarrow> [] | Some v \<Rightarrow> v); val = (if val0 = [] then cd_Default cf else val0) in
        if val = [] then put_configs E path cfs fs d
        else if \<not> nv_SetOk E (path (cd_Name cf)) then (Some (WriteConfig (cd_Name cf)), d)
        else put_configs E path cfs fs (AList.update (path (cd_Name cf)) val d)))"

text \<open>\<open>Connect\<close>: the result, the store and the caller's fields afterwards.\<close>

definition conn_Connect :: "conn_env \<Rightarrow> gostring \<Rightarrow> connect_options \<Rightarrow> conn_fields \<Rightarrow> conn_store \<Rightarrow>
    (connect_error + connection) \<times> conn_store \<times> conn_fields" where
  "conn_Connect E provider opts fs d =
    (case nv_Registry E provider of None \<Rightarrow> (Inl ConnProviderNotFound, d, fs)
     | Some t \<Rightarrow>
        (let ns = (if co_Namespace opts = [] then ''default'' else co_Namespace opts);
             cat = or_ai (pt_Category t); meta = connectionMetaPath ns cat provider in
         case store_Get E d meta of
           StoreValue _ \<Rightarrow> (Inl (if pt_MultiAccount t \<and> co_Account opts = [] then ErrAmbiguous else ErrConnectionExists), d, fs)
         | _ \<Rightarrow>
            (let mode = (if co_Mode opts \<notin> set validRuntimeModes then pt_Preferred t else co_Mode opts) in
             case put_secrets E (SecretFieldPath ns cat provider) (pt_SecretFields t) (d, fs) of
               (Some e, d1, fs1) \<Rightarrow> (Inl e, d1, fs1)
             | (None, d1, fs1) \<Rightarrow>
                (case put_configs E (ConfigFieldPath ns cat provider) (pt_ConfigFields t) fs1 d1 of
                   (Some e, d2) \<Rightarrow> (Inl e, d2, fs1)
                 | (None, d2) \<Rightarrow>
                    (let c = \<lparr>cn_Provider = provider, cn_Account = (if co_Account opts = [] then ''default'' else co_Account opts),
                           cn_Namespace = ns, cn_Runtime = mode, cn_CreatedAt = nv_Now E, cn_UpdatedAt = nv_Now E,
                           cn_Fields = map sd_Name (pt_SecretFields t), cn_Status = ''untested'', cn_LastTested = None\<rparr> in
                     if \<not> nv_SetOk E meta then (Inl WriteConnection, d2, fs1)
                     else (Inr c, AList.update meta (nv_Marshal E c) d2, fs1))))))"

subsection \<open>Deleting\<close>

definition store_List :: "conn_store \<Rightarrow> gostring \<Rightarrow> gostring list" where
  "store_List d p = filter (\<lambda>k. HasPrefix k p) (map fst d)"

definition del_path :: "conn_env \<Rightarrow> gostring \<Rightarrow> nat \<times> conn_store \<Rightarrow> nat \<times> conn_store" where
  "del_path E p s = (if map_of (snd s) p \<noteq> None \<and> \<not> nv_DeleteOk E p then (Suc (fst s), snd s) else (fst s, AList.delete p (snd s)))"

definition del_config :: "conn_env \<Rightarrow> (gostring \<Rightarrow> gostring) \<Rightarrow> config_field \<Rightarrow> nat \<times> conn_store \<Rightarrow> nat \<times> conn_store" where
  "del_config E path cf s =
    (if cd_Prefix cf then
       (if nv_ListOk E then fold (del_path E) (store_List (snd s) (path (cd_Name cf))) s else (Suc (fst s), snd s))
     else del_path E (path (cd_Name cf)) s)"

datatype delete_error = DeleteProviderNotFound | DeleteFailures nat

definition conn_Delete :: "conn_env \<Rightarrow> gostring \<Rightarrow> gostring \<Rightarrow> conn_store \<Rightarrow> delete_error option \<times> conn_store" where
  "conn_Delete E provider namespace d =
    (case nv_Registry E provider of None \<Rightarrow> (Some DeleteProviderNotFound, d)
     | Some t \<Rightarrow>
        (let ns = (if namespace = [] then ''default'' else namespace); cat = or_ai (pt_Category t);
             s1 = fold (\<lambda>sf. del_path E (SecretFieldPath ns cat provider (sd_Name sf))) (pt_SecretFields t) (0, d);
             s2 = fold (del_config E (ConfigFieldPath ns cat provider)) (pt_ConfigFields t) s1;
             s3 = del_path E (connectionMetaPath ns cat provider) s2 in
         (if fst s3 > 0 then Some (DeleteFailures (fst s3)) else None, snd s3)))"

subsection \<open>Testing\<close>

record test_result =
  ts_Status :: gostring
  ts_StatusCode :: nat
  ts_Markers :: "gostring list"

definition mapHTTPStatusToEnum :: "nat \<Rightarrow> gostring" where
  "mapHTTPStatusToEnum code =
    (if code \<in> {200, 201, 204} then ''connected'' else if code = 401 then ''invalid''
     else if code = 403 then ''insufficient_scope'' else if code = 404 then ''missing''
     else if code = 429 then ''rate_limited'' else ''network_error'')"

definition token_char :: "char \<Rightarrow> bool" where
  "token_char c = (is_lower c \<or> is_upper c \<or> is_digit c \<or> c \<in> set ''-_.'')"

text \<open>\<open>tokenShapeRE\<close> finds a run of 32 such characters.\<close>

fun token_run :: "nat \<Rightarrow> gostring \<Rightarrow> bool" where
  "token_run k [] = (k \<ge> 32)"
| "token_run k (c # s) = (k \<ge> 32 \<or> token_run (if token_char c then Suc k else 0) s)"

definition marker_kept :: "gostring \<Rightarrow> gostring \<Rightarrow> bool" where
  "marker_kept body m = (Contains body m \<and> (\<not> token_run 0 m \<or> length m < 32))"

definition auth_request :: "provider_template \<Rightarrow> gostring \<Rightarrow> test_request \<Rightarrow> test_request" where
  "auth_request t v q =
    (if pt_AuthIn t = ''header'' then
       q\<lparr>tq_Header := [(pt_AuthName t, if pt_AuthScheme t \<noteq> [] then pt_AuthScheme t @ '' '' @ v else v)]\<rparr>
     else if pt_AuthIn t = ''query'' then q\<lparr>tq_Query := [(pt_AuthName t, v)]\<rparr> else q)"

definition runHTTPStrategy :: "conn_env \<Rightarrow> gostring \<Rightarrow> provider_template \<Rightarrow> gostring \<Rightarrow> gostring \<Rightarrow> conn_store \<Rightarrow> test_result option" where
  "runHTTPStrategy E method t provider ns d =
    (let q0 = \<lparr>tq_Method = method, tq_URL = pt_Endpoint t, tq_Header = [], tq_Query = []\<rparr>;
         q = (case pt_SecretFields t of [] \<Rightarrow> q0
              | sf # _ \<Rightarrow>
                 (case store_Get E d (SecretFieldPath ns (or_ai (pt_Category t)) provider (sd_Name sf)) of
                    StoreValue v \<Rightarrow> if v = [] then q0 else auth_request t v q0
                  | _ \<Rightarrow> q0)) in
     if \<not> nv_BuildOk E (pt_Endpoint t) then None
     else (case nv_Http E q of None \<Rightarrow> None
     | Some (code, body) \<Rightarrow>
         Some \<lparr>ts_Status = mapHTTPStatusToEnum code, ts_StatusCode = code,
            ts_Markers = filter (marker_kept (take 4096 body)) (pt_Markers t)\<rparr>))"

definition runGitHubAppStrategy :: "conn_env \<Rightarrow> provider_template \<Rightarrow> gostring \<Rightarrow> gostring \<Rightarrow> conn_store \<Rightarrow> test_result option" where
  "runGitHubAppStrategy E t provider ns d =
    (case store_Get E d (SecretFieldPath ns (pt_Category t) provider ''private_key'') of
       StoreValue pem \<Rightarrow>
         if \<not> nv_ParseKey E pem then Some \<lparr>ts_Status = ''invalid'', ts_StatusCode = 0, ts_Markers = []\<rparr>
         else (case store_Get E d (ConfigFieldPath ns (pt_Category t) provider ''app_id'') of
           StoreValue app \<Rightarrow>
             (case nv_SignJWT E pem (TrimSpace app) of None \<Rightarrow> None
              | Some jwt \<Rightarrow>
                 if \<not> nv_BuildOk E (pt_Endpoint t) then None
                 else (case nv_Http E \<lparr>tq_Method = ''GET'', tq_URL = pt_Endpoint t, tq_Header = [(''Accept'', ''application/vnd.github+json''),
                         (''Authorization'', ''Bearer '' @ jwt)], tq_Query = []\<rparr> of
                   None \<Rightarrow> None
                 | Some (code, _) \<Rightarrow> Some \<lparr>ts_Status = mapHTTPStatusToEnum code, ts_StatusCode = code, ts_Markers = []\<rparr>))
         | _ \<Rightarrow> None)
     | _ \<Rightarrow> None)"

definition executeTestStrategy :: "conn_env \<Rightarrow> provider_template \<Rightarrow> gostring \<Rightarrow> gostring \<Rightarrow> conn_store \<Rightarrow> test_result option" where
  "executeTestStrategy E t provider ns d =
    (if pt_TestKind t = ''http_get'' \<or> pt_TestKind t = ''sdk_call'' then runHTTPStrategy E ''GET'' t provider ns d
     else if pt_TestKind t = ''http_post'' then runHTTPStrategy E ''POST'' t provider ns d
     else if pt_TestKind t = ''github_app'' then runGitHubAppStrategy E t provider ns d
     else Some \<lparr>ts_Status = ''network_error'', ts_StatusCode = 0, ts_Markers = []\<rparr>)"

definition template_category :: "conn_env \<Rightarrow> gostring \<Rightarrow> gostring" where
  "template_category E provider = or_ai (case nv_Registry E provider of None \<Rightarrow> [] | Some t \<Rightarrow> pt_Category t)"

datatype load_error = LoadNotFound | LoadFails

definition loadConnection :: "conn_env \<Rightarrow> gostring \<Rightarrow> gostring \<Rightarrow> conn_store \<Rightarrow> load_error + connection" where
  "loadConnection E ns provider d =
    (case store_Get E d (connectionMetaPath ns (template_category E provider) provider) of
       StoreNotFound \<Rightarrow> Inl LoadNotFound | StoreFails \<Rightarrow> Inl LoadFails
     | StoreValue v \<Rightarrow> (case nv_Unmarshal E v of None \<Rightarrow> Inl LoadFails | Some c \<Rightarrow> Inr c))"

definition updateLastTested :: "conn_env \<Rightarrow> gostring \<Rightarrow> gostring \<Rightarrow> conn_store \<Rightarrow> conn_store" where
  "updateLastTested E ns provider d =
    (let meta = connectionMetaPath ns (template_category E provider) provider in
     case loadConnection E ns provider d of Inl _ \<Rightarrow> d
     | Inr c \<Rightarrow> if nv_SetOk E meta then AList.update meta (nv_Marshal E (c\<lparr>cn_LastTested := Some (nv_Now E)\<rparr>)) d else d)"

datatype conn_test_error = TestLoadFails | TestProviderNotFound

definition conn_Test :: "conn_env \<Rightarrow> gostring \<Rightarrow> gostring \<Rightarrow> conn_store \<Rightarrow> (conn_test_error + test_result) \<times> conn_store" where
  "conn_Test E provider namespace d =
    (let ns = (if namespace = [] then ''default'' else namespace) in
     case loadConnection E ns provider d of
       Inl LoadNotFound \<Rightarrow> (Inr \<lparr>ts_Status = ''missing'', ts_StatusCode = 0, ts_Markers = []\<rparr>, d)
     | Inl LoadFails \<Rightarrow> (Inl TestLoadFails, d)
     | Inr c \<Rightarrow>
        (case nv_Registry E provider of None \<Rightarrow> (Inl TestProviderNotFound, d)
         | Some t \<Rightarrow>
            (case executeTestStrategy E t provider ns d of
               None \<Rightarrow> (Inr \<lparr>ts_Status = ''network_error'', ts_StatusCode = 0, ts_Markers = []\<rparr>, d)
             | Some r \<Rightarrow> (Inr r, updateLastTested E ns provider d))))"

subsection \<open>Listing and describing\<close>

record connection_status =
  cx_Connection :: connection
  cx_GatewaySupported :: bool
  cx_Capabilities :: "gostring list"

definition custom_names :: "gostring \<Rightarrow> conn_store \<Rightarrow> gostring list" where
  "custom_names ns d =
    (let pre = ns @ ''/custom/'' in
     map (\<lambda>p. hd (split_slash (drop (length pre) p)))
       (filter (\<lambda>p. HasSuffix p ''/meta'' \<and> length (split_slash (drop (length pre) p)) \<ge> 2 \<and>
                    last (split_slash (drop (length pre) p)) = ''meta'') (store_List d pre)))"

text \<open>The categories and providers that are seen: those of the registry with metadata, then the custom ones.\<close>

definition seen_connections :: "conn_env \<Rightarrow> gostring \<Rightarrow> conn_store \<Rightarrow> (gostring \<times> gostring) list" where
  "seen_connections E ns d = remdups
    (map (\<lambda>p. (template_category E p, p))
       (filter (\<lambda>p. case store_Get E d (connectionMetaPath ns (template_category E p) p) of StoreValue _ \<Rightarrow> True | _ \<Rightarrow> False) (nv_Providers E)) @
     (if nv_ListOk E then map (Pair ''custom'') (custom_names ns d) else []))"

definition status_of :: "conn_env \<Rightarrow> gostring \<Rightarrow> conn_store \<Rightarrow> gostring \<times> gostring \<Rightarrow> connection_status option" where
  "status_of E ns d k =
    (case (if fst k = ''custom'' then
             (case store_Get E d (connectionMetaPath ns (fst k) (snd k)) of StoreValue v \<Rightarrow> nv_Unmarshal E v | _ \<Rightarrow> None)
           else (case loadConnection E ns (snd k) d of Inr c \<Rightarrow> Some c | Inl _ \<Rightarrow> None)) of
       None \<Rightarrow> None
     | Some c \<Rightarrow>
        (case nv_Registry E (snd k) of
           None \<Rightarrow> Some \<lparr>cx_Connection = c, cx_GatewaySupported = False, cx_Capabilities = []\<rparr>
         | Some t \<Rightarrow> Some \<lparr>cx_Connection = c, cx_GatewaySupported = pt_GatewaySupported t, cx_Capabilities = pt_Capabilities t\<rparr>))"

text \<open>\<open>Status\<close> without tests, in the order in which the set is walked.\<close>

definition conn_Status :: "conn_env \<Rightarrow> (gostring \<times> gostring) list \<Rightarrow> gostring \<Rightarrow> conn_store \<Rightarrow> connection_status list" where
  "conn_Status E order namespace d =
    List.map_filter (status_of E (if namespace = [] then ''default'' else namespace) d) order"

definition conn_Describe :: "conn_env \<Rightarrow> gostring \<Rightarrow> (provider_template \<times> (gostring \<times> gostring) list) option" where
  "conn_Describe E name =
    (let parts = SplitN 3 name (CHR ''/''); provider = (if length parts = 3 then parts ! 1 else name) in
     map_option (\<lambda>t. (t, map (\<lambda>sf. (sd_Name sf, ''****'')) (pt_SecretFields t))) (nv_Registry E provider))"

end
