(* ===== verification/Connection_Facts.thy ===== *)
theory Connection_Facts
  imports Connections
begin

section \<open>What connections promise\<close>

text \<open>
  Which paths of the store an operation can touch, that connecting stores what was supplied, that deleting undoes it, and
  what a health test can tell.
\<close>

subsection \<open>The paths of a connection\<close>

definition config_path :: "gostring \<Rightarrow> gostring \<Rightarrow> gostring \<Rightarrow> config_field \<Rightarrow> gostring \<Rightarrow> bool" where
  "config_path ns cat provider cf p =
    (if cd_Prefix cf then HasPrefix p (ConfigFieldPath ns cat provider (cd_Name cf)) else p = ConfigFieldPath ns cat provider (cd_Name cf))"

definition conn_path :: "gostring \<Rightarrow> gostring \<Rightarrow> gostring \<Rightarrow> provider_template \<Rightarrow> gostring \<Rightarrow> bool" where
  "conn_path ns cat provider t p =
    (p \<in> SecretFieldPath ns cat provider ` sd_Name ` set (pt_SecretFields t) \<or> p = connectionMetaPath ns cat provider \<or>
     (\<exists>cf \<in> set (pt_ConfigFields t). config_path ns cat provider cf p))"

definition template_ok :: "provider_template \<Rightarrow> bool" where
  "template_ok t = (distinct (map sd_Name (pt_SecretFields t)) \<and>
     (\<forall>sf \<in> set (pt_SecretFields t). sd_Name sf \<noteq> ''meta'' \<and> \<not> HasPrefix (sd_Name sf) ''config/''))"

lemma map_of_update [simp]: "map_of (AList.update k v d) p = (if p = k then Some v else map_of d p)"
  by (simp add: update_conv')

lemma map_of_delete [simp]: "map_of (AList.delete k d) p = (if p = k then None else map_of d p)"
  by (simp add: delete_conv')

lemma SecretFieldPath_inject [simp]: "SecretFieldPath ns cat pr a = SecretFieldPath ns cat pr b \<longleftrightarrow> a = b"
  by (simp add: SecretFieldPath_def)

lemma config_not_secret:
  assumes "\<not> HasPrefix n ''config/''"
  shows "\<not> HasPrefix (SecretFieldPath ns cat pr n) (ConfigFieldPath ns cat pr m)"
proof
  assume "HasPrefix (SecretFieldPath ns cat pr n) (ConfigFieldPath ns cat pr m)"
  then have "prefix (''config/'' @ m) n" by (simp add: HasPrefix_prefix SecretFieldPath_def ConfigFieldPath_def)
  then have "HasPrefix n ''config/''" by (metis HasPrefix_prefix append_prefixD)
  with assms show False by simp
qed

lemma config_not_meta: "\<not> HasPrefix (connectionMetaPath ns cat pr) (ConfigFieldPath ns cat pr m)"
  by (simp add: HasPrefix_prefix connectionMetaPath_def ConfigFieldPath_def)

lemma HasPrefix_self [simp]: "HasPrefix p p"
  by (simp add: HasPrefix_prefix)

lemma secret_not_meta: "n \<noteq> ''meta'' \<Longrightarrow> SecretFieldPath ns cat pr n \<noteq> connectionMetaPath ns cat pr"
  by (simp add: SecretFieldPath_def connectionMetaPath_def)

subsection \<open>A small provider\<close>

definition demo_template :: provider_template where
  "demo_template = \<lparr>pt_Category = [], pt_MultiAccount = False, pt_Preferred = ''gateway_typed'',
    pt_SecretFields = [\<lparr>sd_Name = ''api_key'', sd_Required = True\<rparr>],
    pt_ConfigFields = [\<lparr>cd_Name = ''region'', cd_Default = ''eu'', cd_Prefix = False\<rparr>,
      \<lparr>cd_Name = ''alias_'', cd_Default = [], cd_Prefix = True\<rparr>],
    pt_AuthIn = ''header'', pt_AuthName = ''Authorization'', pt_AuthScheme = ''Bearer'', pt_TestKind = ''http_get'',
    pt_Endpoint = ''https://api.example/v1'', pt_Markers = [''gpt'', ''dall''], pt_GatewaySupported = True, pt_Capabilities = [],
    pt_AllowedCommandPrefixes = []\<rparr>"

definition demo_connection :: connection where
  "demo_connection = \<lparr>cn_Provider = ''openai'', cn_Account = ''default'', cn_Namespace = ''default'', cn_Runtime = ''gateway_typed'',
    cn_CreatedAt = 5, cn_UpdatedAt = 5, cn_Fields = [''api_key''], cn_Status = ''untested'', cn_LastTested = None\<rparr>"

definition demo_env :: "(gostring \<Rightarrow> bool) \<Rightarrow> conn_env" where
  "demo_env writable = \<lparr>nv_Registry = (\<lambda>p. if p = ''openai'' then Some demo_template else None), nv_Providers = [''openai''],
    nv_GetFails = (\<lambda>_. False), nv_SetOk = writable, nv_DeleteOk = (\<lambda>_. True), nv_ListOk = True,
    nv_Marshal = (\<lambda>c. ''connection'' @ cn_Provider c), nv_Unmarshal = (\<lambda>_. Some demo_connection), nv_Now = 5,
    nv_BuildOk = (\<lambda>_. True), nv_Http = (\<lambda>_. Some (200, ''models: gpt'')), nv_ParseKey = (\<lambda>_. False), nv_SignJWT = (\<lambda>_ _. None)\<rparr>"

definition demo_options :: connect_options where
  "demo_options = \<lparr>co_Namespace = [], co_Account = [], co_Mode = []\<rparr>"

definition demo_fields :: conn_fields where
  "demo_fields = [(''api_key'', ''sk''), (''alias_a'', ''x'')]"

definition demo_store :: conn_store where
  "demo_store = [(''default/ai/other/meta'', ''kept'')]"

lemma demo_template_ok: "template_ok demo_template"
  by (simp add: template_ok_def demo_template_def HasPrefix_prefix)

lemma demo_registry: "nv_Registry (demo_env w) ''openai'' = Some demo_template"
  by (simp add: demo_env_def)

lemma demo_deletes: "\<forall>p. nv_DeleteOk (demo_env w) p" "nv_ListOk (demo_env w)"
  by (simp_all add: demo_env_def)

lemma demo_connect:
  "conn_Connect (demo_env (\<lambda>_. True)) ''openai'' demo_options demo_fields demo_store =
    (Inr demo_connection, [(''default/ai/other/meta'', ''kept''), (''default/ai/openai/api_key'', ''sk''), (''default/ai/openai/config/region'', ''eu''),
      (''default/ai/openai/config/alias_a'', ''x''), (''default/ai/openai/meta'', ''connectionopenai'')],
     [(''api_key'', replicate 2 (CHR 0x00)), (''alias_a'', ''x'')])"
  by code_simp

lemma demo_connect_fails:
  "conn_Connect (demo_env (\<lambda>p. p \<noteq> ''default/ai/openai/config/region'')) ''openai'' demo_options demo_fields demo_store =
    (Inl (WriteConfig ''region''), [(''default/ai/other/meta'', ''kept''), (''default/ai/openai/api_key'', ''sk'')],
     [(''api_key'', replicate 2 (CHR 0x00)), (''alias_a'', ''x'')])"
  by code_simp

subsection \<open>Storing\<close>

lemma map_of_zero_field [simp]:
  "map_of (zero_field n fs) m = (if m = n then map_option (\<lambda>v. replicate (length v) (CHR 0x00)) (map_of fs m) else map_of fs m)"
  by (induction fs) (auto simp: zero_field_def)

lemma put_secrets_frame:
  assumes "put_secrets E path sfs (d, fs) = (e, d', fs')" "p \<notin> path ` sd_Name ` set sfs"
  shows "map_of d' p = map_of d p"
  using assms by (induction sfs arbitrary: d fs) (auto split: option.splits if_splits)

lemma put_secrets_stored:
  assumes "put_secrets E path sfs (d, fs) = (None, d', fs')" "inj path" "distinct (map sd_Name sfs)"
    and "sf \<in> set sfs" "map_of fs (sd_Name sf) = Some v" "v \<noteq> []"
  shows "map_of d' (path (sd_Name sf)) = Some v"
  using assms
proof (induction sfs arbitrary: d fs)
  case (Cons x sfs)
  show ?case
  proof (cases "sf = x")
    case True
    then have s: "put_secrets E path sfs (AList.update (path (sd_Name x)) v d, zero_field (sd_Name x) fs) = (None, d', fs')"
      using Cons.prems by (auto split: if_splits)
    have "path (sd_Name x) \<notin> path ` sd_Name ` set sfs" using Cons.prems(2,3) by (auto dest: injD)
    then show ?thesis using put_secrets_frame [OF s, of "path (sd_Name x)"] True by simp
  next
    case False
    then have m: "sf \<in> set sfs" using Cons.prems(4) by simp
    then have ne: "sd_Name sf \<noteq> sd_Name x" using Cons.prems(3) by (metis distinct.simps(2) image_eqI list.set_map list.simps(9))
    show ?thesis using Cons.IH [OF _ Cons.prems(2) _ m] Cons.prems(1,3,5,6) ne
      by (auto split: option.splits if_splits)
  qed
qed simp

lemma storePrefixed_frame:
  assumes "storePrefixedConfig E path pre fs d = (e, d')" "\<And>s. p \<noteq> path (pre @ s)"
  shows "map_of d' p = map_of d p"
  using assms by (induction fs arbitrary: d) (auto simp: Let_def split: if_splits)

lemma ConfigFieldPath_prefix: "HasPrefix (ConfigFieldPath ns cat pr (a @ b)) (ConfigFieldPath ns cat pr a)"
  by (simp add: HasPrefix_prefix ConfigFieldPath_def)

lemma put_configs_frame:
  assumes "put_configs E (ConfigFieldPath ns cat pr) cfs fs d = (e, d')"
    and "\<forall>cf \<in> set cfs. \<not> config_path ns cat pr cf p"
  shows "map_of d' p = map_of d p"
  using assms
proof (induction cfs arbitrary: d)
  case (Cons cf cfs)
  show ?case
  proof (cases "cd_Prefix cf")
    case True
    then have ne: "p \<noteq> ConfigFieldPath ns cat pr (cd_Name cf @ s)" for s using Cons.prems(2) ConfigFieldPath_prefix by (auto simp: config_path_def)
    have "storePrefixedConfig E (ConfigFieldPath ns cat pr) (cd_Name cf) fs d = (x, d1) \<Longrightarrow> map_of d1 p = map_of d p" for x d1
      by (rule storePrefixed_frame) (use ne in auto)
    then show ?thesis using Cons.IH Cons.prems True by (auto split: prod.splits option.splits)
  next
    case False
    then have "p \<noteq> ConfigFieldPath ns cat pr (cd_Name cf)" using Cons.prems(2) by (simp add: config_path_def)
    then show ?thesis using Cons.IH Cons.prems False by (auto simp: Let_def split: if_splits option.splits)
  qed
qed simp

lemma connect_frame:
  assumes "conn_Connect E pr opts fs d = (res, d', fs')" "nv_Registry E pr = Some t"
    and "\<not> conn_path (if co_Namespace opts = [] then ''default'' else co_Namespace opts) (or_ai (pt_Category t)) pr t p"
  shows "map_of d' p = map_of d p"
proof -
  let ?ns = "if co_Namespace opts = [] then ''default'' else co_Namespace opts" and ?cat = "or_ai (pt_Category t)"
  have p: "p \<notin> SecretFieldPath ?ns ?cat pr ` sd_Name ` set (pt_SecretFields t)" "p \<noteq> connectionMetaPath ?ns ?cat pr"
    "\<forall>cf \<in> set (pt_ConfigFields t). \<not> config_path ?ns ?cat pr cf p"
    using assms(3) by (auto simp: conn_path_def)
  obtain e1 d1 fs1 where s1: "put_secrets E (SecretFieldPath ?ns ?cat pr) (pt_SecretFields t) (d, fs) = (e1, d1, fs1)"
    by (metis prod_cases3)
  obtain e2 d2 where s2: "put_configs E (ConfigFieldPath ?ns ?cat pr) (pt_ConfigFields t) fs1 d1 = (e2, d2)" by fastforce
  have "map_of d1 p = map_of d p" "map_of d2 p = map_of d1 p"
    using put_secrets_frame [OF s1 p(1)] put_configs_frame [OF s2 p(3)] by auto
  then show ?thesis using assms(1,2) p(2) s1 s2
    by (auto simp: conn_Connect_def Let_def split: store_read.splits option.splits if_splits)
qed

lemma connect_fields:
  assumes "conn_Connect E pr opts fs d = (Inr c, d', fs')" "nv_Registry E pr = Some t"
  shows "cn_Namespace c = (if co_Namespace opts = [] then ''default'' else co_Namespace opts) \<and> cn_Provider c = pr \<and>
    cn_Fields c = map sd_Name (pt_SecretFields t) \<and> cn_Status c = ''untested''"
  using assms by (auto simp: conn_Connect_def Let_def split: store_read.splits option.splits prod.splits if_splits)

text \<open>A connection that was made is in the store as it was supplied: every secret of the template that was not empty at its
  place, the metadata at theirs, and nothing else of the store has changed.
\<close>

theorem connect_stores:
  assumes "conn_Connect E pr opts fs d = (Inr c, d', fs')" "nv_Registry E pr = Some t" "template_ok t"
  shows "(\<forall>sf v. sf \<in> set (pt_SecretFields t) \<and> map_of fs (sd_Name sf) = Some v \<and> v \<noteq> [] \<longrightarrow>
      map_of d' (SecretFieldPath (cn_Namespace c) (or_ai (pt_Category t)) pr (sd_Name sf)) = Some v) \<and>
    map_of d' (connectionMetaPath (cn_Namespace c) (or_ai (pt_Category t)) pr) = Some (nv_Marshal E c) \<and>
    (\<forall>p. conn_path (cn_Namespace c) (or_ai (pt_Category t)) pr t p \<or> map_of d' p = map_of d p)"
proof -
  let ?ns = "cn_Namespace c" and ?cat = "or_ai (pt_Category t)"
  have ns: "?ns = (if co_Namespace opts = [] then ''default'' else co_Namespace opts)" using connect_fields [OF assms(1,2)] by simp
  obtain d1 d2 where s1: "put_secrets E (SecretFieldPath ?ns ?cat pr) (pt_SecretFields t) (d, fs) = (None, d1, fs')"
    and s2: "put_configs E (ConfigFieldPath ?ns ?cat pr) (pt_ConfigFields t) fs' d1 = (None, d2)"
    and m: "d' = AList.update (connectionMetaPath ?ns ?cat pr) (nv_Marshal E c) d2"
    using assms(1,2) by (auto simp: conn_Connect_def Let_def split: store_read.splits option.splits prod.splits if_splits)
  have "map_of d' (SecretFieldPath ?ns ?cat pr (sd_Name sf)) = Some v"
    if sf: "sf \<in> set (pt_SecretFields t)" "map_of fs (sd_Name sf) = Some v" "v \<noteq> []" for sf v
  proof -
    have n: "sd_Name sf \<noteq> ''meta''" "\<not> HasPrefix (sd_Name sf) ''config/''" using assms(3) sf(1) by (auto simp: template_ok_def)
    have "map_of d1 (SecretFieldPath ?ns ?cat pr (sd_Name sf)) = Some v"
      using assms(3) by (intro put_secrets_stored [OF s1 _ _ sf]) (auto simp: template_ok_def intro!: injI)
    moreover have "\<forall>cf \<in> set (pt_ConfigFields t). \<not> config_path ?ns ?cat pr cf (SecretFieldPath ?ns ?cat pr (sd_Name sf))"
      using config_not_secret [OF n(2), of ?ns ?cat pr] HasPrefix_self by (metis config_path_def)
    ultimately show ?thesis using put_configs_frame [OF s2] secret_not_meta [OF n(1)] m by simp
  qed
  moreover have "map_of d' (connectionMetaPath ?ns ?cat pr) = Some (nv_Marshal E c)" by (simp add: m)
  moreover have "conn_path ?ns ?cat pr t p \<or> map_of d' p = map_of d p" for p
    using connect_frame [OF assms(1,2), of p] unfolding ns [symmetric] by blast
  ultimately show ?thesis by blast
qed

theorem connect_stores_witness:
  "map_of [(''default/ai/other/meta'', ''kept''), (''default/ai/openai/api_key'', ''sk''), (''default/ai/openai/config/region'', ''eu''),
      (''default/ai/openai/config/alias_a'', ''x''), (''default/ai/openai/meta'', ''connectionopenai'')]
    (SecretFieldPath ''default'' ''ai'' ''openai'' ''api_key'') = Some ''sk''"
proof -
  have "\<lparr>sd_Name = ''api_key'', sd_Required = True\<rparr> \<in> set (pt_SecretFields demo_template)" "map_of demo_fields ''api_key'' = Some ''sk''"
    by (simp_all add: demo_template_def demo_fields_def)
  then show ?thesis
    using connect_stores [OF demo_connect demo_registry demo_template_ok, THEN conjunct1]
    by (fastforce simp: demo_connection_def or_ai_def demo_template_def)
qed

lemma connect_error_store:
  assumes "conn_Connect E pr opts fs d = (Inl e, d', fs')" "nv_Registry E pr = Some t"
    and "ns = (if co_Namespace opts = [] then ''default'' else co_Namespace opts)"
    and "put_secrets E (SecretFieldPath ns (or_ai (pt_Category t)) pr) (pt_SecretFields t) (d, fs) = (e1, d1, fs1)"
    and "put_configs E (ConfigFieldPath ns (or_ai (pt_Category t)) pr) (pt_ConfigFields t) fs1 d1 = (e2, d2)"
  shows "d' = d \<or> d' = d1 \<or> d' = d2"
proof -
  define meta where "meta = store_Get E d (connectionMetaPath ns (or_ai (pt_Category t)) pr)"
  note c = assms(1) [unfolded conn_Connect_def assms(2) option.case Let_def assms(3) [symmetric] assms(4,5) prod.case meta_def [symmetric]]
  show ?thesis
  proof (cases e1)
    case None
    then show ?thesis using c by (cases meta; cases e2; simp split: if_splits)
  next
    case (Some x)
    then show ?thesis using c by (cases meta; simp)
  qed
qed

text \<open>A connection that could not be made does not appear as one: its metadata are as before. What was stored before the
  error stays at the places of the connection: nothing is taken back, and no other place is touched.
\<close>

theorem connect_error_unlisted:
  assumes "conn_Connect E pr opts fs d = (Inl e, d', fs')" "nv_Registry E pr = Some t" "template_ok t"
    and "ns = (if co_Namespace opts = [] then ''default'' else co_Namespace opts)"
  shows "map_of d' (connectionMetaPath ns (or_ai (pt_Category t)) pr) = map_of d (connectionMetaPath ns (or_ai (pt_Category t)) pr) \<and>
    (\<forall>p. conn_path ns (or_ai (pt_Category t)) pr t p \<or> map_of d' p = map_of d p)"
proof -
  let ?cat = "or_ai (pt_Category t)"
  obtain e1 d1 fs1 where s1: "put_secrets E (SecretFieldPath ns ?cat pr) (pt_SecretFields t) (d, fs) = (e1, d1, fs1)"
    by (metis prod_cases3)
  obtain e2 d2 where s2: "put_configs E (ConfigFieldPath ns ?cat pr) (pt_ConfigFields t) fs1 d1 = (e2, d2)" by fastforce
  let ?meta = "connectionMetaPath ns ?cat pr"
  have "?meta \<notin> SecretFieldPath ns ?cat pr ` sd_Name ` set (pt_SecretFields t)"
    using assms(3) secret_not_meta [of _ ns ?cat pr, symmetric] unfolding template_ok_def image_iff by blast
  moreover have "\<forall>cf \<in> set (pt_ConfigFields t). \<not> config_path ns ?cat pr cf ?meta"
    using config_not_meta [of ns ?cat pr] HasPrefix_self by (metis config_path_def)
  ultimately have "map_of d1 ?meta = map_of d ?meta" "map_of d2 ?meta = map_of d1 ?meta"
    using put_secrets_frame [OF s1] put_configs_frame [OF s2] by auto
  then have "map_of d' ?meta = map_of d ?meta" using connect_error_store [OF assms(1,2,4) s1 s2] by auto
  moreover have "conn_path ns ?cat pr t p \<or> map_of d' p = map_of d p" for p
    using connect_frame [OF assms(1,2), of p] unfolding assms(4) [symmetric] by blast
  ultimately show ?thesis by blast
qed

theorem connect_error_unlisted_witness:
  "map_of [(''default/ai/other/meta'', ''kept''), (''default/ai/openai/api_key'', ''sk'')] (connectionMetaPath ''default'' ''ai'' ''openai'') =
    map_of demo_store (connectionMetaPath ''default'' ''ai'' ''openai'')"
  using connect_error_unlisted [OF demo_connect_fails demo_registry demo_template_ok, of "''default''"]
  by (simp add: demo_options_def or_ai_def demo_template_def)

text \<open>A store that cannot be read counts as one without the connection: nothing reports that it exists, and it is written over.\<close>

lemma put_secrets_error: "put_secrets E path sfs s = (e, s') \<Longrightarrow> e \<noteq> Some ErrConnectionExists \<and> e \<noteq> Some ErrAmbiguous"
  by (induction E path sfs s rule: put_secrets.induct) (auto split: option.splits if_splits)

lemma storePrefixed_error: "storePrefixedConfig E path pre fs d = (e, d') \<Longrightarrow> e \<noteq> Some ErrConnectionExists \<and> e \<noteq> Some ErrAmbiguous"
  by (induction E path pre fs d rule: storePrefixedConfig.induct) (auto simp: Let_def split: if_splits)

lemma put_configs_error: "put_configs E path cfs fs d = (e, d') \<Longrightarrow> e \<noteq> Some ErrConnectionExists \<and> e \<noteq> Some ErrAmbiguous"
  by (induction E path cfs fs d rule: put_configs.induct)
    (auto simp: Let_def split: if_splits option.splits prod.splits dest: storePrefixed_error)

theorem connect_unreadable_overwrites:
  assumes "nv_GetFails E (connectionMetaPath (if co_Namespace opts = [] then ''default'' else co_Namespace opts) (or_ai (pt_Category t)) pr)"
    and "nv_Registry E pr = Some t"
  shows "fst (conn_Connect E pr opts fs d) \<notin> {Inl ErrConnectionExists, Inl ErrAmbiguous}"
proof -
  define ns where "ns = (if co_Namespace opts = [] then ''default'' else co_Namespace opts)"
  define cat where "cat = or_ai (pt_Category t)"
  obtain e1 d1 fs1 where s1: "put_secrets E (SecretFieldPath ns cat pr) (pt_SecretFields t) (d, fs) = (e1, d1, fs1)"
    by (metis prod_cases3)
  obtain e2 d2 where s2: "put_configs E (ConfigFieldPath ns cat pr) (pt_ConfigFields t) fs1 d1 = (e2, d2)" by fastforce
  have "store_Get E d (connectionMetaPath ns cat pr) = StoreFails"
    using assms(1) unfolding ns_def [symmetric] cat_def [symmetric] by (simp add: store_Get_def)
  then show ?thesis
    unfolding conn_Connect_def assms(2) option.case Let_def ns_def [symmetric] cat_def [symmetric] s1
    using put_secrets_error [OF s1] put_configs_error [OF s2] by (cases e1; cases e2; simp add: s2)
qed

theorem connect_unreadable_overwrites_witness:
  "fst (conn_Connect (demo_env (\<lambda>_. True)\<lparr>nv_GetFails := \<lambda>_. True\<rparr>) ''openai'' demo_options demo_fields [(''default/ai/openai/meta'', ''old'')])
    \<notin> {Inl ErrConnectionExists, Inl ErrAmbiguous}"
  by (rule connect_unreadable_overwrites [where t = demo_template]) (simp_all add: demo_env_def)

subsection \<open>Deleting\<close>

text \<open>What a deletion has done when no operation fails: no failure is counted, the places are empty, others are as before.\<close>

definition deleted :: "(gostring \<Rightarrow> bool) \<Rightarrow> nat \<times> conn_store \<Rightarrow> nat \<times> conn_store \<Rightarrow> bool" where
  "deleted P s s' = (fst s' = fst s \<and> (\<forall>p. map_of (snd s') p = (if P p then None else map_of (snd s) p)))"

lemma deleted_comp: "deleted P s s1 \<Longrightarrow> deleted Q s1 s2 \<Longrightarrow> deleted (\<lambda>p. P p \<or> Q p) s s2"
  by (auto simp: deleted_def)

lemma deleted_fold:
  assumes "\<And>x s. deleted (P x) s (f x s)"
  shows "deleted (\<lambda>p. \<exists>x \<in> set xs. P x p) s (fold f xs s)"
proof (induction xs arbitrary: s)
  case (Cons x xs)
  have "deleted (\<lambda>p. P x p \<or> (\<exists>y \<in> set xs. P y p)) s (fold f xs (f x s))"
    using deleted_comp [OF assms Cons.IH] .
  then show ?case by simp
qed (simp add: deleted_def)

lemma deleted_path:
  assumes "\<forall>p. nv_DeleteOk E p"
  shows "deleted (\<lambda>p. p = k) s (del_path E k s)"
  using assms by (auto simp: deleted_def del_path_def)

lemma deleted_config:
  assumes "\<forall>p. nv_DeleteOk E p" "nv_ListOk E"
  shows "deleted (config_path ns cat pr cf) s (del_config E (ConfigFieldPath ns cat pr) cf s)"
proof (cases "cd_Prefix cf")
  case True
  let ?ks = "store_List (snd s) (ConfigFieldPath ns cat pr (cd_Name cf))"
  have d: "deleted (\<lambda>p. \<exists>k \<in> set ?ks. p = k) s (fold (del_path E) ?ks s)"
    by (rule deleted_fold) (rule deleted_path [OF assms(1)])
  have "(if p \<in> set ?ks then None else map_of (snd s) p) = (if config_path ns cat pr cf p then None else map_of (snd s) p)" for p
    using True by (auto simp: store_List_def config_path_def map_of_eq_None_iff)
  then show ?thesis using d True assms(2) by (simp add: deleted_def del_config_def)
next
  case False
  then have "config_path ns cat pr cf = (\<lambda>p. p = ConfigFieldPath ns cat pr (cd_Name cf))" by (simp add: config_path_def fun_eq_iff)
  then show ?thesis using deleted_path [OF assms(1)] False by (simp add: del_config_def)
qed

lemma delete_exact:
  assumes "nv_Registry E pr = Some t" "\<forall>p. nv_DeleteOk E p" "nv_ListOk E" "ns = (if namespace = [] then ''default'' else namespace)"
  shows "fst (conn_Delete E pr namespace d) = None \<and>
    (\<forall>p. map_of (snd (conn_Delete E pr namespace d)) p = (if conn_path ns (or_ai (pt_Category t)) pr t p then None else map_of d p))"
proof -
  let ?cat = "or_ai (pt_Category t)"
  let ?sec = "\<lambda>sf. del_path E (SecretFieldPath ns ?cat pr (sd_Name sf))" and ?cfg = "del_config E (ConfigFieldPath ns ?cat pr)"
  let ?s1 = "fold ?sec (pt_SecretFields t) (0, d)"
  let ?s2 = "fold ?cfg (pt_ConfigFields t) ?s1"
  let ?s3 = "del_path E (connectionMetaPath ns ?cat pr) ?s2"
  have "deleted (\<lambda>p. \<exists>sf \<in> set (pt_SecretFields t). p = SecretFieldPath ns ?cat pr (sd_Name sf)) (0, d) ?s1"
    by (rule deleted_fold) (rule deleted_path [OF assms(2)])
  moreover have "deleted (\<lambda>p. \<exists>cf \<in> set (pt_ConfigFields t). config_path ns ?cat pr cf p) ?s1 ?s2"
    by (rule deleted_fold) (rule deleted_config [OF assms(2,3)])
  moreover have "deleted (\<lambda>p. p = connectionMetaPath ns ?cat pr) ?s2 ?s3" by (rule deleted_path [OF assms(2)])
  ultimately have "deleted (\<lambda>p. ((\<exists>sf \<in> set (pt_SecretFields t). p = SecretFieldPath ns ?cat pr (sd_Name sf)) \<or>
      (\<exists>cf \<in> set (pt_ConfigFields t). config_path ns ?cat pr cf p)) \<or> p = connectionMetaPath ns ?cat pr) (0, d) ?s3"
    by (intro deleted_comp)
  moreover have "conn_Delete E pr namespace d = (if fst ?s3 > 0 then Some (DeleteFailures (fst ?s3)) else None, snd ?s3)"
    by (simp add: conn_Delete_def assms(1,4) Let_def)
  ultimately show ?thesis by (auto simp: deleted_def conn_path_def)
qed



subsection \<open>Testing\<close>

definition test_statuses :: "gostring set" where
  "test_statuses = {''connected'', ''missing'', ''invalid'', ''insufficient_scope'', ''rate_limited'', ''network_error''}"

text \<open>What a health test reports is one of six words, a status code and markers of the template, whatever the provider
  answers; and of the store it changes at most the metadata of the connection.
\<close>

theorem test_reports_closed:
  assumes "conn_Test E pr namespace d = (Inr r, d')" "ns = (if namespace = [] then ''default'' else namespace)"
  shows "ts_Status r \<in> test_statuses \<and>
    (ts_Markers r = [] \<or> (\<exists>t. nv_Registry E pr = Some t \<and> set (ts_Markers r) \<subseteq> set (pt_Markers t))) \<and>
    (\<forall>p. p = connectionMetaPath ns (template_category E pr) pr \<or> map_of d' p = map_of d p)"
proof -
  have st: "mapHTTPStatusToEnum c \<in> test_statuses" "''invalid'' \<in> test_statuses" "''missing'' \<in> test_statuses"
    "''network_error'' \<in> test_statuses" for c by (simp_all add: mapHTTPStatusToEnum_def test_statuses_def)
  have ex: "ts_Status x \<in> test_statuses \<and> set (ts_Markers x) \<subseteq> set (pt_Markers t)" if "executeTestStrategy E t pr n d = Some x" for t x n
    using that st
    by (auto simp: executeTestStrategy_def runHTTPStrategy_def runGitHubAppStrategy_def Let_def
      split: if_splits option.splits store_read.splits)
  have up: "p = connectionMetaPath ns (template_category E pr) pr \<or> map_of (updateLastTested E ns pr d) p = map_of d p" for p
    by (auto simp: updateLastTested_def Let_def split: sum.split)
  show ?thesis using assms ex up st
    by (fastforce simp: conn_Test_def Let_def split: sum.splits load_error.splits option.splits)
qed

theorem test_reports_closed_witness:
  "ts_Markers (case conn_Test (demo_env (\<lambda>_. True)) ''openai'' [] [(''default/ai/openai/meta'', ''m'')] of (Inr r, _) \<Rightarrow> r) = [''gpt''] \<and>
   ts_Status (case conn_Test (demo_env (\<lambda>_. True)) ''openai'' [] [(''default/ai/openai/meta'', ''m'')] of (Inr r, _) \<Rightarrow> r) \<in> test_statuses"
proof -
  have t: "conn_Test (demo_env (\<lambda>_. True)) ''openai'' [] [(''default/ai/openai/meta'', ''m'')] =
    (Inr \<lparr>ts_Status = ''connected'', ts_StatusCode = 200, ts_Markers = [''gpt'']\<rparr>, [(''default/ai/openai/meta'', ''connectionopenai'')])"
    by code_simp
  show ?thesis using test_reports_closed [OF t refl] unfolding t by simp
qed

end
