(* ===== verification/Spec2Isabelle.thy ===== *)
theory Spec2Isabelle
  imports Policy Grant Gateway_Token Approval Keyring Audit_Chain Org_Policy Vault_History Gateway_Safety
    Session_Detection Run_Limits Runner_Policy Sandbox_Safety Team_Facts Team_Quorum Break_Glass Team_Registry Mint_Facts
    Token_Broker_Facts Audit_Reader_Facts UI_Server_Facts Proxy_Facts Connection_Facts
begin

text \<open>
  A verification library for Keylatch, a broker that lets commands and coding agents use credentials without seeing
  them. Names of files are relative to \<open>src/\<close>.

  The program. A person stores secrets and the metadata of connections in a vault. \<open>keylatch run\<close> classifies its
  session, checks the connection and starts a command through a driver of a runtime mode; the typed driver mints a
  token for the command and names the local gateway to it. The gateway verifies the token, matches the request with a
  route of the provider templates, asks the policy engine, the budget and the address gate, takes the credential from
  the vault through a broker, calls the provider and masks what it answers. Approvals, capability grants and the
  organisation's bundle widen or narrow what policy allows; the audit log records what happened. The vault's file
  backend seals values under the keys of a keyring.

  Conventions. A Go string is a list of bytes written as characters, an error is a value of a datatype of the
  component or its message, a result with an error is a sum. Time is in nanoseconds; where the code adds or subtracts
  64-bit integers and the result could leave the range, \<open>wrap64\<close>, saturation or a word type says what happens.
  Nonce counters are 64-bit words, addresses 128-bit words, budget amounts rationals rounded as binary64. A component that works on files takes its part of the file system as
  a value and returns the new one; where a write can fail or be torn, the outcome is an argument. Goroutines and
  processes are sequences of events or an inductive step relation. The standard library of Go is modelled where the
  code uses it (\<open>strings\<close>, \<open>path.Match\<close>, \<open>filepath.Clean\<close>, \<open>Join\<close> and \<open>Rel\<close>, JSON output, canonical header names);
  cryptography, JWT, base64, YAML, DNS, unicode tables and the operating system are parameters, and what a theorem needs
  of them is a named hypothesis that its witness discharges for a concrete function.

  Shared vocabulary.
  \<^item> \<open>KL_Prelude\<close>: bytes, strings, decimal numbers, time, files; \<open>Json_Text\<close>: JSON strings and objects as written;
    \<open>File_Path\<close>: lexical paths; \<open>Path_Match\<close>: the glob matcher of \<open>path.Match\<close> with its errors; \<open>Sample_Codec\<close>: a byte codec
    that witnesses use where base64 is a parameter.
  \<^item> \<open>Consumption_Log\<close>: append-only use logs as bytes, with torn last lines, and the locale \<open>use_counter\<close> of objects that
    count their uses there. Grants and tokens interpret it, and their bounds on uses rest on its run lemma.

  Decisions.
  \<^item> \<open>Policy\<close> (\<open>internal/policy\<close>, \<open>internal/trust/trust.go\<close>): the document, \<open>Check\<close> with every branch, \<open>Load\<close> and \<open>Save\<close>.
    Lemmas: first match, default denial, read-class denial in agent sessions, no bypass of approval.
  \<^item> \<open>Grant\<close> (\<open>internal/grant\<close>): creation, revocation, command and directory scopes, use counting.
  \<^item> \<open>Gateway_Token\<close> (\<open>internal/gateway/token\<close>): minting, verification, revocation, use counting.
  \<^item> \<open>Approval\<close> (\<open>internal/gateway/approval\<close>): requests, signed decisions, single use; \<open>approval_step\<close> is the step relation
    of the directory under the operations and under tampering.
  \<^item> \<open>Org_Policy\<close> (\<open>internal/team/bundlesig\<close>, \<open>internal/team/orgpolicy\<close>): signed bundles, installation, composition.
  \<^item> \<open>Budget\<close> (\<open>internal/budget\<close>): windows per actor and capability, with the invariant that bounds what is admitted.

  Storage.
  \<^item> \<open>Keyring\<close> (\<open>internal/crypto/keyring\<close>): terms, nonce leases and rotation by any number of processes over one file; the
    invariant \<open>nonce_inv\<close> gives uniqueness of nonces. The lock order of two operations is a relation of its own.
  \<^item> \<open>Json_Canonical\<close> (\<open>internal/crypto/jcs\<close>, \<open>internal/crypto/aad\<close>): canonical JSON and the bytes a ciphertext is bound to.
  \<^item> \<open>Vault_Path\<close>, \<open>Vault_Meta\<close> (\<open>internal/vault/path\<close>, \<open>internal/vault/meta\<close>): secret names and metadata.
  \<^item> \<open>File_Backend\<close>, \<open>File_Store\<close> (\<open>internal/backend/file\<close>, \<open>internal/crypto/envelope\<close>): the versioned and the flat layout.
  \<^item> \<open>Vault_Ops\<close> (\<open>internal/vault\<close>): audited operations over a record of backend functions. The locale \<open>metadata_backend\<close> is
    what the vault relies on, \<open>versioned_backend\<close> in \<open>Vault_History\<close> extends it; both are interpreted on the file backend.
    \<open>Vault_History\<close> states the abstract version history and that rotation and destruction implement it.
  \<^item> \<open>Audit_Chain\<close> (\<open>internal/audit\<close>): the chained log over files of bytes, with rotation, torn writes and failed syncs.
    \<open>Audit_Readers\<close>, \<open>Audit_Reader_Facts\<close>: the line scanner, search, summary, following, pruning, retention and redaction.

  The gateway.
  \<^item> \<open>Gateway_Http\<close>, \<open>Gateway_Route\<close>, \<open>Static_Broker\<close>, \<open>Masking\<close>: middleware and headers, routes, the credential cache, masking.
  \<^item> \<open>Gateway_Handler\<close>, \<open>Gateway_Safety\<close> (\<open>internal/gateway/handler.go\<close>, \<open>server.go\<close>): the handler as a composition of
    steps in a state and error monad (\<open>gw_bind\<close>), the middleware chain, the start of the server. The collection
    \<open>gwstep\<close> says when each step goes on; the theorems on guarded calls, upstream requests and liveness rest on it.

  Sessions and runs.
  \<^item> \<open>Session_Paths\<close> (\<open>internal/paths\<close>), \<open>Agent_Session\<close>, \<open>Session_Detection\<close> (\<open>internal/llmcontext\<close>, \<open>internal/harness\<close>,
    \<open>internal/policy/actor\<close>, \<open>internal/cli/launch_cmd.go\<close>): how a session is recognised and what that guarantees.
  \<^item> \<open>Child_Env\<close>, \<open>Child_Env_Facts\<close> (\<open>internal/runtime\<close>, \<open>internal/canary\<close>, \<open>internal/proxy\<close>): modes and child environments.
  \<^item> \<open>Edit_Distance\<close> (\<open>internal/cmderr\<close>): the two spelling distances, equal to the cost of a best alignment.
  \<^item> \<open>Runner\<close>, \<open>Runner_Policy\<close> (\<open>internal/runner\<close>, \<open>internal/manifest\<close>), \<open>Run_Command\<close> (\<open>internal/cli/root.go\<close>), \<open>Run_Facts\<close>,
    \<open>Run_Limits\<close>: drivers, dispatcher and the command itself, with the list of effects (vault reads, starts) as result.
  \<^item> \<open>Sandbox\<close>, \<open>Sandbox_Safety\<close> (\<open>internal/sandbox\<close>): profiles, protected paths, and what the sandboxes are started with.

  Teams and minting.
  \<^item> \<open>Team_Members\<close>, \<open>Team_Facts\<close> (\<open>internal/team\<close>, \<open>internal/team/scim\<close>, \<open>internal/cli/team_cmd.go\<close>): roles, the team's file,
    invites, the commands and the SCIM handlers. The invariant \<open>one_active_owner\<close> holds under every command and fails
    under provisioning.
  \<^item> \<open>Team_Quorum\<close>, \<open>Break_Glass\<close>, \<open>Team_Registry\<close> (\<open>internal/team/approval\<close>, \<open>breakglass\<close>, \<open>registry\<close>): approvals by several
    members, emergency access counted per member in a locked file, the signed registry of a team.
  \<^item> \<open>Mint\<close>, \<open>Mint_Facts\<close> (\<open>internal/policy/mint\<close>, \<open>internal/broker/strategies/github_app.go\<close>, \<open>internal/cli/mint_cmd.go\<close>):
    \<open>keylatch mint\<close> with its policy, the scoped token of a GitHub App and the list of effects (reads, requests,
    revocations, audit lines, output) as result.

  Services.
  \<^item> \<open>Token_Broker\<close>, \<open>Token_Broker_Facts\<close> (\<open>internal/broker\<close>): the broker of short-lived tokens. An exchange is a program
    counter (\<open>exchange_step\<close>), and \<open>tb_step\<close> interleaves any number of them with revocations, evictions and the vault lock;
    the invariant \<open>isolated\<close> says whose token an exchange can return.
  \<^item> \<open>UI_Server\<close>, \<open>UI_Server_Facts\<close> (\<open>internal/ui\<close>): the server of the browser interface as a function of a request and a
    world: the route table per scope, the tree walk of the mux, sessions, the double-submitted token, the limiter,
    settings and receipts. \<open>out_of_reach\<close> states that a request is answered in the same way whatever the handlers behind
    the guards are.
  \<^item> \<open>Proxy_Server\<close>, \<open>Proxy_Facts\<close> (\<open>internal/proxy\<close>): profiles and their validation, plain requests, tunnels and the cache
    of certificates; the world records denials, vault reads, requests sent and connections opened.
  \<^item> \<open>Connections\<close>, \<open>Connection_Facts\<close> (\<open>internal/connections\<close>): making, testing, listing, describing and deleting the
    connection of a provider. \<open>conn_path\<close> says which paths of the store belong to a connection; all else stays as it is, and
    deleting takes away exactly these.

  Bounds. The process walk stops at the code's own limit of 64 ancestors. Every recursion over strings, globs and
  chunks has a measure; the resolution of missing paths (\<open>resolve_from\<close>) takes as fuel the length of the path, and
  \<open>symlink_walk_stops\<close> shows that it never runs out, since each round drops the last element. The generations
  of an audit log and the term list of a keyring are finite lists, so their loops are structural.

  Not modelled, and why.
  \<^item> The command line beyond \<open>launch\<close>, \<open>run\<close>, \<open>mint\<close> and \<open>team\<close>, diagnostics, completion and telemetry: they
    parse, print or forward to the packages above.
  \<^item> The drivers of external password managers, secret references, hardware adapters, key-encryption keys and OAuth
    clients: their behaviour is that of the command, device or service they call.
  \<^item> The process runner, the daemon, signals and sockets: operating system calls without decisions of their own.
  \<^item> The regular expressions of the text redactor, YAML loading of templates and profiles, and configuration decoding:
    done by libraries; the values they produce are parameters.
  \<^item> The handlers of the user interface that list or store connections and drive the wizard, the event streams and the
    administration console: parameters of \<open>UI_Server\<close>.
  \<^item> Sockets, TLS and the streaming of answers in the proxy; JSON and the registry for connections.
  \<^item> The export of audit events; the other strategies of the token broker, which call providers; CI and OIDC adapters, shared secrets and reports of teams, unreachable in this build.
\<close>

end
